(* ===== verification/Prelude.thy ===== *)
theory Prelude
  imports Main "HOL-Library.AList"
begin

text \<open>The names shared by every component of the development: the clock, JavaScript's ordered
  \<^verbatim>\<open>Map\<close> as an association list without repeated keys, opaque handles for objects of libraries the
  application only holds (an Arrow table, an abort controller, a script in the Wasm heap), the
  theorem collections, and generic lemmas about lists, options and maps.\<close>

section \<open>Types\<close>

text \<open>A \<^verbatim>\<open>Date\<close> is its number of milliseconds. The readings of \<^verbatim>\<open>new Date()\<close> inside one call are a
  function from the number of the reading (in evaluation order) to its value.\<close>

type_synonym timestamp = int
type_synonym clock = "nat \<Rightarrow> timestamp"
type_synonym handle = nat

text \<open>The string \<^verbatim>\<open>date.toISOString()\<close>, which keeps exactly the millisecond value of the date.\<close>

datatype iso_date = ISO timestamp

text \<open>JavaScript's \<^verbatim>\<open>Map\<close>: \<^verbatim>\<open>set\<close> overwrites in place or appends, \<^verbatim>\<open>delete\<close> removes, the iteration
  order is the order of the first insertion.\<close>

type_synonym ('k, 'v) jsmap = "('k \<times> 'v) list"

abbreviation js_get :: "('k, 'v) jsmap \<Rightarrow> 'k \<Rightarrow> 'v option" where
  "js_get m k \<equiv> map_of m k"

abbreviation js_has :: "('k, 'v) jsmap \<Rightarrow> 'k \<Rightarrow> bool" where
  "js_has m k \<equiv> map_of m k \<noteq> None"

abbreviation js_set :: "('k, 'v) jsmap \<Rightarrow> 'k \<Rightarrow> 'v \<Rightarrow> ('k, 'v) jsmap" where
  "js_set m k v \<equiv> AList.update k v m"

abbreviation js_delete :: "('k, 'v) jsmap \<Rightarrow> 'k \<Rightarrow> ('k, 'v) jsmap" where
  "js_delete m k \<equiv> AList.delete k m"

abbreviation js_keys :: "('k, 'v) jsmap \<Rightarrow> 'k list" where
  "js_keys m \<equiv> map fst m"

definition jsmap_ok :: "('k, 'v) jsmap \<Rightarrow> bool" where
  "jsmap_ok m \<longleftrightarrow> distinct (js_keys m)"

section \<open>Collections\<close>

named_theorems js_number "ECMAScript number operations read as 32-bit words"
named_theorems conn_defs "definitions of the connection reducers"
named_theorems storage_defs "definitions of the storage writer's operations"
named_theorems comp_defs "definitions of the computation reducer"
named_theorems agent_defs "definitions of the agent loop"

section \<open>Maps\<close>

lemma jsmap_ok_Nil [simp]: "jsmap_ok []"
  by (simp add: jsmap_ok_def)

lemma js_get_set: "js_get (js_set m k v) k' = (if k' = k then Some v else js_get m k')"
  by (simp add: update_conv')

lemma js_get_delete: "js_get (js_delete m k) k' = (if k' = k then None else js_get m k')"
  by (simp add: delete_conv')

lemma jsmap_ok_set [simp]: "jsmap_ok m \<Longrightarrow> jsmap_ok (js_set m k v)"
  unfolding jsmap_ok_def by (rule distinct_update)

lemma jsmap_ok_delete [simp]: "jsmap_ok m \<Longrightarrow> jsmap_ok (js_delete m k)"
  unfolding jsmap_ok_def by (rule distinct_delete)

lemma js_keys_set: "js_keys (js_set m k v) = (if k \<in> set (js_keys m) then js_keys m else js_keys m @ [k])"
  by (simp add: update_keys)

lemma js_keys_set_set: "set (js_keys (js_set m k v)) = insert k (set (js_keys m))"
  by (auto simp: update_keys)

lemma js_keys_delete: "js_keys (js_delete m k) = filter (\<lambda>x. x \<noteq> k) (js_keys m)"
  by (induction m) auto

lemma keys_js_set [simp]: "fst ` set (js_set m k v) = insert k (fst ` set m)"
proof -
  have "set (js_keys (js_set m k v)) = insert k (set (js_keys m))" by (rule js_keys_set_set)
  then show ?thesis by (simp only: set_map)
qed

lemma keys_js_delete [simp]: "fst ` set (js_delete m k) = fst ` set m - {k}"
proof -
  have "set (js_keys (js_delete m k)) = set (filter (\<lambda>x. x \<noteq> k) (js_keys m))"
    by (simp only: js_keys_delete)
  then show ?thesis by auto
qed

lemma keys_get_None: "js_get m k = None \<longleftrightarrow> k \<notin> fst ` set m"
  by (simp add: map_of_eq_None_iff)

lemma keys_get_Some: "js_get m k = Some v \<Longrightarrow> k \<in> fst ` set m"
  by (force dest: map_of_SomeD)

lemma list_all_js_set: "list_all P m \<Longrightarrow> P (k, v) \<Longrightarrow> list_all P (js_set m k v)"
  by (induction m) auto

lemma list_all_js_delete: "list_all P m \<Longrightarrow> list_all P (js_delete m k)"
  by (induction m) auto

lemma js_has_iff: "js_has m k \<longleftrightarrow> k \<in> set (js_keys m)"
  by (simp add: map_of_eq_None_iff)

lemma js_get_in_values: "js_get m k = Some v \<Longrightarrow> (k, v) \<in> set m"
  by (rule map_of_SomeD)

lemma js_in_get: "jsmap_ok m \<Longrightarrow> (k, v) \<in> set m \<Longrightarrow> js_get m k = Some v"
  by (simp add: jsmap_ok_def)

lemma js_delete_id: "js_get m k = None \<Longrightarrow> js_delete m k = m"
  by (induction m) (auto split: if_splits)

section \<open>Lists and options\<close>

lemma filter_remove1_distinct:
  "distinct xs \<Longrightarrow> remove1 x xs = filter (\<lambda>y. y \<noteq> x) xs"
  by (rule distinct_remove1_removeAll [THEN trans]) (simp_all add: removeAll_filter_not_eq, metis)

lemma append_eq_length_take: "length xs = n \<Longrightarrow> take n (xs @ ys) = xs"
  by simp

lemma option_case_Some: "(case x of None \<Rightarrow> a | Some y \<Rightarrow> f y) = Some z \<Longrightarrow> a = None \<Longrightarrow> \<exists>y. x = Some y \<and> f y = Some z"
  by (cases x) simp_all

end
