(* ===== verification/Connector_Types.thy ===== *)
theory Connector_Types
  imports Prelude
begin

text \<open>The connector descriptions of \<^verbatim>\<open>connection/connector_info.ts\<close>. \<^verbatim>\<open>isNativePlatform()\<close> is a
  parameter of the definitions that read it.\<close>

datatype ConnectorType = DATALESS | HYPER | SALESFORCE_DATA_CLOUD | TRINO

definition CONNECTOR_TYPES :: "ConnectorType list" where
  "CONNECTOR_TYPES = [DATALESS, HYPER, SALESFORCE_DATA_CLOUD, TRINO]"

text \<open>The number of an enum value, used as an index by \<^verbatim>\<open>CONNECTOR_INFOS[type as number]\<close>.\<close>

fun connectorType_number :: "ConnectorType \<Rightarrow> nat" where
  "connectorType_number DATALESS = 0"
| "connectorType_number HYPER = 1"
| "connectorType_number SALESFORCE_DATA_CLOUD = 2"
| "connectorType_number TRINO = 3"

datatype CatalogResolver = SQL_SCRIPT | SQL_INFORMATION_SCHEMA | SQL_PG_ATTRIBUTE | SALESFORCE_METDATA_API

record ConnectorNames =
  displayLong :: string
  displayShort :: string
  fileShort :: string

record ConnectorIcons =
  colored :: string
  uncolored :: string
  outlines :: string

record ConnectorFeatures =
  manualSetup :: bool
  healthChecks :: bool
  schemaScript :: bool
  executeQueryAction :: bool
  refreshSchemaAction :: bool

record ConnectorPlatforms =
  browser :: bool
  native :: bool

record ConnectorInfo =
  connectorType :: ConnectorType
  names :: ConnectorNames
  icons :: ConnectorIcons
  catalogResolver :: CatalogResolver
  features :: ConnectorFeatures
  platforms :: ConnectorPlatforms

definition CONNECTOR_INFO_DATALESS :: ConnectorInfo where
  "CONNECTOR_INFO_DATALESS =
    \<lparr>connectorType = DATALESS,
     names = \<lparr>displayLong = ''Dataless'', displayShort = ''Dataless'', fileShort = ''dataless''\<rparr>,
     icons = \<lparr>colored = ''cloud_offline'', uncolored = ''cloud_offline'', outlines = ''cloud_offline''\<rparr>,
     catalogResolver = SQL_SCRIPT,
     features = \<lparr>manualSetup = False, healthChecks = False, schemaScript = True,
                 executeQueryAction = False, refreshSchemaAction = False\<rparr>,
     platforms = \<lparr>browser = True, native = True\<rparr>\<rparr>"

definition CONNECTOR_INFO_HYPER :: ConnectorInfo where
  "CONNECTOR_INFO_HYPER =
    \<lparr>connectorType = HYPER,
     names = \<lparr>displayLong = ''Hyper'', displayShort = ''Hyper'', fileShort = ''hyper''\<rparr>,
     icons = \<lparr>colored = ''hyper'', uncolored = ''hyper_nocolor'', outlines = ''hyper_outlines''\<rparr>,
     catalogResolver = SQL_PG_ATTRIBUTE,
     features = \<lparr>manualSetup = True, healthChecks = True, schemaScript = False,
                 executeQueryAction = True, refreshSchemaAction = True\<rparr>,
     platforms = \<lparr>browser = True, native = True\<rparr>\<rparr>"

definition CONNECTOR_INFO_SALESFORCE :: ConnectorInfo where
  "CONNECTOR_INFO_SALESFORCE =
    \<lparr>connectorType = SALESFORCE_DATA_CLOUD,
     names = \<lparr>displayLong = ''Salesforce Data Cloud'', displayShort = ''Salesforce'', fileShort = ''sfdc''\<rparr>,
     icons = \<lparr>colored = ''salesforce_notext'', uncolored = ''salesforce_notext_nocolor'',
              outlines = ''salesforce_outlines''\<rparr>,
     catalogResolver = SALESFORCE_METDATA_API,
     features = \<lparr>manualSetup = True, healthChecks = True, schemaScript = False,
                 executeQueryAction = True, refreshSchemaAction = True\<rparr>,
     platforms = \<lparr>browser = True, native = True\<rparr>\<rparr>"

definition CONNECTOR_INFO_TRINO :: ConnectorInfo where
  "CONNECTOR_INFO_TRINO =
    \<lparr>connectorType = TRINO,
     names = \<lparr>displayLong = ''Trino'', displayShort = ''Trino'', fileShort = ''trino''\<rparr>,
     icons = \<lparr>colored = ''trino'', uncolored = ''trino_nocolor'', outlines = ''trino_outlines''\<rparr>,
     catalogResolver = SQL_INFORMATION_SCHEMA,
     features = \<lparr>manualSetup = True, healthChecks = True, schemaScript = False,
                 executeQueryAction = True, refreshSchemaAction = True\<rparr>,
     platforms = \<lparr>browser = True, native = True\<rparr>\<rparr>"

definition CONNECTOR_INFOS :: "ConnectorInfo list" where
  "CONNECTOR_INFOS =
    [CONNECTOR_INFO_DATALESS, CONNECTOR_INFO_HYPER, CONNECTOR_INFO_SALESFORCE, CONNECTOR_INFO_TRINO]"

definition connectorInfoForType :: "ConnectorType \<Rightarrow> ConnectorInfo" where
  "connectorInfoForType t = CONNECTOR_INFOS ! connectorType_number t"

definition createDatalessConnectorInfo :: "bool \<Rightarrow> ConnectorInfo" where
  "createDatalessConnectorInfo demoConnector =
    (if \<not> demoConnector then connectorInfoForType DATALESS
     else (connectorInfoForType DATALESS)
       \<lparr>catalogResolver := SQL_INFORMATION_SCHEMA,
        features := \<lparr>manualSetup = True, healthChecks = True, schemaScript = False,
                     executeQueryAction = True, refreshSchemaAction = True\<rparr>,
        platforms := \<lparr>browser = True, native = True\<rparr>\<rparr>)"

text \<open>Which of the four keys a parameter object has, with the \<^verbatim>\<open>demoConnector\<close> flag of the dataless
  parameters (\<open>None\<close> when it is missing).\<close>

record ParamKeys =
  pk_dataless :: "bool option option"
  pk_hyper :: bool
  pk_salesforce :: bool
  pk_trino :: bool

definition getConnectorInfoForParams :: "ParamKeys \<Rightarrow> ConnectorInfo option" where
  "getConnectorInfoForParams p =
    (case pk_dataless p of
       Some demo \<Rightarrow> Some (createDatalessConnectorInfo (case demo of Some b \<Rightarrow> b | None \<Rightarrow> False))
     | None \<Rightarrow>
        if pk_hyper p then Some (connectorInfoForType HYPER)
        else if pk_salesforce p then Some (connectorInfoForType SALESFORCE_DATA_CLOUD)
        else if pk_trino p then Some (connectorInfoForType TRINO)
        else None)"

definition requiresSwitchingToNative :: "bool \<Rightarrow> ConnectorInfo \<Rightarrow> bool" where
  "requiresSwitchingToNative isNativePlatform info \<longleftrightarrow>
    \<not> browser (platforms info) \<and> \<not> isNativePlatform"

lemmas connector_info_defs = CONNECTOR_INFO_DATALESS_def CONNECTOR_INFO_HYPER_def
  CONNECTOR_INFO_SALESFORCE_def CONNECTOR_INFO_TRINO_def

text \<open>The table is indexed consistently: the entry for a type describes that type.\<close>

lemma connectorType_connectorInfoForType [simp]: "connectorType (connectorInfoForType t) = t"
  by (cases t) (simp_all add: connectorInfoForType_def CONNECTOR_INFOS_def connector_info_defs)

lemma connectorType_createDatalessConnectorInfo [simp]:
  "connectorType (createDatalessConnectorInfo d) = DATALESS"
  by (simp add: createDatalessConnectorInfo_def)


text \<open>The details each connector keeps, following \<^verbatim>\<open>proto/json/dashql/connection.json\<close> and
  \<^verbatim>\<open>auth.json\<close>; an absent property is \<open>None\<close>, a channel is a handle.\<close>

section \<open>Connector details\<close>

record DetailedError =
  message :: string
  data :: "(string \<times> string) list option"

type_synonym json_object = "(string \<times> string) list"

record SetupTimings =
  channelSetupStartedAt :: "iso_date option"
  channelSetupCancelledAt :: "iso_date option"
  channelSetupFailedAt :: "iso_date option"
  channelReadyAt :: "iso_date option"
  healthCheckStartedAt :: "iso_date option"
  healthCheckCancelledAt :: "iso_date option"
  healthCheckFailedAt :: "iso_date option"
  healthCheckSucceededAt :: "iso_date option"

text \<open>The OAuth timings of the Trino connector extend the common ones; those of the Salesforce
  connector too.\<close>

record TrinoSetupTimings = SetupTimings +
  tr_oauthStartedAt :: "iso_date option"
  tr_oauthCancelledAt :: "iso_date option"
  tr_oauthFailedAt :: "iso_date option"
  tr_pkceGenStartedAt :: "iso_date option"
  tr_pkceGenFinishedAt :: "iso_date option"
  tr_oauthBrowserOpenedAt :: "iso_date option"
  tr_oauthCodeReceivedAt :: "iso_date option"
  tr_accessTokenRequestedAt :: "iso_date option"
  tr_accessTokenReceivedAt :: "iso_date option"

record SalesforceSetupTimings = SetupTimings +
  authStartedAt :: "iso_date option"
  authCancelledAt :: "iso_date option"
  authFailedAt :: "iso_date option"
  pkceGenStartedAt :: "iso_date option"
  pkceGenFinishedAt :: "iso_date option"
  openedNativeAuthLinkAt :: "iso_date option"
  openedWebAuthWindowAt :: "iso_date option"
  closedWebAuthWindowAt :: "iso_date option"
  oauthCodeReceivedAt :: "iso_date option"
  coreAccessTokenRequestedAt :: "iso_date option"
  coreAccessTokenReceivedAt :: "iso_date option"
  dataCloudAccessTokenRequestedAt :: "iso_date option"
  dataCloudAccessTokenReceivedAt :: "iso_date option"

definition no_setupTimings :: SetupTimings where
  "no_setupTimings = SetupTimings.make None None None None None None None None"

definition no_trinoSetupTimings :: TrinoSetupTimings where
  "no_trinoSetupTimings = SetupTimings.extend no_setupTimings
    (TrinoSetupTimings.fields None None None None None None None None None)"

definition no_salesforceSetupTimings :: SalesforceSetupTimings where
  "no_salesforceSetupTimings = SetupTimings.extend no_setupTimings
    (SalesforceSetupTimings.fields None None None None None None None None None None None None None)"

record OAuthPKCEChallenge =
  pkce_value :: string
  pkce_verifier :: string

record TemporaryToken =
  token :: string
  createdAt :: iso_date

record DatalessParams =
  demoConnector :: "bool option"

record DatalessConnectionDetails =
  dl_setupParams :: DatalessParams
  dl_channelError :: "DetailedError option"

record TlsConfig =
  clientKeyPath :: string
  clientCertPath :: string
  caCertsPath :: string

datatype HyperProtocol = V3_DOCKER | V3_GRPC | V3_HTTP

record HyperConnectionParams =
  hy_protocol :: HyperProtocol
  hy_endpoint :: string
  hy_tls :: TlsConfig
  hy_attachedDatabases :: "handle list option"
  hy_metadata :: "json_object option"
  hy_queryParameters :: "json_object option"

record HyperConnectionDetailsProto =
  hy_setupTimings :: SetupTimings
  hy_setupParams :: HyperConnectionParams
  hy_channelError :: "DetailedError option"
  hy_healthCheckError :: "DetailedError option"

datatype AuthType = AUTH_BASIC | AUTH_OAUTH

record BasicAuthParams =
  username :: string
  secret :: string

record TrinoOAuthParams =
  authorizationUrl :: string
  tokenUrl :: string
  clientId :: string
  callbackUrl :: string
  scopes :: "string list option"

record TrinoAuthParams =
  authType :: AuthType
  basic :: "BasicAuthParams option"
  oauth :: "TrinoOAuthParams option"

record TrinoConnectionParams =
  tr_endpoint :: string
  tr_auth :: TrinoAuthParams
  tr_catalogName :: string
  tr_schemaNames :: "string list option"
  tr_metadata :: "json_object option"

text \<open>Tokens are kept as the JSON objects the providers return; \<^verbatim>\<open>{}\<close> is the empty list.\<close>

record TrinoOAuthState =
  tr_oauthPkce :: OAuthPKCEChallenge
  tr_authCode :: TemporaryToken
  tr_accessToken :: json_object

record TrinoConnectionDetailsProto =
  tr_setupTimings :: TrinoSetupTimings
  tr_setupParams :: TrinoConnectionParams
  tr_channelError :: "DetailedError option"
  tr_healthCheckError :: "DetailedError option"
  tr_schemaResolutionError :: "DetailedError option"
  tr_oauthState :: "TrinoOAuthState option"

record SalesforceConnectionParams =
  sf_hyperProtocol :: HyperProtocol
  sf_instanceUrl :: string
  sf_appConsumerKey :: string
  sf_appConsumerSecret :: string
  sf_login :: string

record SalesforceOAuthParams =
  oa_instanceUrl :: string
  oa_appConsumerKey :: string
  oa_requestedAt :: timestamp
  oa_expiresAt :: timestamp

record SalesforceOAuthState =
  sf_oauthParams :: SalesforceOAuthParams
  sf_oauthPkce :: OAuthPKCEChallenge
  sf_coreAuthCode :: TemporaryToken
  sf_coreAccessToken :: json_object
  sf_dataCloudAccessToken :: json_object

record SalesforceCoreUserInfo =
  ui_preferredUsername :: "string option"
  ui_email :: "string option"
  ui_claims :: json_object

record SalesforceConnectionDetailsProto =
  sf_setupTimings :: SalesforceSetupTimings
  sf_setupParams :: SalesforceConnectionParams
  sf_oauthState :: "SalesforceOAuthState option"
  sf_setupError :: "DetailedError option"
  sf_channelError :: "DetailedError option"
  sf_healthCheckError :: "DetailedError option"

record DatalessConnectionStateDetails =
  dl_proto :: DatalessConnectionDetails
  dl_channel :: "handle option"

record HyperConnectionDetails =
  hy_proto :: HyperConnectionDetailsProto
  hy_channel :: "handle option"

record TrinoConnectionStateDetails =
  tr_proto :: TrinoConnectionDetailsProto
  tr_channel :: "handle option"

record SalesforceConnectionStateDetails =
  sf_proto :: SalesforceConnectionDetailsProto
  sf_channel :: "handle option"

datatype ConnectionStateDetailsVariant =
    SALESFORCE_DATA_CLOUD_CONNECTOR SalesforceConnectionStateDetails
  | DATALESS_CONNECTOR DatalessConnectionStateDetails
  | HYPER_CONNECTOR HyperConnectionDetails
  | TRINO_CONNECTOR TrinoConnectionStateDetails

fun details_type :: "ConnectionStateDetailsVariant \<Rightarrow> ConnectorType" where
  "details_type (SALESFORCE_DATA_CLOUD_CONNECTOR _) = SALESFORCE_DATA_CLOUD"
| "details_type (DATALESS_CONNECTOR _) = DATALESS"
| "details_type (HYPER_CONNECTOR _) = HYPER"
| "details_type (TRINO_CONNECTOR _) = TRINO"

text \<open>\<^verbatim>\<open>dateToTimestamp\<close> and \<^verbatim>\<open>timestampToDate\<close> of \<^verbatim>\<open>proto_helper.ts\<close>.\<close>

fun dateToTimestamp :: "timestamp option \<Rightarrow> iso_date option" where
  "dateToTimestamp None = None"
| "dateToTimestamp (Some d) = Some (ISO d)"

fun timestampToDate :: "iso_date option \<Rightarrow> timestamp option" where
  "timestampToDate None = None"
| "timestampToDate (Some (ISO d)) = Some d"

end
