(* ===== verification/Js_Number.thy ===== *)
theory Js_Number
  imports Prelude "HOL-Library.Word"
begin

text \<open>ECMAScript's bitwise operators on numbers. A JavaScript number that only holds integers below
  2^53 is an \<open>int\<close>; the operators first convert their operands to 32-bit integers as \<^verbatim>\<open>ToInt32\<close> and
  \<^verbatim>\<open>ToUint32\<close> of the language specification do. The collection \<open>js_number\<close> reads every operator as the
  operation on \<open>32 word\<close> it stands for.\<close>

unbundle bit_operations_syntax

definition js_toInt32 :: "int \<Rightarrow> int" where
  "js_toInt32 x = signed_take_bit 31 x"

definition js_toUint32 :: "int \<Rightarrow> int" where
  "js_toUint32 x = take_bit 32 x"

definition js_or :: "int \<Rightarrow> int \<Rightarrow> int" where
  "js_or a b = (js_toInt32 a OR js_toInt32 b)"

definition js_xor :: "int \<Rightarrow> int \<Rightarrow> int" where
  "js_xor a b = (js_toInt32 a XOR js_toInt32 b)"

definition js_shl :: "int \<Rightarrow> nat \<Rightarrow> int" where
  "js_shl a n = js_toInt32 (push_bit n (js_toInt32 a))"

definition js_ushr :: "int \<Rightarrow> nat \<Rightarrow> int" where
  "js_ushr a n = drop_bit n (js_toUint32 a)"

definition js_imul :: "int \<Rightarrow> int \<Rightarrow> int" where
  "js_imul a b = js_toInt32 (js_toUint32 a * js_toUint32 b)"

section \<open>Reading the operators as words\<close>

definition w32 :: "int \<Rightarrow> 32 word" where
  "w32 x = word_of_int x"

lemma bit_w32: "bit (w32 x) n \<longleftrightarrow> n < 32 \<and> bit x n"
  by (simp add: w32_def bit_word_of_int_iff)

lemma w32_toInt32 [js_number]: "w32 (js_toInt32 x) = w32 x"
proof (rule bit_word_eqI)
  fix n assume "n < LENGTH(32)"
  then have "min n 31 = n" by (simp add: min_def)
  then show "bit (w32 (js_toInt32 x)) n = bit (w32 x) n"
    by (simp add: bit_w32 js_toInt32_def bit_signed_take_bit_iff)
qed

lemma w32_toUint32 [js_number]: "w32 (js_toUint32 x) = w32 x"
  by (rule bit_word_eqI) (auto simp: bit_w32 js_toUint32_def bit_take_bit_iff)

lemma w32_add [js_number]: "w32 (a + b) = w32 a + w32 b"
  by (simp add: w32_def)

lemma w32_minus [js_number]: "w32 (a - b) = w32 a - w32 b"
  by (simp add: w32_def)

lemma w32_mult: "w32 (a * b) = w32 a * w32 b"
  by (simp add: w32_def)

lemma w32_or [js_number]: "w32 (js_or a b) = (w32 a OR w32 b)"
proof -
  have "w32 (js_or a b) = (w32 (js_toInt32 a) OR w32 (js_toInt32 b))"
    by (rule bit_word_eqI) (auto simp: bit_w32 js_or_def bit_or_iff)
  then show ?thesis by (simp add: w32_toInt32)
qed

lemma w32_xor [js_number]: "w32 (js_xor a b) = (w32 a XOR w32 b)"
proof -
  have "w32 (js_xor a b) = (w32 (js_toInt32 a) XOR w32 (js_toInt32 b))"
    by (rule bit_word_eqI) (auto simp: bit_w32 js_xor_def bit_xor_iff)
  then show ?thesis by (simp add: w32_toInt32)
qed

lemma w32_shl [js_number]: "w32 (js_shl a n) = push_bit n (w32 a)"
proof -
  have "w32 (push_bit n (js_toInt32 a)) = push_bit n (w32 (js_toInt32 a))"
    by (rule bit_word_eqI) (auto simp: bit_w32 bit_push_bit_iff)
  then show ?thesis by (simp add: js_shl_def w32_toInt32)
qed

lemma w32_ushr [js_number]: "w32 (js_ushr a n) = drop_bit n (w32 a)"
  by (rule bit_word_eqI)
    (auto simp: bit_w32 js_ushr_def js_toUint32_def bit_drop_bit_eq bit_take_bit_iff)

lemma w32_imul [js_number]: "w32 (js_imul a b) = w32 a * w32 b"
  by (simp add: js_imul_def w32_toInt32 w32_mult w32_toUint32)

lemma w32_0 [js_number]: "w32 0 = 0"
  by (simp add: w32_def)

lemma w32_numeral [js_number]: "w32 (numeral n) = numeral n"
  by (simp add: w32_def)

text \<open>The idiom \<^verbatim>\<open>x << r | x >>> (32 - r)\<close> is a rotation to the left.\<close>

lemma word_rotl_shifts:
  fixes x :: "32 word"
  assumes "0 < r" "r < 32" "s = 32 - r"
  shows "(push_bit r x OR drop_bit s x) = word_rotl r x"
proof (rule bit_word_eqI)
  fix n assume n: "n < LENGTH(32)"
  show "bit (push_bit r x OR drop_bit s x) n = bit (word_rotl r x) n"
  proof (cases "r \<le> n")
    case True
    have "(n + (32 - r)) mod 32 = n - r"
      using True n assms by (simp add: mod_if)
    with True n assms show ?thesis
      by (auto simp: bit_word_rotl_iff bit_or_iff bit_push_bit_iff bit_drop_bit_eq dest: bit_imp_le_length)
  next
    case False
    have "(n + (32 - r)) mod 32 = s + n"
    proof -
      have "n + (32 - r) < 32" using False n assms by linarith
      then show ?thesis using assms(3) by simp
    qed
    moreover have "r mod 32 = r" using assms by simp
    ultimately show ?thesis
      using False n assms(3)
      by (simp add: bit_word_rotl_iff bit_or_iff bit_push_bit_iff bit_drop_bit_eq)
  qed
qed

text \<open>The ranges of the conversions.\<close>

lemma js_toUint32_range: "0 \<le> js_toUint32 x" "js_toUint32 x < 4294967296"
  using take_bit_int_less_exp [of 32 x] by (simp_all add: js_toUint32_def)

lemma js_ushr_0: "js_ushr x 0 = js_toUint32 x"
  by (simp add: js_ushr_def)

lemma js_ushr_0_eq: "js_ushr x 0 = uint (w32 x)"
  by (simp add: js_ushr_0 js_toUint32_def w32_def take_bit_eq_mod unsigned_of_int)

lemma js_ushr_range: "0 \<le> js_ushr x 0" "js_ushr x 0 < 4294967296"
  unfolding js_ushr_0 by (rule js_toUint32_range)+

end
