(* ===== verification/Murmur3.thy ===== *)
theory Murmur3
  imports Js_Number "HOL-Library.Char_ord"
begin

text \<open>The connection hasher of \<^verbatim>\<open>utils/hash_murmur3.ts\<close> on JavaScript numbers, and the reference
  MurmurHash3_x86_128 on 32-bit words that it implements. Strings are restricted to the code points
  below 256; a key is its UTF-8 encoding, each byte an \<open>int\<close> as an element of a \<^verbatim>\<open>Uint8Array\<close> is.\<close>

unbundle bit_operations_syntax

section \<open>The hasher\<close>

record Murmur3_x86_128 =
  h1 :: int
  h2 :: int
  h3 :: int
  h4 :: int
  hlen :: int

definition fmix32 :: "int \<Rightarrow> int" where
  "fmix32 h0 =
    (let h = js_xor h0 (js_ushr h0 16); h = js_imul h 0x85ebca6b;
         h = js_xor h (js_ushr h 13); h = js_imul h 0xc2b2ae35
     in js_xor h (js_ushr h 16))"

definition c1 :: int where "c1 = 0x239b961b"
definition c2 :: int where "c2 = 0xab0e9789"
definition c3 :: int where "c3 = 0x38b34ae5"
definition c4 :: int where "c4 = 0xa1e38b93"

definition new_hasher :: "int \<Rightarrow> bool \<Rightarrow> Murmur3_x86_128" where
  "new_hasher seed preserveSeed =
    (if preserveSeed
     then \<lparr>h1 = seed, h2 = seed, h3 = seed, h4 = seed, hlen = 0\<rparr>
     else \<lparr>h1 = js_xor seed c1, h2 = js_xor seed c2, h3 = js_xor seed c3, h4 = js_xor seed c4, hlen = 0\<rparr>)"

text \<open>\<^verbatim>\<open>TextEncoder.encode\<close> on code points below 256.\<close>

definition utf8_char :: "char \<Rightarrow> int list" where
  "utf8_char c = (let n = of_char c :: nat in
    if n < 128 then [int n] else [int (192 + n div 64), int (128 + n mod 64)])"

definition encode :: "string \<Rightarrow> int list" where
  "encode s = concat (map utf8_char s)"

text \<open>An element of the \<^verbatim>\<open>Uint32Array\<close> over the key, little endian.\<close>

definition le32 :: "int list \<Rightarrow> nat \<Rightarrow> int" where
  "le32 key j = key ! (4*j) + 0x100 * key ! (4*j+1) + 0x10000 * key ! (4*j+2) + 0x1000000 * key ! (4*j+3)"

definition js_rotl :: "int \<Rightarrow> nat \<Rightarrow> int" where
  "js_rotl x r = js_or (js_shl x r) (js_ushr x (32 - r))"

text \<open>The body of the loop over the blocks, for the four words from index \<open>i\<close>.\<close>

definition add_block :: "int list \<Rightarrow> nat \<Rightarrow> Murmur3_x86_128 \<Rightarrow> Murmur3_x86_128" where
  "add_block key i h =
    (let k1 = le32 key i; k2 = le32 key (i+1); k3 = le32 key (i+2); k4 = le32 key (i+3);
         k1 = js_imul k1 c1; k1 = js_rotl k1 15;
         x1 = js_xor (h1 h) (js_imul k1 c2); x1 = js_rotl x1 19; x1 = x1 + h2 h;
         x1 = js_toInt32 (js_imul x1 5 + 0x561ccd1b);
         k2 = js_imul k2 c2; k2 = js_rotl k2 16;
         x2 = js_xor (h2 h) (js_imul k2 c3); x2 = js_rotl x2 17; x2 = x2 + h3 h;
         x2 = js_toInt32 (js_imul x2 5 + 0x0bcaa747);
         k3 = js_imul k3 c3; k3 = js_rotl k3 17;
         x3 = js_xor (h3 h) (js_imul k3 c4); x3 = js_rotl x3 15; x3 = x3 + h4 h;
         x3 = js_toInt32 (js_imul x3 5 + 0x96cd1c35);
         k4 = js_imul k4 c4; k4 = js_rotl k4 18;
         x4 = js_xor (h4 h) (js_imul k4 c1); x4 = js_rotl x4 13; x4 = x4 + x1;
         x4 = js_toInt32 (js_imul x4 5 + 0x32ac3b17)
     in h\<lparr>h1 := x1, h2 := x2, h3 := x3, h4 := x4\<rparr>)"

function add_blocks :: "int list \<Rightarrow> nat \<Rightarrow> nat \<Rightarrow> Murmur3_x86_128 \<Rightarrow> Murmur3_x86_128" where
  "add_blocks key blocks_length i h =
    (if i + 4 \<le> blocks_length then add_blocks key blocks_length (i + 4) (add_block key i h) else h)"
  by pat_completeness auto
termination by (relation "measure (\<lambda>(key, n, i, h). n - i)") auto

declare add_blocks.simps [simp del]

text \<open>The trailing bytes: the cases of the \<^verbatim>\<open>switch\<close> fall through, so case \<open>n\<close> runs when the
  remainder is at least \<open>n\<close>.\<close>

definition add_tail :: "int list \<Rightarrow> nat \<Rightarrow> nat \<Rightarrow> Murmur3_x86_128 \<Rightarrow> Murmur3_x86_128" where
  "add_tail key i r h =
    (let k1 = 0; k2 = 0; k3 = 0; k4 = 0;
         k4 = (if r \<ge> 15 then js_xor k4 (js_shl (key ! (i+14)) 16) else k4);
         k4 = (if r \<ge> 14 then js_xor k4 (js_shl (key ! (i+13)) 8) else k4);
         k4 = (if r \<ge> 13 then js_xor k4 (key ! (i+12)) else k4);
         h = (if r \<ge> 13 then h\<lparr>h4 := js_xor (h4 h) (js_imul (js_rotl (js_imul k4 c4) 18) c1)\<rparr> else h);
         k3 = (if r \<ge> 12 then js_xor k3 (js_shl (key ! (i+11)) 24) else k3);
         k3 = (if r \<ge> 11 then js_xor k3 (js_shl (key ! (i+10)) 16) else k3);
         k3 = (if r \<ge> 10 then js_xor k3 (js_shl (key ! (i+9)) 8) else k3);
         k3 = (if r \<ge> 9 then js_xor k3 (key ! (i+8)) else k3);
         h = (if r \<ge> 9 then h\<lparr>h3 := js_xor (h3 h) (js_imul (js_rotl (js_imul k3 c3) 17) c4)\<rparr> else h);
         k2 = (if r \<ge> 8 then js_xor k2 (js_shl (key ! (i+7)) 24) else k2);
         k2 = (if r \<ge> 7 then js_xor k2 (js_shl (key ! (i+6)) 16) else k2);
         k2 = (if r \<ge> 6 then js_xor k2 (js_shl (key ! (i+5)) 8) else k2);
         k2 = (if r \<ge> 5 then js_xor k2 (key ! (i+4)) else k2);
         h = (if r \<ge> 5 then h\<lparr>h2 := js_xor (h2 h) (js_imul (js_rotl (js_imul k2 c2) 16) c3)\<rparr> else h);
         k1 = (if r \<ge> 4 then js_xor k1 (js_shl (key ! (i+3)) 24) else k1);
         k1 = (if r \<ge> 3 then js_xor k1 (js_shl (key ! (i+2)) 16) else k1);
         k1 = (if r \<ge> 2 then js_xor k1 (js_shl (key ! (i+1)) 8) else k1);
         k1 = (if r \<ge> 1 then js_xor k1 (key ! i) else k1)
     in if r \<ge> 1 then h\<lparr>h1 := js_xor (h1 h) (js_imul (js_rotl (js_imul k1 c1) 15) c2)\<rparr> else h)"

definition add_bytes :: "Murmur3_x86_128 \<Rightarrow> int list \<Rightarrow> Murmur3_x86_128" where
  "add_bytes h key =
    (let blockCount = length key div 16;
         h = add_blocks key (blockCount * 4) 0 h;
         h = add_tail key (blockCount * 16) (length key mod 16) h
     in h\<lparr>hlen := hlen h + int (length key)\<rparr>)"

definition add :: "Murmur3_x86_128 \<Rightarrow> string \<Rightarrow> Murmur3_x86_128" where
  "add h keyStr = add_bytes h (encode keyStr)"

definition addN :: "Murmur3_x86_128 \<Rightarrow> string list \<Rightarrow> Murmur3_x86_128" where
  "addN h strs = foldl add h strs"

definition finish :: "Murmur3_x86_128 \<Rightarrow> int \<times> int \<times> int \<times> int" where
  "finish h =
    (let x1 = js_xor (h1 h) (hlen h); x2 = js_xor (h2 h) (hlen h);
         x3 = js_xor (h3 h) (hlen h); x4 = js_xor (h4 h) (hlen h);
         x1 = x1 + x2; x1 = x1 + x3; x1 = x1 + x4; x2 = x2 + x1; x3 = x3 + x1; x4 = x4 + x1;
         x1 = fmix32 x1; x2 = fmix32 x2; x3 = fmix32 x3; x4 = fmix32 x4;
         x1 = x1 + x2; x1 = x1 + x3; x1 = x1 + x4; x2 = x2 + x1; x3 = x3 + x1; x4 = x4 + x1
     in (js_ushr x1 0, js_ushr x2 0, js_ushr x3 0, js_ushr x4 0))"

text \<open>\<^verbatim>\<open>h.toString(16)\<close>, and \<^verbatim>\<open>("00000000" + h.toString(16)).slice(-8)\<close>.\<close>

definition hex_digit :: "nat \<Rightarrow> char" where
  "hex_digit n = ''0123456789abcdef'' ! n"

fun to_hex :: "nat \<Rightarrow> string" where
  "to_hex n = (if n < 16 then [hex_digit n] else to_hex (n div 16) @ [hex_digit (n mod 16)])"

declare to_hex.simps [simp del]

definition slice_last :: "nat \<Rightarrow> 'a list \<Rightarrow> 'a list" where
  "slice_last n s = drop (length s - n) s"

definition pad8 :: "int \<Rightarrow> string" where
  "pad8 x = slice_last 8 (''00000000'' @ to_hex (nat x))"

definition asString :: "Murmur3_x86_128 \<Rightarrow> string" where
  "asString h = (case finish h of (a, b, c, d) \<Rightarrow> pad8 a @ pad8 b @ pad8 c @ pad8 d)"

section \<open>The reference\<close>

text \<open>MurmurHash3_x86_128 on 32-bit words, as published: the state is the quadruple of the four lanes,
  the key is a list of bytes.\<close>

type_synonym lanes = "32 word \<times> 32 word \<times> 32 word \<times> 32 word"

definition mix1 :: "32 word \<Rightarrow> 32 word" where "mix1 k = word_rotl 15 (k * 0x239b961b) * 0xab0e9789"
definition mix2 :: "32 word \<Rightarrow> 32 word" where "mix2 k = word_rotl 16 (k * 0xab0e9789) * 0x38b34ae5"
definition mix3 :: "32 word \<Rightarrow> 32 word" where "mix3 k = word_rotl 17 (k * 0x38b34ae5) * 0xa1e38b93"
definition mix4 :: "32 word \<Rightarrow> 32 word" where "mix4 k = word_rotl 18 (k * 0xa1e38b93) * 0x239b961b"

definition fmix :: "32 word \<Rightarrow> 32 word" where
  "fmix h0 = (let h = (h0 XOR drop_bit 16 h0) * 0x85ebca6b; h = (h XOR drop_bit 13 h) * 0xc2b2ae35
    in h XOR drop_bit 16 h)"

definition ref_block :: "32 word \<Rightarrow> 32 word \<Rightarrow> 32 word \<Rightarrow> 32 word \<Rightarrow> lanes \<Rightarrow> lanes" where
  "ref_block k1 k2 k3 k4 = (\<lambda>(a, b, c, d).
    (let a' = (word_rotl 19 (a XOR mix1 k1) + b) * 5 + 0x561ccd1b;
         b' = (word_rotl 17 (b XOR mix2 k2) + c) * 5 + 0x0bcaa747;
         c' = (word_rotl 15 (c XOR mix3 k3) + d) * 5 + 0x96cd1c35;
         d' = (word_rotl 13 (d XOR mix4 k4) + a') * 5 + 0x32ac3b17
     in (a', b', c', d')))"

text \<open>Up to four bytes as a little endian word.\<close>

fun le_word :: "int list \<Rightarrow> 32 word" where
  "le_word [] = 0"
| "le_word (b # bs) = w32 b + 256 * le_word bs"

definition chunk :: "nat \<Rightarrow> int list \<Rightarrow> 32 word" where
  "chunk j bs = le_word (take 4 (drop (4 * j) bs))"

fun ref_body :: "int list \<Rightarrow> lanes \<Rightarrow> lanes" where
  "ref_body bs s =
    (if length bs < 16 then s
     else ref_body (drop 16 bs) (ref_block (chunk 0 bs) (chunk 1 bs) (chunk 2 bs) (chunk 3 bs) s))"

declare ref_body.simps [simp del]

definition ref_tail :: "int list \<Rightarrow> lanes \<Rightarrow> lanes" where
  "ref_tail t = (\<lambda>(a, b, c, d).
    (a XOR mix1 (chunk 0 t), b XOR mix2 (chunk 1 t), c XOR mix3 (chunk 2 t), d XOR mix4 (chunk 3 t)))"

definition ref_finish :: "nat \<Rightarrow> lanes \<Rightarrow> lanes" where
  "ref_finish len = (\<lambda>(a, b, c, d).
    (let n = of_nat len; a = a XOR n; b = b XOR n; c = c XOR n; d = d XOR n;
         a = a + b + c + d; b = b + a; c = c + a; d = d + a;
         a = fmix a; b = fmix b; c = fmix c; d = fmix d;
         a = a + b + c + d; b = b + a; c = c + a; d = d + a
     in (a, b, c, d)))"

definition murmur3_x86_128 :: "32 word \<Rightarrow> int list \<Rightarrow> lanes" where
  "murmur3_x86_128 seed key =
    ref_finish (length key)
      (ref_tail (drop (length key div 16 * 16) key) (ref_body key (seed, seed, seed, seed)))"

section \<open>The hasher computes the reference\<close>

definition lanes_of :: "Murmur3_x86_128 \<Rightarrow> lanes" where
  "lanes_of h = (w32 (h1 h), w32 (h2 h), w32 (h3 h), w32 (h4 h))"

definition is_bytes :: "int list \<Rightarrow> bool" where
  "is_bytes bs \<longleftrightarrow> list_all (\<lambda>b. 0 \<le> b \<and> b < 256) bs"

lemma w32_rotl [js_number]: "0 < r \<Longrightarrow> r < 32 \<Longrightarrow> w32 (js_rotl x r) = word_rotl r (w32 x)"
  by (simp add: js_rotl_def js_number word_rotl_shifts)

lemma w32_fmix32 [js_number]: "w32 (fmix32 x) = fmix (w32 x)"
  by (simp add: fmix32_def fmix_def Let_def js_number)

lemma le_word_take4:
  "4 \<le> length bs \<Longrightarrow> le_word (take 4 bs) = w32 (bs ! 0) + 256 * (w32 (bs ! 1) + 256 * (w32 (bs ! 2) + 256 * w32 (bs ! 3)))"
  by (cases bs; cases "tl bs"; cases "tl (tl bs)"; cases "tl (tl (tl bs))") auto

lemma w32_le32: "4 * j + 4 \<le> length key \<Longrightarrow> w32 (le32 key j) = chunk j key"
  by (simp add: le32_def chunk_def le_word_take4 js_number w32_mult algebra_simps)

lemma lanes_of_add_block:
  "lanes_of (add_block key i h) =
    ref_block (w32 (le32 key i)) (w32 (le32 key (i+1))) (w32 (le32 key (i+2))) (w32 (le32 key (i+3))) (lanes_of h)"
  by (simp add: add_block_def ref_block_def lanes_of_def Let_def js_number c1_def c2_def c3_def c4_def
      mix1_def mix2_def mix3_def mix4_def)

lemma chunk_drop: "chunk j (drop (4 * i) key) = chunk (i + j) key"
  by (simp add: chunk_def add_mult_distrib2 add.commute)

lemma lanes_of_add_blocks:
  assumes "n = length key div 16 * 4" and "i mod 4 = 0" and "i \<le> n"
  shows "lanes_of (add_blocks key n i h) = ref_body (drop (4 * i) key) (lanes_of h)"
  using assms
proof (induction key n i h rule: add_blocks.induct)
  case (1 key n i h)
  show ?case
  proof (cases "i + 4 \<le> n")
    case True
    have "n * 4 \<le> length key"
      using 1(2) by simp
    moreover have "4 * (i + 4) \<le> n * 4" using True by simp
    ultimately have len: "4 * (i + 4) \<le> length key" by (rule order.trans [rotated])
    then have ge: "\<not> length (drop (4 * i) key) < 16" by simp
    have rec: "ref_body (drop (4 * i) key) (lanes_of h) =
      ref_body (drop (4 * (i + 4)) key)
        (ref_block (chunk i key) (chunk (i+1) key) (chunk (i+2) key) (chunk (i+3) key) (lanes_of h))"
      by (subst ref_body.simps, subst if_not_P [OF ge]) (simp add: chunk_drop add.commute [of 16])
    from True 1 have "lanes_of (add_blocks key n i h) = ref_body (drop (4 * (i + 4)) key) (lanes_of (add_block key i h))"
      by (subst add_blocks.simps) simp
    also have "lanes_of (add_block key i h) =
        ref_block (chunk i key) (chunk (i+1) key) (chunk (i+2) key) (chunk (i+3) key) (lanes_of h)"
      using len by (simp add: lanes_of_add_block w32_le32)
    finally show ?thesis using rec by simp
  next
    case False
    have "n mod 4 = 0" using 1(2) by simp
    then have "i = n" using 1(3,4) False by presburger
    then have "length key - 4 * i < 16" using 1 by simp
    then show ?thesis using False
      by (simp add: add_blocks.simps [of key n i h] ref_body.simps [of "drop (4 * i) key"])
  qed
qed

lemma byte_xor:
  "0 \<le> b \<Longrightarrow> b < 256 \<Longrightarrow> (push_bit 8 x XOR w32 b) = w32 b + 256 * x"
proof -
  assume b: "0 \<le> b" "b < 256"
  have "take_bit 8 b = b" using b by (simp add: take_bit_int_eq_self)
  then have high: "\<not> bit b n" if "8 \<le> n" for n
    using that by (metis bit_take_bit_iff leD)
  have "(push_bit 8 x AND w32 b) = 0"
    by (rule bit_word_eqI) (auto simp: bit_and_iff bit_push_bit_iff bit_w32 high)
  then have "push_bit 8 x + w32 b = (push_bit 8 x XOR w32 b)"
    by (rule disjunctive_add_eq_xor)
  moreover have p: "256 * x = push_bit 8 x" by (simp add: push_bit_eq_mult mult.commute)
  ultimately show ?thesis by (metis add.commute)
qed

lemma push_bit_xor_8: "(push_bit 8 (x :: 32 word) XOR push_bit 8 y) = push_bit 8 (x XOR y)"
  by (simp add: push_bit_xor)

text \<open>Assembling a word from shifted bytes, as the trailing cases do.\<close>

lemma bytes_xor:
  assumes "0 \<le> a" "a < 256" "0 \<le> b" "b < 256" "0 \<le> c" "c < 256"
  shows "(push_bit 8 (w32 b) XOR w32 a) = w32 a + 256 * w32 b"
    and "((push_bit 16 (w32 c) XOR push_bit 8 (w32 b)) XOR w32 a) = w32 a + 256 * (w32 b + 256 * w32 c)"
    and "(((push_bit 24 (w32 d) XOR push_bit 16 (w32 c)) XOR push_bit 8 (w32 b)) XOR w32 a) =
      w32 a + 256 * (w32 b + 256 * (w32 c + 256 * w32 d))"
proof -
  have p16: "push_bit 16 x = push_bit 8 (push_bit 8 x)" and p24: "push_bit 24 x = push_bit 8 (push_bit 8 (push_bit 8 x))"
    for x :: "32 word" by (simp_all add: push_bit_push_bit)
  show "(push_bit 8 (w32 b) XOR w32 a) = w32 a + 256 * w32 b"
    using assms by (simp add: byte_xor)
  have two: "((push_bit 16 x XOR push_bit 8 (w32 b)) XOR w32 a) = w32 a + 256 * (w32 b + 256 * x)" for x
  proof -
    have "((push_bit 16 x XOR push_bit 8 (w32 b)) XOR w32 a) = (push_bit 8 (push_bit 8 x XOR w32 b) XOR w32 a)"
      unfolding p16 push_bit_xor ..
    then show ?thesis using assms by (simp add: byte_xor)
  qed
  from two [of "w32 c"]
  show "((push_bit 16 (w32 c) XOR push_bit 8 (w32 b)) XOR w32 a) = w32 a + 256 * (w32 b + 256 * w32 c)" .
  have "(((push_bit 24 (w32 d) XOR push_bit 16 (w32 c)) XOR push_bit 8 (w32 b)) XOR w32 a) =
      ((push_bit 16 (push_bit 8 (w32 d) XOR w32 c) XOR push_bit 8 (w32 b)) XOR w32 a)"
    unfolding p16 p24 push_bit_xor ..
  then show "(((push_bit 24 (w32 d) XOR push_bit 16 (w32 c)) XOR push_bit 8 (w32 b)) XOR w32 a) =
      w32 a + 256 * (w32 b + 256 * (w32 c + 256 * w32 d))"
    using assms by (simp add: two byte_xor)
qed

lemma is_bytes_nth: "is_bytes bs \<Longrightarrow> n < length bs \<Longrightarrow> 0 \<le> bs ! n \<and> bs ! n < 256"
  by (simp add: is_bytes_def list_all_length)

text \<open>The lane a tail contributes: the bytes from \<open>o\<close> on, at most four of them.\<close>

definition tail_word :: "int list \<Rightarrow> nat \<Rightarrow> nat \<Rightarrow> nat \<Rightarrow> int" where
  "tail_word key i r j =
    (let k = 0;
         k = (if r \<ge> j + 4 then js_xor k (js_shl (key ! (i + (j + 3))) 24) else k);
         k = (if r \<ge> j + 3 then js_xor k (js_shl (key ! (i + (j + 2))) 16) else k);
         k = (if r \<ge> j + 2 then js_xor k (js_shl (key ! (i + (j + 1))) 8) else k)
     in if r \<ge> j + 1 then js_xor k (key ! (i + j)) else k)"

lemma le_word_take_lt4:
  assumes "length t < 4"
  shows "le_word (take 4 t) =
    (if length t = 0 then 0 else if length t = 1 then w32 (t ! 0)
     else if length t = 2 then w32 (t ! 0) + 256 * w32 (t ! 1)
     else w32 (t ! 0) + 256 * (w32 (t ! 1) + 256 * w32 (t ! 2)))"
  using assms by (cases t; cases "tl t"; cases "tl (tl t)"; cases "tl (tl (tl t))") auto

lemma w32_tail_word:
  assumes "is_bytes key" and "i + r = length key"
  shows "w32 (tail_word key i r j) = le_word (take 4 (drop (i + j) key))"
proof -
  define t where "t = drop (i + j) key"
  have lt: "length t = r - j" using assms(2) by (simp add: t_def)
  have nth: "key ! (i + (j + n)) = t ! n" if "n < length t" for n
    using that by (simp add: t_def add.assoc)
  have bt: "is_bytes t"
    using assms(1) by (auto simp: t_def is_bytes_def list_all_iff dest: in_set_dropD)
  note b = is_bytes_nth [OF bt]
  consider "r \<le> j" | "r = j + 1" | "r = j + 2" | "r = j + 3" | "r \<ge> j + 4" by linarith
  then show ?thesis
  proof cases
    case 1
    then show ?thesis using lt by (simp add: tail_word_def js_number t_def [symmetric])
  next
    case 2
    then show ?thesis using lt nth [of 0] le_word_take_lt4 [of t]
      by (simp add: tail_word_def js_number t_def [symmetric])
  next
    case 3
    then show ?thesis using lt nth [of 0] nth [of 1] b [of 0] b [of 1] le_word_take_lt4 [of t]
      by (simp add: tail_word_def js_number t_def [symmetric] byte_xor)
  next
    case 4
    then show ?thesis
      using lt nth [of 0] nth [of 1] nth [of 2] b [of 0] b [of 1] b [of 2] le_word_take_lt4 [of t]
      by (simp add: tail_word_def js_number t_def [symmetric] bytes_xor)
  next
    case 5
    then have len: "4 \<le> length t" and "t \<noteq> []" using lt by auto
    with 5 nth [of 0] nth [of 1] nth [of 2] nth [of 3] b [of 0] b [of 1] b [of 2]
    show ?thesis unfolding le_word_take4 [OF len, folded t_def] t_def [symmetric]
      by (simp add: tail_word_def js_number bytes_xor)
  qed
qed

text \<open>With these, a call of \<^verbatim>\<open>add\<close> is the body and the tail of the reference, and \<^verbatim>\<open>finish\<close> its
  finalisation.\<close>

lemma add_tail_words:
  "add_tail key i r h = h
    \<lparr>h1 := if r \<ge> 1 then js_xor (h1 h) (js_imul (js_rotl (js_imul (tail_word key i r 0) c1) 15) c2) else h1 h,
     h2 := if r \<ge> 5 then js_xor (h2 h) (js_imul (js_rotl (js_imul (tail_word key i r 4) c2) 16) c3) else h2 h,
     h3 := if r \<ge> 9 then js_xor (h3 h) (js_imul (js_rotl (js_imul (tail_word key i r 8) c3) 17) c4) else h3 h,
     h4 := if r \<ge> 13 then js_xor (h4 h) (js_imul (js_rotl (js_imul (tail_word key i r 12) c4) 18) c1) else h4 h\<rparr>"
  if "r < 16"
  using that by (simp add: add_tail_def tail_word_def Let_def)

lemma mix_0 [simp]: "mix1 0 = 0" "mix2 0 = 0" "mix3 0 = 0" "mix4 0 = 0"
  by (simp_all add: mix1_def mix2_def mix3_def mix4_def)

lemma lanes_of_add_tail:
  assumes "is_bytes key" and "i + r = length key" and "r < 16"
  shows "lanes_of (add_tail key i r h) = ref_tail (drop i key) (lanes_of h)"
proof -
  have chunks: "chunk j (drop i key) = w32 (tail_word key i r (4 * j))" for j
    using w32_tail_word [OF assms(1,2), of "4 * j"] by (simp add: chunk_def add.commute)
  have zero: "w32 (tail_word key i r j) = 0" if "\<not> r \<ge> j + 1" for j
    using that by (simp add: tail_word_def js_number)
  note z = zero [of 0] zero [of 4] zero [of 8] zero [of 12]
  show ?thesis
    using assms(3) chunks [of 0] chunks [of 1] chunks [of 2] chunks [of 3] z
    by (simp add: add_tail_words lanes_of_def ref_tail_def js_number c1_def c2_def c3_def c4_def
        mix1_def mix2_def mix3_def mix4_def)
qed

lemma lanes_of_add_bytes:
  assumes "is_bytes key"
  shows "lanes_of (add_bytes h key) =
    ref_tail (drop (length key div 16 * 16) key) (ref_body key (lanes_of h))"
proof -
  define n where "n = length key div 16"
  have b: "lanes_of (add_blocks key (n * 4) 0 h) = ref_body key (lanes_of h)"
    using lanes_of_add_blocks [of "n * 4" key 0 h] by (simp add: n_def)
  have "lanes_of (add_tail key (n * 16) (length key mod 16) (add_blocks key (n * 4) 0 h)) =
      ref_tail (drop (n * 16) key) (lanes_of (add_blocks key (n * 4) 0 h))"
    by (rule lanes_of_add_tail [OF assms]) (simp_all add: n_def)
  with b show ?thesis
    by (simp add: add_bytes_def Let_def n_def lanes_of_def)
qed

lemma hlen_add_block [simp]: "hlen (add_block key i h) = hlen h"
  by (simp add: add_block_def Let_def)

lemma hlen_add_blocks [simp]: "hlen (add_blocks key n i h) = hlen h"
  by (induction key n i h rule: add_blocks.induct) (subst add_blocks.simps, simp)

lemma hlen_add_tail [simp]: "hlen (add_tail key i r h) = hlen h"
  by (simp add: add_tail_def Let_def)

lemma hlen_add_bytes [simp]: "hlen (add_bytes h key) = hlen h + int (length key)"
  by (simp add: add_bytes_def Let_def)

definition words_of :: "int \<times> int \<times> int \<times> int \<Rightarrow> lanes" where
  "words_of = (\<lambda>(a, b, c, d). (w32 a, w32 b, w32 c, w32 d))"

lemma w32_of_nat: "w32 (int n) = of_nat n"
  by (simp add: w32_def)

lemma words_of_finish:
  "hlen h = int n \<Longrightarrow> words_of (finish h) = ref_finish n (lanes_of h)"
  by (simp only: finish_def ref_finish_def lanes_of_def words_of_def Let_def prod.case js_number w32_of_nat
      drop_bit_0 id_apply)

lemma encode_is_bytes: "is_bytes (encode s)"
proof -
  have "is_bytes (utf8_char c)" for c
  proof -
    have "(of_char c :: nat) \<le> 255"
      using nat_of_char_less_256 [of c] by linarith
    then have "(of_char c :: nat) div 64 \<le> 255 div 64" by (rule div_le_mono)
    moreover have "(of_char c :: nat) mod 64 < 128"
      by (rule less_trans [of _ 64]) simp_all
    ultimately show ?thesis by (simp add: is_bytes_def utf8_char_def Let_def)
  qed
  then show ?thesis by (induction s) (auto simp: encode_def is_bytes_def)
qed

text \<open>C20. The hasher with a preserved seed computes MurmurHash3_x86_128: hashing one string and
  reading the four lanes gives the reference digest of its UTF-8 bytes, although the code runs on
  JavaScript numbers whose intermediate sums leave the 32-bit range.\<close>

theorem hasher_is_murmur3:
  "words_of (finish (add (new_hasher seed True) s)) = murmur3_x86_128 (w32 seed) (encode s)"
proof -
  have "lanes_of (new_hasher seed True) = (w32 seed, w32 seed, w32 seed, w32 seed)"
    by (simp add: new_hasher_def lanes_of_def)
  moreover have "hlen (add_bytes (new_hasher seed True) (encode s)) = int (length (encode s))"
    by (simp add: new_hasher_def)
  ultimately show ?thesis
    unfolding add_def murmur3_x86_128_def
    by (simp only: words_of_finish lanes_of_add_bytes [OF encode_is_bytes])
qed

end
