(* ===== verification/Storage_Tasks.thy ===== *)
theory Storage_Tasks
  imports Prelude "HOL-Library.Sublist"
begin

text \<open>The write tasks of the storage writer and the keys they are grouped by
  (\<^verbatim>\<open>platform/storage/storage_writer.ts\<close> and the file names of \<^verbatim>\<open>storage_backend.ts\<close>). The payloads of
  the tasks are parameters: \<open>'conn\<close> the connection state, \<open>'script\<close> a script handle, \<open>'scripts\<close> the
  scripts of a notebook.\<close>

record FolderScript =
  fs_scriptId :: nat
  fs_fileName :: string
  fs_sql :: string

datatype ('conn, 'script, 'scripts) StorageWriteTaskVariant =
    WRITE_NOTEBOOK_MANIFEST string 'conn
  | WRITE_NOTEBOOK_CATALOG_SCRIPT string 'script
  | WRITE_NOTEBOOK_FUNCTION_SCRIPT string 'script
  | REPLACE_NOTEBOOK_SCRIPTS 'scripts
  | WRITE_SCRIPT string string string string
  | WRITE_SCRIPT_DRAFT string string
  | CREATE_SCRIPT_FOLDER string string "FolderScript list"
  | DELETE_SCRIPT_FOLDER string string
  | RENAME_SCRIPT_FOLDER string string string
  | DELETE_NOTEBOOK string
  | DELETE_SCRIPT string string string
  | RENAME_SCRIPT string string string string

definition DEBOUNCE_DURATION_NOTEBOOK_WRITE :: nat where
  "DEBOUNCE_DURATION_NOTEBOOK_WRITE = 100"

definition DEBOUNCE_DURATION_SCRIPT_WRITE :: nat where
  "DEBOUNCE_DURATION_SCRIPT_WRITE = 100"

definition STORAGE_SCRIPTS_FOLDER :: string where
  "STORAGE_SCRIPTS_FOLDER = ''scripts''"

definition STORAGE_NOTEBOOK_FILE :: string where
  "STORAGE_NOTEBOOK_FILE = ''dashql-notebook.json''"

definition STORAGE_SCRIPT_SCHEMA :: string where
  "STORAGE_SCRIPT_SCHEMA = ''dashql-relations.sql''"

definition STORAGE_SCRIPT_FUNCTIONS :: string where
  "STORAGE_SCRIPT_FUNCTIONS = ''dashql-functions.sql''"

definition STORAGE_SCRIPT_DRAFT :: string where
  "STORAGE_SCRIPT_DRAFT = ''dashql-draft.sql''"

section \<open>Keys\<close>

definition groupNotebookManifestWrites :: "string \<Rightarrow> string" where
  "groupNotebookManifestWrites notebookId = notebookId @ ''/'' @ STORAGE_NOTEBOOK_FILE"

definition groupNotebookSchemaWrites :: "string \<Rightarrow> string" where
  "groupNotebookSchemaWrites notebookId = notebookId @ ''/dashql-relations.sql''"

definition groupNotebookFunctionWrites :: "string \<Rightarrow> string" where
  "groupNotebookFunctionWrites notebookId = notebookId @ ''/dashql-functions.sql''"

definition groupNotebookWrites :: "string \<Rightarrow> string" where
  "groupNotebookWrites notebookId = notebookId @ ''/'' @ STORAGE_SCRIPTS_FOLDER"

definition groupScriptFolderWrites :: "string \<Rightarrow> string \<Rightarrow> string" where
  "groupScriptFolderWrites notebookId folderName =
    notebookId @ ''/'' @ STORAGE_SCRIPTS_FOLDER @ ''/'' @ folderName"

definition groupDraftWrites :: "string \<Rightarrow> string" where
  "groupDraftWrites notebookId = notebookId @ ''/'' @ STORAGE_SCRIPTS_FOLDER @ ''/dashql-draft.sql''"

definition groupScriptWrites :: "string \<Rightarrow> string \<Rightarrow> string \<Rightarrow> string" where
  "groupScriptWrites notebookId folderName fileName =
    notebookId @ ''/'' @ STORAGE_SCRIPTS_FOLDER @ ''/'' @ folderName @ ''/'' @ fileName"

definition groupScriptDeletes :: "string \<Rightarrow> string \<Rightarrow> string \<Rightarrow> string" where
  "groupScriptDeletes notebookId folderName scriptName =
    notebookId @ ''/'' @ STORAGE_SCRIPTS_FOLDER @ ''/'' @ folderName @ ''/'' @ scriptName @ '':delete''"

definition groupScriptFolderRenames :: "string \<Rightarrow> string \<Rightarrow> string" where
  "groupScriptFolderRenames notebookId oldFolderName =
    notebookId @ ''/'' @ STORAGE_SCRIPTS_FOLDER @ ''/'' @ oldFolderName @ '':rename''"

definition groupScriptRenames :: "string \<Rightarrow> string \<Rightarrow> string \<Rightarrow> string" where
  "groupScriptRenames notebookId folderName oldScriptName =
    notebookId @ ''/'' @ STORAGE_SCRIPTS_FOLDER @ ''/'' @ folderName @ ''/'' @ oldScriptName @ '':rename''"

definition storageWriteKeyBelongsToNotebook :: "string \<Rightarrow> string \<Rightarrow> bool" where
  "storageWriteKeyBelongsToNotebook key notebookId \<longleftrightarrow>
    key = notebookId \<or> prefix (notebookId @ ''/'') key"

definition storageWriteKeyWithinNotebook :: "string \<Rightarrow> string \<Rightarrow> string" where
  "storageWriteKeyWithinNotebook key notebookId =
    (if \<not> storageWriteKeyBelongsToNotebook key notebookId then key
     else if key = notebookId then [] else drop (length notebookId + 1) key)"

lemmas group_key_defs = groupNotebookManifestWrites_def groupNotebookSchemaWrites_def
  groupNotebookFunctionWrites_def groupNotebookWrites_def groupScriptFolderWrites_def
  groupDraftWrites_def groupScriptWrites_def groupScriptDeletes_def groupScriptFolderRenames_def
  groupScriptRenames_def

lemma belongs_append [simp]: "storageWriteKeyBelongsToNotebook (n @ ''/'' @ rest) n"
  by (auto simp: storageWriteKeyBelongsToNotebook_def prefix_def)

lemma belongs_append_Cons [simp]: "storageWriteKeyBelongsToNotebook (n @ CHR ''/'' # rest) n"
  using belongs_append [of n rest] by simp

text \<open>A notebook id is a UUID, so it contains no slash: then a key belongs to one notebook only.\<close>

lemma belongs_unique:
  assumes "storageWriteKeyBelongsToNotebook key n" "storageWriteKeyBelongsToNotebook key m"
    and "CHR ''/'' \<notin> set n" "CHR ''/'' \<notin> set m"
  shows "n = m"
proof -
  have head: "takeWhile (\<lambda>c. c \<noteq> CHR ''/'') key = k"
    if "storageWriteKeyBelongsToNotebook key k" "CHR ''/'' \<notin> set k" for k
  proof -
    have all: "\<forall>c\<in>set k. c \<noteq> CHR ''/''" using that(2) by auto
    from that(1) consider "key = k" | r where "key = k @ CHR ''/'' # r"
      by (auto simp: storageWriteKeyBelongsToNotebook_def prefix_def)
    then show ?thesis by cases (use all in \<open>auto simp: takeWhile_append takeWhile_eq_all_conv\<close>)
  qed
  from head [OF assms(1,3)] head [OF assms(2,4)] show ?thesis by simp
qed

end
