(* ===== verification/Connection_Types.thy ===== *)
theory Connection_Types
  imports Connector_Types Prelude Murmur3 Storage_Tasks
begin

text \<open>The data of query execution, of the connection metrics and of catalog updates
  (\<^verbatim>\<open>query_execution_state.ts\<close>, \<^verbatim>\<open>catalog_update_state.tsx\<close>, \<^verbatim>\<open>connection_state.ts\<close>). Objects the state
  only holds (abort controllers, response streams, Arrow data, exceptions) are handles.\<close>

section \<open>Queries\<close>

datatype QueryExecutionStatus = REQUESTED | PREPARING | SENDING | QUEUED | RUNNING | RECEIVED_FIRST_BATCH
  | RECEIVED_ALL_BATCHES | PROCESSING_RESULTS | PROCESSED_RESULTS | SUCCEEDED | FAILED | CANCELLED

fun queryIsDone :: "QueryExecutionStatus \<Rightarrow> bool" where
  "queryIsDone SUCCEEDED = True"
| "queryIsDone FAILED = True"
| "queryIsDone CANCELLED = True"
| "queryIsDone _ = False"

record QueryExecutionMetrics =
  totalDataBytesReceived :: int
  totalBatchesReceived :: int
  totalRowsReceived :: int
  totalQueryRequestsStarted :: int
  totalQueryRequestsSucceeded :: int
  totalQueryRequestsFailed :: int
  totalQueryRequestDurationMs :: int
  durationUntilFirstBatchMs :: "int option"

record QueryExecutionProgress =
  isQueued :: "bool option"
  progressMetrics :: QueryExecutionMetrics

record QueryMetrics =
  queryRequestedAt :: "timestamp option"
  queryPreparingStartedAt :: "timestamp option"
  querySendingStartedAt :: "timestamp option"
  queryQueuedStartedAt :: "timestamp option"
  queryRunningStartedAt :: "timestamp option"
  receivedFirstBatchAt :: "timestamp option"
  receivedLastBatchAt :: "timestamp option"
  receivedAllBatchesAt :: "timestamp option"
  processingResultsStartedAt :: "timestamp option"
  processedResultsAt :: "timestamp option"
  querySucceededAt :: "timestamp option"
  queryFailedAt :: "timestamp option"
  queryCancelledAt :: "timestamp option"
  lastUpdatedAt :: "timestamp option"
  progressUpdatesReceived :: int
  queryDurationMs :: "int option"
  textLength :: "int option"
  streamMetrics :: QueryExecutionMetrics

datatype QueryType = USER_PROVIDED | CATALOG_QUERY_INFORMATION_SCHEMA | CATALOG_QUERY_PG_ATTRIBUTE
  | CATALOG_QUERY_PG_PROC | HEALTH_CHECK

record QueryMetadata =
  queryType :: QueryType
  qm_title :: "string option"
  qm_description :: "string option"
  qm_issuer :: "string option"
  userProvided :: bool

text \<open>A record batch: its schema and its contents.\<close>

record RecordBatch =
  batchSchema :: handle
  batchData :: handle

record QueryExecutionState =
  queryId :: nat
  traceId :: nat
  queryText :: string
  queryMetadata :: QueryMetadata
  q_status :: QueryExecutionStatus
  q_metrics :: QueryMetrics
  q_cancellation :: handle
  resultStream :: "handle option"
  q_error :: "handle option"
  latestProgressUpdate :: "QueryExecutionProgress option"
  resultSchema :: "handle option"
  resultBatches :: "RecordBatch list"
  resultMetadata :: "handle option"
  resultTable :: "handle option"
  cacheKey :: "string option"
  servedFromCache :: bool
  cacheDeleted :: bool
  cachedAt :: "timestamp option"

section \<open>Connection metrics (\<^verbatim>\<open>ConnectionQueryMetrics\<close>, \<^verbatim>\<open>ConnectionMetrics\<close>)\<close>

record ConnectionQueryMetrics =
  cq_totalQueries :: int
  cq_totalBatchesReceived :: int
  cq_totalRowsReceived :: int
  cq_accumulatedTimeUntilFirstBatch :: int
  cq_accumulatedQueryDuration :: int

record ConnectionMetrics =
  successfulQueries :: ConnectionQueryMetrics
  canceledQueries :: ConnectionQueryMetrics
  failedQueries :: ConnectionQueryMetrics

section \<open>Catalog updates\<close>

datatype CatalogUpdateVariant = FULL_CATALOG_REFRESH

datatype CatalogUpdateTaskStatus = STARTED | SUCCEEDED | FAILED | CANCELLED

record CatalogUpdateTaskState =
  taskId :: nat
  taskVariant :: CatalogUpdateVariant
  t_status :: CatalogUpdateTaskStatus
  t_cancellation :: handle
  t_queries :: "nat list"
  t_error :: "handle option"
  startedAt :: "timestamp option"
  finishedAt :: "timestamp option"
  lastUpdateAt :: "timestamp option"

record CatalogUpdates =
  tasksRunning :: "(nat, CatalogUpdateTaskState) jsmap"
  tasksFinished :: "(nat, CatalogUpdateTaskState) jsmap"
  restoredAt :: "timestamp option"
  currentFullRefresh :: "nat option"
  lastFullRefresh :: "nat option"


text \<open>The connection state of \<^verbatim>\<open>connection/connection_state.ts\<close>, its actions, and the environment the
  reducers write to. Objects the state only holds (the core instance, the catalog, the scripts, the
  channels) are handles.\<close>

section \<open>The connection state\<close>

text \<open>The signature state without the map of taken signatures: the map is one object shared by all
  connections, so it lives in the environment below.\<close>

record ConnectionSignatureState =
  sig_hash :: Murmur3_x86_128
  signatureString :: string

type_synonym ConnectionSignatureMap = "(string, string option) jsmap"

datatype ConnectionStatus = NOT_STARTED
  | HEALTH_CHECK_STARTED | HEALTH_CHECK_FAILED | HEALTH_CHECK_CANCELLED | HEALTH_CHECK_SUCCEEDED
  | CHANNEL_SETUP_STARTED | CHANNEL_SETUP_FAILED | CHANNEL_SETUP_CANCELLED | CHANNEL_READY
  | AUTH_STARTED | AUTH_CANCELLED | AUTH_FAILED | PKCE_GENERATION_STARTED | PKCE_GENERATED
  | WAITING_FOR_OAUTH_CODE_VIA_WINDOW | WAITING_FOR_OAUTH_CODE_VIA_LINK | OAUTH_CODE_RECEIVED
  | ACCESS_TOKEN_REQUESTED | ACCESS_TOKEN_RECEIVED
  | DATA_CLOUD_TOKEN_REQUESTED | DATA_CLOUD_TOKEN_RECEIVED
  | CORE_ACCESS_TOKEN_REQUESTED | CORE_ACCESS_TOKEN_RECEIVED

datatype ConnectionHealth = NOT_STARTED | CONNECTING | CANCELLED | ONLINE | FAILED

record ConnectionState =
  notebookId :: string
  name :: "string option"
  inst :: handle
  active :: bool
  connectionStatus :: ConnectionStatus
  connectionHealth :: ConnectionHealth
  connectorInfo :: ConnectorInfo
  connectionSignature :: ConnectionSignatureState
  details :: ConnectionStateDetailsVariant
  c_metrics :: ConnectionMetrics
  catalog :: handle
  catalogUpdates :: CatalogUpdates
  catalogRelationScript :: handle
  catalogFunctionScript :: handle
  queriesActive :: "(nat, QueryExecutionState) jsmap"
  queriesActiveOrdered :: "nat list"
  queriesFinished :: "(nat, QueryExecutionState) jsmap"
  queriesFinishedOrdered :: "nat list"
  snapshotQueriesActiveFinished :: int

text \<open>What the reducers do outside the connection state: they change the shared signature map, close
  channels, clear or destroy objects of the Wasm heap and schedule storage writes.\<close>

datatype conn_effect =
    CloseChannel handle
  | CatalogClear handle
  | CatalogDropScript handle handle
  | ScriptDestroy handle
  | CatalogDestroy handle
  | StorageWrite string "(ConnectionState, handle, handle) StorageWriteTaskVariant" nat

record conn_env =
  signatures :: ConnectionSignatureMap
  effects :: "conn_effect list"

definition emit :: "conn_effect \<Rightarrow> conn_env \<Rightarrow> conn_env" where
  "emit e env = env\<lparr>effects := effects env @ [e]\<rparr>"

section \<open>Actions\<close>

datatype CatalogAction =
    SET_CATALOG_SCRIPT handle
  | UPDATE_CATALOG nat CatalogUpdateTaskState
  | CATALOG_UPDATE_REGISTER_QUERY nat nat
  | CATALOG_UPDATE_SCHEMA_SCRIPT nat
  | CATALOG_UPDATE_CANCELLED nat handle
  | CATALOG_UPDATE_FAILED nat handle
  | CATALOG_UPDATE_SUCCEEDED nat

datatype QueryExecutionAction =
    EXECUTE_QUERY nat QueryExecutionState
  | QUERY_PREPARING nat
  | QUERY_SENDING nat
  | QUERY_RUNNING nat handle
  | QUERY_PROGRESS_UPDATED nat QueryExecutionProgress
  | QUERY_RECEIVED_BATCH nat RecordBatch QueryExecutionMetrics
  | QUERY_RECEIVED_ALL_BATCHES nat handle handle QueryExecutionMetrics
  | QUERY_PROCESSING_RESULTS nat
  | QUERY_PROCESSED_RESULTS nat
  | QUERY_SUCCEEDED nat
  | QUERY_FAILED nat handle "QueryExecutionMetrics option"
  | QUERY_CANCELLED nat handle "QueryExecutionMetrics option"
  | QUERY_CACHE_RECORDED nat string bool "timestamp option"
  | QUERY_CACHE_DELETED nat

text \<open>The actions the connector reducers read: those all connectors know, and those of one connector.
  The symbols of the two PKCE actions are declared once per connector, so the Trino ones differ from
  the Salesforce ones.\<close>

datatype CommonAction =
    RESET_CONNECTION
  | DELETE_CONNECTION
  | HEALTH_CHECK_STARTED
  | HEALTH_CHECK_CANCELLED "DetailedError option"
  | HEALTH_CHECK_FAILED DetailedError
  | HEALTH_CHECK_SUCCEEDED

datatype DatalessAction =
    DATALESS_CHANNEL_READY handle
  | DATALESS_CHANNEL_SETUP_CANCELLED DetailedError
  | DATALESS_CHANNEL_SETUP_FAILED DetailedError
  | DATALESS_SET_DEMO_MODE bool

datatype HyperAction =
    HYPER_CHANNEL_SETUP_STARTED HyperConnectionParams
  | HYPER_CHANNEL_SETUP_CANCELLED DetailedError
  | HYPER_CHANNEL_SETUP_FAILED DetailedError
  | HYPER_CHANNEL_READY handle

datatype TrinoOAuthAction =
    OAUTH_STARTED TrinoConnectionParams
  | OAUTH_CANCELLED DetailedError
  | OAUTH_FAILED DetailedError
  | TRINO_GENERATING_PKCE_CHALLENGE
  | TRINO_GENERATED_PKCE_CHALLENGE OAuthPKCEChallenge
  | OAUTH_BROWSER_OPENED
  | RECEIVED_OAUTH_CODE TemporaryToken
  | REQUESTING_ACCESS_TOKEN
  | RECEIVED_ACCESS_TOKEN json_object

datatype TrinoChannelAction =
    TRINO_CHANNEL_SETUP_STARTED TrinoConnectionParams
  | TRINO_CHANNEL_SETUP_CANCELLED DetailedError
  | TRINO_CHANNEL_SETUP_FAILED DetailedError
  | TRINO_CHANNEL_READY handle

datatype SalesforceAuthAction =
    SETUP_STARTED SalesforceConnectionParams
  | SETUP_CANCELLED DetailedError
  | SETUP_FAILED DetailedError
  | SF_GENERATING_PKCE_CHALLENGE
  | SF_GENERATED_PKCE_CHALLENGE OAuthPKCEChallenge
  | OAUTH_NATIVE_LINK_OPENED
  | OAUTH_WEB_WINDOW_OPENED
  | OAUTH_WEB_WINDOW_CLOSED

datatype SalesforceTokenAction =
    RECEIVED_CORE_AUTH_CODE TemporaryToken
  | REQUESTING_CORE_AUTH_TOKEN
  | RECEIVED_CORE_AUTH_TOKEN json_object
  | RECEIVED_CORE_USER_INFO SalesforceCoreUserInfo
  | REQUESTING_DATA_CLOUD_ACCESS_TOKEN
  | RECEIVED_DATA_CLOUD_ACCESS_TOKEN json_object

datatype SalesforceChannelAction =
    SF_CHANNEL_SETUP_STARTED HyperConnectionParams
  | SF_CHANNEL_SETUP_CANCELLED DetailedError
  | SF_CHANNEL_SETUP_FAILED DetailedError
  | SF_CHANNEL_READY handle

datatype ConnectorAction =
    Common CommonAction
  | Dataless DatalessAction
  | Hyper HyperAction
  | TrinoOAuth TrinoOAuthAction
  | TrinoChannel TrinoChannelAction
  | SalesforceAuth SalesforceAuthAction
  | SalesforceToken SalesforceTokenAction
  | SalesforceChannel SalesforceChannelAction

datatype ConnectionStateAction =
    SWITCH_CONNECTOR_TYPE ConnectorType
  | SET_CONNECTION_ACTIVE
  | RENAME_NOTEBOOK "string option"
  | Catalog CatalogAction
  | Query QueryExecutionAction
  | Connector ConnectorAction

end
