(* ===== verification/Query_Execution.thy ===== *)
theory Query_Execution
  imports Connection_Types
begin

text \<open>The query part of the connection reducer, \<^verbatim>\<open>connection/query_execution_state.ts\<close>. The code
  mutates the maps and arrays of the old state and returns a shallow copy; callers drop the old
  state, so the model returns the new one. \<open>now\<close> is the single reading of the clock.\<close>

section \<open>Helpers\<close>

text \<open>\<^verbatim>\<open>Array.indexOf\<close> and \<^verbatim>\<open>removePrimitiveFromArray\<close> of \<^verbatim>\<open>utils/array.ts\<close>.\<close>

fun indexOf :: "'a list \<Rightarrow> 'a \<Rightarrow> int" where
  "indexOf [] v = -1"
| "indexOf (x # xs) v = (if x = v then 0 else let i = indexOf xs v in if i = -1 then -1 else i + 1)"

definition removePrimitiveFromArray :: "'a list \<Rightarrow> 'a \<Rightarrow> 'a list" where
  "removePrimitiveFromArray arr v =
    (let index = indexOf arr v in
     if index \<noteq> -1 then take (nat index) arr @ drop (nat index + 1) arr else arr)"

definition createQueryResponseStreamMetrics :: QueryExecutionMetrics where
  "createQueryResponseStreamMetrics =
    \<lparr>totalDataBytesReceived = 0, totalBatchesReceived = 0, totalRowsReceived = 0,
     totalQueryRequestsStarted = 0, totalQueryRequestsSucceeded = 0, totalQueryRequestsFailed = 0,
     totalQueryRequestDurationMs = 0, durationUntilFirstBatchMs = None\<rparr>"

definition orElse :: "'a option \<Rightarrow> 'a \<Rightarrow> 'a" where
  "orElse x d = (case x of Some v \<Rightarrow> v | None \<Rightarrow> d)"

definition mergeQueryMetrics :: "ConnectionQueryMetrics \<Rightarrow> QueryMetrics \<Rightarrow> ConnectionQueryMetrics" where
  "mergeQueryMetrics metrics query =
    \<lparr>cq_totalQueries = cq_totalQueries metrics + 1,
     cq_totalBatchesReceived = cq_totalBatchesReceived metrics + totalBatchesReceived (streamMetrics query),
     cq_totalRowsReceived = cq_totalRowsReceived metrics + totalRowsReceived (streamMetrics query),
     cq_accumulatedTimeUntilFirstBatch = cq_accumulatedTimeUntilFirstBatch metrics
       + orElse (durationUntilFirstBatchMs (streamMetrics query)) 0,
     cq_accumulatedQueryDuration = cq_accumulatedQueryDuration metrics + orElse (queryDurationMs query) 0\<rparr>"

section \<open>The updates of one query\<close>

definition query_preparing :: "timestamp \<Rightarrow> QueryExecutionState \<Rightarrow> QueryExecutionState" where
  "query_preparing now q = q\<lparr>q_status := PREPARING,
    q_metrics := (q_metrics q)\<lparr>lastUpdatedAt := Some now, queryPreparingStartedAt := Some now\<rparr>\<rparr>"

definition query_sending :: "timestamp \<Rightarrow> QueryExecutionState \<Rightarrow> QueryExecutionState" where
  "query_sending now q = q\<lparr>q_status := SENDING,
    q_metrics := (q_metrics q)\<lparr>lastUpdatedAt := Some now, querySendingStartedAt := Some now\<rparr>\<rparr>"

definition query_running :: "timestamp \<Rightarrow> handle \<Rightarrow> QueryExecutionState \<Rightarrow> QueryExecutionState" where
  "query_running now stream q = q\<lparr>q_status := RUNNING, resultStream := Some stream,
    q_metrics := (q_metrics q)\<lparr>lastUpdatedAt := Some now, queryRunningStartedAt := Some now\<rparr>\<rparr>"

definition query_progress_updated ::
  "timestamp \<Rightarrow> QueryExecutionProgress \<Rightarrow> QueryExecutionState \<Rightarrow> QueryExecutionState" where
  "query_progress_updated now p q =
    (let next = q\<lparr>latestProgressUpdate := Some p,
           q_metrics := (q_metrics q)\<lparr>lastUpdatedAt := Some now,
             progressUpdatesReceived := progressUpdatesReceived (q_metrics q) + 1\<rparr>\<rparr>
     in if isQueued p = Some True \<and> q_status next = SENDING
        then next\<lparr>q_status := QUEUED, q_metrics := (q_metrics next)\<lparr>queryQueuedStartedAt := Some now\<rparr>\<rparr>
        else next)"

definition query_received_batch ::
  "timestamp \<Rightarrow> RecordBatch \<Rightarrow> QueryExecutionMetrics \<Rightarrow> QueryExecutionState \<Rightarrow> QueryExecutionState" where
  "query_received_batch now batch sm q =
    (let m = q_metrics q;
         m = (if receivedFirstBatchAt m = None then m\<lparr>receivedFirstBatchAt := Some now\<rparr> else m);
         m = m\<lparr>receivedLastBatchAt := Some now, lastUpdatedAt := Some now, streamMetrics := sm\<rparr>;
         q' = q\<lparr>resultBatches := resultBatches q @ [batch], q_status := RECEIVED_FIRST_BATCH, q_metrics := m\<rparr>
     in if resultSchema q' = None then q'\<lparr>resultSchema := Some (batchSchema batch)\<rparr> else q')"

definition query_received_all_batches ::
  "timestamp \<Rightarrow> handle \<Rightarrow> handle \<Rightarrow> QueryExecutionState \<Rightarrow> QueryExecutionState" where
  "query_received_all_batches now table md q = q\<lparr>resultMetadata := Some md, resultTable := Some table,
    q_status := RECEIVED_ALL_BATCHES,
    q_metrics := (q_metrics q)\<lparr>lastUpdatedAt := Some now, receivedAllBatchesAt := Some now\<rparr>\<rparr>"

definition query_processing_results :: "timestamp \<Rightarrow> QueryExecutionState \<Rightarrow> QueryExecutionState" where
  "query_processing_results now q = q\<lparr>q_status := PROCESSING_RESULTS,
    q_metrics := (q_metrics q)\<lparr>lastUpdatedAt := Some now, processingResultsStartedAt := Some now\<rparr>\<rparr>"

definition query_processed_results :: "timestamp \<Rightarrow> QueryExecutionState \<Rightarrow> QueryExecutionState" where
  "query_processed_results now q = q\<lparr>q_status := PROCESSED_RESULTS,
    q_metrics := (q_metrics q)\<lparr>lastUpdatedAt := Some now, processedResultsAt := Some now\<rparr>\<rparr>"

text \<open>The three ends of a query. Only the success measures the time since the query started running;
  the other two take the start itself.\<close>

definition query_succeeded :: "timestamp \<Rightarrow> QueryExecutionState \<Rightarrow> QueryExecutionState" where
  "query_succeeded now q =
    (let untilNow = now - orElse (queryRunningStartedAt (q_metrics q)) now
     in q\<lparr>q_status := QueryExecutionStatus.SUCCEEDED,
       q_metrics := (q_metrics q)\<lparr>lastUpdatedAt := Some now, querySucceededAt := Some now,
         queryDurationMs := Some untilNow\<rparr>\<rparr>)"

definition query_cancelled ::
  "timestamp \<Rightarrow> handle \<Rightarrow> QueryExecutionMetrics option \<Rightarrow> QueryExecutionState \<Rightarrow> QueryExecutionState" where
  "query_cancelled now err sm q =
    (let untilNow = orElse (queryRunningStartedAt (q_metrics q)) now
     in q\<lparr>q_status := QueryExecutionStatus.CANCELLED, q_error := Some err,
       q_metrics := (q_metrics q)\<lparr>lastUpdatedAt := Some now, queryCancelledAt := Some now,
         queryDurationMs := Some untilNow, streamMetrics := orElse sm (streamMetrics (q_metrics q))\<rparr>\<rparr>)"

definition query_failed ::
  "timestamp \<Rightarrow> handle \<Rightarrow> QueryExecutionMetrics option \<Rightarrow> QueryExecutionState \<Rightarrow> QueryExecutionState" where
  "query_failed now err sm q =
    (let untilNow = orElse (queryRunningStartedAt (q_metrics q)) now
     in q\<lparr>q_status := QueryExecutionStatus.FAILED, q_error := Some err,
       q_metrics := (q_metrics q)\<lparr>lastUpdatedAt := Some now, queryFailedAt := Some now,
         queryDurationMs := Some untilNow, streamMetrics := orElse sm (streamMetrics (q_metrics q))\<rparr>\<rparr>)"

section \<open>The reducer\<close>

definition execute_query :: "nat \<Rightarrow> QueryExecutionState \<Rightarrow> ConnectionState \<Rightarrow> ConnectionState" where
  "execute_query qid q state = state
    \<lparr>queriesActive := js_set (queriesActive state) qid q,
     queriesActiveOrdered := queriesActiveOrdered state @ [qid],
     snapshotQueriesActiveFinished := snapshotQueriesActiveFinished state + 1\<rparr>"

text \<open>The bookkeeping of the result cache updates the map that holds the query.\<close>

definition reduce_query_cache ::
  "(QueryExecutionState \<Rightarrow> QueryExecutionState) \<Rightarrow> nat \<Rightarrow> ConnectionState \<Rightarrow> ConnectionState" where
  "reduce_query_cache upd qid state =
    (if js_has (queriesActive state) qid
     then (case js_get (queriesActive state) qid of
             None \<Rightarrow> state
           | Some q \<Rightarrow> state\<lparr>queriesActive := js_set (queriesActive state) qid (upd q)\<rparr>)
     else (case js_get (queriesFinished state) qid of
             None \<Rightarrow> state
           | Some q \<Rightarrow> state\<lparr>queriesFinished := js_set (queriesFinished state) qid (upd q)\<rparr>))"

definition cache_recorded :: "string \<Rightarrow> bool \<Rightarrow> timestamp option \<Rightarrow> QueryExecutionState \<Rightarrow> QueryExecutionState" where
  "cache_recorded key served cachedAtMs q = q\<lparr>cacheKey := Some key, servedFromCache := served,
    cachedAt := (case cachedAtMs of Some t \<Rightarrow> Some t | None \<Rightarrow> cachedAt q)\<rparr>"

definition cache_deleted :: "QueryExecutionState \<Rightarrow> QueryExecutionState" where
  "cache_deleted q = q\<lparr>cacheDeleted := True\<rparr>"

definition store_active :: "QueryExecutionState \<Rightarrow> ConnectionState \<Rightarrow> ConnectionState" where
  "store_active q state = state\<lparr>queriesActive := js_set (queriesActive state) (queryId q) q\<rparr>"

definition finish_query :: "QueryExecutionState \<Rightarrow> ConnectionState \<Rightarrow> ConnectionState" where
  "finish_query q state = state
    \<lparr>queriesActive := js_delete (queriesActive state) (queryId q),
     queriesActiveOrdered := removePrimitiveFromArray (queriesActiveOrdered state) (queryId q),
     queriesFinished := js_set (queriesFinished state) (queryId q) q,
     queriesFinishedOrdered := queriesFinishedOrdered state @ [queryId q],
     snapshotQueriesActiveFinished := snapshotQueriesActiveFinished state + 1\<rparr>"

definition finish_succeeded :: "QueryExecutionState \<Rightarrow> ConnectionState \<Rightarrow> ConnectionState" where
  "finish_succeeded q state = (let s = finish_query q state in
    s\<lparr>c_metrics := (c_metrics s)\<lparr>successfulQueries :=
        mergeQueryMetrics (successfulQueries (c_metrics s)) (q_metrics q)\<rparr>\<rparr>)"

definition finish_cancelled :: "QueryExecutionState \<Rightarrow> ConnectionState \<Rightarrow> ConnectionState" where
  "finish_cancelled q state = (let s = finish_query q state in
    s\<lparr>c_metrics := (c_metrics s)\<lparr>canceledQueries :=
        mergeQueryMetrics (canceledQueries (c_metrics s)) (q_metrics q)\<rparr>\<rparr>)"

definition finish_failed :: "QueryExecutionState \<Rightarrow> ConnectionState \<Rightarrow> ConnectionState" where
  "finish_failed q state = (let s = finish_query q state in
    s\<lparr>c_metrics := (c_metrics s)\<lparr>failedQueries :=
        mergeQueryMetrics (failedQueries (c_metrics s)) (q_metrics q)\<rparr>\<rparr>)"

fun action_query_id :: "QueryExecutionAction \<Rightarrow> nat" where
  "action_query_id (EXECUTE_QUERY i _) = i"
| "action_query_id (QUERY_PREPARING i) = i"
| "action_query_id (QUERY_SENDING i) = i"
| "action_query_id (QUERY_RUNNING i _) = i"
| "action_query_id (QUERY_PROGRESS_UPDATED i _) = i"
| "action_query_id (QUERY_RECEIVED_BATCH i _ _) = i"
| "action_query_id (QUERY_RECEIVED_ALL_BATCHES i _ _ _) = i"
| "action_query_id (QUERY_PROCESSING_RESULTS i) = i"
| "action_query_id (QUERY_PROCESSED_RESULTS i) = i"
| "action_query_id (QUERY_SUCCEEDED i) = i"
| "action_query_id (QUERY_FAILED i _ _) = i"
| "action_query_id (QUERY_CANCELLED i _ _) = i"
| "action_query_id (QUERY_CACHE_RECORDED i _ _ _) = i"
| "action_query_id (QUERY_CACHE_DELETED i) = i"

text \<open>The \<^verbatim>\<open>switch\<close> over the action for a query that is active.\<close>

fun reduce_active_query ::
  "timestamp \<Rightarrow> QueryExecutionState \<Rightarrow> QueryExecutionAction \<Rightarrow> ConnectionState \<Rightarrow> ConnectionState" where
  "reduce_active_query now q (QUERY_PREPARING _) = store_active (query_preparing now q)"
| "reduce_active_query now q (QUERY_SENDING _) = store_active (query_sending now q)"
| "reduce_active_query now q (QUERY_RUNNING _ stream) = store_active (query_running now stream q)"
| "reduce_active_query now q (QUERY_PROGRESS_UPDATED _ p) = store_active (query_progress_updated now p q)"
| "reduce_active_query now q (QUERY_RECEIVED_BATCH _ b sm) = store_active (query_received_batch now b sm q)"
| "reduce_active_query now q (QUERY_RECEIVED_ALL_BATCHES _ t md _) =
    store_active (query_received_all_batches now t md q)"
| "reduce_active_query now q (QUERY_PROCESSING_RESULTS _) = store_active (query_processing_results now q)"
| "reduce_active_query now q (QUERY_PROCESSED_RESULTS _) = store_active (query_processed_results now q)"
| "reduce_active_query now q (QUERY_SUCCEEDED _) = finish_succeeded (query_succeeded now q)"
| "reduce_active_query now q (QUERY_CANCELLED _ e sm) = finish_cancelled (query_cancelled now e sm q)"
| "reduce_active_query now q (QUERY_FAILED _ e sm) = finish_failed (query_failed now e sm q)"
| "reduce_active_query now q _ = (\<lambda>state. state)"

fun reduceQueryAction :: "timestamp \<Rightarrow> ConnectionState \<Rightarrow> QueryExecutionAction \<Rightarrow> ConnectionState" where
  "reduceQueryAction now state (EXECUTE_QUERY qid q) = execute_query qid q state"
| "reduceQueryAction now state (QUERY_CACHE_RECORDED qid key served at) =
    reduce_query_cache (cache_recorded key served at) qid state"
| "reduceQueryAction now state (QUERY_CACHE_DELETED qid) = reduce_query_cache cache_deleted qid state"
| "reduceQueryAction now state action =
    (case js_get (queriesActive state) (action_query_id action) of
       None \<Rightarrow> state
     | Some q \<Rightarrow> reduce_active_query now q action state)"

section \<open>Lemmas on the helpers\<close>

lemma indexOf_minus1: "indexOf xs v = -1 \<longleftrightarrow> v \<notin> set xs"
  and indexOf_ge: "-1 \<le> indexOf xs v"
proof -
  have "(indexOf xs v = -1 \<longleftrightarrow> v \<notin> set xs) \<and> -1 \<le> indexOf xs v"
    by (induction xs) (auto simp: Let_def)
  then show "indexOf xs v = -1 \<longleftrightarrow> v \<notin> set xs" "-1 \<le> indexOf xs v" by auto
qed

text \<open>Removing by index is removing the first occurrence.\<close>

lemma removePrimitiveFromArray_eq: "removePrimitiveFromArray xs v = remove1 v xs"
proof (induction xs)
  case (Cons x xs)
  show ?case
  proof (cases "x = v")
    case False
    have "0 \<le> indexOf xs v" if "indexOf xs v \<noteq> -1" using indexOf_ge [of xs v] that by simp
    then have "nat (indexOf xs v + 1) = Suc (nat (indexOf xs v))" if "indexOf xs v \<noteq> -1"
      using that by (simp add: nat_add_distrib)
    with False Cons indexOf_ge [of xs v] show ?thesis
      by (auto simp: removePrimitiveFromArray_def Let_def)
  qed (simp add: removePrimitiveFromArray_def)
qed (simp add: removePrimitiveFromArray_def)

lemmas query_update_defs = query_preparing_def query_sending_def query_running_def
  query_progress_updated_def query_received_batch_def query_received_all_batches_def
  query_processing_results_def query_processed_results_def Let_def

lemmas query_end_defs = query_succeeded_def query_cancelled_def query_failed_def

lemma query_update_id [simp]:
  "queryId (query_preparing t q) = queryId q" "queryId (query_sending t q) = queryId q"
  "queryId (query_running t st q) = queryId q" "queryId (query_progress_updated t p q) = queryId q"
  "queryId (query_received_batch t b sm q) = queryId q"
  "queryId (query_received_all_batches t tb md q) = queryId q"
  "queryId (query_processing_results t q) = queryId q" "queryId (query_processed_results t q) = queryId q"
  "queryId (query_succeeded t q) = queryId q" "queryId (query_cancelled t e m q) = queryId q"
  "queryId (query_failed t e m q) = queryId q"
  "queryId (cache_recorded k sv a q) = queryId q" "queryId (cache_deleted q) = queryId q"
  by (simp_all add: query_update_defs query_end_defs cache_recorded_def cache_deleted_def)

lemma query_update_not_done [simp]:
  "\<not> queryIsDone (q_status (query_preparing t q))" "\<not> queryIsDone (q_status (query_sending t q))"
  "\<not> queryIsDone (q_status (query_running t st q))"
  "queryIsDone (q_status (query_progress_updated t p q)) = queryIsDone (q_status q)"
  "\<not> queryIsDone (q_status (query_received_batch t b sm q))"
  "\<not> queryIsDone (q_status (query_received_all_batches t tb md q))"
  "\<not> queryIsDone (q_status (query_processing_results t q))"
  "\<not> queryIsDone (q_status (query_processed_results t q))"
  by (auto simp: query_update_defs)

lemma query_end_status [simp]:
  "q_status (query_succeeded t q) = QueryExecutionStatus.SUCCEEDED"
  "q_status (query_cancelled t e m q) = QueryExecutionStatus.CANCELLED"
  "q_status (query_failed t e m q) = QueryExecutionStatus.FAILED"
  "q_status (cache_recorded k sv a q) = q_status q" "q_status (cache_deleted q) = q_status q"
  by (simp_all add: query_end_defs cache_recorded_def cache_deleted_def)

section \<open>The invariant of the two query maps\<close>

text \<open>A map of queries together with its ordered list of ids: the list enumerates the keys of the
  map once each, and every query is stored under its own id.\<close>

definition query_index_ok :: "(nat, QueryExecutionState) jsmap \<Rightarrow> nat list \<Rightarrow> bool" where
  "query_index_ok m ids \<longleftrightarrow>
    jsmap_ok m \<and> distinct ids \<and> set ids = set (js_keys m) \<and> list_all (\<lambda>(k, q). queryId q = k) m"

definition all_queries :: "(QueryExecutionState \<Rightarrow> bool) \<Rightarrow> (nat, QueryExecutionState) jsmap \<Rightarrow> bool" where
  "all_queries P m \<longleftrightarrow> list_all (\<lambda>(k, q). P q) m"

definition queries_ok :: "ConnectionState \<Rightarrow> bool" where
  "queries_ok s \<longleftrightarrow>
    query_index_ok (queriesActive s) (queriesActiveOrdered s)
    \<and> query_index_ok (queriesFinished s) (queriesFinishedOrdered s)
    \<and> set (js_keys (queriesActive s)) \<inter> set (js_keys (queriesFinished s)) = {}
    \<and> all_queries (\<lambda>q. \<not> queryIsDone (q_status q)) (queriesActive s)
    \<and> all_queries (\<lambda>q. queryIsDone (q_status q)) (queriesFinished s)"

lemma index_ok_keys: "query_index_ok m ids \<Longrightarrow> set ids = fst ` set m"
  by (simp add: query_index_ok_def)

lemma index_ok_update:
  "query_index_ok m ids \<Longrightarrow> js_get m (queryId q) \<noteq> None \<Longrightarrow> query_index_ok (js_set m (queryId q) q) ids"
  unfolding query_index_ok_def set_map keys_js_set
  by (auto simp: list_all_js_set dest: keys_get_Some)

lemma index_ok_insert:
  "query_index_ok m ids \<Longrightarrow> js_get m (queryId q) = None \<Longrightarrow>
    query_index_ok (js_set m (queryId q) q) (ids @ [queryId q])"
  unfolding query_index_ok_def set_map keys_js_set
  by (auto simp: list_all_js_set keys_get_None)

lemma index_ok_remove:
  "query_index_ok m ids \<Longrightarrow> query_index_ok (js_delete m k) (removePrimitiveFromArray ids k)"
  unfolding query_index_ok_def set_map keys_js_delete
  by (auto simp: removePrimitiveFromArray_eq distinct_remove1 list_all_js_delete)

lemma index_ok_get: "query_index_ok m ids \<Longrightarrow> js_get m k = Some q \<Longrightarrow> queryId q = k"
  by (auto simp: query_index_ok_def list_all_iff dest: js_get_in_values)

lemma all_queries_get: "all_queries P m \<Longrightarrow> js_get m k = Some q \<Longrightarrow> P q"
  by (auto simp: all_queries_def list_all_iff dest: js_get_in_values)

lemma queries_ok_active:
  assumes "queries_ok s" "js_get (queriesActive s) k = Some q"
  shows "queryId q = k \<and> \<not> queryIsDone (q_status q) \<and> js_get (queriesFinished s) k = None"
proof -
  from assms(2) have "k \<in> fst ` set (queriesActive s)" by (rule keys_get_Some)
  with assms(1) have "js_get (queriesFinished s) k = None"
    unfolding queries_ok_def keys_get_None set_map by blast
  with assms show ?thesis unfolding queries_ok_def by (auto dest: index_ok_get all_queries_get)
qed

lemma queries_ok_finished:
  assumes "queries_ok s" "js_get (queriesFinished s) k = Some q"
  shows "queryId q = k \<and> queryIsDone (q_status q) \<and> js_get (queriesActive s) k = None"
proof -
  from assms(2) have "k \<in> fst ` set (queriesFinished s)" by (rule keys_get_Some)
  with assms(1) have "js_get (queriesActive s) k = None"
    unfolding queries_ok_def keys_get_None set_map by blast
  with assms show ?thesis unfolding queries_ok_def by (auto dest: index_ok_get all_queries_get)
qed

lemma all_queries_set: "all_queries P m \<Longrightarrow> P q \<Longrightarrow> all_queries P (js_set m k q)"
  by (simp add: all_queries_def list_all_js_set)

lemma all_queries_delete: "all_queries P m \<Longrightarrow> all_queries P (js_delete m k)"
  by (simp add: all_queries_def list_all_js_delete)

lemma store_active_ok:
  assumes "queries_ok s" "js_get (queriesActive s) (queryId q) \<noteq> None" "\<not> queryIsDone (q_status q)"
  shows "queries_ok (store_active q s)"
proof -
  from assms(2) have "queryId q \<in> fst ` set (queriesActive s)" by (auto dest: keys_get_Some)
  then have "fst ` set (queriesActive (store_active q s)) = fst ` set (queriesActive s)"
    by (auto simp: store_active_def)
  with assms show ?thesis
    unfolding queries_ok_def set_map
    by (simp add: store_active_def index_ok_update all_queries_set)
qed

lemma finish_query_ok:
  assumes "queries_ok s" "js_get (queriesActive s) (queryId q) \<noteq> None" "queryIsDone (q_status q)"
  shows "queries_ok (finish_query q s)"
proof -
  from assms(2) have mem: "queryId q \<in> fst ` set (queriesActive s)" by (auto dest: keys_get_Some)
  then have "js_get (queriesFinished s) (queryId q) = None"
    using assms(1) unfolding queries_ok_def keys_get_None set_map by blast
  with assms mem show ?thesis
    unfolding queries_ok_def set_map
    by (simp add: finish_query_def index_ok_insert index_ok_remove all_queries_set all_queries_delete) blast
qed

lemma queries_ok_metrics [simp]: "queries_ok (s\<lparr>c_metrics := m\<rparr>) = queries_ok s"
  by (simp add: queries_ok_def)

lemma finish_ends_ok:
  assumes "queries_ok s" "js_get (queriesActive s) (queryId q) \<noteq> None" "queryIsDone (q_status q)"
  shows "queries_ok (finish_succeeded q s)" "queries_ok (finish_cancelled q s)" "queries_ok (finish_failed q s)"
  using finish_query_ok [OF assms]
  by (simp_all add: finish_succeeded_def finish_cancelled_def finish_failed_def Let_def)

text \<open>The action starts a query under an id that is not in use, with the id in its state, not done.\<close>

fun query_action_fresh :: "ConnectionState \<Rightarrow> QueryExecutionAction \<Rightarrow> bool" where
  "query_action_fresh s (EXECUTE_QUERY qid q) =
    (js_get (queriesActive s) qid = None \<and> js_get (queriesFinished s) qid = None
      \<and> queryId q = qid \<and> \<not> queryIsDone (q_status q))"
| "query_action_fresh s _ = True"

lemma execute_query_ok:
  "queries_ok s \<Longrightarrow> query_action_fresh s (EXECUTE_QUERY qid q) \<Longrightarrow> queries_ok (execute_query qid q s)"
  unfolding queries_ok_def set_map
  by (auto simp: execute_query_def index_ok_insert all_queries_set keys_get_None)

lemma reduce_active_query_ok:
  assumes "queries_ok s" "js_get (queriesActive s) k = Some q"
  shows "queries_ok (reduce_active_query now q a s)"
proof -
  from assms have "queryId q = k" by (auto simp: queries_ok_def dest: index_ok_get)
  moreover from assms have "\<not> queryIsDone (q_status q)" by (auto simp: queries_ok_def dest: all_queries_get)
  ultimately show ?thesis
    using assms by (cases a) (simp_all add: store_active_ok finish_ends_ok)
qed

lemma reduce_query_cache_ok:
  assumes "queries_ok s" and upd: "\<And>q. queryId (upd q) = queryId q" "\<And>q. q_status (upd q) = q_status q"
  shows "queries_ok (reduce_query_cache upd qid s)"
proof -
  have in_active: "queries_ok (s\<lparr>queriesActive := js_set (queriesActive s) qid (upd q)\<rparr>)"
    if "js_get (queriesActive s) qid = Some q" for q
    using store_active_ok [OF assms(1), of "upd q"] queries_ok_active [OF assms(1) that] upd that
    by (simp add: store_active_def)
  have in_finished: "queries_ok (s\<lparr>queriesFinished := js_set (queriesFinished s) qid (upd q)\<rparr>)"
    if g: "js_get (queriesFinished s) qid = Some q" for q
  proof -
    from queries_ok_finished [OF assms(1) g] have "queryId q = qid" "queryIsDone (q_status q)" by auto
    moreover have "qid \<in> fst ` set (queriesFinished s)" using g by (rule keys_get_Some)
    ultimately show ?thesis
      using assms g index_ok_update [of "queriesFinished s" "queriesFinishedOrdered s" "upd q"]
      unfolding queries_ok_def set_map by (simp add: all_queries_set) blast
  qed
  show ?thesis
    using assms(1) in_active in_finished by (auto simp: reduce_query_cache_def split: option.splits)
qed

fun lifecycle_action :: "QueryExecutionAction \<Rightarrow> bool" where
  "lifecycle_action (EXECUTE_QUERY _ _) = False"
| "lifecycle_action (QUERY_CACHE_RECORDED _ _ _ _) = False"
| "lifecycle_action (QUERY_CACHE_DELETED _) = False"
| "lifecycle_action _ = True"

lemma reduceQueryAction_lifecycle:
  "lifecycle_action a \<Longrightarrow> reduceQueryAction now s a =
    (case js_get (queriesActive s) (action_query_id a) of
       None \<Rightarrow> s | Some q \<Rightarrow> reduce_active_query now q a s)"
  by (cases a) (simp_all cong: option.case_cong)

lemma query_action_cases:
  obtains qid q where "a = EXECUTE_QUERY qid q"
  | qid k sv at where "a = QUERY_CACHE_RECORDED qid k sv at"
  | qid where "a = QUERY_CACHE_DELETED qid"
  | "lifecycle_action a"
  by (cases a) simp_all

lemma reduceQueryAction_ok:
  assumes "queries_ok s" "query_action_fresh s a"
  shows "queries_ok (reduceQueryAction now s a)"
proof (cases a rule: query_action_cases)
  case 4
  then show ?thesis using assms(1)
    by (auto simp: reduceQueryAction_lifecycle reduce_active_query_ok split: option.splits)
qed (use assms in \<open>simp_all add: execute_query_ok reduce_query_cache_ok del: query_action_fresh.simps\<close>)

section \<open>Accounting\<close>

text \<open>The number of finished queries with a status.\<close>

definition count_status :: "QueryExecutionStatus \<Rightarrow> (nat, QueryExecutionState) jsmap \<Rightarrow> int" where
  "count_status st m = int (length (filter (\<lambda>(k, q). q_status q = st) m))"

definition metrics_ok :: "ConnectionState \<Rightarrow> bool" where
  "metrics_ok s \<longleftrightarrow>
    cq_totalQueries (successfulQueries (c_metrics s)) = count_status QueryExecutionStatus.SUCCEEDED (queriesFinished s)
    \<and> cq_totalQueries (canceledQueries (c_metrics s)) = count_status QueryExecutionStatus.CANCELLED (queriesFinished s)
    \<and> cq_totalQueries (failedQueries (c_metrics s)) = count_status QueryExecutionStatus.FAILED (queriesFinished s)"

lemma js_set_new: "js_get m k = None \<Longrightarrow> js_set m k v = m @ [(k, v)]"
  by (induction m) (auto split: if_splits)

lemma count_status_new:
  "js_get m k = None \<Longrightarrow> count_status st (js_set m k q) = count_status st m + (if q_status q = st then 1 else 0)"
  by (simp add: count_status_def js_set_new)

lemma count_status_same:
  "js_get m k = Some q \<Longrightarrow> q_status q' = q_status q \<Longrightarrow> count_status st (js_set m k q') = count_status st m"
  by (induction m) (auto simp: count_status_def split: if_splits)

lemma mergeQueryMetrics_total [simp]: "cq_totalQueries (mergeQueryMetrics m q) = cq_totalQueries m + 1"
  by (simp add: mergeQueryMetrics_def)

lemma active_not_finished:
  "queries_ok s \<Longrightarrow> js_get (queriesActive s) k = Some q \<Longrightarrow> queryId q = k \<and> js_get (queriesFinished s) k = None"
  using queries_ok_active by blast

lemma reduce_active_query_metrics:
  assumes "queries_ok s" "metrics_ok s" "js_get (queriesActive s) k = Some q"
  shows "metrics_ok (reduce_active_query now q a s)"
  using assms(2) active_not_finished [OF assms(1,3)]
  by (cases a) (simp_all add: metrics_ok_def store_active_def finish_succeeded_def finish_cancelled_def
      finish_failed_def finish_query_def count_status_new Let_def)

lemma reduceQueryAction_metrics:
  assumes "queries_ok s" "metrics_ok s"
  shows "metrics_ok (reduceQueryAction now s a)"
proof (cases a rule: query_action_cases)
  case 4
  then show ?thesis using assms
    by (auto simp: reduceQueryAction_lifecycle reduce_active_query_metrics split: option.splits)
qed (use assms in \<open>auto simp: metrics_ok_def execute_query_def reduce_query_cache_def count_status_same
      split: option.splits\<close>)

section \<open>What an action leaves alone\<close>

text \<open>The fields of a query apart from the bookkeeping of the result cache.\<close>

definition same_query_result :: "QueryExecutionState \<Rightarrow> QueryExecutionState \<Rightarrow> bool" where
  "same_query_result q q' \<longleftrightarrow>
    q\<lparr>cacheKey := None, servedFromCache := False, cacheDeleted := False, cachedAt := None\<rparr>
    = q'\<lparr>cacheKey := None, servedFromCache := False, cacheDeleted := False, cachedAt := None\<rparr>"

lemma same_query_result_refl [simp]: "same_query_result q q"
  by (simp add: same_query_result_def)

lemma same_query_result_trans: "same_query_result p q \<Longrightarrow> same_query_result q r \<Longrightarrow> same_query_result p r"
  by (simp add: same_query_result_def)

lemma same_query_result_cache [simp]:
  "same_query_result q (cache_recorded k sv at q)" "same_query_result q (cache_deleted q)"
  by (simp_all add: same_query_result_def cache_recorded_def cache_deleted_def)

text \<open>A finished query stays finished: no action of a query that ended is applied to it, apart from
  the cache bookkeeping.\<close>

lemma finished_stable:
  assumes "queries_ok s" "js_get (queriesFinished s) k = Some q" "query_action_fresh s a"
  shows "\<exists>q'. js_get (queriesFinished (reduceQueryAction now s a)) k = Some q' \<and> same_query_result q q'"
proof (cases a rule: query_action_cases)
  case (1 qid q0)
  then show ?thesis using assms by (auto simp: execute_query_def)
next
  case (2 qid key sv at)
  then show ?thesis using assms by (auto simp: reduce_query_cache_def js_get_set split: option.splits)
next
  case (3 qid)
  then show ?thesis using assms by (auto simp: reduce_query_cache_def js_get_set split: option.splits)
next
  case 4
  have "\<exists>q'. js_get (queriesFinished (reduce_active_query now p a s)) k = Some q' \<and> same_query_result q q'"
    if "js_get (queriesActive s) i = Some p" for p i
  proof -
    have "queryId p \<noteq> k" using active_not_finished [OF assms(1) that] assms(2) by auto
    then show ?thesis using assms(2)
      by (cases a) (auto simp: store_active_def finish_succeeded_def finish_cancelled_def
          finish_failed_def finish_query_def Let_def js_get_set)
  qed
  with 4 assms(2) show ?thesis by (auto simp: reduceQueryAction_lifecycle split: option.splits)
qed

text \<open>The rest of the connection state.\<close>

lemma finish_query_frame [simp]:
  "notebookId (finish_query q s) = notebookId s" "active (finish_query q s) = active s"
  "connectionStatus (finish_query q s) = connectionStatus s"
  "connectionSignature (finish_query q s) = connectionSignature s"
  "details (finish_query q s) = details s" "connectorInfo (finish_query q s) = connectorInfo s"
  "c_metrics (finish_query q s) = c_metrics s" "catalogUpdates (finish_query q s) = catalogUpdates s"
  by (simp_all add: finish_query_def)

lemma reduce_active_query_frame [simp]:
  "notebookId (reduce_active_query now q a s) = notebookId s"
  "active (reduce_active_query now q a s) = active s"
  "connectionStatus (reduce_active_query now q a s) = connectionStatus s"
  "connectionSignature (reduce_active_query now q a s) = connectionSignature s"
  "details (reduce_active_query now q a s) = details s"
  "connectorInfo (reduce_active_query now q a s) = connectorInfo s"
  "catalogUpdates (reduce_active_query now q a s) = catalogUpdates s"
  by (cases a; simp add: store_active_def finish_succeeded_def finish_cancelled_def finish_failed_def Let_def)+

lemma reduce_query_cache_frame [simp]:
  "notebookId (reduce_query_cache u i s) = notebookId s" "active (reduce_query_cache u i s) = active s"
  "connectionStatus (reduce_query_cache u i s) = connectionStatus s"
  "connectionSignature (reduce_query_cache u i s) = connectionSignature s"
  "details (reduce_query_cache u i s) = details s" "connectorInfo (reduce_query_cache u i s) = connectorInfo s"
  "catalogUpdates (reduce_query_cache u i s) = catalogUpdates s"
  by (simp_all add: reduce_query_cache_def split: option.splits)

lemma reduceQueryAction_frame [simp]:
  "notebookId (reduceQueryAction now s a) = notebookId s"
  "active (reduceQueryAction now s a) = active s"
  "connectionStatus (reduceQueryAction now s a) = connectionStatus s"
  "connectionSignature (reduceQueryAction now s a) = connectionSignature s"
  "details (reduceQueryAction now s a) = details s"
  "connectorInfo (reduceQueryAction now s a) = connectorInfo s"
  "catalogUpdates (reduceQueryAction now s a) = catalogUpdates s"
  by (cases a rule: query_action_cases;
      auto simp: reduceQueryAction_lifecycle execute_query_def split: option.splits)+

end
