(* ===== verification/Catalog_Update.thy ===== *)
theory Catalog_Update
  imports Connection_Types
begin

text \<open>The catalog part of the connection reducer, \<^verbatim>\<open>connection/catalog_update_state.tsx\<close>. A successful
  update schedules writes of the two catalog scripts, recorded in the environment.\<close>

definition CATALOG_DEFAULT_DESCRIPTOR_POOL_RANK :: nat where
  "CATALOG_DEFAULT_DESCRIPTOR_POOL_RANK = 9999"

definition isCatalogRefreshRunning :: "ConnectionState option \<Rightarrow> bool" where
  "isCatalogRefreshRunning connection =
    (case connection of None \<Rightarrow> False
     | Some c \<Rightarrow>
        (case currentFullRefresh (catalogUpdates c) of None \<Rightarrow> False
         | Some refreshId \<Rightarrow> js_has (tasksRunning (catalogUpdates c)) refreshId))"

definition update_catalog :: "nat \<Rightarrow> CatalogUpdateTaskState \<Rightarrow> ConnectionState \<Rightarrow> ConnectionState" where
  "update_catalog updateId update state = state\<lparr>catalogUpdates := (catalogUpdates state)
    \<lparr>tasksRunning := js_set (tasksRunning (catalogUpdates state)) updateId update,
     currentFullRefresh := (if taskVariant update = FULL_CATALOG_REFRESH then Some updateId
       else currentFullRefresh (catalogUpdates state))\<rparr>\<rparr>"

definition store_running :: "nat \<Rightarrow> CatalogUpdateTaskState \<Rightarrow> ConnectionState \<Rightarrow> ConnectionState" where
  "store_running updateId update state = state\<lparr>catalogUpdates := (catalogUpdates state)
    \<lparr>tasksRunning := js_set (tasksRunning (catalogUpdates state)) updateId update\<rparr>\<rparr>"

definition finish_update :: "nat \<Rightarrow> CatalogUpdateTaskState \<Rightarrow> ConnectionState \<Rightarrow> ConnectionState" where
  "finish_update updateId update state = state\<lparr>catalogUpdates :=
    \<lparr>tasksRunning = js_delete (tasksRunning (catalogUpdates state)) updateId,
     tasksFinished = js_set (tasksFinished (catalogUpdates state)) updateId update,
     restoredAt = restoredAt (catalogUpdates state),
     currentFullRefresh = Some updateId,
     lastFullRefresh = Some updateId\<rparr>\<rparr>"

definition register_query :: "timestamp \<Rightarrow> nat \<Rightarrow> CatalogUpdateTaskState \<Rightarrow> CatalogUpdateTaskState" where
  "register_query now qid u = u\<lparr>t_queries := t_queries u @ [qid], lastUpdateAt := Some now\<rparr>"

definition touch_update :: "timestamp \<Rightarrow> CatalogUpdateTaskState \<Rightarrow> CatalogUpdateTaskState" where
  "touch_update now u = u\<lparr>lastUpdateAt := Some now\<rparr>"

definition cancel_update :: "timestamp \<Rightarrow> handle \<Rightarrow> CatalogUpdateTaskState \<Rightarrow> CatalogUpdateTaskState" where
  "cancel_update now err u = u\<lparr>t_status := CatalogUpdateTaskStatus.CANCELLED, t_error := Some err,
    finishedAt := Some now, lastUpdateAt := Some now\<rparr>"

definition fail_update :: "timestamp \<Rightarrow> handle \<Rightarrow> CatalogUpdateTaskState \<Rightarrow> CatalogUpdateTaskState" where
  "fail_update now err u = u\<lparr>t_status := CatalogUpdateTaskStatus.FAILED, t_error := Some err,
    finishedAt := Some now, lastUpdateAt := Some now\<rparr>"

definition succeed_update :: "timestamp \<Rightarrow> CatalogUpdateTaskState \<Rightarrow> CatalogUpdateTaskState" where
  "succeed_update now u = u\<lparr>t_status := CatalogUpdateTaskStatus.SUCCEEDED,
    finishedAt := Some now, lastUpdateAt := Some now\<rparr>"

definition persist_catalog :: "ConnectionState \<Rightarrow> conn_env \<Rightarrow> conn_env" where
  "persist_catalog s env =
    (if active s
     then emit (StorageWrite (groupNotebookFunctionWrites (notebookId s))
             (WRITE_NOTEBOOK_FUNCTION_SCRIPT (notebookId s) (catalogFunctionScript s))
             DEBOUNCE_DURATION_NOTEBOOK_WRITE)
         (emit (StorageWrite (groupNotebookSchemaWrites (notebookId s))
             (WRITE_NOTEBOOK_CATALOG_SCRIPT (notebookId s) (catalogRelationScript s))
             DEBOUNCE_DURATION_NOTEBOOK_WRITE) env)
     else env)"

fun reduceCatalogAction ::
  "timestamp \<Rightarrow> conn_env \<Rightarrow> ConnectionState \<Rightarrow> CatalogAction \<Rightarrow> conn_env \<times> ConnectionState" where
  "reduceCatalogAction now env state (UPDATE_CATALOG i u) = (env, update_catalog i u state)"
| "reduceCatalogAction now env state (SET_CATALOG_SCRIPT _) = (env, state)"
| "reduceCatalogAction now env state (CATALOG_UPDATE_REGISTER_QUERY i qid) =
    (case js_get (tasksRunning (catalogUpdates state)) i of None \<Rightarrow> (env, state)
     | Some u \<Rightarrow> (env, store_running i (register_query now qid u) state))"
| "reduceCatalogAction now env state (CATALOG_UPDATE_SCHEMA_SCRIPT i) =
    (case js_get (tasksRunning (catalogUpdates state)) i of None \<Rightarrow> (env, state)
     | Some u \<Rightarrow> (env, store_running i (touch_update now u) state))"
| "reduceCatalogAction now env state (CATALOG_UPDATE_CANCELLED i err) =
    (case js_get (tasksRunning (catalogUpdates state)) i of None \<Rightarrow> (env, state)
     | Some u \<Rightarrow> (env, finish_update i (cancel_update now err u) state))"
| "reduceCatalogAction now env state (CATALOG_UPDATE_FAILED i err) =
    (case js_get (tasksRunning (catalogUpdates state)) i of None \<Rightarrow> (env, state)
     | Some u \<Rightarrow> (env, finish_update i (fail_update now err u) state))"
| "reduceCatalogAction now env state (CATALOG_UPDATE_SUCCEEDED i) =
    (case js_get (tasksRunning (catalogUpdates state)) i of None \<Rightarrow> (env, state)
     | Some u \<Rightarrow>
        let newState = finish_update i (succeed_update now u) state
        in (persist_catalog newState env, newState))"

section \<open>The invariant of the update tasks\<close>

text \<open>Running tasks have the status \<open>STARTED\<close>, finished ones do not, no task is in both maps, and the
  refresh ids name known tasks: the last refresh is a finished one.\<close>

definition catalog_ok :: "CatalogUpdates \<Rightarrow> bool" where
  "catalog_ok u \<longleftrightarrow>
    jsmap_ok (tasksRunning u) \<and> jsmap_ok (tasksFinished u)
    \<and> fst ` set (tasksRunning u) \<inter> fst ` set (tasksFinished u) = {}
    \<and> list_all (\<lambda>(i, t). t_status t = STARTED) (tasksRunning u)
    \<and> list_all (\<lambda>(i, t). t_status t \<noteq> STARTED) (tasksFinished u)
    \<and> (case lastFullRefresh u of None \<Rightarrow> True | Some i \<Rightarrow> i \<in> fst ` set (tasksFinished u))
    \<and> (case currentFullRefresh u of None \<Rightarrow> True
       | Some i \<Rightarrow> i \<in> fst ` set (tasksRunning u) \<union> fst ` set (tasksFinished u))"

text \<open>An update starts under a new id with status \<open>STARTED\<close>.\<close>

fun catalog_action_fresh :: "ConnectionState \<Rightarrow> CatalogAction \<Rightarrow> bool" where
  "catalog_action_fresh s (UPDATE_CATALOG i u) =
    (js_get (tasksRunning (catalogUpdates s)) i = None \<and> js_get (tasksFinished (catalogUpdates s)) i = None
      \<and> t_status u = STARTED)"
| "catalog_action_fresh s _ = True"

lemma catalog_ok_running_status:
  "catalog_ok u \<Longrightarrow> js_get (tasksRunning u) i = Some t \<Longrightarrow> t_status t = STARTED"
  by (auto simp: catalog_ok_def list_all_iff dest: js_get_in_values)

lemma update_catalog_ok:
  "catalog_ok (catalogUpdates s) \<Longrightarrow> catalog_action_fresh s (UPDATE_CATALOG i u) \<Longrightarrow>
    catalog_ok (catalogUpdates (update_catalog i u s))"
  by (cases "taskVariant u")
    (auto simp: catalog_ok_def update_catalog_def list_all_js_set keys_get_None split: option.splits)

lemma store_running_ok:
  "catalog_ok (catalogUpdates s) \<Longrightarrow> js_get (tasksRunning (catalogUpdates s)) i \<noteq> None \<Longrightarrow>
    t_status t = STARTED \<Longrightarrow> catalog_ok (catalogUpdates (store_running i t s))"
  unfolding catalog_ok_def store_running_def
  by (simp add: list_all_js_set split: option.splits) (blast dest: keys_get_Some)+

lemma finish_update_ok:
  "catalog_ok (catalogUpdates s) \<Longrightarrow> js_get (tasksRunning (catalogUpdates s)) i \<noteq> None \<Longrightarrow>
    t_status t \<noteq> STARTED \<Longrightarrow> catalog_ok (catalogUpdates (finish_update i t s))"
  unfolding catalog_ok_def finish_update_def
  by (simp add: list_all_js_set list_all_js_delete split: option.splits) (blast dest: keys_get_Some)+

lemma task_status [simp]:
  "t_status (register_query now q u) = t_status u" "t_status (touch_update now u) = t_status u"
  "t_status (cancel_update now e u) \<noteq> STARTED" "t_status (fail_update now e u) \<noteq> STARTED"
  "t_status (succeed_update now u) \<noteq> STARTED"
  by (simp_all add: register_query_def touch_update_def cancel_update_def fail_update_def succeed_update_def)

lemma reduceCatalogAction_ok:
  assumes "catalog_ok (catalogUpdates s)" "catalog_action_fresh s a"
  shows "catalog_ok (catalogUpdates (snd (reduceCatalogAction now env s a)))"
  using assms
  by (cases a) (simp_all add: update_catalog_ok store_running_ok finish_update_ok catalog_ok_running_status
      Let_def split: option.splits)

lemma catalog_updates_frame [simp]:
  "notebookId (finish_update i u s) = notebookId s" "active (finish_update i u s) = active s"
  "connectionSignature (finish_update i u s) = connectionSignature s"
  "details (finish_update i u s) = details s" "connectorInfo (finish_update i u s) = connectorInfo s"
  "connectionStatus (finish_update i u s) = connectionStatus s"
  "notebookId (store_running i u s) = notebookId s" "active (store_running i u s) = active s"
  "connectionSignature (store_running i u s) = connectionSignature s"
  "details (store_running i u s) = details s" "connectorInfo (store_running i u s) = connectorInfo s"
  "connectionStatus (store_running i u s) = connectionStatus s"
  "notebookId (update_catalog i u s) = notebookId s" "active (update_catalog i u s) = active s"
  "connectionSignature (update_catalog i u s) = connectionSignature s"
  "details (update_catalog i u s) = details s" "connectorInfo (update_catalog i u s) = connectorInfo s"
  "connectionStatus (update_catalog i u s) = connectionStatus s"
  by (simp_all add: finish_update_def store_running_def update_catalog_def)

lemma emit_frame [simp]: "signatures (emit e env) = signatures env" "effects (emit e env) = effects env @ [e]"
  by (simp_all add: emit_def)

lemma reduceCatalogAction_frame [simp]:
  "notebookId (snd (reduceCatalogAction now env s a)) = notebookId s"
  "active (snd (reduceCatalogAction now env s a)) = active s"
  "connectionSignature (snd (reduceCatalogAction now env s a)) = connectionSignature s"
  "details (snd (reduceCatalogAction now env s a)) = details s"
  "connectorInfo (snd (reduceCatalogAction now env s a)) = connectorInfo s"
  "connectionStatus (snd (reduceCatalogAction now env s a)) = connectionStatus s"
  "signatures (fst (reduceCatalogAction now env s a)) = signatures env"
  by (cases a; simp add: Let_def persist_catalog_def split: option.splits)+

lemma queries_frame:
  "queriesActive (snd (reduceCatalogAction now env s a)) = queriesActive s"
  "queriesActiveOrdered (snd (reduceCatalogAction now env s a)) = queriesActiveOrdered s"
  "queriesFinished (snd (reduceCatalogAction now env s a)) = queriesFinished s"
  "queriesFinishedOrdered (snd (reduceCatalogAction now env s a)) = queriesFinishedOrdered s"
  "c_metrics (snd (reduceCatalogAction now env s a)) = c_metrics s"
  by (cases a; simp add: Let_def finish_update_def store_running_def update_catalog_def split: option.splits)+

end
