(* ===== verification/Connection_Signature.thy ===== *)
theory Connection_Signature
  imports Connection_Types Murmur3
begin

text \<open>The generator \<^verbatim>\<open>TycheI\<close> of \<^verbatim>\<open>utils/prng.ts\<close>, seeded by the hasher, on JavaScript numbers, its
  word-level reading and its inverse.\<close>

unbundle bit_operations_syntax

record TycheI =
  ra :: int
  rb :: int
  rc :: int
  rd :: int

definition nextI32 :: "TycheI \<Rightarrow> int \<times> TycheI" where
  "nextI32 r =
    (let a = js_or (ra r) 0; b = js_or (rb r) 0; c = js_or (rc r) 0; d = js_or (rd r) 0;
         b = js_xor (js_or (js_shl b 25) (js_ushr b 7)) c; c = js_or (c - d) 0;
         d = js_xor (js_or (js_shl d 24) (js_ushr d 8)) a; a = js_or (a - b) 0;
         b = js_xor (js_or (js_shl b 20) (js_ushr b 12)) c; c = js_or (c - d) 0;
         d = js_xor (js_or (js_shl d 16) (js_ushr d 16)) a; a = js_or (a - b) 0
     in (js_ushr a 0, \<lparr>ra = a, rb = b, rc = c, rd = d\<rparr>))"

text \<open>\<^verbatim>\<open>next\<close> returns the double \<^verbatim>\<open>Math.abs(nextI32() / 0xFFFFFFFF)\<close>. Its only use is
  \<^verbatim>\<open>Math.floor(rng.next() * 16)\<close>; the quotient is at least 2^-36 away from every multiple of 1/16
  other than 0 and 1, so the rounding of the division does not change the floor, which is therefore
  the integer quotient below.\<close>

definition next_index16 :: "TycheI \<Rightarrow> int \<times> TycheI" where
  "next_index16 r = (let (n, r') = nextI32 r in ((16 * n) div 0xFFFFFFFF, r'))"

definition asPrng :: "Murmur3_x86_128 \<Rightarrow> TycheI" where
  "asPrng h = (let (a, b, c, d) = finish h in \<lparr>ra = a, rb = b, rc = c, rd = d\<rparr>)"

section \<open>The word-level reading\<close>

definition rng_words :: "TycheI \<Rightarrow> lanes" where
  "rng_words r = (w32 (ra r), w32 (rb r), w32 (rc r), w32 (rd r))"

definition tyche_step :: "lanes \<Rightarrow> lanes" where
  "tyche_step = (\<lambda>(a, b, c, d).
    (let b = word_rotl 25 b XOR c; c = c - d; d = word_rotl 24 d XOR a; a = a - b;
         b = word_rotl 20 b XOR c; c = c - d; d = word_rotl 16 d XOR a; a = a - b
     in (a, b, c, d)))"

definition tyche_unstep :: "lanes \<Rightarrow> lanes" where
  "tyche_unstep = (\<lambda>(a, b, c, d).
    (let a = a + b; d = word_rotr 16 (d XOR a); c = c + d; b = word_rotr 20 (b XOR c);
         a = a + b; d = word_rotr 24 (d XOR a); c = c + d; b = word_rotr 25 (b XOR c)
     in (a, b, c, d)))"

lemma w32_or_0 [js_number]: "w32 (js_or x 0) = w32 x"
  by (simp add: w32_or w32_0)

lemmas tyche_rotl = word_rotl_shifts [of 25 7, simplified] word_rotl_shifts [of 24 8, simplified]
  word_rotl_shifts [of 20 12, simplified] word_rotl_shifts [of 16 16, simplified]

lemma rng_words_nextI32: "rng_words (snd (nextI32 r)) = tyche_step (rng_words r)"
  by (simp only: nextI32_def rng_words_def tyche_step_def Let_def js_number w32_or_0 tyche_rotl
      prod.case snd_conv TycheI.simps or.right_neutral)

lemma nextI32_output: "fst (nextI32 r) = uint (fst (tyche_step (rng_words r)))"
proof -
  have "fst (nextI32 r) = uint (w32 (ra (snd (nextI32 r))))"
    by (simp add: nextI32_def Let_def js_ushr_0_eq)
  also have "w32 (ra (snd (nextI32 r))) = fst (rng_words (snd (nextI32 r)))"
    by (simp add: rng_words_def)
  finally show ?thesis by (simp add: rng_words_nextI32)
qed

lemma xor_cancel_right: "((x :: 32 word) XOR y) XOR y = x"
  by (simp add: xor.assoc)

lemma tyche_unstep_step: "tyche_unstep (tyche_step s) = s"
  by (cases s) (simp add: tyche_step_def tyche_unstep_def Let_def xor_cancel_right)

lemma tyche_step_unstep: "tyche_step (tyche_unstep s) = s"
  by (cases s) (simp add: tyche_step_def tyche_unstep_def Let_def xor_cancel_right)

lemma nextI32_range: "0 \<le> fst (nextI32 r) \<and> fst (nextI32 r) < 4294967296"
  by (simp add: nextI32_def Let_def js_ushr_range)

lemma next_index16_range: "0 \<le> fst (next_index16 r) \<and> fst (next_index16 r) \<le> 16"
proof -
  have "0 \<le> fst (nextI32 r)" "fst (nextI32 r) \<le> 4294967295" using nextI32_range [of r] by simp_all
  then have "16 * fst (nextI32 r) \<le> 16 * 4294967295" by simp
  then have "(16 * fst (nextI32 r)) div 4294967295 \<le> 16" by (simp add: div_le_dividend)
  with nextI32_range [of r] show ?thesis
    by (simp add: next_index16_def split_beta pos_imp_zdiv_nonneg_iff)
qed

lemma next_index16_eq_16: "fst (next_index16 r) = 16 \<longleftrightarrow> fst (nextI32 r) = 0xFFFFFFFF"
  using nextI32_range [of r] by (auto simp: next_index16_def split_beta)

text \<open>The generator's state transition is a bijection of the 2^128 states, and the number it
  returns is the first lane of the new state; so no two seeds are merged and every lane value,
  \<^verbatim>\<open>0xFFFFFFFF\<close> included, is produced from some state.\<close>

theorem prng_step_bijective:
  "bij tyche_step \<and> rng_words (snd (nextI32 r)) = tyche_step (rng_words r)
    \<and> fst (nextI32 r) = uint (fst (tyche_step (rng_words r)))"
proof -
  have "bij tyche_step"
    by (rule o_bij [of tyche_unstep]) (auto simp: tyche_unstep_step tyche_step_unstep)
  then show ?thesis by (simp add: rng_words_nextI32 nextI32_output)
qed


text \<open>Connection signatures, \<^verbatim>\<open>connection/connection_signature.ts\<close>. The map of taken signatures is one
  mutable object shared by all connections, so it is passed and returned. Maps are finite, so the
  \<^verbatim>\<open>while (true)\<close> loop ends: every round makes the candidate longer, and a candidate longer than every
  taken signature is free. \<open>signature_loop\<close> is therefore a total function.\<close>

definition SIGNATURE_DEFAULT_LENGTH :: nat where
  "SIGNATURE_DEFAULT_LENGTH = 6"

definition HEX_TABLE :: string where
  "HEX_TABLE = ''0123456789abcdef''"

text \<open>The string that \<^verbatim>\<open>sig += HEX_TABLE[i]\<close> appends; an index out of range reads \<^verbatim>\<open>undefined\<close>.\<close>

definition hex_table_at :: "int \<Rightarrow> string" where
  "hex_table_at i =
    (if 0 \<le> i \<and> i < int (length HEX_TABLE) then [HEX_TABLE ! nat i] else ''undefined'')"

definition append_hex :: "string \<times> TycheI \<Rightarrow> string \<times> TycheI" where
  "append_hex = (\<lambda>(sig, rng). (let (i, rng') = next_index16 rng in (sig @ hex_table_at i, rng')))"

definition signature_prefix :: "TycheI \<Rightarrow> string \<times> TycheI" where
  "signature_prefix rng = (append_hex ^^ SIGNATURE_DEFAULT_LENGTH) ([], rng)"

definition longest_key :: "(string, 'v) jsmap \<Rightarrow> nat" where
  "longest_key m = foldr max (map length (js_keys m)) 0"

lemma longest_key_ge: "k \<in> fst ` set m \<Longrightarrow> length k \<le> longest_key m"
  unfolding longest_key_def by (induction m) (auto simp: le_max_iff_disj)

lemma hex_table_at_nonempty: "0 < length (hex_table_at i)"
  by (simp add: hex_table_at_def)

function signature_loop :: "ConnectionSignatureMap \<Rightarrow> string \<times> TycheI \<Rightarrow> string" where
  "signature_loop sigs (sig, rng) =
    (if \<not> js_has sigs sig then sig else signature_loop sigs (append_hex (sig, rng)))"
  by pat_completeness auto
termination
proof (relation "measure (\<lambda>(sigs, (sig, rng)). Suc (longest_key sigs) - length sig)")
  fix sigs :: ConnectionSignatureMap and sig :: string and rng :: TycheI
  assume "\<not> \<not> js_has sigs sig"
  then have "length sig \<le> longest_key sigs"
    by (auto intro!: longest_key_ge dest: keys_get_Some)
  moreover have "length sig < length (fst (append_hex (sig, rng)))"
    using hex_table_at_nonempty by (simp add: append_hex_def split_beta)
  ultimately show "((sigs, append_hex (sig, rng)), sigs, sig, rng)
      \<in> measure (\<lambda>(sigs, (sig, rng)). Suc (longest_key sigs) - length sig)"
    by (cases "append_hex (sig, rng)") simp
qed simp

declare signature_loop.simps [simp del]

definition updateConnectionSignature ::
  "ConnectionSignatureMap \<Rightarrow> ConnectionSignatureState \<Rightarrow> Murmur3_x86_128 \<Rightarrow> string option
    \<Rightarrow> ConnectionSignatureMap \<times> ConnectionSignatureState" where
  "updateConnectionSignature sigs prev next nid =
    (let rng = asPrng next;
         sigs = (if signatureString prev \<noteq> [] then js_delete sigs (signatureString prev) else sigs);
         sig = signature_loop sigs (signature_prefix rng)
     in (js_set sigs sig nid, \<lparr>sig_hash = next, signatureString = sig\<rparr>))"

definition newConnectionSignature ::
  "Murmur3_x86_128 \<Rightarrow> ConnectionSignatureMap \<Rightarrow> string option
    \<Rightarrow> ConnectionSignatureMap \<times> ConnectionSignatureState" where
  "newConnectionSignature seed sigs nid =
    updateConnectionSignature sigs \<lparr>sig_hash = seed, signatureString = []\<rparr> seed nid"

section \<open>Lemmas\<close>

lemma signature_loop_free: "js_get sigs (signature_loop sigs p) = None"
proof (induction sigs p rule: signature_loop.induct)
  case (1 sigs sig rng)
  then show ?case by (subst signature_loop.simps) auto
qed

lemma append_hex_extends: "\<exists>c. fst (append_hex p) = fst p @ c \<and> c \<noteq> []"
  using hex_table_at_nonempty by (auto simp: append_hex_def split_beta)

lemma signature_loop_extends: "prefix (fst p) (signature_loop sigs p)"
proof (induction sigs p rule: signature_loop.induct)
  case (1 sigs sig rng)
  show ?case
  proof (cases "js_has sigs sig")
    case True
    with 1 have "prefix (fst (append_hex (sig, rng))) (signature_loop sigs (sig, rng))"
      by (subst signature_loop.simps) auto
    then show ?thesis using append_hex_extends [of "(sig, rng)"]
      by (auto simp: prefix_def)
  qed (simp add: signature_loop.simps)
qed

lemma signature_loop_stays: "js_get sigs (fst p) = None \<Longrightarrow> signature_loop sigs p = fst p"
  by (cases p) (simp add: signature_loop.simps)

lemma append_hex_pow_length: "length (fst p) + n \<le> length (fst ((append_hex ^^ n) p))"
proof (induction n)
  case (Suc n)
  have "length (fst q) < length (fst (append_hex q))" for q
    using append_hex_extends [of q] by auto
  from Suc this [of "(append_hex ^^ n) p"] show ?case by simp
qed simp

lemma signature_prefix_length: "6 \<le> length (fst (signature_prefix rng))"
  using append_hex_pow_length [of "([], rng)" 6]
  by (simp add: signature_prefix_def SIGNATURE_DEFAULT_LENGTH_def)

lemma updateConnectionSignature_free:
  assumes "updateConnectionSignature sigs prev h nid = (sigs', st)"
  shows "signatureString st \<notin> fst ` set sigs - {signatureString prev}"
    and "signatureString prev = [] \<Longrightarrow> signatureString st \<notin> fst ` set sigs"
    and "6 \<le> length (signatureString st)"
    and "js_get sigs' (signatureString st) = Some nid"
    and "sig_hash st = h"
proof -
  define sigs1 where
    "sigs1 = (if signatureString prev \<noteq> [] then js_delete sigs (signatureString prev) else sigs)"
  define sig where "sig = signature_loop sigs1 (signature_prefix (asPrng h))"
  have st: "st = \<lparr>sig_hash = h, signatureString = sig\<rparr>" "sigs' = js_set sigs1 sig nid"
    using assms by (simp_all add: updateConnectionSignature_def sigs1_def sig_def Let_def)
  have free: "sig \<notin> fst ` set sigs1"
    unfolding sig_def keys_get_None [symmetric] by (rule signature_loop_free)
  then show "signatureString st \<notin> fst ` set sigs - {signatureString prev}"
    "signatureString prev = [] \<Longrightarrow> signatureString st \<notin> fst ` set sigs"
    by (auto simp: st sigs1_def split: if_splits)
  have "prefix (fst (signature_prefix (asPrng h))) sig"
    unfolding sig_def by (rule signature_loop_extends)
  then show "6 \<le> length (signatureString st)"
    using signature_prefix_length [of "asPrng h"] by (auto simp: st dest: prefix_length_le)
  show "js_get sigs' (signatureString st) = Some nid" "sig_hash st = h" by (simp_all add: st js_get_set)
qed

lemma updateConnectionSignature_facts:
  assumes "updateConnectionSignature sigs prev h nid = (sigs', st)"
  shows "js_get sigs' (signatureString st) = Some nid
    \<and> 6 \<le> length (signatureString st)
    \<and> (\<forall>s. s \<noteq> signatureString st \<and> s \<noteq> signatureString prev \<longrightarrow> js_get sigs' s = js_get sigs s)
    \<and> (signatureString st = signatureString prev \<or> js_get sigs (signatureString st) = None)
    \<and> (signatureString prev \<noteq> [] \<and> signatureString st \<noteq> signatureString prev
        \<longrightarrow> js_get sigs' (signatureString prev) = None)"
proof -
  have "js_get sigs' s = js_get sigs s" if "s \<noteq> signatureString st" "s \<noteq> signatureString prev" for s
    using assms that by (auto simp: updateConnectionSignature_def Let_def js_get_set js_get_delete)
  moreover have "js_get sigs' (signatureString prev) = None"
    if "signatureString prev \<noteq> []" "signatureString st \<noteq> signatureString prev"
    using assms that by (auto simp: updateConnectionSignature_def Let_def js_get_set js_get_delete)
  moreover have "signatureString st = signatureString prev \<or> js_get sigs (signatureString st) = None"
    using updateConnectionSignature_free(1) [OF assms] unfolding keys_get_None by auto
  ultimately show ?thesis
    using updateConnectionSignature_free(3,4) [OF assms] by blast
qed

section \<open>Properties\<close>

text \<open>C19. Updating a signature gives the connection a string of at least six characters that no
  other connection holds, registers it in the shared map under the notebook, and releases the
  connection's former string; every other entry of the map is kept. The loop always ends.\<close>

theorem signature_unique:
  assumes "updateConnectionSignature sigs prev h nid = (sigs', st)"
  shows "js_get sigs' (signatureString st) = Some nid
    \<and> 6 \<le> length (signatureString st)
    \<and> (\<forall>s. s \<noteq> signatureString st \<and> s \<noteq> signatureString prev \<longrightarrow> js_get sigs' s = js_get sigs s)
    \<and> (signatureString st = signatureString prev \<or> js_get sigs (signatureString st) = None)
    \<and> (signatureString prev \<noteq> [] \<and> signatureString st \<noteq> signatureString prev
        \<longrightarrow> js_get sigs' (signatureString prev) = None)"
  using assms by (rule updateConnectionSignature_facts)

theorem signature_unique_witness:
  "js_get (fst (updateConnectionSignature [(''79a4f1'', Some ''n1'')]
        \<lparr>sig_hash = new_hasher 0 False, signatureString = []\<rparr> (add (new_hasher 0 False) ''dataless'') (Some ''n2'')))
      (signatureString (snd (updateConnectionSignature [(''79a4f1'', Some ''n1'')]
        \<lparr>sig_hash = new_hasher 0 False, signatureString = []\<rparr> (add (new_hasher 0 False) ''dataless'') (Some ''n2''))))
    = Some (Some ''n2'')"
  using signature_unique [of "[(''79a4f1'', Some ''n1'')]"
      "\<lparr>sig_hash = new_hasher 0 False, signatureString = []\<rparr>" "add (new_hasher 0 False) ''dataless''" "Some ''n2''",
      OF surjective_pairing]
  by blast

text \<open>The character drawn from the generator is a hexadecimal digit unless the generator returns
  \<^verbatim>\<open>0xFFFFFFFF\<close>, the one output for which \<^verbatim>\<open>next()\<close> is 1 and the table is read out of range, so that
  \<^verbatim>\<open>undefined\<close> is appended to the signature; and some state of the generator gives that output.\<close>

theorem hex_index_out_of_range:
  "(fst (nextI32 rng) \<noteq> 0xFFFFFFFF \<longleftrightarrow> (\<exists>c. hex_table_at (fst (next_index16 rng)) = [c]))
    \<and> (fst (nextI32 rng) = 0xFFFFFFFF \<longleftrightarrow> hex_table_at (fst (next_index16 rng)) = ''undefined'')
    \<and> (\<exists>r. fst (append_hex (sig, r)) = sig @ ''undefined'')"
proof -
  have in_range: "hex_table_at (fst (next_index16 r)) = [HEX_TABLE ! nat (fst (next_index16 r))]"
    if "fst (nextI32 r) \<noteq> 0xFFFFFFFF" for r
    using next_index16_range [of r] next_index16_eq_16 [of r] that
    by (simp add: hex_table_at_def HEX_TABLE_def)
  have out: "hex_table_at (fst (next_index16 r)) = ''undefined''" if "fst (nextI32 r) = 0xFFFFFFFF" for r
    using next_index16_eq_16 [of r] that by (simp add: hex_table_at_def HEX_TABLE_def)
  define s where "s = tyche_unstep (-1, 0, 0, 0)"
  define r where "r = \<lparr>ra = uint (fst s), rb = uint (fst (snd s)), rc = uint (fst (snd (snd s))),
    rd = uint (snd (snd (snd s)))\<rparr>"
  have "rng_words r = s" by (cases s) (simp add: r_def rng_words_def w32_def)
  then have "fst (nextI32 r) = uint (-1 :: 32 word)"
    by (simp add: nextI32_output s_def tyche_step_unstep)
  then have "fst (nextI32 r) = 0xFFFFFFFF" by (simp add: unsigned_minus_1_eq_mask mask_eq_exp_minus_1)
  then have "fst (append_hex (sig, r)) = sig @ ''undefined''"
    using out [of r] by (simp add: append_hex_def split_beta)
  then show ?thesis
    using in_range [of rng] out [of rng] by (cases "fst (nextI32 rng) = 0xFFFFFFFF") auto
qed

end
