(* ===== verification/Connector_Contract.thy ===== *)
theory Connector_Contract
  imports Connection_Signature
begin

text \<open>What the four connector reducers share: the pieces they are written with, and the contract
  under which the connection reducer calls them, stated as the locale \<open>connector\<close> and discharged by
  each connector in its own theory. A reducer gets the details the dispatcher found in the state;
  \<open>None\<close> is the \<^verbatim>\<open>null\<close> it returns for an action it does not know.\<close>

section \<open>Shared pieces\<close>

definition now_iso :: "clock \<Rightarrow> nat \<Rightarrow> iso_date option" where
  "now_iso clk k = dateToTimestamp (Some (clk k))"

definition close_channel :: "handle option \<Rightarrow> conn_env \<Rightarrow> conn_env" where
  "close_channel ch env = (case ch of None \<Rightarrow> env | Some c \<Rightarrow> emit (CloseChannel c) env)"

definition set_details :: "ConnectionStateDetailsVariant \<Rightarrow> ConnectionState \<Rightarrow> ConnectionState" where
  "set_details d state = state\<lparr>details := d\<rparr>"

definition set_connection ::
  "ConnectionStatus \<Rightarrow> ConnectionHealth \<Rightarrow> ConnectionStateDetailsVariant \<Rightarrow> ConnectionState \<Rightarrow> ConnectionState" where
  "set_connection st h d state = state\<lparr>connectionStatus := st, connectionHealth := h, details := d\<rparr>"

definition set_signature ::
  "Murmur3_x86_128 \<Rightarrow> conn_env \<times> ConnectionState \<Rightarrow> conn_env \<times> ConnectionState" where
  "set_signature sig = (\<lambda>(env, state).
    (let (sigs, s) = updateConnectionSignature (signatures env) (connectionSignature state) sig (Some (notebookId state))
     in (env\<lparr>signatures := sigs\<rparr>, state\<lparr>connectionSignature := s\<rparr>)))"

section \<open>What a connector step may change\<close>

text \<open>The part of the state no connector touches: identity, activity, metrics, catalog and queries.\<close>

definition state_core where
  "state_core s =
    ((notebookId s, name s, inst s, active s), (c_metrics s, catalog s, catalogUpdates s),
     (catalogRelationScript s, catalogFunctionScript s),
     (queriesActive s, queriesActiveOrdered s, queriesFinished s, queriesFinishedOrdered s,
      snapshotQueriesActiveFinished s))"

text \<open>The health that goes with a status. \<open>CHANNEL_READY\<close> is online for a dataless connection without
  demo channel and still connecting otherwise.\<close>

fun status_health_ok :: "ConnectionStatus \<Rightarrow> ConnectionHealth \<Rightarrow> bool" where
  "status_health_ok ConnectionStatus.NOT_STARTED h = (h = ConnectionHealth.NOT_STARTED)"
| "status_health_ok ConnectionStatus.HEALTH_CHECK_SUCCEEDED h = (h = ONLINE)"
| "status_health_ok ConnectionStatus.HEALTH_CHECK_FAILED h = (h = ConnectionHealth.FAILED)"
| "status_health_ok ConnectionStatus.CHANNEL_SETUP_FAILED h = (h = ConnectionHealth.FAILED)"
| "status_health_ok ConnectionStatus.AUTH_FAILED h = (h = ConnectionHealth.FAILED)"
| "status_health_ok ConnectionStatus.HEALTH_CHECK_CANCELLED h = (h = ConnectionHealth.CANCELLED)"
| "status_health_ok ConnectionStatus.CHANNEL_SETUP_CANCELLED h = (h = ConnectionHealth.CANCELLED)"
| "status_health_ok ConnectionStatus.AUTH_CANCELLED h = (h = ConnectionHealth.CANCELLED)"
| "status_health_ok ConnectionStatus.CHANNEL_READY h = (h = CONNECTING \<or> h = ONLINE)"
| "status_health_ok _ h = (h = CONNECTING)"

definition health_ok :: "ConnectionState \<Rightarrow> bool" where
  "health_ok s = status_health_ok (connectionStatus s) (connectionHealth s)"

text \<open>The signature is kept, or renewed for this notebook through the shared map.\<close>

definition signature_step :: "conn_env \<Rightarrow> ConnectionState \<Rightarrow> conn_env \<Rightarrow> ConnectionState \<Rightarrow> bool" where
  "signature_step env s env' s' \<longleftrightarrow>
    (signatures env' = signatures env \<and> connectionSignature s' = connectionSignature s)
    \<or> (\<exists>h. (signatures env', connectionSignature s') =
        updateConnectionSignature (signatures env) (connectionSignature s) h (Some (notebookId s)))"

definition closes_channel :: "conn_env \<Rightarrow> conn_env \<Rightarrow> bool" where
  "closes_channel env env' \<longleftrightarrow>
    effects env' = effects env \<or> (\<exists>ch. effects env' = effects env @ [CloseChannel ch])"

definition connector_step ::
  "ConnectorType \<Rightarrow> conn_env \<Rightarrow> ConnectionState \<Rightarrow> conn_env \<Rightarrow> ConnectionState \<Rightarrow> bool" where
  "connector_step t env s env' s' \<longleftrightarrow>
    state_core s' = state_core s \<and> details_type (details s') = t
    \<and> signature_step env s env' s' \<and> closes_channel env env'
    \<and> (health_ok s \<longrightarrow> health_ok s')
    \<and> (connectorInfo s' = connectorInfo s \<or> connectorType (connectorInfo s') = t)"

lemma state_core_set [simp]:
  "state_core (set_details d s) = state_core s"
  "state_core (set_connection st h d s) = state_core s"
  "state_core (s\<lparr>connectorInfo := i\<rparr>) = state_core s"
  by (simp_all add: state_core_def set_details_def set_connection_def)

lemma health_ok_set [simp]:
  "health_ok (set_details d s) = health_ok s"
  "health_ok (set_connection st h d s) = status_health_ok st h"
  by (simp_all add: health_ok_def set_details_def set_connection_def)

lemma set_fields [simp]:
  "details (set_details d s) = d" "details (set_connection st h d s) = d"
  "connectionSignature (set_details d s) = connectionSignature s"
  "connectionSignature (set_connection st h d s) = connectionSignature s"
  "connectorInfo (set_details d s) = connectorInfo s"
  "connectorInfo (set_connection st h d s) = connectorInfo s"
  "notebookId (set_connection st h d s) = notebookId s"
  "connectionStatus (set_details d s) = connectionStatus s"
  "connectionStatus (set_connection st h d s) = st"
  "connectionHealth (set_details d s) = connectionHealth s"
  "connectionHealth (set_connection st h d s) = h"
  by (simp_all add: set_details_def set_connection_def)

lemma signature_step_refl [simp]: "connectionSignature s' = connectionSignature s \<Longrightarrow> signature_step env s env s'"
  by (simp add: signature_step_def)

lemma closes_channel_refl [simp]: "closes_channel env env"
  by (simp add: closes_channel_def)

lemma close_channel_frame [simp]:
  "signatures (close_channel ch env) = signatures env" "closes_channel env (close_channel ch env)"
  by (simp_all add: close_channel_def closes_channel_def emit_def split: option.splits)

lemma signature_step_close [simp]:
  "connectionSignature s' = connectionSignature s \<Longrightarrow> signature_step env s (close_channel ch env) s'"
  by (simp add: signature_step_def)

text \<open>A step written as a plain update, one that closes the channel, and one that renews the
  signature.\<close>

lemma set_signature_step:
  assumes "set_signature sig (env, t) = (env', s')"
  shows "state_core s' = state_core t" "details s' = details t" "connectorInfo s' = connectorInfo t"
    "health_ok s' = health_ok t" "effects env' = effects env"
    "(signatures env', connectionSignature s') =
      updateConnectionSignature (signatures env) (connectionSignature t) sig (Some (notebookId t))"
  using assms
  by (auto simp: set_signature_def Let_def state_core_def health_ok_def split: prod.splits)

lemma connector_step_signature:
  assumes "set_signature sig (env, set_connection st h d s) = (env', s')"
    and "status_health_ok st h" "details_type d = t"
  shows "connector_step t env s env' s'"
  using set_signature_step [OF assms(1)] assms(2,3)
  by (auto simp: connector_step_def signature_step_def closes_channel_def)

lemma connector_step_set:
  "details_type d = t \<Longrightarrow> status_health_ok st h \<Longrightarrow> connector_step t env s env (set_connection st h d s)"
  "details_type d = t \<Longrightarrow> connector_step t env s env (set_details d s)"
  "details_type d = t \<Longrightarrow> connector_step t env s (close_channel ch env) (set_details d s)"
  "details_type d = t \<Longrightarrow> status_health_ok st h \<Longrightarrow> connectorType i = t \<Longrightarrow>
    connector_step t env s env (set_connection st h d (s\<lparr>connectorInfo := i\<rparr>))"
  by (auto simp: connector_step_def)

lemmas connector_step_simps = connector_step_set connector_step_signature Let_def

section \<open>The interface\<close>

text \<open>A connector reducer for details of type \<open>'d\<close>: a step is a connector step of its type, and it
  consumes a reset and a deletion without touching the status.\<close>

locale connector =
  fixes reduce :: "clock \<Rightarrow> conn_env \<Rightarrow> ConnectionState \<Rightarrow> 'd \<Rightarrow> ConnectorAction
      \<Rightarrow> (conn_env \<times> ConnectionState) option"
    and ctype :: ConnectorType
    and wrap :: "'d \<Rightarrow> ConnectionStateDetailsVariant"
  assumes step: "reduce clk env s d a = Some (env', s') \<Longrightarrow> connector_step ctype env s env' s'"
    and reset: "\<exists>env' d'. reduce clk env s d (Common RESET_CONNECTION) = Some (env', set_details (wrap d') s)"
    and delete: "reduce clk env s d (Common DELETE_CONNECTION) = reduce clk env s d (Common RESET_CONNECTION)"
begin

lemma keeps_core: "reduce clk env s d a = Some (env', s') \<Longrightarrow> state_core s' = state_core s"
  using step by (auto simp: connector_step_def)

lemma keeps_type: "reduce clk env s d a = Some (env', s') \<Longrightarrow> details_type (details s') = ctype"
  using step by (auto simp: connector_step_def)

lemma keeps_health: "reduce clk env s d a = Some (env', s') \<Longrightarrow> health_ok s \<Longrightarrow> health_ok s'"
  using step by (auto simp: connector_step_def)

lemma keeps_info:
  "reduce clk env s d a = Some (env', s') \<Longrightarrow> connectorType (connectorInfo s) = ctype \<Longrightarrow>
    connectorType (connectorInfo s') = ctype"
  using step by (force simp: connector_step_def)

lemma signature: "reduce clk env s d a = Some (env', s') \<Longrightarrow> signature_step env s env' s'"
  using step by (auto simp: connector_step_def)

lemma consumes_delete:
  "\<exists>env' d'. reduce clk env s d (Common DELETE_CONNECTION) = Some (env', set_details (wrap d') s)"
  unfolding delete by (rule reset)

end

end
