(* ===== verification/Hyper_Connector.thy ===== *)
theory Hyper_Connector
  imports Connector_Contract
begin

text \<open>The Hyper connector, \<^verbatim>\<open>connection/hyper/hyper_connection_state.ts\<close>. The reducer gets the
  details the dispatcher found in the state.\<close>

section \<open>The Hyper connector\<close>

definition createHyperConnectionStateDetails ::
  "bool \<Rightarrow> HyperConnectionParams option \<Rightarrow> HyperConnectionDetails" where
  "createHyperConnectionStateDetails isNativePlatform params =
    \<lparr>hy_proto = \<lparr>hy_setupTimings = no_setupTimings,
       hy_setupParams = (case params of Some p \<Rightarrow> p
         | None \<Rightarrow> \<lparr>hy_protocol = (if isNativePlatform then V3_DOCKER else V3_HTTP), hy_endpoint = '''',
             hy_tls = \<lparr>clientKeyPath = '''', clientCertPath = '''', caCertsPath = ''''\<rparr>,
             hy_attachedDatabases = None, hy_metadata = None, hy_queryParameters = None\<rparr>),
       hy_channelError = None, hy_healthCheckError = None\<rparr>,
     hy_channel = None\<rparr>"

definition getHyperConnectionDetails :: "ConnectionState option \<Rightarrow> HyperConnectionDetails option" where
  "getHyperConnectionDetails state =
    (case state of None \<Rightarrow> None
     | Some s \<Rightarrow> (case details s of HYPER_CONNECTOR d \<Rightarrow> Some d | _ \<Rightarrow> None))"

definition computeHyperConnectionSignature ::
  "HyperConnectionDetails \<Rightarrow> Murmur3_x86_128 \<Rightarrow> Murmur3_x86_128" where
  "computeHyperConnectionSignature d hasher =
    add (add hasher ''hyper-grpc'') (hy_endpoint (hy_setupParams (hy_proto d)))"

definition hyper_proto ::
  "(HyperConnectionDetailsProto \<Rightarrow> HyperConnectionDetailsProto) \<Rightarrow> HyperConnectionDetails \<Rightarrow> HyperConnectionDetails" where
  "hyper_proto f d = d\<lparr>hy_proto := f (hy_proto d)\<rparr>"

definition hyper_timings ::
  "(SetupTimings \<Rightarrow> SetupTimings) \<Rightarrow> HyperConnectionDetailsProto \<Rightarrow> HyperConnectionDetailsProto" where
  "hyper_timings f p = p\<lparr>hy_setupTimings := f (hy_setupTimings p)\<rparr>"

definition hyper_reset ::
  "conn_env \<Rightarrow> ConnectionState \<Rightarrow> HyperConnectionDetails \<Rightarrow> conn_env \<times> ConnectionState" where
  "hyper_reset env state d =
    (close_channel (hy_channel d) env,
     set_details (HYPER_CONNECTOR (hyper_proto (\<lambda>p. p\<lparr>hy_setupTimings := no_setupTimings,
       hy_channelError := None, hy_healthCheckError := None\<rparr>) d\<lparr>hy_channel := None\<rparr>)) state)"

definition hyper_channel_setup_cancelled ::
  "clock \<Rightarrow> DetailedError \<Rightarrow> ConnectionState \<Rightarrow> HyperConnectionDetails \<Rightarrow> ConnectionState" where
  "hyper_channel_setup_cancelled clk err state d =
    set_connection ConnectionStatus.CHANNEL_SETUP_CANCELLED ConnectionHealth.CANCELLED
      (HYPER_CONNECTOR (hyper_proto (\<lambda>p. (hyper_timings (\<lambda>t. t\<lparr>channelSetupCancelledAt := now_iso clk 0\<rparr>) p)
        \<lparr>hy_channelError := Some err, hy_healthCheckError := None\<rparr>) d\<lparr>hy_channel := None\<rparr>)) state"

definition hyper_channel_setup_failed ::
  "clock \<Rightarrow> DetailedError \<Rightarrow> ConnectionState \<Rightarrow> HyperConnectionDetails \<Rightarrow> ConnectionState" where
  "hyper_channel_setup_failed clk err state d =
    set_connection ConnectionStatus.CHANNEL_SETUP_FAILED ConnectionHealth.FAILED
      (HYPER_CONNECTOR (hyper_proto (\<lambda>p. (hyper_timings (\<lambda>t. t\<lparr>channelSetupFailedAt := now_iso clk 0\<rparr>) p)
        \<lparr>hy_channelError := Some err\<rparr>) d\<lparr>hy_channel := None\<rparr>)) state"

definition hyper_channel_setup_started ::
  "clock \<Rightarrow> HyperConnectionParams \<Rightarrow> conn_env \<Rightarrow> ConnectionState \<Rightarrow> conn_env \<times> ConnectionState" where
  "hyper_channel_setup_started clk params env state =
    (let d = \<lparr>hy_proto = \<lparr>hy_setupTimings = no_setupTimings\<lparr>channelSetupStartedAt := now_iso clk 0\<rparr>,
             hy_setupParams = params, hy_channelError = None, hy_healthCheckError = None\<rparr>,
           hy_channel = None\<rparr>;
         sig = computeHyperConnectionSignature d (new_hasher 0 False)
     in set_signature sig (env, set_connection ConnectionStatus.CHANNEL_SETUP_STARTED
          ConnectionHealth.CONNECTING (HYPER_CONNECTOR d) state))"

definition hyper_channel_ready ::
  "clock \<Rightarrow> handle \<Rightarrow> ConnectionState \<Rightarrow> HyperConnectionDetails \<Rightarrow> ConnectionState" where
  "hyper_channel_ready clk ch state d =
    set_connection ConnectionStatus.CHANNEL_READY ConnectionHealth.CONNECTING
      (HYPER_CONNECTOR (hyper_proto (hyper_timings (\<lambda>t. t\<lparr>channelReadyAt := now_iso clk 0\<rparr>)) d\<lparr>hy_channel := Some ch\<rparr>))
      state"

definition hyper_health_check ::
  "clock \<Rightarrow> CommonAction \<Rightarrow> ConnectionState \<Rightarrow> HyperConnectionDetails \<Rightarrow> ConnectionState" where
  "hyper_health_check clk a state d =
    (case a of
       CommonAction.HEALTH_CHECK_STARTED \<Rightarrow>
         set_connection ConnectionStatus.HEALTH_CHECK_STARTED ConnectionHealth.CONNECTING
           (HYPER_CONNECTOR (hyper_proto (hyper_timings (\<lambda>t. t\<lparr>healthCheckStartedAt := now_iso clk 0\<rparr>)) d)) state
     | CommonAction.HEALTH_CHECK_FAILED err \<Rightarrow>
         set_connection ConnectionStatus.HEALTH_CHECK_FAILED ConnectionHealth.FAILED
           (HYPER_CONNECTOR (hyper_proto (\<lambda>p. (hyper_timings (\<lambda>t. t\<lparr>healthCheckFailedAt := now_iso clk 0\<rparr>) p)
             \<lparr>hy_healthCheckError := Some err\<rparr>) d)) state
     | CommonAction.HEALTH_CHECK_CANCELLED _ \<Rightarrow>
         set_connection ConnectionStatus.HEALTH_CHECK_CANCELLED ConnectionHealth.CANCELLED
           (HYPER_CONNECTOR (hyper_proto (hyper_timings (\<lambda>t. t\<lparr>healthCheckCancelledAt := now_iso clk 0\<rparr>)) d)) state
     | CommonAction.HEALTH_CHECK_SUCCEEDED \<Rightarrow>
         set_connection ConnectionStatus.HEALTH_CHECK_SUCCEEDED ConnectionHealth.ONLINE
           (HYPER_CONNECTOR (hyper_proto (hyper_timings (\<lambda>t. t\<lparr>healthCheckSucceededAt := now_iso clk 0\<rparr>)) d)) state
     | _ \<Rightarrow> state)"

fun reduceHyperConnectorState ::
  "clock \<Rightarrow> conn_env \<Rightarrow> ConnectionState \<Rightarrow> HyperConnectionDetails \<Rightarrow> ConnectorAction
    \<Rightarrow> (conn_env \<times> ConnectionState) option" where
  "reduceHyperConnectorState clk env state d (Common DELETE_CONNECTION) = Some (hyper_reset env state d)"
| "reduceHyperConnectorState clk env state d (Common RESET_CONNECTION) = Some (hyper_reset env state d)"
| "reduceHyperConnectorState clk env state d (Hyper (HYPER_CHANNEL_SETUP_CANCELLED e)) =
    Some (env, hyper_channel_setup_cancelled clk e state d)"
| "reduceHyperConnectorState clk env state d (Hyper (HYPER_CHANNEL_SETUP_FAILED e)) =
    Some (env, hyper_channel_setup_failed clk e state d)"
| "reduceHyperConnectorState clk env state d (Hyper (HYPER_CHANNEL_SETUP_STARTED ps)) =
    Some (hyper_channel_setup_started clk ps env state)"
| "reduceHyperConnectorState clk env state d (Hyper (HYPER_CHANNEL_READY ch)) =
    Some (env, hyper_channel_ready clk ch state d)"
| "reduceHyperConnectorState clk env state d (Common a) = Some (env, hyper_health_check clk a state d)"
| "reduceHyperConnectorState clk env state d _ = None"

lemmas hyper_defs = hyper_reset_def hyper_channel_setup_cancelled_def hyper_channel_setup_failed_def
  hyper_channel_setup_started_def hyper_channel_ready_def hyper_health_check_def

section \<open>The contract\<close>

lemma hyper_reduce_cases:
  assumes "reduceHyperConnectorState clk env s d a = Some (env', s')"
  shows "connector_step HYPER env s env' s'"
  using assms
  by (cases "(clk, env, s, d, a)" rule: reduceHyperConnectorState.cases)
    (auto simp: hyper_defs connector_step_simps split: CommonAction.splits)

interpretation hyper: connector reduceHyperConnectorState HYPER HYPER_CONNECTOR
  by unfold_locales (auto simp: hyper_reset_def dest: hyper_reduce_cases)

end
