(* ===== verification/Dataless_Connector.thy ===== *)
theory Dataless_Connector
  imports Connector_Contract
begin

text \<open>The dataless connector with its demo mode,
  \<^verbatim>\<open>connection/dataless/dataless_connection_state.ts\<close>.\<close>

definition createDatalessConnectionStateDetails :: "DatalessParams option \<Rightarrow> DatalessConnectionStateDetails" where
  "createDatalessConnectionStateDetails params =
    \<lparr>dl_proto = \<lparr>dl_setupParams = (case params of Some p \<Rightarrow> p | None \<Rightarrow> \<lparr>demoConnector = None\<rparr>),
       dl_channelError = None\<rparr>,
     dl_channel = None\<rparr>"

definition isDemoConnector :: "DatalessConnectionStateDetails \<Rightarrow> bool" where
  "isDemoConnector d \<longleftrightarrow> demoConnector (dl_setupParams (dl_proto d)) = Some True"

definition computeDatalessConnectionSignature ::
  "DatalessConnectionStateDetails \<Rightarrow> Murmur3_x86_128 \<Rightarrow> Murmur3_x86_128" where
  "computeDatalessConnectionSignature d hasher =
    (let hasher = add hasher ''dataless'' in if isDemoConnector d then add hasher ''demo'' else hasher)"

definition dataless_reset :: "ConnectionState \<Rightarrow> DatalessConnectionStateDetails \<Rightarrow> ConnectionState" where
  "dataless_reset state d =
    set_details (DATALESS_CONNECTOR (d\<lparr>dl_proto := \<lparr>dl_setupParams = dl_setupParams (dl_proto d),
      dl_channelError = None\<rparr>\<rparr>)) state"

definition dataless_channel_setup_failed ::
  "DetailedError \<Rightarrow> ConnectionState \<Rightarrow> DatalessConnectionStateDetails \<Rightarrow> ConnectionState" where
  "dataless_channel_setup_failed err state d =
    set_connection ConnectionStatus.CHANNEL_SETUP_FAILED ConnectionHealth.FAILED
      (DATALESS_CONNECTOR (d\<lparr>dl_proto := (dl_proto d)\<lparr>dl_channelError := Some err\<rparr>, dl_channel := None\<rparr>)) state"

definition dataless_channel_setup_cancelled ::
  "DetailedError \<Rightarrow> ConnectionState \<Rightarrow> DatalessConnectionStateDetails \<Rightarrow> ConnectionState" where
  "dataless_channel_setup_cancelled err state d =
    set_connection ConnectionStatus.CHANNEL_SETUP_CANCELLED ConnectionHealth.CANCELLED
      (DATALESS_CONNECTOR (d\<lparr>dl_proto := (dl_proto d)\<lparr>dl_channelError := Some err\<rparr>, dl_channel := None\<rparr>)) state"

definition dataless_channel_ready ::
  "handle \<Rightarrow> ConnectionState \<Rightarrow> DatalessConnectionStateDetails \<Rightarrow> ConnectionState" where
  "dataless_channel_ready ch state d =
    set_connection ConnectionStatus.CHANNEL_READY ConnectionHealth.CONNECTING
      (DATALESS_CONNECTOR (d\<lparr>dl_channel := Some ch\<rparr>)) state"

definition dataless_health_check_succeeded ::
  "ConnectionState \<Rightarrow> DatalessConnectionStateDetails \<Rightarrow> ConnectionState" where
  "dataless_health_check_succeeded state d =
    set_connection ConnectionStatus.HEALTH_CHECK_SUCCEEDED ConnectionHealth.ONLINE (DATALESS_CONNECTOR d) state"

text \<open>\<^verbatim>\<open>demoConnector: newDemoConnector || undefined\<close> keeps only \<^verbatim>\<open>true\<close>.\<close>

definition dataless_set_demo_mode ::
  "bool \<Rightarrow> ConnectionState \<Rightarrow> DatalessConnectionStateDetails \<Rightarrow> ConnectionState" where
  "dataless_set_demo_mode newDemoConnector state d =
    (let newParams = (dl_setupParams (dl_proto d))
           \<lparr>demoConnector := (if newDemoConnector then Some True else None)\<rparr>
     in set_connection
          (if newDemoConnector then ConnectionStatus.NOT_STARTED else ConnectionStatus.CHANNEL_READY)
          (if newDemoConnector then ConnectionHealth.NOT_STARTED else ConnectionHealth.ONLINE)
          (DATALESS_CONNECTOR \<lparr>dl_proto = \<lparr>dl_setupParams = newParams, dl_channelError = None\<rparr>, dl_channel = None\<rparr>)
          (state\<lparr>connectorInfo := createDatalessConnectorInfo newDemoConnector\<rparr>))"

fun reduceDatalessConnectorState ::
  "clock \<Rightarrow> conn_env \<Rightarrow> ConnectionState \<Rightarrow> DatalessConnectionStateDetails \<Rightarrow> ConnectorAction
    \<Rightarrow> (conn_env \<times> ConnectionState) option" where
  "reduceDatalessConnectorState clk env state d (Common DELETE_CONNECTION) = Some (env, dataless_reset state d)"
| "reduceDatalessConnectorState clk env state d (Common RESET_CONNECTION) = Some (env, dataless_reset state d)"
| "reduceDatalessConnectorState clk env state d (Dataless (DATALESS_CHANNEL_SETUP_FAILED e)) =
    Some (env, dataless_channel_setup_failed e state d)"
| "reduceDatalessConnectorState clk env state d (Dataless (DATALESS_CHANNEL_SETUP_CANCELLED e)) =
    Some (env, dataless_channel_setup_cancelled e state d)"
| "reduceDatalessConnectorState clk env state d (Dataless (DATALESS_CHANNEL_READY ch)) =
    Some (env, dataless_channel_ready ch state d)"
| "reduceDatalessConnectorState clk env state d (Common CommonAction.HEALTH_CHECK_SUCCEEDED) =
    Some (env, dataless_health_check_succeeded state d)"
| "reduceDatalessConnectorState clk env state d (Dataless (DATALESS_SET_DEMO_MODE b)) =
    Some (env, dataless_set_demo_mode b state d)"
| "reduceDatalessConnectorState clk env state d _ = None"

lemmas dataless_defs = dataless_reset_def dataless_channel_setup_failed_def dataless_channel_setup_cancelled_def
  dataless_channel_ready_def dataless_health_check_succeeded_def dataless_set_demo_mode_def

section \<open>The contract\<close>

lemma dataless_reduce_cases:
  assumes "reduceDatalessConnectorState clk env s d a = Some (env', s')"
  shows "connector_step DATALESS env s env' s'"
  using assms
  by (cases "(clk, env, s, d, a)" rule: reduceDatalessConnectorState.cases)
    (auto simp: dataless_defs connector_step_simps)

interpretation dataless: connector reduceDatalessConnectorState DATALESS DATALESS_CONNECTOR
  by unfold_locales (auto simp: dataless_reset_def dest: dataless_reduce_cases)

end
