(* ===== verification/Trino_Connector.thy ===== *)
theory Trino_Connector
  imports Connector_Contract
begin

text \<open>The Trino connector with its OAuth flow, \<^verbatim>\<open>connection/trino/trino_connection_state.ts\<close>.\<close>

definition createTrinoConnectionStateDetails :: "TrinoConnectionParams option \<Rightarrow> TrinoConnectionStateDetails" where
  "createTrinoConnectionStateDetails params =
    \<lparr>tr_proto = \<lparr>tr_setupTimings = no_trinoSetupTimings,
       tr_setupParams = (case params of Some p \<Rightarrow> p
         | None \<Rightarrow> \<lparr>tr_endpoint = '''', tr_auth = \<lparr>authType = AUTH_BASIC, basic = None, oauth = None\<rparr>,
             tr_catalogName = '''', tr_schemaNames = None, tr_metadata = None\<rparr>),
       tr_channelError = None, tr_healthCheckError = None, tr_schemaResolutionError = None,
       tr_oauthState = None\<rparr>,
     tr_channel = None\<rparr>"

definition getTrinoConnectionDetails :: "ConnectionState option \<Rightarrow> TrinoConnectionStateDetails option" where
  "getTrinoConnectionDetails state =
    (case state of None \<Rightarrow> None
     | Some s \<Rightarrow> (case details s of TRINO_CONNECTOR d \<Rightarrow> Some d | _ \<Rightarrow> None))"

text \<open>\<^verbatim>\<open>Array.prototype.toString\<close> joins the elements with commas.\<close>

fun js_array_toString :: "string list \<Rightarrow> string" where
  "js_array_toString [] = ''''"
| "js_array_toString [x] = x"
| "js_array_toString (x # xs) = x @ '','' @ js_array_toString xs"

definition computeTrinoConnectionSignature ::
  "TrinoConnectionStateDetails \<Rightarrow> Murmur3_x86_128 \<Rightarrow> Murmur3_x86_128" where
  "computeTrinoConnectionSignature d hasher =
    (let p = tr_setupParams (tr_proto d); hasher = add hasher ''trino''; hasher = add hasher (tr_endpoint p);
         hasher = add hasher (tr_catalogName p)
     in add hasher (js_array_toString (case tr_schemaNames p of Some ns \<Rightarrow> ns | None \<Rightarrow> [])))"

definition trino_proto ::
  "(TrinoConnectionDetailsProto \<Rightarrow> TrinoConnectionDetailsProto) \<Rightarrow> TrinoConnectionStateDetails \<Rightarrow> TrinoConnectionStateDetails" where
  "trino_proto f d = d\<lparr>tr_proto := f (tr_proto d)\<rparr>"

definition trino_timings ::
  "(TrinoSetupTimings \<Rightarrow> TrinoSetupTimings) \<Rightarrow> TrinoConnectionDetailsProto \<Rightarrow> TrinoConnectionDetailsProto" where
  "trino_timings f p = p\<lparr>tr_setupTimings := f (tr_setupTimings p)\<rparr>"

text \<open>The OAuth state a step falls back to when none was stored; the reading of the clock is \<open>k\<close>.\<close>

definition trino_default_oauth :: "clock \<Rightarrow> nat \<Rightarrow> TrinoOAuthState" where
  "trino_default_oauth clk k = \<lparr>tr_oauthPkce = \<lparr>pkce_value = '''', pkce_verifier = ''''\<rparr>,
    tr_authCode = \<lparr>token = '''', createdAt = ISO (clk k)\<rparr>, tr_accessToken = []\<rparr>"

definition trino_oauth :: "clock \<Rightarrow> nat \<Rightarrow> TrinoConnectionDetailsProto \<Rightarrow> TrinoOAuthState" where
  "trino_oauth clk k p = (case tr_oauthState p of Some s \<Rightarrow> s | None \<Rightarrow> trino_default_oauth clk k)"

definition trino_reset ::
  "conn_env \<Rightarrow> ConnectionState \<Rightarrow> TrinoConnectionStateDetails \<Rightarrow> conn_env \<times> ConnectionState" where
  "trino_reset env state d =
    (close_channel (tr_channel d) env,
     set_details (TRINO_CONNECTOR (trino_proto (\<lambda>p. p\<lparr>tr_setupTimings := no_trinoSetupTimings,
       tr_channelError := None, tr_healthCheckError := None, tr_oauthState := None\<rparr>) d\<lparr>tr_channel := None\<rparr>)) state)"

definition trino_oauth_started ::
  "clock \<Rightarrow> TrinoConnectionParams \<Rightarrow> conn_env \<Rightarrow> ConnectionState \<Rightarrow> TrinoConnectionStateDetails
    \<Rightarrow> conn_env \<times> ConnectionState" where
  "trino_oauth_started clk params env state d =
    (let newDetails = \<lparr>tr_proto = (tr_proto d)
             \<lparr>tr_setupTimings := no_trinoSetupTimings\<lparr>tr_oauthStartedAt := now_iso clk 0\<rparr>,
              tr_setupParams := params, tr_channelError := None, tr_healthCheckError := None,
              tr_oauthState := Some (trino_default_oauth clk 1)\<rparr>,
           tr_channel = None\<rparr>;
         sig = computeTrinoConnectionSignature newDetails (new_hasher 0 False)
     in set_signature sig (env, set_connection ConnectionStatus.AUTH_STARTED ConnectionHealth.CONNECTING
          (TRINO_CONNECTOR newDetails) state))"

text \<open>The steps of the OAuth flow after its start.\<close>

definition trino_oauth_step ::
  "clock \<Rightarrow> TrinoOAuthAction \<Rightarrow> ConnectionState \<Rightarrow> TrinoConnectionStateDetails \<Rightarrow> ConnectionState" where
  "trino_oauth_step clk a state d =
    (case a of
       OAUTH_STARTED _ \<Rightarrow> state
     | OAUTH_CANCELLED _ \<Rightarrow>
         set_connection ConnectionStatus.AUTH_CANCELLED ConnectionHealth.CANCELLED
           (TRINO_CONNECTOR (trino_proto (trino_timings (\<lambda>t. t\<lparr>tr_oauthCancelledAt := now_iso clk 0\<rparr>)) d\<lparr>tr_channel := None\<rparr>))
           state
     | OAUTH_FAILED err \<Rightarrow>
         set_connection ConnectionStatus.AUTH_FAILED ConnectionHealth.FAILED
           (TRINO_CONNECTOR (trino_proto (\<lambda>p. (trino_timings (\<lambda>t. t\<lparr>tr_oauthFailedAt := now_iso clk 0\<rparr>) p)
             \<lparr>tr_channelError := Some err\<rparr>) d\<lparr>tr_channel := None\<rparr>)) state
     | TRINO_GENERATING_PKCE_CHALLENGE \<Rightarrow>
         set_connection ConnectionStatus.PKCE_GENERATION_STARTED ConnectionHealth.CONNECTING
           (TRINO_CONNECTOR (trino_proto (trino_timings (\<lambda>t. t\<lparr>tr_pkceGenStartedAt := now_iso clk 0\<rparr>)) d)) state
     | TRINO_GENERATED_PKCE_CHALLENGE challenge \<Rightarrow>
         set_connection ConnectionStatus.PKCE_GENERATED ConnectionHealth.CONNECTING
           (TRINO_CONNECTOR (trino_proto (\<lambda>p. (trino_timings (\<lambda>t. t\<lparr>tr_pkceGenFinishedAt := now_iso clk 0\<rparr>) p)
             \<lparr>tr_oauthState := Some ((trino_oauth clk 1 p)\<lparr>tr_oauthPkce := challenge\<rparr>)\<rparr>) d)) state
     | OAUTH_BROWSER_OPENED \<Rightarrow>
         set_connection ConnectionStatus.WAITING_FOR_OAUTH_CODE_VIA_LINK ConnectionHealth.CONNECTING
           (TRINO_CONNECTOR (trino_proto (trino_timings (\<lambda>t. t\<lparr>tr_oauthBrowserOpenedAt := now_iso clk 0\<rparr>)) d)) state
     | RECEIVED_OAUTH_CODE code \<Rightarrow>
         set_connection ConnectionStatus.OAUTH_CODE_RECEIVED ConnectionHealth.CONNECTING
           (TRINO_CONNECTOR (trino_proto (\<lambda>p. (trino_timings (\<lambda>t. t\<lparr>tr_oauthCodeReceivedAt := now_iso clk 0\<rparr>) p)
             \<lparr>tr_oauthState := Some ((trino_oauth clk 1 p)\<lparr>tr_authCode := code\<rparr>)\<rparr>) d)) state
     | REQUESTING_ACCESS_TOKEN \<Rightarrow>
         set_connection ConnectionStatus.ACCESS_TOKEN_REQUESTED ConnectionHealth.CONNECTING
           (TRINO_CONNECTOR (trino_proto (trino_timings (\<lambda>t. t\<lparr>tr_accessTokenRequestedAt := now_iso clk 0\<rparr>)) d)) state
     | RECEIVED_ACCESS_TOKEN tok \<Rightarrow>
         set_connection ConnectionStatus.ACCESS_TOKEN_RECEIVED ConnectionHealth.CONNECTING
           (TRINO_CONNECTOR (trino_proto (\<lambda>p. (trino_timings (\<lambda>t. t\<lparr>tr_accessTokenReceivedAt := now_iso clk 0\<rparr>) p)
             \<lparr>tr_oauthState := Some ((trino_oauth clk 1 p)\<lparr>tr_accessToken := tok\<rparr>)\<rparr>) d)) state)"

definition trino_channel_setup_started ::
  "clock \<Rightarrow> TrinoConnectionParams \<Rightarrow> conn_env \<Rightarrow> ConnectionState \<Rightarrow> TrinoConnectionStateDetails
    \<Rightarrow> conn_env \<times> ConnectionState" where
  "trino_channel_setup_started clk params env state d =
    (let newDetails = trino_proto (\<lambda>p. (trino_timings (\<lambda>t. t\<lparr>channelSetupStartedAt := now_iso clk 0\<rparr>) p)
           \<lparr>tr_setupParams := params, tr_channelError := None, tr_schemaResolutionError := None,
            tr_healthCheckError := None\<rparr>) d\<lparr>tr_channel := None\<rparr>;
         sig = computeTrinoConnectionSignature newDetails (new_hasher 0 False)
     in set_signature sig (env, set_connection ConnectionStatus.CHANNEL_SETUP_STARTED ConnectionHealth.CONNECTING
          (TRINO_CONNECTOR newDetails) state))"

definition trino_channel_step ::
  "clock \<Rightarrow> TrinoChannelAction \<Rightarrow> ConnectionState \<Rightarrow> TrinoConnectionStateDetails \<Rightarrow> ConnectionState" where
  "trino_channel_step clk a state d =
    (case a of
       TRINO_CHANNEL_SETUP_STARTED _ \<Rightarrow> state
     | TRINO_CHANNEL_SETUP_CANCELLED _ \<Rightarrow>
         set_connection ConnectionStatus.CHANNEL_SETUP_CANCELLED ConnectionHealth.CANCELLED
           (TRINO_CONNECTOR (trino_proto (trino_timings (\<lambda>t. t\<lparr>channelSetupCancelledAt := now_iso clk 0\<rparr>)) d\<lparr>tr_channel := None\<rparr>))
           state
     | TRINO_CHANNEL_SETUP_FAILED err \<Rightarrow>
         set_connection ConnectionStatus.CHANNEL_SETUP_FAILED ConnectionHealth.FAILED
           (TRINO_CONNECTOR (trino_proto (\<lambda>p. (trino_timings (\<lambda>t. t\<lparr>channelSetupFailedAt := now_iso clk 0\<rparr>) p)
             \<lparr>tr_channelError := Some err\<rparr>) d\<lparr>tr_channel := None\<rparr>)) state
     | TRINO_CHANNEL_READY ch \<Rightarrow>
         set_connection ConnectionStatus.CHANNEL_READY ConnectionHealth.CONNECTING
           (TRINO_CONNECTOR (trino_proto (trino_timings (\<lambda>t. t\<lparr>channelReadyAt := now_iso clk 0\<rparr>)) d\<lparr>tr_channel := Some ch\<rparr>))
           state)"

definition trino_health_check ::
  "clock \<Rightarrow> CommonAction \<Rightarrow> ConnectionState \<Rightarrow> TrinoConnectionStateDetails \<Rightarrow> ConnectionState" where
  "trino_health_check clk a state d =
    (case a of
       CommonAction.HEALTH_CHECK_STARTED \<Rightarrow>
         set_connection ConnectionStatus.HEALTH_CHECK_STARTED ConnectionHealth.CONNECTING
           (TRINO_CONNECTOR (trino_proto (trino_timings (\<lambda>t. t\<lparr>healthCheckStartedAt := now_iso clk 0\<rparr>)) d)) state
     | CommonAction.HEALTH_CHECK_FAILED err \<Rightarrow>
         set_connection ConnectionStatus.HEALTH_CHECK_FAILED ConnectionHealth.FAILED
           (TRINO_CONNECTOR (trino_proto (\<lambda>p. (trino_timings (\<lambda>t. t\<lparr>healthCheckFailedAt := now_iso clk 0\<rparr>) p)
             \<lparr>tr_healthCheckError := Some err\<rparr>) d)) state
     | CommonAction.HEALTH_CHECK_CANCELLED _ \<Rightarrow>
         set_connection ConnectionStatus.HEALTH_CHECK_CANCELLED ConnectionHealth.CANCELLED
           (TRINO_CONNECTOR (trino_proto (trino_timings (\<lambda>t. t\<lparr>healthCheckCancelledAt := now_iso clk 0\<rparr>)) d)) state
     | CommonAction.HEALTH_CHECK_SUCCEEDED \<Rightarrow>
         set_connection ConnectionStatus.HEALTH_CHECK_SUCCEEDED ConnectionHealth.ONLINE
           (TRINO_CONNECTOR (trino_proto (trino_timings (\<lambda>t. t\<lparr>healthCheckSucceededAt := now_iso clk 0\<rparr>)) d)) state
     | _ \<Rightarrow> state)"

fun reduceTrinoConnectorState ::
  "clock \<Rightarrow> conn_env \<Rightarrow> ConnectionState \<Rightarrow> TrinoConnectionStateDetails \<Rightarrow> ConnectorAction
    \<Rightarrow> (conn_env \<times> ConnectionState) option" where
  "reduceTrinoConnectorState clk env state d (Common DELETE_CONNECTION) = Some (trino_reset env state d)"
| "reduceTrinoConnectorState clk env state d (Common RESET_CONNECTION) = Some (trino_reset env state d)"
| "reduceTrinoConnectorState clk env state d (TrinoOAuth (OAUTH_STARTED ps)) =
    Some (trino_oauth_started clk ps env state d)"
| "reduceTrinoConnectorState clk env state d (TrinoOAuth a) = Some (env, trino_oauth_step clk a state d)"
| "reduceTrinoConnectorState clk env state d (TrinoChannel (TRINO_CHANNEL_SETUP_STARTED ps)) =
    Some (trino_channel_setup_started clk ps env state d)"
| "reduceTrinoConnectorState clk env state d (TrinoChannel a) = Some (env, trino_channel_step clk a state d)"
| "reduceTrinoConnectorState clk env state d (Common a) = Some (env, trino_health_check clk a state d)"
| "reduceTrinoConnectorState clk env state d _ = None"

lemmas trino_defs = trino_reset_def trino_oauth_started_def trino_oauth_step_def trino_channel_setup_started_def
  trino_channel_step_def trino_health_check_def

section \<open>The contract\<close>

lemma trino_reduce_cases:
  assumes "reduceTrinoConnectorState clk env s d a = Some (env', s')"
  shows "connector_step TRINO env s env' s'"
  using assms
  by (cases "(clk, env, s, d, a)" rule: reduceTrinoConnectorState.cases)
    (auto simp: trino_defs connector_step_simps split: CommonAction.splits)

interpretation trino: connector reduceTrinoConnectorState TRINO TRINO_CONNECTOR
  by unfold_locales (auto simp: trino_reset_def dest: trino_reduce_cases)

end
