(* ===== verification/Salesforce_Connector.thy ===== *)
theory Salesforce_Connector
  imports Connector_Contract
begin

text \<open>The Salesforce Data Cloud connector, \<^verbatim>\<open>connection/salesforce/salesforce_connection_state.ts\<close>:
  OAuth, the two access tokens, the channel and the health check. The clock is read in the order of
  evaluation: the timing first, then the two dates of the default parameters, then the one of the
  default authorization code.\<close>

definition createSalesforceConnectionStateDetails ::
  "SalesforceConnectionParams option \<Rightarrow> SalesforceConnectionStateDetails" where
  "createSalesforceConnectionStateDetails params =
    \<lparr>sf_proto = \<lparr>sf_setupTimings = no_salesforceSetupTimings,
       sf_setupParams = (case params of Some p \<Rightarrow> p
         | None \<Rightarrow> \<lparr>sf_hyperProtocol = V3_HTTP, sf_instanceUrl = '''', sf_appConsumerKey = '''',
             sf_appConsumerSecret = '''', sf_login = ''''\<rparr>),
       sf_oauthState = None, sf_setupError = None, sf_channelError = None, sf_healthCheckError = None\<rparr>,
     sf_channel = None\<rparr>"

definition getSalesforceConnectionDetails :: "ConnectionState option \<Rightarrow> SalesforceConnectionStateDetails option" where
  "getSalesforceConnectionDetails state =
    (case state of None \<Rightarrow> None
     | Some s \<Rightarrow> (case details s of SALESFORCE_DATA_CLOUD_CONNECTOR d \<Rightarrow> Some d | _ \<Rightarrow> None))"

definition computeSalesforceConnectionSignature ::
  "SalesforceConnectionStateDetails \<Rightarrow> Murmur3_x86_128 \<Rightarrow> Murmur3_x86_128" where
  "computeSalesforceConnectionSignature d hasher =
    (let p = sf_setupParams (sf_proto d) in add (add (add hasher ''salesforce'') (sf_instanceUrl p)) (sf_appConsumerKey p))"

definition sf_update_proto ::
  "(SalesforceConnectionDetailsProto \<Rightarrow> SalesforceConnectionDetailsProto)
    \<Rightarrow> SalesforceConnectionStateDetails \<Rightarrow> SalesforceConnectionStateDetails" where
  "sf_update_proto f d = d\<lparr>sf_proto := f (sf_proto d)\<rparr>"

definition sf_timings ::
  "(SalesforceSetupTimings \<Rightarrow> SalesforceSetupTimings)
    \<Rightarrow> SalesforceConnectionDetailsProto \<Rightarrow> SalesforceConnectionDetailsProto" where
  "sf_timings f p = p\<lparr>sf_setupTimings := f (sf_setupTimings p)\<rparr>"

definition sf_default_oauth :: "clock \<Rightarrow> nat \<Rightarrow> SalesforceOAuthState" where
  "sf_default_oauth clk k =
    \<lparr>sf_oauthParams = \<lparr>oa_instanceUrl = '''', oa_appConsumerKey = '''', oa_requestedAt = clk k, oa_expiresAt = clk (k + 1)\<rparr>,
     sf_oauthPkce = \<lparr>pkce_value = '''', pkce_verifier = ''''\<rparr>,
     sf_coreAuthCode = \<lparr>token = '''', createdAt = ISO (clk (k + 2))\<rparr>,
     sf_coreAccessToken = [], sf_dataCloudAccessToken = []\<rparr>"

definition sf_oauth :: "clock \<Rightarrow> nat \<Rightarrow> SalesforceConnectionDetailsProto \<Rightarrow> SalesforceOAuthState" where
  "sf_oauth clk k p = (case sf_oauthState p of Some s \<Rightarrow> s | None \<Rightarrow> sf_default_oauth clk k)"

definition sf_reset ::
  "conn_env \<Rightarrow> ConnectionState \<Rightarrow> SalesforceConnectionStateDetails \<Rightarrow> conn_env \<times> ConnectionState" where
  "sf_reset env state d =
    (close_channel (sf_channel d) env,
     set_details (SALESFORCE_DATA_CLOUD_CONNECTOR (sf_update_proto (\<lambda>p. p\<lparr>sf_setupTimings := no_salesforceSetupTimings,
       sf_setupError := None, sf_channelError := None, sf_healthCheckError := None\<rparr>) d\<lparr>sf_channel := None\<rparr>)) state)"

text \<open>The signature is computed from the old details, not from the parameters of the action.\<close>

definition sf_setup_started ::
  "clock \<Rightarrow> SalesforceConnectionParams \<Rightarrow> conn_env \<Rightarrow> ConnectionState \<Rightarrow> SalesforceConnectionStateDetails
    \<Rightarrow> conn_env \<times> ConnectionState" where
  "sf_setup_started clk params env state d =
    (let p = sf_proto d;
         newDetails = \<lparr>sf_proto = (sf_timings (\<lambda>t. t\<lparr>authStartedAt := now_iso clk 0\<rparr>) p)
             \<lparr>sf_setupParams := params, sf_setupError := None, sf_channelError := None, sf_healthCheckError := None,
              sf_oauthState := Some ((sf_oauth clk 1 p)
                \<lparr>sf_oauthParams := \<lparr>oa_instanceUrl = sf_instanceUrl params, oa_appConsumerKey = sf_appConsumerKey params,
                   oa_requestedAt = clk 1, oa_expiresAt = clk 2 + 2 * 60 * 60 * 1000\<rparr>\<rparr>)\<rparr>,
           sf_channel = None\<rparr>;
         sig = computeSalesforceConnectionSignature d (new_hasher 0 False)
     in set_signature sig (env, set_connection ConnectionStatus.AUTH_STARTED ConnectionHealth.CONNECTING
          (SALESFORCE_DATA_CLOUD_CONNECTOR newDetails) state))"

definition sf_auth_step ::
  "clock \<Rightarrow> SalesforceAuthAction \<Rightarrow> ConnectionState \<Rightarrow> SalesforceConnectionStateDetails \<Rightarrow> ConnectionState" where
  "sf_auth_step clk a state d =
    (case a of
       SETUP_STARTED _ \<Rightarrow> state
     | SETUP_CANCELLED err \<Rightarrow>
         set_connection ConnectionStatus.AUTH_CANCELLED ConnectionHealth.CANCELLED
           (SALESFORCE_DATA_CLOUD_CONNECTOR (sf_update_proto (\<lambda>p. (sf_timings (\<lambda>t. t\<lparr>authCancelledAt := now_iso clk 0\<rparr>) p)
             \<lparr>sf_setupError := Some err\<rparr>) d\<lparr>sf_channel := None\<rparr>)) state
     | SETUP_FAILED err \<Rightarrow>
         set_connection ConnectionStatus.AUTH_FAILED ConnectionHealth.FAILED
           (SALESFORCE_DATA_CLOUD_CONNECTOR (sf_update_proto (\<lambda>p. (sf_timings (\<lambda>t. t\<lparr>authFailedAt := now_iso clk 0\<rparr>) p)
             \<lparr>sf_setupError := Some err\<rparr>) d\<lparr>sf_channel := None\<rparr>)) state
     | SF_GENERATING_PKCE_CHALLENGE \<Rightarrow>
         set_connection ConnectionStatus.PKCE_GENERATION_STARTED ConnectionHealth.CONNECTING
           (SALESFORCE_DATA_CLOUD_CONNECTOR (sf_update_proto (sf_timings (\<lambda>t. t\<lparr>pkceGenStartedAt := now_iso clk 0\<rparr>)) d
             \<lparr>sf_channel := None\<rparr>)) state
     | SF_GENERATED_PKCE_CHALLENGE challenge \<Rightarrow>
         set_connection ConnectionStatus.PKCE_GENERATED ConnectionHealth.CONNECTING
           (SALESFORCE_DATA_CLOUD_CONNECTOR (sf_update_proto (\<lambda>p. (sf_timings (\<lambda>t. t\<lparr>pkceGenFinishedAt := now_iso clk 0\<rparr>) p)
             \<lparr>sf_oauthState := Some ((sf_oauth clk 1 p)\<lparr>sf_oauthPkce := challenge\<rparr>)\<rparr>) d)) state
     | OAUTH_NATIVE_LINK_OPENED \<Rightarrow>
         set_connection ConnectionStatus.WAITING_FOR_OAUTH_CODE_VIA_LINK ConnectionHealth.CONNECTING
           (SALESFORCE_DATA_CLOUD_CONNECTOR (sf_update_proto (sf_timings (\<lambda>t. t\<lparr>openedNativeAuthLinkAt := now_iso clk 0\<rparr>)) d)) state
     | OAUTH_WEB_WINDOW_OPENED \<Rightarrow>
         set_connection ConnectionStatus.WAITING_FOR_OAUTH_CODE_VIA_WINDOW ConnectionHealth.CONNECTING
           (SALESFORCE_DATA_CLOUD_CONNECTOR (sf_update_proto (sf_timings (\<lambda>t. t\<lparr>openedWebAuthWindowAt := now_iso clk 0\<rparr>)) d)) state
     | OAUTH_WEB_WINDOW_CLOSED \<Rightarrow>
         set_details
           (SALESFORCE_DATA_CLOUD_CONNECTOR (sf_update_proto (sf_timings (\<lambda>t. t\<lparr>closedWebAuthWindowAt := now_iso clk 0\<rparr>)) d)) state)"

definition sf_resolved_login :: "SalesforceCoreUserInfo \<Rightarrow> SalesforceConnectionDetailsProto \<Rightarrow> string" where
  "sf_resolved_login info p =
    (case ui_preferredUsername info of Some u \<Rightarrow> u
     | None \<Rightarrow> (case ui_email info of Some e \<Rightarrow> e | None \<Rightarrow> sf_login (sf_setupParams p)))"

definition sf_token_step ::
  "clock \<Rightarrow> SalesforceTokenAction \<Rightarrow> ConnectionState \<Rightarrow> SalesforceConnectionStateDetails \<Rightarrow> ConnectionState" where
  "sf_token_step clk a state d =
    (case a of
       RECEIVED_CORE_AUTH_CODE code \<Rightarrow>
         set_connection ConnectionStatus.OAUTH_CODE_RECEIVED ConnectionHealth.CONNECTING
           (SALESFORCE_DATA_CLOUD_CONNECTOR (sf_update_proto (\<lambda>p. (sf_timings (\<lambda>t. t\<lparr>oauthCodeReceivedAt := now_iso clk 0\<rparr>) p)
             \<lparr>sf_oauthState := Some ((sf_oauth clk 1 p)\<lparr>sf_coreAuthCode := code\<rparr>)\<rparr>) d)) state
     | REQUESTING_CORE_AUTH_TOKEN \<Rightarrow>
         set_connection ConnectionStatus.ACCESS_TOKEN_REQUESTED ConnectionHealth.CONNECTING
           (SALESFORCE_DATA_CLOUD_CONNECTOR (sf_update_proto (sf_timings (\<lambda>t. t\<lparr>coreAccessTokenRequestedAt := now_iso clk 0\<rparr>)) d)) state
     | RECEIVED_CORE_AUTH_TOKEN tok \<Rightarrow>
         set_connection ConnectionStatus.CORE_ACCESS_TOKEN_RECEIVED ConnectionHealth.CONNECTING
           (SALESFORCE_DATA_CLOUD_CONNECTOR (sf_update_proto (\<lambda>p. (sf_timings (\<lambda>t. t\<lparr>coreAccessTokenReceivedAt := now_iso clk 0\<rparr>) p)
             \<lparr>sf_oauthState := Some ((sf_oauth clk 1 p)\<lparr>sf_coreAccessToken := tok\<rparr>)\<rparr>) d)) state
     | RECEIVED_CORE_USER_INFO info \<Rightarrow>
         set_details (SALESFORCE_DATA_CLOUD_CONNECTOR (sf_update_proto (\<lambda>p. p
             \<lparr>sf_setupParams := (sf_setupParams p)\<lparr>sf_login := sf_resolved_login info p\<rparr>\<rparr>) d)) state
     | REQUESTING_DATA_CLOUD_ACCESS_TOKEN \<Rightarrow>
         set_connection ConnectionStatus.DATA_CLOUD_TOKEN_REQUESTED ConnectionHealth.CONNECTING
           (SALESFORCE_DATA_CLOUD_CONNECTOR (sf_update_proto (sf_timings (\<lambda>t. t\<lparr>dataCloudAccessTokenRequestedAt := now_iso clk 0\<rparr>)) d)) state
     | RECEIVED_DATA_CLOUD_ACCESS_TOKEN tok \<Rightarrow>
         set_connection ConnectionStatus.DATA_CLOUD_TOKEN_RECEIVED ConnectionHealth.CONNECTING
           (SALESFORCE_DATA_CLOUD_CONNECTOR (sf_update_proto (\<lambda>p. (sf_timings (\<lambda>t. t\<lparr>dataCloudAccessTokenReceivedAt := now_iso clk 0\<rparr>) p)
             \<lparr>sf_oauthState := Some ((sf_oauth clk 1 p)\<lparr>sf_dataCloudAccessToken := tok\<rparr>)\<rparr>) d)) state)"

definition sf_channel_step ::
  "clock \<Rightarrow> SalesforceChannelAction \<Rightarrow> ConnectionState \<Rightarrow> SalesforceConnectionStateDetails \<Rightarrow> ConnectionState" where
  "sf_channel_step clk a state d =
    (case a of
       SF_CHANNEL_SETUP_STARTED _ \<Rightarrow>
         set_connection ConnectionStatus.CHANNEL_SETUP_STARTED ConnectionHealth.CONNECTING
           (SALESFORCE_DATA_CLOUD_CONNECTOR (sf_update_proto (sf_timings (\<lambda>t. t\<lparr>channelSetupStartedAt := now_iso clk 0\<rparr>)) d
             \<lparr>sf_channel := None\<rparr>)) state
     | SF_CHANNEL_SETUP_CANCELLED err \<Rightarrow>
         set_connection ConnectionStatus.CHANNEL_SETUP_CANCELLED ConnectionHealth.CANCELLED
           (SALESFORCE_DATA_CLOUD_CONNECTOR (sf_update_proto (\<lambda>p. (sf_timings (\<lambda>t. t\<lparr>channelSetupCancelledAt := now_iso clk 0\<rparr>) p)
             \<lparr>sf_channelError := Some err\<rparr>) d\<lparr>sf_channel := None\<rparr>)) state
     | SF_CHANNEL_SETUP_FAILED err \<Rightarrow>
         set_connection ConnectionStatus.CHANNEL_SETUP_FAILED ConnectionHealth.FAILED
           (SALESFORCE_DATA_CLOUD_CONNECTOR (sf_update_proto (\<lambda>p. (sf_timings (\<lambda>t. t\<lparr>channelSetupFailedAt := now_iso clk 0\<rparr>) p)
             \<lparr>sf_channelError := Some err\<rparr>) d\<lparr>sf_channel := None\<rparr>)) state
     | SF_CHANNEL_READY ch \<Rightarrow>
         set_connection ConnectionStatus.CHANNEL_READY ConnectionHealth.CONNECTING
           (SALESFORCE_DATA_CLOUD_CONNECTOR (sf_update_proto (sf_timings (\<lambda>t. t\<lparr>channelReadyAt := now_iso clk 0\<rparr>)) d
             \<lparr>sf_channel := Some ch\<rparr>)) state)"

definition sf_health_check ::
  "clock \<Rightarrow> CommonAction \<Rightarrow> ConnectionState \<Rightarrow> SalesforceConnectionStateDetails \<Rightarrow> ConnectionState" where
  "sf_health_check clk a state d =
    (case a of
       CommonAction.HEALTH_CHECK_STARTED \<Rightarrow>
         set_connection ConnectionStatus.HEALTH_CHECK_STARTED ConnectionHealth.CONNECTING
           (SALESFORCE_DATA_CLOUD_CONNECTOR (sf_update_proto (sf_timings (\<lambda>t. t\<lparr>healthCheckStartedAt := now_iso clk 0\<rparr>)) d)) state
     | CommonAction.HEALTH_CHECK_FAILED err \<Rightarrow>
         set_connection ConnectionStatus.HEALTH_CHECK_FAILED ConnectionHealth.FAILED
           (SALESFORCE_DATA_CLOUD_CONNECTOR (sf_update_proto (\<lambda>p. (sf_timings (\<lambda>t. t\<lparr>healthCheckFailedAt := now_iso clk 0\<rparr>) p)
             \<lparr>sf_healthCheckError := Some err\<rparr>) d)) state
     | CommonAction.HEALTH_CHECK_CANCELLED _ \<Rightarrow>
         set_connection ConnectionStatus.HEALTH_CHECK_CANCELLED ConnectionHealth.CANCELLED
           (SALESFORCE_DATA_CLOUD_CONNECTOR (sf_update_proto (sf_timings (\<lambda>t. t\<lparr>healthCheckCancelledAt := now_iso clk 0\<rparr>)) d)) state
     | CommonAction.HEALTH_CHECK_SUCCEEDED \<Rightarrow>
         set_connection ConnectionStatus.HEALTH_CHECK_SUCCEEDED ConnectionHealth.ONLINE
           (SALESFORCE_DATA_CLOUD_CONNECTOR (sf_update_proto (sf_timings (\<lambda>t. t\<lparr>healthCheckSucceededAt := now_iso clk 0\<rparr>)) d)) state
     | _ \<Rightarrow> state)"

fun reduceSalesforceConnectionState ::
  "clock \<Rightarrow> conn_env \<Rightarrow> ConnectionState \<Rightarrow> SalesforceConnectionStateDetails \<Rightarrow> ConnectorAction
    \<Rightarrow> (conn_env \<times> ConnectionState) option" where
  "reduceSalesforceConnectionState clk env state d (Common DELETE_CONNECTION) = Some (sf_reset env state d)"
| "reduceSalesforceConnectionState clk env state d (Common RESET_CONNECTION) = Some (sf_reset env state d)"
| "reduceSalesforceConnectionState clk env state d (SalesforceAuth (SETUP_STARTED ps)) =
    Some (sf_setup_started clk ps env state d)"
| "reduceSalesforceConnectionState clk env state d (SalesforceAuth a) = Some (env, sf_auth_step clk a state d)"
| "reduceSalesforceConnectionState clk env state d (SalesforceToken a) = Some (env, sf_token_step clk a state d)"
| "reduceSalesforceConnectionState clk env state d (SalesforceChannel a) = Some (env, sf_channel_step clk a state d)"
| "reduceSalesforceConnectionState clk env state d (Common a) = Some (env, sf_health_check clk a state d)"
| "reduceSalesforceConnectionState clk env state d _ = None"

lemmas salesforce_defs = sf_reset_def sf_setup_started_def sf_auth_step_def sf_token_step_def
  sf_channel_step_def sf_health_check_def

section \<open>The contract\<close>

lemma salesforce_reduce_cases:
  assumes "reduceSalesforceConnectionState clk env s d a = Some (env', s')"
  shows "connector_step SALESFORCE_DATA_CLOUD env s env' s'"
  using assms
  by (cases "(clk, env, s, d, a)" rule: reduceSalesforceConnectionState.cases)
    (auto simp: salesforce_defs connector_step_simps split: CommonAction.splits SalesforceTokenAction.splits SalesforceChannelAction.splits)

interpretation salesforce: connector reduceSalesforceConnectionState SALESFORCE_DATA_CLOUD
    SALESFORCE_DATA_CLOUD_CONNECTOR
  by unfold_locales (auto simp: sf_reset_def dest: salesforce_reduce_cases)

end
