(* ===== verification/Connection_State.thy ===== *)
theory Connection_State
  imports Query_Execution Catalog_Update Hyper_Connector Dataless_Connector Trino_Connector Salesforce_Connector
begin

text \<open>The connection reducer \<^verbatim>\<open>reduceConnectionState\<close> of \<^verbatim>\<open>connection/connection_state.ts\<close>, the details
  variant of \<^verbatim>\<open>connection_state_details.ts\<close> and the creation of connections. A reducer may throw: an
  action no connector consumes gives \<open>Inl\<close> of the error.\<close>

section \<open>Statuses\<close>

text \<open>\<^verbatim>\<open>canDeleteConnectionWithStatus\<close>: the statuses without a case fall off the end of the function,
  which returns \<^verbatim>\<open>undefined\<close> (\<open>None\<close>).\<close>

fun canDeleteConnectionWithStatus :: "ConnectionStatus \<Rightarrow> bool option" where
  "canDeleteConnectionWithStatus ConnectionStatus.AUTH_CANCELLED = Some True"
| "canDeleteConnectionWithStatus ConnectionStatus.AUTH_FAILED = Some True"
| "canDeleteConnectionWithStatus ConnectionStatus.CHANNEL_SETUP_CANCELLED = Some True"
| "canDeleteConnectionWithStatus ConnectionStatus.CHANNEL_SETUP_FAILED = Some True"
| "canDeleteConnectionWithStatus ConnectionStatus.CHANNEL_SETUP_STARTED = Some True"
| "canDeleteConnectionWithStatus ConnectionStatus.CORE_ACCESS_TOKEN_RECEIVED = Some True"
| "canDeleteConnectionWithStatus ConnectionStatus.DATA_CLOUD_TOKEN_RECEIVED = Some True"
| "canDeleteConnectionWithStatus ConnectionStatus.HEALTH_CHECK_CANCELLED = Some True"
| "canDeleteConnectionWithStatus ConnectionStatus.HEALTH_CHECK_FAILED = Some True"
| "canDeleteConnectionWithStatus ConnectionStatus.HEALTH_CHECK_SUCCEEDED = Some True"
| "canDeleteConnectionWithStatus ConnectionStatus.NOT_STARTED = Some True"
| "canDeleteConnectionWithStatus ConnectionStatus.OAUTH_CODE_RECEIVED = Some True"
| "canDeleteConnectionWithStatus ConnectionStatus.PKCE_GENERATED = Some True"
| "canDeleteConnectionWithStatus ConnectionStatus.AUTH_STARTED = Some False"
| "canDeleteConnectionWithStatus ConnectionStatus.CORE_ACCESS_TOKEN_REQUESTED = Some False"
| "canDeleteConnectionWithStatus ConnectionStatus.DATA_CLOUD_TOKEN_REQUESTED = Some False"
| "canDeleteConnectionWithStatus ConnectionStatus.HEALTH_CHECK_STARTED = Some False"
| "canDeleteConnectionWithStatus ConnectionStatus.PKCE_GENERATION_STARTED = Some False"
| "canDeleteConnectionWithStatus ConnectionStatus.WAITING_FOR_OAUTH_CODE_VIA_LINK = Some False"
| "canDeleteConnectionWithStatus ConnectionStatus.WAITING_FOR_OAUTH_CODE_VIA_WINDOW = Some False"
| "canDeleteConnectionWithStatus _ = None"

fun printConnectionHealth :: "ConnectionHealth \<Rightarrow> string" where
  "printConnectionHealth ConnectionHealth.NOT_STARTED = ''Not Started''"
| "printConnectionHealth ConnectionHealth.CONNECTING = ''Connecting''"
| "printConnectionHealth ConnectionHealth.CANCELLED = ''Cancelled''"
| "printConnectionHealth ConnectionHealth.ONLINE = ''Online''"
| "printConnectionHealth ConnectionHealth.FAILED = ''Failed''"

section \<open>Details of a connector type\<close>

fun createConnectionStateDetails :: "bool \<Rightarrow> ConnectorType \<Rightarrow> ConnectionStateDetailsVariant" where
  "createConnectionStateDetails isNative TRINO = TRINO_CONNECTOR (createTrinoConnectionStateDetails None)"
| "createConnectionStateDetails isNative HYPER = HYPER_CONNECTOR (createHyperConnectionStateDetails isNative None)"
| "createConnectionStateDetails isNative SALESFORCE_DATA_CLOUD =
    SALESFORCE_DATA_CLOUD_CONNECTOR (createSalesforceConnectionStateDetails None)"
| "createConnectionStateDetails isNative DATALESS = DATALESS_CONNECTOR (createDatalessConnectionStateDetails None)"

fun computeConnectionSignatureFromDetails ::
  "ConnectionStateDetailsVariant \<Rightarrow> Murmur3_x86_128 \<Rightarrow> Murmur3_x86_128" where
  "computeConnectionSignatureFromDetails (TRINO_CONNECTOR d) h = computeTrinoConnectionSignature d h"
| "computeConnectionSignatureFromDetails (HYPER_CONNECTOR d) h = computeHyperConnectionSignature d h"
| "computeConnectionSignatureFromDetails (SALESFORCE_DATA_CLOUD_CONNECTOR d) h =
    computeSalesforceConnectionSignature d h"
| "computeConnectionSignatureFromDetails (DATALESS_CONNECTOR d) h = computeDatalessConnectionSignature d h"

definition computeNewConnectionSignatureFromDetails :: "ConnectionStateDetailsVariant \<Rightarrow> Murmur3_x86_128" where
  "computeNewConnectionSignatureFromDetails d = computeConnectionSignatureFromDetails d (new_hasher 0 False)"

definition computeConnectionSignature :: "ConnectionState \<Rightarrow> Murmur3_x86_128 \<Rightarrow> Murmur3_x86_128" where
  "computeConnectionSignature state hasher = computeConnectionSignatureFromDetails (details state) hasher"

section \<open>Creation\<close>

definition no_queryMetrics :: ConnectionQueryMetrics where
  "no_queryMetrics = \<lparr>cq_totalQueries = 0, cq_totalBatchesReceived = 0, cq_totalRowsReceived = 0,
    cq_accumulatedTimeUntilFirstBatch = 0, cq_accumulatedQueryDuration = 0\<rparr>"

definition createConnectionMetrics :: ConnectionMetrics where
  "createConnectionMetrics = \<lparr>successfulQueries = no_queryMetrics, canceledQueries = no_queryMetrics,
    failedQueries = no_queryMetrics\<rparr>"

definition no_catalogUpdates :: CatalogUpdates where
  "no_catalogUpdates = \<lparr>tasksRunning = [], tasksFinished = [], restoredAt = None,
    currentFullRefresh = None, lastFullRefresh = None\<rparr>"

text \<open>The handles of the objects \<^verbatim>\<open>dql\<close> creates: the instance, the catalog and the two scripts.\<close>

record core_handles =
  ch_instance :: handle
  ch_catalog :: handle
  ch_relations :: handle
  ch_functions :: handle

text \<open>The state without id of the code is a state under the id the registry assigns, here \<open>nid\<close>; the
  signature is registered under \<^verbatim>\<open>null\<close>.\<close>

definition createConnectionState ::
  "core_handles \<Rightarrow> ConnectorInfo \<Rightarrow> ConnectionSignatureMap \<Rightarrow> ConnectionStateDetailsVariant \<Rightarrow> string
    \<Rightarrow> ConnectionSignatureMap \<times> ConnectionState" where
  "createConnectionState dql info connSigs det nid =
    (let (sigs, s) = newConnectionSignature (computeNewConnectionSignatureFromDetails det) connSigs None
     in (sigs,
      \<lparr>notebookId = nid, name = None, inst = ch_instance dql, active = False,
       connectionStatus = ConnectionStatus.NOT_STARTED, connectionHealth = ConnectionHealth.NOT_STARTED,
       connectorInfo = info, connectionSignature = s, details = det, c_metrics = createConnectionMetrics,
       catalog = ch_catalog dql, catalogUpdates = no_catalogUpdates,
       catalogRelationScript = ch_relations dql, catalogFunctionScript = ch_functions dql,
       queriesActive = [], queriesActiveOrdered = [], queriesFinished = [], queriesFinishedOrdered = [],
       snapshotQueriesActiveFinished = 1\<rparr>))"

definition createConnectionStateForType ::
  "bool \<Rightarrow> core_handles \<Rightarrow> ConnectorType \<Rightarrow> ConnectionSignatureMap \<Rightarrow> string
    \<Rightarrow> ConnectionSignatureMap \<times> ConnectionState" where
  "createConnectionStateForType isNative dql t connSigs nid =
    createConnectionState dql (connectorInfoForType t) connSigs (createConnectionStateDetails isNative t) nid"

definition createHyperConnectionState ::
  "bool \<Rightarrow> core_handles \<Rightarrow> ConnectionSignatureMap \<Rightarrow> string \<Rightarrow> ConnectionSignatureMap \<times> ConnectionState" where
  "createHyperConnectionState isNative dql connSigs nid =
    createConnectionState dql (connectorInfoForType HYPER) connSigs
      (HYPER_CONNECTOR (createHyperConnectionStateDetails isNative None)) nid"

definition createTrinoConnectionState ::
  "core_handles \<Rightarrow> ConnectionSignatureMap \<Rightarrow> string \<Rightarrow> ConnectionSignatureMap \<times> ConnectionState" where
  "createTrinoConnectionState dql connSigs nid =
    createConnectionState dql (connectorInfoForType TRINO) connSigs
      (TRINO_CONNECTOR (createTrinoConnectionStateDetails None)) nid"

definition createSalesforceConnectionState ::
  "core_handles \<Rightarrow> ConnectionSignatureMap \<Rightarrow> string \<Rightarrow> ConnectionSignatureMap \<times> ConnectionState" where
  "createSalesforceConnectionState dql connSigs nid =
    createConnectionState dql (connectorInfoForType SALESFORCE_DATA_CLOUD) connSigs
      (SALESFORCE_DATA_CLOUD_CONNECTOR (createSalesforceConnectionStateDetails None)) nid"

definition createDatalessConnectionState ::
  "core_handles \<Rightarrow> ConnectionSignatureMap \<Rightarrow> bool \<Rightarrow> string \<Rightarrow> ConnectionSignatureMap \<times> ConnectionState" where
  "createDatalessConnectionState dql connSigs demo nid =
    (let params = \<lparr>demoConnector = (if demo then Some True else None)\<rparr>;
         (sigs, state) = createConnectionState dql (createDatalessConnectorInfo demo) connSigs
           (DATALESS_CONNECTOR (createDatalessConnectionStateDetails (Some params))) nid
     in (sigs, if demo then state\<lparr>name := Some ''Demo''\<rparr>
        else state\<lparr>connectionStatus := ConnectionStatus.CHANNEL_READY, connectionHealth := ONLINE, active := True\<rparr>))"

section \<open>The reducer\<close>

datatype conn_error = FailedToApplyStateAction ConnectorAction

text \<open>The dispatch on the type of the details.\<close>

definition reduce_details ::
  "clock \<Rightarrow> conn_env \<Rightarrow> ConnectionState \<Rightarrow> ConnectionStateDetailsVariant \<Rightarrow> ConnectorAction
    \<Rightarrow> (conn_env \<times> ConnectionState) option" where
  "reduce_details clk env state det a =
    (case det of
       SALESFORCE_DATA_CLOUD_CONNECTOR d \<Rightarrow> reduceSalesforceConnectionState clk env state d a
     | HYPER_CONNECTOR d \<Rightarrow> reduceHyperConnectorState clk env state d a
     | TRINO_CONNECTOR d \<Rightarrow> reduceTrinoConnectorState clk env state d a
     | DATALESS_CONNECTOR d \<Rightarrow> reduceDatalessConnectorState clk env state d a)"

definition write_manifest :: "ConnectionState \<Rightarrow> conn_env \<Rightarrow> conn_env" where
  "write_manifest s env = emit (StorageWrite (groupNotebookManifestWrites (notebookId s))
    (WRITE_NOTEBOOK_MANIFEST (notebookId s) s) DEBOUNCE_DURATION_NOTEBOOK_WRITE) env"

definition persist :: "conn_env \<times> ConnectionState \<Rightarrow> conn_env \<times> ConnectionState" where
  "persist = (\<lambda>(env, s). (if active s then write_manifest s env else env, s))"

text \<open>The cleaned state of a reset: the query maps are emptied, the ordered lists are kept.\<close>

definition cleaned_connection :: "ConnectionState \<Rightarrow> ConnectionState" where
  "cleaned_connection state = state
    \<lparr>connectionStatus := ConnectionStatus.NOT_STARTED, connectionHealth := ConnectionHealth.NOT_STARTED,
     c_metrics := createConnectionMetrics, catalogUpdates := no_catalogUpdates,
     queriesActive := [], queriesFinished := []\<rparr>"

definition reset_connection :: "clock \<Rightarrow> conn_env \<Rightarrow> ConnectionState \<Rightarrow> conn_env \<times> ConnectionState" where
  "reset_connection clk env state =
    (let env = emit (CatalogClear (catalog state)) env;
         cleaned = cleaned_connection state;
         r = (case reduce_details clk env cleaned (details state) (Common RESET_CONNECTION) of
                Some r \<Rightarrow> r | None \<Rightarrow> (env, cleaned))
     in persist r)"

text \<open>Deletion dispatches on the original state, not on the cleaned one, destroys the catalog and the
  scripts and schedules the removal of the notebook.\<close>

definition delete_connection :: "clock \<Rightarrow> conn_env \<Rightarrow> ConnectionState \<Rightarrow> conn_env \<times> ConnectionState" where
  "delete_connection clk env state =
    (let cleaned = cleaned_connection state;
         (env, newState) = (case reduce_details clk env state (details state) (Common DELETE_CONNECTION) of
                Some r \<Rightarrow> r | None \<Rightarrow> (env, cleaned));
         env = emit (CatalogDropScript (catalog state) (catalogRelationScript state)) env;
         env = emit (ScriptDestroy (catalogRelationScript state)) env;
         env = emit (CatalogDropScript (catalog state) (catalogFunctionScript state)) env;
         env = emit (ScriptDestroy (catalogFunctionScript state)) env;
         env = emit (CatalogDestroy (catalog state)) env;
         env = emit (StorageWrite (groupNotebookManifestWrites (notebookId state))
           (DELETE_NOTEBOOK (notebookId state)) DEBOUNCE_DURATION_NOTEBOOK_WRITE) env
     in (env, newState))"

definition switch_connector_type ::
  "bool \<Rightarrow> ConnectorType \<Rightarrow> conn_env \<Rightarrow> ConnectionState \<Rightarrow> conn_env \<times> ConnectionState" where
  "switch_connector_type isNative newType env state =
    (if connectionStatus state \<noteq> ConnectionStatus.NOT_STARTED then (env, state)
     else if connectorType (connectorInfo state) = newType then (env, state)
     else
       let newInfo = connectorInfoForType newType;
           newDetails = createConnectionStateDetails isNative newType;
           newSig = computeNewConnectionSignatureFromDetails newDetails;
           (sigs, s) = newConnectionSignature newSig (signatures env) (Some (notebookId state))
       in (env\<lparr>signatures := sigs\<rparr>,
           state\<lparr>connectorInfo := newInfo, connectionSignature := s, details := newDetails\<rparr>))"

definition set_connection_active :: "conn_env \<Rightarrow> ConnectionState \<Rightarrow> conn_env \<times> ConnectionState" where
  "set_connection_active env state =
    (if active state then (env, state)
     else let newState = state\<lparr>active := True\<rparr> in (write_manifest newState env, newState))"

text \<open>\<^verbatim>\<open>String.prototype.trim\<close> on the white space below 256.\<close>

definition js_space :: "char \<Rightarrow> bool" where
  "js_space c \<longleftrightarrow> (of_char c :: nat) \<in> {9, 10, 11, 12, 13, 32, 160}"

definition js_trim :: "string \<Rightarrow> string" where
  "js_trim s = rev (dropWhile js_space (rev (dropWhile js_space s)))"

definition rename_notebook :: "string option \<Rightarrow> conn_env \<Rightarrow> ConnectionState \<Rightarrow> conn_env \<times> ConnectionState" where
  "rename_notebook value env state =
    (let trimmed = (case value of Some v \<Rightarrow> js_trim v | None \<Rightarrow> '''');
         newName = (if length trimmed > 0 then Some trimmed else None)
     in if newName = name state then (env, state)
        else persist (env, state\<lparr>name := newName\<rparr>))"

text \<open>The default branch: dispatch, activation after a successful health check, persistence.\<close>

definition reduce_connector_action ::
  "clock \<Rightarrow> conn_env \<Rightarrow> ConnectionState \<Rightarrow> ConnectorAction \<Rightarrow> conn_error + (conn_env \<times> ConnectionState)" where
  "reduce_connector_action clk env state a =
    (case reduce_details clk env state (details state) a of
       None \<Rightarrow> Inl (FailedToApplyStateAction a)
     | Some (env', newState) \<Rightarrow>
         let newState = (if a = Common CommonAction.HEALTH_CHECK_SUCCEEDED \<and> \<not> active newState
                         then newState\<lparr>active := True\<rparr> else newState)
         in Inr (persist (env', newState)))"

fun reduceConnectionState ::
  "bool \<Rightarrow> clock \<Rightarrow> conn_env \<Rightarrow> ConnectionState \<Rightarrow> ConnectionStateAction
    \<Rightarrow> conn_error + (conn_env \<times> ConnectionState)" where
  "reduceConnectionState isNative clk env state (Catalog (SET_CATALOG_SCRIPT script)) =
    Inr (env, state\<lparr>catalogRelationScript := script\<rparr>)"
| "reduceConnectionState isNative clk env state (Catalog a) = Inr (reduceCatalogAction (clk 0) env state a)"
| "reduceConnectionState isNative clk env state (Query a) = Inr (env, reduceQueryAction (clk 0) state a)"
| "reduceConnectionState isNative clk env state (SWITCH_CONNECTOR_TYPE t) =
    Inr (switch_connector_type isNative t env state)"
| "reduceConnectionState isNative clk env state SET_CONNECTION_ACTIVE = Inr (set_connection_active env state)"
| "reduceConnectionState isNative clk env state (RENAME_NOTEBOOK v) = Inr (rename_notebook v env state)"
| "reduceConnectionState isNative clk env state (Connector a) =
    (if a = Common RESET_CONNECTION then Inr (reset_connection clk env state)
     else if a = Common DELETE_CONNECTION then Inr (delete_connection clk env state)
     else reduce_connector_action clk env state a)"

end
