(* ===== verification/Connection_Invariants.thy ===== *)
theory Connection_Invariants
  imports Connection_State
begin

text \<open>The invariant of a connection state and what the connection reducer promises: the dispatch rests
  on the \<open>connector\<close> contract of the four connectors.\<close>

section \<open>The dispatcher\<close>

lemma reduce_details_step:
  assumes "reduce_details clk env s (details s) a = Some (env', s')"
  shows "connector_step (details_type (details s)) env s env' s'"
  using assms
  by (auto simp: reduce_details_def dest: salesforce.step hyper.step trino.step dataless.step
      split: ConnectionStateDetailsVariant.splits)

lemma reduce_details_reset:
  "\<exists>env' d'. reduce_details clk env s det (Common RESET_CONNECTION) = Some (env', set_details d' s)
    \<and> details_type d' = details_type det"
proof (cases det)
  case (SALESFORCE_DATA_CLOUD_CONNECTOR d)
  obtain env' d' where "reduceSalesforceConnectionState clk env s d (Common RESET_CONNECTION) =
      Some (env', set_details (SALESFORCE_DATA_CLOUD_CONNECTOR d') s)" using salesforce.reset by blast
  then have "reduce_details clk env s det (Common RESET_CONNECTION) = Some (env', set_details (SALESFORCE_DATA_CLOUD_CONNECTOR d') s)
      \<and> details_type (SALESFORCE_DATA_CLOUD_CONNECTOR d') = details_type det"
    using SALESFORCE_DATA_CLOUD_CONNECTOR unfolding reduce_details_def by simp
  then show ?thesis by blast
next
  case (DATALESS_CONNECTOR d)
  obtain env' d' where "reduceDatalessConnectorState clk env s d (Common RESET_CONNECTION) =
      Some (env', set_details (DATALESS_CONNECTOR d') s)" using dataless.reset by blast
  then have "reduce_details clk env s det (Common RESET_CONNECTION) = Some (env', set_details (DATALESS_CONNECTOR d') s)
      \<and> details_type (DATALESS_CONNECTOR d') = details_type det"
    using DATALESS_CONNECTOR unfolding reduce_details_def by simp
  then show ?thesis by blast
next
  case (HYPER_CONNECTOR d)
  obtain env' d' where "reduceHyperConnectorState clk env s d (Common RESET_CONNECTION) =
      Some (env', set_details (HYPER_CONNECTOR d') s)" using hyper.reset by blast
  then have "reduce_details clk env s det (Common RESET_CONNECTION) = Some (env', set_details (HYPER_CONNECTOR d') s)
      \<and> details_type (HYPER_CONNECTOR d') = details_type det"
    using HYPER_CONNECTOR unfolding reduce_details_def by simp
  then show ?thesis by blast
next
  case (TRINO_CONNECTOR d)
  obtain env' d' where "reduceTrinoConnectorState clk env s d (Common RESET_CONNECTION) =
      Some (env', set_details (TRINO_CONNECTOR d') s)" using trino.reset by blast
  then have "reduce_details clk env s det (Common RESET_CONNECTION) = Some (env', set_details (TRINO_CONNECTOR d') s)
      \<and> details_type (TRINO_CONNECTOR d') = details_type det"
    using TRINO_CONNECTOR unfolding reduce_details_def by simp
  then show ?thesis by blast
qed

lemma reduce_details_delete:
  "reduce_details clk env s det (Common DELETE_CONNECTION) = reduce_details clk env s det (Common RESET_CONNECTION)"
  by (simp add: reduce_details_def salesforce.delete hyper.delete trino.delete dataless.delete
      split: ConnectionStateDetailsVariant.splits)

lemma state_core_fields:
  assumes "state_core s' = state_core s"
  shows "notebookId s' = notebookId s" "name s' = name s" "active s' = active s" "c_metrics s' = c_metrics s"
    "catalog s' = catalog s" "catalogUpdates s' = catalogUpdates s"
    "queriesActive s' = queriesActive s" "queriesActiveOrdered s' = queriesActiveOrdered s"
    "queriesFinished s' = queriesFinished s" "queriesFinishedOrdered s' = queriesFinishedOrdered s"
  using assms by (simp_all add: state_core_def)

lemma queries_ok_core: "state_core s' = state_core s \<Longrightarrow> queries_ok s' = queries_ok s"
  and metrics_ok_core: "state_core s' = state_core s \<Longrightarrow> metrics_ok s' = metrics_ok s"
  using state_core_fields [of s' s] by (simp_all add: queries_ok_def metrics_ok_def)

section \<open>The invariant\<close>

text \<open>The connector type of the info is the type of the details, the health fits the status, and the
  query maps, the metrics and the catalog updates are consistent.\<close>

definition base_ok :: "ConnectionState \<Rightarrow> bool" where
  "base_ok s \<longleftrightarrow> connectorType (connectorInfo s) = details_type (details s) \<and> health_ok s
    \<and> catalog_ok (catalogUpdates s)"

definition conn_ok :: "ConnectionState \<Rightarrow> bool" where
  "conn_ok s \<longleftrightarrow> base_ok s \<and> queries_ok s \<and> metrics_ok s"

fun action_fresh :: "ConnectionState \<Rightarrow> ConnectionStateAction \<Rightarrow> bool" where
  "action_fresh s (Catalog a) = catalog_action_fresh s a"
| "action_fresh s (Query a) = query_action_fresh s a"
| "action_fresh s _ = True"

lemma details_type_create [simp]: "details_type (createConnectionStateDetails n t) = t"
  by (cases t) simp_all

lemma conn_ok_active [simp]: "conn_ok (s\<lparr>active := b\<rparr>) = conn_ok s"
  and base_ok_active [simp]: "base_ok (s\<lparr>active := b\<rparr>) = base_ok s"
  by (simp_all add: conn_ok_def base_ok_def health_ok_def queries_ok_def metrics_ok_def)

lemma persist_state [simp]: "snd (persist p) = snd p"
  by (simp add: persist_def split: prod.splits)

lemma persist_signatures [simp]: "signatures (fst (persist p)) = signatures (fst p)"
  by (simp add: persist_def write_manifest_def split: prod.splits)

lemma connector_step_conn_ok:
  assumes "connector_step (details_type (details s)) env s env' s'" "conn_ok s"
  shows "conn_ok s'"
proof -
  from assms(1) have core: "state_core s' = state_core s" by (simp add: connector_step_def)
  from state_core_fields(6) [OF core] assms show ?thesis
    by (auto simp: connector_step_def conn_ok_def base_ok_def queries_ok_core [OF core] metrics_ok_core [OF core])
qed

lemma reduce_connector_action_ok:
  assumes "reduce_connector_action clk env s a = Inr (env', s')" "conn_ok s"
  shows "conn_ok s'"
proof -
  from assms(1) obtain env1 s1 where
    step: "reduce_details clk env s (details s) a = Some (env1, s1)"
    and s': "s' = (if a = Common CommonAction.HEALTH_CHECK_SUCCEEDED \<and> \<not> active s1 then s1\<lparr>active := True\<rparr> else s1)"
    by (auto simp: reduce_connector_action_def Let_def persist_def split: option.splits if_splits)
  have "conn_ok s1" using reduce_details_step [OF step] assms(2) by (rule connector_step_conn_ok)
  then show ?thesis by (simp add: s')
qed

lemma switch_connector_type_ok:
  "conn_ok s \<Longrightarrow> conn_ok (snd (switch_connector_type n t env s))"
  by (auto simp: switch_connector_type_def Let_def conn_ok_def base_ok_def health_ok_def queries_ok_def
      metrics_ok_def split: prod.splits)

lemma rename_notebook_frame: "\<exists>n. snd (rename_notebook v env s) = s\<lparr>name := n\<rparr>"
proof -
  have "\<exists>n. s = s\<lparr>name := n\<rparr>" by (rule exI [of _ "name s"]) simp
  then show ?thesis unfolding rename_notebook_def Let_def by auto
qed

lemma conn_ok_name [simp]: "conn_ok (s\<lparr>name := n\<rparr>) = conn_ok s"
  and conn_ok_script [simp]: "conn_ok (s\<lparr>catalogRelationScript := h\<rparr>) = conn_ok s"
  by (simp_all add: conn_ok_def base_ok_def health_ok_def queries_ok_def metrics_ok_def)

lemma reduceCatalogAction_health [simp]:
  "connectionHealth (snd (reduceCatalogAction now env s a)) = connectionHealth s"
  by (cases a; simp add: Let_def finish_update_def store_running_def update_catalog_def split: option.splits)

lemma reduceQueryAction_health [simp]: "connectionHealth (reduceQueryAction now s a) = connectionHealth s"
proof (cases a rule: query_action_cases)
  case 4
  have "connectionHealth (reduce_active_query now q b t) = connectionHealth t" for q b t
    by (cases b) (simp_all add: store_active_def finish_succeeded_def finish_cancelled_def finish_failed_def
        finish_query_def Let_def)
  with 4 show ?thesis by (simp add: reduceQueryAction_lifecycle split: option.splits)
qed (auto simp: execute_query_def reduce_query_cache_def split: option.splits)

lemma reduceCatalogAction_conn_ok:
  assumes "conn_ok s" "catalog_action_fresh s a"
  shows "conn_ok (snd (reduceCatalogAction now env s a))"
  using assms reduceCatalogAction_ok [of s a now env]
  by (auto simp: conn_ok_def base_ok_def health_ok_def queries_ok_def metrics_ok_def queries_frame)

lemma reduceQueryAction_conn_ok:
  "conn_ok s \<Longrightarrow> query_action_fresh s a \<Longrightarrow> conn_ok (reduceQueryAction now s a)"
  by (auto simp: conn_ok_def base_ok_def health_ok_def reduceQueryAction_ok reduceQueryAction_metrics)

text \<open>A deletion returns the state its connector reset, otherwise unchanged.\<close>

lemma delete_connection_state:
  "\<exists>d'. snd (delete_connection clk env s) = set_details d' s \<and> details_type d' = details_type (details s)"
  using reduce_details_reset [of clk env s "details s"]
  by (auto simp: delete_connection_def reduce_details_delete Let_def)

lemma conn_ok_set_details: "conn_ok s \<Longrightarrow> details_type d = details_type (details s) \<Longrightarrow> conn_ok (set_details d s)"
  using connector_step_set(2) [of d "details_type (details s)" "undefined" s]
  by (rule connector_step_conn_ok)

lemma delete_connection_ok: "conn_ok s \<Longrightarrow> conn_ok (snd (delete_connection clk env s))"
  using delete_connection_state [of clk env s] by (auto simp: conn_ok_set_details)

text \<open>A reset returns the cleaned state with reset details.\<close>

lemma reset_connection_state:
  "\<exists>d'. snd (reset_connection clk env s) = set_details d' (cleaned_connection s)
    \<and> details_type d' = details_type (details s)"
  using reduce_details_reset [of clk "emit (CatalogClear (catalog s)) env" "cleaned_connection s" "details s"]
  by (auto simp: reset_connection_def Let_def)

lemma catalog_ok_none [simp]: "catalog_ok no_catalogUpdates"
  by (simp add: catalog_ok_def no_catalogUpdates_def)

lemma reset_connection_base_ok: "base_ok s \<Longrightarrow> base_ok (snd (reset_connection clk env s))"
  using reset_connection_state [of clk env s]
  by (auto simp: base_ok_def health_ok_def cleaned_connection_def set_details_def)

section \<open>Every action\<close>

lemma reduceConnectionState_ok:
  assumes "reduceConnectionState n clk env s a = Inr (env', s')" "conn_ok s" "action_fresh s a"
    and "a \<noteq> Connector (Common RESET_CONNECTION)"
  shows "conn_ok s'"
proof (cases a)
  case (Catalog c)
  with assms show ?thesis
    using reduceCatalogAction_conn_ok [of s c "clk 0" env] by (cases c) (auto simp: prod_eq_iff)
next
  case (Query q)
  with assms show ?thesis by (auto simp: reduceQueryAction_conn_ok)
next
  case (Connector c)
  with assms show ?thesis
    using delete_connection_ok [of s clk env]
    by (auto simp: reduce_connector_action_ok prod_eq_iff split: if_splits)
next
  case (SWITCH_CONNECTOR_TYPE t)
  with assms show ?thesis using switch_connector_type_ok [of s n t env] by (auto simp: prod_eq_iff)
next
  case SET_CONNECTION_ACTIVE
  with assms show ?thesis by (auto simp: set_connection_active_def Let_def split: if_splits)
next
  case (RENAME_NOTEBOOK v)
  with assms rename_notebook_frame [of v env s] show ?thesis by (auto simp: prod_eq_iff)
qed

end
