(* ===== verification/Connection_Registry.thy ===== *)
theory Connection_Registry
  imports Connection_Invariants
begin

text \<open>The registry of connections, \<^verbatim>\<open>connection/connection_registry.tsx\<close>: the connections by notebook
  id, the ids by connector type, and the shared map of signatures, which is the \<open>signatures\<close> field of
  the environment the reducers write to. Actions are queued and applied in one flush; an exception
  of the reducer leaves the updater with the actions before it applied and those after it dropped.\<close>

record ConnectionRegistry =
  connectionMap :: "(string, ConnectionState) jsmap"
  connectionsByType :: "string list list"
  reg_env :: conn_env

definition empty_registry :: ConnectionRegistry where
  "empty_registry = \<lparr>connectionMap = [], connectionsByType = map (\<lambda>_. []) CONNECTOR_TYPES,
    reg_env = \<lparr>signatures = [], effects = []\<rparr>\<rparr>"

definition type_push :: "ConnectorType \<Rightarrow> string \<Rightarrow> string list list \<Rightarrow> string list list" where
  "type_push t nid byType = byType[connectorType_number t := byType ! connectorType_number t @ [nid]]"

definition type_remove :: "ConnectorType \<Rightarrow> string \<Rightarrow> string list list \<Rightarrow> string list list" where
  "type_remove t nid byType =
    byType[connectorType_number t := filter (\<lambda>i. i \<noteq> nid) (byType ! connectorType_number t)]"

definition set_sigs :: "(ConnectionSignatureMap \<Rightarrow> ConnectionSignatureMap) \<Rightarrow> conn_env \<Rightarrow> conn_env" where
  "set_sigs f env = env\<lparr>signatures := f (signatures env)\<rparr>"

text \<open>\<^verbatim>\<open>useConnectionStateAllocator\<close>: a created state is entered under a fresh UUID.\<close>

definition allocate_connection :: "string \<Rightarrow> ConnectionState \<Rightarrow> ConnectionRegistry \<Rightarrow> ConnectionRegistry" where
  "allocate_connection nid state reg =
    (let conn = state\<lparr>notebookId := nid\<rparr> in
     \<lparr>connectionMap = js_set (connectionMap reg) nid conn,
      connectionsByType = type_push (connectorType (connectorInfo state)) nid (connectionsByType reg),
      reg_env = set_sigs (\<lambda>s. js_set s (signatureString (connectionSignature state)) (Some nid)) (reg_env reg)\<rparr>)"

text \<open>The body of the loop of \<^verbatim>\<open>flushPendingActions\<close>.\<close>

definition apply_action ::
  "bool \<Rightarrow> clock \<Rightarrow> string \<Rightarrow> ConnectionStateAction \<Rightarrow> ConnectionRegistry \<Rightarrow> conn_error + ConnectionRegistry" where
  "apply_action isNative clk nid action reg =
    (case js_get (connectionMap reg) nid of
       None \<Rightarrow> Inr reg
     | Some prev \<Rightarrow>
        (let sig = signatureString (connectionSignature prev); ctype = connectorType (connectorInfo prev) in
         case reduceConnectionState isNative clk (reg_env reg) prev action of
           Inl e \<Rightarrow> Inl e
         | Inr (env, next) \<Rightarrow>
            if action = Connector (Common DELETE_CONNECTION)
            then Inr \<lparr>connectionMap = js_delete (connectionMap reg) nid,
                   connectionsByType = type_remove ctype nid (connectionsByType reg),
                   reg_env = set_sigs (\<lambda>s. js_delete s sig) env\<rparr>
            else if (\<exists>t. action = SWITCH_CONNECTOR_TYPE t) \<and> connectorType (connectorInfo next) \<noteq> ctype
            then Inr \<lparr>connectionMap = js_set (connectionMap reg) nid next,
                   connectionsByType = type_push (connectorType (connectorInfo next)) nid
                     (type_remove ctype nid (connectionsByType reg)),
                   reg_env = set_sigs (\<lambda>s. js_set (js_delete s sig)
                     (signatureString (connectionSignature next)) (Some nid)) env\<rparr>
            else Inr \<lparr>connectionMap = js_set (connectionMap reg) nid next,
                   connectionsByType = connectionsByType reg, reg_env = env\<rparr>))"

fun flushPendingActions ::
  "bool \<Rightarrow> (clock \<times> string \<times> ConnectionStateAction) list \<Rightarrow> ConnectionRegistry
    \<Rightarrow> conn_error option \<times> ConnectionRegistry" where
  "flushPendingActions isNative [] reg = (None, reg)"
| "flushPendingActions isNative ((clk, nid, action) # rest) reg =
    (case apply_action isNative clk nid action reg of
       Inl e \<Rightarrow> (Some e, reg)
     | Inr reg' \<Rightarrow> flushPendingActions isNative rest reg')"

section \<open>What an action does to signature and type\<close>

lemma reduceConnectionState_signature:
  assumes "reduceConnectionState n clk env s a = Inr (env', s')" "\<And>t. a \<noteq> SWITCH_CONNECTOR_TYPE t"
  shows "signature_step env s env' s' \<and> notebookId s' = notebookId s
    \<and> (connectorType (connectorInfo s) = details_type (details s) \<longrightarrow>
        connectorType (connectorInfo s') = connectorType (connectorInfo s)
        \<and> details_type (details s') = details_type (details s))"
proof (cases a)
  case (Catalog c)
  with assms show ?thesis
    using reduceCatalogAction_frame [of "clk 0" env s c] by (cases c) (auto simp: signature_step_def prod_eq_iff)
next
  case (Query q)
  with assms show ?thesis by (auto simp: signature_step_def)
next
  case SET_CONNECTION_ACTIVE
  with assms show ?thesis
    by (auto simp: set_connection_active_def write_manifest_def Let_def signature_step_def split: if_splits)
next
  case (RENAME_NOTEBOOK v)
  with assms show ?thesis
    by (auto simp: rename_notebook_def persist_def write_manifest_def Let_def signature_step_def split: if_splits)
next
  case (SWITCH_CONNECTOR_TYPE t)
  with assms(2) show ?thesis by blast
next
  case (Connector c)
  have core: ?thesis if "connector_step (details_type (details s)) env1 s1 env2 s2"
    "signatures env1 = signatures env" "connectionSignature s1 = connectionSignature s"
    "notebookId s1 = notebookId s" "connectorInfo s1 = connectorInfo s"
    "signatures env' = signatures env2" "connectionSignature s' = connectionSignature s2"
    "notebookId s' = notebookId s2" "connectorInfo s' = connectorInfo s2" "details s' = details s2"
    for env1 s1 env2 s2
    using that by (auto simp: connector_step_def signature_step_def dest: state_core_fields(1))
  consider "c = Common RESET_CONNECTION" | "c = Common DELETE_CONNECTION"
    | "reduce_connector_action clk env s c = Inr (env', s')"
    using assms(1) Connector by (auto split: if_splits)
  then show ?thesis
  proof cases
    case 1
    let ?env = "emit (CatalogClear (catalog s)) env" and ?s = "cleaned_connection s"
    obtain env2 s2 where r: "reduce_details clk ?env ?s (details s) (Common RESET_CONNECTION) = Some (env2, s2)"
      using reduce_details_reset by blast
    have "details ?s = details s" by (simp add: cleaned_connection_def)
    then have "connector_step (details_type (details s)) ?env ?s env2 s2"
      using reduce_details_step [of clk ?env ?s "Common RESET_CONNECTION"] r by simp
    then show ?thesis
      by (rule core) (use assms(1) Connector 1 r in \<open>auto simp: reset_connection_def Let_def persist_def
          write_manifest_def cleaned_connection_def split: if_splits\<close>)
  next
    case 2
    obtain env2 s2 where r: "reduce_details clk env s (details s) (Common DELETE_CONNECTION) = Some (env2, s2)"
      unfolding reduce_details_delete using reduce_details_reset by blast
    from reduce_details_step [OF r] show ?thesis
      by (rule core) (use assms(1) Connector 2 r in \<open>auto simp: delete_connection_def Let_def\<close>)
  next
    case 3
    then obtain env2 s2 where r: "reduce_details clk env s (details s) c = Some (env2, s2)"
      by (auto simp: reduce_connector_action_def split: option.splits)
    from reduce_details_step [OF r] show ?thesis
      by (rule core) (use 3 r in \<open>auto simp: reduce_connector_action_def Let_def persist_def
          write_manifest_def split: if_splits\<close>)
  qed
qed

section \<open>The invariant of the registry\<close>

definition sig_of :: "ConnectionState \<Rightarrow> string" where
  "sig_of c = signatureString (connectionSignature c)"

definition type_of_conn :: "ConnectionState \<Rightarrow> ConnectorType" where
  "type_of_conn c = connectorType (connectorInfo c)"

text \<open>Every connection is stored under its notebook id, its type agrees with its details, and its
  signature is registered for it alone; the signature map names no other connection; the ids of a
  type are listed once each under that type.\<close>

definition connections_ok :: "(string, ConnectionState) jsmap \<Rightarrow> ConnectionSignatureMap \<Rightarrow> bool" where
  "connections_ok m sigs \<longleftrightarrow>
    (\<forall>k c. js_get m k = Some c \<longrightarrow> notebookId c = k \<and> type_of_conn c = details_type (details c)
      \<and> sig_of c \<noteq> [] \<and> js_get sigs (sig_of c) = Some (Some k))
    \<and> (\<forall>s k. js_get sigs s = Some (Some k) \<longrightarrow> (\<exists>c. js_get m k = Some c \<and> sig_of c = s))"

definition types_ok :: "(string, ConnectionState) jsmap \<Rightarrow> string list list \<Rightarrow> bool" where
  "types_ok m byType \<longleftrightarrow> length byType = 4
    \<and> (\<forall>t. distinct (byType ! connectorType_number t)
        \<and> set (byType ! connectorType_number t) = {k. \<exists>c. js_get m k = Some c \<and> type_of_conn c = t})"

definition registry_ok :: "ConnectionRegistry \<Rightarrow> bool" where
  "registry_ok reg \<longleftrightarrow> connections_ok (connectionMap reg) (signatures (reg_env reg))
    \<and> types_ok (connectionMap reg) (connectionsByType reg)"

lemma connectorType_number_less [simp]: "connectorType_number t < 4"
  by (cases t) simp_all

lemma connectorType_number_eq [simp]: "connectorType_number t = connectorType_number u \<longleftrightarrow> t = u"
  by (cases t; cases u) simp_all

lemma type_push_nth:
  "length b = 4 \<Longrightarrow> type_push t nid b ! connectorType_number u =
    (if u = t then b ! connectorType_number u @ [nid] else b ! connectorType_number u)"
  by (auto simp: type_push_def nth_list_update)

lemma type_remove_nth:
  "length b = 4 \<Longrightarrow> type_remove t nid b ! connectorType_number u =
    (if u = t then filter (\<lambda>i. i \<noteq> nid) (b ! connectorType_number u) else b ! connectorType_number u)"
  by (auto simp: type_remove_def nth_list_update)

lemma type_length [simp]: "length (type_push t n b) = length b" "length (type_remove t n b) = length b"
  by (simp_all add: type_push_def type_remove_def)

lemma types_ok_keep:
  assumes "types_ok m b" "js_get m k = Some c" "type_of_conn c' = type_of_conn c"
  shows "types_ok (js_set m k c') b"
  using assms by (auto simp: types_ok_def js_get_set)

lemma types_ok_push:
  assumes "types_ok m b" "js_get m k = None"
  shows "types_ok (js_set m k c) (type_push (type_of_conn c) k b)"
  using assms by (auto simp: types_ok_def type_push_nth js_get_set)

lemma types_ok_remove:
  assumes "types_ok m b" "js_get m k = Some c"
  shows "types_ok (js_delete m k) (type_remove (type_of_conn c) k b)"
  using assms by (auto simp: types_ok_def type_remove_nth js_get_delete)

lemma types_ok_move:
  assumes "types_ok m b" "js_get m k = Some c" "type_of_conn c' \<noteq> type_of_conn c"
  shows "types_ok (js_set m k c') (type_push (type_of_conn c') k (type_remove (type_of_conn c) k b))"
proof -
  have "types_ok (js_set (js_delete m k) k c') (type_push (type_of_conn c') k (type_remove (type_of_conn c) k b))"
    using types_ok_remove [OF assms(1,2)] by (rule types_ok_push) (simp add: js_get_delete)
  then show ?thesis by (simp add: types_ok_def js_get_set js_get_delete)
qed

text \<open>How the signature map may change for the connection stored under \<open>k\<close>.\<close>

definition sig_moves :: "string \<Rightarrow> string \<Rightarrow> string \<Rightarrow> ConnectionSignatureMap \<Rightarrow> ConnectionSignatureMap \<Rightarrow> bool" where
  "sig_moves k old new sigs sigs' \<longleftrightarrow> new \<noteq> [] \<and> js_get sigs' new = Some (Some k)
    \<and> (new = old \<or> js_get sigs new = None) \<and> (new \<noteq> old \<longrightarrow> js_get sigs' old = None)
    \<and> (\<forall>s. s \<noteq> new \<and> s \<noteq> old \<longrightarrow> js_get sigs' s = js_get sigs s)"

lemma signature_step_moves:
  assumes "signature_step env s env' s'" "js_get (signatures env) (sig_of s) = Some (Some (notebookId s))" "sig_of s \<noteq> []"
  shows "sig_moves (notebookId s) (sig_of s) (sig_of s') (signatures env) (signatures env')"
proof -
  from assms(1) consider "signatures env' = signatures env \<and> connectionSignature s' = connectionSignature s"
    | h where "updateConnectionSignature (signatures env) (connectionSignature s) h (Some (notebookId s)) =
        (signatures env', connectionSignature s')"
    by (auto simp: signature_step_def)
  then show ?thesis
  proof cases
    case 1
    with assms(2,3) show ?thesis by (simp add: sig_moves_def sig_of_def)
  next
    case 2
    have "6 \<le> length (signatureString (connectionSignature s'))"
      using updateConnectionSignature_facts [OF 2] by blast
    then have "signatureString (connectionSignature s') \<noteq> []" by auto
    then show ?thesis
      using updateConnectionSignature_facts [OF 2] assms(3) by (simp add: sig_moves_def sig_of_def)
  qed
qed

lemma connections_ok_get:
  "connections_ok m sigs \<Longrightarrow> js_get m k = Some c \<Longrightarrow>
    notebookId c = k \<and> type_of_conn c = details_type (details c) \<and> sig_of c \<noteq> []
    \<and> js_get sigs (sig_of c) = Some (Some k)"
  by (simp add: connections_ok_def)

lemma connections_ok_sig:
  "connections_ok m sigs \<Longrightarrow> js_get sigs s = Some (Some k) \<Longrightarrow> \<exists>c. js_get m k = Some c \<and> sig_of c = s"
  unfolding connections_ok_def by blast

lemma connections_ok_update:
  assumes ok: "connections_ok m sigs" and get: "js_get m k = Some c"
    and moves: "sig_moves k (sig_of c) (sig_of c') sigs sigs'"
    and c': "notebookId c' = k" "type_of_conn c' = details_type (details c')"
  shows "connections_ok (js_set m k c') sigs'"
proof -
  have sc: "js_get sigs (sig_of c) = Some (Some k)" using ok get by (simp add: connections_ok_def)
  have other: "js_get sigs' (sig_of d) = Some (Some j)" if d: "js_get m j = Some d" "j \<noteq> k" for j d
  proof -
    have dj: "js_get sigs (sig_of d) = Some (Some j)" using ok d by (simp add: connections_ok_def)
    then have "sig_of d \<noteq> sig_of c" "sig_of d \<noteq> sig_of c'"
      using sc d(2) moves by (auto simp: sig_moves_def)
    with dj moves show ?thesis by (simp add: sig_moves_def)
  qed
  have conv: "\<exists>d. js_get (js_set m k c') j = Some d \<and> sig_of d = s" if s: "js_get sigs' s = Some (Some j)" for s j
  proof (cases "s = sig_of c'")
    case True
    then show ?thesis using s moves by (simp add: sig_moves_def js_get_set)
  next
    case False
    with s moves have "s \<noteq> sig_of c" by (auto simp: sig_moves_def)
    with False s moves have "js_get sigs s = Some (Some j)" by (simp add: sig_moves_def)
    then obtain d where "js_get m j = Some d" "sig_of d = s" using connections_ok_sig [OF ok] by blast
    moreover from this get \<open>s \<noteq> sig_of c\<close> have "j \<noteq> k" by auto
    ultimately show ?thesis by (simp add: js_get_set)
  qed
  show ?thesis
    unfolding connections_ok_def
    using conv other c' moves ok by (auto simp: js_get_set sig_moves_def connections_ok_def split: if_splits)
qed

lemma connections_ok_remove:
  assumes ok: "connections_ok m sigs" and get: "js_get m k = Some c"
    and moves: "sig_moves k (sig_of c) (sig_of c) sigs sigs'"
  shows "connections_ok (js_delete m k) (js_delete sigs' (sig_of c))"
proof -
  have sc: "js_get sigs (sig_of c) = Some (Some k)" using ok get by (simp add: connections_ok_def)
  have same: "js_get (js_delete sigs' (sig_of c)) s = (if s = sig_of c then None else js_get sigs s)" for s
    using moves by (simp add: sig_moves_def js_get_delete)
  have other: "sig_of d \<noteq> sig_of c" if "js_get m j = Some d" "j \<noteq> k" for j d
    using connections_ok_get [OF ok that(1)] sc that(2) by auto
  have conv: "\<exists>d. js_get (js_delete m k) j = Some d \<and> sig_of d = s"
    if s: "s \<noteq> sig_of c" "js_get sigs s = Some (Some j)" for s j
  proof -
    obtain d where d: "js_get m j = Some d" "sig_of d = s" using connections_ok_sig [OF ok s(2)] by blast
    then have "j \<noteq> k" using get s(1) by auto
    with d show ?thesis by (simp add: js_get_delete)
  qed
  show ?thesis
    unfolding connections_ok_def same
    using conv other ok by (auto simp: js_get_delete connections_ok_def split: if_splits)
qed

section \<open>Preservation\<close>

lemma switch_type:
  assumes "switch_connector_type n t env s = (env', s')" "type_of_conn s = details_type (details s)"
  shows "(env' = env \<and> s' = s) \<or> (type_of_conn s' = t \<and> type_of_conn s \<noteq> t \<and> details_type (details s') = t
    \<and> notebookId s' = notebookId s \<and> (signatures env', connectionSignature s') =
        newConnectionSignature (computeNewConnectionSignatureFromDetails (details s')) (signatures env) (Some (notebookId s)))"
  using assms by (auto simp: switch_connector_type_def type_of_conn_def Let_def split: if_splits prod.splits)

lemma new_signature_moves:
  assumes "newConnectionSignature h sigs (Some k) = (sigs', st)" "old \<noteq> []" "js_get sigs old = Some (Some k)"
  shows "sig_moves k old (signatureString st) sigs (js_set (js_delete sigs' old) (signatureString st) (Some k))"
proof -
  have u: "updateConnectionSignature sigs \<lparr>sig_hash = h, signatureString = []\<rparr> h (Some k) = (sigs', st)"
    using assms(1) by (simp add: newConnectionSignature_def)
  from updateConnectionSignature_facts [OF u]
  have f: "6 \<le> length (signatureString st)" "js_get sigs' (signatureString st) = Some (Some k)"
    "\<And>s. s \<noteq> signatureString st \<Longrightarrow> s \<noteq> [] \<Longrightarrow> js_get sigs' s = js_get sigs s"
    by auto
  have "signatureString st \<notin> fst ` set sigs"
    using updateConnectionSignature_free(2) [OF u] by simp
  then have free: "js_get sigs (signatureString st) = None" by (simp add: keys_get_None)
  then have "signatureString st \<noteq> old" using assms(3) by auto
  moreover have "js_get sigs' [] = js_get sigs []"
    using u by (auto simp: updateConnectionSignature_def Let_def js_get_set f(1) dest: arg_cong [of _ _ length])
      (use f(1) in auto)
  ultimately show ?thesis
    using f free by (auto simp: sig_moves_def js_get_set js_get_delete)
qed

lemma apply_action_ok:
  assumes ok: "registry_ok reg" and ap: "apply_action n clk nid a reg = Inr reg'"
  shows "registry_ok reg'"
proof (cases "js_get (connectionMap reg) nid")
  case None
  with assms show ?thesis by (simp add: apply_action_def)
next
  case (Some prev)
  let ?m = "connectionMap reg" and ?sigs = "signatures (reg_env reg)" and ?b = "connectionsByType reg"
  from ok have cok: "connections_ok ?m ?sigs" and tok: "types_ok ?m ?b" by (simp_all add: registry_ok_def)
  note p = connections_ok_get [OF cok Some]
  obtain env nxt where red: "reduceConnectionState n clk (reg_env reg) prev a = Inr (env, nxt)"
    using ap Some by (auto simp: apply_action_def Let_def split: sum.splits)
  show ?thesis
  proof (cases "\<exists>t. a = SWITCH_CONNECTOR_TYPE t")
    case False
    with reduceConnectionState_signature [OF red] p have
      moves: "sig_moves nid (sig_of prev) (sig_of nxt) ?sigs (signatures env)"
      and fr: "notebookId nxt = nid" "type_of_conn nxt = type_of_conn prev"
        "type_of_conn nxt = details_type (details nxt)"
      using signature_step_moves [of "reg_env reg" prev env nxt] by (auto simp: type_of_conn_def)
    show ?thesis
    proof (cases "a = Connector (Common DELETE_CONNECTION)")
      case True
      obtain d where "nxt = set_details d prev"
        using delete_connection_state [of clk "reg_env reg" prev] red True by (auto simp: prod_eq_iff)
      then have "sig_of nxt = sig_of prev" by (simp add: sig_of_def)
      with moves connections_ok_remove [OF cok Some, of "signatures env"] types_ok_remove [OF tok Some]
      show ?thesis using ap Some red True
        by (auto simp: apply_action_def registry_ok_def set_sigs_def Let_def sig_of_def type_of_conn_def)
    next
      case no_delete: False
      with ap Some red False have "reg' = \<lparr>connectionMap = js_set ?m nid nxt, connectionsByType = ?b, reg_env = env\<rparr>"
        by (auto simp: apply_action_def Let_def)
      with connections_ok_update [OF cok Some moves fr(1,3)] types_ok_keep [OF tok Some fr(2)]
      show ?thesis by (simp add: registry_ok_def)
    qed
  next
    case True
    then obtain t where t: "a = SWITCH_CONNECTOR_TYPE t" by blast
    with red have sw: "switch_connector_type n t (reg_env reg) prev = (env, nxt)" by simp
    from switch_type [OF this] p consider "env = reg_env reg" "nxt = prev"
      | "type_of_conn nxt = t" "type_of_conn prev \<noteq> t" "details_type (details nxt) = t" "notebookId nxt = nid"
        "newConnectionSignature (computeNewConnectionSignatureFromDetails (details nxt)) ?sigs (Some nid) =
          (signatures env, connectionSignature nxt)"
      by (metis (no_types))
    then show ?thesis
    proof cases
      case 1
      have "js_set ?m nid prev = ?m" using Some by (simp add: update_triv)
      with ap Some red t 1 ok show ?thesis
        by (auto simp: apply_action_def Let_def registry_ok_def)
    next
      case 2
      have moves: "sig_moves nid (sig_of prev) (sig_of nxt) ?sigs
          (js_set (js_delete (signatures env) (sig_of prev)) (sig_of nxt) (Some nid))"
        using new_signature_moves [OF 2(5)] p by (simp add: sig_of_def)
      have "type_of_conn nxt \<noteq> type_of_conn prev" using 2 by simp
      note types_ok_move [OF tok Some this]
      moreover have "connections_ok (js_set ?m nid nxt)
          (js_set (js_delete (signatures env) (sig_of prev)) (sig_of nxt) (Some nid))"
        by (rule connections_ok_update [OF cok Some moves]) (use 2 in simp_all)
      ultimately show ?thesis using ap Some red t 2(1,2)
        by (auto simp: apply_action_def Let_def registry_ok_def set_sigs_def sig_of_def type_of_conn_def)
    qed
  qed
qed

lemma flush_ok:
  "registry_ok reg \<Longrightarrow> registry_ok (snd (flushPendingActions n as reg))"
  by (induction n as reg rule: flushPendingActions.induct) (auto simp: apply_action_ok split: sum.splits)

lemma empty_registry_ok: "registry_ok empty_registry"
proof -
  have "([[], [], [], []] :: string list list) ! connectorType_number t = []" for t
    by (cases t) simp_all
  then show ?thesis
    unfolding registry_ok_def empty_registry_def connections_ok_def types_ok_def
    by (simp add: CONNECTOR_TYPES_def)
qed

text \<open>A state made with the registry's signature map may be entered under a new id.\<close>

lemma allocate_connection_ok:
  assumes ok: "registry_ok reg" and new: "js_get (connectionMap reg) nid = None"
    and sig: "js_get (signatures (reg_env reg)) (sig_of s) = Some None" "sig_of s \<noteq> []"
    and ty: "type_of_conn s = details_type (details s)"
  shows "registry_ok (allocate_connection nid s reg)"
proof -
  let ?c = "s\<lparr>notebookId := nid\<rparr>"
  have c: "sig_of ?c = sig_of s" "type_of_conn ?c = type_of_conn s" by (simp_all add: sig_of_def type_of_conn_def)
  from ok have "types_ok (connectionMap reg) (connectionsByType reg)" by (simp add: registry_ok_def)
  from types_ok_push [OF this new, of ?c] have "types_ok (js_set (connectionMap reg) nid ?c)
      (type_push (type_of_conn s) nid (connectionsByType reg))" by (simp add: c)
  moreover have "connections_ok (js_set (connectionMap reg) nid ?c)
      (js_set (signatures (reg_env reg)) (sig_of s) (Some nid))"
    using ok new sig ty c
    by (auto simp: registry_ok_def connections_ok_def js_get_set split: if_splits)
      (metis option.distinct(1) option.inject)+
  ultimately show ?thesis
    by (simp add: allocate_connection_def registry_ok_def set_sigs_def Let_def sig_of_def type_of_conn_def)
qed

end
