(* ===== verification/Connection_Properties.thy ===== *)
theory Connection_Properties
  imports Connection_Registry
begin

text \<open>The properties of the connection subsystem, over the reducer and the registry.\<close>

section \<open>Reachable states\<close>

text \<open>The states a connection goes through from its creation, by actions that start queries and
  catalog updates under new ids, without a reset.\<close>

inductive conn_reach :: "conn_env \<Rightarrow> ConnectionState \<Rightarrow> bool" where
  created: "createConnectionStateForType n dql t sigs nid = (sigs', s) \<Longrightarrow>
    conn_reach \<lparr>signatures = sigs', effects = []\<rparr> s"
| acted: "conn_reach env s \<Longrightarrow> reduceConnectionState n clk env s a = Inr (env', s') \<Longrightarrow> action_fresh s a \<Longrightarrow>
    a \<noteq> Connector (Common RESET_CONNECTION) \<Longrightarrow> conn_reach env' s'"

lemma created_conn_ok:
  "createConnectionState dql info sigs det nid = (sigs', s) \<Longrightarrow> connectorType info = details_type det \<Longrightarrow> conn_ok s"
  by (auto simp: createConnectionState_def conn_ok_def base_ok_def health_ok_def queries_ok_def metrics_ok_def
      query_index_ok_def all_queries_def createConnectionMetrics_def no_queryMetrics_def count_status_def
      split: prod.splits)

lemma conn_reach_ok: "conn_reach env s \<Longrightarrow> conn_ok s"
proof (induction rule: conn_reach.induct)
  case (created n dql t sigs nid sigs' s)
  then show ?case unfolding createConnectionStateForType_def by (rule created_conn_ok) simp
qed (rule reduceConnectionState_ok)

text \<open>A concrete connection for the witnesses: dataless, active, with one query to start.\<close>

definition sample_query :: QueryExecutionState where
  "sample_query = \<lparr>queryId = 7, traceId = 1, queryText = ''select 1'',
    queryMetadata = \<lparr>queryType = USER_PROVIDED, qm_title = None, qm_description = None, qm_issuer = None, userProvided = True\<rparr>,
    q_status = REQUESTED,
    q_metrics = \<lparr>queryRequestedAt = None, queryPreparingStartedAt = None, querySendingStartedAt = None,
      queryQueuedStartedAt = None, queryRunningStartedAt = Some 100, receivedFirstBatchAt = None, receivedLastBatchAt = None,
      receivedAllBatchesAt = None, processingResultsStartedAt = None, processedResultsAt = None, querySucceededAt = None,
      queryFailedAt = None, queryCancelledAt = None, lastUpdatedAt = None, progressUpdatesReceived = 0,
      queryDurationMs = None, textLength = None, streamMetrics = createQueryResponseStreamMetrics\<rparr>,
    q_cancellation = 0, resultStream = None, q_error = None, latestProgressUpdate = None, resultSchema = None,
    resultBatches = [], resultMetadata = None, resultTable = None, cacheKey = None, servedFromCache = False,
    cacheDeleted = False, cachedAt = None\<rparr>"

definition sample_handles :: core_handles where
  "sample_handles = \<lparr>ch_instance = 0, ch_catalog = 1, ch_relations = 2, ch_functions = 3\<rparr>"

definition sample_connection :: ConnectionState where
  "sample_connection = snd (createConnectionStateForType False sample_handles TRINO [] ''nb'')"

definition sample_env :: conn_env where
  "sample_env = \<lparr>signatures = fst (createConnectionStateForType False sample_handles TRINO [] ''nb''), effects = []\<rparr>"

lemma sample_reach: "conn_reach sample_env sample_connection"
  unfolding sample_env_def sample_connection_def by (rule conn_reach.created) (rule prod.collapse [symmetric])

lemma sample_fields [simp]:
  "queriesActive sample_connection = []" "queriesFinished sample_connection = []"
  "queriesActiveOrdered sample_connection = []" "queriesFinishedOrdered sample_connection = []"
  "active sample_connection = False" "notebookId sample_connection = ''nb''"
  "details sample_connection = TRINO_CONNECTOR (createTrinoConnectionStateDetails None)"
  by (simp_all add: sample_connection_def createConnectionStateForType_def createConnectionState_def split_beta)

section \<open>Properties\<close>

text \<open>C10. Every connection state reached without a reset satisfies the invariant: the ordered id lists
  enumerate the query maps, active queries are not done and finished ones are, no query is in both
  maps, the metrics count the finished queries by outcome, catalog tasks are running or finished
  consistently, the health fits the status, and the connector info fits the details.\<close>

theorem reachable_connection_invariant:
  assumes "conn_reach env s"
  shows "conn_ok s"
  using assms by (rule conn_reach_ok)

theorem reachable_connection_invariant_witness:
  "conn_ok (reduceQueryAction 5 (execute_query 7 sample_query sample_connection) (QUERY_SUCCEEDED 7))"
proof -
  have "reduceConnectionState False (\<lambda>_. 5) sample_env sample_connection (Query (EXECUTE_QUERY 7 sample_query)) =
      Inr (sample_env, execute_query 7 sample_query sample_connection)" by simp
  then have "conn_reach sample_env (execute_query 7 sample_query sample_connection)"
    by (rule conn_reach.acted [OF sample_reach]) (simp_all add: sample_query_def)
  moreover have "reduceConnectionState False (\<lambda>_. 5) sample_env (execute_query 7 sample_query sample_connection)
      (Query (QUERY_SUCCEEDED 7)) = Inr (sample_env,
        reduceQueryAction 5 (execute_query 7 sample_query sample_connection) (QUERY_SUCCEEDED 7))" by simp
  ultimately have "conn_reach sample_env
      (reduceQueryAction 5 (execute_query 7 sample_query sample_connection) (QUERY_SUCCEEDED 7))"
    by (rule conn_reach.acted) simp_all
  then show ?thesis by (rule reachable_connection_invariant)
qed

text \<open>A query that ended stays as it is: whatever action follows, it is still among the finished
  queries, and apart from the bookkeeping of the result cache nothing of it has changed. So a late
  success, failure, batch or progress update of a finished query is ignored.\<close>

theorem finished_query_stable:
  assumes "queries_ok s" "js_get (queriesFinished s) k = Some q" "query_action_fresh s a"
  shows "\<exists>q'. js_get (queriesFinished (reduceQueryAction now s a)) k = Some q' \<and> same_query_result q q'"
  using assms by (rule finished_stable)

theorem finished_query_stable_witness:
  "\<exists>q'. js_get (queriesFinished (reduceQueryAction 9
      (reduceQueryAction 5 (execute_query 7 sample_query sample_connection) (QUERY_SUCCEEDED 7)) (QUERY_FAILED 7 1 None))) 7 = Some q'
    \<and> same_query_result (query_succeeded 5 sample_query) q'"
proof (rule finished_query_stable)
  show "queries_ok (reduceQueryAction 5 (execute_query 7 sample_query sample_connection) (QUERY_SUCCEEDED 7))"
    using conn_reach_ok [OF sample_reach]
    by (intro reduceQueryAction_ok execute_query_ok) (simp_all add: conn_ok_def sample_query_def)
  have "queryId sample_query = 7" by (simp add: sample_query_def)
  then show "js_get (queriesFinished (reduceQueryAction 5 (execute_query 7 sample_query sample_connection) (QUERY_SUCCEEDED 7))) 7 =
      Some (query_succeeded 5 sample_query)"
    by (simp add: execute_query_def finish_succeeded_def finish_query_def Let_def)
qed simp

text \<open>The duration of a query: a success records the time since the query started running, which is
  what the metrics accumulate; a failure and a cancellation record, and accumulate, the time stamp at
  which the query started running, not a duration.\<close>

theorem query_durations:
  assumes "queryRunningStartedAt (q_metrics q) = Some t0"
  shows "queryDurationMs (q_metrics (query_succeeded now q)) = Some (now - t0)
    \<and> queryDurationMs (q_metrics (query_failed now err sm q)) = Some t0
    \<and> queryDurationMs (q_metrics (query_cancelled now err sm q)) = Some t0
    \<and> cq_accumulatedQueryDuration (failedQueries (c_metrics (finish_failed (query_failed now err sm q) s))) =
        cq_accumulatedQueryDuration (failedQueries (c_metrics s)) + t0
    \<and> cq_accumulatedQueryDuration (successfulQueries (c_metrics (finish_succeeded (query_succeeded now q) s))) =
        cq_accumulatedQueryDuration (successfulQueries (c_metrics s)) + (now - t0)"
  using assms by (simp add: query_end_defs orElse_def finish_failed_def finish_succeeded_def mergeQueryMetrics_def Let_def)

theorem query_durations_witness:
  "queryDurationMs (q_metrics (query_failed 250 1 None sample_query)) = Some 100"
  using query_durations [of sample_query 100 250 1 None sample_connection] by (simp add: sample_query_def)

text \<open>A reset keeps the catalog, health and type part of the invariant, but empties the query maps
  without the ordered lists: the query part holds afterwards exactly when there were no queries.\<close>

theorem reset_connection_queries:
  assumes "base_ok s"
  shows "base_ok (snd (reset_connection clk env s))
    \<and> (queries_ok (snd (reset_connection clk env s)) \<longleftrightarrow> queriesActiveOrdered s = [] \<and> queriesFinishedOrdered s = [])"
proof -
  obtain d where "snd (reset_connection clk env s) = set_details d (cleaned_connection s)"
    using reset_connection_state by blast
  then have "queries_ok (snd (reset_connection clk env s)) \<longleftrightarrow> queriesActiveOrdered s = [] \<and> queriesFinishedOrdered s = []"
    by (auto simp: set_details_def cleaned_connection_def queries_ok_def query_index_ok_def all_queries_def)
  with reset_connection_base_ok [OF assms] show ?thesis by blast
qed

theorem reset_connection_queries_witness:
  "\<not> queries_ok (snd (reset_connection (\<lambda>_. 0) sample_env (execute_query 7 sample_query sample_connection)))"
proof -
  have "base_ok (execute_query 7 sample_query sample_connection)"
    using conn_reach_ok [OF sample_reach] by (simp add: conn_ok_def base_ok_def health_ok_def execute_query_def)
  from reset_connection_queries [OF this, of "\<lambda>_. 0" sample_env] show ?thesis by (simp add: execute_query_def)
qed

text \<open>A deletion builds a cleaned state and drops it: the state it returns has the status, the
  health, the metrics, the catalog updates and all queries of the old one.\<close>

theorem delete_connection_not_cleaned:
  "connectionStatus (snd (delete_connection clk env s)) = connectionStatus s
    \<and> connectionHealth (snd (delete_connection clk env s)) = connectionHealth s
    \<and> c_metrics (snd (delete_connection clk env s)) = c_metrics s
    \<and> catalogUpdates (snd (delete_connection clk env s)) = catalogUpdates s
    \<and> queriesActive (snd (delete_connection clk env s)) = queriesActive s
    \<and> queriesFinished (snd (delete_connection clk env s)) = queriesFinished s"
proof -
  obtain d where "snd (delete_connection clk env s) = set_details d s"
    using delete_connection_state by blast
  then show ?thesis by (simp add: set_details_def)
qed

text \<open>\<^verbatim>\<open>canDeleteConnectionWithStatus\<close> answers for every status but three, and a dataless connection
  without demo mode, which is created online, has one of those three.\<close>

theorem can_delete_undecided:
  "(canDeleteConnectionWithStatus st = None \<longleftrightarrow> st = ConnectionStatus.CHANNEL_READY
      \<or> st = ConnectionStatus.ACCESS_TOKEN_REQUESTED \<or> st = ConnectionStatus.ACCESS_TOKEN_RECEIVED)
    \<and> canDeleteConnectionWithStatus (connectionStatus (snd (createDatalessConnectionState dql sigs False nid))) = None"
proof -
  have "canDeleteConnectionWithStatus st = None \<longleftrightarrow> st = ConnectionStatus.CHANNEL_READY
      \<or> st = ConnectionStatus.ACCESS_TOKEN_REQUESTED \<or> st = ConnectionStatus.ACCESS_TOKEN_RECEIVED"
    by (cases st) simp_all
  then show ?thesis by (simp add: createDatalessConnectionState_def split_beta Let_def)
qed

text \<open>Which details a signature is made from: starting the setup of a Hyper or Trino connection hashes
  the details it stores; starting the Salesforce authentication hashes the old details, so a change of
  the instance or of the consumer key does not reach the signature.\<close>

theorem signature_of_setup:
  "sig_hash (connectionSignature (snd (hyper_channel_setup_started clk hp env s))) =
      computeConnectionSignature (snd (hyper_channel_setup_started clk hp env s)) (new_hasher 0 False)
    \<and> sig_hash (connectionSignature (snd (trino_oauth_started clk tp env s td))) =
      computeConnectionSignature (snd (trino_oauth_started clk tp env s td)) (new_hasher 0 False)
    \<and> sig_hash (connectionSignature (snd (trino_channel_setup_started clk tp env s td))) =
      computeConnectionSignature (snd (trino_channel_setup_started clk tp env s td)) (new_hasher 0 False)
    \<and> sig_hash (connectionSignature (snd (sf_setup_started clk sp env s sd))) =
      computeSalesforceConnectionSignature sd (new_hasher 0 False)"
proof -
  have hash: "sig_hash (connectionSignature (snd (set_signature h p))) = h" for h p
    by (cases p) (auto simp: set_signature_def updateConnectionSignature_def Let_def)
  have det: "details (snd (set_signature h p)) = details (snd p)" for h p
    by (cases p) (auto simp: set_signature_def Let_def split: prod.splits)
  show ?thesis
    by (simp add: hyper_channel_setup_started_def trino_oauth_started_def trino_channel_setup_started_def
        sf_setup_started_def hash det Let_def computeConnectionSignature_def)
qed

definition writes_of :: "conn_env \<Rightarrow> conn_effect list" where
  "writes_of env = filter (\<lambda>e. case e of StorageWrite _ _ _ \<Rightarrow> True | _ \<Rightarrow> False) (effects env)"

lemma writes_of_emit: "writes_of (emit e env) =
    writes_of env @ (case e of StorageWrite k t d \<Rightarrow> [e] | _ \<Rightarrow> [])"
  by (simp add: writes_of_def split: conn_effect.splits)

lemma writes_of_closes: "closes_channel env env' \<Longrightarrow> writes_of env' = writes_of env"
  by (auto simp: closes_channel_def writes_of_def)

lemma writes_of_details: "reduce_details clk env s (details s) a = Some (env', s') \<Longrightarrow> writes_of env' = writes_of env"
  using reduce_details_step by (auto simp: connector_step_def intro: writes_of_closes)

text \<open>C40. Nothing of a connection is written to storage before it is active: an action other than a
  deletion that ends in an inactive connection schedules no write, and a successful health check makes
  the connection active and schedules the write of its manifest.\<close>

theorem inactive_connection_not_persisted:
  assumes "reduceConnectionState n clk env s a = Inr (env', s')"
  shows "(\<not> active s' \<and> a \<noteq> Connector (Common DELETE_CONNECTION) \<longrightarrow> writes_of env' = writes_of env)
    \<and> (a = Connector (Common CommonAction.HEALTH_CHECK_SUCCEEDED) \<longrightarrow> active s' \<and>
        writes_of env' = writes_of env @ [StorageWrite (groupNotebookManifestWrites (notebookId s'))
          (WRITE_NOTEBOOK_MANIFEST (notebookId s') s') DEBOUNCE_DURATION_NOTEBOOK_WRITE])"
proof (cases a)
  case (Catalog c)
  then show ?thesis using assms
    by (cases c) (auto simp: Let_def persist_catalog_def writes_of_emit prod_eq_iff split: option.splits if_splits)
next
  case (Connector c)
  consider "c = Common RESET_CONNECTION" | "c = Common DELETE_CONNECTION"
    | "reduce_connector_action clk env s c = Inr (env', s')" "c \<noteq> Common RESET_CONNECTION" "c \<noteq> Common DELETE_CONNECTION"
    using assms Connector by (auto split: if_splits)
  then show ?thesis
  proof cases
    case 1
    let ?env = "emit (CatalogClear (catalog s)) env" and ?s = "cleaned_connection s"
    obtain env2 s2 where r: "reduce_details clk ?env ?s (details s) (Common RESET_CONNECTION) = Some (env2, s2)"
      using reduce_details_reset by blast
    have "details ?s = details s" by (simp add: cleaned_connection_def)
    then have "writes_of env2 = writes_of env"
      using writes_of_details [of clk ?env ?s "Common RESET_CONNECTION"] r by (simp add: writes_of_emit)
    with 1 Connector assms r show ?thesis
      by (auto simp: reset_connection_def Let_def persist_def split: if_splits)
  next
    case 2
    with Connector show ?thesis by simp
  next
    case 3
    then obtain env2 s2 where r: "reduce_details clk env s (details s) c = Some (env2, s2)"
      by (auto simp: reduce_connector_action_def split: option.splits)
    with writes_of_details [OF r] 3 Connector show ?thesis
      by (auto simp: reduce_connector_action_def Let_def persist_def write_manifest_def writes_of_emit split: if_splits)
  qed
qed (use assms in \<open>auto simp: switch_connector_type_def set_connection_active_def rename_notebook_def persist_def
      write_manifest_def writes_of_def Let_def split: if_splits prod.splits\<close>)

theorem inactive_connection_not_persisted_witness:
  "\<exists>env' s'. reduceConnectionState False (\<lambda>_. 3) sample_env sample_connection
      (Connector (Common CommonAction.HEALTH_CHECK_SUCCEEDED)) = Inr (env', s') \<and> active s' \<and>
      writes_of env' = writes_of sample_env @ [StorageWrite (groupNotebookManifestWrites (notebookId s'))
          (WRITE_NOTEBOOK_MANIFEST (notebookId s') s') DEBOUNCE_DURATION_NOTEBOOK_WRITE]"
proof -
  obtain env' s' where r: "reduceConnectionState False (\<lambda>_. 3) sample_env sample_connection
      (Connector (Common CommonAction.HEALTH_CHECK_SUCCEEDED)) = Inr (env', s')"
    by (cases "reduceConnectionState False (\<lambda>_. 3) sample_env sample_connection
      (Connector (Common CommonAction.HEALTH_CHECK_SUCCEEDED))")
      (auto simp: reduce_connector_action_def reduce_details_def)
  from r inactive_connection_not_persisted [OF r] show ?thesis by blast
qed

text \<open>C17. The registry stays consistent over every flush of queued actions, whichever they are and also
  when one of them throws: each connection is stored under its id, is listed once under the type of its
  details, and holds a signature no other connection holds, registered under its id; the signature map
  names no connection that is gone.\<close>

theorem registry_invariant:
  assumes "registry_ok reg"
  shows "registry_ok (snd (flushPendingActions n actions reg))"
  using assms by (rule flush_ok)

definition sample_registry :: ConnectionRegistry where
  "sample_registry = allocate_connection ''n1'' sample_connection (empty_registry\<lparr>reg_env := sample_env\<rparr>)"

lemma sample_registry_ok: "registry_ok sample_registry"
proof -
  obtain sigs' st where n: "newConnectionSignature (computeNewConnectionSignatureFromDetails
      (createConnectionStateDetails False TRINO)) [] None = (sigs', st)" by fastforce
  then have d: "signatures sample_env = sigs'" "connectionSignature sample_connection = st"
    by (simp_all add: sample_env_def sample_connection_def createConnectionStateForType_def createConnectionState_def)
  have "js_get sigs' (signatureString st) = Some None \<and> 6 \<le> length (signatureString st)"
    using updateConnectionSignature_facts [OF n [unfolded newConnectionSignature_def]] by blast
  then have s: "js_get (signatures sample_env) (sig_of sample_connection) = Some None" "sig_of sample_connection \<noteq> []"
    by (auto simp: d sig_of_def)
  have sigs: "sigs' = [(signatureString st, None)]"
    using n by (auto simp: newConnectionSignature_def updateConnectionSignature_def Let_def)
  have "registry_ok (empty_registry\<lparr>reg_env := sample_env\<rparr>)"
    using empty_registry_ok by (simp add: registry_ok_def connections_ok_def empty_registry_def d sigs)
  then show ?thesis unfolding sample_registry_def
    by (rule allocate_connection_ok)
      (simp_all add: s empty_registry_def type_of_conn_def, simp add: sample_connection_def
        createConnectionStateForType_def createConnectionState_def split_beta)
qed

theorem registry_invariant_witness:
  "registry_ok (snd (flushPendingActions False
    [(\<lambda>_. 1, ''n1'', SWITCH_CONNECTOR_TYPE HYPER), (\<lambda>_. 2, ''n1'', Connector (Common CommonAction.HEALTH_CHECK_STARTED)),
     (\<lambda>_. 3, ''n1'', Connector (Common DELETE_CONNECTION))] sample_registry))"
  by (rule registry_invariant [OF sample_registry_ok])

text \<open>An action the connector of the connection does not know throws inside the flush, and every action
  queued behind it is lost, for all connections: a dataless connection that is told a health check
  started is such a case.\<close>

theorem throwing_action_drops_queue:
  assumes "js_get (connectionMap reg) nid = Some c" "details c = DATALESS_CONNECTOR d"
  shows "flushPendingActions n ((clk, nid, Connector (Common CommonAction.HEALTH_CHECK_STARTED)) # rest) reg =
    (Some (FailedToApplyStateAction (Common CommonAction.HEALTH_CHECK_STARTED)), reg)"
  using assms by (simp add: apply_action_def reduce_connector_action_def reduce_details_def)

theorem throwing_action_drops_queue_witness:
  "flushPendingActions False [(\<lambda>_. 0, ''n2'', Connector (Common CommonAction.HEALTH_CHECK_STARTED)),
      (\<lambda>_. 1, ''n1'', Query (EXECUTE_QUERY 7 sample_query))]
      (sample_registry\<lparr>connectionMap := [(''n2'', sample_connection\<lparr>details := DATALESS_CONNECTOR (createDatalessConnectionStateDetails None)\<rparr>)]\<rparr>)
    = (Some (FailedToApplyStateAction (Common CommonAction.HEALTH_CHECK_STARTED)),
      sample_registry\<lparr>connectionMap := [(''n2'', sample_connection\<lparr>details := DATALESS_CONNECTOR (createDatalessConnectionStateDetails None)\<rparr>)]\<rparr>)"
  by (rule throwing_action_drops_queue [where c = "sample_connection\<lparr>details := DATALESS_CONNECTOR (createDatalessConnectionStateDetails None)\<rparr>"])
    simp_all

end
