(* ===== verification/Connection_Params.thy ===== *)
theory Connection_Params
  imports Connection_State
begin

text \<open>Connection parameters, \<^verbatim>\<open>connection/connection_params.ts\<close>: conversion to and from the details, the
  removal of secrets before sharing, the signatures that key the query result cache
  (\<^verbatim>\<open>*_connection_params.ts\<close>), and the setup check of \<^verbatim>\<open>connector_setup_check.ts\<close>.\<close>

datatype ConnectionParams =
    DatalessP DatalessParams
  | HyperP HyperConnectionParams
  | SalesforceP SalesforceConnectionParams
  | TrinoP TrinoConnectionParams

definition getConnectionInfoFromParams :: "ConnectionParams \<Rightarrow> ConnectorInfo" where
  "getConnectionInfoFromParams params =
    (case params of
       DatalessP p \<Rightarrow> createDatalessConnectorInfo (case demoConnector p of Some b \<Rightarrow> b | None \<Rightarrow> False)
     | TrinoP _ \<Rightarrow> connectorInfoForType TRINO
     | HyperP _ \<Rightarrow> connectorInfoForType HYPER
     | SalesforceP _ \<Rightarrow> connectorInfoForType SALESFORCE_DATA_CLOUD)"

definition getConnectionStateDetailsFromParams :: "bool \<Rightarrow> ConnectionParams \<Rightarrow> ConnectionStateDetailsVariant" where
  "getConnectionStateDetailsFromParams isNative params =
    (case params of
       DatalessP p \<Rightarrow> DATALESS_CONNECTOR (createDatalessConnectionStateDetails (Some p))
     | TrinoP p \<Rightarrow> TRINO_CONNECTOR (createTrinoConnectionStateDetails (Some p))
     | HyperP p \<Rightarrow> HYPER_CONNECTOR (createHyperConnectionStateDetails isNative (Some p))
     | SalesforceP p \<Rightarrow> SALESFORCE_DATA_CLOUD_CONNECTOR (createSalesforceConnectionStateDetails (Some p)))"

definition getConnectionParamsFromStateDetails :: "ConnectionStateDetailsVariant \<Rightarrow> ConnectionParams" where
  "getConnectionParamsFromStateDetails det =
    (case det of
       DATALESS_CONNECTOR d \<Rightarrow> DatalessP (dl_setupParams (dl_proto d))
     | TRINO_CONNECTOR d \<Rightarrow> TrinoP (tr_setupParams (tr_proto d))
     | HYPER_CONNECTOR d \<Rightarrow> HyperP (hy_setupParams (hy_proto d))
     | SALESFORCE_DATA_CLOUD_CONNECTOR d \<Rightarrow> SalesforceP (sf_setupParams (sf_proto d)))"

definition no_tls :: TlsConfig where
  "no_tls = \<lparr>clientKeyPath = '''', clientCertPath = '''', caCertsPath = ''''\<rparr>"

definition sanitizeConnectionParamsForSharing :: "bool \<Rightarrow> ConnectionParams \<Rightarrow> ConnectionParams" where
  "sanitizeConnectionParamsForSharing withLoginHint params =
    (case params of
       SalesforceP p \<Rightarrow> SalesforceP (let p = p\<lparr>sf_appConsumerSecret := ''''\<rparr>
         in if withLoginHint then p else p\<lparr>sf_login := ''''\<rparr>)
     | TrinoP p \<Rightarrow> TrinoP (p\<lparr>tr_auth := (case basic (tr_auth p) of
           None \<Rightarrow> tr_auth p
         | Some b \<Rightarrow> (tr_auth p)\<lparr>basic := Some (let b = b\<lparr>secret := ''''\<rparr>
             in if withLoginHint then b else b\<lparr>username := ''''\<rparr>)\<rparr>)\<rparr>)
     | HyperP p \<Rightarrow> HyperP (p\<lparr>hy_tls := no_tls\<rparr>)
     | DatalessP p \<Rightarrow> DatalessP p)"

definition connectionParamsHaveLoginHint :: "ConnectionParams option \<Rightarrow> bool" where
  "connectionParamsHaveLoginHint params =
    (case params of
       None \<Rightarrow> False
     | Some (SalesforceP p) \<Rightarrow> sf_login p \<noteq> ''''
     | Some (TrinoP p) \<Rightarrow> (case basic (tr_auth p) of Some b \<Rightarrow> username b \<noteq> '''' | None \<Rightarrow> False)
     | Some _ \<Rightarrow> False)"

definition createConnectionStateFromParams ::
  "bool \<Rightarrow> core_handles \<Rightarrow> ConnectionParams \<Rightarrow> ConnectionSignatureMap \<Rightarrow> string
    \<Rightarrow> ConnectionSignatureMap \<times> ConnectionState" where
  "createConnectionStateFromParams isNative dql params connSigs nid =
    createConnectionState dql (getConnectionInfoFromParams params) connSigs
      (getConnectionStateDetailsFromParams isNative params) nid"

definition createDefaultConnectionParamsForConnector :: "bool \<Rightarrow> ConnectorInfo \<Rightarrow> ConnectionParams" where
  "createDefaultConnectionParamsForConnector isNative info =
    (case connectorType info of
       DATALESS \<Rightarrow> DatalessP \<lparr>demoConnector = None\<rparr>
     | HYPER \<Rightarrow> HyperP \<lparr>hy_protocol = (if isNative then V3_DOCKER else V3_HTTP), hy_endpoint = '''', hy_tls = no_tls,
         hy_attachedDatabases = None, hy_metadata = None, hy_queryParameters = None\<rparr>
     | SALESFORCE_DATA_CLOUD \<Rightarrow> SalesforceP \<lparr>sf_hyperProtocol = V3_HTTP, sf_instanceUrl = '''',
         sf_appConsumerKey = '''', sf_appConsumerSecret = '''', sf_login = ''''\<rparr>
     | TRINO \<Rightarrow> TrinoP \<lparr>tr_endpoint = '''', tr_auth = \<lparr>authType = AUTH_BASIC, basic = None, oauth = None\<rparr>,
         tr_catalogName = '''', tr_schemaNames = None, tr_metadata = None\<rparr>)"

section \<open>Parameter signatures\<close>

record SalesforceParamsSignature =
  ss_hyperProtocol :: HyperProtocol
  ss_instanceUrl :: string
  ss_appConsumerKey :: string
  ss_login :: string

definition createSalesforceConnectionParamsSignature ::
  "SalesforceConnectionParams \<Rightarrow> SalesforceParamsSignature" where
  "createSalesforceConnectionParamsSignature p = \<lparr>ss_hyperProtocol = sf_hyperProtocol p,
    ss_instanceUrl = sf_instanceUrl p, ss_appConsumerKey = sf_appConsumerKey p, ss_login = sf_login p\<rparr>"

section \<open>The setup check\<close>

datatype ConnectionSetupCheck = UNKNOWN | CONNECTION_NULL | CONNECTION_TYPE_MISMATCH | AUTHENTICATED
  | AUTHENTICATION_FAILED | AUTHENTICATION_IN_PROGRESS | AUTHENTICATION_NOT_STARTED | CLIENT_ID_MISMATCH

text \<open>A present access token is an object, which is true also when it is empty.\<close>

definition checkSalesforceConnectionSetup ::
  "ConnectionState option \<Rightarrow> SalesforceConnectionParams \<Rightarrow> ConnectionSetupCheck" where
  "checkSalesforceConnectionSetup state params =
    (case state of
       None \<Rightarrow> CONNECTION_NULL
     | Some s \<Rightarrow>
        (case details s of
           SALESFORCE_DATA_CLOUD_CONNECTOR d \<Rightarrow>
             (let p = sf_proto d in
              if sf_appConsumerKey (sf_setupParams p) \<noteq> sf_appConsumerKey params then CLIENT_ID_MISMATCH
              else if sf_oauthState p \<noteq> None then AUTHENTICATED
              else if authStartedAt (sf_setupTimings p) \<noteq> None then AUTHENTICATION_IN_PROGRESS
              else if sf_setupError p \<noteq> None then AUTHENTICATION_FAILED
              else UNKNOWN)
         | _ \<Rightarrow> CONNECTION_TYPE_MISMATCH))"

section \<open>Lemmas\<close>

text \<open>The secrets of the parameters: what a recipient must not be able to read.\<close>

definition secrets_of :: "ConnectionParams \<Rightarrow> string list" where
  "secrets_of params =
    (case params of
       SalesforceP p \<Rightarrow> [sf_appConsumerSecret p]
     | TrinoP p \<Rightarrow> (case basic (tr_auth p) of Some b \<Rightarrow> [secret b] | None \<Rightarrow> [])
     | HyperP p \<Rightarrow> [clientKeyPath (hy_tls p), clientCertPath (hy_tls p), caCertsPath (hy_tls p)]
     | DatalessP _ \<Rightarrow> [])"

text \<open>Replacing the secrets by others.\<close>

definition with_secrets :: "string \<Rightarrow> TlsConfig \<Rightarrow> ConnectionParams \<Rightarrow> ConnectionParams" where
  "with_secrets x tls params =
    (case params of
       SalesforceP p \<Rightarrow> SalesforceP (p\<lparr>sf_appConsumerSecret := x\<rparr>)
     | TrinoP p \<Rightarrow> TrinoP (p\<lparr>tr_auth := (tr_auth p)\<lparr>basic := map_option (\<lambda>b. b\<lparr>secret := x\<rparr>) (basic (tr_auth p))\<rparr>\<rparr>)
     | HyperP p \<Rightarrow> HyperP (p\<lparr>hy_tls := tls\<rparr>)
     | DatalessP p \<Rightarrow> DatalessP p)"

lemma sanitize_secrets: "list_all (\<lambda>x. x = '''') (secrets_of (sanitizeConnectionParamsForSharing hint params))"
  by (simp add: sanitizeConnectionParamsForSharing_def secrets_of_def no_tls_def Let_def
      split: ConnectionParams.splits option.splits)

lemma sanitize_with_secrets:
  "sanitizeConnectionParamsForSharing hint (with_secrets x tls params) = sanitizeConnectionParamsForSharing hint params"
  by (simp add: sanitizeConnectionParamsForSharing_def with_secrets_def Let_def
      split: ConnectionParams.splits option.splits)

lemma sanitize_idem:
  "sanitizeConnectionParamsForSharing hint (sanitizeConnectionParamsForSharing hint params) =
    sanitizeConnectionParamsForSharing hint params"
  by (simp add: sanitizeConnectionParamsForSharing_def Let_def split: ConnectionParams.splits option.splits)

lemma sanitize_info [simp]:
  "getConnectionInfoFromParams (sanitizeConnectionParamsForSharing hint params) = getConnectionInfoFromParams params"
  by (simp add: getConnectionInfoFromParams_def sanitizeConnectionParamsForSharing_def split: ConnectionParams.splits)

lemma params_roundtrip:
  "getConnectionParamsFromStateDetails (getConnectionStateDetailsFromParams n params) = params"
  by (simp add: getConnectionParamsFromStateDetails_def getConnectionStateDetailsFromParams_def
      createDatalessConnectionStateDetails_def createTrinoConnectionStateDetails_def
      createHyperConnectionStateDetails_def createSalesforceConnectionStateDetails_def split: ConnectionParams.splits)

section \<open>Properties\<close>

text \<open>C21. Sharing never leaks a secret: the shared parameters do not depend on the secrets, hold only
  empty ones, and sanitizing again changes nothing; without the login hint they carry no login name;
  and the connector stays the same.\<close>

theorem sanitize_no_secrets:
  "sanitizeConnectionParamsForSharing hint (with_secrets x tls params) = sanitizeConnectionParamsForSharing hint params
    \<and> list_all (\<lambda>s. s = '''') (secrets_of (sanitizeConnectionParamsForSharing hint params))
    \<and> sanitizeConnectionParamsForSharing hint (sanitizeConnectionParamsForSharing hint params) =
        sanitizeConnectionParamsForSharing hint params
    \<and> \<not> connectionParamsHaveLoginHint (Some (sanitizeConnectionParamsForSharing False params))
    \<and> getConnectionInfoFromParams (sanitizeConnectionParamsForSharing hint params) = getConnectionInfoFromParams params"
proof -
  have "\<not> connectionParamsHaveLoginHint (Some (sanitizeConnectionParamsForSharing False params))"
    by (simp add: connectionParamsHaveLoginHint_def sanitizeConnectionParamsForSharing_def Let_def
        split: ConnectionParams.splits option.splits)
  then show ?thesis by (simp add: sanitize_with_secrets sanitize_secrets sanitize_idem)
qed

text \<open>C30. The parameters survive the way through the connection details, the type of the connector
  info made from them is the type of the details made from them, and a connection created from them
  gives them back for the manifest.\<close>

theorem params_details_roundtrip:
  "getConnectionParamsFromStateDetails (getConnectionStateDetailsFromParams n params) = params
    \<and> connectorType (getConnectionInfoFromParams params) = details_type (getConnectionStateDetailsFromParams n params)
    \<and> getConnectionParamsFromStateDetails (details (snd (createConnectionStateFromParams n dql params sigs nid))) = params"
proof -
  have "connectorType (getConnectionInfoFromParams params) = details_type (getConnectionStateDetailsFromParams n params)"
    by (simp add: getConnectionInfoFromParams_def getConnectionStateDetailsFromParams_def split: ConnectionParams.splits)
  moreover have "details (snd (createConnectionStateFromParams n dql params sigs nid)) =
      getConnectionStateDetailsFromParams n params"
    by (simp add: createConnectionStateFromParams_def createConnectionState_def split_beta)
  ultimately show ?thesis by (simp add: params_roundtrip)
qed

text \<open>The setup check reports a Salesforce connection as authenticated as soon as the
  authentication has started: the start stores an empty access token object, which the check takes for
  a token. So the state in progress is not reported before a token arrives.\<close>

theorem salesforce_check_after_start:
  "checkSalesforceConnectionSetup (Some (snd (sf_setup_started clk params env s d))) params = AUTHENTICATED"
  by (simp add: checkSalesforceConnectionSetup_def sf_setup_started_def set_signature_def set_connection_def
      split_beta Let_def)

end
