(* ===== verification/Json.thy ===== *)
theory Json
  imports Prelude "HOL-Library.Char_ord" "HOL-Library.List_Lexorder"
begin

text \<open>Plain JavaScript values as \<^verbatim>\<open>JSON.stringify\<close> and the manifest comparison of
  \<^verbatim>\<open>platform/storage/storage_writer.ts\<close> see them, decimal and ISO date texts, and the order-independent
  comparison itself. Objects list their own keys in enumeration order; numbers are integers.\<close>

section \<open>Decimal and date texts\<close>

definition digit_char :: "nat \<Rightarrow> char" where
  "digit_char d = char_of (if d < 10 then 48 + d else 87 + d)"

fun nat_text :: "nat \<Rightarrow> string" where
  "nat_text n = (if n < 10 then [digit_char n] else nat_text (n div 10) @ [digit_char (n mod 10)])"

declare nat_text.simps [simp del]

definition int_text :: "int \<Rightarrow> string" where
  "int_text i = (if i < 0 then CHR ''-'' # nat_text (nat (- i)) else nat_text (nat i))"

definition pad_text :: "nat \<Rightarrow> nat \<Rightarrow> string" where
  "pad_text w n = (let t = nat_text n in replicate (w - length t) (CHR ''0'') @ t)"

text \<open>The civil date of a day number counted from 1970-01-01, in the proleptic Gregorian calendar.\<close>

definition civil_from_days :: "int \<Rightarrow> int \<times> int \<times> int" where
  "civil_from_days z0 =
    (let z = z0 + 719468; era = z div 146097; doe = z mod 146097;
         yoe = (doe - doe div 1460 + doe div 36524 - doe div 146096) div 365;
         doy = doe - (365 * yoe + yoe div 4 - yoe div 100);
         mp = (5 * doy + 2) div 153; d = doy - (153 * mp + 2) div 5 + 1;
         m = (if mp < 10 then mp + 3 else mp - 9)
     in (yoe + era * 400 + (if m \<le> 2 then 1 else 0), m, d))"

definition year_text :: "int \<Rightarrow> string" where
  "year_text y = (if 0 \<le> y \<and> y \<le> 9999 then pad_text 4 (nat y)
     else (if y < 0 then CHR ''-'' else CHR ''+'') # pad_text 6 (nat \<bar>y\<bar>))"

definition toISOString :: "timestamp \<Rightarrow> string" where
  "toISOString t =
    (let (y, m, d) = civil_from_days (t div 86400000); ms = t mod 86400000
     in year_text y @ ''-'' @ pad_text 2 (nat m) @ ''-'' @ pad_text 2 (nat d) @ ''T'' @
        pad_text 2 (nat (ms div 3600000)) @ '':'' @ pad_text 2 (nat (ms div 60000 mod 60)) @ '':'' @
        pad_text 2 (nat (ms div 1000 mod 60)) @ ''.'' @ pad_text 3 (nat (ms mod 1000)) @ ''Z'')"

section \<open>Values\<close>

datatype jsv = JUndefined | JNull | JBool bool | JNum int | JStr string
  | JArr "jsv list" | JObj "(string \<times> jsv) list"

definition json_char :: "char \<Rightarrow> string" where
  "json_char c = (let n = (of_char c :: nat) in
     if n = 34 then [CHR 0x5C, CHR 0x22] else if n = 92 then [CHR 0x5C, CHR 0x5C]
     else if n = 8 then [CHR 0x5C, CHR ''b''] else if n = 9 then [CHR 0x5C, CHR ''t'']
     else if n = 10 then [CHR 0x5C, CHR ''n''] else if n = 12 then [CHR 0x5C, CHR ''f'']
     else if n = 13 then [CHR 0x5C, CHR ''r'']
     else if n < 32 then [CHR 0x5C, CHR ''u'', CHR ''0'', CHR ''0'', digit_char (n div 16), digit_char (n mod 16)]
     else [c])"

definition json_quote :: "string \<Rightarrow> string" where
  "json_quote s = CHR 0x22 # concat (map json_char s) @ [CHR 0x22]"

fun joined :: "string \<Rightarrow> string list \<Rightarrow> string" where
  "joined sep [] = []"
| "joined sep [x] = x"
| "joined sep (x # y # xs) = x @ sep @ joined sep (y # xs)"

text \<open>\<^verbatim>\<open>JSON.stringify(v)\<close>: members that are undefined are left out, elements that are become \<open>null\<close>.\<close>

fun json_text :: "jsv \<Rightarrow> string" and json_members :: "(string \<times> jsv) list \<Rightarrow> string list" where
  "json_text JUndefined = ''null''"
| "json_text JNull = ''null''"
| "json_text (JBool b) = (if b then ''true'' else ''false'')"
| "json_text (JNum i) = int_text i"
| "json_text (JStr s) = json_quote s"
| "json_text (JArr xs) = ''['' @ joined '','' (map json_text xs) @ '']''"
| "json_text (JObj ms) = ''{'' @ joined '','' (json_members ms) @ ''}''"
| "json_members [] = []"
| "json_members ((k, v) # ms) =
    (if v = JUndefined then [] else [json_quote k @ '':'' @ json_text v]) @ json_members ms"

text \<open>\<^verbatim>\<open>JSON.stringify(v, null, 2)\<close>, for a value nested \<open>n\<close> levels deep.\<close>

definition newline :: "nat \<Rightarrow> string" where
  "newline n = CHR 0x0A # replicate (2 * n) (CHR '' '')"

definition pretty_block :: "nat \<Rightarrow> string \<Rightarrow> string \<Rightarrow> string list \<Rightarrow> string" where
  "pretty_block n l r items =
    (if items = [] then l @ r
     else l @ newline (n + 1) @ joined ('','' @ newline (n + 1)) items @ newline n @ r)"

fun json_pretty :: "nat \<Rightarrow> jsv \<Rightarrow> string" and pretty_members :: "nat \<Rightarrow> (string \<times> jsv) list \<Rightarrow> string list" where
  "json_pretty n (JArr xs) = pretty_block n ''['' '']'' (map (json_pretty (n + 1)) xs)"
| "json_pretty n (JObj ms) = pretty_block n ''{'' ''}'' (pretty_members (n + 1) ms)"
| "json_pretty n v = json_text v"
| "pretty_members n [] = []"
| "pretty_members n ((k, v) # ms) =
    (if v = JUndefined then [] else [json_quote k @ '': '' @ json_pretty n v]) @ pretty_members n ms"

text \<open>\<^verbatim>\<open>JSON.parse(JSON.stringify(v))\<close> for a value that is not undefined itself.\<close>

fun json_roundtrip :: "jsv \<Rightarrow> jsv" and roundtrip_members :: "(string \<times> jsv) list \<Rightarrow> (string \<times> jsv) list" where
  "json_roundtrip JUndefined = JNull"
| "json_roundtrip (JArr xs) = JArr (map json_roundtrip xs)"
| "json_roundtrip (JObj ms) = JObj (roundtrip_members ms)"
| "json_roundtrip v = v"
| "roundtrip_members [] = []"
| "roundtrip_members ((k, v) # ms) =
    (if v = JUndefined then [] else [(k, json_roundtrip v)]) @ roundtrip_members ms"

section \<open>Comparison\<close>

fun jsonDeepEqual :: "jsv \<Rightarrow> jsv \<Rightarrow> bool" where
  "jsonDeepEqual (JArr xs) (JArr ys) = list_all2 jsonDeepEqual xs ys"
| "jsonDeepEqual (JObj xs) (JObj ys) =
    (length xs = length ys \<and>
     list_all (\<lambda>(k, v). case map_of ys k of None \<Rightarrow> False | Some w \<Rightarrow> jsonDeepEqual v w) xs)"
| "jsonDeepEqual a b = (a = b)"

text \<open>Object members have distinct keys; the canonical form sorts them.\<close>

fun json_ok :: "jsv \<Rightarrow> bool" where
  "json_ok (JArr xs) = list_all json_ok xs"
| "json_ok (JObj ms) = (distinct (map fst ms) \<and> list_all (\<lambda>(k, v). json_ok v) ms)"
| "json_ok _ = True"

fun canonical :: "jsv \<Rightarrow> jsv" where
  "canonical (JArr xs) = JArr (map canonical xs)"
| "canonical (JObj ms) = JObj (sort_key fst (map (\<lambda>(k, v). (k, canonical v)) ms))"
| "canonical v = v"

lemma sort_fst_eq_iff:
  assumes "distinct (map fst xs)" "distinct (map fst (ys :: (string \<times> 'a) list))"
  shows "sort_key fst xs = sort_key fst ys \<longleftrightarrow> set xs = set ys"
proof
  assume "sort_key fst xs = sort_key fst ys"
  then show "set xs = set ys" by (metis set_sort)
next
  assume eq: "set xs = set ys"
  have d: "distinct (map fst (sort_key fst zs))" if "distinct (map fst zs)" for zs :: "(string \<times> 'a) list"
    using that by (simp add: distinct_map)
  have "inj_on fst (set (sort_key fst xs) \<union> set (sort_key fst ys))"
    using assms eq by (simp add: distinct_map)
  then show "sort_key fst xs = sort_key fst ys"
    by (rule map_sorted_distinct_set_unique) (use assms eq d in \<open>simp_all add: sorted_sort_key\<close>)
qed

lemma same_members_iff:
  assumes d: "distinct (map fst xs)" "distinct (map fst ys)"
  shows "length xs = length ys \<and> (\<forall>(k, v)\<in>set xs. \<exists>w. map_of ys k = Some w \<and> f v = f w) \<longleftrightarrow>
    set (map (\<lambda>(k, v). (k, f v)) xs) = set (map (\<lambda>(k, v). (k, f v)) ys)" (is "?len \<and> ?all \<longleftrightarrow> set ?X = set ?Y")
proof -
  have keys: "map fst (map (\<lambda>(k, v). (k, f v)) zs) = map fst zs" for zs :: "('a \<times> 'b) list"
    by (induction zs) auto
  have dX: "distinct ?X" "distinct ?Y" using d keys by (metis distinct_map)+
  have cards: "card (set ?X) = length xs" "card (set ?Y) = length ys"
    using distinct_card [OF dX(1)] distinct_card [OF dX(2)] by simp_all
  have sub: "?all \<longleftrightarrow> set ?X \<subseteq> set ?Y"
  proof -
    have "(\<exists>w. map_of ys k = Some w \<and> f v = f w) \<longleftrightarrow> (k, f v) \<in> set ?Y" for k v
    proof
      assume "\<exists>w. map_of ys k = Some w \<and> f v = f w"
      then obtain w where "(k, w) \<in> set ys" "f v = f w" by (blast dest: map_of_SomeD)
      then show "(k, f v) \<in> set ?Y" by (simp add: rev_image_eqI)
    next
      assume "(k, f v) \<in> set ?Y"
      then obtain w where "(k, w) \<in> set ys" "f v = f w" by auto
      with d(2) show "\<exists>w. map_of ys k = Some w \<and> f v = f w" by auto
    qed
    then have "?all \<longleftrightarrow> (\<forall>(k, v)\<in>set xs. (k, f v) \<in> set ?Y)" by (simp only:)
    also have "\<dots> \<longleftrightarrow> (\<forall>p\<in>set xs. (case p of (k, v) \<Rightarrow> (k, f v)) \<in> set ?Y)"
      by (simp only: case_prod_unfold)
    also have "\<dots> \<longleftrightarrow> set ?X \<subseteq> set ?Y" by (simp only: set_map image_subset_iff)
    finally show ?thesis .
  qed
  show ?thesis
  proof
    assume same: "?len \<and> ?all"
    have "set ?X \<subseteq> set ?Y" by (rule iffD1 [OF sub conjunct2 [OF same]])
    moreover have "card (set ?X) = card (set ?Y)" by (simp only: cards conjunct1 [OF same])
    ultimately show "set ?X = set ?Y" by (intro card_subset_eq) simp_all
  next
    assume "set ?X = set ?Y"
    then have "?all" "card (set ?X) = card (set ?Y)" by (simp_all only: sub order_refl)
    then show "?len \<and> ?all" by (simp only: cards)
  qed
qed

lemma canonical_leaf [simp]:
  "canonical v = JUndefined \<longleftrightarrow> v = JUndefined" "canonical v = JNull \<longleftrightarrow> v = JNull"
  "canonical v = JBool b \<longleftrightarrow> v = JBool b" "canonical v = JNum i \<longleftrightarrow> v = JNum i"
  "canonical v = JStr s \<longleftrightarrow> v = JStr s"
  by (cases v; simp)+

lemma jsonDeepEqual_canonical:
  "json_ok a \<Longrightarrow> json_ok b \<Longrightarrow> jsonDeepEqual a b \<longleftrightarrow> canonical a = canonical b"
proof (induction a b rule: jsonDeepEqual.induct)
  case (1 xs ys)
  then have "jsonDeepEqual x y \<longleftrightarrow> canonical x = canonical y" if "x \<in> set xs" "y \<in> set ys" for x y
    using that by (auto simp: list_all_iff)
  then show ?case
    by (simp add: list_all2_conv_all_nth list_eq_iff_nth_eq cong: conj_cong)
next
  case (2 xs ys)
  have IH: "jsonDeepEqual v w \<longleftrightarrow> canonical v = canonical w"
    if "(k, v) \<in> set xs" "map_of ys k = Some w" for k v w
  proof -
    have "json_ok v" "json_ok w"
      using 2(2,3) that by (fastforce simp: list_all_iff dest!: map_of_SomeD)+
    with 2(1) that show ?thesis by blast
  qed
  have eq: "list_all (\<lambda>(k, v). case map_of ys k of None \<Rightarrow> False | Some w \<Rightarrow> jsonDeepEqual v w) xs \<longleftrightarrow>
      (\<forall>(k, v)\<in>set xs. \<exists>w. map_of ys k = Some w \<and> canonical v = canonical w)"
    using IH by (fastforce simp: list_all_iff split: option.splits)
  have keys: "distinct (map fst (map (\<lambda>(k, v). (k, canonical v)) zs))" if "distinct (map fst zs)" for zs
    using that by (simp add: comp_def case_prod_unfold)
  from 2 have "distinct (map fst xs)" "distinct (map fst ys)" by simp_all
  then show ?case
    using same_members_iff [of xs ys canonical] sort_fst_eq_iff [OF keys keys] by (simp only: jsonDeepEqual.simps eq
      canonical.simps jsv.inject)
qed (auto dest: sym [where s = "JUndefined"] sym [where s = "JNull"] sym [where s = "JBool b" for b]
    sym [where s = "JNum i" for i] sym [where s = "JStr t" for t])

end
