(* ===== verification/Storage_Programs.thy ===== *)
theory Storage_Programs
  imports Connection_Params Json
begin

text \<open>What one write task of the storage writer does, \<^verbatim>\<open>executeTask\<close> of
  \<^verbatim>\<open>platform/storage/storage_writer.ts\<close>: the calls of the storage backend it awaits, one after the other,
  and the code that runs between two of them. A task is a resumption: either it is over, or it waits for
  a backend call and says how to go on with the reply. The backend itself (\<^verbatim>\<open>StorageBackend\<close> of
  \<^verbatim>\<open>storage_backend.ts\<close>) only appears through its calls and replies.\<close>

section \<open>Data\<close>

record NotebookMetadata =
  originalFileName :: "string option"
  createdAt :: "string option"

record NotebookData =
  nb_notebookId :: string
  nb_name :: "string option"
  nb_connectionParams :: jsv
  nb_metadata :: "NotebookMetadata option"

record StorageWriterStatistics =
  totalScheduledWrites :: int
  totalWrites :: int
  totalWrittenBytes :: int
  totalWriteTime :: int
  lastWrite :: "timestamp option"

type_synonym StorageWriteStatisticsMap = "(string, StorageWriterStatistics) jsmap"

text \<open>The scripts of a notebook as a task payload: the folders with their files in enumeration order, each
  file with the id of its script, and the scripts by id.\<close>

record NotebookScripts =
  ns_notebookId :: string
  ns_originalFileName :: "string option"
  ns_connectorInfo :: ConnectorInfo
  ns_scripts :: "(nat, handle) jsmap"
  ns_scriptFolders :: "(string \<times> (string \<times> nat) list) list"
  ns_uncommittedScriptId :: nat

type_synonym WriteTask = "(ConnectionState, handle, NotebookScripts) StorageWriteTaskVariant"

datatype backend_call =
    LoadNotebook string
  | SaveNotebookManifest string NotebookData
  | SaveNotebookSchema string string
  | SaveNotebookFunctions string string
  | CreateScriptFolder string string
  | SaveScript string string string string
  | SaveScriptDraft string string
  | DeleteNotebook string
  | DeleteScriptFolder string string
  | RenameScriptFolder string string string
  | DeleteScript string string string
  | RenameScript string string string string

datatype backend_reply = Rejected | Resolved | Loaded NotebookData

text \<open>What a segment of a task reads from outside: the clock, the texts of the scripts in the Wasm heap
  (none for a script that was destroyed: \<^verbatim>\<open>toString\<close> throws), the JSON object behind connection
  parameters, \<^verbatim>\<open>isNativePlatform()\<close>, and \<^verbatim>\<open>Map.update\<close> of the package \<^verbatim>\<open>immutable\<close>.\<close>

type_synonym update_fn = "StorageWriteStatisticsMap \<Rightarrow> string \<Rightarrow> StorageWriterStatistics
  \<Rightarrow> (StorageWriterStatistics \<Rightarrow> StorageWriterStatistics) \<Rightarrow> StorageWriteStatisticsMap"

record sw_inputs =
  in_clock :: clock
  in_text :: "handle \<Rightarrow> string option"
  in_params :: "ConnectionParams \<Rightarrow> jsv"
  in_native :: bool
  in_update :: update_fn

text \<open>What the package documents: the updater is applied to the value of the key, or to the given default
  where the key is not set.\<close>

definition update_documented :: "update_fn \<Rightarrow> bool" where
  "update_documented upd \<longleftrightarrow> (\<forall>m k d f. upd m k d f = js_set m k (f (case js_get m k of None \<Rightarrow> d | Some v \<Rightarrow> v)))"

definition immutable_update :: update_fn where
  "immutable_update m k d f = js_set m k (f (case js_get m k of None \<Rightarrow> d | Some v \<Rightarrow> v))"

lemma immutable_update_documented [simp]: "update_documented immutable_update"
  by (simp add: update_documented_def immutable_update_def)

record WriterContents =
  statistics :: StorageWriteStatisticsMap
  completedFileContents :: "(string, string option) jsmap"

datatype sw_prog = Done | Threw
  | Call backend_call "backend_reply \<Rightarrow> sw_inputs \<Rightarrow> WriterContents \<Rightarrow> WriterContents \<times> sw_prog"

type_synonym segment = "sw_inputs \<Rightarrow> WriterContents \<Rightarrow> WriterContents \<times> sw_prog"

section \<open>Statistics\<close>

definition registerScheduledWrite :: "sw_inputs \<Rightarrow> string \<Rightarrow> WriterContents \<Rightarrow> WriterContents" where
  "registerScheduledWrite i key c = c\<lparr>statistics := in_update i (statistics c) key
     \<lparr>totalScheduledWrites = 1, totalWrites = 0, totalWrittenBytes = 0, totalWriteTime = 0, lastWrite = None\<rparr>
     (\<lambda>s. s\<lparr>totalScheduledWrites := totalScheduledWrites s + 1\<rparr>)\<rparr>"

text \<open>The readings 1 and 2 of the clock are the two dates this function takes.\<close>

definition registerWrite :: "sw_inputs \<Rightarrow> string \<Rightarrow> int \<Rightarrow> int \<Rightarrow> WriterContents \<Rightarrow> WriterContents" where
  "registerWrite i key writtenBytes writeDurationMs c = c\<lparr>statistics := in_update i (statistics c) key
     \<lparr>totalScheduledWrites = 1, totalWrites = 1, totalWrittenBytes = writtenBytes,
      totalWriteTime = writeDurationMs, lastWrite = Some (in_clock i 1)\<rparr>
     (\<lambda>s. s\<lparr>totalWrites := totalWrites s + 1, totalWrittenBytes := totalWrittenBytes s + writtenBytes,
       totalWriteTime := totalWriteTime s + writeDurationMs, lastWrite := Some (in_clock i 2)\<rparr>)\<rparr>"

definition set_completed :: "string \<Rightarrow> string option \<Rightarrow> WriterContents \<Rightarrow> WriterContents" where
  "set_completed path content c = c\<lparr>completedFileContents := js_set (completedFileContents c) path content\<rparr>"

section \<open>The manifest\<close>

definition json_option :: "string option \<Rightarrow> jsv" where
  "json_option s = (case s of None \<Rightarrow> JUndefined | Some t \<Rightarrow> JStr t)"

definition metadata_json :: "NotebookMetadata option \<Rightarrow> jsv" where
  "metadata_json m = (case m of None \<Rightarrow> JUndefined
     | Some m \<Rightarrow> JObj [(''originalFileName'', json_option (originalFileName m)),
         (''createdAt'', json_option (createdAt m))])"

definition notebook_json :: "NotebookData \<Rightarrow> jsv" where
  "notebook_json d = JObj ([(''notebookId'', JStr (nb_notebookId d))] @
     (case nb_name d of None \<Rightarrow> [] | Some n \<Rightarrow> [(''name'', JStr n)]) @
     [(''connectionParams'', nb_connectionParams d), (''metadata'', metadata_json (nb_metadata d))])"

text \<open>\<^verbatim>\<open>notebookManifestEquals\<close> and its \<^verbatim>\<open>project\<close>.\<close>

definition manifest_project :: "NotebookData \<Rightarrow> jsv" where
  "manifest_project d = json_roundtrip (JObj
     [(''notebookId'', JStr (nb_notebookId d)), (''name'', json_option (nb_name d)),
      (''connectionParams'', nb_connectionParams d), (''metadata'', metadata_json (nb_metadata d))])"

definition notebookManifestEquals :: "NotebookData \<Rightarrow> NotebookData \<Rightarrow> bool" where
  "notebookManifestEquals a b = jsonDeepEqual (manifest_project a) (manifest_project b)"

text \<open>The property \<^verbatim>\<open>name\<close> is only present when the name is truthy.\<close>

definition truthy_name :: "string option \<Rightarrow> string option" where
  "truthy_name n = (if n = Some [] then None else n)"

section \<open>The segments of a task\<close>

text \<open>Reading 0 of the clock is the time after a call, readings 1 and 2 belong to \<open>registerWrite\<close>,
  reading 3 is the time before the next call, and reading 4 stamps the creation date.\<close>

definition task_end :: segment where
  "task_end i c = (c, Done)"

definition awaiting :: "backend_call \<Rightarrow> segment \<Rightarrow> sw_prog" where
  "awaiting call k = Call call (\<lambda>r i c. if r = Rejected then (c, Threw) else k i c)"

text \<open>A save that is timed, counted and remembered.\<close>

definition write_done :: "string \<Rightarrow> int \<Rightarrow> string \<Rightarrow> timestamp \<Rightarrow> sw_inputs \<Rightarrow> WriterContents \<Rightarrow> WriterContents" where
  "write_done path bytes content before i c =
    set_completed path (Some content) (registerWrite i path bytes (in_clock i 0 - before) c)"

definition timed_save :: "backend_call \<Rightarrow> string \<Rightarrow> int \<Rightarrow> string \<Rightarrow> segment \<Rightarrow> segment" where
  "timed_save call path bytes content k i c =
    (c, awaiting call (\<lambda>i' c'. k i' (write_done path bytes content (in_clock i 3) i' c')))"

definition save_text :: "backend_call \<Rightarrow> string \<Rightarrow> string \<Rightarrow> segment \<Rightarrow> segment" where
  "save_text call path sql = timed_save call path (int (length sql)) sql"

definition save_manifest :: "string \<Rightarrow> NotebookData \<Rightarrow> segment" where
  "save_manifest nid d = timed_save (SaveNotebookManifest nid d) (nid @ ''/dashql-notebook.json'')
     (int (length (json_text (notebook_json d)))) (json_pretty 0 (notebook_json d)) task_end"

definition with_text :: "handle \<Rightarrow> (string \<Rightarrow> segment) \<Rightarrow> segment" where
  "with_text h k i c = (case in_text i h of None \<Rightarrow> (c, Threw) | Some sql \<Rightarrow> k sql i c)"

definition script_path :: "string \<Rightarrow> string \<Rightarrow> string \<Rightarrow> string" where
  "script_path nid folder file = nid @ ''/scripts/'' @ folder @ ''/'' @ file"

definition draft_path :: "string \<Rightarrow> string" where
  "draft_path nid = nid @ ''/scripts/dashql-draft.sql''"

definition save_script :: "string \<Rightarrow> string \<Rightarrow> string \<Rightarrow> string \<Rightarrow> segment \<Rightarrow> segment" where
  "save_script nid folder file sql =
    save_text (SaveScript nid folder file sql) (script_path nid folder file) sql"

section \<open>The tasks\<close>

definition existing_notebook :: "backend_reply \<Rightarrow> NotebookData option" where
  "existing_notebook r = (case r of Loaded d \<Rightarrow> Some d | _ \<Rightarrow> None)"

definition kept_createdAt :: "sw_inputs \<Rightarrow> NotebookData option \<Rightarrow> string" where
  "kept_createdAt i existing =
    (case Option.bind existing (\<lambda>d. Option.bind (nb_metadata d) createdAt) of
       None \<Rightarrow> toISOString (in_clock i 4) | Some t \<Rightarrow> t)"

definition manifest_of_connection :: "sw_inputs \<Rightarrow> ConnectionState \<Rightarrow> jsv \<Rightarrow> NotebookData option \<Rightarrow> NotebookData" where
  "manifest_of_connection i conn params existing =
    \<lparr>nb_notebookId = notebookId conn, nb_name = truthy_name (name conn), nb_connectionParams = params,
     nb_metadata = Some \<lparr>originalFileName = None, createdAt = Some (kept_createdAt i existing)\<rparr>\<rparr>"

text \<open>The conversion of the details always yields parameters, so the branch of the code that skips the
  write without them is not taken.\<close>

definition write_manifest_task :: "string \<Rightarrow> ConnectionState \<Rightarrow> segment" where
  "write_manifest_task nid conn i c =
    (let params = in_params i (getConnectionParamsFromStateDetails (details conn)) in
     (c, Call (LoadNotebook nid) (\<lambda>r i c.
        let existing = existing_notebook r; connData = manifest_of_connection i conn params existing in
        if (case existing of None \<Rightarrow> False | Some d \<Rightarrow> notebookManifestEquals d connData) then task_end i c
        else save_manifest nid connData i c)))"

fun replace_files :: "string \<Rightarrow> string \<Rightarrow> (nat, handle) jsmap \<Rightarrow> (string \<times> nat) list \<Rightarrow> segment \<Rightarrow> segment" where
  "replace_files nid folder scripts [] k = k"
| "replace_files nid folder scripts ((file, sid) # fs) k =
    (case js_get scripts sid of
       None \<Rightarrow> replace_files nid folder scripts fs k
     | Some h \<Rightarrow> with_text h (\<lambda>sql. save_script nid folder file sql (replace_files nid folder scripts fs k)))"

fun replace_folders ::
  "string \<Rightarrow> (nat, handle) jsmap \<Rightarrow> (string \<times> (string \<times> nat) list) list \<Rightarrow> segment \<Rightarrow> segment" where
  "replace_folders nid scripts [] k = k"
| "replace_folders nid scripts ((folder, fs) # folders) k = (\<lambda>i c. (c, awaiting (CreateScriptFolder nid folder)
     (replace_files nid folder scripts fs (replace_folders nid scripts folders k))))"

definition replace_draft :: "NotebookScripts \<Rightarrow> segment \<Rightarrow> segment" where
  "replace_draft n k =
    (case js_get (ns_scripts n) (ns_uncommittedScriptId n) of
       None \<Rightarrow> k
     | Some h \<Rightarrow> with_text h (\<lambda>sql. save_text (SaveScriptDraft (ns_notebookId n) sql) (draft_path (ns_notebookId n)) sql k))"

definition manifest_of_scripts :: "sw_inputs \<Rightarrow> NotebookScripts \<Rightarrow> NotebookData option \<Rightarrow> NotebookData" where
  "manifest_of_scripts i n existing =
    \<lparr>nb_notebookId = ns_notebookId n,
     nb_name = truthy_name (Option.bind existing nb_name),
     nb_connectionParams = (case existing of Some d \<Rightarrow> nb_connectionParams d
       | None \<Rightarrow> in_params i (createDefaultConnectionParamsForConnector (in_native i) (ns_connectorInfo n))),
     nb_metadata = Some \<lparr>originalFileName = ns_originalFileName n, createdAt = Some (kept_createdAt i existing)\<rparr>\<rparr>"

definition replace_manifest :: "NotebookScripts \<Rightarrow> segment" where
  "replace_manifest n i c = (c, Call (LoadNotebook (ns_notebookId n))
     (\<lambda>r i. save_manifest (ns_notebookId n) (manifest_of_scripts i n (existing_notebook r)) i))"

definition replace_notebook_scripts :: "NotebookScripts \<Rightarrow> segment" where
  "replace_notebook_scripts n =
    replace_folders (ns_notebookId n) (ns_scripts n) (ns_scriptFolders n) (replace_draft n (replace_manifest n))"

fun save_folder_scripts :: "string \<Rightarrow> string \<Rightarrow> FolderScript list \<Rightarrow> segment \<Rightarrow> segment" where
  "save_folder_scripts nid folder [] k = k"
| "save_folder_scripts nid folder (s # ss) k =
    save_script nid folder (fs_fileName s) (fs_sql s) (save_folder_scripts nid folder ss k)"

text \<open>The loops over the remembered contents.\<close>

definition forget_where :: "(string \<Rightarrow> bool) \<Rightarrow> WriterContents \<Rightarrow> WriterContents" where
  "forget_where P c = c\<lparr>completedFileContents :=
     map (\<lambda>(path, content). (path, if P path then None else content)) (completedFileContents c)\<rparr>"

definition move_completed :: "string \<Rightarrow> string \<Rightarrow> WriterContents \<Rightarrow> WriterContents" where
  "move_completed oldPrefix newPrefix c = fold (\<lambda>(path, content) c.
     if prefix oldPrefix path
     then set_completed (newPrefix @ drop (length oldPrefix) path) content (set_completed path None c) else c)
     (completedFileContents c) c"

definition rename_completed :: "string \<Rightarrow> string \<Rightarrow> WriterContents \<Rightarrow> WriterContents" where
  "rename_completed oldPath newPath c =
    (let content = js_get (completedFileContents c) oldPath; c = set_completed oldPath None c in
     case content of None \<Rightarrow> c | Some t \<Rightarrow> set_completed newPath t c)"

definition then_contents :: "backend_call \<Rightarrow> (WriterContents \<Rightarrow> WriterContents) \<Rightarrow> segment" where
  "then_contents call f i c = (c, awaiting call (\<lambda>i c. (f c, Done)))"

fun executeTask :: "WriteTask \<Rightarrow> segment" where
  "executeTask (WRITE_NOTEBOOK_MANIFEST nid conn) = write_manifest_task nid conn"
| "executeTask (WRITE_NOTEBOOK_CATALOG_SCRIPT nid h) = with_text h (\<lambda>sql.
     save_text (SaveNotebookSchema nid sql) (nid @ ''/dashql-relations.sql'') sql task_end)"
| "executeTask (WRITE_NOTEBOOK_FUNCTION_SCRIPT nid h) = with_text h (\<lambda>sql.
     save_text (SaveNotebookFunctions nid sql) (nid @ ''/dashql-functions.sql'') sql task_end)"
| "executeTask (REPLACE_NOTEBOOK_SCRIPTS n) = replace_notebook_scripts n"
| "executeTask (WRITE_SCRIPT nid folder file sql) = save_script nid folder file sql task_end"
| "executeTask (WRITE_SCRIPT_DRAFT nid sql) = save_text (SaveScriptDraft nid sql) (draft_path nid) sql task_end"
| "executeTask (DELETE_NOTEBOOK nid) = then_contents (DeleteNotebook nid)
     (forget_where (\<lambda>path. storageWriteKeyBelongsToNotebook path nid))"
| "executeTask (CREATE_SCRIPT_FOLDER nid folder ss) = (\<lambda>i c.
     (c, awaiting (CreateScriptFolder nid folder) (save_folder_scripts nid folder ss task_end)))"
| "executeTask (DELETE_SCRIPT_FOLDER nid folder) = then_contents (DeleteScriptFolder nid folder)
     (forget_where (prefix (nid @ ''/scripts/'' @ folder @ ''/'')))"
| "executeTask (RENAME_SCRIPT_FOLDER nid old new) = then_contents (RenameScriptFolder nid old new)
     (move_completed (nid @ ''/scripts/'' @ old @ ''/'') (nid @ ''/scripts/'' @ new @ ''/''))"
| "executeTask (DELETE_SCRIPT nid folder file) = then_contents (DeleteScript nid folder file)
     (set_completed (script_path nid folder file) None)"
| "executeTask (RENAME_SCRIPT nid folder old new) = then_contents (RenameScript nid folder old new)
     (rename_completed (script_path nid folder old) (script_path nid folder new))"

end
