(* ===== verification/Storage_Writer.thy ===== *)
theory Storage_Writer
  imports Storage_Programs
begin

text \<open>The storage writer of \<^verbatim>\<open>platform/storage/storage_writer.ts\<close> as a state machine of the event loop:
  the calls of its methods, the timers that fire, the replies of the storage backend, and the
  continuations of the asynchronous functions \<^verbatim>\<open>processTask\<close>, \<^verbatim>\<open>flush\<close> and \<^verbatim>\<open>settle\<close> are the events, and the
  code between two \<^verbatim>\<open>await\<close>s is one step. Timers, promises, executions and suspended calls are numbered.
  Subscribers of the statistics and the log are left out.\<close>

section \<open>State\<close>

record AsyncStorageWriteTask =
  latestTask :: WriteTask
  resolveLatestTask :: nat
  scheduledAt :: timestamp
  debounceDurationMs :: nat
  timer :: nat

text \<open>An execution in flight is running, with the rest of its task, or its promise is settled and it is
  only waiting to be removed.\<close>

datatype ExecutionState = Running sw_prog | Settled

record Execution =
  ex_promise :: nat
  ex_state :: ExecutionState

text \<open>A suspended \<^verbatim>\<open>flush()\<close> in its loop over the keys, with \<^verbatim>\<open>wasPaused\<close>, the keys that are left and the
  execution it awaits, and a suspended \<^verbatim>\<open>Promise.all\<close> of \<^verbatim>\<open>flush()\<close> or \<^verbatim>\<open>settle()\<close>.\<close>

datatype Frame = Flushing bool "string list" "nat option" | Settling "nat list"

record StorageWriter =
  contents :: WriterContents
  pendingTasks :: "(string, AsyncStorageWriteTask) jsmap"
  paused :: bool
  pausedNotebooks :: "string list"
  inFlight :: "(nat, Execution) jsmap"
  writeKeyGenerations :: "(string, nat) jsmap"
  nextWriteGeneration :: nat
  timers :: "(nat, string) jsmap"
  nextTimer :: nat
  resolved :: "(nat \<times> bool) list"
  nextPromise :: nat
  nextExecution :: nat
  frames :: "(nat, Frame) jsmap"
  nextFrame :: nat

definition new_StorageWriter :: StorageWriter where
  "new_StorageWriter = \<lparr>contents = \<lparr>statistics = [], completedFileContents = []\<rparr>, pendingTasks = [],
     paused = False, pausedNotebooks = [], inFlight = [], writeKeyGenerations = [], nextWriteGeneration = 1,
     timers = [], nextTimer = 0, resolved = [], nextPromise = 0, nextExecution = 0, frames = [], nextFrame = 0\<rparr>"

text \<open>\<^verbatim>\<open>setTimeout(() => this.processTask(key), ...)\<close>, \<^verbatim>\<open>clearTimeout\<close>, and a call of the resolver of a promise.\<close>

definition set_timeout :: "string \<Rightarrow> StorageWriter \<Rightarrow> nat \<times> StorageWriter" where
  "set_timeout key w = (nextTimer w, w\<lparr>timers := timers w @ [(nextTimer w, key)], nextTimer := nextTimer w + 1\<rparr>)"

definition clear_timeout :: "nat \<Rightarrow> StorageWriter \<Rightarrow> StorageWriter" where
  "clear_timeout t w = w\<lparr>timers := js_delete (timers w) t\<rparr>"

definition resolve :: "nat \<Rightarrow> bool \<Rightarrow> StorageWriter \<Rightarrow> StorageWriter" where
  "resolve p ok w = w\<lparr>resolved := resolved w @ [(p, ok)]\<rparr>"

definition held_by_notebook :: "StorageWriter \<Rightarrow> string \<Rightarrow> bool" where
  "held_by_notebook w key = list_ex (storageWriteKeyBelongsToNotebook key) (pausedNotebooks w)"

section \<open>Methods\<close>

definition clear_task_timer :: "string \<Rightarrow> StorageWriter \<Rightarrow> StorageWriter" where
  "clear_task_timer key w = (case js_get (pendingTasks w) key of None \<Rightarrow> w | Some task \<Rightarrow> clear_timeout (timer task) w)"

definition rearm :: "string \<Rightarrow> StorageWriter \<Rightarrow> StorageWriter" where
  "rearm key w = (case js_get (pendingTasks w) key of None \<Rightarrow> w | Some task \<Rightarrow>
     (let (t, w) = set_timeout key w in w\<lparr>pendingTasks := js_set (pendingTasks w) key (task\<lparr>timer := t\<rparr>)\<rparr>))"

definition pause :: "StorageWriter \<Rightarrow> StorageWriter" where
  "pause w = fold clear_task_timer (js_keys (pendingTasks w)) (w\<lparr>paused := True\<rparr>)"

definition resume :: "StorageWriter \<Rightarrow> StorageWriter" where
  "resume w =
    (if \<not> paused w then w
     else fold (\<lambda>key w. if held_by_notebook w key then w else rearm key w)
            (js_keys (pendingTasks w)) (w\<lparr>paused := False\<rparr>))"

definition pauseNotebook :: "string \<Rightarrow> StorageWriter \<Rightarrow> StorageWriter" where
  "pauseNotebook n w = fold (\<lambda>key w. if storageWriteKeyBelongsToNotebook key n then clear_task_timer key w else w)
     (js_keys (pendingTasks w)) (w\<lparr>pausedNotebooks := List.insert n (pausedNotebooks w)\<rparr>)"

definition resumeNotebook :: "string \<Rightarrow> StorageWriter \<Rightarrow> StorageWriter" where
  "resumeNotebook n w =
    (let had = n \<in> set (pausedNotebooks w); w = w\<lparr>pausedNotebooks := removeAll n (pausedNotebooks w)\<rparr> in
     if \<not> had \<or> paused w then w
     else fold (\<lambda>key w. if storageWriteKeyBelongsToNotebook key n then rearm key w else w)
            (js_keys (pendingTasks w)) w)"

definition getPendingKeysForNotebook :: "string \<Rightarrow> (string \<Rightarrow> bool) \<Rightarrow> StorageWriter \<Rightarrow> string list" where
  "getPendingKeysForNotebook n include w =
    filter (\<lambda>key. storageWriteKeyBelongsToNotebook key n \<and> include key) (js_keys (pendingTasks w))"

definition cancel_pending :: "string \<Rightarrow> StorageWriter \<Rightarrow> StorageWriter" where
  "cancel_pending key w = (case js_get (pendingTasks w) key of None \<Rightarrow> w | Some task \<Rightarrow>
     (let w = clear_timeout (timer task) w; w = w\<lparr>pendingTasks := js_delete (pendingTasks w) key\<rparr>
      in resolve (resolveLatestTask task) False w))"

definition cancelPendingWritesForNotebook :: "string \<Rightarrow> (string \<Rightarrow> bool) \<Rightarrow> StorageWriter \<Rightarrow> StorageWriter" where
  "cancelPendingWritesForNotebook n include w =
    fold (\<lambda>key w. if storageWriteKeyBelongsToNotebook key n \<and> include key then cancel_pending key w else w)
      (js_keys (pendingTasks w)) w"

definition getNotebookWriteGeneration :: "string \<Rightarrow> (string \<Rightarrow> bool) \<Rightarrow> StorageWriter \<Rightarrow> nat" where
  "getNotebookWriteGeneration n include w =
    fold (\<lambda>(key, value) generation. if storageWriteKeyBelongsToNotebook key n \<and> include key
            then max generation value else generation) (writeKeyGenerations w) 0"

definition getCompletedFileContent :: "string \<Rightarrow> StorageWriter \<Rightarrow> string option option" where
  "getCompletedFileContent path w = js_get (completedFileContents (contents w)) path"

text \<open>The synchronous part of \<^verbatim>\<open>write\<close>; the promise the caller awaits has the number \<open>nextPromise w\<close>.\<close>

definition write_task :: "sw_inputs \<Rightarrow> string \<Rightarrow> WriteTask \<Rightarrow> nat \<Rightarrow> StorageWriter \<Rightarrow> StorageWriter" where
  "write_task i key task debounceFor w =
    (let w = w\<lparr>writeKeyGenerations := js_set (writeKeyGenerations w) key (nextWriteGeneration w),
               nextWriteGeneration := nextWriteGeneration w + 1\<rparr>;
         (at, ms, t, w) = (case js_get (pendingTasks w) key of
            Some prev \<Rightarrow> (scheduledAt prev, debounceDurationMs prev, timer prev, resolve (resolveLatestTask prev) False w)
          | None \<Rightarrow> (let (t, w) = set_timeout key w in (in_clock i 0, debounceFor, t, w)))
     in w\<lparr>pendingTasks := js_set (pendingTasks w) key
            \<lparr>latestTask = task, resolveLatestTask = nextPromise w, scheduledAt = at,
             debounceDurationMs = ms, timer = t\<rparr>,
          nextPromise := nextPromise w + 1,
          contents := registerScheduledWrite i key (contents w)\<rparr>)"

text \<open>\<^verbatim>\<open>processTask\<close> up to its first \<^verbatim>\<open>await\<close>: the execution it starts, if any.\<close>

definition processTask :: "sw_inputs \<Rightarrow> string \<Rightarrow> bool \<Rightarrow> StorageWriter \<Rightarrow> nat option \<times> StorageWriter" where
  "processTask i key force w =
    (case js_get (pendingTasks w) key of
       None \<Rightarrow> (None, w)
     | Some task \<Rightarrow>
        if \<not> force \<and> (paused w \<or> held_by_notebook w key) then (None, w)
        else (let (c, prog) = executeTask (latestTask task) i (contents w); e = nextExecution w
              in (Some e, w\<lparr>pendingTasks := js_delete (pendingTasks w) key, contents := c,
                   inFlight := inFlight w @ [(e, \<lparr>ex_promise = resolveLatestTask task, ex_state = Running prog\<rparr>)],
                   nextExecution := e + 1\<rparr>)))"

section \<open>Events\<close>

datatype WriterEvent =
    Write string WriteTask nat
  | Pause
  | Resume
  | PauseNotebook string
  | ResumeNotebook string
  | CancelPending string "string \<Rightarrow> bool"
  | Flush
  | Settle
  | Fire nat
  | Reply nat backend_reply
  | Complete nat
  | Reap nat
  | Continue nat

text \<open>A timer fires: its callback starts \<^verbatim>\<open>processTask(key)\<close>.\<close>

definition fire :: "sw_inputs \<Rightarrow> nat \<Rightarrow> StorageWriter \<Rightarrow> StorageWriter option" where
  "fire i t w = map_option (\<lambda>key. snd (processTask i key False (clear_timeout t w))) (js_get (timers w) t)"

text \<open>The backend replies to the call an execution waits for, and the execution runs to its next call.\<close>

definition reply :: "sw_inputs \<Rightarrow> nat \<Rightarrow> backend_reply \<Rightarrow> StorageWriter \<Rightarrow> StorageWriter option" where
  "reply i e r w = (case js_get (inFlight w) e of
     Some x \<Rightarrow> (case ex_state x of
       Running (Call call k) \<Rightarrow> (let (c, prog) = k r i (contents w) in
         Some (w\<lparr>contents := c, inFlight := js_set (inFlight w) e (x\<lparr>ex_state := Running prog\<rparr>)\<rparr>))
     | _ \<Rightarrow> None) | None \<Rightarrow> None)"

text \<open>The body of an execution is over: the promise of the write call is resolved.\<close>

definition complete :: "nat \<Rightarrow> StorageWriter \<Rightarrow> StorageWriter option" where
  "complete e w = (case js_get (inFlight w) e of
     Some x \<Rightarrow> (if ex_state x = Running Done \<or> ex_state x = Running Threw
       then Some (resolve (ex_promise x) (ex_state x = Running Done)
              (w\<lparr>inFlight := js_set (inFlight w) e (x\<lparr>ex_state := Settled\<rparr>)\<rparr>))
       else None) | None \<Rightarrow> None)"

text \<open>The \<^verbatim>\<open>finally\<close> block of \<^verbatim>\<open>processTask\<close>.\<close>

definition reap :: "nat \<Rightarrow> StorageWriter \<Rightarrow> StorageWriter option" where
  "reap e w = (case js_get (inFlight w) e of
     Some x \<Rightarrow> (if ex_state x = Settled then Some (w\<lparr>inFlight := js_delete (inFlight w) e\<rparr>) else None)
   | None \<Rightarrow> None)"

text \<open>\<^verbatim>\<open>while (this.inFlight.size > 0) await Promise.all(...)\<close>, entered or resumed by the frame \<open>f\<close>.\<close>

definition await_in_flight :: "nat \<Rightarrow> StorageWriter \<Rightarrow> StorageWriter" where
  "await_in_flight f w =
    (if inFlight w = [] then w\<lparr>frames := js_delete (frames w) f\<rparr>
     else w\<lparr>frames := js_set (frames w) f (Settling (js_keys (inFlight w)))\<rparr>)"

definition execution_over :: "StorageWriter \<Rightarrow> nat \<Rightarrow> bool" where
  "execution_over w e = (case js_get (inFlight w) e of None \<Rightarrow> True | Some x \<Rightarrow> ex_state x = Settled)"

text \<open>The loop of \<^verbatim>\<open>flush\<close> up to its next \<^verbatim>\<open>await\<close>.\<close>

definition flush_loop :: "sw_inputs \<Rightarrow> nat \<Rightarrow> bool \<Rightarrow> string list \<Rightarrow> StorageWriter \<Rightarrow> StorageWriter" where
  "flush_loop i f wasPaused ks w = (case ks of
     [] \<Rightarrow> await_in_flight f (w\<lparr>paused := wasPaused\<rparr>)
   | key # ks \<Rightarrow> (let (e, w) = processTask i key True (clear_task_timer key w)
       in w\<lparr>frames := js_set (frames w) f (Flushing wasPaused ks e)\<rparr>))"

definition flush :: "sw_inputs \<Rightarrow> StorageWriter \<Rightarrow> StorageWriter" where
  "flush i w = flush_loop i (nextFrame w) (paused w) (js_keys (pendingTasks w))
     (w\<lparr>paused := False, nextFrame := nextFrame w + 1\<rparr>)"

definition settle :: "StorageWriter \<Rightarrow> StorageWriter" where
  "settle w = await_in_flight (nextFrame w) (w\<lparr>nextFrame := nextFrame w + 1\<rparr>)"

definition continue_frame :: "sw_inputs \<Rightarrow> nat \<Rightarrow> StorageWriter \<Rightarrow> StorageWriter option" where
  "continue_frame i f w = (case js_get (frames w) f of
     None \<Rightarrow> None
   | Some (Flushing wasPaused ks waiting) \<Rightarrow>
       (if (case waiting of None \<Rightarrow> True | Some e \<Rightarrow> \<not> js_has (inFlight w) e)
        then Some (flush_loop i f wasPaused ks w) else None)
   | Some (Settling es) \<Rightarrow> (if list_all (execution_over w) es then Some (await_in_flight f w) else None))"

fun writer_step :: "sw_inputs \<Rightarrow> WriterEvent \<Rightarrow> StorageWriter \<Rightarrow> StorageWriter option" where
  "writer_step i (Write key task ms) w = Some (write_task i key task ms w)"
| "writer_step i Pause w = Some (pause w)"
| "writer_step i Resume w = Some (resume w)"
| "writer_step i (PauseNotebook n) w = Some (pauseNotebook n w)"
| "writer_step i (ResumeNotebook n) w = Some (resumeNotebook n w)"
| "writer_step i (CancelPending n include) w = Some (cancelPendingWritesForNotebook n include w)"
| "writer_step i Flush w = Some (flush i w)"
| "writer_step i Settle w = Some (settle w)"
| "writer_step i (Fire t) w = fire i t w"
| "writer_step i (Reply e r) w = reply i e r w"
| "writer_step i (Complete e) w = complete e w"
| "writer_step i (Reap e) w = reap e w"
| "writer_step i (Continue f) w = continue_frame i f w"

inductive writer_reachable :: "StorageWriter \<Rightarrow> bool" where
  start: "writer_reachable new_StorageWriter"
| step: "writer_reachable w \<Longrightarrow> writer_step i e w = Some w' \<Longrightarrow> writer_reachable w'"

end
