(* ===== verification/Storage_Invariants.thy ===== *)
theory Storage_Invariants
  imports Storage_Writer "HOL-Library.Multiset"
begin

text \<open>The invariants of the storage writer: every promise handed out by \<^verbatim>\<open>write\<close> is pending, running or
  resolved, and only one of these and only once; and, as long as nobody pauses, resumes or flushes while
  a flush is under way, every pending key that may be written has a timer that will write it.\<close>

section \<open>Multisets of map entries\<close>

lemma mset_js_get: "jsmap_ok m \<Longrightarrow> js_get m k = Some v \<Longrightarrow> mset m = add_mset (k, v) (mset (js_delete m k))"
proof (induction m)
  case (Cons p m)
  then show ?case
    by (cases p) (auto simp: jsmap_ok_def map_of_eq_None_iff js_delete_id [unfolded map_of_eq_None_iff] split: if_splits)
qed simp

lemma mset_js_set: "jsmap_ok m \<Longrightarrow> mset (js_set m k v) = add_mset (k, v) (mset (js_delete m k))"
proof -
  assume ok: "jsmap_ok m"
  have "js_delete (js_set m k v) k = js_delete m k" by (induction m) auto
  then show ?thesis using mset_js_get [of "js_set m k v" k v] ok by (simp add: js_get_set)
qed

lemma js_delete_absent: "js_get m k = None \<Longrightarrow> mset (js_delete m k) = mset m"
  by (simp add: js_delete_id)

lemma in_js_delete: "p \<in> set (js_delete m k) \<Longrightarrow> p \<in> set m"
  by (induction m) (auto split: if_splits)

section \<open>Promises\<close>

definition resolved_promises :: "StorageWriter \<Rightarrow> nat multiset" where
  "resolved_promises w = image_mset fst (mset (resolved w))"

definition pending_promises :: "StorageWriter \<Rightarrow> nat multiset" where
  "pending_promises w = image_mset (\<lambda>p. resolveLatestTask (snd p)) (mset (pendingTasks w))"

definition running_promises :: "StorageWriter \<Rightarrow> nat multiset" where
  "running_promises w = image_mset (\<lambda>p. ex_promise (snd p)) (filter_mset (\<lambda>p. ex_state (snd p) \<noteq> Settled) (mset (inFlight w)))"

lemmas promise_defs = resolved_promises_def pending_promises_def running_promises_def

definition promises_ok :: "StorageWriter \<Rightarrow> bool" where
  "promises_ok w \<longleftrightarrow>
    resolved_promises w + pending_promises w + running_promises w = mset_set {0..<nextPromise w}"

definition maps_ok :: "StorageWriter \<Rightarrow> bool" where
  "maps_ok w \<longleftrightarrow> jsmap_ok (pendingTasks w) \<and> jsmap_ok (inFlight w) \<and> jsmap_ok (frames w) \<and> jsmap_ok (timers w) \<and>
    (\<forall>e\<in>fst ` set (inFlight w). e < nextExecution w) \<and> (\<forall>t\<in>fst ` set (timers w). t < nextTimer w) \<and>
    (\<forall>f\<in>fst ` set (frames w). f < nextFrame w)"

definition writer_ok :: "StorageWriter \<Rightarrow> bool" where
  "writer_ok w \<longleftrightarrow> maps_ok w \<and> promises_ok w"

lemmas writer_ok_defs = writer_ok_def maps_ok_def promises_ok_def promise_defs

lemma mset_set_Suc: "mset_set {0..<Suc n} = add_mset n (mset_set {0..<n})"
  by (simp add: atLeastLessThanSuc)

lemma writer_ok_new: "writer_ok new_StorageWriter"
  by (simp add: writer_ok_defs new_StorageWriter_def)

lemma jsmap_ok_append: "jsmap_ok m \<Longrightarrow> k \<notin> fst ` set m \<Longrightarrow> jsmap_ok (m @ [(k, v)])"
  by (simp add: jsmap_ok_def)

lemma writer_ok_clear_timeout: "writer_ok w \<Longrightarrow> writer_ok (clear_timeout t w)"
  by (auto simp: writer_ok_defs clear_timeout_def)

lemma writer_ok_set_timeout: "writer_ok w \<Longrightarrow> writer_ok (snd (set_timeout k w))"
  by (fastforce simp: writer_ok_defs set_timeout_def intro!: jsmap_ok_append)

lemma writer_ok_clear_task_timer: "writer_ok w \<Longrightarrow> writer_ok (clear_task_timer k w)"
  by (simp add: clear_task_timer_def writer_ok_clear_timeout split: option.split)

text \<open>Replacing a pending task by one with the same promise.\<close>

lemma writer_ok_same_promise:
  assumes "writer_ok w" "js_get (pendingTasks w) k = Some t" "resolveLatestTask t' = resolveLatestTask t"
  shows "writer_ok (w\<lparr>pendingTasks := js_set (pendingTasks w) k t'\<rparr>)"
  using assms by (clarsimp simp: writer_ok_defs mset_js_set mset_js_get [of "pendingTasks w" k t])

lemma writer_ok_rearm: "writer_ok w \<Longrightarrow> writer_ok (rearm k w)"
proof (cases "js_get (pendingTasks w) k")
  case (Some task)
  assume ok: "writer_ok w"
  let ?w = "snd (set_timeout k w)"
  have "js_get (pendingTasks ?w) k = Some task" using Some by (simp add: set_timeout_def)
  from writer_ok_same_promise [OF writer_ok_set_timeout [OF ok] this, of "task\<lparr>timer := fst (set_timeout k w)\<rparr>"]
  show ?thesis using Some by (simp add: rearm_def split_beta)
qed (simp add: rearm_def)

lemma writer_ok_cancel: "writer_ok w \<Longrightarrow> writer_ok (cancel_pending k w)"
  by (auto simp: cancel_pending_def Let_def writer_ok_defs clear_timeout_def resolve_def
      mset_js_get [of "pendingTasks w" k] dest: in_js_delete split: option.split)

lemma writer_ok_write: "writer_ok w \<Longrightarrow> writer_ok (write_task i k task ms w)"
proof (cases "js_get (pendingTasks w) k")
  case None
  assume "writer_ok w"
  then show ?thesis using None
    by (fastforce simp: write_task_def Let_def set_timeout_def writer_ok_defs mset_js_set js_delete_absent
        mset_set_Suc intro!: jsmap_ok_append)
next
  case (Some t)
  assume "writer_ok w"
  then show ?thesis using Some
    by (clarsimp simp: write_task_def Let_def resolve_def writer_ok_defs mset_js_set mset_set_Suc
        mset_js_get [of "pendingTasks w" k t])
qed

lemma writer_ok_processTask: "writer_ok w \<Longrightarrow> writer_ok (snd (processTask i k force w))"
proof (cases "js_get (pendingTasks w) k")
  case (Some t)
  assume "writer_ok w"
  then have "writer_ok (w\<lparr>pendingTasks := js_delete (pendingTasks w) k, contents := c,
      inFlight := inFlight w @ [(nextExecution w, \<lparr>ex_promise = resolveLatestTask t, ex_state = Running prog\<rparr>)],
      nextExecution := Suc (nextExecution w)\<rparr>)" for c prog
    using Some by (clarsimp simp: writer_ok_defs mset_js_get [of "pendingTasks w" k t])
      (auto intro!: jsmap_ok_append)
  with Some \<open>writer_ok w\<close> show ?thesis by (simp add: processTask_def split_beta Let_def)
qed (simp add: processTask_def)

lemma writer_ok_fire: "writer_ok w \<Longrightarrow> fire i t w = Some w' \<Longrightarrow> writer_ok w'"
  by (auto simp: fire_def intro!: writer_ok_processTask writer_ok_clear_timeout)

lemma writer_ok_execution:
  assumes "writer_ok w" "js_get (inFlight w) e = Some x"
    and "ex_promise x' = ex_promise x" "ex_state x \<noteq> Settled"
  shows "ex_state x' \<noteq> Settled \<Longrightarrow> writer_ok (w\<lparr>contents := c, inFlight := js_set (inFlight w) e x'\<rparr>)"
    and "ex_state x' = Settled \<Longrightarrow>
      writer_ok (w\<lparr>inFlight := js_set (inFlight w) e x', resolved := resolved w @ [(ex_promise x, ok)]\<rparr>)"
  using assms keys_get_Some [OF assms(2)]
  by (clarsimp simp: writer_ok_defs mset_js_set mset_js_get [of "inFlight w" e x]; auto)+

lemma writer_ok_reply: "writer_ok w \<Longrightarrow> reply i e r w = Some w' \<Longrightarrow> writer_ok w'"
  by (auto simp: reply_def split_beta Let_def intro!: writer_ok_execution(1)
      split: option.splits ExecutionState.splits sw_prog.splits)

lemma writer_ok_complete: "writer_ok w \<Longrightarrow> complete e w = Some w' \<Longrightarrow> writer_ok w'"
  by (auto simp: complete_def resolve_def intro!: writer_ok_execution(2) split: option.splits if_splits)

lemma writer_ok_reap: "writer_ok w \<Longrightarrow> reap e w = Some w' \<Longrightarrow> writer_ok w'"
  by (clarsimp simp: reap_def writer_ok_defs mset_js_get [of "inFlight w" e] split: option.splits if_splits)
    (fastforce dest: in_js_delete)

lemma writer_ok_frames:
  assumes "writer_ok w" "f < nextFrame w"
  shows "writer_ok (w\<lparr>frames := js_set (frames w) f x\<rparr>)" "writer_ok (w\<lparr>frames := js_delete (frames w) f\<rparr>)"
  using assms by (auto simp: writer_ok_defs dest: in_js_delete)

lemma writer_ok_await: "writer_ok w \<Longrightarrow> f < nextFrame w \<Longrightarrow> writer_ok (await_in_flight f w)"
  by (simp add: await_in_flight_def writer_ok_frames)

lemma processTask_nextFrame [simp]: "nextFrame (snd (processTask i k force w)) = nextFrame w"
  by (simp add: processTask_def split_beta Let_def split: option.split)

lemma clear_task_timer_nextFrame [simp]: "nextFrame (clear_task_timer k w) = nextFrame w"
  by (simp add: clear_task_timer_def clear_timeout_def split: option.split)

lemma writer_ok_paused: "writer_ok w \<Longrightarrow> writer_ok (w\<lparr>paused := b\<rparr>)"
  and writer_ok_pausedNotebooks: "writer_ok w \<Longrightarrow> writer_ok (w\<lparr>pausedNotebooks := ns\<rparr>)"
  by (simp_all add: writer_ok_defs)

lemma writer_ok_flush_loop: "writer_ok w \<Longrightarrow> f < nextFrame w \<Longrightarrow> writer_ok (flush_loop i f b ks w)"
  by (cases ks) (auto simp: flush_loop_def split_beta Let_def
      intro!: writer_ok_await writer_ok_paused writer_ok_frames(1) writer_ok_processTask writer_ok_clear_task_timer)

lemma writer_ok_new_frame: "writer_ok w \<Longrightarrow> writer_ok (w\<lparr>paused := b, nextFrame := nextFrame w + 1\<rparr>)"
  "writer_ok w \<Longrightarrow> writer_ok (w\<lparr>nextFrame := nextFrame w + 1\<rparr>)"
  by (auto simp: writer_ok_defs)

lemma frame_number: "writer_ok w \<Longrightarrow> js_get (frames w) f = Some x \<Longrightarrow> f < nextFrame w"
  by (auto simp: writer_ok_def maps_ok_def dest!: keys_get_Some)

lemma writer_ok_continue: "writer_ok w \<Longrightarrow> continue_frame i f w = Some w' \<Longrightarrow> writer_ok w'"
  by (auto simp: continue_frame_def frame_number intro!: writer_ok_flush_loop writer_ok_await
      split: option.splits Frame.splits if_splits)

lemma writer_ok_fold: "writer_ok w \<Longrightarrow> (\<And>k w. writer_ok w \<Longrightarrow> writer_ok (f k w)) \<Longrightarrow> writer_ok (fold f ks w)"
  by (induction ks arbitrary: w) auto

lemma writer_ok_step: "writer_ok w \<Longrightarrow> writer_step i e w = Some w' \<Longrightarrow> writer_ok w'"
proof (cases e)
  case Flush
  assume "writer_ok w" "writer_step i e w = Some w'"
  then show ?thesis using Flush writer_ok_new_frame(1) [of w False]
    by (auto simp: flush_def intro!: writer_ok_flush_loop)
next
  case Settle
  assume "writer_ok w" "writer_step i e w = Some w'"
  then show ?thesis using Settle writer_ok_new_frame(2) [of w]
    by (auto simp: settle_def intro!: writer_ok_await)
qed (auto simp: pause_def resume_def pauseNotebook_def resumeNotebook_def cancelPendingWritesForNotebook_def Let_def
    writer_ok_write writer_ok_paused writer_ok_pausedNotebooks
    dest: writer_ok_fire writer_ok_reply writer_ok_complete writer_ok_reap writer_ok_continue
    intro!: writer_ok_fold writer_ok_clear_task_timer writer_ok_rearm writer_ok_cancel)

lemma writer_reachable_ok: "writer_reachable w \<Longrightarrow> writer_ok w"
  by (induction rule: writer_reachable.induct) (auto intro: writer_ok_new writer_ok_step)

declare js_get_set [simp] js_get_delete [simp]

section \<open>Timers\<close>

text \<open>The timer of a pending task, if it is still live, belongs to the key of the task.\<close>

definition timers_ok :: "StorageWriter \<Rightarrow> bool" where
  "timers_ok w \<longleftrightarrow> (\<forall>k t. js_get (pendingTasks w) k = Some t \<longrightarrow>
     timer t < nextTimer w \<and> (\<forall>k'. js_get (timers w) (timer t) = Some k' \<longrightarrow> k' = k))"

definition has_timer :: "StorageWriter \<Rightarrow> string \<Rightarrow> bool" where
  "has_timer w k \<longleftrightarrow> (\<exists>t. js_get (timers w) t = Some k)"

definition flushing :: "StorageWriter \<Rightarrow> bool" where
  "flushing w \<longleftrightarrow> (\<exists>f b ks e. js_get (frames w) f = Some (Flushing b ks e))"

definition awaits_flush :: "StorageWriter \<Rightarrow> string \<Rightarrow> bool" where
  "awaits_flush w k \<longleftrightarrow> (\<exists>f b ks e. js_get (frames w) f = Some (Flushing b ks e) \<and> k \<in> set ks)"

definition blocked :: "StorageWriter \<Rightarrow> string \<Rightarrow> bool" where
  "blocked w k \<longleftrightarrow> paused w \<or> held_by_notebook w k"

definition scheduled :: "StorageWriter \<Rightarrow> string \<Rightarrow> bool" where
  "scheduled w k \<longleftrightarrow> blocked w k \<or> has_timer w k \<or> awaits_flush w k"

definition all_scheduled :: "StorageWriter \<Rightarrow> bool" where
  "all_scheduled w \<longleftrightarrow> (\<forall>k. js_has (pendingTasks w) k \<longrightarrow> scheduled w k)"

text \<open>At most one flush is in its loop over the keys, and then the writer is not paused.\<close>

definition one_flush :: "StorageWriter \<Rightarrow> bool" where
  "one_flush w \<longleftrightarrow> (\<forall>f b ks e. js_get (frames w) f = Some (Flushing b ks e) \<longrightarrow>
     \<not> paused w \<and> (\<forall>f' b' ks' e'. js_get (frames w) f' = Some (Flushing b' ks' e') \<longrightarrow> f' = f))"

definition live_ok :: "StorageWriter \<Rightarrow> bool" where
  "live_ok w \<longleftrightarrow> writer_ok w \<and> timers_ok w \<and> one_flush w \<and> all_scheduled w"

lemmas scheduled_defs = scheduled_def blocked_def has_timer_def awaits_flush_def held_by_notebook_def

text \<open>What an operation may do to the timers without disturbing the others: it keeps the pending keys, the
  pauses and the frames, and may drop the timers of one key.\<close>

definition same_but_timers :: "StorageWriter \<Rightarrow> StorageWriter \<Rightarrow> bool" where
  "same_but_timers w w' \<longleftrightarrow> paused w' = paused w \<and> pausedNotebooks w' = pausedNotebooks w \<and> frames w' = frames w \<and>
     (\<forall>k. js_has (pendingTasks w') k = js_has (pendingTasks w) k)"

lemma same_but_timers_trans: "same_but_timers a b \<Longrightarrow> same_but_timers b c \<Longrightarrow> same_but_timers a c"
  by (simp add: same_but_timers_def)

lemma same_but_timers_refl [simp]: "same_but_timers a a"
  by (simp add: same_but_timers_def)

lemma timer_number: "writer_ok w \<Longrightarrow> js_get (timers w) t = Some k \<Longrightarrow> t < nextTimer w"
  by (auto simp: writer_ok_def maps_ok_def dest!: keys_get_Some)

lemma timers_ok_clear: "timers_ok w \<Longrightarrow> timers_ok (clear_timeout t w)"
  by (auto simp: timers_ok_def clear_timeout_def js_get_delete)

lemma timers_ok_clear_task_timer: "timers_ok w \<Longrightarrow> timers_ok (clear_task_timer k w)"
  by (simp add: clear_task_timer_def timers_ok_clear split: option.split)

lemma clear_task_timer_keeps:
  "timers_ok w \<Longrightarrow> k' \<noteq> k \<Longrightarrow> has_timer w k' \<Longrightarrow> has_timer (clear_task_timer k w) k'"
  unfolding has_timer_def
proof (elim exE)
  fix t assume "timers_ok w" "k' \<noteq> k" and t: "js_get (timers w) t = Some k'"
  then have "timer task \<noteq> t" if "js_get (pendingTasks w) k = Some task" for task
    using that by (auto simp: timers_ok_def)
  with t have "js_get (timers (clear_task_timer k w)) t = Some k'"
    by (cases "js_get (pendingTasks w) k") (auto simp: clear_task_timer_def clear_timeout_def)
  then show "\<exists>t. js_get (timers (clear_task_timer k w)) t = Some k'" ..
qed

lemma clear_task_timer_same: "same_but_timers w (clear_task_timer k w)"
  by (simp add: same_but_timers_def clear_task_timer_def clear_timeout_def split: option.split)

lemma js_get_append_new: "js_get m k = None \<Longrightarrow> js_get (m @ [(k, v)]) k' = (if k' = k then Some v else js_get m k')"
  by (auto simp: map_add_def split: option.split)

lemma next_timer_unused: "writer_ok w \<Longrightarrow> js_get (timers w) (nextTimer w) = None"
  by (auto simp: writer_ok_def maps_ok_def map_of_eq_None_iff)

lemma rearm_eq: "js_get (pendingTasks w) k = Some task \<Longrightarrow> rearm k w =
    w\<lparr>timers := timers w @ [(nextTimer w, k)], nextTimer := nextTimer w + 1,
      pendingTasks := js_set (pendingTasks w) k (task\<lparr>timer := nextTimer w\<rparr>)\<rparr>"
  by (simp add: rearm_def set_timeout_def)

lemma rearm_facts:
  assumes "writer_ok w" "timers_ok w"
  shows "timers_ok (rearm k w)" "same_but_timers w (rearm k w)" "has_timer w k' \<Longrightarrow> has_timer (rearm k w) k'"
    and "js_has (pendingTasks w) k \<Longrightarrow> has_timer (rearm k w) k"
proof -
  note get = js_get_append_new [OF next_timer_unused [OF assms(1)]]
  have old: "timer t \<noteq> nextTimer w" "timer t < Suc (nextTimer w)"
    if "js_get (pendingTasks w) k1 = Some t" for k1 t
  proof -
    have "timer t < nextTimer w" using assms(2) that by (simp add: timers_ok_def)
    then show "timer t \<noteq> nextTimer w" "timer t < Suc (nextTimer w)" by simp_all
  qed
  show "timers_ok (rearm k w)"
  proof (cases "js_get (pendingTasks w) k")
    case (Some task)
    show ?thesis unfolding timers_ok_def
    proof (intro allI impI)
      fix k1 t assume t: "js_get (pendingTasks (rearm k w)) k1 = Some t"
      show "timer t < nextTimer (rearm k w) \<and> (\<forall>k'. js_get (timers (rearm k w)) (timer t) = Some k' \<longrightarrow> k' = k1)"
      proof (cases "k1 = k")
        case True
        with t Some next_timer_unused [OF assms(1)] show ?thesis by (auto simp: rearm_eq js_get_set get)
      next
        case False
        with t Some have "js_get (pendingTasks w) k1 = Some t" by (simp add: rearm_eq js_get_set)
        with old [OF this] assms(2) Some show ?thesis
          by (auto simp: rearm_eq timers_ok_def map_add_def split: option.splits)
      qed
    qed
  qed (use assms(2) in \<open>simp add: rearm_def\<close>)
  show "same_but_timers w (rearm k w)"
    by (cases "js_get (pendingTasks w) k") (auto simp: rearm_eq same_but_timers_def rearm_def set_timeout_def js_get_set)
  show "has_timer (rearm k w) k'" if "has_timer w k'"
  proof (cases "js_get (pendingTasks w) k")
    case (Some task)
    from that obtain t where "js_get (timers w) t = Some k'" by (auto simp: has_timer_def)
    then have "js_get (timers (rearm k w)) t = Some k'"
      using Some timer_number [OF assms(1)] by (fastforce simp: rearm_eq get)
    then show ?thesis by (auto simp: has_timer_def)
  qed (use that in \<open>simp add: rearm_def\<close>)
  show "has_timer (rearm k w) k" if "js_has (pendingTasks w) k"
  proof -
    from that next_timer_unused [OF assms(1)] have "js_get (timers (rearm k w)) (nextTimer w) = Some k"
      by (auto simp: rearm_eq map_add_def)
    then show ?thesis by (auto simp: has_timer_def)
  qed
qed

lemma rearm_loop:
  assumes "writer_ok w" "timers_ok w" "\<And>k w. f k w = (if C (pausedNotebooks w) k then rearm k w else w)"
  shows "timers_ok (fold f ks w) \<and> same_but_timers w (fold f ks w) \<and> (\<forall>k. has_timer w k \<longrightarrow> has_timer (fold f ks w) k) \<and>
    (\<forall>k\<in>set ks. js_has (pendingTasks w) k \<longrightarrow> C (pausedNotebooks w) k \<longrightarrow> has_timer (fold f ks w) k)"
  using assms(1,2)
proof (induction ks arbitrary: w)
  case (Cons k ks)
  have w: "writer_ok (f k w)" "timers_ok (f k w)" "same_but_timers w (f k w)"
    "\<And>k'. has_timer w k' \<Longrightarrow> has_timer (f k w) k'"
    "js_has (pendingTasks w) k \<Longrightarrow> C (pausedNotebooks w) k \<Longrightarrow> has_timer (f k w) k"
    using Cons.prems rearm_facts [OF Cons.prems] by (auto simp: assms(3) writer_ok_rearm)
  then have same: "pausedNotebooks (f k w) = pausedNotebooks w" "\<And>k'. js_has (pendingTasks (f k w)) k' = js_has (pendingTasks w) k'"
    by (auto simp: same_but_timers_def)
  from Cons.IH [OF w(1,2)] w(3-5) same_but_timers_trans show ?case
    by (simp only: fold_simps(2) list.set same) blast
qed simp

lemma rearm_loop_all:
  assumes "writer_ok w" "timers_ok w" "\<And>k w. f k w = (if C (pausedNotebooks w) k then rearm k w else w)"
  shows "timers_ok (fold f (js_keys (pendingTasks w)) w)" "same_but_timers w (fold f (js_keys (pendingTasks w)) w)"
    and "has_timer w k \<Longrightarrow> has_timer (fold f (js_keys (pendingTasks w)) w) k"
    and "js_has (pendingTasks w) k \<Longrightarrow> C (pausedNotebooks w) k \<Longrightarrow> has_timer (fold f (js_keys (pendingTasks w)) w) k"
proof -
  note l = rearm_loop [OF assms, of "js_keys (pendingTasks w)"]
  from l show "timers_ok (fold f (js_keys (pendingTasks w)) w)" "same_but_timers w (fold f (js_keys (pendingTasks w)) w)"
    "has_timer w k \<Longrightarrow> has_timer (fold f (js_keys (pendingTasks w)) w) k" by blast+
  show "has_timer (fold f (js_keys (pendingTasks w)) w) k" if "js_has (pendingTasks w) k" "C (pausedNotebooks w) k"
    using l that js_has_iff [of "pendingTasks w" k] by blast
qed

lemma clear_loop:
  assumes "timers_ok w"
  shows "timers_ok (fold (\<lambda>k w. if P k then clear_task_timer k w else w) ks w) \<and>
    same_but_timers w (fold (\<lambda>k w. if P k then clear_task_timer k w else w) ks w) \<and>
    (\<forall>k. \<not> P k \<longrightarrow> has_timer w k \<longrightarrow> has_timer (fold (\<lambda>k w. if P k then clear_task_timer k w else w) ks w) k)"
  using assms
proof (induction ks arbitrary: w)
  case (Cons k ks)
  let ?w = "if P k then clear_task_timer k w else w"
  have w: "timers_ok ?w" "same_but_timers w ?w" "\<And>k'. \<not> P k' \<Longrightarrow> has_timer w k' \<Longrightarrow> has_timer ?w k'"
    using Cons.prems by (auto simp: timers_ok_clear_task_timer clear_task_timer_same)
      (metis clear_task_timer_keeps)
  from Cons.IH [OF w(1)] w(2,3) same_but_timers_trans show ?case
    by (simp only: fold_simps(2)) blast
qed simp

text \<open>The schedule only depends on what an operation may keep.\<close>

lemma same_blocked: "same_but_timers w w' \<Longrightarrow> blocked w' k = blocked w k"
  and same_awaits: "same_but_timers w w' \<Longrightarrow> awaits_flush w' k = awaits_flush w k"
  and same_one_flush: "same_but_timers w w' \<Longrightarrow> one_flush w' = one_flush w"
  by (simp_all add: same_but_timers_def scheduled_defs one_flush_def)

lemma live_ok_same:
  assumes "live_ok w" "same_but_timers w w'" "writer_ok w'" "timers_ok w'"
    and "\<And>k. js_has (pendingTasks w) k \<Longrightarrow> has_timer w k \<Longrightarrow> has_timer w' k \<or> blocked w k"
  shows "live_ok w'"
proof -
  have "scheduled w' k" if "js_has (pendingTasks w') k" for k
  proof -
    have "js_has (pendingTasks w) k" using that assms(2) by (simp add: same_but_timers_def)
    moreover from this have "scheduled w k" using assms(1) by (simp add: live_ok_def all_scheduled_def)
    ultimately show ?thesis
      using assms(5) [of k] by (auto simp: scheduled_def same_blocked [OF assms(2)] same_awaits [OF assms(2)])
  qed
  with assms show ?thesis by (simp add: live_ok_def all_scheduled_def same_one_flush [OF assms(2)])
qed

text \<open>The same for an operation that leaves the timers alone and may only remove pending tasks.\<close>

lemma live_ok_fewer:
  assumes "live_ok w" "writer_ok w'" "timers w' = timers w" "nextTimer w' = nextTimer w"
    "paused w' = paused w" "pausedNotebooks w' = pausedNotebooks w" "frames w' = frames w"
    "\<And>k t. js_get (pendingTasks w') k = Some t \<Longrightarrow> js_get (pendingTasks w) k = Some t"
  shows "live_ok w'"
proof -
  have t: "timers_ok w'" using assms(1,3,4,8) unfolding live_ok_def timers_ok_def by metis
  have "scheduled w' k" if h: "js_has (pendingTasks w') k" for k
  proof -
    have "js_has (pendingTasks w) k" using h assms(8) by fastforce
    then have "scheduled w k" using assms(1) by (simp add: live_ok_def all_scheduled_def)
    then show ?thesis using assms(3-7) by (simp add: scheduled_defs)
  qed
  with assms t show ?thesis by (simp add: live_ok_def all_scheduled_def one_flush_def)
qed

lemma live_ok_resume:
  assumes "live_ok w" "\<not> flushing w"
  shows "live_ok (resume w)"
proof (cases "paused w")
  case True
  let ?w = "w\<lparr>paused := False\<rparr>"
  let ?f = "\<lambda>k w. if held_by_notebook w k then w else rearm k w"
  let ?r = "fold ?f (js_keys (pendingTasks w)) ?w"
  have w: "writer_ok ?w" "timers_ok ?w"
    using assms(1) by (simp_all add: live_ok_def writer_ok_paused timers_ok_def)
  have f: "?f k v = (if \<not> list_ex (storageWriteKeyBelongsToNotebook k) (pausedNotebooks v) then rearm k v else v)" for k v
    by (simp add: held_by_notebook_def)
  note l = rearm_loop_all [OF w, of ?f "\<lambda>ns k. \<not> list_ex (storageWriteKeyBelongsToNotebook k) ns", OF f]
  have r: "timers_ok ?r" "same_but_timers ?w ?r"
    "\<And>k. js_has (pendingTasks w) k \<Longrightarrow> \<not> held_by_notebook ?w k \<Longrightarrow> has_timer ?r k"
    using l(1,2) l(4) by (simp_all add: held_by_notebook_def)
  have "writer_ok ?r" by (rule writer_ok_fold [OF w(1)]) (auto intro: writer_ok_rearm)
  moreover have "one_flush ?r" using assms(2) r(2) by (auto simp: one_flush_def flushing_def same_but_timers_def)
  moreover have "all_scheduled ?r" unfolding all_scheduled_def
  proof (intro allI impI)
    fix k assume "js_has (pendingTasks ?r) k"
    then have "js_has (pendingTasks w) k" using r(2) by (simp add: same_but_timers_def)
    with r(3) same_blocked [OF r(2), of k] show "scheduled ?r k" by (auto simp: scheduled_def blocked_def)
  qed
  ultimately show ?thesis using r(1) True by (simp add: live_ok_def resume_def)
qed (use assms in \<open>simp add: resume_def\<close>)

lemma live_ok_pause:
  assumes "live_ok w" "\<not> flushing w"
  shows "live_ok (pause w)"
proof -
  let ?w = "w\<lparr>paused := True\<rparr>" and ?p = "fold clear_task_timer (js_keys (pendingTasks w)) (w\<lparr>paused := True\<rparr>)"
  have "timers_ok ?w" using assms(1) by (simp add: live_ok_def timers_ok_def)
  from clear_loop [OF this, of "\<lambda>_. True" "js_keys (pendingTasks w)"]
  have p: "timers_ok ?p" "same_but_timers ?w ?p" by (simp_all del: fold_map)
  have "writer_ok ?p"
    by (rule writer_ok_fold) (use assms(1) in \<open>auto simp: live_ok_def intro: writer_ok_paused writer_ok_clear_task_timer\<close>)
  with p assms(2) show ?thesis
    by (auto simp: live_ok_def all_scheduled_def scheduled_def blocked_def one_flush_def flushing_def
        same_but_timers_def pause_def simp del: fold_map)
qed

lemma held_insert: "held_by_notebook w k \<Longrightarrow> held_by_notebook (w\<lparr>pausedNotebooks := List.insert n (pausedNotebooks w)\<rparr>) k"
  by (auto simp: held_by_notebook_def list_ex_iff)

lemma live_ok_pauseNotebook:
  assumes "live_ok w"
  shows "live_ok (pauseNotebook n w)"
proof -
  let ?w = "w\<lparr>pausedNotebooks := List.insert n (pausedNotebooks w)\<rparr>"
  let ?p = "fold (\<lambda>k w. if storageWriteKeyBelongsToNotebook k n then clear_task_timer k w else w) (js_keys (pendingTasks w)) ?w"
  have w: "timers_ok ?w" "writer_ok ?w" using assms by (simp_all add: live_ok_def timers_ok_def writer_ok_pausedNotebooks)
  note l = clear_loop [OF w(1), of "\<lambda>k. storageWriteKeyBelongsToNotebook k n" "js_keys (pendingTasks w)"]
  have live: "live_ok ?w"
    using assms w held_insert [of w] by (auto simp: live_ok_def all_scheduled_def scheduled_def blocked_def one_flush_def
        has_timer_def awaits_flush_def)
  have ok: "writer_ok ?p" by (rule writer_ok_fold [OF w(2)]) (simp add: writer_ok_clear_task_timer)
  have held: "blocked ?w k" if "storageWriteKeyBelongsToNotebook k n" for k
    using that by (auto simp: blocked_def held_by_notebook_def list_ex_iff)
  have "live_ok ?p" by (rule live_ok_same [OF live _ ok]) (use l held in blast)+
  then show ?thesis by (simp add: pauseNotebook_def del: fold_map)
qed

lemma live_ok_resumeNotebook:
  assumes "live_ok w"
  shows "live_ok (resumeNotebook n w)"
proof -
  let ?w = "w\<lparr>pausedNotebooks := removeAll n (pausedNotebooks w)\<rparr>"
  have w: "timers_ok ?w" "writer_ok ?w" using assms by (simp_all add: live_ok_def timers_ok_def writer_ok_pausedNotebooks)
  show ?thesis
  proof (cases "n \<in> set (pausedNotebooks w) \<and> \<not> paused w")
    case False
    then consider "n \<notin> set (pausedNotebooks w)" | "paused w" by blast
    then have "live_ok ?w"
    proof cases
      case 1
      then have "?w = w" by (simp add: removeAll_id)
      with assms show ?thesis by simp
    next
      case 2
      with assms w show ?thesis
        by (auto simp: live_ok_def all_scheduled_def scheduled_def blocked_def one_flush_def)
    qed
    with False show ?thesis by (auto simp: resumeNotebook_def Let_def)
  next
    case True
    let ?f = "\<lambda>k w. if storageWriteKeyBelongsToNotebook k n then rearm k w else w"
    let ?r = "fold ?f (js_keys (pendingTasks w)) ?w"
    note l = rearm_loop_all [OF w(2,1), of ?f "\<lambda>_ k. storageWriteKeyBelongsToNotebook k n", simplified]
    have "writer_ok ?r" by (rule writer_ok_fold [OF w(2)]) (simp add: writer_ok_rearm)
    moreover have "one_flush ?r" using assms same_one_flush [of ?w ?r] l(2)
      by (simp add: live_ok_def one_flush_def del: fold_map)
    moreover have "all_scheduled ?r" unfolding all_scheduled_def
    proof (intro allI impI)
      fix k assume k: "js_has (pendingTasks ?r) k"
      then have has: "js_has (pendingTasks w) k" using l(2) by (simp add: same_but_timers_def del: fold_map)
      show "scheduled ?r k"
      proof (cases "storageWriteKeyBelongsToNotebook k n")
        case True
        with l(4) [of k] has show ?thesis by (simp add: scheduled_def del: fold_map)
      next
        case False
        have "scheduled w k" using has assms by (simp add: live_ok_def all_scheduled_def)
        then have "scheduled ?w k" using False by (auto simp: scheduled_defs list_ex_iff)
        then show ?thesis using l(3) [of k] same_blocked [OF l(2)] same_awaits [OF l(2)]
          by (auto simp: scheduled_def simp del: fold_map)
      qed
    qed
    ultimately show ?thesis using True l(1) by (simp add: live_ok_def resumeNotebook_def del: fold_map)
  qed
qed

lemma cancel_eq: "js_get (pendingTasks w) k = Some task \<Longrightarrow> cancel_pending k w =
    w\<lparr>timers := js_delete (timers w) (timer task), pendingTasks := js_delete (pendingTasks w) k,
      resolved := resolved w @ [(resolveLatestTask task, False)]\<rparr>"
  by (simp add: cancel_pending_def Let_def clear_timeout_def resolve_def)

lemma live_ok_cancel:
  assumes "live_ok w"
  shows "live_ok (cancel_pending k w)"
proof (cases "js_get (pendingTasks w) k")
  case (Some task)
  let ?w = "cancel_pending k w"
  have "timers_ok ?w" using assms Some by (auto simp: live_ok_def timers_ok_def cancel_eq split: if_splits)
  moreover have "scheduled ?w k'" if h: "js_has (pendingTasks ?w) k'" for k'
  proof -
    have "js_has (pendingTasks w) k'" "k' \<noteq> k" using h Some by (auto simp: cancel_eq split: if_splits)
    then have "scheduled w k'" using assms by (simp add: live_ok_def all_scheduled_def)
    moreover have "has_timer ?w k'" if "has_timer w k'"
      using clear_task_timer_keeps [of w k' k] that \<open>k' \<noteq> k\<close> assms Some
      by (simp add: live_ok_def has_timer_def cancel_eq clear_task_timer_def clear_timeout_def)
    ultimately show ?thesis using Some by (auto simp: scheduled_def blocked_def held_by_notebook_def awaits_flush_def cancel_eq)
  qed
  moreover have "one_flush ?w" using assms Some by (simp add: live_ok_def one_flush_def cancel_eq)
  ultimately show ?thesis using assms by (simp add: live_ok_def all_scheduled_def writer_ok_cancel)
qed (use assms in \<open>simp add: cancel_pending_def\<close>)

lemma live_ok_fold: "live_ok w \<Longrightarrow> (\<And>k w. live_ok w \<Longrightarrow> live_ok (f k w)) \<Longrightarrow> live_ok (fold f ks w)"
  by (induction ks arbitrary: w) auto

lemma write_task_eq: "write_task i k task ms w = (case js_get (pendingTasks w) k of
    None \<Rightarrow> w\<lparr>writeKeyGenerations := js_set (writeKeyGenerations w) k (nextWriteGeneration w),
      nextWriteGeneration := nextWriteGeneration w + 1,
      timers := timers w @ [(nextTimer w, k)], nextTimer := nextTimer w + 1,
      pendingTasks := js_set (pendingTasks w) k \<lparr>latestTask = task, resolveLatestTask = nextPromise w,
        scheduledAt = in_clock i 0, debounceDurationMs = ms, timer = nextTimer w\<rparr>,
      nextPromise := nextPromise w + 1, contents := registerScheduledWrite i k (contents w)\<rparr>
  | Some prev \<Rightarrow> w\<lparr>writeKeyGenerations := js_set (writeKeyGenerations w) k (nextWriteGeneration w),
      nextWriteGeneration := nextWriteGeneration w + 1, resolved := resolved w @ [(resolveLatestTask prev, False)],
      pendingTasks := js_set (pendingTasks w) k \<lparr>latestTask = task, resolveLatestTask = nextPromise w,
        scheduledAt = scheduledAt prev, debounceDurationMs = debounceDurationMs prev, timer = timer prev\<rparr>,
      nextPromise := nextPromise w + 1, contents := registerScheduledWrite i k (contents w)\<rparr>)"
  by (simp add: write_task_def Let_def set_timeout_def resolve_def split: option.split)

lemma live_ok_write:
  assumes "live_ok w"
  shows "live_ok (write_task i k task ms w)"
proof -
  let ?w = "write_task i k task ms w"
  note fresh = next_timer_unused [OF assms [unfolded live_ok_def, THEN conjunct1]]
  have old: "timer t < nextTimer w" if "js_get (pendingTasks w) k1 = Some t" for k1 t
    using assms that by (simp add: live_ok_def timers_ok_def)
  have "timers_ok ?w" unfolding timers_ok_def
  proof (intro allI impI)
    fix k1 t assume t: "js_get (pendingTasks ?w) k1 = Some t"
    show "timer t < nextTimer ?w \<and> (\<forall>k'. js_get (timers ?w) (timer t) = Some k' \<longrightarrow> k' = k1)"
    proof (cases "k1 = k")
      case True
      have "timer t \<noteq> nextTimer w" if "js_get (pendingTasks w) k = Some t" for t using old [OF that] by simp
      with t fresh assms True show ?thesis
        by (auto simp: write_task_eq map_add_def live_ok_def timers_ok_def split: option.splits)
    next
      case False
      with t have t': "js_get (pendingTasks w) k1 = Some t" by (auto simp: write_task_eq split: option.splits)
      have "\<forall>k'. js_get (timers w) (timer t) = Some k' \<longrightarrow> k' = k1"
        using t' assms by (simp add: live_ok_def timers_ok_def)
      moreover have "timer t \<noteq> nextTimer w" "timer t < Suc (nextTimer w)" using old [OF t'] by simp_all
      ultimately show ?thesis using old [OF t'] by (auto simp: write_task_eq map_add_def split: option.splits)
    qed
  qed
  moreover have kept: "has_timer ?w k'" if "has_timer w k'" for k'
  proof -
    from that obtain t where "js_get (timers w) t = Some k'" by (auto simp: has_timer_def)
    then have "js_get (timers ?w) t = Some k'" by (auto simp: write_task_eq map_add_def split: option.splits)
    then show ?thesis by (auto simp: has_timer_def)
  qed
  have new: "has_timer ?w k" if "js_get (pendingTasks w) k = None"
  proof -
    from that fresh have "js_get (timers ?w) (nextTimer w) = Some k" by (simp add: write_task_eq map_add_def)
    then show ?thesis by (auto simp: has_timer_def)
  qed
  have same: "paused ?w = paused w" "pausedNotebooks ?w = pausedNotebooks w" "frames ?w = frames w"
    by (auto simp: write_task_eq split: option.split)
  have "scheduled ?w k'" if h: "js_has (pendingTasks ?w) k'" for k'
  proof (cases "js_has (pendingTasks w) k'")
    case True
    then have "scheduled w k'" using assms by (simp add: live_ok_def all_scheduled_def)
    then show ?thesis using kept [of k'] same
      by (auto simp: scheduled_def blocked_def held_by_notebook_def awaits_flush_def)
  next
    case False
    with h have "k' = k" by (auto simp: write_task_eq split: option.splits if_splits)
    with False new show ?thesis by (simp add: scheduled_def)
  qed
  moreover have "one_flush ?w" using assms same by (simp add: live_ok_def one_flush_def)
  ultimately show ?thesis using assms by (simp add: live_ok_def all_scheduled_def writer_ok_write)
qed

lemma processTask_kept [simp]:
  "timers (snd (processTask i k force w)) = timers w" "nextTimer (snd (processTask i k force w)) = nextTimer w"
  "paused (snd (processTask i k force w)) = paused w"
  "pausedNotebooks (snd (processTask i k force w)) = pausedNotebooks w"
  "frames (snd (processTask i k force w)) = frames w"
  by (simp_all add: processTask_def split_beta Let_def split: option.split)

lemma processTask_pending:
  "js_get (pendingTasks (snd (processTask i k force w))) k' =
    (if k' = k \<and> (force \<or> \<not> blocked w k) then None else js_get (pendingTasks w) k')"
  by (auto simp: processTask_def split_beta Let_def blocked_def split: option.split)

lemma live_ok_fire: "live_ok w \<Longrightarrow> fire i t w = Some w' \<Longrightarrow> live_ok w'"
proof -
  assume live: "live_ok w" and f: "fire i t w = Some w'"
  then obtain k where k: "js_get (timers w) t = Some k" and w': "w' = snd (processTask i k False (clear_timeout t w))"
    by (auto simp: fire_def)
  have timers: "timers_ok w'" using live unfolding w' timers_ok_def live_ok_def
    by (auto simp: processTask_pending clear_timeout_def split: if_splits)
  have "scheduled w' k'" if h: "js_has (pendingTasks w') k'" for k'
  proof -
    from h have "js_has (pendingTasks w) k'" by (auto simp: w' processTask_pending clear_timeout_def split: if_splits)
    then have s: "scheduled w k'" using live by (simp add: live_ok_def all_scheduled_def)
    show ?thesis
    proof (cases "k' = k")
      case True
      with h have "blocked w k" by (auto simp: w' processTask_pending clear_timeout_def blocked_def held_by_notebook_def split: if_splits)
      with True show ?thesis by (simp add: w' scheduled_def blocked_def held_by_notebook_def clear_timeout_def)
    next
      case False
      have "has_timer w' k'" if "has_timer w k'"
      proof -
        from that obtain u where u: "js_get (timers w) u = Some k'" by (auto simp: has_timer_def)
        with k False have "u \<noteq> t" by auto
        with u have "js_get (timers w') u = Some k'" by (simp add: w' clear_timeout_def)
        then show ?thesis by (auto simp: has_timer_def)
      qed
      with s show ?thesis by (auto simp: scheduled_def blocked_def held_by_notebook_def awaits_flush_def w' clear_timeout_def)
    qed
  qed
  moreover have "one_flush w'" using live by (simp add: live_ok_def one_flush_def w' clear_timeout_def)
  moreover have "writer_ok w'" by (rule writer_ok_fire [OF _ f]) (use live in \<open>simp add: live_ok_def\<close>)
  ultimately show ?thesis using timers by (simp add: live_ok_def all_scheduled_def)
qed

lemma live_ok_execution:
  "live_ok w \<Longrightarrow> reply i e r w = Some w' \<Longrightarrow> live_ok w'"
  "live_ok w \<Longrightarrow> complete e w = Some w' \<Longrightarrow> live_ok w'"
  "live_ok w \<Longrightarrow> reap e w = Some w' \<Longrightarrow> live_ok w'"
proof -
  have ok: "live_ok w \<Longrightarrow> writer_ok w" by (simp add: live_ok_def)
  show "live_ok w'" if "live_ok w" "reply i e r w = Some w'"
    by (rule live_ok_fewer [OF that(1) writer_ok_reply [OF ok [OF that(1)] that(2)]])
      (use that(2) in \<open>auto simp: reply_def split_beta Let_def split: option.splits ExecutionState.splits sw_prog.splits\<close>)
  show "live_ok w'" if "live_ok w" "complete e w = Some w'"
    by (rule live_ok_fewer [OF that(1) writer_ok_complete [OF ok [OF that(1)] that(2)]])
      (use that(2) in \<open>auto simp: complete_def resolve_def split: option.splits if_splits\<close>)
  show "live_ok w'" if "live_ok w" "reap e w = Some w'"
    by (rule live_ok_fewer [OF that(1) writer_ok_reap [OF ok [OF that(1)] that(2)]])
      (use that(2) in \<open>auto simp: reap_def split: option.splits if_splits\<close>)
qed

text \<open>The frames: a frame other than the flush in its loop does not matter.\<close>

lemma live_ok_await:
  assumes "live_ok w" "f < nextFrame w" "\<nexists>b ks e. js_get (frames w) f = Some (Flushing b ks e)"
  shows "live_ok (await_in_flight f w)"
proof -
  let ?w = "await_in_flight f w"
  have other: "js_get (frames ?w) g = Some (Flushing b ks e) \<longleftrightarrow> js_get (frames w) g = Some (Flushing b ks e)" for g b ks e
    using assms(3) by (cases "g = f") (auto simp: await_in_flight_def)
  have "timers ?w = timers w" "pendingTasks ?w = pendingTasks w" "nextTimer ?w = nextTimer w"
    "paused ?w = paused w" "pausedNotebooks ?w = pausedNotebooks w"
    by (simp_all add: await_in_flight_def)
  then show ?thesis using assms(1,2)
    by (simp add: live_ok_def timers_ok_def one_flush_def all_scheduled_def scheduled_defs other writer_ok_await)
qed

lemma live_ok_flush_loop:
  assumes w: "writer_ok w" "timers_ok w" "f < nextFrame w" "\<not> paused w"
    and other: "\<And>g b ks e. js_get (frames w) g = Some (Flushing b ks e) \<Longrightarrow> g = f"
    and pending: "\<And>k. js_has (pendingTasks w) k \<Longrightarrow> k \<in> set ks \<or> held_by_notebook w k \<or> has_timer w k"
  shows "live_ok (flush_loop i f b ks w)"
proof (cases ks)
  case Nil
  let ?w = "flush_loop i f b ks w"
  have "js_get (frames ?w) g \<noteq> Some (Flushing b' ks' e)" for g b' ks' e
    using Nil other by (cases "g = f") (auto simp: flush_loop_def await_in_flight_def)
  moreover have "timers ?w = timers w" "pendingTasks ?w = pendingTasks w" "nextTimer ?w = nextTimer w"
    "pausedNotebooks ?w = pausedNotebooks w"
    using Nil by (simp_all add: flush_loop_def await_in_flight_def)
  ultimately show ?thesis using w Nil pending
    by (fastforce simp: live_ok_def timers_ok_def one_flush_def all_scheduled_def scheduled_def blocked_def
        has_timer_def held_by_notebook_def writer_ok_flush_loop)
next
  case (Cons k rest)
  let ?c = "clear_task_timer k w" and ?w = "flush_loop i f b ks w"
  obtain e p where p: "processTask i k True ?c = (e, p)" by fastforce
  then have p': "p = snd (processTask i k True ?c)" by simp
  have eq: "?w = p\<lparr>frames := js_set (frames p) f (Flushing b rest e)\<rparr>" using Cons p by (simp add: flush_loop_def)
  have c: "timers_ok ?c" "same_but_timers w ?c" "pendingTasks ?c = pendingTasks w"
    using timers_ok_clear_task_timer [OF w(2)] clear_task_timer_same
    by (auto simp: clear_task_timer_def clear_timeout_def split: option.split)
  have fr: "js_get (frames ?w) g = (if g = f then Some (Flushing b rest e) else js_get (frames w) g)" for g
    using c(2) by (simp add: eq p' same_but_timers_def)
  have pend: "js_get (pendingTasks ?w) k' = (if k' = k then None else js_get (pendingTasks w) k')" for k'
    by (simp add: eq p' processTask_pending c(3))
  have "timers_ok ?w" using c(1) unfolding timers_ok_def by (simp add: pend) (simp add: eq p' c(3))
  moreover have "one_flush ?w" using other w(4) c(2)
    by (auto simp: one_flush_def fr eq p' same_but_timers_def)
  moreover have "scheduled ?w k'" if "js_has (pendingTasks ?w) k'" for k'
  proof -
    from that have "k' \<noteq> k" "js_has (pendingTasks w) k'" by (auto simp: pend split: if_splits)
    with pending [of k'] Cons consider "k' \<in> set rest" | "held_by_notebook w k'" | "has_timer w k'" by auto
    then show ?thesis
    proof cases
      case 1
      then have "awaits_flush ?w k'" using fr [of f] by (auto simp: awaits_flush_def)
      then show ?thesis by (simp add: scheduled_def)
    next
      case 2
      with c(2) show ?thesis by (simp add: scheduled_def blocked_def held_by_notebook_def eq p' same_but_timers_def)
    next
      case 3
      with clear_task_timer_keeps [OF w(2) \<open>k' \<noteq> k\<close>] show ?thesis by (simp add: scheduled_def has_timer_def eq p')
    qed
  qed
  ultimately show ?thesis using writer_ok_flush_loop [OF w(1,3), of i b ks] by (simp add: live_ok_def all_scheduled_def)
qed

section \<open>Disciplined use\<close>

text \<open>Nobody pauses, resumes or starts a flush while a flush is in its loop over the keys.\<close>

fun disciplined :: "StorageWriter \<Rightarrow> WriterEvent \<Rightarrow> bool" where
  "disciplined w Pause = (\<not> flushing w)"
| "disciplined w Resume = (\<not> flushing w)"
| "disciplined w Flush = (\<not> flushing w)"
| "disciplined w _ = True"

inductive disciplined_reachable :: "StorageWriter \<Rightarrow> bool" where
  start: "disciplined_reachable new_StorageWriter"
| step: "disciplined_reachable w \<Longrightarrow> disciplined w e \<Longrightarrow> writer_step i e w = Some w' \<Longrightarrow> disciplined_reachable w'"

lemma live_ok_new: "live_ok new_StorageWriter"
  using writer_ok_new
  by (simp add: live_ok_def timers_ok_def one_flush_def all_scheduled_def new_StorageWriter_def)

lemma live_ok_flush:
  assumes "live_ok w" "\<not> flushing w"
  shows "live_ok (flush i w)"
  unfolding flush_def
proof (rule live_ok_flush_loop)
  show "writer_ok (w\<lparr>paused := False, nextFrame := nextFrame w + 1\<rparr>)"
    using assms(1) writer_ok_new_frame(1) by (simp add: live_ok_def)
qed (use assms in \<open>auto simp: live_ok_def timers_ok_def flushing_def js_has_iff keys_get_Some\<close>)

lemma live_ok_settle:
  assumes "live_ok w"
  shows "live_ok (settle w)"
  unfolding settle_def
proof (rule live_ok_await)
  show "live_ok (w\<lparr>nextFrame := nextFrame w + 1\<rparr>)"
    using assms writer_ok_new_frame(2) by (simp add: live_ok_def timers_ok_def one_flush_def all_scheduled_def scheduled_defs)
  show "\<nexists>b ks e. js_get (frames (w\<lparr>nextFrame := nextFrame w + 1\<rparr>)) (nextFrame w) = Some (Flushing b ks e)"
    using assms frame_number [of w "nextFrame w"] by (auto simp: live_ok_def)
qed simp

lemma live_ok_continue:
  assumes "live_ok w" "continue_frame i f w = Some w'"
  shows "live_ok w'"
proof -
  have w: "writer_ok w" "timers_ok w" "one_flush w" "all_scheduled w" using assms(1) by (simp_all add: live_ok_def)
  from assms(2) consider b ks e where "js_get (frames w) f = Some (Flushing b ks e)" "w' = flush_loop i f b ks w"
    | es where "js_get (frames w) f = Some (Settling es)" "w' = await_in_flight f w"
    by (auto simp: continue_frame_def split: option.splits Frame.splits if_splits)
  then show ?thesis
  proof cases
    case 1
    then have np: "\<not> paused w" and only: "\<And>g b' ks' e'. js_get (frames w) g = Some (Flushing b' ks' e') \<Longrightarrow> g = f"
      using w(3) unfolding one_flush_def by blast+
    have "k \<in> set ks \<or> held_by_notebook w k \<or> has_timer w k" if "js_has (pendingTasks w) k" for k
    proof -
      have "scheduled w k" using w(4) that by (simp add: all_scheduled_def)
      then show ?thesis using 1(1) np only by (fastforce simp: scheduled_def blocked_def awaits_flush_def)
    qed
    with np only show ?thesis unfolding 1(2)
      by (intro live_ok_flush_loop [OF w(1,2) frame_number [OF w(1) 1(1)]])
  next
    case 2
    then show ?thesis using live_ok_await [OF assms(1) frame_number [OF w(1) 2(1)]] by simp
  qed
qed

lemma live_ok_step: "live_ok w \<Longrightarrow> disciplined w e \<Longrightarrow> writer_step i e w = Some w' \<Longrightarrow> live_ok w'"
  by (cases e) (auto simp: live_ok_write live_ok_pause live_ok_resume live_ok_pauseNotebook live_ok_resumeNotebook
      live_ok_flush live_ok_settle cancelPendingWritesForNotebook_def live_ok_cancel
      dest: live_ok_fire live_ok_execution live_ok_continue intro!: live_ok_fold)

lemma disciplined_live: "disciplined_reachable w \<Longrightarrow> live_ok w"
  by (induction rule: disciplined_reachable.induct) (auto intro: live_ok_new live_ok_step)

end
