(* ===== verification/Storage_Properties.thy ===== *)
theory Storage_Properties
  imports Storage_Invariants
begin

text \<open>The properties of the storage writer, with runs of the event loop as witnesses.\<close>

section \<open>Runs\<close>

fun run_events :: "sw_inputs \<Rightarrow> WriterEvent list \<Rightarrow> StorageWriter \<Rightarrow> StorageWriter option" where
  "run_events i [] w = Some w"
| "run_events i (e # es) w = (case writer_step i e w of None \<Rightarrow> None | Some w' \<Rightarrow> run_events i es w')"

fun disciplined_run :: "sw_inputs \<Rightarrow> WriterEvent list \<Rightarrow> StorageWriter \<Rightarrow> bool" where
  "disciplined_run i [] w = True"
| "disciplined_run i (e # es) w = (disciplined w e \<and>
    (case writer_step i e w of None \<Rightarrow> True | Some w' \<Rightarrow> disciplined_run i es w'))"

lemma run_reachable: "writer_reachable w \<Longrightarrow> run_events i es w = Some w' \<Longrightarrow> writer_reachable w'"
  by (induction es arbitrary: w) (auto split: option.splits intro: writer_reachable.step)

lemma run_disciplined:
  "disciplined_reachable w \<Longrightarrow> disciplined_run i es w \<Longrightarrow> run_events i es w = Some w' \<Longrightarrow> disciplined_reachable w'"
  by (induction es arbitrary: w) (auto split: option.splits intro: disciplined_reachable.step)

definition sample_inputs :: sw_inputs where
  "sample_inputs = \<lparr>in_clock = (\<lambda>_. 0), in_text = (\<lambda>_. None), in_params = (\<lambda>_. JObj []), in_native = False,
     in_update = immutable_update\<rparr>"

text \<open>A draft write, once it runs: save, reply, resolve, remove.\<close>

definition draft_task :: "string \<Rightarrow> string \<Rightarrow> WriterEvent" where
  "draft_task nid sql = Write (groupDraftWrites nid) (WRITE_SCRIPT_DRAFT nid sql) DEBOUNCE_DURATION_SCRIPT_WRITE"

definition finish_execution :: "nat \<Rightarrow> WriterEvent list" where
  "finish_execution e = [Reply e Resolved, Complete e, Reap e]"

lemmas run_defs = sample_inputs_def draft_task_def finish_execution_def new_StorageWriter_def write_task_def Let_def
  set_timeout_def resolve_def pause_def resume_def clear_task_timer_def rearm_def clear_timeout_def flush_def flush_loop_def
  processTask_def held_by_notebook_def fire_def reply_def complete_def reap_def continue_frame_def
  await_in_flight_def save_text_def timed_save_def awaiting_def task_end_def write_done_def

definition write_twice_run :: "WriterEvent list" where
  "write_twice_run = [draft_task ''n'' ''select 1'', draft_task ''n'' ''select 2'', Fire 0] @ finish_execution 0 @
     [draft_task ''n'' ''select 3'']"

definition pause_in_flush_run :: "WriterEvent list" where
  "pause_in_flush_run = [draft_task ''n'' ''select 1'', Flush, draft_task ''m'' ''select 2'', Pause] @
     finish_execution 0 @ [Continue 0]"

definition resume_in_flush_run :: "WriterEvent list" where
  "resume_in_flush_run = [Pause, draft_task ''n'' ''select 1'', Flush, Resume] @ finish_execution 0 @ [Continue 0]"

section \<open>Promises and liveness\<close>

text \<open>C6. Every promise that \<^verbatim>\<open>write\<close> handed out belongs to exactly one pending task, one running execution
  or one call of its resolver, in every state the writer reaches under any interleaving of calls, timers
  and backend replies: no promise is resolved twice, none is forgotten.\<close>

theorem write_promises_accounted:
  assumes "writer_reachable w"
  shows "count (resolved_promises w + pending_promises w + running_promises w) p = (if p < nextPromise w then 1 else 0)"
proof -
  have "promises_ok w" using writer_reachable_ok [OF assms] by (simp add: writer_ok_def)
  then show ?thesis by (simp add: promises_ok_def count_mset_set')
qed

theorem write_promises_accounted_witness:
  "\<exists>w. run_events sample_inputs write_twice_run new_StorageWriter = Some w \<and> resolved w = [(0, False), (1, True)] \<and>
    count (resolved_promises w + pending_promises w + running_promises w) 2 = 1"
proof -
  obtain w where w: "run_events sample_inputs write_twice_run new_StorageWriter = Some w"
    "resolved w = [(0, False), (1, True)]" "nextPromise w = 3"
    by (simp add: write_twice_run_def run_defs)
  with write_promises_accounted [OF run_reachable [OF writer_reachable.start w(1)], of 2] show ?thesis by simp
qed

text \<open>C15. No write is stranded while no flush is in progress: if pausing, resuming and flushing never happen inside the key
  loop of a flush, then in every state without a running flush a pending task that is not blocked by a pause has a live
  timer, and when that timer fires the task leaves the pending map and its latest version starts to execute, under the
  promise of the latest \<^verbatim>\<open>write\<close> call. During a flush nothing is said: there the task may wait for the loop of the flush
  instead of a timer.\<close>

theorem no_write_stranded:
  assumes "disciplined_reachable w" "js_get (pendingTasks w) k = Some task" "\<not> blocked w k" "\<not> flushing w"
  shows "\<exists>t w'. js_get (timers w) t = Some k \<and> writer_step i (Fire t) w = Some w' \<and> \<not> js_has (pendingTasks w') k \<and>
    js_get (inFlight w') (nextExecution w) = Some \<lparr>ex_promise = resolveLatestTask task,
      ex_state = Running (snd (executeTask (latestTask task) i (contents w)))\<rparr>"
proof -
  have live: "live_ok w" by (rule disciplined_live [OF assms(1)])
  then have "scheduled w k" using assms(2) by (simp add: live_ok_def all_scheduled_def)
  then obtain t where t: "js_get (timers w) t = Some k"
    using assms(3,4) by (auto simp: scheduled_def flushing_def awaits_flush_def has_timer_def)
  have new: "js_get (inFlight w) (nextExecution w) = None"
    using live by (auto simp: live_ok_def writer_ok_def maps_ok_def map_of_eq_None_iff)
  show ?thesis
    using t assms(2,3) new
    by (intro exI [of _ t]) (auto simp: fire_def processTask_def clear_timeout_def blocked_def held_by_notebook_def
        split_beta Let_def map_add_def)
qed

theorem no_write_stranded_witness:
  "\<exists>w t w'. run_events sample_inputs write_twice_run new_StorageWriter = Some w \<and>
    js_get (timers w) t = Some (groupDraftWrites ''n'') \<and> writer_step sample_inputs (Fire t) w = Some w' \<and>
    \<not> js_has (pendingTasks w') (groupDraftWrites ''n'')"
proof -
  obtain w task where w: "run_events sample_inputs write_twice_run new_StorageWriter = Some w"
    "js_get (pendingTasks w) (groupDraftWrites ''n'') = Some task" "\<not> blocked w (groupDraftWrites ''n'')" "\<not> flushing w"
    by (simp add: write_twice_run_def run_defs blocked_def flushing_def)
  have "disciplined_run sample_inputs write_twice_run new_StorageWriter"
    by (simp add: write_twice_run_def run_defs)
  from no_write_stranded [OF run_disciplined [OF disciplined_reachable.start this w(1)] w(2-4), of sample_inputs] w(1)
  show ?thesis by blast
qed

text \<open>One run shows that the condition on the key loop of a flush is needed: when \<^verbatim>\<open>pause()\<close> is called while a flush awaits a
  write, the end of the flush clears the pause again, and a task written meanwhile stays pending without a
  timer: the writer is not paused, holds no notebook, and no event of its own is left that could write it.\<close>

theorem pause_during_flush_strands:
  "\<exists>w. run_events sample_inputs pause_in_flush_run new_StorageWriter = Some w \<and>
    js_has (pendingTasks w) (groupDraftWrites ''m'') \<and> \<not> blocked w (groupDraftWrites ''m'') \<and>
    timers w = [] \<and> inFlight w = [] \<and> frames w = []"
  by (simp add: pause_in_flush_run_def run_defs blocked_def)

text \<open>A \<^verbatim>\<open>resume()\<close> during a flush that was started while paused has no effect: the flush puts the old
  pause back when it ends, although the resume came after the pause.\<close>

theorem resume_during_flush_lost:
  "\<exists>w. run_events sample_inputs resume_in_flush_run new_StorageWriter = Some w \<and> paused w \<and> frames w = []"
  by (simp add: resume_in_flush_run_def run_defs)

text \<open>A write to a key that is already pending replaces the task but keeps the schedule: the place in
  the pending map, the first date, the debounce time and the timer are those of the earlier write, whose
  promise is resolved with false; timers, executions and pauses are untouched.\<close>

theorem write_coalesces:
  assumes "js_get (pendingTasks w) k = Some prev" "w' = write_task i k task ms w"
  shows "js_get (pendingTasks w') k = Some (prev\<lparr>latestTask := task, resolveLatestTask := nextPromise w\<rparr>) \<and>
    js_keys (pendingTasks w') = js_keys (pendingTasks w) \<and> resolved w' = resolved w @ [(resolveLatestTask prev, False)] \<and>
    timers w' = timers w \<and> inFlight w' = inFlight w \<and> paused w' = paused w"
  using assms(1) keys_get_Some [OF assms(1)] by (cases prev) (simp add: assms(2) write_task_eq js_keys_set)

theorem write_coalesces_witness:
  "\<exists>w prev. run_events sample_inputs [draft_task ''n'' ''select 1''] new_StorageWriter = Some w \<and>
    js_get (pendingTasks w) (groupDraftWrites ''n'') = Some prev \<and>
    timers (write_task sample_inputs (groupDraftWrites ''n'') (WRITE_SCRIPT_DRAFT ''n'' ''x'') 5 w) = timers w"
proof -
  obtain w prev where w: "run_events sample_inputs [draft_task ''n'' ''select 1''] new_StorageWriter = Some w"
    "js_get (pendingTasks w) (groupDraftWrites ''n'') = Some prev"
    by (simp add: run_defs)
  with write_coalesces [OF w(2) refl] show ?thesis by blast
qed

section \<open>Generations and statistics\<close>

definition generations_ok :: "StorageWriter \<Rightarrow> bool" where
  "generations_ok w \<longleftrightarrow> jsmap_ok (writeKeyGenerations w) \<and>
    (\<forall>p\<in>set (writeKeyGenerations w). 0 < snd p \<and> snd p < nextWriteGeneration w) \<and> 0 < nextWriteGeneration w"

lemma generations_ok_write: "generations_ok w \<Longrightarrow> generations_ok (write_task i k task ms w)"
proof -
  assume ok: "generations_ok w"
  let ?g = "js_set (writeKeyGenerations w) k (nextWriteGeneration w)"
  have "list_all (\<lambda>p. 0 < snd p \<and> snd p < Suc (nextWriteGeneration w)) ?g"
    using ok by (intro list_all_js_set) (auto simp: generations_ok_def list_all_iff less_Suc_eq)
  then show ?thesis using ok by (auto simp: generations_ok_def write_task_eq list_all_iff split: option.split)
qed

definition same_generations :: "StorageWriter \<Rightarrow> StorageWriter \<Rightarrow> bool" where
  "same_generations w w' \<longleftrightarrow> writeKeyGenerations w' = writeKeyGenerations w \<and> nextWriteGeneration w' = nextWriteGeneration w"

lemma same_generations_fold: "(\<And>k w. same_generations w (f k w)) \<Longrightarrow> same_generations w (fold f ks w)"
proof (induction ks arbitrary: w)
  case (Cons k ks)
  from Cons.IH [OF Cons.prems, of "f k w"] Cons.prems [of w k] show ?case by (simp add: same_generations_def)
qed (simp add: same_generations_def)

lemma same_generations_if_fold:
  assumes "\<And>k w. same_generations w (f k w)"
  shows "same_generations w (fold (\<lambda>k w. if P k w then f k w else w) ks w)"
    and "same_generations w (fold (\<lambda>k w. if P k w then w else f k w) ks w)"
  by (rule same_generations_fold; use assms in \<open>simp add: same_generations_def\<close>)+

lemma same_generations_basic:
  "same_generations w (clear_task_timer k w)" "same_generations w (rearm k w)" "same_generations w (cancel_pending k w)"
  "same_generations w (snd (processTask i k force w))" "same_generations w (await_in_flight f w)"
  by (auto simp: same_generations_def clear_task_timer_def clear_timeout_def rearm_def set_timeout_def cancel_pending_def
      resolve_def Let_def processTask_def split_beta await_in_flight_def split: option.split)

lemma same_generations_flush_loop: "same_generations w (flush_loop i f b ks w)"
  using same_generations_basic(1) [of w] same_generations_basic(4) [of _ i _ True]
  by (auto simp: same_generations_def flush_loop_def await_in_flight_def split_beta Let_def split: list.split)

lemma same_generations_step:
  assumes "writer_step i e w = Some w'" "\<nexists>k task ms. e = Write k task ms"
  shows "same_generations w w'"
proof (cases e)
  case Pause
  then show ?thesis using assms same_generations_fold [where f = clear_task_timer and w = "w\<lparr>paused := True\<rparr>"] same_generations_basic(1)
    by (auto simp: pause_def same_generations_def simp del: fold_map)
next
  case Resume
  then show ?thesis
    using assms same_generations_if_fold(2) [where f = rearm and w = "w\<lparr>paused := False\<rparr>", OF same_generations_basic(2)]
    by (auto simp: resume_def same_generations_def simp del: fold_map)
next
  case (PauseNotebook n)
  then show ?thesis using assms same_generations_if_fold(1) [where f = clear_task_timer and
      w = "w\<lparr>pausedNotebooks := List.insert n (pausedNotebooks w)\<rparr>", OF same_generations_basic(1)]
    by (auto simp: pauseNotebook_def same_generations_def simp del: fold_map)
next
  case (ResumeNotebook n)
  then show ?thesis using assms same_generations_if_fold(1) [where f = rearm and
      w = "w\<lparr>pausedNotebooks := removeAll n (pausedNotebooks w)\<rparr>", OF same_generations_basic(2)]
    by (auto simp: resumeNotebook_def same_generations_def Let_def simp del: fold_map)
next
  case (CancelPending n P)
  then show ?thesis
    using assms same_generations_if_fold(1) [where f = cancel_pending, OF same_generations_basic(3)]
    by (auto simp: cancelPendingWritesForNotebook_def simp del: fold_map)
next
  case Flush
  then show ?thesis using assms same_generations_flush_loop [of "w\<lparr>paused := False, nextFrame := nextFrame w + 1\<rparr>"]
    by (auto simp: flush_def same_generations_def)
next
  case Settle
  then show ?thesis using assms same_generations_basic(5) [of "w\<lparr>nextFrame := nextFrame w + 1\<rparr>"]
    by (auto simp: settle_def same_generations_def)
next
  case (Fire t)
  then show ?thesis using assms same_generations_basic(4) [of "clear_timeout t w"]
    by (auto simp: fire_def same_generations_def clear_timeout_def)
next
  case (Continue f)
  then show ?thesis using assms same_generations_flush_loop same_generations_basic(5)
    by (auto simp: continue_frame_def split: option.splits Frame.splits if_splits)
qed (use assms in \<open>auto simp: reply_def complete_def reap_def resolve_def split_beta Let_def same_generations_def
    split: option.splits ExecutionState.splits sw_prog.splits if_splits\<close>)

lemma generations_reachable: "writer_reachable w \<Longrightarrow> generations_ok w"
proof (induction rule: writer_reachable.induct)
  case start
  then show ?case by (simp add: generations_ok_def new_StorageWriter_def)
next
  case (step w i e w')
  show ?case
  proof (cases "\<exists>k task ms. e = Write k task ms")
    case True
    with step show ?thesis by (auto simp: generations_ok_write)
  next
    case False
    with same_generations_step [OF step.hyps(2)] step.IH show ?thesis
      by (auto simp: same_generations_def generations_ok_def)
  qed
qed

lemma Max_insert2: "finite S \<Longrightarrow> Max (insert a (insert b S)) = Max (insert (max a b) S)" for a b :: nat
  by (cases "S = {}") (auto simp: max.assoc)

lemma generation_max:
  "getNotebookWriteGeneration n P w =
    Max (insert 0 (snd ` {p \<in> set (writeKeyGenerations w). storageWriteKeyBelongsToNotebook (fst p) n \<and> P (fst p)}))"
proof -
  have "fold (\<lambda>(k, v) g. if Q k then max g v else g) m a = Max (insert a (snd ` {p \<in> set m. Q (fst p)}))"
    for Q m and a :: nat
  proof (induction m arbitrary: a)
    case (Cons p m)
    have f: "finite (snd ` {q \<in> set m. Q (fst q)})" by simp
    show ?case
    proof (cases "Q (fst p)")
      case True
      then have "{q \<in> set (p # m). Q (fst q)} = insert p {q \<in> set m. Q (fst q)}" by auto
      then have "snd ` {q \<in> set (p # m). Q (fst q)} = insert (snd p) (snd ` {q \<in> set m. Q (fst q)})" by simp
      with True Max_insert2 [OF f, of a "snd p"] Cons [of "max a (snd p)"] show ?thesis
        by (simp only: fold_simps split_beta if_True max.commute) 
    next
      case False
      then have "{q \<in> set (p # m). Q (fst q)} = {q \<in> set m. Q (fst q)}" by auto
      with False Cons [of a] show ?thesis by (simp add: split_beta)
    qed
  qed simp
  from this [of "\<lambda>k. storageWriteKeyBelongsToNotebook k n \<and> P k"] show ?thesis
    unfolding getNotebookWriteGeneration_def .
qed

lemma generation_write:
  assumes "generations_ok w"
  shows "writeKeyGenerations (write_task i k task ms w) = js_set (writeKeyGenerations w) k (nextWriteGeneration w)"
  by (simp add: write_task_eq split: option.split)

lemma set_js_set: "jsmap_ok m \<Longrightarrow> set (js_set m k v) = insert (k, v) {p \<in> set m. fst p \<noteq> k}"
  by (induction m) (force simp: jsmap_ok_def)+

text \<open>The write generation of a notebook rises with every write below the notebook, above every
  generation seen before, and with no write of another notebook: an unchanged generation means that
  nothing was written since it was read.\<close>

theorem write_generation:
  assumes "writer_reachable w"
  shows "getNotebookWriteGeneration n P (write_task i k task ms w) =
      (if storageWriteKeyBelongsToNotebook k n \<and> P k then nextWriteGeneration w else getNotebookWriteGeneration n P w) \<and>
    getNotebookWriteGeneration n P w < nextWriteGeneration w"
proof -
  have ok: "generations_ok w" by (rule generations_reachable [OF assms])
  define Q where "Q k \<longleftrightarrow> storageWriteKeyBelongsToNotebook k n \<and> P k" for k
  let ?G = "\<lambda>m. snd ` {p \<in> set m. Q (fst p)}" and ?g = "writeKeyGenerations w" and ?n = "nextWriteGeneration w"
  note max = generation_max [of n P, folded Q_def]
  have bound: "Max (insert 0 (?G ?g)) < ?n" using ok by (subst Max_less_iff) (auto simp: generations_ok_def)
  have set: "set (js_set ?g k ?n) = insert (k, ?n) {p \<in> set ?g. fst p \<noteq> k}"
    using ok by (simp add: generations_ok_def set_js_set)
  have "Max (insert 0 (?G (js_set ?g k ?n))) = (if Q k then ?n else Max (insert 0 (?G ?g)))"
  proof (cases "Q k")
    case True
    have "Max (insert 0 (?G (js_set ?g k ?n))) = ?n"
      by (rule Max_eqI) (use True ok in \<open>auto simp: set generations_ok_def image_iff intro: less_imp_le\<close>)
    with True show ?thesis by simp
  next
    case False
    then have "?G (js_set ?g k ?n) = ?G ?g" by (auto simp: set)
    with False show ?thesis by simp
  qed
  then show ?thesis using bound by (simp add: max generation_write [OF ok] Q_def [symmetric])
qed

theorem write_generation_witness:
  "getNotebookWriteGeneration ''n'' (\<lambda>_. True)
    (write_task sample_inputs (groupDraftWrites ''n'') (WRITE_SCRIPT_DRAFT ''n'' ''x'') 5 new_StorageWriter) = 1"
proof -
  have "storageWriteKeyBelongsToNotebook (groupDraftWrites ''n'') ''n''"
    by (simp add: groupDraftWrites_def storageWriteKeyBelongsToNotebook_def)
  with write_generation [OF writer_reachable.start, of "''n''" "\<lambda>_. True" sample_inputs "groupDraftWrites ''n''"
      "WRITE_SCRIPT_DRAFT ''n'' ''x''" 5]
  show ?thesis by (simp add: new_StorageWriter_def del: One_nat_def)
qed

text \<open>Statistics count twice: the first scheduled write of a key counts as two, and the first completed
  write of a path counts as two writes of twice the size and twice the time, because the default of
  \<^verbatim>\<open>Map.update\<close> already counts the write and the updater is applied to the default.\<close>

theorem statistics_count_twice:
  assumes "update_documented (in_update i)" "js_get (statistics c) k = None"
  shows "js_get (statistics (registerScheduledWrite i k c)) k =
      Some \<lparr>totalScheduledWrites = 2, totalWrites = 0, totalWrittenBytes = 0, totalWriteTime = 0, lastWrite = None\<rparr> \<and>
    js_get (statistics (registerWrite i k bytes time c)) k =
      Some \<lparr>totalScheduledWrites = 1, totalWrites = 2, totalWrittenBytes = 2 * bytes, totalWriteTime = 2 * time,
        lastWrite = Some (in_clock i 2)\<rparr>"
  using assms by (simp add: registerScheduledWrite_def registerWrite_def update_documented_def)

theorem statistics_count_twice_witness:
  "js_get (statistics (registerWrite sample_inputs ''n/a'' 10 3 (contents new_StorageWriter))) ''n/a'' =
    Some \<lparr>totalScheduledWrites = 1, totalWrites = 2, totalWrittenBytes = 20, totalWriteTime = 6, lastWrite = Some 0\<rparr>"
  using statistics_count_twice [of sample_inputs "contents new_StorageWriter" "''n/a''" 10 3]
  by (simp add: sample_inputs_def new_StorageWriter_def)

section \<open>The manifest\<close>

lemma roundtrip_members_keys: "map fst (roundtrip_members ms) = map fst (filter (\<lambda>p. snd p \<noteq> JUndefined) ms)"
  by (induction ms) auto

lemma json_ok_roundtrip:
  "json_ok v \<Longrightarrow> json_ok (json_roundtrip v)"
  "distinct (map fst ms) \<Longrightarrow> list_all (\<lambda>(k, v). json_ok v) ms \<Longrightarrow>
    distinct (map fst (roundtrip_members ms)) \<and> list_all (\<lambda>(k, v). json_ok v) (roundtrip_members ms)"
  by (induction v and ms rule: json_roundtrip_roundtrip_members.induct)
    (auto simp: list_all_iff roundtrip_members_keys)

lemma jsonDeepEqual_refl: "json_ok v \<Longrightarrow> jsonDeepEqual v v"
  by (simp add: jsonDeepEqual_canonical)

lemma metadata_deep_equal:
  "jsonDeepEqual (json_roundtrip (metadata_json (Some m))) (json_roundtrip (metadata_json (Some m'))) \<longleftrightarrow> m = m'"
  by (cases m; cases m')
    (auto simp: metadata_json_def json_option_def split: option.split)

text \<open>C38. Two manifests are equal for the writer exactly when name and id and the metadata agree and the parameters agree as they
  would be persisted, up to the order of the members at any depth: a member that is undefined counts as absent, and nothing else
  of the manifest is compared. The parameters of both are JSON values without repeated members, and not undefined.\<close>

theorem manifest_equality:
  assumes "json_ok (nb_connectionParams a)" "json_ok (nb_connectionParams b)"
    "nb_connectionParams a \<noteq> JUndefined" "nb_connectionParams b \<noteq> JUndefined"
  shows "notebookManifestEquals a b \<longleftrightarrow> nb_notebookId a = nb_notebookId b \<and> nb_name a = nb_name b \<and>
    canonical (json_roundtrip (nb_connectionParams a)) = canonical (json_roundtrip (nb_connectionParams b)) \<and>
    nb_metadata a = nb_metadata b"
proof -
  have params: "jsonDeepEqual (json_roundtrip (nb_connectionParams a)) (json_roundtrip (nb_connectionParams b)) \<longleftrightarrow>
      canonical (json_roundtrip (nb_connectionParams a)) = canonical (json_roundtrip (nb_connectionParams b))"
    by (rule jsonDeepEqual_canonical) (use assms(1,2) json_ok_roundtrip(1) in auto)
  have some: "metadata_json (Some m) \<noteq> JUndefined" for m by (simp add: metadata_json_def)
  show ?thesis unfolding notebookManifestEquals_def manifest_project_def
    using assms(3,4) params
    by (cases "nb_name a"; cases "nb_name b"; cases "nb_metadata a"; cases "nb_metadata b")
      (simp_all add: json_option_def some metadata_deep_equal, simp_all add: metadata_json_def)
qed

definition sample_manifest :: "(string \<times> jsv) list \<Rightarrow> NotebookData" where
  "sample_manifest params = \<lparr>nb_notebookId = ''n'', nb_name = None, nb_connectionParams = JObj [(''trino'', JObj params)],
     nb_metadata = None\<rparr>"

theorem manifest_equality_witness:
  "notebookManifestEquals (sample_manifest [(''a'', JNum 1), (''b'', JUndefined), (''c'', JNull)])
     (sample_manifest [(''c'', JNull), (''a'', JNum 1)]) \<and>
   \<not> notebookManifestEquals (sample_manifest [(''a'', JNum 1)]) (sample_manifest [(''a'', JNum 2)])"
  using manifest_equality [of "sample_manifest [(''a'', JNum 1), (''b'', JUndefined), (''c'', JNull)]"
      "sample_manifest [(''c'', JNull), (''a'', JNum 1)]"]
    manifest_equality [of "sample_manifest [(''a'', JNum 1)]" "sample_manifest [(''a'', JNum 2)]"]
  by (simp add: sample_manifest_def less_char_def)

text \<open>Writing the manifest of a connection twice writes once: when the notebook on disk is the one the
  task saved before, with whatever creation date it was given, the task ends without a save.\<close>

theorem manifest_write_idempotent:
  assumes "params = in_params i (getConnectionParamsFromStateDetails (details conn))" "json_ok params" "params \<noteq> JUndefined"
  shows "\<exists>k. executeTask (WRITE_NOTEBOOK_MANIFEST nid conn) i c = (c, Call (LoadNotebook nid) k) \<and>
    k (Loaded (manifest_of_connection i0 conn params existing)) i' c' = (c', Done)"
proof -
  let ?d = "manifest_of_connection i0 conn params existing"
  have "manifest_of_connection i' conn params (Some ?d) = ?d"
    by (simp add: manifest_of_connection_def kept_createdAt_def)
  moreover have "json_ok (manifest_project ?d)"
    unfolding manifest_project_def
    by (rule json_ok_roundtrip(1)) (use assms(2) in \<open>auto simp: manifest_of_connection_def json_option_def metadata_json_def
        split: option.split\<close>)
  ultimately have "notebookManifestEquals ?d (manifest_of_connection i' conn params (Some ?d))"
    by (simp add: notebookManifestEquals_def jsonDeepEqual_refl)
  then show ?thesis
    by (simp add: write_manifest_task_def Let_def existing_notebook_def assms(1) [symmetric] task_end_def)
qed

theorem manifest_write_idempotent_witness:
  "\<forall>conn. \<exists>k. executeTask (WRITE_NOTEBOOK_MANIFEST ''n'' conn) sample_inputs (contents new_StorageWriter) =
      (contents new_StorageWriter, Call (LoadNotebook ''n'') k) \<and>
    k (Loaded (manifest_of_connection sample_inputs conn (JObj []) None)) sample_inputs (contents new_StorageWriter) =
      (contents new_StorageWriter, Done)"
  using manifest_write_idempotent [of "JObj []" sample_inputs] by (simp add: sample_inputs_def)

end
