(* ===== verification/Agent_Run.thy ===== *)
theory Agent_Run
  imports Connection_State
begin

text \<open>The observable state of an agent run and its reducer (\<^verbatim>\<open>agent/agent_run_state.ts\<close>), and the registry of
  the runs (\<^verbatim>\<open>reduceRegistry\<close> of \<^verbatim>\<open>agent/agent_run_provider.tsx\<close>). The texts of the timeline and of the errors
  the driver words itself contain characters outside Latin-1; a text is kept as its template and the
  values it is filled with.\<close>

datatype AgentIntent = INTENT_SQL | INTENT_VISUALIZE

datatype AgentRunPhase = IDLE | CLASSIFYING | GENERATING | VERIFYING | REPAIRING | APPLYING
  | SUCCEEDED | FAILED | CANCELLED

definition DEFAULT_MAX_ATTEMPTS :: nat where
  "DEFAULT_MAX_ATTEMPTS = 3"

definition agentRunIsDone :: "AgentRunPhase \<Rightarrow> bool" where
  "agentRunIsDone p \<longleftrightarrow> p = SUCCEEDED \<or> p = FAILED \<or> p = CANCELLED"

definition agentRunIsActive :: "AgentRunPhase \<Rightarrow> bool" where
  "agentRunIsActive p \<longleftrightarrow> p \<noteq> IDLE \<and> \<not> agentRunIsDone p"

text \<open>Errors of an attempt: a message of the parser, the analyzer or a thrown error, or a text of the
  driver and of \<^verbatim>\<open>diagnoseVegaLiteSpec\<close>. The last one is no text at all: the hints are looked up in an object
  literal, where \<^verbatim>\<open>constructor\<close> and \<^verbatim>\<open>__proto__\<close> are inherited members that are not strings.\<close>

datatype AgentError = ErrorText string | EmptyResult | NotAVisualization | MarkHint string | UnsupportedMark string
  | InheritedMember string

datatype AgentMessage =
    StartingRun
  | IntentOverridden AgentIntent
  | ClassifiedAs AgentIntent
  | AttemptVerifiedClean nat
  | AttemptHadErrors nat nat
  | RunCancelled
  | GeneratingArtifact AgentIntent nat nat
  | RepairingArtifact AgentIntent nat nat
  | VerifyingArtifact AgentIntent
  | GaveUpWithErrors AgentIntent nat "AgentError list"
  | GaveUp AgentIntent nat
  | ApplyingInPlace AgentIntent "string option"
  | AddingNewEntry AgentIntent
  | UpdatedInPlace AgentIntent "string option"
  | CreatedNewEntry AgentIntent
  | ThrownMessage string

record AgentStep =
  step_phase :: AgentRunPhase
  step_attempt :: nat
  step_message :: AgentMessage
  step_timestamp :: timestamp

record AgentRunState =
  runId :: nat
  ar_traceId :: nat
  phase :: AgentRunPhase
  intent :: AgentIntent
  intentOverride :: "AgentIntent option"
  prompt :: string
  contextScriptKey :: "nat option"
  attempt :: nat
  maxAttempts :: nat
  candidateText :: "string option"
  lastErrors :: "AgentError list"
  vegaLiteSpec :: "string option"
  timeline :: "AgentStep list"
  run_error :: "AgentMessage option"

record AgentStartPayload =
  sp_runId :: nat
  sp_traceId :: nat
  sp_prompt :: string
  sp_contextScriptKey :: "nat option"
  sp_intentOverride :: "AgentIntent option"
  sp_maxAttempts :: nat
  sp_timestamp :: timestamp

text \<open>The spec of an attempt result is optional: the outer option is the \<^verbatim>\<open>undefined\<close> the reducer tests for.\<close>

datatype AgentRunAction =
    AGENT_START AgentStartPayload
  | AGENT_SET_INTENT AgentIntent bool timestamp
  | AGENT_PHASE AgentRunPhase nat AgentMessage timestamp
  | AGENT_ATTEMPT_RESULT nat "string option" "string option option" "AgentError list" timestamp
  | AGENT_SUCCEEDED AgentMessage timestamp
  | AGENT_FAILED AgentMessage bool timestamp
  | AGENT_CANCELLED timestamp
  | AGENT_RESET

definition startState :: "AgentStartPayload \<Rightarrow> AgentRunState" where
  "startState p =
    \<lparr>runId = sp_runId p, ar_traceId = sp_traceId p, phase = CLASSIFYING,
     intent = (case sp_intentOverride p of None \<Rightarrow> INTENT_SQL | Some i \<Rightarrow> i),
     intentOverride = sp_intentOverride p, prompt = sp_prompt p, contextScriptKey = sp_contextScriptKey p,
     attempt = 0, maxAttempts = sp_maxAttempts p, candidateText = None, lastErrors = [], vegaLiteSpec = None,
     timeline = [\<lparr>step_phase = CLASSIFYING, step_attempt = 0, step_message = StartingRun,
       step_timestamp = sp_timestamp p\<rparr>], run_error = None\<rparr>"

definition appendStep :: "AgentRunPhase \<Rightarrow> nat \<Rightarrow> AgentMessage \<Rightarrow> timestamp \<Rightarrow> AgentRunState \<Rightarrow> AgentRunState" where
  "appendStep p a m t s = s\<lparr>timeline := timeline s @
     [\<lparr>step_phase = p, step_attempt = a, step_message = m, step_timestamp = t\<rparr>]\<rparr>"

fun reduce_started :: "AgentRunState \<Rightarrow> AgentRunAction \<Rightarrow> AgentRunState" where
  "reduce_started s (AGENT_SET_INTENT i override t) =
    appendStep (phase s) (attempt s) (if override then IntentOverridden i else ClassifiedAs i) t
      (s\<lparr>intent := i, intentOverride := (if override then Some i else intentOverride s)\<rparr>)"
| "reduce_started s (AGENT_PHASE p a m t) = appendStep p a m t (s\<lparr>phase := p, attempt := a\<rparr>)"
| "reduce_started s (AGENT_ATTEMPT_RESULT a cand spec errs t) =
    appendStep (phase s) a (if errs = [] then AttemptVerifiedClean a else AttemptHadErrors a (length errs)) t
      (s\<lparr>attempt := a, candidateText := cand,
         vegaLiteSpec := (case spec of Some v \<Rightarrow> v | None \<Rightarrow> vegaLiteSpec s), lastErrors := errs\<rparr>)"
| "reduce_started s (AGENT_SUCCEEDED m t) =
    appendStep SUCCEEDED (attempt s) m t (s\<lparr>phase := SUCCEEDED, run_error := None\<rparr>)"
| "reduce_started s (AGENT_FAILED m expected t) =
    appendStep FAILED (attempt s) m t (s\<lparr>phase := FAILED, run_error := Some m\<rparr>)"
| "reduce_started s (AGENT_CANCELLED t) =
    appendStep CANCELLED (attempt s) RunCancelled t (s\<lparr>phase := CANCELLED\<rparr>)"
| "reduce_started s _ = s"

fun reduceAgentRun :: "AgentRunState option \<Rightarrow> AgentRunAction \<Rightarrow> AgentRunState option" where
  "reduceAgentRun s (AGENT_START p) = Some (startState p)"
| "reduceAgentRun s AGENT_RESET = None"
| "reduceAgentRun s action = map_option (\<lambda>s. reduce_started s action) s"

section \<open>The registry\<close>

record RegistryState =
  runs :: "(nat, AgentRunState) jsmap"
  latestRunByNotebook :: "(string, nat) jsmap"

definition reduceRegistry :: "RegistryState \<Rightarrow> string \<Rightarrow> nat \<Rightarrow> AgentRunAction \<Rightarrow> RegistryState" where
  "reduceRegistry prev nid rid action =
    (let nextState = reduceAgentRun (js_get (runs prev) rid) action in
     \<lparr>runs = (case nextState of None \<Rightarrow> js_delete (runs prev) rid | Some s \<Rightarrow> js_set (runs prev) rid s),
      latestRunByNotebook = (if (\<exists>p. action = AGENT_START p) then js_set (latestRunByNotebook prev) nid rid
        else latestRunByNotebook prev)\<rparr>)"

definition latestRunForNotebook :: "RegistryState \<Rightarrow> string \<Rightarrow> AgentRunState option" where
  "latestRunForNotebook reg nid =
    Option.bind (js_get (latestRunByNotebook reg) nid) (js_get (runs reg))"

text \<open>\<^verbatim>\<open>cancel\<close>, and the abort of the previous run in \<^verbatim>\<open>run\<close>: the run whose controller is aborted, if any.\<close>

definition run_to_abort :: "RegistryState \<Rightarrow> string \<Rightarrow> nat option" where
  "run_to_abort reg nid =
    (case latestRunForNotebook reg nid of None \<Rightarrow> None
     | Some cur \<Rightarrow> if agentRunIsActive (phase cur) then Some (runId cur) else None)"

end
