(* ===== verification/Agent_Prompts.thy ===== *)
theory Agent_Prompts
  imports Agent_Run Json
begin

text \<open>Reading the answers of the model, \<^verbatim>\<open>agent/agent_prompts.ts\<close>: the intent of a classification, the SQL or
  the JSON object inside a completion, and the diagnosis of a Vega-Lite mark. The prompts themselves are
  fixed English texts; a prompt is kept as the values it is built from. \<^verbatim>\<open>JSON.parse\<close> is a parameter.\<close>

section \<open>Prompts\<close>

datatype AgentPrompt =
    ClassifyPrompt string
  | SqlPrompt string string "string option" "AgentError list"
  | VisualizePrompt string string "string option" "AgentError list" bool

section \<open>Intent\<close>

definition js_lower_char :: "char \<Rightarrow> char" where
  "js_lower_char c = (let n = (of_char c :: nat) in
     if 65 \<le> n \<and> n \<le> 90 \<or> 192 \<le> n \<and> n \<le> 222 \<and> n \<noteq> 215 then char_of (n + 32) else c)"

definition toLowerCase :: "string \<Rightarrow> string" where
  "toLowerCase s = map js_lower_char s"

definition word_char :: "char \<Rightarrow> bool" where
  "word_char c = (let n = (of_char c :: nat) in 48 \<le> n \<and> n \<le> 57 \<or> 65 \<le> n \<and> n \<le> 90 \<or> n = 95 \<or> 97 \<le> n \<and> n \<le> 122)"

text \<open>\<^verbatim>\<open>/\bw\b/.test(text)\<close> for a word \<open>w\<close> of word characters; \<open>boundary\<close> tells whether the character before is none or
  not a word character.\<close>

fun has_word :: "bool \<Rightarrow> string \<Rightarrow> string \<Rightarrow> bool" where
  "has_word boundary w [] = (boundary \<and> w = [])"
| "has_word boundary w (c # cs) =
    (boundary \<and> prefix w (c # cs) \<and>
        (case drop (length w) (c # cs) of [] \<Rightarrow> True | d # _ \<Rightarrow> \<not> word_char d) \<or>
     has_word (\<not> word_char c) w cs)"

definition parseIntent :: "string \<Rightarrow> AgentIntent" where
  "parseIntent completion =
    (let text = toLowerCase completion;
         hasVisualize = list_ex (\<lambda>w. has_word True w text) [''visualise'', ''visualize'', ''chart'', ''plot'', ''graph''];
         hasSql = list_ex (\<lambda>w. has_word True w text) [''sql'', ''query'']
     in if hasVisualize \<and> \<not> hasSql then INTENT_VISUALIZE else INTENT_SQL)"

section \<open>Completions\<close>

definition fence :: string where
  "fence = ''```''"

text \<open>The rest of a text behind the first occurrence of a pattern, and the text before it.\<close>

fun split_at :: "string \<Rightarrow> string \<Rightarrow> (string \<times> string) option" where
  "split_at p [] = (if p = [] then Some ([], []) else None)"
| "split_at p (c # cs) = (if prefix p (c # cs) then Some ([], drop (length p) (c # cs))
     else map_option (\<lambda>(a, b). (c # a, b)) (split_at p cs))"

definition ascii_letter :: "char \<Rightarrow> bool" where
  "ascii_letter c = (let n = (of_char c :: nat) in 65 \<le> n \<and> n \<le> 90 \<or> 97 \<le> n \<and> n \<le> 122)"

definition skip_newline :: "string \<Rightarrow> string" where
  "skip_newline s = (case s of c # cs \<Rightarrow> if of_char c = (10::nat) then cs else s | [] \<Rightarrow> [])"

text \<open>The regular expression of \<^verbatim>\<open>extractFenced\<close>: the letters and the newline it skips contain no fence, so the
  first opening fence is the match or there is none.\<close>

definition extractFenced :: "string \<Rightarrow> string option" where
  "extractFenced completion =
    (case split_at fence completion of None \<Rightarrow> None
     | Some (_, rest) \<Rightarrow> map_option fst (split_at fence (skip_newline (dropWhile ascii_letter rest))))"

definition extractSql :: "string \<Rightarrow> string" where
  "extractSql completion = js_trim (case extractFenced completion of Some t \<Rightarrow> t | None \<Rightarrow> completion)"

text \<open>The scan of \<^verbatim>\<open>extractJsonObject\<close>: depth, \<^verbatim>\<open>inString\<close>, \<^verbatim>\<open>escaped\<close>; the result is the part up to the brace
  that closes the object, if there is one.\<close>

record json_scan =
  scan_depth :: nat
  in_string :: bool
  escaped :: bool

definition scan_char :: "char \<Rightarrow> json_scan \<Rightarrow> json_scan" where
  "scan_char ch s =
    (if in_string s then
       (if escaped s then s\<lparr>escaped := False\<rparr>
        else if ch = CHR 0x5C then s\<lparr>escaped := True\<rparr>
        else if ch = CHR 0x22 then s\<lparr>in_string := False\<rparr> else s)
     else if ch = CHR 0x22 then s\<lparr>in_string := True\<rparr>
     else if ch = CHR ''{'' then s\<lparr>scan_depth := scan_depth s + 1\<rparr>
     else if ch = CHR ''}'' then s\<lparr>scan_depth := scan_depth s - 1\<rparr> else s)"

fun scan_object :: "json_scan \<Rightarrow> string \<Rightarrow> string option" where
  "scan_object s [] = None"
| "scan_object s (ch # cs) =
    (let s' = scan_char ch s in
     if \<not> in_string s \<and> ch = CHR ''}'' \<and> scan_depth s' = 0 then Some [ch]
     else map_option ((#) ch) (scan_object s' cs))"

definition extractJsonObject :: "string \<Rightarrow> string" where
  "extractJsonObject completion =
    (let text = js_trim (case extractFenced completion of Some t \<Rightarrow> t | None \<Rightarrow> completion);
         tail = dropWhile (\<lambda>c. c \<noteq> CHR ''{'') text
     in if tail = [] then text
        else case scan_object \<lparr>scan_depth = 0, in_string = False, escaped = False\<rparr> tail of
          Some t \<Rightarrow> t | None \<Rightarrow> tail)"

section \<open>Diagnosis\<close>

definition SUPPORTED_VEGA_MARKS :: "string list" where
  "SUPPORTED_VEGA_MARKS = [''bar'', ''line'', ''area'', ''point'', ''circle'', ''square'', ''rect'', ''arc'',
     ''rule'', ''tick'', ''text'', ''trail'', ''boxplot'', ''geoshape'', ''image'']"

definition UNSUPPORTED_MARKS_WITH_HINT :: "string list" where
  "UNSUPPORTED_MARKS_WITH_HINT = [''pie'', ''donut'', ''doughnut'', ''scatter'', ''bubble'', ''histogram'', ''column'']"

definition member :: "jsv \<Rightarrow> string \<Rightarrow> jsv" where
  "member v k = (case v of JObj ms \<Rightarrow> (case map_of ms k of Some w \<Rightarrow> w | None \<Rightarrow> JUndefined) | _ \<Rightarrow> JUndefined)"

definition extractMarkType :: "jsv \<Rightarrow> string option" where
  "extractMarkType spec =
    (case member spec ''mark'' of
       JStr s \<Rightarrow> Some (toLowerCase s)
     | mark \<Rightarrow> (case member mark ''type'' of JStr s \<Rightarrow> Some (toLowerCase s) | _ \<Rightarrow> None))"

definition diagnoseVegaLiteSpec :: "(string \<Rightarrow> jsv option) \<Rightarrow> string \<Rightarrow> AgentError list" where
  "diagnoseVegaLiteSpec parse raw =
    (case Option.bind (parse raw) extractMarkType of
       None \<Rightarrow> []
     | Some mark \<Rightarrow> if mark \<in> set SUPPORTED_VEGA_MARKS then []
         else if mark \<in> set UNSUPPORTED_MARKS_WITH_HINT then [MarkHint mark]
         else if mark \<in> {''constructor'', ''__proto__''} then [InheritedMember mark]
         else [UnsupportedMark mark])"

end
