(* ===== verification/Agent_Driver.thy ===== *)
theory Agent_Driver
  imports Agent_Prompts
begin

text \<open>The loop of an agent run, \<^verbatim>\<open>startAgentRun\<close> of \<^verbatim>\<open>agent/agent_run_driver.ts\<close>: classify, then generate,
  verify and repair up to a number of attempts, then apply. The model (\<^verbatim>\<open>AgentAIClient\<close>) and the host
  (\<^verbatim>\<open>AgentHost\<close>) are interfaces of the code and arguments here; a run is the list of what it does to them:
  the prompts it sends, the actions it dispatches, and the commit of a candidate. Log lines and
  heartbeats are left out, but not that wording a log line can throw.\<close>

section \<open>Dependencies\<close>

text \<open>An error that is thrown: whether its name is \<^verbatim>\<open>AbortError\<close>, and the text the driver shows for it.\<close>

datatype AgentThrow = Thrown (abort_error: bool) (thrown_text: string)

record VerifyResult =
  verdict_ok :: bool
  parserErrors :: "string list"
  analyzerErrors :: "string list"
  visualizationSpecs :: nat

text \<open>The abort signal can only change while the driver waits for the model, so \<open>d_aborted k\<close> is its value after
  \<open>k\<close> answers. The calls of the host are numbered by the attempt. \<open>d_now n\<close> is the time of the \<open>n\<close>-th dispatch,
  \<open>d_logger\<close> tells whether there is a logger.\<close>

record agent_deps =
  d_generate :: "nat \<Rightarrow> AgentPrompt \<Rightarrow> AgentThrow + string"
  d_aborted :: "nat \<Rightarrow> bool"
  d_buildContext :: "AgentIntent \<Rightarrow> AgentThrow + string"
  d_isEditingChart :: bool
  d_transcode :: "nat \<Rightarrow> string \<Rightarrow> AgentThrow + string"
  d_verify :: "nat \<Rightarrow> string \<Rightarrow> AgentThrow + VerifyResult"
  d_planApply :: "AgentIntent \<Rightarrow> string \<Rightarrow> AgentThrow + bool \<times> string option"
  d_commit :: "AgentIntent \<Rightarrow> string \<Rightarrow> AgentThrow option"
  d_parse_json :: "string \<Rightarrow> jsv option"
  d_now :: "nat \<Rightarrow> timestamp"
  d_logger :: bool
  d_traceId :: nat

record AgentRunParams =
  p_runId :: nat
  p_prompt :: string
  p_contextScriptKey :: "nat option"
  p_intentOverride :: "AgentIntent option"
  p_maxAttempts :: "nat option"

datatype AgentEvent = RegisterRun nat | Dispatch AgentRunAction | Generate AgentPrompt | Commit AgentIntent string

type_synonym agent_log = "AgentEvent list"

fun is_dispatch :: "AgentEvent \<Rightarrow> bool" where
  "is_dispatch (Dispatch _) = True"
| "is_dispatch _ = False"

definition dispatchAgent :: "agent_deps \<Rightarrow> (timestamp \<Rightarrow> AgentRunAction) \<Rightarrow> agent_log \<Rightarrow> agent_log" where
  "dispatchAgent d action log = log @ [Dispatch (action (d_now d (length (filter is_dispatch log))))]"

definition max_attempts :: "AgentRunParams \<Rightarrow> nat" where
  "max_attempts p = (case p_maxAttempts p of Some n \<Rightarrow> n | None \<Rightarrow> DEFAULT_MAX_ATTEMPTS)"

section \<open>One attempt\<close>

definition withSpecDiagnosis :: "agent_deps \<Rightarrow> AgentIntent \<Rightarrow> string option \<Rightarrow> AgentError list \<Rightarrow> AgentError list" where
  "withSpecDiagnosis d i raw errs =
    (case raw of Some r \<Rightarrow> if i = INTENT_VISUALIZE
       then filter (\<lambda>h. h \<notin> set errs) (diagnoseVegaLiteSpec (d_parse_json d) r) @ errs else errs
     | None \<Rightarrow> errs)"

text \<open>\<^verbatim>\<open>summarizeErrors\<close> calls \<^verbatim>\<open>replace\<close> on the first error, which throws when it is not a string.\<close>

definition summary_throws :: "AgentError list \<Rightarrow> bool" where
  "summary_throws errs = (case errs of InheritedMember m # _ \<Rightarrow> True | _ \<Rightarrow> False)"

datatype attempt_outcome =
    Threw AgentThrow agent_log
  | Retry string "AgentError list" agent_log
  | Verified string agent_log

text \<open>The dispatch of an attempt result: the action reaches the state before its log line is worded.\<close>

definition attempt_result ::
  "agent_deps \<Rightarrow> nat \<Rightarrow> string \<Rightarrow> string option \<Rightarrow> AgentError list \<Rightarrow> agent_log \<Rightarrow> attempt_outcome" where
  "attempt_result d n cand raw errs log =
    (let log = dispatchAgent d (AGENT_ATTEMPT_RESULT n (Some cand) (Some raw) errs) log in
     if d_logger d \<and> summary_throws errs then Threw (Thrown False ''text.replace is not a function'') log
     else if errs = [] then Verified cand log else Retry cand errs log)"

definition generation_prompt ::
  "agent_deps \<Rightarrow> AgentRunParams \<Rightarrow> AgentIntent \<Rightarrow> string \<Rightarrow> string option \<Rightarrow> AgentError list \<Rightarrow> AgentPrompt" where
  "generation_prompt d p i ctx prev errs =
    (if i = INTENT_VISUALIZE then VisualizePrompt ctx (p_prompt p) prev errs (d_isEditingChart d)
     else SqlPrompt ctx (p_prompt p) prev errs)"

text \<open>The candidate of a completion: with the extracted spec, or the error of the transcoder.\<close>

definition candidate_of ::
  "agent_deps \<Rightarrow> AgentIntent \<Rightarrow> nat \<Rightarrow> string \<Rightarrow> string option \<times> (AgentThrow + string)" where
  "candidate_of d i n completion =
    (if i = INTENT_VISUALIZE
     then (let raw = extractJsonObject completion in (Some raw, d_transcode d n raw))
     else (None, Inr (extractSql completion)))"

definition verdict_errors :: "AgentIntent \<Rightarrow> VerifyResult \<Rightarrow> AgentError list" where
  "verdict_errors i v = map ErrorText (parserErrors v @ analyzerErrors v) @
     (if verdict_ok v \<and> i = INTENT_VISUALIZE \<and> visualizationSpecs v = 0 then [NotAVisualization] else [])"

definition verify_candidate ::
  "agent_deps \<Rightarrow> AgentIntent \<Rightarrow> nat \<Rightarrow> string option \<Rightarrow> string \<Rightarrow> agent_log \<Rightarrow> attempt_outcome" where
  "verify_candidate d i n raw cand log =
    (let log = dispatchAgent d (AGENT_PHASE VERIFYING n (VerifyingArtifact i)) log in
     if js_trim cand = [] then attempt_result d n cand raw [EmptyResult] log
     else case d_verify d n cand of
       Inl t \<Rightarrow> Threw t log
     | Inr v \<Rightarrow> attempt_result d n cand raw (withSpecDiagnosis d i raw (verdict_errors i v)) log)"

text \<open>One round of the loop; \<open>k\<close> is the number of the model call.\<close>

definition attempt_once ::
  "agent_deps \<Rightarrow> AgentRunParams \<Rightarrow> AgentIntent \<Rightarrow> string \<Rightarrow> nat \<Rightarrow> nat \<Rightarrow> string option \<Rightarrow> AgentError list
    \<Rightarrow> agent_log \<Rightarrow> attempt_outcome" where
  "attempt_once d p i ctx k n prev errs log =
    (let repairing = 1 < n;
         log = dispatchAgent d (AGENT_PHASE (if repairing then REPAIRING else GENERATING) n
           (if repairing then RepairingArtifact i n (max_attempts p) else GeneratingArtifact i n (max_attempts p))) log;
         prompt = generation_prompt d p i ctx prev errs; log = log @ [Generate prompt]
     in case d_generate d k prompt of
          Inl t \<Rightarrow> Threw t log
        | Inr completion \<Rightarrow>
           if d_aborted d k then Threw (Thrown True ''aborted'') log
           else (case candidate_of d i n completion of
               (raw, Inl t) \<Rightarrow> (let cand = (case raw of Some r \<Rightarrow> r | None \<Rightarrow> completion)
                 in attempt_result d n cand raw (withSpecDiagnosis d i raw [ErrorText (thrown_text t)]) log)
             | (raw, Inr cand) \<Rightarrow> verify_candidate d i n raw cand log))"

section \<open>The run\<close>

datatype loop_outcome =
    LoopThrew AgentThrow nat agent_log
  | LoopGaveUp "AgentError list" agent_log
  | LoopSucceeded string nat agent_log

text \<open>The loop, from attempt \<open>n\<close> with \<open>fuel\<close> attempts left; \<open>c\<close> model calls came before the first attempt.\<close>

fun attempt_loop ::
  "agent_deps \<Rightarrow> AgentRunParams \<Rightarrow> AgentIntent \<Rightarrow> string \<Rightarrow> nat \<Rightarrow> nat \<Rightarrow> nat \<Rightarrow> string option \<Rightarrow> AgentError list
    \<Rightarrow> agent_log \<Rightarrow> loop_outcome" where
  "attempt_loop d p i ctx c 0 n prev errs log = LoopGaveUp errs log"
| "attempt_loop d p i ctx c (Suc left) n prev errs log =
    (case attempt_once d p i ctx (c + n) n prev errs log of
       Threw t log \<Rightarrow> LoopThrew t (c + n) log
     | Verified cand log \<Rightarrow> LoopSucceeded cand n log
     | Retry cand errs log \<Rightarrow> attempt_loop d p i ctx c left (n + 1) (Some cand) errs log)"

text \<open>The \<^verbatim>\<open>catch\<close> block, after \<open>k\<close> answers of the model.\<close>

definition run_failed :: "agent_deps \<Rightarrow> AgentThrow \<Rightarrow> nat \<Rightarrow> agent_log \<Rightarrow> agent_log" where
  "run_failed d t k log =
    (if d_aborted d k \<or> abort_error t then dispatchAgent d AGENT_CANCELLED log
     else dispatchAgent d (AGENT_FAILED (ThrownMessage (thrown_text t)) False) log)"

definition apply_candidate :: "agent_deps \<Rightarrow> AgentIntent \<Rightarrow> string \<Rightarrow> nat \<Rightarrow> nat \<Rightarrow> agent_log \<Rightarrow> agent_log" where
  "apply_candidate d i cand n k log =
    (case d_planApply d i cand of
       Inl t \<Rightarrow> run_failed d t k log
     | Inr (inPlace, target) \<Rightarrow>
        (let log = dispatchAgent d (AGENT_PHASE APPLYING n
               (if inPlace then ApplyingInPlace i target else AddingNewEntry i)) log;
             log = log @ [Commit i cand]
         in case d_commit d i cand of
              Some t \<Rightarrow> run_failed d t k log
            | None \<Rightarrow> dispatchAgent d (AGENT_SUCCEEDED
                (if inPlace then UpdatedInPlace i target else CreatedNewEntry i)) log))"

definition run_attempts :: "agent_deps \<Rightarrow> AgentRunParams \<Rightarrow> AgentIntent \<Rightarrow> nat \<Rightarrow> agent_log \<Rightarrow> agent_log" where
  "run_attempts d p i c log =
    (case d_buildContext d i of
       Inl t \<Rightarrow> run_failed d t c log
     | Inr ctx \<Rightarrow> (case attempt_loop d p i ctx c (max_attempts p) 1 None [] log of
         LoopThrew t k log \<Rightarrow> run_failed d t k log
       | LoopGaveUp errs log \<Rightarrow>
           if summary_throws errs then run_failed d (Thrown False ''text.replace is not a function'') (c + max_attempts p) log
           else dispatchAgent d (AGENT_FAILED (if errs \<noteq> [] then GaveUpWithErrors i (max_attempts p) errs
             else GaveUp i (max_attempts p)) True) log
       | LoopSucceeded cand n log \<Rightarrow> apply_candidate d i cand n (c + n) log))"

definition startAgentRun :: "agent_deps \<Rightarrow> AgentRunParams \<Rightarrow> agent_log" where
  "startAgentRun d p =
    (let log = (if p_contextScriptKey p \<noteq> None then [RegisterRun (p_runId p)] else []);
         log = dispatchAgent d (\<lambda>t. AGENT_START \<lparr>sp_runId = p_runId p, sp_traceId = d_traceId d, sp_prompt = p_prompt p,
           sp_contextScriptKey = p_contextScriptKey p, sp_intentOverride = p_intentOverride p,
           sp_maxAttempts = max_attempts p, sp_timestamp = t\<rparr>) log
     in case p_intentOverride p of
          Some i \<Rightarrow> run_attempts d p i 0 (dispatchAgent d (AGENT_SET_INTENT i True) log)
        | None \<Rightarrow> (let log = log @ [Generate (ClassifyPrompt (p_prompt p))] in
            case d_generate d 1 (ClassifyPrompt (p_prompt p)) of
              Inl t \<Rightarrow> run_failed d t 1 log
            | Inr answer \<Rightarrow> if d_aborted d 1 then run_failed d (Thrown True ''aborted'') 1 log
                else run_attempts d p (parseIntent answer) 1
                  (dispatchAgent d (AGENT_SET_INTENT (parseIntent answer) False) log)))"

end
