(* ===== verification/Agent_Properties.thy ===== *)
theory Agent_Properties
  imports Agent_Driver
begin

text \<open>The properties of agent runs: every run ends in one terminal action, its timeline is a path of the
  phase diagram, only verified candidates are committed, and the number of model calls is bounded.\<close>

section \<open>Replay\<close>

text \<open>The state a UI sees: the dispatched actions folded with the reducer.\<close>

fun dispatched :: "agent_log \<Rightarrow> AgentRunAction list" where
  "dispatched [] = []"
| "dispatched (Dispatch a # es) = a # dispatched es"
| "dispatched (_ # es) = dispatched es"

definition replay :: "agent_log \<Rightarrow> AgentRunState option" where
  "replay log = foldl reduceAgentRun None (dispatched log)"

lemma dispatched_append [simp]: "dispatched (xs @ ys) = dispatched xs @ dispatched ys"
  by (induction xs rule: dispatched.induct) auto

lemma replay_append [simp]:
  "replay (log @ [Dispatch a]) = reduceAgentRun (replay log) a" "replay (log @ [Generate q]) = replay log"
  "replay (log @ [Commit i c]) = replay log"
  by (simp_all add: replay_def)

lemma replay_dispatch [simp]:
  "replay (dispatchAgent d a log) = reduceAgentRun (replay log) (a (d_now d (length (filter is_dispatch log))))"
  by (simp add: dispatchAgent_def)

fun terminal_action :: "AgentRunAction \<Rightarrow> bool" where
  "terminal_action (AGENT_SUCCEEDED _ _) = True"
| "terminal_action (AGENT_FAILED _ _ _) = True"
| "terminal_action (AGENT_CANCELLED _) = True"
| "terminal_action _ = False"

text \<open>The phase diagram: the phases of two successive steps of a timeline.\<close>

fun phase_next :: "AgentRunPhase \<Rightarrow> AgentRunPhase \<Rightarrow> bool" where
  "phase_next CLASSIFYING q = (q \<in> {CLASSIFYING, GENERATING, FAILED, CANCELLED})"
| "phase_next GENERATING q = (q \<in> {GENERATING, VERIFYING, REPAIRING, FAILED, CANCELLED})"
| "phase_next REPAIRING q = (q \<in> {VERIFYING, REPAIRING, FAILED, CANCELLED})"
| "phase_next VERIFYING q = (q \<in> {VERIFYING, REPAIRING, APPLYING, FAILED, CANCELLED})"
| "phase_next APPLYING q = (q \<in> {SUCCEEDED, FAILED, CANCELLED})"
| "phase_next _ q = False"

definition timeline_ok :: "AgentRunState \<Rightarrow> bool" where
  "timeline_ok s \<longleftrightarrow> timeline s \<noteq> [] \<and> step_phase (last (timeline s)) = phase s \<and>
    successively phase_next (map step_phase (timeline s))"

text \<open>A log whose run is in the given phase, and is not over.\<close>

definition in_phase :: "agent_log \<Rightarrow> AgentRunPhase \<Rightarrow> bool" where
  "in_phase log ph \<longleftrightarrow> (\<exists>s. replay log = Some s \<and> phase s = ph \<and> timeline_ok s) \<and>
    \<not> list_ex terminal_action (dispatched log)"

definition over :: "agent_log \<Rightarrow> bool" where
  "over log \<longleftrightarrow> (\<exists>s. replay log = Some s \<and> agentRunIsDone (phase s) \<and> timeline_ok s) \<and>
    (\<exists>as a. dispatched log = as @ [a] \<and> terminal_action a \<and> \<not> list_ex terminal_action as)"

lemma timeline_ok_append:
  assumes "timeline_ok s" "phase_next (phase s) q" "timeline s' = timeline s @ [\<lparr>step_phase = q, step_attempt = a,
      step_message = m, step_timestamp = t\<rparr>]" "phase s' = q"
  shows "timeline_ok s'"
proof -
  have "successively phase_next (map step_phase (timeline s) @ [q])"
    using assms(1,2) by (auto simp: timeline_ok_def successively_append_iff last_map)
  with assms(3,4) show ?thesis by (simp add: timeline_ok_def)
qed

lemma in_phase_dispatch:
  assumes "in_phase log ph" "phase_next ph q"
  shows "in_phase (dispatchAgent d (AGENT_PHASE q a m) log) q"
    and "q = FAILED \<Longrightarrow> over (dispatchAgent d (AGENT_FAILED m e) log)"
    and "q = CANCELLED \<Longrightarrow> over (dispatchAgent d AGENT_CANCELLED log)"
    and "q = SUCCEEDED \<Longrightarrow> over (dispatchAgent d (AGENT_SUCCEEDED m) log)"
proof -
  obtain s where s: "replay log = Some s" "phase s = ph" "timeline_ok s" and t: "\<not> list_ex terminal_action (dispatched log)"
    using assms(1) by (auto simp: in_phase_def)
  note step = timeline_ok_append [OF s(3), unfolded s(2), OF assms(2)]
  show "in_phase (dispatchAgent d (AGENT_PHASE q a m) log) q"
    using s t step by (auto simp: in_phase_def appendStep_def dispatchAgent_def)
  show "q = FAILED \<Longrightarrow> over (dispatchAgent d (AGENT_FAILED m e) log)"
    using s t step by (auto simp: over_def appendStep_def dispatchAgent_def agentRunIsDone_def)
  show "q = CANCELLED \<Longrightarrow> over (dispatchAgent d AGENT_CANCELLED log)"
    using s t step by (auto simp: over_def appendStep_def dispatchAgent_def agentRunIsDone_def)
  show "q = SUCCEEDED \<Longrightarrow> over (dispatchAgent d (AGENT_SUCCEEDED m) log)"
    using s t step by (auto simp: over_def appendStep_def dispatchAgent_def agentRunIsDone_def)
qed

lemma in_phase_stay:
  assumes "in_phase log ph" "phase_next ph ph"
  shows "in_phase (dispatchAgent d (AGENT_ATTEMPT_RESULT n c spec errs) log) ph"
    and "in_phase (dispatchAgent d (AGENT_SET_INTENT i b) log) ph"
proof -
  obtain s where s: "replay log = Some s" "phase s = ph" "timeline_ok s" and t: "\<not> list_ex terminal_action (dispatched log)"
    using assms(1) by (auto simp: in_phase_def)
  note step = timeline_ok_append [OF s(3), unfolded s(2), OF assms(2)]
  show "in_phase (dispatchAgent d (AGENT_ATTEMPT_RESULT n c spec errs) log) ph"
    "in_phase (dispatchAgent d (AGENT_SET_INTENT i b) log) ph"
    using s t step by (auto simp: in_phase_def appendStep_def dispatchAgent_def)
qed

lemma in_phase_event:
  "in_phase log ph \<Longrightarrow> in_phase (log @ [Generate q]) ph" "in_phase log ph \<Longrightarrow> in_phase (log @ [Commit i c]) ph"
  by (auto simp: in_phase_def)

section \<open>The loop\<close>

fun outcome_in :: "AgentRunPhase set \<Rightarrow> attempt_outcome \<Rightarrow> bool" where
  "outcome_in S (Threw t log) = (\<exists>ph\<in>S. in_phase log ph)"
| "outcome_in S (Retry c errs log) = (\<exists>ph\<in>S. in_phase log ph)"
| "outcome_in S (Verified c log) = in_phase log VERIFYING"

lemma attempt_result_in:
  assumes "in_phase log ph" "ph \<in> {GENERATING, REPAIRING, VERIFYING}" "errs = [] \<longrightarrow> ph = VERIFYING"
  shows "outcome_in {GENERATING, REPAIRING, VERIFYING} (attempt_result d n c raw errs log)"
proof -
  have "in_phase (dispatchAgent d (AGENT_ATTEMPT_RESULT n (Some c) (Some raw) errs) log) ph"
    by (rule in_phase_stay(1)) (use assms in auto)
  with assms(2,3) show ?thesis by (auto simp: attempt_result_def Let_def)
qed

lemma spec_diagnosis_nonempty: "errs \<noteq> [] \<Longrightarrow> withSpecDiagnosis d i raw errs \<noteq> []"
  by (simp add: withSpecDiagnosis_def split: option.split)

lemma verify_candidate_in:
  assumes "in_phase log ph" "ph \<in> {GENERATING, REPAIRING}"
  shows "outcome_in {GENERATING, REPAIRING, VERIFYING} (verify_candidate d i n raw c log)"
proof -
  have "in_phase (dispatchAgent d (AGENT_PHASE VERIFYING n (VerifyingArtifact i)) log) VERIFYING"
    by (rule in_phase_dispatch(1) [OF assms(1)]) (use assms(2) in auto)
  then show ?thesis
    by (auto simp: verify_candidate_def Let_def intro: attempt_result_in split: sum.split)
qed

lemma attempt_once_in:
  assumes "in_phase log ph" "if n \<le> 1 then ph = CLASSIFYING else ph \<in> {GENERATING, REPAIRING, VERIFYING}"
  shows "outcome_in {GENERATING, REPAIRING, VERIFYING} (attempt_once d p i ctx k n prev errs log)"
proof -
  let ?ph = "if 1 < n then REPAIRING else GENERATING"
  let ?msg = "if 1 < n then RepairingArtifact i n (max_attempts p) else GeneratingArtifact i n (max_attempts p)"
  let ?log = "dispatchAgent d (AGENT_PHASE ?ph n ?msg) log @ [Generate (generation_prompt d p i ctx prev errs)]"
  have ph: "?ph \<in> {GENERATING, REPAIRING}" by simp
  have log: "in_phase ?log ?ph"
    by (intro in_phase_event(1) in_phase_dispatch(1) [OF assms(1)]) (use assms(2) in \<open>auto split: if_splits\<close>)
  have eq: "attempt_once d p i ctx k n prev errs log = (case d_generate d k (generation_prompt d p i ctx prev errs) of
      Inl t \<Rightarrow> Threw t ?log
    | Inr completion \<Rightarrow> if d_aborted d k then Threw (Thrown True ''aborted'') ?log
       else (case candidate_of d i n completion of
          (raw, Inl t) \<Rightarrow> attempt_result d n (case raw of Some r \<Rightarrow> r | None \<Rightarrow> completion) raw
             (withSpecDiagnosis d i raw [ErrorText (thrown_text t)]) ?log
        | (raw, Inr cand) \<Rightarrow> verify_candidate d i n raw cand ?log))"
    by (simp only: attempt_once_def Let_def)
  have here: "outcome_in {GENERATING, REPAIRING, VERIFYING} (Threw t ?log)" for t
    using log by (auto split: if_splits)
  have thrown: "outcome_in {GENERATING, REPAIRING, VERIFYING} (attempt_result d n c raw
      (withSpecDiagnosis d i raw [ErrorText e]) ?log)" for c raw e
    by (rule attempt_result_in [OF log]) (use spec_diagnosis_nonempty [of "[ErrorText e]" d i raw] in auto)
  have verified: "outcome_in {GENERATING, REPAIRING, VERIFYING} (verify_candidate d i n raw c ?log)" for raw c
    by (rule verify_candidate_in [OF log ph])
  show ?thesis unfolding eq
    using here thrown verified by (auto split: sum.split prod.split simp del: outcome_in.simps)
qed

fun loop_in :: "loop_outcome \<Rightarrow> bool" where
  "loop_in (LoopThrew t k log) = (\<exists>ph\<in>{CLASSIFYING, GENERATING, REPAIRING, VERIFYING}. in_phase log ph)"
| "loop_in (LoopGaveUp errs log) = (\<exists>ph\<in>{CLASSIFYING, GENERATING, REPAIRING, VERIFYING}. in_phase log ph)"
| "loop_in (LoopSucceeded c n log) = in_phase log VERIFYING"

lemma attempt_loop_in:
  assumes "in_phase log ph" "1 \<le> n" "if n \<le> 1 then ph = CLASSIFYING else ph \<in> {GENERATING, REPAIRING, VERIFYING}"
  shows "loop_in (attempt_loop d p i ctx c left n prev errs log)"
  using assms
proof (induction left arbitrary: n prev errs log ph)
  case (Suc left)
  note one = attempt_once_in [OF Suc.prems(1,3), of d p i ctx "c + n" prev errs]
  show ?case
  proof (cases "attempt_once d p i ctx (c + n) n prev errs log")
    case (Retry cand errs' log')
    with one obtain ph' where "in_phase log' ph'" "ph' \<in> {GENERATING, REPAIRING, VERIFYING}" by auto
    with Suc.IH [of log' ph' "n + 1" "Some cand" errs'] Suc.prems(2) Retry show ?thesis by simp
  qed (use one in auto)
qed (auto split: if_splits)

lemma run_failed_over:
  assumes "in_phase log ph" "phase_next ph FAILED" "phase_next ph CANCELLED"
  shows "over (run_failed d t k log)"
  using assms in_phase_dispatch(2) [OF assms(1,2)] in_phase_dispatch(3) [OF assms(1,3)] by (simp add: run_failed_def)

lemma apply_candidate_over: "in_phase log VERIFYING \<Longrightarrow> over (apply_candidate d i c n k log)"
proof -
  assume log: "in_phase log VERIFYING"
  have ap: "in_phase (dispatchAgent d (AGENT_PHASE APPLYING n m) log @ [Commit i c]) APPLYING" for m
    by (intro in_phase_event(2) in_phase_dispatch(1) [OF log]) simp
  show ?thesis
    using run_failed_over [OF log] run_failed_over [OF ap] in_phase_dispatch(4) [OF ap]
    by (auto simp: apply_candidate_def Let_def split: sum.split option.split)
qed

lemma run_attempts_over:
  assumes "in_phase log CLASSIFYING"
  shows "over (run_attempts d p i c log)"
proof -
  have f: "over (run_failed d t k log')" "over (dispatchAgent d (AGENT_FAILED m e) log')"
    if "\<exists>ph\<in>{CLASSIFYING, GENERATING, REPAIRING, VERIFYING}. in_phase log' ph" for t k log' m e
    using that run_failed_over [of log'] in_phase_dispatch(2) [of log'] by (auto; fastforce)+
  show ?thesis
  proof (cases "d_buildContext d i")
    case (Inl t)
    with assms f show ?thesis by (auto simp: run_attempts_def)
  next
    case (Inr ctx)
    have "loop_in (attempt_loop d p i ctx c (max_attempts p) 1 None [] log)"
      by (rule attempt_loop_in [OF assms]) simp_all
    with Inr f apply_candidate_over show ?thesis
      by (cases "attempt_loop d p i ctx c (max_attempts p) 1 None [] log") (simp_all add: run_attempts_def)
  qed
qed

fun commits :: "agent_log \<Rightarrow> (AgentIntent \<times> string) list" where
  "commits [] = []"
| "commits (Commit i c # es) = (i, c) # commits es"
| "commits (_ # es) = commits es"

fun generated :: "agent_log \<Rightarrow> AgentPrompt list" where
  "generated [] = []"
| "generated (Generate q # es) = q # generated es"
| "generated (_ # es) = generated es"

lemma commits_append [simp]: "commits (xs @ ys) = commits xs @ commits ys"
  by (induction xs rule: commits.induct) auto

lemma generated_append [simp]: "generated (xs @ ys) = generated xs @ generated ys"
  by (induction xs rule: generated.induct) auto

lemma commits_set: "set (commits log) = {(i, c). Commit i c \<in> set log}"
  by (induction log rule: commits.induct) auto

text \<open>A run once its start is dispatched.\<close>

definition run_from :: "agent_deps \<Rightarrow> AgentRunParams \<Rightarrow> agent_log \<Rightarrow> agent_log" where
  "run_from d p L = (case p_intentOverride p of
      Some i \<Rightarrow> run_attempts d p i 0 (dispatchAgent d (AGENT_SET_INTENT i True) L)
    | None \<Rightarrow> (case d_generate d 1 (ClassifyPrompt (p_prompt p)) of
        Inl t \<Rightarrow> run_failed d t 1 (L @ [Generate (ClassifyPrompt (p_prompt p))])
      | Inr answer \<Rightarrow> if d_aborted d 1
          then run_failed d (Thrown True ''aborted'') 1 (L @ [Generate (ClassifyPrompt (p_prompt p))])
          else run_attempts d p (parseIntent answer) 1 (dispatchAgent d (AGENT_SET_INTENT (parseIntent answer) False)
            (L @ [Generate (ClassifyPrompt (p_prompt p))]))))"

lemma start_eq:
  "\<exists>L s. startAgentRun d p = run_from d p L \<and> in_phase L CLASSIFYING \<and> commits L = [] \<and> generated L = [] \<and>
    dispatched L = [AGENT_START s]"
proof -
  let ?s = "\<lambda>t. \<lparr>sp_runId = p_runId p, sp_traceId = d_traceId d, sp_prompt = p_prompt p,
    sp_contextScriptKey = p_contextScriptKey p, sp_intentOverride = p_intentOverride p,
    sp_maxAttempts = max_attempts p, sp_timestamp = t\<rparr>"
  let ?L = "dispatchAgent d (\<lambda>t. AGENT_START (?s t)) (if p_contextScriptKey p \<noteq> None then [RegisterRun (p_runId p)] else [])"
  have "startAgentRun d p = run_from d p ?L"
    by (simp only: startAgentRun_def run_from_def Let_def)
  moreover have "in_phase ?L CLASSIFYING" "commits ?L = []" "generated ?L = []" "\<exists>t. dispatched ?L = [AGENT_START (?s t)]"
    by (auto simp: in_phase_def dispatchAgent_def replay_def startState_def timeline_ok_def)
  ultimately show ?thesis by blast
qed

lemma run_over: "over (startAgentRun d p)"
proof -
  obtain L where s: "in_phase L CLASSIFYING" and eq: "startAgentRun d p = run_from d p L"
    using start_eq [of d p] by auto
  have g: "in_phase (L @ [Generate q]) CLASSIFYING" for q by (rule in_phase_event(1) [OF s])
  have i: "in_phase (dispatchAgent d (AGENT_SET_INTENT x b) log) CLASSIFYING" if "in_phase log CLASSIFYING" for x b log
    by (rule in_phase_stay(2) [OF that]) simp
  show ?thesis unfolding eq run_from_def
    using run_attempts_over [OF i [OF s]] run_attempts_over [OF i [OF g]] run_failed_over [OF g]
    by (simp split: option.split sum.split)
qed

section \<open>Commits and model calls\<close>

lemma dispatch_kept [simp]:
  "commits (dispatchAgent d a log) = commits log" "generated (dispatchAgent d a log) = generated log"
  "dispatched (dispatchAgent d a log) = dispatched log @ [a (d_now d (length (filter is_dispatch log)))]"
  by (simp_all add: dispatchAgent_def)

definition verified :: "agent_deps \<Rightarrow> AgentIntent \<Rightarrow> nat \<Rightarrow> string \<Rightarrow> bool" where
  "verified d i n c \<longleftrightarrow> js_trim c \<noteq> [] \<and> (\<exists>v. d_verify d n c = Inr v \<and> verdict_errors i v = [])"

fun outcome_log :: "attempt_outcome \<Rightarrow> agent_log" where
  "outcome_log (Threw t log) = log"
| "outcome_log (Retry c errs log) = log"
| "outcome_log (Verified c log) = log"

lemma attempt_result_facts:
  "commits (outcome_log (attempt_result d n c raw errs log)) = commits log"
  "generated (outcome_log (attempt_result d n c raw errs log)) = generated log"
  "attempt_result d n c raw errs log = Verified c' log' \<Longrightarrow> c' = c \<and> errs = []"
  "attempt_result d n c raw errs log = Retry c' errs' log' \<Longrightarrow> c' = c \<and> errs' = errs \<and> errs \<noteq> []"
  by (auto simp: attempt_result_def Let_def split: if_splits)

lemma verify_candidate_facts:
  "commits (outcome_log (verify_candidate d i n raw c log)) = commits log"
  "generated (outcome_log (verify_candidate d i n raw c log)) = generated log"
  "verify_candidate d i n raw c log = Verified c' log' \<Longrightarrow> c' = c \<and> verified d i n c"
proof -
  show "commits (outcome_log (verify_candidate d i n raw c log)) = commits log"
    "generated (outcome_log (verify_candidate d i n raw c log)) = generated log"
    by (simp_all add: verify_candidate_def Let_def attempt_result_facts split: sum.split)
  show "c' = c \<and> verified d i n c" if "verify_candidate d i n raw c log = Verified c' log'"
  proof -
    from that obtain v where v: "js_trim c \<noteq> []" "d_verify d n c = Inr v"
      and r: "attempt_result d n c raw (withSpecDiagnosis d i raw (verdict_errors i v))
        (dispatchAgent d (AGENT_PHASE VERIFYING n (VerifyingArtifact i)) log) = Verified c' log'"
      using attempt_result_facts(3) [of d n c raw "[EmptyResult]" _ c' log']
      by (auto simp: verify_candidate_def Let_def split: if_splits sum.splits)
    from attempt_result_facts(3) [OF r] spec_diagnosis_nonempty v show ?thesis by (auto simp: verified_def)
  qed
qed

lemma attempt_once_facts:
  "commits (outcome_log (attempt_once d p i ctx k n prev errs log)) = commits log"
  "generated (outcome_log (attempt_once d p i ctx k n prev errs log)) =
    generated log @ [generation_prompt d p i ctx prev errs]"
  "attempt_once d p i ctx k n prev errs log = Verified c log' \<Longrightarrow> verified d i n c"
proof -
  show "commits (outcome_log (attempt_once d p i ctx k n prev errs log)) = commits log"
    "generated (outcome_log (attempt_once d p i ctx k n prev errs log)) =
      generated log @ [generation_prompt d p i ctx prev errs]"
    by (simp_all add: attempt_once_def Let_def attempt_result_facts verify_candidate_facts split: sum.split prod.split)
  show "verified d i n c" if "attempt_once d p i ctx k n prev errs log = Verified c log'"
    using that spec_diagnosis_nonempty [of "[ErrorText e]" d i raw for e raw]
    by (auto simp: attempt_once_def Let_def split: sum.splits prod.splits if_splits
        dest!: attempt_result_facts(3) verify_candidate_facts(3))
qed

fun loop_log :: "loop_outcome \<Rightarrow> agent_log" where
  "loop_log (LoopThrew t k log) = log"
| "loop_log (LoopGaveUp errs log) = log"
| "loop_log (LoopSucceeded c n log) = log"

lemma attempt_loop_facts:
  "commits (loop_log (attempt_loop d p i ctx c left n prev errs log)) = commits log"
  "length (generated (loop_log (attempt_loop d p i ctx c left n prev errs log))) \<le> length (generated log) + left"
  "attempt_loop d p i ctx c left n prev errs log = LoopSucceeded cand m log' \<Longrightarrow>
    n \<le> m \<and> m < n + left \<and> verified d i m cand"
proof (induction left arbitrary: n prev errs log)
  case (Suc left)
  {
    case 1
    show ?case using attempt_once_facts(1) [of d p i ctx "c + n" n prev errs log] Suc.IH(1)
      by (cases "attempt_once d p i ctx (c + n) n prev errs log") simp_all
  next
    case 2
    show ?case
    proof (cases "attempt_once d p i ctx (c + n) n prev errs log")
      case (Retry cand errs' log')
      then have "length (generated log') = Suc (length (generated log))"
        using attempt_once_facts(2) [of d p i ctx "c + n" n prev errs log] by simp
      with Suc.IH(2) [of "n + 1" "Some cand" errs' log'] Retry show ?thesis by simp
    qed (use attempt_once_facts(2) [of d p i ctx "c + n" n prev errs log] in simp_all)
  next
    case 3
    then show ?case using attempt_once_facts(3) [of d p i ctx "c + n" n prev errs log] Suc.IH(3)
      by (cases "attempt_once d p i ctx (c + n) n prev errs log") fastforce+
  }
qed simp_all

text \<open>What the end of a run commits: nothing, or the candidate, which is committed before the success.\<close>

definition ends_with_success :: "agent_log \<Rightarrow> bool" where
  "ends_with_success log \<longleftrightarrow> (\<exists>m t. dispatched log \<noteq> [] \<and> last (dispatched log) = AGENT_SUCCEEDED m t)"

lemma run_failed_facts [simp]:
  "commits (run_failed d t k log) = commits log" "generated (run_failed d t k log) = generated log"
  "\<not> ends_with_success (run_failed d t k log)"
  by (auto simp: run_failed_def ends_with_success_def)

lemma ends_dispatch [simp]: "ends_with_success (dispatchAgent d (AGENT_FAILED m e) log) = False"
  "ends_with_success (dispatchAgent d (AGENT_SUCCEEDED m) log) = True"
  by (simp_all add: ends_with_success_def)

lemma apply_candidate_facts:
  "commits (apply_candidate d i c n k log) = commits log \<and> \<not> ends_with_success (apply_candidate d i c n k log) \<or>
   commits (apply_candidate d i c n k log) = commits log @ [(i, c)] \<and>
     ends_with_success (apply_candidate d i c n k log) = (d_commit d i c = None)"
  "generated (apply_candidate d i c n k log) = generated log"
  by (auto simp: apply_candidate_def Let_def split: sum.split option.split)

lemma run_attempts_facts:
  "commits (run_attempts d p i c log) = commits log \<and> \<not> ends_with_success (run_attempts d p i c log) \<or>
    (\<exists>m cand. m \<le> max_attempts p \<and> 1 \<le> m \<and> verified d i m cand \<and>
      commits (run_attempts d p i c log) = commits log @ [(i, cand)] \<and>
      ends_with_success (run_attempts d p i c log) = (d_commit d i cand = None))"
  "length (generated (run_attempts d p i c log)) \<le> length (generated log) + max_attempts p"
proof -
  let ?loop = "\<lambda>ctx. attempt_loop d p i ctx c (max_attempts p) 1 None [] log"
  note l = attempt_loop_facts [of d p i _ c "max_attempts p" 1 None "[]" log]
  show "length (generated (run_attempts d p i c log)) \<le> length (generated log) + max_attempts p"
  proof (cases "d_buildContext d i")
    case (Inr ctx)
    with l(2) [of ctx] show ?thesis
      by (cases "?loop ctx") (simp_all add: run_attempts_def apply_candidate_facts(2))
  qed (simp add: run_attempts_def)
  show "commits (run_attempts d p i c log) = commits log \<and> \<not> ends_with_success (run_attempts d p i c log) \<or>
    (\<exists>m cand. m \<le> max_attempts p \<and> 1 \<le> m \<and> verified d i m cand \<and>
      commits (run_attempts d p i c log) = commits log @ [(i, cand)] \<and>
      ends_with_success (run_attempts d p i c log) = (d_commit d i cand = None))"
  proof (cases "d_buildContext d i")
    case (Inr ctx)
    show ?thesis
    proof (cases "?loop ctx")
      case (LoopSucceeded cand m log')
      have "1 \<le> m" "m \<le> max_attempts p" "verified d i m cand" "commits log' = commits log"
        using l(3) [OF LoopSucceeded] l(1) [of ctx] LoopSucceeded by auto
      then show ?thesis using Inr LoopSucceeded apply_candidate_facts(1) [of d i cand m "c + m" log']
        by (auto simp: run_attempts_def)
    qed (use Inr l(1) [of ctx] in \<open>auto simp: run_attempts_def\<close>)
  qed (simp add: run_attempts_def)
qed

lemma start_facts:
  "commits (startAgentRun d p) = [] \<and> \<not> ends_with_success (startAgentRun d p) \<or>
    (\<exists>i m cand. m \<le> max_attempts p \<and> 1 \<le> m \<and> verified d i m cand \<and> commits (startAgentRun d p) = [(i, cand)] \<and>
      ends_with_success (startAgentRun d p) = (d_commit d i cand = None))" (is ?commits)
  "length (generated (startAgentRun d p)) \<le> max_attempts p + (if p_intentOverride p = None then 1 else 0)" (is ?calls)
proof -
  obtain L where eq: "startAgentRun d p = run_from d p L" and L: "commits L = []" "generated L = []"
    using start_eq [of d p] by auto
  have r: "commits (run_attempts d p i c L) = [] \<and> \<not> ends_with_success (run_attempts d p i c L) \<or>
      (\<exists>i' m cand. m \<le> max_attempts p \<and> 1 \<le> m \<and> verified d i' m cand \<and> commits (run_attempts d p i c L) = [(i', cand)] \<and>
      ends_with_success (run_attempts d p i c L) = (d_commit d i' cand = None))" if "commits L = []" for i c L
    using run_attempts_facts(1) [of d p i c L] that by auto
  show ?commits unfolding eq run_from_def
    using r L by (simp split: option.split sum.split del: One_nat_def)
  have g: "length (generated (run_attempts d p i c L)) \<le> max_attempts p" if "generated L = []" for i c L
    using run_attempts_facts(2) [of d p i c L] that by simp
  have h: "length (generated (run_attempts d p i c L)) \<le> max_attempts p + 1" if "generated L = [q]" for i c L q
    using run_attempts_facts(2) [of d p i c L] that by simp
  show ?calls unfolding eq run_from_def
    using g h L by (simp split: option.split sum.split del: One_nat_def)
qed

section \<open>Properties\<close>

text \<open>C7. Every agent run ends: whatever the model answers or throws, whatever the host answers or throws, and
  whenever it is aborted, the run dispatches exactly one terminal action, as its last one, the state it
  leaves is done, and the timeline of that state is a path through the phase diagram.\<close>

theorem agent_run_ends_once:
  "\<exists>s as a. replay (startAgentRun d p) = Some s \<and> agentRunIsDone (phase s) \<and>
    dispatched (startAgentRun d p) = as @ [a] \<and> terminal_action a \<and> \<not> list_ex terminal_action as \<and>
    successively phase_next (map step_phase (timeline s))"
  using run_over [of d p] unfolding over_def timeline_ok_def by blast

text \<open>C14. Only verified text is applied: a run commits at most one candidate, that candidate is not blank and
  passed the verification of one of the attempts without errors, and the run reports success exactly if
  the commit did not throw.\<close>

theorem commit_only_verified:
  assumes "Commit i c \<in> set (startAgentRun d p)"
  shows "commits (startAgentRun d p) = [(i, c)] \<and> (\<exists>n. 1 \<le> n \<and> n \<le> max_attempts p \<and> verified d i n c) \<and>
    (ends_with_success (startAgentRun d p) \<longleftrightarrow> d_commit d i c = None)"
proof -
  have "(i, c) \<in> set (commits (startAgentRun d p))" using assms by (simp add: commits_set)
  with start_facts(1) [of d p] show ?thesis by auto
qed

definition sample_deps :: agent_deps where
  "sample_deps = \<lparr>d_generate = (\<lambda>k q. Inr (if k = 1 then ''sql'' else if k = 2 then ''selec 1'' else ''```sql
select 1
```'')),
     d_aborted = (\<lambda>_. False), d_buildContext = (\<lambda>_. Inr []), d_isEditingChart = False,
     d_transcode = (\<lambda>_ t. Inr t),
     d_verify = (\<lambda>_ t. Inr (if prefix ''select'' t
       then \<lparr>verdict_ok = True, parserErrors = [], analyzerErrors = [], visualizationSpecs = 0\<rparr>
       else \<lparr>verdict_ok = False, parserErrors = [''syntax error''], analyzerErrors = [], visualizationSpecs = 0\<rparr>)),
     d_planApply = (\<lambda>_ _. Inr (True, None)), d_commit = (\<lambda>_ _. None), d_parse_json = (\<lambda>_. None), d_now = int,
     d_logger = True, d_traceId = 7\<rparr>"

definition sample_params :: AgentRunParams where
  "sample_params = \<lparr>p_runId = 1, p_prompt = ''the number one'', p_contextScriptKey = None, p_intentOverride = None,
     p_maxAttempts = None\<rparr>"

lemma sample_run: "commits (startAgentRun sample_deps sample_params) = [(INTENT_SQL, ''select 1'')]"
  by code_simp

theorem commit_only_verified_witness:
  "\<exists>n. 1 \<le> n \<and> n \<le> max_attempts sample_params \<and> verified sample_deps INTENT_SQL n ''select 1''"
proof -
  have "Commit INTENT_SQL ''select 1'' \<in> set (startAgentRun sample_deps sample_params)"
    using sample_run commits_set [of "startAgentRun sample_deps sample_params"] by auto
  from commit_only_verified [OF this] show ?thesis by blast
qed

text \<open>The model is asked at most once per attempt, and once more to classify the request when no intent
  was given.\<close>

theorem model_calls_bounded:
  "length (generated (startAgentRun d p)) \<le> max_attempts p + (if p_intentOverride p = None then 1 else 0)"
  by (rule start_facts(2))

text \<open>A spec whose mark is named like an inherited member of JavaScript objects ends the run instead of being
  repaired: the hint that is looked up for the mark is not a string, and wording the log line of the
  attempt throws.\<close>

theorem inherited_mark_ends_run:
  assumes "d_generate d k (generation_prompt d p INTENT_VISUALIZE ctx prev errs) = Inr completion" "\<not> d_aborted d k"
    and "d_transcode d n (extractJsonObject completion) = Inr cand" "js_trim cand \<noteq> []" "d_verify d n cand = Inr v"
    and "d_parse_json d (extractJsonObject completion) = Some spec" "extractMarkType spec = Some ''constructor''" "d_logger d"
  shows "\<exists>log'. attempt_once d p INTENT_VISUALIZE ctx k n prev errs log =
    Threw (Thrown False ''text.replace is not a function'') log'"
proof -
  have "diagnoseVegaLiteSpec (d_parse_json d) (extractJsonObject completion) = [InheritedMember ''constructor'']"
    using assms(6,7) by (simp add: diagnoseVegaLiteSpec_def SUPPORTED_VEGA_MARKS_def UNSUPPORTED_MARKS_WITH_HINT_def)
  moreover have "InheritedMember ''constructor'' \<notin> set (verdict_errors INTENT_VISUALIZE v)"
    by (auto simp: verdict_errors_def)
  ultimately show ?thesis using assms(1-5,8)
    by (simp add: attempt_once_def Let_def candidate_of_def verify_candidate_def withSpecDiagnosis_def attempt_result_def
        summary_throws_def)
qed

definition mark_deps :: agent_deps where
  "mark_deps = sample_deps\<lparr>d_generate := \<lambda>_ _. Inr ''{}'',
     d_parse_json := \<lambda>_. Some (JObj [(''mark'', JStr ''Constructor'')])\<rparr>"

theorem inherited_mark_ends_run_witness:
  "\<exists>log'. attempt_once mark_deps sample_params INTENT_VISUALIZE [] 1 1 None [] [] =
    Threw (Thrown False ''text.replace is not a function'') log'"
proof -
  have "extractJsonObject ''{}'' = ''{}''" "js_trim ''{}'' \<noteq> []" "toLowerCase ''Constructor'' = ''constructor''"
    by code_simp+
  then show ?thesis
    using inherited_mark_ends_run [of mark_deps 1 sample_params "[]" None "[]" "''{}''" 1 "''{}''"]
    by (simp add: mark_deps_def sample_deps_def extractMarkType_def member_def)
qed

section \<open>The JSON object inside a completion\<close>

text \<open>Scanning through a text without closing the object.\<close>

fun pass :: "json_scan \<Rightarrow> string \<Rightarrow> json_scan option" where
  "pass s [] = Some s"
| "pass s (c # cs) = (if \<not> in_string s \<and> c = CHR ''}'' \<and> scan_depth (scan_char c s) = 0 then None
     else pass (scan_char c s) cs)"

lemma pass_append: "pass s (xs @ ys) = Option.bind (pass s xs) (\<lambda>s'. pass s' ys)"
  by (induction s xs rule: pass.induct) auto

lemma scan_pass: "pass s xs = Some s' \<Longrightarrow> scan_object s (xs @ ys) = map_option ((@) xs) (scan_object s' ys)"
proof (induction s xs rule: pass.induct)
  case (2 s c cs)
  then show ?case by (auto simp: Let_def option.map_comp comp_def split: if_splits)
next
  case (1 s)
  then show ?case by (cases "scan_object s ys") simp_all
qed

abbreviation outside :: "nat \<Rightarrow> json_scan" where
  "outside d \<equiv> \<lparr>scan_depth = d, in_string = False, escaped = False\<rparr>"

abbreviation inside :: "nat \<Rightarrow> json_scan" where
  "inside d \<equiv> \<lparr>scan_depth = d, in_string = True, escaped = False\<rparr>"

text \<open>The body of a string literal, and a text whose braces outside string literals are balanced.\<close>

inductive string_body :: "string \<Rightarrow> bool" where
  body_end: "string_body []"
| body_char: "string_body s \<Longrightarrow> c \<noteq> CHR 0x22 \<Longrightarrow> c \<noteq> CHR 0x5C \<Longrightarrow> string_body (c # s)"
| body_escape: "string_body s \<Longrightarrow> string_body (CHR 0x5C # c # s)"

inductive balanced :: "string \<Rightarrow> bool" where
  balanced_end: "balanced []"
| balanced_char: "balanced s \<Longrightarrow> c \<noteq> CHR 0x22 \<Longrightarrow> c \<noteq> CHR ''{'' \<Longrightarrow> c \<noteq> CHR ''}'' \<Longrightarrow> balanced (c # s)"
| balanced_string: "string_body b \<Longrightarrow> balanced s \<Longrightarrow> balanced (CHR 0x22 # b @ CHR 0x22 # s)"
| balanced_braces: "balanced b \<Longrightarrow> balanced s \<Longrightarrow> balanced (CHR ''{'' # b @ CHR ''}'' # s)"

text \<open>The grammar of JSON: white space, numbers and words as runs of other characters, strings, arrays and objects.\<close>

definition json_blank :: "string \<Rightarrow> bool" where
  "json_blank s \<longleftrightarrow> list_all (\<lambda>c. (of_char c :: nat) \<in> {9, 10, 13, 32}) s"

definition json_word :: "string \<Rightarrow> bool" where
  "json_word s \<longleftrightarrow> s \<noteq> [] \<and> list_all (\<lambda>c. (of_char c :: nat) \<in> {43, 45, 46} \<union> {48..57} \<union> {65..90} \<union> {97..122}) s"

inductive json_syntax :: "string \<Rightarrow> bool" and json_elements :: "string \<Rightarrow> bool" and json_pairs :: "string \<Rightarrow> bool" where
  syntax_word: "json_word w \<Longrightarrow> json_syntax w"
| syntax_string: "string_body b \<Longrightarrow> json_syntax (CHR 0x22 # b @ [CHR 0x22])"
| syntax_array: "json_blank xs \<or> json_elements xs \<Longrightarrow> json_syntax (CHR ''['' # xs @ '']'')"
| syntax_object: "json_blank xs \<or> json_pairs xs \<Longrightarrow> json_syntax (CHR ''{'' # xs @ ''}'')"
| elements_one: "json_blank a \<Longrightarrow> json_syntax t \<Longrightarrow> json_blank b \<Longrightarrow> json_elements (a @ t @ b)"
| elements_more: "json_elements xs \<Longrightarrow> json_elements ys \<Longrightarrow> json_elements (xs @ '','' @ ys)"
| pairs_one: "json_blank a \<Longrightarrow> string_body k \<Longrightarrow> json_blank b \<Longrightarrow> json_elements v \<Longrightarrow>
    json_pairs (a @ CHR 0x22 # k @ CHR 0x22 # b @ '':'' @ v)"
| pairs_more: "json_pairs xs \<Longrightarrow> json_pairs ys \<Longrightarrow> json_pairs (xs @ '','' @ ys)"

definition braced :: "string \<Rightarrow> bool" where
  "braced t \<longleftrightarrow> (\<exists>b. t = CHR ''{'' # b @ ''}'' \<and> balanced b)"

lemma balanced_append: "balanced a \<Longrightarrow> balanced b \<Longrightarrow> balanced (a @ b)"
proof (induction rule: balanced.induct)
  case (balanced_string b' s)
  then show ?case using balanced.balanced_string [of b' "s @ b"] by simp
next
  case (balanced_braces b' s)
  then show ?case using balanced.balanced_braces [of b' "s @ b"] by simp
qed (auto intro: balanced.intros)

lemma balanced_plain: "list_all (\<lambda>c. c \<noteq> CHR 0x22 \<and> c \<noteq> CHR ''{'' \<and> c \<noteq> CHR ''}'') s \<Longrightarrow> balanced s"
  by (induction s) (auto intro: balanced.intros)

lemma blank_balanced: "json_blank s \<Longrightarrow> balanced s" and word_balanced: "json_word s \<Longrightarrow> balanced s"
  by (rule balanced_plain; auto simp: json_blank_def json_word_def list_all_iff)+

lemma json_balanced:
  "json_syntax t \<Longrightarrow> balanced t" "json_elements t \<Longrightarrow> balanced t" "json_pairs t \<Longrightarrow> balanced t"
proof (induction rule: json_syntax_json_elements_json_pairs.inducts)
  case (syntax_array xs)
  then have "balanced xs" using blank_balanced by blast
  then have "balanced ([CHR ''[''] @ xs @ '']'')" by (intro balanced_append) (auto intro: balanced.intros)
  then show ?case by simp
next
  case (syntax_object xs)
  then have "balanced xs" using blank_balanced by blast
  then show ?case using balanced_braces balanced_end by blast
next
  case (elements_more xs ys)
  then show ?case by (intro balanced_append) (auto intro: balanced.intros)
next
  case (pairs_more xs ys)
  then show ?case by (intro balanced_append) (auto intro: balanced.intros)
next
  case (pairs_one a k b v)
  then have "balanced b" "balanced v" "balanced '':''" by (auto intro: blank_balanced balanced.intros)
  then have "balanced (b @ '':'' @ v)" by (intro balanced_append)
  then have "balanced (CHR 0x22 # k @ CHR 0x22 # b @ '':'' @ v)" using pairs_one by (intro balanced_string)
  then show ?case using pairs_one by (intro balanced_append [of a]) (auto intro: blank_balanced)
qed (auto intro: balanced_append blank_balanced word_balanced balanced_string balanced_end)

text \<open>Every JSON text of an object is one of the texts that are found.\<close>

lemma json_objects_are_braced: "json_syntax t \<Longrightarrow> t \<noteq> [] \<Longrightarrow> hd t = CHR ''{'' \<Longrightarrow> braced t"
proof (induction rule: json_syntax.cases)
  case (syntax_object xs)
  then show ?case using blank_balanced json_balanced(3) by (auto simp: braced_def)
next
  case (syntax_word w)
  then show ?case by (cases w) (auto simp: json_word_def)
qed auto

lemma pass_string: "string_body b \<Longrightarrow> pass (inside d) b = Some (inside d)"
  by (induction rule: string_body.induct) (simp_all add: scan_char_def)

lemma pass_balanced: "balanced s \<Longrightarrow> 0 < d \<Longrightarrow> pass (outside d) s = Some (outside d)"
proof (induction arbitrary: d rule: balanced.induct)
  case (balanced_braces b s)
  then show ?case by (simp add: pass_append scan_char_def)
qed (simp_all add: pass_append pass_string scan_char_def)

lemma scan_braced: "braced t \<Longrightarrow> scan_object (outside 0) (t @ rest) = Some t"
proof -
  assume "braced t"
  then obtain b where b: "t = CHR ''{'' # b @ ''}''" "balanced b" by (auto simp: braced_def)
  have "pass (outside 1) b = Some (outside 1)" by (rule pass_balanced [OF b(2)]) simp
  from scan_pass [OF this, of "''}'' @ rest"] show ?thesis by (simp add: b(1) scan_char_def Let_def)
qed

lemma dropWhile_space_around:
  assumes "b \<noteq> []" "\<not> js_space (hd b)"
  shows "dropWhile js_space (a @ b @ c) = dropWhile js_space a @ b @ c"
proof (induction a)
  case Nil
  with assms show ?case by (cases b) simp_all
qed simp

lemma js_trim_around:
  assumes "b \<noteq> []" "\<not> js_space (hd b)" "\<not> js_space (last b)"
  shows "js_trim (a @ b @ c) = dropWhile js_space a @ b @ rev (dropWhile js_space (rev c))"
  using dropWhile_space_around [OF assms(1,2), of a c]
    dropWhile_space_around [of "rev b" "rev c" "rev (dropWhile js_space a)"] assms
  by (simp add: js_trim_def hd_rev)

text \<open>C29. The JSON object in an answer is found: if the first brace of the answer, or of its first fenced block, opens a text
  whose braces outside string literals are balanced, then exactly that text is extracted, whatever strings with braces,
  quotes and escapes it holds and whatever follows. Every JSON text of an object, compact or not, is such a text
  (\<open>json_objects_are_braced\<close>).\<close>

theorem json_object_extracted:
  assumes "(case extractFenced completion of Some t \<Rightarrow> t | None \<Rightarrow> completion) = before @ object @ after"
    and "CHR ''{'' \<notin> set before" "braced object"
  shows "extractJsonObject completion = object"
proof -
  obtain b where o: "object = CHR ''{'' # b @ ''}''" using assms(3) by (auto simp: braced_def)
  let ?b = "dropWhile js_space before" and ?a = "rev (dropWhile js_space (rev after))"
  have trim: "js_trim (before @ object @ after) = ?b @ object @ ?a"
    by (rule js_trim_around) (auto simp: js_space_def o)
  have "CHR ''{'' \<notin> set ?b" using assms(2) set_dropWhileD by fastforce
  then have "dropWhile (\<lambda>c. c \<noteq> CHR ''{'') (?b @ object @ ?a) = object @ ?a"
    by (subst dropWhile_append2) (auto simp: o)
  then show ?thesis unfolding extractJsonObject_def assms(1) trim Let_def
    by (simp add: scan_braced [OF assms(3)]) (simp add: o)
qed

text \<open>A pretty-printed object with a fraction and a brace in a string.\<close>

theorem json_object_extracted_witness:
  "extractJsonObject (''Sure: '' @ (''{ '' @ [CHR 0x22] @ ''a}'' @ [CHR 0x22] @ '' : 1.5 }'') @ '' ok'') =
    ''{ '' @ [CHR 0x22] @ ''a}'' @ [CHR 0x22] @ '' : 1.5 }''"
proof -
  let ?o = "''{ '' @ [CHR 0x22] @ ''a}'' @ [CHR 0x22] @ '' : 1.5 }''"
  have 1: "extractFenced (''Sure: '' @ ?o @ '' ok'') = None" by code_simp
  have s: "string_body ''a}''" by (auto intro: string_body.intros)
  have "balanced ('' '' @ CHR 0x22 # ''a}'' @ CHR 0x22 # '' : 1.5 '')"
    by (intro balanced_append balanced_string [OF s] balanced_plain) simp_all
  then have "braced ?o" unfolding braced_def by (intro exI [of _ "'' '' @ CHR 0x22 # ''a}'' @ CHR 0x22 # '' : 1.5 ''"]) simp
  then show ?thesis
    by (intro json_object_extracted [where before = "''Sure: ''" and after = "'' ok''"]) (simp_all only: 1 option.case, simp)
qed

end
