(* ===== verification/Script_Names.thy ===== *)
theory Script_Names
  imports Json "HOL-Library.Multiset"
begin

text \<open>The names of scripts and script folders, \<^verbatim>\<open>scripts/script_types.ts\<close> and \<^verbatim>\<open>scripts/script_name.ts\<close>, and the
  numeric prefix that orders them on disk. Numbers in names are kept exactly (the code reads them with
  \<^verbatim>\<open>parseInt\<close>, which is exact below \<open>2 ^ 53\<close>). A plain object used as a map is an association list in the
  order of insertion; \<open>object_keys\<close> is the order in which JavaScript enumerates it.\<close>

section \<open>Objects as maps\<close>

definition is_digit :: "char \<Rightarrow> bool" where
  "is_digit c = (48 \<le> (of_char c :: nat) \<and> (of_char c :: nat) \<le> 57)"

definition digits_value :: "string \<Rightarrow> nat" where
  "digits_value s = foldl (\<lambda>n c. 10 * n + (of_char c - 48)) 0 s"

text \<open>A key is an array index when it is the decimal text of a number below \<open>2 ^ 32 - 1\<close>.\<close>

definition array_index :: "string \<Rightarrow> nat option" where
  "array_index s =
    (if s \<noteq> [] \<and> list_all is_digit s \<and> nat_text (digits_value s) = s \<and> digits_value s < 4294967295
     then Some (digits_value s) else None)"

definition object_keys :: "(string, 'v) jsmap \<Rightarrow> string list" where
  "object_keys m =
    map snd (sort_key fst (List.map_filter (\<lambda>k. map_option (\<lambda>i. (i, k)) (array_index k)) (js_keys m))) @
    filter (\<lambda>k. array_index k = None) (js_keys m)"

definition object_values :: "(string, 'v) jsmap \<Rightarrow> 'v list" where
  "object_values m = List.map_filter (js_get m) (object_keys m)"

section \<open>Order prefixes\<close>

text \<open>The match of \<^verbatim>\<open>/^(\d+)_/\<close> (the separators are a parameter) at the start of a name: the prefix with its
  separator, and the rest.\<close>

definition order_prefix :: "char set \<Rightarrow> string \<Rightarrow> (string \<times> string) option" where
  "order_prefix seps s =
    (case dropWhile is_digit s of
       c # rest \<Rightarrow> if takeWhile is_digit s \<noteq> [] \<and> c \<in> seps then Some (takeWhile is_digit s @ [c], rest) else None
     | [] \<Rightarrow> None)"

definition PAGE_SEPARATORS :: "char set" where
  "PAGE_SEPARATORS = {CHR ''_''}"

definition SCRIPT_SEPARATORS :: "char set" where
  "SCRIPT_SEPARATORS = {CHR ''-'', CHR ''_''}"

definition normalizeScriptFolderName :: "string \<Rightarrow> string" where
  "normalizeScriptFolderName folderName =
    (case order_prefix PAGE_SEPARATORS folderName of Some (_, rest) \<Rightarrow> rest | None \<Rightarrow> folderName)"

definition formatScriptFolderOrderPrefix :: "nat \<Rightarrow> nat \<Rightarrow> string" where
  "formatScriptFolderOrderPrefix index1 n = pad_text (length (nat_text (max n 1))) index1 @ ''_''"

definition normalizeScriptName :: "string \<Rightarrow> string" where
  "normalizeScriptName fileName =
    (case order_prefix SCRIPT_SEPARATORS fileName of Some (_, rest) \<Rightarrow> rest | None \<Rightarrow> fileName)"

definition scriptOrderPrefixString :: "string \<Rightarrow> string" where
  "scriptOrderPrefixString fileName =
    (case order_prefix SCRIPT_SEPARATORS fileName of Some (p, _) \<Rightarrow> p | None \<Rightarrow> [])"

definition formatScriptOrderPrefix :: "nat \<Rightarrow> nat \<Rightarrow> string" where
  "formatScriptOrderPrefix index1 n = pad_text (length (nat_text (max n 1))) index1 @ ''_''"

definition has_sql_extension :: "string \<Rightarrow> bool" where
  "has_sql_extension s =
    (case rev s of
       l # q # s' # d # _ \<Rightarrow> l \<in> {CHR ''l'', CHR ''L''} \<and> q \<in> {CHR ''q'', CHR ''Q''} \<and>
         s' \<in> {CHR ''s'', CHR ''S''} \<and> d = CHR ''.''
     | _ \<Rightarrow> False)"

definition scriptDisplayName :: "string \<Rightarrow> string" where
  "scriptDisplayName fileName =
    (let n = normalizeScriptName fileName in if has_sql_extension n then take (length n - 4) n else n)"

definition scriptOrderIndex :: "string \<Rightarrow> nat" where
  "scriptOrderIndex fileName =
    (case order_prefix SCRIPT_SEPARATORS fileName of Some (p, _) \<Rightarrow> digits_value (butlast p) | None \<Rightarrow> 0)"

section \<open>Unique names\<close>

text \<open>The loops of \<^verbatim>\<open>uniqueScriptBase\<close> and \<^verbatim>\<open>uniqueScriptFolderName\<close>: the base, then the base with the
  suffixes 2, 3, ... behind a separator.\<close>

definition suffixed :: "string \<Rightarrow> string \<Rightarrow> nat \<Rightarrow> string" where
  "suffixed sep base k = (if k < 2 then base else base @ sep @ nat_text k)"

lemma digit_char_inj: "a < 10 \<Longrightarrow> b < 10 \<Longrightarrow> digit_char a = digit_char b \<Longrightarrow> a = b"
proof -
  assume "a < 10" "b < 10" "digit_char a = digit_char b"
  then have "(of_char (char_of (48 + a)) :: nat) = of_char (char_of (48 + b))"
    by (simp add: digit_char_def)
  with \<open>a < 10\<close> \<open>b < 10\<close> show "a = b" by simp
qed

lemma is_digit_digit_char [simp]: "d < 10 \<Longrightarrow> is_digit (digit_char d)"
  by (simp add: is_digit_def digit_char_def)

lemma digit_char_value [simp]: "d < 10 \<Longrightarrow> (of_char (digit_char d) :: nat) - 48 = d"
  by (simp add: digit_char_def)

lemma digits_value_append [simp]: "digits_value (s @ [c]) = 10 * digits_value s + (of_char c - 48)"
  by (simp add: digits_value_def)

lemma digits_value_nat_text [simp]: "digits_value (nat_text n) = n"
proof (induction n rule: nat_text.induct)
  case (1 n)
  show ?case
  proof (cases "n < 10")
    case True
    then show ?thesis by (subst nat_text.simps) (simp add: digits_value_def)
  next
    case False
    then show ?thesis using 1 by (subst nat_text.simps) simp
  qed
qed

lemma nat_text_is_digit: "list_all is_digit (nat_text n)"
proof (induction n rule: nat_text.induct)
  case (1 n)
  show ?case
  proof (cases "n < 10")
    case True
    then show ?thesis by (subst nat_text.simps) simp
  next
    case False
    then show ?thesis using 1 by (subst nat_text.simps) simp
  qed
qed

lemma nat_text_not_Nil [simp]: "nat_text n \<noteq> []"
  by (subst nat_text.simps) simp

lemma nat_text_inj: "nat_text a = nat_text b \<Longrightarrow> a = b"
  by (metis digits_value_nat_text)

lemma suffixed_inj: "suffixed sep base j = suffixed sep base k \<Longrightarrow> 0 < j \<Longrightarrow> 0 < k \<Longrightarrow> j = k"
  by (auto simp: suffixed_def dest: nat_text_inj split: if_splits)

lemma finite_taken: "finite {j. k \<le> j \<and> suffixed sep base j \<in> set taken}"
proof -
  let ?J = "{j. k \<le> j \<and> 0 < j \<and> suffixed sep base j \<in> set taken}"
  have "inj_on (suffixed sep base) ?J" by (rule inj_onI) (auto intro: suffixed_inj)
  moreover have "suffixed sep base ` ?J \<subseteq> set taken" by auto
  ultimately have "finite ?J" by (meson finite_subset finite_imageD finite_set)
  moreover have "{j. k \<le> j \<and> suffixed sep base j \<in> set taken} \<subseteq> insert 0 ?J" by auto
  ultimately show ?thesis by (meson finite.insertI finite_subset)
qed

function unique_loop :: "string \<Rightarrow> string list \<Rightarrow> string \<Rightarrow> nat \<Rightarrow> string" where
  "unique_loop sep taken base k =
    (if suffixed sep base k \<in> set taken then unique_loop sep taken base (k + 1) else suffixed sep base k)"
  by auto
termination
proof (relation "measure (\<lambda>(sep, taken, base, k). card {j. k \<le> j \<and> suffixed sep base j \<in> set taken})")
  fix sep base :: string and taken :: "string list" and k :: nat
  assume t: "suffixed sep base k \<in> set taken"
  have "k \<in> {j. k \<le> j \<and> suffixed sep base j \<in> set taken}"
    "k \<notin> {j. k + 1 \<le> j \<and> suffixed sep base j \<in> set taken}" using t by auto
  moreover have "{j. k + 1 \<le> j \<and> suffixed sep base j \<in> set taken} \<subseteq> {j. k \<le> j \<and> suffixed sep base j \<in> set taken}"
    by (rule Collect_mono) auto
  ultimately have "{j. k + 1 \<le> j \<and> suffixed sep base j \<in> set taken} \<subset> {j. k \<le> j \<and> suffixed sep base j \<in> set taken}"
    by (metis (no_types, lifting) psubsetI)
  from psubset_card_mono [OF finite_taken this]
  show "((sep, taken, base, k + 1), sep, taken, base, k)
      \<in> measure (\<lambda>(sep, taken, base, k). card {j. k \<le> j \<and> suffixed sep base j \<in> set taken})" by simp
qed simp

declare unique_loop.simps [simp del]

lemma unique_loop_fresh: "unique_loop sep taken base k \<notin> set taken"
proof (induction sep taken base k rule: unique_loop.induct)
  case (1 sep taken base k)
  then show ?case by (subst unique_loop.simps) simp
qed

lemma unique_loop_suffixed: "\<exists>j\<ge>k. unique_loop sep taken base k = suffixed sep base j"
proof (induction sep taken base k rule: unique_loop.induct)
  case (1 sep taken base k)
  show ?case
  proof (cases "suffixed sep base k \<in> set taken")
    case True
    from 1 [OF this] obtain j where "k + 1 \<le> j" "unique_loop sep taken base (k + 1) = suffixed sep base j" by auto
    with True show ?thesis by (subst unique_loop.simps) (auto intro!: exI [of _ j])
  next
    case False
    then show ?thesis by (subst unique_loop.simps) auto
  qed
qed

definition uniqueScriptBase :: "string \<Rightarrow> (string, 'v) jsmap \<Rightarrow> string \<Rightarrow> string" where
  "uniqueScriptBase base existing excludeFileName =
    unique_loop ''-'' (map scriptDisplayName (filter (\<lambda>k. k \<noteq> excludeFileName) (object_keys existing))) base 1"

definition uniqueScriptFolderName :: "string \<Rightarrow> (string, 'v) jsmap \<Rightarrow> string \<Rightarrow> string" where
  "uniqueScriptFolderName baseName pages excludeFolder =
    unique_loop '' '' (map normalizeScriptFolderName (filter (\<lambda>k. k \<noteq> excludeFolder) (object_keys pages)))
      (normalizeScriptFolderName baseName) 1"

section \<open>New names\<close>

definition ADJECTIVES :: "string list" where
  "ADJECTIVES = [''amber'', ''ancient'', ''autumn'', ''azure'', ''bold'', ''brave'', ''breezy'', ''bright'',
    ''brisk'', ''calm'', ''clever'', ''cosmic'', ''crimson'', ''crisp'', ''curious'', ''daring'',
    ''dawn'', ''deep'', ''eager'', ''electric'', ''emerald'', ''fancy'', ''fearless'', ''fierce'',
    ''fluffy'', ''frosty'', ''gentle'', ''gilded'', ''golden'', ''happy'', ''hidden'', ''humble'',
    ''icy'', ''indigo'', ''jolly'', ''keen'', ''lively'', ''lucid'', ''lucky'', ''mellow'',
    ''merry'', ''mighty'', ''misty'', ''nimble'', ''noble'', ''patient'', ''placid'', ''polished'',
    ''proud'', ''quiet'', ''rapid'', ''royal'', ''rugged'', ''rustic'', ''scarlet'', ''serene'',
    ''silent'', ''silver'', ''sleek'', ''snowy'', ''solar'', ''spry'', ''stellar'', ''sturdy'',
    ''sunny'', ''swift'', ''tidy'', ''tranquil'', ''velvet'', ''vivid'', ''wandering'', ''wise'',
    ''witty'', ''zesty'']"

definition ANIMALS :: "string list" where
  "ANIMALS = [''badger'', ''bat'', ''bear'', ''beaver'', ''bison'', ''cheetah'', ''cobra'', ''condor'',
    ''cougar'', ''coyote'', ''crane'', ''cricket'', ''dingo'', ''dolphin'', ''eagle'', ''falcon'',
    ''ferret'', ''finch'', ''fox'', ''gazelle'', ''gecko'', ''gibbon'', ''heron'', ''ibex'',
    ''iguana'', ''impala'', ''jackal'', ''jaguar'', ''kestrel'', ''koala'', ''lemur'', ''leopard'',
    ''lynx'', ''magpie'', ''mantis'', ''marmot'', ''marten'', ''meerkat'', ''mole'', ''moose'',
    ''narwhal'', ''newt'', ''ocelot'', ''orca'', ''osprey'', ''otter'', ''owl'', ''panda'',
    ''panther'', ''pelican'', ''penguin'', ''puffin'', ''puma'', ''quail'', ''rabbit'', ''raccoon'',
    ''raven'', ''salmon'', ''seal'', ''shark'', ''sparrow'', ''stoat'', ''stork'', ''tapir'',
    ''teal'', ''tiger'', ''toucan'', ''turtle'', ''viper'', ''vole'', ''walrus'', ''weasel'',
    ''wolf'', ''wombat'']"

definition MAX_ATTEMPTS :: nat where
  "MAX_ATTEMPTS = 32"

text \<open>\<^verbatim>\<open>Math.random()\<close> is a parameter: its \<open>n\<close>-th value is \<open>rng n / 2 ^ 53\<close>, below 1. The functions return the
  number of values used so far along with their result.\<close>

definition rng_ok :: "(nat \<Rightarrow> nat) \<Rightarrow> bool" where
  "rng_ok rng \<longleftrightarrow> (\<forall>n. rng n < 2 ^ 53)"

definition pick_word :: "string list \<Rightarrow> nat \<Rightarrow> string" where
  "pick_word ws r = ws ! (r * length ws div 2 ^ 53)"

definition random_pair :: "(nat \<Rightarrow> nat) \<Rightarrow> nat \<Rightarrow> string" where
  "random_pair rng n = pick_word ADJECTIVES (rng n) @ ''_'' @ pick_word ANIMALS (rng (n + 1))"

fun random_retry :: "string list \<Rightarrow> (nat \<Rightarrow> nat) \<Rightarrow> nat \<Rightarrow> nat \<Rightarrow> string \<Rightarrow> string \<times> nat" where
  "random_retry taken rng 0 n candidate = (candidate, n)"
| "random_retry taken rng (Suc attempts) n candidate =
    (if candidate \<in> set taken then random_retry taken rng attempts (n + 2) (random_pair rng n) else (candidate, n))"

definition randomScriptName :: "string list \<Rightarrow> (nat \<Rightarrow> nat) \<Rightarrow> nat \<Rightarrow> string \<times> nat" where
  "randomScriptName taken rng n = random_retry taken rng MAX_ATTEMPTS (n + 2) (random_pair rng n)"

record ScriptRename =
  oldFileName :: string
  newFileName :: string

record ScriptInsertionPlan =
  plan_newFileName :: string
  plan_repad :: "ScriptRename list"

definition max_prefix :: "string list \<Rightarrow> nat" where
  "max_prefix ks = fold (\<lambda>key n. max n (scriptOrderIndex key)) ks 0"

definition repad_of :: "nat \<Rightarrow> string \<Rightarrow> ScriptRename option" where
  "repad_of width key =
    (let n = scriptOrderIndex key; desired = pad_text width n @ ''_'' @ normalizeScriptName key in
     if n = 0 \<or> desired = key then None else Some \<lparr>oldFileName = key, newFileName = desired\<rparr>)"

definition planScriptInsertion ::
  "(string, 'v) jsmap \<Rightarrow> string option \<Rightarrow> (nat \<Rightarrow> nat) \<Rightarrow> nat \<Rightarrow> ScriptInsertionPlan \<times> nat" where
  "planScriptInsertion existing base rng n =
    (let ks = object_keys existing;
         newIndex = max (max_prefix ks + 1) (length ks + 1);
         width = length (nat_text newIndex);
         (requested, n) = (case base of Some b \<Rightarrow> (b, n) | None \<Rightarrow> randomScriptName (map scriptDisplayName ks) rng n);
         clean = uniqueScriptBase requested existing []
     in (\<lparr>plan_newFileName = formatScriptOrderPrefix newIndex newIndex @ clean @ ''.sql'',
          plan_repad = List.map_filter (repad_of width) ks\<rparr>, n))"

section \<open>Facts\<close>

subsection \<open>Enumeration\<close>

lemma mset_object_keys: "mset (object_keys m) = mset (js_keys m)"
proof -
  have split: "image_mset snd (mset (List.map_filter (\<lambda>k. map_option (\<lambda>i. (i, k)) (array_index k)) ks)) +
      mset (filter (\<lambda>k. array_index k = None) ks) = mset ks" for ks
    by (induction ks) (auto simp: List.map_filter_simps split: option.splits)
  show ?thesis unfolding object_keys_def mset_append mset_map [of snd] mset_sort split ..
qed

lemma set_object_keys [simp]: "set (object_keys m) = fst ` set m"
  using mset_eq_setD [OF mset_object_keys [of m]] by simp

lemma distinct_object_keys [simp]: "jsmap_ok m \<Longrightarrow> distinct (object_keys m)"
  using mset_eq_imp_distinct_iff [OF mset_object_keys [of m]] by (simp add: jsmap_ok_def)

lemma length_object_keys [simp]: "length (object_keys m) = length m"
  using mset_eq_length [OF mset_object_keys [of m]] by simp

subsection \<open>Prefixes\<close>

lemma digits_value_zeros: "digits_value (replicate k (CHR ''0'') @ s) = digits_value s"
  by (induction k) (simp_all add: digits_value_def)

lemma digits_value_pad [simp]: "digits_value (pad_text w n) = n"
  by (simp add: pad_text_def Let_def digits_value_zeros)

lemma pad_text_is_digit: "list_all is_digit (pad_text w n)"
  by (simp add: pad_text_def Let_def nat_text_is_digit list_all_iff) (auto simp: is_digit_def nat_text_is_digit [unfolded list_all_iff is_digit_def])

lemma pad_text_not_Nil [simp]: "pad_text w n \<noteq> []"
  by (simp add: pad_text_def Let_def)

lemma order_prefix_digits:
  assumes "list_all is_digit p" "p \<noteq> []" "\<not> is_digit c"
  shows "order_prefix seps (p @ c # r) = (if c \<in> seps then Some (p @ [c], r) else None)"
proof -
  have "takeWhile is_digit (p @ c # r) = p" "dropWhile is_digit (p @ c # r) = c # r"
    using assms(1,3) by (induction p) auto
  then show ?thesis using assms(2) by (simp add: order_prefix_def)
qed

lemma order_prefix_SomeD:
  assumes "order_prefix seps s = Some (p, r)"
  shows "s = p @ r \<and> (\<exists>d c. p = d @ [c] \<and> d \<noteq> [] \<and> list_all is_digit d \<and> c \<in> seps \<and> \<not> is_digit c)"
proof -
  from assms obtain c where c: "dropWhile is_digit s = c # r" "takeWhile is_digit s \<noteq> []" "c \<in> seps"
    "p = takeWhile is_digit s @ [c]"
    by (auto simp: order_prefix_def split: list.splits if_splits)
  from c(1) have "\<not> is_digit c" by (metis hd_dropWhile list.distinct(1) list.sel(1))
  moreover have "list_all is_digit (takeWhile is_digit s)" by (auto simp: list_all_iff dest: set_takeWhileD)
  moreover have "s = takeWhile is_digit s @ c # r" by (metis c(1) takeWhile_dropWhile_id)
  ultimately show ?thesis using c by auto
qed

lemma underscore_not_digit [simp]: "\<not> is_digit (CHR ''_'')" "\<not> is_digit (CHR ''-'')"
  by (simp_all add: is_digit_def)

lemma order_prefix_pad:
  "CHR ''_'' \<in> seps \<Longrightarrow> order_prefix seps (pad_text w n @ CHR ''_'' # r) = Some (pad_text w n @ ''_'', r)"
  by (simp add: order_prefix_digits pad_text_is_digit)

lemma normalize_folder_format [simp]: "normalizeScriptFolderName (formatScriptFolderOrderPrefix i n @ s) = s"
  by (simp add: normalizeScriptFolderName_def formatScriptFolderOrderPrefix_def order_prefix_pad PAGE_SEPARATORS_def)

lemma format_folder_inj:
  "formatScriptFolderOrderPrefix i n @ s = formatScriptFolderOrderPrefix j n @ t \<Longrightarrow> i = j \<and> s = t"
proof -
  assume eq: "formatScriptFolderOrderPrefix i n @ s = formatScriptFolderOrderPrefix j n @ t"
  let ?w = "length (nat_text (max n 1))"
  have "order_prefix PAGE_SEPARATORS (formatScriptFolderOrderPrefix k n @ u) = Some (pad_text ?w k @ ''_'', u)" for k u
    by (simp add: formatScriptFolderOrderPrefix_def order_prefix_pad PAGE_SEPARATORS_def)
  from this [of i s] this [of j t] eq have "pad_text ?w i = pad_text ?w j" "s = t" by auto
  then show ?thesis by (metis digits_value_pad)
qed

lemma normalize_script_pad [simp]: "normalizeScriptName (pad_text w n @ CHR ''_'' # s) = s"
  by (simp add: normalizeScriptName_def order_prefix_pad SCRIPT_SEPARATORS_def)

lemma scriptOrderIndex_pad [simp]: "scriptOrderIndex (pad_text w n @ CHR ''_'' # s) = n"
  by (simp add: scriptOrderIndex_def order_prefix_pad SCRIPT_SEPARATORS_def butlast_append)

lemma format_script_eq: "formatScriptOrderPrefix i n @ s = pad_text (length (nat_text (max n 1))) i @ CHR ''_'' # s"
  by (simp add: formatScriptOrderPrefix_def)

lemma format_script_inj:
  "formatScriptOrderPrefix i n @ s = formatScriptOrderPrefix j n @ t \<Longrightarrow> i = j \<and> s = t"
  unfolding format_script_eq by (metis normalize_script_pad scriptOrderIndex_pad)

lemma scriptOrderPrefixString_pad [simp]: "scriptOrderPrefixString (pad_text w n @ CHR ''_'' # s) = pad_text w n @ ''_''"
  by (simp add: scriptOrderPrefixString_def order_prefix_pad SCRIPT_SEPARATORS_def)

lemma prefix_normalize: "scriptOrderPrefixString s @ normalizeScriptName s = s"
  by (auto simp: scriptOrderPrefixString_def normalizeScriptName_def split: option.splits dest: order_prefix_SomeD)

text \<open>A file that carries a prefix keeps it in front of any new name.\<close>

lemma normalize_prefixed:
  assumes "scriptOrderPrefixString s \<noteq> []"
  shows "normalizeScriptName (scriptOrderPrefixString s @ t) = t"
proof -
  from assms obtain p r where p: "order_prefix SCRIPT_SEPARATORS s = Some (p, r)"
    by (auto simp: scriptOrderPrefixString_def split: option.splits)
  from order_prefix_SomeD [OF this] obtain d c where
    "p = d @ [c]" "d \<noteq> []" "list_all is_digit d" "c \<in> SCRIPT_SEPARATORS" "\<not> is_digit c" by auto
  with p show ?thesis by (simp add: normalizeScriptName_def scriptOrderPrefixString_def order_prefix_digits)
qed

subsection \<open>Extensions and unique names\<close>

lemma has_sql_extension_sql [simp]: "has_sql_extension (s @ ''.sql'')"
  by (simp add: has_sql_extension_def)

lemma display_of_normalized: "normalizeScriptName f = s @ ''.sql'' \<Longrightarrow> scriptDisplayName f = s"
  by (simp add: scriptDisplayName_def)

lemma uniqueScriptBase_fresh:
  assumes "k \<in> fst ` set existing" "k \<noteq> exclude"
  shows "scriptDisplayName k \<noteq> uniqueScriptBase b existing exclude"
proof -
  have "uniqueScriptBase b existing exclude
      \<notin> set (map scriptDisplayName (filter (\<lambda>k. k \<noteq> exclude) (object_keys existing)))"
    unfolding uniqueScriptBase_def by (rule unique_loop_fresh)
  moreover have "k \<in> set (filter (\<lambda>k. k \<noteq> exclude) (object_keys existing))" using assms by simp
  ultimately show ?thesis by (metis image_eqI list.set_map)
qed

lemma uniqueScriptFolderName_fresh:
  assumes "k \<in> fst ` set pages" "k \<noteq> exclude"
  shows "normalizeScriptFolderName k \<noteq> uniqueScriptFolderName b pages exclude"
proof -
  have "uniqueScriptFolderName b pages exclude
      \<notin> set (map normalizeScriptFolderName (filter (\<lambda>k. k \<noteq> exclude) (object_keys pages)))"
    unfolding uniqueScriptFolderName_def by (rule unique_loop_fresh)
  moreover have "k \<in> set (filter (\<lambda>k. k \<noteq> exclude) (object_keys pages))" using assms by simp
  ultimately show ?thesis by (metis image_eqI list.set_map)
qed

subsection \<open>Insertion plans\<close>

lemma repad_of_normalize: "repad_of w k = Some r \<Longrightarrow> normalizeScriptName (newFileName r) = normalizeScriptName k"
  by (auto simp: repad_of_def Let_def split: if_splits)

lemma repad_of_old: "repad_of w k = Some r \<Longrightarrow> oldFileName r = k \<and> newFileName r \<noteq> k"
  by (auto simp: repad_of_def Let_def split: if_splits)

lemma plan_repad_eq:
  "planScriptInsertion existing base rng n = (plan, n') \<Longrightarrow>
    \<exists>w. plan_repad plan = List.map_filter (repad_of w) (object_keys existing)"
  by (auto simp: planScriptInsertion_def Let_def split: prod.splits)

lemma plan_new_name:
  assumes "planScriptInsertion existing base rng n = (plan, n')"
  obtains i b where "plan_newFileName plan = formatScriptOrderPrefix i i @ b @ ''.sql''"
    "b = uniqueScriptBase (fst (case base of Some b \<Rightarrow> (b, n) | None \<Rightarrow> randomScriptName (map scriptDisplayName (object_keys existing)) rng n)) existing []"
    "max_prefix (object_keys existing) < i" "length existing < i"
  using assms by (auto simp: planScriptInsertion_def Let_def split: prod.splits intro!: that)

lemma plan_new_display:
  assumes "planScriptInsertion existing base rng n = (plan, n')" "k \<in> fst ` set existing" "k \<noteq> []"
  shows "scriptDisplayName k \<noteq> scriptDisplayName (plan_newFileName plan)"
proof -
  from plan_new_name [OF assms(1)] obtain i b where
    b: "plan_newFileName plan = formatScriptOrderPrefix i i @ b @ ''.sql''" "\<exists>x. b = uniqueScriptBase x existing []" by metis
  have "scriptDisplayName (plan_newFileName plan) = b"
    by (rule display_of_normalized) (simp only: b(1) format_script_eq normalize_script_pad)
  with b(2) uniqueScriptBase_fresh [OF assms(2,3)] show ?thesis by metis
qed

lemma max_prefix_ge: "k \<in> set ks \<Longrightarrow> scriptOrderIndex k \<le> max_prefix ks"
proof -
  have "n \<le> fold (\<lambda>key n. max n (scriptOrderIndex key)) ks n" for ks n
    by (induction ks arbitrary: n) (auto, metis max.bounded_iff)
  then have "k \<in> set ks \<Longrightarrow> scriptOrderIndex k \<le> fold (\<lambda>key n. max n (scriptOrderIndex key)) ks n" for ks n
    by (induction ks arbitrary: n) (auto, metis max.bounded_iff)
  then show "k \<in> set ks \<Longrightarrow> scriptOrderIndex k \<le> max_prefix ks" by (simp add: max_prefix_def)
qed

end
