(* ===== verification/Notebook_World.thy ===== *)
theory Notebook_World
  imports Storage_Programs Script_Names
begin

text \<open>What the scripts of a notebook live in: the Wasm heap of the core module with its script objects and the
  buffers it hands out, the catalog and the script registry that refer to scripts, and the calls of the
  storage writer. The engine itself (the C++ core) is a parameter, \<open>nb_core\<close>; the wrapper classes of
  \<^verbatim>\<open>core/api.ts\<close> throw when an object was destroyed, and this is part of the model.\<close>

section \<open>World\<close>

text \<open>A script object is named by its catalog entry id, which the core counts up from 1. \<open>w_calls\<close> counts the calls
  of the engine, so that its answers may differ from call to call.\<close>

record nb_world =
  w_text :: "(handle, string) jsmap"
  w_path :: "(handle, string) jsmap"
  w_nextScript :: nat
  w_buffers :: "handle list"
  w_nextBuffer :: nat
  w_catalog :: "handle list"
  w_registry :: "handle list"
  w_writes :: "(string \<times> WriteTask \<times> nat) list"
  w_draws :: nat
  w_calls :: nat

text \<open>A call returns, or throws in some world.\<close>

datatype 'a nb = Return 'a nb_world | Raise nb_world

definition nb_bind :: "'a nb \<Rightarrow> ('a \<Rightarrow> nb_world \<Rightarrow> 'b nb) \<Rightarrow> 'b nb" where
  "nb_bind r f = (case r of Return x w \<Rightarrow> f x w | Raise w \<Rightarrow> Raise w)"

lemma nb_bind_Return [simp]: "nb_bind (Return x w) f = f x w"
  by (simp add: nb_bind_def)

lemma nb_bind_Raise [simp]: "nb_bind (Raise w) f = Raise w"
  by (simp add: nb_bind_def)

lemma nb_bind_eq_Return: "nb_bind r f = Return y w' \<longleftrightarrow> (\<exists>x w. r = Return x w \<and> f x w = Return y w')"
  by (cases r) simp_all

section \<open>Scripts\<close>

definition createScript :: "nb_world \<Rightarrow> handle \<times> nb_world" where
  "createScript w = (w_nextScript w,
     w\<lparr>w_text := js_set (w_text w) (w_nextScript w) [], w_nextScript := w_nextScript w + 1\<rparr>)"

definition script_toString :: "handle \<Rightarrow> nb_world \<Rightarrow> string nb" where
  "script_toString h w = (case js_get (w_text w) h of Some t \<Rightarrow> Return t w | None \<Rightarrow> Raise w)"

definition script_replaceText :: "handle \<Rightarrow> string \<Rightarrow> nb_world \<Rightarrow> unit nb" where
  "script_replaceText h t w =
    (if js_has (w_text w) h then Return () (w\<lparr>w_text := js_set (w_text w) h t\<rparr>) else Raise w)"

definition script_setPath :: "handle \<Rightarrow> string \<Rightarrow> nb_world \<Rightarrow> unit nb" where
  "script_setPath h p w =
    (if js_has (w_text w) h then Return () (w\<lparr>w_path := js_set (w_path w) h p\<rparr>) else Raise w)"

definition script_destroy :: "handle \<Rightarrow> nb_world \<Rightarrow> nb_world" where
  "script_destroy h w = w\<lparr>w_text := js_delete (w_text w) h, w_path := js_delete (w_path w) h\<rparr>"

text \<open>The catalog and the registry throw for a destroyed script; dropping one they do not hold does nothing.\<close>

definition catalog_dropScript :: "handle \<Rightarrow> nb_world \<Rightarrow> unit nb" where
  "catalog_dropScript h w =
    (if js_has (w_text w) h then Return () (w\<lparr>w_catalog := removeAll h (w_catalog w)\<rparr>) else Raise w)"

definition registry_dropScript :: "handle \<Rightarrow> nb_world \<Rightarrow> unit nb" where
  "registry_dropScript h w =
    (if js_has (w_text w) h then Return () (w\<lparr>w_registry := removeAll h (w_registry w)\<rparr>) else Raise w)"

section \<open>Buffers\<close>

definition new_buffer :: "nb_world \<Rightarrow> handle \<times> nb_world" where
  "new_buffer w = (w_nextBuffer w, w\<lparr>w_buffers := w_nextBuffer w # w_buffers w, w_nextBuffer := w_nextBuffer w + 1\<rparr>)"

text \<open>Destroying a buffer twice does nothing.\<close>

definition destroy_buffer :: "handle \<Rightarrow> nb_world \<Rightarrow> nb_world" where
  "destroy_buffer b w = w\<lparr>w_buffers := removeAll b (w_buffers w)\<rparr>"

definition destroy_option :: "handle option \<Rightarrow> nb_world \<Rightarrow> nb_world" where
  "destroy_option b w = (case b of Some b \<Rightarrow> destroy_buffer b w | None \<Rightarrow> w)"

section \<open>The engine\<close>

text \<open>What the application reads from an analyzed script.\<close>

datatype VisSourceKind = SCRIPT_REFERENCE | TABLE_REFERENCE | INLINE_SELECT | OTHER_SOURCE

record VisualizationSpec =
  vs_sourceKind :: VisSourceKind
  vs_renderer :: "string option"
  vs_sourceResolvedTableId :: nat
  vs_sourceQualifiedName :: "(string option \<times> string option \<times> string option) option"
  vs_sourceSpan :: "(nat \<times> nat) option"
  vs_umapSpec :: "string option"
  vs_vegaliteSpec :: "string option"

record Analysis =
  an_tableNames :: "string option list"
  an_visualizationSpecs :: "VisualizationSpec list"
  an_visStatement :: bool

text \<open>The engine's answers in a world: the analysis of a script, none when \<^verbatim>\<open>analyze\<close> throws; whether adding it to the
  registry and loading it into the catalog succeed; whether a derived focus carries column information;
  whether a diff could be computed; whether an output schema is new. \<^verbatim>\<open>JSON.parse\<close> and \<^verbatim>\<open>parseUmapSpec\<close> are
  its last two fields.\<close>

record nb_core =
  c_analyze :: "nb_world \<Rightarrow> handle \<Rightarrow> Analysis option"
  c_addScript :: "nb_world \<Rightarrow> handle \<Rightarrow> bool"
  c_loadScript :: "nb_world \<Rightarrow> handle \<Rightarrow> bool"
  c_cursorFocus :: "nb_world \<Rightarrow> handle \<Rightarrow> bool option"
  c_completionFocus :: "nb_world \<Rightarrow> handle \<Rightarrow> bool option"
  c_diff :: "nb_world \<Rightarrow> handle \<Rightarrow> string \<Rightarrow> bool"
  c_setOutputSchema :: "nb_world \<Rightarrow> handle \<Rightarrow> string list \<Rightarrow> bool"
  c_parseJson :: "string \<Rightarrow> jsv option"
  c_parseUmapSpec :: "string \<Rightarrow> jsv option"

definition engine_call :: "nb_world \<Rightarrow> nb_world" where
  "engine_call w = w\<lparr>w_calls := w_calls w + 1\<rparr>"

text \<open>\<^verbatim>\<open>scriptRegistry.addScript\<close> and \<^verbatim>\<open>catalog.loadScript\<close>, which throw when the engine refuses the script.\<close>

definition registry_addScript :: "nb_core \<Rightarrow> handle \<Rightarrow> nb_world \<Rightarrow> unit nb" where
  "registry_addScript c h w =
    (if js_has (w_text w) h \<and> c_addScript c w h
     then Return () (engine_call (w\<lparr>w_registry := List.insert h (w_registry w)\<rparr>)) else Raise (engine_call w))"

definition catalog_loadScript :: "nb_core \<Rightarrow> handle \<Rightarrow> nb_world \<Rightarrow> unit nb" where
  "catalog_loadScript c h w =
    (if js_has (w_text w) h \<and> c_loadScript c w h
     then Return () (engine_call (w\<lparr>w_catalog := List.insert h (w_catalog w)\<rparr>)) else Raise (engine_call w))"

section \<open>Buffers of an analysis\<close>

record DashQLScriptBuffers =
  bf_parsed :: "handle option"
  bf_analyzed :: "(handle \<times> Analysis) option"

definition no_buffers :: DashQLScriptBuffers where
  "no_buffers = \<lparr>bf_parsed = None, bf_analyzed = None\<rparr>"

definition destroyBuffers :: "DashQLScriptBuffers \<Rightarrow> nb_world \<Rightarrow> nb_world" where
  "destroyBuffers b w = destroy_option (map_option fst (bf_analyzed b)) (destroy_option (bf_parsed b) w)"

text \<open>\<^verbatim>\<open>analyzeScript\<close> catches what \<^verbatim>\<open>analyze\<close> throws, a destroyed script included.\<close>

definition analyzeScript :: "nb_core \<Rightarrow> handle \<Rightarrow> nb_world \<Rightarrow> DashQLScriptBuffers \<times> nb_world" where
  "analyzeScript c h w =
    (case (js_get (w_text w) h, c_analyze c w h) of
       (Some _, Some a) \<Rightarrow> (let (p, w) = new_buffer (engine_call w); (b, w) = new_buffer w
         in (\<lparr>bf_parsed = Some p, bf_analyzed = Some (b, a)\<rparr>, w))
     | _ \<Rightarrow> (no_buffers, engine_call w))"

section \<open>The VISUALIZE statement of a script\<close>

text \<open>\<^verbatim>\<open>resolveVisualizeQuery\<close> of \<^verbatim>\<open>connection/visualize_executor.ts\<close>.\<close>

definition quoteIdent :: "string \<Rightarrow> string" where
  "quoteIdent n = ''\"'' @ concat (map (\<lambda>ch. if ch = CHR 0x22 then ''\"\"'' else [ch]) n) @ ''\"''"

definition readScriptReferenceKey :: "VisualizationSpec \<Rightarrow> nat option" where
  "readScriptReferenceKey spec =
    (if vs_sourceResolvedTableId spec = 0 then None else Some (vs_sourceResolvedTableId spec div 2 ^ 32))"

definition truthy_part :: "string option \<Rightarrow> string list" where
  "truthy_part p = (case p of Some n \<Rightarrow> if n = [] then [] else [quoteIdent n] | None \<Rightarrow> [])"

fun join_dots :: "string list \<Rightarrow> string" where
  "join_dots [] = []"
| "join_dots [p] = p"
| "join_dots (p # ps) = p @ ''.'' @ join_dots ps"

definition visualize_sql ::
  "VisualizationSpec \<Rightarrow> string \<Rightarrow> (nat \<Rightarrow> nb_world \<Rightarrow> string option nb) \<Rightarrow> nb_world \<Rightarrow> string option nb" where
  "visualize_sql spec scriptText lookup w =
    (case vs_sourceKind spec of
       SCRIPT_REFERENCE \<Rightarrow> (case readScriptReferenceKey spec of Some k \<Rightarrow> lookup k w | None \<Rightarrow> Return None w)
     | TABLE_REFERENCE \<Rightarrow> Return (case vs_sourceQualifiedName spec of
           Some (db, schema, tbl) \<Rightarrow> (let parts = truthy_part db @ truthy_part schema @ truthy_part tbl
             in if parts \<noteq> [] then Some (''SELECT * FROM '' @ join_dots parts) else None)
         | None \<Rightarrow> None) w
     | INLINE_SELECT \<Rightarrow> Return (map_option
           (\<lambda>(offset, len). js_trim (take (len - 2) (drop (offset + 1) scriptText))) (vs_sourceSpan spec)) w
     | OTHER_SOURCE \<Rightarrow> Return None w)"

datatype ResolvedVisualizeQuery =
    VegaLiteQuery (vq_sql: string) jsv
  | UmapQuery (vq_sql: string) jsv

definition visualize_query :: "nb_core \<Rightarrow> VisualizationSpec \<Rightarrow> string \<Rightarrow> ResolvedVisualizeQuery option" where
  "visualize_query c spec sql =
    (let nonempty = (\<lambda>raw. Option.bind raw (\<lambda>r. if r = [] then None else Some r)) in
     if vs_renderer spec = Some ''umap''
     then map_option (UmapQuery sql) (Option.bind (nonempty (vs_umapSpec spec)) (c_parseUmapSpec c))
     else map_option (VegaLiteQuery sql) (Option.bind (nonempty (vs_vegaliteSpec spec)) (c_parseJson c)))"

definition resolveVisualizeQuery ::
  "nb_core \<Rightarrow> DashQLScriptBuffers \<Rightarrow> string \<Rightarrow> (nat \<Rightarrow> nb_world \<Rightarrow> string option nb) \<Rightarrow> nb_world
    \<Rightarrow> ResolvedVisualizeQuery option nb" where
  "resolveVisualizeQuery c b scriptText lookup w =
    (case (bf_analyzed b, bf_parsed b) of
       (Some (_, a), Some _) \<Rightarrow> (case an_visualizationSpecs a of
           [] \<Rightarrow> Return None w
         | spec # _ \<Rightarrow> nb_bind (visualize_sql spec scriptText lookup w) (\<lambda>sql w.
             Return (case sql of Some s \<Rightarrow> if s = [] then None else visualize_query c spec s | None \<Rightarrow> None) w))
     | _ \<Rightarrow> Return None w)"

end
