(* ===== verification/Notebook_State.thy ===== *)
theory Notebook_State
  imports Notebook_World
begin

text \<open>The runtime state of a notebook's scripts and the helpers of \<^verbatim>\<open>scripts/notebook_scripts.ts\<close>: sorted views,
  the analysis of a script, the destruction of dead scripts, and the executable text of a script.\<close>

section \<open>State\<close>

record ScriptRef =
  rf_scriptId :: nat
  rf_fileName :: string

record ScriptFolder =
  pg_folderName :: string
  pg_scripts :: "(string, ScriptRef) jsmap"

record ScriptFocus =
  sf_folderName :: string
  sf_fileName :: string
  sf_interactionCounter :: nat

record ScriptData =
  sd_scriptKey :: nat
  sd_script :: handle
  sd_buffers :: DashQLScriptBuffers
  sd_outdated :: bool
  sd_tableDefs :: "string list"
  sd_visualizeQuery :: "ResolvedVisualizeQuery option"
  sd_statistics :: "handle list"
  sd_cursor :: "handle option"
  sd_completion :: "(handle \<times> nat) option"
  sd_pendingDiff :: "(string \<times> handle) option"
  sd_latestQueryId :: "nat option"
  sd_latestAgentRunId :: "nat option"
  sd_fileName :: string
  sd_folderName :: string

text \<open>A semantic focus is kept as the buffer of its \<^verbatim>\<open>registryColumnInfo\<close>, if it has one. \<open>nk_scripts\<close> is an object with
  integer keys, which JavaScript enumerates in ascending order.\<close>

record NotebookState =
  nk_notebookId :: string
  nk_scripts :: "(nat, ScriptData) jsmap"
  nk_scriptFolders :: "(string, ScriptFolder) jsmap"
  nk_uncommittedScriptId :: nat
  nk_scriptFocus :: ScriptFocus
  nk_semanticUserFocus :: "handle option option"

text \<open>What the reducer takes from outside: the engine, \<^verbatim>\<open>localeCompare\<close> with numeric collation, random numbers, and
  whether the connection is active.\<close>

record nb_env =
  e_core :: nb_core
  e_compare :: "string \<Rightarrow> string \<Rightarrow> int"
  e_rng :: "nat \<Rightarrow> nat"
  e_active :: bool

definition STATS_HISTORY_LIMIT :: nat where
  "STATS_HISTORY_LIMIT = 20"

section \<open>Helpers\<close>

fun nb_fold :: "('a \<Rightarrow> 's \<Rightarrow> nb_world \<Rightarrow> 's nb) \<Rightarrow> 'a list \<Rightarrow> 's \<Rightarrow> nb_world \<Rightarrow> 's nb" where
  "nb_fold f [] s w = Return s w"
| "nb_fold f (x # xs) s w = nb_bind (f x s w) (nb_fold f xs)"

definition nb_finally :: "'a nb \<Rightarrow> (nb_world \<Rightarrow> nb_world) \<Rightarrow> 'a nb" where
  "nb_finally r f = (case r of Return x w \<Rightarrow> Return x (f w) | Raise w \<Rightarrow> Raise (f w))"

definition nb_write :: "nb_env \<Rightarrow> string \<Rightarrow> WriteTask \<Rightarrow> nb_world \<Rightarrow> nb_world" where
  "nb_write e key task w =
    (if e_active e then w\<lparr>w_writes := w_writes w @ [(key, task, DEBOUNCE_DURATION_SCRIPT_WRITE)]\<rparr> else w)"

text \<open>\<^verbatim>\<open>Array.prototype.sort\<close> is stable.\<close>

fun js_insert :: "('a \<Rightarrow> 'a \<Rightarrow> int) \<Rightarrow> 'a \<Rightarrow> 'a list \<Rightarrow> 'a list" where
  "js_insert cmp x [] = [x]"
| "js_insert cmp x (y # ys) = (if cmp y x < 0 then y # js_insert cmp x ys else x # y # ys)"

definition js_sort :: "('a \<Rightarrow> 'a \<Rightarrow> int) \<Rightarrow> 'a list \<Rightarrow> 'a list" where
  "js_sort cmp xs = foldr (js_insert cmp) xs []"

fun js_index_of :: "'a list \<Rightarrow> 'a \<Rightarrow> int" where
  "js_index_of [] x = -1"
| "js_index_of (y # ys) x = (if y = x then 0 else (let i = js_index_of ys x in if i < 0 then i else i + 1))"

definition js_at :: "'a list \<Rightarrow> int \<Rightarrow> 'a option" where
  "js_at xs i = (if 0 \<le> i \<and> nat i < length xs then Some (xs ! nat i) else None)"

definition or_else :: "'a option \<Rightarrow> 'a \<Rightarrow> 'a" where
  "or_else x d = (case x of Some y \<Rightarrow> y | None \<Rightarrow> d)"

definition script_keys :: "(nat, 'v) jsmap \<Rightarrow> nat list" where
  "script_keys m = sort (js_keys m)"

definition mark_outdated :: "(nat \<Rightarrow> bool) \<Rightarrow> (nat, ScriptData) jsmap \<Rightarrow> (nat, ScriptData) jsmap" where
  "mark_outdated keep m = map (\<lambda>(k, d). (k, if keep k then d else d\<lparr>sd_outdated := True\<rparr>)) m"

section \<open>Views\<close>

definition getSortedScriptFolderNames :: "nb_env \<Rightarrow> (string, ScriptFolder) jsmap \<Rightarrow> string list" where
  "getSortedScriptFolderNames e pages = js_sort (e_compare e) (object_keys pages)"

definition getSortedScriptFileNames :: "nb_env \<Rightarrow> ScriptFolder \<Rightarrow> string list" where
  "getSortedScriptFileNames e page = js_sort (e_compare e) (object_keys (pg_scripts page))"

definition getSelectedScriptFolder :: "nb_env \<Rightarrow> NotebookState \<Rightarrow> ScriptFolder option" where
  "getSelectedScriptFolder e s =
    (let folder = sf_folderName (nk_scriptFocus s) in
     if folder \<noteq> [] \<and> js_has (nk_scriptFolders s) folder then js_get (nk_scriptFolders s) folder
     else (case getSortedScriptFolderNames e (nk_scriptFolders s) of
         f # _ \<Rightarrow> js_get (nk_scriptFolders s) f | [] \<Rightarrow> None))"

definition getUncommittedScriptData :: "NotebookState \<Rightarrow> ScriptData option" where
  "getUncommittedScriptData s =
    (if nk_uncommittedScriptId s = 0 then None else js_get (nk_scripts s) (nk_uncommittedScriptId s))"

definition first_file :: "nb_env \<Rightarrow> ScriptFolder option \<Rightarrow> string" where
  "first_file e page = (case page of
     Some p \<Rightarrow> or_else (js_at (getSortedScriptFileNames e p) 0) [] | None \<Rightarrow> [])"

section \<open>Script data\<close>

definition empty_script_data :: "nat \<Rightarrow> string \<Rightarrow> string \<Rightarrow> ScriptData" where
  "empty_script_data key file folder =
    \<lparr>sd_scriptKey = key, sd_script = key, sd_buffers = no_buffers, sd_outdated = True, sd_tableDefs = [],
     sd_visualizeQuery = None, sd_statistics = [], sd_cursor = None, sd_completion = None,
     sd_pendingDiff = None, sd_latestQueryId = None, sd_latestAgentRunId = None,
     sd_fileName = file, sd_folderName = folder\<rparr>"

definition createEmptyScriptData :: "string \<Rightarrow> string \<Rightarrow> nb_world \<Rightarrow> (nat \<times> ScriptData) \<times> nb_world" where
  "createEmptyScriptData file folder w =
    (let (key, w) = createScript w in ((key, empty_script_data key file folder), w))"

definition destroySemanticUserFocus :: "handle option option \<Rightarrow> nb_world \<Rightarrow> nb_world" where
  "destroySemanticUserFocus focus w = (case focus of Some info \<Rightarrow> destroy_option info w | None \<Rightarrow> w)"

definition clearSemanticUserFocus :: "NotebookState \<Rightarrow> nb_world \<Rightarrow> NotebookState \<times> nb_world" where
  "clearSemanticUserFocus s w =
    (s\<lparr>nk_semanticUserFocus := None\<rparr>, destroySemanticUserFocus (nk_semanticUserFocus s) w)"

definition derive_focus :: "(nb_world \<Rightarrow> handle \<Rightarrow> bool option) \<Rightarrow> handle \<Rightarrow> nb_world
    \<Rightarrow> handle option option \<times> nb_world" where
  "derive_focus answer h w =
    (case answer w h of
       None \<Rightarrow> (None, engine_call w)
     | Some False \<Rightarrow> (Some None, engine_call w)
     | Some True \<Rightarrow> (let (b, w) = new_buffer (engine_call w) in (Some (Some b), w)))"

definition destroyScriptData :: "ScriptData \<Rightarrow> nb_world \<Rightarrow> nb_world" where
  "destroyScriptData d w =
    (let w = destroyBuffers (sd_buffers d) w;
         w = script_destroy (sd_script d) w;
         w = destroy_option (map_option fst (sd_completion d)) w;
         w = destroy_option (map_option snd (sd_pendingDiff d)) w;
         w = destroy_option (sd_cursor d) w
     in fold destroy_buffer (sd_statistics d) w)"

text \<open>A call that returns a new buffer throws when its script was destroyed.\<close>

definition script_result :: "handle \<Rightarrow> nb_world \<Rightarrow> handle nb" where
  "script_result h w =
    (if js_has (w_text w) h then (let (b, w) = new_buffer (engine_call w) in Return b w) else Raise w)"

definition rotateScriptStatistics :: "handle list \<Rightarrow> handle \<Rightarrow> nb_world \<Rightarrow> handle list \<times> nb_world" where
  "rotateScriptStatistics log stats w =
    (let log = log @ [stats] in
     if STATS_HISTORY_LIMIT < length log then (tl log, destroy_buffer (hd log) w) else (log, w))"

definition makeScriptLookup :: "(nat, ScriptData) jsmap \<Rightarrow> nat \<Rightarrow> nb_world \<Rightarrow> string option nb" where
  "makeScriptLookup scripts key w =
    (case js_get scripts key of
       Some d \<Rightarrow> nb_bind (script_toString (sd_script d) w) (\<lambda>t. Return (Some t))
     | None \<Rightarrow> Return None w)"

definition table_defs :: "Analysis \<Rightarrow> string list" where
  "table_defs a = sort (remdups (List.map_filter
     (\<lambda>n. case n of Some t \<Rightarrow> if t = [] then None else Some t | None \<Rightarrow> None) (an_tableNames a)))"

definition deriveScriptAnnotations ::
  "nb_core \<Rightarrow> DashQLScriptBuffers \<Rightarrow> string \<Rightarrow> (nat \<Rightarrow> nb_world \<Rightarrow> string option nb) \<Rightarrow> nb_world
    \<Rightarrow> (string list \<times> ResolvedVisualizeQuery option) nb" where
  "deriveScriptAnnotations c b scriptText lookup w =
    (case bf_analyzed b of
       None \<Rightarrow> Return ([], None) w
     | Some (_, a) \<Rightarrow> nb_bind (resolveVisualizeQuery c b scriptText lookup w)
         (\<lambda>q. Return (table_defs a, q)))"

definition catalog_path :: "ScriptData \<Rightarrow> string" where
  "catalog_path d = normalizeScriptFolderName (sd_folderName d) @ ''/'' @ scriptDisplayName (sd_fileName d)"

definition set_script_path :: "ScriptData \<Rightarrow> nb_world \<Rightarrow> unit nb" where
  "set_script_path d w =
    (if sd_folderName d \<noteq> [] \<and> sd_fileName d \<noteq> [] then script_setPath (sd_script d) (catalog_path d) w
     else Return () w)"

definition move_cursor :: "ScriptData \<Rightarrow> nb_world \<Rightarrow> handle option nb" where
  "move_cursor d w =
    (case sd_cursor d of
       None \<Rightarrow> Return None w
     | Some cur \<Rightarrow> nb_bind (script_result (sd_script d) (destroy_buffer cur w)) (\<lambda>b. Return (Some b)))"

text \<open>\<open>scripts\<close> are the scripts in which a script reference is looked up.\<close>

definition analyzeScriptData ::
  "nb_env \<Rightarrow> (nat, ScriptData) jsmap \<Rightarrow> ScriptData \<Rightarrow> nb_world \<Rightarrow> ScriptData nb" where
  "analyzeScriptData e scripts d w =
    nb_bind (set_script_path d (destroyBuffers (sd_buffers d) w)) (\<lambda>_ w.
    let (b, w) = analyzeScript (e_core e) (sd_script d) w in
    nb_bind (script_result (sd_script d) w) (\<lambda>st w.
    let (stats, w) = rotateScriptStatistics (sd_statistics d) st w in
    nb_bind (script_toString (sd_script d) w) (\<lambda>scriptText w.
    nb_bind (deriveScriptAnnotations (e_core e) b scriptText (makeScriptLookup scripts) w) (\<lambda>(defs, q) w.
    nb_bind (registry_addScript (e_core e) (sd_script d) w) (\<lambda>_ w.
    nb_bind (catalog_loadScript (e_core e) (sd_script d) w) (\<lambda>_ w.
    nb_bind (move_cursor d w) (\<lambda>cur w.
    Return (d\<lparr>sd_buffers := b, sd_outdated := False, sd_statistics := stats, sd_tableDefs := defs,
      sd_visualizeQuery := q, sd_cursor := cur\<rparr>) w)))))))"

text \<open>The tail that several actions share: persist the text of one script.\<close>

definition write_script_text :: "nb_env \<Rightarrow> string \<Rightarrow> ScriptData \<Rightarrow> string \<Rightarrow> nb_world \<Rightarrow> nb_world" where
  "write_script_text e nid d sql w =
    (if sd_folderName d = [] \<or> sd_fileName d = []
     then nb_write e (groupDraftWrites nid) (WRITE_SCRIPT_DRAFT nid sql) w
     else nb_write e (groupScriptWrites nid (sd_folderName d) (sd_fileName d))
       (WRITE_SCRIPT nid (sd_folderName d) (sd_fileName d) sql) w)"

section \<open>Destruction\<close>

definition live_ids :: "NotebookState \<Rightarrow> nat list" where
  "live_ids s = nk_uncommittedScriptId s #
     concat (map (\<lambda>page. map rf_scriptId (object_values (pg_scripts page))) (object_values (nk_scriptFolders s)))"

definition destroy_dead :: "nat \<Rightarrow> NotebookState \<Rightarrow> nb_world \<Rightarrow> NotebookState nb" where
  "destroy_dead k s w =
    (case js_get (nk_scripts s) k of
       None \<Rightarrow> Return s w
     | Some d \<Rightarrow> nb_bind (catalog_dropScript (sd_script d) w) (\<lambda>_ w.
         nb_bind (registry_dropScript (sd_script d) w) (\<lambda>_ w.
         Return (s\<lparr>nk_scripts := js_delete (nk_scripts s) k\<rparr>) (destroyScriptData d w))))"

definition destroyDeadScripts :: "NotebookState \<Rightarrow> nb_world \<Rightarrow> NotebookState nb" where
  "destroyDeadScripts s w =
    nb_fold destroy_dead (filter (\<lambda>k. k \<notin> set (live_ids s)) (script_keys (nk_scripts s))) s w"

text \<open>The catalog is shared with the connection and outlives the notebook's scripts.\<close>

definition destroyNotebookScripts :: "NotebookState \<Rightarrow> nb_world \<Rightarrow> unit nb" where
  "destroyNotebookScripts s w =
    (let ds = List.map_filter (js_get (nk_scripts s)) (script_keys (nk_scripts s));
         w = destroySemanticUserFocus (nk_semanticUserFocus s) w
     in nb_bind (nb_fold (\<lambda>d _ w. catalog_dropScript (sd_script d) w) ds () w) (\<lambda>_ w.
        Return () (fold destroyScriptData ds (w\<lparr>w_registry := []\<rparr>))))"

section \<open>Executable text\<close>

definition ascii_lower :: "char \<Rightarrow> char" where
  "ascii_lower c = (let n = (of_char c :: nat) in if 65 \<le> n \<and> n \<le> 90 then char_of (n + 32) else c)"

definition word_char_at :: "string \<Rightarrow> bool" where
  "word_char_at s = (case s of [] \<Rightarrow> False
     | c # _ \<Rightarrow> (let n = (of_char c :: nat) in 48 \<le> n \<and> n \<le> 57 \<or> 65 \<le> n \<and> n \<le> 90 \<or> n = 95 \<or> 97 \<le> n \<and> n \<le> 122))"

definition starts_visualize :: "string \<Rightarrow> bool" where
  "starts_visualize s = (let t = dropWhile js_space s in
     map ascii_lower (take 9 t) = ''visualize'' \<and> \<not> word_char_at (drop 9 t))"

definition isVisualizeScript :: "DashQLScriptBuffers \<Rightarrow> string \<Rightarrow> bool" where
  "isVisualizeScript b scriptText =
    ((case (bf_parsed b, bf_analyzed b) of (Some _, Some (_, a)) \<Rightarrow> an_visStatement a | _ \<Rightarrow> False) \<or>
     starts_visualize scriptText)"

definition getExecutableQueryText :: "nb_env \<Rightarrow> NotebookState \<Rightarrow> ScriptData \<Rightarrow> nb_world \<Rightarrow> string nb" where
  "getExecutableQueryText e s d w =
    nb_bind (script_toString (sd_script d) w) (\<lambda>scriptText w.
    if bf_analyzed (sd_buffers d) \<noteq> None \<and> \<not> sd_outdated d
    then (case sd_visualizeQuery d of
        Some q \<Rightarrow> Return (vq_sql q) w
      | None \<Rightarrow> if isVisualizeScript (sd_buffers d) scriptText then Raise w else Return scriptText w)
    else (let (b, w) = analyzeScript (e_core e) (sd_script d) w in
      nb_finally (nb_bind (resolveVisualizeQuery (e_core e) b scriptText (makeScriptLookup (nk_scripts s)) w) (\<lambda>q w.
        case q of Some q \<Rightarrow> Return (vq_sql q) w
        | None \<Rightarrow> if isVisualizeScript b scriptText then Raise w else Return scriptText w))
      (destroyBuffers b)))"

section \<open>Analysis of the whole notebook\<close>

definition getScriptKeysInFeedOrder :: "nb_env \<Rightarrow> NotebookState \<Rightarrow> nat list" where
  "getScriptKeysInFeedOrder e s =
    (let paged = concat (map (\<lambda>folder. case js_get (nk_scriptFolders s) folder of
           Some page \<Rightarrow> List.map_filter (\<lambda>f. map_option rf_scriptId (js_get (pg_scripts page) f))
             (getSortedScriptFileNames e page) | None \<Rightarrow> [])
           (getSortedScriptFolderNames e (nk_scriptFolders s)));
         draft = (if nk_uncommittedScriptId s \<noteq> 0 then [nk_uncommittedScriptId s] else [])
     in rev (remdups (rev (filter (js_has (nk_scripts s)) (paged @ draft @ script_keys (nk_scripts s))))))"

text \<open>A script whose analysis throws keeps its data; its old buffers were destroyed in place.\<close>

definition analyze_one :: "nb_env \<Rightarrow> nat \<Rightarrow> (nat, ScriptData) jsmap \<Rightarrow> nb_world \<Rightarrow> (nat, ScriptData) jsmap nb" where
  "analyze_one e k scripts w =
    (case js_get scripts k of
       None \<Rightarrow> Return scripts w
     | Some d \<Rightarrow> (case analyzeScriptData e scripts d w of
         Return d w \<Rightarrow> Return (js_set scripts k d) w
       | Raise w \<Rightarrow> Return (js_set scripts k (d\<lparr>sd_buffers := no_buffers\<rparr>)) w))"

definition analyzeAllScripts :: "nb_env \<Rightarrow> NotebookState \<Rightarrow> nb_world \<Rightarrow> NotebookState nb" where
  "analyzeAllScripts e s w =
    nb_bind (nb_fold (analyze_one e) (getScriptKeysInFeedOrder e s) (nk_scripts s) w)
      (\<lambda>scripts. Return (s\<lparr>nk_scripts := scripts\<rparr>))"

definition analyzeOutdatedScript :: "nb_env \<Rightarrow> nat \<Rightarrow> NotebookState \<Rightarrow> nb_world \<Rightarrow> NotebookState nb" where
  "analyzeOutdatedScript e k s w =
    (case js_get (nk_scripts s) k of
       None \<Rightarrow> Return s w
     | Some d \<Rightarrow> if \<not> sd_outdated d then Return s w
         else nb_bind (analyzeScriptData e (nk_scripts s) d w) (\<lambda>d' w.
           let (s', w) = clearSemanticUserFocus s w;
               s' = s'\<lparr>nk_scripts := js_set (nk_scripts s) k d'\<rparr>
           in if sd_cursor d' \<noteq> None
              then (let (focus, w) = derive_focus (c_cursorFocus (e_core e)) (sd_script d') w
                in Return (s'\<lparr>nk_semanticUserFocus := focus\<rparr>) w)
              else Return s' w))"

end
