(* ===== verification/Notebook_Folders.thy ===== *)
theory Notebook_Folders
  imports Notebook_State
begin

text \<open>The actions of \<^verbatim>\<open>reduceNotebookScripts\<close> (\<^verbatim>\<open>scripts/notebook_scripts.ts\<close>) that select, create, delete,
  rename and reorder script folders.\<close>

section \<open>Selection\<close>

definition focus_on :: "string \<Rightarrow> string \<Rightarrow> NotebookState \<Rightarrow> nb_world \<Rightarrow> NotebookState nb" where
  "focus_on folder file s w =
    (let (s', w) = clearSemanticUserFocus s w in
     Return (s'\<lparr>nk_scriptFocus := \<lparr>sf_folderName = folder, sf_fileName = file,
       sf_interactionCounter = sf_interactionCounter (nk_scriptFocus s) + 1\<rparr>\<rparr>) w)"

definition select_script_folder :: "nb_env \<Rightarrow> string \<Rightarrow> NotebookState \<Rightarrow> nb_world \<Rightarrow> NotebookState nb" where
  "select_script_folder e folder s w =
    (case js_get (nk_scriptFolders s) folder of
       None \<Rightarrow> Return s w
     | Some page \<Rightarrow> focus_on folder (first_file e (Some page)) s w)"

definition select_folder_at :: "nb_env \<Rightarrow> (int \<Rightarrow> int \<Rightarrow> int) \<Rightarrow> NotebookState \<Rightarrow> nb_world \<Rightarrow> NotebookState nb" where
  "select_folder_at e step s w =
    (let folders = getSortedScriptFolderNames e (nk_scriptFolders s);
         current = js_index_of folders (sf_folderName (nk_scriptFocus s));
         folder = or_else (js_at folders (step current (int (length folders)))) (sf_folderName (nk_scriptFocus s))
     in focus_on folder (first_file e (js_get (nk_scriptFolders s) folder)) s w)"

definition next_index :: "int \<Rightarrow> int \<Rightarrow> int" where
  "next_index current len = min (max current 0 + 1) (len - 1)"

definition prev_index :: "int \<Rightarrow> int \<Rightarrow> int" where
  "prev_index current len = max ((if current < 0 then 0 else current) - 1) 0"

definition select_script_at :: "nb_env \<Rightarrow> (int \<Rightarrow> int \<Rightarrow> int) \<Rightarrow> NotebookState \<Rightarrow> nb_world \<Rightarrow> NotebookState nb" where
  "select_script_at e step s w =
    (let files = (case getSelectedScriptFolder e s of Some page \<Rightarrow> getSortedScriptFileNames e page | None \<Rightarrow> []);
         current = js_index_of files (sf_fileName (nk_scriptFocus s));
         file = or_else (js_at files (step current (int (length files)))) (sf_fileName (nk_scriptFocus s))
     in focus_on (sf_folderName (nk_scriptFocus s)) file s w)"

definition select_script :: "nb_env \<Rightarrow> string \<Rightarrow> NotebookState \<Rightarrow> nb_world \<Rightarrow> NotebookState nb" where
  "select_script e file s w =
    (case getSelectedScriptFolder e s of
       None \<Rightarrow> Return s w
     | Some page \<Rightarrow> if \<not> js_has (pg_scripts page) file then Return s w
         else (let (s', w) = clearSemanticUserFocus s w in
           Return (s'\<lparr>nk_scriptFocus := (nk_scriptFocus s)\<lparr>sf_fileName := file\<rparr>\<rparr>) w))"

definition select_script_path :: "string \<Rightarrow> string \<Rightarrow> NotebookState \<Rightarrow> nb_world \<Rightarrow> NotebookState nb" where
  "select_script_path folder file s w =
    (case js_get (nk_scriptFolders s) folder of
       None \<Rightarrow> Return s w
     | Some page \<Rightarrow> if \<not> js_has (pg_scripts page) file then Return s w else focus_on folder file s w)"

section \<open>Prefixes of the folders\<close>

text \<open>\<^verbatim>\<open>reprefixPages\<close>: the folder at position \<open>i\<close> (from 0) of the order moves to its numbered name. A folder that does not
  exist has no \<^verbatim>\<open>scripts\<close> to read.\<close>

record reprefix_state =
  rp_renames :: "(string \<times> string) list"
  rp_pages :: "(string, ScriptFolder) jsmap"
  rp_scripts :: "(nat, ScriptData) jsmap"

definition move_scripts :: "string \<Rightarrow> ScriptFolder \<Rightarrow> (nat, ScriptData) jsmap \<Rightarrow> (nat, ScriptData) jsmap" where
  "move_scripts folder page scripts =
    fold (\<lambda>entry scripts. case js_get scripts (rf_scriptId entry) of
        Some sd \<Rightarrow> js_set scripts (rf_scriptId entry) (sd\<lparr>sd_folderName := folder\<rparr>) | None \<Rightarrow> scripts)
      (object_values (pg_scripts page)) scripts"

definition numbered_folder :: "nat \<Rightarrow> nat \<Rightarrow> string \<Rightarrow> string" where
  "numbered_folder i n folder = formatScriptFolderOrderPrefix (i + 1) n @ normalizeScriptFolderName folder"

definition reprefix_one ::
  "(string, ScriptFolder) jsmap \<Rightarrow> nat \<Rightarrow> nat \<times> string \<Rightarrow> reprefix_state \<Rightarrow> nb_world \<Rightarrow> reprefix_state nb" where
  "reprefix_one pages n = (\<lambda>(i, oldFolder) r w.
    case js_get pages oldFolder of
      None \<Rightarrow> Raise w
    | Some page \<Rightarrow> (let newFolder = numbered_folder i n oldFolder in
        if newFolder = oldFolder then Return (r\<lparr>rp_pages := js_set (rp_pages r) oldFolder page\<rparr>) w
        else Return (r\<lparr>rp_renames := rp_renames r @ [(oldFolder, newFolder)],
               rp_scripts := move_scripts newFolder page (rp_scripts r),
               rp_pages := js_set (rp_pages r) newFolder (page\<lparr>pg_folderName := newFolder\<rparr>)\<rparr>) w))"

definition folder_script :: "(nat, ScriptData) jsmap \<Rightarrow> ScriptRef \<Rightarrow> FolderScript list \<Rightarrow> nb_world \<Rightarrow> FolderScript list nb" where
  "folder_script scripts entry acc w =
    (case js_get scripts (rf_scriptId entry) of
       None \<Rightarrow> Return (acc @ [\<lparr>fs_scriptId = rf_scriptId entry, fs_fileName = rf_fileName entry, fs_sql = []\<rparr>]) w
     | Some sd \<Rightarrow> nb_bind (script_toString (sd_script sd) w) (\<lambda>sql.
         Return (acc @ [\<lparr>fs_scriptId = rf_scriptId entry, fs_fileName = rf_fileName entry, fs_sql = sql\<rparr>])))"

definition persist_rename ::
  "nb_env \<Rightarrow> NotebookState \<Rightarrow> string \<Rightarrow> string \<times> string \<Rightarrow> unit \<Rightarrow> nb_world \<Rightarrow> unit nb" where
  "persist_rename e s unpersisted = (\<lambda>(oldFolder, newFolder) _ w.
    if oldFolder = unpersisted
    then (case js_get (nk_scriptFolders s) newFolder of
        None \<Rightarrow> Raise w
      | Some page \<Rightarrow> nb_bind (nb_fold (folder_script (nk_scripts s)) (object_values (pg_scripts page)) [] w) (\<lambda>entries w.
          Return () (nb_write e (groupScriptFolderWrites (nk_notebookId s) newFolder)
            (CREATE_SCRIPT_FOLDER (nk_notebookId s) newFolder entries) w)))
    else Return () (nb_write e (groupScriptFolderRenames (nk_notebookId s) oldFolder)
      (RENAME_SCRIPT_FOLDER (nk_notebookId s) oldFolder newFolder) w))"

definition reprefixPages ::
  "nb_env \<Rightarrow> string list \<Rightarrow> string \<Rightarrow> NotebookState \<Rightarrow> nb_world \<Rightarrow> NotebookState option nb" where
  "reprefixPages e order unpersisted s w =
    nb_bind (nb_fold (reprefix_one (nk_scriptFolders s) (length order)) (enumerate 0 order)
        \<lparr>rp_renames = [], rp_pages = [], rp_scripts = nk_scripts s\<rparr> w) (\<lambda>r w.
    if rp_renames r = [] then Return None w
    else (let focus = nk_scriptFocus s;
              newFocusFolder = or_else (js_get (rp_renames r) (sf_folderName focus)) (sf_folderName focus);
              s' = s\<lparr>nk_scriptFolders := rp_pages r, nk_scripts := rp_scripts r,
                     nk_scriptFocus := focus\<lparr>sf_folderName := newFocusFolder\<rparr>\<rparr>
          in nb_bind (nb_fold (persist_rename e s' unpersisted) (rp_renames r) () w) (\<lambda>_. Return (Some s'))))"

section \<open>Creation and deletion\<close>

definition create_script_folder :: "nb_env \<Rightarrow> NotebookState \<Rightarrow> nb_world \<Rightarrow> NotebookState nb" where
  "create_script_folder e s w =
    (let folder = uniqueScriptFolderName ''Untitled'' (nk_scriptFolders s) [];
         (plan, draws) = planScriptInsertion ([] :: (string, ScriptRef) jsmap) None (e_rng e) (w_draws w);
         file = plan_newFileName plan; w = w\<lparr>w_draws := draws\<rparr>;
         ((key, d), w) = createEmptyScriptData file folder w;
         page = \<lparr>pg_folderName = folder, pg_scripts = [(file, \<lparr>rf_scriptId = key, rf_fileName = file\<rparr>)]\<rparr>;
         (s', w) = clearSemanticUserFocus s w;
         staged = s'\<lparr>nk_scripts := js_set (nk_scripts s) key d,
           nk_scriptFolders := js_set (nk_scriptFolders s) folder page,
           nk_scriptFocus := \<lparr>sf_folderName = folder, sf_fileName = file,
             sf_interactionCounter = sf_interactionCounter (nk_scriptFocus s) + 1\<rparr>\<rparr>;
         order = getSortedScriptFolderNames e (nk_scriptFolders s) @ [folder]
     in nb_bind (reprefixPages e order folder staged w) (\<lambda>r. Return (or_else r staged)))"

text \<open>The folder that is focused when a folder goes away: the previous one of the view, else the first that is left.\<close>

definition neighbour :: "string list \<Rightarrow> string \<Rightarrow> string" where
  "neighbour ns gone =
    (let remaining = filter (\<lambda>n. n \<noteq> gone) ns
     in or_else (js_at remaining (max 0 (js_index_of ns gone - 1))) (or_else (js_at remaining 0) []))"

definition delete_folder_to :: "nb_env \<Rightarrow> string \<Rightarrow> string \<Rightarrow> NotebookState \<Rightarrow> nb_world \<Rightarrow> NotebookState nb" where
  "delete_folder_to e folder newFolder s w =
    (let pages = js_delete (nk_scriptFolders s) folder; (s', w) = clearSemanticUserFocus s w in
     nb_bind (destroyDeadScripts (s'\<lparr>nk_scriptFolders := pages,
         nk_scriptFocus := \<lparr>sf_folderName = newFolder, sf_fileName = first_file e (js_get pages newFolder),
           sf_interactionCounter = sf_interactionCounter (nk_scriptFocus s) + 1\<rparr>\<rparr>) w) (\<lambda>s' w.
     Return s' (nb_write e (groupScriptFolderWrites (nk_notebookId s') folder)
       (DELETE_SCRIPT_FOLDER (nk_notebookId s') folder) w)))"

definition delete_script_folder :: "nb_env \<Rightarrow> string \<Rightarrow> NotebookState \<Rightarrow> nb_world \<Rightarrow> NotebookState nb" where
  "delete_script_folder e folder s w =
    (let folders = getSortedScriptFolderNames e (nk_scriptFolders s) in
     if length folders \<le> 1 \<or> \<not> js_has (nk_scriptFolders s) folder then Return s w
     else (let current = sf_folderName (nk_scriptFocus s)
       in delete_folder_to e folder (if folder = current then neighbour folders folder else current) s w))"

section \<open>Renaming and reordering\<close>

definition analyze_renamed ::
  "nb_env \<Rightarrow> string \<Rightarrow> ScriptRef \<Rightarrow> (nat, ScriptData) jsmap \<Rightarrow> nb_world \<Rightarrow> (nat, ScriptData) jsmap nb" where
  "analyze_renamed e newFolder entry scripts w =
    (case js_get scripts (rf_scriptId entry) of
       None \<Rightarrow> Return scripts w
     | Some d \<Rightarrow> nb_bind (analyzeScriptData e scripts (d\<lparr>sd_folderName := newFolder\<rparr>) w)
         (\<lambda>d'. Return (js_set scripts (rf_scriptId entry) d')))"

definition rename_script_folder :: "nb_env \<Rightarrow> string \<Rightarrow> string \<Rightarrow> NotebookState \<Rightarrow> nb_world \<Rightarrow> NotebookState nb" where
  "rename_script_folder e oldFolder requested s w =
    (case js_get (nk_scriptFolders s) oldFolder of
       None \<Rightarrow> Return s w
     | Some page \<Rightarrow>
        (let cleanName = uniqueScriptFolderName requested (nk_scriptFolders s) oldFolder in
         if normalizeScriptFolderName oldFolder = cleanName then Return s w
         else (let viewOrder = getSortedScriptFolderNames e (nk_scriptFolders s);
                   newFolder = formatScriptFolderOrderPrefix (nat (js_index_of viewOrder oldFolder + 1)) (length viewOrder)
                     @ cleanName;
                   entries = List.map_filter (js_get (pg_scripts page)) (getSortedScriptFileNames e page)
           in nb_bind (nb_fold (analyze_renamed e newFolder) entries (nk_scripts s) w) (\<lambda>scripts w.
              let renamed = set (map rf_scriptId (object_values (pg_scripts page)));
                  scripts = mark_outdated (\<lambda>k. k \<in> renamed) scripts;
                  pages = js_set (js_delete (nk_scriptFolders s) oldFolder) newFolder (page\<lparr>pg_folderName := newFolder\<rparr>);
                  focus = nk_scriptFocus s;
                  s' = s\<lparr>nk_scriptFolders := pages, nk_scripts := scripts,
                    nk_scriptFocus := focus\<lparr>sf_folderName :=
                      (if sf_folderName focus = oldFolder then newFolder else sf_folderName focus)\<rparr>\<rparr>;
                  w = nb_write e (groupScriptFolderRenames (nk_notebookId s') oldFolder)
                    (RENAME_SCRIPT_FOLDER (nk_notebookId s') oldFolder newFolder) w
              in nb_bind (reprefixPages e (map (\<lambda>f. if f = oldFolder then newFolder else f) viewOrder) [] s' w)
                   (\<lambda>r. Return (or_else r s'))))))"

text \<open>The target order: the requested names that exist, then the others in their current order, each once.\<close>

definition total_order :: "(string \<Rightarrow> bool) \<Rightarrow> string list \<Rightarrow> string list \<Rightarrow> string list" where
  "total_order exists requested current = rev (remdups (rev (filter exists requested @ current)))"

definition reorder_script_folders :: "nb_env \<Rightarrow> string list \<Rightarrow> NotebookState \<Rightarrow> nb_world \<Rightarrow> NotebookState nb" where
  "reorder_script_folders e requested s w =
    (let current = getSortedScriptFolderNames e (nk_scriptFolders s);
         order = total_order (js_has (nk_scriptFolders s)) requested current
     in if order = current then Return s w
        else nb_bind (reprefixPages e order [] s w) (\<lambda>r. Return (or_else r s)))"

end
