(* ===== verification/Notebook_Scripts.thy ===== *)
theory Notebook_Scripts
  imports Notebook_Folders
begin

text \<open>The actions of \<^verbatim>\<open>reduceNotebookScripts\<close> (\<^verbatim>\<open>scripts/notebook_scripts.ts\<close>) on single scripts, the reducer itself,
  and the replacement of the notebook's content after a change on disk.\<close>

section \<open>Insertion\<close>

text \<open>\<^verbatim>\<open>applyScriptRepad\<close>: the page's scripts, all scripts and the focused file, after the renames of the plan.\<close>

type_synonym repad_state = "(string, ScriptRef) jsmap \<times> (nat, ScriptData) jsmap \<times> string"

definition repad_one ::
  "nb_env \<Rightarrow> string \<Rightarrow> string \<Rightarrow> string set \<Rightarrow> ScriptRename \<Rightarrow> repad_state \<Rightarrow> nb_world \<Rightarrow> repad_state nb" where
  "repad_one e nid folder targets r = (\<lambda>(refs, scripts, focus) w.
    case js_get refs (oldFileName r) of
      None \<Rightarrow> Return (refs, scripts, focus) w
    | Some entry \<Rightarrow>
       (let old = oldFileName r; new = newFileName r;
            refs = js_set (js_delete refs old) new (entry\<lparr>rf_fileName := new\<rparr>);
            scripts = (case js_get scripts (rf_scriptId entry) of
              Some sd \<Rightarrow> js_set scripts (rf_scriptId entry) (sd\<lparr>sd_fileName := new\<rparr>) | None \<Rightarrow> scripts);
            focus = (if focus = old then new else focus);
            w = (if old \<in> targets then w
                 else nb_write e (groupScriptDeletes nid folder old) (DELETE_SCRIPT nid folder old) w)
        in nb_bind (case js_get scripts (rf_scriptId entry) of
              Some sd \<Rightarrow> script_toString (sd_script sd) w | None \<Rightarrow> Return [] w) (\<lambda>sql w.
           Return (refs, scripts, focus)
             (nb_write e (groupScriptWrites nid folder new) (WRITE_SCRIPT nid folder new sql) w))))"

definition applyScriptRepad ::
  "nb_env \<Rightarrow> string \<Rightarrow> string \<Rightarrow> ScriptRename list \<Rightarrow> repad_state \<Rightarrow> nb_world \<Rightarrow> repad_state nb" where
  "applyScriptRepad e nid folder repad = nb_fold (repad_one e nid folder (set (map newFileName repad))) repad"

text \<open>What the three insertions share: the plan, its re-pads, and the file name of the new script.\<close>

definition plan_and_repad :: "nb_env \<Rightarrow> ScriptFolder \<Rightarrow> NotebookState \<Rightarrow> nb_world \<Rightarrow> (string \<times> repad_state) nb" where
  "plan_and_repad e page s w =
    (let (plan, draws) = planScriptInsertion (pg_scripts page) None (e_rng e) (w_draws w) in
     nb_bind (applyScriptRepad e (nk_notebookId s) (pg_folderName page) (plan_repad plan)
         (pg_scripts page, nk_scripts s, sf_fileName (nk_scriptFocus s)) (w\<lparr>w_draws := draws\<rparr>))
       (\<lambda>r. Return (plan_newFileName plan, r)))"

text \<open>The new state with a script under its file name in the page, and the focus on it.\<close>

definition inserted ::
  "ScriptFolder \<Rightarrow> string \<Rightarrow> nat \<Rightarrow> (string, ScriptRef) jsmap \<Rightarrow> (nat, ScriptData) jsmap \<Rightarrow> NotebookState \<Rightarrow> NotebookState" where
  "inserted page file key refs scripts s =
    s\<lparr>nk_scripts := scripts,
      nk_scriptFolders := js_set (nk_scriptFolders s) (pg_folderName page)
        (page\<lparr>pg_scripts := js_set refs file \<lparr>rf_scriptId = key, rf_fileName = file\<rparr>\<rparr>),
      nk_scriptFocus := (nk_scriptFocus s)\<lparr>sf_fileName := file\<rparr>\<rparr>"

definition write_new :: "nb_env \<Rightarrow> NotebookState \<Rightarrow> ScriptFolder \<Rightarrow> string \<Rightarrow> string \<Rightarrow> nb_world \<Rightarrow> nb_world" where
  "write_new e s page file sql w =
    nb_write e (groupScriptWrites (nk_notebookId s) (pg_folderName page) file)
      (WRITE_SCRIPT (nk_notebookId s) (pg_folderName page) file sql) w"

definition create_script :: "nb_env \<Rightarrow> NotebookState \<Rightarrow> nb_world \<Rightarrow> NotebookState nb" where
  "create_script e s w =
    (case getSelectedScriptFolder e s of
       None \<Rightarrow> Return s w
     | Some page \<Rightarrow> nb_bind (plan_and_repad e page s w) (\<lambda>(file, refs, scripts, focus) w.
        let ((key, d), w) = createEmptyScriptData file (pg_folderName page) w;
            (s', w) = clearSemanticUserFocus s w
        in Return (inserted page file key refs (js_set scripts key d) s') (write_new e s page file [] w)))"

definition promote_uncommitted_script :: "nb_env \<Rightarrow> NotebookState \<Rightarrow> nb_world \<Rightarrow> NotebookState nb" where
  "promote_uncommitted_script e s w =
    (case getSelectedScriptFolder e s of
       None \<Rightarrow> Return s w
     | Some page \<Rightarrow> if nk_uncommittedScriptId s = 0 then Return s w
       else nb_bind (plan_and_repad e page s w) (\<lambda>(file, refs, scripts, focus) w.
        let draft = nk_uncommittedScriptId s;
            promoted = map_option (\<lambda>d. d\<lparr>sd_fileName := file, sd_folderName := pg_folderName page\<rparr>) (js_get scripts draft);
            ((key, d), w) = createEmptyScriptData [] [] w;
            (s', w) = clearSemanticUserFocus s w;
            scripts = (case promoted of Some p \<Rightarrow> js_set scripts draft p | None \<Rightarrow> scripts);
            next_state = (inserted page file draft refs (js_set scripts key d) s')\<lparr>nk_uncommittedScriptId := key\<rparr>
        in nb_bind (case promoted of Some p \<Rightarrow> script_toString (sd_script p) w | None \<Rightarrow> Return [] w) (\<lambda>sql w.
           Return next_state (nb_write e (groupDraftWrites (nk_notebookId s))
             (WRITE_SCRIPT_DRAFT (nk_notebookId s) []) (write_new e s page file sql w)))))"

definition create_script_with_text :: "nb_env \<Rightarrow> string \<Rightarrow> NotebookState \<Rightarrow> nb_world \<Rightarrow> NotebookState nb" where
  "create_script_with_text e new_text s w =
    (case getSelectedScriptFolder e s of
       None \<Rightarrow> Return s w
     | Some page \<Rightarrow> nb_bind (plan_and_repad e page s w) (\<lambda>(file, refs, scripts, focus) w.
        let ((key, d), w) = createEmptyScriptData file (pg_folderName page) w in
        nb_bind (script_replaceText key new_text w) (\<lambda>_ w.
        nb_bind (analyzeScriptData e (js_set scripts key d) d w) (\<lambda>d w.
        let (s', w) = clearSemanticUserFocus s w in
        nb_bind (script_toString (sd_script d) w) (\<lambda>sql w.
        Return (inserted page file key refs (js_set scripts key d) s') (write_new e s page file sql w))))))"

section \<open>Deletion\<close>

definition delete_script :: "nb_env \<Rightarrow> string \<Rightarrow> NotebookState \<Rightarrow> nb_world \<Rightarrow> NotebookState nb" where
  "delete_script e file s w =
    (case getSelectedScriptFolder e s of
       None \<Rightarrow> Return s w
     | Some page \<Rightarrow>
       (case js_get (pg_scripts page) file of
          None \<Rightarrow> Return s w
        | Some entry \<Rightarrow>
          (let folder = pg_folderName page; files = getSortedScriptFileNames e page;
               folders = getSortedScriptFolderNames e (nk_scriptFolders s)
           in if filter (\<lambda>n. n \<noteq> file) files = []
              then (if length folders \<le> 1 then Return s w else delete_folder_to e folder (neighbour folders folder) s w)
              else (let pages = js_set (nk_scriptFolders s) folder (page\<lparr>pg_scripts := js_delete (pg_scripts page) file\<rparr>);
                        focus = nk_scriptFocus s;
                        newFile = (if sf_fileName focus = file then neighbour files file else sf_fileName focus);
                        (s', w) = clearSemanticUserFocus s w
                in nb_bind (destroyDeadScripts (s'\<lparr>nk_scriptFolders := pages,
                       nk_scriptFocus := focus\<lparr>sf_fileName := newFile\<rparr>\<rparr>) w) (\<lambda>s' w.
                   Return s' (nb_write e (groupScriptDeletes (nk_notebookId s') folder (rf_fileName entry))
                     (DELETE_SCRIPT (nk_notebookId s') folder (rf_fileName entry)) w))))))"

section \<open>Renaming and reordering\<close>

text \<open>The script's data under the new name: analyzed again at once when the name changed, with all others outdated.\<close>

definition renamed_scripts ::
  "nb_env \<Rightarrow> bool \<Rightarrow> nat \<Rightarrow> string \<Rightarrow> (nat, ScriptData) jsmap \<Rightarrow> nb_world \<Rightarrow> (nat, ScriptData) jsmap nb" where
  "renamed_scripts e renamed key file scripts w =
    (case js_get scripts key of
       None \<Rightarrow> Return scripts w
     | Some d \<Rightarrow> if \<not> renamed then Return (js_set scripts key (d\<lparr>sd_fileName := file\<rparr>)) w
         else nb_bind (analyzeScriptData e scripts (d\<lparr>sd_fileName := file\<rparr>) w)
           (\<lambda>d'. Return (mark_outdated (\<lambda>k. k = key) (js_set scripts key d'))))"

definition renamed_file :: "string \<Rightarrow> string \<Rightarrow> (string, ScriptRef) jsmap \<Rightarrow> string" where
  "renamed_file old requestedBase refs = scriptOrderPrefixString old @ uniqueScriptBase requestedBase refs old @ ''.sql''"

definition rename_script :: "nb_env \<Rightarrow> string \<Rightarrow> string \<Rightarrow> NotebookState \<Rightarrow> nb_world \<Rightarrow> NotebookState nb" where
  "rename_script e old requested s w =
    (case getSelectedScriptFolder e s of
       None \<Rightarrow> Return s w
     | Some page \<Rightarrow>
       (case js_get (pg_scripts page) old of
          None \<Rightarrow> Return s w
        | Some entry \<Rightarrow>
          (let requestedBase = scriptDisplayName (js_trim requested) in
           if requestedBase = [] then Return s w
           else (let new = renamed_file old requestedBase (pg_scripts page); renamed = (old \<noteq> new);
                     refs = js_set (if renamed then js_delete (pg_scripts page) old else pg_scripts page) new
                       (entry\<lparr>rf_fileName := new\<rparr>);
                     pages = js_set (nk_scriptFolders s) (pg_folderName page) (page\<lparr>pg_scripts := refs\<rparr>);
                     focus = nk_scriptFocus s; nid = nk_notebookId s
             in nb_bind (renamed_scripts e renamed (rf_scriptId entry) new (nk_scripts s) w) (\<lambda>scripts w.
                let (s', w) = (if renamed then clearSemanticUserFocus s w else (s, w));
                    s' = s'\<lparr>nk_scriptFolders := pages, nk_scripts := scripts,
                      nk_scriptFocus := focus\<lparr>sf_fileName := (if sf_fileName focus = old then new else sf_fileName focus)\<rparr>\<rparr>
                in if renamed
                   then Return s' (nb_write e (groupScriptRenames nid (pg_folderName page) old)
                          (RENAME_SCRIPT nid (pg_folderName page) old new) w)
                   else nb_bind (case js_get (nk_scripts s) (rf_scriptId entry) of
                            Some d \<Rightarrow> script_toString (sd_script d) w | None \<Rightarrow> Return [] w) (\<lambda>sql w.
                          Return s' (nb_write e (groupScriptWrites nid (pg_folderName page) new)
                            (WRITE_SCRIPT nid (pg_folderName page) new sql) w)))))))"

text \<open>The loop of \<^verbatim>\<open>REORDER_SCRIPTS\<close> over the order; the position \<open>i\<close> counts from 0.\<close>

record reorder_state =
  ro_renames :: "(string \<times> string) list"
  ro_refs :: "(string, ScriptRef) jsmap"
  ro_scripts :: "(nat, ScriptData) jsmap"

definition numbered_file :: "nat \<Rightarrow> nat \<Rightarrow> string \<Rightarrow> string" where
  "numbered_file i n file = formatScriptOrderPrefix (i + 1) n @ normalizeScriptName file"

definition reorder_one :: "(string, ScriptRef) jsmap \<Rightarrow> nat \<Rightarrow> nat \<times> string \<Rightarrow> reorder_state \<Rightarrow> reorder_state" where
  "reorder_one refs n = (\<lambda>(i, oldFile) r.
    case js_get refs oldFile of
      None \<Rightarrow> r
    | Some entry \<Rightarrow> (let newFile = numbered_file i n oldFile in
        if newFile = oldFile then r\<lparr>ro_refs := js_set (ro_refs r) oldFile entry\<rparr>
        else r\<lparr>ro_renames := ro_renames r @ [(oldFile, newFile)],
               ro_scripts := (case js_get (ro_scripts r) (rf_scriptId entry) of
                 Some sd \<Rightarrow> js_set (ro_scripts r) (rf_scriptId entry) (sd\<lparr>sd_fileName := newFile\<rparr>)
               | None \<Rightarrow> ro_scripts r),
               ro_refs := js_set (ro_refs r) newFile (entry\<lparr>rf_fileName := newFile\<rparr>)\<rparr>))"

definition write_moved ::
  "nb_env \<Rightarrow> string \<Rightarrow> string \<Rightarrow> reorder_state \<Rightarrow> string \<times> string \<Rightarrow> unit \<Rightarrow> nb_world \<Rightarrow> unit nb" where
  "write_moved e nid folder r = (\<lambda>(_, newFile) _ w.
    nb_bind (case Option.bind (js_get (ro_refs r) newFile) (\<lambda>entry. js_get (ro_scripts r) (rf_scriptId entry)) of
        Some sd \<Rightarrow> script_toString (sd_script sd) w | None \<Rightarrow> Return [] w) (\<lambda>sql w.
      Return () (nb_write e (groupScriptWrites nid folder newFile) (WRITE_SCRIPT nid folder newFile sql) w)))"

definition delete_moved :: "nb_env \<Rightarrow> string \<Rightarrow> string \<Rightarrow> (string \<times> string) list \<Rightarrow> nb_world \<Rightarrow> nb_world" where
  "delete_moved e nid folder renames w =
    fold (\<lambda>(oldFile, _) w. if oldFile \<in> set (map snd renames) then w
        else nb_write e (groupScriptDeletes nid folder oldFile) (DELETE_SCRIPT nid folder oldFile) w) renames w"

definition reorder_scripts :: "nb_env \<Rightarrow> string \<Rightarrow> string list \<Rightarrow> NotebookState \<Rightarrow> nb_world \<Rightarrow> NotebookState nb" where
  "reorder_scripts e folder requested s w =
    (case js_get (nk_scriptFolders s) folder of
       None \<Rightarrow> Return s w
     | Some page \<Rightarrow>
       (let current = getSortedScriptFileNames e page;
            order = total_order (js_has (pg_scripts page)) requested current
        in if order = current then Return s w
           else (let r = fold (reorder_one (pg_scripts page) (length order)) (enumerate 0 order)
                       \<lparr>ro_renames = [], ro_refs = [], ro_scripts = nk_scripts s\<rparr>
             in if ro_renames r = [] then Return s w
                else (let focus = nk_scriptFocus s;
                          newFile = (if sf_folderName focus = pg_folderName page
                            then or_else (js_get (ro_renames r) (sf_fileName focus)) (sf_fileName focus)
                            else sf_fileName focus);
                          s' = s\<lparr>nk_scriptFolders := js_set (nk_scriptFolders s) (pg_folderName page)
                                   (page\<lparr>pg_scripts := ro_refs r\<rparr>),
                                 nk_scripts := ro_scripts r, nk_scriptFocus := focus\<lparr>sf_fileName := newFile\<rparr>\<rparr>
                  in nb_bind (nb_fold (write_moved e (nk_notebookId s) (pg_folderName page) r) (ro_renames r) ()
                         (delete_moved e (nk_notebookId s) (pg_folderName page) (ro_renames r) w))
                       (\<lambda>_. Return s')))))"

end
