(* ===== verification/Notebook_Reducer.thy ===== *)
theory Notebook_Reducer
  imports Notebook_Scripts
begin

text \<open>The actions of \<^verbatim>\<open>reduceNotebookScripts\<close> (\<^verbatim>\<open>scripts/notebook_scripts.ts\<close>) that change the text or the analysis of a
  script, the reducer itself, the replacement of the content after a change on disk, and the set-up of a
  new notebook.\<close>

section \<open>Updates of the editor\<close>

text \<open>What the editor reports. \<open>up_newBuffers\<close> tells whether the buffers are another object than those of the
  state; the other fields are compared by identity in the code and by handle here.\<close>

record DashQLProcessorUpdate =
  up_scriptKey :: nat
  up_script :: "handle option"
  up_buffers :: DashQLScriptBuffers
  up_newBuffers :: bool
  up_cursor :: "handle option"
  up_completion :: "(handle \<times> nat) option"
  up_pendingDiff :: "(string \<times> handle) option"

datatype FocusUpdate = Clear | UpdateFromCursor | UpdateFromCompletion

definition drop_update :: "DashQLProcessorUpdate \<Rightarrow> NotebookState \<Rightarrow> nb_world \<Rightarrow> NotebookState nb" where
  "drop_update u s w =
    (let w = destroyBuffers (up_buffers u) w; w = destroy_option (up_cursor u) w;
         w = destroy_option (map_option fst (up_completion u)) w; (s, w) = clearSemanticUserFocus s w
     in Return s w)"

text \<open>The comparisons with the previous data, in their order: what they destroy, and the update of the focus.\<close>

definition diff_update ::
  "ScriptData \<Rightarrow> DashQLProcessorUpdate \<Rightarrow> nb_world \<Rightarrow> FocusUpdate option \<times> nb_world" where
  "diff_update d u w =
    (let (fu, w) = (if up_newBuffers u then (Some Clear, destroyBuffers (sd_buffers d) w) else (None, w));
         (fu, w) = (if sd_cursor d \<noteq> up_cursor u
            then (if up_cursor u \<noteq> None then Some UpdateFromCursor else fu, destroy_option (sd_cursor d) w) else (fu, w));
         from_completion = (if up_cursor u \<noteq> None then Some UpdateFromCompletion else fu);
         (fu, w) = (case up_completion u of
            None \<Rightarrow> (fu, w)
          | Some (b, i) \<Rightarrow>
             if map_option fst (sd_completion d) \<noteq> Some b
             then (from_completion, destroy_option (map_option fst (sd_completion d)) w)
             else (if map_option snd (sd_completion d) \<noteq> Some i then from_completion else fu, w));
         w = (if map_option snd (up_pendingDiff u) \<noteq> map_option snd (sd_pendingDiff d)
            then destroy_option (map_option snd (sd_pendingDiff d)) w else w)
     in (fu, w))"

definition update_focus ::
  "nb_core \<Rightarrow> FocusUpdate option \<Rightarrow> handle \<Rightarrow> handle option option \<Rightarrow> nb_world \<Rightarrow> handle option option \<times> nb_world" where
  "update_focus c fu h focus w =
    (case fu of
       None \<Rightarrow> (focus, w)
     | Some Clear \<Rightarrow> (None, destroySemanticUserFocus focus w)
     | Some UpdateFromCursor \<Rightarrow> derive_focus (c_cursorFocus c) h (destroySemanticUserFocus focus w)
     | Some UpdateFromCompletion \<Rightarrow> derive_focus (c_completionFocus c) h (destroySemanticUserFocus focus w))"

definition update_from_processor ::
  "nb_env \<Rightarrow> DashQLProcessorUpdate \<Rightarrow> NotebookState \<Rightarrow> nb_world \<Rightarrow> NotebookState nb" where
  "update_from_processor e u s w =
    (case js_get (nk_scripts s) (up_scriptKey u) of
       None \<Rightarrow> drop_update u s w
     | Some prev \<Rightarrow> if up_script u \<noteq> Some (sd_script prev) then drop_update u s w
       else (let (fu, w) = diff_update prev u w in
         nb_bind (script_result (sd_script prev) w) (\<lambda>st w.
         let (stats, w) = rotateScriptStatistics (sd_statistics prev) st w in
         nb_bind (script_toString (sd_script prev) w) (\<lambda>scriptText w.
         nb_bind (deriveScriptAnnotations (e_core e) (up_buffers u) scriptText (makeScriptLookup (nk_scripts s)) w) (\<lambda>(defs, q) w.
         let d = prev\<lparr>sd_buffers := up_buffers u, sd_outdated := False, sd_cursor := up_cursor u,
                  sd_completion := up_completion u, sd_pendingDiff := up_pendingDiff u, sd_statistics := stats,
                  sd_tableDefs := defs, sd_visualizeQuery := q\<rparr>;
             (focus, w) = update_focus (e_core e) fu (sd_script d) (nk_semanticUserFocus s) w;
             s' = s\<lparr>nk_scripts := js_set (nk_scripts s) (up_scriptKey u) d, nk_semanticUserFocus := focus\<rparr>
         in nb_bind (registry_addScript (e_core e) (sd_script d) w) (\<lambda>_ w.
         nb_bind (if up_newBuffers u then catalog_loadScript (e_core e) (sd_script d) w else Return () w) (\<lambda>_ w.
         let s' = (if up_newBuffers u then s'\<lparr>nk_scripts := mark_outdated (\<lambda>k. False) (nk_scripts s')\<rparr> else s') in
         nb_bind (script_toString (sd_script d) w) (\<lambda>sql w.
         Return s' (write_script_text e (nk_notebookId s') d sql w)))))))))"

section \<open>Registrations\<close>

definition register_in :: "nat \<Rightarrow> (ScriptData \<Rightarrow> ScriptData) \<Rightarrow> NotebookState \<Rightarrow> nb_world \<Rightarrow> NotebookState nb" where
  "register_in key f s w =
    (case js_get (nk_scripts s) key of
       None \<Rightarrow> Return s w
     | Some d \<Rightarrow> Return (s\<lparr>nk_scripts := js_set (nk_scripts s) key (f d)\<rparr>) w)"

text \<open>What the actions that analyze one script again share: install its data, mark the others outdated.\<close>

definition installed :: "nat \<Rightarrow> ScriptData \<Rightarrow> NotebookState \<Rightarrow> NotebookState" where
  "installed key d s = s\<lparr>nk_scripts := mark_outdated (\<lambda>k. k = key) (js_set (nk_scripts s) key d)\<rparr>"

definition register_script_output_schema ::
  "nb_env \<Rightarrow> nat \<Rightarrow> nat \<Rightarrow> string \<Rightarrow> string list \<Rightarrow> NotebookState \<Rightarrow> nb_world \<Rightarrow> NotebookState nb" where
  "register_script_output_schema e key query query_text columnNames s w =
    (case js_get (nk_scripts s) key of
       None \<Rightarrow> Return s w
     | Some d \<Rightarrow> if sd_latestQueryId d \<noteq> Some query then Return s w
       else nb_bind (getExecutableQueryText e s d w) (\<lambda>executable w.
         if executable \<noteq> query_text then Return s w
         else if \<not> js_has (w_text w) (sd_script d) then Raise w
         else if \<not> c_setOutputSchema (e_core e) w (sd_script d) columnNames then Return s (engine_call w)
         else nb_bind (analyzeScriptData e (nk_scripts s) d (engine_call w)) (\<lambda>d' w.
           let (s', w) = clearSemanticUserFocus s w in Return (installed key d' s') w)))"

section \<open>Texts and diffs\<close>

text \<open>The target of a diff is a script of a catalog of its own and is gone when the diff is there.\<close>

definition computePendingDiff ::
  "nb_core \<Rightarrow> handle \<Rightarrow> string \<Rightarrow> string \<Rightarrow> nb_world \<Rightarrow> (string \<times> handle) option \<times> nb_world" where
  "computePendingDiff c h newText priorText w =
    (if js_has (w_text w) h \<and> c_diff c w h newText
     then (let (b, w) = new_buffer (engine_call w) in (Some (priorText, b), w))
     else (None, engine_call w))"

text \<open>Rewrite the text of a script in place, analyze it, and persist it.\<close>

definition rewrite_script ::
  "nb_env \<Rightarrow> nat \<Rightarrow> ScriptData \<Rightarrow> string \<Rightarrow> (string \<times> handle) option \<Rightarrow> NotebookState \<Rightarrow> nb_world \<Rightarrow> NotebookState nb" where
  "rewrite_script e key d new_text pending s w =
    nb_bind (script_replaceText (sd_script d) new_text w) (\<lambda>_ w.
    nb_bind (analyzeScriptData e (nk_scripts s) d w) (\<lambda>d' w.
    let d' = d'\<lparr>sd_pendingDiff := pending\<rparr>; (s', w) = clearSemanticUserFocus s w in
    nb_bind (script_toString (sd_script d') w) (\<lambda>sql w.
    Return (installed key d' s') (write_script_text e (nk_notebookId s) d' sql w))))"

definition set_script_text ::
  "nb_env \<Rightarrow> nat \<Rightarrow> string \<Rightarrow> bool \<Rightarrow> NotebookState \<Rightarrow> nb_world \<Rightarrow> NotebookState nb" where
  "set_script_text e key new_text withDiff s w =
    (case js_get (nk_scripts s) key of
       None \<Rightarrow> Return s w
     | Some d \<Rightarrow> nb_bind (script_toString (sd_script d) w) (\<lambda>priorText w.
        let (pending, w) = (if withDiff \<and> new_text \<noteq> priorText
              then computePendingDiff (e_core e) (sd_script d) new_text priorText w else (None, w));
            w = destroy_option (map_option snd (sd_pendingDiff d)) w
        in rewrite_script e key d new_text pending s w))"

definition accept_pending_diff :: "nat \<Rightarrow> NotebookState \<Rightarrow> nb_world \<Rightarrow> NotebookState nb" where
  "accept_pending_diff key s w =
    (case js_get (nk_scripts s) key of
       None \<Rightarrow> Return s w
     | Some d \<Rightarrow> (case sd_pendingDiff d of
         None \<Rightarrow> Return s w
       | Some (_, b) \<Rightarrow> Return (s\<lparr>nk_scripts := js_set (nk_scripts s) key (d\<lparr>sd_pendingDiff := None\<rparr>)\<rparr>)
           (destroy_buffer b w)))"

definition reject_pending_diff :: "nb_env \<Rightarrow> nat \<Rightarrow> NotebookState \<Rightarrow> nb_world \<Rightarrow> NotebookState nb" where
  "reject_pending_diff e key s w =
    (case js_get (nk_scripts s) key of
       None \<Rightarrow> Return s w
     | Some d \<Rightarrow> (case sd_pendingDiff d of
         None \<Rightarrow> Return s w
       | Some (priorText, b) \<Rightarrow> rewrite_script e key d priorText None s (destroy_buffer b w)))"

section \<open>The reducer\<close>

datatype NotebookScriptsAction =
    NB_SELECT_SCRIPT_FOLDER string
  | NB_CREATE_SCRIPT_FOLDER
  | NB_DELETE_SCRIPT_FOLDER string
  | NB_SELECT_NEXT_SCRIPT_FOLDER
  | NB_SELECT_PREV_SCRIPT_FOLDER
  | NB_SELECT_NEXT_SCRIPT
  | NB_SELECT_PREV_SCRIPT
  | NB_SELECT_SCRIPT string
  | NB_SELECT_SCRIPT_PATH string string
  | NB_ANALYZE_OUTDATED_SCRIPT nat
  | NB_UPDATE_FROM_PROCESSOR DashQLProcessorUpdate
  | NB_CATALOG_DID_UPDATE
  | NB_REGISTER_QUERY nat nat
  | NB_REGISTER_SCRIPT_OUTPUT_SCHEMA nat nat string "string list"
  | NB_REGISTER_AGENT_RUN nat nat
  | NB_CREATE_SCRIPT
  | NB_DELETE_SCRIPT string
  | NB_RENAME_SCRIPT string string
  | NB_RENAME_SCRIPT_FOLDER string string
  | NB_REORDER_SCRIPT_FOLDERS "string list"
  | NB_REORDER_SCRIPTS string "string list"
  | NB_PROMOTE_UNCOMMITTED_SCRIPT
  | NB_SET_SCRIPT_TEXT nat string bool
  | NB_CREATE_SCRIPT_WITH_TEXT string
  | NB_ACCEPT_PENDING_DIFF nat
  | NB_REJECT_PENDING_DIFF nat

fun reduceNotebookScripts :: "nb_env \<Rightarrow> NotebookScriptsAction \<Rightarrow> NotebookState \<Rightarrow> nb_world \<Rightarrow> NotebookState nb" where
  "reduceNotebookScripts e (NB_SELECT_SCRIPT_FOLDER folder) = select_script_folder e folder"
| "reduceNotebookScripts e NB_CREATE_SCRIPT_FOLDER = create_script_folder e"
| "reduceNotebookScripts e (NB_DELETE_SCRIPT_FOLDER folder) = delete_script_folder e folder"
| "reduceNotebookScripts e NB_SELECT_NEXT_SCRIPT_FOLDER = select_folder_at e next_index"
| "reduceNotebookScripts e NB_SELECT_PREV_SCRIPT_FOLDER = select_folder_at e prev_index"
| "reduceNotebookScripts e NB_SELECT_NEXT_SCRIPT = select_script_at e next_index"
| "reduceNotebookScripts e NB_SELECT_PREV_SCRIPT = select_script_at e prev_index"
| "reduceNotebookScripts e (NB_SELECT_SCRIPT file) = select_script e file"
| "reduceNotebookScripts e (NB_SELECT_SCRIPT_PATH folder file) = select_script_path folder file"
| "reduceNotebookScripts e (NB_ANALYZE_OUTDATED_SCRIPT key) = analyzeOutdatedScript e key"
| "reduceNotebookScripts e (NB_UPDATE_FROM_PROCESSOR u) = update_from_processor e u"
| "reduceNotebookScripts e NB_CATALOG_DID_UPDATE =
    (\<lambda>s. Return (s\<lparr>nk_scripts := mark_outdated (\<lambda>k. False) (nk_scripts s)\<rparr>))"
| "reduceNotebookScripts e (NB_REGISTER_QUERY key query) = register_in key (\<lambda>d. d\<lparr>sd_latestQueryId := Some query\<rparr>)"
| "reduceNotebookScripts e (NB_REGISTER_SCRIPT_OUTPUT_SCHEMA key query query_text columnNames) =
    register_script_output_schema e key query query_text columnNames"
| "reduceNotebookScripts e (NB_REGISTER_AGENT_RUN key run) = register_in key (\<lambda>d. d\<lparr>sd_latestAgentRunId := Some run\<rparr>)"
| "reduceNotebookScripts e NB_CREATE_SCRIPT = create_script e"
| "reduceNotebookScripts e (NB_DELETE_SCRIPT file) = delete_script e file"
| "reduceNotebookScripts e (NB_RENAME_SCRIPT old requested) = rename_script e old requested"
| "reduceNotebookScripts e (NB_RENAME_SCRIPT_FOLDER old requested) = rename_script_folder e old requested"
| "reduceNotebookScripts e (NB_REORDER_SCRIPT_FOLDERS order) = reorder_script_folders e order"
| "reduceNotebookScripts e (NB_REORDER_SCRIPTS folder order) = reorder_scripts e folder order"
| "reduceNotebookScripts e NB_PROMOTE_UNCOMMITTED_SCRIPT = promote_uncommitted_script e"
| "reduceNotebookScripts e (NB_SET_SCRIPT_TEXT key new_text withDiff) = set_script_text e key new_text withDiff"
| "reduceNotebookScripts e (NB_CREATE_SCRIPT_WITH_TEXT new_text) = create_script_with_text e new_text"
| "reduceNotebookScripts e (NB_ACCEPT_PENDING_DIFF key) = accept_pending_diff key"
| "reduceNotebookScripts e (NB_REJECT_PENDING_DIFF key) = reject_pending_diff e key"

section \<open>Set-up\<close>

text \<open>\<^verbatim>\<open>useNotebookScriptsSetup\<close> of \<^verbatim>\<open>scripts/notebook_scripts_setup.tsx\<close>: a page \<^verbatim>\<open>main\<close> with one script, and a draft.\<close>

definition notebook_setup :: "nb_env \<Rightarrow> string \<Rightarrow> nb_world \<Rightarrow> NotebookState \<times> nb_world" where
  "notebook_setup e nid w =
    (let (key, w) = createScript w;
         (plan, draws) = planScriptInsertion ([] :: (string, ScriptRef) jsmap) None (e_rng e) (w_draws w);
         file = plan_newFileName plan; w = w\<lparr>w_draws := draws\<rparr>;
         ((draft, dd), w) = createEmptyScriptData [] [] w
     in (\<lparr>nk_notebookId = nid,
          nk_scripts = js_set [(key, empty_script_data key file ''main'')] draft dd,
          nk_scriptFolders = [(''main'', \<lparr>pg_folderName = ''main'',
            pg_scripts = [(file, \<lparr>rf_scriptId = key, rf_fileName = file\<rparr>)]\<rparr>)],
          nk_uncommittedScriptId = draft,
          nk_scriptFocus = \<lparr>sf_folderName = ''main'', sf_fileName = file, sf_interactionCounter = 0\<rparr>,
          nk_semanticUserFocus = None\<rparr>, w))"

text \<open>The heap of a fresh core module.\<close>

definition empty_world :: nb_world where
  "empty_world = \<lparr>w_text = [], w_path = [], w_nextScript = 1, w_buffers = [], w_nextBuffer = 0, w_catalog = [],
     w_registry = [], w_writes = [], w_draws = 0, w_calls = 0\<rparr>"

end
