(* ===== verification/Notebook_Sync.thy ===== *)
theory Notebook_Sync
  imports Notebook_Reducer
begin

text \<open>Content that changed on disk: the comparison of a notebook with a storage snapshot and the replacement of
  its content by one, of \<^verbatim>\<open>scripts/notebook_scripts.ts\<close>.\<close>

record NotebookScriptsStorageSnapshot =
  sn_folders :: "(string \<times> (string \<times> string) list) list"
  sn_draft :: "string option"

definition snapshot_scripts :: "NotebookScriptsStorageSnapshot \<Rightarrow> (string, string) jsmap" where
  "snapshot_scripts snap = fold (\<lambda>(folder, files). fold (\<lambda>(file, sql) m. js_set m (folder @ ''/'' @ file) sql) files)
     (sn_folders snap) []"

definition has_path :: "ScriptData \<Rightarrow> bool" where
  "has_path d \<longleftrightarrow> sd_folderName d \<noteq> [] \<and> sd_fileName d \<noteq> []"

definition path_of :: "ScriptData \<Rightarrow> string" where
  "path_of d = sd_folderName d @ ''/'' @ sd_fileName d"

definition script_values :: "(nat, ScriptData) jsmap \<Rightarrow> ScriptData list" where
  "script_values m = List.map_filter (js_get m) (script_keys m)"

definition matches_disk :: "(string, string) jsmap \<Rightarrow> ScriptData \<Rightarrow> bool \<Rightarrow> nb_world \<Rightarrow> bool nb" where
  "matches_disk disk d ok w =
    (if \<not> ok then Return False w
     else nb_bind (script_toString (sd_script d) w) (\<lambda>sql. Return (js_get disk (path_of d) = Some sql)))"

definition notebookScriptsMatchStorageSnapshot ::
  "NotebookState \<Rightarrow> NotebookScriptsStorageSnapshot \<Rightarrow> nb_world \<Rightarrow> bool nb" where
  "notebookScriptsMatchStorageSnapshot s snap w =
    (let diskPages = remdups (map fst (sn_folders snap));
         memoryPages = js_keys (nk_scriptFolders s);
         memoryPages = (if diskPages = [] \<and> memoryPages = [''Untitled''] then [] else memoryPages);
         disk = snapshot_scripts snap;
         memoryScripts = filter has_path (script_values (nk_scripts s))
     in if length diskPages \<noteq> length memoryPages \<or> \<not> list_all (\<lambda>p. p \<in> set memoryPages) diskPages then Return False w
        else if length memoryScripts \<noteq> length disk then Return False w
        else nb_bind (nb_fold (matches_disk disk) memoryScripts True w) (\<lambda>ok w.
          if \<not> ok then Return False w
          else nb_bind (case js_get (nk_scripts s) (nk_uncommittedScriptId s) of
              Some d \<Rightarrow> script_toString (sd_script d) w | None \<Rightarrow> Return [] w) (\<lambda>draft.
            Return (draft = or_else (sn_draft snap) []))))"

section \<open>Replacement\<close>

text \<open>A script takes the stored text: a staged diff and a completion of the old text go.\<close>

definition take_text :: "string \<Rightarrow> ScriptData \<Rightarrow> nb_world \<Rightarrow> (ScriptData \<times> bool) nb" where
  "take_text sql d w =
    nb_bind (script_toString (sd_script d) w) (\<lambda>current w.
    if current = sql then Return (d, False) w
    else (let w = destroy_option (map_option snd (sd_pendingDiff d)) w;
              w = destroy_option (map_option fst (sd_completion d)) w
      in nb_bind (script_replaceText (sd_script d) sql w) (\<lambda>_.
         Return (d\<lparr>sd_pendingDiff := None, sd_completion := None, sd_outdated := True\<rparr>, True))))"

record replace_state =
  rs_existing :: "(string, ScriptData) jsmap"
  rs_scripts :: "(nat, ScriptData) jsmap"
  rs_folders :: "(string, ScriptFolder) jsmap"
  rs_changed :: bool

definition replace_script ::
  "string \<Rightarrow> string \<times> string \<Rightarrow> replace_state \<times> (string, ScriptRef) jsmap \<Rightarrow> nb_world
    \<Rightarrow> (replace_state \<times> (string, ScriptRef) jsmap) nb" where
  "replace_script folder = (\<lambda>(file, sql) (r, refs) w.
    let path = folder @ ''/'' @ file in
    nb_bind (case js_get (rs_existing r) path of
        Some d \<Rightarrow> nb_bind (take_text sql d w) (\<lambda>(d, changed). Return (js_delete (rs_existing r) path, d, changed))
      | None \<Rightarrow> (let ((key, d), w) = createEmptyScriptData file folder w in
          nb_bind (script_replaceText (sd_script d) sql w) (\<lambda>_. Return (rs_existing r, d, True)))) (\<lambda>(existing, d, changed).
    Return (r\<lparr>rs_existing := existing, rs_scripts := js_set (rs_scripts r) (sd_scriptKey d) d,
        rs_changed := (rs_changed r \<or> changed)\<rparr>,
      js_set refs file \<lparr>rf_scriptId = sd_scriptKey d, rf_fileName = file\<rparr>)))"

definition replace_folder ::
  "string \<times> (string \<times> string) list \<Rightarrow> replace_state \<Rightarrow> nb_world \<Rightarrow> replace_state nb" where
  "replace_folder = (\<lambda>(folder, files) r w.
    nb_bind (nb_fold (replace_script folder) files (r, []) w) (\<lambda>(r, refs).
    Return (r\<lparr>rs_folders := js_set (rs_folders r) folder \<lparr>pg_folderName = folder, pg_scripts = refs\<rparr>\<rparr>)))"

text \<open>What \<^verbatim>\<open>dropScript\<close> of the catalog throws is caught here.\<close>

definition remove_script :: "ScriptData \<Rightarrow> unit \<Rightarrow> nb_world \<Rightarrow> unit nb" where
  "remove_script d _ w =
    (let w = (case catalog_dropScript (sd_script d) w of Return _ w \<Rightarrow> w | Raise w \<Rightarrow> w) in
     nb_bind (registry_dropScript (sd_script d) w) (\<lambda>_ w. Return () (destroyScriptData d w)))"

definition existing_by_path :: "NotebookState \<Rightarrow> (string, ScriptData) jsmap" where
  "existing_by_path s =
    fold (\<lambda>d m. js_set m (path_of d) d) (filter has_path (script_values (nk_scripts s))) []"

text \<open>The draft keeps its identity; a missing one is created. The result: its data, its id, and whether it changed.\<close>

definition replace_draft_script :: "NotebookState \<Rightarrow> string \<Rightarrow> nb_world \<Rightarrow> (ScriptData \<times> nat \<times> bool) nb" where
  "replace_draft_script s sql w =
    (let (d, uid, created, w) = (case js_get (nk_scripts s) (nk_uncommittedScriptId s) of
           Some d \<Rightarrow> (d, nk_uncommittedScriptId s, False, w)
         | None \<Rightarrow> (let ((key, d), w) = createEmptyScriptData [] [] w in (d, key, True, w)))
     in nb_bind (take_text sql d w) (\<lambda>(d, changed). Return (d, uid, created \<or> changed)))"

definition replaceNotebookScriptsFromStorage ::
  "nb_env \<Rightarrow> NotebookScriptsStorageSnapshot \<Rightarrow> bool \<Rightarrow> NotebookState \<Rightarrow> nb_world \<Rightarrow> NotebookState nb" where
  "replaceNotebookScriptsFromStorage e snap forceAnalyze s w =
    nb_bind (nb_fold replace_folder (sn_folders snap)
      \<lparr>rs_existing = existing_by_path s, rs_scripts = [], rs_folders = [], rs_changed = False\<rparr> w) (\<lambda>r w.
    nb_bind (nb_fold remove_script (map snd (rs_existing r)) () w) (\<lambda>_ w.
    nb_bind (replace_draft_script s (or_else (sn_draft snap) []) w) (\<lambda>(d, uid, draftChanged) w.
    let scripts = js_set (rs_scripts r) (sd_scriptKey d) d;
        folders = (if rs_folders r = [] then [(''Untitled'', \<lparr>pg_folderName = ''Untitled'', pg_scripts = []\<rparr>)]
                   else rs_folders r);
        focus = nk_scriptFocus s;
        folder = (if js_has folders (sf_folderName focus) then sf_folderName focus
                  else or_else (js_at (getSortedScriptFolderNames e folders) 0) []);
        file = (if (case js_get folders folder of Some page \<Rightarrow> js_has (pg_scripts page) (sf_fileName focus) | None \<Rightarrow> False)
                then sf_fileName focus
                else if folder = [] then [] else first_file e (js_get folders folder));
        (s', w) = clearSemanticUserFocus (s\<lparr>nk_uncommittedScriptId := uid\<rparr>) w;
        s' = s'\<lparr>nk_scripts := scripts, nk_scriptFolders := folders,
          nk_scriptFocus := focus\<lparr>sf_folderName := folder, sf_fileName := file\<rparr>\<rparr>
    in if rs_changed r \<or> rs_existing r \<noteq> [] \<or> draftChanged \<or> forceAnalyze
       then analyzeAllScripts e (s'\<lparr>nk_scripts := mark_outdated (\<lambda>k. False) scripts\<rparr>) w
       else Return s' w)))"

end
