(* ===== verification/Notebook_Invariants.thy ===== *)
theory Notebook_Invariants
  imports Notebook_Sync
begin

text \<open>Facts about the helpers of the notebook model: what the analysis of a script leaves alone, when it returns,
  and what sorting, indexing and total orders do to the names of a page.\<close>

section \<open>Calls that only touch buffers and indices\<close>

text \<open>Such a call changes no text and schedules no write; the catalog and the registry only gain live scripts.\<close>

definition live :: "nb_world \<Rightarrow> handle set" where
  "live w = fst ` set (w_text w)"

definition quiet :: "nb_world \<Rightarrow> nb_world \<Rightarrow> bool" where
  "quiet w w' \<longleftrightarrow> w_text w' = w_text w \<and> w_nextScript w' = w_nextScript w \<and> w_writes w' = w_writes w \<and>
     w_draws w' = w_draws w \<and> set (w_catalog w') \<subseteq> set (w_catalog w) \<union> live w \<and>
     set (w_registry w') \<subseteq> set (w_registry w) \<union> live w \<and>
     fst ` set (w_path w') \<subseteq> fst ` set (w_path w) \<union> live w"

named_theorems quiet_intros "calls that only touch buffers and indices"

lemma live_iff: "h \<in> live w \<longleftrightarrow> js_has (w_text w) h"
  unfolding live_def keys_get_None by simp

lemma quiet_refl [quiet_intros]: "quiet w w"
  by (simp add: quiet_def)

lemma subset_Un_trans: "R \<subseteq> Q \<union> L \<Longrightarrow> Q \<subseteq> P \<union> L \<Longrightarrow> R \<subseteq> P \<union> L"
  by blast

lemma quiet_trans: "quiet w w' \<Longrightarrow> quiet w' w'' \<Longrightarrow> quiet w w''"
proof -
  assume a: "quiet w w'" and b: "quiet w' w''"
  from a have l: "live w' = live w" by (simp add: quiet_def live_def)
  note a = a [unfolded quiet_def] and b = b [unfolded quiet_def l]
  have "set (w_catalog w'') \<subseteq> set (w_catalog w) \<union> live w" by (rule subset_Un_trans [where Q = "set (w_catalog w')"]) (use a b in simp_all)
  moreover have "set (w_registry w'') \<subseteq> set (w_registry w) \<union> live w" by (rule subset_Un_trans [where Q = "set (w_registry w')"]) (use a b in simp_all)
  moreover have "fst ` set (w_path w'') \<subseteq> fst ` set (w_path w) \<union> live w" by (rule subset_Un_trans [where Q = "fst ` set (w_path w')"]) (use a b in simp_all)
  ultimately show ?thesis unfolding quiet_def using a b by simp
qed

lemma quiet_live: "quiet w w' \<Longrightarrow> live w' = live w"
  by (simp add: quiet_def live_def)

lemma quiet_engine_call [quiet_intros]: "quiet w (engine_call w)"
  by (simp add: quiet_def engine_call_def)

lemma quiet_destroy_buffer [quiet_intros]: "quiet w (destroy_buffer b w)"
  by (simp add: quiet_def destroy_buffer_def)

lemma quiet_destroy_option [quiet_intros]: "quiet w (destroy_option b w)"
  by (simp add: destroy_option_def quiet_intros split: option.split)

lemma quiet_destroyBuffers [quiet_intros]: "quiet w (destroyBuffers b w)"
  unfolding destroyBuffers_def by (rule quiet_trans [OF quiet_destroy_option quiet_destroy_option])

lemma quiet_destroy_focus [quiet_intros]: "quiet w (destroySemanticUserFocus f w)"
  by (simp add: destroySemanticUserFocus_def quiet_intros split: option.split)

lemma quiet_new_buffer: "new_buffer w = (b, w') \<Longrightarrow> quiet w w'"
  by (auto simp: new_buffer_def quiet_def)

lemma quiet_clear: "clearSemanticUserFocus s w = (s', w') \<Longrightarrow>
    quiet w w' \<and> s' = s\<lparr>nk_semanticUserFocus := None\<rparr>"
  by (auto simp: clearSemanticUserFocus_def quiet_intros)

lemma quiet_derive_focus: "derive_focus f h w = (r, w') \<Longrightarrow> quiet w w'"
  by (auto simp: derive_focus_def Let_def quiet_intros split: option.splits bool.splits prod.splits
      dest!: quiet_new_buffer intro: quiet_trans [OF quiet_engine_call])

lemma quiet_analyzeScript: "analyzeScript c h w = (b, w') \<Longrightarrow> quiet w w'"
proof -
  assume a: "analyzeScript c h w = (b, w')"
  show ?thesis
  proof (cases "js_get (w_text w) h = None \<or> c_analyze c w h = None")
    case True
    with a show ?thesis by (auto simp: analyzeScript_def quiet_intros split: option.splits)
  next
    case False
    then obtain t r where "js_get (w_text w) h = Some t" "c_analyze c w h = Some r" by auto
    with a show ?thesis
      by (auto simp: analyzeScript_def Let_def new_buffer_def engine_call_def quiet_def live_def)
  qed
qed

lemma quiet_rotate: "rotateScriptStatistics log st w = (log', w') \<Longrightarrow> quiet w w'"
  by (auto simp: rotateScriptStatistics_def Let_def quiet_intros split: if_splits)

lemma quiet_script_result: "script_result h w = Return b w' \<Longrightarrow> quiet w w'"
  by (auto simp: script_result_def Let_def split: if_splits prod.splits
      dest!: quiet_new_buffer intro: quiet_trans quiet_engine_call)

lemma quiet_toString: "script_toString h w = Return t w' \<Longrightarrow> w' = w \<and> js_get (w_text w) h = Some t"
  by (auto simp: script_toString_def split: option.splits)

lemma quiet_lookup: "makeScriptLookup scripts k w = Return t w' \<Longrightarrow> w' = w"
  by (auto simp: makeScriptLookup_def nb_bind_eq_Return split: option.splits dest: quiet_toString)

lemma quiet_resolve:
  assumes "resolveVisualizeQuery c b tx lookup w = Return q w'" "\<And>k w t w'. lookup k w = Return t w' \<Longrightarrow> w' = w"
  shows "w' = w"
proof -
  have v: "w' = w" if "visualize_sql spec tx lookup w = Return sql w'" for spec sql w w'
    using that assms(2)
    by (cases "vs_sourceKind spec"; cases "readScriptReferenceKey spec") (simp_all add: visualize_sql_def)
  show ?thesis
  proof (cases "bf_analyzed b = None \<or> bf_parsed b = None")
    case True
    with assms(1) show ?thesis by (auto simp: resolveVisualizeQuery_def split: option.splits)
  next
    case False
    then obtain h a pp where "bf_analyzed b = Some (h, a)" "bf_parsed b = Some pp" by auto
    with assms(1) show ?thesis
      by (cases "an_visualizationSpecs a") (auto simp: resolveVisualizeQuery_def nb_bind_eq_Return dest: v)
  qed
qed

lemma quiet_derive: "deriveScriptAnnotations c b tx (makeScriptLookup scripts) w = Return r w' \<Longrightarrow> w' = w"
  by (auto simp: deriveScriptAnnotations_def nb_bind_eq_Return split: option.splits prod.splits
      dest!: quiet_resolve quiet_lookup)

lemma set_List_insert: "set (List.insert h xs) = insert h (set xs)"
  by simp

lemma quiet_addScript: "registry_addScript c h w = Return u w' \<Longrightarrow> quiet w w'"
  by (auto simp: registry_addScript_def quiet_def engine_call_def live_def keys_get_Some split: if_splits)

lemma quiet_loadScript: "catalog_loadScript c h w = Return u w' \<Longrightarrow> quiet w w'"
  by (auto simp: catalog_loadScript_def quiet_def engine_call_def live_def keys_get_Some split: if_splits)

lemma quiet_move_cursor: "move_cursor d w = Return b w' \<Longrightarrow> quiet w w'"
  by (auto simp: move_cursor_def nb_bind_eq_Return quiet_intros split: option.splits
      dest!: quiet_script_result intro: quiet_trans quiet_destroy_buffer)

lemma quiet_set_path: "set_script_path d w = Return u w' \<Longrightarrow> quiet w w'"
proof -
  assume a: "set_script_path d w = Return u w'"
  show ?thesis
  proof (cases "sd_folderName d \<noteq> [] \<and> sd_fileName d \<noteq> []")
    case True
    with a have "sd_script d \<in> live w" "w' = w\<lparr>w_path := js_set (w_path w) (sd_script d) (catalog_path d)\<rparr>"
      by (auto simp: set_script_path_def script_setPath_def live_iff split: if_splits)
    then show ?thesis by (auto simp: quiet_def live_def)
  next
    case False
    with a show ?thesis by (auto simp: set_script_path_def quiet_refl split: if_splits)
  qed
qed

section \<open>The analysis of a script\<close>

text \<open>What the structure of a notebook depends on: the key, the object, and the path of each script.\<close>

definition skel :: "ScriptData \<Rightarrow> nat \<times> handle \<times> string \<times> string" where
  "skel d = (sd_scriptKey d, sd_script d, sd_folderName d, sd_fileName d)"

lemma analyzeScriptData_frame:
  assumes "analyzeScriptData e scripts d w = Return d' w'"
  shows "skel d' = skel d \<and> quiet w w'"
proof -
  note a = assms [unfolded analyzeScriptData_def]
  obtain u1 w1 where 1: "set_script_path d (destroyBuffers (sd_buffers d) w) = Return u1 w1"
    using a by (cases "set_script_path d (destroyBuffers (sd_buffers d) w)") simp_all
  obtain b w2 where 2: "analyzeScript (e_core e) (sd_script d) w1 = (b, w2)" by (meson surj_pair)
  obtain st w3 where 3: "script_result (sd_script d) w2 = Return st w3"
    using a by (cases "script_result (sd_script d) w2") (simp_all add: 1 2)
  obtain stats w4 where 4: "rotateScriptStatistics (sd_statistics d) st w3 = (stats, w4)" by (meson surj_pair)
  obtain tx w5 where 5: "script_toString (sd_script d) w4 = Return tx w5"
    using a by (cases "script_toString (sd_script d) w4") (simp_all add: 1 2 3 4)
  let ?derive = "deriveScriptAnnotations (e_core e) b tx (makeScriptLookup scripts) w5"
  obtain r w6 where 6: "?derive = Return r w6" using a by (cases ?derive) (simp_all add: 1 2 3 4 5)
  obtain u2 w7 where 7: "registry_addScript (e_core e) (sd_script d) w6 = Return u2 w7"
    using a by (cases "registry_addScript (e_core e) (sd_script d) w6") (simp_all add: 1 2 3 4 5 6 split: prod.splits)
  obtain u3 w8 where 8: "catalog_loadScript (e_core e) (sd_script d) w7 = Return u3 w8"
    using a by (cases "catalog_loadScript (e_core e) (sd_script d) w7") (simp_all add: 1 2 3 4 5 6 7 split: prod.splits)
  obtain cur w9 where 9: "move_cursor d w8 = Return cur w9"
    using a by (cases "move_cursor d w8") (simp_all add: 1 2 3 4 5 6 7 8 split: prod.splits)
  from a have d': "skel d' = skel d" and w': "w' = w9"
    by (auto simp: 1 2 3 4 5 6 7 8 9 skel_def split: prod.splits)
  from 1 2 3 4 5 6 7 8 9 have "quiet (destroyBuffers (sd_buffers d) w) w1" "quiet w1 w2" "quiet w2 w3" "quiet w3 w4"
    "w5 = w4" "w6 = w5" "quiet w6 w7" "quiet w7 w8" "quiet w8 w9"
    by (auto dest: quiet_set_path quiet_analyzeScript quiet_script_result quiet_rotate quiet_toString quiet_derive
        quiet_addScript quiet_loadScript quiet_move_cursor)
  then have "quiet w w'" unfolding w' by (metis quiet_trans quiet_destroyBuffers)
  with d' show ?thesis by simp
qed

text \<open>It returns when its script is alive, every script of the lookup is, and the engine accepts scripts.\<close>

definition core_accepts :: "nb_core \<Rightarrow> bool" where
  "core_accepts c \<longleftrightarrow> (\<forall>w h. c_addScript c w h \<and> c_loadScript c w h)"

definition scripts_live :: "(nat, ScriptData) jsmap \<Rightarrow> nb_world \<Rightarrow> bool" where
  "scripts_live scripts w \<longleftrightarrow> (\<forall>k d. js_get scripts k = Some d \<longrightarrow> sd_script d \<in> live w)"

lemma toString_live: "h \<in> live w \<Longrightarrow> \<exists>t. script_toString h w = Return t w"
  by (auto simp: script_toString_def live_iff)

lemma lookup_returns: "scripts_live scripts w \<Longrightarrow> \<exists>t. makeScriptLookup scripts k w = Return t w"
proof (cases "js_get scripts k")
  case (Some d)
  assume "scripts_live scripts w"
  with Some have "sd_script d \<in> live w" by (auto simp: scripts_live_def)
  from toString_live [OF this] show ?thesis by (auto simp: makeScriptLookup_def Some)
qed (simp add: makeScriptLookup_def)

lemma resolve_returns:
  assumes "\<And>k. \<exists>t. lookup k w = Return t w"
  shows "\<exists>q. resolveVisualizeQuery c b tx lookup w = Return q w"
proof -
  have "\<exists>sql. visualize_sql spec tx lookup w = Return sql w" for spec
    using assms by (auto simp: visualize_sql_def split: VisSourceKind.split option.split)
  then obtain sql where sql: "visualize_sql spec tx lookup w = Return (sql spec) w" for spec by metis
  show ?thesis by (auto simp: resolveVisualizeQuery_def sql split: option.split list.split)
qed

lemma derive_returns: "scripts_live scripts w \<Longrightarrow>
    \<exists>r. deriveScriptAnnotations c b tx (makeScriptLookup scripts) w = Return r w"
proof -
  assume l: "scripts_live scripts w"
  have "\<exists>t. makeScriptLookup scripts k w = Return t w" for k by (rule lookup_returns [OF l])
  from resolve_returns [where lookup = "makeScriptLookup scripts", OF this] obtain q where "resolveVisualizeQuery c b tx (makeScriptLookup scripts) w = Return q w" by blast
  then show ?thesis by (auto simp: deriveScriptAnnotations_def split: option.split)
qed

lemma script_result_live: "h \<in> live w \<Longrightarrow> \<exists>b w'. script_result h w = Return b w'"
  by (auto simp: script_result_def live_iff Let_def split: prod.split)

lemma analyzeScriptData_returns:
  assumes "core_accepts (e_core e)" "sd_script d \<in> live w" "scripts_live scripts w"
  shows "\<exists>d' w'. analyzeScriptData e scripts d w = Return d' w'"
proof -
  have lv: "sd_script d \<in> live x" "scripts_live scripts x" if "quiet w x" for x
    using assms(2,3) quiet_live [OF that] by (simp_all add: scripts_live_def)
  have "\<exists>u w1. set_script_path d (destroyBuffers (sd_buffers d) w) = Return u w1"
    using lv [OF quiet_destroyBuffers] by (auto simp: set_script_path_def script_setPath_def live_iff)
  then obtain u1 w1 where 1: "set_script_path d (destroyBuffers (sd_buffers d) w) = Return u1 w1" by blast
  obtain b w2 where 2: "analyzeScript (e_core e) (sd_script d) w1 = (b, w2)" by (meson surj_pair)
  have q2: "quiet w w2" by (metis 1 2 quiet_trans quiet_destroyBuffers quiet_set_path quiet_analyzeScript)
  obtain st w3 where 3: "script_result (sd_script d) w2 = Return st w3" using script_result_live lv(1) [OF q2] by blast
  obtain stats w4 where 4: "rotateScriptStatistics (sd_statistics d) st w3 = (stats, w4)" by (meson surj_pair)
  have q4: "quiet w w4" by (metis 3 4 q2 quiet_trans quiet_script_result quiet_rotate)
  obtain tx where 5: "script_toString (sd_script d) w4 = Return tx w4" using toString_live lv(1) [OF q4] by blast
  obtain r where 6: "deriveScriptAnnotations (e_core e) b tx (makeScriptLookup scripts) w4 = Return r w4"
    using derive_returns lv(2) [OF q4] by blast
  obtain w7 where 7: "registry_addScript (e_core e) (sd_script d) w4 = Return () w7"
    using assms(1) lv(1) [OF q4] by (auto simp: registry_addScript_def core_accepts_def live_iff)
  have q7: "quiet w w7" by (metis 7 q4 quiet_trans quiet_addScript)
  obtain w8 where 8: "catalog_loadScript (e_core e) (sd_script d) w7 = Return () w8"
    using assms(1) lv(1) [OF q7] by (auto simp: catalog_loadScript_def core_accepts_def live_iff)
  have q8: "quiet w w8" by (metis 8 q7 quiet_trans quiet_loadScript)
  have "\<exists>cur w9. move_cursor d w8 = Return cur w9"
  proof (cases "sd_cursor d")
    case (Some c)
    have "sd_script d \<in> live (destroy_buffer c w8)"
      using lv(1) [OF q8] quiet_live [OF q8] quiet_live [OF quiet_destroy_buffer] assms(2) by simp
    from script_result_live [OF this] show ?thesis by (auto simp: move_cursor_def Some)
  qed (simp add: move_cursor_def)
  then obtain cur w9 where 9: "move_cursor d w8 = Return cur w9" by blast
  show ?thesis by (simp add: analyzeScriptData_def 1 2 3 4 5 6 7 8 9 split: prod.split)
qed

section \<open>Sorting, indexing, orders\<close>

lemma mset_js_insert: "mset (js_insert cmp x xs) = add_mset x (mset xs)"
  by (induction xs) auto

lemma mset_js_sort: "mset (js_sort cmp xs) = mset xs"
  unfolding js_sort_def by (induction xs) (simp_all add: mset_js_insert)

lemma set_js_sort [simp]: "set (js_sort cmp xs) = set xs"
  by (metis mset_eq_setD mset_js_sort)

lemma distinct_js_sort [simp]: "distinct (js_sort cmp xs) = distinct xs"
  by (metis mset_eq_imp_distinct_iff mset_js_sort)

lemma length_js_sort [simp]: "length (js_sort cmp xs) = length xs"
  by (metis mset_eq_length mset_js_sort)

lemma js_sort_Nil [simp]: "js_sort cmp xs = [] \<longleftrightarrow> xs = []"
  by (metis length_0_conv length_js_sort)

lemma js_at_Some: "js_at xs i = Some x \<Longrightarrow> x \<in> set xs"
  by (auto simp: js_at_def split: if_splits)

lemma js_at_0: "js_at xs 0 = None \<longleftrightarrow> xs = []"
  by (auto simp: js_at_def)

lemma or_else_in: "or_else (js_at xs i) d \<in> insert d (set xs)"
  by (cases "js_at xs i") (auto simp: or_else_def dest: js_at_Some)

lemma set_folder_names [simp]: "set (getSortedScriptFolderNames e pages) = fst ` set pages"
  by (simp add: getSortedScriptFolderNames_def)

lemma set_file_names [simp]: "set (getSortedScriptFileNames e page) = fst ` set (pg_scripts page)"
  by (simp add: getSortedScriptFileNames_def)

lemma set_map_filter: "set (List.map_filter f xs) = {y. \<exists>x \<in> set xs. f x = Some y}"
  by (induction xs) (auto simp: List.map_filter_simps split: option.splits)

lemma set_object_values: "jsmap_ok m \<Longrightarrow> set (object_values m) = snd ` set m"
proof -
  assume ok: "jsmap_ok m"
  have "y \<in> snd ` set m \<longleftrightarrow> (\<exists>k. js_get m k = Some y)" for y
  proof
    assume "y \<in> snd ` set m"
    then obtain k where "(k, y) \<in> set m" by force
    then show "\<exists>k. js_get m k = Some y" using js_in_get [OF ok] by blast
  qed (force dest: js_get_in_values)
  moreover have "y \<in> set (object_values m) \<longleftrightarrow> (\<exists>k. js_get m k = Some y)" for y
  proof -
    have "y \<in> set (object_values m) \<longleftrightarrow> (\<exists>k \<in> fst ` set m. js_get m k = Some y)"
      by (simp add: object_values_def set_map_filter)
    then show ?thesis using keys_get_Some [of m _ y] by blast
  qed
  ultimately show ?thesis by blast
qed

lemma set_total_order: "set (total_order ex requested current) = {x \<in> set requested. ex x} \<union> set current"
  by (auto simp: total_order_def)

lemma distinct_total_order: "distinct (total_order ex requested current)"
  by (simp add: total_order_def)

lemma set_script_keys [simp]: "set (script_keys m) = fst ` set m"
  by (simp add: script_keys_def)

lemma js_index_of_ge: "js_index_of xs x \<ge> 0 \<longleftrightarrow> x \<in> set xs"
  by (induction xs) (auto simp: Let_def)

lemma js_index_of_nth: "x \<in> set xs \<Longrightarrow> nat (js_index_of xs x) < length xs \<and> xs ! nat (js_index_of xs x) = x"
proof (induction xs)
  case (Cons y ys)
  show ?case
  proof (cases "y = x")
    case False
    with Cons have "x \<in> set ys" by simp
    with Cons.IH js_index_of_ge [of ys x] False show ?thesis by (auto simp: Let_def nat_add_distrib)
  qed simp
qed simp


text \<open>The invariant of a notebook's scripts, the relation between its scripts and the Wasm heap, and the three ways in
  which actions change the structure: folders move, files of a page move, a script is added. Each is stated
  once, with the proof that it keeps the invariant.\<close>

section \<open>Invariant\<close>

text \<open>Every entry of a page names a script that knows this path; every script but the draft has an entry at its path;
  the draft has none.\<close>

definition ref_ok :: "(nat, ScriptData) jsmap \<Rightarrow> string \<Rightarrow> string \<Rightarrow> ScriptRef \<Rightarrow> bool" where
  "ref_ok scripts k f r \<longleftrightarrow> f \<noteq> [] \<and> rf_fileName r = f \<and>
     (case js_get scripts (rf_scriptId r) of Some d \<Rightarrow> sd_folderName d = k \<and> sd_fileName d = f | None \<Rightarrow> False)"

definition page_ok :: "(nat, ScriptData) jsmap \<Rightarrow> string \<Rightarrow> ScriptFolder \<Rightarrow> bool" where
  "page_ok scripts k p \<longleftrightarrow> k \<noteq> [] \<and> pg_folderName p = k \<and> jsmap_ok (pg_scripts p) \<and>
     list_all (\<lambda>(f, r). ref_ok scripts k f r) (pg_scripts p)"

definition data_ok :: "(string, ScriptFolder) jsmap \<Rightarrow> nat \<Rightarrow> nat \<Rightarrow> ScriptData \<Rightarrow> bool" where
  "data_ok folders uid j d \<longleftrightarrow> sd_scriptKey d = j \<and> sd_script d = j \<and>
     (if j = uid then sd_folderName d = [] \<and> sd_fileName d = []
      else (case js_get folders (sd_folderName d) of
          Some p \<Rightarrow> (case js_get (pg_scripts p) (sd_fileName d) of Some r \<Rightarrow> rf_scriptId r = j | None \<Rightarrow> False)
        | None \<Rightarrow> False))"

definition nb_ok :: "NotebookState \<Rightarrow> bool" where
  "nb_ok s \<longleftrightarrow> jsmap_ok (nk_scripts s) \<and> jsmap_ok (nk_scriptFolders s) \<and> nk_scriptFolders s \<noteq> [] \<and>
     list_all (\<lambda>(k, p). page_ok (nk_scripts s) k p) (nk_scriptFolders s) \<and>
     list_all (\<lambda>(j, d). data_ok (nk_scriptFolders s) (nk_uncommittedScriptId s) j d) (nk_scripts s) \<and>
     js_has (nk_scripts s) (nk_uncommittedScriptId s) \<and> nk_uncommittedScriptId s \<noteq> 0"

text \<open>The focus is on an existing folder, and on one of its files unless it is empty.\<close>

definition focus_ok :: "NotebookState \<Rightarrow> bool" where
  "focus_ok s \<longleftrightarrow> (case js_get (nk_scriptFolders s) (sf_folderName (nk_scriptFocus s)) of
     Some p \<Rightarrow> (if pg_scripts p = [] then sf_fileName (nk_scriptFocus s) = []
                else js_has (pg_scripts p) (sf_fileName (nk_scriptFocus s)))
   | None \<Rightarrow> False)"

text \<open>The heap holds exactly the notebook's scripts; the catalog and the registry refer to no other.\<close>

definition heap_ok :: "NotebookState \<Rightarrow> nb_world \<Rightarrow> bool" where
  "heap_ok s w \<longleftrightarrow> jsmap_ok (w_text w) \<and> live w = fst ` set (nk_scripts s) \<and>
     (\<forall>h \<in> live w. h < w_nextScript w) \<and> 0 < w_nextScript w \<and>
     set (w_catalog w) \<subseteq> live w \<and> set (w_registry w) \<subseteq> live w \<and> fst ` set (w_path w) \<subseteq> live w"

text \<open>Names as the user sees them are unique: folders in the notebook, files in each folder.\<close>

definition unique_names :: "NotebookState \<Rightarrow> bool" where
  "unique_names s \<longleftrightarrow> distinct (map normalizeScriptFolderName (js_keys (nk_scriptFolders s))) \<and>
     list_all (\<lambda>(k, p). distinct (map normalizeScriptName (js_keys (pg_scripts p)))) (nk_scriptFolders s)"

section \<open>Reading the invariant\<close>

lemma list_all_get:
  "jsmap_ok m \<Longrightarrow> list_all (\<lambda>(k, v). Q k v) m \<longleftrightarrow> (\<forall>k v. js_get m k = Some v \<longrightarrow> Q k v)"
proof -
  assume ok: "jsmap_ok m"
  have "js_get m k = Some v \<longleftrightarrow> (k, v) \<in> set m" for k v
    using js_get_in_values js_in_get [OF ok] by metis
  then show ?thesis by (auto simp: list_all_iff)
qed

lemma ref_ok_iff: "ref_ok scripts k f r \<longleftrightarrow> f \<noteq> [] \<and> rf_fileName r = f \<and>
    (\<exists>d. js_get scripts (rf_scriptId r) = Some d \<and> sd_folderName d = k \<and> sd_fileName d = f)"
  by (cases "js_get scripts (rf_scriptId r)") (simp_all add: ref_ok_def)

lemma page_ok_iff: "page_ok scripts k p \<longleftrightarrow> k \<noteq> [] \<and> pg_folderName p = k \<and> jsmap_ok (pg_scripts p) \<and>
    (\<forall>f r. js_get (pg_scripts p) f = Some r \<longrightarrow> f \<noteq> [] \<and> rf_fileName r = f \<and>
      (\<exists>d. js_get scripts (rf_scriptId r) = Some d \<and> sd_folderName d = k \<and> sd_fileName d = f))"
  by (simp add: page_ok_def ref_ok_iff list_all_get cong: conj_cong)

lemma data_ok_iff: "data_ok folders uid j d \<longleftrightarrow> sd_scriptKey d = j \<and> sd_script d = j \<and>
    (j = uid \<longrightarrow> sd_folderName d = [] \<and> sd_fileName d = []) \<and>
    (j \<noteq> uid \<longrightarrow> (\<exists>p r. js_get folders (sd_folderName d) = Some p \<and>
       js_get (pg_scripts p) (sd_fileName d) = Some r \<and> rf_scriptId r = j))"
  by (auto simp: data_ok_def split: option.splits)

lemma nb_ok_iff: "nb_ok s \<longleftrightarrow> jsmap_ok (nk_scripts s) \<and> jsmap_ok (nk_scriptFolders s) \<and> nk_scriptFolders s \<noteq> [] \<and>
    (\<forall>k p. js_get (nk_scriptFolders s) k = Some p \<longrightarrow> page_ok (nk_scripts s) k p) \<and>
    (\<forall>j d. js_get (nk_scripts s) j = Some d \<longrightarrow> data_ok (nk_scriptFolders s) (nk_uncommittedScriptId s) j d) \<and>
    (\<exists>d. js_get (nk_scripts s) (nk_uncommittedScriptId s) = Some d) \<and> nk_uncommittedScriptId s \<noteq> 0"
  unfolding nb_ok_def by (auto simp: list_all_get)

lemma nb_ok_page: "nb_ok s \<Longrightarrow> js_get (nk_scriptFolders s) k = Some p \<Longrightarrow>
    k \<noteq> [] \<and> pg_folderName p = k \<and> jsmap_ok (pg_scripts p)"
  by (simp add: nb_ok_iff page_ok_iff)

lemma nb_ok_data: "nb_ok s \<Longrightarrow> js_get (nk_scripts s) j = Some d \<Longrightarrow>
    data_ok (nk_scriptFolders s) (nk_uncommittedScriptId s) j d"
  by (simp add: nb_ok_iff)

lemma nb_ok_ref:
  assumes "nb_ok s" "js_get (nk_scriptFolders s) k = Some p" "js_get (pg_scripts p) f = Some r"
  shows "f \<noteq> [] \<and> rf_fileName r = f \<and> rf_scriptId r \<noteq> nk_uncommittedScriptId s \<and>
    (\<exists>d. js_get (nk_scripts s) (rf_scriptId r) = Some d \<and> sd_folderName d = k \<and> sd_fileName d = f)"
proof -
  have "page_ok (nk_scripts s) k p" using assms(1,2) by (simp add: nb_ok_iff)
  with assms(3) obtain d where d: "f \<noteq> []" "rf_fileName r = f" "js_get (nk_scripts s) (rf_scriptId r) = Some d"
    "sd_folderName d = k" "sd_fileName d = f" "k \<noteq> []" by (auto simp: page_ok_iff)
  from nb_ok_data [OF assms(1) d(3)] d have "rf_scriptId r \<noteq> nk_uncommittedScriptId s" by (auto simp: data_ok_iff)
  with d show ?thesis by auto
qed

lemma nb_ok_script: "nb_ok s \<Longrightarrow> js_get (nk_scripts s) j = Some d \<Longrightarrow> sd_script d = j \<and> sd_scriptKey d = j"
  by (simp add: nb_ok_iff data_ok_iff)

lemma nb_ok_draft: "nb_ok s \<Longrightarrow> \<exists>d. js_get (nk_scripts s) (nk_uncommittedScriptId s) = Some d \<and>
    sd_folderName d = [] \<and> sd_fileName d = []"
  unfolding nb_ok_iff by (metis data_ok_iff)

section \<open>Changes that keep the structure\<close>

definition skel_of :: "(nat, ScriptData) jsmap \<Rightarrow> nat \<Rightarrow> (nat \<times> handle \<times> string \<times> string) option" where
  "skel_of m j = map_option skel (js_get m j)"

lemma skel_of_Some: "skel_of m j = Some (a, b, c, f) \<longleftrightarrow>
    (\<exists>d. js_get m j = Some d \<and> sd_scriptKey d = a \<and> sd_script d = b \<and> sd_folderName d = c \<and> sd_fileName d = f)"
  by (auto simp: skel_of_def skel_def)

lemma skel_of_has: "skel_of m j = None \<longleftrightarrow> js_get m j = None"
  by (simp add: skel_of_def)

lemma skel_eq_get: "skel_of m' = skel_of m \<Longrightarrow> js_get m' j = Some d' \<Longrightarrow>
    \<exists>d. js_get m j = Some d \<and> skel d' = skel d"
proof -
  assume "skel_of m' = skel_of m" "js_get m' j = Some d'"
  then have "skel_of m j = Some (skel d')" by (metis skel_of_def option.simps(9))
  then show ?thesis by (auto simp: skel_of_def)
qed

lemma page_ok_skel: "skel_of m' = skel_of m \<Longrightarrow> page_ok m' k p = page_ok m k p"
proof -
  assume eq: "skel_of m' = skel_of m"
  have "(\<exists>d. js_get m' j = Some d \<and> sd_folderName d = k \<and> sd_fileName d = f) \<longleftrightarrow>
      (\<exists>d. js_get m j = Some d \<and> sd_folderName d = k \<and> sd_fileName d = f)" for j f
    using skel_of_Some [of m' j _ _ k f] skel_of_Some [of m j _ _ k f] unfolding eq by metis
  then show ?thesis by (simp add: page_ok_iff)
qed

lemma data_ok_skel: "skel d' = skel d \<Longrightarrow> data_ok folders uid j d' = data_ok folders uid j d"
  by (simp add: data_ok_iff skel_def)

lemma nb_ok_skel:
  assumes "nb_ok s" "skel_of (nk_scripts s') = skel_of (nk_scripts s)" "jsmap_ok (nk_scripts s')"
    "nk_scriptFolders s' = nk_scriptFolders s" "nk_uncommittedScriptId s' = nk_uncommittedScriptId s"
  shows "nb_ok s'"
  unfolding nb_ok_iff
proof (intro conjI allI impI)
  fix k p assume "js_get (nk_scriptFolders s') k = Some p"
  then show "page_ok (nk_scripts s') k p" unfolding page_ok_skel [OF assms(2)] assms(4)
    using assms(1) by (simp add: nb_ok_iff)
next
  fix j d' assume "js_get (nk_scripts s') j = Some d'"
  from skel_eq_get [OF assms(2) this] obtain d where "js_get (nk_scripts s) j = Some d" "skel d' = skel d" by blast
  from nb_ok_data [OF assms(1) this(1)] show "data_ok (nk_scriptFolders s') (nk_uncommittedScriptId s') j d'"
    unfolding data_ok_skel [OF \<open>skel d' = skel d\<close>] assms(4,5) .
next
  show "\<exists>d. js_get (nk_scripts s') (nk_uncommittedScriptId s') = Some d"
  proof -
    obtain d where "js_get (nk_scripts s) (nk_uncommittedScriptId s) = Some d" using nb_ok_draft [OF assms(1)] by blast
    then have "skel_of (nk_scripts s') (nk_uncommittedScriptId s) \<noteq> None" unfolding assms(2) by (simp add: skel_of_def)
    then show ?thesis unfolding assms(5) skel_of_has by simp
  qed
qed (use assms in \<open>simp_all add: nb_ok_iff\<close>)

lemma js_get_mark_outdated: "js_get (mark_outdated keep m) j =
    map_option (\<lambda>d. if keep j then d else d\<lparr>sd_outdated := True\<rparr>) (js_get m j)"
  by (induction m) (auto simp: mark_outdated_def)

lemma js_keys_mark_outdated [simp]: "js_keys (mark_outdated keep m) = js_keys m"
  by (induction m) (auto simp: mark_outdated_def)

lemma fst_mark_outdated [simp]: "fst ` set (mark_outdated keep m) = fst ` set m"
  by (metis js_keys_mark_outdated list.set_map)

lemma jsmap_ok_mark_outdated [simp]: "jsmap_ok (mark_outdated keep m) = jsmap_ok m"
  by (simp add: jsmap_ok_def)

lemma skel_mark_outdated [simp]: "skel_of (mark_outdated keep m) = skel_of m"
proof
  fix j show "skel_of (mark_outdated keep m) j = skel_of m j"
    by (cases "js_get m j") (simp_all add: skel_of_def js_get_mark_outdated skel_def)
qed

lemma skel_of_set: "skel_of (js_set m j d) = (skel_of m)(j := Some (skel d))"
  by (auto simp: skel_of_def js_get_set fun_eq_iff)

lemma skel_of_set_same: "js_get m j = Some d \<Longrightarrow> skel d' = skel d \<Longrightarrow> skel_of (js_set m j d') = skel_of m"
  by (auto simp: skel_of_set skel_of_def fun_eq_iff)

lemma keys_set_same: "js_get m j = Some d \<Longrightarrow> fst ` set (js_set m j d') = fst ` set m"
  by (auto simp: keys_get_Some)

lemma skel_keys: "skel_of m' = skel_of m \<Longrightarrow> fst ` set m' = fst ` set m"
  by (metis (no_types, lifting) keys_get_None skel_of_has set_eqI)

section \<open>Entries\<close>

definition entry :: "(string, ScriptFolder) jsmap \<Rightarrow> string \<Rightarrow> string \<Rightarrow> ScriptRef \<Rightarrow> bool" where
  "entry folders k f r \<longleftrightarrow> (\<exists>p. js_get folders k = Some p \<and> js_get (pg_scripts p) f = Some r)"

definition folders_ok :: "(string, ScriptFolder) jsmap \<Rightarrow> bool" where
  "folders_ok folders \<longleftrightarrow> jsmap_ok folders \<and> folders \<noteq> [] \<and>
     (\<forall>k p. js_get folders k = Some p \<longrightarrow> k \<noteq> [] \<and> pg_folderName p = k \<and> jsmap_ok (pg_scripts p))"

text \<open>The invariant in terms of entries and paths.\<close>

definition paths_ok :: "(string, ScriptFolder) jsmap \<Rightarrow> (nat, ScriptData) jsmap \<Rightarrow> nat \<Rightarrow> bool" where
  "paths_ok folders scripts uid \<longleftrightarrow>
     (\<forall>k f r. entry folders k f r \<longrightarrow> f \<noteq> [] \<and> rf_fileName r = f \<and> (\<exists>a b. skel_of scripts (rf_scriptId r) = Some (a, b, k, f))) \<and>
     (\<forall>j a b k f. skel_of scripts j = Some (a, b, k, f) \<longrightarrow> a = j \<and> b = j \<and> (j = uid \<longrightarrow> k = [] \<and> f = []) \<and>
        (j \<noteq> uid \<longrightarrow> (\<exists>r. entry folders k f r \<and> rf_scriptId r = j))) \<and>
     skel_of scripts uid \<noteq> None \<and> uid \<noteq> 0"

lemma nb_ok_entries: "nb_ok s \<longleftrightarrow> jsmap_ok (nk_scripts s) \<and> folders_ok (nk_scriptFolders s) \<and>
    paths_ok (nk_scriptFolders s) (nk_scripts s) (nk_uncommittedScriptId s)"
proof
  assume ok: "nb_ok s"
  have "paths_ok (nk_scriptFolders s) (nk_scripts s) (nk_uncommittedScriptId s)"
    unfolding paths_ok_def
  proof (intro conjI allI impI)
    fix k f r assume "entry (nk_scriptFolders s) k f r"
    then obtain p where "js_get (nk_scriptFolders s) k = Some p" "js_get (pg_scripts p) f = Some r" by (auto simp: entry_def)
    from nb_ok_ref [OF ok this] show "f \<noteq> []" "rf_fileName r = f" "\<exists>a b. skel_of (nk_scripts s) (rf_scriptId r) = Some (a, b, k, f)"
      by (auto simp: skel_of_Some)
  next
    fix j a b k f assume "skel_of (nk_scripts s) j = Some (a, b, k, f)"
    then obtain d where d: "js_get (nk_scripts s) j = Some d" "sd_scriptKey d = a" "sd_script d = b" "sd_folderName d = k"
      "sd_fileName d = f" by (auto simp: skel_of_Some)
    from nb_ok_data [OF ok d(1)] d(2-)
    show "a = j" "b = j" "j = nk_uncommittedScriptId s \<Longrightarrow> k = []" "j = nk_uncommittedScriptId s \<Longrightarrow> f = []"
      "j \<noteq> nk_uncommittedScriptId s \<Longrightarrow> \<exists>r. entry (nk_scriptFolders s) k f r \<and> rf_scriptId r = j"
      by (auto simp: data_ok_iff entry_def)
  next
    show "skel_of (nk_scripts s) (nk_uncommittedScriptId s) \<noteq> None" using nb_ok_draft [OF ok] by (auto simp: skel_of_def)
    show "nk_uncommittedScriptId s \<noteq> 0" using ok by (simp add: nb_ok_iff)
  qed
  with ok show "jsmap_ok (nk_scripts s) \<and> folders_ok (nk_scriptFolders s) \<and>
      paths_ok (nk_scriptFolders s) (nk_scripts s) (nk_uncommittedScriptId s)"
    using nb_ok_page [OF ok] by (simp add: folders_ok_def nb_ok_iff)
next
  assume "jsmap_ok (nk_scripts s) \<and> folders_ok (nk_scriptFolders s) \<and>
      paths_ok (nk_scriptFolders s) (nk_scripts s) (nk_uncommittedScriptId s)"
  then have js: "jsmap_ok (nk_scripts s)" and fo: "folders_ok (nk_scriptFolders s)"
    and pa: "paths_ok (nk_scriptFolders s) (nk_scripts s) (nk_uncommittedScriptId s)" by auto
  show "nb_ok s" unfolding nb_ok_iff
  proof (intro conjI allI impI)
    fix k p assume p: "js_get (nk_scriptFolders s) k = Some p"
    show "page_ok (nk_scripts s) k p" unfolding page_ok_iff
    proof (intro conjI allI impI)
      fix f r assume "js_get (pg_scripts p) f = Some r"
      with p have "entry (nk_scriptFolders s) k f r" by (auto simp: entry_def)
      with pa show "f \<noteq> []" "rf_fileName r = f"
        "\<exists>d. js_get (nk_scripts s) (rf_scriptId r) = Some d \<and> sd_folderName d = k \<and> sd_fileName d = f"
        unfolding paths_ok_def skel_of_Some by blast+
    qed (use fo p in \<open>auto simp: folders_ok_def\<close>)
  next
    fix j d assume "js_get (nk_scripts s) j = Some d"
    then have "skel_of (nk_scripts s) j = Some (sd_scriptKey d, sd_script d, sd_folderName d, sd_fileName d)"
      by (simp add: skel_of_def skel_def)
    with pa show "data_ok (nk_scriptFolders s) (nk_uncommittedScriptId s) j d"
      unfolding paths_ok_def data_ok_iff entry_def by blast
  next
    show "\<exists>d. js_get (nk_scripts s) (nk_uncommittedScriptId s) = Some d"
      using pa by (auto simp: paths_ok_def skel_of_def)
  qed (use js fo pa in \<open>auto simp: folders_ok_def paths_ok_def\<close>)
qed

text \<open>One script has one entry.\<close>

lemma entry_unique:
  assumes "paths_ok folders scripts uid" "entry folders k f r" "entry folders k' f' r'" "rf_scriptId r = rf_scriptId r'"
  shows "k = k' \<and> f = f'"
proof -
  from assms(1,2) obtain a b where "skel_of scripts (rf_scriptId r) = Some (a, b, k, f)" unfolding paths_ok_def by blast
  moreover from assms(1,3) obtain a b where "skel_of scripts (rf_scriptId r') = Some (a, b, k', f')" unfolding paths_ok_def by blast
  ultimately show ?thesis using assms(4) by auto
qed

section \<open>Moves\<close>

text \<open>Every path \<open>(k, f)\<close> becomes \<open>g k f\<close>, in the entries and in the scripts.\<close>

definition repath :: "(string \<Rightarrow> string \<Rightarrow> string \<times> string) \<Rightarrow> nat \<times> handle \<times> string \<times> string \<Rightarrow> nat \<times> handle \<times> string \<times> string" where
  "repath g = (\<lambda>(a, b, k, f). (a, b, g k f))"

lemma paths_ok_repath:
  assumes ok: "paths_ok folders scripts uid"
    and sk: "\<And>j. skel_of scripts' j = map_option (repath g) (skel_of scripts j)"
    and there: "\<And>k f r. entry folders k f r \<Longrightarrow>
      snd (g k f) \<noteq> [] \<and> entry folders' (fst (g k f)) (snd (g k f)) (r\<lparr>rf_fileName := snd (g k f)\<rparr>)"
    and origin: "\<And>k' f' r'. entry folders' k' f' r' \<Longrightarrow>
      \<exists>k f r. entry folders k f r \<and> g k f = (k', f') \<and> r' = r\<lparr>rf_fileName := f'\<rparr>"
    and draft: "g [] [] = ([], [])"
  shows "paths_ok folders' scripts' uid"
  unfolding paths_ok_def
proof (intro conjI allI impI)
  fix k' f' r' assume "entry folders' k' f' r'"
  from origin [OF this] obtain k f r where e: "entry folders k f r" "g k f = (k', f')" "r' = r\<lparr>rf_fileName := f'\<rparr>" by blast
  from there [OF e(1)] e(2,3) show "f' \<noteq> []" "rf_fileName r' = f'" by auto
  from ok e(1) obtain a b where "skel_of scripts (rf_scriptId r) = Some (a, b, k, f)" unfolding paths_ok_def by blast
  with e show "\<exists>a b. skel_of scripts' (rf_scriptId r') = Some (a, b, k', f')" by (auto simp: sk repath_def)
next
  fix j a b k' f' assume "skel_of scripts' j = Some (a, b, k', f')"
  then obtain k f where j: "skel_of scripts j = Some (a, b, k, f)" "g k f = (k', f')" by (auto simp: sk repath_def)
  have o: "a = j \<and> b = j \<and> (j = uid \<longrightarrow> k = [] \<and> f = []) \<and> (j \<noteq> uid \<longrightarrow> (\<exists>r. entry folders k f r \<and> rf_scriptId r = j))"
    using ok j(1) unfolding paths_ok_def by blast
  then show "a = j" "b = j" by auto
  show "j = uid \<Longrightarrow> k' = []" "j = uid \<Longrightarrow> f' = []" using o draft j(2) by auto
  show "\<exists>r. entry folders' k' f' r \<and> rf_scriptId r = j" if "j \<noteq> uid"
  proof -
    from o that obtain r where "entry folders k f r" "rf_scriptId r = j" by blast
    with there [OF this(1)] j(2) show ?thesis by (intro exI [of _ "r\<lparr>rf_fileName := f'\<rparr>"]) simp
  qed
qed (use ok in \<open>auto simp: paths_ok_def sk\<close>)

text \<open>A script at a new path.\<close>

lemma paths_ok_add:
  assumes ok: "paths_ok folders scripts uid"
    and new: "skel_of scripts key = None" "key \<noteq> 0" "f \<noteq> []"
    and sk: "\<And>j. skel_of scripts' j = (if j = key then Some (key, key, k, f) else skel_of scripts j)"
    and ent: "\<And>k' f' r'. entry folders' k' f' r' \<longleftrightarrow>
      (if k' = k \<and> f' = f then r' = \<lparr>rf_scriptId = key, rf_fileName = f\<rparr> else entry folders k' f' r')"
    and free: "\<And>r. \<not> entry folders k f r"
  shows "paths_ok folders' scripts' uid"
  unfolding paths_ok_def
proof (intro conjI allI impI)
  have uid: "uid \<noteq> key" "uid \<noteq> 0" using ok new(1) by (auto simp: paths_ok_def)
  then show "uid \<noteq> 0" by simp
  show "skel_of scripts' uid \<noteq> None" using uid ok by (auto simp: sk paths_ok_def)
  fix k' f' r' assume e: "entry folders' k' f' r'"
  have "f' \<noteq> [] \<and> rf_fileName r' = f' \<and> (\<exists>a b. skel_of scripts' (rf_scriptId r') = Some (a, b, k', f'))"
  proof (cases "k' = k \<and> f' = f")
    case True
    with e new(3) show ?thesis by (simp add: ent sk)
  next
    case False
    with e have "entry folders k' f' r'" by (simp add: ent split: if_splits)
    with ok have "f' \<noteq> [] \<and> rf_fileName r' = f' \<and> (\<exists>a b. skel_of scripts (rf_scriptId r') = Some (a, b, k', f'))"
      unfolding paths_ok_def by blast
    with new(1) show ?thesis by (auto simp: sk)
  qed
  then show "f' \<noteq> []" "rf_fileName r' = f'" "\<exists>a b. skel_of scripts' (rf_scriptId r') = Some (a, b, k', f')" by auto
next
  have uid: "uid \<noteq> key" using ok new(1) by (auto simp: paths_ok_def)
  fix j a b k' f' assume j: "skel_of scripts' j = Some (a, b, k', f')"
  have "a = j \<and> b = j \<and> (j = uid \<longrightarrow> k' = [] \<and> f' = []) \<and> (j \<noteq> uid \<longrightarrow> (\<exists>r. entry folders' k' f' r \<and> rf_scriptId r = j))"
  proof (cases "j = key")
    case True
    with j uid show ?thesis by (auto simp: sk ent)
  next
    case False
    with j have "skel_of scripts j = Some (a, b, k', f')" by (simp add: sk)
    with ok have "a = j \<and> b = j \<and> (j = uid \<longrightarrow> k' = [] \<and> f' = []) \<and> (j \<noteq> uid \<longrightarrow> (\<exists>r. entry folders k' f' r \<and> rf_scriptId r = j))"
      unfolding paths_ok_def by blast
    with free show ?thesis by (auto simp: ent)
  qed
  then show "a = j" "b = j" "j = uid \<Longrightarrow> k' = []" "j = uid \<Longrightarrow> f' = []"
    "j \<noteq> uid \<Longrightarrow> \<exists>r. entry folders' k' f' r \<and> rf_scriptId r = j" by auto
qed

end
