(* ===== verification/Notebook_Store.thy ===== *)
theory Notebook_Store
  imports Notebook_Invariants
begin

text \<open>What a storage backend promises about the script files of a notebook (\<^verbatim>\<open>StorageBackend\<close> of
  \<^verbatim>\<open>platform/storage/storage_backend.ts\<close>), and the effect of a write task on them: the program that
  \<^verbatim>\<open>executeTask\<close> runs has the effect the task stands for. A call outside the contract (a rename whose source does not
  exist or whose target does, a deletion of what is not there) has no effect defined.\<close>

section \<open>The contract of a backend\<close>

record script_store =
  st_folders :: "(string, (string, string) jsmap) jsmap"
  st_draft :: string

definition store_save :: "string \<Rightarrow> string \<Rightarrow> string \<Rightarrow> script_store \<Rightarrow> script_store" where
  "store_save k f sql st = st\<lparr>st_folders :=
     js_set (st_folders st) k (js_set (or_else (js_get (st_folders st) k) []) f sql)\<rparr>"

fun call_effect :: "backend_call \<Rightarrow> script_store \<Rightarrow> script_store option" where
  "call_effect (CreateScriptFolder nid k) st =
    Some (st\<lparr>st_folders := js_set (st_folders st) k (or_else (js_get (st_folders st) k) [])\<rparr>)"
| "call_effect (SaveScript nid k f sql) st = Some (store_save k f sql st)"
| "call_effect (SaveScriptDraft nid sql) st = Some (st\<lparr>st_draft := sql\<rparr>)"
| "call_effect (DeleteScriptFolder nid k) st =
    (if js_has (st_folders st) k then Some (st\<lparr>st_folders := js_delete (st_folders st) k\<rparr>) else None)"
| "call_effect (RenameScriptFolder nid old new) st =
    (case js_get (st_folders st) old of
       Some files \<Rightarrow> if js_has (st_folders st) new then None
         else Some (st\<lparr>st_folders := js_set (js_delete (st_folders st) old) new files\<rparr>)
     | None \<Rightarrow> None)"
| "call_effect (DeleteScript nid k f) st =
    (case js_get (st_folders st) k of
       Some files \<Rightarrow> if js_has files f then Some (st\<lparr>st_folders := js_set (st_folders st) k (js_delete files f)\<rparr>) else None
     | None \<Rightarrow> None)"
| "call_effect (RenameScript nid k old new) st =
    (case js_get (st_folders st) k of
       Some files \<Rightarrow> (case js_get files old of
           Some sql \<Rightarrow> if js_has files new then None
             else Some (st\<lparr>st_folders := js_set (st_folders st) k (js_set (js_delete files old) new sql)\<rparr>)
         | None \<Rightarrow> None)
     | None \<Rightarrow> None)"
| "call_effect _ st = Some st"

text \<open>A task's program against a backend that keeps the contract; the inputs may differ at every segment.\<close>

primrec prog_effect :: "sw_prog \<Rightarrow> (nat \<Rightarrow> sw_inputs) \<Rightarrow> WriterContents \<Rightarrow> script_store \<Rightarrow> script_store option" where
  "prog_effect Done = (\<lambda>i c st. Some st)"
| "prog_effect Threw = (\<lambda>i c st. None)"
| "prog_effect (Call call k) = (\<lambda>i c st. case call_effect call st of
     None \<Rightarrow> None
   | Some st' \<Rightarrow> (case map_prod id prog_effect (k Resolved (i 0) c) of (c', run) \<Rightarrow> run (\<lambda>n. i (Suc n)) c' st'))"

definition execute_effect :: "(nat \<Rightarrow> sw_inputs) \<Rightarrow> WriterContents \<Rightarrow> WriteTask \<Rightarrow> script_store \<Rightarrow> script_store option" where
  "execute_effect i c task st =
    (let (c', prog) = executeTask task (i 0) c in prog_effect prog (\<lambda>n. i (Suc n)) c' st)"

section \<open>The effect of a task\<close>

fun task_effect :: "WriteTask \<Rightarrow> script_store \<Rightarrow> script_store option" where
  "task_effect (WRITE_SCRIPT nid k f sql) st = Some (store_save k f sql st)"
| "task_effect (WRITE_SCRIPT_DRAFT nid sql) st = Some (st\<lparr>st_draft := sql\<rparr>)"
| "task_effect (CREATE_SCRIPT_FOLDER nid k ss) st =
    Some (fold (\<lambda>s. store_save k (fs_fileName s) (fs_sql s)) ss
      (st\<lparr>st_folders := js_set (st_folders st) k (or_else (js_get (st_folders st) k) [])\<rparr>))"
| "task_effect (DELETE_SCRIPT_FOLDER nid k) st = call_effect (DeleteScriptFolder nid k) st"
| "task_effect (RENAME_SCRIPT_FOLDER nid old new) st = call_effect (RenameScriptFolder nid old new) st"
| "task_effect (DELETE_SCRIPT nid k f) st = call_effect (DeleteScript nid k f) st"
| "task_effect (RENAME_SCRIPT nid k old new) st = call_effect (RenameScript nid k old new) st"
| "task_effect _ st = Some st"

fun script_task :: "WriteTask \<Rightarrow> bool" where
  "script_task (WRITE_SCRIPT nid k f sql) = True"
| "script_task (WRITE_SCRIPT_DRAFT nid sql) = True"
| "script_task (CREATE_SCRIPT_FOLDER nid k ss) = True"
| "script_task (DELETE_SCRIPT_FOLDER nid k) = True"
| "script_task (RENAME_SCRIPT_FOLDER nid old new) = True"
| "script_task (DELETE_SCRIPT nid k f) = True"
| "script_task (RENAME_SCRIPT nid k old new) = True"
| "script_task _ = False"

fun tasks_effect :: "WriteTask list \<Rightarrow> script_store \<Rightarrow> script_store option" where
  "tasks_effect [] st = Some st"
| "tasks_effect (t # ts) st = Option.bind (task_effect t st) (tasks_effect ts)"

lemma tasks_effect_append: "tasks_effect (ts @ us) st = Option.bind (tasks_effect ts st) (tasks_effect us)"
proof (induction ts arbitrary: st)
  case (Cons t ts)
  then show ?case by (cases "task_effect t st") simp_all
qed simp

lemma effect_awaiting: "prog_effect (awaiting call k) i c st =
    Option.bind (call_effect call st) (\<lambda>st'. case k (i 0) c of (c', p) \<Rightarrow> prog_effect p (\<lambda>n. i (Suc n)) c' st')"
  by (cases "call_effect call st") (simp_all add: awaiting_def split: prod.split)

lemma effect_timed_save:
  assumes "\<And>i c st. (case k (i 0) c of (c', p) \<Rightarrow> prog_effect p (\<lambda>n. i (Suc n)) c' st) = g st"
  shows "(case timed_save call path bytes content k (i 0) c of (c', p) \<Rightarrow> prog_effect p (\<lambda>n. i (Suc n)) c' st) =
    Option.bind (call_effect call st) g"
  using assms [where i = "\<lambda>n. i (Suc n)"]
  by (cases "call_effect call st") (simp_all add: timed_save_def effect_awaiting)

lemma effect_task_end: "(case task_end (i 0) c of (c', p) \<Rightarrow> prog_effect p (\<lambda>n. i (Suc n)) c' st) = Some st"
  by (simp add: task_end_def)

lemma effect_folder_scripts:
  "(case save_folder_scripts nid k ss task_end (i 0) c of (c', p) \<Rightarrow> prog_effect p (\<lambda>n. i (Suc n)) c' st) =
    Some (fold (\<lambda>s. store_save k (fs_fileName s) (fs_sql s)) ss st)"
proof (induction ss arbitrary: i c st)
  case Nil
  show ?case by (simp add: effect_task_end)
next
  case (Cons s ss)
  show ?case
    using effect_timed_save [where k = "save_folder_scripts nid k ss task_end"
        and g = "\<lambda>st. Some (fold (\<lambda>s. store_save k (fs_fileName s) (fs_sql s)) ss st)", OF Cons]
    by (simp add: save_script_def save_text_def)
qed

text \<open>The program of a script task has the effect of the task.\<close>

lemma execute_script_task:
  assumes "script_task task"
  shows "execute_effect i c task st = task_effect task st"
proof -
  have ends: "prog_effect (awaiting call (\<lambda>i c. (f c, Done))) i c st = call_effect call st" for call f i c st
    by (cases "call_effect call st") (simp_all add: effect_awaiting)
  show ?thesis
  proof (cases task)
    case (WRITE_SCRIPT nid k f sql)
    then show ?thesis
      using effect_timed_save [where k = task_end and g = Some, OF effect_task_end] by (simp add: execute_effect_def save_script_def save_text_def)
  next
    case (WRITE_SCRIPT_DRAFT nid sql)
    then show ?thesis
      using effect_timed_save [where k = task_end and g = Some, OF effect_task_end] by (simp add: execute_effect_def save_text_def)
  next
    case (CREATE_SCRIPT_FOLDER nid k ss)
    then show ?thesis
      using effect_folder_scripts [where i = "\<lambda>n. i (Suc n)"] by (simp add: execute_effect_def effect_awaiting)
  qed (use assms in \<open>simp_all add: execute_effect_def then_contents_def ends del: call_effect.simps\<close>)
qed

section \<open>The files as a map\<close>

type_synonym file_view = "string \<Rightarrow> (string \<Rightarrow> string option) option"

definition view :: "script_store \<Rightarrow> file_view" where
  "view st k = map_option map_of (js_get (st_folders st) k)"

definition vget :: "file_view \<Rightarrow> string \<Rightarrow> string \<Rightarrow> string option" where
  "vget v k f = Option.bind (v k) (\<lambda>m. m f)"

lemma view_None: "view st k = None \<longleftrightarrow> js_get (st_folders st) k = None"
  by (simp add: view_def)

lemma map_of_js_set: "map_of (js_set m k v) = (map_of m)(k \<mapsto> v)"
  by (rule ext) (simp add: js_get_set)

lemma map_of_js_delete: "map_of (js_delete m k) = (map_of m)(k := None)"
  by (rule ext) (simp add: js_get_delete)

lemma view_set: "view (st\<lparr>st_folders := js_set (st_folders st) k m\<rparr>) = (view st)(k \<mapsto> map_of m)"
  by (rule ext) (simp add: view_def js_get_set)

lemma view_save: "view (store_save k f sql st) = (view st)(k \<mapsto> (or_else (view st k) Map.empty)(f \<mapsto> sql))"
  by (cases "js_get (st_folders st) k") (simp_all add: store_save_def view_set map_of_js_set or_else_def view_def)

lemma draft_save [simp]: "st_draft (store_save k f sql st) = st_draft st"
  by (simp add: store_save_def)

lemma view_write: "task_effect (WRITE_SCRIPT nid k f sql) st = Some (store_save k f sql st)"
  by simp

lemma view_rename_folder:
  assumes "view st old = Some m" "view st new = None"
  obtains st' where "task_effect (RENAME_SCRIPT_FOLDER nid old new) st = Some st'"
    "view st' = (view st)(old := None, new \<mapsto> m)" "st_draft st' = st_draft st"
proof -
  from assms obtain files where f: "js_get (st_folders st) old = Some files" "m = map_of files" by (auto simp: view_def)
  from assms have n: "js_get (st_folders st) new = None" by (simp add: view_None)
  let ?st = "st\<lparr>st_folders := js_set (js_delete (st_folders st) old) new files\<rparr>"
  have "view ?st = (view st)(old := None, new \<mapsto> m)"
    by (rule ext) (simp add: view_def js_get_set js_get_delete f(2))
  moreover have "task_effect (RENAME_SCRIPT_FOLDER nid old new) st = Some ?st" using f n by simp
  ultimately show thesis by (intro that [of ?st]) simp_all
qed

lemma view_delete_folder:
  assumes "view st k \<noteq> None"
  obtains st' where "task_effect (DELETE_SCRIPT_FOLDER nid k) st = Some st'" "view st' = (view st)(k := None)"
    "st_draft st' = st_draft st"
proof -
  let ?st = "st\<lparr>st_folders := js_delete (st_folders st) k\<rparr>"
  have "view ?st = (view st)(k := None)" by (rule ext) (simp add: view_def js_get_delete)
  moreover have "task_effect (DELETE_SCRIPT_FOLDER nid k) st = Some ?st" using assms by (simp add: view_None)
  ultimately show thesis by (intro that [of ?st]) simp_all
qed

lemma view_delete_script:
  assumes "view st k = Some m" "m f \<noteq> None"
  obtains st' where "task_effect (DELETE_SCRIPT nid k f) st = Some st'" "view st' = (view st)(k \<mapsto> m(f := None))"
    "st_draft st' = st_draft st"
proof -
  from assms obtain files where f: "js_get (st_folders st) k = Some files" "m = map_of files" by (auto simp: view_def)
  let ?st = "st\<lparr>st_folders := js_set (st_folders st) k (js_delete files f)\<rparr>"
  have "task_effect (DELETE_SCRIPT nid k f) st = Some ?st" using f assms(2) by auto
  then show thesis using f(2) by (intro that [of ?st]) (simp_all add: view_set map_of_js_delete)
qed

lemma view_rename_script:
  assumes "view st k = Some m" "m old = Some sql" "m new = None"
  obtains st' where "task_effect (RENAME_SCRIPT nid k old new) st = Some st'"
    "view st' = (view st)(k \<mapsto> m(old := None, new \<mapsto> sql))" "st_draft st' = st_draft st"
proof -
  from assms obtain files where f: "js_get (st_folders st) k = Some files" "m = map_of files" by (auto simp: view_def)
  let ?st = "st\<lparr>st_folders := js_set (st_folders st) k (js_set (js_delete files old) new sql)\<rparr>"
  have "task_effect (RENAME_SCRIPT nid k old new) st = Some ?st" using f assms(2,3) by auto
  then show thesis using f(2) by (intro that [of ?st]) (simp_all add: view_set map_of_js_delete map_of_js_set)
qed

end
