(* ===== verification/Notebook_Moves.thy ===== *)
theory Notebook_Moves
  imports Notebook_Store
begin

text \<open>When the files on disk agree with the notebook in memory, and the renaming of folders: what
  \<^verbatim>\<open>reprefixPages\<close> does to the folders and scripts, and that the renames it schedules move the files along.\<close>

section \<open>The disk as a map\<close>

text \<open>The effect of a task on the folders and the draft, read as a map and a text.\<close>

type_synonym disk = "file_view \<times> string"

definition disk_of :: "script_store \<Rightarrow> disk" where
  "disk_of st = (view st, st_draft st)"

fun disk_task :: "WriteTask \<Rightarrow> disk \<Rightarrow> disk option" where
  "disk_task (WRITE_SCRIPT nid k f sql) (v, d) = Some (v(k \<mapsto> (or_else (v k) Map.empty)(f \<mapsto> sql)), d)"
| "disk_task (WRITE_SCRIPT_DRAFT nid sql) (v, d) = Some (v, sql)"
| "disk_task (CREATE_SCRIPT_FOLDER nid k ss) (v, d) =
    Some (v(k \<mapsto> fold (\<lambda>s m. m(fs_fileName s \<mapsto> fs_sql s)) ss (or_else (v k) Map.empty)), d)"
| "disk_task (DELETE_SCRIPT_FOLDER nid k) (v, d) = (if v k = None then None else Some (v(k := None), d))"
| "disk_task (RENAME_SCRIPT_FOLDER nid old new) (v, d) =
    (if v old = None \<or> v new \<noteq> None then None else Some (v(old := None, new := v old), d))"
| "disk_task (DELETE_SCRIPT nid k f) (v, d) =
    (case v k of Some m \<Rightarrow> if m f = None then None else Some (v(k \<mapsto> m(f := None)), d) | None \<Rightarrow> None)"
| "disk_task (RENAME_SCRIPT nid k old new) (v, d) =
    (case v k of
       Some m \<Rightarrow> if m old = None \<or> m new \<noteq> None then None else Some (v(k \<mapsto> m(old := None, new := m old)), d)
     | None \<Rightarrow> None)"
| "disk_task _ vd = Some vd"

fun disk_tasks :: "WriteTask list \<Rightarrow> disk \<Rightarrow> disk option" where
  "disk_tasks [] vd = Some vd"
| "disk_tasks (t # ts) vd = Option.bind (disk_task t vd) (disk_tasks ts)"

lemma view_saves:
  "view (fold (\<lambda>s. store_save k (fs_fileName s) (fs_sql s)) ss st) =
    (if ss = [] then view st
     else (view st)(k \<mapsto> fold (\<lambda>s m. m(fs_fileName s \<mapsto> fs_sql s)) ss (or_else (view st k) Map.empty)))"
  by (induction ss arbitrary: st) (auto simp: view_save or_else_def)

lemma draft_saves: "st_draft (fold (\<lambda>s. store_save k (fs_fileName s) (fs_sql s)) ss st) = st_draft st"
  by (induction ss arbitrary: st) simp_all

lemma view_draft [simp]: "view (st\<lparr>st_draft := t\<rparr>) = view st"
  by (rule ext) (simp add: view_def)

lemma disk_task_create:
  "\<exists>st'. task_effect (CREATE_SCRIPT_FOLDER nid k ss) st = Some st' \<and>
     disk_task (CREATE_SCRIPT_FOLDER nid k ss) (disk_of st) = Some (disk_of st')"
proof -
  let ?st = "st\<lparr>st_folders := js_set (st_folders st) k (or_else (js_get (st_folders st) k) [])\<rparr>"
  have v: "view ?st = (view st)(k \<mapsto> or_else (view st k) Map.empty)"
    by (cases "js_get (st_folders st) k") (simp_all add: view_set or_else_def view_def)
  show ?thesis by (simp add: disk_of_def view_saves draft_saves v) (simp add: or_else_def)
qed

text \<open>The map is an abstraction of the store: a task that has an effect on the map has the same on the store.\<close>

lemma disk_task_sim:
  assumes "disk_task t (disk_of st) = Some vd"
  shows "\<exists>st'. task_effect t st = Some st' \<and> disk_of st' = vd"
proof (cases t)
  case (WRITE_SCRIPT nid k f sql)
  with assms show ?thesis by (auto simp: disk_of_def view_save)
next
  case (CREATE_SCRIPT_FOLDER nid k ss)
  with assms disk_task_create [of nid k ss st] show ?thesis by auto
next
  case (DELETE_SCRIPT_FOLDER nid k)
  with assms have k: "view st k \<noteq> None" by (auto simp: disk_of_def split: if_splits)
  show ?thesis by (rule view_delete_folder [OF k, of nid]) (use assms DELETE_SCRIPT_FOLDER k in \<open>auto simp: disk_of_def\<close>)
next
  case (RENAME_SCRIPT_FOLDER nid old new)
  with assms obtain m where k: "view st old = Some m" "view st new = None" by (auto simp: disk_of_def split: if_splits)
  show ?thesis by (rule view_rename_folder [OF k, of nid]) (use assms RENAME_SCRIPT_FOLDER k in \<open>auto simp: disk_of_def\<close>)
next
  case (DELETE_SCRIPT nid k f)
  with assms obtain m where k: "view st k = Some m" "m f \<noteq> None" by (auto simp: disk_of_def split: if_splits option.splits)
  show ?thesis by (rule view_delete_script [OF k, of nid]) (use assms DELETE_SCRIPT k in \<open>auto simp: disk_of_def\<close>)
next
  case (RENAME_SCRIPT nid k old new)
  with assms obtain m sql where k: "view st k = Some m" "m old = Some sql" "m new = None"
    by (auto simp: disk_of_def split: if_splits option.splits)
  show ?thesis by (rule view_rename_script [OF k, of nid]) (use assms RENAME_SCRIPT k in \<open>auto simp: disk_of_def\<close>)
qed (use assms in \<open>auto simp: disk_of_def\<close>)

lemma disk_tasks_sim:
  "disk_tasks ts (disk_of st) = Some vd \<Longrightarrow> \<exists>st'. tasks_effect ts st = Some st' \<and> disk_of st' = vd"
proof (induction ts arbitrary: st)
  case (Cons t ts)
  from Cons.prems obtain vd1 where t: "disk_task t (disk_of st) = Some vd1" "disk_tasks ts vd1 = Some vd"
    by (cases "disk_task t (disk_of st)") simp_all
  from disk_task_sim [OF t(1)] obtain st1 where "task_effect t st = Some st1" "disk_of st1 = vd1" by blast
  with Cons.IH [of st1] t(2) show ?case by auto
qed simp

lemma disk_tasks_append: "disk_tasks (ts @ us) vd = Option.bind (disk_tasks ts vd) (disk_tasks us)"
proof (induction ts arbitrary: vd)
  case (Cons t ts)
  then show ?case by (cases "disk_task t vd") simp_all
qed simp

section \<open>Agreement\<close>

text \<open>A folder on disk has the files of the page, each with the text of its script unless the script was edited since
  its last write (it is in \<open>X\<close>); the disk has the folders of the notebook.\<close>

definition page_agrees :: "nat set \<Rightarrow> (handle, string) jsmap \<Rightarrow> (string \<rightharpoonup> ScriptRef) \<Rightarrow> (string \<rightharpoonup> string) \<Rightarrow> bool" where
  "page_agrees X texts refs m \<longleftrightarrow>
     (\<forall>f. rel_option (\<lambda>r t. rf_scriptId r \<notin> X \<longrightarrow> js_get texts (rf_scriptId r) = Some t) (refs f) (m f))"

definition agrees :: "nat set \<Rightarrow> (handle, string) jsmap \<Rightarrow> (string \<rightharpoonup> ScriptFolder) \<Rightarrow> file_view \<Rightarrow> bool" where
  "agrees X texts folders v \<longleftrightarrow>
     (\<forall>k. rel_option (\<lambda>p m. page_agrees X texts (js_get (pg_scripts p)) m) (folders k) (v k))"

definition persisted :: "nat set \<Rightarrow> NotebookState \<Rightarrow> nb_world \<Rightarrow> script_store \<Rightarrow> bool" where
  "persisted X s w st \<longleftrightarrow> agrees X (w_text w) (js_get (nk_scriptFolders s)) (view st) \<and>
     (nk_uncommittedScriptId s \<notin> X \<longrightarrow> js_get (w_text w) (nk_uncommittedScriptId s) = Some (st_draft st))"

lemma agrees_upd:
  "agrees X texts folders v \<Longrightarrow> page_agrees X texts (js_get (pg_scripts p)) m \<Longrightarrow> agrees X texts (folders(k \<mapsto> p)) (v(k \<mapsto> m))"
  by (auto simp: agrees_def)

lemma agrees_del: "agrees X texts folders v \<Longrightarrow> agrees X texts (folders(k := None)) (v(k := None))"
  by (auto simp: agrees_def)

lemma page_agrees_upd:
  "page_agrees X texts refs m \<Longrightarrow> (rf_scriptId r \<notin> X \<Longrightarrow> js_get texts (rf_scriptId r) = Some t) \<Longrightarrow>
   page_agrees X texts (refs(f \<mapsto> r)) (m(f \<mapsto> t))"
  by (auto simp: page_agrees_def)

lemma page_agrees_del: "page_agrees X texts refs m \<Longrightarrow> page_agrees X texts (refs(f := None)) (m(f := None))"
  by (auto simp: page_agrees_def)

lemma page_agrees_dom: "page_agrees X texts refs m \<Longrightarrow> m f = None \<longleftrightarrow> refs f = None"
  unfolding page_agrees_def by (drule spec [of _ f]) (cases "refs f"; cases "m f"; simp)

lemma agrees_dom: "agrees X texts folders v \<Longrightarrow> v k = None \<longleftrightarrow> folders k = None"
  unfolding agrees_def by (drule spec [of _ k]) (cases "folders k"; cases "v k"; simp)

lemma agrees_page:
  assumes "agrees X texts folders v" "folders k = Some p"
  obtains m where "v k = Some m" "page_agrees X texts (js_get (pg_scripts p)) m"
proof -
  from assms(1) have "rel_option (\<lambda>p m. page_agrees X texts (js_get (pg_scripts p)) m) (folders k) (v k)"
    unfolding agrees_def by blast
  with assms(2) that show thesis by (cases "v k") auto
qed

section \<open>Moved maps\<close>

text \<open>The entry of \<open>k\<close> is now at \<open>\<rho> k\<close>, changed by \<open>h\<close>, and there is no other.\<close>

definition moved :: "('k \<Rightarrow> 'k) \<Rightarrow> ('k \<Rightarrow> 'v \<Rightarrow> 'v) \<Rightarrow> ('k \<rightharpoonup> 'v) \<Rightarrow> ('k \<rightharpoonup> 'v) \<Rightarrow> bool" where
  "moved \<rho> h m m' \<longleftrightarrow> (\<forall>k x. m k = Some x \<longrightarrow> m' (\<rho> k) = Some (h k x)) \<and>
     (\<forall>k' x'. m' k' = Some x' \<longrightarrow> (\<exists>k x. m k = Some x \<and> \<rho> k = k'))"

lemma movedD: "moved \<rho> h m m' \<Longrightarrow> m k = Some x \<Longrightarrow> m' (\<rho> k) = Some (h k x)"
  by (simp add: moved_def)

lemma movedE:
  assumes "moved \<rho> h m m'" "m' k' = Some x'"
  obtains k x where "m k = Some x" "\<rho> k = k'" "x' = h k x"
proof -
  from assms obtain k x where k: "m k = Some x" "\<rho> k = k'" unfolding moved_def by blast
  with movedD [OF assms(1) k(1)] assms(2) that show thesis by simp
qed

lemma moved_None: "moved \<rho> h m m' \<Longrightarrow> (\<And>k x. m k = Some x \<Longrightarrow> \<rho> k \<noteq> k') \<Longrightarrow> m' k' = None"
  by (cases "m' k'") (auto elim: movedE)

lemma rel_moved:
  assumes "moved \<rho> h m m'" "moved \<rho> g n n'" "\<And>k. rel_option R (m k) (n k)"
    and "\<And>k x y. m k = Some x \<Longrightarrow> n k = Some y \<Longrightarrow> R x y \<Longrightarrow> S (h k x) (g k y)"
  shows "rel_option S (m' k') (n' k')"
proof (cases "m' k'")
  case None
  have "n' k' = None"
  proof (rule moved_None [OF assms(2)])
    fix k y assume "n k = Some y"
    with assms(3) [of k] obtain x where "m k = Some x" by (cases "m k") auto
    with movedD [OF assms(1)] None show "\<rho> k \<noteq> k'" by auto
  qed
  with None show ?thesis by simp
next
  case (Some x')
  from movedE [OF assms(1) this] obtain k x where k: "m k = Some x" "\<rho> k = k'" "x' = h k x" by blast
  with assms(3) [of k] obtain y where "n k = Some y" "R x y" by (cases "n k") auto
  with assms(4) k movedD [OF assms(2)] Some show ?thesis by auto
qed

lemma agrees_moved:
  assumes "agrees X texts folders v" "moved \<rho> h folders folders'" "moved \<rho> (\<lambda>k m. m) v v'"
    and "\<And>k p. pg_scripts (h k p) = pg_scripts p"
  shows "agrees X texts folders' v'"
  unfolding agrees_def
proof
  fix k
  show "rel_option (\<lambda>p m. page_agrees X texts (js_get (pg_scripts p)) m) (folders' k) (v' k)"
    by (rule rel_moved [OF assms(2,3)]) (use assms(1,4) in \<open>auto simp: agrees_def\<close>)
qed

lemma page_agrees_moved:
  assumes "page_agrees X texts refs m" "moved \<rho> h refs refs'" "moved \<rho> g m m'"
    and "\<And>f r. rf_scriptId (h f r) = rf_scriptId r"
    and "\<And>f r t. refs f = Some r \<Longrightarrow> m f = Some t \<Longrightarrow> rf_scriptId r \<notin> X \<Longrightarrow>
      js_get texts (rf_scriptId r) = Some t \<Longrightarrow> g f t = t"
  shows "page_agrees X texts refs' m'"
  unfolding page_agrees_def
proof
  fix f
  show "rel_option (\<lambda>r t. rf_scriptId r \<notin> X \<longrightarrow> js_get texts (rf_scriptId r) = Some t) (refs' f) (m' f)"
    by (rule rel_moved [OF assms(2,3), where R = "\<lambda>r t. rf_scriptId r \<notin> X \<longrightarrow> js_get texts (rf_scriptId r) = Some t"])
      (use assms(1,4,5) in \<open>auto simp: page_agrees_def\<close>)
qed

text \<open>Renaming one key after the other, none of the new ones being in use.\<close>

definition rename_keys :: "('k \<times> 'k) list \<Rightarrow> ('k \<rightharpoonup> 'v) \<Rightarrow> ('k \<rightharpoonup> 'v)" where
  "rename_keys rs m = fold (\<lambda>(old, new) m. m(old := None, new := m old)) rs m"

lemma rename_keys_get:
  assumes "distinct (map fst rs)" "distinct (map snd rs)" "\<And>q n. (q, n) \<in> set rs \<Longrightarrow> m q \<noteq> None \<and> m n = None"
  shows "rename_keys rs m k = (if k \<in> set (map fst rs) then None
    else case map_of (map (\<lambda>(q, n). (n, q)) rs) k of Some old \<Rightarrow> m old | None \<Rightarrow> m k)"
  using assms
proof (induction rs arbitrary: m)
  case Nil
  show ?case by (simp add: rename_keys_def)
next
  case (Cons r rs)
  obtain a b where r: "r = (a, b)" by fastforce
  have ab: "m a \<noteq> None" "m b = None" "a \<noteq> b" using Cons.prems(3) [of a b] r by auto
  let ?m = "m(a := None, b := m a)"
  have rest: "q \<noteq> a" "n \<noteq> b" "n \<noteq> a" "q \<noteq> b" "m q \<noteq> None" "m n = None" if "(q, n) \<in> set rs" for q n
    using Cons.prems r that ab by (force simp: image_iff)+
  have IH: "rename_keys rs ?m k = (if k \<in> set (map fst rs) then None
      else case map_of (map (\<lambda>(q, n). (n, q)) rs) k of Some old \<Rightarrow> ?m old | None \<Rightarrow> ?m k)"
    by (rule Cons.IH) (use Cons.prems r rest in \<open>auto\<close>)
  have out: "b \<notin> set (map fst rs)" "a \<notin> set (map fst rs)" using rest(1,4) by force+
  have "map_of (map (\<lambda>(q, n). (n, q)) rs) k = Some old \<Longrightarrow> ?m old = m old" for old
    using rest(1,4) [of old k] by (auto dest!: map_of_SomeD)
  moreover have "map_of (map (\<lambda>(q, n). (n, q)) rs) b = None" "map_of (map (\<lambda>(q, n). (n, q)) rs) a = None"
    using rest(2,3) by (force simp: map_of_eq_None_iff)+
  moreover have "rename_keys (r # rs) m = rename_keys rs ?m" by (simp add: rename_keys_def r)
  ultimately show ?case using out ab by (auto simp: IH r split: option.split)
qed

lemma rename_keys_moved:
  assumes "distinct (map fst rs)" "distinct (map snd rs)" "\<And>q n. (q, n) \<in> set rs \<Longrightarrow> m q \<noteq> None \<and> m n = None"
    and "\<And>q n. (q, n) \<in> set rs \<Longrightarrow> \<rho> q = n" "\<And>k. m k \<noteq> None \<Longrightarrow> k \<notin> set (map fst rs) \<Longrightarrow> \<rho> k = k"
  shows "moved \<rho> (\<lambda>k x. x) m (rename_keys rs m)"
proof -
  note get = rename_keys_get [OF assms(1,2,3)]
  let ?inv = "map (\<lambda>(q, n). (n, q)) rs"
  have inv: "map_of ?inv n = Some q" if "(q, n) \<in> set rs" for q n
  proof -
    have "map fst ?inv = map snd rs" by (auto simp: comp_def split_def)
    with assms(2) have "distinct (map fst ?inv)" by (simp only:)
    with that show ?thesis by (intro map_of_is_SomeI) force+
  qed
  show ?thesis unfolding moved_def
  proof (intro conjI allI impI)
    fix k x assume k: "m k = Some x"
    show "rename_keys rs m (\<rho> k) = Some x"
    proof (cases "k \<in> set (map fst rs)")
      case True
      then obtain n where n: "(k, n) \<in> set rs" by auto
      have "n \<notin> set (map fst rs)"
      proof
        assume "n \<in> set (map fst rs)"
        then obtain n' where "(n, n') \<in> set rs" by auto
        with assms(3) [OF this] assms(3) [OF n] show False by simp
      qed
      with n k show ?thesis by (simp add: get assms(4) inv)
    next
      case False
      with assms(5) k have "\<rho> k = k" by simp
      moreover have "map_of ?inv k = None"
      proof (cases "map_of ?inv k")
        case (Some q)
        then have "(q, k) \<in> set rs" by (auto dest!: map_of_SomeD)
        from assms(3) [OF this] k show ?thesis by simp
      qed
      ultimately show ?thesis using False k by (simp add: get)
    qed
  next
    fix k' x' assume k': "rename_keys rs m k' = Some x'"
    show "\<exists>k x. m k = Some x \<and> \<rho> k = k'"
    proof (cases "map_of ?inv k'")
      case None
      with k' have "k' \<notin> set (map fst rs)" "m k' = Some x'" by (auto simp: get split: if_splits)
      with assms(5) [of k'] show ?thesis by auto
    next
      case (Some old)
      then have "(old, k') \<in> set rs" by (auto dest!: map_of_SomeD)
      moreover from this assms(3) obtain x where "m old = Some x" by auto
      ultimately show ?thesis using assms(4) by blast
    qed
  qed
qed

lemma disk_rename_folders:
  assumes "distinct (map fst rs)" "distinct (map snd rs)" "\<And>q n. (q, n) \<in> set rs \<Longrightarrow> v q \<noteq> None \<and> v n = None"
  shows "disk_tasks (map (\<lambda>(q, n). RENAME_SCRIPT_FOLDER nid q n) rs) (v, d) = Some (rename_keys rs v, d)"
  using assms
proof (induction rs arbitrary: v)
  case (Cons r rs)
  obtain a b where r: "r = (a, b)" by fastforce
  have ab: "v a \<noteq> None" "v b = None" using Cons.prems(3) [of a b] r by auto
  have "disk_tasks (map (\<lambda>(q, n). RENAME_SCRIPT_FOLDER nid q n) rs) (v(a := None, b := v a), d) =
      Some (rename_keys rs (v(a := None, b := v a)), d)"
    by (rule Cons.IH) (use Cons.prems r ab in \<open>(force simp: image_iff)+\<close>)
  with ab show ?case by (simp add: r rename_keys_def)
qed (simp add: rename_keys_def)

section \<open>Folds\<close>

lemma nb_fold_pure:
  assumes "\<And>x s w. x \<in> set xs \<Longrightarrow> f x s w = Return (g x s) w"
  shows "nb_fold f xs s w = Return (fold g xs s) w"
  using assms by (induction xs arbitrary: s) simp_all

lemma nb_fold_append: "nb_fold f (xs @ ys) s w = nb_bind (nb_fold f xs s w) (nb_fold f ys)"
proof (induction xs arbitrary: s w)
  case (Cons x xs)
  show ?case by (cases "f x s w") (simp_all add: Cons)
qed simp

text \<open>A fold that sets distinct keys.\<close>

lemma fold_js_set_other: "k \<notin> g ` set xs \<Longrightarrow> js_get (fold (\<lambda>x m. js_set m (g x) (h x)) xs m) k = js_get m k"
  by (induction xs arbitrary: m) (simp_all add: js_get_set)

lemma fold_js_set_key:
  assumes "distinct (map g xs)" "x \<in> set xs"
  shows "js_get (fold (\<lambda>x m. js_set m (g x) (h x)) xs m) (g x) = Some (h x)"
  using assms
proof (induction xs arbitrary: m)
  case (Cons y ys)
  then show ?case
  proof (cases "x = y")
    case True
    with Cons.prems(1) have "g x \<notin> g ` set ys" by simp
    from fold_js_set_other [OF this, of h "js_set m (g y) (h y)"] show ?thesis by (simp add: True js_get_set)
  qed simp
qed simp

lemma jsmap_ok_fold_set: "jsmap_ok m \<Longrightarrow> jsmap_ok (fold (\<lambda>x m. js_set m (g x) (h x)) xs m)"
  by (induction xs arbitrary: m) simp_all

section \<open>Moving the scripts of a folder\<close>

lemma skel_move_list:
  "skel_of (fold (\<lambda>entry scripts. case js_get scripts (rf_scriptId entry) of
        Some sd \<Rightarrow> js_set scripts (rf_scriptId entry) (sd\<lparr>sd_folderName := folder\<rparr>) | None \<Rightarrow> scripts) es scripts) j =
    (if j \<in> rf_scriptId ` set es then map_option (repath (\<lambda>k f. (folder, f))) (skel_of scripts j) else skel_of scripts j)"
proof (induction es arbitrary: scripts)
  case (Cons e es)
  show ?case
  proof (cases "js_get scripts (rf_scriptId e)")
    case None
    then have "skel_of scripts (rf_scriptId e) = None" by (simp add: skel_of_def)
    with None show ?thesis using Cons [of scripts] by auto
  next
    case (Some d)
    then have "skel_of scripts (rf_scriptId e) = Some (skel d)" by (simp add: skel_of_def)
    with Some show ?thesis
      using Cons [of "js_set scripts (rf_scriptId e) (d\<lparr>sd_folderName := folder\<rparr>)"]
      by (auto simp: skel_of_set skel_def repath_def)
  qed
qed simp

lemma skel_move_scripts:
  assumes "jsmap_ok (pg_scripts page)"
  shows "skel_of (move_scripts folder page scripts) j =
    (if \<exists>f r. js_get (pg_scripts page) f = Some r \<and> rf_scriptId r = j
     then map_option (repath (\<lambda>k f. (folder, f))) (skel_of scripts j) else skel_of scripts j)"
proof -
  have "j \<in> rf_scriptId ` set (object_values (pg_scripts page)) \<longleftrightarrow>
      (\<exists>f r. js_get (pg_scripts page) f = Some r \<and> rf_scriptId r = j)"
    unfolding set_object_values [OF assms] using js_get_in_values js_in_get [OF assms] by force
  then show ?thesis unfolding move_scripts_def skel_move_list by simp
qed

lemma jsmap_ok_move_scripts: "jsmap_ok scripts \<Longrightarrow> jsmap_ok (move_scripts folder page scripts)"
proof -
  have "jsmap_ok scripts \<Longrightarrow> jsmap_ok (fold (\<lambda>entry scripts. case js_get scripts (rf_scriptId entry) of
        Some sd \<Rightarrow> js_set scripts (rf_scriptId entry) (sd\<lparr>sd_folderName := folder\<rparr>) | None \<Rightarrow> scripts) es scripts)" for es
    by (induction es arbitrary: scripts) (auto split: option.split)
  then show "jsmap_ok scripts \<Longrightarrow> ?thesis" by (simp add: move_scripts_def)
qed

section \<open>The loop of reprefixPages\<close>

text \<open>The loop without its exception, on positions paired with folders.\<close>

definition reprefix_step :: "(string, ScriptFolder) jsmap \<Rightarrow> (nat \<times> string \<Rightarrow> string) \<Rightarrow> nat \<times> string \<Rightarrow> reprefix_state \<Rightarrow> reprefix_state" where
  "reprefix_step pages new x r =
    (case js_get pages (snd x) of
       None \<Rightarrow> r
     | Some page \<Rightarrow> if new x = snd x then r\<lparr>rp_pages := js_set (rp_pages r) (snd x) page\<rparr>
         else r\<lparr>rp_renames := rp_renames r @ [(snd x, new x)], rp_scripts := move_scripts (new x) page (rp_scripts r),
                rp_pages := js_set (rp_pages r) (new x) (page\<lparr>pg_folderName := new x\<rparr>)\<rparr>)"

lemma reprefix_fold:
  assumes "\<And>x. x \<in> set xs \<Longrightarrow> js_get pages (snd x) \<noteq> None"
  shows "nb_fold (reprefix_one pages n) xs r w =
    Return (fold (reprefix_step pages (\<lambda>(i, k). numbered_folder i n k)) xs r) w"
proof (rule nb_fold_pure)
  fix x r w assume "x \<in> set xs"
  from assms [OF this] obtain page where "js_get pages (snd x) = Some page" by auto
  then show "reprefix_one pages n x r w =
      Return (reprefix_step pages (\<lambda>(i, k). numbered_folder i n k) x r) w"
    by (cases x) (simp add: reprefix_one_def reprefix_step_def Let_def)
qed

lemma reprefix_renames:
  assumes "\<And>x. x \<in> set xs \<Longrightarrow> js_get pages (snd x) \<noteq> None"
  shows "rp_renames (fold (reprefix_step pages new) xs r) =
    rp_renames r @ map (\<lambda>x. (snd x, new x)) (filter (\<lambda>x. new x \<noteq> snd x) xs)"
  using assms
proof (induction xs arbitrary: r)
  case (Cons x xs)
  from Cons.prems [of x] obtain page where "js_get pages (snd x) = Some page" by auto
  with Cons show ?case by (simp add: reprefix_step_def)
qed simp

lemma reprefix_pages:
  assumes "\<And>x. x \<in> set xs \<Longrightarrow> \<exists>p. js_get pages (snd x) = Some p \<and> pg_folderName p = snd x"
  shows "rp_pages (fold (reprefix_step pages new) xs r) =
    fold (\<lambda>x m. js_set m (new x) ((the (js_get pages (snd x)))\<lparr>pg_folderName := new x\<rparr>)) xs (rp_pages r)"
  using assms
proof (induction xs arbitrary: r)
  case (Cons x xs)
  from Cons.prems [of x] obtain page where p: "js_get pages (snd x) = Some page" "pg_folderName page = snd x" by auto
  have same: "page\<lparr>pg_folderName := snd x\<rparr> = page" by (cases page) (use p(2) in simp)
  have "rp_pages (reprefix_step pages new x r) = js_set (rp_pages r) (new x) (page\<lparr>pg_folderName := new x\<rparr>)"
    by (cases "new x = snd x") (simp_all add: reprefix_step_def p same)
  with Cons p show ?case by simp
qed simp

text \<open>The scripts of the processed folders have moved with them.\<close>

lemma reprefix_scripts:
  assumes ok: "jsmap_ok scripts" "folders_ok pages" "paths_ok pages scripts uid"
    and xs: "\<And>x. x \<in> set xs \<Longrightarrow> js_get pages (snd x) \<noteq> None" "distinct (map snd xs)"
    and r: "rp_scripts r = scripts"
    and \<rho>: "\<And>x. x \<in> set xs \<Longrightarrow> \<rho> (snd x) = new x"
  shows "jsmap_ok (rp_scripts (fold (reprefix_step pages new) xs r)) \<and>
    (\<forall>j. skel_of (rp_scripts (fold (reprefix_step pages new) xs r)) j =
      map_option (repath (\<lambda>k f. (if k \<in> snd ` set xs then \<rho> k else k, f))) (skel_of scripts j))"
  using xs \<rho>
proof (induction xs rule: rev_induct)
  case Nil
  have "repath (\<lambda>k f. (k, f)) = id" by (auto simp: repath_def fun_eq_iff)
  then show ?case using ok(1) r by (simp add: option.map_ident id_def)
next
  case (snoc x xs)
  let ?r = "fold (reprefix_step pages new) xs r"
  have IH: "jsmap_ok (rp_scripts ?r)" and sk: "\<And>j. skel_of (rp_scripts ?r) j =
      map_option (repath (\<lambda>k f. (if k \<in> snd ` set xs then \<rho> k else k, f))) (skel_of scripts j)"
    using snoc.IH snoc.prems by auto
  from snoc.prems(1) [of x] obtain page where p: "js_get pages (snd x) = Some page" by auto
  with ok(2) have jp: "jsmap_ok (pg_scripts page)" by (simp add: folders_ok_def)
  have new: "snd x \<notin> snd ` set xs" "\<rho> (snd x) = new x" using snoc.prems by auto
  have ids: "(\<exists>f r. js_get (pg_scripts page) f = Some r \<and> rf_scriptId r = j) \<longleftrightarrow> (\<exists>a b f. skel_of scripts j = Some (a, b, snd x, f))" for j
  proof
    assume "\<exists>f r. js_get (pg_scripts page) f = Some r \<and> rf_scriptId r = j"
    then obtain f r where "js_get (pg_scripts page) f = Some r" "rf_scriptId r = j" by blast
    with p have "entry pages (snd x) f r" by (auto simp: entry_def)
    with ok(3) \<open>rf_scriptId r = j\<close> show "\<exists>a b f. skel_of scripts j = Some (a, b, snd x, f)" unfolding paths_ok_def by blast
  next
    assume "\<exists>a b f. skel_of scripts j = Some (a, b, snd x, f)"
    then obtain a b f where j: "skel_of scripts j = Some (a, b, snd x, f)" by blast
    have "snd x \<noteq> []" using ok(2) p by (auto simp: folders_ok_def)
    with j ok(3) have "\<exists>r. entry pages (snd x) f r \<and> rf_scriptId r = j" unfolding paths_ok_def by blast
    with p show "\<exists>f r. js_get (pg_scripts page) f = Some r \<and> rf_scriptId r = j" by (auto simp: entry_def)
  qed
  have moved: "rp_scripts (fold (reprefix_step pages new) (xs @ [x]) r) =
      (if new x = snd x then rp_scripts ?r else move_scripts (new x) page (rp_scripts ?r))"
    by (simp add: reprefix_step_def p)
  show ?case unfolding moved
  proof (intro conjI allI)
    show "jsmap_ok (if new x = snd x then rp_scripts ?r else move_scripts (new x) page (rp_scripts ?r))"
      using IH jsmap_ok_move_scripts by simp
    fix j
    show "skel_of (if new x = snd x then rp_scripts ?r else move_scripts (new x) page (rp_scripts ?r)) j =
        map_option (repath (\<lambda>k f. (if k \<in> snd ` set (xs @ [x]) then \<rho> k else k, f))) (skel_of scripts j)"
    proof (cases "\<exists>a b f. skel_of scripts j = Some (a, b, snd x, f)")
      case True
      then obtain a b f where j: "skel_of scripts j = Some (a, b, snd x, f)" by blast
      with new show ?thesis using True ids by (simp add: skel_move_scripts [OF jp] sk repath_def)
    next
      case False
      then have "skel_of scripts j = Some (a, b, k, f) \<Longrightarrow> k \<noteq> snd x" for a b k f by auto
      then have "map_option (repath (\<lambda>k f. (if k \<in> snd ` set xs then \<rho> k else k, f))) (skel_of scripts j) =
          map_option (repath (\<lambda>k f. (if k \<in> snd ` set (xs @ [x]) then \<rho> k else k, f))) (skel_of scripts j)"
        by (cases "skel_of scripts j") (auto simp: repath_def)
      with False ids show ?thesis by (simp add: skel_move_scripts [OF jp] sk)
    qed
  qed
qed

section \<open>The result of the loop\<close>

text \<open>The name a folder gets from its position in the order.\<close>

definition renumber :: "string list \<Rightarrow> string \<Rightarrow> string" where
  "renumber order k = (if k \<in> set order then numbered_folder (nat (js_index_of order k)) (length order) k else k)"

lemma index_enumerate: "distinct order \<Longrightarrow> (i, k) \<in> set (enumerate 0 order) \<Longrightarrow> nat (js_index_of order k) = i"
proof -
  assume d: "distinct order" and "(i, k) \<in> set (enumerate 0 order)"
  then have i: "i < length order" "order ! i = k" by (auto simp: in_set_enumerate_eq)
  then have "k \<in> set order" by auto
  from js_index_of_nth [OF this] i d show ?thesis by (metis nth_eq_iff_index_eq)
qed

lemma normalize_numbered [simp]: "normalizeScriptFolderName (numbered_folder i n k) = normalizeScriptFolderName k"
  by (simp add: numbered_folder_def)

lemma normalize_renumber [simp]: "normalizeScriptFolderName (renumber order k) = normalizeScriptFolderName k"
  by (simp add: renumber_def)

lemma numbered_folder_not_Nil [simp]: "numbered_folder i n k \<noteq> []"
  by (simp add: numbered_folder_def formatScriptFolderOrderPrefix_def)

lemma inj_renumber:
  "inj_on normalizeScriptFolderName A \<Longrightarrow> inj_on (renumber order) A"
  by (rule inj_onI) (metis inj_onD normalize_renumber)

text \<open>A changed name is not the name of any folder.\<close>

lemma renumber_fresh:
  assumes "inj_on normalizeScriptFolderName A" "k \<in> A" "renumber order k \<noteq> k"
  shows "renumber order k \<notin> A"
  using assms by (metis inj_onD normalize_renumber)

lemma snd_set_enumerate [simp]: "snd ` set (enumerate n xs) = set xs"
  by (metis enumerate_eq_zip list.set_map map_snd_zip length_upt add_diff_cancel_left')

lemma folders_okD: "folders_ok pages \<Longrightarrow> js_get pages k = Some p \<Longrightarrow>
    k \<noteq> [] \<and> pg_folderName p = k \<and> jsmap_ok (pg_scripts p)"
  unfolding folders_ok_def by blast

definition reprefix_ready :: "(string, ScriptFolder) jsmap \<Rightarrow> string list \<Rightarrow> reprefix_state \<Rightarrow> bool" where
  "reprefix_ready pages order r0 \<longleftrightarrow> folders_ok pages \<and> distinct order \<and> set order = fst ` set pages \<and>
     inj_on normalizeScriptFolderName (set order) \<and> rp_renames r0 = [] \<and> rp_pages r0 = []"

definition reprefixed :: "(string, ScriptFolder) jsmap \<Rightarrow> string list \<Rightarrow> reprefix_state \<Rightarrow> reprefix_state" where
  "reprefixed pages order r0 =
     fold (reprefix_step pages (\<lambda>(i, k). numbered_folder i (length order) k)) (enumerate 0 order) r0"

lemma map_enumerate [simp]: "map (\<lambda>x. f (snd x)) (enumerate n xs) = map f xs"
  by (induction xs arbitrary: n) simp_all

lemma map_filter_enumerate: "map (\<lambda>x. f (snd x)) (filter (\<lambda>x. P (snd x)) (enumerate n xs)) = map f (filter P xs)"
  by (induction xs arbitrary: n) simp_all

lemma new_renumber: "distinct order \<Longrightarrow> x \<in> set (enumerate 0 order) \<Longrightarrow>
    (case x of (i, k) \<Rightarrow> numbered_folder i (length order) k) = renumber order (snd x)"
proof (cases x)
  case (Pair i k)
  assume dist: "distinct order" and "x \<in> set (enumerate 0 order)"
  with Pair have "(i, k) \<in> set (enumerate 0 order)" by simp
  moreover from this have "k \<in> set order" by (force simp: in_set_enumerate_eq)
  ultimately show ?thesis using index_enumerate [OF dist] by (simp add: Pair renumber_def)
qed

lemma in_order: "reprefix_ready pages order r0 \<Longrightarrow> x \<in> set (enumerate 0 order) \<Longrightarrow> \<exists>p. js_get pages (snd x) = Some p \<and> pg_folderName p = snd x"
proof -
  assume rd: "reprefix_ready pages order r0" and "x \<in> set (enumerate 0 order)"
  then have "snd x \<in> snd ` set (enumerate 0 order)" by blast
  then have "snd x \<in> fst ` set pages" using rd by (simp add: reprefix_ready_def)
  then obtain p where "js_get pages (snd x) = Some p" using keys_get_None [of pages "snd x"] by auto
  with rd folders_okD [of pages] show ?thesis unfolding reprefix_ready_def by blast
qed

lemma result_renames:
  assumes rd: "reprefix_ready pages order r0"
  shows "rp_renames (reprefixed pages order r0) =
    map (\<lambda>k. (k, renumber order k)) (filter (\<lambda>k. renumber order k \<noteq> k) order)"
proof -
  from rd have dist: "distinct order" "rp_renames r0 = []" by (auto simp: reprefix_ready_def)
  let ?xs = "enumerate 0 order" and ?new = "\<lambda>(i, k). numbered_folder i (length order) k"
  have "rp_renames (reprefixed pages order r0) = map (\<lambda>x. (snd x, ?new x)) (filter (\<lambda>x. ?new x \<noteq> snd x) ?xs)"
    unfolding reprefixed_def using in_order [OF rd] by (subst reprefix_renames) (auto simp: dist)
  also have "\<dots> = map (\<lambda>x. (snd x, renumber order (snd x))) (filter (\<lambda>x. renumber order (snd x) \<noteq> snd x) ?xs)"
    using new_renumber [OF dist(1)] by (intro map_cong filter_cong) auto
  also have "\<dots> = map (\<lambda>k. (k, renumber order k)) (filter (\<lambda>k. renumber order k \<noteq> k) order)"
    by (rule map_filter_enumerate)
  finally show ?thesis .
qed

lemma result_pages_eq:
  assumes rd: "reprefix_ready pages order r0"
  shows "rp_pages (reprefixed pages order r0) =
    fold (\<lambda>x m. js_set m (renumber order (snd x)) ((the (js_get pages (snd x)))\<lparr>pg_folderName := renumber order (snd x)\<rparr>))
      (enumerate 0 order) []"
proof -
  from rd have "distinct order" "rp_pages r0 = []" by (auto simp: reprefix_ready_def)
  then show ?thesis unfolding reprefixed_def using in_order [OF rd] new_renumber
    by (subst reprefix_pages) (auto intro!: fold_cong)
qed

lemma result_pages:
  assumes rd: "reprefix_ready pages order r0"
  shows "moved (renumber order) (\<lambda>k p. p\<lparr>pg_folderName := renumber order k\<rparr>) (js_get pages)
    (js_get (rp_pages (reprefixed pages order r0)))"
proof -
  from rd have dist: "distinct order" and inj: "inj_on normalizeScriptFolderName (set order)"
    and keys: "set order = fst ` set pages" by (auto simp: reprefix_ready_def)
  let ?xs = "enumerate 0 order" and ?g = "\<lambda>x. renumber order (snd x)"
  let ?pages = "rp_pages (reprefixed pages order r0)"
  have d: "distinct (map ?g ?xs)" using dist inj_renumber [OF inj] by (simp add: distinct_map)
  note eq = result_pages_eq [OF rd]
  show ?thesis unfolding moved_def
  proof (intro conjI allI impI)
    fix k p assume k: "js_get pages k = Some p"
    then have "k \<in> set order" unfolding keys by (rule keys_get_Some)
    then obtain x where x: "x \<in> set ?xs" "snd x = k" using snd_set_enumerate [of 0 order] by (metis imageE)
    let ?h = "\<lambda>x. (the (js_get pages (snd x)))\<lparr>pg_folderName := renumber order (snd x)\<rparr>"
    have "js_get ?pages (?g x) = Some (?h x)" unfolding eq by (rule fold_js_set_key [OF d x(1)])
    then show "js_get ?pages (renumber order k) = Some (p\<lparr>pg_folderName := renumber order k\<rparr>)"
      unfolding x(2) k option.sel .
  next
    fix k' p' assume k': "js_get ?pages k' = Some p'"
    have "k' \<in> ?g ` set ?xs"
    proof (rule ccontr)
      assume "k' \<notin> ?g ` set ?xs"
      have "js_get ?pages k' = js_get [] k'" unfolding eq by (rule fold_js_set_other) fact
      with k' show False by simp
    qed
    then obtain x where x: "x \<in> set ?xs" "?g x = k'" by blast
    with in_order [OF rd x(1)] show "\<exists>k p. js_get pages k = Some p \<and> renumber order k = k'" by blast
  qed
qed

lemma result_folders_ok:
  assumes rd: "reprefix_ready pages order r0"
  shows "folders_ok (rp_pages (reprefixed pages order r0))"
  unfolding folders_ok_def
proof (intro conjI allI impI)
  from rd have fo: "folders_ok pages" and keys: "set order = fst ` set pages" by (auto simp: reprefix_ready_def)
  show "jsmap_ok (rp_pages (reprefixed pages order r0))" unfolding result_pages_eq [OF rd] by (rule jsmap_ok_fold_set) simp
  from fo obtain x ps where "pages = x # ps" by (cases pages) (simp_all add: folders_ok_def)
  then have "js_get pages (fst x) = Some (snd x)" by (cases x) simp
  from movedD [OF result_pages [OF rd] this] show "rp_pages (reprefixed pages order r0) \<noteq> []" by auto
  fix k' p' assume "js_get (rp_pages (reprefixed pages order r0)) k' = Some p'"
  from movedE [OF result_pages [OF rd] this] obtain k p where k: "js_get pages k = Some p" "renumber order k = k'"
    "p' = p\<lparr>pg_folderName := renumber order k\<rparr>" by blast
  have "k \<in> set order" unfolding keys by (rule keys_get_Some [OF k(1)])
  with k(2) have "k' = numbered_folder (nat (js_index_of order k)) (length order) k" by (simp add: renumber_def)
  then show "k' \<noteq> []" by simp
  show "pg_folderName p' = k'" "jsmap_ok (pg_scripts p')" using k folders_okD [OF fo k(1)] by simp_all
qed

lemma result_scripts:
  assumes rd: "reprefix_ready pages order r0" and sc: "jsmap_ok (rp_scripts r0)" "paths_ok pages (rp_scripts r0) uid"
  shows "jsmap_ok (rp_scripts (reprefixed pages order r0)) \<and>
    (\<forall>j. skel_of (rp_scripts (reprefixed pages order r0)) j =
      map_option (repath (\<lambda>k f. (renumber order k, f))) (skel_of (rp_scripts r0) j))"
proof -
  from rd have dist: "distinct order" and fo: "folders_ok pages" by (auto simp: reprefix_ready_def)
  have in_xs: "js_get pages (snd x) \<noteq> None" if "x \<in> set (enumerate 0 order)" for x using in_order [OF rd that] by auto
  have d: "distinct (map snd (enumerate 0 order))" using dist by simp
  have eq: "repath (\<lambda>k f. (if k \<in> snd ` set (enumerate 0 order) then renumber order k else k, f)) =
      repath (\<lambda>k f. (renumber order k, f))"
    by (rule arg_cong [of _ _ repath]) (auto simp: fun_eq_iff renumber_def)
  show ?thesis
    using reprefix_scripts [where \<rho> = "renumber order", OF sc(1) fo sc(2) in_xs d refl new_renumber [OF dist, symmetric]]
    unfolding eq reprefixed_def by blast
qed

lemma result_paths:
  assumes rd: "reprefix_ready pages order r0" and sc: "jsmap_ok (rp_scripts r0)" "paths_ok pages (rp_scripts r0) uid"
  shows "paths_ok (rp_pages (reprefixed pages order r0)) (rp_scripts (reprefixed pages order r0)) uid"
proof (rule paths_ok_repath [OF sc(2)])
  show "skel_of (rp_scripts (reprefixed pages order r0)) j =
      map_option (repath (\<lambda>k f. (renumber order k, f))) (skel_of (rp_scripts r0) j)" for j
    using result_scripts [OF assms] by blast
next
  fix k f e assume en: "entry pages k f e"
  with sc(2) have f: "f \<noteq> []" "rf_fileName e = f" by (auto simp: paths_ok_def)
  have e: "e\<lparr>rf_fileName := f\<rparr> = e" by (cases e) (use f(2) in simp)
  from en obtain p where p: "js_get pages k = Some p" "js_get (pg_scripts p) f = Some e" by (auto simp: entry_def)
  from movedD [OF result_pages [OF rd] p(1)] p(2)
  show "snd (renumber order k, f) \<noteq> [] \<and> entry (rp_pages (reprefixed pages order r0)) (fst (renumber order k, f))
      (snd (renumber order k, f)) (e\<lparr>rf_fileName := snd (renumber order k, f)\<rparr>)" using f(1) by (simp add: e entry_def)
next
  fix k' f' e' assume "entry (rp_pages (reprefixed pages order r0)) k' f' e'"
  then obtain p' where p': "js_get (rp_pages (reprefixed pages order r0)) k' = Some p'" "js_get (pg_scripts p') f' = Some e'"
    by (auto simp: entry_def)
  from movedE [OF result_pages [OF rd] p'(1)] obtain k p where k: "js_get pages k = Some p" "renumber order k = k'"
    "p' = p\<lparr>pg_folderName := renumber order k\<rparr>" by blast
  with p'(2) have en: "entry pages k f' e'" by (auto simp: entry_def)
  with sc(2) have "rf_fileName e' = f'" by (auto simp: paths_ok_def)
  then have "e' = e'\<lparr>rf_fileName := f'\<rparr>" by (cases e') simp
  with en k(2) show "\<exists>k f e. entry pages k f e \<and> (renumber order k, f) = (k', f') \<and> e' = e\<lparr>rf_fileName := f'\<rparr>" by blast
next
  from rd have fo: "folders_ok pages" and keys: "set order = fst ` set pages" by (auto simp: reprefix_ready_def)
  have "[] \<notin> set order"
  proof
    assume "[] \<in> set order"
    then obtain p where "js_get pages [] = Some p" using keys keys_get_None [of pages "[]"] by auto
    from folders_okD [OF fo this] show False by simp
  qed
  then show "(renumber order [], []) = ([], [])" by (simp add: renumber_def)
qed

end
