(* ===== verification/Notebook_Logic.thy ===== *)
theory Notebook_Logic
  imports Notebook_Moves
begin

text \<open>A small program logic for the notebook's operations: a postcondition that also says when an operation may
  throw, what an operation did to the heap and to the schedule of writes, and what every action has to keep.\<close>

section \<open>Postconditions\<close>

text \<open>\<open>Q\<close> holds of what is returned; if \<open>a\<close> then it returns.\<close>

definition post :: "bool \<Rightarrow> 'a nb \<Rightarrow> ('a \<Rightarrow> nb_world \<Rightarrow> bool) \<Rightarrow> bool" where
  "post a r Q \<longleftrightarrow> (case r of Return x w \<Rightarrow> Q x w | Raise w \<Rightarrow> \<not> a)"

lemma post_Return [simp]: "post a (Return x w) Q = Q x w"
  by (simp add: post_def)

lemma post_bind: "post a r (\<lambda>x w. post a (f x w) Q) \<Longrightarrow> post a (nb_bind r f) Q"
  by (cases r) (simp_all add: post_def)

lemma post_weaken: "post a r P \<Longrightarrow> (\<And>x w. P x w \<Longrightarrow> Q x w) \<Longrightarrow> post a r Q"
  by (cases r) (simp_all add: post_def)

lemma post_fold:
  assumes "\<And>x s w. x \<in> set xs \<Longrightarrow> I s w \<Longrightarrow> post a (f x s w) I" "I s w"
  shows "post a (nb_fold f xs s w) I"
  using assms
proof (induction xs arbitrary: s w)
  case (Cons x xs)
  have "post a (f x s w) (\<lambda>s w. post a (nb_fold f xs s w) I)"
    by (rule post_weaken [OF Cons.prems(1)]) (use Cons in auto)
  then show ?case by (simp add: post_bind)
qed simp

section \<open>What an operation did\<close>

definition w_tasks :: "nb_world \<Rightarrow> WriteTask list" where
  "w_tasks w = map (\<lambda>(key, task, delay). task) (w_writes w)"

text \<open>The same scripts are alive.\<close>

definition same_heap :: "nb_world \<Rightarrow> nb_world \<Rightarrow> bool" where
  "same_heap w w' \<longleftrightarrow> live w' = live w \<and> w_nextScript w' = w_nextScript w \<and>
     (jsmap_ok (w_text w) \<longrightarrow> jsmap_ok (w_text w')) \<and>
     set (w_catalog w') \<subseteq> set (w_catalog w) \<union> live w \<and> set (w_registry w') \<subseteq> set (w_registry w) \<union> live w \<and>
     fst ` set (w_path w') \<subseteq> fst ` set (w_path w) \<union> live w"

definition did :: "WriteTask list \<Rightarrow> nb_world \<Rightarrow> nb_world \<Rightarrow> bool" where
  "did ts w w' \<longleftrightarrow> same_heap w w' \<and> w_text w' = w_text w \<and> w_tasks w' = w_tasks w @ ts"

definition sched :: "nb_env \<Rightarrow> WriteTask list \<Rightarrow> WriteTask list" where
  "sched e ts = (if e_active e then ts else [])"

lemma sched_append [simp]: "sched e (ts @ us) = sched e ts @ sched e us"
  by (simp add: sched_def)

lemma sched_Nil [simp]: "sched e [] = []"
  by (simp add: sched_def)

lemma same_heap_refl [simp]: "same_heap w w"
  by (simp add: same_heap_def)

lemma same_heap_trans: "same_heap w w' \<Longrightarrow> same_heap w' w'' \<Longrightarrow> same_heap w w''"
proof -
  assume a: "same_heap w w'" and b: "same_heap w' w''"
  from a have l: "live w' = live w" by (simp add: same_heap_def)
  note a = a [unfolded same_heap_def] and b = b [unfolded same_heap_def l]
  have "set (w_catalog w'') \<subseteq> set (w_catalog w) \<union> live w" by (rule subset_Un_trans [where Q = "set (w_catalog w')"]) (use a b in simp_all)
  moreover have "set (w_registry w'') \<subseteq> set (w_registry w) \<union> live w" by (rule subset_Un_trans [where Q = "set (w_registry w')"]) (use a b in simp_all)
  moreover have "fst ` set (w_path w'') \<subseteq> fst ` set (w_path w) \<union> live w" by (rule subset_Un_trans [where Q = "fst ` set (w_path w')"]) (use a b in simp_all)
  ultimately show ?thesis unfolding same_heap_def using a b by simp
qed

lemma quiet_did: "quiet w w' \<Longrightarrow> did [] w w'"
  by (simp add: quiet_def did_def same_heap_def live_def w_tasks_def)

lemma did_refl [simp]: "did [] w w"
  by (simp add: did_def)

lemma did_trans: "did ts w w' \<Longrightarrow> did us w' w'' \<Longrightarrow> did (ts @ us) w w''"
  by (auto simp: did_def intro: same_heap_trans)

lemma did_quiet: "did ts w w' \<Longrightarrow> quiet w' w'' \<Longrightarrow> did ts w w''"
  by (metis did_trans quiet_did append_Nil2)

lemma quiet_then_did: "quiet w w' \<Longrightarrow> did ts w' w'' \<Longrightarrow> did ts w w''"
  by (metis did_trans quiet_did append_Nil)

lemma did_write: "did (sched e [task]) w (nb_write e key task w)"
  by (simp add: did_def nb_write_def sched_def same_heap_def w_tasks_def live_def)

lemma text_write [simp]: "w_text (nb_write e key task w) = w_text w"
  by (simp add: nb_write_def)

lemma did_draws: "did [] w (w\<lparr>w_draws := n\<rparr>)"
  by (simp add: did_def same_heap_def w_tasks_def live_def)

lemma did_then_write: "did (sched e ts) w w' \<Longrightarrow> did (sched e (ts @ [task])) w (nb_write e key task w')"
  using did_trans [OF _ did_write] by simp

lemma did_text: "did ts w w' \<Longrightarrow> w_text w' = w_text w"
  by (simp add: did_def)

lemma did_live: "did ts w w' \<Longrightarrow> live w' = live w"
  by (simp add: did_def same_heap_def)

lemma did_heap: "did ts w w' \<Longrightarrow> same_heap w w'"
  by (simp add: did_def)

lemma did_tasks: "did ts w w' \<Longrightarrow> w_tasks w' = w_tasks w @ ts"
  by (simp add: did_def)

section \<open>Rules\<close>

lemma post_toString: "js_get (w_text w) h = Some t \<Longrightarrow> Q t w \<Longrightarrow> post a (script_toString h w) Q"
  by (simp add: script_toString_def)

lemma post_analyze:
  assumes "sd_script d \<in> live w" "scripts_live scripts w"
    and "\<And>d' w'. skel d' = skel d \<Longrightarrow> quiet w w' \<Longrightarrow> Q d' w'"
  shows "post (core_accepts (e_core e)) (analyzeScriptData e scripts d w) Q"
proof (cases "analyzeScriptData e scripts d w")
  case (Return d' w')
  from analyzeScriptData_frame [OF this] assms(3) show ?thesis by (simp add: Return)
next
  case (Raise w')
  with analyzeScriptData_returns [of e, OF _ assms(1,2)] show ?thesis by (auto simp: post_def)
qed

lemma post_script_result:
  assumes "h \<in> live w" "\<And>b w'. quiet w w' \<Longrightarrow> Q b w'"
  shows "post a (script_result h w) Q"
proof -
  from script_result_live [OF assms(1)] obtain b w' where r: "script_result h w = Return b w'" by blast
  from assms(2) [OF quiet_script_result [OF r]] show ?thesis by (simp add: r)
qed

lemma post_replace:
  assumes "h \<in> live w" "Q () (w\<lparr>w_text := js_set (w_text w) h t\<rparr>)"
  shows "post a (script_replaceText h t w) Q"
  using assms by (simp add: script_replaceText_def live_iff)

lemma same_heap_replace: "h \<in> live w \<Longrightarrow> same_heap w (w\<lparr>w_text := js_set (w_text w) h t\<rparr>)"
  by (auto simp: same_heap_def live_def)

lemma scripts_live_skel: "scripts_live scripts w \<longleftrightarrow>
    (\<forall>j a b k f. skel_of scripts j = Some (a, b, k, f) \<longrightarrow> b \<in> live w)"
  by (auto simp: scripts_live_def skel_of_Some)

lemma live_text: "h \<in> live w \<Longrightarrow> \<exists>t. js_get (w_text w) h = Some t"
  by (auto simp: live_iff)

section \<open>What an action keeps\<close>

text \<open>Every file name carries an order prefix.\<close>

definition prefixed :: "NotebookState \<Rightarrow> bool" where
  "prefixed s \<longleftrightarrow>
     list_all (\<lambda>(k, p). list_all (\<lambda>f. scriptOrderPrefixString f \<noteq> []) (js_keys (pg_scripts p))) (nk_scriptFolders s)"

definition nb_inv :: "NotebookState \<Rightarrow> nb_world \<Rightarrow> bool" where
  "nb_inv s w \<longleftrightarrow> nb_ok s \<and> focus_ok s \<and> heap_ok s w \<and> unique_names s \<and> prefixed s"

text \<open>The names of folders and files, as a predicate of the folders.\<close>

definition page_names_ok :: "(string, ScriptRef) jsmap \<Rightarrow> bool" where
  "page_names_ok refs \<longleftrightarrow> inj_on normalizeScriptName (fst ` set refs) \<and>
     (\<forall>f \<in> fst ` set refs. scriptOrderPrefixString f \<noteq> [])"

definition names_ok :: "(string, ScriptFolder) jsmap \<Rightarrow> bool" where
  "names_ok folders \<longleftrightarrow> inj_on normalizeScriptFolderName (fst ` set folders) \<and>
     (\<forall>k p. js_get folders k = Some p \<longrightarrow> page_names_ok (pg_scripts p))"

lemma distinct_map_keys: "distinct (map f (js_keys m)) \<longleftrightarrow> jsmap_ok m \<and> inj_on f (fst ` set m)"
  unfolding jsmap_ok_def distinct_map [of f "js_keys m"] by simp

lemma names_ok_iff:
  assumes "folders_ok (nk_scriptFolders s)"
  shows "unique_names s \<and> prefixed s \<longleftrightarrow> names_ok (nk_scriptFolders s)"
proof -
  let ?F = "nk_scriptFolders s"
  have ok: "jsmap_ok ?F" using assms by (simp add: folders_ok_def)
  have pages: "js_get ?F k = Some p \<Longrightarrow> jsmap_ok (pg_scripts p)" for k p using folders_okD [OF assms] by blast
  have u: "unique_names s \<longleftrightarrow> inj_on normalizeScriptFolderName (fst ` set ?F) \<and>
      (\<forall>k p. js_get ?F k = Some p \<longrightarrow> inj_on normalizeScriptName (fst ` set (pg_scripts p)))"
    using ok pages unfolding unique_names_def list_all_get [OF ok] distinct_map_keys by blast
  have p: "prefixed s \<longleftrightarrow> (\<forall>k p. js_get ?F k = Some p \<longrightarrow> (\<forall>f \<in> fst ` set (pg_scripts p). scriptOrderPrefixString f \<noteq> []))"
    unfolding prefixed_def list_all_get [OF ok] by (auto simp: list_all_iff)
  show ?thesis unfolding u p names_ok_def page_names_ok_def by blast
qed

lemma nb_inv_iff: "nb_inv s w \<longleftrightarrow> jsmap_ok (nk_scripts s) \<and> folders_ok (nk_scriptFolders s) \<and>
    paths_ok (nk_scriptFolders s) (nk_scripts s) (nk_uncommittedScriptId s) \<and> names_ok (nk_scriptFolders s) \<and>
    focus_ok s \<and> heap_ok s w"
  unfolding nb_inv_def nb_ok_entries using names_ok_iff by blast

text \<open>What holds after an action: the invariant, and that the writes it scheduled turn a disk that agreed with the
  notebook into one that does.\<close>

definition kept :: "nb_env \<Rightarrow> nat set \<Rightarrow> nb_world \<Rightarrow> script_store \<Rightarrow> NotebookState \<Rightarrow> nb_world \<Rightarrow> bool" where
  "kept e X w st s' w' \<longleftrightarrow> nb_inv s' w' \<and> (\<exists>ts. w_tasks w' = w_tasks w @ ts \<and>
     (e_active e \<longrightarrow> (\<exists>st'. tasks_effect ts st = Some st' \<and> persisted X s' w' st')))"

definition disk_agrees :: "nat set \<Rightarrow> NotebookState \<Rightarrow> nb_world \<Rightarrow> disk \<Rightarrow> bool" where
  "disk_agrees X s w vd \<longleftrightarrow> agrees X (w_text w) (js_get (nk_scriptFolders s)) (fst vd) \<and>
     (nk_uncommittedScriptId s \<notin> X \<longrightarrow> js_get (w_text w) (nk_uncommittedScriptId s) = Some (snd vd))"

lemma persisted_disk: "persisted X s w st \<longleftrightarrow> disk_agrees X s w (disk_of st)"
  by (simp add: persisted_def disk_agrees_def disk_of_def)

lemma keptI:
  assumes "nb_inv s' w'" "w_tasks w' = w_tasks w @ sched e ts"
    and "e_active e \<Longrightarrow> \<exists>vd. disk_tasks ts (disk_of st) = Some vd \<and> disk_agrees X s' w' vd"
  shows "kept e X w st s' w'"
proof -
  have "\<exists>st'. tasks_effect (sched e ts) st = Some st' \<and> persisted X s' w' st'" if a: "e_active e"
    using assms(3) [OF a] disk_tasks_sim [of ts st] a unfolding persisted_disk sched_def by auto
  with assms(1,2) show ?thesis unfolding kept_def by blast
qed

lemma heap_ok_same:
  assumes "heap_ok s w" "same_heap w w'" "fst ` set (nk_scripts s') = fst ` set (nk_scripts s)"
  shows "heap_ok s' w'"
proof -
  note h = assms(1) [unfolded heap_ok_def] and w = assms(2) [unfolded same_heap_def]
  have "set (w_catalog w') \<subseteq> live w'" "set (w_registry w') \<subseteq> live w'" "fst ` set (w_path w') \<subseteq> live w'"
    using h w by (metis Un_absorb1 order_trans)+
  with h w assms(3) show ?thesis unfolding heap_ok_def by simp
qed

lemma nb_inv_live:
  assumes "nb_inv s w" "js_get (nk_scripts s) j = Some d"
  shows "sd_script d = j \<and> sd_scriptKey d = j \<and> j \<in> live w"
proof -
  have "j \<in> fst ` set (nk_scripts s)" using assms(2) by (rule keys_get_Some)
  moreover from assms(1) have ok: "nb_ok s" and "live w = fst ` set (nk_scripts s)" by (auto simp: nb_inv_def heap_ok_def)
  ultimately have "j \<in> live w" by simp
  with nb_ok_script [OF ok assms(2)] show ?thesis by simp
qed

lemma nb_inv_scripts_live: "nb_inv s w \<Longrightarrow> scripts_live (nk_scripts s) w"
  unfolding scripts_live_def using nb_inv_live by fastforce

lemma scripts_live_did: "scripts_live scripts w \<Longrightarrow> live w' = live w \<Longrightarrow> scripts_live scripts w'"
  by (simp add: scripts_live_def)

text \<open>A change that leaves the structure alone.\<close>

lemma nb_inv_skel:
  assumes "nb_inv s w" "same_heap w w'" "skel_of (nk_scripts s') = skel_of (nk_scripts s)" "jsmap_ok (nk_scripts s')"
    "nk_scriptFolders s' = nk_scriptFolders s" "nk_uncommittedScriptId s' = nk_uncommittedScriptId s" "focus_ok s'"
  shows "nb_inv s' w'"
proof -
  have "nb_ok s'" by (rule nb_ok_skel [OF _ assms(3-6)]) (use assms(1) in \<open>simp add: nb_inv_def\<close>)
  moreover have "heap_ok s' w'"
    by (rule heap_ok_same [OF _ assms(2) skel_keys [OF assms(3)]]) (use assms(1) in \<open>simp add: nb_inv_def\<close>)
  ultimately show ?thesis using assms unfolding nb_inv_def by (simp add: unique_names_def prefixed_def)
qed

end
