(* ===== verification/Notebook_Kept_Texts.thy ===== *)
theory Notebook_Kept_Texts
  imports Notebook_Logic
begin

text \<open>The actions that leave the structure of a notebook alone keep its invariant and the agreement with the disk:
  selections, the analysis of scripts, updates of the editor, registrations, texts and diffs.\<close>

section \<open>Before an action\<close>

definition ready :: "nb_env \<Rightarrow> nat set \<Rightarrow> NotebookState \<Rightarrow> nb_world \<Rightarrow> script_store \<Rightarrow> bool" where
  "ready e X s w st \<longleftrightarrow> nb_inv s w \<and> (e_active e \<longrightarrow> persisted X s w st)"

lemma ready_inv: "ready e X s w st \<Longrightarrow> nb_inv s w"
  by (simp add: ready_def)

lemma kept_same:
  assumes "ready e X s w st" "did [] w w'" "skel_of (nk_scripts s') = skel_of (nk_scripts s)" "jsmap_ok (nk_scripts s')"
    "nk_scriptFolders s' = nk_scriptFolders s" "nk_uncommittedScriptId s' = nk_uncommittedScriptId s" "focus_ok s'"
  shows "kept e X w st s' w'"
proof (rule keptI [where ts = "[]"])
  show "nb_inv s' w'" using nb_inv_skel [OF ready_inv [OF assms(1)] did_heap [OF assms(2)]] assms(3-7) by blast
  show "w_tasks w' = w_tasks w @ sched e []" using did_tasks [OF assms(2)] by simp
  show "\<exists>vd. disk_tasks [] (disk_of st) = Some vd \<and> disk_agrees X s' w' vd" if "e_active e"
    using assms(1) that did_text [OF assms(2)] assms(5,6) by (simp add: ready_def persisted_disk disk_agrees_def)
qed

lemma kept_refl: "ready e X s w st \<Longrightarrow> kept e X w st s w"
  by (rule kept_same [where s = s]) (simp_all add: ready_def nb_inv_def nb_ok_iff)

lemma ready_scripts: "ready e X s w st \<Longrightarrow> jsmap_ok (nk_scripts s)"
  by (simp add: ready_def nb_inv_iff)

lemma ready_focus: "ready e X s w st \<Longrightarrow> focus_ok s"
  by (simp add: ready_def nb_inv_iff)

lemma ready_folders: "ready e X s w st \<Longrightarrow> folders_ok (nk_scriptFolders s)"
  by (simp add: ready_def nb_inv_iff)

lemma ready_live: "ready e X s w st \<Longrightarrow> js_get (nk_scripts s) j = Some d \<Longrightarrow> sd_script d \<in> live w"
  using nb_inv_live [OF ready_inv] by blast

lemma ready_lookup: "ready e X s w st \<Longrightarrow> scripts_live (nk_scripts s) w"
  by (rule nb_inv_scripts_live [OF ready_inv])

section \<open>Selections\<close>

definition file_ok :: "ScriptFolder \<Rightarrow> string \<Rightarrow> bool" where
  "file_ok p f \<longleftrightarrow> (if pg_scripts p = [] then f = [] else js_has (pg_scripts p) f)"

lemma focus_ok_iff: "focus_ok s \<longleftrightarrow>
    (\<exists>p. js_get (nk_scriptFolders s) (sf_folderName (nk_scriptFocus s)) = Some p \<and> file_ok p (sf_fileName (nk_scriptFocus s)))"
  by (cases "js_get (nk_scriptFolders s) (sf_folderName (nk_scriptFocus s))") (simp_all add: focus_ok_def file_ok_def)

lemma has_key: "k \<in> fst ` set m \<Longrightarrow> \<exists>v. js_get m k = Some v"
  using keys_get_None [of m k] by auto

lemma file_ok_keys: "file_ok p f \<longleftrightarrow> (if pg_scripts p = [] then f = [] else f \<in> fst ` set (pg_scripts p))"
  unfolding file_ok_def using keys_get_None by metis

lemma or_else_at: "xs \<noteq> [] \<Longrightarrow> or_else (js_at xs 0) d \<in> set xs"
  by (cases "js_at xs 0") (auto simp: or_else_def js_at_0 dest: js_at_Some)

lemma file_names_Nil [simp]: "getSortedScriptFileNames e p = [] \<longleftrightarrow> pg_scripts p = []"
  by (metis set_file_names set_empty image_is_empty)

lemma file_ok_first: "file_ok p (first_file e (Some p))"
proof (cases "pg_scripts p = []")
  case True
  then have "getSortedScriptFileNames e p = []" by simp
  with True show ?thesis by (simp add: file_ok_keys first_file_def or_else_def js_at_def)
next
  case False
  then have "getSortedScriptFileNames e p \<noteq> []" by simp
  from or_else_at [OF this] False show ?thesis by (simp add: file_ok_keys first_file_def)
qed

lemma selected_folder:
  assumes "focus_ok s" "folders_ok (nk_scriptFolders s)"
  obtains p where "getSelectedScriptFolder e s = Some p"
    "js_get (nk_scriptFolders s) (sf_folderName (nk_scriptFocus s)) = Some p"
    "pg_folderName p = sf_folderName (nk_scriptFocus s)" "file_ok p (sf_fileName (nk_scriptFocus s))"
proof -
  from assms(1) obtain p where p: "js_get (nk_scriptFolders s) (sf_folderName (nk_scriptFocus s)) = Some p"
    "file_ok p (sf_fileName (nk_scriptFocus s))" by (auto simp: focus_ok_iff)
  from folders_okD [OF assms(2) p(1)] have "sf_folderName (nk_scriptFocus s) \<noteq> []" "pg_folderName p = sf_folderName (nk_scriptFocus s)"
    by auto
  with p show thesis by (intro that [of p]) (simp_all add: getSelectedScriptFolder_def)
qed

lemma focus_on_kept:
  assumes rd: "ready e X s w st" and p: "js_get (nk_scriptFolders s) k = Some p" "file_ok p f"
  shows "post a (focus_on k f s w) (kept e X w st)"
proof -
  obtain s' w' where c: "clearSemanticUserFocus s w = (s', w')" by fastforce
  from quiet_clear [OF c] have q: "quiet w w'" "s' = s\<lparr>nk_semanticUserFocus := None\<rparr>" by auto
  show ?thesis unfolding focus_on_def c
    by (simp, rule kept_same [OF rd quiet_did [OF q(1)]]) (use p ready_scripts [OF rd] in \<open>simp_all add: q focus_ok_iff\<close>)
qed

lemma select_folder_kept:
  assumes rd: "ready e X s w st"
  shows "post a (select_script_folder e k s w) (kept e X w st)"
proof (cases "js_get (nk_scriptFolders s) k")
  case None
  then show ?thesis using kept_refl [OF rd] by (simp add: select_script_folder_def)
next
  case (Some p)
  with focus_on_kept [OF rd Some file_ok_first] show ?thesis by (simp add: select_script_folder_def)
qed

lemma select_folder_at_kept:
  assumes rd: "ready e X s w st"
  shows "post a (select_folder_at e step s w) (kept e X w st)"
proof -
  let ?ns = "getSortedScriptFolderNames e (nk_scriptFolders s)" and ?current = "sf_folderName (nk_scriptFocus s)"
  define k where "k = or_else (js_at ?ns (step (js_index_of ?ns ?current) (int (length ?ns)))) ?current"
  from ready_focus [OF rd] have "?current \<in> fst ` set (nk_scriptFolders s)"
    by (auto simp: focus_ok_iff intro: keys_get_Some)
  with or_else_in [of ?ns "step (js_index_of ?ns ?current) (int (length ?ns))" ?current]
  have "k \<in> fst ` set (nk_scriptFolders s)" unfolding k_def by (metis insert_absorb set_folder_names)
  from has_key [OF this] obtain p where p: "js_get (nk_scriptFolders s) k = Some p" by blast
  show ?thesis using focus_on_kept [OF rd p file_ok_first] p by (simp add: select_folder_at_def Let_def flip: k_def)
qed

lemma select_script_at_kept:
  assumes rd: "ready e X s w st"
  shows "post a (select_script_at e step s w) (kept e X w st)"
proof -
  obtain p where p: "getSelectedScriptFolder e s = Some p"
    "js_get (nk_scriptFolders s) (sf_folderName (nk_scriptFocus s)) = Some p" "file_ok p (sf_fileName (nk_scriptFocus s))"
    by (rule selected_folder [OF ready_focus [OF rd] ready_folders [OF rd]]) blast
  let ?fs = "getSortedScriptFileNames e p" and ?current = "sf_fileName (nk_scriptFocus s)"
  define i where "i = step (js_index_of ?fs ?current) (int (length ?fs))"
  have "file_ok p (or_else (js_at ?fs i) ?current)"
  proof (cases "js_at ?fs i")
    case None
    with p(3) show ?thesis by (simp add: or_else_def)
  next
    case (Some f)
    from js_at_Some [OF this] have "f \<in> fst ` set (pg_scripts p)" by simp
    then show ?thesis by (auto simp: Some or_else_def file_ok_keys)
  qed
  from focus_on_kept [OF rd p(2) this] show ?thesis by (simp add: select_script_at_def p(1) Let_def i_def)
qed

lemma select_script_kept:
  assumes rd: "ready e X s w st"
  shows "post a (select_script e f s w) (kept e X w st)"
proof -
  obtain p where p: "getSelectedScriptFolder e s = Some p"
    "js_get (nk_scriptFolders s) (sf_folderName (nk_scriptFocus s)) = Some p"
    by (rule selected_folder [OF ready_focus [OF rd] ready_folders [OF rd]]) blast
  obtain s' w' where c: "clearSemanticUserFocus s w = (s', w')" by fastforce
  from quiet_clear [OF c] have q: "quiet w w'" "s' = s\<lparr>nk_semanticUserFocus := None\<rparr>" by auto
  show ?thesis
  proof (cases "js_get (pg_scripts p) f")
    case None
    then show ?thesis using kept_refl [OF rd] by (simp add: select_script_def p(1))
  next
    case (Some r)
    have "kept e X w st (s'\<lparr>nk_scriptFocus := (nk_scriptFocus s)\<lparr>sf_fileName := f\<rparr>\<rparr>) w'"
      by (rule kept_same [OF rd quiet_did [OF q(1)]])
        (use p Some ready_scripts [OF rd] in \<open>auto simp: q focus_ok_iff file_ok_def\<close>)
    then show ?thesis by (simp add: select_script_def p(1) Some c)
  qed
qed

lemma select_path_kept:
  assumes rd: "ready e X s w st"
  shows "post a (select_script_path k f s w) (kept e X w st)"
proof (cases "\<exists>p r. js_get (nk_scriptFolders s) k = Some p \<and> js_get (pg_scripts p) f = Some r")
  case True
  then obtain p r where p: "js_get (nk_scriptFolders s) k = Some p" "js_get (pg_scripts p) f = Some r" by blast
  then have "file_ok p f" by (auto simp: file_ok_def)
  from focus_on_kept [OF rd p(1) this] p show ?thesis by (simp add: select_script_path_def)
next
  case False
  then show ?thesis using kept_refl [OF rd] by (auto simp: select_script_path_def split: option.split)
qed

section \<open>Analysis and registrations\<close>

lemma ready_focus_ok: "ready e X s w st \<Longrightarrow> nk_scriptFolders s' = nk_scriptFolders s \<Longrightarrow> nk_scriptFocus s' = nk_scriptFocus s \<Longrightarrow>
    focus_ok s'"
  by (drule ready_focus) (simp add: focus_ok_iff)

text \<open>New data for a script, the structure kept.\<close>

lemma kept_data:
  assumes rd: "ready e X s w st" and did: "did [] w w'" and d: "js_get (nk_scripts s) j = Some d" "skel d' = skel d"
    and s': "nk_scripts s' = js_set (nk_scripts s) j d' \<or> nk_scripts s' = mark_outdated keep (js_set (nk_scripts s) j d')"
      "nk_scriptFolders s' = nk_scriptFolders s" "nk_uncommittedScriptId s' = nk_uncommittedScriptId s"
      "nk_scriptFocus s' = nk_scriptFocus s"
  shows "kept e X w st s' w'"
proof (rule kept_same [OF rd did])
  show "skel_of (nk_scripts s') = skel_of (nk_scripts s)"
    using s'(1) skel_of_set_same [OF d] by (metis skel_mark_outdated)
  show "jsmap_ok (nk_scripts s')" using s'(1) jsmap_ok_set [OF ready_scripts [OF rd]] by (metis jsmap_ok_mark_outdated)
qed (use s' ready_focus_ok [OF rd] in auto)

lemma mark_all_kept:
  "ready e X s w st \<Longrightarrow> kept e X w st (s\<lparr>nk_scripts := mark_outdated keep (nk_scripts s)\<rparr>) w"
  by (rule kept_same [where s = s]) (simp_all add: ready_scripts ready_focus_ok)

lemma register_kept:
  assumes rd: "ready e X s w st" and f: "\<And>d. skel (f d) = skel d"
  shows "post a (register_in key f s w) (kept e X w st)"
proof (cases "js_get (nk_scripts s) key")
  case None
  then show ?thesis using kept_refl [OF rd] by (simp add: register_in_def)
next
  case (Some d)
  have "kept e X w st (s\<lparr>nk_scripts := js_set (nk_scripts s) key (f d)\<rparr>) w"
    by (rule kept_data [OF rd did_refl Some f]) simp_all
  then show ?thesis by (simp add: register_in_def Some)
qed

lemma analyze_outdated_kept:
  assumes rd: "ready e X s w st"
  shows "post (core_accepts (e_core e)) (analyzeOutdatedScript e k s w) (kept e X w st)"
proof (cases "js_get (nk_scripts s) k")
  case None
  then show ?thesis using kept_refl [OF rd] by (simp add: analyzeOutdatedScript_def)
next
  case (Some d)
  show ?thesis
  proof (cases "sd_outdated d")
    case False
    then show ?thesis using kept_refl [OF rd] by (simp add: analyzeOutdatedScript_def Some)
  next
    case True
    show ?thesis
      apply (simp add: analyzeOutdatedScript_def Some True)
      apply (rule post_bind, rule post_analyze [OF ready_live [OF rd Some] ready_lookup [OF rd]])
      subgoal premises q for d' w'
      proof -
        obtain s1 w1 where c: "clearSemanticUserFocus s w' = (s1, w1)" by fastforce
        from quiet_clear [OF c] have c1: "quiet w w1" "s1 = s\<lparr>nk_semanticUserFocus := None\<rparr>"
          using quiet_trans [OF q(2)] by auto
        obtain f w2 where f: "derive_focus (c_cursorFocus (e_core e)) (sd_script d') w1 = (f, w2)" by fastforce
        from quiet_trans [OF c1(1) quiet_derive_focus [OF f]] have q2: "quiet w w2" .
        have "kept e X w st (s1\<lparr>nk_scripts := js_set (nk_scripts s) k d', nk_semanticUserFocus := f\<rparr>) w2"
          "kept e X w st (s1\<lparr>nk_scripts := js_set (nk_scripts s) k d'\<rparr>) w1"
          by (rule kept_data [OF rd quiet_did [OF q2] Some q(1)], simp_all add: c1)
            (rule kept_data [OF rd quiet_did [OF c1(1)] Some q(1)], simp_all add: c1)
        then show ?thesis by (simp add: c f Let_def)
      qed
      done
  qed
qed

lemma quiet_executable: "getExecutableQueryText e s d w = Return t w' \<Longrightarrow> quiet w w'"
proof -
  assume a: "getExecutableQueryText e s d w = Return t w'"
  obtain tx where tx: "script_toString (sd_script d) w = Return tx w"
    using a quiet_toString by (cases "script_toString (sd_script d) w") (auto simp: getExecutableQueryText_def)
  show ?thesis
  proof (cases "bf_analyzed (sd_buffers d) \<noteq> None \<and> \<not> sd_outdated d")
    case True
    with a show ?thesis
      by (cases "sd_visualizeQuery d") (auto simp: getExecutableQueryText_def tx quiet_refl split: if_splits)
  next
    case False
    obtain b w1 where b: "analyzeScript (e_core e) (sd_script d) w = (b, w1)" by fastforce
    let ?res = "resolveVisualizeQuery (e_core e) b tx (makeScriptLookup (nk_scripts s)) w1"
    obtain q w2 where q: "?res = Return q w2"
      using a False b by (cases ?res) (auto simp: getExecutableQueryText_def tx nb_finally_def)
    have "w2 = w1" by (rule quiet_resolve [OF q]) (rule quiet_lookup)
    then have "w' = destroyBuffers b w1"
      using a False b q by (cases q) (auto simp: getExecutableQueryText_def tx nb_finally_def split: if_splits)
    then show ?thesis using quiet_trans [OF quiet_analyzeScript [OF b] quiet_destroyBuffers] by simp
  qed
qed

text \<open>The registration of an output schema throws when a VISUALIZE statement cannot be resolved.\<close>

lemma installed_kept:
  assumes rd: "ready e X s w st" and q: "quiet w w'" and d: "js_get (nk_scripts s) j = Some d" "skel d' = skel d"
  shows "kept e X w st (installed j d' (s\<lparr>nk_semanticUserFocus := None\<rparr>)) w'"
  by (rule kept_data [OF rd quiet_did [OF q] d]) (auto simp: installed_def)

lemma output_schema_kept:
  assumes rd: "ready e X s w st"
  shows "post False (register_script_output_schema e key query tx cols s w) (kept e X w st)"
proof (cases "js_get (nk_scripts s) key")
  case None
  then show ?thesis using kept_refl [OF rd] by (simp add: register_script_output_schema_def)
next
  case (Some d)
  have quiet_kept: "quiet w w' \<Longrightarrow> kept e X w st s w'" for w'
    by (rule kept_same [OF rd quiet_did]) (simp_all add: ready_scripts [OF rd] ready_focus [OF rd])
  have analyzed: "post False (nb_bind (analyzeScriptData e (nk_scripts s) d (engine_call w1))
      (\<lambda>d' w. let (s', w) = clearSemanticUserFocus s w in Return (installed key d' s') w)) (kept e X w st)"
    if q: "quiet w w1" for w1
  proof (cases "analyzeScriptData e (nk_scripts s) d (engine_call w1)")
    case (Return d' w2)
    from analyzeScriptData_frame [OF Return] have d': "skel d' = skel d" "quiet (engine_call w1) w2" by auto
    obtain s3 w3 where c: "clearSemanticUserFocus s w2 = (s3, w3)" by fastforce
    from quiet_clear [OF c] have "quiet w w3" "s3 = s\<lparr>nk_semanticUserFocus := None\<rparr>"
      using q d'(2) quiet_engine_call quiet_trans by blast+
    with installed_kept [OF rd _ Some d'(1)] show ?thesis by (simp add: Return c)
  qed (simp add: post_def)
  show ?thesis
  proof (cases "getExecutableQueryText e s d w")
    case (Return exe w1)
    from quiet_executable [OF this] have q: "quiet w w1" .
    show ?thesis
      using analyzed [OF q] quiet_kept [OF q] quiet_kept [OF quiet_trans [OF q quiet_engine_call]] kept_refl [OF rd]
      by (simp add: register_script_output_schema_def Some Return post_def [of False "Raise _"])
  qed (use kept_refl [OF rd] in \<open>simp add: register_script_output_schema_def Some post_def [of False "Raise _"]\<close>)
qed

section \<open>A text is written\<close>

lemma agrees_iff: "agrees X T F v \<longleftrightarrow> (\<forall>k. v k = None \<longleftrightarrow> F k = None) \<and>
    (\<forall>k p m. F k = Some p \<longrightarrow> v k = Some m \<longrightarrow> page_agrees X T (js_get (pg_scripts p)) m)"
proof
  assume "agrees X T F v"
  then show "(\<forall>k. v k = None \<longleftrightarrow> F k = None) \<and>
      (\<forall>k p m. F k = Some p \<longrightarrow> v k = Some m \<longrightarrow> page_agrees X T (js_get (pg_scripts p)) m)"
    by (auto simp: agrees_dom elim: agrees_page)
next
  assume a: "(\<forall>k. v k = None \<longleftrightarrow> F k = None) \<and>
      (\<forall>k p m. F k = Some p \<longrightarrow> v k = Some m \<longrightarrow> page_agrees X T (js_get (pg_scripts p)) m)"
  show "agrees X T F v" unfolding agrees_def
  proof
    fix k show "rel_option (\<lambda>p m. page_agrees X T (js_get (pg_scripts p)) m) (F k) (v k)"
      using conjunct1 [OF a, THEN spec [of _ k]] conjunct2 [OF a, THEN spec [of _ k]]
      by (cases "F k"; cases "v k") simp_all
  qed
qed

lemma page_agrees_iff: "page_agrees X T R m \<longleftrightarrow> (\<forall>f. m f = None \<longleftrightarrow> R f = None) \<and>
    (\<forall>f r t. R f = Some r \<longrightarrow> m f = Some t \<longrightarrow> rf_scriptId r \<notin> X \<longrightarrow> js_get T (rf_scriptId r) = Some t)"
proof
  assume a: "page_agrees X T R m"
  have "rf_scriptId r \<notin> X \<longrightarrow> js_get T (rf_scriptId r) = Some t" if "R f = Some r" "m f = Some t" for f r t
  proof -
    from a have "rel_option (\<lambda>r t. rf_scriptId r \<notin> X \<longrightarrow> js_get T (rf_scriptId r) = Some t) (R f) (m f)"
      unfolding page_agrees_def by blast
    with that show ?thesis by simp
  qed
  with page_agrees_dom [OF a] show "(\<forall>f. m f = None \<longleftrightarrow> R f = None) \<and>
    (\<forall>f r t. R f = Some r \<longrightarrow> m f = Some t \<longrightarrow> rf_scriptId r \<notin> X \<longrightarrow> js_get T (rf_scriptId r) = Some t)" by blast
next
  assume a: "(\<forall>f. m f = None \<longleftrightarrow> R f = None) \<and>
    (\<forall>f r t. R f = Some r \<longrightarrow> m f = Some t \<longrightarrow> rf_scriptId r \<notin> X \<longrightarrow> js_get T (rf_scriptId r) = Some t)"
  show "page_agrees X T R m" unfolding page_agrees_def
  proof
    fix f show "rel_option (\<lambda>r t. rf_scriptId r \<notin> X \<longrightarrow> js_get T (rf_scriptId r) = Some t) (R f) (m f)"
      using conjunct1 [OF a, THEN spec [of _ f]] conjunct2 [OF a, THEN spec [of _ f]]
      by (cases "R f"; cases "m f") simp_all
  qed
qed

text \<open>Agreement for other texts and another set of edited scripts.\<close>

lemma agrees_texts:
  assumes "agrees X T F v"
    and "\<And>k p f r. F k = Some p \<Longrightarrow> js_get (pg_scripts p) f = Some r \<Longrightarrow> rf_scriptId r \<notin> Y \<Longrightarrow>
      rf_scriptId r \<notin> X \<and> js_get T' (rf_scriptId r) = js_get T (rf_scriptId r)"
  shows "agrees Y T' F v"
  unfolding agrees_iff
proof (intro conjI allI impI)
  show "v k = None \<longleftrightarrow> F k = None" for k by (rule agrees_dom [OF assms(1)])
  fix k p m assume k: "F k = Some p" "v k = Some m"
  then have "page_agrees X T (js_get (pg_scripts p)) m" using assms(1) unfolding agrees_iff by blast
  with assms(2) [OF k(1)] show "page_agrees Y T' (js_get (pg_scripts p)) m" unfolding page_agrees_iff by metis
qed

lemma agrees_write:
  assumes ag: "agrees X T F v" and p: "F k = Some p" "js_get (pg_scripts p) f = Some r"
    and t: "js_get T' (rf_scriptId r) = Some t"
    and other: "\<And>h. h \<noteq> rf_scriptId r \<Longrightarrow> js_get T' h = js_get T h"
    and only: "\<And>k' p' f' r'. F k' = Some p' \<Longrightarrow> js_get (pg_scripts p') f' = Some r' \<Longrightarrow>
      rf_scriptId r' = rf_scriptId r \<Longrightarrow> k' = k \<and> f' = f"
  obtains m where "v k = Some m" "agrees (X - {rf_scriptId r}) T' F (v(k \<mapsto> m(f \<mapsto> t)))"
proof -
  from agrees_page [OF ag p(1)] obtain m where m: "v k = Some m" "page_agrees X T (js_get (pg_scripts p)) m" by blast
  let ?Y = "X - {rf_scriptId r}"
  have "agrees ?Y T' F (v(k \<mapsto> m(f \<mapsto> t)))" unfolding agrees_iff
  proof (intro conjI allI impI)
    show "(v(k \<mapsto> m(f \<mapsto> t))) k' = None \<longleftrightarrow> F k' = None" for k' using agrees_dom [OF ag] p(1) by simp
    fix k' p' m' assume k': "F k' = Some p'" "(v(k \<mapsto> m(f \<mapsto> t))) k' = Some m'"
    show "page_agrees ?Y T' (js_get (pg_scripts p')) m'" unfolding page_agrees_iff
    proof (intro conjI allI impI)
      show "m' f' = None \<longleftrightarrow> js_get (pg_scripts p') f' = None" for f'
      proof (cases "k' = k")
        case True
        with k' p have "p' = p" "m' = m(f \<mapsto> t)" by auto
        with p(2) page_agrees_dom [OF m(2), of f'] show ?thesis by simp
      next
        case False
        with k'(2) have "v k' = Some m'" by simp
        with ag k'(1) have "page_agrees X T (js_get (pg_scripts p')) m'" unfolding agrees_iff by blast
        from page_agrees_dom [OF this] show ?thesis .
      qed
      fix f' r' t' assume f': "js_get (pg_scripts p') f' = Some r'" "m' f' = Some t'" "rf_scriptId r' \<notin> ?Y"
      show "js_get T' (rf_scriptId r') = Some t'"
      proof (cases "k' = k \<and> f' = f")
        case True
        with k' p have "p' = p" "m' = m(f \<mapsto> t)" by auto
        with True p(2) f' t show ?thesis by auto
      next
        case False
        with only [OF k'(1) f'(1)] have ne: "rf_scriptId r' \<noteq> rf_scriptId r" by blast
        obtain mm where mm: "v k' = Some mm" "mm f' = Some t'" using False k'(2) f'(2) m(1) by (auto split: if_splits)
        with ag k'(1) have "page_agrees X T (js_get (pg_scripts p')) mm" unfolding agrees_iff by blast
        with f'(1,3) mm(2) ne have "js_get T (rf_scriptId r') = Some t'" unfolding page_agrees_iff by blast
        with other [OF ne] show ?thesis by simp
      qed
    qed
  qed
  with m(1) that show thesis by blast
qed

lemma ready_disk: "ready e X s w st \<Longrightarrow> e_active e \<Longrightarrow>
    agrees X (w_text w) (js_get (nk_scriptFolders s)) (view st) \<and>
    (nk_uncommittedScriptId s \<notin> X \<longrightarrow> js_get (w_text w) (nk_uncommittedScriptId s) = Some (st_draft st))"
  by (simp add: ready_def persisted_def)

lemma ready_entry_not_draft:
  "ready e X s w st \<Longrightarrow> js_get (nk_scriptFolders s) k = Some p \<Longrightarrow> js_get (pg_scripts p) f = Some r \<Longrightarrow>
   rf_scriptId r \<noteq> nk_uncommittedScriptId s"
  using nb_ok_ref [of s k p f r] by (simp add: ready_def nb_inv_def)

lemma ready_entry_unique:
  assumes "ready e X s w st" "js_get (nk_scriptFolders s) k = Some p" "js_get (pg_scripts p) f = Some r"
    "js_get (nk_scriptFolders s) k' = Some p'" "js_get (pg_scripts p') f' = Some r'" "rf_scriptId r' = rf_scriptId r"
  shows "k' = k \<and> f' = f"
proof -
  have pa: "paths_ok (nk_scriptFolders s) (nk_scripts s) (nk_uncommittedScriptId s)"
    using assms(1) by (simp add: ready_def nb_inv_iff)
  have "entry (nk_scriptFolders s) k f r" "entry (nk_scriptFolders s) k' f' r'" using assms by (auto simp: entry_def)
  from entry_unique [OF pa this(2,1) assms(6)] show ?thesis .
qed

text \<open>The structure stays, one text changes (or not), and it is written to the script's path.\<close>

lemma kept_text:
  assumes rd: "ready e X s w st" and heap: "same_heap w w1" "w_tasks w1 = w_tasks w"
    and tx: "js_get (w_text w1) j = Some t" "\<And>h. h \<noteq> j \<Longrightarrow> js_get (w_text w1) h = js_get (w_text w) h"
    and d: "js_get (nk_scripts s) j = Some d" "skel d' = skel d"
    and s': "skel_of (nk_scripts s') = skel_of (nk_scripts s)" "jsmap_ok (nk_scripts s')"
      "nk_scriptFolders s' = nk_scriptFolders s" "nk_uncommittedScriptId s' = nk_uncommittedScriptId s"
      "nk_scriptFocus s' = nk_scriptFocus s"
  shows "kept e (X - {j}) w st s' (write_script_text e nid d' t w1)"
proof -
  have ok: "nb_ok s" using rd by (simp add: ready_def nb_inv_def)
  from nb_ok_data [OF ok d(1)] have data: "data_ok (nk_scriptFolders s) (nk_uncommittedScriptId s) j d'"
    by (simp add: data_ok_skel [OF d(2)])
  define task :: WriteTask where "task = (if j = nk_uncommittedScriptId s then WRITE_SCRIPT_DRAFT nid t
    else WRITE_SCRIPT nid (sd_folderName d') (sd_fileName d') t)"
  have nonempty: "sd_folderName d' \<noteq> [] \<and> sd_fileName d' \<noteq> []" if "j \<noteq> nk_uncommittedScriptId s"
  proof -
    from data that obtain p r where p: "js_get (nk_scriptFolders s) (sd_folderName d') = Some p"
      "js_get (pg_scripts p) (sd_fileName d') = Some r" by (auto simp: data_ok_iff)
    with nb_ok_page [OF ok p(1)] nb_ok_ref [OF ok p] show ?thesis by simp
  qed
  obtain key where wr: "write_script_text e nid d' t w1 = nb_write e key task w1"
  proof (cases "j = nk_uncommittedScriptId s")
    case True
    with data show thesis by (intro that [of "groupDraftWrites nid"]) (simp add: write_script_text_def task_def data_ok_iff)
  next
    case False
    with nonempty [OF False] show thesis
      by (intro that [of "groupScriptWrites nid (sd_folderName d') (sd_fileName d')"]) (simp add: write_script_text_def task_def)
  qed
  have same: "same_heap w (nb_write e key task w1)" by (rule same_heap_trans [OF heap(1) did_heap [OF did_write]])
  have foc: "focus_ok s'" by (rule ready_focus_ok [OF rd s'(3,5)])
  show ?thesis unfolding wr
  proof (rule keptI [where ts = "[task]"])
    show "nb_inv s' (nb_write e key task w1)" by (rule nb_inv_skel [OF ready_inv [OF rd] same s'(1-4) foc])
    show "w_tasks (nb_write e key task w1) = w_tasks w @ sched e [task]"
      using did_tasks [OF did_write] heap(2) by simp
    assume act: "e_active e"
    note disk = ready_disk [OF rd act]
    show "\<exists>vd. disk_tasks [task] (disk_of st) = Some vd \<and> disk_agrees (X - {j}) s' (nb_write e key task w1) vd"
    proof (cases "j = nk_uncommittedScriptId s")
      case True
      have "agrees (X - {j}) (w_text w1) (js_get (nk_scriptFolders s)) (view st)"
        by (rule agrees_texts [OF conjunct1 [OF disk]]) (use tx(2) ready_entry_not_draft [OF rd] True in auto)
      with True tx(1) show ?thesis by (simp add: task_def disk_of_def disk_agrees_def s')
    next
      case False
      with data obtain p r where p: "js_get (nk_scriptFolders s) (sd_folderName d') = Some p"
        "js_get (pg_scripts p) (sd_fileName d') = Some r" "rf_scriptId r = j" by (auto simp: data_ok_iff)
      have t: "js_get (w_text w1) (rf_scriptId r) = Some t" "\<And>h. h \<noteq> rf_scriptId r \<Longrightarrow> js_get (w_text w1) h = js_get (w_text w) h"
        using tx p(3) by simp_all
      obtain m where "view st (sd_folderName d') = Some m"
        "agrees (X - {j}) (w_text w1) (js_get (nk_scriptFolders s)) ((view st)(sd_folderName d' \<mapsto> m(sd_fileName d' \<mapsto> t)))"
        by (rule agrees_write [OF conjunct1 [OF disk] p(1,2) t, unfolded p(3)])
          (use ready_entry_unique [OF rd p(1,2), unfolded p(3)] in blast)+
      with False disk tx(2) [of "nk_uncommittedScriptId s"] show ?thesis
        by (simp add: task_def disk_of_def disk_agrees_def s' or_else_def)
    qed
  qed
qed

section \<open>Updates of the editor\<close>

lemma drop_update_kept:
  assumes rd: "ready e X s w st"
  shows "post a (drop_update u s w) (kept e X w st)"
proof -
  let ?w = "destroy_option (map_option fst (up_completion u)) (destroy_option (up_cursor u) (destroyBuffers (up_buffers u) w))"
  obtain s' w' where c: "clearSemanticUserFocus s ?w = (s', w')" by fastforce
  have "quiet w w'" using quiet_clear [OF c] by (meson quiet_trans quiet_destroyBuffers quiet_destroy_option)
  from kept_same [OF rd quiet_did [OF this]] have "kept e X w st s' w'"
    using quiet_clear [OF c] ready_scripts [OF rd] ready_focus_ok [OF rd] by simp
  then show ?thesis by (simp add: drop_update_def Let_def c)
qed

lemma quiet_diff_update: "diff_update d u w = (fu, w') \<Longrightarrow> quiet w w'"
  by (auto simp: diff_update_def Let_def split: if_splits option.splits prod.splits
      intro!: quiet_intros intro: quiet_trans [OF _ quiet_destroy_option] quiet_destroy_option quiet_destroyBuffers)

lemma quiet_update_focus: "update_focus c fu h focus w = (r, w') \<Longrightarrow> quiet w w'"
  by (auto simp: update_focus_def quiet_intros split: option.splits FocusUpdate.splits
      dest!: quiet_derive_focus intro: quiet_trans [OF quiet_destroy_focus])

lemma post_quiet_rotate:
  "(\<And>log' w'. quiet w w' \<Longrightarrow> post a (f log' w') Q) \<Longrightarrow> post a (case rotateScriptStatistics log b w of (log', w') \<Rightarrow> f log' w') Q"
  using quiet_rotate by (cases "rotateScriptStatistics log b w") fastforce

lemma post_derive:
  assumes "scripts_live scripts w" "\<And>r. Q r w"
  shows "post a (deriveScriptAnnotations c b tx (makeScriptLookup scripts) w) Q"
  using derive_returns [OF assms(1)] assms(2) by (metis post_Return)

lemma post_addScript:
  assumes "h \<in> live w" "\<And>w'. quiet w w' \<Longrightarrow> Q () w'"
  shows "post (core_accepts c) (registry_addScript c h w) Q"
proof (cases "registry_addScript c h w")
  case (Return u w')
  with assms(2) quiet_addScript [OF Return] show ?thesis by simp
qed (use assms(1) in \<open>auto simp: post_def registry_addScript_def live_iff core_accepts_def split: if_splits\<close>)

lemma post_loadScript:
  assumes "h \<in> live w" "\<And>w'. quiet w w' \<Longrightarrow> Q () w'"
  shows "post (core_accepts c) (catalog_loadScript c h w) Q"
proof (cases "catalog_loadScript c h w")
  case (Return u w')
  with assms(2) quiet_loadScript [OF Return] show ?thesis by simp
qed (use assms(1) in \<open>auto simp: post_def catalog_loadScript_def live_iff core_accepts_def split: if_splits\<close>)

lemma post_quiet_string:
  assumes "h \<in> live w" "\<And>t. js_get (w_text w) h = Some t \<Longrightarrow> Q t w"
  shows "post a (script_toString h w) Q"
  using live_text [OF assms(1)] assms(2) by (auto simp: script_toString_def)

lemma quiet_tasks: "quiet w w' \<Longrightarrow> w_tasks w' = w_tasks w"
  by (simp add: quiet_def w_tasks_def)

lemma quiet_text: "quiet w w' \<Longrightarrow> w_text w' = w_text w"
  by (simp add: quiet_def)

text \<open>An update for a script of the notebook persists its text.\<close>

definition writes_text :: "DashQLProcessorUpdate \<Rightarrow> NotebookState \<Rightarrow> nat set" where
  "writes_text u s = (case js_get (nk_scripts s) (up_scriptKey u) of
     Some prev \<Rightarrow> if up_script u = Some (sd_script prev) then {up_scriptKey u} else {} | None \<Rightarrow> {})"

lemma update_kept:
  assumes rd: "ready e X s w st"
  shows "post (core_accepts (e_core e)) (update_from_processor e u s w) (kept e (X - writes_text u s) w st)"
proof (cases "\<exists>prev. js_get (nk_scripts s) (up_scriptKey u) = Some prev \<and> up_script u = Some (sd_script prev)")
  case False
  then have "writes_text u s = {}" by (auto simp: writes_text_def split: option.split)
  with False drop_update_kept [OF rd] show ?thesis by (auto simp: update_from_processor_def split: option.split)
next
  case True
  then obtain prev where prev: "js_get (nk_scripts s) (up_scriptKey u) = Some prev" "up_script u = Some (sd_script prev)" by blast
  from nb_inv_live [OF ready_inv [OF rd] prev(1)] have k: "sd_script prev = up_scriptKey u" by blast
  note lv = ready_live [OF rd prev(1)]
  have live: "sd_script prev \<in> live x" "scripts_live (nk_scripts s) x" if "quiet w x" for x
    using lv ready_lookup [OF rd] quiet_live [OF that] by (simp_all add: scripts_live_def)
  have written: "writes_text u s = {up_scriptKey u}" by (simp add: writes_text_def prev)
  obtain fu w1 where 1: "diff_update prev u w = (fu, w1)" by fastforce
  note q1 = quiet_diff_update [OF 1]
  have last: "post a (nb_bind (script_toString (sd_script d) wx) (\<lambda>sql w. Return s' (write_script_text e nid d sql w)))
      (kept e (X - {up_scriptKey u}) w st)"
    if "quiet w wx" "skel d = skel prev" "nk_scripts s' = js_set (nk_scripts s) (up_scriptKey u) d \<or>
        nk_scripts s' = mark_outdated keep (js_set (nk_scripts s) (up_scriptKey u) d)"
      "nk_scriptFolders s' = nk_scriptFolders s" "nk_uncommittedScriptId s' = nk_uncommittedScriptId s"
      "nk_scriptFocus s' = nk_scriptFocus s" for a wx d s' keep nid
  proof (rule post_bind, rule post_quiet_string)
    have h: "sd_script d = up_scriptKey u" using that(2) k by (simp add: skel_def)
    then show "sd_script d \<in> live wx" using live(1) [OF that(1)] k by simp
    fix t assume "js_get (w_text wx) (sd_script d) = Some t"
    then show "post a (Return s' (write_script_text e nid d t wx)) (kept e (X - {up_scriptKey u}) w st)"
      unfolding post_Return h
      by (intro kept_text [OF rd did_heap [OF quiet_did [OF that(1)]] quiet_tasks [OF that(1)] _ _ prev(1) that(2)])
        (use that skel_of_set_same [OF prev(1) that(2)] jsmap_ok_set [OF ready_scripts [OF rd]] in
          \<open>auto simp: quiet_text [OF that(1)]\<close>)
  qed
  show ?thesis
    apply (simp add: update_from_processor_def prev 1 written)
    apply (rule post_bind, rule post_script_result [OF live(1) [OF q1]])
    apply (rule post_quiet_rotate)
    apply (rule post_bind, rule post_quiet_string)
     apply (meson live(1) q1 quiet_trans)
    apply (rule post_bind, rule post_derive)
     apply (meson live(2) q1 quiet_trans)
    subgoal premises q for b w2 log w3 t r
    proof -
      from q q1 have q3: "quiet w w3" by (meson quiet_trans)
      obtain defs vq where r: "r = (defs, vq)" by fastforce
      let ?d = "prev\<lparr>sd_buffers := up_buffers u, sd_outdated := False, sd_cursor := up_cursor u,
                  sd_completion := up_completion u, sd_pendingDiff := up_pendingDiff u, sd_statistics := log,
                  sd_tableDefs := defs, sd_visualizeQuery := vq\<rparr>"
      have d: "skel ?d = skel prev" by (simp add: skel_def)
      obtain f w4 where f: "update_focus (e_core e) fu (sd_script prev) (nk_semanticUserFocus s) w3 = (f, w4)" by fastforce
      from quiet_trans [OF q3 quiet_update_focus [OF f]] have q4: "quiet w w4" .
      let ?s = "s\<lparr>nk_scripts := js_set (nk_scripts s) (up_scriptKey u) ?d, nk_semanticUserFocus := f\<rparr>"
      show ?thesis
      proof (cases "up_newBuffers u")
        case True
        show ?thesis
          apply (simp add: r f Let_def True)
          apply (rule post_bind, rule post_addScript [OF live(1) [OF q4]])
          apply (rule post_bind, rule post_loadScript [OF live(1)], erule quiet_trans [OF q4])
          subgoal premises q for w5 w6
            using last [OF quiet_trans [OF quiet_trans [OF q4 q(1)] q(2)] d,
                of "?s\<lparr>nk_scripts := mark_outdated (\<lambda>k. False) (nk_scripts ?s)\<rparr>" "\<lambda>k. False"] by simp
          done
      next
        case False
        show ?thesis
          apply (simp add: r f Let_def False)
          apply (rule post_bind, rule post_addScript [OF live(1) [OF q4]])
          subgoal premises q for w5
            using last [OF quiet_trans [OF q4 q] d, of ?s] by simp
          done
      qed
    qed
    done
qed

section \<open>Texts and diffs\<close>

text \<open>A script's text is replaced, whatever happened to buffers before.\<close>

lemma rewrite_kept:
  assumes rd: "ready e X s w0 st" and q: "quiet w0 w" and d: "js_get (nk_scripts s) key = Some d"
  shows "post (core_accepts (e_core e)) (rewrite_script e key d t pending s w) (kept e (X - {key}) w0 st)"
proof -
  from nb_inv_live [OF ready_inv [OF rd] d] have k: "sd_script d = key" by blast
  let ?w1 = "w\<lparr>w_text := js_set (w_text w) (sd_script d) t\<rparr>"
  have lv: "sd_script d \<in> live w" using ready_live [OF rd d] quiet_live [OF q] by simp
  have heap: "same_heap w0 ?w1" by (rule same_heap_trans [OF did_heap [OF quiet_did [OF q]] same_heap_replace [OF lv]])
  then have live: "live ?w1 = live w0" by (simp add: same_heap_def)
  show ?thesis unfolding rewrite_script_def
    apply (rule post_bind, rule post_replace [OF lv])
    apply (rule post_bind, rule post_analyze)
      apply (use ready_live [OF rd d] live in simp)
     apply (rule scripts_live_did [OF ready_lookup [OF rd] live])
    subgoal premises a for d' w2
    proof -
      let ?d = "d'\<lparr>sd_pendingDiff := pending\<rparr>"
      have sk: "skel ?d = skel d" using a(1) by (simp add: skel_def)
      then have h: "sd_script d' = key" using k by (simp add: skel_def)
      obtain s3 w3 where c: "clearSemanticUserFocus s w2 = (s3, w3)" by fastforce
      from quiet_clear [OF c] have q3: "quiet ?w1 w3" "s3 = s\<lparr>nk_semanticUserFocus := None\<rparr>"
        using quiet_trans [OF a(2)] by auto
      have text3: "js_get (w_text w3) h' = (if h' = key then Some t else js_get (w_text w0) h')" for h'
        using quiet_text [OF q3(1)] quiet_text [OF q] by (simp add: k js_get_set)
      have tasks: "w_tasks w3 = w_tasks w0" using quiet_tasks [OF q3(1)] quiet_tasks [OF q] by (simp add: w_tasks_def)
      have "kept e (X - {key}) w0 st (installed key ?d s3) (write_script_text e (nk_notebookId s) ?d t w3)"
        by (rule kept_text [OF rd same_heap_trans [OF heap did_heap [OF quiet_did [OF q3(1)]]] tasks _ _ d sk])
          (use q3(2) skel_of_set_same [OF d sk] jsmap_ok_set [OF ready_scripts [OF rd]] in \<open>simp_all add: text3 installed_def\<close>)
      then show ?thesis by (simp add: c h script_toString_def text3 q3(2) Let_def)
    qed
    done
qed

lemma quiet_pending: "computePendingDiff c h t prior w = (r, w') \<Longrightarrow> quiet w w'"
  by (auto simp: computePendingDiff_def quiet_intros split: if_splits prod.splits
      dest!: quiet_new_buffer intro: quiet_trans [OF quiet_engine_call])

lemma kept_less: "kept e (X - Y) w st s' w' \<Longrightarrow> kept e X w st s' w'"
proof -
  have "persisted X s' w' st'" if "persisted (X - Y) s' w' st'" for st'
    using that agrees_texts [where X = "X - Y" and Y = X] unfolding persisted_def by blast
  then show "kept e (X - Y) w st s' w' \<Longrightarrow> kept e X w st s' w'" unfolding kept_def by blast
qed

lemma post_less: "post a r (kept e (X - Y) w st) \<Longrightarrow> post a r (kept e X w st)"
  by (erule post_weaken) (rule kept_less)

lemma set_text_kept:
  assumes rd: "ready e X s w st"
  shows "post (core_accepts (e_core e)) (set_script_text e key t diff s w) (kept e X w st)"
proof (cases "js_get (nk_scripts s) key")
  case None
  then show ?thesis using kept_refl [OF rd] by (simp add: set_script_text_def)
next
  case (Some d)
  show ?thesis
    apply (simp add: set_script_text_def Some)
    apply (rule post_bind, rule post_quiet_string [OF ready_live [OF rd Some]])
    subgoal premises p for prior
    proof -
      obtain pending w1 where 1: "(if diff \<and> t \<noteq> prior then computePendingDiff (e_core e) (sd_script d) t prior w else (None, w)) = (pending, w1)"
        by fastforce
      then have "quiet w w1" using quiet_pending by (auto simp: quiet_refl split: if_splits)
      from post_less [OF rewrite_kept [OF rd quiet_trans [OF this quiet_destroy_option] Some]]
      show ?thesis unfolding 1 by simp
    qed
    done
qed

lemma accept_kept:
  assumes rd: "ready e X s w st"
  shows "post a (accept_pending_diff key s w) (kept e X w st)"
proof (cases "\<exists>d p b. js_get (nk_scripts s) key = Some d \<and> sd_pendingDiff d = Some (p, b)")
  case True
  then obtain d p b where d: "js_get (nk_scripts s) key = Some d" "sd_pendingDiff d = Some (p, b)" by blast
  have "kept e X w st (s\<lparr>nk_scripts := js_set (nk_scripts s) key (d\<lparr>sd_pendingDiff := None\<rparr>)\<rparr>) (destroy_buffer b w)"
    by (rule kept_data [OF rd quiet_did [OF quiet_destroy_buffer] d(1), where d' = "d\<lparr>sd_pendingDiff := None\<rparr>"])
      (simp_all add: skel_def)
  with d show ?thesis by (simp add: accept_pending_diff_def)
next
  case False
  then show ?thesis using kept_refl [OF rd] by (auto simp: accept_pending_diff_def split: option.split)
qed

lemma reject_kept:
  assumes rd: "ready e X s w st"
  shows "post (core_accepts (e_core e)) (reject_pending_diff e key s w) (kept e X w st)"
proof (cases "\<exists>d p b. js_get (nk_scripts s) key = Some d \<and> sd_pendingDiff d = Some (p, b)")
  case True
  then obtain d p b where d: "js_get (nk_scripts s) key = Some d" "sd_pendingDiff d = Some (p, b)" by blast
  from post_less [OF rewrite_kept [OF rd quiet_destroy_buffer d(1)]] d show ?thesis by (simp add: reject_pending_diff_def)
next
  case False
  then show ?thesis using kept_refl [OF rd] by (auto simp: reject_pending_diff_def split: option.split)
qed

end
