(* ===== verification/Notebook_Changes.thy ===== *)
theory Notebook_Changes
  imports Notebook_Kept_Texts
begin

text \<open>Scripts that come and go: the invariant after a script was created under a new path, and after the scripts
  without an entry were destroyed.\<close>

section \<open>Creation\<close>

lemma js_has_key: "js_has m k \<longleftrightarrow> k \<in> fst ` set m"
  by (simp only: keys_get_None not_not)

lemma live_create: "live (snd (createScript w)) = insert (w_nextScript w) (live w)"
  by (simp add: createScript_def live_def)

lemma heap_ok_create:
  assumes "heap_ok s w" "same_heap w w0" "createScript w0 = (key, w1)" "same_heap w1 w2"
    "fst ` set (nk_scripts s') = insert key (fst ` set (nk_scripts s))"
  shows "heap_ok s' w2"
proof -
  from assms(1,2) have h0: "heap_ok s w0" by (rule heap_ok_same) simp
  from assms(3) have key: "key = w_nextScript w0"
    and w1: "w1 = w0\<lparr>w_text := js_set (w_text w0) key [], w_nextScript := key + 1\<rparr>" by (auto simp: createScript_def)
  let ?s1 = "s\<lparr>nk_scripts := nk_scripts s'\<rparr>"
  have l: "live w1 = insert key (live w0)" using live_create [of w0] assms(3) by (simp add: key)
  note h = h0 [unfolded heap_ok_def]
  have "jsmap_ok (w_text w1)" using h by (simp add: w1)
  moreover have "\<forall>h \<in> live w1. h < w_nextScript w1" using h unfolding l by (simp add: w1 key less_SucI)
  moreover have "set (w_catalog w1) \<subseteq> live w1" "set (w_registry w1) \<subseteq> live w1" "fst ` set (w_path w1) \<subseteq> live w1"
    unfolding l using conjunct2 [OF conjunct2 [OF conjunct2 [OF conjunct2 [OF h]]]] by (simp_all add: w1 subset_insertI2)
  moreover have "live w1 = fst ` set (nk_scripts s')" using h l assms(5) by simp
  ultimately have "heap_ok ?s1 w1" unfolding heap_ok_def by (simp add: w1)
  from heap_ok_same [OF this assms(4)] show ?thesis by simp
qed

lemma create_fresh:
  assumes "heap_ok s w" "same_heap w w0" "createScript w0 = (key, w1)"
  shows "js_get (nk_scripts s) key = None \<and> 0 < key \<and> key \<notin> live w"
proof -
  from assms(1,2) have h0: "heap_ok s w0" by (rule heap_ok_same) simp
  from assms(3) have key: "key = w_nextScript w0" by (auto simp: createScript_def)
  from h0 have "0 < key" "key \<notin> live w0" "live w0 = fst ` set (nk_scripts s)" by (auto simp: heap_ok_def key)
  moreover have "live w0 = live w" using assms(2) by (simp add: same_heap_def)
  ultimately show ?thesis by (simp add: keys_get_None)
qed

text \<open>A script was created and entered at \<open>(k, f)\<close>.\<close>

lemma created_inv:
  assumes inv: "nb_inv s w" and heap: "same_heap w w0" "createScript w0 = (key, w1)" "same_heap w1 w2"
    and sc: "jsmap_ok (nk_scripts s')" "\<And>j. skel_of (nk_scripts s') j = (if j = key then Some (key, key, k, f) else skel_of (nk_scripts s) j)"
    and uid: "nk_uncommittedScriptId s' = nk_uncommittedScriptId s" and f: "f \<noteq> []"
    and fo: "folders_ok (nk_scriptFolders s')" "names_ok (nk_scriptFolders s')" "focus_ok s'"
    and ent: "\<And>k' f' r'. entry (nk_scriptFolders s') k' f' r' \<longleftrightarrow>
      (if k' = k \<and> f' = f then r' = \<lparr>rf_scriptId = key, rf_fileName = f\<rparr> else entry (nk_scriptFolders s) k' f' r')"
    and free: "\<And>r. \<not> entry (nk_scriptFolders s) k f r"
  shows "nb_inv s' w2"
proof -
  from inv have h: "heap_ok s w" and pa: "paths_ok (nk_scriptFolders s) (nk_scripts s) (nk_uncommittedScriptId s)"
    by (simp_all add: nb_inv_iff)
  from create_fresh [OF h heap(1,2)] have key: "skel_of (nk_scripts s) key = None" "key \<noteq> 0"
    by (simp_all add: skel_of_def)
  have paths: "paths_ok (nk_scriptFolders s') (nk_scripts s') (nk_uncommittedScriptId s')"
    unfolding uid by (rule paths_ok_add [OF pa key f sc(2) ent free])
  have "j \<in> fst ` set (nk_scripts s') \<longleftrightarrow> j = key \<or> j \<in> fst ` set (nk_scripts s)" for j
    unfolding js_has_key [symmetric] skel_of_has [symmetric] sc(2) by simp
  then have keys: "fst ` set (nk_scripts s') = insert key (fst ` set (nk_scripts s))" by blast
  have "heap_ok s' w2" by (rule heap_ok_create [OF h heap keys])
  with paths fo sc(1) show ?thesis by (simp add: nb_inv_iff)
qed

section \<open>Destruction\<close>

lemma destroy_buffers_only: "\<exists>bs. destroy_buffer b w = w\<lparr>w_buffers := bs\<rparr>" "\<exists>bs. destroy_option o' w = w\<lparr>w_buffers := bs\<rparr>"
  "\<exists>bs. destroyBuffers d w = w\<lparr>w_buffers := bs\<rparr>" "\<exists>bs. fold destroy_buffer l w = w\<lparr>w_buffers := bs\<rparr>"
proof -
  show o1: "\<exists>bs. destroy_buffer b w = w\<lparr>w_buffers := bs\<rparr>" for b w by (auto simp: destroy_buffer_def)
  show o2: "\<exists>bs. destroy_option o' w = w\<lparr>w_buffers := bs\<rparr>" for o' w
  proof (cases o')
    case None
    then have "destroy_option o' w = w\<lparr>w_buffers := w_buffers w\<rparr>" by (simp add: destroy_option_def)
    then show ?thesis by blast
  qed (use o1 in \<open>simp add: destroy_option_def\<close>)
  show "\<exists>bs. destroyBuffers d w = w\<lparr>w_buffers := bs\<rparr>"
  proof -
    obtain b1 where 1: "destroy_option (bf_parsed d) w = w\<lparr>w_buffers := b1\<rparr>" using o2 by blast
    obtain b2 where "destroy_option (map_option fst (bf_analyzed d)) (w\<lparr>w_buffers := b1\<rparr>) = w\<lparr>w_buffers := b1, w_buffers := b2\<rparr>"
      using o2 by blast
    with 1 have "destroyBuffers d w = w\<lparr>w_buffers := b2\<rparr>" by (simp add: destroyBuffers_def)
    then show ?thesis by blast
  qed
  show "\<exists>bs. fold destroy_buffer l w = w\<lparr>w_buffers := bs\<rparr>"
  proof (induction l arbitrary: w)
    case Nil
    have "fold destroy_buffer [] w = w\<lparr>w_buffers := w_buffers w\<rparr>" by simp
    then show ?case by blast
  next
    case (Cons b l)
    obtain bs where "destroy_buffer b w = w\<lparr>w_buffers := bs\<rparr>" using o1 by blast
    moreover obtain bs' where "fold destroy_buffer l (w\<lparr>w_buffers := bs\<rparr>) = w\<lparr>w_buffers := bs, w_buffers := bs'\<rparr>" using Cons by blast
    ultimately show ?case by auto
  qed
qed

lemma destroyScriptData_eq: "\<exists>bs. destroyScriptData d w = (script_destroy (sd_script d) w)\<lparr>w_buffers := bs\<rparr>"
proof -
  obtain b1 where 1: "destroyBuffers (sd_buffers d) w = w\<lparr>w_buffers := b1\<rparr>" using destroy_buffers_only(3) by blast
  let ?w = "script_destroy (sd_script d) (w\<lparr>w_buffers := b1\<rparr>)"
  obtain b2 where 2: "destroy_option (map_option fst (sd_completion d)) ?w = ?w\<lparr>w_buffers := b2\<rparr>" using destroy_buffers_only(2) by blast
  obtain b3 where 3: "destroy_option (map_option snd (sd_pendingDiff d)) (?w\<lparr>w_buffers := b2\<rparr>) = ?w\<lparr>w_buffers := b2, w_buffers := b3\<rparr>"
    using destroy_buffers_only(2) by blast
  obtain b4 where 4: "destroy_option (sd_cursor d) (?w\<lparr>w_buffers := b3\<rparr>) = ?w\<lparr>w_buffers := b3, w_buffers := b4\<rparr>"
    using destroy_buffers_only(2) by blast
  obtain b5 where 5: "fold destroy_buffer (sd_statistics d) (?w\<lparr>w_buffers := b4\<rparr>) = ?w\<lparr>w_buffers := b4, w_buffers := b5\<rparr>"
    using destroy_buffers_only(4) by blast
  have "destroyScriptData d w = ?w\<lparr>w_buffers := b5\<rparr>" using 1 2 3 4 5 by (simp add: destroyScriptData_def Let_def)
  also have "\<dots> = (script_destroy (sd_script d) w)\<lparr>w_buffers := b5\<rparr>" by (simp add: script_destroy_def)
  finally show ?thesis by blast
qed

lemma destroy_dead_heap:
  assumes h: "heap_ok s w" and d: "js_get (nk_scripts s) k = Some d" "sd_script d = k"
  obtains w' where "destroy_dead k s w = Return (s\<lparr>nk_scripts := js_delete (nk_scripts s) k\<rparr>) w'"
    "heap_ok (s\<lparr>nk_scripts := js_delete (nk_scripts s) k\<rparr>) w'" "w_tasks w' = w_tasks w"
    "w_text w' = js_delete (w_text w) k"
proof -
  have "k \<in> fst ` set (nk_scripts s)" by (rule keys_get_Some [OF d(1)])
  with h have "k \<in> live w" by (simp add: heap_ok_def)
  then have lv: "\<exists>y. js_get (w_text w) k = Some y" by (simp add: live_iff)
  let ?w1 = "w\<lparr>w_catalog := removeAll k (w_catalog w), w_registry := removeAll k (w_registry w)\<rparr>"
  let ?s = "s\<lparr>nk_scripts := js_delete (nk_scripts s) k\<rparr>"
  obtain bs where w': "destroyScriptData d ?w1 = (script_destroy k ?w1)\<lparr>w_buffers := bs\<rparr>"
    using destroyScriptData_eq [of d ?w1] d(2) by auto
  let ?w' = "(script_destroy k ?w1)\<lparr>w_buffers := bs\<rparr>"
  have ret: "destroy_dead k s w = Return ?s ?w'"
    using lv by (simp add: destroy_dead_def d catalog_dropScript_def registry_dropScript_def flip: w')
  have l: "live ?w' = live w - {k}" by (simp add: live_def script_destroy_def)
  note h = h [unfolded heap_ok_def]
  have "set (w_catalog ?w') \<subseteq> live ?w'" "set (w_registry ?w') \<subseteq> live ?w'" "fst ` set (w_path ?w') \<subseteq> live ?w'"
    using h unfolding l by (auto simp: script_destroy_def simp del: set_map)
  moreover have "\<forall>h \<in> live ?w'. h < w_nextScript ?w'" using h unfolding l by (simp add: script_destroy_def)
  moreover have "jsmap_ok (w_text ?w')" "live ?w' = fst ` set (nk_scripts ?s)" "0 < w_nextScript ?w'"
    using h unfolding l by (simp_all add: script_destroy_def)
  ultimately have "heap_ok ?s ?w'" unfolding heap_ok_def by blast
  with ret show thesis by (rule that) (simp_all add: w_tasks_def script_destroy_def)
qed

text \<open>The result of \<^verbatim>\<open>destroyDeadScripts\<close>.\<close>

definition survivors :: "NotebookState \<Rightarrow> nat set \<Rightarrow> (nat, ScriptData) jsmap" where
  "survivors s dead = filter (\<lambda>(j, d). j \<notin> dead) (nk_scripts s)"

lemma destroy_dead_fold:
  assumes "heap_ok s w" "\<And>j d. js_get (nk_scripts s) j = Some d \<Longrightarrow> sd_script d = j"
    "set ks \<subseteq> fst ` set (nk_scripts s)" "distinct ks"
  shows "\<exists>w' m. nb_fold destroy_dead ks s w = Return (s\<lparr>nk_scripts := m\<rparr>) w' \<and> heap_ok (s\<lparr>nk_scripts := m\<rparr>) w' \<and>
    w_tasks w' = w_tasks w \<and> (\<forall>j. js_get m j = (if j \<in> set ks then None else js_get (nk_scripts s) j)) \<and>
    (\<forall>j. j \<notin> set ks \<longrightarrow> js_get (w_text w') j = js_get (w_text w) j) \<and> (jsmap_ok (nk_scripts s) \<longrightarrow> jsmap_ok m)"
  using assms
proof (induction ks arbitrary: s w)
  case Nil
  have "s = s\<lparr>nk_scripts := nk_scripts s\<rparr>" by simp
  with Nil show ?case by (intro exI [of _ w] exI [of _ "nk_scripts s"]) simp
next
  case (Cons k ks)
  from Cons.prems(3) have "k \<in> fst ` set (nk_scripts s)" by simp
  from has_key [OF this] obtain d where d: "js_get (nk_scripts s) k = Some d" by blast
  let ?s = "s\<lparr>nk_scripts := js_delete (nk_scripts s) k\<rparr>"
  obtain w1 where w1: "destroy_dead k s w = Return ?s w1" "heap_ok ?s w1" "w_tasks w1 = w_tasks w"
    "w_text w1 = js_delete (w_text w) k"
    by (rule destroy_dead_heap [OF Cons.prems(1) d Cons.prems(2) [OF d]])
  have pre: "\<And>j d. js_get (nk_scripts ?s) j = Some d \<Longrightarrow> sd_script d = j"
    using Cons.prems(2) by (simp add: js_get_delete split: if_splits)
  have sub: "set ks \<subseteq> fst ` set (nk_scripts ?s)" using Cons.prems(3,4) by (simp add: subset_iff) blast
  from Cons.IH [OF w1(2) pre sub] Cons.prems(4) obtain w' m where
    m: "nb_fold destroy_dead ks ?s w1 = Return (s\<lparr>nk_scripts := m\<rparr>) w'" "heap_ok (s\<lparr>nk_scripts := m\<rparr>) w'"
      "w_tasks w' = w_tasks w1" "\<And>j. js_get m j = (if j \<in> set ks then None else js_get (js_delete (nk_scripts s) k) j)"
      "\<And>j. j \<notin> set ks \<Longrightarrow> js_get (w_text w') j = js_get (w_text w1) j" "jsmap_ok (nk_scripts ?s) \<longrightarrow> jsmap_ok m"
    by auto
  have "jsmap_ok (nk_scripts s) \<longrightarrow> jsmap_ok m" using m(6) by simp
  with m w1 show ?case by (intro exI [of _ w'] exI [of _ m]) (simp add: js_get_delete)
qed

text \<open>Entries were removed, and the scripts without an entry destroyed.\<close>

lemma in_object_values: "jsmap_ok m \<Longrightarrow> x \<in> set (object_values m) \<longleftrightarrow> (\<exists>k. js_get m k = Some x)"
proof -
  assume ok: "jsmap_ok m"
  have "x \<in> snd ` set m \<longleftrightarrow> (\<exists>k. (k, x) \<in> set m)" by force
  moreover have "(k, x) \<in> set m \<longleftrightarrow> js_get m k = Some x" for k using js_in_get [OF ok] js_get_in_values by metis
  ultimately show ?thesis by (simp add: set_object_values [OF ok])
qed

lemma live_ids_iff:
  assumes "folders_ok (nk_scriptFolders s)"
  shows "j \<in> set (live_ids s) \<longleftrightarrow> j = nk_uncommittedScriptId s \<or> (\<exists>k f r. entry (nk_scriptFolders s) k f r \<and> rf_scriptId r = j)"
proof -
  let ?F = "nk_scriptFolders s"
  have jF: "jsmap_ok ?F" using assms by (simp add: folders_ok_def)
  have "(\<exists>p \<in> set (object_values ?F). j \<in> rf_scriptId ` set (object_values (pg_scripts p))) \<longleftrightarrow>
      (\<exists>k p. js_get ?F k = Some p \<and> (\<exists>f r. js_get (pg_scripts p) f = Some r \<and> rf_scriptId r = j))" (is "?L = ?R")
  proof
    assume ?L
    then obtain p r where p: "p \<in> set (object_values ?F)" "r \<in> set (object_values (pg_scripts p))" "rf_scriptId r = j" by blast
    from p(1) obtain k where k: "js_get ?F k = Some p" using in_object_values [OF jF] by blast
    have ok: "jsmap_ok (pg_scripts p)" using folders_okD [OF assms k] by blast
    from p(2) obtain f where "js_get (pg_scripts p) f = Some r" unfolding in_object_values [OF ok] by blast
    with k p(3) show ?R by blast
  next
    assume ?R
    then obtain k p f r where k: "js_get ?F k = Some p" "js_get (pg_scripts p) f = Some r" "rf_scriptId r = j" by blast
    have ok: "jsmap_ok (pg_scripts p)" using folders_okD [OF assms k(1)] by blast
    from k(1) have "p \<in> set (object_values ?F)" unfolding in_object_values [OF jF] by blast
    moreover from k(2) have "r \<in> set (object_values (pg_scripts p))" unfolding in_object_values [OF ok] by blast
    ultimately show ?L using k(3) by blast
  qed
  then show ?thesis by (simp add: live_ids_def entry_def) blast
qed

lemma paths_ok_restrict:
  assumes ok: "paths_ok F S uid" and sub: "\<And>k f r. entry F' k f r \<Longrightarrow> entry F k f r"
    and sk: "\<And>j. skel_of S' j = (if j = uid \<or> (\<exists>k f r. entry F' k f r \<and> rf_scriptId r = j) then skel_of S j else None)"
  shows "paths_ok F' S' uid"
  unfolding paths_ok_def
proof (intro conjI allI impI)
  fix k f r assume e: "entry F' k f r"
  from ok sub [OF e] have "f \<noteq> [] \<and> rf_fileName r = f \<and> (\<exists>a b. skel_of S (rf_scriptId r) = Some (a, b, k, f))"
    unfolding paths_ok_def by blast
  moreover have "skel_of S' (rf_scriptId r) = skel_of S (rf_scriptId r)" using e by (auto simp: sk)
  ultimately show "f \<noteq> []" "rf_fileName r = f" "\<exists>a b. skel_of S' (rf_scriptId r) = Some (a, b, k, f)" by simp_all
next
  fix j a b k f assume "skel_of S' j = Some (a, b, k, f)"
  then have j: "skel_of S j = Some (a, b, k, f)" "j = uid \<or> (\<exists>k f r. entry F' k f r \<and> rf_scriptId r = j)"
    by (simp_all add: sk split: if_splits)
  from ok j(1) have o: "a = j \<and> b = j \<and> (j = uid \<longrightarrow> k = [] \<and> f = [])" unfolding paths_ok_def by blast
  then show "a = j" "b = j" "j = uid \<Longrightarrow> k = []" "j = uid \<Longrightarrow> f = []" by auto
  show "\<exists>r. entry F' k f r \<and> rf_scriptId r = j" if "j \<noteq> uid"
  proof -
    from j(2) that obtain k' f' r where e: "entry F' k' f' r" "rf_scriptId r = j" by blast
    from ok sub [OF e(1)] obtain a' b' where "skel_of S (rf_scriptId r) = Some (a', b', k', f')" unfolding paths_ok_def by blast
    with j(1) e show ?thesis by auto
  qed
next
  show "skel_of S' uid \<noteq> None" "uid \<noteq> 0" using ok by (simp_all add: paths_ok_def sk)
qed

lemma post_destroyDead:
  assumes inv: "nb_inv s w" and sub: "\<And>k f r. entry F k f r \<Longrightarrow> entry (nk_scriptFolders s) k f r"
    and fo: "folders_ok F" "names_ok F" and heap: "same_heap w w1" "w_text w1 = w_text w"
    and s1: "nk_scripts s1 = nk_scripts s" "nk_scriptFolders s1 = F" "nk_uncommittedScriptId s1 = nk_uncommittedScriptId s" "focus_ok s1"
    and Q: "\<And>s' w'. nb_inv s' w' \<Longrightarrow> w_tasks w' = w_tasks w1 \<Longrightarrow> nk_scriptFolders s' = F \<Longrightarrow>
      nk_uncommittedScriptId s' = nk_uncommittedScriptId s \<Longrightarrow>
      (\<And>j. j = nk_uncommittedScriptId s \<or> (\<exists>k f r. entry F k f r \<and> rf_scriptId r = j) \<Longrightarrow>
        js_get (w_text w') j = js_get (w_text w) j) \<Longrightarrow> Q s' w'"
  shows "post a (destroyDeadScripts s1 w1) Q"
proof -
  let ?ks = "filter (\<lambda>k. k \<notin> set (live_ids s1)) (script_keys (nk_scripts s1))"
  have h: "heap_ok s1 w1" by (rule heap_ok_same [OF _ heap(1)]) (use inv in \<open>simp_all add: nb_inv_iff s1\<close>)
  have scripts: "sd_script d = j" if "js_get (nk_scripts s1) j = Some d" for j d
    using nb_inv_live [OF inv, of j d] that by (simp add: s1)
  have jS: "jsmap_ok (nk_scripts s1)" using inv by (simp add: nb_inv_iff s1)
  have dk: "distinct ?ks" using jS by (simp add: script_keys_def jsmap_ok_def)
  have sk: "set ?ks \<subseteq> fst ` set (nk_scripts s1)" by auto
  obtain w' m where m: "nb_fold destroy_dead ?ks s1 w1 = Return (s1\<lparr>nk_scripts := m\<rparr>) w'"
    "heap_ok (s1\<lparr>nk_scripts := m\<rparr>) w'" "w_tasks w' = w_tasks w1"
    "\<And>j. js_get m j = (if j \<in> set ?ks then None else js_get (nk_scripts s1) j)"
    "\<And>j. j \<notin> set ?ks \<Longrightarrow> js_get (w_text w') j = js_get (w_text w1) j" "jsmap_ok m"
    using destroy_dead_fold [OF h scripts sk dk] jS by blast
  have lv: "j \<in> set (live_ids s1) \<longleftrightarrow> j = nk_uncommittedScriptId s \<or> (\<exists>k f r. entry F k f r \<and> rf_scriptId r = j)" for j
    using live_ids_iff [of s1 j] fo(1) by (simp add: s1)
  let ?s = "s1\<lparr>nk_scripts := m\<rparr>"
  have sk': "skel_of m j = (if j = nk_uncommittedScriptId s \<or> (\<exists>k f r. entry F k f r \<and> rf_scriptId r = j)
      then skel_of (nk_scripts s) j else None)" for j
  proof (cases "j \<in> set (live_ids s1)")
    case True
    then have "js_get m j = js_get (nk_scripts s) j" by (simp add: m(4) s1)
    with True show ?thesis unfolding lv by (simp add: skel_of_def)
  next
    case False
    have "js_get m j = None"
    proof (cases "j \<in> fst ` set (nk_scripts s1)")
      case True
      with False show ?thesis by (simp add: m(4))
    next
      case F: False
      then have "js_get (nk_scripts s1) j = None" by (simp only: keys_get_None not_False_eq_True)
      then show ?thesis by (simp add: m(4))
    qed
    with False show ?thesis unfolding lv by (auto simp: skel_of_def)
  qed
  from inv have pa: "paths_ok (nk_scriptFolders s) (nk_scripts s) (nk_uncommittedScriptId s)" by (simp add: nb_inv_iff)
  have "paths_ok F m (nk_uncommittedScriptId s)" by (rule paths_ok_restrict [OF pa sub sk'])
  moreover have "focus_ok ?s" using s1(4) by (simp add: focus_ok_iff)
  ultimately have "nb_inv ?s w'" using m(2,6) fo by (simp add: nb_inv_iff s1)
  then have "Q ?s w'"
  proof (rule Q [OF _ m(3)])
    fix j assume "j = nk_uncommittedScriptId s \<or> (\<exists>k f r. entry F k f r \<and> rf_scriptId r = j)"
    then have "j \<notin> set ?ks" using lv by simp
    with m(5) heap(2) show "js_get (w_text w') j = js_get (w_text w) j" by simp
  qed (simp_all add: s1)
  then show ?thesis by (simp add: destroyDeadScripts_def m(1))
qed

end
