(* ===== verification/Notebook_Kept_Folders.thy ===== *)
theory Notebook_Kept_Folders
  imports Notebook_Changes
begin

text \<open>The actions on folders keep the invariant of a notebook and the agreement with the disk: renumbering, creation,
  deletion, renaming and reordering.\<close>

section \<open>Renumbering\<close>

lemma rename_keys_Cons: "rename_keys ((a, b) # rs) v = rename_keys rs (v(a := None, b := v a))"
  by (simp add: rename_keys_def)

lemma rename_keys_other:
  "u \<notin> set (map fst rs) \<Longrightarrow> u \<notin> set (map snd rs) \<Longrightarrow> rename_keys rs (v(u := x)) = (rename_keys rs v)(u := x)"
proof (induction rs arbitrary: v)
  case (Cons r rs)
  obtain a b where r: "r = (a, b)" by fastforce
  with Cons.prems have ab: "u \<noteq> a" "u \<noteq> b" by auto
  have "(v(u := x))(a := None, b := (v(u := x)) a) = (v(a := None, b := v a))(u := x)" using ab by (auto simp: fun_eq_iff)
  then have "rename_keys (r # rs) (v(u := x)) = rename_keys rs ((v(a := None, b := v a))(u := x))"
    by (simp only: r rename_keys_Cons)
  also have "\<dots> = (rename_keys rs (v(a := None, b := v a)))(u := x)" by (rule Cons.IH) (use Cons.prems in auto)
  finally show ?case by (simp only: r rename_keys_Cons)
qed (simp add: rename_keys_def)

lemma rename_keys_append: "rename_keys (rs @ qs) v = rename_keys qs (rename_keys rs v)"
  by (simp add: rename_keys_def)

lemma persist_renames:
  assumes "u \<notin> set (map fst rs)"
  shows "\<exists>w'. nb_fold (persist_rename e s u) rs () w = Return () w' \<and>
    did (sched e (map (\<lambda>(a, b). RENAME_SCRIPT_FOLDER (nk_notebookId s) a b) rs)) w w'"
  using assms
proof (induction rs arbitrary: w)
  case (Cons r rs)
  obtain a b where r: "r = (a, b)" by fastforce
  let ?task = "RENAME_SCRIPT_FOLDER (nk_notebookId s) a b"
  let ?w = "nb_write e (groupScriptFolderRenames (nk_notebookId s) a) ?task w"
  from Cons.IH [of ?w] Cons.prems obtain w' where w': "nb_fold (persist_rename e s u) rs () ?w = Return () w'"
    "did (sched e (map (\<lambda>(a, b). RENAME_SCRIPT_FOLDER (nk_notebookId s) a b) rs)) ?w w'" by auto
  have "persist_rename e s u (a, b) () w = Return () ?w" using Cons.prems by (auto simp: persist_rename_def r)
  with w'(1) did_trans [OF did_write [of e ?task w] w'(2)] show ?case by (simp add: r flip: sched_append)
qed simp

lemma renames_get: "or_else (js_get (map (\<lambda>k. (k, \<rho> k)) (filter (\<lambda>k. \<rho> k \<noteq> k) ks)) k) k = (if k \<in> set ks then \<rho> k else k)"
proof (cases "k \<in> set ks \<and> \<rho> k \<noteq> k")
  case True
  then have "js_get (map (\<lambda>k. (k, \<rho> k)) (filter (\<lambda>k. \<rho> k \<noteq> k) ks)) k = Some (\<rho> k)"
    by (subst map_of_map_restrict) (simp add: restrict_map_def)
  with True show ?thesis by (simp add: or_else_def)
next
  case False
  then have "js_get (map (\<lambda>k. (k, \<rho> k)) (filter (\<lambda>k. \<rho> k \<noteq> k) ks)) k = None"
    by (subst map_of_map_restrict) (simp add: restrict_map_def)
  with False show ?thesis by (auto simp: or_else_def)
qed

lemma keys_mapped: "(\<And>j. skel_of m' j = map_option g (skel_of m j)) \<Longrightarrow> fst ` set m' = fst ` set m"
proof -
  assume a: "\<And>j. skel_of m' j = map_option g (skel_of m j)"
  have "js_get m' j = None \<longleftrightarrow> js_get m j = None" for j unfolding skel_of_has [symmetric] a by simp
  then have "j \<in> fst ` set m' \<longleftrightarrow> j \<in> fst ` set m" for j unfolding keys_get_None by (metis (full_types))
  then show ?thesis by (rule set_eqI)
qed

lemma names_ok_moved:
  assumes "names_ok F" "moved \<rho> h (js_get F) (js_get F')" "\<And>k. normalizeScriptFolderName (\<rho> k) = normalizeScriptFolderName k"
    "\<And>k p. pg_scripts (h k p) = pg_scripts p"
  shows "names_ok F'"
  unfolding names_ok_def
proof (intro conjI allI impI inj_onI)
  have origin: "\<exists>k x. js_get F k = Some x \<and> \<rho> k = k'" if k: "k' \<in> fst ` set F'" for k'
  proof -
    from has_key [OF k] obtain x where "js_get F' k' = Some x" by (elim exE)
    then show ?thesis using assms(2) unfolding moved_def by blast
  qed
  fix a b assume "a \<in> fst ` set F'" "b \<in> fst ` set F'" and eq: "normalizeScriptFolderName a = normalizeScriptFolderName b"
  from origin [OF this(1)] origin [OF this(2)] obtain k x l y where
    kl: "js_get F k = Some x" "\<rho> k = a" "js_get F l = Some y" "\<rho> l = b" by blast
  have "k \<in> fst ` set F" "l \<in> fst ` set F" by (rule keys_get_Some [OF kl(1)], rule keys_get_Some [OF kl(3)])
  moreover have "normalizeScriptFolderName k = normalizeScriptFolderName l" using eq kl(2,4) assms(3) by metis
  ultimately have "k = l" using assms(1) unfolding names_ok_def by (meson inj_onD)
  with kl show "a = b" by simp
next
  fix k' p' assume "js_get F' k' = Some p'"
  with assms(2) obtain k p where "js_get F k = Some p" "\<rho> k = k'" "p' = h k p" by (rule movedE)
  with assms(1,4) show "page_names_ok (pg_scripts p')" unfolding names_ok_def by simp
qed

text \<open>The state that \<^verbatim>\<open>reprefixPages\<close> installs.\<close>

definition renumbered :: "string list \<Rightarrow> NotebookState \<Rightarrow> NotebookState" where
  "renumbered order s =
    (let r = reprefixed (nk_scriptFolders s) order \<lparr>rp_renames = [], rp_pages = [], rp_scripts = nk_scripts s\<rparr>
     in s\<lparr>nk_scriptFolders := rp_pages r, nk_scripts := rp_scripts r,
          nk_scriptFocus := (nk_scriptFocus s)\<lparr>sf_folderName := renumber order (sf_folderName (nk_scriptFocus s))\<rparr>\<rparr>)"

definition folder_renames :: "string list \<Rightarrow> (string \<times> string) list" where
  "folder_renames order = map (\<lambda>k. (k, renumber order k)) (filter (\<lambda>k. renumber order k \<noteq> k) order)"

lemma reprefix_eq:
  assumes rd: "reprefix_ready (nk_scriptFolders s) order \<lparr>rp_renames = [], rp_pages = [], rp_scripts = nk_scripts s\<rparr>"
  shows "reprefixPages e order u s w =
    (if folder_renames order = [] then Return None w
     else nb_bind (nb_fold (persist_rename e (renumbered order s) u) (folder_renames order) () w)
       (\<lambda>_. Return (Some (renumbered order s))))"
proof -
  let ?init = "\<lparr>rp_renames = [], rp_pages = [], rp_scripts = nk_scripts s\<rparr>"
  let ?F = "nk_scriptFolders s"
  have loop: "nb_fold (reprefix_one ?F (length order)) (enumerate 0 order) ?init w = Return (reprefixed ?F order ?init) w"
    unfolding reprefixed_def by (rule reprefix_fold) (use in_order [OF rd] in auto)
  have ren: "rp_renames (reprefixed ?F order ?init) = folder_renames order"
    unfolding folder_renames_def by (rule result_renames [OF rd])
  have foc: "or_else (js_get (folder_renames order) k) k = renumber order k" for k
    unfolding folder_renames_def renames_get by (simp add: renumber_def)
  show ?thesis unfolding reprefixPages_def loop nb_bind_Return ren Let_def foc by (simp add: renumbered_def Let_def)
qed

lemma nb_inv_ready:
  assumes "nb_inv s w" "distinct order" "set order = fst ` set (nk_scriptFolders s)"
  shows "reprefix_ready (nk_scriptFolders s) order \<lparr>rp_renames = [], rp_pages = [], rp_scripts = nk_scripts s\<rparr>"
  using assms by (simp add: reprefix_ready_def nb_inv_iff names_ok_def)

lemma renumbered_inv:
  assumes inv: "nb_inv s w" and order: "distinct order" "set order = fst ` set (nk_scriptFolders s)" and heap: "same_heap w w'"
  shows "nb_inv (renumbered order s) w'"
proof -
  let ?init = "\<lparr>rp_renames = [], rp_pages = [], rp_scripts = nk_scripts s\<rparr>" and ?F = "nk_scriptFolders s"
  note rd = nb_inv_ready [OF inv order]
  let ?r = "reprefixed ?F order ?init"
  from inv have sc: "jsmap_ok (rp_scripts ?init)" "paths_ok ?F (rp_scripts ?init) (nk_uncommittedScriptId s)"
    by (simp_all add: nb_inv_iff)
  note mv = result_pages [OF rd]
  have st: "nk_scriptFolders (renumbered order s) = rp_pages ?r" "nk_scripts (renumbered order s) = rp_scripts ?r"
    "nk_uncommittedScriptId (renumbered order s) = nk_uncommittedScriptId s"
    "nk_scriptFocus (renumbered order s) = (nk_scriptFocus s)\<lparr>sf_folderName := renumber order (sf_folderName (nk_scriptFocus s))\<rparr>"
    by (simp_all add: renumbered_def Let_def)
  have keys: "fst ` set (rp_scripts ?r) = fst ` set (nk_scripts s)"
    by (rule keys_mapped) (use result_scripts [OF rd sc] in simp)
  show ?thesis unfolding nb_inv_iff st(1-3)
  proof (intro conjI)
    show "jsmap_ok (rp_scripts ?r)" using result_scripts [OF rd sc] by blast
    show "folders_ok (rp_pages ?r)" by (rule result_folders_ok [OF rd])
    show "paths_ok (rp_pages ?r) (rp_scripts ?r) (nk_uncommittedScriptId s)" by (rule result_paths [OF rd sc])
    show "names_ok (rp_pages ?r)" by (rule names_ok_moved [OF _ mv]) (use inv in \<open>simp_all add: nb_inv_iff\<close>)
    from inv obtain p where p: "js_get ?F (sf_folderName (nk_scriptFocus s)) = Some p" "file_ok p (sf_fileName (nk_scriptFocus s))"
      by (auto simp: nb_inv_iff focus_ok_iff)
    from movedD [OF mv p(1)] p(2) show "focus_ok (renumbered order s)" by (simp add: focus_ok_iff st file_ok_def)
    show "heap_ok (renumbered order s) w'" by (rule heap_ok_same [OF _ heap]) (use inv keys in \<open>simp_all add: nb_inv_iff st\<close>)
  qed
qed

lemma folder_renames_ok:
  assumes inv: "nb_inv s w" and order: "distinct order" "set order = fst ` set (nk_scriptFolders s)"
    and dom: "\<And>k. k \<in> set order \<longleftrightarrow> v k \<noteq> None"
  shows "distinct (map fst (folder_renames order))" "distinct (map snd (folder_renames order))"
    "(a, b) \<in> set (folder_renames order) \<Longrightarrow> v a \<noteq> None \<and> v b = None"
proof -
  from inv order have inj: "inj_on normalizeScriptFolderName (set order)" by (simp add: nb_inv_iff names_ok_def)
  show "distinct (map fst (folder_renames order))" using order by (simp add: folder_renames_def comp_def)
  have "inj_on (renumber order) (set (filter (\<lambda>k. renumber order k \<noteq> k) order))"
    by (rule inj_on_subset [OF inj_renumber [OF inj]]) auto
  then show "distinct (map snd (folder_renames order))" using order by (simp add: folder_renames_def comp_def distinct_map)
  assume "(a, b) \<in> set (folder_renames order)"
  then have a: "a \<in> set order" "b = renumber order a" "b \<noteq> a" by (auto simp: folder_renames_def)
  from renumber_fresh [OF inj a(1)] a have "b \<notin> set order" by simp
  with a(1) dom show "v a \<noteq> None \<and> v b = None" by blast
qed

lemma renumbered_agrees:
  assumes inv: "nb_inv s w" and order: "distinct order" "set order = fst ` set (nk_scriptFolders s)"
    and ag: "agrees X T (js_get (nk_scriptFolders s)) v"
  shows "agrees X T (js_get (nk_scriptFolders (renumbered order s))) (rename_keys (folder_renames order) v)"
proof -
  let ?F = "nk_scriptFolders s"
  note rd = nb_inv_ready [OF inv order]
  have dom: "k \<in> set order \<longleftrightarrow> v k \<noteq> None" for k
    unfolding order(2) using agrees_dom [OF ag, of k] keys_get_None [of ?F k] by metis
  note ok = folder_renames_ok [where v = v, OF inv order dom]
  have mv: "moved (renumber order) (\<lambda>k m. m) v (rename_keys (folder_renames order) v)"
    by (rule rename_keys_moved [OF ok]) (use dom in \<open>auto simp: folder_renames_def\<close>)
  have "agrees X T (js_get (rp_pages (reprefixed ?F order \<lparr>rp_renames = [], rp_pages = [], rp_scripts = nk_scripts s\<rparr>)))
      (rename_keys (folder_renames order) v)"
    by (rule agrees_moved [OF ag result_pages [OF rd] mv]) simp
  then show ?thesis by (simp add: renumbered_def Let_def)
qed

text \<open>All folders are on disk: \<^verbatim>\<open>reprefixPages\<close> renames them there as in memory.\<close>

lemma post_reprefix:
  assumes inv: "nb_inv s w" and order: "distinct order" "set order = fst ` set (nk_scriptFolders s)" and u: "u \<notin> set order"
    and Q: "\<And>r w' ts. nb_inv (or_else r s) w' \<Longrightarrow> did (sched e ts) w w' \<Longrightarrow>
      nk_uncommittedScriptId (or_else r s) = nk_uncommittedScriptId s \<Longrightarrow>
      (\<And>X T v d. agrees X T (js_get (nk_scriptFolders s)) v \<Longrightarrow>
        \<exists>v'. disk_tasks ts (v, d) = Some (v', d) \<and> agrees X T (js_get (nk_scriptFolders (or_else r s))) v') \<Longrightarrow> Q r w'"
  shows "post a (reprefixPages e order u s w) Q"
proof (cases "folder_renames order = []")
  case True
  show ?thesis unfolding reprefix_eq [OF nb_inv_ready [OF inv order]]
    using Q [of None w "[]"] inv True by (simp add: or_else_def)
next
  case False
  from u have "u \<notin> set (map fst (folder_renames order))" by (auto simp: folder_renames_def)
  from persist_renames [OF this, of e "renumbered order s" w] obtain w' where
    w': "nb_fold (persist_rename e (renumbered order s) u) (folder_renames order) () w = Return () w'"
    "did (sched e (map (\<lambda>(a, b). RENAME_SCRIPT_FOLDER (nk_notebookId (renumbered order s)) a b) (folder_renames order))) w w'"
    by blast
  have "Q (Some (renumbered order s)) w'"
  proof (rule Q [OF _ w'(2)])
    show "nb_inv (or_else (Some (renumbered order s)) s) w'"
      using renumbered_inv [OF inv order did_heap [OF w'(2)]] by (simp add: or_else_def)
    show "nk_uncommittedScriptId (or_else (Some (renumbered order s)) s) = nk_uncommittedScriptId s"
      by (simp add: or_else_def renumbered_def Let_def)
    fix X T v d assume ag: "agrees X T (js_get (nk_scriptFolders s)) v"
    have dom: "k \<in> set order \<longleftrightarrow> v k \<noteq> None" for k
      unfolding order(2) using agrees_dom [OF ag, of k] keys_get_None [of "nk_scriptFolders s" k] by metis
    show "\<exists>v'. disk_tasks (map (\<lambda>(a, b). RENAME_SCRIPT_FOLDER (nk_notebookId (renumbered order s)) a b) (folder_renames order))
        (v, d) = Some (v', d) \<and> agrees X T (js_get (nk_scriptFolders (or_else (Some (renumbered order s)) s))) v'"
      using disk_rename_folders [OF folder_renames_ok [where v = v, OF inv order dom]] renumbered_agrees [OF inv order ag]
      by (simp add: or_else_def)
  qed
  then show ?thesis unfolding reprefix_eq [OF nb_inv_ready [OF inv order]] using False w'(1) by simp
qed

section \<open>Reordering\<close>

lemma ready_not_Nil: "ready e X s w st \<Longrightarrow> [] \<notin> fst ` set (nk_scriptFolders s)"
proof
  assume rd: "ready e X s w st" and "[] \<in> fst ` set (nk_scriptFolders s)"
  from has_key [OF this(2)] folders_okD [OF ready_folders [OF rd]] show False by blast
qed

lemma folder_names_distinct: "jsmap_ok F \<Longrightarrow> distinct (getSortedScriptFolderNames e F)"
  by (simp add: getSortedScriptFolderNames_def)

lemma kept_disk:
  assumes rd: "ready e X s w st" and inv: "nb_inv s' w'" and did: "did (sched e ts) w w'"
    and uid: "nk_uncommittedScriptId s' = nk_uncommittedScriptId s"
    and disk: "\<And>v d. agrees X (w_text w) (js_get (nk_scriptFolders s)) v \<Longrightarrow>
        \<exists>v'. disk_tasks ts (v, d) = Some (v', d) \<and> agrees X (w_text w) (js_get (nk_scriptFolders s')) v'"
  shows "kept e X w st s' w'"
proof (rule keptI [OF inv did_tasks [OF did]])
  assume act: "e_active e"
  note dr = ready_disk [OF rd act]
  from disk [OF conjunct1 [OF dr]] obtain v' where "disk_tasks ts (view st, st_draft st) = Some (v', st_draft st)"
    "agrees X (w_text w) (js_get (nk_scriptFolders s')) v'" by blast
  with dr did_text [OF did] uid show "\<exists>vd. disk_tasks ts (disk_of st) = Some vd \<and> disk_agrees X s' w' vd"
    by (simp add: disk_of_def disk_agrees_def)
qed

lemma reorder_folders_kept:
  assumes rd: "ready e X s w st"
  shows "post a (reorder_script_folders e requested s w) (kept e X w st)"
proof -
  let ?current = "getSortedScriptFolderNames e (nk_scriptFolders s)"
  let ?order = "total_order (js_has (nk_scriptFolders s)) requested ?current"
  have keys: "set ?order = fst ` set (nk_scriptFolders s)"
    unfolding set_total_order set_folder_names js_has_key by blast
  have "post a (reprefixPages e ?order [] s w) (\<lambda>r. kept e X w st (or_else r s))"
    by (rule post_reprefix [OF ready_inv [OF rd] distinct_total_order keys])
      (use keys ready_not_Nil [OF rd] in simp, rule kept_disk [OF rd], assumption+)
  then show ?thesis
    using kept_refl [OF rd] by (simp add: reorder_script_folders_def Let_def post_bind)
qed

section \<open>Deletion\<close>

lemma neighbour_in: "filter (\<lambda>n. n \<noteq> gone) ns \<noteq> [] \<Longrightarrow> neighbour ns gone \<in> set ns - {gone}"
proof -
  let ?rest = "filter (\<lambda>n. n \<noteq> gone) ns"
  assume "?rest \<noteq> []"
  then have "or_else (js_at ?rest 0) [] \<in> set ?rest" by (rule or_else_at)
  moreover have "neighbour ns gone \<in> insert (or_else (js_at ?rest 0) []) (set ?rest)"
    unfolding neighbour_def Let_def by (rule or_else_in)
  ultimately have "neighbour ns gone \<in> set ?rest" by (metis insertE)
  then show ?thesis by simp
qed

lemma names_ok_delete: "names_ok F \<Longrightarrow> names_ok (js_delete F k)"
  unfolding names_ok_def by (auto simp: js_get_delete intro: inj_on_subset)

lemma folders_ok_delete:
  assumes "folders_ok F" "js_get F k' \<noteq> None" "k' \<noteq> k"
  shows "folders_ok (js_delete F k)"
  unfolding folders_ok_def
proof (intro conjI allI impI)
  have "js_get (js_delete F k) k' \<noteq> None" using assms(2,3) by (simp add: js_get_delete)
  then show "js_delete F k \<noteq> []" by auto
  show "jsmap_ok (js_delete F k)" using assms(1) by (simp add: folders_ok_def)
  fix l p assume "js_get (js_delete F k) l = Some p"
  then have "js_get F l = Some p" by (simp add: js_get_delete split: if_splits)
  from folders_okD [OF assms(1) this] show "l \<noteq> []" "pg_folderName p = l" "jsmap_ok (pg_scripts p)" by auto
qed

lemma entry_delete: "entry (js_delete F k) l f r \<longleftrightarrow> l \<noteq> k \<and> entry F l f r"
  by (auto simp: entry_def js_get_delete)

text \<open>The live scripts keep their texts, so what agreed still agrees.\<close>

lemma agrees_same_texts:
  assumes "agrees X T (js_get F) v" "\<And>k f r. entry F k f r \<Longrightarrow> js_get T' (rf_scriptId r) = js_get T (rf_scriptId r)"
  shows "agrees X T' (js_get F) v"
proof (rule agrees_texts [OF assms(1)])
  fix k p f r assume "js_get F k = Some p" "js_get (pg_scripts p) f = Some r" "rf_scriptId r \<notin> X"
  moreover from this(1,2) have "entry F k f r" by (auto simp: entry_def)
  ultimately show "rf_scriptId r \<notin> X \<and> js_get T' (rf_scriptId r) = js_get T (rf_scriptId r)" using assms(2) by blast
qed

lemma delete_folder_to_kept:
  assumes rd: "ready e X s w st" and k: "js_get (nk_scriptFolders s) k \<noteq> None" "js_get (nk_scriptFolders s) k' \<noteq> None" "k' \<noteq> k"
  shows "post a (delete_folder_to e k k' s w) (kept e X w st)"
proof -
  let ?F = "js_delete (nk_scriptFolders s) k"
  obtain s1 w1 where c: "clearSemanticUserFocus s w = (s1, w1)" by fastforce
  from quiet_clear [OF c] have q: "quiet w w1" "s1 = s\<lparr>nk_semanticUserFocus := None\<rparr>" by auto
  from k(2,3) obtain p' where p': "js_get ?F k' = Some p'" by (auto simp: js_get_delete)
  let ?s2 = "s1\<lparr>nk_scriptFolders := ?F, nk_scriptFocus := \<lparr>sf_folderName = k', sf_fileName = first_file e (js_get ?F k'),
     sf_interactionCounter = sf_interactionCounter (nk_scriptFocus s) + 1\<rparr>\<rparr>"
  have foc: "focus_ok ?s2" using p' file_ok_first [of p' e] by (simp add: focus_ok_iff)
  have fo: "folders_ok ?F" by (rule folders_ok_delete [OF ready_folders [OF rd] k(2,3)])
  have no: "names_ok ?F" using rd by (intro names_ok_delete) (simp add: ready_def nb_inv_iff)
  have "post a (destroyDeadScripts ?s2 w1) (\<lambda>s' w. kept e X w0 st s'
      (nb_write e (groupScriptFolderWrites (nk_notebookId s') k) (DELETE_SCRIPT_FOLDER (nk_notebookId s') k) w))"
    if w0: "w0 = w" for w0
  proof (rule post_destroyDead [OF ready_inv [OF rd] _ fo no did_heap [OF quiet_did [OF q(1)]] quiet_text [OF q(1)] _ _ _ foc])
    show "entry ?F l f r \<Longrightarrow> entry (nk_scriptFolders s) l f r" for l f r by (simp add: entry_delete)
    fix s' w' assume inv': "nb_inv s' w'" and t': "w_tasks w' = w_tasks w1" and F': "nk_scriptFolders s' = ?F"
      and u': "nk_uncommittedScriptId s' = nk_uncommittedScriptId s"
      and tx: "\<And>j. j = nk_uncommittedScriptId s \<or> (\<exists>k f r. entry ?F k f r \<and> rf_scriptId r = j) \<Longrightarrow>
        js_get (w_text w') j = js_get (w_text w) j"
    let ?t = "DELETE_SCRIPT_FOLDER (nk_notebookId s') k" and ?key = "groupScriptFolderWrites (nk_notebookId s') k"
    show "kept e X w0 st s' (nb_write e ?key ?t w')" unfolding w0
    proof (rule keptI [where ts = "[?t]"])
      have same: "same_heap w' (nb_write e ?key ?t w')" by (rule did_heap [OF did_write])
      show "nb_inv s' (nb_write e ?key ?t w')"
        by (rule nb_inv_skel [OF inv' same refl _ refl refl]) (use inv' in \<open>simp_all add: nb_inv_iff\<close>)
      show "w_tasks (nb_write e ?key ?t w') = w_tasks w @ sched e [?t]"
        using did_tasks [OF did_write] t' quiet_tasks [OF q(1)] by simp
      assume "e_active e"
      note dr = ready_disk [OF rd this]
      have vk: "view st k \<noteq> None" using agrees_dom [OF conjunct1 [OF dr], of k] k(1) by simp
      have eq: "(js_get (nk_scriptFolders s))(k := None) = js_get ?F" by (auto simp: fun_eq_iff js_get_delete)
      have "agrees X (w_text w) (js_get ?F) ((view st)(k := None))"
        using agrees_del [OF conjunct1 [OF dr], of k] unfolding eq .
      then have "agrees X (w_text w') (js_get ?F) ((view st)(k := None))"
        by (rule agrees_same_texts) (use tx in blast)
      moreover have "nk_uncommittedScriptId s \<notin> X \<Longrightarrow> js_get (w_text w') (nk_uncommittedScriptId s) = Some (st_draft st)"
        using dr tx by simp
      ultimately show "\<exists>vd. disk_tasks [?t] (disk_of st) = Some vd \<and> disk_agrees X s' (nb_write e ?key ?t w') vd"
        using vk by (simp add: disk_of_def disk_agrees_def F' u')
    qed
  qed (simp_all add: q(2))
  then show ?thesis by (simp add: delete_folder_to_def c post_bind Let_def)
qed

lemma two_names: "distinct ns \<Longrightarrow> 1 < length ns \<Longrightarrow> filter (\<lambda>n. n \<noteq> x) ns \<noteq> []"
proof
  assume d: "distinct ns" and l: "1 < length ns" and "filter (\<lambda>n. n \<noteq> x) ns = []"
  then have "set ns \<subseteq> {x}" by (auto simp: filter_empty_conv)
  then have "card (set ns) \<le> 1" by (metis card_mono card.empty card.insert empty_iff finite.intros One_nat_def)
  with d l show False by (simp add: distinct_card)
qed

lemma ready_folder_names: "ready e X s w st \<Longrightarrow> distinct (getSortedScriptFolderNames e' (nk_scriptFolders s))"
  by (rule folder_names_distinct) (drule ready_folders, simp add: folders_ok_def)

lemma delete_folder_kept:
  assumes rd: "ready e X s w st"
  shows "post a (delete_script_folder e k s w) (kept e X w st)"
proof -
  let ?ns = "getSortedScriptFolderNames e (nk_scriptFolders s)" and ?current = "sf_folderName (nk_scriptFocus s)"
  show ?thesis
  proof (cases "length ?ns \<le> 1 \<or> js_get (nk_scriptFolders s) k = None")
    case True
    then show ?thesis using kept_refl [OF rd] by (auto simp: delete_script_folder_def Let_def)
  next
    case False
    then have rest: "filter (\<lambda>n. n \<noteq> k) ?ns \<noteq> []" using two_names [OF ready_folder_names [OF rd]] by auto
    let ?k' = "if k = ?current then neighbour ?ns k else ?current"
    have "?k' \<in> fst ` set (nk_scriptFolders s) \<and> ?k' \<noteq> k"
    proof (cases "k = ?current")
      case True
      then show ?thesis using neighbour_in [OF rest] by simp
    next
      case F: False
      from ready_focus [OF rd] obtain p where "js_get (nk_scriptFolders s) ?current = Some p" by (auto simp: focus_ok_iff)
      with F keys_get_Some show ?thesis by metis
    qed
    then have "js_get (nk_scriptFolders s) ?k' \<noteq> None" "?k' \<noteq> k" unfolding js_has_key by blast+
    from delete_folder_to_kept [OF rd _ this] False show ?thesis by (simp add: delete_script_folder_def Let_def)
  qed
qed

section \<open>Renaming\<close>

lemma analyze_renamed_fold:
  assumes "jsmap_ok scripts" "scripts_live scripts w"
  shows "post (core_accepts (e_core e)) (nb_fold (analyze_renamed e new) es scripts w) (\<lambda>m w'. quiet w w' \<and> jsmap_ok m \<and>
    (\<forall>j. skel_of m j = (if j \<in> rf_scriptId ` set es then map_option (repath (\<lambda>k f. (new, f))) (skel_of scripts j)
       else skel_of scripts j)))"
  using assms
proof (induction es arbitrary: scripts w)
  case Nil
  then show ?case by (simp add: quiet_refl)
next
  case (Cons r es)
  show ?case
  proof (cases "js_get scripts (rf_scriptId r)")
    case None
    then have "skel_of scripts (rf_scriptId r) = None" by (simp add: skel_of_def)
    moreover have "analyze_renamed e new r scripts w = Return scripts w" by (simp add: analyze_renamed_def None)
    ultimately show ?thesis using post_weaken [OF Cons.IH [OF Cons.prems]] by auto
  next
    case (Some d)
    have lv: "sd_script d \<in> live w" using Cons.prems(2) Some by (simp add: scripts_live_def)
    have lv': "sd_script (d\<lparr>sd_folderName := new\<rparr>) \<in> live w" using lv by simp
    let ?a = "core_accepts (e_core e)"
    have head: "post ?a (analyze_renamed e new r scripts w) (\<lambda>m w1. \<exists>d'. m = js_set scripts (rf_scriptId r) d' \<and>
        skel d' = skel (d\<lparr>sd_folderName := new\<rparr>) \<and> quiet w w1)"
      unfolding analyze_renamed_def Some option.case
      by (rule post_bind, rule post_analyze [OF lv' Cons.prems(2)]) auto
    show ?thesis unfolding nb_fold.simps
    proof (rule post_bind, rule post_weaken [OF head], elim exE conjE)
      fix m w1 d' assume m: "m = js_set scripts (rf_scriptId r) d'" and q: "skel d' = skel (d\<lparr>sd_folderName := new\<rparr>)" "quiet w w1"
      have sk: "skel_of m j = (if j = rf_scriptId r then Some (sd_scriptKey d, sd_script d, new, sd_fileName d) else skel_of scripts j)" for j
        using q(1) by (simp add: m skel_of_set skel_def)
      have d: "skel_of scripts (rf_scriptId r) = Some (sd_scriptKey d, sd_script d, sd_folderName d, sd_fileName d)"
        using Some by (simp add: skel_of_def skel_def)
      have l: "live w1 = live w" by (rule quiet_live [OF q(2)])
      have sl: "scripts_live m w1" using Cons.prems(2) lv unfolding scripts_live_skel sk l by auto
      have jm: "jsmap_ok m" using Cons.prems(1) by (simp add: m)
      show "post ?a (nb_fold (analyze_renamed e new) es m w1) (\<lambda>m w'. quiet w w' \<and> jsmap_ok m \<and>
          (\<forall>j. skel_of m j = (if j \<in> rf_scriptId ` set (r # es) then map_option (repath (\<lambda>k f. (new, f))) (skel_of scripts j)
            else skel_of scripts j)))"
        by (rule post_weaken [OF Cons.IH [OF jm sl]]) (auto simp: sk d repath_def intro: quiet_trans [OF q(2)])
    qed
  qed
qed

lemma files_in_page: "set (List.map_filter (js_get (pg_scripts p)) (getSortedScriptFileNames e p)) = {r. \<exists>f. js_get (pg_scripts p) f = Some r}"
  unfolding set_map_filter set_file_names using keys_get_Some [of "pg_scripts p"] by blast

lemma folders_ok_set: "folders_ok F \<Longrightarrow> k \<noteq> [] \<Longrightarrow> pg_folderName p = k \<Longrightarrow> jsmap_ok (pg_scripts p) \<Longrightarrow> folders_ok (js_set F k p)"
  unfolding folders_ok_def by (auto simp: js_get_set split: if_splits)

text \<open>One folder moves to a new name.\<close>

definition instead :: "string \<Rightarrow> string \<Rightarrow> string \<Rightarrow> string" where
  "instead old new k = (if k = old then new else k)"

lemma folder_moved:
  assumes "js_get F old = Some p" "js_get F new = None"
  shows "moved (instead old new) (\<lambda>k q. if k = old then q\<lparr>pg_folderName := new\<rparr> else q)
     (js_get F) (js_get (js_set (js_delete F old) new (p\<lparr>pg_folderName := new\<rparr>)))"
  using assms by (auto simp: moved_def instead_def js_get_set js_get_delete split: if_splits)

lemma renamed_folder_inv:
  assumes inv: "nb_inv s w" and heap: "same_heap w w'"
    and p: "js_get (nk_scriptFolders s) old = Some p" and new: "js_get (nk_scriptFolders s) new = None" "new \<noteq> []"
    and uniq: "\<And>k. k \<in> fst ` set (nk_scriptFolders s) \<Longrightarrow> k \<noteq> old \<Longrightarrow> normalizeScriptFolderName k \<noteq> normalizeScriptFolderName new"
    and sc: "jsmap_ok (nk_scripts s')"
      "\<And>j. skel_of (nk_scripts s') j = map_option (repath (\<lambda>k f. (instead old new k, f))) (skel_of (nk_scripts s) j)"
    and s': "nk_scriptFolders s' = js_set (js_delete (nk_scriptFolders s) old) new (p\<lparr>pg_folderName := new\<rparr>)"
      "nk_uncommittedScriptId s' = nk_uncommittedScriptId s"
      "sf_folderName (nk_scriptFocus s') = instead old new (sf_folderName (nk_scriptFocus s))"
      "sf_fileName (nk_scriptFocus s') = sf_fileName (nk_scriptFocus s)"
  shows "nb_inv s' w'"
proof -
  let ?F = "nk_scriptFolders s" and ?F' = "nk_scriptFolders s'"
  from inv have fo: "folders_ok ?F" and no: "names_ok ?F" and pa: "paths_ok ?F (nk_scripts s) (nk_uncommittedScriptId s)"
    and foc: "focus_ok s" and h: "heap_ok s w" by (simp_all add: nb_inv_iff)
  note mv = folder_moved [OF p new(1), folded s'(1)]
  have old: "old \<noteq> []" "jsmap_ok (pg_scripts p)" using folders_okD [OF fo p] by auto
  have fo': "folders_ok ?F'" unfolding folders_ok_def
  proof (intro conjI allI impI)
    show "jsmap_ok ?F'" using fo by (simp add: s' folders_ok_def)
    show "?F' \<noteq> []" using movedD [OF mv p] by auto
    fix k q assume k: "js_get ?F' k = Some q"
    show "k \<noteq> []" "pg_folderName q = k" "jsmap_ok (pg_scripts q)"
      using k new(2) old(2) folders_okD [OF fo, of k q] by (auto simp: s' js_get_set js_get_delete split: if_splits)
  qed
  have keys: "fst ` set ?F' = insert new (fst ` set ?F - {old})" by (simp add: s')
  have no': "names_ok ?F'" unfolding names_ok_def
  proof (intro conjI allI impI)
    have "inj_on normalizeScriptFolderName (fst ` set ?F - {old})"
      by (rule inj_on_subset) (use no in \<open>auto simp: names_ok_def\<close>)
    moreover have "normalizeScriptFolderName new \<notin> normalizeScriptFolderName ` (fst ` set ?F - {old} - {new})"
    proof
      assume "normalizeScriptFolderName new \<in> normalizeScriptFolderName ` (fst ` set ?F - {old} - {new})"
      then obtain k where "k \<in> fst ` set ?F - {old} - {new}" "normalizeScriptFolderName new = normalizeScriptFolderName k" by (elim imageE)
      with uniq [of k] show False by simp
    qed
    ultimately show "inj_on normalizeScriptFolderName (fst ` set ?F')" unfolding keys inj_on_insert by blast
    fix k q assume "js_get ?F' k = Some q"
    with mv obtain l x where "js_get ?F l = Some x" "instead old new l = k" "q = (if l = old then x\<lparr>pg_folderName := new\<rparr> else x)"
      by (rule movedE)
    then show "page_names_ok (pg_scripts q)" using no by (auto simp: names_ok_def)
  qed
  have pa': "paths_ok ?F' (nk_scripts s') (nk_uncommittedScriptId s')" unfolding s'(2)
  proof (rule paths_ok_repath [OF pa sc(2)])
    fix k f r assume e: "entry ?F k f r"
    with pa have f: "f \<noteq> []" "rf_fileName r = f" by (auto simp: paths_ok_def)
    have "r\<lparr>rf_fileName := f\<rparr> = r" by (cases r) (use f(2) in simp)
    moreover from e obtain q where "js_get ?F k = Some q" "js_get (pg_scripts q) f = Some r" by (auto simp: entry_def)
    ultimately show "snd (instead old new k, f) \<noteq> [] \<and> entry ?F' (fst (instead old new k, f)) (snd (instead old new k, f))
        (r\<lparr>rf_fileName := snd (instead old new k, f)\<rparr>)"
      using f(1) movedD [OF mv, of k q] by (simp add: entry_def split: if_splits)
  next
    fix k' f' r' assume "entry ?F' k' f' r'"
    then obtain q' where q': "js_get ?F' k' = Some q'" "js_get (pg_scripts q') f' = Some r'" by (auto simp: entry_def)
    from mv q'(1) obtain k q where k: "js_get ?F k = Some q" "instead old new k = k'"
      "q' = (if k = old then q\<lparr>pg_folderName := new\<rparr> else q)" by (rule movedE)
    with q'(2) have e: "entry ?F k f' r'" by (auto simp: entry_def split: if_splits)
    with pa have "rf_fileName r' = f'" by (auto simp: paths_ok_def)
    then have "r' = r'\<lparr>rf_fileName := f'\<rparr>" by (cases r') simp
    with e k(2) show "\<exists>k f r. entry ?F k f r \<and> (instead old new k, f) = (k', f') \<and> r' = r\<lparr>rf_fileName := f'\<rparr>" by blast
  qed (use old(1) in \<open>simp add: instead_def\<close>)
  have foc': "focus_ok s'"
  proof -
    from foc obtain q where q: "js_get ?F (sf_folderName (nk_scriptFocus s)) = Some q" "file_ok q (sf_fileName (nk_scriptFocus s))"
      by (auto simp: focus_ok_iff)
    from movedD [OF mv q(1)] q(2) show ?thesis by (simp add: focus_ok_iff s'(3,4) file_ok_def split: if_splits)
  qed
  have "heap_ok s' w'" by (rule heap_ok_same [OF h heap keys_mapped [OF sc(2)]])
  with fo' no' pa' foc' sc(1) show ?thesis by (simp add: nb_inv_iff)
qed

lemma format_folder_not_Nil [simp]: "formatScriptFolderOrderPrefix i n \<noteq> []"
  by (simp add: formatScriptFolderOrderPrefix_def)

lemma renamed_folder_agrees:
  assumes "agrees X T (js_get F) v" "js_get F old = Some p" "js_get F new = None"
  shows "\<exists>v'. disk_task (RENAME_SCRIPT_FOLDER nid old new) (v, d) = Some (v', d) \<and>
    agrees X T (js_get (js_set (js_delete F old) new (p\<lparr>pg_folderName := new\<rparr>))) v'"
proof -
  have v: "v old \<noteq> None" "v new = None" using agrees_dom [OF assms(1)] assms(2,3) by simp_all
  have mv: "moved (instead old new) (\<lambda>k m. m) v (v(old := None, new := v old))"
    using v by (auto simp: moved_def instead_def split: if_splits)
  from v agrees_moved [OF assms(1) folder_moved [OF assms(2,3)] mv] show ?thesis by simp
qed

lemma instead_order:
  assumes "distinct ns" "set ns = fst ` set F" "js_get F new = None" "js_get F old = Some p"
  shows "distinct (map (\<lambda>f. if f = old then new else f) ns)"
    "set (map (\<lambda>f. if f = old then new else f) ns) = fst ` set (js_set (js_delete F old) new q)"
proof -
  have "new \<notin> set ns" using assms(2,3) by (simp add: keys_get_None)
  then have "inj_on (\<lambda>f. if f = old then new else f) (set ns)" by (auto simp: inj_on_def)
  then show "distinct (map (\<lambda>f. if f = old then new else f) ns)" using assms(1) by (simp add: distinct_map)
  have "old \<in> set ns" using keys_get_Some [OF assms(4)] assms(2) by simp
  then have "set (map (\<lambda>f. if f = old then new else f) ns) = insert new (set ns - {old})" by auto
  then show "set (map (\<lambda>f. if f = old then new else f) ns) = fst ` set (js_set (js_delete F old) new q)"
    unfolding assms(2) by simp
qed

lemma entry_id_folder:
  assumes pa: "paths_ok F S uid" and fo: "folders_ok F" and p: "js_get F old = Some p"
  shows "(\<exists>f r. js_get (pg_scripts p) f = Some r \<and> rf_scriptId r = j) \<longleftrightarrow> (\<exists>a b f. skel_of S j = Some (a, b, old, f))"
proof
  assume "\<exists>f r. js_get (pg_scripts p) f = Some r \<and> rf_scriptId r = j"
  then obtain f r where "js_get (pg_scripts p) f = Some r" "rf_scriptId r = j" by blast
  with p have "entry F old f r" by (auto simp: entry_def)
  with pa \<open>rf_scriptId r = j\<close> show "\<exists>a b f. skel_of S j = Some (a, b, old, f)" unfolding paths_ok_def by blast
next
  assume "\<exists>a b f. skel_of S j = Some (a, b, old, f)"
  then obtain a b f where j: "skel_of S j = Some (a, b, old, f)" by blast
  have "old \<noteq> []" using folders_okD [OF fo p] by simp
  with j pa have "\<exists>r. entry F old f r \<and> rf_scriptId r = j" unfolding paths_ok_def by blast
  with p show "\<exists>f r. js_get (pg_scripts p) f = Some r \<and> rf_scriptId r = j" by (auto simp: entry_def)
qed

lemma rename_folder_kept:
  assumes rd: "ready e X s w st"
  shows "post (core_accepts (e_core e)) (rename_script_folder e old requested s w) (kept e X w st)"
proof (cases "js_get (nk_scriptFolders s) old")
  case None
  then show ?thesis using kept_refl [OF rd] by (simp add: rename_script_folder_def)
next
  case (Some p)
  let ?F = "nk_scriptFolders s" and ?ns = "getSortedScriptFolderNames e (nk_scriptFolders s)"
  define clean where "clean = uniqueScriptFolderName requested ?F old"
  show ?thesis
  proof (cases "normalizeScriptFolderName old = clean")
    case True
    then show ?thesis using kept_refl [OF rd] by (simp add: rename_script_folder_def Some Let_def flip: clean_def)
  next
    case False
    define new where "new = formatScriptFolderOrderPrefix (nat (js_index_of ?ns old + 1)) (length ?ns) @ clean"
    have uniq: "normalizeScriptFolderName k \<noteq> normalizeScriptFolderName new" if "k \<in> fst ` set ?F" "k \<noteq> old" for k
      using uniqueScriptFolderName_fresh [OF that, of requested] by (simp add: new_def clean_def)
    have new: "js_get ?F new = None" "new \<noteq> []"
    proof -
      have "normalizeScriptFolderName new = clean" by (simp add: new_def)
      with False have "new \<noteq> old" by auto
      with uniq [of new] show "js_get ?F new = None" by (auto simp: keys_get_None)
      show "new \<noteq> []" by (simp add: new_def)
    qed
    let ?es = "List.map_filter (js_get (pg_scripts p)) (getSortedScriptFileNames e p)"
    from rd have inv: "nb_inv s w" and fo: "folders_ok ?F" and pa: "paths_ok ?F (nk_scripts s) (nk_uncommittedScriptId s)"
      by (simp_all add: ready_def nb_inv_iff)
    have ids: "j \<in> rf_scriptId ` set ?es \<longleftrightarrow> (\<exists>a b f. skel_of (nk_scripts s) j = Some (a, b, old, f))" for j
      unfolding entry_id_folder [OF pa fo Some, symmetric] files_in_page by blast
    let ?pages = "js_set (js_delete ?F old) new (p\<lparr>pg_folderName := new\<rparr>)"
    let ?order = "map (\<lambda>f. if f = old then new else f) ?ns"
    let ?task = "RENAME_SCRIPT_FOLDER (nk_notebookId s) old new"
    show ?thesis
      unfolding rename_script_folder_def Some option.case Let_def clean_def [symmetric] if_not_P [OF False] new_def [symmetric]
      apply (rule post_bind, rule post_weaken [OF analyze_renamed_fold [OF ready_scripts [OF rd] ready_lookup [OF rd]]])
      apply (elim conjE)
      subgoal premises q for m w1
      proof -
        let ?keep = "\<lambda>k. k \<in> rf_scriptId ` set (object_values (pg_scripts p))"
        let ?s1 = "s\<lparr>nk_scriptFolders := ?pages, nk_scripts := mark_outdated ?keep m,
            nk_scriptFocus := (nk_scriptFocus s)\<lparr>sf_folderName := (if sf_folderName (nk_scriptFocus s) = old then new
              else sf_folderName (nk_scriptFocus s))\<rparr>\<rparr>"
        let ?w2 = "nb_write e (groupScriptFolderRenames (nk_notebookId s) old) ?task w1"
        have did: "did (sched e [?task]) w ?w2" by (rule quiet_then_did [OF q(1) did_write])
        have sk: "skel_of (nk_scripts ?s1) j = map_option (repath (\<lambda>k f. (instead old new k, f))) (skel_of (nk_scripts s) j)" for j
        proof (cases "j \<in> rf_scriptId ` set ?es")
          case True
          with ids [of j] obtain a b f where j: "skel_of (nk_scripts s) j = Some (a, b, old, f)" by blast
          with True q(3) show ?thesis by (simp add: repath_def instead_def)
        next
          case F: False
          then have "skel_of (nk_scripts s) j = Some (a, b, k, f) \<Longrightarrow> k \<noteq> old" for a b k f using ids [of j] by blast
          with F q(3) show ?thesis by (cases "skel_of (nk_scripts s) j") (auto simp: repath_def instead_def)
        qed
        have jm: "jsmap_ok (nk_scripts ?s1)" using q(2) by simp
        have inv1: "nb_inv ?s1 ?w2"
          by (rule renamed_folder_inv [OF inv did_heap [OF did] Some new uniq jm sk]) (simp_all add: instead_def)
        have jF: "jsmap_ok ?F" using fo by (simp add: folders_ok_def)
        note ord = instead_order [OF folder_names_distinct [OF jF] set_folder_names new(1) Some]
        have ord2: "set ?order = fst ` set (nk_scriptFolders ?s1)" using ord(2) by simp
        have nil: "[] \<notin> set ?order" unfolding ord2
        proof
          assume "[] \<in> fst ` set (nk_scriptFolders ?s1)"
          from has_key [OF this] obtain q where "js_get (nk_scriptFolders ?s1) [] = Some q" by blast
          moreover have "folders_ok (nk_scriptFolders ?s1)" using inv1 unfolding nb_inv_iff by blast
          ultimately show False using folders_okD by blast
        qed
        have "post (core_accepts (e_core e)) (reprefixPages e ?order [] ?s1 ?w2) (\<lambda>r. kept e X w st (or_else r ?s1))"
        proof (rule post_reprefix [OF inv1 ord(1) ord2 nil])
          fix r w' ts assume r: "nb_inv (or_else r ?s1) w'" "did (sched e ts) ?w2 w'"
            "nk_uncommittedScriptId (or_else r ?s1) = nk_uncommittedScriptId ?s1"
            "\<And>X T v d. agrees X T (js_get (nk_scriptFolders ?s1)) v \<Longrightarrow>
              \<exists>v'. disk_tasks ts (v, d) = Some (v', d) \<and> agrees X T (js_get (nk_scriptFolders (or_else r ?s1))) v'"
          have d2: "did (sched e (?task # ts)) w w'" using did_trans [OF did r(2)] by (simp flip: sched_append)
          show "kept e X w st (or_else r ?s1) w'"
          proof (rule kept_disk [OF rd r(1) d2])
            show "nk_uncommittedScriptId (or_else r ?s1) = nk_uncommittedScriptId s" using r(3) by simp
            fix v d assume ag: "agrees X (w_text w) (js_get ?F) v"
            from renamed_folder_agrees [OF ag Some new(1), of "nk_notebookId s" d] obtain v' where
              v': "disk_task ?task (v, d) = Some (v', d)" "agrees X (w_text w) (js_get ?pages) v'" by blast
            from r(4) [of X "w_text w" v' d] v'(2) obtain v'' where "disk_tasks ts (v', d) = Some (v'', d)"
              "agrees X (w_text w) (js_get (nk_scriptFolders (or_else r ?s1))) v''" by auto
            with v'(1) show "\<exists>v'. disk_tasks (?task # ts) (v, d) = Some (v', d) \<and>
                agrees X (w_text w) (js_get (nk_scriptFolders (or_else r ?s1))) v'" by (simp del: disk_task.simps)
          qed
        qed
        then show ?thesis by (simp add: post_bind)
      qed
      done
  qed
qed

section \<open>Creation\<close>

lemma object_keys_single [simp]: "object_keys [(f, r)] = [f]"
  by (cases "array_index f") (simp_all add: object_keys_def List.map_filter_simps)

lemma object_values_single [simp]: "object_values [(f, r)] = [r]"
  by (simp add: object_values_def List.map_filter_simps)

lemma nb_fold_single: "nb_fold f [x] = f x"
proof (intro ext)
  show "nb_fold f [x] s w = f x s w" for s w by (cases "f x s w") simp_all
qed

lemma nb_fold_snoc: "nb_fold f (xs @ [x]) s w = nb_bind (nb_fold f xs s w) (f x)"
  unfolding nb_fold_append nb_fold_single ..

text \<open>The last folder of the order is not on disk: \<^verbatim>\<open>reprefixPages\<close> creates it there under its new name.\<close>

lemma post_reprefix_new:
  assumes inv: "nb_inv s w" and order: "distinct (ks @ [u])" "set (ks @ [u]) = fst ` set (nk_scriptFolders s)"
    and page: "js_get (nk_scriptFolders s) u = Some p" "pg_scripts p = [(f, r)]" "js_get (w_text w) (rf_scriptId r) = Some t"
    and moves: "renumber (ks @ [u]) u \<noteq> u"
    and Q: "\<And>s' w' ts. nb_inv s' w' \<Longrightarrow> did (sched e ts) w w' \<Longrightarrow>
      nk_uncommittedScriptId s' = nk_uncommittedScriptId s \<Longrightarrow>
      (\<And>X v d. agrees X (w_text w) (js_get (nk_scriptFolders s)) (v(u \<mapsto> [f \<mapsto> t])) \<Longrightarrow> v u = None \<Longrightarrow>
        \<exists>v'. disk_tasks ts (v, d) = Some (v', d) \<and> agrees X (w_text w) (js_get (nk_scriptFolders s')) v') \<Longrightarrow> Q (Some s') w'"
  shows "post a (reprefixPages e (ks @ [u]) u s w) Q"
proof -
  let ?order = "ks @ [u]" and ?s' = "renumbered (ks @ [u]) s"
  define n where "n = renumber ?order u"
  define rs where "rs = map (\<lambda>k. (k, renumber ?order k)) (filter (\<lambda>k. renumber ?order k \<noteq> k) ks)"
  have ren: "folder_renames ?order = rs @ [(u, n)]" using moves by (simp add: folder_renames_def rs_def n_def)
  have u: "u \<notin> set ks" using order(1) by simp
  then have u_rs: "u \<notin> set (map fst rs)" by (auto simp: rs_def)
  let ?nid = "nk_notebookId ?s'"
  from persist_renames [OF u_rs, of e ?s' w] obtain w1 where w1: "nb_fold (persist_rename e ?s' u) rs () w = Return () w1"
    "did (sched e (map (\<lambda>(a, b). RENAME_SCRIPT_FOLDER ?nid a b) rs)) w w1" by blast
  note rd = nb_inv_ready [OF inv order]
  have page': "js_get (nk_scriptFolders ?s') n = Some (p\<lparr>pg_folderName := n\<rparr>)"
    using movedD [OF result_pages [OF rd] page(1)] by (simp add: renumbered_def Let_def n_def)
  have inv1: "nb_inv ?s' w1" by (rule renumbered_inv [OF inv order did_heap [OF w1(2)]])
  have rname: "rf_fileName r = f" and script: "\<exists>d. js_get (nk_scripts ?s') (rf_scriptId r) = Some d"
    using nb_ok_ref [of ?s', OF _ page', of f r] inv1 page(2) by (auto simp: nb_inv_def)
  then obtain d where d: "js_get (nk_scripts ?s') (rf_scriptId r) = Some d" by blast
  from nb_inv_live [OF inv1 d] have hd: "sd_script d = rf_scriptId r" by simp
  let ?entry = "\<lparr>fs_scriptId = rf_scriptId r, fs_fileName = f, fs_sql = t\<rparr>"
  let ?task = "CREATE_SCRIPT_FOLDER ?nid n [?entry]"
  let ?w2 = "nb_write e (groupScriptFolderWrites ?nid n) ?task w1"
  have last: "persist_rename e ?s' u (u, n) () w1 = Return () ?w2"
    using page(2,3) by (simp add: persist_rename_def page' folder_script_def d script_toString_def hd rname did_text [OF w1(2)])
  have did: "did (sched e (map (\<lambda>(a, b). RENAME_SCRIPT_FOLDER ?nid a b) rs @ [?task])) w ?w2"
    by (rule did_then_write [OF w1(2)])
  have "Q (Some ?s') ?w2"
  proof (rule Q [OF _ did])
    show "nb_inv ?s' ?w2" by (rule renumbered_inv [OF inv order did_heap [OF did]])
    show "nk_uncommittedScriptId ?s' = nk_uncommittedScriptId s" by (simp add: renumbered_def Let_def)
    fix X v d assume ag: "agrees X (w_text w) (js_get (nk_scriptFolders s)) (v(u \<mapsto> [f \<mapsto> t]))" and vu: "v u = None"
    let ?v = "v(u \<mapsto> [f \<mapsto> t])"
    have dom: "k \<in> set ?order \<longleftrightarrow> ?v k \<noteq> None" for k
      unfolding order(2) using agrees_dom [OF ag, of k] keys_get_None [of "nk_scriptFolders s" k] by metis
    note ok = folder_renames_ok [where v = ?v, OF inv order dom, unfolded ren]
    have n_new: "?v n = None" using ok(3) [of u n] by simp
    have rs_dist: "distinct (map fst rs)" "distinct (map snd rs)" using ok(1,2) by auto
    have rs_ok: "v a \<noteq> None \<and> v b = None" if "(a, b) \<in> set rs" for a b
    proof -
      from that u_rs have "a \<noteq> u" by force
      moreover have "?v b = None" "?v a \<noteq> None" using ok(3) [of a b] that by auto
      ultimately show ?thesis by (auto split: if_splits)
    qed
    have u_snd: "u \<notin> set (map snd rs)"
    proof
      assume "u \<in> set (map snd rs)"
      then obtain a where "(a, u) \<in> set rs" by auto
      with ok(3) [of a u] show False by simp
    qed
    have n_rs: "n \<notin> set (map fst rs)" "n \<notin> set (map snd rs)"
      using n_new rs_ok ok(2) by (auto split: if_splits) force
    let ?v1 = "rename_keys rs v"
    have v1u: "?v1 u = None" and v1n: "?v1 n = None"
    proof -
      have keep: "?v1 k = v k" if "k \<notin> set (map fst rs)" "k \<notin> set (map snd rs)" for k
        using rename_keys_other [OF that, of v "v k"] by (metis fun_upd_triv fun_upd_same)
      show "?v1 u = None" using keep [OF u_rs u_snd] vu by simp
      show "?v1 n = None" using keep [OF n_rs] n_new by (auto split: if_splits)
    qed
    have "rename_keys (rs @ [(u, n)]) ?v = ?v1(n \<mapsto> [f \<mapsto> t])"
      unfolding rename_keys_append rename_keys_other [OF u_rs u_snd]
      using fun_upd_idem [of ?v1 u None] v1u by (simp add: rename_keys_def)
    with renumbered_agrees [OF inv order ag] have "agrees X (w_text w) (js_get (nk_scriptFolders ?s')) (?v1(n \<mapsto> [f \<mapsto> t]))"
      by (simp add: ren)
    moreover have "disk_tasks (map (\<lambda>(a, b). RENAME_SCRIPT_FOLDER ?nid a b) rs @ [?task]) (v, d) = Some (?v1(n \<mapsto> [f \<mapsto> t]), d)"
      using disk_rename_folders [OF rs_dist rs_ok, where nid = ?nid and d = d] v1n by (simp add: disk_tasks_append or_else_def)
    ultimately show "\<exists>v'. disk_tasks (map (\<lambda>(a, b). RENAME_SCRIPT_FOLDER ?nid a b) rs @ [?task]) (v, d) = Some (v', d) \<and>
        agrees X (w_text w) (js_get (nk_scriptFolders ?s')) v'" by blast
  qed
  moreover have "reprefixPages e ?order u s w = Return (Some ?s') ?w2"
    unfolding reprefix_eq [OF rd] by (simp add: ren nb_fold_snoc w1(1) last)
  ultimately show ?thesis by simp
qed

lemma plan_prefixed:
  assumes "planScriptInsertion existing base rng n = (plan, n')"
  shows "scriptOrderPrefixString (plan_newFileName plan) \<noteq> []" "plan_newFileName plan \<noteq> []"
proof -
  from plan_new_name [OF assms] obtain i b where b: "plan_newFileName plan = formatScriptOrderPrefix i i @ b" by metis
  show "scriptOrderPrefixString (plan_newFileName plan) \<noteq> []" unfolding b format_script_eq by simp
  show "plan_newFileName plan \<noteq> []" unfolding b format_script_eq by simp
qed

lemma normalize_untitled: "normalizeScriptFolderName (''Untitled'' @ x) = ''Untitled'' @ x"
  by (simp add: normalizeScriptFolderName_def order_prefix_def is_digit_def)

lemma unique_untitled:
  "normalizeScriptFolderName (uniqueScriptFolderName ''Untitled'' F ex) = uniqueScriptFolderName ''Untitled'' F ex"
  "uniqueScriptFolderName ''Untitled'' F ex \<noteq> []"
proof -
  obtain j where "uniqueScriptFolderName ''Untitled'' F ex = suffixed '' '' (normalizeScriptFolderName ''Untitled'') j"
    unfolding uniqueScriptFolderName_def using unique_loop_suffixed by metis
  then obtain x where x: "uniqueScriptFolderName ''Untitled'' F ex = ''Untitled'' @ x"
    using normalize_untitled [of "[]"] by (auto simp: suffixed_def split: if_splits)
  show "normalizeScriptFolderName (uniqueScriptFolderName ''Untitled'' F ex) = uniqueScriptFolderName ''Untitled'' F ex"
    unfolding x by (rule normalize_untitled)
  show "uniqueScriptFolderName ''Untitled'' F ex \<noteq> []" unfolding x by simp
qed

lemma digit_first: "normalizeScriptFolderName k = k \<Longrightarrow> numbered_folder i n k \<noteq> k"
proof
  assume "normalizeScriptFolderName k = k" "numbered_folder i n k = k"
  then have "length (formatScriptFolderOrderPrefix (i + 1) n @ k) = length k" by (simp add: numbered_folder_def)
  then show False by simp
qed

lemma create_folder_kept:
  assumes rd: "ready e X s w st"
  shows "post a (create_script_folder e s w) (kept e X w st)"
proof -
  let ?F = "nk_scriptFolders s"
  define u where "u = uniqueScriptFolderName ''Untitled'' ?F []"
  obtain plan draws where plan: "planScriptInsertion ([] :: (string, ScriptRef) jsmap) None (e_rng e) (w_draws w) = (plan, draws)"
    by fastforce
  define f where "f = plan_newFileName plan"
  let ?w0 = "w\<lparr>w_draws := draws\<rparr>"
  obtain key w1 where cr: "createScript ?w0 = (key, w1)" by fastforce
  obtain s2 w2 where c: "clearSemanticUserFocus s w1 = (s2, w2)" by fastforce
  from quiet_clear [OF c] have q2: "quiet w1 w2" "s2 = s\<lparr>nk_semanticUserFocus := None\<rparr>" by auto
  let ?r = "\<lparr>rf_scriptId = key, rf_fileName = f\<rparr>" and ?d = "empty_script_data key f u"
  let ?page = "\<lparr>pg_folderName = u, pg_scripts = [(f, ?r)]\<rparr>"
  let ?s = "s2\<lparr>nk_scripts := js_set (nk_scripts s) key ?d, nk_scriptFolders := js_set ?F u ?page,
    nk_scriptFocus := \<lparr>sf_folderName = u, sf_fileName = f, sf_interactionCounter = sf_interactionCounter (nk_scriptFocus s) + 1\<rparr>\<rparr>"
  from rd have inv: "nb_inv s w" and fo: "folders_ok ?F" and no: "names_ok ?F" by (simp_all add: ready_def nb_inv_iff)
  have norm: "normalizeScriptFolderName u = u" and u0: "u \<noteq> []" unfolding u_def by (rule unique_untitled)+
  have f: "scriptOrderPrefixString f \<noteq> []" "f \<noteq> []" unfolding f_def by (rule plan_prefixed [OF plan])+
  have uniq: "normalizeScriptFolderName k \<noteq> u" if "k \<in> fst ` set ?F" for k
  proof -
    from that ready_not_Nil [OF rd] have "k \<noteq> []" by metis
    from uniqueScriptFolderName_fresh [OF that this] show ?thesis by (simp add: u_def)
  qed
  have u_new: "js_get ?F u = None" using uniq [of u] norm by (auto simp: keys_get_None)
  have heap0: "same_heap w ?w0" using did_draws by (rule did_heap)
  have sk: "skel_of (nk_scripts ?s) j = (if j = key then Some (key, key, u, f) else skel_of (nk_scripts s) j)" for j
    by (simp add: skel_of_set skel_def empty_script_data_def)
  have ent: "entry (nk_scriptFolders ?s) k' f' r' \<longleftrightarrow> (if k' = u \<and> f' = f then r' = ?r else entry ?F k' f' r')" for k' f' r'
    using u_new by (auto simp: entry_def js_get_set)
  have names: "names_ok (nk_scriptFolders ?s)"
  proof -
    have "inj_on normalizeScriptFolderName (insert u (fst ` set ?F))" unfolding inj_on_insert
      using no uniq by (auto simp: names_ok_def norm simp del: set_map)
    then show ?thesis using no f by (auto simp: names_ok_def page_names_ok_def js_get_set)
  qed
  have inv1: "nb_inv ?s w2"
  proof (rule created_inv [OF inv heap0 cr did_heap [OF quiet_did [OF q2(1)]] _ sk _ f(2) _ names _ ent])
    show "jsmap_ok (nk_scripts ?s)" using ready_scripts [OF rd] by simp
    show "nk_uncommittedScriptId ?s = nk_uncommittedScriptId s" by (simp add: q2(2))
    show "folders_ok (nk_scriptFolders ?s)" using folders_ok_set [OF fo u0, of ?page] by (simp add: jsmap_ok_def)
    show "focus_ok ?s" by (simp add: focus_ok_iff js_get_set file_ok_def)
    show "\<not> entry ?F u f r" for r using u_new by (simp add: entry_def)
  qed
  let ?ns = "getSortedScriptFolderNames e ?F"
  have jF: "jsmap_ok ?F" using fo by (simp add: folders_ok_def)
  have order: "distinct (?ns @ [u])" "set (?ns @ [u]) = fst ` set (nk_scriptFolders ?s)"
    using folder_names_distinct [OF jF, of e] u_new by (simp_all add: keys_get_None)
  have tx: "w_text w2 = js_set (w_text w) key []" and tasks: "w_tasks w2 = w_tasks w" and k1: "key = w_nextScript w"
    using quiet_text [OF q2(1)] quiet_tasks [OF q2(1)] cr by (auto simp: createScript_def w_tasks_def)
  from create_fresh [OF _ heap0 cr, of s] inv have fresh: "js_get (nk_scripts s) key = None" by (simp add: nb_inv_iff)
  have other: "js_get (w_text w2) j = js_get (w_text w) j" if "js_get (nk_scripts s) j \<noteq> None" for j
    using that fresh by (auto simp: tx js_get_set)
  have moves: "renumber (?ns @ [u]) u \<noteq> u" using digit_first [OF norm] by (simp add: renumber_def)
  have p: "js_get (nk_scriptFolders ?s) u = Some ?page" by (simp add: js_get_set)
  have ps: "pg_scripts ?page = [(f, ?r)]" by simp
  have t: "js_get (w_text w2) (rf_scriptId ?r) = Some []" by (simp add: tx js_get_set)
  have "post a (reprefixPages e (?ns @ [u]) u ?s w2) (\<lambda>r. kept e X w st (or_else r ?s))"
  proof (rule post_reprefix_new [OF inv1 order p ps t moves])
    fix s' w' ts assume r: "nb_inv s' w'" "did (sched e ts) w2 w'" "nk_uncommittedScriptId s' = nk_uncommittedScriptId ?s"
      "\<And>X v d. agrees X (w_text w2) (js_get (nk_scriptFolders ?s)) (v(u \<mapsto> [f \<mapsto> []])) \<Longrightarrow> v u = None \<Longrightarrow>
        \<exists>v'. disk_tasks ts (v, d) = Some (v', d) \<and> agrees X (w_text w2) (js_get (nk_scriptFolders s')) v'"
    show "kept e X w st (or_else (Some s') ?s) w'" unfolding or_else_def option.case
    proof (rule keptI [OF r(1)])
      show "w_tasks w' = w_tasks w @ sched e ts" using did_tasks [OF r(2)] tasks by simp
      assume "e_active e"
      note dr = ready_disk [OF rd this]
      have "agrees X (w_text w2) (js_get ?F) (view st)"
      proof (rule agrees_same_texts [OF conjunct1 [OF dr]])
        fix k f r assume "entry ?F k f r"
        then obtain p where "js_get ?F k = Some p" "js_get (pg_scripts p) f = Some r" by (auto simp: entry_def)
        from nb_ok_ref [OF _ this] inv show "js_get (w_text w2) (rf_scriptId r) = js_get (w_text w) (rf_scriptId r)"
          by (intro other) (auto simp: nb_inv_def)
      qed
      moreover have "page_agrees X (w_text w2) (js_get (pg_scripts ?page)) [f \<mapsto> []]"
        using t by (auto simp: page_agrees_iff)
      ultimately have "agrees X (w_text w2) ((js_get ?F)(u \<mapsto> ?page)) ((view st)(u \<mapsto> [f \<mapsto> []]))" by (rule agrees_upd)
      then have ag: "agrees X (w_text w2) (js_get (nk_scriptFolders ?s)) ((view st)(u \<mapsto> [f \<mapsto> []]))"
        by (simp add: map_of_js_set fun_upd_def)
      have vu: "view st u = None" using agrees_dom [OF conjunct1 [OF dr], of u] u_new by simp
      from r(4) [OF ag vu, of "st_draft st"] obtain v' where v': "disk_tasks ts (view st, st_draft st) = Some (v', st_draft st)"
        "agrees X (w_text w2) (js_get (nk_scriptFolders s')) v'" by blast
      have "js_get (nk_scripts s) (nk_uncommittedScriptId s) \<noteq> None" using inv nb_ok_draft [of s] by (auto simp: nb_inv_def)
      from other [OF this] dr r(3) v' did_text [OF r(2)] show "\<exists>vd. disk_tasks ts (disk_of st) = Some vd \<and> disk_agrees X s' w' vd"
        by (simp add: disk_of_def disk_agrees_def q2(2))
    qed
  qed
  then show ?thesis
    unfolding create_script_folder_def plan prod.case Let_def u_def [symmetric] f_def [symmetric] createEmptyScriptData_def cr c
    by (simp add: post_bind)
qed

end
