(* ===== verification/Notebook_Kept_Scripts.thy ===== *)
theory Notebook_Kept_Scripts
  imports Notebook_Kept_Folders
begin

text \<open>The actions on scripts keep the invariant of a notebook and the agreement with the disk: insertions with their
  re-padding, deletion, renaming and reordering.\<close>

section \<open>Files move inside a page\<close>

text \<open>The tasks take a disk that agrees with \<open>F\<close> to one that agrees with \<open>F'\<close>.\<close>

definition carries :: "(handle, string) jsmap \<Rightarrow> (string, ScriptFolder) jsmap \<Rightarrow> WriteTask list \<Rightarrow> (string, ScriptFolder) jsmap \<Rightarrow> bool" where
  "carries T F ts F' \<longleftrightarrow> (\<forall>X v d. agrees X T (js_get F) v \<longrightarrow>
     (\<exists>v'. disk_tasks ts (v, d) = Some (v', d) \<and> agrees X T (js_get F') v'))"

lemma carries_refl: "carries T F [] F"
  by (simp add: carries_def)

lemma carries_trans: "carries T F ts F' \<Longrightarrow> carries T F' us F'' \<Longrightarrow> carries T F (ts @ us) F''"
  unfolding carries_def
proof (intro allI impI)
  fix X v d
  assume a: "\<forall>X v d. agrees X T (js_get F) v \<longrightarrow> (\<exists>v'. disk_tasks ts (v, d) = Some (v', d) \<and> agrees X T (js_get F') v')"
    and b: "\<forall>X v d. agrees X T (js_get F') v \<longrightarrow> (\<exists>v'. disk_tasks us (v, d) = Some (v', d) \<and> agrees X T (js_get F'') v')"
    and v: "agrees X T (js_get F) v"
  from a v obtain v1 where v1: "disk_tasks ts (v, d) = Some (v1, d)" "agrees X T (js_get F') v1" by blast
  from b v1(2) obtain v2 where "disk_tasks us (v1, d) = Some (v2, d)" "agrees X T (js_get F'') v2" by blast
  with v1(1) show "\<exists>v'. disk_tasks (ts @ us) (v, d) = Some (v', d) \<and> agrees X T (js_get F'') v'"
    by (simp add: disk_tasks_append)
qed

lemma carriesD: "carries T F ts F' \<Longrightarrow> agrees X T (js_get F) v \<Longrightarrow>
    \<exists>v'. disk_tasks ts (v, d) = Some (v', d) \<and> agrees X T (js_get F') v'"
  unfolding carries_def by blast

lemma entry_fun: "entry F k f r \<Longrightarrow> entry F k f r' \<Longrightarrow> r = r'"
  by (auto simp: entry_def)

lemma kept_carries:
  "ready e X s w st \<Longrightarrow> nb_inv s' w' \<Longrightarrow> did (sched e ts) w w' \<Longrightarrow>
   nk_uncommittedScriptId s' = nk_uncommittedScriptId s \<Longrightarrow>
   carries (w_text w) (nk_scriptFolders s) ts (nk_scriptFolders s') \<Longrightarrow> kept e X w st s' w'"
  by (rule kept_disk, assumption+) (rule carriesD)

lemma files_moved_inv:
  assumes inv: "nb_inv s w" and heap: "same_heap w w'"
    and p: "js_get (nk_scriptFolders s) k = Some p"
    and mv: "moved \<sigma> (\<lambda>f r. r\<lparr>rf_fileName := \<sigma> f\<rparr>) (js_get (pg_scripts p)) (js_get refs)"
    and refs: "jsmap_ok refs" "page_names_ok refs" "\<And>f r. js_get (pg_scripts p) f = Some r \<Longrightarrow> \<sigma> f \<noteq> []"
    and sc: "jsmap_ok (nk_scripts s')"
      "\<And>j. skel_of (nk_scripts s') j = map_option (repath (\<lambda>k' f. (k', if k' = k then \<sigma> f else f))) (skel_of (nk_scripts s) j)"
    and s': "nk_scriptFolders s' = js_set (nk_scriptFolders s) k (p\<lparr>pg_scripts := refs\<rparr>)"
      "nk_uncommittedScriptId s' = nk_uncommittedScriptId s" "focus_ok s'"
  shows "nb_inv s' w'"
proof -
  let ?F = "nk_scriptFolders s" and ?F' = "nk_scriptFolders s'" and ?g = "\<lambda>k' f. (k', if k' = k then \<sigma> f else f)"
  from inv have fo: "folders_ok ?F" and no: "names_ok ?F" and pa: "paths_ok ?F (nk_scripts s) (nk_uncommittedScriptId s)"
    and h: "heap_ok s w" by (simp_all add: nb_inv_iff)
  from folders_okD [OF fo p] have k: "k \<noteq> []" "pg_folderName p = k" by auto
  have fo': "folders_ok ?F'" unfolding s'(1) by (rule folders_ok_set [OF fo k(1)]) (simp_all add: k refs)
  have "fst ` set ?F' = fst ` set ?F" using keys_get_Some [OF p] by (simp add: s'(1) insert_absorb)
  then have no': "names_ok ?F'" using no refs(2) by (auto simp: names_ok_def s'(1) js_get_set)
  have pa': "paths_ok ?F' (nk_scripts s') (nk_uncommittedScriptId s')" unfolding s'(2)
  proof (rule paths_ok_repath [OF pa sc(2)])
    fix l f r assume e: "entry ?F l f r"
    with pa have f: "f \<noteq> []" "rf_fileName r = f" by (auto simp: paths_ok_def)
    have same: "r\<lparr>rf_fileName := f\<rparr> = r" by (cases r) (use f(2) in simp)
    from e obtain q where q: "js_get ?F l = Some q" "js_get (pg_scripts q) f = Some r" by (auto simp: entry_def)
    show "snd (?g l f) \<noteq> [] \<and> entry ?F' (fst (?g l f)) (snd (?g l f)) (r\<lparr>rf_fileName := snd (?g l f)\<rparr>)"
    proof (cases "l = k")
      case True
      with q p have "js_get (pg_scripts p) f = Some r" by simp
      with movedD [OF mv this] refs(3) True show ?thesis by (auto simp: entry_def s'(1) js_get_set)
    next
      case False
      with f(1) q same show ?thesis by (auto simp: entry_def s'(1) js_get_set)
    qed
  next
    fix l' f' r' assume e': "entry ?F' l' f' r'"
    show "\<exists>l f r. entry ?F l f r \<and> ?g l f = (l', f') \<and> r' = r\<lparr>rf_fileName := f'\<rparr>"
    proof (cases "l' = k")
      case True
      with e' have "js_get refs f' = Some r'" by (auto simp: entry_def s'(1) js_get_set)
      with mv obtain f r where f: "js_get (pg_scripts p) f = Some r" "\<sigma> f = f'" "r' = r\<lparr>rf_fileName := \<sigma> f\<rparr>" by (rule movedE)
      with p have "entry ?F k f r" by (auto simp: entry_def)
      with f True show ?thesis by (intro exI [of _ k] exI [of _ f] exI [of _ r]) simp
    next
      case False
      with e' have e: "entry ?F l' f' r'" by (auto simp: entry_def s'(1) js_get_set)
      with pa have "rf_fileName r' = f'" by (auto simp: paths_ok_def)
      then have "r' = r'\<lparr>rf_fileName := f'\<rparr>" by (cases r') simp
      with e False show ?thesis by auto
    qed
  qed (use k(1) in simp)
  have "heap_ok s' w'" by (rule heap_ok_same [OF h heap keys_mapped [OF sc(2)]])
  with fo' no' pa' s'(3) sc(1) show ?thesis by (simp add: nb_inv_iff)
qed

text \<open>One file gets a new name.\<close>

lemma file_moved:
  assumes "js_get refs old = Some r" "js_get refs new = None" "\<And>f r. js_get refs f = Some r \<Longrightarrow> rf_fileName r = f"
  shows "moved (instead old new) (\<lambda>f r. r\<lparr>rf_fileName := instead old new f\<rparr>) (js_get refs)
     (js_get (js_set (js_delete refs old) new (r\<lparr>rf_fileName := new\<rparr>)))"
proof -
  have same: "x\<lparr>rf_fileName := f\<rparr> = x" if "js_get refs f = Some x" for f x
    using assms(3) [OF that] by (cases x) simp
  show ?thesis using assms(1,2) same by (auto simp: moved_def instead_def js_get_set js_get_delete split: if_splits)
qed

lemma file_names:
  assumes "page_names_ok refs" "js_get refs old = Some r" "normalizeScriptName new \<notin> normalizeScriptName ` (fst ` set refs - {old})"
    "scriptOrderPrefixString new \<noteq> []"
  shows "page_names_ok (js_set (js_delete refs old) new x)"
proof -
  have "inj_on normalizeScriptName (fst ` set refs - {old})"
    by (rule inj_on_subset) (use assms(1) in \<open>auto simp: page_names_ok_def\<close>)
  with assms(3) have "inj_on normalizeScriptName (insert new (fst ` set refs - {old}))"
    unfolding inj_on_insert by (metis (no_types, lifting) Diff_iff image_iff)
  then show ?thesis using assms(1,4) by (auto simp: page_names_ok_def)
qed

lemma ready_page:
  assumes "nb_inv s w" "js_get (nk_scriptFolders s) k = Some p"
  shows "k \<noteq> []" "pg_folderName p = k" "jsmap_ok (pg_scripts p)" "page_names_ok (pg_scripts p)"
    "js_get (pg_scripts p) f = Some r \<Longrightarrow> rf_fileName r = f \<and> f \<noteq> []"
    "js_get (pg_scripts p) f = Some r \<Longrightarrow> \<exists>d. js_get (nk_scripts s) (rf_scriptId r) = Some d \<and> sd_folderName d = k \<and> sd_fileName d = f"
  using assms folders_okD [of "nk_scriptFolders s" k p] nb_ok_ref [of s k p f r]
  by (auto simp: nb_inv_iff names_ok_def nb_ok_entries)

text \<open>The script of an entry is the one whose path is the entry's.\<close>

lemma skel_at:
  assumes "nb_inv s w" "js_get (nk_scriptFolders s) k = Some p" "js_get (pg_scripts p) f = Some r"
  shows "skel_of (nk_scripts s) j = Some (a, b, k, f) \<longleftrightarrow> j = rf_scriptId r \<and> a = j \<and> b = j"
proof
  have pa: "paths_ok (nk_scriptFolders s) (nk_scripts s) (nk_uncommittedScriptId s)" using assms(1) by (simp add: nb_inv_iff)
  have e: "entry (nk_scriptFolders s) k f r" using assms(2,3) by (auto simp: entry_def)
  { assume j: "skel_of (nk_scripts s) j = Some (a, b, k, f)"
    have "k \<noteq> []" using ready_page [OF assms(1,2)] by blast
    with pa j obtain r' where "entry (nk_scriptFolders s) k f r'" "rf_scriptId r' = j" "a = j" "b = j" unfolding paths_ok_def by blast
    with entry_fun [OF e] show "j = rf_scriptId r \<and> a = j \<and> b = j" by blast }
  assume "j = rf_scriptId r \<and> a = j \<and> b = j"
  moreover from pa e obtain a' b' where "skel_of (nk_scripts s) (rf_scriptId r) = Some (a', b', k, f)" unfolding paths_ok_def by blast
  ultimately show "skel_of (nk_scripts s) j = Some (a, b, k, f)" using pa unfolding paths_ok_def by blast
qed

section \<open>Renaming one file\<close>

lemma file_renamed_inv:
  assumes inv: "nb_inv s w" and heap: "same_heap w w'"
    and p: "js_get (nk_scriptFolders s) k = Some p" "js_get (pg_scripts p) old = Some r"
    and new: "js_get (pg_scripts p) new = None" "scriptOrderPrefixString new \<noteq> []"
      "normalizeScriptName new \<notin> normalizeScriptName ` (fst ` set (pg_scripts p) - {old})"
    and sc: "jsmap_ok (nk_scripts s')"
      "\<And>j. skel_of (nk_scripts s') j = (if j = rf_scriptId r then Some (j, j, k, new) else skel_of (nk_scripts s) j)"
    and s': "nk_scriptFolders s' = js_set (nk_scriptFolders s) k
        (p\<lparr>pg_scripts := js_set (js_delete (pg_scripts p) old) new (r\<lparr>rf_fileName := new\<rparr>)\<rparr>)"
      "nk_uncommittedScriptId s' = nk_uncommittedScriptId s"
      "sf_folderName (nk_scriptFocus s') = sf_folderName (nk_scriptFocus s)"
      "sf_folderName (nk_scriptFocus s) = k \<Longrightarrow> sf_fileName (nk_scriptFocus s') = instead old new (sf_fileName (nk_scriptFocus s))"
      "sf_folderName (nk_scriptFocus s) \<noteq> k \<Longrightarrow> sf_fileName (nk_scriptFocus s') = sf_fileName (nk_scriptFocus s)"
  shows "nb_inv s' w'"
proof -
  let ?refs = "pg_scripts p" and ?F = "nk_scriptFolders s"
  note page = ready_page [OF inv p(1)]
  have new0: "new \<noteq> []" using new(2) by (auto simp: scriptOrderPrefixString_def order_prefix_def)
  show ?thesis
  proof (rule files_moved_inv [OF inv heap p(1) file_moved [OF p(2) new(1)] _ _ _ sc(1) _ s'(1,2)])
    show "js_get ?refs f = Some x \<Longrightarrow> rf_fileName x = f" for f x using page(5) by blast
    show "jsmap_ok (js_set (js_delete ?refs old) new (r\<lparr>rf_fileName := new\<rparr>))" using page(3) by simp
    show "page_names_ok (js_set (js_delete ?refs old) new (r\<lparr>rf_fileName := new\<rparr>))"
      by (rule file_names [OF page(4) p(2) new(3,2)])
    show "js_get ?refs f = Some x \<Longrightarrow> instead old new f \<noteq> []" for f x using page(5) new0 by (auto simp: instead_def)
    fix j
    show "skel_of (nk_scripts s') j = map_option (repath (\<lambda>k' f. (k', if k' = k then instead old new f else f))) (skel_of (nk_scripts s) j)"
    proof (cases "skel_of (nk_scripts s) j")
      case None
      with skel_at [OF inv p, of j j j] show ?thesis by (auto simp: sc(2))
    next
      case (Some x)
      obtain a b l f where x: "x = (a, b, l, f)" using prod_cases4 by blast
      note at = skel_at [OF inv p, of j a b]
      show ?thesis
      proof (cases "l = k \<and> f = old")
        case True
        with at Some x show ?thesis by (simp add: sc(2) repath_def instead_def)
      next
        case False
        have "j \<noteq> rf_scriptId r"
        proof
          assume "j = rf_scriptId r"
          then have "skel_of (nk_scripts s) j = Some (j, j, k, old)" using skel_at [OF inv p, of j j j] by simp
          with Some x False show False by simp
        qed
        with False Some x show ?thesis by (auto simp: sc(2) repath_def instead_def)
      qed
    qed
  next
    from inv obtain q where q: "js_get ?F (sf_folderName (nk_scriptFocus s)) = Some q" "file_ok q (sf_fileName (nk_scriptFocus s))"
      by (auto simp: nb_inv_iff focus_ok_iff)
    show "focus_ok s'"
    proof (cases "sf_folderName (nk_scriptFocus s) = k")
      case True
      with q p have "sf_fileName (nk_scriptFocus s) \<in> fst ` set ?refs" by (auto simp: file_ok_keys split: if_splits)
      then have "instead old new (sf_fileName (nk_scriptFocus s)) \<in> fst ` set (js_set (js_delete ?refs old) new (r\<lparr>rf_fileName := new\<rparr>))"
        by (auto simp: instead_def)
      then show ?thesis using s'(3) s'(4) [OF True] True by (auto simp: focus_ok_iff s'(1) js_get_set file_ok_keys)
    next
      case False
      with q show ?thesis using s'(3) s'(5) [OF False] by (simp add: focus_ok_iff s'(1) js_get_set)
    qed
  qed
qed

lemma page_set: "(js_get F)(k \<mapsto> p) = js_get (js_set F k p)"
  by (rule ext) (simp add: js_get_set)

lemma carries_page:
  assumes "js_get F k = Some p"
    and "\<And>X v m d. page_agrees X T (js_get (pg_scripts p)) m \<Longrightarrow> v k = Some m \<Longrightarrow>
      \<exists>m'. disk_tasks ts (v, d) = Some (v(k \<mapsto> m'), d) \<and> page_agrees X T (js_get refs) m'"
  shows "carries T F ts (js_set F k (p\<lparr>pg_scripts := refs\<rparr>))"
  unfolding carries_def
proof (intro allI impI)
  fix X v d assume ag: "agrees X T (js_get F) v"
  from agrees_page [OF ag assms(1)] obtain m where m: "v k = Some m" "page_agrees X T (js_get (pg_scripts p)) m" by blast
  from assms(2) [where X = X and v = v and m = m and d = d, OF m(2,1)] obtain m' where m': "disk_tasks ts (v, d) = Some (v(k \<mapsto> m'), d)" "page_agrees X T (js_get refs) m'" by blast
  from m'(2) have "page_agrees X T (js_get (pg_scripts (p\<lparr>pg_scripts := refs\<rparr>))) m'" by simp
  from agrees_upd [OF ag this, of k] m'(1)
  show "\<exists>v'. disk_tasks ts (v, d) = Some (v', d) \<and> agrees X T (js_get (js_set F k (p\<lparr>pg_scripts := refs\<rparr>))) v'"
    unfolding page_set by blast
qed

lemma refs_upd: "js_get (js_set (js_delete refs old) new x) = (js_get refs)(old := None, new \<mapsto> x)"
  by (rule ext) (simp add: js_get_set js_get_delete)

lemma page_agrees_None: "page_agrees X T R m \<Longrightarrow> R f = None \<Longrightarrow> m f = None"
  by (simp add: page_agrees_iff)

lemma page_agrees_at: "page_agrees X T R m \<Longrightarrow> R f = Some r \<Longrightarrow> \<exists>t. m f = Some t \<and> (rf_scriptId r \<notin> X \<longrightarrow> js_get T (rf_scriptId r) = Some t)"
  unfolding page_agrees_iff by (cases "m f") auto

lemma carries_refile:
  assumes "js_get F k = Some p" "js_get (pg_scripts p) old = Some r" "js_get T (rf_scriptId r) = Some t"
  shows "carries T F [DELETE_SCRIPT nid k old, WRITE_SCRIPT nid k new t]
    (js_set F k (p\<lparr>pg_scripts := js_set (js_delete (pg_scripts p) old) new (r\<lparr>rf_fileName := new\<rparr>)\<rparr>))"
proof (rule carries_page [OF assms(1)])
  fix X v m d assume m: "page_agrees X T (js_get (pg_scripts p)) m" "v k = Some m"
  obtain u where u: "m old = Some u" using page_agrees_at [OF m(1) assms(2)] by blast
  have "page_agrees X T (js_get (js_set (js_delete (pg_scripts p) old) new (r\<lparr>rf_fileName := new\<rparr>))) (m(old := None, new \<mapsto> t))"
    unfolding refs_upd by (rule page_agrees_upd [OF page_agrees_del [OF m(1)]]) (simp add: assms(3))
  then show "\<exists>m'. disk_tasks [DELETE_SCRIPT nid k old, WRITE_SCRIPT nid k new t] (v, d) = Some (v(k \<mapsto> m'), d) \<and>
      page_agrees X T (js_get (js_set (js_delete (pg_scripts p) old) new (r\<lparr>rf_fileName := new\<rparr>))) m'"
    using u m(2) by (intro exI [of _ "m(old := None, new \<mapsto> t)"]) (simp add: or_else_def)
qed

lemma carries_rename_file:
  assumes "js_get F k = Some p" "js_get (pg_scripts p) old = Some r" "js_get (pg_scripts p) new = None"
  shows "carries T F [RENAME_SCRIPT nid k old new]
    (js_set F k (p\<lparr>pg_scripts := js_set (js_delete (pg_scripts p) old) new (r\<lparr>rf_fileName := new\<rparr>)\<rparr>))"
proof (rule carries_page [OF assms(1)])
  fix X v m d assume m: "page_agrees X T (js_get (pg_scripts p)) m" "v k = Some m"
  obtain u where u: "m old = Some u" "rf_scriptId r \<notin> X \<Longrightarrow> js_get T (rf_scriptId r) = Some u"
    using page_agrees_at [OF m(1) assms(2)] by blast
  have n: "m new = None" by (rule page_agrees_None [OF m(1) assms(3)])
  have "page_agrees X T (js_get (js_set (js_delete (pg_scripts p) old) new (r\<lparr>rf_fileName := new\<rparr>))) (m(old := None, new \<mapsto> u))"
    unfolding refs_upd by (rule page_agrees_upd [OF page_agrees_del [OF m(1)]]) (simp add: u(2))
  then show "\<exists>m'. disk_tasks [RENAME_SCRIPT nid k old new] (v, d) = Some (v(k \<mapsto> m'), d) \<and>
      page_agrees X T (js_get (js_set (js_delete (pg_scripts p) old) new (r\<lparr>rf_fileName := new\<rparr>))) m'"
    using u n m(2) by (intro exI [of _ "m(old := None, new \<mapsto> u)"]) simp
qed

section \<open>Re-padding\<close>

lemma js_set_twice [simp]: "js_set (js_set m k x) k y = js_set m k y"
  by (induction m) auto

text \<open>The notebook with new content of one page and the focus on one of its files.\<close>

definition repaged :: "NotebookState \<Rightarrow> string \<Rightarrow> ScriptFolder \<Rightarrow> repad_state \<Rightarrow> NotebookState" where
  "repaged s k p r = s\<lparr>nk_scriptFolders := js_set (nk_scriptFolders s) k (p\<lparr>pg_scripts := fst r\<rparr>), nk_scripts := fst (snd r),
     nk_scriptFocus := (nk_scriptFocus s)\<lparr>sf_fileName := snd (snd r)\<rparr>\<rparr>"

lemma repaged_repaged: "repaged (repaged s k p r) k (p\<lparr>pg_scripts := x\<rparr>) q = repaged s k p q"
  by (simp add: repaged_def)

lemma repaged_self: "js_get (nk_scriptFolders s) k = Some p \<Longrightarrow>
    repaged s k p (pg_scripts p, nk_scripts s, sf_fileName (nk_scriptFocus s)) = s"
proof -
  assume p: "js_get (nk_scriptFolders s) k = Some p"
  have "js_set m k p = m" if "js_get m k = Some p" for m :: "(string, ScriptFolder) jsmap"
    using that by (induction m) (auto split: if_splits)
  with p show ?thesis by (simp add: repaged_def)
qed

text \<open>Renames that keep the names without prefix.\<close>

definition repad_ok :: "ScriptRename list \<Rightarrow> (string, ScriptRef) jsmap \<Rightarrow> bool" where
  "repad_ok reps refs \<longleftrightarrow> distinct (map oldFileName reps) \<and> (\<forall>r \<in> set reps. oldFileName r \<in> fst ` set refs \<and>
     newFileName r \<noteq> oldFileName r \<and> normalizeScriptName (newFileName r) = normalizeScriptName (oldFileName r) \<and>
     scriptOrderPrefixString (newFileName r) \<noteq> [])"

lemma inj_on_out: "inj_on f A \<Longrightarrow> a \<in> A \<Longrightarrow> f a \<notin> f ` (A - {a})"
  by (auto simp: inj_on_def)

lemma repad_fold:
  assumes "nb_inv s w" "js_get (nk_scriptFolders s) k = Some p" "sf_folderName (nk_scriptFocus s) = k"
    "repad_ok reps (pg_scripts p)" "\<And>r. r \<in> set reps \<Longrightarrow> oldFileName r \<notin> targets"
  shows "post a (nb_fold (repad_one e nid k targets) reps (pg_scripts p, nk_scripts s, sf_fileName (nk_scriptFocus s)) w)
    (\<lambda>r w'. nb_inv (repaged s k p r) w' \<and> normalizeScriptName ` (fst ` set (fst r)) = normalizeScriptName ` (fst ` set (pg_scripts p)) \<and>
      (\<exists>ts. did (sched e ts) w w' \<and> carries (w_text w) (nk_scriptFolders s) ts (nk_scriptFolders (repaged s k p r))))"
  using assms
proof (induction reps arbitrary: s p w)
  case Nil
  then show ?case by (auto simp: repaged_self intro!: exI [of _ "[]"] carries_refl)
next
  case (Cons x reps)
  let ?refs = "pg_scripts p" and ?old = "oldFileName x" and ?new = "newFileName x"
  note inv = Cons.prems(1) and p = Cons.prems(2)
  note page = ready_page [OF inv p]
  have x: "?old \<in> fst ` set ?refs" "?new \<noteq> ?old" "normalizeScriptName ?new = normalizeScriptName ?old"
    "scriptOrderPrefixString ?new \<noteq> []" and d: "distinct (map oldFileName (x # reps))"
    using Cons.prems(4) by (simp_all add: repad_ok_def)
  from has_key [OF x(1)] obtain r where r: "js_get ?refs ?old = Some r" by blast
  from page(6) [OF r] obtain sd where sd: "js_get (nk_scripts s) (rf_scriptId r) = Some sd" "sd_folderName sd = k" by blast
  from nb_inv_live [OF inv sd(1)] have id: "sd_script sd = rf_scriptId r" "sd_scriptKey sd = rf_scriptId r" "rf_scriptId r \<in> live w" by auto
  from live_text [OF id(3)] obtain t where t: "js_get (w_text w) (rf_scriptId r) = Some t" by blast
  let ?refs1 = "js_set (js_delete ?refs ?old) ?new (r\<lparr>rf_fileName := ?new\<rparr>)"
  let ?scripts1 = "js_set (nk_scripts s) (rf_scriptId r) (sd\<lparr>sd_fileName := ?new\<rparr>)"
  let ?focus1 = "if sf_fileName (nk_scriptFocus s) = ?old then ?new else sf_fileName (nk_scriptFocus s)"
  let ?del = "DELETE_SCRIPT nid k ?old" and ?put = "WRITE_SCRIPT nid k ?new t"
  let ?w1 = "nb_write e (groupScriptWrites nid k ?new) ?put (nb_write e (groupScriptDeletes nid k ?old) ?del w)"
  have old: "?old \<notin> targets" using Cons.prems(5) [of x] by simp
  have one: "repad_one e nid k targets x (?refs, nk_scripts s, sf_fileName (nk_scriptFocus s)) w =
      Return (?refs1, ?scripts1, ?focus1) ?w1"
    using old by (simp add: repad_one_def r sd(1) Let_def js_get_set script_toString_def id(1) t)
  let ?s1 = "repaged s k p (?refs1, ?scripts1, ?focus1)" and ?p1 = "p\<lparr>pg_scripts := ?refs1\<rparr>"
  have inj: "inj_on normalizeScriptName (fst ` set ?refs)" using page(4) by (simp add: page_names_ok_def)
  have fresh: "normalizeScriptName ?new \<notin> normalizeScriptName ` (fst ` set ?refs - {?old})"
    unfolding x(3) by (rule inj_on_out [OF inj x(1)])
  have new: "js_get ?refs ?new = None"
  proof (rule ccontr)
    assume "js_get ?refs ?new \<noteq> None"
    then have "?new \<in> fst ` set ?refs - {?old}" using x(2) by (simp add: js_has_key [symmetric])
    with fresh show False by blast
  qed
  have did: "did (sched e [?del, ?put]) w ?w1"
    using did_then_write [OF did_write [of e ?del w], of ?put] by simp
  have sk: "skel_of ?scripts1 j = (if j = rf_scriptId r then Some (j, j, k, ?new) else skel_of (nk_scripts s) j)" for j
    using sd(2) id by (simp add: skel_of_set skel_def)
  have inv1: "nb_inv ?s1 ?w1"
    by (rule file_renamed_inv [OF inv did_heap [OF did] p r new x(4) fresh])
      (use inv Cons.prems(3) in \<open>simp_all add: repaged_def sk instead_def nb_inv_iff\<close>)
  have p1: "js_get (nk_scriptFolders ?s1) k = Some ?p1" by (simp add: repaged_def js_get_set)
  have foc1: "sf_folderName (nk_scriptFocus ?s1) = k" using Cons.prems(3) by (simp add: repaged_def)
  have keys: "normalizeScriptName ` (fst ` set ?refs1) = normalizeScriptName ` (fst ` set ?refs)"
  proof -
    have "normalizeScriptName ` (fst ` set ?refs) = insert (normalizeScriptName ?old) (normalizeScriptName ` (fst ` set ?refs - {?old}))"
      using x(1) by (metis image_insert insert_Diff)
    then show ?thesis by (simp add: x(3))
  qed
  have ok1: "repad_ok reps (pg_scripts ?p1)" unfolding repad_ok_def
  proof (intro conjI ballI)
    show "distinct (map oldFileName reps)" using d by simp
    fix y assume y: "y \<in> set reps"
    then have "oldFileName y \<noteq> ?old" using d by (metis distinct.simps(2) image_eqI list.set_map list.simps(9))
    then show "oldFileName y \<in> fst ` set (pg_scripts ?p1)" "newFileName y \<noteq> oldFileName y"
      "normalizeScriptName (newFileName y) = normalizeScriptName (oldFileName y)" "scriptOrderPrefixString (newFileName y) \<noteq> []"
      using Cons.prems(4) y by (simp_all add: repad_ok_def)
  qed
  have car: "carries (w_text w) (nk_scriptFolders s) [?del, ?put] (nk_scriptFolders ?s1)"
    using carries_refile [OF p r t, of nid ?new] by (simp add: repaged_def)
  have st1: "(pg_scripts ?p1, nk_scripts ?s1, sf_fileName (nk_scriptFocus ?s1)) = (?refs1, ?scripts1, ?focus1)"
    by (simp add: repaged_def)
  have tx: "w_text ?w1 = w_text w" by simp
  have rest: "repaged ?s1 k ?p1 q = repaged s k p q" for q by (rule repaged_repaged)
  show ?case unfolding nb_fold.simps one nb_bind_Return
  proof (rule post_weaken [OF Cons.IH [OF inv1 p1 foc1 ok1, unfolded st1 tx rest]])
    show "oldFileName r \<notin> targets" if "r \<in> set reps" for r using Cons.prems(5) that by simp
    fix q w'
    assume "nb_inv (repaged s k p q) w' \<and>
      normalizeScriptName ` (fst ` set (fst q)) = normalizeScriptName ` (fst ` set (pg_scripts ?p1)) \<and>
      (\<exists>ts. did (sched e ts) ?w1 w' \<and> carries (w_text w) (nk_scriptFolders ?s1) ts (nk_scriptFolders (repaged s k p q)))"
    then obtain ts where q: "nb_inv (repaged s k p q) w'"
      "normalizeScriptName ` (fst ` set (fst q)) = normalizeScriptName ` (fst ` set (pg_scripts ?p1))"
      "did (sched e ts) ?w1 w'" "carries (w_text w) (nk_scriptFolders ?s1) ts (nk_scriptFolders (repaged s k p q))" by blast
    have "did (sched e ([?del, ?put] @ ts)) w w'" unfolding sched_append by (rule did_trans [OF did q(3)])
    moreover have "carries (w_text w) (nk_scriptFolders s) ([?del, ?put] @ ts) (nk_scriptFolders (repaged s k p q))"
      by (rule carries_trans [OF car q(4)])
    moreover have "normalizeScriptName ` (fst ` set (fst q)) = normalizeScriptName ` (fst ` set ?refs)" using q(2) keys by simp
    ultimately show "nb_inv (repaged s k p q) w' \<and>
      normalizeScriptName ` (fst ` set (fst q)) = normalizeScriptName ` (fst ` set ?refs) \<and>
      (\<exists>ts. did (sched e ts) w w' \<and> carries (w_text w) (nk_scriptFolders s) ts (nk_scriptFolders (repaged s k p q)))"
      using q(1) by blast
  qed
qed

section \<open>Insertion\<close>

lemma map_filter_old: "map oldFileName (List.map_filter (repad_of n) ks) = filter (\<lambda>k. repad_of n k \<noteq> None) ks"
  by (induction ks) (auto simp: List.map_filter_simps dest: repad_of_old split: option.split)

lemma repad_of_prefixed: "repad_of n k = Some r \<Longrightarrow> scriptOrderPrefixString (newFileName r) \<noteq> []"
  by (auto simp: repad_of_def Let_def split: if_splits)

lemma repad_plan_ok:
  assumes "jsmap_ok refs" "page_names_ok refs"
  shows "repad_ok (List.map_filter (repad_of n) (object_keys refs)) refs"
    "r \<in> set (List.map_filter (repad_of n) (object_keys refs)) \<Longrightarrow>
      oldFileName r \<notin> set (map newFileName (List.map_filter (repad_of n) (object_keys refs)))"
proof -
  let ?reps = "List.map_filter (repad_of n) (object_keys refs)"
  have elem: "\<exists>k \<in> fst ` set refs. repad_of n k = Some x" if "x \<in> set ?reps" for x
    using that by (auto simp: set_map_filter)
  show "repad_ok ?reps refs" unfolding repad_ok_def
  proof (intro conjI ballI)
    show "distinct (map oldFileName ?reps)" unfolding map_filter_old using distinct_object_keys [OF assms(1)] by simp
    fix x assume "x \<in> set ?reps"
    from elem [OF this] obtain k where k: "k \<in> fst ` set refs" "repad_of n k = Some x" by blast
    with repad_of_old [OF k(2)] repad_of_normalize [OF k(2)] repad_of_prefixed [OF k(2)]
    show "oldFileName x \<in> fst ` set refs" "newFileName x \<noteq> oldFileName x"
      "normalizeScriptName (newFileName x) = normalizeScriptName (oldFileName x)" "scriptOrderPrefixString (newFileName x) \<noteq> []"
      by simp_all
  qed
  assume r: "r \<in> set ?reps"
  show "oldFileName r \<notin> set (map newFileName ?reps)"
  proof
    assume "oldFileName r \<in> set (map newFileName ?reps)"
    then obtain q where q: "q \<in> set ?reps" "oldFileName r = newFileName q" by auto
    from elem [OF r] obtain k where k: "k \<in> fst ` set refs" "repad_of n k = Some r" by blast
    from elem [OF q(1)] obtain l where l: "l \<in> fst ` set refs" "repad_of n l = Some q" by blast
    from repad_of_old [OF k(2)] repad_of_normalize [OF l(2)] q(2) have "normalizeScriptName k = normalizeScriptName l" by simp
    with assms(2) k(1) l(1) have "k = l" unfolding page_names_ok_def by (meson inj_onD)
    with repad_of_old [OF k(2)] repad_of_old [OF l(2)] q(2) show False by simp
  qed
qed

text \<open>A file that can be added to a page.\<close>

definition addable :: "string \<Rightarrow> (string, ScriptRef) jsmap \<Rightarrow> bool" where
  "addable file refs \<longleftrightarrow> normalizeScriptName file \<notin> normalizeScriptName ` (fst ` set refs) \<and>
     scriptOrderPrefixString file \<noteq> [] \<and> file \<noteq> []"

lemma plan_and_repad_post:
  assumes inv: "nb_inv s w" and p: "js_get (nk_scriptFolders s) k = Some p" "sf_folderName (nk_scriptFocus s) = k"
  shows "post a (plan_and_repad e p s w) (\<lambda>(file, r) w'. nb_inv (repaged s k p r) w' \<and> addable file (fst r) \<and>
    (\<exists>ts. did (sched e ts) w w' \<and> carries (w_text w) (nk_scriptFolders s) ts (nk_scriptFolders (repaged s k p r))))"
proof -
  let ?refs = "pg_scripts p"
  note page = ready_page [OF inv p(1)]
  obtain plan draws where plan: "planScriptInsertion ?refs None (e_rng e) (w_draws w) = (plan, draws)" by fastforce
  from plan_repad_eq [OF plan] obtain n where reps: "plan_repad plan = List.map_filter (repad_of n) (object_keys ?refs)" by blast
  note ok = repad_plan_ok [where n = n, OF page(3,4), folded reps]
  let ?w = "w\<lparr>w_draws := draws\<rparr>"
  have did0: "did [] w ?w" by (rule did_draws)
  have inv0: "nb_inv s ?w"
    by (rule nb_inv_skel [OF inv did_heap [OF did0]]) (use inv in \<open>simp_all add: nb_inv_iff\<close>)
  have tx: "w_text ?w = w_text w" by simp
  have fresh: "normalizeScriptName (plan_newFileName plan) \<notin> normalizeScriptName ` (fst ` set ?refs)"
  proof
    assume "normalizeScriptName (plan_newFileName plan) \<in> normalizeScriptName ` (fst ` set ?refs)"
    then obtain f where f: "f \<in> fst ` set ?refs" "normalizeScriptName (plan_newFileName plan) = normalizeScriptName f"
      by (rule imageE) blast
    from has_key [OF f(1)] page(5) have "f \<noteq> []" by blast
    from plan_new_display [OF plan f(1) this] f(2) show False by (simp add: scriptDisplayName_def)
  qed
  show ?thesis
    unfolding plan_and_repad_def plan prod.case Let_def applyScriptRepad_def page(2)
  proof (rule post_bind, rule post_weaken [OF repad_fold [OF inv0 p ok, unfolded tx]])
    fix r w' assume r: "nb_inv (repaged s k p r) w' \<and>
      normalizeScriptName ` (fst ` set (fst r)) = normalizeScriptName ` (fst ` set ?refs) \<and>
      (\<exists>ts. did (sched e ts) ?w w' \<and> carries (w_text w) (nk_scriptFolders s) ts (nk_scriptFolders (repaged s k p r)))"
    then obtain ts where ts: "did (sched e ts) ?w w'" "carries (w_text w) (nk_scriptFolders s) ts (nk_scriptFolders (repaged s k p r))"
      by blast
    from did_trans [OF did0 ts(1)] have "did (sched e ts) w w'" by simp
    with r ts(2) fresh plan_prefixed [OF plan]
    show "post a (Return (plan_newFileName plan, r) w') (\<lambda>(file, r) w'. nb_inv (repaged s k p r) w' \<and> addable file (fst r) \<and>
        (\<exists>ts. did (sched e ts) w w' \<and> carries (w_text w) (nk_scriptFolders s) ts (nk_scriptFolders (repaged s k p r))))"
      by (auto simp: addable_def)
  qed
qed

lemma addable_new: "addable file refs \<Longrightarrow> js_get refs file = None"
  unfolding addable_def keys_get_None by blast

lemma page_names_add:
  assumes "page_names_ok refs" "addable file refs"
  shows "page_names_ok (js_set refs file x)"
proof -
  have "normalizeScriptName file \<notin> normalizeScriptName ` (fst ` set refs - {file})" using assms(2) unfolding addable_def by blast
  then have "inj_on normalizeScriptName (insert file (fst ` set refs))"
    unfolding inj_on_insert using assms(1) by (simp add: page_names_ok_def)
  with assms show ?thesis by (auto simp: page_names_ok_def addable_def)
qed

lemma names_ok_page:
  assumes "names_ok F" "js_get F k = Some p" "page_names_ok (pg_scripts q)"
  shows "names_ok (js_set F k q)"
proof -
  have "fst ` set (js_set F k q) = fst ` set F" using keys_get_Some [OF assms(2)] by (simp add: insert_absorb)
  with assms(1,3) show ?thesis by (auto simp: names_ok_def js_get_set)
qed

lemma entry_add:
  assumes "js_get F k = Some p" "js_get (pg_scripts p) f = None"
  shows "entry (js_set F k (p\<lparr>pg_scripts := js_set (pg_scripts p) f x\<rparr>)) k' f' r' \<longleftrightarrow>
    (if k' = k \<and> f' = f then r' = x else entry F k' f' r')"
  using assms by (auto simp: entry_def js_get_set)

lemma carries_add:
  assumes "js_get F k = Some p" "js_get T (rf_scriptId x) = Some t"
  shows "carries T F [WRITE_SCRIPT nid k f t] (js_set F k (p\<lparr>pg_scripts := js_set (pg_scripts p) f x\<rparr>))"
proof (rule carries_page [OF assms(1)])
  fix X v m d assume m: "page_agrees X T (js_get (pg_scripts p)) m" "v k = Some m"
  have eq: "js_get (js_set (pg_scripts p) f x) = (js_get (pg_scripts p))(f \<mapsto> x)" by (rule ext) (simp add: js_get_set)
  have "page_agrees X T (js_get (js_set (pg_scripts p) f x)) (m(f \<mapsto> t))"
    unfolding eq by (rule page_agrees_upd [OF m(1)]) (rule assms(2))
  then show "\<exists>m'. disk_tasks [WRITE_SCRIPT nid k f t] (v, d) = Some (v(k \<mapsto> m'), d) \<and>
      page_agrees X T (js_get (js_set (pg_scripts p) f x)) m'"
    using m(2) by (intro exI [of _ "m(f \<mapsto> t)"]) (simp add: or_else_def)
qed

end
