(* ===== verification/Notebook_Kept_Files.thy ===== *)
theory Notebook_Kept_Files
  imports Notebook_Kept_Scripts
begin

text \<open>The deletion, renaming and reordering of the files of a page.\<close>

section \<open>Deletion\<close>

lemma page_names_delete: "page_names_ok refs \<Longrightarrow> page_names_ok (js_delete refs f)"
  unfolding page_names_ok_def by (auto intro: inj_on_subset)

lemma file_ok_in: "f \<in> fst ` set (pg_scripts p) \<Longrightarrow> file_ok p f"
  by (auto simp: file_ok_keys)

lemma delete_script_kept:
  assumes rd: "ready e X s w st"
  shows "post a (delete_script e f s w) (kept e X w st)"
proof -
  obtain p where p: "getSelectedScriptFolder e s = Some p"
    "js_get (nk_scriptFolders s) (sf_folderName (nk_scriptFocus s)) = Some p"
    "pg_folderName p = sf_folderName (nk_scriptFocus s)" "file_ok p (sf_fileName (nk_scriptFocus s))"
    by (rule selected_folder [OF ready_focus [OF rd] ready_folders [OF rd]]) blast
  let ?k = "sf_folderName (nk_scriptFocus s)" and ?F = "nk_scriptFolders s" and ?ff = "sf_fileName (nk_scriptFocus s)"
  let ?ns = "getSortedScriptFolderNames e ?F" and ?fs = "getSortedScriptFileNames e p"
  note inv = ready_inv [OF rd]
  note page = ready_page [OF inv p(2)]
  show ?thesis
  proof (cases "js_get (pg_scripts p) f")
    case None
    then show ?thesis using kept_refl [OF rd] by (simp add: delete_script_def p(1))
  next
    case (Some r)
    from page(5) [OF Some] have rf: "rf_fileName r = f" by simp
    show ?thesis
    proof (cases "filter (\<lambda>n. n \<noteq> f) ?fs = []")
      case True
      show ?thesis
      proof (cases "length ?ns \<le> 1")
        case l: True
        then show ?thesis using kept_refl [OF rd] True by (simp add: delete_script_def p(1) Some Let_def)
      next
        case False
        then have "filter (\<lambda>n. n \<noteq> ?k) ?ns \<noteq> []" using two_names [OF ready_folder_names [OF rd]] by simp
        from neighbour_in [OF this] have n: "neighbour ?ns ?k \<in> fst ` set ?F" "neighbour ?ns ?k \<noteq> ?k" by auto
        then have "js_get ?F (neighbour ?ns ?k) \<noteq> None" unfolding js_has_key by blast
        from delete_folder_to_kept [OF rd _ this n(2)] True False p(2) show ?thesis
          by (simp add: delete_script_def p(1,3) Some Let_def)
      qed
    next
      case False
      let ?refs = "js_delete (pg_scripts p) f"
      let ?F' = "js_set ?F ?k (p\<lparr>pg_scripts := ?refs\<rparr>)"
      let ?ff' = "if ?ff = f then neighbour ?fs f else ?ff"
      obtain s1 w1 where c: "clearSemanticUserFocus s w = (s1, w1)" by fastforce
      from quiet_clear [OF c] have q: "quiet w w1" "s1 = s\<lparr>nk_semanticUserFocus := None\<rparr>" by auto
      let ?s2 = "s1\<lparr>nk_scriptFolders := ?F', nk_scriptFocus := (nk_scriptFocus s)\<lparr>sf_fileName := ?ff'\<rparr>\<rparr>"
      from neighbour_in [OF False] have nb: "neighbour ?fs f \<in> fst ` set (pg_scripts p) - {f}" by simp
      have "?ff' \<in> fst ` set (pg_scripts p) - {f}"
      proof (cases "?ff = f")
        case F: False
        from p(4) Some have "?ff \<in> fst ` set (pg_scripts p)" by (auto simp: file_ok_keys split: if_splits)
        with F show ?thesis by simp
      qed (use nb in simp)
      then have "?ff' \<in> fst ` set (pg_scripts (p\<lparr>pg_scripts := ?refs\<rparr>))" by simp
      from file_ok_in [OF this] have foc: "focus_ok ?s2" by (simp add: focus_ok_iff js_get_set)
      have fo: "folders_ok ?F'" by (rule folders_ok_set [OF ready_folders [OF rd] page(1)]) (use page(2,3) in simp_all)
      have no: "names_ok ?F'"
        by (rule names_ok_page [OF _ p(2)]) (use page_names_delete [OF page(4)] inv in \<open>simp_all add: nb_inv_iff\<close>)
      have sub: "entry ?F' l g x \<Longrightarrow> entry ?F l g x" for l g x
        using p(2) by (auto simp: entry_def js_get_set js_get_delete split: if_splits)
      let ?g = "groupScriptDeletes (nk_notebookId s) ?k f" and ?t = "DELETE_SCRIPT (nk_notebookId s) ?k f"
      have "post a (destroyDeadScripts ?s2 w1) (\<lambda>s' w'. kept e X w st s' (nb_write e (groupScriptDeletes (nk_notebookId s') ?k f)
          (DELETE_SCRIPT (nk_notebookId s') ?k f) w'))"
      proof (rule post_destroyDead [OF inv sub fo no did_heap [OF quiet_did [OF q(1)]] quiet_text [OF q(1)] _ _ _ foc])
        fix s' w' assume inv': "nb_inv s' w'" and t': "w_tasks w' = w_tasks w1" and F': "nk_scriptFolders s' = ?F'"
          and u': "nk_uncommittedScriptId s' = nk_uncommittedScriptId s"
          and tx: "\<And>j. j = nk_uncommittedScriptId s \<or> (\<exists>k f r. entry ?F' k f r \<and> rf_scriptId r = j) \<Longrightarrow>
            js_get (w_text w') j = js_get (w_text w) j"
        let ?t = "DELETE_SCRIPT (nk_notebookId s') ?k f" and ?g = "groupScriptDeletes (nk_notebookId s') ?k f"
        show "kept e X w st s' (nb_write e ?g ?t w')"
        proof (rule keptI [where ts = "[?t]"])
          show "nb_inv s' (nb_write e ?g ?t w')"
            by (rule nb_inv_skel [OF inv' did_heap [OF did_write] refl _ refl refl]) (use inv' in \<open>simp_all add: nb_inv_iff\<close>)
          show "w_tasks (nb_write e ?g ?t w') = w_tasks w @ sched e [?t]"
            using did_tasks [OF did_write] t' quiet_tasks [OF q(1)] by simp
          assume "e_active e"
          note dr = ready_disk [OF rd this]
          from agrees_page [OF conjunct1 [OF dr] p(2)] obtain m where
            m: "view st ?k = Some m" "page_agrees X (w_text w) (js_get (pg_scripts p)) m" by blast
          have eq: "(js_get (pg_scripts p))(f := None) = js_get ?refs" by (rule ext) (simp add: js_get_delete)
          from page_agrees_del [OF m(2), of f] have "page_agrees X (w_text w) (js_get (pg_scripts (p\<lparr>pg_scripts := ?refs\<rparr>))) (m(f := None))"
            unfolding eq by simp
          from agrees_upd [OF conjunct1 [OF dr] this, of ?k]
          have "agrees X (w_text w) (js_get ?F') ((view st)(?k \<mapsto> m(f := None)))" unfolding page_set .
          then have "agrees X (w_text w') (js_get ?F') ((view st)(?k \<mapsto> m(f := None)))"
            by (rule agrees_same_texts) (use tx in blast)
          moreover have "m f \<noteq> None" using page_agrees_at [OF m(2) Some] by auto
          moreover have "nk_uncommittedScriptId s \<notin> X \<Longrightarrow> js_get (w_text w') (nk_uncommittedScriptId s) = Some (st_draft st)"
            using dr tx by simp
          ultimately show "\<exists>vd. disk_tasks [?t] (disk_of st) = Some vd \<and> disk_agrees X s' (nb_write e ?g ?t w') vd"
            using m(1) by (simp add: disk_of_def disk_agrees_def F' u')
        qed
      qed (simp_all add: q(2))
      then show ?thesis using False by (simp add: delete_script_def p(1,3) Some Let_def c post_bind rf)
    qed
  qed
qed

section \<open>Renaming\<close>

lemma prefix_of_renamed:
  assumes "scriptOrderPrefixString old \<noteq> []"
  shows "normalizeScriptName (renamed_file old base refs) = uniqueScriptBase base refs old @ ''.sql''"
    "scriptOrderPrefixString (renamed_file old base refs) = scriptOrderPrefixString old"
proof -
  show n: "normalizeScriptName (renamed_file old base refs) = uniqueScriptBase base refs old @ ''.sql''"
    unfolding renamed_file_def by (rule normalize_prefixed [OF assms])
  have "scriptOrderPrefixString (renamed_file old base refs) @ normalizeScriptName (renamed_file old base refs) = renamed_file old base refs"
    by (rule prefix_normalize)
  then show "scriptOrderPrefixString (renamed_file old base refs) = scriptOrderPrefixString old"
    unfolding n by (simp add: renamed_file_def)
qed

lemma js_set_same: "js_get m k = Some v \<Longrightarrow> js_set m k v = m"
  by (induction m) (auto split: if_splits)

lemma rename_script_kept:
  assumes rd: "ready e X s w st"
  shows "post (core_accepts (e_core e)) (rename_script e old requested s w) (kept e X w st)"
proof -
  obtain p where p: "getSelectedScriptFolder e s = Some p"
    "js_get (nk_scriptFolders s) (sf_folderName (nk_scriptFocus s)) = Some p"
    "pg_folderName p = sf_folderName (nk_scriptFocus s)"
    by (rule selected_folder [OF ready_focus [OF rd] ready_folders [OF rd]]) blast
  let ?k = "sf_folderName (nk_scriptFocus s)" and ?F = "nk_scriptFolders s" and ?nid = "nk_notebookId s"
  let ?base = "scriptDisplayName (js_trim requested)" and ?a = "core_accepts (e_core e)"
  note inv = ready_inv [OF rd]
  note page = ready_page [OF inv p(2)]
  show ?thesis
  proof (cases "js_get (pg_scripts p) old = None \<or> ?base = []")
    case True
    then show ?thesis using kept_refl [OF rd] by (auto simp: rename_script_def p(1) Let_def split: option.split)
  next
    case False
    then obtain r where r: "js_get (pg_scripts p) old = Some r" and base: "?base \<noteq> []" by auto
    define new where "new = renamed_file old ?base (pg_scripts p)"
    have inr: "old \<in> fst ` set (pg_scripts p)" by (rule keys_get_Some [OF r])
    with page(4) have pre: "scriptOrderPrefixString old \<noteq> []" unfolding page_names_ok_def by blast
    note ren = prefix_of_renamed [OF pre, of ?base "pg_scripts p", folded new_def]
    from page(6) [OF r] obtain d where d: "js_get (nk_scripts s) (rf_scriptId r) = Some d" "sd_folderName d = ?k" "sd_fileName d = old" by blast
    from nb_inv_live [OF inv d(1)] have id: "sd_script d = rf_scriptId r" "sd_scriptKey d = rf_scriptId r" "rf_scriptId r \<in> live w" by auto
    from live_text [OF id(3)] obtain t where t: "js_get (w_text w) (rf_scriptId r) = Some t" by blast
    show ?thesis
    proof (cases "old = new")
      case True
      have same: "r\<lparr>rf_fileName := old\<rparr> = r" using page(5) [OF r] by (cases r) simp
      have sd: "d\<lparr>sd_fileName := old\<rparr> = d" using d(3) by (cases d) simp
      note sets = js_set_same [OF r] js_set_same [OF p(2)] js_set_same [OF d(1)]
      have paths: "?k \<noteq> []" "old \<noteq> []" using page(1) page(5) [OF r] by auto
      have eq: "rename_script e old requested s w = Return s (write_script_text e ?nid d t w)"
        using base
        by (simp add: rename_script_def p(1,3) r Let_def renamed_scripts_def d sd True [unfolded new_def, symmetric]
            sets same script_toString_def id t write_script_text_def paths)
      have "kept e (X - {rf_scriptId r}) w st s (write_script_text e ?nid d t w)"
        by (rule kept_text [OF rd same_heap_refl refl t _ d(1) refl]) (simp_all add: ready_scripts [OF rd])
      from kept_less [OF this] show ?thesis by (simp add: eq)
    next
      case False
      have name: "renamed_file old ?base (pg_scripts p) = new" by (simp add: new_def)
      let ?refs = "js_set (js_delete (pg_scripts p) old) new (r\<lparr>rf_fileName := new\<rparr>)"
      have fresh: "normalizeScriptName new \<notin> normalizeScriptName ` (fst ` set (pg_scripts p) - {old})"
      proof
        assume "normalizeScriptName new \<in> normalizeScriptName ` (fst ` set (pg_scripts p) - {old})"
        then obtain g where g: "g \<in> fst ` set (pg_scripts p)" "g \<noteq> old" "normalizeScriptName new = normalizeScriptName g"
          by (rule imageE) blast
        have "scriptDisplayName g = uniqueScriptBase ?base (pg_scripts p) old"
          by (rule display_of_normalized) (use g(3) ren(1) in simp)
        with uniqueScriptBase_fresh [OF g(1,2)] show False by blast
      qed
      have none: "js_get (pg_scripts p) new = None"
      proof (rule ccontr)
        assume "js_get (pg_scripts p) new \<noteq> None"
        then have "new \<in> fst ` set (pg_scripts p) - {old}" using False unfolding js_has_key by simp
        with fresh show False by blast
      qed
      have sl: "sd_script (d\<lparr>sd_fileName := new\<rparr>) \<in> live w" using id by simp
      have head: "post ?a (renamed_scripts e True (rf_scriptId r) new (nk_scripts s) w) (\<lambda>m w1. \<exists>d'.
          m = mark_outdated (\<lambda>k. k = rf_scriptId r) (js_set (nk_scripts s) (rf_scriptId r) d') \<and>
          skel d' = skel (d\<lparr>sd_fileName := new\<rparr>) \<and> quiet w w1)"
        by (simp add: renamed_scripts_def d(1), rule post_bind, rule post_analyze [OF sl ready_lookup [OF rd]]) auto
      let ?foc = "(nk_scriptFocus s)\<lparr>sf_fileName := (if sf_fileName (nk_scriptFocus s) = old then new else sf_fileName (nk_scriptFocus s))\<rparr>"
      let ?task = "RENAME_SCRIPT ?nid ?k old new" and ?g = "groupScriptRenames ?nid ?k old"
      let ?F' = "js_set ?F ?k (p\<lparr>pg_scripts := ?refs\<rparr>)"
      have eq: "rename_script e old requested s w = nb_bind (renamed_scripts e True (rf_scriptId r) new (nk_scripts s) w) (\<lambda>m w.
          case clearSemanticUserFocus s w of (s', w) \<Rightarrow>
            Return (s'\<lparr>nk_scriptFolders := ?F', nk_scripts := m, nk_scriptFocus := ?foc\<rparr>) (nb_write e ?g ?task w))"
        using base False by (simp add: rename_script_def p(1,3) r name Let_def)
      show ?thesis unfolding eq
      proof (rule post_bind, rule post_weaken [OF head], elim exE conjE)
        fix m w1 d' assume m: "m = mark_outdated (\<lambda>k. k = rf_scriptId r) (js_set (nk_scripts s) (rf_scriptId r) d')"
          and sk: "skel d' = skel (d\<lparr>sd_fileName := new\<rparr>)" and q: "quiet w w1"
        obtain s2 w2 where c: "clearSemanticUserFocus s w1 = (s2, w2)" by fastforce
        from quiet_clear [OF c] have q2: "quiet w w2" and s2: "s2 = s\<lparr>nk_semanticUserFocus := None\<rparr>"
          using quiet_trans [OF q] by auto
        let ?s' = "s2\<lparr>nk_scriptFolders := ?F', nk_scripts := m, nk_scriptFocus := ?foc\<rparr>" and ?w3 = "nb_write e ?g ?task w2"
        have did: "did (sched e [?task]) w ?w3" by (rule quiet_then_did [OF q2 did_write])
        have skm: "skel_of (nk_scripts ?s') j = (if j = rf_scriptId r then Some (j, j, ?k, new) else skel_of (nk_scripts s) j)" for j
          using sk id d by (simp add: m skel_of_set skel_def)
        have jm: "jsmap_ok (nk_scripts ?s')" using ready_scripts [OF rd] by (simp add: m)
        have pre': "scriptOrderPrefixString new \<noteq> []" using pre ren(2) by simp
        have inv': "nb_inv ?s' ?w3"
          by (rule file_renamed_inv [OF inv did_heap [OF did] p(2) r none pre' fresh jm skm])
            (simp_all add: s2 instead_def)
        have "kept e X w st ?s' ?w3"
        proof (rule kept_carries [OF rd inv' did])
          show "carries (w_text w) (nk_scriptFolders s) [?task] (nk_scriptFolders ?s')"
            using carries_rename_file [OF p(2) r none] by simp
        qed (simp add: s2)
        then show "post ?a (case clearSemanticUserFocus s w1 of (s', w) \<Rightarrow>
            Return (s'\<lparr>nk_scriptFolders := ?F', nk_scripts := m, nk_scriptFocus := ?foc\<rparr>) (nb_write e ?g ?task w)) (kept e X w st)"
          by (simp add: c)
      qed
    qed
  qed
qed

section \<open>Reordering\<close>

definition renumber_file :: "string list \<Rightarrow> string \<Rightarrow> string" where
  "renumber_file order f = (if f \<in> set order then numbered_file (nat (js_index_of order f)) (length order) f else f)"

definition file_renames :: "string list \<Rightarrow> (string \<times> string) list" where
  "file_renames order = map (\<lambda>f. (f, renumber_file order f)) (filter (\<lambda>f. renumber_file order f \<noteq> f) order)"

lemma normalize_numbered_file: "normalizeScriptName (numbered_file i n f) = normalizeScriptName f"
  unfolding numbered_file_def format_script_eq by (rule normalize_script_pad)

lemma normalize_renumber_file [simp]: "normalizeScriptName (renumber_file order f) = normalizeScriptName f"
  by (simp add: renumber_file_def normalize_numbered_file)

lemma numbered_file_prefix: "scriptOrderPrefixString (numbered_file i n f) \<noteq> []"
  unfolding numbered_file_def format_script_eq by simp

lemma numbered_file_not_Nil [simp]: "numbered_file i n f \<noteq> []"
  by (simp add: numbered_file_def formatScriptOrderPrefix_def)

text \<open>The loop, on names.\<close>

definition file_step :: "(string, ScriptRef) jsmap \<Rightarrow> (string \<Rightarrow> string) \<Rightarrow> string \<Rightarrow> reorder_state \<Rightarrow> reorder_state" where
  "file_step refs \<sigma> f r =
    (case js_get refs f of
       None \<Rightarrow> r
     | Some x \<Rightarrow>
        if \<sigma> f = f then r\<lparr>ro_refs := js_set (ro_refs r) f x\<rparr>
        else r\<lparr>ro_renames := ro_renames r @ [(f, \<sigma> f)],
               ro_scripts := (case js_get (ro_scripts r) (rf_scriptId x) of
                 Some sd \<Rightarrow> js_set (ro_scripts r) (rf_scriptId x) (sd\<lparr>sd_fileName := \<sigma> f\<rparr>)
               | None \<Rightarrow> ro_scripts r),
               ro_refs := js_set (ro_refs r) (\<sigma> f) (x\<lparr>rf_fileName := \<sigma> f\<rparr>)\<rparr>)"

lemma fold_enumerate:
  assumes "\<And>x. x \<in> set (enumerate 0 xs) \<Longrightarrow> F x = G (snd x)"
  shows "fold F (enumerate 0 xs) = fold G xs"
proof -
  have "fold F (enumerate 0 xs) = fold (\<lambda>x. G (snd x)) (enumerate 0 xs)" by (intro ext fold_cong refl assms)
  also have "\<dots> = fold G (map snd (enumerate 0 xs))" by (simp only: fold_map comp_def)
  finally show ?thesis by simp
qed

lemma reorder_fold:
  assumes "distinct order"
  shows "fold (reorder_one refs (length order)) (enumerate 0 order) r = fold (file_step refs (renumber_file order)) order r"
proof (rule fold_enumerate [THEN fun_cong])
  fix x assume "x \<in> set (enumerate 0 order)"
  obtain i f where x: "x = (i, f)" by fastforce
  with \<open>x \<in> _\<close> have m: "(i, f) \<in> set (enumerate 0 order)" by simp
  then have f: "f \<in> set order" by (force simp: in_set_enumerate_eq)
  from index_enumerate [OF assms m] have "numbered_file i (length order) f = renumber_file order f"
    using f by (simp add: renumber_file_def)
  then show "reorder_one refs (length order) x = file_step refs (renumber_file order) (snd x)"
    by (auto simp: x reorder_one_def file_step_def fun_eq_iff Let_def split: option.split)
qed

lemma step_renames:
  assumes "\<And>f. f \<in> set fs \<Longrightarrow> js_get refs f \<noteq> None"
  shows "ro_renames (fold (file_step refs \<sigma>) fs r) = ro_renames r @ map (\<lambda>f. (f, \<sigma> f)) (filter (\<lambda>f. \<sigma> f \<noteq> f) fs)"
  using assms
proof (induction fs arbitrary: r)
  case (Cons f fs)
  from Cons.prems [of f] obtain x where "js_get refs f = Some x" by auto
  with Cons show ?case by (simp add: file_step_def)
qed simp

lemma step_refs:
  assumes "\<And>f. f \<in> set fs \<Longrightarrow> \<exists>x. js_get refs f = Some x \<and> rf_fileName x = f"
  shows "ro_refs (fold (file_step refs \<sigma>) fs r) =
    fold (\<lambda>f m. js_set m (\<sigma> f) ((the (js_get refs f))\<lparr>rf_fileName := \<sigma> f\<rparr>)) fs (ro_refs r)"
  using assms
proof (induction fs arbitrary: r)
  case (Cons f fs)
  from Cons.prems [of f] obtain x where x: "js_get refs f = Some x" "rf_fileName x = f" by auto
  have same: "x\<lparr>rf_fileName := f\<rparr> = x" by (cases x) (use x(2) in simp)
  have "ro_refs (file_step refs \<sigma> f r) = js_set (ro_refs r) (\<sigma> f) (x\<lparr>rf_fileName := \<sigma> f\<rparr>)"
    by (cases "\<sigma> f = f") (simp_all add: file_step_def x same)
  with Cons x show ?case by simp
qed simp

lemma step_moved:
  assumes "\<And>f. f \<in> set fs \<Longrightarrow> \<exists>x. js_get refs f = Some x \<and> rf_fileName x = f" "distinct fs" "set fs = fst ` set refs"
    "inj_on \<sigma> (set fs)" "ro_refs r = []"
  shows "moved \<sigma> (\<lambda>f x. x\<lparr>rf_fileName := \<sigma> f\<rparr>) (js_get refs) (js_get (ro_refs (fold (file_step refs \<sigma>) fs r)))"
    "jsmap_ok (ro_refs (fold (file_step refs \<sigma>) fs r))"
proof -
  let ?h = "\<lambda>f. (the (js_get refs f))\<lparr>rf_fileName := \<sigma> f\<rparr>"
  have eq: "ro_refs (fold (file_step refs \<sigma>) fs r) = fold (\<lambda>f m. js_set m (\<sigma> f) (?h f)) fs []"
    using step_refs [of fs refs \<sigma> r, OF assms(1)] by (simp add: assms(5))
  have d: "distinct (map \<sigma> fs)" using assms(2,4) by (simp add: distinct_map)
  show "jsmap_ok (ro_refs (fold (file_step refs \<sigma>) fs r))" unfolding eq by (rule jsmap_ok_fold_set) simp
  show "moved \<sigma> (\<lambda>f x. x\<lparr>rf_fileName := \<sigma> f\<rparr>) (js_get refs) (js_get (ro_refs (fold (file_step refs \<sigma>) fs r)))"
    unfolding moved_def eq
  proof (intro conjI allI impI)
    fix f x assume f: "js_get refs f = Some x"
    then have "f \<in> set fs" unfolding assms(3) by (rule keys_get_Some)
    from fold_js_set_key [OF d this, of ?h "[]"] f
    show "js_get (fold (\<lambda>f m. js_set m (\<sigma> f) (?h f)) fs []) (\<sigma> f) = Some (x\<lparr>rf_fileName := \<sigma> f\<rparr>)" by simp
  next
    fix k' x' assume k': "js_get (fold (\<lambda>f m. js_set m (\<sigma> f) (?h f)) fs []) k' = Some x'"
    have "k' \<in> \<sigma> ` set fs"
    proof (rule ccontr)
      assume "k' \<notin> \<sigma> ` set fs"
      then have "js_get (fold (\<lambda>f m. js_set m (\<sigma> f) (?h f)) fs []) k' = js_get [] k'" by (rule fold_js_set_other)
      with k' show False by simp
    qed
    then obtain f where "f \<in> set fs" "\<sigma> f = k'" by blast
    with assms(1) show "\<exists>k x. js_get refs k = Some x \<and> \<sigma> k = k'" by blast
  qed
qed

lemma step_scripts:
  assumes inv: "nb_inv s w" and p: "js_get (nk_scriptFolders s) k = Some p"
    and fs: "\<And>f. f \<in> set fs \<Longrightarrow> js_get (pg_scripts p) f \<noteq> None" "distinct fs" and r: "ro_scripts r = nk_scripts s"
  shows "jsmap_ok (ro_scripts (fold (file_step (pg_scripts p) \<sigma>) fs r)) \<and>
    (\<forall>j. skel_of (ro_scripts (fold (file_step (pg_scripts p) \<sigma>) fs r)) j =
      map_option (repath (\<lambda>k' f. (k', if k' = k \<and> f \<in> set fs then \<sigma> f else f))) (skel_of (nk_scripts s) j))"
  using fs
proof (induction fs rule: rev_induct)
  case Nil
  have "repath (\<lambda>k' f. (k', if k' = k \<and> f \<in> set [] then \<sigma> f else f)) = id" by (auto simp: repath_def fun_eq_iff)
  then show ?case using inv r by (simp add: nb_inv_iff option.map_ident id_def)
next
  case (snoc f fs)
  let ?r = "fold (file_step (pg_scripts p) \<sigma>) fs r"
  have IH: "jsmap_ok (ro_scripts ?r)" and sk: "\<And>j. skel_of (ro_scripts ?r) j =
      map_option (repath (\<lambda>k' f. (k', if k' = k \<and> f \<in> set fs then \<sigma> f else f))) (skel_of (nk_scripts s) j)"
    using snoc.IH snoc.prems by auto
  from snoc.prems(1) [of f] obtain x where x: "js_get (pg_scripts p) f = Some x" by auto
  note at = skel_at [OF inv p x]
  have f: "f \<notin> set fs" using snoc.prems(2) by simp
  have there: "skel_of (ro_scripts ?r) (rf_scriptId x) = Some (rf_scriptId x, rf_scriptId x, k, f)"
    using at [of "rf_scriptId x" "rf_scriptId x" "rf_scriptId x"] f by (simp add: sk repath_def)
  then obtain d where d: "js_get (ro_scripts ?r) (rf_scriptId x) = Some d" "skel d = (rf_scriptId x, rf_scriptId x, k, f)"
    by (auto simp: skel_of_def)
  let ?r' = "fold (file_step (pg_scripts p) \<sigma>) (fs @ [f]) r"
  have new: "jsmap_ok (ro_scripts ?r') \<and> (\<forall>j. skel_of (ro_scripts ?r') j =
      (if j = rf_scriptId x then Some (j, j, k, \<sigma> f) else skel_of (ro_scripts ?r) j))"
    using IH d there by (auto simp: file_step_def x skel_of_set skel_def)
  have "(if j = rf_scriptId x then Some (j, j, k, \<sigma> f) else skel_of (ro_scripts ?r) j) =
      map_option (repath (\<lambda>k' g. (k', if k' = k \<and> g \<in> set (fs @ [f]) then \<sigma> g else g))) (skel_of (nk_scripts s) j)" for j
  proof (cases "j = rf_scriptId x")
    case True
    with at [of j j j] show ?thesis by (simp add: repath_def)
  next
    case False
    then have "skel_of (nk_scripts s) j = Some (a, b, k, g) \<Longrightarrow> g \<noteq> f" for a b g using at [of j a b] by blast
    with False show ?thesis by (cases "skel_of (nk_scripts s) j") (auto simp: sk repath_def)
  qed
  with new show ?case by simp
qed

text \<open>What the tasks do on disk: the moved files are deleted, then written under their new names.\<close>

lemma renumber_file_fresh:
  assumes "inj_on normalizeScriptName A" "f \<in> A" "renumber_file order f \<noteq> f"
  shows "renumber_file order f \<notin> A"
  using assms by (metis inj_onD normalize_renumber_file)

lemma inj_renumber_file: "inj_on normalizeScriptName A \<Longrightarrow> inj_on (renumber_file order) A"
  by (rule inj_onI) (metis inj_onD normalize_renumber_file)

lemma disk_deletes:
  assumes "distinct fs" "\<And>f. f \<in> set fs \<Longrightarrow> m f \<noteq> None" "v k = Some m"
  shows "disk_tasks (map (DELETE_SCRIPT nid k) fs) (v, d) = Some (v(k \<mapsto> m |` (- set fs)), d)"
  using assms
proof (induction fs arbitrary: m v)
  case Nil
  then show ?case by (simp add: fun_upd_idem)
next
  case (Cons f fs)
  let ?v = "v(k \<mapsto> m(f := None))"
  have "disk_tasks (map (DELETE_SCRIPT nid k) fs) (?v, d) = Some (?v(k \<mapsto> (m(f := None)) |` (- set fs)), d)"
    by (rule Cons.IH) (use Cons.prems in auto)
  moreover have "(m(f := None)) |` (- set fs) = m |` (- set (f # fs))" by (auto simp: restrict_map_def)
  ultimately have "disk_tasks (map (DELETE_SCRIPT nid k) fs) (?v, d) = Some (v(k \<mapsto> m |` (- set (f # fs))), d)"
    by (simp only: fun_upd_upd)
  moreover have "disk_task (DELETE_SCRIPT nid k f) (v, d) = Some (?v, d)" using Cons.prems by simp
  ultimately show ?case by (simp only: list.map disk_tasks.simps Option.bind.bind_lunit)
qed

lemma disk_writes:
  "disk_tasks (map (\<lambda>f. WRITE_SCRIPT nid k (\<sigma> f) (T f)) fs) (v(k \<mapsto> m), d) =
    Some (v(k \<mapsto> fold (\<lambda>f m. m(\<sigma> f \<mapsto> T f)) fs m), d)"
  by (induction fs arbitrary: m) (simp_all add: or_else_def)

lemma fold_upd_get:
  assumes "distinct (map \<sigma> fs)"
  shows "f \<in> set fs \<Longrightarrow> fold (\<lambda>f m. m(\<sigma> f \<mapsto> T f)) fs m (\<sigma> f) = Some (T f)"
    "g \<notin> \<sigma> ` set fs \<Longrightarrow> fold (\<lambda>f m. m(\<sigma> f \<mapsto> T f)) fs m g = m g"
  using assms by (induction fs arbitrary: m rule: rev_induct) (auto simp: image_iff)

lemma files_moved_disk:
  fixes order :: "string list" and T :: "string \<Rightarrow> string"
  defines "\<sigma> \<equiv> renumber_file order" and "olds \<equiv> filter (\<lambda>f. renumber_file order f \<noteq> f) order"
  assumes inj: "inj_on normalizeScriptName (set order)" and d: "distinct order" and dom: "\<And>f. m f \<noteq> None \<longleftrightarrow> f \<in> set order"
    and v: "v k = Some m"
  shows "\<exists>m'. disk_tasks (map (DELETE_SCRIPT nid k) olds @ map (\<lambda>f. WRITE_SCRIPT nid k (\<sigma> f) (T f)) olds) (v, x) =
      Some (v(k \<mapsto> m'), x) \<and> moved \<sigma> (\<lambda>f t. if \<sigma> f = f then t else T f) m m'"
proof -
  let ?m = "fold (\<lambda>f m. m(\<sigma> f \<mapsto> T f)) olds (m |` (- set olds))"
  have olds: "set olds \<subseteq> set order" "distinct olds" "f \<in> set olds \<longleftrightarrow> f \<in> set order \<and> \<sigma> f \<noteq> f" for f
    using d by (auto simp: olds_def \<sigma>_def)
  have "inj_on \<sigma> (set olds)" unfolding \<sigma>_def by (rule inj_on_subset [OF inj_renumber_file [OF inj] olds(1)])
  with olds(2) have ds: "distinct (map \<sigma> olds)" by (simp add: distinct_map)
  have fresh: "f \<notin> \<sigma> ` set olds" if "f \<in> set order" for f
  proof
    assume "f \<in> \<sigma> ` set olds"
    then obtain g where g: "g \<in> set order" "\<sigma> g \<noteq> g" "f = \<sigma> g" using olds(3) by blast
    from renumber_file_fresh [OF inj g(1)] g(2,3) that show False by (simp add: \<sigma>_def)
  qed
  have "disk_tasks (map (DELETE_SCRIPT nid k) olds) (v, x) = Some (v(k \<mapsto> m |` (- set olds)), x)"
    by (rule disk_deletes [where m = m]) (use dom olds(1,2) v in auto)
  then have "disk_tasks (map (DELETE_SCRIPT nid k) olds @ map (\<lambda>f. WRITE_SCRIPT nid k (\<sigma> f) (T f)) olds) (v, x) =
      Some (v(k \<mapsto> ?m), x)"
    unfolding disk_tasks_append by (simp only: Option.bind.bind_lunit disk_writes)
  moreover have "moved \<sigma> (\<lambda>f t. if \<sigma> f = f then t else T f) m ?m" unfolding moved_def
  proof (intro conjI allI impI)
    fix f t assume f: "m f = Some t"
    then have fo: "f \<in> set order" using dom [of f] by simp
    show "?m (\<sigma> f) = Some (if \<sigma> f = f then t else T f)"
    proof (cases "\<sigma> f = f")
      case True
      with f olds(3) have "?m f = Some t" by (simp add: fold_upd_get(2) [OF ds fresh [OF fo]])
      with True show ?thesis by simp
    next
      case False
      with fo olds(3) have "f \<in> set olds" by simp
      from fold_upd_get(1) [OF ds this] False show ?thesis by simp
    qed
  next
    fix f' t' assume f': "?m f' = Some t'"
    show "\<exists>f t. m f = Some t \<and> \<sigma> f = f'"
    proof (cases "f' \<in> \<sigma> ` set olds")
      case True
      then obtain f where f: "f \<in> set olds" "\<sigma> f = f'" by blast
      with olds(1) dom [of f] obtain t where "m f = Some t" by blast
      with f(2) show ?thesis by blast
    next
      case False
      from f' have "m f' = Some t'" "f' \<notin> set olds"
        unfolding fold_upd_get(2) [OF ds False] by (simp_all add: restrict_map_def split: if_splits)
      with olds(3) dom [of f'] have "\<sigma> f' = f'" by simp
      with \<open>m f' = Some t'\<close> show ?thesis by blast
    qed
  qed
  ultimately show ?thesis by blast
qed

lemma page_keys: "page_agrees X T (js_get refs) m \<Longrightarrow> m f \<noteq> None \<longleftrightarrow> f \<in> fst ` set refs"
  by (simp only: page_agrees_dom keys_get_None not_not)

lemma carries_reorder:
  assumes p: "js_get F k = Some p" and order: "distinct order" "set order = fst ` set (pg_scripts p)"
    "inj_on normalizeScriptName (set order)"
    and tx: "\<And>f r. js_get (pg_scripts p) f = Some r \<Longrightarrow> js_get T (rf_scriptId r) = Some (tx f)"
    and mv: "moved (renumber_file order) (\<lambda>f r. r\<lparr>rf_fileName := renumber_file order f\<rparr>) (js_get (pg_scripts p)) (js_get refs)"
  shows "carries T F
    (map (DELETE_SCRIPT nid k) (map fst (file_renames order)) @
     map (\<lambda>f. WRITE_SCRIPT nid k (renumber_file order f) (tx f)) (map fst (file_renames order)))
    (js_set F k (p\<lparr>pg_scripts := refs\<rparr>))"
proof (rule carries_page [OF p])
  have olds: "map fst (file_renames order) = filter (\<lambda>f. renumber_file order f \<noteq> f) order"
    by (simp add: file_renames_def comp_def)
  fix X v m d assume m: "page_agrees X T (js_get (pg_scripts p)) m" "v k = Some m"
  have dom: "m f \<noteq> None \<longleftrightarrow> f \<in> set order" for f unfolding order(2) by (rule page_keys [OF m(1)])
  obtain m' where m': "disk_tasks (map (DELETE_SCRIPT nid k) (map fst (file_renames order)) @
      map (\<lambda>f. WRITE_SCRIPT nid k (renumber_file order f) (tx f)) (map fst (file_renames order))) (v, d) = Some (v(k \<mapsto> m'), d)"
    "moved (renumber_file order) (\<lambda>f t. if renumber_file order f = f then t else tx f) m m'"
    using files_moved_disk [where m = m and v = v and k = k and T = tx and nid = nid and x = d, OF order(3,1) dom m(2)] unfolding olds by blast
  have "page_agrees X T (js_get refs) m'"
    by (rule page_agrees_moved [OF m(1) mv m'(2)]) (use tx in auto)
  with m'(1) show "\<exists>m'. disk_tasks (map (DELETE_SCRIPT nid k) (map fst (file_renames order)) @
      map (\<lambda>f. WRITE_SCRIPT nid k (renumber_file order f) (tx f)) (map fst (file_renames order))) (v, d) = Some (v(k \<mapsto> m'), d) \<and>
      page_agrees X T (js_get refs) m'" by blast
qed

text \<open>What is scheduled.\<close>

lemma did_fold_write: "did (sched e (map task xs)) w (fold (\<lambda>x. nb_write e (key x) (task x)) xs w)"
proof (induction xs arbitrary: w)
  case (Cons x xs)
  from did_trans [OF did_write Cons.IH, of e "task x" w "key x"] show ?case by (simp flip: sched_append)
qed simp

lemma fold_writes:
  assumes "\<And>x w'. x \<in> set xs \<Longrightarrow> w_text w' = w_text w \<Longrightarrow> F x () w' = Return () (nb_write e (key x) (task x) w')"
  shows "nb_fold F xs () w = Return () (fold (\<lambda>x. nb_write e (key x) (task x)) xs w)"
  using assms by (induction xs arbitrary: w) simp_all

lemma delete_moved_eq:
  assumes "\<And>x. x \<in> set rs \<Longrightarrow> fst x \<notin> snd ` set rs"
  shows "delete_moved e nid k rs w = fold (\<lambda>x. nb_write e (groupScriptDeletes nid k (fst x)) (DELETE_SCRIPT nid k (fst x))) rs w"
  unfolding delete_moved_def by (intro fold_cong refl) (use assms in \<open>auto simp: fun_eq_iff\<close>)

section \<open>The action\<close>

definition file_text :: "nb_world \<Rightarrow> (string, ScriptRef) jsmap \<Rightarrow> string \<Rightarrow> string" where
  "file_text w refs f = the (js_get (w_text w) (rf_scriptId (the (js_get refs f))))"

text \<open>The loop leaves a page with the renamed files and the scripts with their new paths.\<close>

definition reordered :: "(string, ScriptRef) jsmap \<Rightarrow> (nat, ScriptData) jsmap \<Rightarrow> string list \<Rightarrow> reorder_state" where
  "reordered refs scripts order = fold (file_step refs (renumber_file order)) order
     \<lparr>ro_renames = [], ro_refs = [], ro_scripts = scripts\<rparr>"

lemma reordered_facts:
  assumes inv: "nb_inv s w" and p: "js_get (nk_scriptFolders s) k = Some p"
    and order: "distinct order" "set order = fst ` set (pg_scripts p)"
  defines "r \<equiv> reordered (pg_scripts p) (nk_scripts s) order" and "\<sigma> \<equiv> renumber_file order"
  shows "ro_renames r = file_renames order" "jsmap_ok (ro_refs r)" "jsmap_ok (ro_scripts r)"
    "moved \<sigma> (\<lambda>f x. x\<lparr>rf_fileName := \<sigma> f\<rparr>) (js_get (pg_scripts p)) (js_get (ro_refs r))"
    "\<And>j. skel_of (ro_scripts r) j = map_option (repath (\<lambda>k' f. (k', if k' = k then \<sigma> f else f))) (skel_of (nk_scripts s) j)"
    "page_names_ok (ro_refs r)"
proof -
  note page = ready_page [OF inv p]
  have get: "\<exists>x. js_get (pg_scripts p) f = Some x \<and> rf_fileName x = f" if "f \<in> set order" for f
  proof -
    from that order(2) have "f \<in> fst ` set (pg_scripts p)" by simp
    from has_key [OF this] page(5) show ?thesis by blast
  qed
  then have some: "js_get (pg_scripts p) f \<noteq> None" if "f \<in> set order" for f using that by fastforce
  have inj: "inj_on normalizeScriptName (set order)" unfolding order(2) using page(4) by (simp add: page_names_ok_def)
  let ?init = "\<lparr>ro_renames = [], ro_refs = [], ro_scripts = nk_scripts s\<rparr>"
  show "ro_renames r = file_renames order"
    unfolding r_def reordered_def using step_renames [OF some, of order \<sigma> ?init] by (simp add: file_renames_def \<sigma>_def)
  have mv: "moved \<sigma> (\<lambda>f x. x\<lparr>rf_fileName := \<sigma> f\<rparr>) (js_get (pg_scripts p)) (js_get (ro_refs r)) \<and> jsmap_ok (ro_refs r)"
    unfolding r_def reordered_def \<sigma>_def
    using step_moved [OF get order inj_renumber_file [OF inj], of ?init] by simp
  then show m: "moved \<sigma> (\<lambda>f x. x\<lparr>rf_fileName := \<sigma> f\<rparr>) (js_get (pg_scripts p)) (js_get (ro_refs r))" and "jsmap_ok (ro_refs r)"
    by blast+
  have sk: "jsmap_ok (ro_scripts r) \<and> (\<forall>j. skel_of (ro_scripts r) j =
      map_option (repath (\<lambda>k' f. (k', if k' = k \<and> f \<in> set order then \<sigma> f else f))) (skel_of (nk_scripts s) j))"
    unfolding r_def reordered_def \<sigma>_def by (rule step_scripts [OF inv p some order(1)]) simp_all
  have "(\<lambda>k' f. (k', if k' = k \<and> f \<in> set order then \<sigma> f else f)) = (\<lambda>k' f. (k', if k' = k then \<sigma> f else f))"
    by (auto simp: fun_eq_iff \<sigma>_def renumber_file_def)
  with sk show "jsmap_ok (ro_scripts r)"
    "\<And>j. skel_of (ro_scripts r) j = map_option (repath (\<lambda>k' f. (k', if k' = k then \<sigma> f else f))) (skel_of (nk_scripts s) j)" by simp_all
  have keys: "\<exists>f \<in> set order. g = \<sigma> f" if g: "g \<in> fst ` set (ro_refs r)" for g
  proof -
    from has_key [OF g] obtain x where "js_get (ro_refs r) g = Some x" by blast
    with m obtain f y where f: "js_get (pg_scripts p) f = Some y" "\<sigma> f = g" by (rule movedE)
    have "f \<in> set order" unfolding order(2) by (rule keys_get_Some [OF f(1)])
    with f(2) show ?thesis by blast
  qed
  show "page_names_ok (ro_refs r)" unfolding page_names_ok_def
  proof (intro conjI ballI inj_onI)
    fix a b assume ab: "a \<in> fst ` set (ro_refs r)" "b \<in> fst ` set (ro_refs r)" "normalizeScriptName a = normalizeScriptName b"
    from keys [OF ab(1)] keys [OF ab(2)] obtain f g where fg: "f \<in> set order" "g \<in> set order" "a = \<sigma> f" "b = \<sigma> g" by blast
    with ab(3) inj have "f = g" by (auto simp: \<sigma>_def dest: inj_onD)
    with fg show "a = b" by simp
  next
    fix g assume "g \<in> fst ` set (ro_refs r)"
    from keys [OF this] obtain f where f: "f \<in> set order" "g = \<sigma> f" by blast
    then show "scriptOrderPrefixString g \<noteq> []" by (simp add: \<sigma>_def renumber_file_def numbered_file_prefix)
  qed
qed

text \<open>The text of a file is the one of its script.\<close>

lemma file_text_get:
  assumes "nb_inv s w" "js_get (nk_scriptFolders s) k = Some p" "js_get (pg_scripts p) f = Some x"
  shows "js_get (w_text w) (rf_scriptId x) = Some (file_text w (pg_scripts p) f)"
proof -
  from ready_page(6) [OF assms] obtain d where "js_get (nk_scripts s) (rf_scriptId x) = Some d" by blast
  from nb_inv_live [OF assms(1) this] live_text show ?thesis by (fastforce simp: file_text_def assms(3))
qed

lemma write_moved_one:
  assumes inv: "nb_inv s w" and p: "js_get (nk_scriptFolders s) k = Some p"
    and order: "distinct order" "set order = fst ` set (pg_scripts p)"
    and f: "x \<in> set (file_renames order)" and w': "w_text w' = w_text w"
  shows "write_moved e nid k (reordered (pg_scripts p) (nk_scripts s) order) x () w' =
    Return () (nb_write e (groupScriptWrites nid k (snd x)) (WRITE_SCRIPT nid k (snd x) (file_text w (pg_scripts p) (fst x))) w')"
proof -
  let ?r = "reordered (pg_scripts p) (nk_scripts s) order" and ?\<sigma> = "renumber_file order"
  note facts = reordered_facts [OF inv p order]
  from f have x: "fst x \<in> set order" "snd x = ?\<sigma> (fst x)" by (auto simp: file_renames_def)
  then have "fst x \<in> fst ` set (pg_scripts p)" using order(2) by simp
  from has_key [OF this] obtain ref where ref: "js_get (pg_scripts p) (fst x) = Some ref" by blast
  have new: "js_get (ro_refs ?r) (snd x) = Some (ref\<lparr>rf_fileName := ?\<sigma> (fst x)\<rparr>)"
    using movedD [OF facts(4) ref] by (simp add: x(2))
  let ?j = "rf_scriptId ref"
  have "skel_of (nk_scripts s) ?j = Some (?j, ?j, k, fst x)" using skel_at [OF inv p ref, of ?j ?j ?j] by simp
  then have "skel_of (ro_scripts ?r) ?j = Some (?j, ?j, k, ?\<sigma> (fst x))" by (simp add: facts(5) repath_def)
  then obtain d where d: "js_get (ro_scripts ?r) ?j = Some d" "sd_script d = ?j" by (auto simp: skel_of_def skel_def)
  show ?thesis
    by (cases x) (use new d file_text_get [OF inv p ref] w' in \<open>simp add: write_moved_def script_toString_def x(2)\<close>)
qed

lemma reorder_scripts_kept:
  assumes rd: "ready e X s w st"
  shows "post a (reorder_scripts e k requested s w) (kept e X w st)"
proof (cases "js_get (nk_scriptFolders s) k")
  case None
  then show ?thesis using kept_refl [OF rd] by (simp add: reorder_scripts_def)
next
  case (Some p)
  let ?current = "getSortedScriptFileNames e p" and ?F = "nk_scriptFolders s" and ?nid = "nk_notebookId s"
  define order where "order = total_order (js_has (pg_scripts p)) requested ?current"
  let ?r = "reordered (pg_scripts p) (nk_scripts s) order" and ?\<sigma> = "renumber_file order"
  note inv = ready_inv [OF rd]
  note page = ready_page [OF inv Some]
  have dist: "distinct order" by (simp add: order_def distinct_total_order)
  have keys: "set order = fst ` set (pg_scripts p)"
    unfolding order_def set_total_order set_file_names js_has_key by blast
  note facts = reordered_facts [OF inv Some dist keys]
  have inj: "inj_on normalizeScriptName (set order)" unfolding keys using page(4) by (simp add: page_names_ok_def)
  let ?file = "sf_fileName (nk_scriptFocus s)"
  let ?file' = "if sf_folderName (nk_scriptFocus s) = k then ?\<sigma> ?file else ?file"
  let ?s' = "s\<lparr>nk_scriptFolders := js_set ?F k (p\<lparr>pg_scripts := ro_refs ?r\<rparr>), nk_scripts := ro_scripts ?r,
    nk_scriptFocus := (nk_scriptFocus s)\<lparr>sf_fileName := ?file'\<rparr>\<rparr>"
  let ?rs = "file_renames order"
  let ?w1 = "fold (\<lambda>x. nb_write e (groupScriptDeletes ?nid k (fst x)) (DELETE_SCRIPT ?nid k (fst x))) ?rs w"
  let ?w2 = "fold (\<lambda>x. nb_write e (groupScriptWrites ?nid k (snd x)) (WRITE_SCRIPT ?nid k (snd x) (file_text w (pg_scripts p) (fst x)))) ?rs ?w1"
  have foc: "or_else (js_get ?rs ?file) ?file = ?\<sigma> ?file"
    unfolding file_renames_def renames_get by (simp add: renumber_file_def)
  have fresh: "fst x \<notin> snd ` set ?rs" if x: "x \<in> set ?rs" for x
  proof
    assume "fst x \<in> snd ` set ?rs"
    then obtain g where g: "g \<in> set order" "?\<sigma> g \<noteq> g" "fst x = ?\<sigma> g" by (auto simp: file_renames_def)
    moreover from x have "fst x \<in> set order" by (auto simp: file_renames_def)
    ultimately show False using renumber_file_fresh [OF inj g(1,2)] by simp
  qed
  note d1 = did_fold_write [of e "\<lambda>x. DELETE_SCRIPT ?nid k (fst x)" ?rs w "\<lambda>x. groupScriptDeletes ?nid k (fst x)"]
  note d2 = did_fold_write [of e "\<lambda>x. WRITE_SCRIPT ?nid k (snd x) (file_text w (pg_scripts p) (fst x))" ?rs ?w1
    "\<lambda>x. groupScriptWrites ?nid k (snd x)"]
  have run: "nb_fold (write_moved e ?nid k ?r) ?rs () ?w1 = Return () ?w2"
    by (rule fold_writes, rule write_moved_one [OF inv Some dist keys]) (use did_text [OF d1] in simp_all)
  have del: "delete_moved e ?nid k ?rs w = ?w1" by (rule delete_moved_eq) (rule fresh)
  have eq: "reorder_scripts e k requested s w = (if order = ?current \<or> ?rs = [] then Return s w else Return ?s' ?w2)"
    unfolding reorder_scripts_def Some option.case Let_def order_def [symmetric] reorder_fold [OF dist]
      reordered_def [symmetric] facts(1) page(2) foc del run by simp
  show ?thesis
  proof (cases "order = ?current \<or> ?rs = []")
    case True
    then show ?thesis using kept_refl [OF rd] by (simp add: eq)
  next
    case False
    have did: "did (sched e (map (\<lambda>x. DELETE_SCRIPT ?nid k (fst x)) ?rs @
        map (\<lambda>x. WRITE_SCRIPT ?nid k (snd x) (file_text w (pg_scripts p) (fst x))) ?rs)) w ?w2"
      unfolding sched_append by (rule did_trans [OF d1 d2])
    have focus: "focus_ok ?s'"
    proof (cases "sf_folderName (nk_scriptFocus s) = k")
      case True
      have "pg_scripts p \<noteq> []" using \<open>\<not> (order = ?current \<or> ?rs = [])\<close> keys by (auto simp: file_renames_def)
      with True inv Some have "?file \<in> fst ` set (pg_scripts p)" by (auto simp: nb_inv_iff focus_ok_iff file_ok_keys split: if_splits)
      from has_key [OF this] obtain x where "js_get (pg_scripts p) ?file = Some x" by blast
      from keys_get_Some [OF movedD [OF facts(4) this]] have "?\<sigma> ?file \<in> fst ` set (pg_scripts (p\<lparr>pg_scripts := ro_refs ?r\<rparr>))" by simp
      from file_ok_in [OF this] True show ?thesis by (simp add: focus_ok_iff js_get_set)
    next
      case False
      with inv show ?thesis by (auto simp: nb_inv_iff focus_ok_iff js_get_set)
    qed
    have inv': "nb_inv ?s' ?w2"
    proof (rule files_moved_inv [OF inv did_heap [OF did] Some facts(4,2,6)])
      fix f x assume "js_get (pg_scripts p) f = Some x"
      with page(5) show "?\<sigma> f \<noteq> []" by (auto simp: renumber_file_def)
    qed (simp_all add: facts(3,5) focus)
    have tasks: "map (\<lambda>x. DELETE_SCRIPT ?nid k (fst x)) ?rs @
        map (\<lambda>x. WRITE_SCRIPT ?nid k (snd x) (file_text w (pg_scripts p) (fst x))) ?rs =
      map (DELETE_SCRIPT ?nid k) (map fst ?rs) @
        map (\<lambda>f. WRITE_SCRIPT ?nid k (?\<sigma> f) (file_text w (pg_scripts p) f)) (map fst ?rs)"
      by (simp add: file_renames_def comp_def)
    have "kept e X w st ?s' ?w2"
    proof (rule kept_carries [OF rd inv' did])
      show "carries (w_text w) (nk_scriptFolders s) (map (\<lambda>x. DELETE_SCRIPT ?nid k (fst x)) ?rs @
          map (\<lambda>x. WRITE_SCRIPT ?nid k (snd x) (file_text w (pg_scripts p) (fst x))) ?rs) (nk_scriptFolders ?s')"
        unfolding tasks using carries_reorder [OF Some dist keys inj file_text_get [OF inv Some] facts(4)] by simp
    qed simp
    with False show ?thesis by (simp add: eq)
  qed
qed

end
