(* ===== verification/Notebook_Kept_Insertions.thy ===== *)
theory Notebook_Kept_Insertions
  imports Notebook_Kept_Scripts
begin

text \<open>The insertion of scripts: an empty script, a script with a text, and the promotion of the draft.\<close>

section \<open>A new script in a page\<close>

text \<open>The state after the re-padding.\<close>

lemma repaged_page: "js_get (nk_scriptFolders (repaged s k p r)) k = Some (p\<lparr>pg_scripts := fst r\<rparr>)"
  by (simp add: repaged_def js_get_set)

lemma repaged_fields [simp]:
  "nk_uncommittedScriptId (repaged s k p r) = nk_uncommittedScriptId s" "nk_notebookId (repaged s k p r) = nk_notebookId s"
  "nk_scripts (repaged s k p r) = fst (snd r)" "nk_semanticUserFocus (repaged s k p r) = nk_semanticUserFocus s"
  "sf_folderName (nk_scriptFocus (repaged s k p r)) = sf_folderName (nk_scriptFocus s)"
  by (simp_all add: repaged_def)

lemma inserted_folders: "pg_folderName p = k \<Longrightarrow> nk_scriptFolders (inserted p file key (fst r) scripts s) =
    js_set (nk_scriptFolders (repaged s k p r)) k ((p\<lparr>pg_scripts := fst r\<rparr>)\<lparr>pg_scripts :=
      js_set (pg_scripts (p\<lparr>pg_scripts := fst r\<rparr>)) file \<lparr>rf_scriptId = key, rf_fileName = file\<rparr>\<rparr>)"
  by (simp add: inserted_def repaged_def)

lemma insert_inv:
  assumes inv: "nb_inv (repaged s k p r) w1" and k: "pg_folderName p = k" "sf_folderName (nk_scriptFocus s) = k"
    and new: "addable file (fst r)" and cr: "createScript w1 = (key, w2)" and heap: "same_heap w2 w3"
    and d: "skel d = (key, key, k, file)"
    and s': "s' = (inserted p file key (fst r) (js_set (fst (snd r)) key d) s)\<lparr>nk_semanticUserFocus := foc\<rparr>"
  shows "nb_inv s' w3"
proof -
  let ?s1 = "repaged s k p r" and ?p1 = "p\<lparr>pg_scripts := fst r\<rparr>" and ?x = "\<lparr>rf_scriptId = key, rf_fileName = file\<rparr>"
  note page = ready_page [OF inv repaged_page]
  have F': "nk_scriptFolders s' = js_set (nk_scriptFolders ?s1) k (?p1\<lparr>pg_scripts := js_set (pg_scripts ?p1) file ?x\<rparr>)"
    using inserted_folders [OF k(1)] by (simp add: s')
  have none: "js_get (pg_scripts ?p1) file = None" using addable_new [OF new] by simp
  note ent = entry_add [where F = "nk_scriptFolders ?s1", OF repaged_page none, of ?x, folded F']
  from inv have no: "names_ok (nk_scriptFolders ?s1)" and fo: "folders_ok (nk_scriptFolders ?s1)"
    and js: "jsmap_ok (nk_scripts ?s1)" by (simp_all only: nb_inv_iff)
  show ?thesis
  proof (rule created_inv [OF inv same_heap_refl cr heap _ _ _ _ _ _ _ ent])
    show "jsmap_ok (nk_scripts s')" using js by (simp add: s' inserted_def)
    show "skel_of (nk_scripts s') j = (if j = key then Some (key, key, k, file) else skel_of (nk_scripts ?s1) j)" for j
      by (simp add: s' inserted_def skel_of_set d)
    show "nk_uncommittedScriptId s' = nk_uncommittedScriptId ?s1" by (simp add: s' inserted_def)
    show "file \<noteq> []" using new by (simp add: addable_def)
    show "folders_ok (nk_scriptFolders s')" unfolding F' by (rule folders_ok_set [OF fo page(1)]) (use page(2,3) in simp_all)
    show "names_ok (nk_scriptFolders s')" unfolding F'
      by (rule names_ok_page [OF no repaged_page]) (use page_names_add [of "fst r", OF _ new] page(4) in simp)
    show "focus_ok s'" by (simp add: focus_ok_iff s' inserted_def k js_get_set file_ok_def)
    show "\<not> entry (nk_scriptFolders ?s1) k file r'" for r' using none by (simp add: entry_def repaged_page)
  qed
qed

lemma insert_kept:
  assumes rd: "ready e X s w st" and inv: "nb_inv (repaged s k p r) w1" and k: "pg_folderName p = k"
    and ts: "did (sched e ts) w w1" "carries (w_text w) (nk_scriptFolders s) ts (nk_scriptFolders (repaged s k p r))"
    and new: "addable file (fst r)" and inv': "nb_inv s' w3"
    and w3: "w_tasks w3 = w_tasks w1" "js_get (w_text w3) key = Some t"
      "\<And>j. js_get (nk_scripts (repaged s k p r)) j \<noteq> None \<Longrightarrow> js_get (w_text w3) j = js_get (w_text w1) j"
    and s': "nk_scriptFolders s' = nk_scriptFolders (inserted p file key (fst r) x s)" "nk_uncommittedScriptId s' = nk_uncommittedScriptId s"
  shows "kept e X w st s' (nb_write e g (WRITE_SCRIPT nid k file t) w3)"
proof -
  let ?s1 = "repaged s k p r" and ?task = "WRITE_SCRIPT nid k file t"
  let ?w4 = "nb_write e g ?task w3"
  show ?thesis
  proof (rule keptI [where ts = "ts @ [?task]"])
    show "nb_inv s' ?w4"
      by (rule nb_inv_skel [OF inv' did_heap [OF did_write] refl _ refl refl]) (use inv' in \<open>simp_all add: nb_inv_iff\<close>)
    show "w_tasks ?w4 = w_tasks w @ sched e (ts @ [?task])"
      using did_tasks [OF did_write] did_tasks [OF ts(1)] w3(1) by simp
    assume "e_active e"
    note dr = ready_disk [OF rd this]
    from carriesD [OF ts(2) conjunct1 [OF dr], of "st_draft st"] obtain v1 where
      v1: "disk_tasks ts (view st, st_draft st) = Some (v1, st_draft st)" "agrees X (w_text w) (js_get (nk_scriptFolders ?s1)) v1" by blast
    have live1: "js_get (w_text w3) j = js_get (w_text w) j" if "js_get (nk_scripts ?s1) j \<noteq> None" for j
      using w3(3) [OF that] did_text [OF ts(1)] by simp
    have "agrees X (w_text w3) (js_get (nk_scriptFolders ?s1)) v1"
    proof (rule agrees_same_texts [OF v1(2)])
      fix l f q assume "entry (nk_scriptFolders ?s1) l f q"
      then obtain p' where "js_get (nk_scriptFolders ?s1) l = Some p'" "js_get (pg_scripts p') f = Some q" by (auto simp: entry_def)
      from ready_page(6) [OF inv this] show "js_get (w_text w3) (rf_scriptId q) = js_get (w_text w) (rf_scriptId q)"
        by (intro live1) auto
    qed
    moreover have "carries (w_text w3) (nk_scriptFolders ?s1) [?task] (nk_scriptFolders s')"
      unfolding s'(1) inserted_folders [OF k] by (rule carries_add [OF repaged_page]) (simp add: w3(2))
    ultimately obtain v2 where v2: "disk_tasks [?task] (v1, st_draft st) = Some (v2, st_draft st)"
      "agrees X (w_text w3) (js_get (nk_scriptFolders s')) v2" using carriesD by blast
    have "js_get (nk_scripts ?s1) (nk_uncommittedScriptId s) \<noteq> None"
      using inv nb_ok_draft [of ?s1] by (auto simp: nb_inv_def)
    from live1 [OF this] dr v1(1) v2 show "\<exists>vd. disk_tasks (ts @ [?task]) (disk_of st) = Some vd \<and> disk_agrees X s' ?w4 vd"
      by (simp add: disk_tasks_append disk_of_def disk_agrees_def s'(2) del: disk_tasks.simps)
  qed
qed

lemma create_text:
  assumes "nb_inv s w" "createScript w = (key, w')"
  shows "w_tasks w' = w_tasks w" "js_get (w_text w') key = Some []" "key \<in> live w'"
    "js_get (nk_scripts s) j \<noteq> None \<Longrightarrow> js_get (w_text w') j = js_get (w_text w) j" "js_get (nk_scripts s) key = None"
proof -
  from assms(2) have w': "w' = w\<lparr>w_text := js_set (w_text w) key [], w_nextScript := w_nextScript w + 1\<rparr>"
    by (auto simp: createScript_def)
  have fresh: "js_get (nk_scripts s) key = None" using create_fresh [OF _ same_heap_refl assms(2)] assms(1) by (simp add: nb_inv_iff)
  show "w_tasks w' = w_tasks w" "js_get (w_text w') key = Some []" "key \<in> live w'"
    by (simp_all add: w' w_tasks_def js_get_set live_def)
  show "js_get (nk_scripts s) key = None" by (rule fresh)
  assume "js_get (nk_scripts s) j \<noteq> None"
  with fresh show "js_get (w_text w') j = js_get (w_text w) j" by (auto simp: w' js_get_set)
qed

lemma inserted_focus: "inserted p f key refs sc (s\<lparr>nk_semanticUserFocus := x\<rparr>) = (inserted p f key refs sc s)\<lparr>nk_semanticUserFocus := x\<rparr>"
  by (simp add: inserted_def)

lemma create_script_kept:
  assumes rd: "ready e X s w st"
  shows "post a (create_script e s w) (kept e X w st)"
proof -
  obtain p where p: "getSelectedScriptFolder e s = Some p"
    "js_get (nk_scriptFolders s) (sf_folderName (nk_scriptFocus s)) = Some p"
    "pg_folderName p = sf_folderName (nk_scriptFocus s)"
    by (rule selected_folder [OF ready_focus [OF rd] ready_folders [OF rd]]) blast
  let ?k = "sf_folderName (nk_scriptFocus s)"
  show ?thesis unfolding create_script_def p(1) option.case
  proof (rule post_bind, rule post_weaken [OF plan_and_repad_post [OF ready_inv [OF rd] p(2) refl]], elim case_prodE' conjE exE)
    fix x w1 fl r ts
    assume x: "x = (fl, r)" and inv: "nb_inv (repaged s ?k p r) w1" and new: "addable fl (fst r)"
      and ts: "did (sched e ts) w w1" "carries (w_text w) (nk_scriptFolders s) ts (nk_scriptFolders (repaged s ?k p r))"
    obtain refs scripts focus where r: "r = (refs, scripts, focus)" by (cases r) auto
    obtain key w2 where cr: "createScript w1 = (key, w2)" by fastforce
    obtain s3 w3 where c: "clearSemanticUserFocus s w2 = (s3, w3)" by fastforce
    from quiet_clear [OF c] have q: "quiet w2 w3" and s3: "s3 = s\<lparr>nk_semanticUserFocus := None\<rparr>" by auto
    let ?d = "empty_script_data key fl (pg_folderName p)"
    let ?s' = "inserted p fl key refs (js_set scripts key ?d) s3"
    have "skel ?d = (key, key, ?k, fl)" by (simp add: skel_def empty_script_data_def p(3))
    from insert_inv [OF inv p(3) refl new cr did_heap [OF quiet_did [OF q]] this refl, of None]
    have inv': "nb_inv ?s' w3" by (simp add: r s3 inserted_focus)
    note ct = create_text [OF inv cr]
    have "kept e X w st ?s' (nb_write e (groupScriptWrites (nk_notebookId s3) ?k fl) (WRITE_SCRIPT (nk_notebookId s3) ?k fl []) w3)"
      by (rule insert_kept [OF rd inv p(3) ts new inv', where key = key and x = "js_set scripts key ?d"])
        (use ct quiet_tasks [OF q] quiet_text [OF q] in \<open>simp_all add: r s3 inserted_focus inserted_def\<close>)
    then show "post a ((case x of (fl, refs, scripts, focus) \<Rightarrow> \<lambda>w.
        let ((key, d), w) = createEmptyScriptData fl (pg_folderName p) w; (s', w) = clearSemanticUserFocus s w
        in Return (inserted p fl key refs (js_set scripts key d) s') (write_new e s p fl [] w)) w1) (kept e X w st)"
      by (simp add: x r createEmptyScriptData_def cr c write_new_def p(3) s3)
  qed
qed

section \<open>A new script with a text\<close>

lemma live_created: "createScript w = (key, w') \<Longrightarrow> live w' = insert key (live w)"
  using live_create [of w] by (auto simp: createScript_def)

lemma create_with_text_kept:
  assumes rd: "ready e X s w st"
  shows "post (core_accepts (e_core e)) (create_script_with_text e t s w) (kept e X w st)"
proof -
  obtain p where p: "getSelectedScriptFolder e s = Some p"
    "js_get (nk_scriptFolders s) (sf_folderName (nk_scriptFocus s)) = Some p"
    "pg_folderName p = sf_folderName (nk_scriptFocus s)"
    by (rule selected_folder [OF ready_focus [OF rd] ready_folders [OF rd]]) blast
  let ?k = "sf_folderName (nk_scriptFocus s)" and ?a = "core_accepts (e_core e)"
  show ?thesis unfolding create_script_with_text_def p(1) option.case
  proof (rule post_bind, rule post_weaken [OF plan_and_repad_post [OF ready_inv [OF rd] p(2) refl]], elim case_prodE' conjE exE)
    fix x w1 fl r ts
    assume x: "x = (fl, r)" and inv: "nb_inv (repaged s ?k p r) w1" and new: "addable fl (fst r)"
      and ts: "did (sched e ts) w w1" "carries (w_text w) (nk_scriptFolders s) ts (nk_scriptFolders (repaged s ?k p r))"
    obtain refs scripts focus where r: "r = (refs, scripts, focus)" by (cases r) auto
    obtain key w2 where cr: "createScript w1 = (key, w2)" by fastforce
    note ct = create_text [OF inv cr]
    let ?d = "empty_script_data key fl (pg_folderName p)"
    let ?w3 = "w2\<lparr>w_text := js_set (w_text w2) key t\<rparr>"
    have heap3: "same_heap w2 ?w3" by (rule same_heap_replace [OF ct(3)])
    have live3: "live ?w3 = insert key (live w1)" using heap3 live_created [OF cr] by (simp add: same_heap_def)
    have sl: "scripts_live (js_set scripts key ?d) ?w3"
      using nb_inv_scripts_live [OF inv] unfolding scripts_live_def live3 r
      by (simp add: js_get_set empty_script_data_def)
    have hd: "sd_script ?d \<in> live ?w3" unfolding live3 by (simp add: empty_script_data_def)
    have "post ?a (nb_bind (script_replaceText key t w2) (\<lambda>_ w.
        nb_bind (analyzeScriptData e (js_set scripts key ?d) ?d w) (\<lambda>d w.
        let (s', w) = clearSemanticUserFocus s w in
        nb_bind (script_toString (sd_script d) w) (\<lambda>sql w.
        Return (inserted p fl key refs (js_set scripts key d) s') (write_new e s p fl sql w))))) (kept e X w st)"
    proof (rule post_bind, rule post_replace [OF ct(3)], rule post_bind, rule post_analyze [OF hd sl])
      fix d' w4 assume a: "skel d' = skel ?d" "quiet ?w3 w4"
      obtain s5 w5 where c: "clearSemanticUserFocus s w4 = (s5, w5)" by fastforce
      from quiet_clear [OF c] have q: "quiet ?w3 w5" and s5: "s5 = s\<lparr>nk_semanticUserFocus := None\<rparr>"
        using quiet_trans [OF a(2)] by auto
      let ?s' = "inserted p fl key refs (js_set scripts key d') s5"
      have sk: "skel d' = (key, key, ?k, fl)" using a(1) by (simp add: skel_def empty_script_data_def p(3))
      then have h: "sd_script d' = key" by (simp add: skel_def)
      have heap5: "same_heap w2 w5" by (rule same_heap_trans [OF heap3 did_heap [OF quiet_did [OF q]]])
      from insert_inv [OF inv p(3) refl new cr heap5 sk refl, of None] have inv': "nb_inv ?s' w5" by (simp add: r s5 inserted_focus)
      have text5: "js_get (w_text w5) j = (if j = key then Some t else js_get (w_text w2) j)" for j
        using quiet_text [OF q] by (simp add: js_get_set)
      have tasks5: "w_tasks w5 = w_tasks w1" using quiet_tasks [OF q] ct(1) by (simp add: w_tasks_def)
      have old5: "js_get (w_text w5) j = js_get (w_text w1) j" if "js_get (nk_scripts (repaged s ?k p r)) j \<noteq> None" for j
        using ct(4) [OF that] ct(5) that text5 by auto
      have "kept e X w st ?s' (nb_write e (groupScriptWrites (nk_notebookId s) ?k fl) (WRITE_SCRIPT (nk_notebookId s) ?k fl t) w5)"
        by (rule insert_kept [OF rd inv p(3) ts new inv' tasks5 _ old5, where key = key and x = "js_set scripts key d'"])
          (simp_all add: text5 r s5 inserted_focus inserted_def)
      then show "post ?a (let (s', w) = clearSemanticUserFocus s w4 in
          nb_bind (script_toString (sd_script d') w) (\<lambda>sql w.
          Return (inserted p fl key refs (js_set scripts key d') s') (write_new e s p fl sql w))) (kept e X w st)"
        by (simp add: c h script_toString_def text5 write_new_def p(3))
    qed
    then show "post ?a ((case x of (fl, refs, scripts, focus) \<Rightarrow> \<lambda>w.
        let ((key, d), w) = createEmptyScriptData fl (pg_folderName p) w in
        nb_bind (script_replaceText key t w) (\<lambda>_ w.
        nb_bind (analyzeScriptData e (js_set scripts key d) d w) (\<lambda>d w.
        let (s', w) = clearSemanticUserFocus s w in
        nb_bind (script_toString (sd_script d) w) (\<lambda>sql w.
        Return (inserted p fl key refs (js_set scripts key d) s') (write_new e s p fl sql w))))) w1) (kept e X w st)"
      by (simp add: x r createEmptyScriptData_def cr)
  qed
qed

section \<open>Promotion of the draft\<close>

text \<open>The draft gets an entry, and a new script becomes the draft.\<close>

lemma paths_ok_promote:
  assumes ok: "paths_ok F S uid" and new: "skel_of S key = None" "key \<noteq> 0" "f \<noteq> []"
    and sk: "\<And>j. skel_of S' j = (if j = key then Some (key, key, [], []) else if j = uid then Some (uid, uid, k, f) else skel_of S j)"
    and ent: "\<And>k' f' r'. entry F' k' f' r' \<longleftrightarrow>
      (if k' = k \<and> f' = f then r' = \<lparr>rf_scriptId = uid, rf_fileName = f\<rparr> else entry F k' f' r')"
    and free: "\<And>r. \<not> entry F k f r"
  shows "paths_ok F' S' key"
  unfolding paths_ok_def
proof (intro conjI allI impI)
  have uid: "uid \<noteq> key" using ok new(1) by (auto simp: paths_ok_def)
  fix k' f' r' assume e: "entry F' k' f' r'"
  have "f' \<noteq> [] \<and> rf_fileName r' = f' \<and> (\<exists>a b. skel_of S' (rf_scriptId r') = Some (a, b, k', f'))"
  proof (cases "k' = k \<and> f' = f")
    case True
    with e new(3) uid show ?thesis by (simp add: ent sk)
  next
    case False
    with e have "entry F k' f' r'" by (simp add: ent split: if_splits)
    with ok have o: "f' \<noteq> [] \<and> rf_fileName r' = f' \<and> (\<exists>a b. skel_of S (rf_scriptId r') = Some (a, b, k', f'))"
      unfolding paths_ok_def by blast
    moreover have "rf_scriptId r' \<noteq> uid"
    proof
      assume "rf_scriptId r' = uid"
      with o obtain a b where "skel_of S uid = Some (a, b, k', f')" by auto
      with ok o show False unfolding paths_ok_def by blast
    qed
    ultimately show ?thesis using new(1) by (auto simp: sk)
  qed
  then show "f' \<noteq> []" "rf_fileName r' = f'" "\<exists>a b. skel_of S' (rf_scriptId r') = Some (a, b, k', f')" by auto
next
  fix j a b k' f' assume j: "skel_of S' j = Some (a, b, k', f')"
  have "a = j \<and> b = j \<and> (j = key \<longrightarrow> k' = [] \<and> f' = []) \<and> (j \<noteq> key \<longrightarrow> (\<exists>r. entry F' k' f' r \<and> rf_scriptId r = j))"
  proof (cases "j = key \<or> j = uid")
    case True
    with j ok show ?thesis by (auto simp: sk ent split: if_splits)
  next
    case False
    with j have "skel_of S j = Some (a, b, k', f')" by (simp add: sk)
    with ok False have "a = j \<and> b = j \<and> (\<exists>r. entry F k' f' r \<and> rf_scriptId r = j)" unfolding paths_ok_def by blast
    with False free show ?thesis by (auto simp: ent)
  qed
  then show "a = j" "b = j" "j = key \<Longrightarrow> k' = []" "j = key \<Longrightarrow> f' = []"
    "j \<noteq> key \<Longrightarrow> \<exists>r. entry F' k' f' r \<and> rf_scriptId r = j" by auto
qed (use new in \<open>auto simp: sk\<close>)

lemma promote_kept:
  assumes rd: "ready e X s w st"
  shows "post a (promote_uncommitted_script e s w) (kept e X w st)"
proof -
  obtain p where p: "getSelectedScriptFolder e s = Some p"
    "js_get (nk_scriptFolders s) (sf_folderName (nk_scriptFocus s)) = Some p"
    "pg_folderName p = sf_folderName (nk_scriptFocus s)"
    by (rule selected_folder [OF ready_focus [OF rd] ready_folders [OF rd]]) blast
  let ?k = "sf_folderName (nk_scriptFocus s)" and ?uid = "nk_uncommittedScriptId s" and ?nid = "nk_notebookId s"
  have uid0: "?uid \<noteq> 0" using ready_inv [OF rd] by (simp add: nb_inv_iff paths_ok_def)
  show ?thesis
    unfolding promote_uncommitted_script_def p(1) option.case if_not_P [OF uid0]
    apply (rule post_bind, rule post_weaken [OF plan_and_repad_post [OF ready_inv [OF rd] p(2) refl]])
    apply (elim case_prodE' conjE exE)
    subgoal premises prems for x w1 fl r ts
  proof -
    note x = prems(1) and inv = prems(2) and new = prems(3) and ts = prems(4,5)
    obtain refs scripts focus where r: "r = (refs, scripts, focus)" by (cases r) auto
    from inv have "nb_ok (repaged s ?k p r)" by (simp add: nb_inv_def)
    from nb_ok_draft [OF this] obtain d where d: "js_get scripts ?uid = Some d" by (auto simp: r)
    from nb_inv_live [OF inv, of ?uid d] d have did: "sd_script d = ?uid" "sd_scriptKey d = ?uid" "?uid \<in> live w1" by (auto simp: r)
    let ?s1 = "repaged s ?k p r" and ?p1 = "p\<lparr>pg_scripts := fst r\<rparr>" and ?x = "\<lparr>rf_scriptId = ?uid, rf_fileName = fl\<rparr>"
    obtain key w2 where cr: "createScript w1 = (key, w2)" by fastforce
    note ct = create_text [OF inv cr]
    obtain s3 w3 where c: "clearSemanticUserFocus s w2 = (s3, w3)" by fastforce
    from quiet_clear [OF c] have q: "quiet w2 w3" and s3: "s3 = s\<lparr>nk_semanticUserFocus := None\<rparr>" by auto
    let ?pd = "d\<lparr>sd_fileName := fl, sd_folderName := ?k\<rparr>" and ?nd = "empty_script_data key [] []"
    let ?scripts = "js_set (js_set scripts ?uid ?pd) key ?nd"
    let ?s' = "(inserted p fl ?uid refs ?scripts s3)\<lparr>nk_uncommittedScriptId := key\<rparr>"
    have F': "nk_scriptFolders ?s' = js_set (nk_scriptFolders ?s1) ?k (?p1\<lparr>pg_scripts := js_set (pg_scripts ?p1) fl ?x\<rparr>)"
      using inserted_folders [OF p(3), of fl ?uid r ?scripts s] by (simp add: s3 r inserted_def)
    have none: "js_get (pg_scripts ?p1) fl = None" using addable_new [OF new] by simp
    note ent = entry_add [where F = "nk_scriptFolders ?s1", OF repaged_page none, of ?x, folded F']
    from inv have no: "names_ok (nk_scriptFolders ?s1)" and fo: "folders_ok (nk_scriptFolders ?s1)" and js: "jsmap_ok (nk_scripts ?s1)"
      and pa: "paths_ok (nk_scriptFolders ?s1) (nk_scripts ?s1) ?uid" and h1: "heap_ok ?s1 w1"
      by (simp_all only: nb_inv_iff repaged_fields)
    note page = ready_page [OF inv repaged_page]
    have draft1: "js_get scripts ?uid \<noteq> None" using pa by (simp add: paths_ok_def r skel_of_has)
    have fresh: "skel_of (nk_scripts ?s1) key = None" "key \<noteq> 0"
      using ct(5) create_fresh [OF h1 same_heap_refl cr] by (simp_all add: skel_of_def)
    have fl: "fl \<noteq> []" using new by (simp add: addable_def)
    have sk: "skel_of ?scripts j = (if j = key then Some (key, key, [], []) else if j = ?uid then Some (?uid, ?uid, ?k, fl)
        else skel_of (nk_scripts ?s1) j)" for j
      by (simp add: skel_of_set skel_def empty_script_data_def did r)
    have inv': "nb_inv ?s' w3"
    proof -
      have "paths_ok (nk_scriptFolders ?s') ?scripts key"
        by (rule paths_ok_promote [OF pa fresh fl sk ent]) (use none in \<open>simp add: entry_def repaged_page\<close>)
      moreover have "folders_ok (nk_scriptFolders ?s')" unfolding F' by (rule folders_ok_set [OF fo page(1)]) (use page(2,3) in simp_all)
      moreover have "names_ok (nk_scriptFolders ?s')" unfolding F'
        by (rule names_ok_page [OF no repaged_page]) (use page_names_add [of "fst r", OF _ new] page(4) in simp)
      moreover have "focus_ok ?s'" by (simp add: focus_ok_iff inserted_def p(3) js_get_set file_ok_def s3)
      moreover have "heap_ok ?s' w3"
      proof (rule heap_ok_create [OF h1 same_heap_refl cr did_heap [OF quiet_did [OF q]]])
        have "?uid \<in> fst ` set scripts" using draft1 by (simp only: js_has_key)
        then show "fst ` set (nk_scripts ?s') = insert key (fst ` set (nk_scripts ?s1))"
          by (simp add: inserted_def r insert_absorb)
      qed
      ultimately show ?thesis using js by (simp add: nb_inv_iff inserted_def r)
    qed
    from live_text [OF did(3)] did_text [OF ts(1)] obtain t where t: "js_get (w_text w) ?uid = Some t" by auto
    have text3: "js_get (w_text w3) j = js_get (w_text w) j" if "js_get (nk_scripts ?s1) j \<noteq> None" for j
      using ct(4) [OF that] quiet_text [OF q] did_text [OF ts(1)] by simp
    have t3: "js_get (w_text w3) ?uid = Some t" using text3 [of ?uid] draft1 t by (simp add: r)
    let ?w4 = "nb_write e (groupScriptWrites ?nid ?k fl) (WRITE_SCRIPT ?nid ?k fl t) w3"
    let ?w5 = "nb_write e (groupDraftWrites ?nid) (WRITE_SCRIPT_DRAFT ?nid []) ?w4"
    let ?new = "[WRITE_SCRIPT ?nid ?k fl t, WRITE_SCRIPT_DRAFT ?nid []]"
    have did5: "did (sched e ?new) w3 ?w5"
      using did_then_write [OF did_write [of e "WRITE_SCRIPT ?nid ?k fl t" w3], of "WRITE_SCRIPT_DRAFT ?nid []"] by simp
    have "kept e X w st ?s' ?w5"
    proof (rule keptI [where ts = "ts @ ?new"])
      show "nb_inv ?s' ?w5" by (rule nb_inv_skel [OF inv' did_heap [OF did5] refl _ refl refl]) (use inv' in \<open>simp_all add: nb_inv_iff\<close>)
      show "w_tasks ?w5 = w_tasks w @ sched e (ts @ ?new)"
        using did_tasks [OF did5] did_tasks [OF ts(1)] quiet_tasks [OF q] ct(1) by simp
      assume "e_active e"
      note dr = ready_disk [OF rd this]
      from carriesD [OF ts(2) conjunct1 [OF dr], of "st_draft st"] obtain v1 where
        v1: "disk_tasks ts (view st, st_draft st) = Some (v1, st_draft st)" "agrees X (w_text w) (js_get (nk_scriptFolders ?s1)) v1" by blast
      have ag: "agrees X (w_text w3) (js_get (nk_scriptFolders ?s1)) v1"
      proof (rule agrees_same_texts [OF v1(2)])
        fix l f q assume "entry (nk_scriptFolders ?s1) l f q"
        then obtain p' where "js_get (nk_scriptFolders ?s1) l = Some p'" "js_get (pg_scripts p') f = Some q" by (auto simp: entry_def)
        from ready_page(6) [OF inv this] show "js_get (w_text w3) (rf_scriptId q) = js_get (w_text w) (rf_scriptId q)"
          by (intro text3) auto
      qed
      have "carries (w_text w3) (nk_scriptFolders ?s1) [WRITE_SCRIPT ?nid ?k fl t] (nk_scriptFolders ?s')"
        unfolding F' by (rule carries_add [OF repaged_page]) (simp add: t3)
      from carriesD [OF this ag, of "st_draft st"] obtain v2 where v2: "disk_tasks [WRITE_SCRIPT ?nid ?k fl t] (v1, st_draft st) = Some (v2, st_draft st)"
        "agrees X (w_text w3) (js_get (nk_scriptFolders ?s')) v2" by blast
      have "disk_tasks ?new (v1, st_draft st) = Some (v2, [])" using v2(1) by simp
      moreover have "js_get (w_text w3) key = Some []" using ct(2) quiet_text [OF q] by simp
      ultimately show "\<exists>vd. disk_tasks (ts @ ?new) (disk_of st) = Some vd \<and> disk_agrees X ?s' ?w5 vd"
        using v1(1) v2(2) by (simp add: disk_tasks_append disk_of_def disk_agrees_def del: disk_tasks.simps)
    qed
    then show ?thesis
      by (simp add: x r createEmptyScriptData_def cr c d did script_toString_def t3 write_new_def p(3) Let_def)
  qed
  done
qed

end
