(* ===== verification/Notebook_Properties.thy ===== *)
theory Notebook_Properties
  imports Notebook_Kept_Files Notebook_Kept_Insertions Storage_Writer
begin

text \<open>The runs of a notebook: its set-up, the actions that are dispatched, and the edits of script texts in between,
  with the disk after every scheduled write was executed. Every state of a run keeps the invariant.\<close>

section \<open>One action\<close>

lemma post_guard: "post a r Q \<Longrightarrow> (b \<Longrightarrow> a) \<Longrightarrow> post b r Q"
  by (cases r) (auto simp: post_def)

text \<open>The scripts whose texts an action writes back, so that they no longer differ from the disk.\<close>

fun writes_back :: "NotebookScriptsAction \<Rightarrow> NotebookState \<Rightarrow> nat set" where
  "writes_back (NB_UPDATE_FROM_PROCESSOR u) s = writes_text u s"
| "writes_back _ s = {}"

fun registers_schema :: "NotebookScriptsAction \<Rightarrow> bool" where
  "registers_schema (NB_REGISTER_SCRIPT_OUTPUT_SCHEMA key query query_text columnNames) = True"
| "registers_schema _ = False"

lemma action_kept:
  assumes rd: "ready e X s w st"
  shows "post (core_accepts (e_core e) \<and> \<not> registers_schema act) (reduceNotebookScripts e act s w)
    (kept e (X - writes_back act s) w st)"
proof -
  note selections = select_folder_kept [OF rd] select_folder_at_kept [OF rd] select_script_at_kept [OF rd]
    select_script_kept [OF rd] select_path_kept [OF rd]
  note folders = create_folder_kept [OF rd] delete_folder_kept [OF rd] rename_folder_kept [OF rd] reorder_folders_kept [OF rd]
  note files = create_script_kept [OF rd] delete_script_kept [OF rd] rename_script_kept [OF rd] reorder_scripts_kept [OF rd]
    promote_kept [OF rd] create_with_text_kept [OF rd]
  note texts = analyze_outdated_kept [OF rd] update_kept [OF rd] mark_all_kept [OF rd] output_schema_kept [OF rd]
    set_text_kept [OF rd] accept_kept [OF rd] reject_kept [OF rd]
    register_kept [OF rd, where f = "\<lambda>d. d\<lparr>sd_latestQueryId := _\<rparr>"] register_kept [OF rd, where f = "\<lambda>d. d\<lparr>sd_latestAgentRunId := _\<rparr>"]
  show ?thesis by (cases act) (simp_all add: selections folders files texts skel_def)
qed

section \<open>Set-up\<close>

text \<open>A core module that has no script of the notebook yet.\<close>

definition fresh_world :: "nb_world \<Rightarrow> bool" where
  "fresh_world w \<longleftrightarrow> w_text w = [] \<and> w_path w = [] \<and> w_catalog w = [] \<and> w_registry w = [] \<and> 0 < w_nextScript w"

lemma setup_inv:
  assumes "notebook_setup e nid w = (s, w')" "fresh_world w"
  shows "nb_inv s w'"
proof -
  let ?key = "w_nextScript w" and ?draft = "w_nextScript w + 1"
  obtain plan draws where plan: "planScriptInsertion ([] :: (string, ScriptRef) jsmap) None (e_rng e) (w_draws w) = (plan, draws)"
    by fastforce
  let ?file = "plan_newFileName plan"
  note named = plan_prefixed [OF plan]
  let ?page = "\<lparr>pg_folderName = ''main'', pg_scripts = [(?file, \<lparr>rf_scriptId = ?key, rf_fileName = ?file\<rparr>)]\<rparr>"
  have s: "s = \<lparr>nk_notebookId = nid,
      nk_scripts = [(?key, empty_script_data ?key ?file ''main''), (?draft, empty_script_data ?draft [] [])],
      nk_scriptFolders = [(''main'', ?page)], nk_uncommittedScriptId = ?draft,
      nk_scriptFocus = \<lparr>sf_folderName = ''main'', sf_fileName = ?file, sf_interactionCounter = 0\<rparr>, nk_semanticUserFocus = None\<rparr>"
    and w': "w' = w\<lparr>w_text := [(?key, []), (?draft, [])], w_nextScript := ?draft + 1, w_draws := draws\<rparr>"
    using assms plan by (auto simp: notebook_setup_def createScript_def createEmptyScriptData_def fresh_world_def Let_def)
  have e: "entry (nk_scriptFolders s) k f r \<longleftrightarrow> k = ''main'' \<and> f = ?file \<and> r = \<lparr>rf_scriptId = ?key, rf_fileName = ?file\<rparr>" for k f r
    by (auto simp: s entry_def)
  have sk: "skel_of (nk_scripts s) j = (if j = ?key then Some (?key, ?key, ''main'', ?file)
      else if j = ?draft then Some (?draft, ?draft, [], []) else None)" for j
    by (simp add: s skel_of_def skel_def empty_script_data_def)
  have "paths_ok (nk_scriptFolders s) (nk_scripts s) (nk_uncommittedScriptId s)"
    unfolding paths_ok_def e sk by (simp add: s named)
  moreover have "folders_ok (nk_scriptFolders s)" by (simp add: s folders_ok_def jsmap_ok_def)
  moreover have "names_ok (nk_scriptFolders s)" by (simp add: s names_ok_def page_names_ok_def named)
  moreover have "focus_ok s" by (simp add: s focus_ok_def)
  moreover have "heap_ok s w'"
    using assms(2) by (auto simp: s w' heap_ok_def live_def jsmap_ok_def fresh_world_def)
  ultimately show ?thesis unfolding nb_inv_iff by (simp add: s jsmap_ok_def)
qed

section \<open>Runs\<close>

text \<open>The editor changes the text of a live script in place, without an action.\<close>

definition edit_text :: "handle \<Rightarrow> string \<Rightarrow> nb_world \<Rightarrow> nb_world" where
  "edit_text h t w = w\<lparr>w_text := js_set (w_text w) h t\<rparr>"

text \<open>\<open>nb_run on s w X st\<close>: the notebook is \<open>s\<close> in \<open>w\<close>, the scripts \<open>X\<close> were edited and not reported yet, and \<open>st\<close> is the
  disk once the scheduled writes were executed. With \<open>on\<close> the connection is active all along, and then \<open>st\<close> starts
  with what was written at set-up.\<close>

inductive nb_run :: "bool \<Rightarrow> NotebookState \<Rightarrow> nb_world \<Rightarrow> nat set \<Rightarrow> script_store \<Rightarrow> bool" for on where
  start: "notebook_setup e nid w = (s, w') \<Longrightarrow> fresh_world w \<Longrightarrow> (on \<Longrightarrow> persisted {} s w' st) \<Longrightarrow> nb_run on s w' {} st"
| action: "nb_run on s w X st \<Longrightarrow> e_active e = on \<Longrightarrow> reduceNotebookScripts e act s w = Return s' w' \<Longrightarrow>
    tasks_effect (drop (length (w_tasks w)) (w_tasks w')) st = Some st' \<Longrightarrow> nb_run on s' w' (X - writes_back act s) st'"
| edit: "nb_run on s w X st \<Longrightarrow> h \<in> live w \<Longrightarrow> nb_run on s (edit_text h t w) (insert h X) st"

lemma persisted_edit: "persisted X s w st \<Longrightarrow> persisted (insert h X) s (edit_text h t w) st"
proof -
  assume p: "persisted X s w st"
  have "agrees (insert h X) (w_text (edit_text h t w)) (js_get (nk_scriptFolders s)) (view st)"
    by (rule agrees_texts [where X = X and T = "w_text w"]) (use p in \<open>auto simp: persisted_def edit_text_def js_get_set\<close>)
  with p show ?thesis by (auto simp: persisted_def edit_text_def js_get_set)
qed

lemma edit_inv: "nb_inv s w \<Longrightarrow> h \<in> live w \<Longrightarrow> nb_inv s (edit_text h t w)"
  unfolding edit_text_def by (rule nb_inv_skel [OF _ same_heap_replace]) (simp_all add: nb_inv_iff)

lemma run_ready: "nb_run on s w X st \<Longrightarrow> nb_inv s w \<and> (on \<longrightarrow> persisted X s w st)"
proof (induction rule: nb_run.induct)
  case (start e nid w s w' st)
  then show ?case using setup_inv by blast
next
  case (action s w X st e act s' w' st')
  then have rd: "ready e X s w st" by (simp add: ready_def)
  from action_kept [OF rd, of act] action have k: "kept e (X - writes_back act s) w st s' w'" by (simp add: post_def)
  then obtain ts where ts: "w_tasks w' = w_tasks w @ ts" "on \<longrightarrow> (\<exists>st'. tasks_effect ts st = Some st' \<and> persisted (X - writes_back act s) s' w' st')"
    unfolding kept_def action.hyps(2) by blast
  with action.hyps(4) k show ?case by (auto simp: kept_def)
next
  case (edit s w X st h t)
  then show ?case using edit_inv persisted_edit by blast
qed


text \<open>The properties of the notebook's scripts, with a run of the notebook as witness.\<close>

section \<open>A concrete notebook\<close>

text \<open>An engine that accepts every script, comparison by code units, and random numbers that are all zero.\<close>

definition demo_core :: nb_core where
  "demo_core = \<lparr>c_analyze = \<lambda>w h. Some \<lparr>an_tableNames = [], an_visualizationSpecs = [], an_visStatement = False\<rparr>,
     c_addScript = \<lambda>w h. True, c_loadScript = \<lambda>w h. True, c_cursorFocus = \<lambda>w h. None, c_completionFocus = \<lambda>w h. None,
     c_diff = \<lambda>w h t. True, c_setOutputSchema = \<lambda>w h cs. True, c_parseJson = \<lambda>t. None, c_parseUmapSpec = \<lambda>t. None\<rparr>"

fun text_compare :: "string \<Rightarrow> string \<Rightarrow> int" where
  "text_compare [] [] = 0"
| "text_compare [] (y # ys) = -1"
| "text_compare (x # xs) [] = 1"
| "text_compare (x # xs) (y # ys) = (if x = y then text_compare xs ys else of_char x - of_char y)"

definition demo_env :: nb_env where
  "demo_env = \<lparr>e_core = demo_core, e_compare = text_compare, e_rng = \<lambda>n. 0, e_active = True\<rparr>"

definition demo_state :: NotebookState where
  "demo_state = \<lparr>nk_notebookId = ''nb'',
     nk_scripts = [(1, empty_script_data 1 ''1_amber_badger.sql'' ''main''), (2, empty_script_data 2 [] [])],
     nk_scriptFolders = [(''main'', \<lparr>pg_folderName = ''main'',
       pg_scripts = [(''1_amber_badger.sql'', \<lparr>rf_scriptId = 1, rf_fileName = ''1_amber_badger.sql''\<rparr>)]\<rparr>)],
     nk_uncommittedScriptId = 2,
     nk_scriptFocus = \<lparr>sf_folderName = ''main'', sf_fileName = ''1_amber_badger.sql'', sf_interactionCounter = 0\<rparr>,
     nk_semanticUserFocus = None\<rparr>"

definition demo_world :: nb_world where
  "demo_world = empty_world\<lparr>w_text := [(1, []), (2, [])], w_nextScript := 3, w_draws := 2\<rparr>"

definition demo_inputs :: sw_inputs where
  "demo_inputs = \<lparr>in_clock = (\<lambda>_. 0), in_text = (\<lambda>_. None), in_params = (\<lambda>_. JObj []), in_native = False,
     in_update = immutable_update\<rparr>"

definition demo_store :: script_store where
  "demo_store = \<lparr>st_folders = [(''main'', [(''1_amber_badger.sql'', [])])], st_draft = []\<rparr>"

lemma demo_pair: "random_pair (\<lambda>n. 0) n = ''amber_badger''"
  by (simp add: random_pair_def pick_word_def) code_simp

lemma demo_plan: "planScriptInsertion ([] :: (string, ScriptRef) jsmap) None (\<lambda>n. 0) 0 =
    (\<lparr>plan_newFileName = ''1_amber_badger.sql'', plan_repad = []\<rparr>, 2)"
proof -
  have r: "randomScriptName [] (\<lambda>n. 0) 0 = (''amber_badger'', 2)"
    by (simp add: randomScriptName_def demo_pair MAX_ATTEMPTS_def numeral_eq_Suc)
  have u: "uniqueScriptBase ''amber_badger'' ([] :: (string, ScriptRef) jsmap) [] = ''amber_badger''" by code_simp
  have f: "formatScriptOrderPrefix 1 1 @ ''amber_badger'' @ ''.sql'' = ''1_amber_badger.sql''" by code_simp
  have k: "object_keys ([] :: (string, ScriptRef) jsmap) = []" by code_simp
  show ?thesis using f by (simp add: planScriptInsertion_def k r u max_prefix_def List.map_filter_simps)
qed

lemma demo_setup: "notebook_setup demo_env ''nb'' empty_world = (demo_state, demo_world)"
  by (simp add: notebook_setup_def createScript_def createEmptyScriptData_def empty_world_def demo_plan demo_state_def
      demo_world_def Let_def demo_env_def) (simp add: numeral_2_eq_2)

lemma demo_persisted: "persisted {} demo_state demo_world demo_store"
  by (auto simp: persisted_def agrees_def page_agrees_def view_def demo_state_def demo_world_def demo_store_def)

lemma demo_start: "nb_run True demo_state demo_world {} demo_store"
  by (rule nb_run.start [OF demo_setup]) (simp_all add: fresh_world_def empty_world_def demo_persisted)

text \<open>The user types a query into the script and renames the folder.\<close>

definition typed_world :: nb_world where
  "typed_world = edit_text 1 ''select 1'' demo_world"

definition renamed_state :: NotebookState where
  "renamed_state = demo_state\<lparr>
     nk_scripts := [(1, (empty_script_data 1 ''1_amber_badger.sql'' ''1_sales'')\<lparr>
         sd_buffers := \<lparr>bf_parsed = Some 0, bf_analyzed = Some (1, \<lparr>an_tableNames = [], an_visualizationSpecs = [],
           an_visStatement = False\<rparr>)\<rparr>, sd_outdated := False, sd_statistics := [2]\<rparr>),
       (2, empty_script_data 2 [] [])],
     nk_scriptFolders := [(''1_sales'', \<lparr>pg_folderName = ''1_sales'',
       pg_scripts = [(''1_amber_badger.sql'', \<lparr>rf_scriptId = 1, rf_fileName = ''1_amber_badger.sql''\<rparr>)]\<rparr>)],
     nk_scriptFocus := \<lparr>sf_folderName = ''1_sales'', sf_fileName = ''1_amber_badger.sql'', sf_interactionCounter = 0\<rparr>\<rparr>"

definition renamed_world :: nb_world where
  "renamed_world = typed_world\<lparr>w_path := [(1, ''sales/amber_badger'')], w_buffers := [2, 1, 0], w_nextBuffer := 3,
     w_catalog := [1], w_registry := [1], w_calls := 4,
     w_writes := [(''nb/scripts/main:rename'', RENAME_SCRIPT_FOLDER ''nb'' ''main'' ''1_sales'', 100)]\<rparr>"

definition renamed_store :: script_store where
  "renamed_store = \<lparr>st_folders = [(''1_sales'', [(''1_amber_badger.sql'', [])])], st_draft = []\<rparr>"

lemma demo_typed: "nb_run True demo_state typed_world {1} demo_store"
  unfolding typed_world_def by (rule nb_run.edit [OF demo_start]) (simp add: live_def demo_world_def)

lemma demo_rename: "reduceNotebookScripts demo_env (NB_RENAME_SCRIPT_FOLDER ''main'' ''sales'') demo_state typed_world =
    Return renamed_state renamed_world"
  by code_simp

lemma demo_tasks: "tasks_effect (drop (length (w_tasks typed_world)) (w_tasks renamed_world)) demo_store = Some renamed_store"
  by code_simp

lemma demo_active [simp]: "e_active demo_env"
  by (simp add: demo_env_def)

lemma demo_accepts: "core_accepts (e_core demo_env)"
  by (simp add: core_accepts_def demo_env_def demo_core_def)

lemma demo_renamed: "nb_run True renamed_state renamed_world {1} renamed_store"
  using nb_run.action [OF demo_typed _ demo_rename demo_tasks] by simp

section \<open>The notebook\<close>

text \<open>C4. A notebook is well formed in every state that a run of actions and edits reaches: every file of a
  page refers to a script that knows its path, every script but the draft is a file of exactly one page, the
  focus is on an existing folder and, unless that is empty, on one of its files; no two folders and no two
  files of a folder have the same name up to the order prefix, and every file has such a prefix.\<close>

theorem notebook_well_formed:
  assumes "nb_run on s w X st"
  shows "nb_ok s \<and> focus_ok s \<and> unique_names s \<and> prefixed s"
  using run_ready [OF assms] by (simp add: nb_inv_def)

theorem notebook_well_formed_witness: "nb_ok renamed_state \<and> focus_ok renamed_state \<and> unique_names renamed_state \<and> prefixed renamed_state"
  by (rule notebook_well_formed [OF demo_renamed])

text \<open>C5. No script is used after it was destroyed, and none leaks: in every state of a run the objects on the
  core's heap are exactly the scripts of the notebook, each under its own key, and the catalog, the registry and
  the path table refer to no other; a new script never gets the identity of a live one.\<close>

theorem scripts_neither_leak_nor_dangle:
  assumes "nb_run on s w X st"
  shows "live w = fst ` set (nk_scripts s) \<and> (\<forall>j d. js_get (nk_scripts s) j = Some d \<longrightarrow> sd_script d = j) \<and>
    set (w_catalog w) \<subseteq> live w \<and> set (w_registry w) \<subseteq> live w \<and> fst ` set (w_path w) \<subseteq> live w \<and>
    fst (createScript w) \<notin> live w"
proof -
  have inv: "nb_inv s w" using run_ready [OF assms] by blast
  then have h: "heap_ok s w" by (simp add: nb_inv_def)
  then have "w_nextScript w \<notin> live w" unfolding heap_ok_def by blast
  then have "fst (createScript w) \<notin> live w" by (simp add: createScript_def)
  moreover have "\<forall>j d. js_get (nk_scripts s) j = Some d \<longrightarrow> sd_script d = j" using nb_inv_live [OF inv] by blast
  ultimately show ?thesis using h unfolding heap_ok_def by (elim conjE) (intro conjI; assumption)
qed

theorem scripts_neither_leak_nor_dangle_witness:
  "live renamed_world = {1, 2} \<and> set (w_catalog renamed_world) \<subseteq> live renamed_world \<and> fst (createScript renamed_world) \<notin> live renamed_world"
proof -
  have "fst ` set (nk_scripts renamed_state) = {1, 2}" by (simp add: renamed_state_def)
  with scripts_neither_leak_nor_dangle [OF demo_renamed] show ?thesis by metis
qed

text \<open>C25. No action throws while the core accepts the scripts it is given: in every state of a run every action
  but the registration of an output schema returns a state, although it dereferences pages, files and scripts
  and calls objects of the core, which throw when they were destroyed.\<close>

theorem actions_return:
  assumes "nb_run on s w X st" "e_active e = on" "core_accepts (e_core e)" "\<not> registers_schema act"
  shows "\<exists>s' w'. reduceNotebookScripts e act s w = Return s' w'"
proof -
  have "ready e X s w st" using run_ready [OF assms(1)] assms(2) by (simp add: ready_def)
  from action_kept [OF this, of act] assms(3,4) show ?thesis
    by (cases "reduceNotebookScripts e act s w") (simp_all add: post_def)
qed

theorem actions_return_witness:
  "\<exists>s' w'. reduceNotebookScripts demo_env (NB_DELETE_SCRIPT ''1_amber_badger.sql'') renamed_state renamed_world = Return s' w'"
  by (rule actions_return [OF demo_renamed]) (simp_all add: demo_accepts)

text \<open>C1. The writes an action schedules bring the disk along: if the files agreed with the notebook before, up to
  the scripts that were edited since their last write, then executing the tasks of the action in their order
  succeeds, no rename or deletion misses its source and no rename finds its target taken, and afterwards the files
  agree with the new notebook.\<close>

theorem writes_follow_the_notebook:
  assumes "nb_run True s w X st" "e_active e" "reduceNotebookScripts e act s w = Return s' w'"
  shows "\<exists>ts st'. w_tasks w' = w_tasks w @ ts \<and> tasks_effect ts st = Some st' \<and> persisted (X - writes_back act s) s' w' st'"
proof -
  have "ready e X s w st" using run_ready [OF assms(1)] by (simp add: ready_def)
  from action_kept [OF this, of act] assms(2,3) show ?thesis by (simp add: post_def kept_def)
qed

theorem writes_follow_the_notebook_witness:
  "\<exists>ts st'. w_tasks renamed_world = w_tasks typed_world @ ts \<and> tasks_effect ts demo_store = Some st' \<and>
    persisted {1} renamed_state renamed_world st'"
  using writes_follow_the_notebook [OF demo_typed demo_active demo_rename] by simp

text \<open>The program that \<^verbatim>\<open>executeTask\<close> runs for a task on scripts refines the task: against a backend that keeps its
  contract, with whatever clock and replies, its calls have together the effect the task stands for, and it
  fails exactly when the task has none.\<close>

theorem task_program_refines:
  assumes "script_task task"
  shows "execute_effect i c task st = task_effect task st"
  by (rule execute_script_task [OF assms])

theorem task_program_refines_witness:
  "execute_effect (\<lambda>_. demo_inputs) \<lparr>statistics = [], completedFileContents = []\<rparr>
     (RENAME_SCRIPT_FOLDER ''nb'' ''main'' ''1_sales'') demo_store = Some renamed_store"
  unfolding task_program_refines [where task = "RENAME_SCRIPT_FOLDER ''nb'' ''main'' ''1_sales''", simplified script_task.simps, OF TrueI]
  by code_simp

section \<open>Coalesced renames\<close>

text \<open>Two folders, and three reorderings of them while the writer is paused.\<close>

definition pair_state :: NotebookState where
  "pair_state = \<lparr>nk_notebookId = ''nb'',
     nk_scripts = [(1, empty_script_data 1 ''1_x.sql'' ''1_a''), (2, empty_script_data 2 ''1_y.sql'' ''2_b''), (3, empty_script_data 3 [] [])],
     nk_scriptFolders =
       [(''1_a'', \<lparr>pg_folderName = ''1_a'', pg_scripts = [(''1_x.sql'', \<lparr>rf_scriptId = 1, rf_fileName = ''1_x.sql''\<rparr>)]\<rparr>),
        (''2_b'', \<lparr>pg_folderName = ''2_b'', pg_scripts = [(''1_y.sql'', \<lparr>rf_scriptId = 2, rf_fileName = ''1_y.sql''\<rparr>)]\<rparr>)],
     nk_uncommittedScriptId = 3,
     nk_scriptFocus = \<lparr>sf_folderName = ''1_a'', sf_fileName = ''1_x.sql'', sf_interactionCounter = 0\<rparr>,
     nk_semanticUserFocus = None\<rparr>"

definition pair_world :: nb_world where
  "pair_world = empty_world\<lparr>w_text := [(1, ''select 1''), (2, ''select 2''), (3, [])], w_nextScript := 4\<rparr>"

definition pair_store :: script_store where
  "pair_store = \<lparr>st_folders = [(''1_a'', [(''1_x.sql'', ''select 1'')]), (''2_b'', [(''1_y.sql'', ''select 2'')])], st_draft = []\<rparr>"

fun reduce_all :: "nb_env \<Rightarrow> NotebookScriptsAction list \<Rightarrow> NotebookState \<Rightarrow> nb_world \<Rightarrow> NotebookState nb" where
  "reduce_all e [] s w = Return s w"
| "reduce_all e (a # as) s w = nb_bind (reduceNotebookScripts e a s w) (reduce_all e as)"

definition swaps :: "NotebookScriptsAction list" where
  "swaps = [NB_REORDER_SCRIPT_FOLDERS [''2_b'', ''1_a''], NB_REORDER_SCRIPT_FOLDERS [''2_a'', ''1_b''],
     NB_REORDER_SCRIPT_FOLDERS [''2_b'', ''1_a'']]"

text \<open>The writes reach the writer, which flushes what is pending in the order of the map.\<close>

definition submit :: "sw_inputs \<Rightarrow> (string \<times> WriteTask \<times> nat) list \<Rightarrow> StorageWriter \<Rightarrow> StorageWriter" where
  "submit i ws sw = fold (\<lambda>(key, task, delay). write_task i key task delay) ws sw"

definition flushed_tasks :: "StorageWriter \<Rightarrow> WriteTask list" where
  "flushed_tasks sw = map (\<lambda>(key, p). latestTask p) (pendingTasks sw)"

text \<open>The order of the folders on disk is lost when a folder is moved, moved back and moved again before the writer
  gets to it: the third batch of renames takes the place of the first in the pending map, ahead of the second that
  undoes it, although executing all of them in their order would give the order of the notebook.\<close>

theorem coalesced_renames_revert:
  "\<exists>s w. reduce_all demo_env swaps pair_state pair_world = Return s w \<and> js_keys (nk_scriptFolders s) = [''1_b'', ''2_a''] \<and>
     map_option (\<lambda>st. js_keys (st_folders st)) (tasks_effect (w_tasks w) pair_store) = Some [''1_b'', ''2_a''] \<and>
     map_option (\<lambda>st. js_keys (st_folders st))
       (tasks_effect (flushed_tasks (submit demo_inputs (w_writes w) (pause new_StorageWriter))) pair_store) = Some [''1_a'', ''2_b'']"
proof -
  have "case reduce_all demo_env swaps pair_state pair_world of
      Return s w \<Rightarrow> js_keys (nk_scriptFolders s) = [''1_b'', ''2_a''] \<and>
        map_option (\<lambda>st. js_keys (st_folders st)) (tasks_effect (w_tasks w) pair_store) = Some [''1_b'', ''2_a''] \<and>
        map_option (\<lambda>st. js_keys (st_folders st))
          (tasks_effect (flushed_tasks (submit demo_inputs (w_writes w) (pause new_StorageWriter))) pair_store) = Some [''1_a'', ''2_b'']
    | Raise w \<Rightarrow> False"
    by code_simp
  then show ?thesis by (cases "reduce_all demo_env swaps pair_state pair_world") simp_all
qed

end
