(* ===== verification/Sql_Frame.thy ===== *)
theory Sql_Frame
  imports Json Complex_Main
begin

text \<open>The builder of SQL texts over data frames, \<^verbatim>\<open>sql/sqlframe_builder.ts\<close>. A frame is a record that the builder's
  methods fill; \<^verbatim>\<open>toSQL\<close> prints it as a chain of common table expressions. The text of a JavaScript number
  (\<^verbatim>\<open>value.toString()\<close>) is the parameter \<open>num\<close>.\<close>

section \<open>Frames\<close>

datatype FilterOp = Eq_Op | Lt_Op | Le_Op | Gt_Op | Ge_Op

fun op_text :: "FilterOp \<Rightarrow> string" where
  "op_text Eq_Op = ''=''"
| "op_text Lt_Op = ''<''"
| "op_text Le_Op = ''<=''"
| "op_text Gt_Op = ''>''"
| "op_text Ge_Op = ''>=''"

datatype AggFunc = Agg_min | Agg_max | Agg_avg | Agg_count | Agg_count_star

record OrderByConstraint =
  ob_field :: string
  ob_ascending :: "bool option"
  ob_nullsFirst :: "bool option"

record BinningConfig =
  bn_fieldName :: string
  bn_statsTable :: string
  bn_statsMinField :: string
  bn_statsMaxField :: string
  bn_binCount :: nat
  bn_outputAlias :: string
  bn_toNumericFn :: "string option"

record GroupByKeyBinning =
  gk_preBinnedFieldName :: "string option"
  gk_binCount :: nat
  gk_statsTable :: string
  gk_statsMinField :: string
  gk_statsMaxField :: string
  gk_outputBinLbAlias :: string
  gk_outputBinUbAlias :: string
  gk_outputBinWidthAlias :: string
  gk_includeNullBin :: "bool option"
  gk_toNumericFn :: "string option"

record GroupByKey =
  gb_fieldName :: string
  gb_outputAlias :: string
  gb_binning :: "GroupByKeyBinning option"

record GroupByAggregate =
  ga_fieldName :: "string option"
  ga_outputAlias :: string
  ga_func :: AggFunc
  ga_distinct :: "bool option"

record GroupByConfig =
  gc_keys :: "GroupByKey list"
  gc_aggregates :: "GroupByAggregate list"

text \<open>The value of a filter is a JavaScript number.\<close>

record ScalarFilter =
  fl_fieldName :: string
  fl_op :: FilterOp
  fl_value :: rat

record SemiJoinFilter =
  sj_fieldName :: string
  sj_tableName :: string
  sj_joinFieldName :: string

record ValueIdentifierEntry =
  vi_fieldName :: string
  vi_outputAlias :: string

record SQLFrame =
  sq_inputTable :: string
  sq_rowNumber :: "string option"
  sq_valueIdentifiers :: "ValueIdentifierEntry list"
  sq_binnings :: "BinningConfig list"
  sq_scalarFilters :: "ScalarFilter list"
  sq_semiJoinFilters :: "SemiJoinFilter list"
  sq_groupBy :: "GroupByConfig option"
  sq_orderBy :: "OrderByConstraint list option"
  sq_limit :: "nat option"
  sq_projection :: "string list option"

section \<open>The methods of the builder\<close>

definition frame_from :: "string \<Rightarrow> SQLFrame" where
  "frame_from inputTable = \<lparr>sq_inputTable = inputTable, sq_rowNumber = None, sq_valueIdentifiers = [], sq_binnings = [],
    sq_scalarFilters = [], sq_semiJoinFilters = [], sq_groupBy = None, sq_orderBy = None, sq_limit = None,
    sq_projection = None\<rparr>"

definition frame_rowNumber :: "string \<Rightarrow> SQLFrame \<Rightarrow> SQLFrame" where
  "frame_rowNumber outputAlias f = f\<lparr>sq_rowNumber := Some outputAlias\<rparr>"

definition frame_valueIdentifier :: "string \<Rightarrow> string \<Rightarrow> SQLFrame \<Rightarrow> SQLFrame" where
  "frame_valueIdentifier fieldName outputAlias f =
    f\<lparr>sq_valueIdentifiers := sq_valueIdentifiers f @ [\<lparr>vi_fieldName = fieldName, vi_outputAlias = outputAlias\<rparr>]\<rparr>"

definition frame_binning :: "BinningConfig \<Rightarrow> SQLFrame \<Rightarrow> SQLFrame" where
  "frame_binning config f = f\<lparr>sq_binnings := sq_binnings f @ [config]\<rparr>"

definition frame_filter :: "string \<Rightarrow> FilterOp \<Rightarrow> rat \<Rightarrow> SQLFrame \<Rightarrow> SQLFrame" where
  "frame_filter fieldName op v f =
    f\<lparr>sq_scalarFilters := sq_scalarFilters f @ [\<lparr>fl_fieldName = fieldName, fl_op = op, fl_value = v\<rparr>]\<rparr>"

definition frame_semiJoinFilter :: "string \<Rightarrow> string \<Rightarrow> string \<Rightarrow> SQLFrame \<Rightarrow> SQLFrame" where
  "frame_semiJoinFilter fieldName tableName joinFieldName f =
    f\<lparr>sq_semiJoinFilters := sq_semiJoinFilters f @
      [\<lparr>sj_fieldName = fieldName, sj_tableName = tableName, sj_joinFieldName = joinFieldName\<rparr>]\<rparr>"

definition frame_groupBy :: "GroupByConfig \<Rightarrow> SQLFrame \<Rightarrow> SQLFrame" where
  "frame_groupBy config f = f\<lparr>sq_groupBy := Some config\<rparr>"

definition frame_orderBy :: "OrderByConstraint list \<Rightarrow> nat option \<Rightarrow> SQLFrame \<Rightarrow> SQLFrame" where
  "frame_orderBy constraints limit f = f\<lparr>sq_orderBy := Some constraints, sq_limit := limit\<rparr>"

definition frame_project :: "string list \<Rightarrow> SQLFrame \<Rightarrow> SQLFrame" where
  "frame_project names f = f\<lparr>sq_projection := Some names\<rparr>"

section \<open>Printing\<close>

abbreviation QUOTE :: char where "QUOTE \<equiv> CHR 0x22"
abbreviation NL :: string where "NL \<equiv> [CHR 0x0A]"

definition quoteIdent :: "string \<Rightarrow> string" where
  "quoteIdent name = [QUOTE] @ concat (map (\<lambda>c. if c = QUOTE then [QUOTE, QUOTE] else [c]) name) @ [QUOTE]"

text \<open>An absent or empty function name is falsy.\<close>

definition js_truthy_name :: "string option \<Rightarrow> string option" where
  "js_truthy_name fn = (case fn of Some s \<Rightarrow> if s = '''' then None else Some s | None \<Rightarrow> None)"

definition toNumeric :: "string \<Rightarrow> string option \<Rightarrow> string" where
  "toNumeric expr fn = (case js_truthy_name fn of
     Some f \<Rightarrow> f @ ''('' @ expr @ '')''
   | None \<Rightarrow> ''CAST('' @ expr @ '' AS DOUBLE)'')"

text \<open>\<^verbatim>\<open>quoteIdent(agg.fieldName!)\<close> throws for a missing field name.\<close>

definition formatAggExpr :: "GroupByAggregate \<Rightarrow> string option" where
  "formatAggExpr agg = (case ga_func agg of
     Agg_min \<Rightarrow> map_option (\<lambda>n. ''MIN('' @ quoteIdent n @ '')'') (ga_fieldName agg)
   | Agg_max \<Rightarrow> map_option (\<lambda>n. ''MAX('' @ quoteIdent n @ '')'') (ga_fieldName agg)
   | Agg_avg \<Rightarrow> map_option (\<lambda>n. ''AVG('' @ quoteIdent n @ '')'') (ga_fieldName agg)
   | Agg_count \<Rightarrow> (if ga_distinct agg = Some True
        then map_option (\<lambda>n. ''COUNT(DISTINCT '' @ quoteIdent n @ '')'') (ga_fieldName agg)
        else map_option (\<lambda>n. ''COUNT('' @ quoteIdent n @ '')'') (ga_fieldName agg))
   | Agg_count_star \<Rightarrow> Some ''COUNT(*)'')"

definition formatOrderByItem :: "OrderByConstraint \<Rightarrow> string" where
  "formatOrderByItem c =
    (let dir = (if (case ob_ascending c of Some b \<Rightarrow> b | None \<Rightarrow> True) then ''ASC'' else ''DESC'');
         nulls = (if (case ob_nullsFirst c of Some b \<Rightarrow> b | None \<Rightarrow> False) then ''NULLS FIRST'' else ''NULLS LAST'')
     in quoteIdent (ob_field c) @ '' '' @ dir @ '' '' @ nulls)"

definition cte :: "string \<Rightarrow> string \<Rightarrow> string" where
  "cte name body = name @ '' AS ('' @ NL @ ''    '' @ body @ NL @ ''  )''"

text \<open>A stage of \<^verbatim>\<open>toSQL\<close> adds its expressions to \<^verbatim>\<open>ctes\<close> and moves on \<^verbatim>\<open>prev\<close>.\<close>

type_synonym sql_stage = "string list \<times> string"

definition sql_rowNumber :: "string option \<Rightarrow> sql_stage \<Rightarrow> sql_stage" where
  "sql_rowNumber rn st = (case rn of None \<Rightarrow> st
    | Some a \<Rightarrow> (fst st @ [cte ''__rownumber''
        (''SELECT *, row_number() OVER () AS '' @ quoteIdent a @ '' FROM '' @ snd st)], ''__rownumber''))"

definition valueIdExpr :: "ValueIdentifierEntry \<Rightarrow> string" where
  "valueIdExpr vi = ''dense_rank() OVER (ORDER BY '' @ quoteIdent (vi_fieldName vi) @ '' ASC NULLS LAST) AS '' @
     quoteIdent (vi_outputAlias vi)"

definition sql_valueIdentifiers :: "ValueIdentifierEntry list \<Rightarrow> sql_stage \<Rightarrow> sql_stage" where
  "sql_valueIdentifiers vis st = (if vis = [] then st
    else (fst st @ [cte ''__value_ids'' (''SELECT *, '' @ joined '', '' (map valueIdExpr vis) @ '' FROM '' @ snd st)],
          ''__value_ids''))"

definition binAlias :: "nat \<Rightarrow> string" where
  "binAlias idx = ''__bs'' @ nat_text idx"

definition statsJoin :: "BinningConfig \<Rightarrow> string \<Rightarrow> string" where
  "statsJoin b alias =
    ''CROSS JOIN ('' @ ''SELECT '' @ toNumeric (quoteIdent (bn_statsMinField b)) (bn_toNumericFn b) @ '' AS __min, '' @
      ''GREATEST(ABS('' @ toNumeric (quoteIdent (bn_statsMaxField b)) (bn_toNumericFn b) @ '' - '' @
      toNumeric (quoteIdent (bn_statsMinField b)) (bn_toNumericFn b) @ '') / '' @ nat_text (bn_binCount b) @
      '', 1e-15) AS __bin_width '' @ ''FROM '' @ quoteIdent (bn_statsTable b) @ '') '' @ alias"

definition binExpr :: "BinningConfig \<Rightarrow> string \<Rightarrow> string" where
  "binExpr b alias = ''('' @ toNumeric (''t.'' @ quoteIdent (bn_fieldName b)) (bn_toNumericFn b) @ '' - '' @ alias @
     ''.__min) / '' @ alias @ ''.__bin_width AS '' @ quoteIdent (bn_outputAlias b)"

definition sql_binnings :: "BinningConfig list \<Rightarrow> sql_stage \<Rightarrow> sql_stage" where
  "sql_binnings bs st = (if bs = [] then st
    else (fst st @ [cte ''__binning'' (''SELECT t.*, '' @
            joined '', '' (map (\<lambda>(b, idx). binExpr b (binAlias idx)) (zip bs [0..<length bs])) @ '' FROM '' @ snd st @
            '' t '' @ joined '' '' (map (\<lambda>(b, idx). statsJoin b (binAlias idx)) (zip bs [0..<length bs])))],
          ''__binning''))"

definition filterCondition :: "(rat \<Rightarrow> string) \<Rightarrow> ScalarFilter \<Rightarrow> string" where
  "filterCondition num f = quoteIdent (fl_fieldName f) @ '' '' @ op_text (fl_op f) @ '' '' @ num (fl_value f)"

definition sql_filters :: "(rat \<Rightarrow> string) \<Rightarrow> ScalarFilter list \<Rightarrow> sql_stage \<Rightarrow> sql_stage" where
  "sql_filters num fs st = (if fs = [] then st
    else (fst st @ [cte ''__filtered''
            (''SELECT * FROM '' @ snd st @ '' WHERE '' @ joined '' AND '' (map (filterCondition num) fs))],
          ''__filtered''))"

definition sql_semiJoin :: "SemiJoinFilter \<times> nat \<Rightarrow> sql_stage \<Rightarrow> sql_stage" where
  "sql_semiJoin x st = (case x of (sj, i) \<Rightarrow>
    (let name = ''__semi_'' @ nat_text i
     in (fst st @ [cte name (''SELECT * FROM '' @ snd st @ '' WHERE '' @ quoteIdent (sj_fieldName sj) @ '' IN (SELECT '' @
           quoteIdent (sj_joinFieldName sj) @ '' FROM '' @ quoteIdent (sj_tableName sj) @ '')'')], name)))"

definition sql_semiJoins :: "SemiJoinFilter list \<Rightarrow> sql_stage \<Rightarrow> sql_stage" where
  "sql_semiJoins sjs st = fold sql_semiJoin (zip sjs [0..<length sjs]) st"

section \<open>Grouping\<close>

text \<open>The first key with a binning, with its position: the code compares keys with it by identity.\<close>

definition binned_key :: "GroupByKey list \<Rightarrow> (nat \<times> GroupByKey \<times> GroupByKeyBinning) option" where
  "binned_key keys = (case filter (\<lambda>(k, i). gb_binning k \<noteq> None) (zip keys [0..<length keys]) of
     [] \<Rightarrow> None
   | (k, i) # _ \<Rightarrow> map_option (\<lambda>b. (i, k, b)) (gb_binning k))"

fun all_some :: "'a option list \<Rightarrow> 'a list option" where
  "all_some [] = Some []"
| "all_some (None # xs) = None"
| "all_some (Some x # xs) = map_option ((#) x) (all_some xs)"

definition aggExpr :: "GroupByAggregate \<Rightarrow> string option" where
  "aggExpr a = map_option (\<lambda>e. e @ '' AS '' @ quoteIdent (ga_outputAlias a)) (formatAggExpr a)"

definition keyExpr :: "GroupByKey \<Rightarrow> string" where
  "keyExpr k = quoteIdent (gb_fieldName k) @ '' AS '' @ quoteIdent (gb_outputAlias k)"

definition groupByPositions :: "GroupByKey list \<Rightarrow> string" where
  "groupByPositions keys = joined '', '' (map (\<lambda>i. nat_text (i + 1)) [0..<length keys])"

definition buildSimpleGroupBy :: "GroupByConfig \<Rightarrow> sql_stage \<Rightarrow> sql_stage option" where
  "buildSimpleGroupBy gb st = (case all_some (map aggExpr (gc_aggregates gb)) of None \<Rightarrow> None
    | Some aggs \<Rightarrow>
      (let selectList = joined '', '' (map keyExpr (gc_keys gb) @ aggs);
           body = (if gc_keys gb \<noteq> []
             then ''SELECT '' @ selectList @ '' FROM '' @ snd st @ '' GROUP BY '' @ groupByPositions (gc_keys gb)
             else ''SELECT '' @ selectList @ '' FROM '' @ snd st)
       in Some (fst st @ [cte ''__grouped'' body], ''__grouped'')))"

definition grpStatsSql :: "GroupByKeyBinning \<Rightarrow> string" where
  "grpStatsSql b =
    (let minField = quoteIdent (gk_statsMinField b); maxField = quoteIdent (gk_statsMaxField b);
         n = nat_text (gk_binCount b)
     in case js_truthy_name (gk_toNumericFn b) of
       Some fn \<Rightarrow> ''SELECT '' @ minField @ '' AS __min, '' @ ''GREATEST(ABS('' @ fn @ ''('' @ maxField @ '') - '' @ fn @
         ''('' @ minField @ '')) / '' @ n @ '', 1e-15) AS __bin_width '' @ ''FROM '' @ quoteIdent (gk_statsTable b)
     | None \<Rightarrow> ''SELECT '' @ ''CAST('' @ minField @ '' AS DOUBLE) AS __min, '' @ ''GREATEST(ABS(CAST('' @ maxField @
         '' AS DOUBLE) - CAST('' @ minField @ '' AS DOUBLE)) / '' @ n @ '', 1e-15) AS __bin_width '' @ ''FROM '' @
         quoteIdent (gk_statsTable b))"

definition grpBinExpr :: "GroupByKey \<Rightarrow> GroupByKeyBinning \<Rightarrow> string" where
  "grpBinExpr k b = (case js_truthy_name (gk_preBinnedFieldName b) of
     Some p \<Rightarrow> ''t.'' @ quoteIdent p
   | None \<Rightarrow> (case js_truthy_name (gk_toNumericFn b) of
        Some fn \<Rightarrow> ''('' @ fn @ ''(t.'' @ quoteIdent (gb_fieldName k) @ '') - '' @ fn @ ''(s.__min)) / s.__bin_width''
      | None \<Rightarrow> ''(CAST(t.'' @ quoteIdent (gb_fieldName k) @ '' AS DOUBLE) - s.__min) / s.__bin_width''))"

definition flooredBin :: "string \<Rightarrow> nat \<Rightarrow> string" where
  "flooredBin e n = ''CAST('' @ ''CASE '' @ ''WHEN FLOOR('' @ e @ '') >= '' @ nat_text n @ '' THEN '' @
     int_text (int n - 1) @ '' '' @ ''WHEN FLOOR('' @ e @ '') >= 0 THEN FLOOR('' @ e @ '') '' @ ''ELSE 0 '' @ ''END'' @
     '' AS INTEGER)''"

definition binCaseExpr :: "GroupByKey \<Rightarrow> GroupByKeyBinning \<Rightarrow> string" where
  "binCaseExpr k b =
    (let floored = flooredBin (grpBinExpr k b) (gk_binCount b)
     in if gk_includeNullBin b = Some True
        then ''CASE '' @ ''WHEN t.'' @ quoteIdent (gb_fieldName k) @ '' IS NULL THEN '' @ nat_text (gk_binCount b) @ '' '' @
          ''ELSE '' @ floored @ '' '' @ ''END''
        else floored)"

definition groupedSql :: "GroupByConfig \<Rightarrow> nat \<times> GroupByKey \<times> GroupByKeyBinning \<Rightarrow> string list \<Rightarrow> string \<Rightarrow> string" where
  "groupedSql gb x aggs prev = (case x of (pos, key, b) \<Rightarrow>
     ''SELECT '' @ joined '', ''
        (map (\<lambda>(k, i). if i = pos then binCaseExpr key b @ '' AS '' @ quoteIdent (gb_outputAlias key) else keyExpr k)
          (zip (gc_keys gb) [0..<length (gc_keys gb)]) @ aggs) @
     '' FROM '' @ prev @ '' t CROSS JOIN __grp_stats s GROUP BY '' @ groupByPositions (gc_keys gb))"

definition totalBins :: "GroupByKeyBinning \<Rightarrow> nat" where
  "totalBins b = (if gk_includeNullBin b = Some True then gk_binCount b + 1 else gk_binCount b)"

definition allBinsSql :: "GroupByKeyBinning \<Rightarrow> string \<Rightarrow> string" where
  "allBinsSql b binRef = ''SELECT UNNEST(generate_series(0, '' @ int_text (int (totalBins b) - 1) @ '')) AS '' @ binRef"

definition withBinsSql :: "GroupByConfig \<Rightarrow> nat \<Rightarrow> string \<Rightarrow> string" where
  "withBinsSql gb pos binRef =
     ''SELECT '' @ joined '', '' ((''ab.'' @ binRef) #
        map (\<lambda>(k, i). ''g.'' @ quoteIdent (gb_outputAlias k))
          (filter (\<lambda>(k, i). i \<noteq> pos) (zip (gc_keys gb) [0..<length (gc_keys gb)])) @
        map (\<lambda>a. ''g.'' @ quoteIdent (ga_outputAlias a)) (gc_aggregates gb)) @
     '' FROM __all_bins ab LEFT JOIN __grouped g ON ab.'' @ binRef @ '' = g.'' @ binRef"

definition offsetExpr :: "string option \<Rightarrow> string \<Rightarrow> string" where
  "offsetExpr fn offset = (case js_truthy_name fn of
     Some f \<Rightarrow> f @ ''(s.__min) * 1000.0 + ('' @ offset @ '') * 1000.0''
   | None \<Rightarrow> ''s.__min + ('' @ offset @ '')'')"

definition nullable_bin :: "GroupByKeyBinning \<Rightarrow> string \<Rightarrow> string \<Rightarrow> string" where
  "nullable_bin b binRef e = (if gk_includeNullBin b = Some True
     then ''CASE WHEN '' @ binRef @ '' = '' @ nat_text (gk_binCount b) @ '' THEN NULL ELSE '' @ e @ '' END''
     else e)"

definition metaSql :: "GroupByKeyBinning \<Rightarrow> string \<Rightarrow> string" where
  "metaSql b binRef =
    ''SELECT t.*, '' @
    nullable_bin b binRef ''s.__bin_width'' @ '' AS '' @ quoteIdent (gk_outputBinWidthAlias b) @ '', '' @
    nullable_bin b binRef (offsetExpr (gk_toNumericFn b) (binRef @ '' * s.__bin_width'')) @ '' AS '' @
      quoteIdent (gk_outputBinLbAlias b) @ '', '' @
    nullable_bin b binRef (offsetExpr (gk_toNumericFn b) (''('' @ binRef @ '' + 1) * s.__bin_width'')) @ '' AS '' @
      quoteIdent (gk_outputBinUbAlias b) @ '' '' @
    ''FROM __with_bins t CROSS JOIN __grp_stats s''"

definition buildBinnedGroupBy ::
  "GroupByConfig \<Rightarrow> nat \<times> GroupByKey \<times> GroupByKeyBinning \<Rightarrow> sql_stage \<Rightarrow> sql_stage option" where
  "buildBinnedGroupBy gb x st = (case all_some (map aggExpr (gc_aggregates gb)) of None \<Rightarrow> None
    | Some aggs \<Rightarrow> (case x of (pos, key, b) \<Rightarrow>
      (let binRef = quoteIdent (gb_outputAlias key)
       in Some (fst st @ [cte ''__grp_stats'' (grpStatsSql b), cte ''__grouped'' (groupedSql gb x aggs (snd st)),
            cte ''__all_bins'' (allBinsSql b binRef), cte ''__with_bins'' (withBinsSql gb pos binRef),
            cte ''__bin_meta'' (metaSql b binRef)], ''__bin_meta''))))"

definition sql_groupBy :: "GroupByConfig option \<Rightarrow> sql_stage \<Rightarrow> sql_stage option" where
  "sql_groupBy g st = (case g of None \<Rightarrow> Some st
    | Some gb \<Rightarrow> (case binned_key (gc_keys gb) of
        Some x \<Rightarrow> buildBinnedGroupBy gb x st
      | None \<Rightarrow> buildSimpleGroupBy gb st))"

section \<open>The text of a frame\<close>

definition final_select :: "SQLFrame \<Rightarrow> string \<Rightarrow> string" where
  "final_select f prev =
    (let selectCols = (case sq_projection f of Some p \<Rightarrow> joined '', '' (map quoteIdent p) | None \<Rightarrow> ''*'')
     in ''SELECT '' @ selectCols @ '' FROM '' @ prev @
       (case sq_orderBy f of
          Some (c # cs) \<Rightarrow> NL @ ''ORDER BY '' @ joined '', '' (map formatOrderByItem (c # cs))
        | _ \<Rightarrow> '''') @
       (case sq_limit f of Some n \<Rightarrow> NL @ ''LIMIT '' @ nat_text n | None \<Rightarrow> ''''))"

definition with_ctes :: "string list \<Rightarrow> string \<Rightarrow> string" where
  "with_ctes ctes final = (if ctes = [] then final
    else ''WITH'' @ NL @ ''  '' @ joined ('','' @ NL @ ''  '') ctes @ NL @ final)"

definition toSQL :: "(rat \<Rightarrow> string) \<Rightarrow> SQLFrame \<Rightarrow> string option" where
  "toSQL num f =
    map_option (\<lambda>st. with_ctes (fst st) (final_select f (snd st)))
      (sql_groupBy (sq_groupBy f)
        (sql_semiJoins (sq_semiJoinFilters f)
          (sql_filters num (sq_scalarFilters f)
            (sql_binnings (sq_binnings f)
              (sql_valueIdentifiers (sq_valueIdentifiers f)
                (sql_rowNumber (sq_rowNumber f) ([], quoteIdent (sq_inputTable f))))))))"

end
