(* ===== verification/Sql_Lexing.thy ===== *)
theory Sql_Lexing
  imports Sql_Frame
begin

text \<open>Reading the generated SQL back: a lexer for double-quoted identifiers, and the proof that names never leave
  their quotes. Two texts are twins when they have the same tokens up to a renaming of identifiers.\<close>

section \<open>The lexer\<close>

datatype sql_token = Chr char | Ident string

text \<open>Outside of quotes every character is a token; inside, a doubled quote stands for one.\<close>

fun lex_sql :: "string option \<Rightarrow> string \<Rightarrow> sql_token list option" where
  "lex_sql None [] = Some []"
| "lex_sql (Some acc) [] = None"
| "lex_sql None (c # cs) = (if c = QUOTE then lex_sql (Some []) cs else map_option ((#) (Chr c)) (lex_sql None cs))"
| "lex_sql (Some acc) [c] = (if c = QUOTE then Some [Ident acc] else None)"
| "lex_sql (Some acc) (c # d # cs) =
    (if c = QUOTE
     then (if d = QUOTE then lex_sql (Some (acc @ [QUOTE])) cs else map_option ((#) (Ident acc)) (lex_sql None (d # cs)))
     else lex_sql (Some (acc @ [c])) (d # cs))"

definition joinable :: "string \<Rightarrow> string \<Rightarrow> bool" where
  "joinable s t \<longleftrightarrow> s = [] \<or> t = [] \<or> last s \<noteq> QUOTE \<or> hd t \<noteq> QUOTE"

lemma lex_append:
  assumes "lex_sql m s = Some ts" "lex_sql None t = Some us" "joinable s t" "s \<noteq> []"
  shows "lex_sql m (s @ t) = Some (ts @ us)"
  using assms
proof (induction m s arbitrary: ts rule: lex_sql.induct)
  case (3 c cs)
  show ?case
  proof (cases "cs = []")
    case True
    then show ?thesis using 3 by (auto split: if_splits)
  next
    case False
    then have "joinable cs t" using 3 by (simp add: joinable_def)
    then show ?thesis using 3 False by (auto split: if_splits)
  qed
next
  case (4 acc c)
  then show ?case by (cases t) (auto simp: joinable_def split: if_splits)
next
  case (5 acc c d cs)
  show ?case
  proof (cases "c = QUOTE \<and> d = QUOTE")
    case True
    then show ?thesis using 5 by (cases "cs = []") (auto simp: joinable_def)
  next
    case False
    then show ?thesis using 5 by (auto simp: joinable_def split: if_splits)
  qed
qed simp_all

lemma lex_plain: "QUOTE \<notin> set s \<Longrightarrow> lex_sql None s = Some (map Chr s)"
  by (induction s) auto

lemma lex_escaped:
  "lex_sql (Some acc) (concat (map (\<lambda>c. if c = QUOTE then [QUOTE, QUOTE] else [c]) n) @ [QUOTE]) = Some [Ident (acc @ n)]"
proof (induction n arbitrary: acc)
  case (Cons a n)
  let ?esc = "concat (map (\<lambda>c. if c = QUOTE then [QUOTE, QUOTE] else [c]) n) @ [QUOTE]"
  obtain d ds where "?esc = d # ds" by (cases ?esc) auto
  then show ?case using Cons.IH [of "acc @ [a]"] by (cases "a = QUOTE") auto
qed simp

lemma lex_quoteIdent: "lex_sql None (quoteIdent n) = Some [Ident n]"
  by (simp add: quoteIdent_def lex_escaped)

section \<open>Twins\<close>

fun rename_token :: "(string \<Rightarrow> string) \<Rightarrow> sql_token \<Rightarrow> sql_token" where
  "rename_token r (Chr c) = Chr c"
| "rename_token r (Ident n) = Ident (r n)"

definition twin :: "(string \<Rightarrow> string) \<Rightarrow> string \<Rightarrow> string \<Rightarrow> bool" where
  "twin r s s' \<longleftrightarrow> (\<exists>ts. lex_sql None s = Some ts \<and> lex_sql None s' = Some (map (rename_token r) ts))"

named_theorems twins "rules that prove texts to be twins"

lemma twin_app [twins]:
  assumes "twin r s s'" "twin r t t'" "joinable s t" "joinable s' t'"
  shows "twin r (s @ t) (s' @ t')"
proof -
  from assms(1,2) obtain ts us where 1: "lex_sql None s = Some ts" "lex_sql None s' = Some (map (rename_token r) ts)"
    and 2: "lex_sql None t = Some us" "lex_sql None t' = Some (map (rename_token r) us)" by (auto simp: twin_def)
  have "lex_sql None (s @ t) = Some (ts @ us)"
    using lex_append [OF 1(1) 2(1) assms(3)] 1 2 by (cases "s = []") auto
  moreover have "lex_sql None (s' @ t') = Some (map (rename_token r) (ts @ us))"
    using lex_append [OF 1(2) 2(2) assms(4)] 1 2 by (cases "s' = []") auto
  ultimately show ?thesis unfolding twin_def by blast
qed

lemma twin_quoteIdent [twins]: "twin r (quoteIdent n) (quoteIdent (r n))"
  by (simp add: twin_def lex_quoteIdent)

lemma twin_lit [twins]: "QUOTE \<notin> set s \<Longrightarrow> twin r s s"
  by (simp add: twin_def lex_plain comp_def)

lemma joinable_sep: "QUOTE \<notin> set t \<Longrightarrow> t \<noteq> [] \<Longrightarrow> joinable s (t @ u) \<and> joinable (s @ t) u \<and> joinable t u \<and> joinable s t"
  unfolding joinable_def by (metis hd_append hd_in_set last_appendR last_in_set)

lemma twin_joined:
  assumes "list_all2 (twin r) xs ys" "QUOTE \<notin> set sep" "sep \<noteq> []"
  shows "twin r (joined sep xs) (joined sep ys)"
  using assms(1)
proof (induction rule: list_all2_induct)
  case Nil
  show ?case by (simp add: twin_def)
next
  case (Cons x xs y ys)
  show ?case
  proof (cases xs)
    case Nil
    then show ?thesis using Cons by simp
  next
    case (Cons a as)
    then obtain b bs where "ys = b # bs" using \<open>list_all2 (twin r) xs ys\<close> by (cases ys) auto
    then show ?thesis using Cons Cons.IH \<open>twin r x y\<close> assms(2,3)
      by (simp del: append_assoc) (intro twin_app twin_lit; simp add: joinable_sep)
  qed
qed

text \<open>The name of a stage is a fixed text, unless it is the quoted input table.\<close>

lemma nat_text_plain [simp]: "QUOTE \<notin> set (nat_text n)"
proof (induction n rule: nat_text.induct)
  case (1 n)
  have "(QUOTE = digit_char d) = False" if "d < 10" for d
  proof -
    have "d \<in> {0, 1, 2, 3, 4, 5, 6, 7, 8, 9}" using that by auto
    then show ?thesis by (auto simp: digit_char_def char_of_def)
  qed
  then show ?case using 1 by (subst nat_text.simps) (auto simp del: nat_text.simps)
qed

lemma int_text_plain [simp]: "QUOTE \<notin> set (int_text i)"
  by (simp add: int_text_def)

section \<open>Renaming a frame\<close>

definition ren_orderBy :: "(string \<Rightarrow> string) \<Rightarrow> OrderByConstraint \<Rightarrow> OrderByConstraint" where
  "ren_orderBy r c = c\<lparr>ob_field := r (ob_field c)\<rparr>"

definition ren_binning :: "(string \<Rightarrow> string) \<Rightarrow> BinningConfig \<Rightarrow> BinningConfig" where
  "ren_binning r b = b\<lparr>bn_fieldName := r (bn_fieldName b), bn_statsTable := r (bn_statsTable b),
     bn_statsMinField := r (bn_statsMinField b), bn_statsMaxField := r (bn_statsMaxField b),
     bn_outputAlias := r (bn_outputAlias b)\<rparr>"

definition ren_keyBinning :: "(string \<Rightarrow> string) \<Rightarrow> GroupByKeyBinning \<Rightarrow> GroupByKeyBinning" where
  "ren_keyBinning r b = b\<lparr>gk_preBinnedFieldName := map_option r (gk_preBinnedFieldName b),
     gk_statsTable := r (gk_statsTable b), gk_statsMinField := r (gk_statsMinField b),
     gk_statsMaxField := r (gk_statsMaxField b), gk_outputBinLbAlias := r (gk_outputBinLbAlias b),
     gk_outputBinUbAlias := r (gk_outputBinUbAlias b), gk_outputBinWidthAlias := r (gk_outputBinWidthAlias b)\<rparr>"

definition ren_key :: "(string \<Rightarrow> string) \<Rightarrow> GroupByKey \<Rightarrow> GroupByKey" where
  "ren_key r k = k\<lparr>gb_fieldName := r (gb_fieldName k), gb_outputAlias := r (gb_outputAlias k),
     gb_binning := map_option (ren_keyBinning r) (gb_binning k)\<rparr>"

definition ren_aggregate :: "(string \<Rightarrow> string) \<Rightarrow> GroupByAggregate \<Rightarrow> GroupByAggregate" where
  "ren_aggregate r a = a\<lparr>ga_fieldName := map_option r (ga_fieldName a), ga_outputAlias := r (ga_outputAlias a)\<rparr>"

definition ren_groupBy :: "(string \<Rightarrow> string) \<Rightarrow> GroupByConfig \<Rightarrow> GroupByConfig" where
  "ren_groupBy r g = g\<lparr>gc_keys := map (ren_key r) (gc_keys g), gc_aggregates := map (ren_aggregate r) (gc_aggregates g)\<rparr>"

definition ren_filter :: "(string \<Rightarrow> string) \<Rightarrow> ScalarFilter \<Rightarrow> ScalarFilter" where
  "ren_filter r f = f\<lparr>fl_fieldName := r (fl_fieldName f)\<rparr>"

definition ren_semiJoin :: "(string \<Rightarrow> string) \<Rightarrow> SemiJoinFilter \<Rightarrow> SemiJoinFilter" where
  "ren_semiJoin r s = s\<lparr>sj_fieldName := r (sj_fieldName s), sj_tableName := r (sj_tableName s),
     sj_joinFieldName := r (sj_joinFieldName s)\<rparr>"

definition ren_valueId :: "(string \<Rightarrow> string) \<Rightarrow> ValueIdentifierEntry \<Rightarrow> ValueIdentifierEntry" where
  "ren_valueId r v = v\<lparr>vi_fieldName := r (vi_fieldName v), vi_outputAlias := r (vi_outputAlias v)\<rparr>"

definition ren_frame :: "(string \<Rightarrow> string) \<Rightarrow> SQLFrame \<Rightarrow> SQLFrame" where
  "ren_frame r f = f\<lparr>sq_inputTable := r (sq_inputTable f), sq_rowNumber := map_option r (sq_rowNumber f),
     sq_valueIdentifiers := map (ren_valueId r) (sq_valueIdentifiers f), sq_binnings := map (ren_binning r) (sq_binnings f),
     sq_scalarFilters := map (ren_filter r) (sq_scalarFilters f), sq_semiJoinFilters := map (ren_semiJoin r) (sq_semiJoinFilters f),
     sq_groupBy := map_option (ren_groupBy r) (sq_groupBy f), sq_orderBy := map_option (map (ren_orderBy r)) (sq_orderBy f),
     sq_projection := map_option (map r) (sq_projection f)\<rparr>"

lemmas ren_defs = ren_orderBy_def ren_binning_def ren_keyBinning_def ren_key_def ren_aggregate_def ren_groupBy_def
  ren_filter_def ren_semiJoin_def ren_valueId_def

text \<open>The texts a frame takes literally: conversion functions and numbers.\<close>

definition plain_fn :: "string option \<Rightarrow> bool" where
  "plain_fn fn \<longleftrightarrow> (case fn of Some s \<Rightarrow> QUOTE \<notin> set s | None \<Rightarrow> True)"

definition plain_frame :: "(rat \<Rightarrow> string) \<Rightarrow> SQLFrame \<Rightarrow> bool" where
  "plain_frame num f \<longleftrightarrow> list_all (\<lambda>b. plain_fn (bn_toNumericFn b)) (sq_binnings f) \<and>
     list_all (\<lambda>s. QUOTE \<notin> set (num (fl_value s))) (sq_scalarFilters f) \<and>
     (case sq_groupBy f of Some g \<Rightarrow> list_all (\<lambda>k. case gb_binning k of Some b \<Rightarrow> plain_fn (gk_toNumericFn b) | None \<Rightarrow> True) (gc_keys g)
      | None \<Rightarrow> True)"

lemma truthy_plain: "plain_fn fn \<Longrightarrow> js_truthy_name fn = Some s \<Longrightarrow> QUOTE \<notin> set s"
  by (auto simp: plain_fn_def js_truthy_name_def split: option.splits if_splits)

section \<open>The pieces of the text\<close>

lemma twin_toNumeric [twins]:
  assumes "plain_fn fn" "twin r e e'"
  shows "twin r (toNumeric e fn) (toNumeric e' fn)"
proof (cases "js_truthy_name fn")
  case None
  show ?thesis unfolding toNumeric_def None option.case
    by (intro twins assms) (simp_all add: joinable_def)
next
  case (Some s)
  have "twin r s s" by (rule twin_lit [OF truthy_plain [OF assms(1) Some]])
  then show ?thesis unfolding toNumeric_def Some option.case
    by (intro twin_app assms) (simp_all add: joinable_def twin_lit)
qed

lemma twin_orderItem [twins]: "twin r (formatOrderByItem c) (formatOrderByItem (ren_orderBy r c))"
  unfolding formatOrderByItem_def Let_def ren_defs by (simp, intro twins conjI impI) (simp_all add: joinable_def)

lemma twin_agg: "rel_option (twin r) (formatAggExpr a) (formatAggExpr (ren_aggregate r a))"
proof (cases "ga_fieldName a")
  case None
  show ?thesis unfolding formatAggExpr_def ren_defs using None by (cases "ga_func a") (simp_all add: twin_lit)
next
  case (Some n)
  have t: "twin r (u @ quoteIdent n @ '')'') (u @ quoteIdent (r n) @ '')'')" if "QUOTE \<notin> set u" for u
    by (intro twins that) (use that in \<open>auto simp: joinable_def dest: last_in_set\<close>)
  show ?thesis unfolding formatAggExpr_def ren_defs using Some
    by (cases "ga_func a") (auto simp del: append_Cons append_Nil intro!: t twin_lit)
qed

lemma twin_aggExpr: "rel_option (twin r) (aggExpr a) (aggExpr (ren_aggregate r a))"
proof -
  have *: "twin r (e @ '' AS '' @ quoteIdent (ga_outputAlias a)) (e' @ '' AS '' @ quoteIdent (r (ga_outputAlias a)))"
    if "twin r e e'" for e e'
    by (intro twins that) (simp_all add: joinable_def)
  from twin_agg [of r a] show ?thesis unfolding aggExpr_def
    by (cases rule: option.rel_cases) (simp_all add: ren_aggregate_def * del: append_Cons append_Nil)
qed

lemma twin_keyExpr [twins]: "twin r (keyExpr k) (keyExpr (ren_key r k))"
  unfolding keyExpr_def ren_key_def
  by (simp del: append_Cons append_Nil) (intro twins; simp add: joinable_def)

lemma twin_valueIdExpr [twins]: "twin r (valueIdExpr v) (valueIdExpr (ren_valueId r v))"
  unfolding valueIdExpr_def ren_valueId_def
  by (simp del: append_Cons append_Nil) (intro twins; simp add: joinable_def)

lemma twin_binExpr [twins]:
  assumes "plain_fn (bn_toNumericFn b)"
  shows "twin r (binExpr b (binAlias i)) (binExpr (ren_binning r b) (binAlias i))"
  using assms unfolding binExpr_def ren_binning_def binAlias_def
  by (simp del: append_Cons append_Nil) (intro twins; simp add: joinable_def)

lemma twin_statsJoin [twins]:
  assumes "plain_fn (bn_toNumericFn b)"
  shows "twin r (statsJoin b (binAlias i)) (statsJoin (ren_binning r b) (binAlias i))"
  using assms unfolding statsJoin_def ren_binning_def binAlias_def
  by (simp del: append_Cons append_Nil) (intro twins; simp add: joinable_def)

lemma op_text_plain [simp]: "QUOTE \<notin> set (op_text op)"
  by (cases op) simp_all

lemma twin_filterCondition [twins]:
  assumes "QUOTE \<notin> set (num (fl_value f))"
  shows "twin r (filterCondition num f) (filterCondition num (ren_filter r f))"
  using assms unfolding filterCondition_def ren_filter_def
  by (simp del: append_Cons append_Nil) (intro twins; simp add: joinable_def)

lemma twin_cte [twins]:
  assumes "QUOTE \<notin> set n" "twin r s s'"
  shows "twin r (cte n s) (cte n s')"
  using assms unfolding cte_def by (intro twins) (simp_all add: joinable_def)

lemma twin_grpStats [twins]:
  assumes "plain_fn (gk_toNumericFn b)"
  shows "twin r (grpStatsSql b) (grpStatsSql (ren_keyBinning r b))"
proof (cases "js_truthy_name (gk_toNumericFn b)")
  case None
  then show ?thesis unfolding grpStatsSql_def Let_def ren_keyBinning_def
    by (simp del: append_Cons append_Nil, intro twins) (simp_all add: joinable_def)
next
  case (Some fn)
  from truthy_plain [OF assms Some] Some show ?thesis unfolding grpStatsSql_def Let_def ren_keyBinning_def
    by (simp del: append_Cons append_Nil, intro twins) (simp_all add: joinable_def)
qed

text \<open>A present but empty pre-binned field is falsy, so the renaming has to keep names (non-)empty.\<close>

definition keeps_empty :: "(string \<Rightarrow> string) \<Rightarrow> bool" where
  "keeps_empty r \<longleftrightarrow> (\<forall>n. (r n = []) = (n = []))"

lemma truthy_ren: "keeps_empty r \<Longrightarrow> js_truthy_name (map_option r p) = map_option r (js_truthy_name p)"
  by (auto simp: js_truthy_name_def keeps_empty_def split: option.splits)

lemma twin_grpBin [twins]:
  assumes "plain_fn (gk_toNumericFn b)" "keeps_empty r"
  shows "twin r (grpBinExpr k b) (grpBinExpr (ren_key r k) (ren_keyBinning r b))"
proof (cases "js_truthy_name (gk_preBinnedFieldName b)")
  case None
  show ?thesis
  proof (cases "js_truthy_name (gk_toNumericFn b)")
    case None
    with \<open>js_truthy_name (gk_preBinnedFieldName b) = None\<close> show ?thesis
      unfolding grpBinExpr_def ren_keyBinning_def ren_key_def
      by (simp add: truthy_ren assms del: append_Cons append_Nil) (intro twins; simp add: joinable_def)
  next
    case (Some fn)
    from truthy_plain [OF assms(1) Some] Some \<open>js_truthy_name (gk_preBinnedFieldName b) = None\<close> show ?thesis
      unfolding grpBinExpr_def ren_keyBinning_def ren_key_def
      by (simp add: truthy_ren assms del: append_Cons append_Nil) (intro twins; simp add: joinable_def)
  qed
next
  case (Some p)
  then show ?thesis unfolding grpBinExpr_def ren_keyBinning_def ren_key_def
    by (simp add: truthy_ren assms del: append_Cons append_Nil) (intro twins; simp add: joinable_def)
qed

lemma twin_flooredBin [twins]: "twin r e e' \<Longrightarrow> twin r (flooredBin e n) (flooredBin e' n)"
  unfolding flooredBin_def by (intro twins; simp add: joinable_def)

lemma twin_binCase [twins]:
  assumes "plain_fn (gk_toNumericFn b)" "keeps_empty r"
  shows "twin r (binCaseExpr k b) (binCaseExpr (ren_key r k) (ren_keyBinning r b))"
proof -
  have e: "twin r (flooredBin (grpBinExpr k b) n) (flooredBin (grpBinExpr (ren_key r k) (ren_keyBinning r b)) n)" for n
    by (intro twins assms)
  have n: "gk_includeNullBin (ren_keyBinning r b) = gk_includeNullBin b" "gk_binCount (ren_keyBinning r b) = gk_binCount b"
    "gb_fieldName (ren_key r k) = r (gb_fieldName k)"
    by (simp_all add: ren_keyBinning_def ren_key_def)
  show ?thesis
  proof (cases "gk_includeNullBin b = Some True")
    case True
    show ?thesis unfolding binCaseExpr_def Let_def n if_P [OF True] by (intro twins e; simp add: joinable_def)
  next
    case False
    show ?thesis unfolding binCaseExpr_def Let_def n if_not_P [OF False] by (rule e)
  qed
qed

lemma zip_map_left: "zip (map f xs) ys = map (\<lambda>(x, y). (f x, y)) (zip xs ys)"
  by (rule zip_map1)

lemma all2_maps: "(\<And>x. x \<in> set xs \<Longrightarrow> P (f x) (g x)) \<Longrightarrow> list_all2 P (map f xs) (map g xs)"
  by (simp add: list_all2_conv_all_nth)

lemma twin_positions [twins]: "twin r (groupByPositions ks) (groupByPositions (map (ren_key r) ks))"
  unfolding groupByPositions_def length_map by (rule twin_joined) (simp_all add: all2_maps twin_lit)

lemma twin_grouped [twins]:
  assumes "plain_fn (gk_toNumericFn b)" "keeps_empty r" "list_all2 (twin r) aggs aggs'" "twin r p p'"
  shows "twin r (groupedSql gb (pos, k, b) aggs p)
    (groupedSql (ren_groupBy r gb) (pos, ren_key r k, ren_keyBinning r b) aggs' p')"
proof -
  have ks: "gc_keys (ren_groupBy r gb) = map (ren_key r) (gc_keys gb)" by (simp add: ren_groupBy_def)
  have al: "gb_outputAlias (ren_key r k) = r (gb_outputAlias k)" by (simp add: ren_key_def)
  let ?f = "\<lambda>(k', i). if i = pos then binCaseExpr k b @ '' AS '' @ quoteIdent (gb_outputAlias k) else keyExpr k'"
  let ?g = "\<lambda>(k', i). if i = pos then binCaseExpr (ren_key r k) (ren_keyBinning r b) @ '' AS '' @
      quoteIdent (r (gb_outputAlias k)) else keyExpr k'"
  have "twin r (?f x) (?g (case x of (k', i) \<Rightarrow> (ren_key r k', i)))" for x
  proof (cases x)
    case (Pair k' i)
    have "twin r (binCaseExpr k b @ '' AS '' @ quoteIdent (gb_outputAlias k))
      (binCaseExpr (ren_key r k) (ren_keyBinning r b) @ '' AS '' @ quoteIdent (r (gb_outputAlias k)))"
      by (intro twins assms) (simp_all add: joinable_def)
    then show ?thesis unfolding Pair prod.case using twin_keyExpr by (cases "i = pos") simp_all
  qed
  then have "list_all2 (twin r) (map ?f (zip (gc_keys gb) [0..<length (gc_keys gb)]))
      (map ?g (zip (map (ren_key r) (gc_keys gb)) [0..<length (gc_keys gb)]))"
    unfolding zip_map_left map_map by (intro all2_maps) (simp add: comp_def)
  then have "list_all2 (twin r) (map ?f (zip (gc_keys gb) [0..<length (gc_keys gb)]) @ aggs)
      (map ?g (zip (map (ren_key r) (gc_keys gb)) [0..<length (gc_keys gb)]) @ aggs')"
    using assms(3) by (rule list_all2_appendI)
  from twin_joined [OF this, of "'', ''"] have sel: "twin r
      (joined '', '' (map ?f (zip (gc_keys gb) [0..<length (gc_keys gb)]) @ aggs))
      (joined '', '' (map ?g (zip (map (ren_key r) (gc_keys gb)) [0..<length (gc_keys gb)]) @ aggs'))" by simp
  show ?thesis unfolding groupedSql_def prod.case ks al length_map
    by (intro twin_app twin_positions sel assms twin_lit; simp add: joinable_def)
qed

lemma twin_allBins [twins]: "twin r e e' \<Longrightarrow> twin r (allBinsSql b e) (allBinsSql (ren_keyBinning r b) e')"
proof -
  have "totalBins (ren_keyBinning r b) = totalBins b" by (simp add: totalBins_def ren_keyBinning_def)
  then show "twin r e e' \<Longrightarrow> ?thesis" unfolding allBinsSql_def by (simp only:) (intro twins; simp add: joinable_def)
qed

lemma twin_qualified: "QUOTE \<notin> set q \<Longrightarrow> twin r e e' \<Longrightarrow> twin r (q @ e) (q @ e')"
  by (intro twins) (auto simp: joinable_def dest: last_in_set)

lemma twin_withBins [twins]:
  assumes "twin r e e'"
  shows "twin r (withBinsSql gb pos e) (withBinsSql (ren_groupBy r gb) pos e')"
proof -
  have ks: "gc_keys (ren_groupBy r gb) = map (ren_key r) (gc_keys gb)"
    and as: "gc_aggregates (ren_groupBy r gb) = map (ren_aggregate r) (gc_aggregates gb)" by (simp_all add: ren_groupBy_def)
  let ?k = "\<lambda>(k, i). ''g.'' @ quoteIdent (gb_outputAlias k)"
  let ?z = "\<lambda>ks. filter (\<lambda>(k, i). i \<noteq> pos) (zip ks [0..<length ks])"
  have z: "?z (map (ren_key r) ks) = map (\<lambda>(k, i). (ren_key r k, i)) (?z ks)" for ks
    by (simp add: zip_map_left filter_map comp_def case_prod_unfold)
  have 1: "list_all2 (twin r) (map ?k (?z (gc_keys gb))) (map ?k (?z (map (ren_key r) (gc_keys gb))))"
    unfolding z map_map by (rule all2_maps) (auto simp: ren_key_def comp_def simp del: append_Cons intro!: twin_qualified twin_quoteIdent)
  have 2: "list_all2 (twin r) (map (\<lambda>a. ''g.'' @ quoteIdent (ga_outputAlias a)) (gc_aggregates gb))
      (map (\<lambda>a. ''g.'' @ quoteIdent (ga_outputAlias a)) (map (ren_aggregate r) (gc_aggregates gb)))"
    unfolding map_map by (rule all2_maps) (auto simp: ren_aggregate_def comp_def simp del: append_Cons intro!: twin_qualified twin_quoteIdent)
  have 3: "twin r (''ab.'' @ e) (''ab.'' @ e')" by (rule twin_qualified) (simp_all add: assms)
  show ?thesis unfolding withBinsSql_def ks as
    by (intro twin_app twin_joined list_all2_appendI list.rel_intros 1 2 3 assms twin_lit; simp add: joinable_def)
qed

lemma twin_offset [twins]:
  assumes "plain_fn fn" "twin r e e'"
  shows "twin r (offsetExpr fn e) (offsetExpr fn e')"
proof (cases "js_truthy_name fn")
  case None
  show ?thesis unfolding offsetExpr_def None option.case by (intro twins assms; simp add: joinable_def)
next
  case (Some f)
  have "twin r f f" by (rule twin_lit [OF truthy_plain [OF assms(1) Some]])
  then show ?thesis unfolding offsetExpr_def Some option.case
    by (intro twin_app assms) (simp_all add: joinable_def twin_lit)
qed

lemma twin_nullable [twins]:
  assumes "twin r c c'" "twin r e e'"
  shows "twin r (nullable_bin b c e) (nullable_bin (ren_keyBinning r b) c' e')"
proof -
  have n: "gk_includeNullBin (ren_keyBinning r b) = gk_includeNullBin b" "gk_binCount (ren_keyBinning r b) = gk_binCount b"
    by (simp_all add: ren_keyBinning_def)
  show ?thesis
  proof (cases "gk_includeNullBin b = Some True")
    case True
    show ?thesis unfolding nullable_bin_def n if_P [OF True] by (intro twins assms; simp add: joinable_def)
  next
    case False
    show ?thesis unfolding nullable_bin_def n if_not_P [OF False] by (rule assms)
  qed
qed

lemma twin_meta [twins]:
  assumes "plain_fn (gk_toNumericFn b)" "twin r c c'"
  shows "twin r (metaSql b c) (metaSql (ren_keyBinning r b) c')"
proof -
  have n: "gk_toNumericFn (ren_keyBinning r b) = gk_toNumericFn b"
    "gk_outputBinWidthAlias (ren_keyBinning r b) = r (gk_outputBinWidthAlias b)"
    "gk_outputBinLbAlias (ren_keyBinning r b) = r (gk_outputBinLbAlias b)"
    "gk_outputBinUbAlias (ren_keyBinning r b) = r (gk_outputBinUbAlias b)"
    by (simp_all add: ren_keyBinning_def)
  show ?thesis unfolding metaSql_def n by (intro twins assms; simp add: joinable_def)
qed

section \<open>The stages\<close>

definition twin_stage :: "(string \<Rightarrow> string) \<Rightarrow> sql_stage \<Rightarrow> sql_stage \<Rightarrow> bool" where
  "twin_stage r st st' \<longleftrightarrow> list_all2 (twin r) (fst st) (fst st') \<and> twin r (snd st) (snd st')"

lemma twin_stage_add:
  assumes "twin_stage r st st'" "list_all2 (twin r) cs cs'" "twin r p p'"
  shows "twin_stage r (fst st @ cs, p) (fst st' @ cs', p')"
  using assms by (simp add: twin_stage_def list_all2_appendI)

lemma stage_snd: "twin_stage r st st' \<Longrightarrow> twin r (snd st) (snd st')"
  by (simp add: twin_stage_def)

lemma stage_rowNumber:
  assumes "twin_stage r st st'"
  shows "twin_stage r (sql_rowNumber rn st) (sql_rowNumber (map_option r rn) st')"
proof (cases rn)
  case (Some a)
  show ?thesis unfolding sql_rowNumber_def Some option.map option.case
    by (intro twin_stage_add list.rel_intros twins assms stage_snd; simp add: joinable_def)
qed (simp add: sql_rowNumber_def assms)

lemma stage_valueIds:
  assumes "twin_stage r st st'"
  shows "twin_stage r (sql_valueIdentifiers vs st) (sql_valueIdentifiers (map (ren_valueId r) vs) st')"
proof (cases "vs = []")
  case False
  then have f: "map (ren_valueId r) vs \<noteq> []" by simp
  have "list_all2 (twin r) (map valueIdExpr vs) (map valueIdExpr (map (ren_valueId r) vs))"
    unfolding map_map by (rule all2_maps) (simp add: twin_valueIdExpr)
  then show ?thesis unfolding sql_valueIdentifiers_def if_not_P [OF False] if_not_P [OF f]
    by (intro twin_stage_add list.rel_intros twins twin_joined assms stage_snd; simp add: joinable_def)
qed (simp add: sql_valueIdentifiers_def assms)

lemma all2_indexed:
  assumes "\<And>x i. x \<in> set xs \<Longrightarrow> P (f x i) (g (h x) i)"
  shows "list_all2 P (map (\<lambda>(x, i). f x i) (zip xs ys)) (map (\<lambda>(x, i). g x i) (zip (map h xs) ys))"
  unfolding zip_map_left map_map by (rule all2_maps) (auto dest: set_zip_leftD intro: assms)

lemma stage_binnings:
  assumes "twin_stage r st st'" "list_all (\<lambda>b. plain_fn (bn_toNumericFn b)) bs"
  shows "twin_stage r (sql_binnings bs st) (sql_binnings (map (ren_binning r) bs) st')"
proof (cases "bs = []")
  case False
  then have f: "map (ren_binning r) bs \<noteq> []" by simp
  have p: "plain_fn (bn_toNumericFn b)" if "b \<in> set bs" for b using assms(2) that by (simp add: list_all_iff)
  have 1: "list_all2 (twin r) (map (\<lambda>(b, idx). binExpr b (binAlias idx)) (zip bs is))
      (map (\<lambda>(b, idx). binExpr b (binAlias idx)) (zip (map (ren_binning r) bs) is))"
   and 2: "list_all2 (twin r) (map (\<lambda>(b, idx). statsJoin b (binAlias idx)) (zip bs is))
      (map (\<lambda>(b, idx). statsJoin b (binAlias idx)) (zip (map (ren_binning r) bs) is))" for "is"
    by (rule all2_indexed, rule twins, rule p, assumption)+
  show ?thesis unfolding sql_binnings_def if_not_P [OF False] if_not_P [OF f] length_map
    by (intro twin_stage_add list.rel_intros twin_cte twin_app twin_joined 1 2 assms stage_snd twin_lit; simp add: joinable_def)
qed (simp add: sql_binnings_def assms)

lemma stage_filters:
  assumes "twin_stage r st st'" "list_all (\<lambda>s. QUOTE \<notin> set (num (fl_value s))) fs"
  shows "twin_stage r (sql_filters num fs st) (sql_filters num (map (ren_filter r) fs) st')"
proof (cases "fs = []")
  case False
  then have f: "map (ren_filter r) fs \<noteq> []" by simp
  have "list_all2 (twin r) (map (filterCondition num) fs) (map (filterCondition num) (map (ren_filter r) fs))"
    unfolding map_map by (rule all2_maps) (use assms(2) in \<open>simp add: twin_filterCondition list_all_iff\<close>)
  then show ?thesis unfolding sql_filters_def if_not_P [OF False] if_not_P [OF f]
    by (intro twin_stage_add list.rel_intros twin_cte twin_app twin_joined assms stage_snd twin_lit; simp add: joinable_def)
qed (simp add: sql_filters_def assms)

lemma stage_semiJoin:
  assumes "twin_stage r st st'"
  shows "twin_stage r (sql_semiJoin (s, i) st) (sql_semiJoin (ren_semiJoin r s, i) st')"
proof -
  have n: "sj_fieldName (ren_semiJoin r s) = r (sj_fieldName s)" "sj_tableName (ren_semiJoin r s) = r (sj_tableName s)"
    "sj_joinFieldName (ren_semiJoin r s) = r (sj_joinFieldName s)" by (simp_all add: ren_semiJoin_def)
  show ?thesis unfolding sql_semiJoin_def prod.case Let_def n
    by (intro twin_stage_add list.rel_intros twins assms stage_snd; simp add: joinable_def)
qed

lemma stage_semiJoins:
  assumes "twin_stage r st st'"
  shows "twin_stage r (sql_semiJoins ss st) (sql_semiJoins (map (ren_semiJoin r) ss) st')"
proof -
  have "twin_stage r (fold sql_semiJoin (zip ss is) st) (fold sql_semiJoin (zip (map (ren_semiJoin r) ss) is) st')"
    if "twin_stage r st st'" for "is" st st'
    using that
  proof (induction ss arbitrary: "is" st st')
    case (Cons s ss)
    then show ?case
    proof (cases "is")
      case i: (Cons i is')
      show ?thesis unfolding i zip_Cons_Cons list.map fold_simps comp_apply
        by (rule Cons.IH) (rule stage_semiJoin [OF Cons.prems])
    qed simp
  qed simp
  from this [OF assms] show ?thesis by (simp add: sql_semiJoins_def)
qed

lemma all_some_twins:
  assumes "list_all2 (rel_option (twin r)) xs ys"
  shows "rel_option (list_all2 (twin r)) (all_some xs) (all_some ys)"
  using assms
proof (induction rule: list_all2_induct)
  case (Cons x xs y ys)
  from \<open>rel_option (twin r) x y\<close> Cons.IH show ?case
    by (cases rule: option.rel_cases) (auto simp: option.rel_map elim!: option.rel_mono_strong)
qed simp

lemma aggs_twins:
  "rel_option (list_all2 (twin r)) (all_some (map aggExpr (gc_aggregates gb))) (all_some (map aggExpr (gc_aggregates (ren_groupBy r gb))))"
proof -
  have "gc_aggregates (ren_groupBy r gb) = map (ren_aggregate r) (gc_aggregates gb)" by (simp add: ren_groupBy_def)
  then show ?thesis by (simp only: map_map) (intro all_some_twins all2_maps; simp add: twin_aggExpr)
qed

lemma stage_simple:
  assumes "twin_stage r st st'"
  shows "rel_option (twin_stage r) (buildSimpleGroupBy gb st) (buildSimpleGroupBy (ren_groupBy r gb) st')"
  using aggs_twins [of r gb]
proof (cases rule: option.rel_cases)
  case None
  then show ?thesis by (simp add: buildSimpleGroupBy_def)
next
  case (Some as as')
  have ks: "gc_keys (ren_groupBy r gb) = map (ren_key r) (gc_keys gb)" by (simp add: ren_groupBy_def)
  have "list_all2 (twin r) (map keyExpr (gc_keys gb) @ as) (map keyExpr (map (ren_key r) (gc_keys gb)) @ as')"
    unfolding map_map by (intro list_all2_appendI Some(3) all2_maps) (simp add: twin_keyExpr)
  from twin_joined [OF this, of "'', ''"]
  have sel: "twin r (joined '', '' (map keyExpr (gc_keys gb) @ as)) (joined '', '' (map keyExpr (map (ren_key r) (gc_keys gb)) @ as'))"
    by simp
  show ?thesis
  proof (cases "gc_keys gb = []")
    case True
    then have t: "map (ren_key r) (gc_keys gb) = []" by simp
    have n: "\<not> gc_keys gb \<noteq> []" "\<not> map (ren_key r) (gc_keys gb) \<noteq> []" using True by simp_all
    show ?thesis unfolding buildSimpleGroupBy_def Some option.case Let_def ks if_not_P [OF n(1)] if_not_P [OF n(2)] option.rel_inject
      by (intro twin_stage_add list.rel_intros twin_cte twin_app sel assms stage_snd twin_lit; simp add: joinable_def)
  next
    case False
    then have t: "map (ren_key r) (gc_keys gb) \<noteq> []" by simp
    show ?thesis unfolding buildSimpleGroupBy_def Some option.case Let_def ks if_P [OF False] if_P [OF t] option.rel_inject
      by (intro twin_stage_add list.rel_intros twin_cte twin_app twin_positions sel assms stage_snd twin_lit; simp add: joinable_def)
  qed
qed

lemma stage_binned:
  assumes "twin_stage r st st'" "plain_fn (gk_toNumericFn b)" "keeps_empty r"
  shows "rel_option (twin_stage r) (buildBinnedGroupBy gb (pos, k, b) st)
    (buildBinnedGroupBy (ren_groupBy r gb) (pos, ren_key r k, ren_keyBinning r b) st')"
  using aggs_twins [of r gb]
proof (cases rule: option.rel_cases)
  case None
  then show ?thesis by (simp add: buildBinnedGroupBy_def)
next
  case (Some as as')
  have al: "gb_outputAlias (ren_key r k) = r (gb_outputAlias k)" by (simp add: ren_key_def)
  show ?thesis unfolding buildBinnedGroupBy_def Some option.case prod.case Let_def al option.rel_inject
    by (intro twin_stage_add list.rel_intros twin_cte twin_grpStats twin_grouped twin_allBins twin_withBins twin_meta
        twin_quoteIdent Some(3) assms stage_snd twin_lit; simp add: joinable_def)
qed

lemma binned_key_ren: "binned_key (map (ren_key r) ks) = map_option (\<lambda>(i, k, b). (i, ren_key r k, ren_keyBinning r b)) (binned_key ks)"
proof -
  have 1: "zip (map (ren_key r) ks) is = map (\<lambda>(k, i). (ren_key r k, i)) (zip ks is)" for "is" by (simp add: zip_map_left)
  have 2: "(\<exists>y. gb_binning (ren_key r k) = Some y) = (\<exists>y. gb_binning k = Some y)" for k by (simp add: ren_key_def)
  have 3: "filter (\<lambda>(k, i). gb_binning k \<noteq> None) (zip (map (ren_key r) ks) is) =
      map (\<lambda>(k, i). (ren_key r k, i)) (filter (\<lambda>(k, i). gb_binning k \<noteq> None) (zip ks is))" for "is"
    unfolding 1 filter_map by (simp add: comp_def case_prod_unfold 2)
  show ?thesis unfolding binned_key_def 3 length_map
    by (cases "filter (\<lambda>(k, i). gb_binning k \<noteq> None) (zip ks [0..<length ks])")
       (auto simp: ren_key_def option.map_comp comp_def)
qed

lemma binned_key_in: "binned_key ks = Some (i, k, b) \<Longrightarrow> k \<in> set ks \<and> gb_binning k = Some b"
proof -
  let ?P = "\<lambda>(k, i). gb_binning k \<noteq> None"
  assume a: "binned_key ks = Some (i, k, b)"
  then obtain xs where f: "filter ?P (zip ks [0..<length ks]) = (k, i) # xs" "gb_binning k = Some b"
    by (auto simp: binned_key_def split: list.splits)
  have "(k, i) \<in> set (filter ?P (zip ks [0..<length ks]))" unfolding f(1) by simp
  then have "(k, i) \<in> set (zip ks [0..<length ks])" by (rule subsetD [OF filter_is_subset])
  then have "k \<in> set ks" by (rule set_zip_leftD)
  then show ?thesis using f(2) by simp
qed

lemma stage_groupBy:
  assumes "twin_stage r st st'" "keeps_empty r"
    "case g of Some g \<Rightarrow> list_all (\<lambda>k. case gb_binning k of Some b \<Rightarrow> plain_fn (gk_toNumericFn b) | None \<Rightarrow> True) (gc_keys g) | None \<Rightarrow> True"
  shows "rel_option (twin_stage r) (sql_groupBy g st) (sql_groupBy (map_option (ren_groupBy r) g) st')"
proof (cases g)
  case (Some gb)
  have ks: "gc_keys (ren_groupBy r gb) = map (ren_key r) (gc_keys gb)" by (simp add: ren_groupBy_def)
  show ?thesis
  proof (cases "binned_key (gc_keys gb)")
    case None
    then show ?thesis using stage_simple [OF assms(1)] by (simp add: sql_groupBy_def Some ks binned_key_ren)
  next
    case b: (Some x)
    obtain i k bn where x: "x = (i, k, bn)" by (cases x) auto
    from binned_key_in [OF b [unfolded x]] assms(3) Some have "plain_fn (gk_toNumericFn bn)" by (auto simp: list_all_iff)
    from stage_binned [OF assms(1) this assms(2)] show ?thesis by (simp add: sql_groupBy_def Some ks binned_key_ren b x)
  qed
qed (simp add: sql_groupBy_def assms)

lemma twin_final:
  assumes "twin r p p'"
  shows "twin r (final_select f p) (final_select (ren_frame r f) p')"
proof -
  have n: "sq_limit (ren_frame r f) = sq_limit f" "sq_projection (ren_frame r f) = map_option (map r) (sq_projection f)"
    "sq_orderBy (ren_frame r f) = map_option (map (ren_orderBy r)) (sq_orderBy f)" by (simp_all add: ren_frame_def)
  have cols: "twin r (case sq_projection f of Some p \<Rightarrow> joined '', '' (map quoteIdent p) | None \<Rightarrow> ''*'')
      (case map_option (map r) (sq_projection f) of Some p \<Rightarrow> joined '', '' (map quoteIdent p) | None \<Rightarrow> ''*'')"
  proof (cases "sq_projection f")
    case (Some ps)
    have "list_all2 (twin r) (map quoteIdent ps) (map quoteIdent (map r ps))"
      unfolding map_map by (rule all2_maps) (simp add: twin_quoteIdent)
    from twin_joined [OF this, of "'', ''"] show ?thesis by (simp add: Some)
  qed (simp add: twin_lit)
  let ?ord = "\<lambda>os. case os of Some (c # cs) \<Rightarrow> NL @ ''ORDER BY '' @ joined '', '' (map formatOrderByItem (c # cs)) | _ \<Rightarrow> ''''"
  have ord: "twin r (?ord (sq_orderBy f)) (?ord (map_option (map (ren_orderBy r)) (sq_orderBy f)))"
  proof (cases "sq_orderBy f")
    case (Some os)
    show ?thesis
    proof (cases os)
      case (Cons c cs)
      have "list_all2 (twin r) (map formatOrderByItem os) (map formatOrderByItem (map (ren_orderBy r) os))"
        unfolding map_map by (rule all2_maps) (simp add: twin_orderItem)
      from twin_joined [OF this, of "'', ''"]
      have j: "twin r (joined '', '' (map formatOrderByItem (c # cs))) (joined '', '' (map formatOrderByItem (ren_orderBy r c # map (ren_orderBy r) cs)))"
        by (simp add: Cons)
      show ?thesis unfolding Some Cons option.map list.map(2) option.case list.case
        by (intro twin_app j [unfolded list.map(2)] twin_lit; simp add: joinable_def)
    qed (simp add: Some twin_lit)
  qed (simp add: twin_lit)
  have lim: "twin r (case sq_limit f of Some n \<Rightarrow> NL @ ''LIMIT '' @ nat_text n | None \<Rightarrow> '''')
      (case sq_limit f of Some n \<Rightarrow> NL @ ''LIMIT '' @ nat_text n | None \<Rightarrow> '''')"
    by (rule twin_lit) (simp split: option.split)
  show ?thesis unfolding final_select_def Let_def n
    by (intro twin_app cols ord lim assms twin_lit) (simp_all add: joinable_def split: option.split list.split)
qed

lemma twin_with_ctes:
  assumes "list_all2 (twin r) cs cs'" "twin r s s'"
  shows "twin r (with_ctes cs s) (with_ctes cs' s')"
proof (cases "cs = []")
  case False
  then have f: "cs' \<noteq> []" using assms(1) by auto
  have j: "twin r (joined ('','' @ NL @ ''  '') cs) (joined ('','' @ NL @ ''  '') cs')" by (rule twin_joined [OF assms(1)]) simp_all
  show ?thesis unfolding with_ctes_def if_not_P [OF False] if_not_P [OF f]
    by (intro twin_app j assms twin_lit; simp add: joinable_def)
qed (use assms in \<open>simp add: with_ctes_def\<close>)

lemma twin_toSQL:
  assumes "plain_frame num f" "keeps_empty r"
  shows "rel_option (twin r) (toSQL num f) (toSQL num (ren_frame r f))"
proof -
  have q: "twin_stage r ([], quoteIdent (sq_inputTable f)) ([], quoteIdent (r (sq_inputTable f)))"
    by (simp add: twin_stage_def twin_quoteIdent)
  from assms(1) have p: "list_all (\<lambda>b. plain_fn (bn_toNumericFn b)) (sq_binnings f)"
    "list_all (\<lambda>s. QUOTE \<notin> set (num (fl_value s))) (sq_scalarFilters f)"
    "case sq_groupBy f of Some g \<Rightarrow> list_all (\<lambda>k. case gb_binning k of Some b \<Rightarrow> plain_fn (gk_toNumericFn b) | None \<Rightarrow> True) (gc_keys g) | None \<Rightarrow> True"
    by (simp_all add: plain_frame_def)
  have stages: "rel_option (twin_stage r)
     (sql_groupBy (sq_groupBy f) (sql_semiJoins (sq_semiJoinFilters f) (sql_filters num (sq_scalarFilters f)
       (sql_binnings (sq_binnings f) (sql_valueIdentifiers (sq_valueIdentifiers f)
         (sql_rowNumber (sq_rowNumber f) ([], quoteIdent (sq_inputTable f))))))))
     (sql_groupBy (map_option (ren_groupBy r) (sq_groupBy f)) (sql_semiJoins (map (ren_semiJoin r) (sq_semiJoinFilters f))
       (sql_filters num (map (ren_filter r) (sq_scalarFilters f)) (sql_binnings (map (ren_binning r) (sq_binnings f))
         (sql_valueIdentifiers (map (ren_valueId r) (sq_valueIdentifiers f))
           (sql_rowNumber (map_option r (sq_rowNumber f)) ([], quoteIdent (r (sq_inputTable f)))))))))"
    by (intro stage_groupBy stage_semiJoins stage_filters stage_binnings stage_valueIds stage_rowNumber q p assms(2))
  have n: "sq_inputTable (ren_frame r f) = r (sq_inputTable f)" "sq_rowNumber (ren_frame r f) = map_option r (sq_rowNumber f)"
    "sq_valueIdentifiers (ren_frame r f) = map (ren_valueId r) (sq_valueIdentifiers f)"
    "sq_binnings (ren_frame r f) = map (ren_binning r) (sq_binnings f)"
    "sq_scalarFilters (ren_frame r f) = map (ren_filter r) (sq_scalarFilters f)"
    "sq_semiJoinFilters (ren_frame r f) = map (ren_semiJoin r) (sq_semiJoinFilters f)"
    "sq_groupBy (ren_frame r f) = map_option (ren_groupBy r) (sq_groupBy f)" by (simp_all add: ren_frame_def)
  show ?thesis unfolding toSQL_def n option.rel_map
    by (rule option.rel_mono_strong [OF stages]) (simp add: twin_stage_def twin_with_ctes twin_final)
qed

section \<open>The property\<close>

text \<open>A filter on a column whose name tries to leave its quotes, and the renaming that makes it harmless.\<close>

definition hostile_name :: string where
  "hostile_name = ''a'' @ [QUOTE] @ '' > 0; DROP TABLE t''"

definition hostile_frame :: SQLFrame where
  "hostile_frame = frame_project [''_rownum''] (frame_filter hostile_name Ge_Op 3 (frame_from ''t''))"

definition harmless :: "string \<Rightarrow> string" where
  "harmless n = (if n = hostile_name then ''a'' else n)"

text \<open>C13. Names never leave their quotes in the generated SQL: a lexer reads every table, column and alias name back as
  one identifier with exactly this name, and renaming the names of a frame changes the text in nothing but these
  identifiers; the builder throws for the one frame exactly if it throws for the other.\<close>

theorem names_stay_quoted:
  assumes "plain_frame num f" "keeps_empty r"
  shows "case toSQL num f of
      None \<Rightarrow> toSQL num (ren_frame r f) = None
    | Some s \<Rightarrow> (\<exists>s' ts. toSQL num (ren_frame r f) = Some s' \<and> lex_sql None s = Some ts \<and>
        lex_sql None s' = Some (map (rename_token r) ts))"
  using twin_toSQL [OF assms] by (cases rule: option.rel_cases) (auto simp: twin_def)

theorem names_stay_quoted_witness:
  "\<exists>s' ts. toSQL (\<lambda>_. ''3'') (ren_frame harmless hostile_frame) = Some s' \<and>
     lex_sql None (the (toSQL (\<lambda>_. ''3'') hostile_frame)) = Some ts \<and> lex_sql None s' = Some (map (rename_token harmless) ts)"
proof -
  have "plain_frame (\<lambda>_. ''3'') hostile_frame"
    by (simp add: plain_frame_def hostile_frame_def frame_project_def frame_filter_def frame_from_def)
  moreover have "keeps_empty harmless" by (simp add: keeps_empty_def harmless_def hostile_name_def)
  ultimately show ?thesis
    using names_stay_quoted [of "\<lambda>_. ''3''" hostile_frame harmless]
    by (simp add: toSQL_def sql_groupBy_def hostile_frame_def frame_project_def frame_filter_def frame_from_def split: option.splits)
qed

end
