(* ===== verification/Compute_Types.thy ===== *)
theory Compute_Types
  imports Sql_Frame
begin

text \<open>The data of computations over query results (\<^verbatim>\<open>compute/computation_types.ts\<close>), the reference-counted
  data frames (\<^verbatim>\<open>compute/data_frame.ts\<close>) and the cross filters (\<^verbatim>\<open>compute/cross_filters.ts\<close>). Arrow tables are
  handles with their schema and row count, formatters and progress errors are handles.\<close>

section \<open>Versions\<close>

record ComputationStateVersion =
  cv_data :: nat
  cv_filter :: nat

definition withDataIncrement :: "ComputationStateVersion \<Rightarrow> ComputationStateVersion" where
  "withDataIncrement v = v\<lparr>cv_data := cv_data v + 1\<rparr>"

definition withFilterIncrement :: "ComputationStateVersion \<Rightarrow> ComputationStateVersion" where
  "withFilterIncrement v = v\<lparr>cv_filter := cv_filter v + 1\<rparr>"

definition dataMatches :: "ComputationStateVersion \<Rightarrow> ComputationStateVersion \<Rightarrow> bool" where
  "dataMatches v w \<longleftrightarrow> cv_data v = cv_data w"

definition filterMatches :: "ComputationStateVersion \<Rightarrow> ComputationStateVersion \<Rightarrow> bool" where
  "filterMatches v w \<longleftrightarrow> cv_data v = cv_data w \<and> cv_filter v = cv_filter w"

definition version_text :: "ComputationStateVersion \<Rightarrow> string" where
  "version_text v = nat_text (cv_data v) @ ''.'' @ nat_text (cv_filter v)"

lemma filterMatches_iff: "filterMatches v w \<longleftrightarrow> v = w"
  by (cases v, cases w) (simp add: filterMatches_def)

section \<open>Arrow tables\<close>

datatype ArrowType = Ty_Int | Ty_Int8 | Ty_Int16 | Ty_Int32 | Ty_Int64 | Ty_Uint8 | Ty_Uint16 | Ty_Uint32 | Ty_Uint64
  | Ty_Float | Ty_Float16 | Ty_Float32 | Ty_Float64 | Ty_Bool | Ty_Decimal | Ty_Date | Ty_DateDay | Ty_DateMillisecond
  | Ty_Time | Ty_TimeSecond | Ty_TimeMillisecond | Ty_TimeMicrosecond | Ty_TimeNanosecond
  | Ty_Timestamp | Ty_TimestampSecond | Ty_TimestampMillisecond | Ty_TimestampMicrosecond | Ty_TimestampNanosecond
  | Ty_DurationSecond | Ty_DurationMillisecond | Ty_DurationMicrosecond | Ty_DurationNanosecond
  | Ty_Utf8 | Ty_LargeUtf8 | Ty_List | Ty_FixedSizeList | Ty_Other nat

record ArrowField =
  af_name :: string
  af_typeId :: ArrowType
  af_nullable :: bool

record ArrowTable =
  at_object :: handle
  at_fields :: "ArrowField list"
  at_numRows :: nat

text \<open>\<^verbatim>\<open>createArrowFieldIndex\<close> of \<^verbatim>\<open>computation_state.ts\<close>: the last field of a name wins.\<close>

definition createArrowFieldIndex :: "ArrowTable \<Rightarrow> (string, nat) jsmap" where
  "createArrowFieldIndex t =
    fold (\<lambda>(f, i) m. js_set m (af_name f) i) (zip (at_fields t) [0..<length (at_fields t)]) []"

section \<open>Data frames\<close>

text \<open>A data frame is an object with the name of its table.\<close>

record DataFrame =
  df_object :: handle
  df_tableName :: string

text \<open>The registry, with the frames whose tables were dropped and the releases of unknown frames it warned about.\<close>

record DataFrameRegistry =
  registeredDataFrames :: "(DataFrame, int) jsmap"
  df_destroyed :: "DataFrame list"
  df_unknown :: "DataFrame list"

definition acquire :: "DataFrame option \<Rightarrow> int \<Rightarrow> DataFrameRegistry \<Rightarrow> DataFrameRegistry" where
  "acquire df k m = (case df of None \<Rightarrow> m
    | Some f \<Rightarrow> (case js_get (registeredDataFrames m) f of
        Some n \<Rightarrow> m\<lparr>registeredDataFrames := js_set (registeredDataFrames m) f (n + k)\<rparr>
      | None \<Rightarrow> m\<lparr>registeredDataFrames := js_set (registeredDataFrames m) f k\<rparr>))"

definition release :: "DataFrame option \<Rightarrow> DataFrameRegistry \<Rightarrow> DataFrameRegistry" where
  "release df m = (case df of None \<Rightarrow> m
    | Some f \<Rightarrow> (case js_get (registeredDataFrames m) f of
        Some n \<Rightarrow> (if n - 1 \<le> 0
          then m\<lparr>registeredDataFrames := js_delete (registeredDataFrames m) f, df_destroyed := df_destroyed m @ [f]\<rparr>
          else m\<lparr>registeredDataFrames := js_set (registeredDataFrames m) f (n - 1)\<rparr>)
      | None \<Rightarrow> m\<lparr>df_unknown := df_unknown m @ [f]\<rparr>))"

definition releaseMany :: "DataFrame option list \<Rightarrow> DataFrameRegistry \<Rightarrow> DataFrameRegistry" where
  "releaseMany dfs m = fold release dfs m"

definition generateTableName :: "string \<Rightarrow> nat \<Rightarrow> string \<times> nat" where
  "generateTableName pre nextTableId = (pre @ ''_'' @ nat_text nextTableId, nextTableId + 1)"

section \<open>Column groups\<close>

record ColumnStatsFields =
  cs_countFieldName :: string
  cs_distinctCountFieldName :: "string option"
  cs_minAggregateFieldName :: "string option"
  cs_maxAggregateFieldName :: "string option"

record GridColumn =
  gd_inputFieldName :: string
  gd_inputFieldType :: ArrowType
  gd_inputFieldNullable :: bool

record OrdinalGridColumnGroup = GridColumn +
  og_statsFields :: "ColumnStatsFields option"
  og_binFieldName :: "string option"
  og_binCount :: nat

record StringGridColumnGroup = GridColumn +
  sg_statsFields :: "ColumnStatsFields option"
  sg_valueIdFieldName :: "string option"

record ListGridColumnGroup = GridColumn +
  lg_statsFields :: "ColumnStatsFields option"
  lg_valueIdFieldName :: "string option"
  lg_umapProjection :: "(string \<times> string) option"

datatype ColumnGroup =
    ROWNUMBER_COLUMN string
  | SKIPPED_COLUMN GridColumn
  | ORDINAL_COLUMN OrdinalGridColumnGroup
  | STRING_COLUMN StringGridColumnGroup
  | LIST_COLUMN ListGridColumnGroup

fun getGridColumnTypeName :: "ColumnGroup \<Rightarrow> string" where
  "getGridColumnTypeName (ROWNUMBER_COLUMN _) = ''ROWNUMBER''"
| "getGridColumnTypeName (SKIPPED_COLUMN _) = ''SKIPPED''"
| "getGridColumnTypeName (ORDINAL_COLUMN _) = ''ORDINAL''"
| "getGridColumnTypeName (STRING_COLUMN _) = ''STRING''"
| "getGridColumnTypeName (LIST_COLUMN _) = ''LIST''"

section \<open>Results\<close>

record OrderingTable =
  ot_inputRowNumberColumnName :: string
  ot_orderingConstraints :: "OrderByConstraint list"
  ot_dataTable :: ArrowTable
  ot_dataFrame :: DataFrame
  ot_version :: ComputationStateVersion

record FilterTable =
  ft_inputRowNumberColumnName :: string
  ft_dataTable :: ArrowTable
  ft_dataFrame :: DataFrame
  ft_version :: ComputationStateVersion

record TableAggregation =
  ta_dataFrame :: DataFrame
  ta_table :: ArrowTable
  ta_tableFieldsByName :: "(string, nat) jsmap"
  ta_tableFormatter :: handle
  ta_countStarFieldName :: string

text \<open>Percentages are kept exactly; the code stores the nearest double.\<close>

record OrdinalColumnAnalysis =
  oa_totalCount :: int
  oa_countNotNull :: int
  oa_countNull :: int
  oa_minValue :: string
  oa_maxValue :: string
  oa_binCount :: nat
  oa_binValueCounts :: "int list"
  oa_binPercentages :: "rat list"
  oa_binLowerBounds :: "string list"

record StringColumnAnalysis =
  sa_totalCount :: int
  sa_countNotNull :: int
  sa_countNull :: int
  sa_countDistinct :: int
  sa_isUnique :: bool
  sa_frequentValueStrings :: "string option list"
  sa_frequentValueIds :: "int list"
  sa_frequentValueCounts :: "int list"
  sa_frequentValuePercentages :: "rat list"

record OrdinalColumnAggregation =
  oc_columnEntry :: OrdinalGridColumnGroup
  oc_binnedDataFrame :: DataFrame
  oc_binnedValues :: ArrowTable
  oc_binnedValuesFormatter :: handle
  oc_columnAnalysis :: OrdinalColumnAnalysis

record StringColumnAggregation =
  sc_columnEntry :: StringGridColumnGroup
  sc_frequentValuesDataFrame :: DataFrame
  sc_frequentValuesTable :: ArrowTable
  sc_frequentValuesFormatter :: handle
  sc_analysis :: StringColumnAnalysis

text \<open>No code builds an aggregation of a list column; its analysis is a handle.\<close>

record ListColumnAggregation =
  lc_columnEntry :: ListGridColumnGroup
  lc_frequentValuesDataFrame :: DataFrame
  lc_frequentValuesTable :: ArrowTable
  lc_frequentValuesFormatter :: handle
  lc_analysis :: handle

datatype ColumnAggregationVariant =
    ORDINAL_AGGREGATION OrdinalColumnAggregation
  | STRING_AGGREGATION StringColumnAggregation
  | LIST_AGGREGATION ListColumnAggregation
  | SKIPPED_AGGREGATION

text \<open>\<^verbatim>\<open>WithFilterEpoch<ColumnAggregationVariant>\<close>.\<close>

record FilteredColumnAggregation =
  fa_aggregate :: ColumnAggregationVariant
  fa_filterVersion :: ComputationStateVersion

section \<open>Tasks\<close>

record TableFilteringTask =
  fk_tableId :: nat
  fk_tableVersion :: ComputationStateVersion
  fk_inputDataTable :: ArrowTable
  fk_inputDataTableFieldIndex :: "(string, nat) jsmap"
  fk_inputDataFrame :: DataFrame
  fk_rowNumberColumnName :: string
  fk_filters :: "ScalarFilter list"

record TableOrderingTask =
  ok_tableId :: nat
  ok_tableVersion :: ComputationStateVersion
  ok_inputDataTable :: ArrowTable
  ok_inputDataTableFieldIndex :: "(string, nat) jsmap"
  ok_inputDataFrame :: DataFrame
  ok_filterTable :: "FilterTable option"
  ok_rowNumberColumnName :: string
  ok_orderingConstraints :: "OrderByConstraint list"

record TableAggregationTask =
  ak_tableId :: nat
  ak_tableVersion :: ComputationStateVersion
  ak_columnEntries :: "ColumnGroup list"
  ak_inputDataFrame :: DataFrame

record SystemColumnComputationTask =
  yk_tableId :: nat
  yk_tableVersion :: ComputationStateVersion
  yk_columnEntries :: "ColumnGroup list"
  yk_inputTable :: ArrowTable
  yk_inputDataFrame :: DataFrame
  yk_tableAggregate :: TableAggregation

record ColumnAggregationTask =
  ck_tableId :: nat
  ck_tableVersion :: ComputationStateVersion
  ck_columnId :: nat
  ck_columnEntry :: ColumnGroup
  ck_inputDataFrame :: DataFrame
  ck_tableAggregate :: TableAggregation

text \<open>\<^verbatim>\<open>WithFilter<ColumnAggregationTask>\<close>.\<close>

record FilteredColumnAggregationTask = ColumnAggregationTask +
  wk_filterTable :: FilterTable
  wk_unfilteredAggregate :: ColumnAggregationVariant

datatype TaskStatus = TASK_RUNNING | TASK_SUCCEEDED | TASK_FAILED

text \<open>\<^verbatim>\<open>Partial<TaskProgress>\<close>: every property may be absent; two of them may also be \<^verbatim>\<open>null\<close>.\<close>

record TaskProgress =
  tp_status :: "TaskStatus option"
  tp_startedAt :: "timestamp option"
  tp_completedAt :: "timestamp option option"
  tp_failedAt :: "timestamp option option"
  tp_failedWithError :: "handle option option"

definition or_kept :: "'a option \<Rightarrow> 'a option \<Rightarrow> 'a option" where
  "or_kept x y = (case x of None \<Rightarrow> y | Some _ \<Rightarrow> x)"

text \<open>\<^verbatim>\<open>{ ...prev?.progress, ...progress }\<close>.\<close>

definition spread_progress :: "TaskProgress option \<Rightarrow> TaskProgress \<Rightarrow> TaskProgress" where
  "spread_progress prev p = (case prev of None \<Rightarrow> p
    | Some q \<Rightarrow> \<lparr>tp_status = or_kept (tp_status p) (tp_status q), tp_startedAt = or_kept (tp_startedAt p) (tp_startedAt q),
        tp_completedAt = or_kept (tp_completedAt p) (tp_completedAt q), tp_failedAt = or_kept (tp_failedAt p) (tp_failedAt q),
        tp_failedWithError = or_kept (tp_failedWithError p) (tp_failedWithError q)\<rparr>)"

text \<open>\<^verbatim>\<open>WithProgress<T>\<close>.\<close>

record 'a WithProgress =
  wp_task :: 'a
  wp_progress :: TaskProgress

definition task_succeeded :: "timestamp \<Rightarrow> 'a WithProgress \<Rightarrow> 'a WithProgress" where
  "task_succeeded now t = t\<lparr>wp_progress := (wp_progress t)\<lparr>tp_status := Some TASK_SUCCEEDED, tp_completedAt := Some (Some now)\<rparr>\<rparr>"

end
