(* ===== verification/Cross_Filters.thy ===== *)
theory Cross_Filters
  imports Compute_Types
begin

text \<open>The selections that filter a table, \<^verbatim>\<open>compute/cross_filters.ts\<close>. The column filters are an object with integer
  keys, which JavaScript enumerates in ascending order.\<close>

record HistogramFilterPredicate =
  hf_selection :: "rat \<times> rat"
  hf_filters :: "ScalarFilter list"

record MostFrequentFilterPredicate =
  mf_valueId :: rat
  mf_filters :: "ScalarFilter list"

datatype CrossFilterPredicate =
    HISTOGRAM_FILTER HistogramFilterPredicate
  | MOST_FREQUENT_FILTER MostFrequentFilterPredicate

type_synonym CrossFilters = "(nat, CrossFilterPredicate) jsmap"

fun predicate_filters :: "CrossFilterPredicate \<Rightarrow> ScalarFilter list" where
  "predicate_filters (HISTOGRAM_FILTER p) = hf_filters p"
| "predicate_filters (MOST_FREQUENT_FILTER p) = mf_filters p"

text \<open>What \<^verbatim>\<open>equals\<close> compares of two filters of a column: the type and the selection.\<close>

fun same_selection :: "CrossFilterPredicate \<Rightarrow> CrossFilterPredicate \<Rightarrow> bool" where
  "same_selection (HISTOGRAM_FILTER a) (HISTOGRAM_FILTER b) \<longleftrightarrow>
     fst (hf_selection a) = fst (hf_selection b) \<and> snd (hf_selection a) = snd (hf_selection b)"
| "same_selection (MOST_FREQUENT_FILTER a) (MOST_FREQUENT_FILTER b) \<longleftrightarrow> mf_valueId a = mf_valueId b"
| "same_selection _ _ \<longleftrightarrow> False"

definition cross_equals :: "CrossFilters \<Rightarrow> CrossFilters \<Rightarrow> bool" where
  "cross_equals xs ys \<longleftrightarrow> length xs = length ys \<and>
     list_all (\<lambda>(k, a). case js_get ys k of None \<Rightarrow> False | Some b \<Rightarrow> same_selection a b) xs"

definition createFilterTransforms :: "CrossFilters \<Rightarrow> ScalarFilter list" where
  "createFilterTransforms xs = concat (map (\<lambda>k. case js_get xs k of Some p \<Rightarrow> predicate_filters p | None \<Rightarrow> []) (sort (js_keys xs)))"

definition containsHistogramFilter :: "nat \<Rightarrow> (rat \<times> rat) option \<Rightarrow> CrossFilters \<Rightarrow> bool" where
  "containsHistogramFilter columnGroupId brush xs =
    (case brush of None \<Rightarrow> \<not> js_has xs columnGroupId
     | Some b \<Rightarrow> (case js_get xs columnGroupId of
         Some (HISTOGRAM_FILTER p) \<Rightarrow> fst (hf_selection p) = fst b \<and> snd (hf_selection p) = snd b
       | _ \<Rightarrow> False))"

definition addHistogramFilter :: "nat \<Rightarrow> OrdinalGridColumnGroup \<Rightarrow> (rat \<times> rat) option \<Rightarrow> CrossFilters \<Rightarrow> CrossFilters" where
  "addHistogramFilter columnGroupId columnGroup brush xs =
    (case brush of None \<Rightarrow> js_delete xs columnGroupId
     | Some b \<Rightarrow>
       (let filters = (case og_binFieldName columnGroup of None \<Rightarrow> []
              | Some n \<Rightarrow> [\<lparr>fl_fieldName = n, fl_op = Ge_Op, fl_value = fst b\<rparr>, \<lparr>fl_fieldName = n, fl_op = Le_Op, fl_value = snd b\<rparr>])
        in js_set xs columnGroupId (HISTOGRAM_FILTER \<lparr>hf_selection = b, hf_filters = filters\<rparr>)))"

definition containsMostFrequentValueFilter :: "nat \<Rightarrow> rat option \<Rightarrow> CrossFilters \<Rightarrow> bool" where
  "containsMostFrequentValueFilter columnGroupId valueId xs =
    (case valueId of None \<Rightarrow> \<not> js_has xs columnGroupId
     | Some v \<Rightarrow> (case js_get xs columnGroupId of Some (MOST_FREQUENT_FILTER p) \<Rightarrow> mf_valueId p = v | _ \<Rightarrow> False))"

definition addMostFrequentValueFilter :: "nat \<Rightarrow> StringGridColumnGroup \<Rightarrow> rat option \<Rightarrow> CrossFilters \<Rightarrow> CrossFilters" where
  "addMostFrequentValueFilter columnGroupId columnGroup valueId xs =
    (case valueId of None \<Rightarrow> js_delete xs columnGroupId
     | Some v \<Rightarrow> (case sg_valueIdFieldName columnGroup of None \<Rightarrow> xs
        | Some n \<Rightarrow> js_set xs columnGroupId
            (MOST_FREQUENT_FILTER \<lparr>mf_valueId = v, mf_filters = [\<lparr>fl_fieldName = n, fl_op = Eq_Op, fl_value = v\<rparr>]\<rparr>)))"

section \<open>Laws\<close>

lemma added_histogram_contained: "containsHistogramFilter c b (addHistogramFilter c g b xs)"
  by (auto simp: containsHistogramFilter_def addHistogramFilter_def js_get_set js_get_delete Let_def split: option.split)

lemma added_value_contained:
  "sg_valueIdFieldName g \<noteq> None \<Longrightarrow> containsMostFrequentValueFilter c v (addMostFrequentValueFilter c g v xs)"
  by (auto simp: containsMostFrequentValueFilter_def addMostFrequentValueFilter_def js_get_set js_get_delete split: option.split)

lemma same_selection_sym: "same_selection a b \<longleftrightarrow> same_selection b a"
  by (cases a; cases b) auto

lemma same_selection_trans: "same_selection a b \<Longrightarrow> same_selection b c \<Longrightarrow> same_selection a c"
  by (cases a; cases b; cases c) auto

lemma card_keys: "jsmap_ok m \<Longrightarrow> card (fst ` set m) = length m"
  by (metis distinct_card jsmap_ok_def length_map set_map)

text \<open>Two selections are equal exactly if they have filters for the same columns, with the same selections.\<close>

lemma cross_equals_iff:
  assumes "jsmap_ok xs" "jsmap_ok ys"
  shows "cross_equals xs ys \<longleftrightarrow> (\<forall>k. rel_option same_selection (js_get xs k) (js_get ys k))"
proof
  assume e: "cross_equals xs ys"
  have sub: "fst ` set xs \<subseteq> fst ` set ys"
  proof
    fix k assume "k \<in> fst ` set xs"
    then obtain a where "(k, a) \<in> set xs" by force
    then obtain b where "js_get ys k = Some b" using e by (fastforce simp: cross_equals_def list_all_iff split: option.splits)
    then show "k \<in> fst ` set ys" by (rule keys_get_Some)
  qed
  have "card (fst ` set xs) = card (fst ` set ys)"
    using assms e by (simp add: cross_equals_def card_keys)
  with sub have keys: "fst ` set xs = fst ` set ys" by (intro card_subset_eq) auto
  show "\<forall>k. rel_option same_selection (js_get xs k) (js_get ys k)"
  proof
    fix k
    show "rel_option same_selection (js_get xs k) (js_get ys k)"
    proof (cases "js_get xs k")
      case None
      then have "js_get ys k = None" using keys by (simp add: keys_get_None)
      then show ?thesis by (simp add: None)
    next
      case (Some a)
      then have "(k, a) \<in> set xs" by (rule map_of_SomeD)
      then show ?thesis using e Some by (auto simp: cross_equals_def list_all_iff split: option.splits)
    qed
  qed
next
  assume r: "\<forall>k. rel_option same_selection (js_get xs k) (js_get ys k)"
  have "(js_get xs k = None) = (js_get ys k = None)" for k using r [rule_format, of k] by (cases rule: option.rel_cases) auto
  then have "fst ` set xs = fst ` set ys" by (auto simp: keys_get_None)
  then have "length xs = length ys" using card_keys [OF assms(1)] card_keys [OF assms(2)] by simp
  moreover have "case js_get ys k of None \<Rightarrow> False | Some b \<Rightarrow> same_selection a b" if "(k, a) \<in> set xs" for k a
    using r [rule_format, of k] js_in_get [OF assms(1) that] by (cases rule: option.rel_cases) auto
  ultimately show "cross_equals xs ys" by (auto simp: cross_equals_def list_all_iff)
qed

end
