(* ===== verification/Compute_State.thy ===== *)
theory Compute_State
  imports Cross_Filters
begin

text \<open>The state of computations and its reducer, \<^verbatim>\<open>compute/computation_state.ts\<close>. The reducer changes the registry of
  data frames, which is one object, so it is passed and returned; an exception leaves its changes behind.\<close>

section \<open>State\<close>

text \<open>A scheduler task; its promise is a handle, its id is absent until it is scheduled.\<close>

datatype TaskKind =
    TABLE_FILTERING_TASK TableFilteringTask
  | TABLE_ORDERING_TASK TableOrderingTask
  | TABLE_AGGREGATION_TASK TableAggregationTask
  | SYSTEM_COLUMN_COMPUTATION_TASK SystemColumnComputationTask
  | COLUMN_AGGREGATION_TASK ColumnAggregationTask
  | FILTERED_COLUMN_AGGREGATION_TASK FilteredColumnAggregationTask

record TaskVariant =
  tv_task :: TaskKind
  tv_result :: handle
  tv_taskId :: "nat option"

fun kind_tableId :: "TaskKind \<Rightarrow> nat" where
  "kind_tableId (TABLE_FILTERING_TASK t) = fk_tableId t"
| "kind_tableId (TABLE_ORDERING_TASK t) = ok_tableId t"
| "kind_tableId (TABLE_AGGREGATION_TASK t) = ak_tableId t"
| "kind_tableId (SYSTEM_COLUMN_COMPUTATION_TASK t) = yk_tableId t"
| "kind_tableId (COLUMN_AGGREGATION_TASK t) = ck_tableId t"
| "kind_tableId (FILTERED_COLUMN_AGGREGATION_TASK t) = ck_tableId t"

text \<open>Arrays whose elements may be missing: reading behind the end gives \<^verbatim>\<open>undefined\<close>, which the code treats like
  \<^verbatim>\<open>null\<close>, and writing behind the end prolongs the array with holes.\<close>

definition arr_get :: "'a option list \<Rightarrow> nat \<Rightarrow> 'a option" where
  "arr_get xs i = (if i < length xs then xs ! i else None)"

definition arr_set :: "'a \<Rightarrow> 'a list \<Rightarrow> nat \<Rightarrow> 'a \<Rightarrow> 'a list" where
  "arr_set hole xs i x = (if i < length xs then xs[i := x] else xs @ replicate (i - length xs) hole @ [x])"

record TableComputationTasks =
  tt_tableAggregationTask :: "TableAggregationTask WithProgress option"
  tt_systemColumnTask :: "SystemColumnComputationTask WithProgress option"
  tt_filteringTask :: "TableFilteringTask WithProgress option"
  tt_orderingTask :: "TableOrderingTask WithProgress option"
  tt_columnAggregationTasks :: "ColumnAggregationTask WithProgress option list"
  tt_filteredColumnAggregationTasks :: "FilteredColumnAggregationTask WithProgress option list"

record TableComputationState =
  tc_tableId :: nat
  tc_tasks :: TableComputationTasks
  tc_version :: ComputationStateVersion
  tc_dataTable :: ArrowTable
  tc_dataTableFieldsByName :: "(string, nat) jsmap"
  tc_dataTableLifetime :: handle
  tc_dataFrame :: "DataFrame option"
  tc_columnGroups :: "ColumnGroup list"
  tc_dataTableOrdering :: "OrderByConstraint list"
  tc_crossFilters :: CrossFilters
  tc_filterTable :: "FilterTable option"
  tc_orderingTable :: "OrderingTable option"
  tc_rowNumberColumnGroup :: "nat option"
  tc_rowNumberColumnName :: "string option"
  tc_tableAggregation :: "TableAggregation option"
  tc_columnAggregates :: "ColumnAggregationVariant option list"
  tc_filteredColumnAggregates :: "FilteredColumnAggregation option list"
  tc_filteredColumnAggregatesOutdated :: "bool list"

record ComputationState =
  cp_tableComputations :: "(nat, TableComputationState) jsmap"
  cp_schedulerTasks :: "(nat, TaskVariant) jsmap"
  cp_nextSchedulerTaskId :: nat

definition createComputationState :: ComputationState where
  "createComputationState = \<lparr>cp_tableComputations = [], cp_schedulerTasks = [], cp_nextSchedulerTaskId = 1\<rparr>"

definition createTableComputationState ::
  "nat \<Rightarrow> ArrowTable \<Rightarrow> ColumnGroup list \<Rightarrow> handle \<Rightarrow> TableComputationState" where
  "createTableComputationState computationId table tableColumns tableLifetime =
    \<lparr>tc_tableId = computationId,
     tc_tasks = \<lparr>tt_tableAggregationTask = None, tt_systemColumnTask = None, tt_filteringTask = None, tt_orderingTask = None,
       tt_columnAggregationTasks = replicate (length tableColumns + 1) None,
       tt_filteredColumnAggregationTasks = replicate (length tableColumns + 1) None\<rparr>,
     tc_version = \<lparr>cv_data = 0, cv_filter = 0\<rparr>, tc_dataTable = table,
     tc_dataTableFieldsByName = createArrowFieldIndex table, tc_dataTableLifetime = tableLifetime, tc_dataFrame = None,
     tc_columnGroups = tableColumns, tc_dataTableOrdering = [], tc_crossFilters = [], tc_filterTable = None,
     tc_orderingTable = None, tc_rowNumberColumnGroup = None, tc_rowNumberColumnName = None, tc_tableAggregation = None,
     tc_columnAggregates = replicate (length tableColumns) None,
     tc_filteredColumnAggregates = replicate (length tableColumns) None,
     tc_filteredColumnAggregatesOutdated = replicate (length tableColumns) False\<rparr>"

datatype ComputationAction =
    SCHEDULE_TASK TaskVariant
  | UPDATE_SCHEDULER_TASK TaskVariant TaskProgress
  | UNREGISTER_SCHEDULER_TASK TaskVariant
  | COMPUTATION_FROM_QUERY_RESULT nat ArrowTable "ColumnGroup list" handle
  | DELETE_COMPUTATION nat
  | CREATED_DATA_FRAME nat DataFrame
  | TABLE_ORDERING_SUCCEDED nat OrderingTable
  | CLEAR_TABLE_ORDERING nat
  | TABLE_FILTERING_SUCCEEDED nat ComputationStateVersion "FilterTable option"
  | TABLE_AGGREGATION_SUCCEEDED nat TableAggregation
  | SYSTEM_COLUMN_COMPUTATION_SUCCEEDED nat ArrowTable DataFrame "ColumnGroup list"
  | UMAP_COMPUTATION_SUCCEEDED nat ArrowTable DataFrame "ColumnGroup list"
  | COLUMN_AGGREGATION_SUCCEEDED nat nat ColumnAggregationVariant
  | FILTERED_COLUMN_AGGREGATION_SUCCEEDED nat nat ComputationStateVersion "FilteredColumnAggregation option"
  | SET_CROSS_FILTERS nat CrossFilters

section \<open>Memory of results\<close>

fun aggregate_frame :: "ColumnAggregationVariant \<Rightarrow> DataFrame option" where
  "aggregate_frame (ORDINAL_AGGREGATION a) = Some (oc_binnedDataFrame a)"
| "aggregate_frame (STRING_AGGREGATION a) = Some (sc_frequentValuesDataFrame a)"
| "aggregate_frame (LIST_AGGREGATION a) = Some (lc_frequentValuesDataFrame a)"
| "aggregate_frame SKIPPED_AGGREGATION = None"

definition acquireColumnAggregate :: "ColumnAggregationVariant option \<Rightarrow> int \<Rightarrow> DataFrameRegistry \<Rightarrow> DataFrameRegistry" where
  "acquireColumnAggregate a k m = (case a of None \<Rightarrow> m | Some v \<Rightarrow> acquire (aggregate_frame v) k m)"

definition releaseColumnAggregate :: "ColumnAggregationVariant option \<Rightarrow> DataFrameRegistry \<Rightarrow> DataFrameRegistry" where
  "releaseColumnAggregate a m = (case a of None \<Rightarrow> m | Some v \<Rightarrow> release (aggregate_frame v) m)"

definition releaseColumnAggregates :: "ColumnAggregationVariant option list \<Rightarrow> DataFrameRegistry \<Rightarrow> DataFrameRegistry" where
  "releaseColumnAggregates as m = fold releaseColumnAggregate as m"

definition release_filtered_task :: "FilteredColumnAggregationTask WithProgress option \<Rightarrow> DataFrameRegistry \<Rightarrow> DataFrameRegistry" where
  "release_filtered_task t m =
    releaseColumnAggregate (map_option (\<lambda>t. wk_unfilteredAggregate (wp_task t)) t)
      (release (map_option (\<lambda>t. ft_dataFrame (wk_filterTable (wp_task t))) t) m)"

definition destroyTableComputationState :: "TableComputationState \<Rightarrow> DataFrameRegistry \<Rightarrow> DataFrameRegistry" where
  "destroyTableComputationState s m =
    (let ts = tc_tasks s;
         m = release (tc_dataFrame s) m;
         m = release (map_option ft_dataFrame (tc_filterTable s)) m;
         m = release (map_option ot_dataFrame (tc_orderingTable s)) m;
         m = release (map_option ta_dataFrame (tc_tableAggregation s)) m;
         m = releaseColumnAggregates (tc_columnAggregates s) m;
         m = releaseColumnAggregates (map (map_option fa_aggregate) (tc_filteredColumnAggregates s)) m;
         m = release (map_option (\<lambda>t. fk_inputDataFrame (wp_task t)) (tt_filteringTask ts)) m;
         m = release (map_option (\<lambda>t. ok_inputDataFrame (wp_task t)) (tt_orderingTask ts)) m;
         m = release (Option.bind (tt_orderingTask ts) (\<lambda>t. map_option ft_dataFrame (ok_filterTable (wp_task t)))) m;
         m = release (map_option (\<lambda>t. ak_inputDataFrame (wp_task t)) (tt_tableAggregationTask ts)) m;
         m = release (map_option (\<lambda>t. yk_inputDataFrame (wp_task t)) (tt_systemColumnTask ts)) m;
         m = releaseMany (map (map_option (\<lambda>t. ck_inputDataFrame (wp_task t))) (tt_columnAggregationTasks ts)) m
     in fold release_filtered_task (tt_filteredColumnAggregationTasks ts) m)"

section \<open>Scheduling\<close>

definition same_ordering :: "OrderByConstraint \<Rightarrow> OrderByConstraint \<Rightarrow> bool" where
  "same_ordering a b \<longleftrightarrow> ob_field a = ob_field b \<and>
     (case ob_ascending a of Some x \<Rightarrow> x | None \<Rightarrow> True) = (case ob_ascending b of Some x \<Rightarrow> x | None \<Rightarrow> True) \<and>
     (case ob_nullsFirst a of Some x \<Rightarrow> x | None \<Rightarrow> False) = (case ob_nullsFirst b of Some x \<Rightarrow> x | None \<Rightarrow> False)"

definition areOrderingConstraintsEqual :: "OrderByConstraint list \<Rightarrow> OrderByConstraint list \<Rightarrow> bool" where
  "areOrderingConstraintsEqual left right \<longleftrightarrow>
     length left = length right \<and> list_all (\<lambda>(a, b). same_ordering a b) (zip left right)"

text \<open>What \<^verbatim>\<open>updateTask\<close> acquires when a task is created: every frame twice.\<close>

fun acquire_task :: "TaskKind \<Rightarrow> DataFrameRegistry \<Rightarrow> DataFrameRegistry" where
  "acquire_task (TABLE_FILTERING_TASK t) m = acquire (Some (fk_inputDataFrame t)) 2 m"
| "acquire_task (TABLE_ORDERING_TASK t) m =
     acquire (map_option ft_dataFrame (ok_filterTable t)) 2 (acquire (Some (ok_inputDataFrame t)) 2 m)"
| "acquire_task (TABLE_AGGREGATION_TASK t) m = acquire (Some (ak_inputDataFrame t)) 2 m"
| "acquire_task (SYSTEM_COLUMN_COMPUTATION_TASK t) m =
     acquire (Some (ta_dataFrame (yk_tableAggregate t))) 2 (acquire (Some (yk_inputDataFrame t)) 2 m)"
| "acquire_task (COLUMN_AGGREGATION_TASK t) m =
     acquire (Some (ta_dataFrame (ck_tableAggregate t))) 2 (acquire (Some (ck_inputDataFrame t)) 2 m)"
| "acquire_task (FILTERED_COLUMN_AGGREGATION_TASK t) m =
     acquireColumnAggregate (Some (wk_unfilteredAggregate t)) 2
       (acquire (Some (ta_dataFrame (ck_tableAggregate t))) 2
         (acquire (Some (ft_dataFrame (wk_filterTable t))) 2 (acquire (Some (ck_inputDataFrame t)) 2 m)))"

text \<open>The task that is entered in the table's state: \<open>version\<close> is the version of the table before the action,
  \<open>new_version\<close> the one after it.\<close>

definition with_progress :: "'a \<Rightarrow> 'b WithProgress option \<Rightarrow> TaskProgress \<Rightarrow> 'a WithProgress" where
  "with_progress t prev p = \<lparr>wp_task = t, wp_progress = spread_progress (map_option wp_progress prev) p\<rparr>"

fun register_task :: "bool \<Rightarrow> TaskKind \<Rightarrow> ComputationStateVersion \<Rightarrow> ComputationStateVersion \<Rightarrow> TaskProgress \<Rightarrow>
    TableComputationTasks \<Rightarrow> TableComputationTasks" where
  "register_task create (TABLE_FILTERING_TASK t) version new_version p ts =
     ts\<lparr>tt_filteringTask := Some (with_progress (t\<lparr>fk_tableVersion := new_version\<rparr>) (tt_filteringTask ts) p)\<rparr>"
| "register_task create (TABLE_ORDERING_TASK t) version new_version p ts =
     (if \<not> create \<and> (case tt_orderingTask ts of Some o' \<Rightarrow>
            \<not> areOrderingConstraintsEqual (ok_orderingConstraints (wp_task o')) (ok_orderingConstraints t) | None \<Rightarrow> False)
      then ts
      else ts\<lparr>tt_orderingTask := Some (with_progress (t\<lparr>ok_tableVersion := version\<rparr>) (tt_orderingTask ts) p)\<rparr>)"
| "register_task create (TABLE_AGGREGATION_TASK t) version new_version p ts =
     ts\<lparr>tt_tableAggregationTask := Some (with_progress t (tt_tableAggregationTask ts) p)\<rparr>"
| "register_task create (SYSTEM_COLUMN_COMPUTATION_TASK t) version new_version p ts =
     ts\<lparr>tt_systemColumnTask := Some (with_progress t (tt_systemColumnTask ts) p)\<rparr>"
| "register_task create (COLUMN_AGGREGATION_TASK t) version new_version p ts =
     ts\<lparr>tt_columnAggregationTasks := arr_set None (tt_columnAggregationTasks ts) (ck_columnId t)
         (Some (with_progress t (arr_get (tt_columnAggregationTasks ts) (ck_columnId t)) p))\<rparr>"
| "register_task create (FILTERED_COLUMN_AGGREGATION_TASK t) version new_version p ts =
     ts\<lparr>tt_filteredColumnAggregationTasks := arr_set None (tt_filteredColumnAggregationTasks ts) (ck_columnId t)
         (Some (with_progress t (arr_get (tt_filteredColumnAggregationTasks ts) (ck_columnId t)) p))\<rparr>"

text \<open>Scheduling a filter moves the table to the version the filter is for, and puts it into the task.\<close>

fun target_version :: "bool \<Rightarrow> TaskKind \<Rightarrow> ComputationStateVersion \<Rightarrow> ComputationStateVersion" where
  "target_version create (TABLE_FILTERING_TASK t) v = (if create then withFilterIncrement v else v)"
| "target_version create k v = v"

fun retarget :: "bool \<Rightarrow> TaskKind \<Rightarrow> ComputationStateVersion \<Rightarrow> TaskKind" where
  "retarget create (TABLE_FILTERING_TASK t) v = TABLE_FILTERING_TASK (if create then t\<lparr>fk_tableVersion := v\<rparr> else t)"
| "retarget create k v = k"

definition set_table :: "nat \<Rightarrow> TableComputationState \<Rightarrow> ComputationState \<Rightarrow> ComputationState" where
  "set_table tid ts s = s\<lparr>cp_tableComputations := js_set (cp_tableComputations s) tid ts\<rparr>"

definition updateTask :: "ComputationState \<Rightarrow> TaskVariant \<Rightarrow> TaskProgress \<Rightarrow> DataFrameRegistry \<Rightarrow> bool \<Rightarrow>
    ComputationState \<times> DataFrameRegistry" where
  "updateTask s task p m create =
    (let allocated = (tv_taskId task \<noteq> None);
         task = (if allocated then task else task\<lparr>tv_taskId := Some (cp_nextSchedulerTaskId s)\<rparr>);
         tid = kind_tableId (tv_task task)
     in case js_get (cp_tableComputations s) tid of None \<Rightarrow> (s, m)
      | Some ts \<Rightarrow>
        (let m = (if create then acquire_task (tv_task task) m else m);
             v = target_version create (tv_task task) (tc_version ts);
             task = task\<lparr>tv_task := retarget create (tv_task task) v\<rparr>
         in (set_table tid (ts\<lparr>tc_version := v,
                 tc_tasks := register_task create (tv_task task) (tc_version ts) v p (tc_tasks ts)\<rparr>)
              (s\<lparr>cp_nextSchedulerTaskId := (if allocated then cp_nextSchedulerTaskId s else cp_nextSchedulerTaskId s + 1),
                 cp_schedulerTasks := js_set (cp_schedulerTasks s) (the (tv_taskId task)) task\<rparr>), m)))"

section \<open>Results\<close>

text \<open>The columns whose filtered aggregate is not one of the new filter table.\<close>

definition filtered_outdated :: "TableComputationState \<Rightarrow> FilterTable \<Rightarrow> nat \<Rightarrow> bool" where
  "filtered_outdated ts ft columnId \<longleftrightarrow>
    (case tc_columnGroups ts ! columnId of
       SKIPPED_COLUMN _ \<Rightarrow> False
     | ROWNUMBER_COLUMN _ \<Rightarrow> False
     | _ \<Rightarrow> arr_get (tc_columnAggregates ts) columnId \<noteq> None \<and>
         \<not> (case arr_get (tc_filteredColumnAggregates ts) columnId of
              Some a \<Rightarrow> filterMatches (fa_filterVersion a) (ft_version ft) | None \<Rightarrow> False))"

definition outdated_flags :: "TableComputationState \<Rightarrow> FilterTable \<Rightarrow> bool list" where
  "outdated_flags ts ft = fold (\<lambda>c flags. arr_set False flags c (filtered_outdated ts ft c))
     [0..<length (tc_columnGroups ts)] (tc_filteredColumnAggregatesOutdated ts)"

definition tableFilteringSucceded ::
  "timestamp \<Rightarrow> ComputationState \<Rightarrow> nat \<Rightarrow> FilterTable option \<Rightarrow> DataFrameRegistry \<Rightarrow> ComputationState \<times> DataFrameRegistry" where
  "tableFilteringSucceded now s tid filterTable m =
    (case js_get (cp_tableComputations s) tid of
       None \<Rightarrow> (s, release (map_option ft_dataFrame filterTable) m)
     | Some ts \<Rightarrow>
       (let task = map_option (task_succeeded now) (tt_filteringTask (tc_tasks ts));
            outdated = (case filterTable of
                None \<Rightarrow> replicate (length (tc_filteredColumnAggregatesOutdated ts)) False
              | Some ft \<Rightarrow> outdated_flags ts ft);
            m = (if filterTable = None
                 then fold (\<lambda>a. releaseColumnAggregate (map_option fa_aggregate a)) (filter (\<lambda>a. a \<noteq> None) (tc_filteredColumnAggregates ts)) m
                 else m);
            filtered = (if filterTable = None then replicate (length (tc_filteredColumnAggregates ts)) None
                        else tc_filteredColumnAggregates ts);
            m = release (map_option ft_dataFrame (tc_filterTable ts)) m;
            m = release (map_option ot_dataFrame (tc_orderingTable ts)) m
        in (set_table tid (ts\<lparr>tc_filterTable := filterTable, tc_orderingTable := None,
              tc_filteredColumnAggregates := filtered, tc_filteredColumnAggregatesOutdated := outdated,
              tc_tasks := (tc_tasks ts)\<lparr>tt_filteringTask := task\<rparr>\<rparr>) s, m)))"

definition ordering_succeeded ::
  "timestamp \<Rightarrow> nat \<Rightarrow> OrderingTable \<Rightarrow> ComputationState \<Rightarrow> DataFrameRegistry \<Rightarrow> ComputationState \<times> DataFrameRegistry" where
  "ordering_succeeded now tid ot s m =
    (let m = acquire (Some (ot_dataFrame ot)) 1 m; reject = (s, release (Some (ot_dataFrame ot)) m)
     in case js_get (cp_tableComputations s) tid of None \<Rightarrow> reject
      | Some ts \<Rightarrow>
        (if \<not> filterMatches (ot_version ot) (tc_version ts) then reject
         else (case tt_orderingTask (tc_tasks ts) of None \<Rightarrow> reject
           | Some task \<Rightarrow>
             (if \<not> areOrderingConstraintsEqual (ok_orderingConstraints (wp_task task)) (ot_orderingConstraints ot) then reject
              else (set_table tid (ts\<lparr>tc_orderingTable := Some ot, tc_dataTableOrdering := ot_orderingConstraints ot,
                      tc_tasks := (tc_tasks ts)\<lparr>tt_orderingTask := Some (task_succeeded now task)\<rparr>\<rparr>) s,
                    release (map_option ot_dataFrame (tc_orderingTable ts)) m)))))"

definition clear_ordering :: "nat \<Rightarrow> ComputationState \<Rightarrow> DataFrameRegistry \<Rightarrow> ComputationState \<times> DataFrameRegistry" where
  "clear_ordering tid s m = (case js_get (cp_tableComputations s) tid of None \<Rightarrow> (s, m)
    | Some ts \<Rightarrow> (set_table tid (ts\<lparr>tc_dataTableOrdering := [], tc_orderingTable := None,
        tc_tasks := (tc_tasks ts)\<lparr>tt_orderingTask := map_option
          (\<lambda>t. t\<lparr>wp_task := (wp_task t)\<lparr>ok_orderingConstraints := []\<rparr>\<rparr>) (tt_orderingTask (tc_tasks ts))\<rparr>\<rparr>) s,
        release (map_option ot_dataFrame (tc_orderingTable ts)) m))"

definition filtering_succeeded :: "timestamp \<Rightarrow> nat \<Rightarrow> ComputationStateVersion \<Rightarrow> FilterTable option \<Rightarrow>
    ComputationState \<Rightarrow> DataFrameRegistry \<Rightarrow> ComputationState \<times> DataFrameRegistry" where
  "filtering_succeeded now tid completed ft s m =
    (let m = acquire (map_option ft_dataFrame ft) 1 m; reject = (s, release (map_option ft_dataFrame ft) m)
     in case js_get (cp_tableComputations s) tid of None \<Rightarrow> reject
      | Some ts \<Rightarrow> (if \<not> filterMatches completed (tc_version ts) then reject
          else tableFilteringSucceded now s tid ft m))"

definition aggregation_succeeded ::
  "timestamp \<Rightarrow> nat \<Rightarrow> TableAggregation \<Rightarrow> ComputationState \<Rightarrow> DataFrameRegistry \<Rightarrow> ComputationState \<times> DataFrameRegistry" where
  "aggregation_succeeded now tid ta s m =
    (let m = acquire (Some (ta_dataFrame ta)) 1 m
     in case js_get (cp_tableComputations s) tid of None \<Rightarrow> (s, release (Some (ta_dataFrame ta)) m)
      | Some ts \<Rightarrow> (set_table tid (ts\<lparr>tc_tableAggregation := Some ta,
            tc_tasks := (tc_tasks ts)\<lparr>tt_tableAggregationTask := map_option (task_succeeded now) (tt_tableAggregationTask (tc_tasks ts))\<rparr>\<rparr>) s,
          release (map_option ta_dataFrame (tc_tableAggregation ts)) m))"

text \<open>The last row number group and its position.\<close>

definition row_number_of :: "ColumnGroup list \<Rightarrow> (nat \<times> string) option" where
  "row_number_of groups = fold (\<lambda>(g, i) acc. case g of ROWNUMBER_COLUMN n \<Rightarrow> Some (i, n) | _ \<Rightarrow> acc)
     (zip groups [0..<length groups]) None"

definition system_columns_succeeded :: "timestamp \<Rightarrow> nat \<Rightarrow> ArrowTable \<Rightarrow> DataFrame \<Rightarrow> ColumnGroup list \<Rightarrow>
    ComputationState \<Rightarrow> DataFrameRegistry \<Rightarrow> ComputationState \<times> DataFrameRegistry" where
  "system_columns_succeeded now tid table df groups s m =
    (let m = acquire (Some df) 1 m
     in case js_get (cp_tableComputations s) tid of None \<Rightarrow> (s, release (Some df) m)
      | Some ts \<Rightarrow> (set_table tid (ts\<lparr>tc_version := withDataIncrement (tc_version ts), tc_dataTable := table,
            tc_dataFrame := Some df, tc_columnGroups := groups, tc_rowNumberColumnGroup := map_option fst (row_number_of groups),
            tc_rowNumberColumnName := map_option snd (row_number_of groups),
            tc_tasks := (tc_tasks ts)\<lparr>tt_systemColumnTask := map_option (task_succeeded now) (tt_systemColumnTask (tc_tasks ts))\<rparr>\<rparr>) s,
          release (tc_dataFrame ts) m))"

definition umap_succeeded :: "nat \<Rightarrow> ArrowTable \<Rightarrow> DataFrame \<Rightarrow> ColumnGroup list \<Rightarrow>
    ComputationState \<Rightarrow> DataFrameRegistry \<Rightarrow> ComputationState \<times> DataFrameRegistry" where
  "umap_succeeded tid table df groups s m =
    (let m = acquire (Some df) 1 m
     in case js_get (cp_tableComputations s) tid of None \<Rightarrow> (s, release (Some df) m)
      | Some ts \<Rightarrow> (set_table tid (ts\<lparr>tc_dataTable := table, tc_dataTableFieldsByName := createArrowFieldIndex table,
            tc_dataFrame := Some df, tc_columnGroups := groups\<rparr>) s, release (tc_dataFrame ts) m))"

definition column_succeeded :: "timestamp \<Rightarrow> nat \<Rightarrow> nat \<Rightarrow> ColumnAggregationVariant \<Rightarrow>
    ComputationState \<Rightarrow> DataFrameRegistry \<Rightarrow> ComputationState \<times> DataFrameRegistry" where
  "column_succeeded now tid columnId a s m =
    (let m = acquireColumnAggregate (Some a) 1 m; reject = (s, releaseColumnAggregate (Some a) m)
     in case js_get (cp_tableComputations s) tid of None \<Rightarrow> reject
      | Some ts \<Rightarrow> (case arr_get (tt_columnAggregationTasks (tc_tasks ts)) columnId of None \<Rightarrow> reject
        | Some task \<Rightarrow> (set_table tid (ts\<lparr>tc_columnAggregates := arr_set None (tc_columnAggregates ts) columnId (Some a),
              tc_tasks := (tc_tasks ts)\<lparr>tt_columnAggregationTasks :=
                arr_set None (tt_columnAggregationTasks (tc_tasks ts)) columnId (Some (task_succeeded now task))\<rparr>\<rparr>) s,
            releaseColumnAggregate (arr_get (tc_columnAggregates ts) columnId) m)))"

definition filtered_column_succeeded :: "timestamp \<Rightarrow> nat \<Rightarrow> nat \<Rightarrow> ComputationStateVersion \<Rightarrow> FilteredColumnAggregation option \<Rightarrow>
    ComputationState \<Rightarrow> DataFrameRegistry \<Rightarrow> ComputationState \<times> DataFrameRegistry" where
  "filtered_column_succeeded now tid columnId completed a s m =
    (let m = acquireColumnAggregate (map_option fa_aggregate a) 1 m;
         reject = (s, releaseColumnAggregate (map_option fa_aggregate a) m)
     in case js_get (cp_tableComputations s) tid of None \<Rightarrow> reject
      | Some ts \<Rightarrow> (case arr_get (tt_filteredColumnAggregationTasks (tc_tasks ts)) columnId of None \<Rightarrow> reject
        | Some task \<Rightarrow> (if \<not> filterMatches (ft_version (wk_filterTable (wp_task task))) completed then reject
            else (case tc_filterTable ts of None \<Rightarrow> reject
              | Some ft \<Rightarrow> (if \<not> filterMatches (ft_version ft) completed then reject
                  else (let up_to_date = (case a of Some a \<Rightarrow> filterMatches (fa_filterVersion a) (ft_version ft) | None \<Rightarrow> False)
                    in (set_table tid (ts\<lparr>tc_filteredColumnAggregates := arr_set None (tc_filteredColumnAggregates ts) columnId a,
                          tc_filteredColumnAggregatesOutdated :=
                            arr_set False (tc_filteredColumnAggregatesOutdated ts) columnId (\<not> up_to_date),
                          tc_tasks := (tc_tasks ts)\<lparr>tt_filteredColumnAggregationTasks :=
                            arr_set None (tt_filteredColumnAggregationTasks (tc_tasks ts)) columnId (Some (task_succeeded now task))\<rparr>\<rparr>) s,
                        releaseColumnAggregate (map_option fa_aggregate (arr_get (tc_filteredColumnAggregates ts) columnId)) m)))))))"

section \<open>The reducer\<close>

text \<open>An action returns, or throws with the registry it has changed.\<close>

datatype computed = Computed ComputationState DataFrameRegistry | Threw DataFrameRegistry

definition computed_of :: "ComputationState \<times> DataFrameRegistry \<Rightarrow> computed" where
  "computed_of x = Computed (fst x) (snd x)"

fun reduceComputationState :: "timestamp \<Rightarrow> ComputationState \<Rightarrow> ComputationAction \<Rightarrow> DataFrameRegistry \<Rightarrow> computed" where
  "reduceComputationState now s (SCHEDULE_TASK t) m =
     computed_of (updateTask s t \<lparr>tp_status = Some TASK_RUNNING, tp_startedAt = Some now, tp_completedAt = Some None,
       tp_failedAt = Some None, tp_failedWithError = Some None\<rparr> m True)"
| "reduceComputationState now s (UPDATE_SCHEDULER_TASK t p) m = computed_of (updateTask s t p m False)"
| "reduceComputationState now s (UNREGISTER_SCHEDULER_TASK t) m = (case tv_taskId t of None \<Rightarrow> Computed s m
     | Some i \<Rightarrow> Computed (s\<lparr>cp_schedulerTasks := js_delete (cp_schedulerTasks s) i\<rparr>) m)"
| "reduceComputationState now s (COMPUTATION_FROM_QUERY_RESULT tid table groups life) m =
     Computed (set_table tid (createTableComputationState tid table groups life) s)
       (case js_get (cp_tableComputations s) tid of None \<Rightarrow> m | Some ts \<Rightarrow> destroyTableComputationState ts m)"
| "reduceComputationState now s (DELETE_COMPUTATION tid) m = (case js_get (cp_tableComputations s) tid of None \<Rightarrow> Computed s m
     | Some ts \<Rightarrow> Computed (s\<lparr>cp_tableComputations := js_delete (cp_tableComputations s) tid\<rparr>) (destroyTableComputationState ts m))"
| "reduceComputationState now s (CREATED_DATA_FRAME tid df) m =
     (case js_get (cp_tableComputations s) tid of None \<Rightarrow> Threw (acquire (Some df) 1 m)
      | Some ts \<Rightarrow> Computed (set_table tid (ts\<lparr>tc_version := withDataIncrement (tc_version ts), tc_dataFrame := Some df\<rparr>) s)
          (release (tc_dataFrame ts) (acquire (Some df) 1 m)))"
| "reduceComputationState now s (TABLE_ORDERING_SUCCEDED tid ot) m = computed_of (ordering_succeeded now tid ot s m)"
| "reduceComputationState now s (CLEAR_TABLE_ORDERING tid) m = computed_of (clear_ordering tid s m)"
| "reduceComputationState now s (TABLE_FILTERING_SUCCEEDED tid v ft) m = computed_of (filtering_succeeded now tid v ft s m)"
| "reduceComputationState now s (TABLE_AGGREGATION_SUCCEEDED tid ta) m = computed_of (aggregation_succeeded now tid ta s m)"
| "reduceComputationState now s (SYSTEM_COLUMN_COMPUTATION_SUCCEEDED tid table df groups) m =
     computed_of (system_columns_succeeded now tid table df groups s m)"
| "reduceComputationState now s (UMAP_COMPUTATION_SUCCEEDED tid table df groups) m =
     computed_of (umap_succeeded tid table df groups s m)"
| "reduceComputationState now s (COLUMN_AGGREGATION_SUCCEEDED tid c a) m = computed_of (column_succeeded now tid c a s m)"
| "reduceComputationState now s (FILTERED_COLUMN_AGGREGATION_SUCCEEDED tid c v a) m =
     computed_of (filtered_column_succeeded now tid c v a s m)"
| "reduceComputationState now s (SET_CROSS_FILTERS tid cf) m =
     (case js_get (cp_tableComputations s) tid of None \<Rightarrow> Computed s m
      | Some ts \<Rightarrow> Computed (if cross_equals (tc_crossFilters ts) cf then s else set_table tid (ts\<lparr>tc_crossFilters := cf\<rparr>) s) m)"

end
