(* ===== verification/Compute_Memory.thy ===== *)
theory Compute_Memory
  imports Compute_State "HOL-Library.Multiset"
begin

text \<open>The accounting of data frames: which frames a state of computations refers to, what scheduled tasks have
  acquired, and the invariant that the registry counts every frame at least as often as it is referred to.\<close>

section \<open>Counting\<close>

definition frame_count :: "DataFrameRegistry \<Rightarrow> DataFrame \<Rightarrow> int" where
  "frame_count m f = (case js_get (registeredDataFrames m) f of Some n \<Rightarrow> n | None \<Rightarrow> 0)"

definition frames_ok :: "DataFrameRegistry \<Rightarrow> bool" where
  "frames_ok m \<longleftrightarrow> jsmap_ok (registeredDataFrames m) \<and> (\<forall>f n. js_get (registeredDataFrames m) f = Some n \<longrightarrow> 0 < n)"

definition no_frames :: DataFrameRegistry where
  "no_frames = \<lparr>registeredDataFrames = [], df_destroyed = [], df_unknown = []\<rparr>"

fun opt_frames :: "DataFrame option \<Rightarrow> DataFrame multiset" where
  "opt_frames None = {#}"
| "opt_frames (Some f) = {#f#}"

definition frames_of :: "DataFrame option list \<Rightarrow> DataFrame multiset" where
  "frames_of xs = sum_list (map opt_frames xs)"

text \<open>The registry covers a multiset of references.\<close>

definition covers :: "DataFrameRegistry \<Rightarrow> DataFrame multiset \<Rightarrow> bool" where
  "covers m C \<longleftrightarrow> frames_ok m \<and> (\<forall>f. int (count C f) \<le> frame_count m f)"

lemma covers_mono:
  assumes "covers m C" "D \<subseteq># C"
  shows "covers m D"
proof -
  have "int (count D f) \<le> frame_count m f" for f
    using assms(1) mset_subset_eq_count [OF assms(2), of f] unfolding covers_def by (smt (verit) of_nat_mono)
  then show ?thesis using assms(1) by (simp add: covers_def)
qed

lemma covers_empty: "covers no_frames {#}"
  by (simp add: covers_def frames_ok_def no_frames_def frame_count_def)

lemma frame_count_acquire: "frame_count (acquire df k m) f = frame_count m f + (if df = Some f then k else 0)"
  by (auto simp: frame_count_def acquire_def js_get_set split: option.split)

lemma frames_ok_acquire: "frames_ok m \<Longrightarrow> 0 < k \<Longrightarrow> frames_ok (acquire df k m)"
  by (auto simp: frames_ok_def acquire_def js_get_set split: option.split) fastforce+

lemma covers_acquire:
  assumes "covers m C" "0 < k"
  shows "covers (acquire df (int k) m) (C + repeat_mset k (opt_frames df))"
  using assms by (cases df) (auto simp: covers_def frame_count_acquire frames_ok_acquire)

lemma frame_count_release:
  assumes "frames_ok m"
  shows "frame_count (release df m) f = (if df = Some f then max 0 (frame_count m f - 1) else frame_count m f)"
  using assms by (auto simp: frame_count_def release_def frames_ok_def js_get_set js_get_delete split: option.split) fastforce+

lemma frames_ok_release: "frames_ok m \<Longrightarrow> frames_ok (release df m)"
  by (auto simp: frames_ok_def release_def js_get_set js_get_delete split: option.split if_splits)

lemma covers_release:
  assumes "covers m C" "opt_frames df \<subseteq># C"
  shows "covers (release df m) (C - opt_frames df)"
proof -
  have ok: "frames_ok m" and c: "int (count C f) \<le> frame_count m f" for f using assms(1) by (auto simp: covers_def)
  have "int (count (C - opt_frames df) f) \<le> frame_count (release df m) f" for f
    using c [of f] assms(2) by (cases df) (auto simp: frame_count_release [OF ok])
  then show ?thesis using ok by (simp add: covers_def frames_ok_release)
qed

lemma frames_of_Cons [simp]: "frames_of (x # xs) = opt_frames x + frames_of xs"
  and frames_of_Nil [simp]: "frames_of [] = {#}"
  and frames_of_append [simp]: "frames_of (xs @ ys) = frames_of xs + frames_of ys"
  by (simp_all add: frames_of_def)

lemma covers_releases:
  assumes "covers m C" "frames_of xs \<subseteq># C"
  shows "covers (fold release xs m) (C - frames_of xs)"
  using assms
proof (induction xs arbitrary: m C)
  case (Cons x xs)
  then have "opt_frames x \<subseteq># C" "frames_of xs \<subseteq># C - opt_frames x"
    by (simp_all add: subset_eq_diff_conv subset_mset.le_diff_conv2 subset_mset.add_increasing2 mset_subset_eq_add_left [THEN subset_mset.order_trans] add.commute)
  from Cons.IH [OF covers_release [OF Cons.prems(1) this(1)] this(2)] show ?case by simp
qed simp

text \<open>The pattern of most results: acquire the new frame, release the old ones.\<close>

lemma covers_swap:
  assumes "covers m (R + frames_of olds)"
  shows "covers (fold release olds (acquire df 1 m)) (R + opt_frames df)"
proof -
  have "covers (acquire df 1 m) (R + frames_of olds + opt_frames df)" using covers_acquire [OF assms, of 1 df] by simp
  from covers_releases [OF this, of olds] show ?thesis by (simp add: subset_mset.add_increasing2 add.commute add.left_commute)
qed

section \<open>References of a state\<close>

definition own_frames :: "TableComputationState \<Rightarrow> DataFrame option list" where
  "own_frames ts = [tc_dataFrame ts, map_option ft_dataFrame (tc_filterTable ts), map_option ot_dataFrame (tc_orderingTable ts),
      map_option ta_dataFrame (tc_tableAggregation ts)] @
    map (\<lambda>a. Option.bind a aggregate_frame) (tc_columnAggregates ts) @
    map (\<lambda>a. Option.bind a (\<lambda>a. aggregate_frame (fa_aggregate a))) (tc_filteredColumnAggregates ts)"

datatype SlotKey = Filtering | Ordering | Aggregating | System | Column nat | Filtered nat

text \<open>What a registered task hands back when its table goes.\<close>

definition slots :: "TableComputationTasks \<Rightarrow> (SlotKey \<times> DataFrame option list) list" where
  "slots ts =
    [(Filtering, [map_option (\<lambda>t. fk_inputDataFrame (wp_task t)) (tt_filteringTask ts)]),
     (Ordering, [map_option (\<lambda>t. ok_inputDataFrame (wp_task t)) (tt_orderingTask ts),
        Option.bind (tt_orderingTask ts) (\<lambda>t. map_option ft_dataFrame (ok_filterTable (wp_task t)))]),
     (Aggregating, [map_option (\<lambda>t. ak_inputDataFrame (wp_task t)) (tt_tableAggregationTask ts)]),
     (System, [map_option (\<lambda>t. yk_inputDataFrame (wp_task t)) (tt_systemColumnTask ts)])] @
    map (\<lambda>(t, i). (Column i, [map_option (\<lambda>t. ck_inputDataFrame (wp_task t)) t]))
      (zip (tt_columnAggregationTasks ts) [0..<length (tt_columnAggregationTasks ts)]) @
    map (\<lambda>(t, i). (Filtered i, [map_option (\<lambda>t. ft_dataFrame (wk_filterTable (wp_task t))) t,
        Option.bind t (\<lambda>t. aggregate_frame (wk_unfilteredAggregate (wp_task t)))]))
      (zip (tt_filteredColumnAggregationTasks ts) [0..<length (tt_filteredColumnAggregationTasks ts)])"

definition slot_frames :: "TableComputationTasks \<Rightarrow> DataFrame option list" where
  "slot_frames ts = concat (map snd (slots ts))"

lemma release_aggregate: "releaseColumnAggregate a = release (Option.bind a aggregate_frame)"
  by (rule ext) (cases a; simp add: releaseColumnAggregate_def release_def)

lemma concat_pairs: "concat (map snd (map (\<lambda>(t, i). (k i, g t)) (zip xs [0..<length xs]))) = concat (map g xs)"
proof -
  have "concat (map snd (map (\<lambda>(t, i). (k i, g t)) (zip xs is))) = concat (map g xs)" if "length xs = length is" for "is"
    using that by (induction xs "is" rule: list_induct2) simp_all
  then show ?thesis by simp
qed

lemma destroy_releases:
  "destroyTableComputationState s m = fold release (own_frames s @ slot_frames (tc_tasks s)) m"
proof -
  have f: "fold release_filtered_task xs m = fold release (concat (map (\<lambda>t. [map_option (\<lambda>t. ft_dataFrame (wk_filterTable (wp_task t))) t,
      Option.bind t (\<lambda>t. aggregate_frame (wk_unfilteredAggregate (wp_task t)))]) xs)) m" for xs m
    by (induction xs arbitrary: m) (simp_all add: release_filtered_task_def release_aggregate Option.bind_map_option comp_def)
  have c: "concat (map (\<lambda>x. [g x]) xs) = map g xs" for g :: "'z \<Rightarrow> DataFrame option" and xs by (induction xs) simp_all
  have a: "releaseColumnAggregates as = fold release (map (\<lambda>a. Option.bind a aggregate_frame) as)" for as
  proof -
    have "releaseColumnAggregate = (\<lambda>a. release (Option.bind a aggregate_frame))" by (intro ext) (simp add: release_aggregate)
    then show ?thesis by (intro ext) (simp add: releaseColumnAggregates_def fold_map comp_def)
  qed
  have b: "map (\<lambda>a. Option.bind a aggregate_frame) (map (map_option fa_aggregate) xs) =
      map (\<lambda>a. Option.bind a (\<lambda>a. aggregate_frame (fa_aggregate a))) xs" for xs
    by (induction xs) (simp_all add: Option.bind_map_option comp_def)
  show ?thesis
    unfolding destroyTableComputationState_def own_frames_def slot_frames_def slots_def Let_def map_append concat_append
      concat_pairs f a b releaseMany_def c
    by simp
qed

section \<open>Arrays\<close>

lemma length_arr_set: "length (arr_set h xs i x) = max (length xs) (i + 1)"
  by (simp add: arr_set_def)

lemma nth_arr_set: "j < length (arr_set h xs i x) \<Longrightarrow> arr_set h xs i x ! j = (if j = i then x else if j < length xs then xs ! j else h)"
  by (auto simp: arr_set_def nth_list_update nth_append)

lemma arr_get_set: "arr_get (arr_set None xs i x) j = (if j = i then x else arr_get xs j)"
  by (auto simp: arr_get_def nth_arr_set length_arr_set)

text \<open>References of an array whose elements hold a frame each: an update exchanges one of them.\<close>

lemma frames_of_update:
  "i < length xs \<Longrightarrow> frames_of (map g (xs[i := x])) + opt_frames (g (xs ! i)) = frames_of (map g xs) + opt_frames (g x)"
proof (induction xs arbitrary: i)
  case (Cons y ys)
  then show ?case by (cases i) (simp_all add: add.assoc add.left_commute [of "opt_frames (g y)"] del: add_mset_commute)
qed simp

lemma frames_of_arr_set:
  assumes "g None = None"
  shows "frames_of (map g (arr_set None xs i x)) + opt_frames (g (arr_get xs i)) = frames_of (map g xs) + opt_frames (g x)"
proof (cases "i < length xs")
  case True
  then show ?thesis using frames_of_update [OF True, of g x] by (simp add: arr_set_def arr_get_def)
next
  case False
  have "frames_of (replicate n None) = {#}" for n by (induction n) simp_all
  with False show ?thesis by (simp add: arr_set_def arr_get_def assms)
qed

section \<open>The references of all tables\<close>

definition all_own :: "ComputationState \<Rightarrow> DataFrame multiset" where
  "all_own s = sum_list (map (\<lambda>(tid, ts). frames_of (own_frames ts)) (cp_tableComputations s))"

lemma all_own_split:
  assumes "js_get m k = Some v" "jsmap_ok m"
  shows "sum_list (map (\<lambda>(k, v). w v) m) = (w v :: DataFrame multiset) + sum_list (map (\<lambda>(k, v). w v) (js_delete m k))"
  using assms
proof (induction m)
  case (Cons a m)
  obtain k' v' where a: "a = (k', v')" by (cases a)
  show ?case
  proof (cases "k' = k")
    case True
    then have "js_delete m k = m" using Cons.prems a by (intro js_delete_id) (simp add: jsmap_ok_def keys_get_None)
    then show ?thesis using Cons.prems a True by simp
  next
    case False
    then show ?thesis using Cons a by (simp add: jsmap_ok_def add.left_commute)
  qed
qed simp

lemma sum_js_set:
  assumes "jsmap_ok m"
  shows "sum_list (map (\<lambda>(k, v). w v) (js_set m k v')) = (w v' :: DataFrame multiset) + sum_list (map (\<lambda>(k, v). w v) (js_delete m k))"
  using assms
proof (induction m)
  case (Cons a m)
  obtain k' v where a: "a = (k', v)" by (cases a)
  show ?case
  proof (cases "k' = k")
    case True
    then have "js_delete m k = m" using Cons.prems a by (intro js_delete_id) (simp add: jsmap_ok_def keys_get_None)
    then show ?thesis using a True by simp
  next
    case False
    then show ?thesis using Cons a by (simp add: jsmap_ok_def add.left_commute)
  qed
qed simp

definition others :: "ComputationState \<Rightarrow> nat \<Rightarrow> DataFrame multiset" where
  "others s tid = sum_list (map (\<lambda>(tid, ts). frames_of (own_frames ts)) (js_delete (cp_tableComputations s) tid))"

lemma all_own_table:
  "js_get (cp_tableComputations s) tid = Some ts \<Longrightarrow> jsmap_ok (cp_tableComputations s) \<Longrightarrow>
     all_own s = frames_of (own_frames ts) + others s tid"
  unfolding all_own_def others_def by (rule all_own_split)

lemma all_own_set: "jsmap_ok (cp_tableComputations s) \<Longrightarrow> all_own (set_table tid ts s) = frames_of (own_frames ts) + others s tid"
  unfolding all_own_def others_def set_table_def by (simp add: sum_js_set)

lemma others_none: "js_get (cp_tableComputations s) tid = None \<Longrightarrow> others s tid = all_own s"
  by (simp add: others_def all_own_def js_delete_id)

section \<open>The ledger of scheduled tasks\<close>

text \<open>An entry is the table, the slot of the task in the table's state, and the frames the task acquired, each of
  them once for the scheduler and once for the state of the table. The ledger distinguishes the entries of
  tables that exist from those of tables that were deleted or replaced since.\<close>

type_synonym task_entry = "nat \<times> SlotKey \<times> DataFrame multiset"

fun kind_slot :: "TaskKind \<Rightarrow> SlotKey" where
  "kind_slot (TABLE_FILTERING_TASK t) = Filtering"
| "kind_slot (TABLE_ORDERING_TASK t) = Ordering"
| "kind_slot (TABLE_AGGREGATION_TASK t) = Aggregating"
| "kind_slot (SYSTEM_COLUMN_COMPUTATION_TASK t) = System"
| "kind_slot (COLUMN_AGGREGATION_TASK t) = Column (ck_columnId t)"
| "kind_slot (FILTERED_COLUMN_AGGREGATION_TASK t) = Filtered (ck_columnId t)"

fun kind_frames :: "TaskKind \<Rightarrow> DataFrame multiset" where
  "kind_frames (TABLE_FILTERING_TASK t) = {#fk_inputDataFrame t#}"
| "kind_frames (TABLE_ORDERING_TASK t) = {#ok_inputDataFrame t#} + opt_frames (map_option ft_dataFrame (ok_filterTable t))"
| "kind_frames (TABLE_AGGREGATION_TASK t) = {#ak_inputDataFrame t#}"
| "kind_frames (SYSTEM_COLUMN_COMPUTATION_TASK t) = {#yk_inputDataFrame t, ta_dataFrame (yk_tableAggregate t)#}"
| "kind_frames (COLUMN_AGGREGATION_TASK t) = {#ck_inputDataFrame t, ta_dataFrame (ck_tableAggregate t)#}"
| "kind_frames (FILTERED_COLUMN_AGGREGATION_TASK t) =
     {#ck_inputDataFrame t, ft_dataFrame (wk_filterTable t), ta_dataFrame (ck_tableAggregate t)#} +
     opt_frames (aggregate_frame (wk_unfilteredAggregate t))"

definition entry_of :: "TaskKind \<Rightarrow> task_entry" where
  "entry_of k = (kind_tableId k, kind_slot k, kind_frames k)"

lemma covers_eq: "covers m C \<Longrightarrow> (\<forall>f. count D f = count C f) \<Longrightarrow> covers m D"
  by (simp add: covers_def)

lemma covers_acquire_task:
  assumes "covers m C"
  shows "covers (acquire_task k m) (C + kind_frames k + kind_frames k)"
proof -
  have 2: "covers m' C' \<Longrightarrow> covers (acquire df 2 m') (C' + opt_frames df + opt_frames df)" for m' C' df
    using covers_acquire [of m' C' 2 df] by (simp add: numeral_2_eq_2 add.assoc)
  show ?thesis
  proof (cases k)
    case k: (TABLE_FILTERING_TASK t)
    show ?thesis unfolding k acquire_task.simps by (rule covers_eq [OF 2 [OF assms]]) simp
  next
    case k: (TABLE_ORDERING_TASK t)
    show ?thesis unfolding k acquire_task.simps by (rule covers_eq [OF 2 [OF 2 [OF assms]]]) simp
  next
    case k: (TABLE_AGGREGATION_TASK t)
    show ?thesis unfolding k acquire_task.simps by (rule covers_eq [OF 2 [OF assms]]) simp
  next
    case k: (SYSTEM_COLUMN_COMPUTATION_TASK t)
    show ?thesis unfolding k acquire_task.simps by (rule covers_eq [OF 2 [OF 2 [OF assms]]]) simp
  next
    case k: (COLUMN_AGGREGATION_TASK t)
    show ?thesis unfolding k acquire_task.simps by (rule covers_eq [OF 2 [OF 2 [OF assms]]]) simp
  next
    case k: (FILTERED_COLUMN_AGGREGATION_TASK t)
    show ?thesis unfolding k acquire_task.simps acquireColumnAggregate_def option.case
      by (rule covers_eq [OF 2 [OF 2 [OF 2 [OF 2 [OF assms]]]]]) simp
  qed
qed

definition entry_frames :: "task_entry multiset \<Rightarrow> DataFrame multiset" where
  "entry_frames L = \<Sum>\<^sub># (image_mset (\<lambda>(tid, k, fs). fs) L)"

lemma entry_frames_simps [simp]:
  "entry_frames {#} = {#}"
  "entry_frames (L + M) = entry_frames L + entry_frames M"
  "entry_frames (add_mset e L) = snd (snd e) + entry_frames L"
  by (simp_all add: entry_frames_def case_prod_unfold)

text \<open>A filled slot belongs to an entry that acquired its frames.\<close>

definition slots_ok :: "nat \<Rightarrow> TableComputationTasks \<Rightarrow> task_entry multiset \<Rightarrow> bool" where
  "slots_ok tid ts A \<longleftrightarrow> (\<forall>(k, fs) \<in> set (slots ts). frames_of fs \<noteq> {#} \<longrightarrow>
     (\<exists>e. e \<in># A \<and> fst e = tid \<and> fst (snd e) = k \<and> frames_of fs \<subseteq># snd (snd e)))"

lemma distinct_slots: "distinct (map fst (slots ts))"
proof -
  have 1: "map fst (map (\<lambda>(t, i). (c i, g t)) (zip xs [0..<length xs])) = map c [0..<length xs]"
    for c :: "nat \<Rightarrow> SlotKey" and g :: "'z option \<Rightarrow> DataFrame option list" and xs
  proof -
    have "map fst (map (\<lambda>(t, i). (c i, g t)) (zip xs is)) = map c is" if "length xs = length is" for "is"
      using that by (induction xs "is" rule: list_induct2) simp_all
    then show ?thesis by simp
  qed
  show ?thesis unfolding slots_def map_append 1 by (auto simp: distinct_map inj_on_def)
qed

lemma slots_within:
  assumes "distinct (map fst sl)"
    and "\<forall>(k, fs) \<in> set sl. frames_of fs \<noteq> {#} \<longrightarrow> (\<exists>e. e \<in># A \<and> fst e = tid \<and> fst (snd e) = k \<and> frames_of fs \<subseteq># snd (snd e))"
  shows "frames_of (concat (map snd sl)) \<subseteq># entry_frames {#e \<in># A. fst e = tid#}"
  using assms
proof (induction sl arbitrary: A)
  case (Cons x sl)
  obtain k fs where x: "x = (k, fs)" by (cases x)
  show ?case
  proof (cases "frames_of fs = {#}")
    case True
    then show ?thesis using Cons x by simp
  next
    case False
    then obtain e where e: "e \<in># A" "fst e = tid" "fst (snd e) = k" "frames_of fs \<subseteq># snd (snd e)" using Cons.prems(2) x by auto
    then obtain B where B: "A = add_mset e B" by (meson mset_add)
    have "\<forall>(k', fs') \<in> set sl. frames_of fs' \<noteq> {#} \<longrightarrow>
        (\<exists>e'. e' \<in># B \<and> fst e' = tid \<and> fst (snd e') = k' \<and> frames_of fs' \<subseteq># snd (snd e'))"
    proof clarify
      fix k' fs' assume m: "(k', fs') \<in> set sl" and ne: "frames_of fs' \<noteq> {#}"
      then obtain e' where e': "e' \<in># A" "fst e' = tid" "fst (snd e') = k'" "frames_of fs' \<subseteq># snd (snd e')"
        using Cons.prems(2) x by force
      have "k' \<noteq> k" using Cons.prems(1) x m by force
      then have "e' \<in># B" using e'(1,3) e(3) by (auto simp: B)
      then show "\<exists>e'. e' \<in># B \<and> fst e' = tid \<and> fst (snd e') = k' \<and> frames_of fs' \<subseteq># snd (snd e')" using e' by blast
    qed
    with Cons.IH [of B] Cons.prems(1) have "frames_of (concat (map snd sl)) \<subseteq># entry_frames {#e \<in># B. fst e = tid#}" by simp
    then show ?thesis using e by (simp add: x B subset_mset.add_mono)
  qed
qed simp

lemma slot_frames_within: "slots_ok tid ts A \<Longrightarrow> frames_of (slot_frames ts) \<subseteq># entry_frames {#e \<in># A. fst e = tid#}"
  unfolding slot_frames_def slots_ok_def by (rule slots_within [OF distinct_slots])

end
