(* ===== verification/Compute_Runs.thy ===== *)
theory Compute_Runs
  imports Compute_Memory
begin

text \<open>Every action of the computation reducer keeps the accounting of data frames, as long as progress is only
  reported for tasks that were scheduled on the table as it is; the runs of the reducer under this discipline.\<close>

section \<open>The invariant\<close>

definition mem_ok :: "ComputationState \<Rightarrow> DataFrameRegistry \<Rightarrow> task_entry multiset \<Rightarrow> task_entry multiset \<Rightarrow> bool" where
  "mem_ok s m A D \<longleftrightarrow> jsmap_ok (cp_tableComputations s) \<and>
     covers m (all_own s + (entry_frames A + entry_frames A + entry_frames D)) \<and>
     (\<forall>tid ts. js_get (cp_tableComputations s) tid = Some ts \<longrightarrow> slots_ok tid (tc_tasks ts) A)"

lemma own_frames_sum: "frames_of (own_frames ts) = opt_frames (tc_dataFrame ts) +
    (opt_frames (map_option ft_dataFrame (tc_filterTable ts)) + (opt_frames (map_option ot_dataFrame (tc_orderingTable ts)) +
    (opt_frames (map_option ta_dataFrame (tc_tableAggregation ts)) +
    (frames_of (map (\<lambda>a. Option.bind a aggregate_frame) (tc_columnAggregates ts)) +
     frames_of (map (\<lambda>a. Option.bind a (\<lambda>a. aggregate_frame (fa_aggregate a))) (tc_filteredColumnAggregates ts))))))"
  by (simp add: own_frames_def ac_simps)

lemma set_table_get: "js_get (cp_tableComputations (set_table tid ts s)) k = (if k = tid then Some ts else js_get (cp_tableComputations s) k)"
  by (simp add: set_table_def js_get_set)

lemma covers_reject:
  assumes "covers m C"
  shows "covers (release df (acquire df 1 m)) C"
proof -
  have "covers (acquire df 1 m) (C + opt_frames df)" using covers_acquire [OF assms, of 1 df] by simp
  from covers_release [OF this, of df] show ?thesis by simp
qed

lemma mem_ok_reject: "mem_ok s m A D \<Longrightarrow> mem_ok s (release df (acquire df 1 m)) A D"
  by (simp add: mem_ok_def covers_reject)

lemma acquire_none [simp]: "acquire None k m = m"
  and release_none [simp]: "release None m = m"
  by (simp_all add: acquire_def release_def)

text \<open>A result: the table's new state gives up \<open>olds\<close> for the acquired frame and keeps its slots.\<close>

lemma mem_ok_result:
  assumes ok: "mem_ok s m A D" and ts: "js_get (cp_tableComputations s) tid = Some ts"
    and own: "frames_of (own_frames ts') + frames_of olds = frames_of (own_frames ts) + opt_frames df"
    and sl: "slots (tc_tasks ts') = slots (tc_tasks ts)"
  shows "mem_ok (set_table tid ts' s) (fold release olds (acquire df 1 m)) A D"
proof -
  let ?E = "entry_frames A + entry_frames A + entry_frames D"
  have j: "jsmap_ok (cp_tableComputations s)" and c: "covers m (all_own s + ?E)" using ok by (simp_all add: mem_ok_def)
  from covers_acquire [OF c, of 1 df]
  have "covers (acquire df 1 m) (frames_of (own_frames ts) + others s tid + ?E + opt_frames df)"
    by (simp add: all_own_table [OF ts j])
  moreover have "frames_of (own_frames ts) + others s tid + ?E + opt_frames df =
      frames_of olds + (frames_of (own_frames ts') + others s tid + ?E)"
    using own by (metis add.assoc add.commute)
  ultimately have "covers (acquire df 1 m) (frames_of olds + (frames_of (own_frames ts') + others s tid + ?E))" by simp
  from covers_releases [OF this, of olds] have "covers (fold release olds (acquire df 1 m)) (frames_of (own_frames ts') + others s tid + ?E)"
    by simp
  then have "covers (fold release olds (acquire df 1 m)) (all_own (set_table tid ts' s) + ?E)"
    by (simp add: all_own_set [OF j])
  moreover have "jsmap_ok (cp_tableComputations (set_table tid ts' s))" using j by (simp add: set_table_def)
  moreover have "slots_ok k (tc_tasks t) A" if "js_get (cp_tableComputations (set_table tid ts' s)) k = Some t" for k t
    using that ok ts sl by (auto simp: set_table_get mem_ok_def slots_ok_def split: if_splits)
  ultimately show ?thesis by (simp add: mem_ok_def)
qed

lemma mem_ok_set:
  assumes "mem_ok s m A D" "js_get (cp_tableComputations s) tid = Some ts"
    "frames_of (own_frames ts') + frames_of olds = frames_of (own_frames ts)" "slots (tc_tasks ts') = slots (tc_tasks ts)"
  shows "mem_ok (set_table tid ts' s) (fold release olds m) A D"
  using mem_ok_result [OF assms(1,2), of ts' olds None] assms(3,4) by simp

text \<open>Marking a registered task as succeeded keeps the slots.\<close>

lemma task_of_succeeded [simp]: "wp_task (task_succeeded now t) = wp_task t"
  by (simp add: task_succeeded_def)

lemma slots_succeeded [simp]:
  "slots (ts\<lparr>tt_filteringTask := map_option (task_succeeded now) (tt_filteringTask ts)\<rparr>) = slots ts"
  "slots (ts\<lparr>tt_tableAggregationTask := map_option (task_succeeded now) (tt_tableAggregationTask ts)\<rparr>) = slots ts"
  "slots (ts\<lparr>tt_systemColumnTask := map_option (task_succeeded now) (tt_systemColumnTask ts)\<rparr>) = slots ts"
  by (simp_all add: slots_def option.map_comp comp_def)

lemma slots_ordering [simp]:
  "tt_orderingTask ts = Some t \<Longrightarrow> slots (ts\<lparr>tt_orderingTask := Some (task_succeeded now t)\<rparr>) = slots ts"
  "slots (ts\<lparr>tt_orderingTask := map_option (\<lambda>t. t\<lparr>wp_task := (wp_task t)\<lparr>ok_orderingConstraints := []\<rparr>\<rparr>) (tt_orderingTask ts)\<rparr>) = slots ts"
  by (cases "tt_orderingTask ts"; simp add: slots_def)+

lemma map_zip_same:
  assumes "i < length xs" "g x = g (xs ! i)"
  shows "map (\<lambda>(t, i). (k i, g t)) (zip (arr_set h xs i x) [0..<length (arr_set h xs i x)]) = map (\<lambda>(t, i). (k i, g t)) (zip xs [0..<length xs])"
  using assms by (intro nth_equalityI) (auto simp: arr_set_def nth_list_update)

lemma arr_get_Some: "arr_get xs i = Some t \<Longrightarrow> i < length xs \<and> xs ! i = Some t"
  by (simp add: arr_get_def split: if_splits)

lemma slots_column [simp]:
  assumes "arr_get (tt_columnAggregationTasks ts) c = Some t"
  shows "slots (ts\<lparr>tt_columnAggregationTasks := arr_set None (tt_columnAggregationTasks ts) c (Some (task_succeeded now t))\<rparr>) = slots ts"
  using arr_get_Some [OF assms] unfolding slots_def by (simp add: map_zip_same)

lemma slots_filtered [simp]:
  assumes "arr_get (tt_filteredColumnAggregationTasks ts) c = Some t"
  shows "slots (ts\<lparr>tt_filteredColumnAggregationTasks := arr_set None (tt_filteredColumnAggregationTasks ts) c (Some (task_succeeded now t))\<rparr>) = slots ts"
  using arr_get_Some [OF assms] unfolding slots_def by (simp add: map_zip_same)

section \<open>Results\<close>

lemma mem_ordering:
  assumes "mem_ok s m A D" "ordering_succeeded now tid ot s m = (s', m')"
  shows "mem_ok s' m' A D"
proof (cases "js_get (cp_tableComputations s) tid")
  case None
  then show ?thesis using assms mem_ok_reject by (auto simp: ordering_succeeded_def)
next
  case (Some ts)
  have r: "mem_ok (set_table tid (ts\<lparr>tc_orderingTable := Some ot, tc_dataTableOrdering := ot_orderingConstraints ot,
          tc_tasks := (tc_tasks ts)\<lparr>tt_orderingTask := Some (task_succeeded now task)\<rparr>\<rparr>) s)
      (release (map_option ot_dataFrame (tc_orderingTable ts)) (acquire (Some (ot_dataFrame ot)) 1 m)) A D"
    if "tt_orderingTask (tc_tasks ts) = Some task" for task
    using mem_ok_result [OF assms(1) Some, of _ "[map_option ot_dataFrame (tc_orderingTable ts)]" "Some (ot_dataFrame ot)"] that
    by (simp add: own_frames_sum)
  show ?thesis using assms(2) Some r mem_ok_reject [OF assms(1)]
    by (auto simp: ordering_succeeded_def Let_def split: option.splits if_splits)
qed

lemma mem_clear:
  assumes "mem_ok s m A D" "clear_ordering tid s m = (s', m')"
  shows "mem_ok s' m' A D"
proof (cases "js_get (cp_tableComputations s) tid")
  case None
  then show ?thesis using assms by (auto simp: clear_ordering_def)
next
  case (Some ts)
  show ?thesis using assms(2) mem_ok_set [OF assms(1) Some, of _ "[map_option ot_dataFrame (tc_orderingTable ts)]"]
    by (auto simp: clear_ordering_def Some own_frames_sum)
qed

lemma mem_aggregation:
  assumes "mem_ok s m A D" "aggregation_succeeded now tid ta s m = (s', m')"
  shows "mem_ok s' m' A D"
proof (cases "js_get (cp_tableComputations s) tid")
  case None
  then show ?thesis using assms mem_ok_reject by (auto simp: aggregation_succeeded_def)
next
  case (Some ts)
  show ?thesis using assms(2) mem_ok_result [OF assms(1) Some, of _ "[map_option ta_dataFrame (tc_tableAggregation ts)]" "Some (ta_dataFrame ta)"]
    by (auto simp: aggregation_succeeded_def Some own_frames_sum Let_def)
qed

lemma mem_system:
  assumes "mem_ok s m A D" "system_columns_succeeded now tid table df groups s m = (s', m')"
  shows "mem_ok s' m' A D"
proof (cases "js_get (cp_tableComputations s) tid")
  case None
  then show ?thesis using assms mem_ok_reject by (auto simp: system_columns_succeeded_def)
next
  case (Some ts)
  show ?thesis using assms(2) mem_ok_result [OF assms(1) Some, of _ "[tc_dataFrame ts]" "Some df"]
    by (auto simp: system_columns_succeeded_def Some own_frames_sum Let_def)
qed

lemma mem_umap:
  assumes "mem_ok s m A D" "umap_succeeded tid table df groups s m = (s', m')"
  shows "mem_ok s' m' A D"
proof (cases "js_get (cp_tableComputations s) tid")
  case None
  then show ?thesis using assms mem_ok_reject by (auto simp: umap_succeeded_def)
next
  case (Some ts)
  show ?thesis using assms(2) mem_ok_result [OF assms(1) Some, of _ "[tc_dataFrame ts]" "Some df"]
    by (auto simp: umap_succeeded_def Some own_frames_sum Let_def)
qed

lemma mem_column:
  assumes "mem_ok s m A D" "column_succeeded now tid c a s m = (s', m')"
  shows "mem_ok s' m' A D"
proof (cases "js_get (cp_tableComputations s) tid")
  case None
  then show ?thesis using assms mem_ok_reject by (auto simp: column_succeeded_def acquireColumnAggregate_def releaseColumnAggregate_def)
next
  case (Some ts)
  have r: "mem_ok (set_table tid (ts\<lparr>tc_columnAggregates := arr_set None (tc_columnAggregates ts) c (Some a),
        tc_tasks := (tc_tasks ts)\<lparr>tt_columnAggregationTasks :=
          arr_set None (tt_columnAggregationTasks (tc_tasks ts)) c (Some (task_succeeded now task))\<rparr>\<rparr>) s)
      (release (Option.bind (arr_get (tc_columnAggregates ts) c) aggregate_frame) (acquire (aggregate_frame a) 1 m)) A D"
    if "arr_get (tt_columnAggregationTasks (tc_tasks ts)) c = Some task" for task
    using mem_ok_result [OF assms(1) Some, of _ "[Option.bind (arr_get (tc_columnAggregates ts) c) aggregate_frame]" "aggregate_frame a"] that
      frames_of_arr_set [of "\<lambda>a. Option.bind a aggregate_frame" "tc_columnAggregates ts" c "Some a"]
    by (simp add: own_frames_sum ac_simps)
  show ?thesis using assms(2) Some r mem_ok_reject [OF assms(1)]
    by (auto simp: column_succeeded_def Let_def acquireColumnAggregate_def release_aggregate split: option.splits if_splits)
qed

lemma mem_filtered_column:
  assumes "mem_ok s m A D" "filtered_column_succeeded now tid c v a s m = (s', m')"
  shows "mem_ok s' m' A D"
proof -
  let ?g = "\<lambda>a. Option.bind a (\<lambda>a. aggregate_frame (fa_aggregate a))"
  have aq: "acquireColumnAggregate (map_option fa_aggregate a) k m = acquire (?g a) k m" for k m
    by (cases a) (simp_all add: acquireColumnAggregate_def)
  have rl: "releaseColumnAggregate (map_option fa_aggregate x) m = release (?g x) m" for x m
    by (cases x) (simp_all add: release_aggregate)
  show ?thesis
  proof (cases "js_get (cp_tableComputations s) tid")
    case None
    then show ?thesis using assms mem_ok_reject by (auto simp: filtered_column_succeeded_def aq rl)
  next
    case (Some ts)
    have r: "mem_ok (set_table tid (ts\<lparr>tc_filteredColumnAggregates := arr_set None (tc_filteredColumnAggregates ts) c a,
          tc_filteredColumnAggregatesOutdated := fl,
          tc_tasks := (tc_tasks ts)\<lparr>tt_filteredColumnAggregationTasks :=
            arr_set None (tt_filteredColumnAggregationTasks (tc_tasks ts)) c (Some (task_succeeded now task))\<rparr>\<rparr>) s)
        (release (?g (arr_get (tc_filteredColumnAggregates ts) c)) (acquire (?g a) 1 m)) A D"
      if "arr_get (tt_filteredColumnAggregationTasks (tc_tasks ts)) c = Some task" for task fl
      using mem_ok_result [OF assms(1) Some, of _ "[?g (arr_get (tc_filteredColumnAggregates ts) c)]" "?g a"] that
        frames_of_arr_set [of ?g "tc_filteredColumnAggregates ts" c a]
      by (simp add: own_frames_sum ac_simps)
    show ?thesis using assms(1,2) Some r mem_ok_reject [OF assms(1)]
      by (auto simp: filtered_column_succeeded_def Let_def aq rl split: option.splits if_splits)
  qed
qed

lemma mem_filtering:
  assumes "mem_ok s m A D" "filtering_succeeded now tid v ft s m = (s', m')"
  shows "mem_ok s' m' A D"
proof (cases "js_get (cp_tableComputations s) tid")
  case None
  then show ?thesis using assms mem_ok_reject by (auto simp: filtering_succeeded_def)
next
  case (Some ts)
  let ?g = "\<lambda>a. Option.bind a (\<lambda>a. aggregate_frame (fa_aggregate a))"
  let ?df = "map_option ft_dataFrame ft"
  let ?old = "[map_option ft_dataFrame (tc_filterTable ts), map_option ot_dataFrame (tc_orderingTable ts)]"
  define outdated where "outdated = (case ft of None \<Rightarrow> replicate (length (tc_filteredColumnAggregatesOutdated ts)) False
    | Some ft \<Rightarrow> outdated_flags ts ft)"
  define filtered where "filtered = (if ft = None then replicate (length (tc_filteredColumnAggregates ts)) None else tc_filteredColumnAggregates ts)"
  define ts' where "ts' = ts\<lparr>tc_filterTable := ft, tc_orderingTable := None, tc_filteredColumnAggregates := filtered,
      tc_filteredColumnAggregatesOutdated := outdated,
      tc_tasks := (tc_tasks ts)\<lparr>tt_filteringTask := map_option (task_succeeded now) (tt_filteringTask (tc_tasks ts))\<rparr>\<rparr>"
  define gone where "gone = (if ft = None then map ?g (tc_filteredColumnAggregates ts) else [])"
  have rel: "fold (\<lambda>a. releaseColumnAggregate (map_option fa_aggregate a)) (filter (\<lambda>a. \<exists>y. a = Some y) xs) m = fold release (map ?g xs) m" for xs m
    by (induction xs arbitrary: m) (auto simp: release_aggregate)
  have "frames_of (map ?g (replicate n None)) = {#}" for n by (induction n) simp_all
  then have "frames_of (map ?g filtered) + frames_of gone = frames_of (map ?g (tc_filteredColumnAggregates ts))"
    by (simp add: filtered_def gone_def)
  then have own: "frames_of (own_frames ts') + frames_of (gone @ ?old) = frames_of (own_frames ts) + opt_frames ?df"
    by (simp add: ts'_def own_frames_sum ac_simps)
  have sl: "slots (tc_tasks ts') = slots (tc_tasks ts)" by (simp add: ts'_def)
  from mem_ok_result [OF assms(1) Some own sl]
  have r: "mem_ok (set_table tid ts' s) (fold release (gone @ ?old) (acquire ?df 1 m)) A D" .
  have "tableFilteringSucceded now s tid ft m2 = (set_table tid ts' s, fold release (gone @ ?old) m2)" for m2
    by (simp add: tableFilteringSucceded_def Some Let_def ts'_def filtered_def outdated_def gone_def rel)
  then show ?thesis using assms r mem_ok_reject [OF assms(1), of ?df]
    by (auto simp: filtering_succeeded_def Some Let_def split: if_splits)
qed

section \<open>Scheduling\<close>

lemma in_indexed: "(t, i) \<in> set (zip xs [0..<length xs]) \<longleftrightarrow> i < length xs \<and> t = xs ! i"
  by (auto simp: set_zip)

lemma indexed_slots:
  "(k, fs) \<in> set (map (\<lambda>(t, i). (c i, g t)) (zip xs [0..<length xs])) \<longleftrightarrow> (\<exists>i < length xs. k = c i \<and> fs = g (xs ! i))"
  unfolding set_map image_iff by (simp add: Bex_def split_paired_Ex in_indexed)

lemma in_slots: "(k, fs) \<in> set (slots ts) \<longleftrightarrow>
    k = Filtering \<and> fs = [map_option (\<lambda>t. fk_inputDataFrame (wp_task t)) (tt_filteringTask ts)] \<or>
    k = Ordering \<and> fs = [map_option (\<lambda>t. ok_inputDataFrame (wp_task t)) (tt_orderingTask ts),
        Option.bind (tt_orderingTask ts) (\<lambda>t. map_option ft_dataFrame (ok_filterTable (wp_task t)))] \<or>
    k = Aggregating \<and> fs = [map_option (\<lambda>t. ak_inputDataFrame (wp_task t)) (tt_tableAggregationTask ts)] \<or>
    k = System \<and> fs = [map_option (\<lambda>t. yk_inputDataFrame (wp_task t)) (tt_systemColumnTask ts)] \<or>
    (\<exists>i < length (tt_columnAggregationTasks ts). k = Column i \<and>
       fs = [map_option (\<lambda>t. ck_inputDataFrame (wp_task t)) (tt_columnAggregationTasks ts ! i)]) \<or>
    (\<exists>i < length (tt_filteredColumnAggregationTasks ts). k = Filtered i \<and>
       fs = [map_option (\<lambda>t. ft_dataFrame (wk_filterTable (wp_task t))) (tt_filteredColumnAggregationTasks ts ! i),
         Option.bind (tt_filteredColumnAggregationTasks ts ! i) (\<lambda>t. aggregate_frame (wk_unfilteredAggregate (wp_task t)))])"
  unfolding slots_def set_append Un_iff indexed_slots by auto

lemma task_with_progress [simp]: "wp_task (with_progress t prev p) = t"
  by (simp add: with_progress_def)

lemma register_array:
  assumes "j < length (arr_set None xs i x)"
  obtains "arr_set None xs i x ! j = x" "j = i" | "j < length xs" "arr_set None xs i x ! j = xs ! j" | "arr_set None xs i x ! j = None"
  using nth_arr_set [OF assms] by (cases "j = i"; cases "j < length xs") auto

lemma slots_register:
  assumes "(k, fs) \<in> set (slots (register_task create kd v v' p ts))"
  shows "(k, fs) \<in> set (slots ts) \<or> k = kind_slot kd \<and> frames_of fs \<subseteq># kind_frames kd \<or> frames_of fs = {#}"
proof (cases kd)
  case kd: (COLUMN_AGGREGATION_TASK t)
  let ?x = "Some (with_progress t (arr_get (tt_columnAggregationTasks ts) (ck_columnId t)) p)"
  let ?xs = "arr_set None (tt_columnAggregationTasks ts) (ck_columnId t) ?x"
  let ?g = "\<lambda>t. [map_option (\<lambda>t. ck_inputDataFrame (wp_task t)) t]"
  from assms have "(k, fs) \<in> set (slots ts) \<or> (\<exists>j < length ?xs. k = Column j \<and> fs = ?g (?xs ! j))"
    unfolding in_slots kd by auto
  then consider "(k, fs) \<in> set (slots ts)" | j where "j < length ?xs" "k = Column j" "fs = ?g (?xs ! j)" by blast
  then show ?thesis
  proof cases
    case 2
    from 2(1) show ?thesis
    proof (cases rule: register_array)
      case 1
      then show ?thesis using 2 by (simp add: kd)
    next
      case old: 2
      then show ?thesis using 2 by (simp add: in_slots)
    next
      case 3
      then show ?thesis using 2 by simp
    qed
  qed simp
next
  case kd: (FILTERED_COLUMN_AGGREGATION_TASK t)
  let ?x = "Some (with_progress t (arr_get (tt_filteredColumnAggregationTasks ts) (ck_columnId t)) p)"
  let ?xs = "arr_set None (tt_filteredColumnAggregationTasks ts) (ck_columnId t) ?x"
  let ?g = "\<lambda>t. [map_option (\<lambda>t. ft_dataFrame (wk_filterTable (wp_task t))) t,
         Option.bind t (\<lambda>t. aggregate_frame (wk_unfilteredAggregate (wp_task t)))]"
  from assms have "(k, fs) \<in> set (slots ts) \<or> (\<exists>j < length ?xs. k = Filtered j \<and> fs = ?g (?xs ! j))"
    unfolding in_slots kd by auto
  then consider "(k, fs) \<in> set (slots ts)" | j where "j < length ?xs" "k = Filtered j" "fs = ?g (?xs ! j)" by blast
  then show ?thesis
  proof cases
    case 2
    from 2(1) show ?thesis
    proof (cases rule: register_array)
      case 1
      then show ?thesis using 2 by (simp add: kd subset_mset.add_increasing)
    next
      case old: 2
      then show ?thesis using 2 by (simp add: in_slots)
    next
      case 3
      then show ?thesis using 2 by simp
    qed
  qed simp
next
  case kd: (TABLE_ORDERING_TASK t)
  show ?thesis
  proof (cases "register_task create kd v v' p ts = ts")
    case True
    then show ?thesis using assms by simp
  next
    case False
    then have "register_task create kd v v' p ts =
        ts\<lparr>tt_orderingTask := Some (with_progress (t\<lparr>ok_tableVersion := v\<rparr>) (tt_orderingTask ts) p)\<rparr>"
      unfolding kd register_task.simps by metis
    from assms [unfolded this] have "(k, fs) \<in> set (slots ts) \<or> k = Ordering \<and>
        fs = [Some (ok_inputDataFrame t), map_option ft_dataFrame (ok_filterTable t)]"
      unfolding in_slots by (simp del: ex_simps) blast
    then show ?thesis by (auto simp: kd)
  qed
qed (use assms in \<open>auto simp: in_slots\<close>)

lemma kind_retarget [simp]: "kind_slot (retarget c k v) = kind_slot k" "kind_frames (retarget c k v) = kind_frames k"
  "kind_tableId (retarget c k v) = kind_tableId k"
  by (cases k; simp)+

lemma slots_ok_register:
  assumes "slots_ok tid ts A" "(tid, kind_slot kd, kind_frames kd) \<in># A"
  shows "slots_ok tid (register_task create kd v v' p ts) A"
  unfolding slots_ok_def
proof clarify
  fix k fs assume "(k, fs) \<in> set (slots (register_task create kd v v' p ts))" and ne: "frames_of fs \<noteq> {#}"
  from slots_register [OF this(1)] ne consider "(k, fs) \<in> set (slots ts)" | "k = kind_slot kd" "frames_of fs \<subseteq># kind_frames kd" by blast
  then show "\<exists>e. e \<in># A \<and> fst e = tid \<and> fst (snd e) = k \<and> frames_of fs \<subseteq># snd (snd e)"
  proof cases
    case 1
    then show ?thesis using assms(1) ne unfolding slots_ok_def by blast
  next
    case 2
    then show ?thesis using assms(2) by (intro exI [of _ "(tid, kind_slot kd, kind_frames kd)"]) simp
  qed
qed

lemma slots_ok_mono: "slots_ok tid ts A \<Longrightarrow> A \<subseteq># B \<Longrightarrow> slots_ok tid ts B"
  unfolding slots_ok_def case_prod_unfold by (meson mset_subset_eqD)

text \<open>A task that is scheduled enters the ledger; a task that reports progress has to be in it.\<close>

definition task_entries :: "ComputationState \<Rightarrow> TaskKind \<Rightarrow> task_entry multiset" where
  "task_entries s kd = (if js_has (cp_tableComputations s) (kind_tableId kd) then {#entry_of kd#} else {#})"

lemma mem_update:
  assumes ok: "mem_ok s m A D" and u: "updateTask s t p m create = (s', m')"
    and known: "create \<or> js_has (cp_tableComputations s) (kind_tableId (tv_task t)) \<longrightarrow> create \<or> entry_of (tv_task t) \<in># A"
  shows "mem_ok s' m' (A + (if create then task_entries s (tv_task t) else {#})) D"
proof (cases "js_get (cp_tableComputations s) (kind_tableId (tv_task t))")
  case None
  then show ?thesis using ok u by (auto simp: updateTask_def Let_def task_entries_def split: if_splits)
next
  case (Some ts)
  let ?kd = "tv_task t" and ?tid = "kind_tableId (tv_task t)"
  define A' where "A' = A + (if create then {#entry_of ?kd#} else {#})"
  define v where "v = target_version create ?kd (tc_version ts)"
  define ts' where "ts' = ts\<lparr>tc_version := v, tc_tasks := register_task create (retarget create ?kd v) (tc_version ts) v p (tc_tasks ts)\<rparr>"
  have j: "jsmap_ok (cp_tableComputations s)" using ok by (simp add: mem_ok_def)
  obtain s1 where s1: "s' = set_table ?tid ts' s1" "cp_tableComputations s1 = cp_tableComputations s"
    and m': "m' = (if create then acquire_task ?kd m else m)"
    using u unfolding updateTask_def Let_def
    by (cases "tv_taskId t") (auto simp: Some ts'_def v_def)
  have tables: "cp_tableComputations s' = js_set (cp_tableComputations s) ?tid ts'" by (simp add: s1 set_table_def)
  have "all_own s' = all_own (set_table ?tid ts' s)" by (simp add: all_own_def tables set_table_def)
  also have "\<dots> = all_own s" using all_own_set [OF j] all_own_table [OF Some j] by (simp add: ts'_def own_frames_def)
  finally have own: "all_own s' = all_own s" .
  have ein: "entry_of ?kd \<in># A'" using known Some by (auto simp: A'_def)
  have "slots_ok ?tid (tc_tasks ts) A'"
    by (rule slots_ok_mono [of _ _ A]) (use ok Some in \<open>simp_all add: mem_ok_def A'_def\<close>)
  then have sl: "slots_ok ?tid (tc_tasks ts') A'"
    using ein by (simp add: ts'_def slots_ok_register entry_of_def)
  have others: "slots_ok k (tc_tasks ts2) A'" if "js_get (cp_tableComputations s') k = Some ts2" for k ts2
  proof (cases "k = ?tid")
    case True
    then show ?thesis using that sl by (simp add: tables js_get_set)
  next
    case False
    then have "slots_ok k (tc_tasks ts2) A" using that ok by (simp add: tables js_get_set mem_ok_def)
    then show ?thesis by (rule slots_ok_mono) (simp add: A'_def)
  qed
  have "covers m' (all_own s' + (entry_frames A' + entry_frames A' + entry_frames D))"
  proof (cases create)
    case True
    have "covers m (all_own s + (entry_frames A + entry_frames A + entry_frames D))" using ok by (simp add: mem_ok_def)
    from covers_acquire_task [OF this, of ?kd] show ?thesis
      unfolding m' if_P [OF True] own by (rule covers_eq) (simp add: A'_def True entry_of_def)
  next
    case False
    then show ?thesis using ok by (simp add: m' own A'_def mem_ok_def)
  qed
  then have "mem_ok s' m' A' D" using others j by (simp add: mem_ok_def tables)
  then show ?thesis using Some by (auto simp: A'_def task_entries_def)
qed

section \<open>Deletion\<close>

text \<open>When a table goes, its entries keep one of their two references.\<close>

definition gone_entries :: "nat \<Rightarrow> task_entry multiset \<Rightarrow> task_entry multiset" where
  "gone_entries tid A = {#e \<in># A. fst e = tid#}"

definition kept_entries :: "nat \<Rightarrow> task_entry multiset \<Rightarrow> task_entry multiset" where
  "kept_entries tid A = {#e \<in># A. fst e \<noteq> tid#}"

lemma entries_split: "entry_frames A = entry_frames (gone_entries tid A) + entry_frames (kept_entries tid A)"
proof -
  have "A = gone_entries tid A + kept_entries tid A"
    unfolding gone_entries_def kept_entries_def by (rule multiset_partition)
  then show ?thesis by (metis entry_frames_simps(2))
qed

lemma mem_destroy:
  assumes ok: "mem_ok s m A D" and ts: "js_get (cp_tableComputations s) tid = Some ts"
  shows "covers (destroyTableComputationState ts m)
    (others s tid + (entry_frames (kept_entries tid A) + entry_frames (kept_entries tid A) + entry_frames (D + gone_entries tid A)))"
proof -
  let ?g = "entry_frames (gone_entries tid A)" and ?k = "entry_frames (kept_entries tid A)"
  have j: "jsmap_ok (cp_tableComputations s)" using ok by (simp add: mem_ok_def)
  have "covers m (all_own s + (entry_frames A + entry_frames A + entry_frames D))" using ok by (simp add: mem_ok_def)
  then have c: "covers m (frames_of (own_frames ts) + ?g + (others s tid + (?k + ?k + (entry_frames D + ?g))))"
    by (rule covers_eq) (simp add: all_own_table [OF ts j] entries_split [of A tid])
  have "frames_of (slot_frames (tc_tasks ts)) \<subseteq># ?g"
    using ok ts slot_frames_within unfolding mem_ok_def gone_entries_def by blast
  then obtain R where R: "?g = frames_of (slot_frames (tc_tasks ts)) + R" by (auto simp: subset_mset.le_iff_add)
  let ?xs = "own_frames ts @ slot_frames (tc_tasks ts)"
  have c': "covers m (frames_of ?xs + (R + (others s tid + (?k + ?k + (entry_frames D + ?g)))))"
    using c by (rule covers_eq) (simp add: R)
  have "covers (fold release ?xs m) (R + (others s tid + (?k + ?k + (entry_frames D + ?g))))"
    using covers_releases [OF c', of ?xs] by (simp add: add.assoc)
  then show ?thesis unfolding destroy_releases by (rule covers_mono) simp
qed

lemma slots_ok_kept: "slots_ok k ts A \<Longrightarrow> k \<noteq> tid \<Longrightarrow> slots_ok k ts (kept_entries tid A)"
  unfolding slots_ok_def kept_entries_def by (simp add: case_prod_unfold)

lemma mem_delete:
  assumes ok: "mem_ok s m A D" and ts: "js_get (cp_tableComputations s) tid = Some ts"
  shows "mem_ok (s\<lparr>cp_tableComputations := js_delete (cp_tableComputations s) tid\<rparr>) (destroyTableComputationState ts m)
    (kept_entries tid A) (D + gone_entries tid A)"
proof -
  have "all_own (s\<lparr>cp_tableComputations := js_delete (cp_tableComputations s) tid\<rparr>) = others s tid"
    by (simp add: all_own_def others_def)
  moreover have "slots_ok k (tc_tasks t) (kept_entries tid A)"
    if "js_get (js_delete (cp_tableComputations s) tid) k = Some t" for k t
    using that ok by (auto simp: js_get_delete mem_ok_def intro: slots_ok_kept split: if_splits)
  ultimately show ?thesis using mem_destroy [OF ok ts] ok by (simp add: mem_ok_def)
qed

lemma created_table:
  "frames_of (own_frames (createTableComputationState tid table groups life)) = {#}"
  "slots_ok k (tc_tasks (createTableComputationState tid table groups life)) A"
proof -
  have r: "frames_of (map g (replicate n None)) = {#}" if "g None = None" for g :: "'z option \<Rightarrow> DataFrame option" and n
    by (induction n) (simp_all add: that)
  show "frames_of (own_frames (createTableComputationState tid table groups life)) = {#}"
    by (simp add: own_frames_sum createTableComputationState_def r del: map_replicate)
  show "slots_ok k (tc_tasks (createTableComputationState tid table groups life)) A"
    unfolding slots_ok_def case_prod_unfold
    by (auto simp: in_slots createTableComputationState_def simp del: replicate_Suc)
qed

lemma mem_create:
  assumes ok: "mem_ok s m A D"
  shows "mem_ok (set_table tid (createTableComputationState tid table groups life) s)
    (case js_get (cp_tableComputations s) tid of None \<Rightarrow> m | Some ts \<Rightarrow> destroyTableComputationState ts m)
    (kept_entries tid A) (D + gone_entries tid A)"
proof -
  let ?new = "createTableComputationState tid table groups life"
  let ?m = "case js_get (cp_tableComputations s) tid of None \<Rightarrow> m | Some ts \<Rightarrow> destroyTableComputationState ts m"
  let ?k = "entry_frames (kept_entries tid A)"
  have j: "jsmap_ok (cp_tableComputations s)" using ok by (simp add: mem_ok_def)
  have "covers ?m (others s tid + (?k + ?k + entry_frames (D + gone_entries tid A)))"
  proof (cases "js_get (cp_tableComputations s) tid")
    case None
    have "covers m (all_own s + (entry_frames A + entry_frames A + entry_frames D))" using ok by (simp add: mem_ok_def)
    then have "covers m ((others s tid + (?k + ?k + entry_frames (D + gone_entries tid A))) + entry_frames (gone_entries tid A))"
      by (rule covers_eq) (simp add: others_none [OF None] entries_split [of A tid])
    then show ?thesis unfolding None option.case by (rule covers_mono) simp
  next
    case (Some ts)
    then show ?thesis using mem_destroy [OF ok Some] by simp
  qed
  moreover have "all_own (set_table tid ?new s) = others s tid" by (simp add: all_own_set [OF j] created_table)
  moreover have "jsmap_ok (cp_tableComputations (set_table tid ?new s))" using j by (simp add: set_table_def)
  moreover have "slots_ok k (tc_tasks t) (kept_entries tid A)"
    if "js_get (cp_tableComputations (set_table tid ?new s)) k = Some t" for k t
    using that ok by (auto simp: set_table_get mem_ok_def created_table intro: slots_ok_kept split: if_splits)
  ultimately show ?thesis by (simp add: mem_ok_def)
qed

section \<open>Runs\<close>

text \<open>Progress is reported for tasks that were scheduled on the table, or for a table that is gone.\<close>

fun disciplined_action :: "ComputationState \<Rightarrow> task_entry multiset \<Rightarrow> ComputationAction \<Rightarrow> bool" where
  "disciplined_action s A (UPDATE_SCHEDULER_TASK t p) \<longleftrightarrow>
     \<not> js_has (cp_tableComputations s) (kind_tableId (tv_task t)) \<or> entry_of (tv_task t) \<in># A"
| "disciplined_action s A _ \<longleftrightarrow> True"

fun ledger :: "ComputationState \<Rightarrow> ComputationAction \<Rightarrow> task_entry multiset \<times> task_entry multiset \<Rightarrow> task_entry multiset \<times> task_entry multiset" where
  "ledger s (SCHEDULE_TASK t) (A, D) = (A + task_entries s (tv_task t), D)"
| "ledger s (COMPUTATION_FROM_QUERY_RESULT tid table groups life) (A, D) = (kept_entries tid A, D + gone_entries tid A)"
| "ledger s (DELETE_COMPUTATION tid) (A, D) =
     (if js_has (cp_tableComputations s) tid then (kept_entries tid A, D + gone_entries tid A) else (A, D))"
| "ledger s a (A, D) = (A, D)"

text \<open>A run: actions are reduced one after the other; an action that throws leaves only the registry changed.\<close>

inductive comp_run :: "ComputationState \<Rightarrow> DataFrameRegistry \<Rightarrow> task_entry multiset \<Rightarrow> task_entry multiset \<Rightarrow> bool" where
  comp_start: "comp_run createComputationState no_frames {#} {#}"
| comp_step: "comp_run s m A D \<Longrightarrow> disciplined_action s A a \<Longrightarrow> reduceComputationState now s a m = Computed s' m' \<Longrightarrow>
    ledger s a (A, D) = (A', D') \<Longrightarrow> comp_run s' m' A' D'"
| comp_throw: "comp_run s m A D \<Longrightarrow> reduceComputationState now s a m = Threw m' \<Longrightarrow> comp_run s m' A D"

lemma mem_ok_tables: "mem_ok s m A D \<Longrightarrow> cp_tableComputations s' = cp_tableComputations s \<Longrightarrow> mem_ok s' m A D"
  by (simp add: mem_ok_def all_own_def)

lemma mem_cross:
  assumes "mem_ok s m A D" "js_get (cp_tableComputations s) tid = Some ts"
  shows "mem_ok (set_table tid (ts\<lparr>tc_crossFilters := cf\<rparr>) s) m A D"
  using mem_ok_set [OF assms, of _ "[]"] by (simp add: own_frames_def)

lemma mem_created:
  assumes "mem_ok s m A D" "js_get (cp_tableComputations s) tid = Some ts"
  shows "mem_ok (set_table tid (ts\<lparr>tc_version := withDataIncrement (tc_version ts), tc_dataFrame := Some df\<rparr>) s)
    (release (tc_dataFrame ts) (acquire (Some df) 1 m)) A D"
  using mem_ok_result [OF assms, of _ "[tc_dataFrame ts]" "Some df"] by (simp add: own_frames_sum ac_simps)

lemma computed_of_eq: "computed_of x = Computed s m \<longleftrightarrow> x = (s, m)"
  by (cases x) (simp add: computed_of_def)

lemma computed_of_not_threw: "computed_of x \<noteq> Threw m"
  by (simp add: computed_of_def)

lemma mem_step:
  assumes ok: "mem_ok s m A D" and d: "disciplined_action s A a" and r: "reduceComputationState now s a m = Computed s' m'"
    and l: "ledger s a (A, D) = (A', D')"
  shows "mem_ok s' m' A' D'"
proof (cases a)
  case (SCHEDULE_TASK t)
  then show ?thesis using mem_update [OF ok, of t _ True] r l by (auto simp: computed_of_eq)
next
  case (UPDATE_SCHEDULER_TASK t p)
  then show ?thesis using mem_update [OF ok, of t p False s' m'] r l d by (auto simp: computed_of_eq)
next
  case (UNREGISTER_SCHEDULER_TASK t)
  then show ?thesis using ok r l by (auto split: option.splits intro: mem_ok_tables)
next
  case (COMPUTATION_FROM_QUERY_RESULT tid table groups life)
  then show ?thesis using mem_create [OF ok, of tid table groups life] r l by auto
next
  case (DELETE_COMPUTATION tid)
  then show ?thesis using ok mem_delete [OF ok] r l by (auto split: option.splits)
next
  case (CREATED_DATA_FRAME tid df)
  then show ?thesis using mem_created [OF ok] r l by (auto split: option.splits)
next
  case (SET_CROSS_FILTERS tid cf)
  then show ?thesis using ok mem_cross [OF ok] r l by (auto split: option.splits)
qed (use r l mem_ordering [OF ok] mem_clear [OF ok] mem_filtering [OF ok] mem_aggregation [OF ok] mem_system [OF ok]
    mem_umap [OF ok] mem_column [OF ok] mem_filtered_column [OF ok] in \<open>auto simp: computed_of_eq\<close>)

lemma mem_throw:
  assumes ok: "mem_ok s m A D" and r: "reduceComputationState now s a m = Threw m'"
  shows "mem_ok s m' A D"
proof -
  have "\<exists>df. m' = acquire (Some df) 1 m"
    using r by (cases a) (auto simp: computed_of_not_threw split: option.splits)
  then obtain df where m': "m' = acquire (Some df) 1 m" by blast
  have "covers m' (all_own s + (entry_frames A + entry_frames A + entry_frames D) + opt_frames (Some df))"
    using covers_acquire [of m _ 1 "Some df"] ok by (simp add: mem_ok_def m')
  then have "covers m' (all_own s + (entry_frames A + entry_frames A + entry_frames D))" by (rule covers_mono) simp
  then show ?thesis using ok by (simp add: mem_ok_def)
qed

lemma mem_run: "comp_run s m A D \<Longrightarrow> mem_ok s m A D"
proof (induction rule: comp_run.induct)
  case comp_start
  then show ?case using covers_empty by (simp add: mem_ok_def createComputationState_def all_own_def)
next
  case (comp_step s m A D a now s' m' A' D')
  then show ?case using mem_step by blast
next
  case (comp_throw s m A D now a m')
  then show ?case using mem_throw by blast
qed

section \<open>What tasks hold\<close>

text \<open>The tasks that are registered with a table.\<close>

definition registered_kinds :: "TableComputationTasks \<Rightarrow> TaskKind set" where
  "registered_kinds ts =
    {TABLE_FILTERING_TASK (wp_task t) |t. tt_filteringTask ts = Some t} \<union>
    {TABLE_ORDERING_TASK (wp_task t) |t. tt_orderingTask ts = Some t} \<union>
    {TABLE_AGGREGATION_TASK (wp_task t) |t. tt_tableAggregationTask ts = Some t} \<union>
    {SYSTEM_COLUMN_COMPUTATION_TASK (wp_task t) |t. tt_systemColumnTask ts = Some t} \<union>
    {COLUMN_AGGREGATION_TASK (wp_task t) |t c. arr_get (tt_columnAggregationTasks ts) c = Some t} \<union>
    {FILTERED_COLUMN_AGGREGATION_TASK (wp_task t) |t c. arr_get (tt_filteredColumnAggregationTasks ts) c = Some t}"

definition task_frames :: "TableComputationTasks \<Rightarrow> DataFrame set" where
  "task_frames ts = {f. \<exists>k \<in> registered_kinds ts. f \<in># kind_frames k}"

text \<open>All frames that the registered tasks of tables and the tasks of the scheduler were given.\<close>

definition held_frames :: "ComputationState \<Rightarrow> DataFrame set" where
  "held_frames s = {f. (\<exists>tid ts. js_get (cp_tableComputations s) tid = Some ts \<and> f \<in> task_frames (tc_tasks ts)) \<or>
     (\<exists>i t. js_get (cp_schedulerTasks s) i = Some t \<and> f \<in># kind_frames (tv_task t))}"

lemma task_frames_iff: "f \<in> task_frames ts \<longleftrightarrow>
    (\<exists>t. tt_filteringTask ts = Some t \<and> f \<in># kind_frames (TABLE_FILTERING_TASK (wp_task t))) \<or>
    (\<exists>t. tt_orderingTask ts = Some t \<and> f \<in># kind_frames (TABLE_ORDERING_TASK (wp_task t))) \<or>
    (\<exists>t. tt_tableAggregationTask ts = Some t \<and> f \<in># kind_frames (TABLE_AGGREGATION_TASK (wp_task t))) \<or>
    (\<exists>t. tt_systemColumnTask ts = Some t \<and> f \<in># kind_frames (SYSTEM_COLUMN_COMPUTATION_TASK (wp_task t))) \<or>
    (\<exists>t c. arr_get (tt_columnAggregationTasks ts) c = Some t \<and> f \<in># kind_frames (COLUMN_AGGREGATION_TASK (wp_task t))) \<or>
    (\<exists>t c. arr_get (tt_filteredColumnAggregationTasks ts) c = Some t \<and> f \<in># kind_frames (FILTERED_COLUMN_AGGREGATION_TASK (wp_task t)))"
proof -
  have 1: "(\<exists>k \<in> {g t |t. P t}. Q k) \<longleftrightarrow> (\<exists>t. P t \<and> Q (g t))" for g :: "'a \<Rightarrow> TaskKind" and P Q by blast
  have 2: "(\<exists>k \<in> {g t |t c. P t c}. Q k) \<longleftrightarrow> (\<exists>t c. P t c \<and> Q (g t))" for g :: "'a \<Rightarrow> TaskKind" and P :: "'a \<Rightarrow> nat \<Rightarrow> bool" and Q by blast
  show ?thesis by (simp only: task_frames_def registered_kinds_def mem_Collect_eq bex_Un 1 2 disj_assoc)
qed

lemma task_frames_succeeded [simp]:
  "task_frames (ts\<lparr>tt_filteringTask := map_option (task_succeeded now) (tt_filteringTask ts)\<rparr>) = task_frames ts"
  "task_frames (ts\<lparr>tt_tableAggregationTask := map_option (task_succeeded now) (tt_tableAggregationTask ts)\<rparr>) = task_frames ts"
  "task_frames (ts\<lparr>tt_systemColumnTask := map_option (task_succeeded now) (tt_systemColumnTask ts)\<rparr>) = task_frames ts"
  by (intro set_eqI; simp add: task_frames_iff del: kind_frames.simps; fastforce)+

lemma task_frames_ordering [simp]:
  "tt_orderingTask ts = Some t \<Longrightarrow> task_frames (ts\<lparr>tt_orderingTask := Some (task_succeeded now t)\<rparr>) = task_frames ts"
  "task_frames (ts\<lparr>tt_orderingTask := map_option (\<lambda>t. t\<lparr>wp_task := (wp_task t)\<lparr>ok_orderingConstraints := []\<rparr>\<rparr>) (tt_orderingTask ts)\<rparr>) = task_frames ts"
proof -
  have k: "kind_frames (TABLE_ORDERING_TASK (t\<lparr>ok_orderingConstraints := []\<rparr>)) = kind_frames (TABLE_ORDERING_TASK t)" for t by simp
  show "tt_orderingTask ts = Some t \<Longrightarrow> task_frames (ts\<lparr>tt_orderingTask := Some (task_succeeded now t)\<rparr>) = task_frames ts"
    by (intro set_eqI) (simp add: task_frames_iff del: kind_frames.simps)
  show "task_frames (ts\<lparr>tt_orderingTask := map_option (\<lambda>t. t\<lparr>wp_task := (wp_task t)\<lparr>ok_orderingConstraints := []\<rparr>\<rparr>) (tt_orderingTask ts)\<rparr>) = task_frames ts"
    by (intro set_eqI; cases "tt_orderingTask ts") (simp_all add: task_frames_iff k del: kind_frames.simps)
qed

lemma arr_frames: "(\<exists>u c. arr_get (arr_set None xs i (Some x)) c = Some u \<and> P u) \<longleftrightarrow> P x \<or> (\<exists>u c. c \<noteq> i \<and> arr_get xs c = Some u \<and> P u)"
  by (auto simp: arr_get_set)

lemma arr_get_none [simp]: "arr_get (replicate n None) c = None"
  by (simp add: arr_get_def)

lemma arr_frames_same:
  assumes "arr_get xs i = Some t"
  shows "(\<exists>u c. arr_get (arr_set None xs i (Some (task_succeeded now t))) c = Some u \<and> P (wp_task u)) \<longleftrightarrow>
    (\<exists>u c. arr_get xs c = Some u \<and> P (wp_task u))"
proof -
  have "P (wp_task t) \<or> (\<exists>u c. c \<noteq> i \<and> arr_get xs c = Some u \<and> P (wp_task u)) \<longleftrightarrow> (\<exists>u c. arr_get xs c = Some u \<and> P (wp_task u))"
    using assms by (metis option.inject)
  then show ?thesis unfolding arr_frames by simp
qed

lemma task_frames_column:
  "arr_get (tt_columnAggregationTasks ts) c = Some t \<Longrightarrow>
    task_frames (ts\<lparr>tt_columnAggregationTasks := arr_set None (tt_columnAggregationTasks ts) c (Some (task_succeeded now t))\<rparr>) = task_frames ts"
  "arr_get (tt_filteredColumnAggregationTasks ts) c = Some u \<Longrightarrow>
    task_frames (ts\<lparr>tt_filteredColumnAggregationTasks := arr_set None (tt_filteredColumnAggregationTasks ts) c (Some (task_succeeded now u))\<rparr>) = task_frames ts"
proof -
  assume "arr_get (tt_columnAggregationTasks ts) c = Some t"
  note same = arr_frames_same [OF this]
  show "task_frames (ts\<lparr>tt_columnAggregationTasks := arr_set None (tt_columnAggregationTasks ts) c (Some (task_succeeded now t))\<rparr>) = task_frames ts"
    using same [of now "\<lambda>k. f \<in># kind_frames (COLUMN_AGGREGATION_TASK k)" for f]
    by (intro set_eqI) (simp add: task_frames_iff del: kind_frames.simps)
next
  assume "arr_get (tt_filteredColumnAggregationTasks ts) c = Some u"
  note same = arr_frames_same [OF this]
  show "task_frames (ts\<lparr>tt_filteredColumnAggregationTasks := arr_set None (tt_filteredColumnAggregationTasks ts) c (Some (task_succeeded now u))\<rparr>) = task_frames ts"
    using same [of now "\<lambda>k. f \<in># kind_frames (FILTERED_COLUMN_AGGREGATION_TASK k)" for f]
    by (intro set_eqI) (simp add: task_frames_iff del: kind_frames.simps)
qed

lemma task_frames_register: "task_frames (register_task create k v v' p ts) \<subseteq> task_frames ts \<union> set_mset (kind_frames k)"
proof (cases k)
  case k: (TABLE_ORDERING_TASK t)
  have "kind_frames (TABLE_ORDERING_TASK (t\<lparr>ok_tableVersion := v\<rparr>)) = kind_frames k" by (simp add: k)
  then show ?thesis by (auto simp: k task_frames_iff simp del: kind_frames.simps)
next
  case k: (TABLE_FILTERING_TASK t)
  have "kind_frames (TABLE_FILTERING_TASK (t\<lparr>fk_tableVersion := v'\<rparr>)) = kind_frames k" by (simp add: k)
  then show ?thesis by (auto simp: k task_frames_iff simp del: kind_frames.simps)
next
  case k: (COLUMN_AGGREGATION_TASK t)
  show ?thesis
  proof
    fix f assume "f \<in> task_frames (register_task create k v v' p ts)"
    then show "f \<in> task_frames ts \<union> set_mset (kind_frames k)"
      using arr_frames [of "tt_columnAggregationTasks ts" "ck_columnId t" "with_progress t (arr_get (tt_columnAggregationTasks ts) (ck_columnId t)) p" "\<lambda>u. f \<in># kind_frames (COLUMN_AGGREGATION_TASK (wp_task u))"]
      by (simp add: k task_frames_iff del: kind_frames.simps) blast
  qed
next
  case k: (FILTERED_COLUMN_AGGREGATION_TASK t)
  show ?thesis
  proof
    fix f assume "f \<in> task_frames (register_task create k v v' p ts)"
    then show "f \<in> task_frames ts \<union> set_mset (kind_frames k)"
      using arr_frames [of "tt_filteredColumnAggregationTasks ts" "ck_columnId t" "with_progress t (arr_get (tt_filteredColumnAggregationTasks ts) (ck_columnId t)) p" "\<lambda>u. f \<in># kind_frames (FILTERED_COLUMN_AGGREGATION_TASK (wp_task u))"]
      by (simp add: k task_frames_iff del: kind_frames.simps) blast
  qed
qed (auto simp: task_frames_iff simp del: kind_frames.simps)

lemma task_frames_created [simp]: "task_frames (tc_tasks (createTableComputationState tid table groups life)) = {}"
  by (auto simp: task_frames_iff createTableComputationState_def simp del: replicate_Suc)

lemma held_set_table: "task_frames (tc_tasks ts') \<subseteq> X \<Longrightarrow> held_frames (set_table tid ts' s) \<subseteq> held_frames s \<union> X"
  by (auto simp: held_frames_def set_table_def js_get_set split: if_splits)

lemma held_set_same:
  "js_get (cp_tableComputations s) tid = Some ts \<Longrightarrow> task_frames (tc_tasks ts') = task_frames (tc_tasks ts) \<Longrightarrow>
    held_frames (set_table tid ts' s) \<subseteq> held_frames s"
  by (fastforce simp: held_frames_def set_table_def js_get_set split: if_splits)

text \<open>An action hands frames to tasks only when it schedules or reports a task of a table that exists.\<close>

definition given_frames :: "ComputationState \<Rightarrow> ComputationAction \<Rightarrow> DataFrame set" where
  "given_frames s a = (case a of
     SCHEDULE_TASK t \<Rightarrow> if js_has (cp_tableComputations s) (kind_tableId (tv_task t)) then set_mset (kind_frames (tv_task t)) else {}
   | UPDATE_SCHEDULER_TASK t p \<Rightarrow> if js_has (cp_tableComputations s) (kind_tableId (tv_task t)) then set_mset (kind_frames (tv_task t)) else {}
   | _ \<Rightarrow> {})"

lemma held_update:
  assumes "updateTask s t p m create = (s', m')"
  shows "held_frames s' \<subseteq> held_frames s \<union>
    (if js_has (cp_tableComputations s) (kind_tableId (tv_task t)) then set_mset (kind_frames (tv_task t)) else {})"
proof (cases "js_get (cp_tableComputations s) (kind_tableId (tv_task t))")
  case None
  then show ?thesis using assms by (auto simp: updateTask_def Let_def split: if_splits)
next
  case (Some ts)
  let ?k = "tv_task t"
  define v where "v = target_version create ?k (tc_version ts)"
  let ?ts = "ts\<lparr>tc_version := v, tc_tasks := register_task create (retarget create ?k v) (tc_version ts) v p (tc_tasks ts)\<rparr>"
  obtain i s1 t1 where s1: "s' = set_table (kind_tableId ?k) ?ts s1" "cp_tableComputations s1 = cp_tableComputations s"
      "cp_schedulerTasks s1 = js_set (cp_schedulerTasks s) i t1" "tv_task t1 = retarget create ?k v"
    using assms unfolding updateTask_def Let_def by (cases "tv_taskId t") (auto simp: Some v_def)
  have "held_frames s1 \<subseteq> held_frames s \<union> set_mset (kind_frames ?k)"
    using s1(2-4) by (auto simp: held_frames_def js_get_set split: if_splits)
  moreover have "task_frames (tc_tasks ?ts) \<subseteq> held_frames s \<union> set_mset (kind_frames ?k)"
    using task_frames_register [of create "retarget create ?k v" "tc_version ts" v p "tc_tasks ts"] Some by (auto simp: held_frames_def)
  ultimately have "held_frames s' \<subseteq> held_frames s \<union> set_mset (kind_frames ?k)" using held_set_table [of ?ts _ "kind_tableId ?k" s1] s1(1) by blast
  then show ?thesis using Some by simp
qed

lemma held_filtering: "held_frames (fst (tableFilteringSucceded now s tid ft m)) \<subseteq> held_frames s"
  by (cases "js_get (cp_tableComputations s) tid")
    (simp_all add: tableFilteringSucceded_def Let_def held_set_same)

lemma held_results:
  "held_frames (fst (ordering_succeeded now tid ot s m)) \<subseteq> held_frames s"
  "held_frames (fst (clear_ordering tid s m)) \<subseteq> held_frames s"
  "held_frames (fst (filtering_succeeded now tid v ft s m)) \<subseteq> held_frames s"
  "held_frames (fst (aggregation_succeeded now tid ta s m)) \<subseteq> held_frames s"
  "held_frames (fst (system_columns_succeeded now tid table df groups s m)) \<subseteq> held_frames s"
  "held_frames (fst (umap_succeeded tid table df groups s m)) \<subseteq> held_frames s"
  "held_frames (fst (column_succeeded now tid c a s m)) \<subseteq> held_frames s"
  "held_frames (fst (filtered_column_succeeded now tid c v fa s m)) \<subseteq> held_frames s"
  by (auto simp: ordering_succeeded_def clear_ordering_def filtering_succeeded_def aggregation_succeeded_def system_columns_succeeded_def
      umap_succeeded_def column_succeeded_def filtered_column_succeeded_def Let_def task_frames_column
      dest: subsetD [OF held_filtering] subsetD [OF held_set_same, rotated 2] split: option.splits if_splits)

lemma held_fewer:
  "held_frames (s\<lparr>cp_tableComputations := js_delete (cp_tableComputations s) tid\<rparr>) \<subseteq> held_frames s"
  "held_frames (s\<lparr>cp_schedulerTasks := js_delete (cp_schedulerTasks s) i\<rparr>) \<subseteq> held_frames s"
  by (auto simp: held_frames_def js_get_delete split: if_splits)

lemma held_step:
  assumes "reduceComputationState now s a m = Computed s' m'"
  shows "held_frames s' \<subseteq> held_frames s \<union> given_frames s a"
proof (cases a)
  case (SCHEDULE_TASK t)
  then show ?thesis using assms held_update [of s t _ m True s' m'] by (simp add: given_frames_def computed_of_eq)
next
  case (UPDATE_SCHEDULER_TASK t p)
  then show ?thesis using assms held_update [of s t p m False s' m'] by (simp add: given_frames_def computed_of_eq)
next
  case (COMPUTATION_FROM_QUERY_RESULT tid table groups life)
  then show ?thesis using assms held_set_table [of "createTableComputationState tid table groups life" "{}"] by auto
next
  case (SET_CROSS_FILTERS tid cf)
  then show ?thesis using assms by (auto dest: subsetD [OF held_set_same, rotated 2] split: option.splits if_splits)
next
  case (CREATED_DATA_FRAME tid df)
  then show ?thesis using assms by (auto dest: subsetD [OF held_set_same, rotated 2] split: option.splits)
next
  case (DELETE_COMPUTATION tid)
  then show ?thesis using assms held_fewer(1) by (auto split: option.splits)
next
  case (UNREGISTER_SCHEDULER_TASK t)
  then show ?thesis using assms held_fewer(2) by (auto split: option.splits)
qed (use assms in \<open>auto simp: computed_of_def dest: held_results [THEN subsetD]\<close>)

text \<open>Everything that is held has an entry in the ledger.\<close>

lemma ledger_grows:
  assumes "ledger s a (A, D) = (A', D')"
  shows "set_mset (entry_frames A + entry_frames D) \<subseteq> set_mset (entry_frames A' + entry_frames D')"
proof -
  have "A + D \<subseteq># A' + D'"
    using assms multiset_partition [of A "\<lambda>e. fst e = tid" for tid]
    by (cases a) (auto simp: kept_entries_def gone_entries_def union_assoc union_commute split: if_splits)
  then obtain B where "A' + D' = A + D + B" by (auto simp: subset_mset.le_iff_add)
  then have "entry_frames A' + entry_frames D' = entry_frames A + entry_frames D + entry_frames B" by (metis entry_frames_simps(2))
  then show ?thesis by auto
qed

lemma entry_in_frames: "(tid, k, fs) \<in># A \<Longrightarrow> fs \<subseteq># entry_frames A"
  by (auto dest!: multi_member_split)

lemma held_in_ledger: "comp_run s m A D \<Longrightarrow> held_frames s \<subseteq> set_mset (entry_frames A + entry_frames D)"
proof (induction rule: comp_run.induct)
  case comp_start
  then show ?case by (simp add: held_frames_def createComputationState_def)
next
  case (comp_step s m A D a now s' m' A' D')
  have "given_frames s a \<subseteq> set_mset (entry_frames A' + entry_frames D')"
  proof (cases a)
    case (SCHEDULE_TASK t)
    then show ?thesis using comp_step.hyps(4) by (auto simp: given_frames_def task_entries_def entry_of_def)
  next
    case (UPDATE_SCHEDULER_TASK t p)
    then have "given_frames s a \<subseteq> set_mset (entry_frames A)"
      using comp_step.hyps(2) entry_in_frames by (auto simp: given_frames_def entry_of_def dest!: mset_subset_eqD)
    then show ?thesis using ledger_grows [OF comp_step.hyps(4)] by auto
  qed (simp_all add: given_frames_def)
  then show ?case using held_step [OF comp_step.hyps(3)] comp_step.IH ledger_grows [OF comp_step.hyps(4)] by blast
qed

section \<open>Frames that exist\<close>

text \<open>The frames that an action brings in: results, and the frames of a task that is scheduled.\<close>

fun brought_frames :: "ComputationAction \<Rightarrow> DataFrame set" where
  "brought_frames (SCHEDULE_TASK t) = set_mset (kind_frames (tv_task t))"
| "brought_frames (CREATED_DATA_FRAME tid df) = {df}"
| "brought_frames (TABLE_ORDERING_SUCCEDED tid ot) = {ot_dataFrame ot}"
| "brought_frames (TABLE_FILTERING_SUCCEEDED tid v ft) = set_mset (opt_frames (map_option ft_dataFrame ft))"
| "brought_frames (TABLE_AGGREGATION_SUCCEEDED tid ta) = {ta_dataFrame ta}"
| "brought_frames (SYSTEM_COLUMN_COMPUTATION_SUCCEEDED tid table df groups) = {df}"
| "brought_frames (UMAP_COMPUTATION_SUCCEEDED tid table df groups) = {df}"
| "brought_frames (COLUMN_AGGREGATION_SUCCEEDED tid c a) = set_mset (opt_frames (aggregate_frame a))"
| "brought_frames (FILTERED_COLUMN_AGGREGATION_SUCCEEDED tid c v a) =
     set_mset (opt_frames (Option.bind a (\<lambda>a. aggregate_frame (fa_aggregate a))))"
| "brought_frames _ = {}"

text \<open>No registered frame was destroyed.\<close>

definition alive :: "DataFrameRegistry \<Rightarrow> bool" where
  "alive m \<longleftrightarrow> (\<forall>f. js_get (registeredDataFrames m) f \<noteq> None \<longrightarrow> f \<notin> set (df_destroyed m))"

lemma destroyed_acquire [simp]: "df_destroyed (acquire df k m) = df_destroyed m"
  by (simp add: acquire_def split: option.split)

lemma alive_acquire: "alive m \<Longrightarrow> set_mset (opt_frames df) \<inter> set (df_destroyed m) = {} \<Longrightarrow> alive (acquire df k m)"
  unfolding alive_def by (cases df) (auto simp: acquire_def js_get_set split: option.split)

lemma alive_release: "alive m \<Longrightarrow> alive (release df m)"
  by (auto simp: alive_def release_def js_get_set js_get_delete split: option.split if_splits)

lemma alive_releases: "alive m \<Longrightarrow> alive (fold release dfs m)"
  by (induction dfs arbitrary: m) (simp_all add: alive_release)

lemma alive_task: "alive m \<Longrightarrow> set_mset (kind_frames k) \<inter> set (df_destroyed m) = {} \<Longrightarrow> alive (acquire_task k m)"
  by (cases k) (auto simp: acquireColumnAggregate_def intro!: alive_acquire)

lemma alive_filtering: "alive m \<Longrightarrow> alive (snd (tableFilteringSucceded now s tid ft m))"
proof -
  have rel: "fold (\<lambda>a. releaseColumnAggregate (map_option fa_aggregate a)) xs m =
      fold release (map (\<lambda>a. Option.bind (map_option fa_aggregate a) aggregate_frame) xs) m" for xs m
    by (induction xs arbitrary: m) (simp_all add: release_aggregate)
  show "alive m \<Longrightarrow> alive (snd (tableFilteringSucceded now s tid ft m))"
    by (simp add: tableFilteringSucceded_def Let_def rel alive_release alive_releases split: option.split)
qed

lemma alive_step:
  assumes "alive m" "brought_frames a \<inter> set (df_destroyed m) = {}"
  shows "case reduceComputationState now s a m of Computed s' m' \<Rightarrow> alive m' | Threw m' \<Rightarrow> alive m'"
proof (cases a)
  case (SCHEDULE_TASK t)
  then show ?thesis using assms
    by (auto simp: computed_of_def updateTask_def Let_def alive_task split: option.split)
next
  case (UPDATE_SCHEDULER_TASK t p)
  then show ?thesis using assms by (auto simp: computed_of_def updateTask_def Let_def split: option.split)
next
  case (TABLE_FILTERING_SUCCEEDED tid v ft)
  then have "alive (acquire (map_option ft_dataFrame ft) 1 m)" using assms by (intro alive_acquire) simp_all
  then show ?thesis using TABLE_FILTERING_SUCCEEDED
    by (simp add: computed_of_def filtering_succeeded_def Let_def alive_release alive_filtering split: option.split)
next
  case (FILTERED_COLUMN_AGGREGATION_SUCCEEDED tid c v a)
  have "acquireColumnAggregate (map_option fa_aggregate a) 1 m = acquire (Option.bind a (\<lambda>a. aggregate_frame (fa_aggregate a))) 1 m"
    by (cases a) (simp_all add: acquireColumnAggregate_def)
  then have "alive (acquireColumnAggregate (map_option fa_aggregate a) 1 m)"
    using assms FILTERED_COLUMN_AGGREGATION_SUCCEEDED by (simp add: alive_acquire)
  then show ?thesis using FILTERED_COLUMN_AGGREGATION_SUCCEEDED
    by (simp add: computed_of_def filtered_column_succeeded_def Let_def release_aggregate alive_release split: option.split)
qed (use assms alive_acquire [of m, OF assms(1)] in
  \<open>auto simp: computed_of_def ordering_succeeded_def clear_ordering_def aggregation_succeeded_def system_columns_succeeded_def
    umap_succeeded_def column_succeeded_def acquireColumnAggregate_def release_aggregate destroy_releases Let_def alive_release alive_releases
    split: option.split\<close>)

text \<open>A run in which no action brings in a frame that was destroyed before.\<close>

inductive live_run :: "ComputationState \<Rightarrow> DataFrameRegistry \<Rightarrow> task_entry multiset \<Rightarrow> task_entry multiset \<Rightarrow> bool" where
  live_start: "live_run createComputationState no_frames {#} {#}"
| live_step: "live_run s m A D \<Longrightarrow> disciplined_action s A a \<Longrightarrow> brought_frames a \<inter> set (df_destroyed m) = {} \<Longrightarrow>
    reduceComputationState now s a m = Computed s' m' \<Longrightarrow> ledger s a (A, D) = (A', D') \<Longrightarrow> live_run s' m' A' D'"
| live_throw: "live_run s m A D \<Longrightarrow> brought_frames a \<inter> set (df_destroyed m) = {} \<Longrightarrow>
    reduceComputationState now s a m = Threw m' \<Longrightarrow> live_run s m' A D"

lemma live_is_run: "live_run s m A D \<Longrightarrow> comp_run s m A D"
  by (induction rule: live_run.induct) (auto intro: comp_run.intros)

lemma live_alive: "live_run s m A D \<Longrightarrow> alive m"
proof (induction rule: live_run.induct)
  case live_start
  then show ?case by (simp add: alive_def no_frames_def)
next
  case (live_step s m A D a now s' m' A' D')
  then show ?case using alive_step [of m a now s] by simp
next
  case (live_throw s m A D a now m')
  then show ?case using alive_step [of m a now s] by simp
qed

end
