(* ===== verification/Compute_Logic.thy ===== *)
theory Compute_Logic
  imports Compute_State
begin

text \<open>What the computations compute, \<^verbatim>\<open>compute/computation_logic.ts\<close>: the grouping of columns, the names of system
  columns, the SQL of every task and the analysis of the aggregates. The database is a parameter that answers
  a SQL text with a data frame and its table, or an error; the cells of a table are read with a \<open>TableReader\<close>.\<close>

section \<open>Column groups\<close>

definition BIN_COUNT :: nat where
  "BIN_COUNT = 16"

definition isTemporalType :: "ArrowType \<Rightarrow> bool" where
  "isTemporalType t \<longleftrightarrow> t \<in> {Ty_Date, Ty_DateDay, Ty_DateMillisecond, Ty_Time, Ty_TimeSecond, Ty_TimeMillisecond,
     Ty_TimeMicrosecond, Ty_TimeNanosecond, Ty_Timestamp, Ty_TimestampSecond, Ty_TimestampMillisecond,
     Ty_TimestampMicrosecond, Ty_TimestampNanosecond, Ty_DurationSecond, Ty_DurationMillisecond,
     Ty_DurationMicrosecond, Ty_DurationNanosecond}"

definition column_group :: "ArrowField \<Rightarrow> ColumnGroup" where
  "column_group f =
    (let c = \<lparr>gd_inputFieldName = af_name f, gd_inputFieldType = af_typeId f, gd_inputFieldNullable = af_nullable f\<rparr>
     in case af_typeId f of
          Ty_Utf8 \<Rightarrow> STRING_COLUMN (GridColumn.extend c \<lparr>sg_statsFields = None, sg_valueIdFieldName = None\<rparr>)
        | Ty_LargeUtf8 \<Rightarrow> STRING_COLUMN (GridColumn.extend c \<lparr>sg_statsFields = None, sg_valueIdFieldName = None\<rparr>)
        | Ty_List \<Rightarrow> LIST_COLUMN (GridColumn.extend c \<lparr>lg_statsFields = None, lg_valueIdFieldName = None, lg_umapProjection = None\<rparr>)
        | Ty_FixedSizeList \<Rightarrow> LIST_COLUMN (GridColumn.extend c \<lparr>lg_statsFields = None, lg_valueIdFieldName = None, lg_umapProjection = None\<rparr>)
        | Ty_Other _ \<Rightarrow> SKIPPED_COLUMN c
        | _ \<Rightarrow> ORDINAL_COLUMN (GridColumn.extend c \<lparr>og_statsFields = None, og_binFieldName = None, og_binCount = BIN_COUNT\<rparr>))"

definition buildGridColumnGroups :: "ArrowTable \<Rightarrow> ColumnGroup list" where
  "buildGridColumnGroups table = map column_group (at_fields table)"

section \<open>Names of system columns\<close>

function unique_name :: "string list \<Rightarrow> string \<Rightarrow> string" where
  "unique_name used name = (if name \<in> set used then unique_name used (''_'' @ name) else name)"
  by auto

termination
proof (relation "measure (\<lambda>(used, name). card {n \<in> set used. length name \<le> length n})")
  fix used :: "string list" and name :: string
  assume "name \<in> set used"
  then have "name \<in> {n \<in> set used. length name \<le> length n}" "name \<notin> {n \<in> set used. length (''_'' @ name) \<le> length n}"
    "{n \<in> set used. length (''_'' @ name) \<le> length n} \<subseteq> {n \<in> set used. length name \<le> length n}" by auto
  then have "{n \<in> set used. length (''_'' @ name) \<le> length n} \<subset> {n \<in> set used. length name \<le> length n}" by blast
  then have "card {n \<in> set used. length (''_'' @ name) \<le> length n} < card {n \<in> set used. length name \<le> length n}"
    by (intro psubset_card_mono) auto
  then show "((used, ''_'' @ name), (used, name)) \<in> measure (\<lambda>(used, name). card {n \<in> set used. length name \<le> length n})" by simp
qed simp

declare unique_name.simps [simp del]

text \<open>The set of field names, with the chosen name added.\<close>

definition createUniqueColumnName :: "string \<Rightarrow> string list \<Rightarrow> string \<times> string list" where
  "createUniqueColumnName pre used = (let n = unique_name used pre in (n, used @ [n]))"

lemma unique_name_fresh: "unique_name used name \<notin> set used"
  by (induction used name rule: unique_name.induct) (subst unique_name.simps, simp)

text \<open>One column of \<^verbatim>\<open>buildSystemColumnSQLFrame\<close>: the frame, the field names and the new group. Missing statistics of an
  ordinal column throw.\<close>

type_synonym system_acc = "SQLFrame \<times> string list \<times> ColumnGroup list"

definition system_column :: "TableAggregation \<Rightarrow> nat \<times> ColumnGroup \<Rightarrow> system_acc \<Rightarrow> system_acc option" where
  "system_column agg x acc = (case x of (i, column) \<Rightarrow> (case acc of (frame, used, done_groups) \<Rightarrow>
    (case column of
       ORDINAL_COLUMN c \<Rightarrow> (case og_statsFields c of None \<Rightarrow> None
         | Some st \<Rightarrow>
           (let (binName, used) = createUniqueColumnName (''_'' @ nat_text i @ ''_bin'') used
            in (case (cs_minAggregateFieldName st, cs_maxAggregateFieldName st) of
                (Some mi, Some ma) \<Rightarrow> Some (frame_binning \<lparr>bn_fieldName = gd_inputFieldName c,
                    bn_statsTable = df_tableName (ta_dataFrame agg), bn_statsMinField = mi, bn_statsMaxField = ma,
                    bn_binCount = og_binCount c, bn_outputAlias = binName,
                    bn_toNumericFn = (if isTemporalType (gd_inputFieldType c) then Some ''EPOCH'' else None)\<rparr> frame,
                  used, done_groups @ [ORDINAL_COLUMN (c\<lparr>og_binFieldName := Some binName\<rparr>)])
              | _ \<Rightarrow> None)))
     | STRING_COLUMN c \<Rightarrow>
         (let (idName, used) = createUniqueColumnName (''_'' @ nat_text i @ ''_id'') used
          in Some (frame_valueIdentifier (gd_inputFieldName c) idName frame, used,
               done_groups @ [STRING_COLUMN (c\<lparr>sg_valueIdFieldName := Some idName\<rparr>)]))
     | g \<Rightarrow> Some (frame, used, done_groups @ [g]))))"

fun system_columns :: "TableAggregation \<Rightarrow> (nat \<times> ColumnGroup) list \<Rightarrow> system_acc \<Rightarrow> system_acc option" where
  "system_columns agg [] acc = Some acc"
| "system_columns agg (x # xs) acc = Option.bind (system_column agg x acc) (system_columns agg xs)"

definition ascending :: "string \<Rightarrow> OrderByConstraint" where
  "ascending f = \<lparr>ob_field = f, ob_ascending = Some True, ob_nullsFirst = None\<rparr>"

definition buildSystemColumnSQLFrame ::
  "ArrowTable \<Rightarrow> ColumnGroup list \<Rightarrow> string \<Rightarrow> TableAggregation \<Rightarrow> (SQLFrame \<times> ColumnGroup list) option" where
  "buildSystemColumnSQLFrame table columns inputTableName agg =
    (let (rn, used) = createUniqueColumnName ''_rownum'' (map af_name (at_fields table));
         frame = frame_rowNumber rn (frame_from inputTableName)
     in map_option (\<lambda>(frame, used, groups). (frame_orderBy [ascending rn] None frame, groups))
          (system_columns agg (zip [1..<length columns + 1] columns) (frame, used, [ROWNUMBER_COLUMN rn])))"

section \<open>Aggregation of tables and columns\<close>

definition aggregate_of :: "string option \<Rightarrow> string \<Rightarrow> AggFunc \<Rightarrow> bool option \<Rightarrow> GroupByAggregate" where
  "aggregate_of f alias fn d = \<lparr>ga_fieldName = f, ga_outputAlias = alias, ga_func = fn, ga_distinct = d\<rparr>"

definition stat_name :: "nat \<Rightarrow> string \<Rightarrow> string" where
  "stat_name i suffix = ''_'' @ nat_text i @ suffix"

definition entry_aggregates :: "nat \<Rightarrow> ColumnGroup \<Rightarrow> GroupByAggregate list" where
  "entry_aggregates i e = (case e of
     ORDINAL_COLUMN c \<Rightarrow> [aggregate_of (Some (gd_inputFieldName c)) (stat_name i ''_count'') Agg_count None,
        aggregate_of (Some (gd_inputFieldName c)) (stat_name i ''_min'') Agg_min None,
        aggregate_of (Some (gd_inputFieldName c)) (stat_name i ''_max'') Agg_max None]
   | STRING_COLUMN c \<Rightarrow> [aggregate_of (Some (gd_inputFieldName c)) (stat_name i ''_count'') Agg_count None,
        aggregate_of (Some (gd_inputFieldName c)) (stat_name i ''_countd'') Agg_count (Some True)]
   | _ \<Rightarrow> [])"

definition entry_with_stats :: "nat \<Rightarrow> ColumnGroup \<Rightarrow> ColumnGroup" where
  "entry_with_stats i e = (case e of
     ORDINAL_COLUMN c \<Rightarrow> ORDINAL_COLUMN (c\<lparr>og_statsFields := Some \<lparr>cs_countFieldName = stat_name i ''_count'',
        cs_distinctCountFieldName = None, cs_minAggregateFieldName = Some (stat_name i ''_min''),
        cs_maxAggregateFieldName = Some (stat_name i ''_max'')\<rparr>\<rparr>)
   | STRING_COLUMN c \<Rightarrow> STRING_COLUMN (c\<lparr>sg_statsFields := Some \<lparr>cs_countFieldName = stat_name i ''_count'',
        cs_distinctCountFieldName = Some (stat_name i ''_countd''), cs_minAggregateFieldName = None,
        cs_maxAggregateFieldName = None\<rparr>\<rparr>)
   | _ \<Rightarrow> e)"

definition buildTableAggregationSQL :: "(rat \<Rightarrow> string) \<Rightarrow> TableAggregationTask \<Rightarrow> (string \<times> ColumnGroup list \<times> string) option" where
  "buildTableAggregationSQL num task =
    (let entries = zip [0..<length (ak_columnEntries task)] (ak_columnEntries task);
         aggs = aggregate_of None ''_count'' Agg_count_star None # concat (map (\<lambda>(i, e). entry_aggregates i e) entries)
     in map_option (\<lambda>sql. (sql, map (\<lambda>(i, e). entry_with_stats i e) entries, ''_count''))
          (toSQL num (frame_groupBy \<lparr>gc_keys = [], gc_aggregates = aggs\<rparr> (frame_from (df_tableName (ak_inputDataFrame task))))))"

text \<open>The first field of a table, which throws for a table without fields.\<close>

definition first_field :: "ArrowTable \<Rightarrow> string option" where
  "first_field t = (case at_fields t of [] \<Rightarrow> None | f # _ \<Rightarrow> Some (af_name f))"

definition group_stats :: "ColumnGroup \<Rightarrow> ColumnStatsFields option" where
  "group_stats g = (case g of ORDINAL_COLUMN c \<Rightarrow> og_statsFields c | STRING_COLUMN c \<Rightarrow> sg_statsFields c
     | LIST_COLUMN c \<Rightarrow> lg_statsFields c | _ \<Rightarrow> None)"

definition filtered_frame :: "FilterTable option \<Rightarrow> SQLFrame \<Rightarrow> SQLFrame option" where
  "filtered_frame ft frame = (case ft of None \<Rightarrow> Some frame
    | Some ft \<Rightarrow> map_option (\<lambda>f. frame_semiJoinFilter (ft_inputRowNumberColumnName ft) (df_tableName (ft_dataFrame ft)) f frame)
        (first_field (ft_dataTable ft)))"

definition ordinal_key :: "OrdinalGridColumnGroup \<Rightarrow> ColumnStatsFields \<Rightarrow> TableAggregation \<Rightarrow> GroupByKey option" where
  "ordinal_key c st agg = (case (cs_minAggregateFieldName st, cs_maxAggregateFieldName st) of
     (Some mi, Some ma) \<Rightarrow> Some \<lparr>gb_fieldName = gd_inputFieldName c, gb_outputAlias = ''bin'', gb_binning = Some
       \<lparr>gk_preBinnedFieldName = og_binFieldName c, gk_binCount = BIN_COUNT, gk_statsTable = df_tableName (ta_dataFrame agg),
        gk_statsMinField = mi, gk_statsMaxField = ma, gk_outputBinLbAlias = ''binLowerBound'',
        gk_outputBinUbAlias = ''binUpperBound'', gk_outputBinWidthAlias = ''binWidth'', gk_includeNullBin = Some True,
        gk_toNumericFn = (if isTemporalType (gd_inputFieldType c) then Some ''EPOCH'' else None)\<rparr>\<rparr>
   | _ \<Rightarrow> None)"

definition count_star :: GroupByAggregate where
  "count_star = aggregate_of None ''count'' Agg_count_star None"

definition column_frame :: "'a ColumnAggregationTask_scheme \<Rightarrow> FilterTable option \<Rightarrow> SQLFrame option" where
  "column_frame task ft = (case group_stats (ck_columnEntry task) of None \<Rightarrow> None
    | Some st \<Rightarrow> Option.bind (filtered_frame ft (frame_from (df_tableName (ck_inputDataFrame task)))) (\<lambda>frame.
      case ck_columnEntry task of
        ORDINAL_COLUMN c \<Rightarrow> map_option (\<lambda>k. frame_orderBy [ascending ''bin''] None
            (frame_groupBy \<lparr>gc_keys = [k], gc_aggregates = [count_star]\<rparr> frame)) (ordinal_key c st (ck_tableAggregate task))
      | STRING_COLUMN c \<Rightarrow> map_option (\<lambda>idName. frame_orderBy
            [\<lparr>ob_field = ''count'', ob_ascending = Some False, ob_nullsFirst = None\<rparr>] (Some 32)
            (frame_groupBy \<lparr>gc_keys = [\<lparr>gb_fieldName = gd_inputFieldName c, gb_outputAlias = ''key'', gb_binning = None\<rparr>,
                \<lparr>gb_fieldName = idName, gb_outputAlias = ''keyId'', gb_binning = None\<rparr>], gc_aggregates = [count_star]\<rparr> frame))
            (sg_valueIdFieldName c)
      | _ \<Rightarrow> Some frame))"

definition buildColumnAggregationSQL ::
  "(rat \<Rightarrow> string) \<Rightarrow> 'a ColumnAggregationTask_scheme \<Rightarrow> FilterTable option \<Rightarrow> string option" where
  "buildColumnAggregationSQL num task ft = Option.bind (column_frame task ft) (toSQL num)"

definition filter_frame :: "TableFilteringTask \<Rightarrow> SQLFrame" where
  "filter_frame task = frame_project [fk_rowNumberColumnName task]
     (fold (\<lambda>f. frame_filter (fl_fieldName f) (fl_op f) (fl_value f)) (fk_filters task)
       (frame_from (df_tableName (fk_inputDataFrame task))))"

definition sort_frame :: "TableOrderingTask \<Rightarrow> SQLFrame option" where
  "sort_frame task =
    (let frame = frame_from (df_tableName (ok_inputDataFrame task));
         filtered = (case ok_filterTable task of None \<Rightarrow> Some frame
           | Some ft \<Rightarrow> map_option (\<lambda>f. frame_semiJoinFilter (ok_rowNumberColumnName task) (df_tableName (ft_dataFrame ft)) f frame)
               (first_field (ft_dataTable ft)))
     in map_option (\<lambda>f. frame_project [ok_rowNumberColumnName task] (frame_orderBy (ok_orderingConstraints task) None f)) filtered)"

section \<open>Reading aggregates\<close>

text \<open>\<open>rd_int\<close> is \<^verbatim>\<open>vector.get(row)\<close> of the column at an index, \<open>rd_text\<close> is \<^verbatim>\<open>formatter.getValue(row, column)\<close>, and
  \<open>rd_time\<close> is the cell as a formatted date.\<close>

record TableReader =
  rd_int :: "ArrowTable \<Rightarrow> nat \<Rightarrow> nat \<Rightarrow> int option"
  rd_text :: "ArrowTable \<Rightarrow> nat \<Rightarrow> nat \<Rightarrow> string option"
  rd_time :: "ArrowTable \<Rightarrow> nat \<Rightarrow> nat \<Rightarrow> string option"

definition or_default :: "'a \<Rightarrow> 'a option \<Rightarrow> 'a" where
  "or_default d x = (case x of None \<Rightarrow> d | Some y \<Rightarrow> y)"

text \<open>\<^verbatim>\<open>table.getChild(name)\<close>: the first column of the name.\<close>

definition child_index :: "ArrowTable \<Rightarrow> string \<Rightarrow> nat option" where
  "child_index t n = map_option fst (find (\<lambda>(i, f). af_name f = n) (zip [0..<length (at_fields t)] (at_fields t)))"

definition first_int :: "TableReader \<Rightarrow> ArrowTable \<Rightarrow> string \<Rightarrow> int option" where
  "first_int rd t n = map_option (\<lambda>c. or_default 0 (rd_int rd t c 0)) (child_index t n)"

definition percentage :: "int \<Rightarrow> int \<Rightarrow> rat" where
  "percentage n total_count = (if total_count = 0 then 0 else of_int n / of_int total_count)"

text \<open>\<^verbatim>\<open>None\<close>: a missing column or missing statistics throw.\<close>

definition analyzeOrdinalColumn :: "TableReader \<Rightarrow> TableAggregation \<Rightarrow> OrdinalGridColumnGroup \<Rightarrow> ArrowTable \<Rightarrow> int option \<Rightarrow>
    OrdinalColumnAnalysis option" where
  "analyzeOrdinalColumn rd summary entry binned filteredTotal =
    Option.bind (first_int rd (ta_table summary) (ta_countStarFieldName summary)) (\<lambda>unfilteredTotal.
    Option.bind (og_statsFields entry) (\<lambda>st.
    Option.bind (Option.bind (cs_minAggregateFieldName st) (js_get (ta_tableFieldsByName summary))) (\<lambda>minField.
    Option.bind (Option.bind (cs_maxAggregateFieldName st) (js_get (ta_tableFieldsByName summary))) (\<lambda>maxField.
    if length (at_fields binned) < 4 then None
    else
      (let totalCount = or_default unfilteredTotal filteredTotal;
           rows = at_numRows binned;
           countNull = (if rows = 0 then 0 else or_default 0 (rd_int rd binned 1 (rows - 1)));
           binCount = (\<lambda>i. or_default 0 (rd_int rd binned 1 i));
           lower = (\<lambda>i. or_default '''' (if isTemporalType (gd_inputFieldType entry) then rd_time rd binned 3 i else rd_text rd binned i 3))
       in Some \<lparr>oa_totalCount = totalCount,
            oa_countNotNull = (if filteredTotal = None then totalCount - countNull else unfilteredTotal - countNull),
            oa_countNull = countNull,
            oa_minValue = or_default '''' (rd_text rd (ta_table summary) 0 minField),
            oa_maxValue = or_default '''' (rd_text rd (ta_table summary) 0 maxField),
            oa_binCount = BIN_COUNT, oa_binValueCounts = map binCount [0..<BIN_COUNT],
            oa_binPercentages = map (\<lambda>i. percentage (binCount i) totalCount) [0..<BIN_COUNT],
            oa_binLowerBounds = map lower [0..<BIN_COUNT]\<rparr>)))))"

definition analyzeStringColumn :: "TableReader \<Rightarrow> TableAggregation \<Rightarrow> StringGridColumnGroup \<Rightarrow> ArrowTable \<Rightarrow> int option \<Rightarrow>
    StringColumnAnalysis option" where
  "analyzeStringColumn rd summary entry frequent filteredTotal =
    Option.bind (sg_statsFields entry) (\<lambda>st.
    Option.bind (first_int rd (ta_table summary) (ta_countStarFieldName summary)) (\<lambda>unfilteredTotal.
    Option.bind (first_int rd (ta_table summary) (cs_countFieldName st)) (\<lambda>notNull.
    Option.bind (Option.bind (cs_distinctCountFieldName st) (first_int rd (ta_table summary))) (\<lambda>distinctCount.
    Option.bind (child_index frequent ''count'') (\<lambda>countCol.
    Option.bind (child_index frequent ''keyId'') (\<lambda>idCol.
      (let totalCount = or_default unfilteredTotal filteredTotal;
           count_at = (\<lambda>i. or_default 0 (rd_int rd frequent countCol i))
       in Some \<lparr>sa_totalCount = totalCount, sa_countNotNull = notNull, sa_countNull = unfilteredTotal - notNull,
            sa_countDistinct = distinctCount, sa_isUnique = (notNull = distinctCount),
            sa_frequentValueStrings = map (\<lambda>i. rd_text rd frequent i 0) [0..<at_numRows frequent],
            sa_frequentValueIds = map (\<lambda>i. or_default 0 (rd_int rd frequent idCol i)) [0..<at_numRows frequent],
            sa_frequentValueCounts = map count_at [0..<at_numRows frequent],
            sa_frequentValuePercentages = map (\<lambda>i. percentage (count_at i) totalCount) [0..<at_numRows frequent]\<rparr>)))))))"

section \<open>The tasks\<close>

text \<open>What a task throws: an error of the logger's class, kept as it is, or any other one, replaced by one of this text.
  Errors outside of the \<^verbatim>\<open>try\<close> blocks are raw.\<close>

datatype LogicError = LoggableError handle | WrappedError string | RawError | NotAggregatable string

text \<open>The answer of the database to a SQL text: an error that is loggable or not, or the new frame and its table.\<close>

type_synonym Database = "string \<Rightarrow> handle option + (DataFrame \<times> ArrowTable)"

definition run_sql :: "Database \<Rightarrow> string \<Rightarrow> string option \<Rightarrow> LogicError + (DataFrame \<times> ArrowTable)" where
  "run_sql db msg sql = (case sql of None \<Rightarrow> Inl (WrappedError msg)
    | Some text \<Rightarrow> (case db text of Inl (Some e) \<Rightarrow> Inl (LoggableError e) | Inl None \<Rightarrow> Inl (WrappedError msg) | Inr r \<Rightarrow> Inr r))"

fun map_result :: "('a \<Rightarrow> 'b) \<Rightarrow> 'e + 'a \<Rightarrow> 'e + 'b" where
  "map_result f (Inl e) = Inl e"
| "map_result f (Inr x) = Inr (f x)"

definition filterTable :: "(rat \<Rightarrow> string) \<Rightarrow> Database \<Rightarrow> TableFilteringTask \<Rightarrow> LogicError + FilterTable option" where
  "filterTable num db task = (if fk_filters task = [] then Inr None
    else map_result (\<lambda>(df, t). Some \<lparr>ft_inputRowNumberColumnName = fk_rowNumberColumnName task, ft_dataTable = t,
            ft_dataFrame = df, ft_version = fk_tableVersion task\<rparr>)
      (run_sql db ''Failed to filter table'' (toSQL num (filter_frame task))))"

text \<open>\<^verbatim>\<open>sortTable\<close> reads the field of a single constraint for its log message; more or none get another message.\<close>

definition sortTable :: "(rat \<Rightarrow> string) \<Rightarrow> Database \<Rightarrow> TableOrderingTask \<Rightarrow> LogicError + OrderingTable" where
  "sortTable num db task =
    map_result (\<lambda>(df, t). \<lparr>ot_inputRowNumberColumnName = ok_rowNumberColumnName task,
        ot_orderingConstraints = ok_orderingConstraints task, ot_dataTable = t, ot_dataFrame = df, ot_version = ok_tableVersion task\<rparr>)
      (run_sql db ''Sorting table failed'' (Option.bind (sort_frame task) (toSQL num)))"

definition computeTableAggregates :: "(rat \<Rightarrow> string) \<Rightarrow> Database \<Rightarrow> (ArrowTable \<Rightarrow> handle) \<Rightarrow> TableAggregationTask \<Rightarrow>
    LogicError + (TableAggregation \<times> ColumnGroup list)" where
  "computeTableAggregates num db formatter task = (case buildTableAggregationSQL num task of None \<Rightarrow> Inl RawError
    | Some (sql, entries, countName) \<Rightarrow>
        map_result (\<lambda>(df, t). (\<lparr>ta_dataFrame = df, ta_table = t, ta_tableFieldsByName = createArrowFieldIndex t,
            ta_tableFormatter = formatter t, ta_countStarFieldName = countName\<rparr>, entries))
          (run_sql db ''computing aggregate failed'' (Some sql)))"

definition computeSystemColumns :: "(rat \<Rightarrow> string) \<Rightarrow> Database \<Rightarrow> SystemColumnComputationTask \<Rightarrow>
    LogicError + (ArrowTable \<times> DataFrame \<times> ColumnGroup list)" where
  "computeSystemColumns num db task =
    (case buildSystemColumnSQLFrame (yk_inputTable task) (yk_columnEntries task) (df_tableName (yk_inputDataFrame task)) (yk_tableAggregate task) of
       None \<Rightarrow> Inl (WrappedError ''Failed to precompute column'')
     | Some (frame, groups) \<Rightarrow>
         map_result (\<lambda>(df, t). (t, df, groups)) (run_sql db ''Failed to precompute column'' (toSQL num frame)))"

text \<open>The aggregate of a column from the table of its aggregation.\<close>

definition column_aggregate :: "TableReader \<Rightarrow> (ArrowTable \<Rightarrow> handle) \<Rightarrow> TableAggregation \<Rightarrow> ColumnGroup \<Rightarrow> int option \<Rightarrow> DataFrame \<Rightarrow> ArrowTable \<Rightarrow>
    ColumnAggregationVariant option" where
  "column_aggregate rd formatter agg g filteredTotal df t = (case g of
     ORDINAL_COLUMN c \<Rightarrow> map_option (\<lambda>an. ORDINAL_AGGREGATION \<lparr>oc_columnEntry = c, oc_binnedDataFrame = df, oc_binnedValues = t,
         oc_binnedValuesFormatter = formatter t, oc_columnAnalysis = an\<rparr>) (analyzeOrdinalColumn rd agg c t filteredTotal)
   | STRING_COLUMN c \<Rightarrow> map_option (\<lambda>an. STRING_AGGREGATION \<lparr>sc_columnEntry = c, sc_frequentValuesDataFrame = df,
         sc_frequentValuesTable = t, sc_frequentValuesFormatter = formatter t, sc_analysis = an\<rparr>)
         (analyzeStringColumn rd agg c t filteredTotal)
   | _ \<Rightarrow> None)"

definition aggregatable :: "ColumnGroup \<Rightarrow> bool" where
  "aggregatable g \<longleftrightarrow> (case g of ORDINAL_COLUMN _ \<Rightarrow> True | STRING_COLUMN _ \<Rightarrow> True | _ \<Rightarrow> False)"

definition aggregate_column :: "(rat \<Rightarrow> string) \<Rightarrow> Database \<Rightarrow> TableReader \<Rightarrow> (ArrowTable \<Rightarrow> handle) \<Rightarrow> string \<Rightarrow>
    'a ColumnAggregationTask_scheme \<Rightarrow> FilterTable option \<Rightarrow> LogicError + ColumnAggregationVariant" where
  "aggregate_column num db rd formatter msg task ft =
    (if \<not> aggregatable (ck_columnEntry task) then Inl (NotAggregatable (getGridColumnTypeName (ck_columnEntry task)))
     else (case buildColumnAggregationSQL num task ft of None \<Rightarrow> Inl RawError
       | Some sql \<Rightarrow> (case run_sql db msg (Some sql) of Inl e \<Rightarrow> Inl e
          | Inr (df, t) \<Rightarrow> (case column_aggregate rd formatter (ck_tableAggregate task) (ck_columnEntry task)
                  (map_option (\<lambda>ft. int (at_numRows (ft_dataTable ft))) ft) df t of
              None \<Rightarrow> Inl (WrappedError msg) | Some a \<Rightarrow> Inr a))))"

definition computeColumnAggregates :: "(rat \<Rightarrow> string) \<Rightarrow> Database \<Rightarrow> TableReader \<Rightarrow> (ArrowTable \<Rightarrow> handle) \<Rightarrow> ColumnAggregationTask \<Rightarrow>
    LogicError + ColumnAggregationVariant" where
  "computeColumnAggregates num db rd formatter task =
    aggregate_column num db rd formatter ''Computing column aggregate failed'' task None"

definition computeFilteredColumnAggregates :: "(rat \<Rightarrow> string) \<Rightarrow> Database \<Rightarrow> TableReader \<Rightarrow> (ArrowTable \<Rightarrow> handle) \<Rightarrow>
    FilteredColumnAggregationTask \<Rightarrow> LogicError + FilteredColumnAggregation option" where
  "computeFilteredColumnAggregates num db rd formatter task =
    map_result (\<lambda>a. Some \<lparr>fa_aggregate = a, fa_filterVersion = ft_version (wk_filterTable task)\<rparr>)
      (aggregate_column num db rd formatter ''Failed to compute filtered column aggregate'' task (Some (wk_filterTable task)))"

end
