(* ===== verification/Compute_Scheduler.thy ===== *)
theory Compute_Scheduler
  imports Compute_Logic
begin

text \<open>The scheduler of computations (\<^verbatim>\<open>compute/computation_scheduler.tsx\<close>), the analysis of a query result
  (\<^verbatim>\<open>analyzeTable\<close> of \<^verbatim>\<open>compute/computation_logic.ts\<close>), and the queue of filter requests of
  \<^verbatim>\<open>view/query_result/use_cross_filters.ts\<close>.\<close>

section \<open>Processing a task\<close>

datatype TaskResult =
    R_filter "FilterTable option"
  | R_order OrderingTable
  | R_aggregate TableAggregation "ColumnGroup list"
  | R_system ArrowTable DataFrame "ColumnGroup list"
  | R_column ColumnAggregationVariant
  | R_filtered "FilteredColumnAggregation option"

record ComputeEnv =
  ce_num :: "rat \<Rightarrow> string"
  ce_db :: Database
  ce_reader :: TableReader
  ce_formatter :: "ArrowTable \<Rightarrow> handle"
  ce_error :: "LogicError \<Rightarrow> handle"

fun run_logic :: "ComputeEnv \<Rightarrow> TaskKind \<Rightarrow> LogicError + TaskResult" where
  "run_logic e (TABLE_FILTERING_TASK t) = map_result R_filter (filterTable (ce_num e) (ce_db e) t)"
| "run_logic e (TABLE_ORDERING_TASK t) = map_result R_order (sortTable (ce_num e) (ce_db e) t)"
| "run_logic e (TABLE_AGGREGATION_TASK t) =
     map_result (\<lambda>(a, gs). R_aggregate a gs) (computeTableAggregates (ce_num e) (ce_db e) (ce_formatter e) t)"
| "run_logic e (SYSTEM_COLUMN_COMPUTATION_TASK t) =
     map_result (\<lambda>(tb, df, gs). R_system tb df gs) (computeSystemColumns (ce_num e) (ce_db e) t)"
| "run_logic e (COLUMN_AGGREGATION_TASK t) =
     map_result R_column (computeColumnAggregates (ce_num e) (ce_db e) (ce_reader e) (ce_formatter e) t)"
| "run_logic e (FILTERED_COLUMN_AGGREGATION_TASK t) =
     map_result R_filtered (computeFilteredColumnAggregates (ce_num e) (ce_db e) (ce_reader e) (ce_formatter e) t)"

fun success_action :: "TaskKind \<Rightarrow> TaskResult \<Rightarrow> ComputationAction list" where
  "success_action (TABLE_FILTERING_TASK t) (R_filter f) = [TABLE_FILTERING_SUCCEEDED (fk_tableId t) (fk_tableVersion t) f]"
| "success_action (TABLE_ORDERING_TASK t) (R_order x) = [TABLE_ORDERING_SUCCEDED (ok_tableId t) x]"
| "success_action (TABLE_AGGREGATION_TASK t) (R_aggregate a gs) = [TABLE_AGGREGATION_SUCCEEDED (ak_tableId t) a]"
| "success_action (SYSTEM_COLUMN_COMPUTATION_TASK t) (R_system tb df gs) = [SYSTEM_COLUMN_COMPUTATION_SUCCEEDED (yk_tableId t) tb df gs]"
| "success_action (COLUMN_AGGREGATION_TASK t) (R_column a) = [COLUMN_AGGREGATION_SUCCEEDED (ck_tableId t) (ck_columnId t) a]"
| "success_action (FILTERED_COLUMN_AGGREGATION_TASK t) (R_filtered a) =
     [FILTERED_COLUMN_AGGREGATION_SUCCEEDED (ck_tableId t) (ck_columnId t) (ft_version (wk_filterTable t)) a]"
| "success_action _ _ = []"

definition running_progress :: "timestamp \<Rightarrow> TaskProgress" where
  "running_progress now = \<lparr>tp_status = Some TASK_RUNNING, tp_startedAt = Some now, tp_completedAt = Some None,
     tp_failedAt = Some None, tp_failedWithError = Some None\<rparr>"

text \<open>The actions a task dispatches and what its promise is settled with; nothing without a task id. A failed task
  stays registered.\<close>

definition processTask :: "ComputeEnv \<Rightarrow> timestamp \<Rightarrow> timestamp \<Rightarrow> TaskVariant \<Rightarrow>
    ComputationAction list \<times> (LogicError + TaskResult) option" where
  "processTask e started failed task = (if tv_taskId task = None then ([], None)
    else (case run_logic e (tv_task task) of
      Inr r \<Rightarrow> ([UPDATE_SCHEDULER_TASK task (running_progress started)] @ success_action (tv_task task) r @
          [UNREGISTER_SCHEDULER_TASK task], Some (Inr r))
    | Inl err \<Rightarrow> ([UPDATE_SCHEDULER_TASK task (running_progress started),
          UPDATE_SCHEDULER_TASK task ((running_progress started)\<lparr>tp_status := Some TASK_FAILED,
            tp_failedAt := Some (Some failed), tp_failedWithError := Some (Some (ce_error e err))\<rparr>)], Some (Inl err))))"

text \<open>The effect after a render: the tasks to launch, in ascending order of their ids, and the launched ids that are
  remembered.\<close>

definition scheduler_effect :: "nat list \<Rightarrow> ComputationState \<Rightarrow> nat list \<times> nat list" where
  "scheduler_effect launched s =
    (let new_ids = filter (\<lambda>i. i \<notin> set launched) (sort (js_keys (cp_schedulerTasks s)))
     in (filter (\<lambda>i. js_has (cp_schedulerTasks s) i) (launched @ new_ids), new_ids))"

section \<open>The analysis of a query result\<close>

text \<open>\<^verbatim>\<open>analyzeTable\<close> dispatches actions, inserts the table in the database, and awaits scheduled tasks. A rejected
  promise ends it with the exception.\<close>

datatype analysis =
    An_dispatch ComputationAction analysis
  | An_insert ArrowTable "DataFrame \<Rightarrow> analysis"
  | An_task TaskKind "TaskResult \<Rightarrow> analysis"
  | An_return

definition version_zero :: ComputationStateVersion where
  "version_zero = \<lparr>cv_data = 0, cv_filter = 0\<rparr>"

fun analyze_columns :: "nat \<Rightarrow> TableAggregation \<Rightarrow> DataFrame \<Rightarrow> (nat \<times> ColumnGroup) list \<Rightarrow> analysis" where
  "analyze_columns tid agg df [] = An_return"
| "analyze_columns tid agg df ((c, g) # cs) =
    (if aggregatable g
     then An_task (COLUMN_AGGREGATION_TASK \<lparr>ck_tableId = tid, ck_tableVersion = version_zero, ck_columnId = c,
          ck_columnEntry = g, ck_inputDataFrame = df, ck_tableAggregate = agg\<rparr>) (\<lambda>_. analyze_columns tid agg df cs)
     else analyze_columns tid agg df cs)"

definition analyze_system :: "nat \<Rightarrow> TableAggregation \<Rightarrow> TaskResult \<Rightarrow> analysis" where
  "analyze_system tid agg r = (case r of
     R_system table df groups \<Rightarrow> analyze_columns tid agg df (zip [0..<length groups] groups)
   | _ \<Rightarrow> An_return)"

definition analyze_aggregated :: "nat \<Rightarrow> ArrowTable \<Rightarrow> DataFrame \<Rightarrow> TaskResult \<Rightarrow> analysis" where
  "analyze_aggregated tid table df r = (case r of
     R_aggregate agg groups \<Rightarrow> An_task (SYSTEM_COLUMN_COMPUTATION_TASK \<lparr>yk_tableId = tid, yk_tableVersion = version_zero,
         yk_columnEntries = groups, yk_inputTable = table, yk_inputDataFrame = df, yk_tableAggregate = agg\<rparr>)
       (analyze_system tid agg)
   | _ \<Rightarrow> An_return)"

definition analyzeTable :: "nat \<Rightarrow> ArrowTable \<Rightarrow> handle \<Rightarrow> analysis" where
  "analyzeTable tid table life =
    (let groups = buildGridColumnGroups table
     in An_dispatch (COMPUTATION_FROM_QUERY_RESULT tid table groups life)
       (An_insert table (\<lambda>df. An_dispatch (CREATED_DATA_FRAME tid df)
         (An_task (TABLE_AGGREGATION_TASK \<lparr>ak_tableId = tid, ak_tableVersion = version_zero, ak_columnEntries = groups,
             ak_inputDataFrame = df\<rparr>) (analyze_aggregated tid table df)))))"

text \<open>An analysis that nothing interleaves with: each awaited task is launched by the scheduler. It returns, fails with
  a rejected promise, throws in the reducer, or waits forever for a task that was not registered.\<close>

datatype analyzed =
    An_done ComputationState DataFrameRegistry
  | An_failed ComputationState DataFrameRegistry
  | An_threw DataFrameRegistry
  | An_waits ComputationState DataFrameRegistry

fun reduce_actions :: "timestamp \<Rightarrow> ComputationAction list \<Rightarrow> ComputationState \<Rightarrow> DataFrameRegistry \<Rightarrow> computed" where
  "reduce_actions now [] s m = Computed s m"
| "reduce_actions now (a # as) s m = (case reduceComputationState now s a m of
     Computed s' m' \<Rightarrow> reduce_actions now as s' m' | Threw m' \<Rightarrow> Threw m')"

primrec run_analysis :: "analysis \<Rightarrow> ComputeEnv \<Rightarrow> (ArrowTable \<Rightarrow> DataFrame option) \<Rightarrow> timestamp \<Rightarrow>
    ComputationState \<Rightarrow> DataFrameRegistry \<Rightarrow> analyzed" where
  "run_analysis An_return = (\<lambda>e ins now s m. An_done s m)"
| "run_analysis (An_dispatch a k) = (\<lambda>e ins now s m. case reduceComputationState now s a m of
     Computed s' m' \<Rightarrow> run_analysis k e ins now s' m' | Threw m' \<Rightarrow> An_threw m')"
| "run_analysis (An_insert t k) = (\<lambda>e ins now s m. case ins t of
     Some df \<Rightarrow> run_analysis (k df) e ins now s m | None \<Rightarrow> An_failed s m)"
| "run_analysis (An_task kd k) = (\<lambda>e ins now s m.
     case reduceComputationState now s (SCHEDULE_TASK \<lparr>tv_task = kd, tv_result = 0, tv_taskId = None\<rparr>) m of
       Threw m' \<Rightarrow> An_threw m'
     | Computed s' m' \<Rightarrow> (case js_get (cp_schedulerTasks s') (cp_nextSchedulerTaskId s) of
         None \<Rightarrow> An_waits s' m'
       | Some task \<Rightarrow> (case processTask e now now task of (actions, settled) \<Rightarrow>
           (case reduce_actions now actions s' m' of
              Threw m'' \<Rightarrow> An_threw m''
            | Computed s'' m'' \<Rightarrow> (case settled of
                Some (Inr r) \<Rightarrow> run_analysis (k r) e ins now s'' m''
              | Some (Inl err) \<Rightarrow> An_failed s'' m''
              | None \<Rightarrow> An_waits s'' m'')))))"

section \<open>The queue of filter requests\<close>

record FilterTaskQueue =
  fq_activeKey :: "string option"
  fq_pending :: "(string \<times> TableFilteringTask) option"

type_synonym FilterQueues = "(nat, FilterTaskQueue) jsmap"

definition scalarFiltersEqual :: "ScalarFilter list \<Rightarrow> ScalarFilter list \<Rightarrow> bool" where
  "scalarFiltersEqual left right \<longleftrightarrow> length left = length right \<and>
     list_all (\<lambda>(a, b). fl_fieldName a = fl_fieldName b \<and> fl_op a = fl_op b \<and> fl_value a = fl_value b) (zip left right)"

definition scalarFiltersKey :: "(rat \<Rightarrow> string) \<Rightarrow> ScalarFilter list \<Rightarrow> string" where
  "scalarFiltersKey num filters = joined [CHR 0x01]
     (map (\<lambda>f. fl_fieldName f @ [CHR 0x00] @ op_text (fl_op f) @ [CHR 0x00] @ num (fl_value f)) filters)"

text \<open>A request: the new queues and the task that is launched, if any.\<close>

definition scheduleLatestFilter :: "string \<Rightarrow> TableFilteringTask \<Rightarrow> FilterQueues \<Rightarrow> FilterQueues \<times> TableFilteringTask option" where
  "scheduleLatestFilter key task queues =
    (let tid = fk_tableId task;
         queue = (case js_get queues tid of Some q \<Rightarrow> q | None \<Rightarrow> \<lparr>fq_activeKey = None, fq_pending = None\<rparr>)
     in if fq_activeKey queue = Some key then (js_set queues tid (queue\<lparr>fq_pending := None\<rparr>), None)
        else if (case fq_pending queue of Some p \<Rightarrow> fst p = key | None \<Rightarrow> False) then (js_set queues tid queue, None)
        else if fq_activeKey queue \<noteq> None then (js_set queues tid (queue\<lparr>fq_pending := Some (key, task)\<rparr>), None)
        else (js_set queues tid (queue\<lparr>fq_activeKey := Some key\<rparr>), Some task))"

text \<open>The \<^verbatim>\<open>finally\<close> handler of the launched task.\<close>

definition filter_settled :: "nat \<Rightarrow> FilterQueues \<Rightarrow> FilterQueues \<times> TableFilteringTask option" where
  "filter_settled tid queues = (case js_get queues tid of None \<Rightarrow> (queues, None)
    | Some queue \<Rightarrow> (case fq_pending queue of
        Some (key, task) \<Rightarrow> (js_set queues tid \<lparr>fq_activeKey = Some key, fq_pending = None\<rparr>, Some task)
      | None \<Rightarrow> (js_delete queues tid, None)))"

text \<open>The filter effect of \<^verbatim>\<open>useCrossFilters\<close>: the request it makes for the current selection.\<close>

definition filter_request :: "(rat \<Rightarrow> string) \<Rightarrow> TableComputationState \<Rightarrow> (string \<times> TableFilteringTask) option" where
  "filter_request num ts = (case (tc_dataFrame ts, tc_rowNumberColumnName ts) of
     (Some df, Some rn) \<Rightarrow> (if rn = '''' then None else
       (let transforms = createFilterTransforms (tc_crossFilters ts);
            task = tt_filteringTask (tc_tasks ts);
            upToDate = (case (tc_filterTable ts, task) of
                (Some ft, Some t) \<Rightarrow> filterMatches (ft_version ft) (tc_version ts) \<and> scalarFiltersEqual (fk_filters (wp_task t)) transforms
              | _ \<Rightarrow> False);
            running = (case task of None \<Rightarrow> False
              | Some t \<Rightarrow> tp_status (wp_progress t) = Some TASK_RUNNING \<and> filterMatches (fk_tableVersion (wp_task t)) (tc_version ts) \<and>
                  scalarFiltersEqual (fk_filters (wp_task t)) transforms)
        in if upToDate \<or> (transforms = [] \<and> tc_filterTable ts = None) \<or> running then None
           else Some (version_text (tc_version ts) @ '':'' @ scalarFiltersKey num transforms,
             \<lparr>fk_tableId = tc_tableId ts, fk_tableVersion = tc_version ts, fk_inputDataTable = tc_dataTable ts,
              fk_inputDataTableFieldIndex = tc_dataTableFieldsByName ts, fk_inputDataFrame = df,
              fk_rowNumberColumnName = rn, fk_filters = transforms\<rparr>)))
   | _ \<Rightarrow> None)"

text \<open>The callbacks of the column plots: the selection that is set, if any. \<open>groupOf\<close> is the layout's
  \<^verbatim>\<open>columnGroupByColumnIndex\<close>.\<close>

definition histogramFilter :: "nat list \<Rightarrow> TableComputationState option \<Rightarrow> nat \<Rightarrow> (rat \<times> rat) option \<Rightarrow> ComputationAction option" where
  "histogramFilter groupOf table columnIndex brush = (case table of None \<Rightarrow> None | Some ts \<Rightarrow>
    (if \<not> (columnIndex < length groupOf \<and> groupOf ! columnIndex < length (tc_columnGroups ts)) then None
     else (let columnGroupId = groupOf ! columnIndex
       in case tc_columnGroups ts ! columnGroupId of
            ORDINAL_COLUMN g \<Rightarrow> (if containsHistogramFilter columnGroupId brush (tc_crossFilters ts) then None
              else Some (SET_CROSS_FILTERS (tc_tableId ts) (addHistogramFilter columnGroupId g brush (tc_crossFilters ts))))
          | _ \<Rightarrow> None)))"

definition mostFrequentValueFilter :: "nat list \<Rightarrow> TableComputationState option \<Rightarrow> nat \<Rightarrow> rat option \<Rightarrow> ComputationAction option" where
  "mostFrequentValueFilter groupOf table columnIndex frequentValueId = (case table of None \<Rightarrow> None | Some ts \<Rightarrow>
    (if \<not> (columnIndex < length groupOf \<and> groupOf ! columnIndex < length (tc_columnGroups ts)) then None
     else (let columnGroupId = groupOf ! columnIndex
       in case tc_columnGroups ts ! columnGroupId of
            STRING_COLUMN g \<Rightarrow> (if sg_valueIdFieldName g = None then None
              else (let nextValueId = (if containsMostFrequentValueFilter columnGroupId frequentValueId (tc_crossFilters ts) then None
                      else frequentValueId)
                in Some (SET_CROSS_FILTERS (tc_tableId ts) (addMostFrequentValueFilter columnGroupId g nextValueId (tc_crossFilters ts)))))
          | _ \<Rightarrow> None)))"

text \<open>A key that is claimed until its task settles.\<close>

definition claimSchedule :: "string \<Rightarrow> string list \<Rightarrow> string list option" where
  "claimSchedule key schedules = (if key \<in> set schedules then None else Some (schedules @ [key]))"

definition releaseSchedule :: "string \<Rightarrow> string list \<Rightarrow> string list" where
  "releaseSchedule key schedules = filter (\<lambda>k. k \<noteq> key) schedules"

text \<open>The filtered aggregate of a column that is requested: the claimed keys and the task.\<close>

definition requestFilteredColumnAggregation ::
    "TableComputationState option \<Rightarrow> nat \<Rightarrow> string list \<Rightarrow> string list \<times> FilteredColumnAggregationTask option" where
  "requestFilteredColumnAggregation table columnId schedules = (case table of None \<Rightarrow> (schedules, None) | Some ts \<Rightarrow>
    (case (tc_tableAggregation ts, tc_filterTable ts, tc_dataFrame ts, arr_get (tc_columnAggregates ts) columnId) of
      (Some agg, Some ft, Some df, Some unfiltered) \<Rightarrow>
        (if \<not> columnId < length (tc_columnGroups ts) then (schedules, None)
         else if (case arr_get (tt_filteredColumnAggregationTasks (tc_tasks ts)) columnId of None \<Rightarrow> False
              | Some t \<Rightarrow> tp_status (wp_progress t) = Some TASK_RUNNING \<and>
                  filterMatches (ft_version (wk_filterTable (wp_task t))) (ft_version ft)) then (schedules, None)
         else (case claimSchedule (''aggregate:'' @ nat_text (tc_tableId ts) @ '':'' @ nat_text columnId @ '':'' @ version_text (ft_version ft)) schedules of
             None \<Rightarrow> (schedules, None)
           | Some schedules' \<Rightarrow> (schedules', Some \<lparr>ck_tableId = tc_tableId ts, ck_tableVersion = tc_version ts,
               ck_columnId = columnId, ck_columnEntry = tc_columnGroups ts ! columnId, ck_inputDataFrame = df,
               ck_tableAggregate = agg, wk_filterTable = ft, wk_unfilteredAggregate = unfiltered\<rparr>)))
    | _ \<Rightarrow> (schedules, None)))"

section \<open>A round of filtering\<close>

text \<open>One request of the filter effect that nothing interleaves with, from the launch of its task to the state in which
  the effect looks again.\<close>

definition filter_round :: "ComputeEnv \<Rightarrow> timestamp \<Rightarrow> TableFilteringTask \<Rightarrow> ComputationState \<Rightarrow> DataFrameRegistry \<Rightarrow> computed" where
  "filter_round e now task s m =
    (case reduceComputationState now s (SCHEDULE_TASK \<lparr>tv_task = TABLE_FILTERING_TASK task, tv_result = 0, tv_taskId = None\<rparr>) m of
       Threw m' \<Rightarrow> Threw m'
     | Computed s' m' \<Rightarrow> (case js_get (cp_schedulerTasks s') (cp_nextSchedulerTaskId s) of
         None \<Rightarrow> Computed s' m'
       | Some t \<Rightarrow> reduce_actions now (fst (processTask e now now t)) s' m'))"

end
