(* ===== verification/Compute_Properties.thy ===== *)
theory Compute_Properties
  imports Compute_Runs Compute_Scheduler
begin

text \<open>The properties of computations: the memory of data frames, outdated results, the analysis of a query result, the
  names of system columns and the queue of filter requests.\<close>

section \<open>Names of system columns\<close>

definition generated_names :: "ColumnGroup list \<Rightarrow> string list" where
  "generated_names gs = concat (map (\<lambda>g. case g of
     ORDINAL_COLUMN c \<Rightarrow> (case og_binFieldName c of Some n \<Rightarrow> [n] | None \<Rightarrow> [])
   | STRING_COLUMN c \<Rightarrow> (case sg_valueIdFieldName c of Some n \<Rightarrow> [n] | None \<Rightarrow> [])
   | _ \<Rightarrow> []) gs)"

lemma generated_names_append: "generated_names (xs @ ys) = generated_names xs @ generated_names ys"
  by (simp add: generated_names_def)

lemma system_column_names:
  assumes "system_column agg x (f, used, gs) = Some (f', used', gs')"
  shows "\<exists>g ns. gs' = gs @ [g] \<and> used' = used @ ns \<and> generated_names [g] = ns \<and> distinct ns \<and> set ns \<inter> set used = {}"
proof -
  obtain i c where x: "x = (i, c)" by (cases x)
  show ?thesis using assms unfolding x
    by (cases c)
       (auto simp: system_column_def createUniqueColumnName_def Let_def unique_name_fresh generated_names_def split: option.splits)
qed

lemma system_columns_names:
  assumes "system_columns agg xs (f, used, gs) = Some (f', used', gs')"
  shows "\<exists>hs. gs' = gs @ hs \<and> length hs = length xs \<and> used' = used @ generated_names hs \<and>
    distinct (generated_names hs) \<and> set (generated_names hs) \<inter> set used = {}"
  using assms
proof (induction xs arbitrary: f used gs)
  case Nil
  then show ?case by (simp add: generated_names_def)
next
  case (Cons x xs)
  then obtain f1 used1 gs1 where 1: "system_column agg x (f, used, gs) = Some (f1, used1, gs1)"
    and 2: "system_columns agg xs (f1, used1, gs1) = Some (f', used', gs')" by (auto simp: bind_eq_Some_conv)
  from system_column_names [OF 1] obtain g ns where g: "gs1 = gs @ [g]" "used1 = used @ ns" "generated_names [g] = ns"
    "distinct ns" "set ns \<inter> set used = {}" by blast
  from Cons.IH [OF 2] obtain hs where h: "gs' = gs1 @ hs" "length hs = length xs" "used' = used1 @ generated_names hs"
    "distinct (generated_names hs)" "set (generated_names hs) \<inter> set used1 = {}" by blast
  have "generated_names (g # hs) = ns @ generated_names hs" using generated_names_append [of "[g]" hs] g(3) by simp
  then show ?case using g h by (intro exI [of _ "g # hs"]) auto
qed

text \<open>C37. The columns that the application adds to a query result have names of their own: the row number, the bins and
  the value ids are named differently from each other and from every column of the result, whatever the result's
  columns are called.\<close>

theorem system_column_names_unique:
  assumes "buildSystemColumnSQLFrame table columns input agg = Some (frame, groups)"
  shows "\<exists>rn gs. groups = ROWNUMBER_COLUMN rn # gs \<and> length gs = length columns \<and>
    distinct (rn # generated_names gs) \<and> set (rn # generated_names gs) \<inter> af_name ` set (at_fields table) = {}"
proof -
  let ?fields = "map af_name (at_fields table)"
  let ?rn = "unique_name ?fields ''_rownum''"
  obtain f used where s: "system_columns agg (zip [1..<length columns + 1] columns)
      (frame_rowNumber ?rn (frame_from input), ?fields @ [?rn], [ROWNUMBER_COLUMN ?rn]) = Some (f, used, groups)"
    using assms by (auto simp: buildSystemColumnSQLFrame_def createUniqueColumnName_def Let_def)
  have len: "length (zip [1..<length columns + 1] columns) = length columns" by (simp del: upt_Suc)
  from system_columns_names [OF s, unfolded len] obtain gs where "groups = ROWNUMBER_COLUMN ?rn # gs" "length gs = length columns"
    "distinct (generated_names gs)" "set (generated_names gs) \<inter> set (?fields @ [?rn]) = {}" by auto
  then show ?thesis using unique_name_fresh [of ?fields "''_rownum''"] by (intro exI [of _ ?rn] exI [of _ gs]) auto
qed

section \<open>A concrete result\<close>

text \<open>A result with a text column called as the row number would be, and its analysis by a database that answers every
  text with the same table.\<close>

definition demo_frame :: "nat \<Rightarrow> DataFrame" where
  "demo_frame i = \<lparr>df_object = i, df_tableName = ''__df''\<rparr>"

definition demo_fields :: "ArrowField list" where
  "demo_fields = map (\<lambda>(n, t). \<lparr>af_name = n, af_typeId = t, af_nullable = True\<rparr>) [(''_rownum'', Ty_Utf8)]"

definition demo_result :: ArrowTable where
  "demo_result = \<lparr>at_object = 1, at_fields = demo_fields, at_numRows = 3\<rparr>"

definition demo_answer :: ArrowTable where
  "demo_answer = \<lparr>at_object = 2, at_fields = map (\<lambda>n. \<lparr>af_name = n, af_typeId = Ty_Int64, af_nullable = True\<rparr>)
     [''key'', ''keyId'', ''count'', ''_count'', ''_0_count'', ''_0_countd''], at_numRows = 1\<rparr>"

definition demo_compute :: ComputeEnv where
  "demo_compute = \<lparr>ce_num = (\<lambda>_. ''0''), ce_db = (\<lambda>sql. Inr (demo_frame (length sql), demo_answer)),
     ce_reader = \<lparr>rd_int = (\<lambda>_ _ _. Some 3), rd_text = (\<lambda>_ _ _. None), rd_time = (\<lambda>_ _ _. None)\<rparr>,
     ce_formatter = (\<lambda>_. 0), ce_error = (\<lambda>_. 0)\<rparr>"

definition demo_groups :: "ColumnGroup list" where
  "demo_groups = map (\<lambda>g. entry_with_stats 0 g) (buildGridColumnGroups demo_result)"

definition demo_aggregation :: TableAggregation where
  "demo_aggregation = \<lparr>ta_dataFrame = demo_frame 9, ta_table = demo_answer, ta_tableFieldsByName = [],
     ta_tableFormatter = 0, ta_countStarFieldName = ''_count''\<rparr>"

theorem system_column_names_unique_witness:
  "\<exists>rn gs. snd (the (buildSystemColumnSQLFrame demo_result demo_groups ''t'' demo_aggregation)) = ROWNUMBER_COLUMN rn # gs \<and>
     length gs = 1 \<and> distinct (rn # generated_names gs) \<and> rn \<noteq> ''_rownum''"
proof -
  have "buildSystemColumnSQLFrame demo_result demo_groups ''t'' demo_aggregation \<noteq> None" by code_simp
  then obtain f gs where e: "buildSystemColumnSQLFrame demo_result demo_groups ''t'' demo_aggregation = Some (f, gs)" by auto
  have "length demo_groups = 1" "af_name ` set (at_fields demo_result) = {''_rownum''}"
    by (simp_all add: demo_groups_def buildGridColumnGroups_def demo_result_def demo_fields_def)
  then show ?thesis using system_column_names_unique [OF e] by (auto simp: e)
qed

section \<open>Memory\<close>

text \<open>The references of a state: what tables hold themselves, and what their registered tasks hold.\<close>

definition references :: "ComputationState \<Rightarrow> DataFrame multiset" where
  "references s = all_own s +
     sum_list (map (\<lambda>(tid, ts). frames_of (slot_frames (tc_tasks ts))) (cp_tableComputations s))"

lemma slots_of_tables:
  assumes "jsmap_ok m" "\<forall>tid ts. js_get m tid = Some ts \<longrightarrow> slots_ok tid (tc_tasks ts) A"
  shows "sum_list (map (\<lambda>(tid, ts). frames_of (slot_frames (tc_tasks ts))) m) \<subseteq># entry_frames {#e \<in># A. fst e \<in> fst ` set m#}"
  using assms
proof (induction m)
  case (Cons x m)
  obtain tid ts where x: "x = (tid, ts)" by (cases x)
  have "tid \<notin> fst ` set m" using Cons.prems(1) x by (auto simp: jsmap_ok_def)
  then have get: "js_get m k = Some t \<Longrightarrow> js_get (x # m) k = Some t" for k t using keys_get_Some [of m k t] by (auto simp: x)
  have "slots_ok tid (tc_tasks ts) A" using Cons.prems(2) x by simp
  from slot_frames_within [OF this] have 1: "frames_of (slot_frames (tc_tasks ts)) \<subseteq># entry_frames {#e \<in># A. fst e = tid#}" .
  have 2: "sum_list (map (\<lambda>(tid, ts). frames_of (slot_frames (tc_tasks ts))) m) \<subseteq># entry_frames {#e \<in># A. fst e \<in> fst ` set m#}"
    by (rule Cons.IH) (use Cons.prems get in \<open>auto simp: jsmap_ok_def\<close>)
  have "{#e \<in># A. fst e \<in> fst ` set (x # m)#} = {#e \<in># A. fst e = tid#} + {#e \<in># A. fst e \<in> fst ` set m#}"
    using \<open>tid \<notin> fst ` set m\<close> by (intro multiset_eqI) (auto simp: x)
  then show ?case using subset_mset.add_mono [OF 1 2] by (simp add: x)
qed simp

lemma references_covered:
  assumes "mem_ok s m A D"
  shows "covers m (references s + entry_frames A + entry_frames D)"
proof -
  have c: "covers m (all_own s + (entry_frames A + entry_frames A + entry_frames D))"
    and sl: "sum_list (map (\<lambda>(tid, ts). frames_of (slot_frames (tc_tasks ts))) (cp_tableComputations s)) \<subseteq>#
      entry_frames {#e \<in># A. fst e \<in> fst ` set (cp_tableComputations s)#}"
    using assms slots_of_tables by (auto simp: mem_ok_def)
  have "entry_frames {#e \<in># A. P e#} \<subseteq># entry_frames A" for P
  proof -
    have "A = {#e \<in># A. P e#} + {#e \<in># A. \<not> P e#}" by (rule multiset_partition)
    then have "entry_frames A = entry_frames {#e \<in># A. P e#} + entry_frames {#e \<in># A. \<not> P e#}" by (metis entry_frames_simps(2))
    then show ?thesis by simp
  qed
  with sl have "sum_list (map (\<lambda>(tid, ts). frames_of (slot_frames (tc_tasks ts))) (cp_tableComputations s)) \<subseteq># entry_frames A"
    by (rule subset_mset.order_trans)
  then have "references s + entry_frames A + entry_frames D \<subseteq># all_own s + (entry_frames A + entry_frames A + entry_frames D)"
    unfolding references_def by (simp add: add.assoc subset_mset.add_left_mono subset_mset.add_right_mono)
  with c show ?thesis by (rule covers_mono)
qed

text \<open>A run that schedules the aggregation of a table, reports its progress and deletes the table.\<close>

definition demo_task :: TaskKind where
  "demo_task = TABLE_AGGREGATION_TASK \<lparr>ak_tableId = 1, ak_tableVersion = version_zero, ak_columnEntries = [], ak_inputDataFrame = demo_frame 7\<rparr>"

definition demo_variant :: "nat option \<Rightarrow> TaskVariant" where
  "demo_variant i = \<lparr>tv_task = demo_task, tv_result = 0, tv_taskId = i\<rparr>"

definition demo_actions :: "ComputationAction list" where
  "demo_actions = [COMPUTATION_FROM_QUERY_RESULT 1 demo_result [] 0, CREATED_DATA_FRAME 1 (demo_frame 7),
     SCHEDULE_TASK (demo_variant None), UPDATE_SCHEDULER_TASK (demo_variant (Some 1)) (running_progress 5),
     TABLE_AGGREGATION_SUCCEEDED 1 demo_aggregation, UNREGISTER_SCHEDULER_TASK (demo_variant (Some 1))]"

fun ledger_run :: "timestamp \<Rightarrow> ComputationAction list \<Rightarrow> ComputationState \<times> DataFrameRegistry \<times> task_entry multiset \<times> task_entry multiset \<Rightarrow>
    (ComputationState \<times> DataFrameRegistry \<times> task_entry multiset \<times> task_entry multiset) option" where
  "ledger_run now [] x = Some x"
| "ledger_run now (a # as) (s, m, A, D) = (if disciplined_action s A a then
     (case reduceComputationState now s a m of
        Computed s' m' \<Rightarrow> ledger_run now as (s', m', ledger s a (A, D))
      | Threw m' \<Rightarrow> ledger_run now as (s, m', A, D)) else None)"

lemma ledger_run_ok: "comp_run s m A D \<Longrightarrow> ledger_run now as (s, m, A, D) = Some (s', m', A', D') \<Longrightarrow> comp_run s' m' A' D'"
proof (induction now as "(s, m, A, D)" arbitrary: s m A D rule: ledger_run.induct)
  case (2 now a as s m A D)
  show ?case
  proof (cases "reduceComputationState now s a m")
    case (Computed s1 m1)
    obtain A1 D1 where l: "ledger s a (A, D) = (A1, D1)" by fastforce
    have "disciplined_action s A a" using 2(4) by (auto split: if_splits)
    from comp_run.comp_step [OF 2(3) this Computed l] 2 Computed l show ?thesis by (auto split: if_splits)
  next
    case (Threw m1)
    from comp_run.comp_throw [OF 2(3) Threw] 2 Threw show ?thesis by (auto split: if_splits)
  qed
qed simp

definition demo_memory :: "ComputationState \<times> DataFrameRegistry \<times> task_entry multiset \<times> task_entry multiset" where
  "demo_memory = the (ledger_run 5 demo_actions (createComputationState, no_frames, {#}, {#}))"

definition demo_forgotten :: "ComputationState \<times> DataFrameRegistry \<times> task_entry multiset \<times> task_entry multiset" where
  "demo_forgotten = the (ledger_run 5 (demo_actions @ [DELETE_COMPUTATION 1]) (createComputationState, no_frames, {#}, {#}))"

lemma demo_runs:
  "ledger_run 5 demo_actions (createComputationState, no_frames, {#}, {#}) \<noteq> None"
  "ledger_run 5 (demo_actions @ [DELETE_COMPUTATION 1]) (createComputationState, no_frames, {#}, {#}) \<noteq> None"
  by code_simp+

lemma demo_memory_run: "comp_run (fst demo_memory) (fst (snd demo_memory)) (fst (snd (snd demo_memory))) (snd (snd (snd demo_memory)))"
  using demo_runs(1) ledger_run_ok [OF comp_run.comp_start] by (auto simp: demo_memory_def)

lemma demo_forgotten_run: "comp_run (fst demo_forgotten) (fst (snd demo_forgotten)) (fst (snd (snd demo_forgotten))) (snd (snd (snd demo_forgotten)))"
  using demo_runs(2) ledger_run_ok [OF comp_run.comp_start] by (auto simp: demo_forgotten_def)

text \<open>The actions of the demonstration bring in fresh frames only.\<close>

fun live_actions :: "timestamp \<Rightarrow> ComputationAction list \<Rightarrow> ComputationState \<times> DataFrameRegistry \<times> task_entry multiset \<times> task_entry multiset \<Rightarrow> bool" where
  "live_actions now [] x = True"
| "live_actions now (a # as) (s, m, A, D) = (list_all (\<lambda>f. f \<notin> brought_frames a) (df_destroyed m) \<and>
     (case reduceComputationState now s a m of
        Computed s' m' \<Rightarrow> live_actions now as (s', m', ledger s a (A, D))
      | Threw m' \<Rightarrow> live_actions now as (s, m', A, D)))"

lemma live_run_ok:
  "live_run s m A D \<Longrightarrow> live_actions now as (s, m, A, D) \<Longrightarrow> ledger_run now as (s, m, A, D) = Some (s', m', A', D') \<Longrightarrow> live_run s' m' A' D'"
proof (induction now as "(s, m, A, D)" arbitrary: s m A D rule: ledger_run.induct)
  case (2 now a as s m A D)
  have b: "brought_frames a \<inter> set (df_destroyed m) = {}" using 2(4) by (auto simp: list_all_iff)
  show ?case
  proof (cases "reduceComputationState now s a m")
    case (Computed s1 m1)
    obtain A1 D1 where l: "ledger s a (A, D) = (A1, D1)" by fastforce
    have "disciplined_action s A a" using 2(5) by (auto split: if_splits)
    from live_run.live_step [OF 2(3) this b Computed l] 2 Computed l show ?thesis by (auto split: if_splits)
  next
    case (Threw m1)
    from live_run.live_throw [OF 2(3) b Threw] 2 Threw show ?thesis by (auto split: if_splits)
  qed
qed simp

lemma demo_live: "live_run (fst demo_memory) (fst (snd demo_memory)) (fst (snd (snd demo_memory))) (snd (snd (snd demo_memory)))"
proof -
  have "live_actions 5 demo_actions (createComputationState, no_frames, {#}, {#})" by code_simp
  then show ?thesis using demo_runs(1) live_run_ok [OF live_run.live_start] by (auto simp: demo_memory_def)
qed

text \<open>C11. No data frame in use is dropped. In every state of a run whose actions bring in no frame that was destroyed before
  (results are new frames, tasks are scheduled on frames that exist) and report progress only for scheduled tasks of the
  table, the registry counts each frame at least as often as the tables and their registered inputs refer to it; and every
  frame that a table, a task registered with a table or a task of the scheduler refers to, aggregates included, is
  registered and was never destroyed.\<close>

theorem frames_in_use_counted:
  assumes "live_run s m A D"
  shows "int (count (references s) f) \<le> frame_count m f \<and> frames_ok m \<and>
    (f \<in># all_own s \<or> f \<in> held_frames s \<longrightarrow> js_has (registeredDataFrames m) f \<and> f \<notin> set (df_destroyed m))"
proof -
  have run: "comp_run s m A D" using assms by (rule live_is_run)
  have c: "covers m (references s + entry_frames A + entry_frames D)" by (rule references_covered [OF mem_run [OF run]])
  have "js_has (registeredDataFrames m) f \<and> f \<notin> set (df_destroyed m)" if "f \<in># all_own s \<or> f \<in> held_frames s"
  proof -
    have "f \<in># references s + (entry_frames A + entry_frames D)"
      using that held_in_ledger [OF run] by (auto simp: references_def)
    then have "0 < count (references s + entry_frames A + entry_frames D) f" by (simp add: add.assoc)
    then have "0 < frame_count m f" using c unfolding covers_def by (metis of_nat_0_less_iff order_less_le_trans)
    then have "js_has (registeredDataFrames m) f" by (auto simp: frame_count_def split: option.splits)
    then show ?thesis using live_alive [OF assms] by (simp add: alive_def)
  qed
  moreover have "covers m (references s)" by (rule covers_mono [OF c]) (simp add: add.assoc)
  ultimately show ?thesis by (simp add: covers_def)
qed

theorem frames_in_use_counted_witness:
  "int (count (references (fst demo_memory)) (demo_frame 7)) \<le> frame_count (fst (snd demo_memory)) (demo_frame 7) \<and>
     frames_ok (fst (snd demo_memory)) \<and> demo_frame 7 \<notin> set (df_destroyed (fst (snd demo_memory)))"
proof -
  have "demo_frame 7 \<in># all_own (fst demo_memory)" by code_simp
  then show ?thesis using frames_in_use_counted [OF demo_live, of "demo_frame 7"] by blast
qed

text \<open>The frames of tasks leak: a frame that a scheduled task read from stays registered for ever, also after the
  task has ended and its table was deleted, because the reference taken for the scheduler is never given back.\<close>

theorem task_frames_leak:
  assumes "comp_run s m A D" "(tid, k, fs) \<in># A + D" "f \<in># fs"
  shows "js_get (registeredDataFrames m) f \<noteq> None"
proof -
  have c: "covers m (references s + entry_frames A + entry_frames D)" by (rule references_covered [OF mem_run [OF assms(1)]])
  have "fs \<subseteq># entry_frames (A + D)"
  proof -
    obtain B where "A + D = add_mset (tid, k, fs) B" using assms(2) by (meson mset_add)
    then show ?thesis by simp
  qed
  then have "f \<in># entry_frames A + entry_frames D" using assms(3) by (auto dest: mset_subset_eqD)
  then have "0 < count (references s + entry_frames A + entry_frames D) f" by (auto simp: count_greater_zero_iff)
  then have "0 < frame_count m f" using c unfolding covers_def by (metis of_nat_0_less_iff order_less_le_trans)
  then show ?thesis by (auto simp: frame_count_def split: option.splits)
qed

theorem task_frames_leak_witness:
  "js_get (registeredDataFrames (fst (snd demo_forgotten))) (demo_frame 7) \<noteq> None \<and> cp_tableComputations (fst demo_forgotten) = []"
proof
  have "(1, Aggregating, {#demo_frame 7#}) \<in># fst (snd (snd demo_forgotten)) + snd (snd (snd demo_forgotten))" by code_simp
  then show "js_get (registeredDataFrames (fst (snd demo_forgotten))) (demo_frame 7) \<noteq> None"
    by (rule task_frames_leak [OF demo_forgotten_run]) simp
  show "cp_tableComputations (fst demo_forgotten) = []" by code_simp
qed

section \<open>Outdated results\<close>

text \<open>Versions only grow while a table exists.\<close>

definition not_before :: "ComputationStateVersion \<Rightarrow> ComputationStateVersion \<Rightarrow> bool" where
  "not_before v w \<longleftrightarrow> cv_data v \<le> cv_data w \<and> cv_filter v \<le> cv_filter w"

lemma not_before_refl [simp]: "not_before v v"
  and not_before_incr [simp]: "not_before v (withDataIncrement v)" "not_before v (withFilterIncrement v)"
  by (simp_all add: not_before_def withDataIncrement_def withFilterIncrement_def)

lemma not_before_trans: "not_before u v \<Longrightarrow> not_before v w \<Longrightarrow> not_before u w"
  by (simp add: not_before_def)

fun resets :: "nat \<Rightarrow> ComputationAction \<Rightarrow> bool" where
  "resets tid (COMPUTATION_FROM_QUERY_RESULT t table groups life) \<longleftrightarrow> t = tid"
| "resets tid (DELETE_COMPUTATION t) \<longleftrightarrow> t = tid"
| "resets tid _ \<longleftrightarrow> False"

definition grows :: "nat \<Rightarrow> ComputationState \<Rightarrow> ComputationState \<Rightarrow> bool" where
  "grows tid s s' \<longleftrightarrow> (\<forall>ts. js_get (cp_tableComputations s) tid = Some ts \<longrightarrow>
     (\<exists>ts'. js_get (cp_tableComputations s') tid = Some ts' \<and> not_before (tc_version ts) (tc_version ts')))"

lemma grows_refl [simp]: "grows tid s s"
  by (simp add: grows_def)

lemma grows_trans: "grows tid s s' \<Longrightarrow> grows tid s' s'' \<Longrightarrow> grows tid s s''"
  unfolding grows_def by (meson not_before_trans)

lemma grows_set:
  assumes "js_get (cp_tableComputations s) k = Some ts" "not_before (tc_version ts) (tc_version ts')"
  shows "grows tid s (set_table k ts' s)"
  using assms by (auto simp: grows_def set_table_get)

lemma grows_update: "grows tid s (fst (updateTask s t p m c))"
proof (cases "js_get (cp_tableComputations s) (kind_tableId (tv_task t))")
  case None
  then show ?thesis by (simp add: updateTask_def Let_def)
next
  case (Some ts)
  have "not_before (tc_version ts) (target_version c (tv_task t) (tc_version ts))" by (cases "tv_task t") simp_all
  then show ?thesis using Some by (auto simp: updateTask_def Let_def grows_def set_table_get)
qed

lemma grows_step:
  assumes "reduceComputationState now s a m = Computed s' m'" "\<not> resets tid a"
  shows "grows tid s s'"
proof (cases a)
  case (SCHEDULE_TASK t)
  then show ?thesis using assms grows_update by (auto simp: computed_of_def)
next
  case (UPDATE_SCHEDULER_TASK t p)
  then show ?thesis using assms grows_update by (auto simp: computed_of_def)
next
  case (TABLE_FILTERING_SUCCEEDED k v ft)
  then show ?thesis using assms
    by (auto simp: computed_of_eq filtering_succeeded_def tableFilteringSucceded_def Let_def intro!: grows_set split: option.splits if_splits)
next
  case (TABLE_ORDERING_SUCCEDED k ot)
  then show ?thesis using assms
    by (auto simp: computed_of_eq ordering_succeeded_def Let_def intro!: grows_set split: option.splits if_splits)
next
  case (FILTERED_COLUMN_AGGREGATION_SUCCEEDED k c v x)
  then show ?thesis using assms
    by (auto simp: computed_of_eq filtered_column_succeeded_def Let_def intro!: grows_set split: option.splits if_splits)
next
  case (COLUMN_AGGREGATION_SUCCEEDED k c x)
  then show ?thesis using assms
    by (auto simp: computed_of_eq column_succeeded_def Let_def intro!: grows_set split: option.splits if_splits)
next
  case (COMPUTATION_FROM_QUERY_RESULT k table groups life)
  then show ?thesis using assms by (auto simp: grows_def set_table_get)
next
  case (DELETE_COMPUTATION k)
  then show ?thesis using assms by (auto simp: grows_def js_get_delete split: option.splits)
qed (use assms in \<open>auto simp: computed_of_eq clear_ordering_def aggregation_succeeded_def system_columns_succeeded_def
      umap_succeeded_def Let_def grows_def set_table_get split: option.splits if_splits\<close>)

lemma grows_actions: "reduce_actions now as s m = Computed s' m' \<Longrightarrow> \<not> (\<exists>a \<in> set as. resets tid a) \<Longrightarrow> grows tid s s'"
proof (induction as arbitrary: s m)
  case (Cons a as)
  then show ?case by (auto split: computed.splits intro: grows_trans grows_step)
qed simp

lemma reduce_actions_append:
  "reduce_actions now (as @ bs) s m = (case reduce_actions now as s m of Computed s' m' \<Rightarrow> reduce_actions now bs s' m' | Threw m' \<Rightarrow> Threw m')"
  by (induction as arbitrary: s m) (auto split: computed.splits)

text \<open>Scheduling a filter moves the table on.\<close>

lemma schedule_filter:
  assumes "tv_task t = TABLE_FILTERING_TASK k" "js_get (cp_tableComputations s) (fk_tableId k) = Some ts"
    "reduceComputationState now s (SCHEDULE_TASK t) m = Computed s' m'"
  shows "\<exists>ts'. js_get (cp_tableComputations s') (fk_tableId k) = Some ts' \<and> tc_version ts' = withFilterIncrement (tc_version ts)"
  using assms by (auto simp: updateTask_def Let_def computed_of_def set_table_get)

text \<open>Two filters on a table, the second one before the result of the first.\<close>

definition demo_filter :: TaskVariant where
  "demo_filter = \<lparr>tv_task = TABLE_FILTERING_TASK \<lparr>fk_tableId = 1, fk_tableVersion = version_zero, fk_inputDataTable = demo_result,
     fk_inputDataTableFieldIndex = [], fk_inputDataFrame = demo_frame 7, fk_rowNumberColumnName = ''rn'', fk_filters = []\<rparr>,
     tv_result = 0, tv_taskId = None\<rparr>"

definition demo_table :: "computed" where
  "demo_table = reduce_actions 5 [COMPUTATION_FROM_QUERY_RESULT 1 demo_result [] 0] createComputationState no_frames"

fun computed_state :: "computed \<Rightarrow> ComputationState" where
  "computed_state (Computed s m) = s"
| "computed_state (Threw m) = createComputationState"

fun computed_registry :: "computed \<Rightarrow> DataFrameRegistry" where
  "computed_registry (Computed s m) = m"
| "computed_registry (Threw m) = m"

definition demo_filtered :: "computed" where
  "demo_filtered = reduce_actions 5 (SCHEDULE_TASK demo_filter # [] @ SCHEDULE_TASK demo_filter # [])
     (computed_state demo_table) (computed_registry demo_table)"

text \<open>C34. Outdated filters are ignored: once a newer filter was scheduled on a table, the result of an older one, in
  whatever order they finish and whatever happens in between, changes nothing, and its frame is given back.\<close>

theorem outdated_filter_ignored:
  assumes ts: "js_get (cp_tableComputations s) tid = Some ts"
    and old: "tv_task t1 = TABLE_FILTERING_TASK k1" "fk_tableId k1 = tid"
    and new: "tv_task t2 = TABLE_FILTERING_TASK k2" "fk_tableId k2 = tid"
    and run: "reduce_actions now (SCHEDULE_TASK t1 # as @ SCHEDULE_TASK t2 # bs) s m = Computed s' m'"
    and kept: "\<not> (\<exists>a \<in> set (as @ bs). resets tid a)"
  shows "reduceComputationState now' s' (TABLE_FILTERING_SUCCEEDED tid (withFilterIncrement (tc_version ts)) ft) m' =
    Computed s' (release (map_option ft_dataFrame ft) (acquire (map_option ft_dataFrame ft) 1 m'))"
proof -
  let ?v = "withFilterIncrement (tc_version ts)"
  obtain s1 m1 where 1: "reduceComputationState now s (SCHEDULE_TASK t1) m = Computed s1 m1"
      "reduce_actions now (as @ SCHEDULE_TASK t2 # bs) s1 m1 = Computed s' m'"
    using run by (auto simp del: reduceComputationState.simps split: computed.splits)
  obtain s2 m2 where 2: "reduce_actions now as s1 m1 = Computed s2 m2" "reduce_actions now (SCHEDULE_TASK t2 # bs) s2 m2 = Computed s' m'"
    using 1(2) by (auto simp: reduce_actions_append simp del: reduceComputationState.simps split: computed.splits)
  obtain s3 m3 where 3: "reduceComputationState now s2 (SCHEDULE_TASK t2) m2 = Computed s3 m3" "reduce_actions now bs s3 m3 = Computed s' m'"
    using 2(2) by (auto simp del: reduceComputationState.simps split: computed.splits)
  from schedule_filter [OF old(1) _ 1(1)] ts old(2) obtain ts1 where ts1: "js_get (cp_tableComputations s1) tid = Some ts1" "tc_version ts1 = ?v"
    by auto
  from grows_actions [OF 2(1)] kept ts1 obtain ts2 where ts2: "js_get (cp_tableComputations s2) tid = Some ts2" "not_before ?v (tc_version ts2)"
    by (fastforce simp: grows_def)
  from schedule_filter [OF new(1) _ 3(1)] ts2 new(2) obtain ts3 where ts3: "js_get (cp_tableComputations s3) tid = Some ts3"
      "tc_version ts3 = withFilterIncrement (tc_version ts2)" by auto
  from grows_actions [OF 3(2)] kept ts3 obtain ts4 where ts4: "js_get (cp_tableComputations s') tid = Some ts4"
      "not_before (withFilterIncrement (tc_version ts2)) (tc_version ts4)" by (fastforce simp: grows_def)
  have "\<not> filterMatches ?v (tc_version ts4)"
    using ts2(2) ts4(2) by (simp add: filterMatches_def not_before_def withFilterIncrement_def)
  then show ?thesis using ts4(1) by (simp add: filtering_succeeded_def computed_of_def Let_def)
qed

lemma demo_filtered_run:
  "js_get (cp_tableComputations (computed_state demo_table)) 1 = Some (createTableComputationState 1 demo_result [] 0)"
  "reduce_actions 5 (SCHEDULE_TASK demo_filter # [] @ SCHEDULE_TASK demo_filter # []) (computed_state demo_table) (computed_registry demo_table) =
    Computed (computed_state demo_filtered) (computed_registry demo_filtered)"
  by code_simp+

definition demo_filter_key :: TableFilteringTask where
  "demo_filter_key = (case tv_task demo_filter of TABLE_FILTERING_TASK k \<Rightarrow> k)"

lemma demo_filter_key: "tv_task demo_filter = TABLE_FILTERING_TASK demo_filter_key" "fk_tableId demo_filter_key = 1"
  by (simp_all add: demo_filter_def demo_filter_key_def)

theorem outdated_filter_ignored_witness:
  "reduceComputationState 9 (computed_state demo_filtered)
     (TABLE_FILTERING_SUCCEEDED 1 (withFilterIncrement (tc_version (createTableComputationState 1 demo_result [] 0))) None) (computed_registry demo_filtered) =
    Computed (computed_state demo_filtered) (release (map_option ft_dataFrame (None :: FilterTable option)) (acquire (map_option ft_dataFrame (None :: FilterTable option)) 1 (computed_registry demo_filtered)))"
  by (rule outdated_filter_ignored [OF demo_filtered_run(1) demo_filter_key demo_filter_key demo_filtered_run(2)]) simp

end
