(* ===== verification/Compute_Analysis.thy ===== *)
theory Compute_Analysis
  imports Compute_Runs Compute_Scheduler
begin

text \<open>The analysis of a query result (\<^verbatim>\<open>analyzeTable\<close> of \<^verbatim>\<open>compute/computation_logic.ts\<close>), run to its end through the
  scheduler and the reducer.\<close>

section \<open>Awaiting one task\<close>

text \<open>The table that a task which succeeds leaves behind.\<close>

lemma await_column:
  assumes "js_get (cp_tableComputations s) (ck_tableId t) = Some ts"
  shows "case computeColumnAggregates (ce_num e) (ce_db e) (ce_reader e) (ce_formatter e) t of
      Inl err \<Rightarrow> \<exists>s' m'. run_analysis (An_task (COLUMN_AGGREGATION_TASK t) k) e ins now s m = An_failed s' m'
    | Inr a \<Rightarrow> \<exists>s' m' tasks. run_analysis (An_task (COLUMN_AGGREGATION_TASK t) k) e ins now s m = run_analysis (k (R_column a)) e ins now s' m' \<and>
        js_get (cp_tableComputations s') (ck_tableId t) =
          Some (ts\<lparr>tc_columnAggregates := arr_set None (tc_columnAggregates ts) (ck_columnId t) (Some a), tc_tasks := tasks\<rparr>)"
proof (cases "computeColumnAggregates (ce_num e) (ce_db e) (ce_reader e) (ce_formatter e) t")
  case (Inl err)
  then show ?thesis using assms
    by (simp add: updateTask_def Let_def computed_of_def set_table_get js_get_set processTask_def set_table_def)
next
  case (Inr a)
  then show ?thesis using assms
    by (simp add: updateTask_def Let_def computed_of_def set_table_get js_get_set processTask_def set_table_def column_succeeded_def arr_get_set)
       (rule exI, rule conjI, rule exI, rule refl, simp add: js_get_set, rule exI, rule refl)
qed

lemma await_aggregation:
  assumes "js_get (cp_tableComputations s) (ak_tableId t) = Some ts"
  shows "case computeTableAggregates (ce_num e) (ce_db e) (ce_formatter e) t of
      Inl err \<Rightarrow> \<exists>s' m'. run_analysis (An_task (TABLE_AGGREGATION_TASK t) k) e ins now s m = An_failed s' m'
    | Inr (a, gs) \<Rightarrow> \<exists>s' m' tasks. run_analysis (An_task (TABLE_AGGREGATION_TASK t) k) e ins now s m =
          run_analysis (k (R_aggregate a gs)) e ins now s' m' \<and>
        js_get (cp_tableComputations s') (ak_tableId t) = Some (ts\<lparr>tc_tableAggregation := Some a, tc_tasks := tasks\<rparr>)"
proof (cases "computeTableAggregates (ce_num e) (ce_db e) (ce_formatter e) t")
  case (Inl err)
  then show ?thesis using assms
    by (simp add: updateTask_def Let_def computed_of_def set_table_get js_get_set processTask_def set_table_def)
next
  case (Inr x)
  then show ?thesis using assms
    by (cases x)
       (simp add: updateTask_def Let_def computed_of_def set_table_get js_get_set processTask_def set_table_def aggregation_succeeded_def,
        rule exI, rule conjI, rule exI, rule refl, simp add: js_get_set, rule exI, rule refl)
qed

lemma await_system:
  assumes "js_get (cp_tableComputations s) (yk_tableId t) = Some ts"
  shows "case computeSystemColumns (ce_num e) (ce_db e) t of
      Inl err \<Rightarrow> \<exists>s' m'. run_analysis (An_task (SYSTEM_COLUMN_COMPUTATION_TASK t) k) e ins now s m = An_failed s' m'
    | Inr (table, df, gs) \<Rightarrow> \<exists>s' m' tasks. run_analysis (An_task (SYSTEM_COLUMN_COMPUTATION_TASK t) k) e ins now s m =
          run_analysis (k (R_system table df gs)) e ins now s' m' \<and>
        js_get (cp_tableComputations s') (yk_tableId t) = Some (ts\<lparr>tc_version := withDataIncrement (tc_version ts), tc_dataTable := table,
            tc_dataFrame := Some df, tc_columnGroups := gs, tc_rowNumberColumnGroup := map_option fst (row_number_of gs),
            tc_rowNumberColumnName := map_option snd (row_number_of gs), tc_tasks := tasks\<rparr>)"
proof (cases "computeSystemColumns (ce_num e) (ce_db e) t")
  case (Inl err)
  then show ?thesis using assms
    by (simp add: updateTask_def Let_def computed_of_def set_table_get js_get_set processTask_def set_table_def)
next
  case (Inr x)
  then show ?thesis using assms
    by (cases x)
       (simp add: updateTask_def Let_def computed_of_def set_table_get js_get_set processTask_def set_table_def system_columns_succeeded_def,
        rule exI, rule conjI, rule exI, rule refl, simp add: js_get_set, rule exI, rule refl)
qed

section \<open>The texts of the analysis are always built\<close>

lemma all_some_iff: "all_some xs \<noteq> None \<longleftrightarrow> list_all (\<lambda>x. x \<noteq> None) xs"
  by (induction xs rule: all_some.induct) auto

lemma toSQL_some: "toSQL num f \<noteq> None \<longleftrightarrow> (case sq_groupBy f of None \<Rightarrow> True
    | Some gb \<Rightarrow> list_all (\<lambda>a. formatAggExpr a \<noteq> None) (gc_aggregates gb))"
proof -
  have none: "all_some (map aggExpr as) = None \<longleftrightarrow> \<not> list_all (\<lambda>a. formatAggExpr a \<noteq> None) as" for as
    using all_some_iff [of "map aggExpr as"] unfolding list.pred_map comp_def aggExpr_def option.map_disc_iff by blast
  have simple: "buildSimpleGroupBy gb st = None \<longleftrightarrow> all_some (map aggExpr (gc_aggregates gb)) = None" for gb st
    by (simp add: buildSimpleGroupBy_def Let_def split: option.split)
  have binned: "buildBinnedGroupBy gb x st = None \<longleftrightarrow> all_some (map aggExpr (gc_aggregates gb)) = None" for gb x st
    by (simp add: buildBinnedGroupBy_def Let_def split: option.split prod.split)
  show ?thesis
  proof (cases "sq_groupBy f")
    case None
    then show ?thesis by (simp add: toSQL_def sql_groupBy_def)
  next
    case (Some gb)
    have "sql_groupBy (Some gb) st = None \<longleftrightarrow> \<not> list_all (\<lambda>a. formatAggExpr a \<noteq> None) (gc_aggregates gb)" for st
      using simple binned none [of "gc_aggregates gb"] by (cases "binned_key (gc_keys gb)") (simp_all add: sql_groupBy_def)
    then show ?thesis using Some by (simp add: toSQL_def del: not_None_eq)
  qed
qed

definition with_stats :: "ColumnGroup \<Rightarrow> bool" where
  "with_stats g \<longleftrightarrow> (case g of
     ORDINAL_COLUMN c \<Rightarrow> (case og_statsFields c of None \<Rightarrow> False
       | Some st \<Rightarrow> cs_minAggregateFieldName st \<noteq> None \<and> cs_maxAggregateFieldName st \<noteq> None)
   | STRING_COLUMN c \<Rightarrow> sg_statsFields c \<noteq> None | _ \<Rightarrow> True)"

definition ready_group :: "ColumnGroup \<Rightarrow> bool" where
  "ready_group g \<longleftrightarrow> with_stats g \<and> (case g of STRING_COLUMN c \<Rightarrow> sg_valueIdFieldName c \<noteq> None | _ \<Rightarrow> True)"

lemma entry_with_stats: "with_stats g \<or> aggregatable g \<Longrightarrow> with_stats (entry_with_stats i g)"
  "aggregatable (entry_with_stats i g) = aggregatable g"
  by (auto simp: with_stats_def entry_with_stats_def aggregatable_def split: ColumnGroup.splits)

lemma buildTableAggregationSQL_some: "buildTableAggregationSQL num t \<noteq> None"
proof -
  have "list_all (\<lambda>a. formatAggExpr a \<noteq> None) (entry_aggregates i g)" for i g
    by (auto simp: entry_aggregates_def formatAggExpr_def aggregate_of_def split: ColumnGroup.split)
  then have "list_all (\<lambda>a. formatAggExpr a \<noteq> None) (concat (map (\<lambda>(i, e). entry_aggregates i e) xs))" for xs
    by (induction xs) (auto simp: list_all_iff)
  then show ?thesis
    using toSQL_some [of num "frame_groupBy g (frame_from n)" for g n]
    by (auto simp: buildTableAggregationSQL_def Let_def frame_groupBy_def frame_from_def formatAggExpr_def aggregate_of_def)
qed

lemma buildColumnAggregationSQL_some:
  assumes "ready_group (ck_columnEntry t)" "aggregatable (ck_columnEntry t)"
  shows "buildColumnAggregationSQL num t None \<noteq> None"
  using assms toSQL_some
  by (auto simp: buildColumnAggregationSQL_def column_frame_def group_stats_def filtered_frame_def ready_group_def with_stats_def aggregatable_def
      ordinal_key_def frame_groupBy_def frame_orderBy_def count_star_def formatAggExpr_def aggregate_of_def
      split: ColumnGroup.splits option.splits)

lemma system_column_ready:
  assumes "with_stats g"
  shows "\<exists>f' used' g'. system_column agg (i, g) (f, used, gs) = Some (f', used', gs @ [g']) \<and> ready_group g' \<and> aggregatable g' = aggregatable g"
  using assms
  by (cases g)
     (auto simp: system_column_def createUniqueColumnName_def Let_def ready_group_def with_stats_def aggregatable_def split: option.splits)

lemma system_columns_ready:
  assumes "list_all (\<lambda>(i, g). with_stats g) xs"
  shows "\<exists>f' used' hs. system_columns agg xs (f, used, gs) = Some (f', used', gs @ hs) \<and> list_all ready_group hs \<and>
    map aggregatable hs = map (\<lambda>(i, g). aggregatable g) xs"
  using assms
proof (induction xs arbitrary: f used gs)
  case Nil
  then show ?case by simp
next
  case (Cons x xs)
  obtain i g where x: "x = (i, g)" by (cases x)
  then obtain f1 used1 g1 where 1: "system_column agg x (f, used, gs) = Some (f1, used1, gs @ [g1])" "ready_group g1" "aggregatable g1 = aggregatable g"
    using system_column_ready [of g] Cons.prems by auto blast
  from Cons.IH [of f1 used1 "gs @ [g1]"] Cons.prems obtain f' used' hs where
    2: "system_columns agg xs (f1, used1, gs @ [g1]) = Some (f', used', (gs @ [g1]) @ hs)" "list_all ready_group hs"
      "map aggregatable hs = map (\<lambda>(i, g). aggregatable g) xs" by auto
  show ?case using 1 2 x by (intro exI [of _ f'] exI [of _ used'] exI [of _ "g1 # hs"]) simp
qed

definition analyzed_groups :: "ArrowTable \<Rightarrow> ColumnGroup list" where
  "analyzed_groups table = (let gs = buildGridColumnGroups table in map (\<lambda>(i, g). entry_with_stats i g) (zip [0..<length gs] gs))"

lemma column_group_without_stats: "with_stats g \<or> aggregatable g"
  by (cases g) (auto simp: with_stats_def aggregatable_def)

lemma analyzed_groups_stats: "list_all with_stats (analyzed_groups table)" "length (analyzed_groups table) = length (at_fields table)"
  using entry_with_stats(1) [OF column_group_without_stats]
  by (auto simp: analyzed_groups_def buildGridColumnGroups_def Let_def list_all_iff)

lemma buildSystemColumnSQLFrame_ready:
  assumes "list_all with_stats columns"
  shows "\<exists>frame rn hs. buildSystemColumnSQLFrame table columns input agg = Some (frame, ROWNUMBER_COLUMN rn # hs) \<and>
    length hs = length columns \<and> list_all ready_group hs \<and> sq_groupBy frame = None"
proof -
  let ?xs = "zip [1..<length columns + 1] columns"
  let ?rn = "fst (createUniqueColumnName ''_rownum'' (map af_name (at_fields table)))"
  let ?used = "snd (createUniqueColumnName ''_rownum'' (map af_name (at_fields table)))"
  let ?f0 = "frame_rowNumber ?rn (frame_from input)"
  have "list_all (\<lambda>(i, g). with_stats g) ?xs" using assms by (auto simp: list_all_iff dest: set_zip_rightD)
  from system_columns_ready [OF this, of agg ?f0 ?used "[ROWNUMBER_COLUMN ?rn]"] obtain f' used' hs where
    c: "system_columns agg ?xs (?f0, ?used, [ROWNUMBER_COLUMN ?rn]) = Some (f', used', [ROWNUMBER_COLUMN ?rn] @ hs)"
      "list_all ready_group hs" "map aggregatable hs = map (\<lambda>(i, g). aggregatable g) ?xs" by blast
  have "sq_groupBy f1 = sq_groupBy f" if "system_column a x (f, u, g) = Some (f1, u1, g1)" for a x f u g f1 u1 g1
    using that by (auto simp: system_column_def Let_def frame_binning_def frame_valueIdentifier_def split: ColumnGroup.splits option.splits prod.splits)
  then have "system_columns a xs (f, u, g) = Some (f1, u1, g1) \<Longrightarrow> sq_groupBy f1 = sq_groupBy f" for a xs f u g f1 u1 g1
    by (induction xs arbitrary: f u g) (fastforce simp: bind_eq_Some_conv)+
  then have "sq_groupBy f' = None" using c(1) by (fastforce simp: frame_rowNumber_def frame_from_def)
  moreover have "length hs = length columns" using arg_cong [OF c(3), of length] by (cases columns) (simp_all del: upt_Suc)
  ultimately show ?thesis using c(1,2)
    by (simp add: buildSystemColumnSQLFrame_def frame_orderBy_def case_prod_unfold Let_def)
qed

section \<open>The whole analysis\<close>

definition table_aggregation :: "ComputeEnv \<Rightarrow> DataFrame \<Rightarrow> ArrowTable \<Rightarrow> TableAggregation" where
  "table_aggregation e df t = \<lparr>ta_dataFrame = df, ta_table = t, ta_tableFieldsByName = createArrowFieldIndex t,
     ta_tableFormatter = ce_formatter e t, ta_countStarFieldName = ''_count''\<rparr>"

text \<open>The query of one column is rejected, or answered with a table that lacks what was asked for.\<close>

definition column_refused :: "ComputeEnv \<Rightarrow> nat \<Rightarrow> TableAggregation \<Rightarrow> DataFrame \<Rightarrow> nat \<times> ColumnGroup \<Rightarrow> bool" where
  "column_refused e tid agg df = (\<lambda>(c, g). aggregatable g \<and>
    (case buildColumnAggregationSQL (ce_num e) \<lparr>ck_tableId = tid, ck_tableVersion = version_zero, ck_columnId = c,
        ck_columnEntry = g, ck_inputDataFrame = df, ck_tableAggregate = agg\<rparr> None of
       None \<Rightarrow> False
     | Some sql \<Rightarrow> (case ce_db e sql of Inl _ \<Rightarrow> True
         | Inr (df', t') \<Rightarrow> column_aggregate (ce_reader e) (ce_formatter e) agg g None df' t' = None)))"

text \<open>The queries of the analysis of a table inserted as \<open>df\<close>, in their order: one of them is refused.\<close>

definition system_refused :: "ComputeEnv \<Rightarrow> nat \<Rightarrow> ArrowTable \<Rightarrow> DataFrame \<Rightarrow> TableAggregation \<Rightarrow> bool" where
  "system_refused e tid table df agg \<longleftrightarrow>
    (case buildSystemColumnSQLFrame table (analyzed_groups table) (df_tableName df) agg of
       None \<Rightarrow> False
     | Some (frame, gs) \<Rightarrow> (case toSQL (ce_num e) frame of
         None \<Rightarrow> False
       | Some sql \<Rightarrow> (case ce_db e sql of Inl _ \<Rightarrow> True
           | Inr (df', _) \<Rightarrow> list_ex (column_refused e tid agg df') (zip [0..<length gs] gs))))"

definition analysis_refused :: "ComputeEnv \<Rightarrow> nat \<Rightarrow> ArrowTable \<Rightarrow> DataFrame \<Rightarrow> bool" where
  "analysis_refused e tid table df \<longleftrightarrow>
    (case buildTableAggregationSQL (ce_num e) \<lparr>ak_tableId = tid, ak_tableVersion = version_zero,
        ak_columnEntries = buildGridColumnGroups table, ak_inputDataFrame = df\<rparr> of
       None \<Rightarrow> False
     | Some (sql, _, _) \<Rightarrow> (case ce_db e sql of Inl _ \<Rightarrow> True
         | Inr (df', t') \<Rightarrow> system_refused e tid table df (table_aggregation e df' t')))"

lemma run_sql_text: "run_sql db msg (Some sql) = Inr r \<longleftrightarrow> db sql = Inr r"
  by (auto simp: run_sql_def split: sum.splits option.splits)

lemma column_fails:
  assumes "ready_group g" "aggregatable g"
  shows "(\<exists>err. computeColumnAggregates (ce_num e) (ce_db e) (ce_reader e) (ce_formatter e) \<lparr>ck_tableId = tid,
      ck_tableVersion = version_zero, ck_columnId = c, ck_columnEntry = g, ck_inputDataFrame = df, ck_tableAggregate = agg\<rparr> = Inl err) \<longleftrightarrow>
    column_refused e tid agg df (c, g)"
proof -
  let ?t = "\<lparr>ck_tableId = tid, ck_tableVersion = version_zero, ck_columnId = c, ck_columnEntry = g, ck_inputDataFrame = df,
    ck_tableAggregate = agg\<rparr>"
  obtain sql where sql: "buildColumnAggregationSQL (ce_num e) ?t None = Some sql"
    using buildColumnAggregationSQL_some [of ?t] assms by auto
  show ?thesis using assms(2) sql
    by (auto simp: computeColumnAggregates_def aggregate_column_def column_refused_def run_sql_def split: sum.splits option.splits prod.splits)
qed

definition columns_analyzed :: "nat \<Rightarrow> bool \<Rightarrow> nat set \<Rightarrow> TableComputationState \<Rightarrow> analyzed \<Rightarrow> bool" where
  "columns_analyzed tid refused A ts r \<longleftrightarrow> (case r of
     An_failed s' m' \<Rightarrow> refused
   | An_done s' m' \<Rightarrow> \<not> refused \<and> (\<exists>tasks aggs. js_get (cp_tableComputations s') tid = Some (ts\<lparr>tc_columnAggregates := aggs, tc_tasks := tasks\<rparr>) \<and>
       (\<forall>i. arr_get aggs i \<noteq> None \<longleftrightarrow> arr_get (tc_columnAggregates ts) i \<noteq> None \<or> i \<in> A))
   | _ \<Rightarrow> False)"

definition aggregated :: "(nat \<times> ColumnGroup) list \<Rightarrow> nat set" where
  "aggregated cs = fst ` {(i, g) \<in> set cs. aggregatable g}"

lemma aggregated_simps: "aggregated [] = {}"
  "aggregated ((c, g) # cs) = (if aggregatable g then insert c (aggregated cs) else aggregated cs)"
  by (auto simp: aggregated_def image_iff)

lemma analyze_columns_run:
  assumes "js_get (cp_tableComputations s) tid = Some ts" "\<forall>(c, g) \<in> set cs. ready_group g"
  shows "columns_analyzed tid (list_ex (column_refused e tid agg df) cs) (aggregated cs) ts (run_analysis (analyze_columns tid agg df cs) e ins now s m)"
  using assms
proof (induction cs arbitrary: s m ts)
  case Nil
  then show ?case
    by (auto simp: columns_analyzed_def aggregated_simps intro!: exI [of _ "tc_tasks ts"] exI [of _ "tc_columnAggregates ts"])
next
  case (Cons x cs)
  obtain c g where x: "x = (c, g)" by (cases x)
  note IH = Cons.IH
  show ?case
  proof (cases "aggregatable g")
    case False
    then show ?thesis using IH [of s ts m] Cons.prems x by (simp add: aggregated_simps column_refused_def)
  next
    case True
    let ?t = "\<lparr>ck_tableId = tid, ck_tableVersion = version_zero, ck_columnId = c, ck_columnEntry = g, ck_inputDataFrame = df, ck_tableAggregate = agg\<rparr>"
    have get: "js_get (cp_tableComputations s) (ck_tableId ?t) = Some ts" using Cons.prems(1) by simp
    note step = await_column [OF get, where e = e and k = "\<lambda>_. analyze_columns tid agg df cs" and ins = ins and now = now and m = m]
    show ?thesis
    proof (cases "computeColumnAggregates (ce_num e) (ce_db e) (ce_reader e) (ce_formatter e) ?t")
      case (Inl err)
      then have "column_refused e tid agg df (c, g)" using column_fails [of g e tid c df agg] True Cons.prems(2) x by auto
      then show ?thesis using step Inl x True by (auto simp: columns_analyzed_def simp del: run_analysis.simps)
    next
      case (Inr a)
      then obtain s' m' tasks where r: "run_analysis (analyze_columns tid agg df (x # cs)) e ins now s m =
          run_analysis (analyze_columns tid agg df cs) e ins now s' m'"
        "js_get (cp_tableComputations s') tid = Some (ts\<lparr>tc_columnAggregates := arr_set None (tc_columnAggregates ts) c (Some a), tc_tasks := tasks\<rparr>)"
        using step x True by (auto simp del: run_analysis.simps)
      have kept: "\<not> column_refused e tid agg df (c, g)" using column_fails [of g e tid c df agg] True Cons.prems(2) x Inr by auto
      have "columns_analyzed tid (list_ex (column_refused e tid agg df) cs) (aggregated cs) (ts\<lparr>tc_columnAggregates := arr_set None (tc_columnAggregates ts) c (Some a), tc_tasks := tasks\<rparr>)
          (run_analysis (analyze_columns tid agg df cs) e ins now s' m')"
        using IH [OF r(2)] Cons.prems(2) by simp
      then show ?thesis unfolding r(1) unfolding x
        by (cases "run_analysis (analyze_columns tid agg df cs) e ins now s' m'")
           (auto simp: columns_analyzed_def aggregated_simps True arr_get_set kept,
            rule exI, rule exI, rule conjI, rule refl, auto split: if_splits)
    qed
  qed
qed

lemma row_number_kept: "fold (\<lambda>(g, i) acc. case g of ROWNUMBER_COLUMN n \<Rightarrow> Some (i, n) | _ \<Rightarrow> acc) xs (Some y) \<noteq> None"
proof (induction xs arbitrary: y)
  case Nil
  then show ?case by simp
next
  case (Cons x xs)
  obtain g i where "x = (g, i)" by (cases x)
  then show ?case using Cons.IH by (cases g) simp_all
qed

lemma row_number_found: "row_number_of (ROWNUMBER_COLUMN rn # hs) \<noteq> None"
  using row_number_kept [of "zip hs [1..<length (ROWNUMBER_COLUMN rn # hs)]" "(0, rn)"]
  by (simp add: row_number_of_def upt_conv_Cons del: upt_Suc not_None_eq)

lemma aggregated_zip: "aggregated (zip [0..<length gs] gs) = {i. i < length gs \<and> aggregatable (gs ! i)}"
  by (force simp: aggregated_def set_zip)

lemma computeTableAggregates_result:
  "case computeTableAggregates (ce_num e) (ce_db e) (ce_formatter e) \<lparr>ak_tableId = tid, ak_tableVersion = version_zero,
      ak_columnEntries = buildGridColumnGroups table, ak_inputDataFrame = df\<rparr> of
    Inl err \<Rightarrow> analysis_refused e tid table df
  | Inr (agg, gs) \<Rightarrow> gs = analyzed_groups table \<and> (analysis_refused e tid table df \<longleftrightarrow> system_refused e tid table df agg)"
proof -
  let ?t = "\<lparr>ak_tableId = tid, ak_tableVersion = version_zero, ak_columnEntries = buildGridColumnGroups table, ak_inputDataFrame = df\<rparr>"
  obtain sql where sql: "buildTableAggregationSQL (ce_num e) ?t = Some (sql, analyzed_groups table, ''_count'')"
    using buildTableAggregationSQL_some [of "ce_num e" ?t] by (auto simp: buildTableAggregationSQL_def analyzed_groups_def Let_def)
  show ?thesis
    by (auto simp: sql computeTableAggregates_def run_sql_def analysis_refused_def table_aggregation_def split: sum.splits option.splits)
qed

lemma computeSystemColumns_result:
  "case computeSystemColumns (ce_num e) (ce_db e) \<lparr>yk_tableId = tid, yk_tableVersion = version_zero, yk_columnEntries = analyzed_groups table,
      yk_inputTable = table, yk_inputDataFrame = df, yk_tableAggregate = agg\<rparr> of
    Inl err \<Rightarrow> system_refused e tid table df agg
  | Inr (table', df', gs) \<Rightarrow> (\<exists>rn hs. gs = ROWNUMBER_COLUMN rn # hs \<and> length hs = length (at_fields table) \<and> list_all ready_group hs) \<and>
      (system_refused e tid table df agg \<longleftrightarrow> list_ex (column_refused e tid agg df') (zip [0..<length gs] gs))"
proof -
  from buildSystemColumnSQLFrame_ready [OF analyzed_groups_stats(1)] obtain frame rn hs where
    b: "buildSystemColumnSQLFrame table (analyzed_groups table) (df_tableName df) agg = Some (frame, ROWNUMBER_COLUMN rn # hs)"
      "length hs = length (analyzed_groups table)" "list_all ready_group hs" "sq_groupBy frame = None"
    by blast
  obtain sql where sql: "toSQL (ce_num e) frame = Some sql" using toSQL_some [of "ce_num e" frame] b(4) by auto
  show ?thesis using b(2,3) analyzed_groups_stats(2)
    by (auto simp: b(1) sql computeSystemColumns_def run_sql_def system_refused_def simp del: upt_Suc split: sum.splits option.splits)
qed

text \<open>A table after its analysis.\<close>

definition fully_analyzed :: "ArrowTable \<Rightarrow> TableComputationState \<Rightarrow> bool" where
  "fully_analyzed table ts \<longleftrightarrow> tc_dataFrame ts \<noteq> None \<and> tc_tableAggregation ts \<noteq> None \<and> tc_rowNumberColumnName ts \<noteq> None \<and>
    tc_version ts = \<lparr>cv_data = 2, cv_filter = 0\<rparr> \<and> tc_crossFilters ts = [] \<and> tc_filterTable ts = None \<and>
    length (tc_columnGroups ts) = Suc (length (at_fields table)) \<and>
    map (\<lambda>c. arr_get (tc_columnAggregates ts) c \<noteq> None) [0..<length (tc_columnGroups ts)] = map aggregatable (tc_columnGroups ts)"

lemma fully_analyzedI:
  assumes "tc_dataFrame ts = Some df" "tc_tableAggregation ts = Some agg" "tc_rowNumberColumnName ts \<noteq> None"
    "tc_version ts = \<lparr>cv_data = 2, cv_filter = 0\<rparr>" "tc_crossFilters ts = []" "tc_filterTable ts = None"
    "length (tc_columnGroups ts) = Suc (length (at_fields table))"
    "\<And>i. arr_get (tc_columnAggregates ts) i \<noteq> None \<longleftrightarrow> i \<in> {i. i < length (tc_columnGroups ts) \<and> aggregatable (tc_columnGroups ts ! i)}"
  shows "fully_analyzed table ts"
proof -
  have "map (\<lambda>c. arr_get (tc_columnAggregates ts) c \<noteq> None) [0..<length (tc_columnGroups ts)] = map aggregatable (tc_columnGroups ts)"
    by (rule nth_equalityI) (simp_all add: assms(8) del: not_None_eq)
  then show ?thesis using assms(1-7) by (simp add: fully_analyzed_def)
qed

text \<open>C8. The analysis of a query result without a projection request, when no other action interleaves and the database
  answers each of its queries (with a table or an error): it never waits for a task that is not registered, never throws
  in the reducer, and returns exactly when the table was inserted and none of its own queries (the statistics of the
  table, the system columns, the aggregate of each ordinal or string column) was rejected or answered with a table that
  lacks what was asked for. When it returns, the table is complete: it has a data frame, table statistics, a row number
  and exactly the aggregates of the columns that have one.\<close>

theorem analysis_completes:
  "case run_analysis (analyzeTable tid table life) e ins now s m of
     An_done s' m' \<Rightarrow> (case ins table of None \<Rightarrow> False | Some df \<Rightarrow> \<not> analysis_refused e tid table df) \<and>
       (case js_get (cp_tableComputations s') tid of None \<Rightarrow> False | Some ts \<Rightarrow> fully_analyzed table ts)
   | An_failed s' m' \<Rightarrow> (case ins table of None \<Rightarrow> True | Some df \<Rightarrow> analysis_refused e tid table df)
   | _ \<Rightarrow> False"
proof (cases "ins table")
  case None
  then show ?thesis by (simp add: analyzeTable_def Let_def)
next
  case (Some df)
  let ?ts = "createTableComputationState tid table (buildGridColumnGroups table) life"
  let ?ak = "\<lparr>ak_tableId = tid, ak_tableVersion = version_zero, ak_columnEntries = buildGridColumnGroups table, ak_inputDataFrame = df\<rparr>"
  define s1 where "s1 = set_table tid (?ts\<lparr>tc_version := withDataIncrement (tc_version ?ts), tc_dataFrame := Some df\<rparr>)
    (set_table tid ?ts s)"
  have get1: "js_get (cp_tableComputations s1) (ak_tableId ?ak) =
      Some (?ts\<lparr>tc_version := withDataIncrement (tc_version ?ts), tc_dataFrame := Some df\<rparr>)"
    by (simp add: s1_def set_table_get)
  obtain m1 where run1: "run_analysis (analyzeTable tid table life) e ins now s m =
      run_analysis (An_task (TABLE_AGGREGATION_TASK ?ak) (analyze_aggregated tid table df)) e ins now s1 m1"
    using Some by (simp add: analyzeTable_def Let_def set_table_get s1_def del: run_analysis.simps(4))
  note step1 = await_aggregation [OF get1, where e = e and k = "analyze_aggregated tid table df" and ins = ins and now = now and m = m1]
  show ?thesis
  proof (cases "computeTableAggregates (ce_num e) (ce_db e) (ce_formatter e) ?ak")
    case (Inl err)
    then show ?thesis using step1 computeTableAggregates_result [of e tid table df] Some unfolding run1
      by (auto simp del: run_analysis.simps)
  next
    case (Inr x)
    obtain agg where x: "x = (agg, analyzed_groups table)"
        and agg: "analysis_refused e tid table df \<longleftrightarrow> system_refused e tid table df agg"
      using computeTableAggregates_result [of e tid table df] Inr by (cases x) auto
    let ?yk = "\<lparr>yk_tableId = tid, yk_tableVersion = version_zero, yk_columnEntries = analyzed_groups table, yk_inputTable = table,
      yk_inputDataFrame = df, yk_tableAggregate = agg\<rparr>"
    from step1 Inr x obtain s2 m2 tasks where run2: "run_analysis (An_task (TABLE_AGGREGATION_TASK ?ak) (analyze_aggregated tid table df)) e ins now s1 m1 =
        run_analysis (An_task (SYSTEM_COLUMN_COMPUTATION_TASK ?yk) (analyze_system tid agg)) e ins now s2 m2"
      and get2: "js_get (cp_tableComputations s2) (yk_tableId ?yk) = Some (?ts\<lparr>tc_version := withDataIncrement (tc_version ?ts), tc_dataFrame := Some df,
        tc_tableAggregation := Some agg, tc_tasks := tasks\<rparr>)"
      by (auto simp: analyze_aggregated_def simp del: run_analysis.simps)
    note step2 = await_system [OF get2, where e = e and k = "analyze_system tid agg" and ins = ins and now = now and m = m2]
    show ?thesis
    proof (cases "computeSystemColumns (ce_num e) (ce_db e) ?yk")
      case (Inl err)
      then show ?thesis using step2 computeSystemColumns_result [of e tid table df agg] Some agg unfolding run1 run2
        by (auto simp del: run_analysis.simps)
    next
      case sys: (Inr y)
      obtain table' df' gs where y: "y = (table', df', gs)" by (cases y)
      with sys computeSystemColumns_result [of e tid table df agg] obtain rn hs where
        gs: "system_refused e tid table df agg \<longleftrightarrow> list_ex (column_refused e tid agg df') (zip [0..<length gs] gs)"
          "gs = ROWNUMBER_COLUMN rn # hs" "length hs = length (at_fields table)" "list_all ready_group hs" by auto
      from step2 sys y obtain s3 m3 tasks' where
        run3: "run_analysis (An_task (SYSTEM_COLUMN_COMPUTATION_TASK ?yk) (analyze_system tid agg)) e ins now s2 m2 =
          run_analysis (analyze_columns tid agg df' (zip [0..<length gs] gs)) e ins now s3 m3"
        and get3: "js_get (cp_tableComputations s3) tid = Some (?ts\<lparr>tc_tableAggregation := Some agg,
            tc_version := withDataIncrement (withDataIncrement (tc_version ?ts)), tc_dataTable := table', tc_dataFrame := Some df', tc_columnGroups := gs,
            tc_rowNumberColumnGroup := map_option fst (row_number_of gs), tc_rowNumberColumnName := map_option snd (row_number_of gs),
            tc_tasks := tasks'\<rparr>)"
        by (auto simp: analyze_system_def simp del: run_analysis.simps)
      have "ready_group (ROWNUMBER_COLUMN rn)" by (simp add: ready_group_def with_stats_def)
      then have "\<forall>(c, g) \<in> set (zip [0..<length gs] gs). ready_group g"
        using gs(2,4) by (auto simp: list_all_iff dest!: set_zip_rightD)
      note cols = analyze_columns_run [OF get3 this, where e = e and agg = agg and df = df' and ins = ins and now = now and m = m3,
          unfolded columns_analyzed_def aggregated_zip]
      show ?thesis
      proof (cases "run_analysis (analyze_columns tid agg df' (zip [0..<length gs] gs)) e ins now s3 m3")
        case (An_done s4 m4)
        then obtain tasks'' aggs where get4: "js_get (cp_tableComputations s4) tid = Some (?ts\<lparr>tc_tableAggregation := Some agg,
            tc_version := withDataIncrement (withDataIncrement (tc_version ?ts)), tc_dataTable := table', tc_dataFrame := Some df', tc_columnGroups := gs,
            tc_rowNumberColumnGroup := map_option fst (row_number_of gs), tc_rowNumberColumnName := map_option snd (row_number_of gs),
            tc_columnAggregates := aggs, tc_tasks := tasks''\<rparr>)"
          and aggs: "\<And>i. arr_get aggs i \<noteq> None \<longleftrightarrow> i \<in> {i. i < length gs \<and> aggregatable (gs ! i)}"
          using cols by (auto simp: createTableComputationState_def arr_get_def simp del: not_None_eq)
        have "fully_analyzed table (the (js_get (cp_tableComputations s4) tid))"
          by (rule fully_analyzedI [of _ df' agg])
             (use row_number_found [of rn hs] gs(2,3) aggs in \<open>simp_all add: get4 createTableComputationState_def withDataIncrement_def del: not_None_eq\<close>)
        then show ?thesis unfolding run1 run2 run3 An_done using get4 Some agg gs(1) cols An_done by simp
      next
        case (An_failed s4 m4)
        then show ?thesis using cols agg gs(1) Some unfolding run1 run2 run3 by auto
      qed (use cols in simp_all)
    qed
  qed
qed

end
