(* ===== verification/Compute_Filters.thy ===== *)
theory Compute_Filters
  imports Compute_Runs Compute_Scheduler
begin

text \<open>Cross filters of a table: the effect of \<^verbatim>\<open>view/query_result/use_cross_filters.ts\<close> asks for a filter until the table
  shows the selection.\<close>

section \<open>Rounds of filtering\<close>

lemma scalarFiltersEqual_refl: "scalarFiltersEqual fs fs"
  by (auto simp: scalarFiltersEqual_def list_all_iff zip_same)

text \<open>\<open>settles_in n\<close>: after at most \<open>n\<close> rounds the effect has nothing more to ask for.\<close>

fun settles_in :: "nat \<Rightarrow> ComputeEnv \<Rightarrow> timestamp \<Rightarrow> nat \<Rightarrow> ComputationState \<Rightarrow> DataFrameRegistry \<Rightarrow> bool" where
  "settles_in n e now tid s m = (case js_get (cp_tableComputations s) tid of None \<Rightarrow> True
    | Some ts \<Rightarrow> (case filter_request (ce_num e) ts of None \<Rightarrow> True
       | Some (key, task) \<Rightarrow> (case n of 0 \<Rightarrow> False
          | Suc k \<Rightarrow> (case filter_round e now task s m of Threw m' \<Rightarrow> False | Computed s' m' \<Rightarrow> settles_in k e now tid s' m'))))"

declare settles_in.simps [simp del]

definition not_ahead :: "TableComputationState \<Rightarrow> bool" where
  "not_ahead ts \<longleftrightarrow> (case tc_filterTable ts of None \<Rightarrow> True | Some ft \<Rightarrow> cv_filter (ft_version ft) \<le> cv_filter (tc_version ts))"

lemma request_of_table: "filter_request num ts = Some (key, task) \<Longrightarrow> fk_tableId task = tc_tableId ts \<and>
    fk_filters task = createFilterTransforms (tc_crossFilters ts) \<and> fk_tableVersion task = tc_version ts"
  by (auto simp: filter_request_def Let_def split: option.splits if_splits)

text \<open>The failure of a filter does not depend on the version it is for.\<close>

lemma filterTable_version:
  "filterTable num db (t\<lparr>fk_tableVersion := v\<rparr>) = map_result (map_option (\<lambda>ft. ft\<lparr>ft_version := v\<rparr>)) (filterTable num db t)"
proof -
  have "filter_frame (t\<lparr>fk_tableVersion := v\<rparr>) = filter_frame t" by (simp add: filter_frame_def)
  then show ?thesis by (cases "run_sql db ''Failed to filter table'' (toSQL num (filter_frame t))") (auto simp: filterTable_def)
qed

text \<open>A round, on the table it is for.\<close>

lemma filter_round_runs:
  assumes "js_get (cp_tableComputations s) (fk_tableId task) = Some ts"
  defines "v \<equiv> withFilterIncrement (tc_version ts)"
  shows "\<exists>s' m' ts' t. filter_round e now task s m = Computed s' m' \<and>
    js_get (cp_tableComputations s') (fk_tableId task) = Some ts' \<and> tc_version ts' = v \<and>
    tc_tableId ts' = tc_tableId ts \<and> tc_crossFilters ts' = tc_crossFilters ts \<and> tc_dataFrame ts' = tc_dataFrame ts \<and>
    tc_rowNumberColumnName ts' = tc_rowNumberColumnName ts \<and> tc_dataTable ts' = tc_dataTable ts \<and>
    tc_dataTableFieldsByName ts' = tc_dataTableFieldsByName ts \<and>
    tt_filteringTask (tc_tasks ts') = Some t \<and> fk_filters (wp_task t) = fk_filters task \<and>
    (case filterTable (ce_num e) (ce_db e) task of
       Inr r \<Rightarrow> tc_filterTable ts' = map_option (\<lambda>ft. ft\<lparr>ft_version := v\<rparr>) r
     | Inl err \<Rightarrow> tc_filterTable ts' = tc_filterTable ts \<and> tp_status (wp_progress t) = Some TASK_FAILED)"
proof (cases "filterTable (ce_num e) (ce_db e) task")
  case (Inl err)
  then show ?thesis using assms
    by (simp add: filter_round_def updateTask_def Let_def computed_of_def set_table_get js_get_set processTask_def filterTable_version
        set_table_def with_progress_def spread_progress_def or_kept_def running_progress_def)
next
  case (Inr r)
  then show ?thesis using assms
    by (simp add: filter_round_def updateTask_def Let_def computed_of_def set_table_get js_get_set processTask_def filterTable_version
        set_table_def filtering_succeeded_def tableFilteringSucceded_def filterMatches_iff task_succeeded_def)
qed

text \<open>What the effect asks for after a round.\<close>

lemma request_after_round:
  assumes req: "filter_request num ts = Some (key, task)"
    and same: "tc_tableId ts' = tc_tableId ts" "tc_crossFilters ts' = tc_crossFilters ts" "tc_dataFrame ts' = tc_dataFrame ts"
      "tc_rowNumberColumnName ts' = tc_rowNumberColumnName ts" "tc_dataTable ts' = tc_dataTable ts"
      "tc_dataTableFieldsByName ts' = tc_dataTableFieldsByName ts"
    and v: "tc_version ts' = withFilterIncrement (tc_version ts)"
    and t: "tt_filteringTask (tc_tasks ts') = Some t" "fk_filters (wp_task t) = fk_filters task"
  shows "tc_filterTable ts' = map_option (\<lambda>ft. ft\<lparr>ft_version := tc_version ts'\<rparr>) r \<Longrightarrow> (r = None \<longleftrightarrow> fk_filters task = []) \<Longrightarrow>
      filter_request num ts' = None"
    and "tc_filterTable ts' = tc_filterTable ts \<Longrightarrow> tp_status (wp_progress t) = Some TASK_FAILED \<Longrightarrow> not_ahead ts \<Longrightarrow>
      \<exists>key'. filter_request num ts' = Some (key', task\<lparr>fk_tableVersion := tc_version ts'\<rparr>)"
proof -
  have sel: "createFilterTransforms (tc_crossFilters ts) = fk_filters task" using request_of_table [OF req] by simp
  show "filter_request num ts' = None"
    if "tc_filterTable ts' = map_option (\<lambda>ft. ft\<lparr>ft_version := tc_version ts'\<rparr>) r" "r = None \<longleftrightarrow> fk_filters task = []"
    using that same t sel
    by (cases r) (auto simp: filter_request_def Let_def filterMatches_iff scalarFiltersEqual_refl split: option.splits)
  show "\<exists>key'. filter_request num ts' = Some (key', task\<lparr>fk_tableVersion := tc_version ts'\<rparr>)"
    if a: "tc_filterTable ts' = tc_filterTable ts" "tp_status (wp_progress t) = Some TASK_FAILED" "not_ahead ts"
  proof -
    have "\<not> filterMatches (ft_version ft) (tc_version ts')" if "tc_filterTable ts = Some ft" for ft
      using that a(3) v by (auto simp: not_ahead_def filterMatches_def withFilterIncrement_def)
    then show ?thesis using req same t sel a
      by (cases task) (auto simp: filter_request_def Let_def split: option.splits if_splits)
  qed
qed

lemma filterTable_none: "filterTable num db task = Inr r \<Longrightarrow> r = None \<longleftrightarrow> fk_filters task = []"
  by (cases "run_sql db ''Failed to filter table'' (toSQL num (filter_frame task))") (auto simp: filterTable_def split: if_splits)

definition answered :: "ComputeEnv \<Rightarrow> TableFilteringTask \<Rightarrow> bool" where
  "answered e task \<longleftrightarrow> (case filterTable (ce_num e) (ce_db e) task of Inr r \<Rightarrow> True | Inl err \<Rightarrow> False)"

lemma answered_version: "answered e (task\<lparr>fk_tableVersion := v\<rparr>) = answered e task"
  by (cases "filterTable (ce_num e) (ce_db e) task") (simp_all add: answered_def filterTable_version)

text \<open>C27. Filtering ends iff the database answers: with a table that is not yet filtered by the selection, the effect asks
  for one filter, and when the database answers it, with a filter table or with none for an empty selection, the effect
  has nothing more to ask for; when the database rejects the filter, the table asks for the same filter in every round,
  without end.\<close>

theorem filtering_settles_iff_answered:
  assumes "js_get (cp_tableComputations s) tid = Some ts" "tc_tableId ts = tid" "not_ahead ts"
    and "filter_request (ce_num e) ts = Some (key, task)"
  shows "settles_in n e now tid s m \<longleftrightarrow> n > 0 \<and> answered e task"
  using assms
proof (induction n arbitrary: s m ts key task)
  case 0
  then show ?case by (simp add: settles_in.simps)
next
  case (Suc n)
  have tid: "fk_tableId task = tid" using request_of_table [OF Suc.prems(4)] Suc.prems(2) by simp
  obtain s' m' ts' t where r: "filter_round e now task s m = Computed s' m'" "js_get (cp_tableComputations s') tid = Some ts'"
      "tc_version ts' = withFilterIncrement (tc_version ts)" "tt_filteringTask (tc_tasks ts') = Some t"
      "fk_filters (wp_task t) = fk_filters task"
    and same: "tc_tableId ts' = tc_tableId ts" "tc_crossFilters ts' = tc_crossFilters ts" "tc_dataFrame ts' = tc_dataFrame ts"
      "tc_rowNumberColumnName ts' = tc_rowNumberColumnName ts" "tc_dataTable ts' = tc_dataTable ts"
      "tc_dataTableFieldsByName ts' = tc_dataTableFieldsByName ts"
    and out: "case filterTable (ce_num e) (ce_db e) task of
       Inr r \<Rightarrow> tc_filterTable ts' = map_option (\<lambda>ft. ft\<lparr>ft_version := tc_version ts'\<rparr>) r
     | Inl err \<Rightarrow> tc_filterTable ts' = tc_filterTable ts \<and> tp_status (wp_progress t) = Some TASK_FAILED"
    using filter_round_runs [where s = s and task = task and ts = ts and e = e and now = now and m = m] Suc.prems(1) tid by metis
  have step: "settles_in (Suc n) e now tid s m = settles_in n e now tid s' m'"
    using Suc.prems(1,4) r(1) by (subst settles_in.simps) simp
  note after = request_after_round [OF Suc.prems(4) same r(3-5)]
  show ?case
  proof (cases "filterTable (ce_num e) (ce_db e) task")
    case (Inr x)
    then have "filter_request (ce_num e) ts' = None" using after(1) out filterTable_none [OF Inr] by simp
    then have "settles_in n e now tid s' m'" using r(2) by (subst settles_in.simps) simp
    then show ?thesis using step Inr by (simp add: answered_def)
  next
    case (Inl err)
    then have tf: "tc_filterTable ts' = tc_filterTable ts" "tp_status (wp_progress t) = Some TASK_FAILED" using out by simp_all
    obtain key' where req: "filter_request (ce_num e) ts' = Some (key', task\<lparr>fk_tableVersion := tc_version ts'\<rparr>)"
      using after(2) tf Suc.prems(3) by blast
    have "not_ahead ts'" using Suc.prems(3) tf r(3) by (auto simp: not_ahead_def withFilterIncrement_def split: option.splits)
    then have "settles_in n e now tid s' m' \<longleftrightarrow> n > 0 \<and> answered e (task\<lparr>fk_tableVersion := tc_version ts'\<rparr>)"
      using Suc.IH r(2) same(1) Suc.prems(2) req by metis
    then show ?thesis using step Inl answered_version [where e = e and task = task] by (simp add: answered_def)
  qed
qed

text \<open>A table with a brushed column, and a database that rejects every query.\<close>

definition brushed_table :: TableComputationState where
  "brushed_table = (createTableComputationState 1 \<lparr>at_object = 0, at_fields = [], at_numRows = 0\<rparr> [] 0)
     \<lparr>tc_dataFrame := Some \<lparr>df_object = 7, df_tableName = ''t''\<rparr>, tc_rowNumberColumnName := Some ''rn'',
      tc_crossFilters := [(0, HISTOGRAM_FILTER \<lparr>hf_selection = (1, 3), hf_filters = [\<lparr>fl_fieldName = ''b'', fl_op = Ge_Op, fl_value = 1\<rparr>]\<rparr>)]\<rparr>"

definition rejecting :: ComputeEnv where
  "rejecting = \<lparr>ce_num = (\<lambda>_. ''1''), ce_db = (\<lambda>_. Inl None),
     ce_reader = \<lparr>rd_int = (\<lambda>_ _ _. None), rd_text = (\<lambda>_ _ _. None), rd_time = (\<lambda>_ _ _. None)\<rparr>,
     ce_formatter = (\<lambda>_. 0), ce_error = (\<lambda>_. 0)\<rparr>"

definition brushed_state :: ComputationState where
  "brushed_state = set_table 1 brushed_table createComputationState"

definition brushed_request :: "string \<times> TableFilteringTask" where
  "brushed_request = the (filter_request (ce_num rejecting) brushed_table)"

lemma brushed:
  "js_get (cp_tableComputations brushed_state) 1 = Some brushed_table"
  "tc_tableId brushed_table = 1" "not_ahead brushed_table"
  "filter_request (ce_num rejecting) brushed_table = Some (fst brushed_request, snd brushed_request)"
  by code_simp+

lemma brushed_rejected: "\<not> answered rejecting (snd brushed_request)"
  by code_simp

theorem filtering_settles_iff_answered_witness: "\<not> settles_in 9 rejecting 5 1 brushed_state no_frames"
  using filtering_settles_iff_answered [OF brushed, of 9 5 no_frames] brushed_rejected by simp

section \<open>The queue of filter requests\<close>

text \<open>Requests that arrive while nothing settles, and the tasks that are launched.\<close>

fun filter_requests :: "(string \<times> TableFilteringTask) list \<Rightarrow> FilterQueues \<Rightarrow> FilterQueues \<times> TableFilteringTask list" where
  "filter_requests [] qs = (qs, [])"
| "filter_requests ((key, task) # rs) qs = (case scheduleLatestFilter key task qs of (qs', launched) \<Rightarrow>
     (case filter_requests rs qs' of (qs'', ts) \<Rightarrow> (qs'', (case launched of None \<Rightarrow> ts | Some t \<Rightarrow> t # ts))))"

lemma requests_while_active:
  assumes "js_get qs tid = Some \<lparr>fq_activeKey = Some k, fq_pending = p\<rparr>"
    and "\<forall>(k', t) \<in> set rs. fk_tableId t = tid"
    and "case p of None \<Rightarrow> True | Some (k', t) \<Rightarrow> k' \<noteq> k"
  shows "\<exists>qs' p'. filter_requests rs qs = (qs', []) \<and> js_get qs' tid = Some \<lparr>fq_activeKey = Some k, fq_pending = p'\<rparr> \<and>
    (rs = [] \<longrightarrow> p' = p) \<and>
    (rs \<noteq> [] \<longrightarrow> (case p' of None \<Rightarrow> fst (last rs) = k
      | Some (k', t) \<Rightarrow> k' = fst (last rs) \<and> k' \<noteq> k \<and> ((k', t) \<in> set rs \<or> p = Some (k', t))))"
  using assms
proof (induction rs arbitrary: qs p)
  case Nil
  then show ?case by simp
next
  case (Cons r rs)
  obtain k1 t1 where r: "r = (k1, t1)" by (cases r)
  define p1 where "p1 = (if k1 = k then None else if (case p of Some q \<Rightarrow> fst q = k1 | None \<Rightarrow> False) then p else Some (k1, t1))"
  have tid: "fk_tableId t1 = tid" using Cons.prems(2) r by simp
  have "snd (scheduleLatestFilter k1 t1 qs) = None \<and>
      js_get (fst (scheduleLatestFilter k1 t1 qs)) tid = Some \<lparr>fq_activeKey = Some k, fq_pending = p1\<rparr>"
    using Cons.prems(1) tid by (cases p) (simp_all add: scheduleLatestFilter_def Let_def js_get_set p1_def)
  then obtain qs1 where s1: "scheduleLatestFilter k1 t1 qs = (qs1, None)" "js_get qs1 tid = Some \<lparr>fq_activeKey = Some k, fq_pending = p1\<rparr>"
    by (cases "scheduleLatestFilter k1 t1 qs") simp
  have p1: "case p1 of None \<Rightarrow> True | Some (k', t) \<Rightarrow> k' \<noteq> k"
    using Cons.prems(3) by (auto simp: p1_def split: option.splits)
  from Cons.IH [OF s1(2) _ p1] Cons.prems(2) obtain qs' p' where IH:
      "filter_requests rs qs1 = (qs', [])" "js_get qs' tid = Some \<lparr>fq_activeKey = Some k, fq_pending = p'\<rparr>"
      "rs = [] \<longrightarrow> p' = p1"
      "rs \<noteq> [] \<longrightarrow> (case p' of None \<Rightarrow> fst (last rs) = k
        | Some (k', t) \<Rightarrow> k' = fst (last rs) \<and> k' \<noteq> k \<and> ((k', t) \<in> set rs \<or> p1 = Some (k', t)))" by auto
  have "case p' of None \<Rightarrow> fst (last (r # rs)) = k
      | Some (k', t) \<Rightarrow> k' = fst (last (r # rs)) \<and> k' \<noteq> k \<and> ((k', t) \<in> set (r # rs) \<or> p = Some (k', t))"
  proof (cases "rs = []")
    case True
    then show ?thesis using IH(3) r by (auto simp: p1_def split: option.splits if_splits)
  next
    case False
    then show ?thesis using IH(4) r by (auto simp: p1_def split: option.splits if_splits)
  qed
  then show ?case using s1(1) IH(1,2) r by auto
qed

text \<open>C39. The newest filter request runs, the ones between never: of the requests on a table whose queue is idle, the
  first one is launched and no other while it runs; when it settles, nothing more runs if the newest request is the one
  that ran, and otherwise the newest one is launched, whatever was asked for in between.\<close>

theorem newest_filter_runs:
  assumes "js_get qs tid = None" and "\<forall>(k', t) \<in> set ((k, task) # rs). fk_tableId t = tid"
  shows "\<exists>qs' qs'' next_task. filter_requests ((k, task) # rs) qs = (qs', [task]) \<and> filter_settled tid qs' = (qs'', next_task) \<and>
    (if fst (last ((k, task) # rs)) = k then next_task = None \<and> js_get qs'' tid = None
     else \<exists>t. next_task = Some t \<and> (fst (last rs), t) \<in> set rs \<and>
       js_get qs'' tid = Some \<lparr>fq_activeKey = Some (fst (last rs)), fq_pending = None\<rparr>)"
proof -
  obtain qs1 where first: "scheduleLatestFilter k task qs = (qs1, Some task)" "js_get qs1 tid = Some \<lparr>fq_activeKey = Some k, fq_pending = None\<rparr>"
    using assms by (auto simp: scheduleLatestFilter_def Let_def js_get_set)
  from requests_while_active [OF first(2), of rs] assms(2) obtain qs' p' where
      rest: "filter_requests rs qs1 = (qs', [])" "js_get qs' tid = Some \<lparr>fq_activeKey = Some k, fq_pending = p'\<rparr>"
        "rs = [] \<longrightarrow> p' = None"
        "rs \<noteq> [] \<longrightarrow> (case p' of None \<Rightarrow> fst (last rs) = k | Some (k', t) \<Rightarrow> k' = fst (last rs) \<and> k' \<noteq> k \<and>
          ((k', t) \<in> set rs \<or> None = Some (k', t)))"
    by auto
  have ran: "filter_requests ((k, task) # rs) qs = (qs', [task])" using first(1) rest(1) by simp
  show ?thesis
  proof (cases p')
    case None
    then have "fst (last ((k, task) # rs)) = k" using rest(4) by (cases "rs = []") auto
    then show ?thesis using ran rest(2) None by (simp add: filter_settled_def js_get_delete)
  next
    case (Some q)
    then have "rs \<noteq> []" using rest(3) by auto
    then show ?thesis using ran rest(2,4) Some by (cases q) (auto simp: filter_settled_def js_get_set)
  qed
qed

theorem newest_filter_runs_witness:
  "\<exists>qs' qs'' next_task.
    filter_requests ((''a'', snd brushed_request) # [(''b'', snd brushed_request), (''c'', snd brushed_request)]) [] = (qs', [snd brushed_request]) \<and>
    filter_settled 1 qs' = (qs'', next_task) \<and>
    (if fst (last ((''a'', snd brushed_request) # [(''b'', snd brushed_request), (''c'', snd brushed_request)])) = ''a''
     then next_task = None \<and> js_get qs'' 1 = None
     else \<exists>t. next_task = Some t \<and> (fst (last [(''b'', snd brushed_request), (''c'', snd brushed_request)]), t)
         \<in> set [(''b'', snd brushed_request), (''c'', snd brushed_request)] \<and>
       js_get qs'' 1 = Some \<lparr>fq_activeKey = Some (fst (last [(''b'', snd brushed_request), (''c'', snd brushed_request)])), fq_pending = None\<rparr>)"
proof (rule newest_filter_runs)
  show "js_get ([] :: FilterQueues) 1 = None" by simp
  have "fk_tableId (snd brushed_request) = 1" by code_simp
  then show "\<forall>(k', t) \<in> set ((''a'', snd brushed_request) # [(''b'', snd brushed_request), (''c'', snd brushed_request)]). fk_tableId t = 1"
    by simp
qed

end
