(* ===== verification/File_System.thy ===== *)
theory File_System
  imports Storage_Programs Storage_Tasks "HOL-Library.Word"
begin

text \<open>The file system of the origin (\<^verbatim>\<open>FileSystemDirectoryHandle\<close> and \<^verbatim>\<open>FileSystemFileHandle\<close> of the web platform) as
  the storage backend uses it: a map from paths to directories and files, calls that return or throw and leave a file
  system behind, and the texts a file may hold. A handle is the path it was opened at.\<close>

section \<open>Files\<close>

type_synonym path = "string list"

text \<open>\<^verbatim>\<open>NotebookEntry\<close> and \<^verbatim>\<open>StorageManifest\<close>. \<open>mf_notebooks\<close> is \<open>None\<close> when the member is missing or not an array,
  \<open>mf_sessions\<close> says whether \<^verbatim>\<open>sessions\<close> is an array, \<open>mf_appSettings\<close> is \<open>None\<close> when missing or null.\<close>

record NotebookEntry =
  ne_path :: string
  ne_storageType :: "string option"
  ne_nativePath :: "string option"

record StorageManifest =
  mf_notebooks :: "NotebookEntry list option"
  mf_sessions :: bool
  mf_appSettings :: "jsv option"

text \<open>What a file holds: a text, the JSON text of a manifest or of a notebook, which is kept as the value it is the text
  of, or bytes.\<close>

datatype file_data =
    Text string
  | ManifestText StorageManifest
  | NotebookText NotebookData
  | Binary "8 word list"

datatype fs_entry = DirEntry | FileEntry file_data timestamp

text \<open>The root has the empty path and is not in the map.\<close>

type_synonym file_system = "(path, fs_entry) jsmap"

definition fs_at :: "file_system \<Rightarrow> path \<Rightarrow> fs_entry option" where
  "fs_at s p = (if p = [] then Some DirEntry else js_get s p)"

section \<open>Calls\<close>

datatype fs_error = NotFoundError | TypeMismatchError | InvalidModificationError | NameTypeError | JsonError | PlainError string

type_synonym 'a fs_op = "file_system \<Rightarrow> (fs_error + 'a) \<times> file_system"

definition fs_return :: "'a \<Rightarrow> 'a fs_op" where
  "fs_return x = (\<lambda>s. (Inr x, s))"

definition fs_throw :: "fs_error \<Rightarrow> 'a fs_op" where
  "fs_throw e = (\<lambda>s. (Inl e, s))"

definition fs_bind :: "'a fs_op \<Rightarrow> ('a \<Rightarrow> 'b fs_op) \<Rightarrow> 'b fs_op" where
  "fs_bind m f = (\<lambda>s. case m s of (Inl e, s') \<Rightarrow> (Inl e, s') | (Inr x, s') \<Rightarrow> f x s')"

definition fs_catch :: "'a fs_op \<Rightarrow> (fs_error \<Rightarrow> 'a fs_op) \<Rightarrow> 'a fs_op" where
  "fs_catch m h = (\<lambda>s. case m s of (Inl e, s') \<Rightarrow> h e s' | r \<Rightarrow> r)"

fun fs_each :: "('a \<Rightarrow> unit fs_op) \<Rightarrow> 'a list \<Rightarrow> unit fs_op" where
  "fs_each f [] = fs_return ()"
| "fs_each f (x # xs) = fs_bind (f x) (\<lambda>_. fs_each f xs)"

text \<open>The names the platform accepts.\<close>

definition valid_name :: "string \<Rightarrow> bool" where
  "valid_name n \<longleftrightarrow> n \<noteq> '''' \<and> n \<noteq> ''.'' \<and> n \<noteq> ''..'' \<and> CHR 0x2F \<notin> set n"

definition getDirectoryHandle :: "bool \<Rightarrow> path \<Rightarrow> string \<Rightarrow> path fs_op" where
  "getDirectoryHandle create p nm = (\<lambda>s.
    if \<not> valid_name nm then (Inl NameTypeError, s)
    else if fs_at s p \<noteq> Some DirEntry then (Inl NotFoundError, s)
    else (case fs_at s (p @ [nm]) of
        Some DirEntry \<Rightarrow> (Inr (p @ [nm]), s)
      | Some (FileEntry d t) \<Rightarrow> (Inl TypeMismatchError, s)
      | None \<Rightarrow> if create then (Inr (p @ [nm]), js_set s (p @ [nm]) DirEntry) else (Inl NotFoundError, s)))"

definition getFileHandle :: "timestamp \<Rightarrow> bool \<Rightarrow> path \<Rightarrow> string \<Rightarrow> path fs_op" where
  "getFileHandle now create p nm = (\<lambda>s.
    if \<not> valid_name nm then (Inl NameTypeError, s)
    else if fs_at s p \<noteq> Some DirEntry then (Inl NotFoundError, s)
    else (case fs_at s (p @ [nm]) of
        Some (FileEntry d t) \<Rightarrow> (Inr (p @ [nm]), s)
      | Some DirEntry \<Rightarrow> (Inl TypeMismatchError, s)
      | None \<Rightarrow> if create then (Inr (p @ [nm]), js_set s (p @ [nm]) (FileEntry (Text '''') now)) else (Inl NotFoundError, s)))"

definition getFile :: "path \<Rightarrow> (file_data \<times> timestamp) fs_op" where
  "getFile p = (\<lambda>s. case fs_at s p of Some (FileEntry d t) \<Rightarrow> (Inr (d, t), s) | _ \<Rightarrow> (Inl NotFoundError, s))"

text \<open>\<^verbatim>\<open>createWritable()\<close>, \<^verbatim>\<open>write(data)\<close>, \<^verbatim>\<open>close()\<close>.\<close>

definition writeFile :: "timestamp \<Rightarrow> path \<Rightarrow> file_data \<Rightarrow> unit fs_op" where
  "writeFile now p d = (\<lambda>s. case fs_at s p of Some (FileEntry d' t) \<Rightarrow> (Inr (), js_set s p (FileEntry d now)) | _ \<Rightarrow> (Inl NotFoundError, s))"

definition below :: "path \<Rightarrow> path \<Rightarrow> bool" where
  "below p q \<longleftrightarrow> length p \<le> length q \<and> take (length p) q = p"

definition removeEntry :: "bool \<Rightarrow> path \<Rightarrow> string \<Rightarrow> unit fs_op" where
  "removeEntry recursive p nm = (\<lambda>s.
    if \<not> valid_name nm then (Inl NameTypeError, s)
    else if fs_at s p \<noteq> Some DirEntry then (Inl NotFoundError, s)
    else (case fs_at s (p @ [nm]) of
        None \<Rightarrow> (Inl NotFoundError, s)
      | Some (FileEntry d t) \<Rightarrow> (Inr (), js_delete s (p @ [nm]))
      | Some DirEntry \<Rightarrow>
          if \<not> recursive \<and> list_ex (\<lambda>(q, x). below (p @ [nm]) q \<and> q \<noteq> p @ [nm]) s then (Inl InvalidModificationError, s)
          else (Inr (), filter (\<lambda>(q, x). \<not> below (p @ [nm]) q) s)))"

definition dir_entries :: "path \<Rightarrow> (string \<times> fs_entry) list fs_op" where
  "dir_entries p = (\<lambda>s. if fs_at s p \<noteq> Some DirEntry then (Inl NotFoundError, s)
    else (Inr (map (\<lambda>(q, x). (last q, x)) (filter (\<lambda>(q, x). q \<noteq> [] \<and> butlast q = p) s)), s))"

text \<open>\<^verbatim>\<open>handle.move(directory, name)\<close> replaces a file of that name.\<close>

definition moveHandle :: "path \<Rightarrow> path \<Rightarrow> string \<Rightarrow> unit fs_op" where
  "moveHandle p dest nm = (\<lambda>s.
    if \<not> valid_name nm then (Inl NameTypeError, s)
    else if fs_at s dest \<noteq> Some DirEntry then (Inl NotFoundError, s)
    else (case fs_at s p of
        Some (FileEntry d t) \<Rightarrow> (case fs_at s (dest @ [nm]) of
            Some DirEntry \<Rightarrow> (Inl TypeMismatchError, s)
          | _ \<Rightarrow> (Inr (), js_set (js_delete s p) (dest @ [nm]) (FileEntry d t)))
      | _ \<Rightarrow> (Inl NotFoundError, s)))"

section \<open>Laws\<close>

lemma fs_return_run [simp]: "fs_return x s = (Inr x, s)"
  by (simp add: fs_return_def)

lemma fs_throw_run [simp]: "fs_throw e s = (Inl e, s)"
  by (simp add: fs_throw_def)

lemma fs_bind_run: "m s = (Inr x, s') \<Longrightarrow> fs_bind m f s = f x s'"
  by (simp add: fs_bind_def)

lemma fs_bind_fails: "m s = (Inl e, s') \<Longrightarrow> fs_bind m f s = (Inl e, s')"
  by (simp add: fs_bind_def)

lemma fs_catch_run: "m s = (Inr x, s') \<Longrightarrow> fs_catch m h s = (Inr x, s')"
  by (simp add: fs_catch_def)

lemma fs_catch_fails: "m s = (Inl e, s') \<Longrightarrow> fs_catch m h s = h e s'"
  by (simp add: fs_catch_def)

lemma fs_at_root [simp]: "fs_at s [] = Some DirEntry"
  by (simp add: fs_at_def)

lemma fs_at_set: "p \<noteq> [] \<Longrightarrow> fs_at (js_set s p x) q = (if q = p then Some x else fs_at s q)"
  by (auto simp: fs_at_def js_get_set)

lemma fs_at_delete: "p \<noteq> [] \<Longrightarrow> fs_at (js_delete s p) q = (if q = p then None else fs_at s q)"
  by (auto simp: fs_at_def js_get_delete)

lemma get_filter_below: "js_get (filter (\<lambda>(q, x). \<not> below p q) s) r = (if below p r then None else js_get s r)"
  by (induction s) auto

lemma fs_at_filter: "p \<noteq> [] \<Longrightarrow> fs_at (filter (\<lambda>(q, x). \<not> below p q) s) r = (if below p r then None else fs_at s r)"
  unfolding fs_at_def get_filter_below by (auto simp: below_def)

lemma below_append: "below p (p @ q)"
  by (simp add: below_def)

lemma below_iff: "below p q \<longleftrightarrow> (\<exists>r. q = p @ r)"
  by (auto simp: below_def) (metis append_take_drop_id)

text \<open>\<^verbatim>\<open>path.split('/')\<close>.\<close>

fun split_slash :: "string \<Rightarrow> string list" where
  "split_slash [] = ['''']"
| "split_slash (c # cs) = (if c = CHR 0x2F then '''' # split_slash cs
     else (case split_slash cs of [] \<Rightarrow> [[c]] | p # ps \<Rightarrow> (c # p) # ps))"

lemma split_slash_plain: "CHR 0x2F \<notin> set n \<Longrightarrow> split_slash n = [n]"
  by (induction n) auto

lemma split_slash_append: "CHR 0x2F \<notin> set n \<Longrightarrow> split_slash (n @ ''/'' @ m) = n # split_slash m"
  by (induction n) auto

end
