(* ===== verification/Query_Cache.thy ===== *)
theory Query_Cache
  imports File_System
begin

text \<open>The eviction of cached query results (\<^verbatim>\<open>platform/storage/query_result_cache_eviction.ts\<close>).\<close>

record CacheFileStat =
  cf_name :: string
  cf_size :: nat
  cf_mtimeMs :: timestamp
  cf_lastAccessMs :: timestamp

text \<open>The primitives of a backend: the listing and the deletion of cache files.\<close>

record QueryResultCacheStore =
  qs_listCacheFiles :: "CacheFileStat list fs_op"
  qs_deleteCacheFile :: "string \<Rightarrow> unit fs_op"

definition DEFAULT_CACHE_MAX_BYTES :: int where
  "DEFAULT_CACHE_MAX_BYTES = 512 * 1024 * 1024"

definition DEFAULT_CACHE_MAX_FILES :: int where
  "DEFAULT_CACHE_MAX_FILES = 200"

definition cache_fits :: "int \<Rightarrow> int \<Rightarrow> int \<Rightarrow> int \<Rightarrow> int \<Rightarrow> bool" where
  "cache_fits incoming maxBytes maxFiles totalBytes count \<longleftrightarrow> totalBytes + incoming \<le> maxBytes \<and> count + 1 \<le> maxFiles"

fun evict_loop :: "(string \<Rightarrow> unit fs_op) \<Rightarrow> int \<Rightarrow> int \<Rightarrow> int \<Rightarrow> CacheFileStat list \<Rightarrow> int \<Rightarrow> int \<Rightarrow> unit fs_op" where
  "evict_loop del incoming maxBytes maxFiles [] totalBytes count = fs_return ()"
| "evict_loop del incoming maxBytes maxFiles (f # fs) totalBytes count =
    (if cache_fits incoming maxBytes maxFiles totalBytes count then fs_return ()
     else fs_bind (del (cf_name f)) (\<lambda>_. evict_loop del incoming maxBytes maxFiles fs (totalBytes - int (cf_size f)) (count - 1)))"

definition evictToFit :: "QueryResultCacheStore \<Rightarrow> int \<Rightarrow> int \<Rightarrow> int \<Rightarrow> unit fs_op" where
  "evictToFit store incoming maxBytes maxFiles = fs_bind (qs_listCacheFiles store) (\<lambda>files.
    (let totalBytes = sum_list (map (\<lambda>f. int (cf_size f)) files); count = int (length files)
     in if cache_fits incoming maxBytes maxFiles totalBytes count then fs_return ()
        else evict_loop (qs_deleteCacheFile store) incoming maxBytes maxFiles (sort_key cf_lastAccessMs files) totalBytes count))"

section \<open>What is evicted\<close>

text \<open>The files the loop deletes, as a prefix of the files by age.\<close>

fun evicted :: "int \<Rightarrow> int \<Rightarrow> int \<Rightarrow> CacheFileStat list \<Rightarrow> int \<Rightarrow> int \<Rightarrow> nat" where
  "evicted incoming maxBytes maxFiles [] totalBytes count = 0"
| "evicted incoming maxBytes maxFiles (f # fs) totalBytes count =
    (if cache_fits incoming maxBytes maxFiles totalBytes count then 0
     else Suc (evicted incoming maxBytes maxFiles fs (totalBytes - int (cf_size f)) (count - 1)))"

definition total_size :: "CacheFileStat list \<Rightarrow> int" where
  "total_size fs = sum_list (map (\<lambda>f. int (cf_size f)) fs)"

lemma evict_loop_deletes:
  "evict_loop del incoming mb mf fs t c = fs_each (\<lambda>f. del (cf_name f)) (take (evicted incoming mb mf fs t c) fs)"
  by (induction fs arbitrary: t c) auto

lemma evicted_le: "evicted incoming mb mf fs t c \<le> length fs"
  by (induction fs arbitrary: t c) auto

lemma evicted_fits:
  "cache_fits incoming mb mf (t - total_size (take (evicted incoming mb mf fs t c) fs)) (c - int (evicted incoming mb mf fs t c))
    \<or> evicted incoming mb mf fs t c = length fs"
proof (induction fs arbitrary: t c)
  case (Cons f fs)
  show ?case using Cons [of "t - int (cf_size f)" "c - 1"] by (simp add: total_size_def algebra_simps)
qed simp

lemma evicted_least:
  assumes "n < evicted incoming mb mf fs t c"
  shows "\<not> cache_fits incoming mb mf (t - total_size (take n fs)) (c - int n)"
  using assms
proof (induction fs arbitrary: t c n)
  case (Cons f fs)
  show ?case
  proof (cases n)
    case 0
    then show ?thesis using Cons.prems by (auto simp: total_size_def split: if_splits)
  next
    case (Suc k)
    then show ?thesis using Cons.IH [of k "t - int (cf_size f)" "c - 1"] Cons.prems
      by (auto simp: total_size_def algebra_simps split: if_splits)
  qed
qed simp

text \<open>What a call deletes: the least recently used files, as many as are needed and no more.\<close>

definition evictions :: "int \<Rightarrow> int \<Rightarrow> int \<Rightarrow> CacheFileStat list \<Rightarrow> CacheFileStat list" where
  "evictions incoming mb mf files =
    take (evicted incoming mb mf (sort_key cf_lastAccessMs files) (total_size files) (int (length files))) (sort_key cf_lastAccessMs files)"

lemma evictToFit_deletes:
  "evictToFit store incoming mb mf = fs_bind (qs_listCacheFiles store)
    (\<lambda>files. fs_each (\<lambda>f. qs_deleteCacheFile store (cf_name f)) (evictions incoming mb mf files))"
proof -
  have "evicted incoming mb mf xs t c = 0" if "cache_fits incoming mb mf t c" for xs t c using that by (cases xs) simp_all
  then show ?thesis
    by (auto simp: evictToFit_def evict_loop_deletes evictions_def total_size_def Let_def intro!: arg_cong [where f = "fs_bind (qs_listCacheFiles store)"])
qed

end
