(* ===== verification/Opfs_Backend.thy ===== *)
theory Opfs_Backend
  imports Query_Cache
begin

text \<open>The storage backend over the origin private file system (\<^verbatim>\<open>platform/storage/opfs_storage_backend.ts\<close>). Each
  method is a sequence of file system calls; nothing else runs between them.\<close>

section \<open>Environment\<close>

text \<open>\<open>oe_ready\<close>: the root handle was opened. \<open>oe_move\<close>: the platform has \<^verbatim>\<open>FileSystemFileHandle.move\<close>. \<open>oe_collate\<close>
  is \<^verbatim>\<open>localeCompare\<close> with numeric collation; \<open>oe_text\<close> and \<open>oe_bytes\<close> read files that hold something else than the
  reader expects, and \<open>oe_manifest\<close> and \<open>oe_notebook\<close> are \<^verbatim>\<open>JSON.parse\<close> on texts the application did not print.\<close>

record OpfsEnv =
  oe_ready :: bool
  oe_now :: timestamp
  oe_move :: bool
  oe_collate :: "string \<Rightarrow> string \<Rightarrow> int"
  oe_text :: "file_data \<Rightarrow> string"
  oe_bytes :: "file_data \<Rightarrow> 8 word list"
  oe_manifest :: "string \<Rightarrow> StorageManifest option"
  oe_notebook :: "string \<Rightarrow> NotebookData option"

definition file_text :: "OpfsEnv \<Rightarrow> file_data \<Rightarrow> string" where
  "file_text e d = (case d of Text s \<Rightarrow> s | _ \<Rightarrow> oe_text e d)"

definition file_bytes :: "OpfsEnv \<Rightarrow> file_data \<Rightarrow> 8 word list" where
  "file_bytes e d = (case d of Binary bs \<Rightarrow> bs | _ \<Rightarrow> oe_bytes e d)"

definition parse_manifest :: "OpfsEnv \<Rightarrow> file_data \<Rightarrow> StorageManifest fs_op" where
  "parse_manifest e d = (case d of ManifestText m \<Rightarrow> fs_return m
    | _ \<Rightarrow> (case oe_manifest e (file_text e d) of Some m \<Rightarrow> fs_return m | None \<Rightarrow> fs_throw JsonError))"

definition parse_notebook :: "OpfsEnv \<Rightarrow> file_data \<Rightarrow> NotebookData fs_op" where
  "parse_notebook e d = (case d of NotebookText n \<Rightarrow> fs_return n
    | _ \<Rightarrow> (case oe_notebook e (file_text e d) of Some n \<Rightarrow> fs_return n | None \<Rightarrow> fs_throw JsonError))"

definition STORAGE_MANIFEST_FILE :: string where
  "STORAGE_MANIFEST_FILE = ''dashql-manifest.json''"

definition STORAGE_NOTEBOOKS_FOLDER :: string where
  "STORAGE_NOTEBOOKS_FOLDER = ''notebooks''"

definition STORAGE_CACHE_FOLDER :: string where
  "STORAGE_CACHE_FOLDER = ''cache''"

definition STORAGE_CACHE_EXTENSION :: string where
  "STORAGE_CACHE_EXTENSION = ''.arrow''"

definition STORAGE_CACHE_ACCESS_SUFFIX :: string where
  "STORAGE_CACHE_ACCESS_SUFFIX = ''.last_access''"

section \<open>Directories\<close>

definition ensureInitialized :: "OpfsEnv \<Rightarrow> path fs_op" where
  "ensureInitialized e = (if oe_ready e then fs_return []
    else fs_throw (PlainError ''OPFSStorageBackend not initialized. Call initialize() first.''))"

definition notebookRelPath :: "string \<Rightarrow> string" where
  "notebookRelPath nid = STORAGE_NOTEBOOKS_FOLDER @ ''/'' @ nid"

definition directory_not_found :: "string \<Rightarrow> fs_error" where
  "directory_not_found p = PlainError (''Directory not found: opfs://'' @ p)"

definition rethrow_missing :: "string \<Rightarrow> 'a fs_op \<Rightarrow> 'a fs_op" where
  "rethrow_missing p m = fs_catch m (\<lambda>err. fs_throw (if err = NotFoundError then directory_not_found p else err))"

fun open_dirs :: "bool \<Rightarrow> string \<Rightarrow> path \<Rightarrow> string list \<Rightarrow> path fs_op" where
  "open_dirs create accumulated dir [] = fs_return dir"
| "open_dirs create accumulated dir (part # parts) =
    (if part = '''' then open_dirs create accumulated dir parts
     else (let accumulated = (if accumulated = '''' then part else accumulated @ ''/'' @ part)
       in fs_bind (rethrow_missing accumulated (getDirectoryHandle create dir part))
            (\<lambda>dir. open_dirs create accumulated dir parts)))"

definition getNotebookDir :: "OpfsEnv \<Rightarrow> string \<Rightarrow> bool \<Rightarrow> path fs_op" where
  "getNotebookDir e relativePath create =
    fs_bind (ensureInitialized e) (\<lambda>root. open_dirs create '''' root (split_slash relativePath))"

definition getFolderDir :: "OpfsEnv \<Rightarrow> string \<Rightarrow> string \<Rightarrow> bool \<Rightarrow> path fs_op" where
  "getFolderDir e rel folderName create = fs_bind (getNotebookDir e rel create) (\<lambda>notebookDir.
    rethrow_missing (rel @ ''/'' @ STORAGE_SCRIPTS_FOLDER @ ''/'' @ folderName)
      (fs_bind (getDirectoryHandle create notebookDir STORAGE_SCRIPTS_FOLDER) (\<lambda>scriptsDir.
        getDirectoryHandle create scriptsDir folderName)))"

text \<open>Opening a file of a directory to read or to overwrite it.\<close>

definition read_in :: "OpfsEnv \<Rightarrow> path \<Rightarrow> string \<Rightarrow> (file_data \<times> timestamp) fs_op" where
  "read_in e dir nm = fs_bind (getFileHandle (oe_now e) False dir nm) getFile"

definition write_in :: "OpfsEnv \<Rightarrow> path \<Rightarrow> string \<Rightarrow> file_data \<Rightarrow> unit fs_op" where
  "write_in e dir nm d = fs_bind (getFileHandle (oe_now e) True dir nm) (\<lambda>p. writeFile (oe_now e) p d)"

definition read_text :: "OpfsEnv \<Rightarrow> path \<Rightarrow> string \<Rightarrow> string fs_op" where
  "read_text e dir nm = fs_bind (read_in e dir nm) (\<lambda>f. fs_return (file_text e (fst f)))"

section \<open>The registry of notebooks\<close>

definition empty_manifest :: StorageManifest where
  "empty_manifest = \<lparr>mf_notebooks = Some [], mf_sessions = False, mf_appSettings = None\<rparr>"

definition writeManifest :: "OpfsEnv \<Rightarrow> path \<Rightarrow> StorageManifest \<Rightarrow> unit fs_op" where
  "writeManifest e root m = write_in e root STORAGE_MANIFEST_FILE (ManifestText m)"

text \<open>\<^verbatim>\<open>if (error.name === 'NotFoundError') return x; throw error\<close>.\<close>

definition unless_missing :: "'a fs_op \<Rightarrow> 'a \<Rightarrow> 'a fs_op" where
  "unless_missing m x = fs_catch m (\<lambda>err. if err = NotFoundError then fs_return x else fs_throw err)"

definition resetObsoleteManifest :: "OpfsEnv \<Rightarrow> path \<Rightarrow> unit fs_op" where
  "resetObsoleteManifest e root = unless_missing
    (fs_bind (read_in e root STORAGE_MANIFEST_FILE) (\<lambda>f. fs_bind (parse_manifest e (fst f)) (\<lambda>m.
      if mf_notebooks m = None \<and> mf_sessions m
      then writeManifest e root (empty_manifest\<lparr>mf_appSettings := mf_appSettings m\<rparr>)
      else fs_return ()))) ()"

definition opfs_initialize :: "OpfsEnv \<Rightarrow> unit fs_op" where
  "opfs_initialize e = resetObsoleteManifest e []"

definition invalid_manifest :: fs_error where
  "invalid_manifest = PlainError ''Invalid manifest format: notebooks must be an array''"

definition listNotebooks :: "OpfsEnv \<Rightarrow> string \<Rightarrow> NotebookEntry list fs_op" where
  "listNotebooks e manifestPath = fs_bind (ensureInitialized e) (\<lambda>root. unless_missing
    (fs_bind (read_in e root manifestPath) (\<lambda>f. fs_bind (parse_manifest e (fst f)) (\<lambda>m.
      case mf_notebooks m of None \<Rightarrow> fs_throw invalid_manifest
      | Some ns \<Rightarrow> if list_all (\<lambda>n. ne_path n \<noteq> '''') ns then fs_return ns
          else fs_throw (PlainError ''Invalid manifest format: each notebook must have path'')))) [])"

definition readManifest :: "OpfsEnv \<Rightarrow> path \<Rightarrow> StorageManifest fs_op" where
  "readManifest e root = unless_missing
    (fs_bind (read_in e root STORAGE_MANIFEST_FILE) (\<lambda>f. fs_bind (parse_manifest e (fst f)) (\<lambda>m.
      if mf_notebooks m = None then fs_throw invalid_manifest else fs_return m))) empty_manifest"

definition updateManifest :: "OpfsEnv \<Rightarrow> (StorageManifest \<Rightarrow> StorageManifest) \<Rightarrow> unit fs_op" where
  "updateManifest e f = fs_bind (ensureInitialized e) (\<lambda>root. fs_bind (readManifest e root) (\<lambda>m. writeManifest e root (f m)))"

definition update_notebooks :: "(NotebookEntry list \<Rightarrow> NotebookEntry list) \<Rightarrow> StorageManifest \<Rightarrow> StorageManifest" where
  "update_notebooks f m = m\<lparr>mf_notebooks := map_option f (mf_notebooks m)\<rparr>"

text \<open>The first entry of the path is replaced, or the entry is appended.\<close>

fun upsert_entry :: "NotebookEntry \<Rightarrow> NotebookEntry list \<Rightarrow> NotebookEntry list" where
  "upsert_entry x [] = [x]"
| "upsert_entry x (y # ys) = (if ne_path y = ne_path x then x # ys else y # upsert_entry x ys)"

definition upsertNotebookEntry :: "OpfsEnv \<Rightarrow> NotebookEntry \<Rightarrow> unit fs_op" where
  "upsertNotebookEntry e x = updateManifest e (update_notebooks (upsert_entry x))"

definition removeNotebookEntry :: "OpfsEnv \<Rightarrow> string \<Rightarrow> unit fs_op" where
  "removeNotebookEntry e nid = updateManifest e (update_notebooks (filter (\<lambda>n. ne_path n \<noteq> nid)))"

text \<open>\<^verbatim>\<open>new Map(notebooks.map(s => [s.path, s]))\<close> keeps the last entry of a path.\<close>

fun reorder_listed :: "(string, NotebookEntry) jsmap \<Rightarrow> string list \<Rightarrow> NotebookEntry list \<times> string list \<Rightarrow> NotebookEntry list \<times> string list" where
  "reorder_listed byId [] acc = acc"
| "reorder_listed byId (i # ids) acc = reorder_listed byId ids
    (case js_get byId i of None \<Rightarrow> acc
     | Some x \<Rightarrow> if i \<in> set (snd acc) then acc else (fst acc @ [x], snd acc @ [i]))"

definition reorder_entries :: "string list \<Rightarrow> NotebookEntry list \<Rightarrow> NotebookEntry list" where
  "reorder_entries ids ns =
    (let byId = fold (\<lambda>n m. js_set m (ne_path n) n) ns [];
         (listed, taken) = reorder_listed byId ids ([], [])
     in listed @ filter (\<lambda>n. ne_path n \<notin> set taken) ns)"

definition reorderNotebooks :: "OpfsEnv \<Rightarrow> string list \<Rightarrow> unit fs_op" where
  "reorderNotebooks e ids = updateManifest e (update_notebooks (reorder_entries ids))"

definition loadAppSettings :: "OpfsEnv \<Rightarrow> jsv option fs_op" where
  "loadAppSettings e = fs_bind (ensureInitialized e) (\<lambda>root. unless_missing
    (fs_bind (read_in e root STORAGE_MANIFEST_FILE) (\<lambda>f. fs_bind (parse_manifest e (fst f)) (\<lambda>m. fs_return (mf_appSettings m)))) None)"

definition saveAppSettings :: "OpfsEnv \<Rightarrow> jsv \<Rightarrow> unit fs_op" where
  "saveAppSettings e settings = updateManifest e (\<lambda>m. m\<lparr>mf_appSettings := Some settings\<rparr>)"

text \<open>Both steps only warn about their errors.\<close>

definition clearAllStorage :: "OpfsEnv \<Rightarrow> unit fs_op" where
  "clearAllStorage e = fs_bind (ensureInitialized e) (\<lambda>root.
    fs_bind (fs_catch (writeManifest e root empty_manifest) (\<lambda>_. fs_return ())) (\<lambda>_.
      fs_catch (removeEntry True root STORAGE_NOTEBOOKS_FOLDER) (\<lambda>_. fs_return ())))"

section \<open>Notebooks\<close>

definition opfs_type :: string where
  "opfs_type = ''opfs''"

definition loadNotebook :: "OpfsEnv \<Rightarrow> string \<Rightarrow> NotebookData fs_op" where
  "loadNotebook e nid = fs_bind (getNotebookDir e (notebookRelPath nid) False) (\<lambda>dir.
    fs_bind (read_in e dir STORAGE_NOTEBOOK_FILE) (\<lambda>f. fs_bind (parse_notebook e (fst f)) (\<lambda>n.
      if nb_notebookId n = ''''
      then fs_throw (PlainError (''Notebook '' @ nid @ '' is missing required notebookId field. Please migrate the notebook or regenerate it.''))
      else fs_return n)))"

definition saveNotebookManifest :: "OpfsEnv \<Rightarrow> string \<Rightarrow> NotebookData \<Rightarrow> unit fs_op" where
  "saveNotebookManifest e nid n = fs_bind (getNotebookDir e (notebookRelPath nid) True) (\<lambda>dir.
    fs_bind (write_in e dir STORAGE_NOTEBOOK_FILE (NotebookText n)) (\<lambda>_.
      upsertNotebookEntry e \<lparr>ne_path = nid, ne_storageType = Some opfs_type, ne_nativePath = None\<rparr>))"

text \<open>The directory that holds the last of the parts is opened, then the last one is removed with what is below it.\<close>

fun remove_at :: "path \<Rightarrow> string list \<Rightarrow> unit fs_op" where
  "remove_at dir [] = fs_return ()"
| "remove_at dir [part] = removeEntry True dir part"
| "remove_at dir (part # next_part # parts) = fs_bind (getDirectoryHandle False dir part) (\<lambda>dir. remove_at dir (next_part # parts))"

definition deleteNotebookFiles :: "OpfsEnv \<Rightarrow> string \<Rightarrow> unit fs_op" where
  "deleteNotebookFiles e nid = fs_bind (ensureInitialized e) (\<lambda>root.
    unless_missing (remove_at root (filter (\<lambda>p. p \<noteq> '''') (split_slash (notebookRelPath nid)))) ())"

definition deleteNotebook :: "OpfsEnv \<Rightarrow> string \<Rightarrow> unit fs_op" where
  "deleteNotebook e nid = fs_bind (deleteNotebookFiles e nid) (\<lambda>_. removeNotebookEntry e nid)"

text \<open>\<^verbatim>\<open>catch { return null }\<close>.\<close>

definition or_null :: "'a fs_op \<Rightarrow> 'a option fs_op" where
  "or_null m = fs_catch (fs_bind m (\<lambda>x. fs_return (Some x))) (\<lambda>_. fs_return None)"

definition load_notebook_text :: "OpfsEnv \<Rightarrow> string \<Rightarrow> string \<Rightarrow> string option fs_op" where
  "load_notebook_text e nid nm = or_null (fs_bind (getNotebookDir e (notebookRelPath nid) False) (\<lambda>dir. read_text e dir nm))"

definition save_notebook_text :: "OpfsEnv \<Rightarrow> string \<Rightarrow> string \<Rightarrow> string \<Rightarrow> unit fs_op" where
  "save_notebook_text e nid nm sql = fs_bind (getNotebookDir e (notebookRelPath nid) True) (\<lambda>dir. write_in e dir nm (Text sql))"

definition loadNotebookSchema :: "OpfsEnv \<Rightarrow> string \<Rightarrow> string option fs_op" where
  "loadNotebookSchema e nid = load_notebook_text e nid STORAGE_SCRIPT_SCHEMA"

definition saveNotebookSchema :: "OpfsEnv \<Rightarrow> string \<Rightarrow> string \<Rightarrow> unit fs_op" where
  "saveNotebookSchema e nid sql = save_notebook_text e nid STORAGE_SCRIPT_SCHEMA sql"

definition loadNotebookFunctions :: "OpfsEnv \<Rightarrow> string \<Rightarrow> string option fs_op" where
  "loadNotebookFunctions e nid = load_notebook_text e nid STORAGE_SCRIPT_FUNCTIONS"

definition saveNotebookFunctions :: "OpfsEnv \<Rightarrow> string \<Rightarrow> string \<Rightarrow> unit fs_op" where
  "saveNotebookFunctions e nid sql = save_notebook_text e nid STORAGE_SCRIPT_FUNCTIONS sql"

section \<open>Scripts\<close>

record OpfsScript =
  os_name :: string
  os_sql :: string

record OpfsScriptFolder =
  of_name :: string
  of_scripts :: "OpfsScript list"

text \<open>\<^verbatim>\<open>Array.sort\<close> with a comparator is stable.\<close>

fun insert_by :: "('a \<Rightarrow> 'a \<Rightarrow> int) \<Rightarrow> 'a \<Rightarrow> 'a list \<Rightarrow> 'a list" where
  "insert_by cmp x [] = [x]"
| "insert_by cmp x (y # ys) = (if cmp x y \<le> 0 then x # y # ys else y # insert_by cmp x ys)"

definition sort_by :: "('a \<Rightarrow> 'a \<Rightarrow> int) \<Rightarrow> 'a list \<Rightarrow> 'a list" where
  "sort_by cmp xs = foldr (insert_by cmp) xs []"

definition ends_with :: "string \<Rightarrow> string \<Rightarrow> bool" where
  "ends_with s suf \<longleftrightarrow> length suf \<le> length s \<and> drop (length s - length suf) s = suf"

fun fs_map :: "('a \<Rightarrow> 'b fs_op) \<Rightarrow> 'a list \<Rightarrow> 'b list fs_op" where
  "fs_map f [] = fs_return []"
| "fs_map f (x # xs) = fs_bind (f x) (\<lambda>y. fs_bind (fs_map f xs) (\<lambda>ys. fs_return (y # ys)))"

definition script_file :: "string \<times> fs_entry \<Rightarrow> bool" where
  "script_file x = (case x of (nm, DirEntry) \<Rightarrow> False | (nm, FileEntry d t) \<Rightarrow> ends_with nm ''.sql'' \<and> nm \<noteq> STORAGE_SCRIPT_DRAFT)"

definition loadScriptsInFolder :: "OpfsEnv \<Rightarrow> path \<Rightarrow> OpfsScript list fs_op" where
  "loadScriptsInFolder e dir = fs_bind (dir_entries dir) (\<lambda>xs.
    fs_bind (fs_map (\<lambda>(nm, x). fs_bind (getFile (dir @ [nm])) (\<lambda>f. fs_return \<lparr>os_name = nm, os_sql = file_text e (fst f)\<rparr>))
        (filter script_file xs)) (\<lambda>scripts.
      fs_return (sort_by (\<lambda>a b. oe_collate e (os_name a) (os_name b)) scripts)))"

text \<open>A missing notebook folder: \<^verbatim>\<open>getNotebookDir\<close> has replaced the \<^verbatim>\<open>NotFoundError\<close> that the handler looks for.\<close>

definition loadScriptFolders :: "OpfsEnv \<Rightarrow> string \<Rightarrow> OpfsScriptFolder list fs_op" where
  "loadScriptFolders e nid =
    fs_bind (unless_missing (fs_bind (getNotebookDir e (notebookRelPath nid) False) (\<lambda>d. fs_return (Some d))) None) (\<lambda>found.
      case found of None \<Rightarrow> fs_return []
      | Some notebookDir \<Rightarrow>
          fs_bind (unless_missing (fs_bind (getDirectoryHandle False notebookDir STORAGE_SCRIPTS_FOLDER) (\<lambda>d. fs_return (Some d))) None) (\<lambda>found.
            case found of None \<Rightarrow> fs_return []
            | Some scriptsDir \<Rightarrow> fs_bind (dir_entries scriptsDir) (\<lambda>xs.
                fs_bind (fs_map (\<lambda>(nm, x). fs_bind (loadScriptsInFolder e (scriptsDir @ [nm])) (\<lambda>ss. fs_return \<lparr>of_name = nm, of_scripts = ss\<rparr>))
                    (filter (\<lambda>(nm, x). x = DirEntry) xs)) (\<lambda>folders.
                  fs_return (sort_by (\<lambda>a b. oe_collate e (of_name a) (of_name b)) folders)))))"

definition createScriptFolder :: "OpfsEnv \<Rightarrow> string \<Rightarrow> string \<Rightarrow> unit fs_op" where
  "createScriptFolder e nid folderName = fs_bind (getNotebookDir e (notebookRelPath nid) True) (\<lambda>dir.
    fs_bind (getDirectoryHandle True dir STORAGE_SCRIPTS_FOLDER) (\<lambda>scriptsDir.
      fs_bind (getDirectoryHandle True scriptsDir folderName) (\<lambda>_. fs_return ())))"

definition deleteScriptFolder :: "OpfsEnv \<Rightarrow> string \<Rightarrow> string \<Rightarrow> unit fs_op" where
  "deleteScriptFolder e nid folderName = fs_bind (getNotebookDir e (notebookRelPath nid) False) (\<lambda>dir.
    fs_bind (getDirectoryHandle False dir STORAGE_SCRIPTS_FOLDER) (\<lambda>scriptsDir. removeEntry True scriptsDir folderName))"

text \<open>Moves a file. With \<open>oe_move\<close> the platform moves it, otherwise it is copied and removed. The two directory handles are
  the same object exactly when the caller renames within a folder.\<close>

definition moveFile :: "OpfsEnv \<Rightarrow> path \<Rightarrow> string \<Rightarrow> path \<Rightarrow> string \<Rightarrow> unit fs_op" where
  "moveFile e srcDir srcName destDir destName = (if srcDir = destDir \<and> srcName = destName then fs_return ()
    else fs_bind (getFileHandle (oe_now e) False srcDir srcName) (\<lambda>src.
      if oe_move e then moveHandle src destDir destName
      else fs_bind (getFile src) (\<lambda>f. fs_bind (write_in e destDir destName (fst f)) (\<lambda>_. removeEntry False srcDir srcName))))"

definition renameScriptFolder :: "OpfsEnv \<Rightarrow> string \<Rightarrow> string \<Rightarrow> string \<Rightarrow> unit fs_op" where
  "renameScriptFolder e nid oldFolderName newFolderName = (if oldFolderName = newFolderName then fs_return ()
    else fs_bind (getNotebookDir e (notebookRelPath nid) True) (\<lambda>dir.
      fs_bind (getDirectoryHandle True dir STORAGE_SCRIPTS_FOLDER) (\<lambda>scriptsDir.
        fs_bind (unless_missing (fs_bind (getDirectoryHandle False scriptsDir oldFolderName) (\<lambda>d. fs_return (Some d))) None) (\<lambda>found.
          case found of None \<Rightarrow> fs_return ()
          | Some oldDir \<Rightarrow> fs_bind (getDirectoryHandle True scriptsDir newFolderName) (\<lambda>newDir.
              fs_bind (dir_entries oldDir) (\<lambda>xs.
                fs_bind (fs_each (\<lambda>(nm, x). moveFile e oldDir nm newDir nm) (filter (\<lambda>(nm, x). x \<noteq> DirEntry) xs)) (\<lambda>_.
                  removeEntry True scriptsDir oldFolderName)))))))"

definition loadScript :: "OpfsEnv \<Rightarrow> string \<Rightarrow> string \<Rightarrow> string \<Rightarrow> OpfsScript fs_op" where
  "loadScript e nid folderName scriptName = fs_bind (getFolderDir e (notebookRelPath nid) folderName False) (\<lambda>dir.
    fs_catch (fs_bind (read_text e dir scriptName) (\<lambda>sql. fs_return \<lparr>os_name = scriptName, os_sql = sql\<rparr>))
      (\<lambda>_. fs_throw (PlainError (''Script not found: notebook '' @ nid @ '', folder '' @ folderName @ '', script '' @ scriptName))))"

definition saveScript :: "OpfsEnv \<Rightarrow> string \<Rightarrow> string \<Rightarrow> string \<Rightarrow> string \<Rightarrow> unit fs_op" where
  "saveScript e nid folderName scriptName sql =
    fs_bind (getFolderDir e (notebookRelPath nid) folderName True) (\<lambda>dir. write_in e dir scriptName (Text sql))"

definition deleteScript :: "OpfsEnv \<Rightarrow> string \<Rightarrow> string \<Rightarrow> string \<Rightarrow> unit fs_op" where
  "deleteScript e nid folderName scriptName =
    fs_bind (getFolderDir e (notebookRelPath nid) folderName False) (\<lambda>dir. removeEntry False dir scriptName)"

text \<open>\<^verbatim>\<open>error.name === 'NotFoundError' || error.message.startsWith('Directory not found')\<close>.\<close>

definition is_missing :: "fs_error \<Rightarrow> bool" where
  "is_missing err = (case err of NotFoundError \<Rightarrow> True
    | PlainError msg \<Rightarrow> take (length ''Directory not found'') msg = ''Directory not found'' | _ \<Rightarrow> False)"

definition renameScript :: "OpfsEnv \<Rightarrow> string \<Rightarrow> string \<Rightarrow> string \<Rightarrow> string \<Rightarrow> unit fs_op" where
  "renameScript e nid folderName oldScriptName newScriptName = (if oldScriptName = newScriptName then fs_return ()
    else fs_bind (fs_catch
        (fs_bind (getNotebookDir e (notebookRelPath nid) False) (\<lambda>dir.
          fs_bind (getDirectoryHandle False dir STORAGE_SCRIPTS_FOLDER) (\<lambda>scriptsDir.
            fs_bind (getDirectoryHandle False scriptsDir folderName) (\<lambda>folderDir.
              fs_bind (getFileHandle (oe_now e) False folderDir oldScriptName) (\<lambda>_. fs_return (Some folderDir))))))
        (\<lambda>err. if is_missing err then fs_return None else fs_throw err)) (\<lambda>found.
      case found of None \<Rightarrow> fs_return () | Some folderDir \<Rightarrow> moveFile e folderDir oldScriptName folderDir newScriptName))"

definition loadScriptDraft :: "OpfsEnv \<Rightarrow> string \<Rightarrow> string option fs_op" where
  "loadScriptDraft e nid = or_null (fs_bind (getNotebookDir e (notebookRelPath nid) False) (\<lambda>dir.
    fs_bind (getDirectoryHandle False dir STORAGE_SCRIPTS_FOLDER) (\<lambda>scriptsDir. read_text e scriptsDir STORAGE_SCRIPT_DRAFT)))"

definition saveScriptDraft :: "OpfsEnv \<Rightarrow> string \<Rightarrow> string \<Rightarrow> unit fs_op" where
  "saveScriptDraft e nid sql = fs_bind (getNotebookDir e (notebookRelPath nid) True) (\<lambda>dir.
    fs_bind (getDirectoryHandle True dir STORAGE_SCRIPTS_FOLDER) (\<lambda>scriptsDir. write_in e scriptsDir STORAGE_SCRIPT_DRAFT (Text sql)))"

section \<open>The cache of query results\<close>

definition cacheRelPath :: "string \<Rightarrow> string" where
  "cacheRelPath nid = notebookRelPath nid @ ''/'' @ STORAGE_CACHE_FOLDER"

definition cache_file :: "string \<Rightarrow> string" where
  "cache_file hash = hash @ STORAGE_CACHE_EXTENSION"

definition access_marker :: "string \<Rightarrow> string" where
  "access_marker file_name = file_name @ STORAGE_CACHE_ACCESS_SUFFIX"

definition loadQueryResultCache :: "OpfsEnv \<Rightarrow> string \<Rightarrow> string \<Rightarrow> (8 word list \<times> timestamp) option fs_op" where
  "loadQueryResultCache e nid hash = or_null (fs_bind (getNotebookDir e (cacheRelPath nid) False) (\<lambda>dir.
    fs_bind (read_in e dir (cache_file hash)) (\<lambda>f. fs_return (file_bytes e (fst f), snd f))))"

text \<open>\<^verbatim>\<open>removeEntry\<close> where a missing file is no error.\<close>

definition remove_if_present :: "path \<Rightarrow> string \<Rightarrow> unit fs_op" where
  "remove_if_present dir nm = unless_missing (removeEntry False dir nm) ()"

text \<open>The modification times of the markers by the name of their payload, and the payloads.\<close>

fun scan_cache :: "OpfsEnv \<Rightarrow> (string \<times> fs_entry) list \<Rightarrow> (string, timestamp) jsmap \<Rightarrow> (string \<times> nat \<times> timestamp) list \<Rightarrow>
    (string, timestamp) jsmap \<times> (string \<times> nat \<times> timestamp) list" where
  "scan_cache e [] access payloads = (access, payloads)"
| "scan_cache e ((nm, DirEntry) # xs) access payloads = scan_cache e xs access payloads"
| "scan_cache e ((nm, FileEntry d t) # xs) access payloads =
    (if ends_with nm STORAGE_CACHE_ACCESS_SUFFIX
     then scan_cache e xs (js_set access (take (length nm - length STORAGE_CACHE_ACCESS_SUFFIX) nm) t) payloads
     else if ends_with nm STORAGE_CACHE_EXTENSION
     then scan_cache e xs access (payloads @ [(nm, length (file_bytes e d), t)])
     else scan_cache e xs access payloads)"

definition listCacheFiles :: "OpfsEnv \<Rightarrow> path \<Rightarrow> CacheFileStat list fs_op" where
  "listCacheFiles e dir = fs_bind (dir_entries dir) (\<lambda>xs. case scan_cache e xs [] [] of (access, payloads) \<Rightarrow>
    fs_bind (fs_each (\<lambda>p. fs_catch (removeEntry False dir (access_marker p)) (\<lambda>_. fs_return ()))
        (filter (\<lambda>p. p \<notin> set (map fst payloads)) (js_keys access))) (\<lambda>_.
      fs_return (map (\<lambda>(nm, size, t). \<lparr>cf_name = nm, cf_size = size, cf_mtimeMs = t,
        cf_lastAccessMs = (case js_get access nm of Some t' \<Rightarrow> t' | None \<Rightarrow> t)\<rparr>) payloads)))"

definition cacheStoreForDir :: "OpfsEnv \<Rightarrow> path \<Rightarrow> QueryResultCacheStore" where
  "cacheStoreForDir e dir = \<lparr>qs_listCacheFiles = listCacheFiles e dir,
     qs_deleteCacheFile = (\<lambda>nm. fs_bind (remove_if_present dir nm) (\<lambda>_. remove_if_present dir (access_marker nm)))\<rparr>"

definition writeEmptyFile :: "OpfsEnv \<Rightarrow> path \<Rightarrow> string \<Rightarrow> unit fs_op" where
  "writeEmptyFile e dir nm = write_in e dir nm (Binary [])"

definition saveQueryResultCache :: "OpfsEnv \<Rightarrow> string \<Rightarrow> string \<Rightarrow> 8 word list \<Rightarrow> unit fs_op" where
  "saveQueryResultCache e nid hash bytes = fs_bind (getNotebookDir e (cacheRelPath nid) True) (\<lambda>dir.
    fs_bind (evictToFit (cacheStoreForDir e dir) (int (length bytes)) DEFAULT_CACHE_MAX_BYTES DEFAULT_CACHE_MAX_FILES) (\<lambda>_.
      fs_bind (write_in e dir (cache_file hash) (Binary bytes)) (\<lambda>_. writeEmptyFile e dir (access_marker (cache_file hash)))))"

definition listQueryResultCache :: "OpfsEnv \<Rightarrow> string \<Rightarrow> CacheFileStat list fs_op" where
  "listQueryResultCache e nid = fs_bind (or_null (getNotebookDir e (cacheRelPath nid) False)) (\<lambda>found.
    case found of None \<Rightarrow> fs_return [] | Some dir \<Rightarrow> listCacheFiles e dir)"

definition touchQueryResultCacheAccess :: "OpfsEnv \<Rightarrow> string \<Rightarrow> string \<Rightarrow> unit fs_op" where
  "touchQueryResultCacheAccess e nid hash = fs_bind (getNotebookDir e (cacheRelPath nid) False) (\<lambda>dir.
    writeEmptyFile e dir (access_marker (cache_file hash)))"

definition deleteQueryResultCache :: "OpfsEnv \<Rightarrow> string \<Rightarrow> string \<Rightarrow> unit fs_op" where
  "deleteQueryResultCache e nid hash =
    fs_bind (fs_catch (fs_bind (getNotebookDir e (cacheRelPath nid) False) (\<lambda>d. fs_return (Some d)))
        (\<lambda>err. if is_missing err then fs_return None else fs_throw err)) (\<lambda>found.
      case found of None \<Rightarrow> fs_return ()
      | Some dir \<Rightarrow> fs_bind (remove_if_present dir (cache_file hash)) (\<lambda>_. remove_if_present dir (access_marker (cache_file hash))))"

end
