(* ===== verification/Opfs_Tree.thy ===== *)
theory Opfs_Tree
  imports Opfs_Backend
begin

text \<open>The files form a tree, and every method of the storage backend keeps it: the directory of a file exists, names
  are valid, and no path is listed twice. The proofs follow the methods call by call.\<close>

named_theorems keeping

section \<open>Trees\<close>

definition tree_ok :: "file_system \<Rightarrow> bool" where
  "tree_ok s \<longleftrightarrow> jsmap_ok s \<and> (\<forall>p x. js_get s p = Some x \<longrightarrow> p \<noteq> [] \<and> valid_name (last p) \<and> fs_at s (butlast p) = Some DirEntry)"

definition keeps :: "'a fs_op \<Rightarrow> bool" where
  "keeps m \<longleftrightarrow> (\<forall>s. tree_ok s \<longrightarrow> tree_ok (snd (m s)))"

lemma tree_entry: "tree_ok s \<Longrightarrow> fs_at s (p @ [n]) = Some x \<Longrightarrow> valid_name n \<and> fs_at s p = Some DirEntry"
  unfolding tree_ok_def by (drule conjunct2, drule spec [where x = "p @ [n]"]) (auto simp: fs_at_def)

lemma tree_below_file: "tree_ok s \<Longrightarrow> fs_at s p \<noteq> Some DirEntry \<Longrightarrow> fs_at s (p @ [n]) = None"
  using tree_entry by (metis not_None_eq)

lemma tree_set:
  assumes "tree_ok s" "valid_name n" "fs_at s p = Some DirEntry" "x = DirEntry \<or> fs_at s (p @ [n]) \<noteq> Some DirEntry"
  shows "tree_ok (js_set s (p @ [n]) x)"
proof -
  have at: "fs_at (js_set s (p @ [n]) x) q = (if q = p @ [n] then Some x else fs_at s q)" for q by (simp add: fs_at_set)
  have "fs_at (js_set s (p @ [n]) x) (butlast q) = Some DirEntry"
    if q: "q \<noteq> []" "fs_at s (butlast q) = Some DirEntry" for q
    using assms(4) q(2) unfolding at by auto
  moreover have "fs_at (js_set s (p @ [n]) x) p = Some DirEntry" unfolding at using assms(3) by simp
  ultimately show ?thesis using assms(1,2) by (auto simp: tree_ok_def js_get_set split: if_splits)
qed

lemma tree_delete_file:
  assumes "tree_ok s" "fs_at s p = Some (FileEntry d t)"
  shows "tree_ok (js_delete s p)"
proof -
  have "p \<noteq> []" using assms(2) by auto
  then have at: "fs_at (js_delete s p) q = (if q = p then None else fs_at s q)" for q by (rule fs_at_delete)
  have "fs_at (js_delete s p) (butlast q) = Some DirEntry" if "fs_at s (butlast q) = Some DirEntry" for q
    unfolding at using assms(2) that by auto
  then show ?thesis using assms(1) by (auto simp: tree_ok_def js_get_delete split: if_splits)
qed

lemma below_butlast: "q \<noteq> [] \<Longrightarrow> below p (butlast q) \<Longrightarrow> below p q"
  by (auto simp: below_iff) (metis append_butlast_last_id append_assoc)

lemma jsmap_ok_filter: "jsmap_ok m \<Longrightarrow> jsmap_ok (filter P m)"
  by (auto simp: jsmap_ok_def intro: distinct_map_filter)

lemma tree_delete_below:
  assumes "tree_ok s" "p \<noteq> []"
  shows "tree_ok (filter (\<lambda>(q, x). \<not> below p q) s)"
proof -
  note at = fs_at_filter [OF assms(2), of s]
  show ?thesis
    unfolding tree_ok_def get_filter_below at using assms(1) below_butlast [of _ p]
    by (auto simp: tree_ok_def jsmap_ok_filter split: if_splits)
qed

section \<open>Calls\<close>

lemma keeps_return [keeping]: "keeps (fs_return x)"
  by (simp add: keeps_def)

lemma keeps_Pair [keeping]: "keeps (Pair r)"
  by (simp add: keeps_def)

lemma keeps_throw [keeping]: "keeps (fs_throw e)"
  by (simp add: keeps_def)

lemma keeps_bind [keeping]:
  assumes "keeps m" "\<And>x. keeps (f x)"
  shows "keeps (fs_bind m f)"
  unfolding keeps_def
proof (intro allI impI)
  fix s assume "tree_ok s"
  obtain r s' where m: "m s = (r, s')" by fastforce
  with assms(1) \<open>tree_ok s\<close> have "tree_ok s'" by (metis keeps_def snd_conv)
  with assms(2) m show "tree_ok (snd (fs_bind m f s))" by (cases r) (auto simp: fs_bind_def keeps_def)
qed

lemma keeps_catch [keeping]:
  assumes "keeps m" "\<And>e. keeps (h e)"
  shows "keeps (fs_catch m h)"
  unfolding keeps_def
proof (intro allI impI)
  fix s assume "tree_ok s"
  obtain r s' where m: "m s = (r, s')" by fastforce
  with assms(1) \<open>tree_ok s\<close> have "tree_ok s'" by (metis keeps_def snd_conv)
  with assms(2) m show "tree_ok (snd (fs_catch m h s))" by (cases r) (auto simp: fs_catch_def keeps_def)
qed

lemma keeps_if [keeping]: "(b \<Longrightarrow> keeps m) \<Longrightarrow> (\<not> b \<Longrightarrow> keeps n) \<Longrightarrow> keeps (if b then m else n)"
  by simp

lemma keeps_option [keeping]: "(x = None \<Longrightarrow> keeps m) \<Longrightarrow> (\<And>y. x = Some y \<Longrightarrow> keeps (f y)) \<Longrightarrow> keeps (case x of None \<Rightarrow> m | Some y \<Rightarrow> f y)"
  by (cases x) simp_all

lemma keeps_pair [keeping]: "(\<And>a b. x = (a, b) \<Longrightarrow> keeps (f a b)) \<Longrightarrow> keeps (case x of (a, b) \<Rightarrow> f a b)"
  by (cases x) simp

lemma keeps_let [keeping]: "keeps (f x) \<Longrightarrow> keeps (let y = x in f y)"
  by simp

lemma keeps_each [keeping]: "(\<And>x. keeps (f x)) \<Longrightarrow> keeps (fs_each f xs)"
  by (induction xs) (auto intro: keeping)

lemma keeps_map [keeping]: "(\<And>x. keeps (f x)) \<Longrightarrow> keeps (fs_map f xs)"
  by (induction xs) (auto intro: keeping)

lemma keeps_getDirectoryHandle [keeping]: "keeps (getDirectoryHandle c p n)"
  by (auto simp: keeps_def getDirectoryHandle_def tree_set split: option.split fs_entry.split)

lemma keeps_getFileHandle [keeping]: "keeps (getFileHandle now c p n)"
  by (auto simp: keeps_def getFileHandle_def tree_set split: option.split fs_entry.split)

lemma keeps_getFile [keeping]: "keeps (getFile p)"
  by (auto simp: keeps_def getFile_def split: option.split fs_entry.split)

lemma keeps_dir_entries [keeping]: "keeps (dir_entries p)"
  by (simp add: keeps_def dir_entries_def)

lemma keeps_writeFile [keeping]: "keeps (writeFile now p d)"
  unfolding keeps_def
proof (intro allI impI)
  fix s assume ok: "tree_ok s"
  show "tree_ok (snd (writeFile now p d s))"
  proof (cases "fs_at s p")
    case (Some x)
    show ?thesis
    proof (cases x)
      case (FileEntry d' t)
      then obtain q n where p: "p = q @ [n]" using Some by (cases p rule: rev_cases) auto
      then show ?thesis using tree_set [OF ok] tree_entry [OF ok, of q n] Some FileEntry by (simp add: writeFile_def)
    qed (use Some ok in \<open>simp add: writeFile_def\<close>)
  qed (use ok in \<open>simp add: writeFile_def\<close>)
qed

lemma keeps_removeEntry [keeping]: "keeps (removeEntry r p n)"
  unfolding keeps_def removeEntry_def
  by (auto simp: tree_delete_file tree_delete_below split: option.split fs_entry.split)

lemma keeps_moveHandle [keeping]: "keeps (moveHandle p dest n)"
  unfolding keeps_def
proof (intro allI impI)
  fix s assume ok: "tree_ok s"
  show "tree_ok (snd (moveHandle p dest n s))"
  proof (cases "valid_name n \<and> fs_at s dest = Some DirEntry \<and> (\<exists>d t. fs_at s p = Some (FileEntry d t)) \<and> fs_at s (dest @ [n]) \<noteq> Some DirEntry")
    case True
    then obtain d t where p: "fs_at s p = Some (FileEntry d t)" and v: "valid_name n" "fs_at s dest = Some DirEntry" "fs_at s (dest @ [n]) \<noteq> Some DirEntry" by blast
    have "p \<noteq> []" using p by auto
    have "tree_ok (js_set (js_delete s p) (dest @ [n]) (FileEntry d t))"
      by (rule tree_set) (use p v tree_delete_file [OF ok p] \<open>p \<noteq> []\<close> in \<open>auto simp: fs_at_delete\<close>)
    moreover have "moveHandle p dest n s = (Inr (), js_set (js_delete s p) (dest @ [n]) (FileEntry d t))"
      using p v by (auto simp: moveHandle_def split: option.split fs_entry.split)
    ultimately show ?thesis by simp
  next
    case False
    then show ?thesis using ok by (auto simp: moveHandle_def split: option.split fs_entry.split)
  qed
qed

section \<open>Methods\<close>

lemma keeps_open_dirs [keeping]: "keeps (open_dirs c acc dir parts)"
  by (induction parts arbitrary: acc dir) (auto simp: rethrow_missing_def Let_def intro!: keeping)

lemma keeps_remove_at [keeping]: "keeps (remove_at dir parts)"
  by (induction dir parts rule: remove_at.induct) (auto intro!: keeping)

lemmas opfs_steps = ensureInitialized_def getNotebookDir_def getFolderDir_def rethrow_missing_def read_in_def write_in_def
  read_text_def unless_missing_def or_null_def moveFile_def

lemma keeps_parse [keeping]: "keeps (parse_manifest e d)" "keeps (parse_notebook e d)"
  by (cases d; auto simp: parse_manifest_def parse_notebook_def intro!: keeping)+

lemma keeps_updateManifest [keeping]: "keeps (updateManifest e f)"
  by (auto simp: updateManifest_def readManifest_def writeManifest_def opfs_steps intro!: keeping)

text \<open>The call of the storage writer that reaches this backend.\<close>

fun opfs_call :: "OpfsEnv \<Rightarrow> backend_call \<Rightarrow> backend_reply fs_op" where
  "opfs_call e (LoadNotebook nid) = fs_bind (loadNotebook e nid) (\<lambda>n. fs_return (Loaded n))"
| "opfs_call e (SaveNotebookManifest nid n) = fs_bind (saveNotebookManifest e nid n) (\<lambda>_. fs_return Resolved)"
| "opfs_call e (SaveNotebookSchema nid sql) = fs_bind (saveNotebookSchema e nid sql) (\<lambda>_. fs_return Resolved)"
| "opfs_call e (SaveNotebookFunctions nid sql) = fs_bind (saveNotebookFunctions e nid sql) (\<lambda>_. fs_return Resolved)"
| "opfs_call e (CreateScriptFolder nid k) = fs_bind (createScriptFolder e nid k) (\<lambda>_. fs_return Resolved)"
| "opfs_call e (SaveScript nid k f sql) = fs_bind (saveScript e nid k f sql) (\<lambda>_. fs_return Resolved)"
| "opfs_call e (SaveScriptDraft nid sql) = fs_bind (saveScriptDraft e nid sql) (\<lambda>_. fs_return Resolved)"
| "opfs_call e (DeleteNotebook nid) = fs_bind (deleteNotebook e nid) (\<lambda>_. fs_return Resolved)"
| "opfs_call e (DeleteScriptFolder nid k) = fs_bind (deleteScriptFolder e nid k) (\<lambda>_. fs_return Resolved)"
| "opfs_call e (RenameScriptFolder nid old new) = fs_bind (renameScriptFolder e nid old new) (\<lambda>_. fs_return Resolved)"
| "opfs_call e (DeleteScript nid k f) = fs_bind (deleteScript e nid k f) (\<lambda>_. fs_return Resolved)"
| "opfs_call e (RenameScript nid k old new) = fs_bind (renameScript e nid k old new) (\<lambda>_. fs_return Resolved)"

lemmas opfs_methods = loadNotebook_def saveNotebookManifest_def upsertNotebookEntry_def removeNotebookEntry_def
  deleteNotebookFiles_def deleteNotebook_def save_notebook_text_def saveNotebookSchema_def saveNotebookFunctions_def
  createScriptFolder_def deleteScriptFolder_def renameScriptFolder_def saveScript_def deleteScript_def renameScript_def
  saveScriptDraft_def

lemma keeps_call: "keeps (opfs_call e call)"
  by (cases call) (auto simp: opfs_methods opfs_steps intro!: keeping)

lemma keeps_remove_if_present [keeping]: "keeps (remove_if_present dir n)"
  by (auto simp: remove_if_present_def opfs_steps intro!: keeping)

lemma keeps_listCacheFiles [keeping]: "keeps (listCacheFiles e dir)"
  by (auto simp: listCacheFiles_def intro!: keeping)

lemma keeps_cache:
  "keeps (saveQueryResultCache e nid hash bytes)" "keeps (touchQueryResultCacheAccess e nid hash)"
  "keeps (deleteQueryResultCache e nid hash)" "keeps (listQueryResultCache e nid)" "keeps (loadQueryResultCache e nid hash)"
proof -
  show "keeps (saveQueryResultCache e nid hash bytes)"
    by (auto simp: saveQueryResultCache_def evictToFit_deletes cacheStoreForDir_def writeEmptyFile_def opfs_steps intro!: keeping)
qed (auto simp: touchQueryResultCacheAccess_def deleteQueryResultCache_def listQueryResultCache_def loadQueryResultCache_def writeEmptyFile_def
    opfs_steps intro!: keeping)

lemma keeps_registry:
  "keeps (opfs_initialize e)" "keeps (reorderNotebooks e ids)" "keeps (saveAppSettings e v)" "keeps (clearAllStorage e)"
  by (auto simp: opfs_initialize_def resetObsoleteManifest_def writeManifest_def reorderNotebooks_def saveAppSettings_def clearAllStorage_def
      opfs_steps intro!: keeping)

end
