(* ===== verification/Backend_Contract.thy ===== *)
theory Backend_Contract
  imports Notebook_Store
begin

text \<open>The writer on a backend: the program of a write task run against an implementation of the storage calls, and the
  contract under which it has the effect of the task (\<^verbatim>\<open>platform/storage/storage_writer.ts\<close> over
  \<^verbatim>\<open>StorageBackend\<close> of \<^verbatim>\<open>platform/storage/storage_backend.ts\<close>).\<close>

section \<open>Running a program\<close>

text \<open>The replies of the backend are passed on; the result says whether the program ended without an error.\<close>

primrec run_prog :: "sw_prog \<Rightarrow> (backend_call \<Rightarrow> 's \<Rightarrow> backend_reply \<times> 's) \<Rightarrow> (nat \<Rightarrow> sw_inputs) \<Rightarrow> WriterContents \<Rightarrow> 's \<Rightarrow>
    bool \<times> WriterContents \<times> 's" where
  "run_prog Done = (\<lambda>exec i c s. (True, c, s))"
| "run_prog Threw = (\<lambda>exec i c s. (False, c, s))"
| "run_prog (Call call k) = (\<lambda>exec i c s. case exec call s of (reply, s') \<Rightarrow>
     (case map_prod id run_prog (k reply (i 0) c) of (c', run) \<Rightarrow> run exec (\<lambda>n. i (Suc n)) c' s'))"

definition run_task :: "(backend_call \<Rightarrow> 's \<Rightarrow> backend_reply \<times> 's) \<Rightarrow> (nat \<Rightarrow> sw_inputs) \<Rightarrow> WriteTask \<Rightarrow> WriterContents \<Rightarrow> 's \<Rightarrow>
    bool \<times> WriterContents \<times> 's" where
  "run_task exec i task c s = (case executeTask task (i 0) c of (c', prog) \<Rightarrow> run_prog prog exec (\<lambda>n. i (Suc n)) c' s)"

text \<open>Tasks one after the other; the inputs may differ for every task.\<close>

fun run_tasks :: "(backend_call \<Rightarrow> 's \<Rightarrow> backend_reply \<times> 's) \<Rightarrow> (nat \<Rightarrow> nat \<Rightarrow> sw_inputs) \<Rightarrow> WriteTask list \<Rightarrow> WriterContents \<Rightarrow> 's \<Rightarrow>
    bool \<times> WriterContents \<times> 's" where
  "run_tasks exec i [] c s = (True, c, s)"
| "run_tasks exec i (task # tasks) c s =
    (case run_task exec (i 0) task c s of (ok, c', s') \<Rightarrow>
      if ok then run_tasks exec (\<lambda>n. i (Suc n)) tasks c' s' else (False, c', s'))"

section \<open>The calls of a program\<close>

primrec all_calls :: "sw_prog \<Rightarrow> (backend_call \<Rightarrow> bool) \<Rightarrow> bool" where
  "all_calls Done = (\<lambda>P. True)"
| "all_calls Threw = (\<lambda>P. True)"
| "all_calls (Call call k) = (\<lambda>P. P call \<and> (\<forall>reply i c. case map_prod id all_calls (k reply i c) of (c', q) \<Rightarrow> q P))"

fun task_calls :: "WriteTask \<Rightarrow> backend_call list" where
  "task_calls (WRITE_SCRIPT nid k f sql) = [SaveScript nid k f sql]"
| "task_calls (WRITE_SCRIPT_DRAFT nid sql) = [SaveScriptDraft nid sql]"
| "task_calls (CREATE_SCRIPT_FOLDER nid k ss) = CreateScriptFolder nid k # map (\<lambda>s. SaveScript nid k (fs_fileName s) (fs_sql s)) ss"
| "task_calls (DELETE_SCRIPT_FOLDER nid k) = [DeleteScriptFolder nid k]"
| "task_calls (RENAME_SCRIPT_FOLDER nid old new) = [RenameScriptFolder nid old new]"
| "task_calls (DELETE_SCRIPT nid k f) = [DeleteScript nid k f]"
| "task_calls (RENAME_SCRIPT nid k old new) = [RenameScript nid k old new]"
| "task_calls _ = []"

definition segment_calls :: "(backend_call \<Rightarrow> bool) \<Rightarrow> segment \<Rightarrow> bool" where
  "segment_calls P k \<longleftrightarrow> (\<forall>i c. all_calls (snd (k i c)) P)"

lemma all_calls_Call: "all_calls (Call call k) P \<longleftrightarrow> P call \<and> (\<forall>reply. segment_calls P (k reply))"
  by (simp add: segment_calls_def map_prod_def split_beta)

lemma calls_awaiting: "P call \<Longrightarrow> segment_calls P k \<Longrightarrow> all_calls (awaiting call k) P"
  unfolding awaiting_def all_calls_Call by (simp add: segment_calls_def)

lemma calls_timed_save: "P call \<Longrightarrow> segment_calls P k \<Longrightarrow> segment_calls P (timed_save call path bytes content k)"
  by (auto simp: timed_save_def segment_calls_def intro!: calls_awaiting)

lemma calls_task_end: "segment_calls P task_end"
  by (simp add: segment_calls_def task_end_def)

lemma calls_folder_scripts:
  "(\<And>s. s \<in> set ss \<Longrightarrow> P (SaveScript nid k (fs_fileName s) (fs_sql s))) \<Longrightarrow> segment_calls P (save_folder_scripts nid k ss task_end)"
  by (induction ss) (auto simp: save_script_def save_text_def intro!: calls_timed_save calls_task_end)

lemma calls_then_contents: "P call \<Longrightarrow> segment_calls P (then_contents call f)"
  by (auto simp: segment_calls_def then_contents_def intro!: calls_awaiting)

lemma task_program_calls:
  assumes "script_task task" "list_all P (task_calls task)"
  shows "all_calls (snd (executeTask task i c)) P"
proof -
  have "segment_calls P (executeTask task)"
  proof (cases task)
    case (CREATE_SCRIPT_FOLDER nid k ss)
    then show ?thesis
      using assms(2) by (auto simp: segment_calls_def list_all_iff intro!: calls_awaiting calls_folder_scripts [unfolded segment_calls_def, rule_format])
  qed (use assms in \<open>auto simp: save_script_def save_text_def intro!: calls_timed_save calls_task_end calls_then_contents\<close>)
  then show ?thesis by (simp add: segment_calls_def)
qed

section \<open>The contract\<close>

text \<open>\<open>holds s st\<close>: the backend in the state \<open>s\<close> has the script files \<open>st\<close>. \<open>admissible\<close> are the calls the contract is about.\<close>

locale script_backend =
  fixes exec :: "backend_call \<Rightarrow> 's \<Rightarrow> backend_reply \<times> 's"
    and holds :: "'s \<Rightarrow> script_store \<Rightarrow> bool"
    and admissible :: "backend_call \<Rightarrow> bool"
  assumes exec_effect: "admissible call \<Longrightarrow> holds s st \<Longrightarrow> call_effect call st = Some st' \<Longrightarrow>
    \<exists>s'. exec call s = (Resolved, s') \<and> holds s' st'"
begin

lemma prog_refines:
  "all_calls prog admissible \<Longrightarrow> holds s st \<Longrightarrow> prog_effect prog i c st = Some st' \<Longrightarrow>
    \<exists>c' s'. run_prog prog exec i c s = (True, c', s') \<and> holds s' st'"
proof (induction prog arbitrary: i c s st)
  case (Call call k)
  from Call.prems(3) obtain st1 where e: "call_effect call st = Some st1" by (auto split: option.splits)
  from exec_effect [OF _ Call.prems(2) e] Call.prems(1) obtain s1 where s1: "exec call s = (Resolved, s1)" "holds s1 st1" by auto
  obtain c1 p1 where k: "k Resolved (i 0) c = (c1, p1)" by fastforce
  have "all_calls p1 admissible" using Call.prems(1) k unfolding all_calls_Call segment_calls_def by (metis snd_conv)
  moreover have "prog_effect p1 (\<lambda>n. i (Suc n)) c1 st1 = Some st'" using Call.prems(3) by (simp add: e k)
  moreover have "p1 \<in> Basic_BNFs.snds (k Resolved (i 0) c)" by (simp add: k)
  ultimately have "\<exists>c' s'. run_prog p1 exec (\<lambda>n. i (Suc n)) c1 s1 = (True, c', s') \<and> holds s' st'"
    using Call.IH s1(2) by blast
  then show ?case by (simp add: s1(1) k)
qed simp_all

lemma task_refines:
  assumes "script_task task" "list_all admissible (task_calls task)" "holds s st" "task_effect task st = Some st'"
  shows "\<exists>c' s'. run_task exec i task c s = (True, c', s') \<and> holds s' st'"
proof -
  obtain c1 prog where x: "executeTask task (i 0) c = (c1, prog)" by fastforce
  have "execute_effect i c task st = Some st'" using execute_script_task [OF assms(1)] assms(4) by simp
  then have "prog_effect prog (\<lambda>n. i (Suc n)) c1 st = Some st'" by (simp add: execute_effect_def x)
  moreover have "all_calls prog admissible" using task_program_calls [OF assms(1,2), of "i 0" c] x by simp
  ultimately show ?thesis using prog_refines assms(3) by (simp add: run_task_def x)
qed

lemma tasks_refine:
  "list_all (\<lambda>t. script_task t \<and> list_all admissible (task_calls t)) tasks \<Longrightarrow> holds s st \<Longrightarrow> tasks_effect tasks st = Some st' \<Longrightarrow>
    \<exists>c' s'. run_tasks exec i tasks c s = (True, c', s') \<and> holds s' st'"
proof (induction tasks arbitrary: i c s st)
  case (Cons t ts)
  from Cons.prems(3) obtain st1 where e: "task_effect t st = Some st1" "tasks_effect ts st1 = Some st'"
    by (cases "task_effect t st") simp_all
  from task_refines [OF _ _ Cons.prems(2) e(1), of "i 0" c] Cons.prems(1)
  obtain c1 s1 where r: "run_task exec (i 0) t c s = (True, c1, s1)" "holds s1 st1" by auto
  from Cons.IH [OF _ r(2) e(2), of "\<lambda>n. i (Suc n)" c1] Cons.prems(1) show ?case by (simp add: r(1))
qed simp

end

end
