(* ===== verification/Opfs_Scripts.thy ===== *)
theory Opfs_Scripts
  imports Opfs_Tree Backend_Contract
begin

text \<open>The script files of a notebook in the file system, and what the methods of \<^verbatim>\<open>opfs_storage_backend.ts\<close> do to
  them. Each method is followed on the function from paths to entries.\<close>

section \<open>Calls that succeed\<close>

lemma fs_at_js_set: "p \<noteq> [] \<Longrightarrow> fs_at (js_set s p x) = (fs_at s)(p \<mapsto> x)"
  by (rule ext) (simp add: fs_at_set)

lemma fs_at_js_delete: "p \<noteq> [] \<Longrightarrow> fs_at (js_delete s p) = (fs_at s)(p := None)"
  by (rule ext) (simp add: fs_at_delete)

lemma open_dir: "valid_name n \<Longrightarrow> fs_at s p = Some DirEntry \<Longrightarrow> fs_at s (p @ [n]) = Some DirEntry \<Longrightarrow>
    getDirectoryHandle c p n s = (Inr (p @ [n]), s)"
  by (simp add: getDirectoryHandle_def)

lemma make_dir:
  assumes "valid_name n" "fs_at s p = Some DirEntry" "fs_at s (p @ [n]) = None \<or> fs_at s (p @ [n]) = Some DirEntry"
  shows "\<exists>s'. getDirectoryHandle True p n s = (Inr (p @ [n]), s') \<and> fs_at s' = (fs_at s)(p @ [n] \<mapsto> DirEntry)"
  using assms by (cases "fs_at s (p @ [n])") (auto simp: getDirectoryHandle_def fs_at_js_set)

lemma open_file: "valid_name n \<Longrightarrow> fs_at s p = Some DirEntry \<Longrightarrow> fs_at s (p @ [n]) = Some (FileEntry d t) \<Longrightarrow>
    getFileHandle now c p n s = (Inr (p @ [n]), s)"
  by (simp add: getFileHandle_def)

lemma read_file: "fs_at s p = Some (FileEntry d t) \<Longrightarrow> getFile p s = (Inr (d, t), s)"
  by (simp add: getFile_def)

lemma write_in_runs:
  assumes "valid_name n" "fs_at s p = Some DirEntry" "fs_at s (p @ [n]) \<noteq> Some DirEntry"
  shows "\<exists>s'. write_in e p n d s = (Inr (), s') \<and> fs_at s' = (fs_at s)(p @ [n] \<mapsto> FileEntry d (oe_now e))"
  using assms
  by (cases "fs_at s (p @ [n])"; cases "the (fs_at s (p @ [n]))")
    (auto simp: write_in_def fs_bind_def getFileHandle_def writeFile_def fs_at_js_set)

lemma remove_file: "valid_name n \<Longrightarrow> fs_at s p = Some DirEntry \<Longrightarrow> fs_at s (p @ [n]) = Some (FileEntry d t) \<Longrightarrow>
    \<exists>s'. removeEntry r p n s = (Inr (), s') \<and> fs_at s' = (fs_at s)(p @ [n] := None)"
  by (simp add: removeEntry_def fs_at_js_delete)

lemma remove_dir:
  assumes "valid_name n" "fs_at s p = Some DirEntry" "fs_at s (p @ [n]) = Some DirEntry"
  shows "\<exists>s'. removeEntry True p n s = (Inr (), s') \<and> fs_at s' = (\<lambda>q. if below (p @ [n]) q then None else fs_at s q)"
proof -
  have "fs_at (filter (\<lambda>(q, x). \<not> below (p @ [n]) q) s) = (\<lambda>q. if below (p @ [n]) q then None else fs_at s q)"
    by (rule ext, rule fs_at_filter) simp
  then show ?thesis using assms by (simp add: removeEntry_def)
qed

text \<open>Moving a file onto a free name.\<close>

lemma moveFile_runs:
  assumes "valid_name f" "valid_name g" "fs_at s p = Some DirEntry" "fs_at s q = Some DirEntry"
    and src: "fs_at s (p @ [f]) = Some (FileEntry d t)" and free: "fs_at s (q @ [g]) = None"
  shows "\<exists>s' m. moveFile e p f q g s = (Inr (), s') \<and> fs_at s' = (fs_at s)(p @ [f] := None, q @ [g] \<mapsto> FileEntry d m)"
proof -
  have ne: "\<not> (p = q \<and> f = g)" "p @ [f] \<noteq> q @ [g]" using src free by auto
  note opened = open_file [OF assms(1,3) src, of "oe_now e" False]
  show ?thesis
  proof (cases "oe_move e")
    case True
    have "fs_at (js_set (js_delete s (p @ [f])) (q @ [g]) (FileEntry d t)) = (fs_at s)(p @ [f] := None, q @ [g] \<mapsto> FileEntry d t)"
      by (simp add: fs_at_js_set fs_at_js_delete)
    moreover have "moveHandle (p @ [f]) q g s = (Inr (), js_set (js_delete s (p @ [f])) (q @ [g]) (FileEntry d t))"
      using assms by (simp add: moveHandle_def)
    ultimately show ?thesis using ne(1) True by (auto simp: moveFile_def fs_bind_def opened)
  next
    case False
    obtain s1 where s1: "write_in e q g d s = (Inr (), s1)" "fs_at s1 = (fs_at s)(q @ [g] \<mapsto> FileEntry d (oe_now e))"
      using write_in_runs [OF assms(2,4), of e d] free by auto
    have "fs_at s1 p = Some DirEntry" "fs_at s1 (p @ [f]) = Some (FileEntry d t)"
      using assms(3) src free ne by (auto simp: s1(2))
    then obtain s2 where s2: "removeEntry False p f s1 = (Inr (), s2)" "fs_at s2 = (fs_at s1)(p @ [f] := None)"
      using remove_file [OF assms(1)] by blast
    have "moveFile e p f q g s = (Inr (), s2)"
      using ne(1) False by (auto simp: moveFile_def fs_bind_def opened read_file [OF src] s1(1) s2(1))
    moreover have "fs_at s2 = (fs_at s)(p @ [f] := None, q @ [g] \<mapsto> FileEntry d (oe_now e))"
      unfolding s2(2) s1(2) by (rule fun_upd_twist) (use ne(2) in metis)
    ultimately show ?thesis by blast
  qed
qed

section \<open>The listing of a directory\<close>

lemma dir_entries_runs:
  assumes "tree_ok s" "fs_at s p = Some DirEntry"
  obtains xs where "dir_entries p s = (Inr xs, s)" "distinct (map fst xs)" "\<And>n x. (n, x) \<in> set xs \<longleftrightarrow> fs_at s (p @ [n]) = Some x"
proof -
  let ?ys = "filter (\<lambda>(q, x). q \<noteq> [] \<and> butlast q = p) s"
  let ?xs = "map (\<lambda>(q, x). (last q, x)) ?ys"
  have ok: "jsmap_ok s" using assms(1) by (simp add: tree_ok_def)
  have ys: "q = p @ [last q]" if "(q, x) \<in> set ?ys" for q x using that by (auto simp: append_butlast_last_id)
  have names: "map fst ?xs = map last (map fst ?ys)" by (simp add: case_prod_beta comp_def)
  moreover have "inj_on last (set (map fst ?ys))" using ys by (intro inj_onI) (metis (no_types, lifting) imageE list.set_map prod.collapse)
  moreover have "distinct (map fst ?ys)" using jsmap_ok_filter [OF ok] by (simp add: jsmap_ok_def)
  ultimately have "distinct (map last (map fst ?ys))" by (simp only: distinct_map)
  then have "distinct (map fst ?xs)" unfolding names .
  moreover have "(n, x) \<in> set ?xs \<longleftrightarrow> fs_at s (p @ [n]) = Some x" for n x
  proof
    assume "(n, x) \<in> set ?xs"
    then obtain q where q: "(q, x) \<in> set ?ys" "n = last q" by auto
    then have "q = p @ [n]" "(q, x) \<in> set s" using ys by auto
    then show "fs_at s (p @ [n]) = Some x" using js_in_get [OF ok] by (simp add: fs_at_def)
  next
    assume "fs_at s (p @ [n]) = Some x"
    then have "(p @ [n], x) \<in> set s" by (simp add: fs_at_def js_get_in_values)
    then show "(n, x) \<in> set ?xs" by (force simp: image_iff)
  qed
  moreover have "dir_entries p s = (Inr ?xs, s)" using assms(2) by (simp add: dir_entries_def)
  ultimately show thesis using that by blast
qed

section \<open>The scripts of a notebook\<close>

definition scripts_path :: "string \<Rightarrow> path" where
  "scripts_path nid = [STORAGE_NOTEBOOKS_FOLDER, nid, STORAGE_SCRIPTS_FOLDER]"

definition dir_or_none :: "fs_entry option \<Rightarrow> bool" where
  "dir_or_none x \<longleftrightarrow> x = None \<or> x = Some DirEntry"

definition file_matches :: "fs_entry option \<Rightarrow> string option \<Rightarrow> bool" where
  "file_matches x v = (case v of None \<Rightarrow> x = None | Some t \<Rightarrow> (\<exists>m. x = Some (FileEntry (Text t) m)))"

definition folder_matches :: "(path \<Rightarrow> fs_entry option) \<Rightarrow> path \<Rightarrow> (string \<Rightarrow> string option) option \<Rightarrow> bool" where
  "folder_matches t p v = (case v of None \<Rightarrow> t p = None
     | Some m \<Rightarrow> t p = Some DirEntry \<and> (\<forall>f. file_matches (t (p @ [f])) (m f)))"

text \<open>The directories on the way to the scripts are free or directories, the folders hold the texts of the view, and the
  draft is the text \<open>d\<close>, or missing when it is empty.\<close>

definition scripts_match :: "string \<Rightarrow> (path \<Rightarrow> fs_entry option) \<Rightarrow> file_view \<Rightarrow> string \<Rightarrow> bool" where
  "scripts_match nid t v d \<longleftrightarrow>
     dir_or_none (t [STORAGE_NOTEBOOKS_FOLDER]) \<and> dir_or_none (t [STORAGE_NOTEBOOKS_FOLDER, nid]) \<and> dir_or_none (t (scripts_path nid)) \<and>
     (\<forall>k. k \<noteq> STORAGE_SCRIPT_DRAFT \<longrightarrow> folder_matches t (scripts_path nid @ [k]) (v k)) \<and> v STORAGE_SCRIPT_DRAFT = None \<and>
     (file_matches (t (scripts_path nid @ [STORAGE_SCRIPT_DRAFT])) (Some d) \<or> t (scripts_path nid @ [STORAGE_SCRIPT_DRAFT]) = None \<and> d = '''')"

definition holds_scripts :: "string \<Rightarrow> file_system \<Rightarrow> script_store \<Rightarrow> bool" where
  "holds_scripts nid s st \<longleftrightarrow> tree_ok s \<and> scripts_match nid (fs_at s) (view st) (st_draft st)"

text \<open>What the writer may pass: names the platform accepts, and no folder with the name of the draft.\<close>

definition folder_name :: "string \<Rightarrow> bool" where
  "folder_name k \<longleftrightarrow> valid_name k \<and> k \<noteq> STORAGE_SCRIPT_DRAFT"

fun script_call :: "string \<Rightarrow> backend_call \<Rightarrow> bool" where
  "script_call nid (CreateScriptFolder n k) \<longleftrightarrow> n = nid \<and> folder_name k"
| "script_call nid (SaveScript n k f sql) \<longleftrightarrow> n = nid \<and> folder_name k \<and> valid_name f"
| "script_call nid (SaveScriptDraft n sql) \<longleftrightarrow> n = nid"
| "script_call nid (DeleteScriptFolder n k) \<longleftrightarrow> n = nid"
| "script_call nid (RenameScriptFolder n old new) \<longleftrightarrow> n = nid \<and> folder_name new"
| "script_call nid (DeleteScript n k f) \<longleftrightarrow> n = nid"
| "script_call nid (RenameScript n k old new) \<longleftrightarrow> n = nid \<and> valid_name new"
| "script_call nid _ \<longleftrightarrow> False"

subsection \<open>Opening the directories\<close>

lemma fixed_names [simp]: "valid_name STORAGE_NOTEBOOKS_FOLDER" "valid_name STORAGE_SCRIPTS_FOLDER" "valid_name STORAGE_SCRIPT_DRAFT"
  "STORAGE_NOTEBOOKS_FOLDER \<noteq> ''''"
  by (simp_all add: valid_name_def STORAGE_NOTEBOOKS_FOLDER_def STORAGE_SCRIPTS_FOLDER_def STORAGE_SCRIPT_DRAFT_def)

lemma split_notebook_path: "valid_name nid \<Longrightarrow> split_slash (notebookRelPath nid) = [STORAGE_NOTEBOOKS_FOLDER, nid]"
proof -
  assume "valid_name nid"
  then have "CHR 0x2F \<notin> set nid" by (simp add: valid_name_def)
  then show ?thesis
    unfolding notebookRelPath_def by (subst split_slash_append) (simp_all add: split_slash_plain STORAGE_NOTEBOOKS_FOLDER_def)
qed

definition with_notebook :: "string \<Rightarrow> (path \<Rightarrow> fs_entry option) \<Rightarrow> path \<Rightarrow> fs_entry option" where
  "with_notebook nid t = t([STORAGE_NOTEBOOKS_FOLDER] \<mapsto> DirEntry, [STORAGE_NOTEBOOKS_FOLDER, nid] \<mapsto> DirEntry)"

lemma make_notebook_dir:
  assumes "oe_ready e" "valid_name nid" "scripts_match nid (fs_at s) v d"
  shows "\<exists>s'. getNotebookDir e (notebookRelPath nid) True s = (Inr [STORAGE_NOTEBOOKS_FOLDER, nid], s') \<and>
    fs_at s' = with_notebook nid (fs_at s)"
proof -
  note free = assms(3) [unfolded scripts_match_def dir_or_none_def]
  obtain s1 where s1: "getDirectoryHandle True [] STORAGE_NOTEBOOKS_FOLDER s = (Inr [STORAGE_NOTEBOOKS_FOLDER], s1)"
    "fs_at s1 = (fs_at s)([STORAGE_NOTEBOOKS_FOLDER] \<mapsto> DirEntry)"
    using make_dir [of STORAGE_NOTEBOOKS_FOLDER s "[]"] free by auto
  obtain s2 where s2: "getDirectoryHandle True [STORAGE_NOTEBOOKS_FOLDER] nid s1 = (Inr [STORAGE_NOTEBOOKS_FOLDER, nid], s2)"
    "fs_at s2 = (fs_at s1)([STORAGE_NOTEBOOKS_FOLDER, nid] \<mapsto> DirEntry)"
    using make_dir [of nid s1 "[STORAGE_NOTEBOOKS_FOLDER]"] free assms(2) by (auto simp: s1(2))
  have "nid \<noteq> ''''" using assms(2) by (simp add: valid_name_def)
  then show ?thesis
    using assms(1) by (simp add: getNotebookDir_def ensureInitialized_def split_notebook_path [OF assms(2)] fs_bind_def
        rethrow_missing_def fs_catch_def s1 s2 with_notebook_def)
qed

lemma open_notebook_dir:
  assumes "oe_ready e" "valid_name nid" "fs_at s [STORAGE_NOTEBOOKS_FOLDER] = Some DirEntry" "fs_at s [STORAGE_NOTEBOOKS_FOLDER, nid] = Some DirEntry"
  shows "getNotebookDir e (notebookRelPath nid) c s = (Inr [STORAGE_NOTEBOOKS_FOLDER, nid], s)"
proof -
  have s1: "getDirectoryHandle c [] STORAGE_NOTEBOOKS_FOLDER s = (Inr [STORAGE_NOTEBOOKS_FOLDER], s)"
    using open_dir [of STORAGE_NOTEBOOKS_FOLDER s "[]"] assms(3) by simp
  have s2: "getDirectoryHandle c [STORAGE_NOTEBOOKS_FOLDER] nid s = (Inr [STORAGE_NOTEBOOKS_FOLDER, nid], s)"
    using open_dir [of nid s "[STORAGE_NOTEBOOKS_FOLDER]"] assms by simp
  have "nid \<noteq> ''''" using assms(2) by (simp add: valid_name_def)
  then show ?thesis
    using assms(1) by (simp add: getNotebookDir_def ensureInitialized_def split_notebook_path [OF assms(2)] fs_bind_def
        rethrow_missing_def fs_catch_def s1 s2)
qed

text \<open>With the directory of the scripts, made or found.\<close>

definition with_scripts :: "string \<Rightarrow> (path \<Rightarrow> fs_entry option) \<Rightarrow> path \<Rightarrow> fs_entry option" where
  "with_scripts nid t = (with_notebook nid t)(scripts_path nid \<mapsto> DirEntry)"

lemma make_scripts_dir:
  assumes "oe_ready e" "valid_name nid" "scripts_match nid (fs_at s) v d"
  shows "\<exists>s1 s2. getNotebookDir e (notebookRelPath nid) True s = (Inr [STORAGE_NOTEBOOKS_FOLDER, nid], s1) \<and>
    getDirectoryHandle True [STORAGE_NOTEBOOKS_FOLDER, nid] STORAGE_SCRIPTS_FOLDER s1 = (Inr (scripts_path nid), s2) \<and>
    fs_at s2 = with_scripts nid (fs_at s)"
proof -
  obtain s1 where s1: "getNotebookDir e (notebookRelPath nid) True s = (Inr [STORAGE_NOTEBOOKS_FOLDER, nid], s1)"
    "fs_at s1 = with_notebook nid (fs_at s)" using make_notebook_dir [OF assms] by blast
  have "dir_or_none (fs_at s (scripts_path nid))" using assms(3) by (simp add: scripts_match_def)
  then obtain s2 where "getDirectoryHandle True [STORAGE_NOTEBOOKS_FOLDER, nid] STORAGE_SCRIPTS_FOLDER s1 = (Inr (scripts_path nid), s2)"
    "fs_at s2 = (fs_at s1)(scripts_path nid \<mapsto> DirEntry)"
    using make_dir [of STORAGE_SCRIPTS_FOLDER s1 "[STORAGE_NOTEBOOKS_FOLDER, nid]"]
    by (auto simp: s1(2) with_notebook_def scripts_path_def dir_or_none_def)
  with s1 show ?thesis by (auto simp: with_scripts_def)
qed

lemma with_scripts_below: "with_scripts nid t (scripts_path nid @ k # q) = t (scripts_path nid @ k # q)"
  by (simp add: with_scripts_def with_notebook_def scripts_path_def)

lemma with_scripts_dirs: "with_scripts nid t [STORAGE_NOTEBOOKS_FOLDER] = Some DirEntry" "with_scripts nid t [STORAGE_NOTEBOOKS_FOLDER, nid] = Some DirEntry"
  "with_scripts nid t (scripts_path nid) = Some DirEntry"
  by (simp_all add: with_scripts_def with_notebook_def scripts_path_def)

lemma folder_cong:
  assumes "\<And>q. t' (p @ q) = t (p @ q)"
  shows "folder_matches t' p v = folder_matches t p v"
  using assms [of "[]"] assms [of "[_]"] by (cases v) (simp_all add: folder_matches_def)

text \<open>Only what is below the directory of the scripts matters, and that it can be opened.\<close>

lemma match_cong:
  assumes "scripts_match nid t v d" "\<And>k q. t' (scripts_path nid @ k # q) = t (scripts_path nid @ k # q)"
    "dir_or_none (t' [STORAGE_NOTEBOOKS_FOLDER])" "dir_or_none (t' [STORAGE_NOTEBOOKS_FOLDER, nid])" "dir_or_none (t' (scripts_path nid))"
  shows "scripts_match nid t' v d"
proof -
  have "folder_matches t' (scripts_path nid @ [k]) x = folder_matches t (scripts_path nid @ [k]) x" for k x
    by (rule folder_cong) (simp add: assms(2))
  then show ?thesis using assms by (simp add: scripts_match_def)
qed

lemma match_with_scripts: "scripts_match nid t v d \<Longrightarrow> scripts_match nid (with_scripts nid t) v d"
  by (rule match_cong) (simp_all add: with_scripts_below with_scripts_dirs dir_or_none_def)

text \<open>Above a folder that exists all directories do.\<close>

lemma folder_dirs:
  assumes "tree_ok s" "fs_at s (scripts_path nid @ [k]) = Some x"
  shows "fs_at s [STORAGE_NOTEBOOKS_FOLDER] = Some DirEntry" "fs_at s [STORAGE_NOTEBOOKS_FOLDER, nid] = Some DirEntry"
    "fs_at s (scripts_path nid) = Some DirEntry" "valid_name k"
proof -
  from tree_entry [OF assms] show base: "fs_at s (scripts_path nid) = Some DirEntry" "valid_name k" by simp_all
  from tree_entry [OF assms(1), of "[STORAGE_NOTEBOOKS_FOLDER, nid]" STORAGE_SCRIPTS_FOLDER] base
  show nb: "fs_at s [STORAGE_NOTEBOOKS_FOLDER, nid] = Some DirEntry" by (simp add: scripts_path_def)
  from tree_entry [OF assms(1), of "[STORAGE_NOTEBOOKS_FOLDER]" nid] nb show "fs_at s [STORAGE_NOTEBOOKS_FOLDER] = Some DirEntry" by simp
qed

lemma open_scripts_dir:
  assumes "oe_ready e" "valid_name nid" "tree_ok s" "fs_at s (scripts_path nid @ [k]) = Some x"
  shows "getNotebookDir e (notebookRelPath nid) c s = (Inr [STORAGE_NOTEBOOKS_FOLDER, nid], s)"
    "getDirectoryHandle c' [STORAGE_NOTEBOOKS_FOLDER, nid] STORAGE_SCRIPTS_FOLDER s = (Inr (scripts_path nid), s)"
proof -
  note dirs = folder_dirs [OF assms(3,4)]
  show "getNotebookDir e (notebookRelPath nid) c s = (Inr [STORAGE_NOTEBOOKS_FOLDER, nid], s)"
    by (rule open_notebook_dir [OF assms(1,2) dirs(1,2)])
  show "getDirectoryHandle c' [STORAGE_NOTEBOOKS_FOLDER, nid] STORAGE_SCRIPTS_FOLDER s = (Inr (scripts_path nid), s)"
    using open_dir [of STORAGE_SCRIPTS_FOLDER s "[STORAGE_NOTEBOOKS_FOLDER, nid]"] dirs by (simp add: scripts_path_def)
qed

subsection \<open>Changes below the directory\<close>

lemma match_update:
  assumes m: "scripts_match nid t v d" and K: "STORAGE_SCRIPT_DRAFT \<notin> K"
    and new: "\<And>k. k \<in> K \<Longrightarrow> folder_matches t' (scripts_path nid @ [k]) (v' k)"
    and same: "\<And>q. (\<And>k. k \<in> K \<Longrightarrow> \<not> below (scripts_path nid @ [k]) q) \<Longrightarrow> t' q = t q" "\<And>k. k \<notin> K \<Longrightarrow> v' k = v k"
  shows "scripts_match nid t' v' d"
proof -
  have apart: "\<not> below (scripts_path nid @ [k]) (scripts_path nid @ k' # q)" if "k \<noteq> k'" for k k' q using that by (simp add: below_iff)
  have short: "\<not> below (scripts_path nid @ [k]) [STORAGE_NOTEBOOKS_FOLDER]" "\<not> below (scripts_path nid @ [k]) [STORAGE_NOTEBOOKS_FOLDER, nid]"
    "\<not> below (scripts_path nid @ [k]) (scripts_path nid)" for k by (simp_all add: below_iff scripts_path_def)
  have "folder_matches t' (scripts_path nid @ [k]) (v' k)" if k: "k \<noteq> STORAGE_SCRIPT_DRAFT" for k
  proof (cases "k \<in> K")
    case False
    then have "t' (scripts_path nid @ k # q) = t (scripts_path nid @ k # q)" for q using same(1) apart by metis
    then have "folder_matches t' (scripts_path nid @ [k]) (v' k) = folder_matches t (scripts_path nid @ [k]) (v k)"
      using folder_cong [of t' "scripts_path nid @ [k]" t] same(2) [OF False] by simp
    then show ?thesis using m k by (simp add: scripts_match_def)
  qed (use new in blast)
  moreover have "t' [STORAGE_NOTEBOOKS_FOLDER] = t [STORAGE_NOTEBOOKS_FOLDER]" "t' [STORAGE_NOTEBOOKS_FOLDER, nid] = t [STORAGE_NOTEBOOKS_FOLDER, nid]"
    "t' (scripts_path nid) = t (scripts_path nid)" by (rule same(1), rule short)+
  moreover have "t' (scripts_path nid @ [STORAGE_SCRIPT_DRAFT]) = t (scripts_path nid @ [STORAGE_SCRIPT_DRAFT])"
    by (rule same(1), rule apart) (use K in blast)
  ultimately show ?thesis using m same(2) [OF K] by (simp add: scripts_match_def)
qed

lemma folder_put:
  assumes "folder_matches t p (Some m)"
  shows "folder_matches (t(p @ [f] \<mapsto> FileEntry (Text sql) a)) p (Some (m(f \<mapsto> sql)))"
  using assms by (auto simp: folder_matches_def file_matches_def)

lemma folder_drop:
  assumes "folder_matches t p (Some m)"
  shows "folder_matches (t(p @ [f] := None)) p (Some (m(f := None)))"
  using assms by (auto simp: folder_matches_def file_matches_def)

lemma folder_at: "folder_matches t p (Some m) \<Longrightarrow> file_matches (t (p @ [f])) (m f)"
  by (simp add: folder_matches_def)

lemma folder_file: "folder_matches t p (Some m) \<Longrightarrow> m f = Some sql \<Longrightarrow> \<exists>a. t (p @ [f]) = Some (FileEntry (Text sql) a)"
  using folder_at [of t p m f] by (simp add: file_matches_def)

lemma folder_free: "folder_matches t p (Some m) \<Longrightarrow> m f = None \<Longrightarrow> t (p @ [f]) = None"
  using folder_at [of t p m f] by (simp add: file_matches_def)

lemma folder_no_dir: "folder_matches t p (Some m) \<Longrightarrow> t (p @ [f]) \<noteq> Some DirEntry"
  using folder_file folder_free by (cases "m f") fastforce+

lemma not_below_self: "\<not> below p q \<Longrightarrow> q \<noteq> p @ r"
  by (auto simp: below_append)

end
