(* ===== verification/Opfs_Reads.thy ===== *)
theory Opfs_Reads
  imports Opfs_Scripts
begin

text \<open>The storage backend over the origin private file system keeps the contract of a backend: each call on the scripts
  of a notebook does to the files what \<^verbatim>\<open>call_effect\<close> says.\<close>

definition opfs_exec :: "OpfsEnv \<Rightarrow> backend_call \<Rightarrow> file_system \<Rightarrow> backend_reply \<times> file_system" where
  "opfs_exec e call s = (case opfs_call e call s of (Inr r, s') \<Rightarrow> (r, s') | (Inl err, s') \<Rightarrow> (Rejected, s'))"

lemma exec_keeps_tree: "tree_ok s \<Longrightarrow> tree_ok (snd (opfs_exec e call s))"
  using keeps_call [of e call] by (auto simp: keeps_def opfs_exec_def split: prod.split sum.split dest!: spec [of _ s])

section \<open>Ways in\<close>

lemma holds_tree: "holds_scripts nid s st \<Longrightarrow> tree_ok s"
  by (simp add: holds_scripts_def)

lemma holds_folder: "holds_scripts nid s st \<Longrightarrow> k \<noteq> STORAGE_SCRIPT_DRAFT \<Longrightarrow> folder_matches (fs_at s) (scripts_path nid @ [k]) (view st k)"
  by (simp add: holds_scripts_def scripts_match_def)

lemma holds_no_draft: "holds_scripts nid s st \<Longrightarrow> view st k \<noteq> None \<Longrightarrow> k \<noteq> STORAGE_SCRIPT_DRAFT"
  by (auto simp: holds_scripts_def scripts_match_def)

lemma match_folder: "scripts_match nid t v d \<Longrightarrow> k \<noteq> STORAGE_SCRIPT_DRAFT \<Longrightarrow> folder_matches t (scripts_path nid @ [k]) (v k)"
  by (simp add: scripts_match_def)

text \<open>A method that makes the directories reaches the one of the scripts.\<close>

lemma scripts_made:
  assumes "oe_ready e" "valid_name nid" "holds_scripts nid s st"
  obtains s0 s1 where "getNotebookDir e (notebookRelPath nid) True s = (Inr [STORAGE_NOTEBOOKS_FOLDER, nid], s0)"
    "getDirectoryHandle True [STORAGE_NOTEBOOKS_FOLDER, nid] STORAGE_SCRIPTS_FOLDER s0 = (Inr (scripts_path nid), s1)"
    "tree_ok s1" "scripts_match nid (fs_at s1) (view st) (st_draft st)" "fs_at s1 (scripts_path nid) = Some DirEntry"
proof -
  obtain s0 s1 where s: "getNotebookDir e (notebookRelPath nid) True s = (Inr [STORAGE_NOTEBOOKS_FOLDER, nid], s0)"
    "getDirectoryHandle True [STORAGE_NOTEBOOKS_FOLDER, nid] STORAGE_SCRIPTS_FOLDER s0 = (Inr (scripts_path nid), s1)"
    "fs_at s1 = with_scripts nid (fs_at s)"
    using make_scripts_dir [OF assms(1,2)] assms(3) unfolding holds_scripts_def by metis
  have "keeps (getNotebookDir e (notebookRelPath nid) True)" by (auto simp: opfs_steps intro!: keeping)
  then have "tree_ok s0" using assms(3) s(1) by (metis holds_tree keeps_def snd_conv)
  then have "tree_ok s1" using keeps_getDirectoryHandle s(2) by (metis keeps_def snd_conv)
  moreover have "scripts_match nid (fs_at s1) (view st) (st_draft st)"
    using assms(3) unfolding s(3) holds_scripts_def by (blast intro: match_with_scripts)
  moreover have "fs_at s1 (scripts_path nid) = Some DirEntry" by (simp add: s(3) with_scripts_dirs)
  ultimately show thesis using that s(1,2) by blast
qed

lemma scripts_opened:
  assumes "oe_ready e" "valid_name nid" "holds_scripts nid s st" "view st k = Some m"
  shows "fs_at s (scripts_path nid) = Some DirEntry" "fs_at s (scripts_path nid @ [k]) = Some DirEntry" "valid_name k"
    "getFolderDir e (notebookRelPath nid) k False s = (Inr (scripts_path nid @ [k]), s)"
    "getNotebookDir e (notebookRelPath nid) c s = (Inr [STORAGE_NOTEBOOKS_FOLDER, nid], s)"
    "getDirectoryHandle c' [STORAGE_NOTEBOOKS_FOLDER, nid] STORAGE_SCRIPTS_FOLDER s = (Inr (scripts_path nid), s)"
proof -
  have at: "fs_at s (scripts_path nid @ [k]) = Some DirEntry"
    using holds_folder [OF assms(3), of k] holds_no_draft [OF assms(3), of k] assms(4) by (simp add: folder_matches_def)
  note o = open_scripts_dir [OF assms(1,2) holds_tree [OF assms(3)] at] and dirs = folder_dirs [OF holds_tree [OF assms(3)] at]
  show "fs_at s (scripts_path nid) = Some DirEntry" "fs_at s (scripts_path nid @ [k]) = Some DirEntry" "valid_name k" using dirs at by simp_all
  show "getFolderDir e (notebookRelPath nid) k False s = (Inr (scripts_path nid @ [k]), s)"
    by (simp add: getFolderDir_def rethrow_missing_def fs_catch_def fs_bind_def o open_dir [OF dirs(4,3) at])
  show "getNotebookDir e (notebookRelPath nid) c s = (Inr [STORAGE_NOTEBOOKS_FOLDER, nid], s)"
    "getDirectoryHandle c' [STORAGE_NOTEBOOKS_FOLDER, nid] STORAGE_SCRIPTS_FOLDER s = (Inr (scripts_path nid), s)" by (rule o)+
qed

text \<open>With the folder made, which is empty when it is new.\<close>

lemma folder_made:
  assumes "oe_ready e" "valid_name nid" "holds_scripts nid s st" "folder_name k"
  obtains s0 s1 s2 where "getNotebookDir e (notebookRelPath nid) True s = (Inr [STORAGE_NOTEBOOKS_FOLDER, nid], s0)"
    "getDirectoryHandle True [STORAGE_NOTEBOOKS_FOLDER, nid] STORAGE_SCRIPTS_FOLDER s0 = (Inr (scripts_path nid), s1)"
    "getDirectoryHandle True (scripts_path nid) k s1 = (Inr (scripts_path nid @ [k]), s2)"
    "tree_ok s2" "scripts_match nid (fs_at s2) ((view st)(k \<mapsto> or_else (view st k) Map.empty)) (st_draft st)"
proof (rule scripts_made [OF assms(1-3)])
  fix s0 s1
  assume s0: "getNotebookDir e (notebookRelPath nid) True s = (Inr [STORAGE_NOTEBOOKS_FOLDER, nid], s0)"
    "getDirectoryHandle True [STORAGE_NOTEBOOKS_FOLDER, nid] STORAGE_SCRIPTS_FOLDER s0 = (Inr (scripts_path nid), s1)"
    and s1: "tree_ok s1" "scripts_match nid (fs_at s1) (view st) (st_draft st)" "fs_at s1 (scripts_path nid) = Some DirEntry"
  have k: "k \<noteq> STORAGE_SCRIPT_DRAFT" "valid_name k" using assms(4) by (simp_all add: folder_name_def)
  have fm: "folder_matches (fs_at s1) (scripts_path nid @ [k]) (view st k)" using s1(2) k(1) by (simp add: scripts_match_def)
  then have "fs_at s1 (scripts_path nid @ [k]) = None \<or> fs_at s1 (scripts_path nid @ [k]) = Some DirEntry"
    by (cases "view st k") (simp_all add: folder_matches_def)
  with make_dir [OF k(2) s1(3)] obtain s2 where s2: "getDirectoryHandle True (scripts_path nid) k s1 = (Inr (scripts_path nid @ [k]), s2)"
    "fs_at s2 = (fs_at s1)(scripts_path nid @ [k] \<mapsto> DirEntry)" by blast
  have new: "folder_matches (fs_at s2) (scripts_path nid @ [k]) (Some (or_else (view st k) Map.empty))"
  proof (cases "view st k")
    case None
    then have "fs_at s1 (scripts_path nid @ [k]) \<noteq> Some DirEntry" using fm by (simp add: folder_matches_def)
    from tree_below_file [OF s1(1) this] show ?thesis using None by (simp add: folder_matches_def s2(2) file_matches_def or_else_def)
  next
    case (Some m)
    then show ?thesis using fm by (simp add: folder_matches_def s2(2) or_else_def)
  qed
  have same: "fs_at s2 q = fs_at s1 q" if "\<not> below (scripts_path nid @ [k]) q" for q
    using that not_below_self [of _ q "[]"] by (simp add: s2(2))
  have "scripts_match nid (fs_at s2) ((view st)(k \<mapsto> or_else (view st k) Map.empty)) (st_draft st)"
    by (rule match_update [OF s1(2), where K = "{k}"]) (use k(1) new same in simp_all)
  moreover have "tree_ok s2" using s1(1) keeps_getDirectoryHandle s2(1) by (metis keeps_def snd_conv)
  ultimately show thesis using that s0 s2(1) by blast
qed

section \<open>The calls\<close>

text \<open>What remains to show for a call that keeps the tree: the files match the new store.\<close>

lemma call_done:
  assumes "opfs_call e call s = (Inr Resolved, s')" "tree_ok s" "scripts_match nid (fs_at s') (view st') (st_draft st')"
  shows "\<exists>s'. opfs_exec e call s = (Resolved, s') \<and> holds_scripts nid s' st'"
proof -
  have x: "opfs_exec e call s = (Resolved, s')" by (simp add: opfs_exec_def assms(1))
  have "tree_ok s'" using exec_keeps_tree [OF assms(2), of e call] by (simp add: x)
  then show ?thesis using x assms(3) by (simp add: holds_scripts_def)
qed

lemma exec_create_folder:
  assumes "oe_ready e" "valid_name nid" "holds_scripts nid s st" "folder_name k" "call_effect (CreateScriptFolder nid k) st = Some st'"
  shows "\<exists>s'. opfs_exec e (CreateScriptFolder nid k) s = (Resolved, s') \<and> holds_scripts nid s' st'"
proof (rule folder_made [OF assms(1-4)])
  fix s0 s1 s2
  assume s: "getNotebookDir e (notebookRelPath nid) True s = (Inr [STORAGE_NOTEBOOKS_FOLDER, nid], s0)"
    "getDirectoryHandle True [STORAGE_NOTEBOOKS_FOLDER, nid] STORAGE_SCRIPTS_FOLDER s0 = (Inr (scripts_path nid), s1)"
    "getDirectoryHandle True (scripts_path nid) k s1 = (Inr (scripts_path nid @ [k]), s2)"
    and m: "scripts_match nid (fs_at s2) ((view st)(k \<mapsto> or_else (view st k) Map.empty)) (st_draft st)"
  have "view st' = (view st)(k \<mapsto> or_else (view st k) Map.empty)" "st_draft st' = st_draft st"
    using assms(5) by (auto simp: view_set view_def or_else_def split: option.splits)
  then show ?thesis
    using m by (intro call_done [OF _ holds_tree [OF assms(3)]]) (simp_all add: createScriptFolder_def fs_bind_def s)
qed

lemma exec_save_script:
  assumes "oe_ready e" "valid_name nid" "holds_scripts nid s st" "folder_name k" "valid_name f" "call_effect (SaveScript nid k f sql) st = Some st'"
  shows "\<exists>s'. opfs_exec e (SaveScript nid k f sql) s = (Resolved, s') \<and> holds_scripts nid s' st'"
proof (rule folder_made [OF assms(1-4)])
  fix s0 s1 s2
  assume s: "getNotebookDir e (notebookRelPath nid) True s = (Inr [STORAGE_NOTEBOOKS_FOLDER, nid], s0)"
    "getDirectoryHandle True [STORAGE_NOTEBOOKS_FOLDER, nid] STORAGE_SCRIPTS_FOLDER s0 = (Inr (scripts_path nid), s1)"
    "getDirectoryHandle True (scripts_path nid) k s1 = (Inr (scripts_path nid @ [k]), s2)"
    and m: "scripts_match nid (fs_at s2) ((view st)(k \<mapsto> or_else (view st k) Map.empty)) (st_draft st)"
  have k: "k \<noteq> STORAGE_SCRIPT_DRAFT" using assms(4) by (simp add: folder_name_def)
  let ?files = "or_else (view st k) Map.empty"
  have fm: "folder_matches (fs_at s2) (scripts_path nid @ [k]) (Some ?files)" using match_folder [OF m k] by simp
  then have "fs_at s2 (scripts_path nid @ [k]) = Some DirEntry" by (simp add: folder_matches_def)
  from write_in_runs [OF assms(5) this folder_no_dir [OF fm], of e "Text sql"]
  obtain s3 where s3: "write_in e (scripts_path nid @ [k]) f (Text sql) s2 = (Inr (), s3)"
    "fs_at s3 = (fs_at s2)((scripts_path nid @ [k]) @ [f] \<mapsto> FileEntry (Text sql) (oe_now e))" by blast
  have new: "folder_matches (fs_at s3) (scripts_path nid @ [k]) (Some (?files(f \<mapsto> sql)))" unfolding s3(2) by (rule folder_put [OF fm])
  have same: "fs_at s3 q = fs_at s2 q" if "\<not> below (scripts_path nid @ [k]) q" for q
    using not_below_self [OF that, of "[f]"] unfolding s3(2) by simp
  have "scripts_match nid (fs_at s3) ((view st)(k \<mapsto> ?files(f \<mapsto> sql))) (st_draft st)"
    by (rule match_update [OF m, where K = "{k}"]) (use k new same in simp_all)
  moreover have "view st' = (view st)(k \<mapsto> ?files(f \<mapsto> sql))" "st_draft st' = st_draft st" using assms(6) view_save [of k f sql st] by auto
  ultimately show ?thesis
    by (intro call_done [OF _ holds_tree [OF assms(3)]])
      (simp_all add: saveScript_def getFolderDir_def rethrow_missing_def fs_catch_def fs_bind_def s s3(1))
qed

lemma exec_save_draft:
  assumes "oe_ready e" "valid_name nid" "holds_scripts nid s st" "call_effect (SaveScriptDraft nid sql) st = Some st'"
  shows "\<exists>s'. opfs_exec e (SaveScriptDraft nid sql) s = (Resolved, s') \<and> holds_scripts nid s' st'"
proof (rule scripts_made [OF assms(1-3)])
  fix s0 s1
  assume s: "getNotebookDir e (notebookRelPath nid) True s = (Inr [STORAGE_NOTEBOOKS_FOLDER, nid], s0)"
    "getDirectoryHandle True [STORAGE_NOTEBOOKS_FOLDER, nid] STORAGE_SCRIPTS_FOLDER s0 = (Inr (scripts_path nid), s1)"
    and m: "scripts_match nid (fs_at s1) (view st) (st_draft st)" and dir: "fs_at s1 (scripts_path nid) = Some DirEntry"
  have "fs_at s1 (scripts_path nid @ [STORAGE_SCRIPT_DRAFT]) \<noteq> Some DirEntry" using m by (auto simp: scripts_match_def file_matches_def)
  from write_in_runs [OF fixed_names(3) dir this, of e "Text sql"]
  obtain s2 where s2: "write_in e (scripts_path nid) STORAGE_SCRIPT_DRAFT (Text sql) s1 = (Inr (), s2)"
    "fs_at s2 = (fs_at s1)(scripts_path nid @ [STORAGE_SCRIPT_DRAFT] \<mapsto> FileEntry (Text sql) (oe_now e))" by blast
  have "folder_matches (fs_at s2) (scripts_path nid @ [k]) (view st k)" if "k \<noteq> STORAGE_SCRIPT_DRAFT" for k
    using m that folder_cong [of "fs_at s2" "scripts_path nid @ [k]" "fs_at s1" "view st k"] unfolding s2(2) by (simp add: scripts_match_def)
  moreover have "fs_at s2 [STORAGE_NOTEBOOKS_FOLDER] = fs_at s1 [STORAGE_NOTEBOOKS_FOLDER]" "fs_at s2 [STORAGE_NOTEBOOKS_FOLDER, nid] = fs_at s1 [STORAGE_NOTEBOOKS_FOLDER, nid]"
    unfolding s2(2) by (simp_all add: scripts_path_def)
  ultimately have "scripts_match nid (fs_at s2) (view st) sql" using m dir by (simp add: scripts_match_def s2(2) file_matches_def dir_or_none_def)
  moreover have "view st' = view st" "st_draft st' = sql" using assms(4) by (auto simp: view_def)
  ultimately show ?thesis
    by (intro call_done [OF _ holds_tree [OF assms(3)]]) (simp_all add: saveScriptDraft_def fs_bind_def s s2(1))
qed

text \<open>The calls on a folder that exists.\<close>

lemma exec_delete_folder:
  assumes "oe_ready e" "valid_name nid" "holds_scripts nid s st" "call_effect (DeleteScriptFolder nid k) st = Some st'"
  shows "\<exists>s'. opfs_exec e (DeleteScriptFolder nid k) s = (Resolved, s') \<and> holds_scripts nid s' st'"
proof -
  from assms(4) have has: "js_get (st_folders st) k \<noteq> None" and st': "st' = st\<lparr>st_folders := js_delete (st_folders st) k\<rparr>"
    by (auto split: if_splits)
  then obtain m where v: "view st k = Some m" by (auto simp: view_def)
  note dir = scripts_opened [OF assms(1-3) v]
  from remove_dir [OF dir(3,1,2)] obtain s1 where s1: "removeEntry True (scripts_path nid) k s = (Inr (), s1)"
    "fs_at s1 = (\<lambda>q. if below (scripts_path nid @ [k]) q then None else fs_at s q)" by blast
  have k: "k \<noteq> STORAGE_SCRIPT_DRAFT" using holds_no_draft [OF assms(3)] v by auto
  have new: "folder_matches (fs_at s1) (scripts_path nid @ [k]) None" using below_append [of _ "[]"] by (simp add: folder_matches_def s1(2))
  have same: "fs_at s1 q = fs_at s q" if "\<not> below (scripts_path nid @ [k]) q" for q using that by (simp add: s1(2))
  have "scripts_match nid (fs_at s) (view st) (st_draft st)" using assms(3) by (simp add: holds_scripts_def)
  then have "scripts_match nid (fs_at s1) ((view st)(k := None)) (st_draft st)"
    by (rule match_update [where K = "{k}"]) (use k new same in simp_all)
  moreover have "view st' = (view st)(k := None)" by (rule ext) (simp add: st' view_def js_get_delete)
  ultimately show ?thesis
    by (intro call_done [OF _ holds_tree [OF assms(3)]]) (simp_all add: deleteScriptFolder_def dir(5,6) fs_bind_def s1(1) st')
qed

lemma folder_changed:
  assumes "holds_scripts nid s st" "view st k = Some m" "folder_matches t (scripts_path nid @ [k]) (Some m')"
    "\<And>q. \<not> below (scripts_path nid @ [k]) q \<Longrightarrow> t q = fs_at s q"
  shows "scripts_match nid t ((view st)(k \<mapsto> m')) (st_draft st)"
proof -
  have "scripts_match nid (fs_at s) (view st) (st_draft st)" using assms(1) by (simp add: holds_scripts_def)
  then show ?thesis
    by (rule match_update [where K = "{k}"]) (use holds_no_draft [OF assms(1), of k] assms(2-4) in simp_all)
qed

lemma exec_delete_script:
  assumes "oe_ready e" "valid_name nid" "holds_scripts nid s st" "call_effect (DeleteScript nid k f) st = Some st'"
  shows "\<exists>s'. opfs_exec e (DeleteScript nid k f) s = (Resolved, s') \<and> holds_scripts nid s' st'"
proof -
  from assms(4) obtain files sql where files: "js_get (st_folders st) k = Some files" "js_get files f = Some sql"
    and st': "st' = st\<lparr>st_folders := js_set (st_folders st) k (js_delete files f)\<rparr>" by (auto split: option.splits if_splits)
  then have v: "view st k = Some (map_of files)" by (simp add: view_def)
  note dir = scripts_opened [OF assms(1-3) v]
  have fm: "folder_matches (fs_at s) (scripts_path nid @ [k]) (Some (map_of files))"
    using holds_folder [OF assms(3), of k] holds_no_draft [OF assms(3), of k] v by simp
  from folder_file [OF fm] files(2) obtain a where at: "fs_at s ((scripts_path nid @ [k]) @ [f]) = Some (FileEntry (Text sql) a)" by auto
  have "valid_name f" using tree_entry [OF holds_tree [OF assms(3)] at] by simp
  from remove_file [OF this dir(2) at, of False] obtain s1 where s1: "removeEntry False (scripts_path nid @ [k]) f s = (Inr (), s1)"
    "fs_at s1 = (fs_at s)((scripts_path nid @ [k]) @ [f] := None)" by blast
  have "folder_matches (fs_at s1) (scripts_path nid @ [k]) (Some ((map_of files)(f := None)))" unfolding s1(2) by (rule folder_drop [OF fm])
  moreover have "fs_at s1 q = fs_at s q" if "\<not> below (scripts_path nid @ [k]) q" for q using not_below_self [OF that, of "[f]"] unfolding s1(2) by simp
  ultimately have "scripts_match nid (fs_at s1) ((view st)(k \<mapsto> (map_of files)(f := None))) (st_draft st)" using folder_changed [OF assms(3) v] by blast
  moreover have "view st' = (view st)(k \<mapsto> (map_of files)(f := None))" unfolding st' by (simp add: view_set map_of_js_delete)
  ultimately show ?thesis
    by (intro call_done [OF _ holds_tree [OF assms(3)]]) (simp_all add: deleteScript_def fs_bind_def dir(4) s1(1) st')
qed

lemma exec_rename_script:
  assumes "oe_ready e" "valid_name nid" "holds_scripts nid s st" "valid_name new" "call_effect (RenameScript nid k old new) st = Some st'"
  shows "\<exists>s'. opfs_exec e (RenameScript nid k old new) s = (Resolved, s') \<and> holds_scripts nid s' st'"
proof -
  from assms(5) obtain files sql where files: "js_get (st_folders st) k = Some files" "js_get files old = Some sql" "js_get files new = None"
    and st': "st' = st\<lparr>st_folders := js_set (st_folders st) k (js_set (js_delete files old) new sql)\<rparr>" by (auto split: option.splits if_splits)
  then have v: "view st k = Some (map_of files)" by (simp add: view_def)
  note dir = scripts_opened [OF assms(1-3) v]
  let ?p = "scripts_path nid @ [k]"
  have fm: "folder_matches (fs_at s) ?p (Some (map_of files))"
    using holds_folder [OF assms(3), of k] holds_no_draft [OF assms(3), of k] v by simp
  from folder_file [OF fm] files(2) obtain a where at: "fs_at s (?p @ [old]) = Some (FileEntry (Text sql) a)" by auto
  have old: "valid_name old" using tree_entry [OF holds_tree [OF assms(3)] at] by simp
  have ne: "old \<noteq> new" using files by auto
  from moveFile_runs [OF old assms(4) dir(2,2) at folder_free [OF fm files(3)]]
  obtain s1 b where s1: "moveFile e ?p old ?p new s = (Inr (), s1)"
    "fs_at s1 = (fs_at s)(?p @ [old] := None, ?p @ [new] \<mapsto> FileEntry (Text sql) b)" by blast
  have "folder_matches (fs_at s1) ?p (Some ((map_of files)(old := None, new \<mapsto> sql)))"
    unfolding s1(2) by (rule folder_put [OF folder_drop [OF fm]])
  moreover have "fs_at s1 q = fs_at s q" if "\<not> below ?p q" for q
    using not_below_self [OF that, of "[old]"] not_below_self [OF that, of "[new]"] unfolding s1(2) by simp
  ultimately have "scripts_match nid (fs_at s1) ((view st)(k \<mapsto> (map_of files)(old := None, new \<mapsto> sql))) (st_draft st)"
    using folder_changed [OF assms(3) v] by blast
  moreover have "view st' = (view st)(k \<mapsto> (map_of files)(old := None, new \<mapsto> sql))"
    unfolding st' by (simp add: view_set map_of_js_delete map_of_js_set)
  moreover have "getDirectoryHandle False (scripts_path nid) k s = (Inr ?p, s)" by (rule open_dir [OF dir(3,1,2)])
  moreover have "getFileHandle (oe_now e) False ?p old s = (Inr (?p @ [old]), s)" by (rule open_file [OF old dir(2) at])
  ultimately show ?thesis using ne
    by (intro call_done [OF _ holds_tree [OF assms(3)]])
      (simp_all add: renameScript_def dir(5,6) fs_catch_def fs_bind_def s1(1) st')
qed

subsection \<open>Renaming a folder\<close>

text \<open>The files are moved one by one.\<close>

lemma move_all:
  assumes "p \<noteq> q" "fs_at s p = Some DirEntry" "fs_at s q = Some DirEntry" "distinct (map fst xs)"
    "\<And>n x. (n, x) \<in> set xs \<Longrightarrow> valid_name n \<and> (\<exists>d a. x = FileEntry d a) \<and> fs_at s (p @ [n]) = Some x \<and> fs_at s (q @ [n]) = None"
  shows "\<exists>s'. fs_each (\<lambda>(n, x). moveFile e p n q n) xs s = (Inr (), s') \<and>
    (\<forall>n d a. (n, FileEntry d a) \<in> set xs \<longrightarrow> (\<exists>b. fs_at s' (q @ [n]) = Some (FileEntry d b))) \<and>
    (\<forall>r. (\<forall>n x. (n, x) \<in> set xs \<longrightarrow> r \<noteq> p @ [n] \<and> r \<noteq> q @ [n]) \<longrightarrow> fs_at s' r = fs_at s r)"
  using assms
proof (induction xs arbitrary: s)
  case (Cons nx xs)
  obtain n x where nx: "nx = (n, x)" by fastforce
  from Cons.prems(5) [of n x] nx obtain d a where x: "x = FileEntry d a" and n: "valid_name n" "fs_at s (p @ [n]) = Some (FileEntry d a)" "fs_at s (q @ [n]) = None"
    by auto
  from moveFile_runs [OF n(1,1) Cons.prems(2,3) n(2,3)]
  obtain s1 b where s1: "moveFile e p n q n s = (Inr (), s1)" "fs_at s1 = (fs_at s)(p @ [n] := None, q @ [n] \<mapsto> FileEntry d b)" by blast
  have dirs: "fs_at s1 p = Some DirEntry" "fs_at s1 q = Some DirEntry" using Cons.prems(2,3) n by (auto simp: s1(2))
  have rest: "valid_name m \<and> (\<exists>d a. y = FileEntry d a) \<and> fs_at s1 (p @ [m]) = Some y \<and> fs_at s1 (q @ [m]) = None" if "(m, y) \<in> set xs" for m y
  proof -
    have "m \<noteq> n" using that Cons.prems(4) nx by force
    with Cons.prems(1) Cons.prems(5) [of m y] that show ?thesis by (simp add: s1(2))
  qed
  have "distinct (map fst xs)" using Cons.prems(4) by simp
  from Cons.IH [OF Cons.prems(1) dirs this rest] obtain s' where s': "fs_each (\<lambda>(n, x). moveFile e p n q n) xs s1 = (Inr (), s')"
    "\<And>n d a. (n, FileEntry d a) \<in> set xs \<Longrightarrow> \<exists>b. fs_at s' (q @ [n]) = Some (FileEntry d b)"
    "\<And>r. (\<And>n x. (n, x) \<in> set xs \<Longrightarrow> r \<noteq> p @ [n] \<and> r \<noteq> q @ [n]) \<Longrightarrow> fs_at s' r = fs_at s1 r" by blast
  have "fs_at s' (q @ [n]) = fs_at s1 (q @ [n])"
    using Cons.prems(1,4) nx by (intro s'(3)) force
  then have "fs_at s' (q @ [n]) = Some (FileEntry d b)" by (simp add: s1(2))
  then have moved: "\<exists>b. fs_at s' (q @ [n']) = Some (FileEntry d' b)" if "(n', FileEntry d' a') \<in> set (nx # xs)" for n' d' a'
    using that s'(2) by (auto simp: nx x)
  have same: "fs_at s' r = fs_at s r" if "\<And>n' x'. (n', x') \<in> set (nx # xs) \<Longrightarrow> r \<noteq> p @ [n'] \<and> r \<noteq> q @ [n']" for r
  proof -
    have "fs_at s' r = fs_at s1 r" by (rule s'(3), rule that, erule list.set_intros(2))
    moreover have "r \<noteq> p @ [n]" "r \<noteq> q @ [n]" using that [of n x] nx by simp_all
    ultimately show ?thesis by (simp add: s1(2))
  qed
  have "fs_each (\<lambda>(n, x). moveFile e p n q n) (nx # xs) s = (Inr (), s')" by (simp add: nx fs_bind_def s1(1) s'(1))
  then show ?case using moved same by blast
qed simp

lemma exec_rename_folder:
  assumes "oe_ready e" "valid_name nid" and holds: "holds_scripts nid s st" and name_ok: "folder_name new"
    and eff: "call_effect (RenameScriptFolder nid old new) st = Some st'"
  shows "\<exists>s'. opfs_exec e (RenameScriptFolder nid old new) s = (Resolved, s') \<and> holds_scripts nid s' st'"
proof -
  let ?p = "scripts_path nid @ [old]" and ?q = "scripts_path nid @ [new]"
  from eff obtain files where files: "js_get (st_folders st) old = Some files" "js_get (st_folders st) new = None"
    and st': "st' = st\<lparr>st_folders := js_set (js_delete (st_folders st) old) new files\<rparr>" by (auto split: option.splits if_splits)
  then have v: "view st old = Some (map_of files)" "view st new = None" by (simp_all add: view_def)
  note dir = scripts_opened [OF assms(1-3) v(1)]
  have ne: "old \<noteq> new" "?p \<noteq> ?q" using files by auto
  have old: "old \<noteq> STORAGE_SCRIPT_DRAFT" using holds_no_draft [OF holds] v by auto
  have new: "new \<noteq> STORAGE_SCRIPT_DRAFT" "valid_name new" using name_ok by (simp_all add: folder_name_def)
  have fm: "folder_matches (fs_at s) ?p (Some (map_of files))" using holds_folder [OF holds old] v by simp
  have free: "fs_at s ?q = None" using holds_folder [OF holds new(1)] v by (simp add: folder_matches_def)
  from make_dir [OF new(2) dir(1)] free obtain s1 where s1: "getDirectoryHandle True (scripts_path nid) new s = (Inr ?q, s1)"
    "fs_at s1 = (fs_at s)(?q \<mapsto> DirEntry)" by blast
  have t1: "tree_ok s1" using holds_tree [OF holds] keeps_getDirectoryHandle s1(1) by (metis keeps_def snd_conv)
  have at1: "fs_at s1 (?p @ [n]) = fs_at s (?p @ [n])" "fs_at s1 (?q @ [n]) = None" for n
    using ne tree_below_file [OF holds_tree [OF holds], of ?q n] free by (simp_all add: s1(2))
  have dirs1: "fs_at s1 ?p = Some DirEntry" "fs_at s1 ?q = Some DirEntry" using dir(2) ne by (simp_all add: s1(2))
  obtain xs where xs: "dir_entries ?p s1 = (Inr xs, s1)" "distinct (map fst xs)" "\<And>n x. (n, x) \<in> set xs \<longleftrightarrow> fs_at s1 (?p @ [n]) = Some x"
    using dir_entries_runs [OF t1 dirs1(1)] by blast
  let ?ys = "filter (\<lambda>(nm, x). x \<noteq> DirEntry) xs"
  have listed: "(n, x) \<in> set ?ys \<longleftrightarrow> (\<exists>t a. files = files \<and> js_get files n = Some t \<and> x = FileEntry (Text t) a \<and> fs_at s1 (?p @ [n]) = Some x)" for n x
    using folder_at [OF fm, of n] xs(3) [of n x] at1(1) [of n] by (auto simp: file_matches_def split: option.splits)
  have "valid_name n \<and> (\<exists>d a. x = FileEntry d a) \<and> fs_at s1 (?p @ [n]) = Some x \<and> fs_at s1 (?q @ [n]) = None" if "(n, x) \<in> set ?ys" for n x
    using that at1(2) tree_entry [OF t1, of ?p n x] unfolding listed by auto
  from move_all [OF ne(2) dirs1 distinct_map_filter [OF xs(2)] this]
  obtain s2 where s2: "fs_each (\<lambda>(n, x). moveFile e ?p n ?q n) ?ys s1 = (Inr (), s2)"
    "\<And>n d a. (n, FileEntry d a) \<in> set ?ys \<Longrightarrow> \<exists>b. fs_at s2 (?q @ [n]) = Some (FileEntry d b)"
    "\<And>r. (\<And>n x. (n, x) \<in> set ?ys \<Longrightarrow> r \<noteq> ?p @ [n] \<and> r \<noteq> ?q @ [n]) \<Longrightarrow> fs_at s2 r = fs_at s1 r" by blast
  have "fs_at s2 (scripts_path nid) = Some DirEntry" "fs_at s2 ?p = Some DirEntry"
    using dir(1) dirs1 by (subst s2(3); simp add: s1(2))+
  from remove_dir [OF dir(3) this] obtain s3 where s3: "removeEntry True (scripts_path nid) old s2 = (Inr (), s3)"
    "fs_at s3 = (\<lambda>r. if below ?p r then None else fs_at s2 r)" by blast
  have apart: "\<not> below ?p (?q @ r)" for r using ne by (simp add: below_iff)
  have q3: "folder_matches (fs_at s3) ?q (Some (map_of files))"
    unfolding folder_matches_def option.simps
  proof (intro conjI allI)
    have "fs_at s2 ?q = fs_at s1 ?q" by (rule s2(3)) simp
    then show "fs_at s3 ?q = Some DirEntry" using apart [of "[]"] dirs1(2) by (simp add: s3(2))
    fix f
    have at3: "fs_at s3 (?q @ [f]) = fs_at s2 (?q @ [f])" using apart [of "[f]"] by (simp add: s3(2))
    show "file_matches (fs_at s3 (?q @ [f])) (js_get files f)"
    proof (cases "js_get files f")
      case None
      then have "fs_at s2 (?q @ [f]) = fs_at s1 (?q @ [f])" using ne listed by (intro s2(3)) auto
      then show ?thesis using None at1(2) at3 by (simp add: file_matches_def)
    next
      case (Some t)
      with folder_file [OF fm] at1(1) obtain a where "fs_at s1 (?p @ [f]) = Some (FileEntry (Text t) a)" by metis
      then have "(f, FileEntry (Text t) a) \<in> set ?ys" using Some listed by auto
      from s2(2) [OF this] show ?thesis using Some at3 by (simp add: file_matches_def)
    qed
  qed
  have p3: "folder_matches (fs_at s3) ?p None" using below_append [of ?p "[]"] by (simp add: folder_matches_def s3(2))
  have same: "fs_at s3 r = fs_at s r" if r: "\<not> below ?p r" "\<not> below ?q r" for r
  proof -
    have "fs_at s2 r = fs_at s1 r" by (rule s2(3)) (use not_below_self [OF r(1)] not_below_self [OF r(2)] in blast)
    then show ?thesis using r not_below_self [OF r(2), of "[]"] by (simp add: s3(2) s1(2))
  qed
  have changed: "folder_matches (fs_at s3) (scripts_path nid @ [k]) (((view st)(old := None, new \<mapsto> map_of files)) k)" if "k \<in> {old, new}" for k
    using that q3 p3 ne(1) by (cases "k = new") simp_all
  have m: "scripts_match nid (fs_at s) (view st) (st_draft st)" using holds by (simp add: holds_scripts_def)
  have "scripts_match nid (fs_at s3) ((view st)(old := None, new \<mapsto> map_of files)) (st_draft st)"
  proof (rule match_update [OF m, where K = "{old, new}"])
    show "fs_at s3 r = fs_at s r" if "\<And>k. k \<in> {old, new} \<Longrightarrow> \<not> below (scripts_path nid @ [k]) r" for r
      by (rule same) (rule that, simp)+
  qed (use old new(1) changed in auto)
  moreover have "view st' = (view st)(old := None, new \<mapsto> map_of files)"
    by (rule ext) (simp add: st' view_def js_get_set js_get_delete)
  moreover have "getDirectoryHandle False (scripts_path nid) old s = (Inr ?p, s)" by (rule open_dir [OF dir(3,1,2)])
  then have "renameScriptFolder e nid old new s = (Inr (), s3)"
    using ne(1) by (simp add: renameScriptFolder_def unless_missing_def fs_catch_def fs_bind_def dir(5,6) s1(1) xs(1) s2(1) s3(1))
  ultimately show ?thesis
    by (intro call_done [OF _ holds_tree [OF holds]]) (simp_all add: fs_bind_def st')
qed

section \<open>The contract\<close>

lemma exec_script_call:
  assumes "oe_ready e" "valid_name nid" "script_call nid call" "holds_scripts nid s st" "call_effect call st = Some st'"
  shows "\<exists>s'. opfs_exec e call s = (Resolved, s') \<and> holds_scripts nid s' st'"
  using assms exec_create_folder exec_save_script exec_save_draft exec_delete_folder exec_rename_folder exec_delete_script exec_rename_script
  by (cases call) auto

text \<open>For the environments in which the root was opened, and the notebooks with a proper id.\<close>

definition opfs_admissible :: "OpfsEnv \<Rightarrow> string \<Rightarrow> backend_call \<Rightarrow> bool" where
  "opfs_admissible e nid call \<longleftrightarrow> oe_ready e \<and> valid_name nid \<and> script_call nid call"

interpretation opfs: script_backend "opfs_exec e" "holds_scripts nid" "opfs_admissible e nid" for e nid
  by unfold_locales (use exec_script_call in \<open>auto simp: opfs_admissible_def\<close>)


text \<open>What the methods that read the scripts of a notebook return, on files that hold a store.\<close>

section \<open>Lists\<close>

lemma mset_insert_by [simp]: "mset (insert_by cmp x xs) = add_mset x (mset xs)"
  by (induction xs) auto

lemma mset_sort_by [simp]: "mset (sort_by cmp xs) = mset xs"
  unfolding sort_by_def by (induction xs) auto

lemma set_sort_by [simp]: "set (sort_by cmp xs) = set xs"
  by (rule mset_eq_setD) simp

lemma distinct_sort_by: "distinct (map f (sort_by cmp xs)) \<longleftrightarrow> distinct (map f xs)"
proof -
  have "mset (map f (sort_by cmp xs)) = mset (map f xs)" by simp
  then show ?thesis by (rule mset_eq_imp_distinct_iff)
qed

lemma fs_map_reads: "(\<And>x. x \<in> set xs \<Longrightarrow> f x s = (Inr (g x), s)) \<Longrightarrow> fs_map f xs s = (Inr (map g xs), s)"
  by (induction xs) (simp_all add: fs_bind_def)

lemma map_of_graph:
  assumes "distinct (map fst xs)" "\<And>n t. (n, t) \<in> set xs \<longleftrightarrow> f n = Some t"
  shows "map_of xs = f"
proof (rule ext)
  fix n
  show "map_of xs n = f n"
  proof (cases "f n")
    case None
    then have "\<And>t. (n, t) \<notin> set xs" by (simp add: assms(2))
    then have "n \<notin> fst ` set xs" by (metis imageE prod.collapse)
    then show ?thesis using None by (simp add: map_of_eq_None_iff)
  next
    case (Some t)
    then show ?thesis using assms by (simp add: map_of_eq_Some_iff)
  qed
qed

section \<open>Scripts\<close>

definition scripts_map :: "OpfsScript list \<Rightarrow> string \<Rightarrow> string option" where
  "scripts_map ss = map_of (map (\<lambda>x. (os_name x, os_sql x)) ss)"

definition folders_map :: "OpfsScriptFolder list \<Rightarrow> file_view" where
  "folders_map fs = map_of (map (\<lambda>x. (of_name x, scripts_map (of_scripts x))) fs)"

text \<open>Only files with the extension of scripts are read.\<close>

definition readable :: "(string \<Rightarrow> string option) \<Rightarrow> string \<Rightarrow> string option" where
  "readable m f = (if ends_with f ''.sql'' \<and> f \<noteq> STORAGE_SCRIPT_DRAFT then m f else None)"

definition distinct_names :: "OpfsScriptFolder list \<Rightarrow> bool" where
  "distinct_names fs \<longleftrightarrow> distinct (map of_name fs) \<and> (\<forall>x \<in> set fs. distinct (map os_name (of_scripts x)))"

definition folder_scripts :: "OpfsEnv \<Rightarrow> path \<Rightarrow> file_system \<Rightarrow> OpfsScript list" where
  "folder_scripts e p s = (case fst (loadScriptsInFolder e p s) of Inr ss \<Rightarrow> ss | Inl err \<Rightarrow> [])"

lemma folder_reads:
  assumes ok: "tree_ok s" and fm: "folder_matches (fs_at s) p (Some m)"
  shows "loadScriptsInFolder e p s = (Inr (folder_scripts e p s), s) \<and> scripts_map (folder_scripts e p s) = readable m \<and>
    distinct (map os_name (folder_scripts e p s))"
proof -
  have dir: "fs_at s p = Some DirEntry" using fm by (simp add: folder_matches_def)
  obtain xs where xs: "dir_entries p s = (Inr xs, s)" "distinct (map fst xs)" "\<And>n x. (n, x) \<in> set xs \<longleftrightarrow> fs_at s (p @ [n]) = Some x"
    using dir_entries_runs [OF ok dir] by blast
  let ?ys = "filter script_file xs"
  let ?r = "\<lambda>(nm, x :: fs_entry). fs_bind (getFile (p @ [nm])) (\<lambda>f. fs_return \<lparr>os_name = nm, os_sql = file_text e (fst f)\<rparr>)"
  let ?g = "\<lambda>(nm :: string, x :: fs_entry). \<lparr>os_name = nm, os_sql = the (m nm)\<rparr>"
  have listed: "(n, x) \<in> set ?ys \<longleftrightarrow> ends_with n ''.sql'' \<and> n \<noteq> STORAGE_SCRIPT_DRAFT \<and> fs_at s (p @ [n]) = Some x \<and> m n \<noteq> None" for n x
    using folder_at [OF fm, of n] xs(3) [of n x] by (auto simp: file_matches_def script_file_def split: option.splits fs_entry.splits)
  have reads: "?r x s = (Inr (?g x), s)" if "x \<in> set ?ys" for x
  proof -
    obtain n y where x: "x = (n, y)" by fastforce
    with that obtain t where t: "m n = Some t" using listed [of n y] by auto
    from folder_file [OF fm t] obtain a where "fs_at s (p @ [n]) = Some (FileEntry (Text t) a)" by blast
    then show ?thesis by (simp add: x t fs_bind_def read_file file_text_def)
  qed
  have "fs_map ?r ?ys s = (Inr (map ?g ?ys), s)" by (rule fs_map_reads, rule reads)
  then have "loadScriptsInFolder e p s = (Inr (sort_by (\<lambda>a b. oe_collate e (os_name a) (os_name b)) (map ?g ?ys)), s)"
    by (simp add: loadScriptsInFolder_def fs_bind_def xs(1))
  moreover have names: "distinct (map os_name (sort_by cmp (map ?g ?ys)))" for cmp
  proof -
    have "map os_name (map ?g ?ys) = map fst ?ys" by (simp add: case_prod_beta comp_def)
    then have "distinct (map os_name (map ?g ?ys))" using distinct_map_filter [OF xs(2)] by metis
    then show ?thesis by (simp only: distinct_sort_by)
  qed
  moreover have "scripts_map (sort_by cmp (map ?g ?ys)) = readable m" for cmp
  proof -
    let ?ss = "sort_by cmp (map ?g ?ys)"
    have d: "distinct (map fst (map (\<lambda>x. (os_name x, os_sql x)) ?ss))" using names [of cmp] by (simp add: comp_def)
    have "(n, t) \<in> set (map (\<lambda>x. (os_name x, os_sql x)) ?ss) \<longleftrightarrow> readable m n = Some t" for n t
    proof
      assume "(n, t) \<in> set (map (\<lambda>x. (os_name x, os_sql x)) ?ss)"
      then obtain x where "(n, x) \<in> set ?ys" "t = the (m n)" by auto
      then show "readable m n = Some t" using listed [of n x] by (auto simp: readable_def)
    next
      assume r: "readable m n = Some t"
      then have t: "m n = Some t" "ends_with n ''.sql''" "n \<noteq> STORAGE_SCRIPT_DRAFT" by (auto simp: readable_def split: if_splits)
      from folder_file [OF fm t(1)] obtain x where "fs_at s (p @ [n]) = Some x" by blast
      then have "(n, x) \<in> set ?ys" using listed t by simp
      then have "?g (n, x) \<in> set ?ss" by (simp add: rev_image_eqI)
      then show "(n, t) \<in> set (map (\<lambda>x. (os_name x, os_sql x)) ?ss)" using t(1) by (force simp: image_iff)
    qed
    then show ?thesis unfolding scripts_map_def by (rule map_of_graph [OF d])
  qed
  ultimately show ?thesis by (simp add: folder_scripts_def)
qed

lemma folders_read:
  assumes e: "oe_ready e" "valid_name nid" and holds: "holds_scripts nid s st" and some: "view st k0 \<noteq> None"
  shows "\<exists>fs. loadScriptFolders e nid s = (Inr fs, s) \<and> folders_map fs = (\<lambda>k. map_option readable (view st k)) \<and> distinct_names fs"
proof -
  let ?base = "scripts_path nid"
  from some obtain m0 where "view st k0 = Some m0" by blast
  note dir = scripts_opened [OF e holds this]
  note ok = holds_tree [OF holds]
  obtain xs where xs: "dir_entries ?base s = (Inr xs, s)" "distinct (map fst xs)" "\<And>n x. (n, x) \<in> set xs \<longleftrightarrow> fs_at s (?base @ [n]) = Some x"
    using dir_entries_runs [OF ok dir(1)] by blast
  let ?ys = "filter (\<lambda>(nm, x). x = DirEntry) xs"
  have draft: "fs_at s (?base @ [STORAGE_SCRIPT_DRAFT]) \<noteq> Some DirEntry" "view st STORAGE_SCRIPT_DRAFT = None"
    using holds by (auto simp: holds_scripts_def scripts_match_def file_matches_def)
  have listed: "(n, x) \<in> set ?ys \<longleftrightarrow> x = DirEntry \<and> view st n \<noteq> None" for n x
  proof (cases "n = STORAGE_SCRIPT_DRAFT")
    case False
    then show ?thesis using holds_folder [OF holds False] xs(3) [of n x] by (auto simp: folder_matches_def split: option.splits)
  qed (use draft xs(3) in auto)
  let ?r = "\<lambda>(nm, x :: fs_entry). fs_bind (loadScriptsInFolder e (?base @ [nm])) (\<lambda>ss. fs_return \<lparr>of_name = nm, of_scripts = ss\<rparr>)"
  let ?g = "\<lambda>(nm :: string, x :: fs_entry). \<lparr>of_name = nm, of_scripts = folder_scripts e (?base @ [nm]) s\<rparr>"
  have inside: "loadScriptsInFolder e (?base @ [n]) s = (Inr (folder_scripts e (?base @ [n]) s), s) \<and>
      scripts_map (folder_scripts e (?base @ [n]) s) = readable m \<and> distinct (map os_name (folder_scripts e (?base @ [n]) s))"
    if "view st n = Some m" for n m
    using folder_reads [OF ok, of "?base @ [n]" m e] holds_folder [OF holds, of n] holds_no_draft [OF holds, of n] that by simp
  have reads: "?r x s = (Inr (?g x), s)" if "x \<in> set ?ys" for x
  proof -
    obtain n y where x: "x = (n, y)" by fastforce
    with that listed [of n y] obtain m where "view st n = Some m" by auto
    from inside [OF this] show ?thesis by (simp add: x fs_bind_def)
  qed
  have "fs_map ?r ?ys s = (Inr (map ?g ?ys), s)" by (rule fs_map_reads, rule reads)
  then have "loadScriptFolders e nid s = (Inr (sort_by (\<lambda>a b. oe_collate e (of_name a) (of_name b)) (map ?g ?ys)), s)"
    by (simp add: loadScriptFolders_def unless_missing_def fs_catch_def fs_bind_def dir(5,6) xs(1))
  moreover have names: "distinct (map of_name (sort_by cmp (map ?g ?ys)))" for cmp
  proof -
    have "map of_name (map ?g ?ys) = map fst ?ys" by (simp add: case_prod_beta comp_def)
    then have "distinct (map of_name (map ?g ?ys))" using distinct_map_filter [OF xs(2)] by metis
    then show ?thesis by (simp only: distinct_sort_by)
  qed
  moreover have "distinct (map os_name (of_scripts x))" if x: "x \<in> set (sort_by cmp (map ?g ?ys))" for cmp x
  proof -
    from x obtain n y where n: "(n, y) \<in> set ?ys" "x = ?g (n, y)" by auto
    with listed [of n y] obtain m where "view st n = Some m" by auto
    from inside [OF this] show ?thesis by (simp add: n(2))
  qed
  moreover have "folders_map (sort_by cmp (map ?g ?ys)) = (\<lambda>k. map_option readable (view st k))" for cmp
    unfolding folders_map_def
  proof (rule map_of_graph)
    let ?fs = "sort_by cmp (map ?g ?ys)"
    show "distinct (map fst (map (\<lambda>x. (of_name x, scripts_map (of_scripts x))) ?fs))" using names [of cmp] by (simp add: comp_def)
    fix n t
    have "(n, t) \<in> set (map (\<lambda>x. (of_name x, scripts_map (of_scripts x))) ?fs) \<longleftrightarrow>
        (\<exists>x. (n, x) \<in> set ?ys \<and> t = scripts_map (folder_scripts e (?base @ [n]) s))" by force
    also have "\<dots> \<longleftrightarrow> map_option readable (view st n) = Some t"
      using inside [of n] unfolding listed by (cases "view st n") auto
    finally show "(n, t) \<in> set (map (\<lambda>x. (of_name x, scripts_map (of_scripts x))) ?fs) \<longleftrightarrow> map_option readable (view st n) = Some t" .
  qed
  ultimately show ?thesis unfolding distinct_names_def by blast
qed

lemma draft_read:
  assumes "oe_ready e" "valid_name nid" "holds_scripts nid s st" "view st k \<noteq> None"
  shows "\<exists>x. loadScriptDraft e nid s = (Inr x, s) \<and> (x = Some (st_draft st) \<or> x = None \<and> st_draft st = [])"
proof -
  from assms(4) obtain m where "view st k = Some m" by blast
  note dir = scripts_opened [OF assms(1-3) this]
  let ?p = "scripts_path nid @ [STORAGE_SCRIPT_DRAFT]"
  have name: "valid_name STORAGE_SCRIPT_DRAFT" by (simp add: valid_name_def STORAGE_SCRIPT_DRAFT_def)
  have run: "loadScriptDraft e nid s = (case read_text e (scripts_path nid) STORAGE_SCRIPT_DRAFT s of
      (Inr x, s') \<Rightarrow> (Inr (Some x), s') | (Inl err, s') \<Rightarrow> (Inr None, s'))"
    by (simp add: loadScriptDraft_def or_null_def fs_catch_def fs_bind_def dir(5,6) split: prod.splits sum.splits)
  from assms(3) have "file_matches (fs_at s ?p) (Some (st_draft st)) \<or> fs_at s ?p = None \<and> st_draft st = []"
    by (simp add: holds_scripts_def scripts_match_def)
  then show ?thesis
  proof
    assume "file_matches (fs_at s ?p) (Some (st_draft st))"
    then obtain t where "fs_at s ?p = Some (FileEntry (Text (st_draft st)) t)" by (auto simp: file_matches_def)
    then show ?thesis using dir(1) name
      by (simp add: run read_text_def read_in_def fs_bind_def getFileHandle_def getFile_def file_text_def)
  next
    assume "fs_at s ?p = None \<and> st_draft st = []"
    then show ?thesis using dir(1) name by (simp add: run read_text_def read_in_def fs_bind_def getFileHandle_def)
  qed
qed

end
