(* ===== verification/Opfs_Properties.thy ===== *)
theory Opfs_Properties
  imports Notebook_Properties Opfs_Reads
begin

text \<open>The properties of the storage over the file system of the origin, and of the whole way from an action of the
  notebook through the storage writer to the files.\<close>

section \<open>A concrete file system\<close>

definition demo_opfs :: OpfsEnv where
  "demo_opfs = \<lparr>oe_ready = True, oe_now = 5, oe_move = False, oe_collate = text_compare, oe_text = (\<lambda>_. []), oe_bytes = (\<lambda>_. []),
     oe_manifest = (\<lambda>_. None), oe_notebook = (\<lambda>_. None)\<rparr>"

definition demo_files :: file_system where
  "demo_files = [([''notebooks''], DirEntry), ([''notebooks'', ''nb''], DirEntry), ([''notebooks'', ''nb'', ''scripts''], DirEntry),
     ([''notebooks'', ''nb'', ''scripts'', ''main''], DirEntry),
     ([''notebooks'', ''nb'', ''scripts'', ''main'', ''1_amber_badger.sql''], FileEntry (Text []) 1)]"

lemma demo_folders: "scripts_path ''nb'' = [''notebooks'', ''nb'', ''scripts'']"
  by (simp add: scripts_path_def STORAGE_NOTEBOOKS_FOLDER_def STORAGE_SCRIPTS_FOLDER_def)

lemma demo_tree: "tree_ok demo_files"
  unfolding tree_ok_def by (auto simp: demo_files_def jsmap_ok_def fs_at_def valid_name_def split: if_splits)

lemma demo_holds: "holds_scripts ''nb'' demo_files demo_store"
proof -
  have "folder_matches (fs_at demo_files) (scripts_path ''nb'' @ [k]) (view demo_store k)" for k
    by (auto simp: folder_matches_def file_matches_def demo_files_def fs_at_def view_def demo_store_def demo_folders)
  then show ?thesis
    using demo_tree by (simp add: holds_scripts_def scripts_match_def demo_folders STORAGE_NOTEBOOKS_FOLDER_def STORAGE_SCRIPT_DRAFT_def
        dir_or_none_def) (simp add: demo_files_def fs_at_def view_def demo_store_def)
qed

lemma demo_names [simp]: "valid_name ''nb''" "valid_name ''1_sales''" "oe_ready demo_opfs"
  by (simp_all add: valid_name_def demo_opfs_def)

lemma demo_task: "drop (length (w_tasks typed_world)) (w_tasks renamed_world) = [RENAME_SCRIPT_FOLDER ''nb'' ''main'' ''1_sales'']"
  by (simp add: renamed_world_def typed_world_def demo_world_def edit_text_def empty_world_def w_tasks_def)

section \<open>The properties\<close>

text \<open>C3. An action reaches the files when every name is valid: let the files of a notebook hold what the scheduled writes left,
  and let every task that an action schedules carry folder and file names that the platform accepts as a single path
  component (not empty, no slash, neither a dot nor two dots). Then running the programs of these tasks against the file
  system, with whatever clock, ends without an error, and afterwards the files hold the scripts of the new notebook, up to
  the scripts that were edited since. Without the condition on the names it fails: a slash in a folder name strands the writes.\<close>

theorem writes_reach_the_files:
  assumes "nb_run True s w X st" "e_active e" "reduceNotebookScripts e act s w = Return s' w'"
    "oe_ready oe" "valid_name nid" "holds_scripts nid fs st"
    "list_all (\<lambda>t. script_task t \<and> list_all (script_call nid) (task_calls t)) (drop (length (w_tasks w)) (w_tasks w'))"
  shows "\<exists>c' fs' st'. run_tasks (opfs_exec oe) i (drop (length (w_tasks w)) (w_tasks w')) c fs = (True, c', fs') \<and>
    holds_scripts nid fs' st' \<and> persisted (X - writes_back act s) s' w' st'"
proof -
  have "ready e X s w st" using run_ready [OF assms(1)] by (simp add: ready_def)
  from action_kept [OF this, of act] assms(2,3) obtain ts st' where
    ts: "w_tasks w' = w_tasks w @ ts" "tasks_effect ts st = Some st'" "persisted (X - writes_back act s) s' w' st'"
    by (auto simp: post_def kept_def)
  have "list_all (\<lambda>t. script_task t \<and> list_all (opfs_admissible oe nid) (task_calls t)) ts"
    using assms(4,5,7) by (simp add: ts(1) opfs_admissible_def [abs_def])
  from opfs.tasks_refine [OF this assms(6) ts(2), of i c] obtain c' fs' where
    "run_tasks (opfs_exec oe) i ts c fs = (True, c', fs')" "holds_scripts nid fs' st'" by blast
  with ts show ?thesis by (intro exI [of _ c'] exI [of _ fs'] exI [of _ st']) simp
qed

theorem writes_reach_the_files_witness:
  "\<exists>c' fs' st'. run_tasks (opfs_exec demo_opfs) (\<lambda>_ _. demo_inputs) [RENAME_SCRIPT_FOLDER ''nb'' ''main'' ''1_sales'']
      \<lparr>statistics = [], completedFileContents = []\<rparr> demo_files = (True, c', fs') \<and>
    holds_scripts ''nb'' fs' st' \<and> persisted {1} renamed_state renamed_world st'"
  using writes_reach_the_files [OF demo_typed demo_active demo_rename, of demo_opfs "''nb''" demo_files "\<lambda>_ _. demo_inputs"
      "\<lparr>statistics = [], completedFileContents = []\<rparr>"] demo_holds
  by (simp add: demo_task folder_name_def STORAGE_SCRIPT_DRAFT_def)

text \<open>C16. What was stored is read back, when there is something: if the files of a notebook hold a store with at least one
  folder, then loading does not throw, leaves the files as they are, and returns exactly the folders of the store, each with
  its texts, whatever the order of the directory and of the names. In each folder only the files with the extension of scripts
  are read, the others are dropped; a notebook without a directory, which is how an empty store is held, makes loading throw.\<close>

theorem scripts_read_back:
  assumes "oe_ready e" "valid_name nid" "holds_scripts nid s st" "view st k \<noteq> None"
  shows "\<exists>fs. loadScriptFolders e nid s = (Inr fs, s) \<and> folders_map fs = (\<lambda>k. map_option readable (view st k))"
  using folders_read [OF assms] by blast

theorem scripts_read_back_witness:
  "\<exists>fs. loadScriptFolders demo_opfs ''nb'' demo_files = (Inr fs, demo_files) \<and>
    folders_map fs = (\<lambda>k. map_option readable (view demo_store k))"
  by (rule scripts_read_back [OF _ _ demo_holds, where k = "''main''"]) (simp_all add: view_def demo_store_def)

text \<open>The files stay a tree: no call of the writer, no save or deletion of a cached result, no reordering of the registry and
  no clearing, whether it succeeds or throws half-way, leaves a file without its directory, an invalid name, or a path listed twice.\<close>

theorem files_stay_a_tree:
  assumes "tree_ok s"
  shows "tree_ok (snd (opfs_exec e call s)) \<and> tree_ok (snd (saveQueryResultCache e nid hash bytes s)) \<and>
    tree_ok (snd (deleteQueryResultCache e nid hash s)) \<and> tree_ok (snd (reorderNotebooks e ids s)) \<and> tree_ok (snd (clearAllStorage e s))"
  using assms exec_keeps_tree keeps_cache keeps_registry by (simp add: keeps_def)

theorem files_stay_a_tree_witness:
  "tree_ok (snd (saveQueryResultCache demo_opfs ''nb'' ''h'' [1, 2] demo_files))"
  using files_stay_a_tree [OF demo_tree, of demo_opfs _ "''nb''" "''h''" "[1, 2]"] by blast

text \<open>C33. A folder name with a slash, which no view and no reducer refuses, strands the writes: the files keep their old names,
  the rename is rejected, and so is every later write of a script into the renamed folder.\<close>

theorem slash_in_folder_name_strands_writes:
  assumes "oe_ready e" "valid_name nid" "holds_scripts nid s st" "view st old \<noteq> None" "CHR 0x2F \<in> set new"
  shows "\<exists>s'. opfs_exec e (RenameScriptFolder nid old new) s = (Rejected, s') \<and> holds_scripts nid s' st \<and>
    (\<forall>f sql. \<exists>s''. opfs_exec e (SaveScript nid new f sql) s' = (Rejected, s'') \<and> holds_scripts nid s'' st)"
proof -
  from assms(4) obtain m where v: "view st old = Some m" by blast
  note dir = scripts_opened [OF assms(1-3) v]
  have bad: "getDirectoryHandle c p new t = (Inl NameTypeError, t)" for c p t
    using assms(5) by (simp add: getDirectoryHandle_def valid_name_def)
  have "old \<noteq> new" using dir(3) assms(5) by (auto simp: valid_name_def)
  moreover have "getDirectoryHandle False (scripts_path nid) old s = (Inr (scripts_path nid @ [old]), s)" by (rule open_dir [OF dir(3,1,2)])
  ultimately have "opfs_exec e (RenameScriptFolder nid old new) s = (Rejected, s)"
    by (simp add: opfs_exec_def renameScriptFolder_def dir(5,6) unless_missing_def fs_catch_def fs_bind_def bad)
  moreover have "opfs_exec e (SaveScript nid new f sql) s = (Rejected, s)" for f sql
    by (simp add: opfs_exec_def saveScript_def getFolderDir_def rethrow_missing_def fs_catch_def fs_bind_def dir(5,6) bad)
  ultimately show ?thesis using assms(3) by blast
qed

lemma demo_slash: "\<exists>s' w'. reduceNotebookScripts demo_env (NB_RENAME_SCRIPT_FOLDER ''main'' ''a/b'') demo_state typed_world = Return s' w' \<and>
    drop (length (w_tasks typed_world)) (w_tasks w') = [RENAME_SCRIPT_FOLDER ''nb'' ''main'' ''1_a/b'']"
proof -
  have "case reduceNotebookScripts demo_env (NB_RENAME_SCRIPT_FOLDER ''main'' ''a/b'') demo_state typed_world of
      Return s' w' \<Rightarrow> drop (length (w_tasks typed_world)) (w_tasks w') = [RENAME_SCRIPT_FOLDER ''nb'' ''main'' ''1_a/b''] | Raise w' \<Rightarrow> False"
    by code_simp
  then show ?thesis by (auto split: nb.splits)
qed

theorem slash_in_folder_name_strands_writes_witness:
  "(\<exists>s' w'. reduceNotebookScripts demo_env (NB_RENAME_SCRIPT_FOLDER ''main'' ''a/b'') demo_state typed_world = Return s' w' \<and>
      drop (length (w_tasks typed_world)) (w_tasks w') = [RENAME_SCRIPT_FOLDER ''nb'' ''main'' ''1_a/b'']) \<and>
    (\<exists>s'. opfs_exec demo_opfs (RenameScriptFolder ''nb'' ''main'' ''1_a/b'') demo_files = (Rejected, s') \<and> holds_scripts ''nb'' s' demo_store)"
  using slash_in_folder_name_strands_writes [OF _ _ demo_holds, of demo_opfs "''main''" "''1_a/b''"] demo_slash
  by (auto simp: view_def demo_store_def)

section \<open>Missing notebooks\<close>

text \<open>\<^verbatim>\<open>loadScriptFolders\<close> means to return no folders for a notebook that has no directory, but the error it looks for was
  replaced by another one.\<close>

theorem missing_notebook_throws:
  assumes "oe_ready e" "valid_name nid" "fs_at s [STORAGE_NOTEBOOKS_FOLDER] = Some DirEntry" "fs_at s [STORAGE_NOTEBOOKS_FOLDER, nid] = None"
  shows "loadScriptFolders e nid s = (Inl (directory_not_found (notebookRelPath nid)), s)"
proof -
  have "nid \<noteq> ''''" using assms(2) by (simp add: valid_name_def)
  moreover have "getDirectoryHandle False [] STORAGE_NOTEBOOKS_FOLDER s = (Inr [STORAGE_NOTEBOOKS_FOLDER], s)"
    using open_dir [of STORAGE_NOTEBOOKS_FOLDER s "[]"] assms(3) by simp
  moreover have "getDirectoryHandle False [STORAGE_NOTEBOOKS_FOLDER] nid s = (Inl NotFoundError, s)"
    using assms by (simp add: getDirectoryHandle_def)
  ultimately have "open_dirs False [] [] [STORAGE_NOTEBOOKS_FOLDER, nid] s = (Inl (directory_not_found (notebookRelPath nid)), s)"
    by (simp add: fs_bind_def rethrow_missing_def fs_catch_def notebookRelPath_def)
  then have "getNotebookDir e (notebookRelPath nid) False s = (Inl (directory_not_found (notebookRelPath nid)), s)"
    using assms(1) by (simp add: getNotebookDir_def ensureInitialized_def split_notebook_path [OF assms(2)] fs_bind_def)
  then show ?thesis by (simp add: loadScriptFolders_def unless_missing_def fs_bind_def fs_catch_def directory_not_found_def)
qed

section \<open>The cache\<close>

text \<open>C28. Before a result is cached the least recently used files are deleted, in that order, as many as it takes until the
  new file fits under both limits and not one more; if it does not fit even then, none are left.\<close>

theorem cache_evicts_least_recently_used:
  assumes "evictions incoming mb mf files = old" "length old = n"
  shows "evictToFit store incoming mb mf = fs_bind (qs_listCacheFiles store)
      (\<lambda>files. fs_each (\<lambda>f. qs_deleteCacheFile store (cf_name f)) (evictions incoming mb mf files)) \<and>
    old = take n (sort_key cf_lastAccessMs files) \<and>
    (cache_fits incoming mb mf (total_size files - total_size old) (int (length files) - int n) \<or> n = length files) \<and>
    (\<forall>k<n. \<not> cache_fits incoming mb mf (total_size files - total_size (take k old)) (int (length files) - int k))"
proof -
  let ?fs = "sort_key cf_lastAccessMs files" and ?k = "evicted incoming mb mf (sort_key cf_lastAccessMs files) (total_size files) (int (length files))"
  have "?k \<le> length files" using evicted_le [of incoming mb mf ?fs] by simp
  then have n: "n = ?k" "old = take n ?fs" using assms by (auto simp: evictions_def)
  have "\<not> cache_fits incoming mb mf (total_size files - total_size (take k old)) (int (length files) - int k)" if "k < n" for k
  proof -
    have "take k old = take k ?fs" using that n(2) by simp
    then show ?thesis using evicted_least [of k] that n(1) by simp
  qed
  then show ?thesis using evictToFit_deletes evicted_fits [of incoming mb mf _ ?fs] n by auto
qed

definition demo_cache :: "CacheFileStat list" where
  "demo_cache = [\<lparr>cf_name = ''a'', cf_size = 60, cf_mtimeMs = 1, cf_lastAccessMs = 9\<rparr>,
     \<lparr>cf_name = ''b'', cf_size = 30, cf_mtimeMs = 2, cf_lastAccessMs = 3\<rparr>, \<lparr>cf_name = ''c'', cf_size = 5, cf_mtimeMs = 3, cf_lastAccessMs = 4\<rparr>]"

theorem cache_evicts_least_recently_used_witness:
  "map cf_name (evictions 20 100 10 demo_cache) = [''b''] \<and> \<not> cache_fits 20 100 10 (total_size demo_cache) 3"
proof -
  have e: "evictions 20 100 10 demo_cache = [\<lparr>cf_name = ''b'', cf_size = 30, cf_mtimeMs = 2, cf_lastAccessMs = 3\<rparr>]" by code_simp
  have "length [\<lparr>cf_name = ''b'', cf_size = 30, cf_mtimeMs = 2, cf_lastAccessMs = 3\<rparr> :: CacheFileStat] = 1" by simp
  from cache_evicts_least_recently_used [OF e this] have "\<not> cache_fits 20 100 10 (total_size demo_cache) 3"
    by (auto simp: demo_cache_def total_size_def)
  then show ?thesis by (simp add: e)
qed

end
