(* ===== verification/Query_Executor.thy ===== *)
theory Query_Executor
  imports Query_Execution
begin

text \<open>The execution of a query (\<^verbatim>\<open>connection/query_executor.tsx\<close>): what the executor dispatches and asks for, in order, for
  whatever the connector, the cache and the analysis answer. The answers are a record; the signal of the abort controller
  is read at four places.\<close>

section \<open>Answers from outside\<close>

text \<open>An exception: itself, whether its name or its message is \<^verbatim>\<open>AbortError\<close>, and whether it is a \<^verbatim>\<open>LoggableException\<close>.\<close>

record qx_error =
  err_self :: handle
  err_abort_name :: bool
  err_abort_message :: bool
  err_loggable :: bool

datatype qx_point = After_cache_read | In_execution_catch | After_analysis | In_analysis_catch

datatype qx_message = Progress QueryExecutionProgress | Batch RecordBatch QueryExecutionMetrics

text \<open>Without the projection request and the channel override, which are handed to the analysis and to the connector.\<close>

record QueryExecutionArgs =
  qa_query :: string
  qa_analyzeResults :: bool
  qa_replaceComputationId :: "nat option"
  qa_metadata :: QueryMetadata
  qa_cacheable :: bool

record qx_env =
  qe_database :: bool
  qe_connection :: bool
  qe_traceId :: nat
  qe_cancellation :: handle
  qe_requestedAt :: timestamp
  qe_cacheKey :: "string option"
  qe_cached :: "qx_error + (handle \<times> timestamp) option"
  qe_fromIPC :: "handle \<Rightarrow> qx_error + handle"
  qe_aborted :: "qx_point \<Rightarrow> bool"
  qe_newError :: handle
  qe_abortReason :: handle
  qe_start :: "qx_error + handle option"
  qe_messages :: "qx_message list"
  qe_produced :: "qx_error + unit"
  qe_schema :: "qx_error + handle option"
  qe_newSchema :: handle
  qe_newTable :: "handle \<Rightarrow> RecordBatch list \<Rightarrow> handle"
  qe_streamMetadata :: handle
  qe_emptyMetadata :: handle
  qe_streamMetrics :: QueryExecutionMetrics
  qe_analysis :: "qx_error + unit"
  qe_newCancelled :: handle
  qe_newProcessing :: handle
  qe_toIPC :: "handle \<Rightarrow> qx_error + handle"
  qe_saved :: bool

text \<open>\<^verbatim>\<open>new Error('AbortError')\<close>, the reason of \<^verbatim>\<open>throwIfAborted()\<close>, and other errors.\<close>

definition abort_error :: "qx_env \<Rightarrow> qx_error" where
  "abort_error e = \<lparr>err_self = qe_newError e, err_abort_name = False, err_abort_message = True, err_loggable = False\<rparr>"

definition abort_reason :: "qx_env \<Rightarrow> qx_error" where
  "abort_reason e = \<lparr>err_self = qe_abortReason e, err_abort_name = True, err_abort_message = False, err_loggable = False\<rparr>"

definition setup_error :: "qx_env \<Rightarrow> qx_error" where
  "setup_error e = \<lparr>err_self = qe_newError e, err_abort_name = False, err_abort_message = False, err_loggable = False\<rparr>"

text \<open>What happens outside: an action for the connection, the bump of the access marker, the deletion of the replaced
  computation, the analysis, the write of the cache.\<close>

datatype qx_event = Dispatched QueryExecutionAction | Touched string | Replaced nat | Analyzed nat handle | Saved string handle

section \<open>The steps\<close>

definition initial_query :: "qx_env \<Rightarrow> nat \<Rightarrow> QueryExecutionArgs \<Rightarrow> QueryExecutionState" where
  "initial_query e qid args =
    \<lparr>queryId = qid, traceId = qe_traceId e, queryText = qa_query args, queryMetadata = qa_metadata args, q_status = REQUESTED,
     q_metrics = \<lparr>queryRequestedAt = Some (qe_requestedAt e), queryPreparingStartedAt = None, querySendingStartedAt = None,
       queryQueuedStartedAt = None, queryRunningStartedAt = None, receivedFirstBatchAt = None, receivedLastBatchAt = None,
       receivedAllBatchesAt = None, processingResultsStartedAt = None, processedResultsAt = None, querySucceededAt = None,
       queryFailedAt = None, queryCancelledAt = None, lastUpdatedAt = None, progressUpdatesReceived = 0, queryDurationMs = None,
       textLength = Some (int (length (qa_query args))), streamMetrics = createQueryResponseStreamMetrics\<rparr>,
     q_cancellation = qe_cancellation e, resultStream = None, q_error = None, latestProgressUpdate = None, resultSchema = None,
     resultBatches = [], resultMetadata = None, resultTable = None, cacheKey = None, servedFromCache = False,
     cacheDeleted = False, cachedAt = None\<rparr>"

text \<open>The read of the cache: an error while reading counts as a miss, one while decoding does not.\<close>

definition serve_cached :: "qx_env \<Rightarrow> nat \<Rightarrow> string option \<Rightarrow> qx_event list \<times> (qx_error + handle option)" where
  "serve_cached e qid key = (case key of None \<Rightarrow> ([], Inr None)
    | Some k \<Rightarrow>
        if qe_aborted e After_cache_read then ([], Inl (abort_error e))
        else (case qe_cached e of
            Inl err \<Rightarrow> ([], Inr None)
          | Inr None \<Rightarrow> ([], Inr None)
          | Inr (Some (bytes, at)) \<Rightarrow> (case qe_fromIPC e bytes of
              Inl err \<Rightarrow> ([], Inl err)
            | Inr table \<Rightarrow> ([Touched k,
                Dispatched (QUERY_RECEIVED_ALL_BATCHES qid table (qe_emptyMetadata e) createQueryResponseStreamMetrics),
                Dispatched (QUERY_CACHE_RECORDED qid k True (Some at))], Inr (Some table)))))"

definition message_event :: "nat \<Rightarrow> qx_message \<Rightarrow> qx_event" where
  "message_event qid msg = (case msg of Progress p \<Rightarrow> Dispatched (QUERY_PROGRESS_UPDATED qid p)
    | Batch b sm \<Rightarrow> Dispatched (QUERY_RECEIVED_BATCH qid b sm))"

definition message_batches :: "qx_message list \<Rightarrow> RecordBatch list" where
  "message_batches msgs = List.map_filter (\<lambda>msg. case msg of Progress p \<Rightarrow> None | Batch b sm \<Rightarrow> Some b) msgs"

definition stream_schema :: "qx_env \<Rightarrow> qx_error + handle" where
  "stream_schema e = (case message_batches (qe_messages e) of
      b # bs \<Rightarrow> Inr (batchSchema b)
    | [] \<Rightarrow> (case qe_schema e of Inl err \<Rightarrow> Inl err | Inr None \<Rightarrow> Inr (qe_newSchema e) | Inr (Some s) \<Rightarrow> Inr s))"

definition consume_stream :: "qx_env \<Rightarrow> nat \<Rightarrow> handle \<Rightarrow> qx_event list \<times> (qx_error + handle option)" where
  "consume_stream e qid stream =
    (let evs = Dispatched (QUERY_RUNNING qid stream) # map (message_event qid) (qe_messages e)
     in case qe_produced e of Inl err \<Rightarrow> (evs, Inl err)
        | Inr _ \<Rightarrow> (case stream_schema e of Inl err \<Rightarrow> (evs, Inl err)
            | Inr schema \<Rightarrow> (let table = qe_newTable e schema (message_batches (qe_messages e))
                in (evs @ [Dispatched (QUERY_RECEIVED_ALL_BATCHES qid table (qe_streamMetadata e) (qe_streamMetrics e))], Inr (Some table)))))"

definition run_query :: "qx_env \<Rightarrow> nat \<Rightarrow> qx_event list \<times> (qx_error + handle option)" where
  "run_query e qid = (case qe_start e of
      Inl err \<Rightarrow> ([Dispatched (QUERY_SENDING qid)], Inl err)
    | Inr None \<Rightarrow> ([Dispatched (QUERY_SENDING qid)], Inr None)
    | Inr (Some stream) \<Rightarrow> (case consume_stream e qid stream of (evs, r) \<Rightarrow> (Dispatched (QUERY_SENDING qid) # evs, r)))"

text \<open>The body of the first \<^verbatim>\<open>try\<close>: the events, the table with whether it came from the cache, and whether there is a stream.\<close>

definition obtain_result :: "qx_env \<Rightarrow> nat \<Rightarrow> string option \<Rightarrow> qx_event list \<times> (qx_error + handle option \<times> bool) \<times> bool" where
  "obtain_result e qid key = (case serve_cached e qid key of
      (evs, Inl err) \<Rightarrow> (evs, Inl err, False)
    | (evs, Inr (Some table)) \<Rightarrow> (evs, Inr (Some table, True), False)
    | (evs, Inr None) \<Rightarrow> (case run_query e qid of (evs', r) \<Rightarrow>
        (evs @ evs', map_sum id (\<lambda>t. (t, False)) r, (case qe_start e of Inr (Some _) \<Rightarrow> True | _ \<Rightarrow> False))))"

definition metrics_of_stream :: "qx_env \<Rightarrow> bool \<Rightarrow> QueryExecutionMetrics option" where
  "metrics_of_stream e stream = (if stream then Some (qe_streamMetrics e) else None)"

definition cancelled_event :: "qx_env \<Rightarrow> nat \<Rightarrow> qx_error \<Rightarrow> bool \<Rightarrow> qx_event" where
  "cancelled_event e qid err stream =
    Dispatched (QUERY_CANCELLED qid (if err_loggable err then err_self err else qe_newCancelled e) (metrics_of_stream e stream))"

definition execution_failed :: "qx_env \<Rightarrow> nat \<Rightarrow> qx_error \<Rightarrow> bool \<Rightarrow> qx_event" where
  "execution_failed e qid err stream =
    (if qe_aborted e In_execution_catch \<or> err_abort_name err \<or> err_abort_message err then cancelled_event e qid err stream
     else Dispatched (QUERY_FAILED qid (err_self err) (metrics_of_stream e stream)))"

definition analysis_started :: "nat \<Rightarrow> QueryExecutionArgs \<Rightarrow> handle \<Rightarrow> qx_event list" where
  "analysis_started qid args table = (case qa_replaceComputationId args of Some r \<Rightarrow> if r \<noteq> qid then [Replaced r] else [] | None \<Rightarrow> [])
     @ [Dispatched (QUERY_PROCESSING_RESULTS qid), Analyzed qid table]"

text \<open>The analysis of the result; \<^verbatim>\<open>None\<close> goes on, otherwise the promise is settled.\<close>

definition process_result :: "qx_env \<Rightarrow> nat \<Rightarrow> QueryExecutionArgs \<Rightarrow> handle \<Rightarrow> bool \<Rightarrow> qx_event list \<times> (qx_error + handle option) option" where
  "process_result e qid args table stream =
    (let evs = analysis_started qid args table;
         thrown = (case qe_analysis e of Inl err \<Rightarrow> Some err
           | Inr _ \<Rightarrow> if qe_aborted e After_analysis then Some (abort_reason e) else None)
     in case thrown of
          None \<Rightarrow> (evs @ [Dispatched (QUERY_PROCESSED_RESULTS qid)], None)
        | Some err \<Rightarrow>
            if qe_aborted e In_analysis_catch \<or> err_abort_name err then (evs @ [cancelled_event e qid err stream], Some (Inr None))
            else (let perr = (if err_loggable err then err_self err else qe_newProcessing e)
              in (evs @ [Dispatched (QUERY_FAILED qid perr None)],
                  Some (Inl \<lparr>err_self = perr, err_abort_name = False, err_abort_message = False, err_loggable = True\<rparr>))))"

text \<open>The write of the cache. Decoding and encoding can throw; the promise of the write is not awaited.\<close>

definition save_result :: "qx_env \<Rightarrow> nat \<Rightarrow> string option \<Rightarrow> handle option \<Rightarrow> bool \<Rightarrow> qx_event list \<times> (qx_error + handle option)" where
  "save_result e qid key table served = (case (key, table) of
      (Some k, Some t) \<Rightarrow>
        if served then ([], Inr table)
        else (case qe_toIPC e t of Inl err \<Rightarrow> ([], Inl err)
          | Inr bytes \<Rightarrow> (Saved k bytes # (if qe_saved e then [Dispatched (QUERY_CACHE_RECORDED qid k False None)] else []), Inr table))
    | _ \<Rightarrow> ([], Inr table))"

definition executeImpl :: "qx_env \<Rightarrow> nat \<Rightarrow> QueryExecutionArgs \<Rightarrow> qx_event list \<times> (qx_error + handle option)" where
  "executeImpl e qid args =
    (if \<not> qe_database e \<or> \<not> qe_connection e then ([], Inl (setup_error e))
     else (let key = (if qa_cacheable args then qe_cacheKey e else None);
               start = Dispatched (EXECUTE_QUERY qid (initial_query e qid args))
       in case obtain_result e qid key of
            (evs, Inl err, stream) \<Rightarrow> (start # evs @ [execution_failed e qid err stream], Inr None)
          | (evs, Inr (table, served), stream) \<Rightarrow>
              (case (if qa_analyzeResults args then case table of Some t \<Rightarrow> process_result e qid args t stream | None \<Rightarrow> ([], None) else ([], None)) of
                 (evs', Some r) \<Rightarrow> (start # evs @ evs', r)
               | (evs', None) \<Rightarrow> (case save_result e qid key table served of
                   (evs'', r) \<Rightarrow> (start # evs @ evs' @ [Dispatched (QUERY_SUCCEEDED qid)] @ evs'', r)))))"

section \<open>Answers that do not arrive\<close>

text \<open>The answers that an execution awaits: the key of the cache, the read of the cache, the start of the query, the end of
  its stream, the schema of a stream without batches, and the analysis.\<close>

datatype qx_await = Await_key | Await_cache | Await_start | Await_produce | Await_schema | Await_analysis

text \<open>The events up to the first awaited answer of the backend that does not arrive.\<close>

definition stalled_backend :: "(qx_await \<Rightarrow> bool) \<Rightarrow> qx_env \<Rightarrow> nat \<Rightarrow> qx_event list option" where
  "stalled_backend arrives e qid =
    (if \<not> arrives Await_start then Some [Dispatched (QUERY_SENDING qid)]
     else (case qe_start e of
         Inr (Some stream) \<Rightarrow>
           if \<not> arrives Await_produce \<or> qe_produced e = Inr () \<and> message_batches (qe_messages e) = [] \<and> \<not> arrives Await_schema
           then Some (Dispatched (QUERY_SENDING qid) # Dispatched (QUERY_RUNNING qid stream) # map (message_event qid) (qe_messages e))
           else None
       | _ \<Rightarrow> None))"

definition stalled_analysis :: "(qx_await \<Rightarrow> bool) \<Rightarrow> qx_env \<Rightarrow> nat \<Rightarrow> QueryExecutionArgs \<Rightarrow> string option \<Rightarrow> qx_event list option" where
  "stalled_analysis arrives e qid args key = (case obtain_result e qid key of
      (evs, Inr (Some table, served), stream) \<Rightarrow>
        if qa_analyzeResults args \<and> \<not> arrives Await_analysis then Some (evs @ analysis_started qid args table) else None
    | _ \<Rightarrow> None)"

text \<open>The execution with the answers that arrive: its promise is settled, or it stops at the first awaited answer that is missing.\<close>

definition executeAwaited :: "(qx_await \<Rightarrow> bool) \<Rightarrow> qx_env \<Rightarrow> nat \<Rightarrow> QueryExecutionArgs \<Rightarrow> qx_event list \<times> (qx_error + handle option) option" where
  "executeAwaited arrives e qid args =
    (let key = (if qa_cacheable args then qe_cacheKey e else None);
         start = Dispatched (EXECUTE_QUERY qid (initial_query e qid args));
         settled = (case executeImpl e qid args of (evs, r) \<Rightarrow> (evs, Some r))
     in if \<not> qe_database e \<or> \<not> qe_connection e then settled
        else if qa_cacheable args \<and> \<not> arrives Await_key then ([], None)
        else if key \<noteq> None \<and> \<not> arrives Await_cache then ([start], None)
        else (case (case serve_cached e qid key of (evs, Inr None) \<Rightarrow> stalled_backend arrives e qid | _ \<Rightarrow> None) of
            Some evs \<Rightarrow> (start # evs, None)
          | None \<Rightarrow> (case stalled_analysis arrives e qid args key of
              Some evs \<Rightarrow> (start # evs, None)
            | None \<Rightarrow> settled)))"

section \<open>The running queries\<close>

record qx_runtime =
  rt_aborted :: bool
  rt_stream :: "handle option"

record qx_state =
  qx_nextId :: nat
  qx_runtimes :: "(nat, qx_runtime) jsmap"

definition execute_start :: "qx_state \<Rightarrow> nat \<times> qx_state" where
  "execute_start s = (qx_nextId s, s\<lparr>qx_nextId := qx_nextId s + 1,
     qx_runtimes := js_set (qx_runtimes s) (qx_nextId s) \<lparr>rt_aborted = False, rt_stream = None\<rparr>\<rparr>)"

definition execution_settled :: "nat \<Rightarrow> qx_state \<Rightarrow> qx_state" where
  "execution_settled qid s = s\<lparr>qx_runtimes := js_delete (qx_runtimes s) qid\<rparr>"

text \<open>Cancels the query; the result is the stream that is asked to cancel.\<close>

definition cancelQuery :: "nat \<Rightarrow> qx_state \<Rightarrow> handle option \<times> qx_state" where
  "cancelQuery qid s = (case js_get (qx_runtimes s) qid of
      None \<Rightarrow> (None, s)
    | Some rt \<Rightarrow> (rt_stream rt, s\<lparr>qx_runtimes := js_set (qx_runtimes s) qid (rt\<lparr>rt_aborted := True\<rparr>)\<rparr>))"

section \<open>The life of one query\<close>

fun terminal_action :: "QueryExecutionAction \<Rightarrow> bool" where
  "terminal_action (QUERY_SUCCEEDED i) = True"
| "terminal_action (QUERY_FAILED i e sm) = True"
| "terminal_action (QUERY_CANCELLED i e sm) = True"
| "terminal_action _ = False"

fun end_status :: "QueryExecutionAction \<Rightarrow> QueryExecutionStatus" where
  "end_status (QUERY_FAILED i e sm) = QueryExecutionStatus.FAILED"
| "end_status (QUERY_CANCELLED i e sm) = QueryExecutionStatus.CANCELLED"
| "end_status _ = QueryExecutionStatus.SUCCEEDED"

definition dispatched :: "qx_event list \<Rightarrow> QueryExecutionAction list" where
  "dispatched evs = List.map_filter (\<lambda>ev. case ev of Dispatched a \<Rightarrow> Some a | _ \<Rightarrow> None) evs"

lemma dispatched_simps [simp]:
  "dispatched [] = []" "dispatched (Dispatched a # evs) = a # dispatched evs" "dispatched (Touched k # evs) = dispatched evs"
  "dispatched (Replaced n # evs) = dispatched evs" "dispatched (Analyzed n t # evs) = dispatched evs"
  "dispatched (Saved k b # evs) = dispatched evs" "dispatched (evs @ evs') = dispatched evs @ dispatched evs'"
  by (simp_all add: dispatched_def List.map_filter_def)

text \<open>What an action in between does to the query.\<close>

fun step_query :: "timestamp \<Rightarrow> QueryExecutionAction \<Rightarrow> QueryExecutionState \<Rightarrow> QueryExecutionState" where
  "step_query now (QUERY_PREPARING i) q = query_preparing now q"
| "step_query now (QUERY_SENDING i) q = query_sending now q"
| "step_query now (QUERY_RUNNING i stream) q = query_running now stream q"
| "step_query now (QUERY_PROGRESS_UPDATED i p) q = query_progress_updated now p q"
| "step_query now (QUERY_RECEIVED_BATCH i b sm) q = query_received_batch now b sm q"
| "step_query now (QUERY_RECEIVED_ALL_BATCHES i t md sm) q = query_received_all_batches now t md q"
| "step_query now (QUERY_PROCESSING_RESULTS i) q = query_processing_results now q"
| "step_query now (QUERY_PROCESSED_RESULTS i) q = query_processed_results now q"
| "step_query now (QUERY_SUCCEEDED i) q = query_succeeded now q"
| "step_query now (QUERY_FAILED i err sm) q = query_failed now err sm q"
| "step_query now (QUERY_CANCELLED i err sm) q = query_cancelled now err sm q"
| "step_query now (QUERY_CACHE_RECORDED i k served at) q = cache_recorded k served at q"
| "step_query now (QUERY_CACHE_DELETED i) q = cache_deleted q"
| "step_query now (EXECUTE_QUERY i q') q = q'"

text \<open>The actions of an execution through the reducer, the clock read once per action.\<close>

fun run_actions :: "(nat \<Rightarrow> timestamp) \<Rightarrow> QueryExecutionAction list \<Rightarrow> ConnectionState \<Rightarrow> ConnectionState" where
  "run_actions now [] s = s"
| "run_actions now (a # as) s = run_actions (\<lambda>n. now (Suc n)) as (reduceQueryAction (now 0) s a)"

fun run_query_steps :: "(nat \<Rightarrow> timestamp) \<Rightarrow> QueryExecutionAction list \<Rightarrow> QueryExecutionState \<Rightarrow> QueryExecutionState" where
  "run_query_steps now [] q = q"
| "run_query_steps now (a # as) q = run_query_steps (\<lambda>n. now (Suc n)) as (step_query (now 0) a q)"

lemma run_actions_append: "run_actions now (as @ bs) s = run_actions (\<lambda>n. now (length as + n)) bs (run_actions now as s)"
  by (induction as arbitrary: now s) simp_all

lemma run_steps_append: "run_query_steps now (as @ bs) q = run_query_steps (\<lambda>n. now (length as + n)) bs (run_query_steps now as q)"
  by (induction as arbitrary: now q) simp_all

text \<open>The queries apart from one.\<close>

definition other_queries :: "nat \<Rightarrow> ConnectionState \<Rightarrow> ConnectionState \<Rightarrow> bool" where
  "other_queries qid s s' \<longleftrightarrow> (\<forall>k. k \<noteq> qid \<longrightarrow> js_get (queriesActive s') k = js_get (queriesActive s) k \<and>
     js_get (queriesFinished s') k = js_get (queriesFinished s) k)"

lemma other_queries_refl: "other_queries qid s s"
  by (simp add: other_queries_def)

lemma other_queries_trans: "other_queries qid s s' \<Longrightarrow> other_queries qid s' s'' \<Longrightarrow> other_queries qid s s''"
  by (simp add: other_queries_def)

fun between_action :: "nat \<Rightarrow> QueryExecutionAction \<Rightarrow> bool" where
  "between_action qid (EXECUTE_QUERY i q) = False"
| "between_action qid a = (action_query_id a = qid \<and> \<not> terminal_action a)"

lemma step_query_id [simp]: "between_action qid a \<Longrightarrow> queryId (step_query now a q) = queryId q"
  by (cases a) (simp_all add: query_preparing_def query_sending_def query_running_def query_progress_updated_def query_received_batch_def
      query_received_all_batches_def query_processing_results_def query_processed_results_def cache_recorded_def cache_deleted_def Let_def)

lemma between_step:
  assumes "between_action qid a" "js_get (queriesActive s) qid = Some q" "queryId q = qid"
  shows "js_get (queriesActive (reduceQueryAction now s a)) qid = Some (step_query now a q) \<and>
    queriesFinished (reduceQueryAction now s a) = queriesFinished s \<and> other_queries qid s (reduceQueryAction now s a)"
proof -
  have "queryId (step_query now a q) = qid" using assms by simp
  then show ?thesis
    using assms by (cases a) (auto simp: store_active_def reduce_query_cache_def other_queries_def js_get_set)
qed

lemma between_run:
  assumes "list_all (between_action qid) as" "js_get (queriesActive s) qid = Some q" "queryId q = qid"
  shows "js_get (queriesActive (run_actions now as s)) qid = Some (run_query_steps now as q) \<and>
    queriesFinished (run_actions now as s) = queriesFinished s \<and> other_queries qid s (run_actions now as s) \<and>
    queryId (run_query_steps now as q) = qid"
  using assms
proof (induction as arbitrary: now s q)
  case (Cons a as)
  let ?s = "reduceQueryAction (now 0) s a"
  have st: "js_get (queriesActive ?s) qid = Some (step_query (now 0) a q)" "queriesFinished ?s = queriesFinished s" "other_queries qid s ?s"
    using between_step [of qid a s q "now 0"] Cons.prems by simp_all
  have "queryId (step_query (now 0) a q) = qid" using Cons.prems step_query_id [of qid a] by simp
  from Cons.IH [OF _ st(1) this, of "\<lambda>n. now (Suc n)"] Cons.prems(1) st(2) other_queries_trans [OF st(3)] show ?case by simp
qed (simp add: other_queries_refl)

lemma terminal_step:
  assumes "terminal_action a" "action_query_id a = qid" "js_get (queriesActive s) qid = Some q" "queryId q = qid"
  shows "js_get (queriesActive (reduceQueryAction now s a)) qid = None \<and>
    js_get (queriesFinished (reduceQueryAction now s a)) qid = Some (step_query now a q) \<and> other_queries qid s (reduceQueryAction now s a)"
proof -
  have "queryId (step_query now a q) = qid"
    using assms by (cases a) (simp_all add: query_succeeded_def query_failed_def query_cancelled_def Let_def)
  then show ?thesis
    using assms by (cases a) (auto simp: finish_succeeded_def finish_failed_def finish_cancelled_def finish_query_def other_queries_def
        js_get_set js_get_delete Let_def)
qed

section \<open>The shape of an execution\<close>

text \<open>Actions that leave the table of the result alone.\<close>

fun keeps_table :: "QueryExecutionAction \<Rightarrow> bool" where
  "keeps_table (EXECUTE_QUERY i q) = False"
| "keeps_table (QUERY_RECEIVED_ALL_BATCHES i t md sm) = False"
| "keeps_table _ = True"

lemma steps_keep_table: "list_all keeps_table as \<Longrightarrow> resultTable (run_query_steps now as q) = resultTable q"
proof (induction as arbitrary: now q)
  case (Cons a as)
  have "resultTable (step_query (now 0) a q) = resultTable q"
    using Cons.prems by (cases a) (simp_all add: query_preparing_def query_sending_def query_running_def query_progress_updated_def
        query_received_batch_def query_processing_results_def query_processed_results_def cache_recorded_def cache_deleted_def
        query_succeeded_def query_failed_def query_cancelled_def Let_def)
  then show ?case using Cons by simp
qed simp

lemma serve_between:
  assumes "serve_cached e qid key = (evs, r)"
  shows "list_all (between_action qid) (dispatched evs) \<and> (case r of Inr (Some t) \<Rightarrow>
      (\<forall>now q. resultTable (run_query_steps now (dispatched evs) q) = Some t) | _ \<Rightarrow> dispatched evs = [])"
  using assms by (auto simp: serve_cached_def query_received_all_batches_def cache_recorded_def split: option.splits if_splits sum.splits)

lemma messages_between: "list_all (between_action qid) (dispatched (map (message_event qid) msgs)) \<and>
    list_all keeps_table (dispatched (map (message_event qid) msgs))"
  by (induction msgs) (auto simp: message_event_def split: qx_message.splits)

lemma run_between:
  assumes "run_query e qid = (evs, r)"
  shows "list_all (between_action qid) (dispatched evs) \<and> (case r of Inr (Some t) \<Rightarrow>
      (\<forall>now q. resultTable (run_query_steps now (dispatched evs) q) = Some t) | Inr None \<Rightarrow> list_all keeps_table (dispatched evs) | _ \<Rightarrow> True)"
  using assms messages_between [of qid "qe_messages e"]
  by (auto simp: run_query_def consume_stream_def run_steps_append query_received_all_batches_def Let_def split: sum.splits option.splits prod.splits)

lemma obtain_between:
  assumes "obtain_result e qid key = (evs, r, stream)"
  shows "list_all (between_action qid) (dispatched evs) \<and> (case r of Inr (Some t, served) \<Rightarrow>
      (\<forall>now q. resultTable (run_query_steps now (dispatched evs) q) = Some t)
    | Inr (None, served) \<Rightarrow> list_all keeps_table (dispatched evs) | Inl err \<Rightarrow> True)"
proof -
  obtain evs1 r1 where s: "serve_cached e qid key = (evs1, r1)" by fastforce
  note s1 = serve_between [OF s]
  show ?thesis
  proof (cases r1)
    case (Inl err)
    then show ?thesis using assms s s1 by (auto simp: obtain_result_def)
  next
    case (Inr t)
    show ?thesis
    proof (cases t)
      case None
      obtain evs2 r2 where q: "run_query e qid = (evs2, r2)" by fastforce
      have "evs = evs1 @ evs2" "r = map_sum id (\<lambda>t. (t, False)) r2" using assms by (simp_all add: obtain_result_def s Inr None q)
      then show ?thesis using s1 run_between [OF q] Inr None by (cases r2) (auto split: option.splits)
    next
      case (Some u)
      then show ?thesis using assms s s1 Inr by (auto simp: obtain_result_def)
    qed
  qed
qed

lemma started_dispatched [simp]: "dispatched (analysis_started qid args table) = [QUERY_PROCESSING_RESULTS qid]"
  by (simp add: analysis_started_def split: option.split)

lemma process_between:
  assumes "process_result e qid args table stream = (evs, r)"
  shows "case r of None \<Rightarrow> list_all (between_action qid) (dispatched evs) \<and> list_all keeps_table (dispatched evs)
    | Some res \<Rightarrow> (\<exists>pre fin. dispatched evs = pre @ [fin] \<and> list_all (between_action qid) pre \<and> terminal_action fin \<and>
        action_query_id fin = qid \<and> end_status fin \<noteq> QueryExecutionStatus.SUCCEEDED \<and>
        (end_status fin = QueryExecutionStatus.CANCELLED \<longleftrightarrow> res = Inr None) \<and> (end_status fin = QueryExecutionStatus.FAILED \<longleftrightarrow> isl res))"
proof -
  show ?thesis
    using assms by (auto simp: process_result_def Let_def cancelled_event_def split: option.splits sum.splits if_splits)
qed

lemma save_between:
  assumes "save_result e qid key table served = (evs, r)"
  shows "(dispatched evs = [] \<or> (\<exists>k. dispatched evs = [QUERY_CACHE_RECORDED qid k False None])) \<and> (r = Inr table \<or> isl r)"
  using assms by (auto simp: save_result_def split: option.splits if_splits sum.splits)

lemma failed_event:
  "\<exists>fin. execution_failed e qid err stream = Dispatched fin \<and> terminal_action fin \<and> action_query_id fin = qid \<and>
    end_status fin \<noteq> QueryExecutionStatus.SUCCEEDED"
  by (simp add: execution_failed_def cancelled_event_def)

lemma recorded_step:
  assumes "js_get (queriesActive s) qid = None" "js_get (queriesFinished s) qid = Some q"
  shows "js_get (queriesActive (reduceQueryAction now s (QUERY_CACHE_RECORDED qid k served at))) qid = None \<and>
    js_get (queriesFinished (reduceQueryAction now s (QUERY_CACHE_RECORDED qid k served at))) qid = Some (cache_recorded k served at q) \<and>
    other_queries qid s (reduceQueryAction now s (QUERY_CACHE_RECORDED qid k served at))"
  using assms by (simp add: reduce_query_cache_def other_queries_def js_get_set)

text \<open>An execution dispatches its start, what happens in between, one end, and at most the record of a written cache entry.\<close>

definition execution_shape :: "qx_env \<Rightarrow> nat \<Rightarrow> QueryExecutionArgs \<Rightarrow> QueryExecutionAction list \<Rightarrow> qx_error + handle option \<Rightarrow> bool" where
  "execution_shape e qid args as r \<longleftrightarrow> (\<exists>pre fin post. as = EXECUTE_QUERY qid (initial_query e qid args) # pre @ fin # post \<and>
     list_all (between_action qid) pre \<and> terminal_action fin \<and> action_query_id fin = qid \<and>
     (post = [] \<or> (\<exists>k. post = [QUERY_CACHE_RECORDED qid k False None])) \<and>
     (case r of Inr (Some t) \<Rightarrow> end_status fin = QueryExecutionStatus.SUCCEEDED \<and>
           (\<forall>now q. resultTable (run_query_steps now pre q) = Some t)
       | Inr None \<Rightarrow> end_status fin = QueryExecutionStatus.SUCCEEDED \<longrightarrow> list_all keeps_table pre
       | Inl err \<Rightarrow> end_status fin \<noteq> QueryExecutionStatus.CANCELLED))"

lemma execution_shapeI:
  assumes "as = EXECUTE_QUERY qid (initial_query e qid args) # pre @ fin # post" "list_all (between_action qid) pre"
    "terminal_action fin" "action_query_id fin = qid" "post = [] \<or> (\<exists>k. post = [QUERY_CACHE_RECORDED qid k False None])"
    "case r of Inr (Some t) \<Rightarrow> end_status fin = QueryExecutionStatus.SUCCEEDED \<and> (\<forall>now q. resultTable (run_query_steps now pre q) = Some t)
       | Inr None \<Rightarrow> end_status fin = QueryExecutionStatus.SUCCEEDED \<longrightarrow> list_all keeps_table pre
       | Inl err \<Rightarrow> end_status fin \<noteq> QueryExecutionStatus.CANCELLED"
  shows "execution_shape e qid args as r"
  unfolding execution_shape_def using assms by blast

lemma execution_has_shape:
  assumes "qe_database e" "qe_connection e" "executeImpl e qid args = (evs, r)"
  shows "execution_shape e qid args (dispatched evs) r"
proof -
  let ?key = "if qa_cacheable args then qe_cacheKey e else None" and ?start = "Dispatched (EXECUTE_QUERY qid (initial_query e qid args))"
  obtain evs1 r1 stream where o: "obtain_result e qid ?key = (evs1, r1, stream)" by (metis prod_cases3)
  note o1 = obtain_between [OF o]
  show ?thesis
  proof (cases r1)
    case (Inl err)
    from failed_event obtain fin where fin: "execution_failed e qid err stream = Dispatched fin" "terminal_action fin"
      "action_query_id fin = qid" "end_status fin \<noteq> QueryExecutionStatus.SUCCEEDED" by blast
    have "evs = ?start # evs1 @ [Dispatched fin]" "r = Inr None" using assms o Inl fin(1) by (auto simp: executeImpl_def)
    then show ?thesis using fin o1 by (intro execution_shapeI [where pre = "dispatched evs1" and fin = fin and post = "[]"]) simp_all
  next
    case (Inr ts)
    obtain table served where ts: "ts = (table, served)" by fastforce
    obtain evs2 r2 where p: "(if qa_analyzeResults args then case table of Some t \<Rightarrow> process_result e qid args t stream | None \<Rightarrow> ([], None) else ([], None)) = (evs2, r2)"
      by fastforce
    have pb: "case r2 of None \<Rightarrow> list_all (between_action qid) (dispatched evs2) \<and> list_all keeps_table (dispatched evs2)
      | Some res \<Rightarrow> (\<exists>pre fin. dispatched evs2 = pre @ [fin] \<and> list_all (between_action qid) pre \<and> terminal_action fin \<and>
        action_query_id fin = qid \<and> end_status fin \<noteq> QueryExecutionStatus.SUCCEEDED \<and>
        (end_status fin = QueryExecutionStatus.CANCELLED \<longleftrightarrow> res = Inr None) \<and> (end_status fin = QueryExecutionStatus.FAILED \<longleftrightarrow> isl res))"
      using p process_between [of e qid args _ stream evs2 r2] by (auto split: if_splits option.splits)
    show ?thesis
    proof (cases r2)
      case None
      obtain evs3 r3 where s: "save_result e qid ?key table served = (evs3, r3)" by fastforce
      have evs: "evs = ?start # evs1 @ evs2 @ [Dispatched (QUERY_SUCCEEDED qid)] @ evs3" "r = r3"
        using assms o Inr ts p None s by (auto simp: executeImpl_def)
      have "case r of Inr (Some t) \<Rightarrow> end_status (QUERY_SUCCEEDED qid) = QueryExecutionStatus.SUCCEEDED \<and>
            (\<forall>now q. resultTable (run_query_steps now (dispatched evs1 @ dispatched evs2) q) = Some t)
         | Inr None \<Rightarrow> end_status (QUERY_SUCCEEDED qid) = QueryExecutionStatus.SUCCEEDED \<longrightarrow> list_all keeps_table (dispatched evs1 @ dispatched evs2)
         | Inl err \<Rightarrow> end_status (QUERY_SUCCEEDED qid) \<noteq> QueryExecutionStatus.CANCELLED"
      proof (cases r)
        case (Inr t)
        then have "t = table" using save_between [OF s] evs(2) by auto
        then show ?thesis using o1 pb None \<open>r1 = Inr ts\<close> ts Inr by (cases table) (simp_all add: run_steps_append steps_keep_table)
      qed simp
      then show ?thesis using save_between [OF s] o1 pb None
        by (intro execution_shapeI [where pre = "dispatched evs1 @ dispatched evs2" and fin = "QUERY_SUCCEEDED qid" and post = "dispatched evs3"])
          (simp_all add: evs(1))
    next
      case (Some res)
      then have evs: "evs = ?start # evs1 @ evs2" "r = res" using assms o Inr ts p by (auto simp: executeImpl_def)
      from pb Some obtain pre fin where f: "dispatched evs2 = pre @ [fin]" "list_all (between_action qid) pre" "terminal_action fin"
        "action_query_id fin = qid" "end_status fin \<noteq> QueryExecutionStatus.SUCCEEDED"
        "end_status fin = QueryExecutionStatus.CANCELLED \<longleftrightarrow> res = Inr None" "end_status fin = QueryExecutionStatus.FAILED \<longleftrightarrow> isl res" by auto
      have "res = Inr None \<or> isl res" using f(3,5,6,7) by (cases fin) auto
      then have "case res of Inr (Some t) \<Rightarrow> end_status fin = QueryExecutionStatus.SUCCEEDED \<and>
            (\<forall>now q. resultTable (run_query_steps now (dispatched evs1 @ pre) q) = Some t)
         | Inr None \<Rightarrow> end_status fin = QueryExecutionStatus.SUCCEEDED \<longrightarrow> list_all keeps_table (dispatched evs1 @ pre)
         | Inl err \<Rightarrow> end_status fin \<noteq> QueryExecutionStatus.CANCELLED" using f(5,6,7) by (cases res) auto
      then show ?thesis using f o1
        by (intro execution_shapeI [where pre = "dispatched evs1 @ pre" and fin = fin and post = "[]"]) (auto simp: evs)
    qed
  qed
qed

section \<open>The shape of an execution that stops\<close>

text \<open>The answers that an execution awaits, in order.\<close>

definition awaited :: "qx_env \<Rightarrow> QueryExecutionArgs \<Rightarrow> qx_await list" where
  "awaited e args =
    (let key = (if qa_cacheable args then qe_cacheKey e else None);
         missed = (case serve_cached e 0 key of (_, Inr None) \<Rightarrow> True | _ \<Rightarrow> False);
         streams = (case qe_start e of Inr (Some _) \<Rightarrow> True | _ \<Rightarrow> False);
         obtained = (case obtain_result e 0 key of (_, Inr (Some _, _), _) \<Rightarrow> True | _ \<Rightarrow> False)
     in (if qa_cacheable args then [Await_key] else []) @ (if key \<noteq> None then [Await_cache] else []) @
        (if missed then [Await_start] else []) @ (if missed \<and> streams then [Await_produce] else []) @
        (if missed \<and> streams \<and> qe_produced e = Inr () \<and> message_batches (qe_messages e) = [] then [Await_schema] else []) @
        (if obtained \<and> qa_analyzeResults args then [Await_analysis] else []))"

lemma answers_of_any_query:
  "map_prod (\<lambda>_. ()) id (serve_cached e qid key) = map_prod (\<lambda>_. ()) id (serve_cached e 0 key)"
  "map_prod (\<lambda>_. ()) id (run_query e qid) = map_prod (\<lambda>_. ()) id (run_query e 0)"
  "map_prod (\<lambda>_. ()) id (obtain_result e qid key) = map_prod (\<lambda>_. ()) id (obtain_result e 0 key)"
proof -
  show s: "map_prod (\<lambda>_. ()) id (serve_cached e qid key) = map_prod (\<lambda>_. ()) id (serve_cached e 0 key)"
    by (simp add: serve_cached_def split: option.split sum.split)
  show r: "map_prod (\<lambda>_. ()) id (run_query e qid) = map_prod (\<lambda>_. ()) id (run_query e 0)"
    by (simp add: run_query_def consume_stream_def Let_def split: option.split sum.split)
  show "map_prod (\<lambda>_. ()) id (obtain_result e qid key) = map_prod (\<lambda>_. ()) id (obtain_result e 0 key)"
    using s r by (auto simp: obtain_result_def map_prod_def split: prod.splits sum.splits option.splits)
qed

lemma backend_stops:
  "stalled_backend arrives e qid = None \<longleftrightarrow> arrives Await_start \<and> (case qe_start e of Inr (Some _) \<Rightarrow>
      arrives Await_produce \<and> (qe_produced e = Inr () \<and> message_batches (qe_messages e) = [] \<longrightarrow> arrives Await_schema) | _ \<Rightarrow> True)"
  "stalled_backend arrives e qid = Some evs \<Longrightarrow> list_all (between_action qid) (dispatched evs)"
  using messages_between [of qid "qe_messages e"] by (auto simp: stalled_backend_def split: sum.splits option.splits if_splits)

lemma analysis_stops:
  "stalled_analysis arrives e qid args key = None \<longleftrightarrow>
    (case obtain_result e qid key of (_, Inr (Some _, _), _) \<Rightarrow> qa_analyzeResults args \<longrightarrow> arrives Await_analysis | _ \<Rightarrow> True)"
  "stalled_analysis arrives e qid args key = Some evs \<Longrightarrow> list_all (between_action qid) (dispatched evs)"
  using obtain_between [of e qid key] by (auto simp: stalled_analysis_def split: prod.splits sum.splits option.splits if_splits)

text \<open>An execution settles exactly if every answer it awaits arrives; otherwise it has dispatched nothing, or its start and
  actions that do not end the query.\<close>

lemma awaited_settles:
  assumes "qe_database e" "qe_connection e" "executeAwaited arrives e qid args = (evs, r)"
  shows "r \<noteq> None \<longleftrightarrow> list_all arrives (awaited e args)"
proof -
  let ?key = "if qa_cacheable args then qe_cacheKey e else None"
  have m: "(case serve_cached e qid ?key of (_, Inr None) \<Rightarrow> True | _ \<Rightarrow> False) = (case serve_cached e 0 ?key of (_, Inr None) \<Rightarrow> True | _ \<Rightarrow> False)"
    using answers_of_any_query(1) [of e qid ?key] by (auto split: prod.splits)
  have b: "(case obtain_result e qid ?key of (_, Inr (Some _, _), _) \<Rightarrow> True | _ \<Rightarrow> False) = (case obtain_result e 0 ?key of (_, Inr (Some _, _), _) \<Rightarrow> True | _ \<Rightarrow> False)"
    using answers_of_any_query(3) [of e qid ?key] by (auto split: prod.splits)
  define missed where "missed = (case serve_cached e qid ?key of (_, Inr None) \<Rightarrow> True | _ \<Rightarrow> False)"
  define obtained where "obtained = (case obtain_result e qid ?key of (_, Inr (Some _, _), _) \<Rightarrow> True | _ \<Rightarrow> False)"
  define streams where "streams = (case qe_start e of Inr (Some _) \<Rightarrow> True | _ \<Rightarrow> False)"
  have "r \<noteq> None \<longleftrightarrow> (qa_cacheable args \<longrightarrow> arrives Await_key) \<and> (?key \<noteq> None \<longrightarrow> arrives Await_cache) \<and>
      (missed \<longrightarrow> stalled_backend arrives e qid = None) \<and> stalled_analysis arrives e qid args ?key = None"
    using assms by (auto simp: executeAwaited_def Let_def missed_def split: prod.splits sum.splits option.splits if_splits)
  moreover have "stalled_backend arrives e qid = None \<longleftrightarrow> arrives Await_start \<and> (streams \<longrightarrow>
      arrives Await_produce \<and> (qe_produced e = Inr () \<and> message_batches (qe_messages e) = [] \<longrightarrow> arrives Await_schema))"
    by (simp add: backend_stops(1) streams_def split: sum.split option.split)
  moreover have "stalled_analysis arrives e qid args ?key = None \<longleftrightarrow> (obtained \<and> qa_analyzeResults args \<longrightarrow> arrives Await_analysis)"
    unfolding analysis_stops(1) obtained_def by (simp split: prod.split sum.split option.split)
  moreover have "list_all arrives (awaited e args) \<longleftrightarrow> (qa_cacheable args \<longrightarrow> arrives Await_key) \<and> (?key \<noteq> None \<longrightarrow> arrives Await_cache) \<and>
      (missed \<longrightarrow> arrives Await_start) \<and> (missed \<and> streams \<longrightarrow> arrives Await_produce) \<and>
      (missed \<and> streams \<and> qe_produced e = Inr () \<and> message_batches (qe_messages e) = [] \<longrightarrow> arrives Await_schema) \<and>
      (obtained \<and> qa_analyzeResults args \<longrightarrow> arrives Await_analysis)"
    unfolding awaited_def Let_def m [symmetric] b [symmetric] missed_def [symmetric] obtained_def [symmetric] streams_def [symmetric]
      list_all_append by (simp only: if_distrib [where f = "list_all arrives"] list.pred_inject if_bool_eq_conj simp_thms)
  ultimately show ?thesis by argo
qed

lemma stopped_shape:
  assumes "qe_database e" "qe_connection e" "executeAwaited arrives e qid args = (evs, None)"
  shows "evs = [] \<and> qa_cacheable args \<and> \<not> arrives Await_key \<or>
    (\<exists>as. dispatched evs = EXECUTE_QUERY qid (initial_query e qid args) # as \<and> list_all (between_action qid) as)"
  using assms
  by (auto simp: executeAwaited_def Let_def dest: backend_stops(2) analysis_stops(2) split: prod.splits sum.splits option.splits if_splits)

lemma settled_execution:
  "executeAwaited arrives e qid args = (evs, Some r) \<Longrightarrow> executeImpl e qid args = (evs, r)"
  by (auto simp: executeAwaited_def Let_def split: prod.splits sum.splits option.splits if_splits)

lemma steps_not_done:
  assumes "list_all (between_action qid) as" "\<not> queryIsDone (q_status q)"
  shows "\<not> queryIsDone (q_status (run_query_steps now as q))"
  using assms
proof (induction as arbitrary: now q)
  case (Cons a as)
  have "\<not> queryIsDone (q_status (step_query (now 0) a q))"
    using Cons.prems by (cases a) (simp_all add: query_preparing_def query_sending_def query_running_def query_progress_updated_def
        query_received_batch_def query_received_all_batches_def query_processing_results_def query_processed_results_def
        cache_recorded_def cache_deleted_def Let_def)
  then show ?case using Cons by simp
qed simp

section \<open>Queues\<close>

text \<open>No progress is reported while the query may be in the state \<open>SENDING\<close>, the only one from which it is queued.\<close>

fun progress_safe :: "bool \<Rightarrow> QueryExecutionAction list \<Rightarrow> bool" where
  "progress_safe b [] = True"
| "progress_safe b (QUERY_PROGRESS_UPDATED i p # as) = (\<not> b \<and> progress_safe b as)"
| "progress_safe b (QUERY_SENDING i # as) = progress_safe True as"
| "progress_safe b (QUERY_CACHE_RECORDED i k sv at # as) = progress_safe b as"
| "progress_safe b (QUERY_CACHE_DELETED i # as) = progress_safe b as"
| "progress_safe b (EXECUTE_QUERY i q # as) = False"
| "progress_safe b (a # as) = progress_safe False as"

lemma safe_step:
  assumes "progress_safe b (a # as)" "q_status q = QueryExecutionStatus.SENDING \<Longrightarrow> b" "q_status q \<noteq> QueryExecutionStatus.QUEUED"
  shows "\<exists>b'. progress_safe b' as \<and> (q_status (step_query now a q) = QueryExecutionStatus.SENDING \<longrightarrow> b') \<and>
    q_status (step_query now a q) \<noteq> QueryExecutionStatus.QUEUED"
proof (cases a)
  case (QUERY_PROGRESS_UPDATED i p)
  then show ?thesis using assms by (intro exI [of _ False]) (auto simp: query_progress_updated_def Let_def)
next
  case (QUERY_SENDING i)
  then show ?thesis using assms by (intro exI [of _ True]) (simp add: query_sending_def Let_def)
next
  case (QUERY_CACHE_RECORDED i k sv at)
  then show ?thesis using assms by (intro exI [of _ b]) (auto simp: cache_recorded_def)
next
  case (QUERY_CACHE_DELETED i)
  then show ?thesis using assms by (intro exI [of _ b]) (auto simp: cache_deleted_def)
qed (use assms(1) in \<open>auto intro!: exI [of _ False] simp: query_preparing_def query_running_def query_received_batch_def
    query_received_all_batches_def query_processing_results_def query_processed_results_def query_succeeded_def query_failed_def
    query_cancelled_def Let_def\<close>)

lemma safe_never_queued:
  assumes "progress_safe b as" "q_status q = QueryExecutionStatus.SENDING \<Longrightarrow> b" "q_status q \<noteq> QueryExecutionStatus.QUEUED"
  shows "q_status (run_query_steps now (take n as) q) \<noteq> QueryExecutionStatus.QUEUED"
  using assms
proof (induction as arbitrary: b now n q)
  case (Cons a as)
  from safe_step [OF Cons.prems, of "now 0"] obtain b' where b: "progress_safe b' as"
    "q_status (step_query (now 0) a q) = QueryExecutionStatus.SENDING \<Longrightarrow> b'" "q_status (step_query (now 0) a q) \<noteq> QueryExecutionStatus.QUEUED"
    by blast
  show ?case using Cons.IH [OF b] Cons.prems(3) by (cases n) simp_all
qed simp

lemma safe_messages: "progress_safe False (dispatched (map (message_event qid) msgs) @ as) = progress_safe False as"
  by (induction msgs) (auto simp: message_event_def split: qx_message.splits)

lemma safe_obtain:
  assumes "obtain_result e qid key = (evs, r, stream)" "progress_safe False as" "progress_safe True as"
  shows "progress_safe False (dispatched evs @ as)"
proof -
  obtain evs1 r1 where s: "serve_cached e qid key = (evs1, r1)" by fastforce
  obtain evs2 r2 where q: "run_query e qid = (evs2, r2)" by fastforce
  have "progress_safe False (dispatched evs1 @ as)" using s assms(2) by (auto simp: serve_cached_def split: option.splits if_splits sum.splits)
  moreover have "progress_safe False (dispatched evs2 @ as)" using q assms(2,3) safe_messages
    by (auto simp: run_query_def consume_stream_def Let_def split: sum.splits option.splits prod.splits)
  moreover have "dispatched evs1 = []" if "r1 = Inr None" using serve_between [OF s] that by simp
  ultimately show ?thesis using assms(1) by (auto simp: obtain_result_def s q split: sum.splits option.splits)
qed

lemma safe_process:
  "process_result e qid args table stream = (evs, r) \<Longrightarrow> progress_safe False as \<Longrightarrow>
    progress_safe False (dispatched evs @ as) \<and> progress_safe True (dispatched evs @ as)"
  by (auto simp: process_result_def Let_def cancelled_event_def split: option.splits sum.splits if_splits)

lemma safe_save: "save_result e qid key table served = (evs, r) \<Longrightarrow> progress_safe b (dispatched evs)"
  by (cases b) (auto simp: save_result_def split: option.splits sum.splits if_splits)

lemma safe_failed: "progress_safe b (dispatched [execution_failed e qid err stream])"
  by (simp add: execution_failed_def cancelled_event_def)

lemma execution_is_safe:
  assumes "qe_database e" "qe_connection e" "executeImpl e qid args = (evs, r)"
  shows "\<exists>as. dispatched evs = EXECUTE_QUERY qid (initial_query e qid args) # as \<and> progress_safe False as"
proof -
  let ?key = "if qa_cacheable args then qe_cacheKey e else None"
  obtain evs1 r1 stream where o: "obtain_result e qid ?key = (evs1, r1, stream)" by (metis prod_cases3)
  show ?thesis
  proof (cases r1)
    case (Inl err)
    have "evs = Dispatched (EXECUTE_QUERY qid (initial_query e qid args)) # evs1 @ [execution_failed e qid err stream]"
      using assms o Inl by (auto simp: executeImpl_def)
    then show ?thesis using safe_obtain [OF o safe_failed safe_failed] by simp
  next
    case (Inr ts)
    obtain table served where ts: "ts = (table, served)" by fastforce
    obtain evs2 r2 where p: "(if qa_analyzeResults args then case table of Some t \<Rightarrow> process_result e qid args t stream | None \<Rightarrow> ([], None) else ([], None)) = (evs2, r2)"
      by fastforce
    obtain evs3 r3 where s: "save_result e qid ?key table served = (evs3, r3)" by fastforce
    let ?rest = "case r2 of None \<Rightarrow> QUERY_SUCCEEDED qid # dispatched evs3 | Some r \<Rightarrow> []"
    have evs: "dispatched evs = EXECUTE_QUERY qid (initial_query e qid args) # dispatched evs1 @ dispatched evs2 @ ?rest"
      using assms o Inr ts p s by (auto simp: executeImpl_def split: option.splits)
    have rest: "progress_safe b ?rest" for b using safe_save [OF s] by (cases b) (simp_all split: option.splits)
    have "progress_safe False (dispatched evs2 @ ?rest)" "progress_safe True (dispatched evs2 @ ?rest)"
      using p safe_process [of e qid args _ stream evs2 r2 ?rest] rest by (auto split: if_splits option.splits)
    then show ?thesis using evs safe_obtain [OF o] by simp
  qed
qed

end
