(* ===== verification/Query_Executor_Properties.thy ===== *)
theory Query_Executor_Properties
  imports Query_Executor Connection_Properties
begin

text \<open>The properties of the execution of queries, over the executor and the reducer of the connection together.\<close>

section \<open>A concrete execution\<close>

definition demo_metadata :: QueryMetadata where
  "demo_metadata = \<lparr>queryType = USER_PROVIDED, qm_title = None, qm_description = None, qm_issuer = None, userProvided = True\<rparr>"

definition demo_args :: QueryExecutionArgs where
  "demo_args = \<lparr>qa_query = ''select 1'', qa_analyzeResults = True, qa_replaceComputationId = Some 3, qa_metadata = demo_metadata,
     qa_cacheable = True\<rparr>"

text \<open>A miss in the cache, one report of progress and one batch, an analysis that succeeds, a write that lands.\<close>

definition demo_execution :: qx_env where
  "demo_execution = \<lparr>qe_database = True, qe_connection = True, qe_traceId = 1, qe_cancellation = 1, qe_requestedAt = 10, qe_cacheKey = Some ''k'',
     qe_cached = Inr None, qe_fromIPC = (\<lambda>b. Inr (b + 1)), qe_aborted = (\<lambda>p. False), qe_newError = 2, qe_abortReason = 3,
     qe_start = Inr (Some 4), qe_messages = [Progress \<lparr>isQueued = Some True, progressMetrics = createQueryResponseStreamMetrics\<rparr>,
       Batch \<lparr>batchSchema = 5, batchData = 6\<rparr> createQueryResponseStreamMetrics], qe_produced = Inr (), qe_schema = Inr None, qe_newSchema = 7,
     qe_newTable = (\<lambda>schema batches. 8), qe_streamMetadata = 9, qe_emptyMetadata = 10, qe_streamMetrics = createQueryResponseStreamMetrics,
     qe_analysis = Inr (), qe_newCancelled = 11, qe_newProcessing = 12, qe_toIPC = (\<lambda>t. Inr 13), qe_saved = True\<rparr>"

section \<open>Every execution ends\<close>

lemma run_shape:
  assumes shape: "execution_shape e qid args as r" and fresh: "js_get (queriesActive s) qid = None"
  shows "\<exists>q. js_get (queriesActive (run_actions now as s)) qid = None \<and> js_get (queriesFinished (run_actions now as s)) qid = Some q \<and>
    other_queries qid s (run_actions now as s) \<and> queryIsDone (q_status q) \<and>
    (case r of Inr (Some t) \<Rightarrow> q_status q = QueryExecutionStatus.SUCCEEDED \<and> resultTable q = Some t
      | Inr None \<Rightarrow> q_status q = QueryExecutionStatus.SUCCEEDED \<longrightarrow> resultTable q = None
      | Inl err \<Rightarrow> q_status q \<noteq> QueryExecutionStatus.CANCELLED)"
proof -
  from shape obtain pre fin post where as: "as = EXECUTE_QUERY qid (initial_query e qid args) # pre @ fin # post"
    and pre: "list_all (between_action qid) pre" and fin: "terminal_action fin" "action_query_id fin = qid"
    and post: "post = [] \<or> (\<exists>k. post = [QUERY_CACHE_RECORDED qid k False None])"
    and res: "case r of Inr (Some t) \<Rightarrow> end_status fin = QueryExecutionStatus.SUCCEEDED \<and> (\<forall>now q. resultTable (run_query_steps now pre q) = Some t)
       | Inr None \<Rightarrow> end_status fin = QueryExecutionStatus.SUCCEEDED \<longrightarrow> list_all keeps_table pre
       | Inl err \<Rightarrow> end_status fin \<noteq> QueryExecutionStatus.CANCELLED"
    unfolding execution_shape_def by blast
  let ?q0 = "initial_query e qid args" and ?s0 = "execute_query qid (initial_query e qid args) s" and ?n = "\<lambda>n. now (Suc n)"
  have s0: "js_get (queriesActive ?s0) qid = Some ?q0" "other_queries qid s ?s0" "queryId ?q0 = qid" "resultTable ?q0 = None"
    by (simp_all add: execute_query_def other_queries_def js_get_set initial_query_def)
  let ?s1 = "run_actions ?n pre ?s0" and ?q1 = "run_query_steps ?n pre ?q0" and ?t = "now (Suc (length pre))"
  have s1: "js_get (queriesActive ?s1) qid = Some ?q1" "other_queries qid ?s0 ?s1" "queryId ?q1 = qid"
    using between_run [OF pre s0(1,3), of ?n] by simp_all
  let ?s2 = "reduceQueryAction ?t ?s1 fin" and ?q2 = "step_query ?t fin ?q1"
  have s2: "js_get (queriesActive ?s2) qid = None" "js_get (queriesFinished ?s2) qid = Some ?q2" "other_queries qid ?s1 ?s2"
    using terminal_step [OF fin s1(1,3)] by simp_all
  have q2: "q_status ?q2 = end_status fin" "resultTable ?q2 = resultTable ?q1" "queryIsDone (end_status fin)"
    using fin(1) by (cases fin; simp add: query_succeeded_def query_failed_def query_cancelled_def Let_def)+
  have table: "resultTable ?q1 = None" if "list_all keeps_table pre" using steps_keep_table [OF that] s0(4) by simp
  have run: "run_actions now as s = run_actions (\<lambda>n. now (Suc (Suc (length pre + n)))) post ?s2"
    by (simp add: as run_actions_append)
  have others: "other_queries qid s ?s2" using other_queries_trans s0(2) s1(2) s2(3) by blast
  show ?thesis
  proof (cases "post = []")
    case True
    then show ?thesis using s2 others q2 res table unfolding run by (intro exI [of _ ?q2]) (auto split: sum.splits option.splits)
  next
    case False
    then obtain k where k: "post = [QUERY_CACHE_RECORDED qid k False None]" using post by blast
    note rec = recorded_step [OF s2(1,2), of "now (Suc (Suc (length pre)))" k False None]
    have "resultTable (cache_recorded k False None ?q2) = resultTable ?q2" by (simp add: cache_recorded_def)
    then show ?thesis
      using rec others other_queries_trans q2 res table unfolding run k
      by (intro exI [of _ "cache_recorded k False None ?q2"]) (auto split: sum.splits option.splits)
  qed
qed

text \<open>C9. With the compute database and the connection present, and a fresh query id, the promise of an execution is settled
  exactly if every answer it awaits arrives (the key of a cacheable query, the cache entry, the start, the end of the stream,
  the schema of an empty one, the analysis). Whatever these answers are, errors and cancellations included, the dispatched
  actions then take the query through the reducer into the finished queries, with the table that the promise resolves to if
  it resolves to one. If an answer never arrives, the query stays active and is not finished (or is not even recorded, when
  the key never arrives). Either way no other query is touched.\<close>

theorem query_execution_ends:
  assumes "qe_database e" "qe_connection e" "executeAwaited arrives e qid args = (evs, r)" "js_get (queriesActive s) qid = None"
  shows "(r \<noteq> None \<longleftrightarrow> list_all arrives (awaited e args)) \<and> other_queries qid s (run_actions now (dispatched evs) s) \<and>
    (case r of
       None \<Rightarrow> js_get (queriesFinished (run_actions now (dispatched evs) s)) qid = js_get (queriesFinished s) qid \<and>
         (case js_get (queriesActive (run_actions now (dispatched evs) s)) qid of
            None \<Rightarrow> qa_cacheable args \<and> \<not> arrives Await_key
          | Some q \<Rightarrow> \<not> queryIsDone (q_status q))
     | Some result \<Rightarrow> (\<exists>q. js_get (queriesActive (run_actions now (dispatched evs) s)) qid = None \<and>
         js_get (queriesFinished (run_actions now (dispatched evs) s)) qid = Some q \<and> queryIsDone (q_status q) \<and>
         (case result of Inr (Some t) \<Rightarrow> q_status q = QueryExecutionStatus.SUCCEEDED \<and> resultTable q = Some t
           | Inr None \<Rightarrow> q_status q = QueryExecutionStatus.SUCCEEDED \<longrightarrow> resultTable q = None
           | Inl err \<Rightarrow> q_status q \<noteq> QueryExecutionStatus.CANCELLED)))"
proof (cases r)
  case (Some result)
  show ?thesis
    using run_shape [OF execution_has_shape [OF assms(1,2) settled_execution [OF assms(3) [unfolded Some]]] assms(4), of now]
      awaited_settles [OF assms(1-3)] Some by auto
next
  case None
  let ?as = "dispatched evs" and ?q0 = "initial_query e qid args"
  from stopped_shape [OF assms(1,2) assms(3) [unfolded None]] show ?thesis
  proof
    assume "evs = [] \<and> qa_cacheable args \<and> \<not> arrives Await_key"
    then show ?thesis using assms(4) None awaited_settles [OF assms(1-3)] by (simp add: other_queries_refl)
  next
    assume "\<exists>as. ?as = EXECUTE_QUERY qid ?q0 # as \<and> list_all (between_action qid) as"
    then obtain as where as: "?as = EXECUTE_QUERY qid ?q0 # as" "list_all (between_action qid) as" by blast
    let ?s0 = "execute_query qid ?q0 s" and ?n = "\<lambda>n. now (Suc n)"
    have s0: "js_get (queriesActive ?s0) qid = Some ?q0" "queryId ?q0 = qid" "other_queries qid s ?s0"
      "queriesFinished ?s0 = queriesFinished s" "\<not> queryIsDone (q_status ?q0)"
      by (simp_all add: execute_query_def other_queries_def js_get_set initial_query_def)
    show ?thesis
      using between_run [OF as(2) s0(1,2), of ?n] steps_not_done [OF as(2) s0(5), of ?n] s0(3,4) other_queries_trans
        awaited_settles [OF assms(1-3)] None as(1) by auto
  qed
qed

lemma demo_execution_runs: "snd (executeImpl demo_execution 7 demo_args) = Inr (Some 8)" "qe_database demo_execution" "qe_connection demo_execution"
  by code_simp+

text \<open>All answers arrive; then the analysis never answers.\<close>

theorem query_execution_ends_witness:
  "(\<exists>q. js_get (queriesActive (run_actions (\<lambda>n. 20) (dispatched (fst (executeAwaited (\<lambda>x. True) demo_execution 7 demo_args))) sample_connection)) 7 = None \<and>
    js_get (queriesFinished (run_actions (\<lambda>n. 20) (dispatched (fst (executeAwaited (\<lambda>x. True) demo_execution 7 demo_args))) sample_connection)) 7 = Some q \<and>
    q_status q = QueryExecutionStatus.SUCCEEDED \<and> resultTable q = Some 8) \<and>
   snd (executeAwaited (\<lambda>x. x \<noteq> Await_analysis) demo_execution 7 demo_args) = None"
proof -
  obtain evs r where x: "executeAwaited (\<lambda>x. True) demo_execution 7 demo_args = (evs, r)" by fastforce
  obtain evs' r' where y: "executeAwaited (\<lambda>x. x \<noteq> Await_analysis) demo_execution 7 demo_args = (evs', r')" by fastforce
  have a: "js_get (queriesActive sample_connection) 7 = None" by simp
  note 1 = query_execution_ends [OF demo_execution_runs(2,3) x a, of "\<lambda>n. 20"]
  then have "r \<noteq> None" by (simp add: list_all_iff)
  then obtain result where result: "r = Some result" by blast
  then have "result = Inr (Some 8)" using settled_execution x demo_execution_runs(1) by fastforce
  moreover have "\<not> list_all (\<lambda>x. x \<noteq> Await_analysis) (awaited demo_execution demo_args)" by code_simp
  then have "r' = None" using query_execution_ends [OF demo_execution_runs(2,3) y a, of "\<lambda>n. 20"] by blast
  ultimately show ?thesis using 1 x y result by (simp, elim conjE exE) (rule exI, rule conjI, assumption, simp)
qed

section \<open>Queues are not shown\<close>

text \<open>While it executes, the query is never \<open>QUEUED\<close>, whatever the progress reports say: the first report arrives after the
  query was set running, and the reducer moves only a query that is being sent into the queue.\<close>

theorem query_never_queued:
  assumes "qe_database e" "qe_connection e" "executeImpl e qid args = (evs, r)" "js_get (queriesActive s) qid = None"
    "js_get (queriesActive (run_actions now (take n (dispatched evs)) s)) qid = Some q"
  shows "q_status q \<noteq> QueryExecutionStatus.QUEUED"
proof -
  from execution_is_safe [OF assms(1-3)] obtain as where as: "dispatched evs = EXECUTE_QUERY qid (initial_query e qid args) # as"
    and safe: "progress_safe False as" by blast
  from execution_has_shape [OF assms(1-3)] as obtain pre fin post where p: "as = pre @ fin # post" "list_all (between_action qid) pre"
    "terminal_action fin" "action_query_id fin = qid" "post = [] \<or> (\<exists>k. post = [QUERY_CACHE_RECORDED qid k False None])"
    unfolding execution_shape_def by auto
  let ?q0 = "initial_query e qid args" and ?s0 = "execute_query qid (initial_query e qid args) s" and ?n = "\<lambda>n. now (Suc n)"
  have s0: "js_get (queriesActive ?s0) qid = Some ?q0" "queryId ?q0 = qid" by (simp_all add: execute_query_def js_get_set initial_query_def)
  show ?thesis
  proof (cases n)
    case 0
    then show ?thesis using assms(4,5) by simp
  next
    case (Suc m)
    have run: "js_get (queriesActive (run_actions ?n (take m as) ?s0)) qid = Some q" using assms(5) Suc as by simp
    have "m \<le> length pre"
    proof (rule ccontr)
      assume "\<not> m \<le> length pre"
      then obtain k where k: "m = length pre + Suc k" by (metis less_imp_Suc_add not_le add_Suc_right)
      let ?s1 = "run_actions ?n pre ?s0"
      have s1: "js_get (queriesActive ?s1) qid = Some (run_query_steps ?n pre ?q0)" "queryId (run_query_steps ?n pre ?q0) = qid"
        using between_run [OF p(2) s0] by simp_all
      note s2 = terminal_step [OF p(3,4) s1, of "?n (length pre)"]
      have "js_get (queriesActive (run_actions now' (take k post) (reduceQueryAction (?n (length pre)) ?s1 fin))) qid = None" for now'
        using p(5) s2 recorded_step [of _ qid] by (cases k) auto
      then show False using run by (simp add: p(1) k run_actions_append)
    qed
    then have "take m as = take m pre" by (simp add: p(1))
    moreover have "list_all (between_action qid) (take m pre)" using p(2) by (auto simp: list_all_iff dest: in_set_takeD)
    ultimately have "q = run_query_steps ?n (take m as) ?q0" using between_run [OF _ s0, of "take m pre" ?n] run by simp
    then show ?thesis using safe_never_queued [OF safe, of ?q0 ?n m] by (simp add: initial_query_def)
  qed
qed

text \<open>The report says that the query is queued; the state says that it is running.\<close>

theorem query_never_queued_witness:
  "case js_get (queriesActive (run_actions (\<lambda>n. 20) (take 4 (dispatched (fst (executeImpl demo_execution 7 demo_args)))) sample_connection)) 7 of
     None \<Rightarrow> False | Some q \<Rightarrow> q_status q \<noteq> QueryExecutionStatus.QUEUED"
proof -
  obtain evs r where x: "executeImpl demo_execution 7 demo_args = (evs, r)" by fastforce
  have a: "js_get (queriesActive sample_connection) 7 = None" by simp
  have "take 4 (dispatched (fst (executeImpl demo_execution 7 demo_args))) = [EXECUTE_QUERY 7 (initial_query demo_execution 7 demo_args),
      QUERY_SENDING 7, QUERY_RUNNING 7 4, QUERY_PROGRESS_UPDATED 7 \<lparr>isQueued = Some True, progressMetrics = createQueryResponseStreamMetrics\<rparr>]"
    by (simp add: executeImpl_def obtain_result_def serve_cached_def run_query_def consume_stream_def demo_execution_def demo_args_def
        process_result_def analysis_started_def save_result_def message_event_def stream_schema_def message_batches_def List.map_filter_def Let_def)
  then have "js_get (queriesActive (run_actions (\<lambda>n. 20) (take 4 (dispatched (fst (executeImpl demo_execution 7 demo_args)))) sample_connection)) 7 \<noteq> None"
    by (simp add: execute_query_def store_active_def js_get_set initial_query_def query_sending_def query_running_def
        query_progress_updated_def Let_def)
  moreover have "q_status q \<noteq> QueryExecutionStatus.QUEUED"
    if "js_get (queriesActive (run_actions (\<lambda>n. 20) (take 4 (dispatched (fst (executeImpl demo_execution 7 demo_args)))) sample_connection)) 7 = Some q"
    for q by (rule query_never_queued [OF demo_execution_runs(2,3) x a, of "\<lambda>n. 20" 4 q]) (use that in \<open>simp only: x fst_conv\<close>)
  ultimately show ?thesis by (simp only: not_None_eq) (auto simp only: option.case)
qed

section \<open>A cache entry that does not decode\<close>

text \<open>A cache entry that the table reader refuses makes the query fail with the reader's error, although the backend was never
  asked: nothing is sent, and the next execution of the text meets the same entry.\<close>

theorem corrupt_cache_fails_query:
  assumes "qe_database e" "qe_connection e" "qa_cacheable args" "qe_cacheKey e = Some k" "qe_cached e = Inr (Some (bytes, at))"
    "qe_fromIPC e bytes = Inl err" "\<And>p. \<not> qe_aborted e p" "\<not> err_abort_name err" "\<not> err_abort_message err"
  shows "executeImpl e qid args =
    ([Dispatched (EXECUTE_QUERY qid (initial_query e qid args)), Dispatched (QUERY_FAILED qid (err_self err) None)], Inr None)"
  using assms by (simp add: executeImpl_def obtain_result_def serve_cached_def execution_failed_def metrics_of_stream_def)

definition corrupt_execution :: qx_env where
  "corrupt_execution = demo_execution\<lparr>qe_cached := Inr (Some (1, 5)), qe_fromIPC := (\<lambda>b. Inl (setup_error demo_execution))\<rparr>"

theorem corrupt_cache_fails_query_witness:
  "executeImpl corrupt_execution 7 demo_args = ([Dispatched (EXECUTE_QUERY 7 (initial_query corrupt_execution 7 demo_args)),
     Dispatched (QUERY_FAILED 7 2 None)], Inr None)"
  using corrupt_cache_fails_query [of corrupt_execution demo_args "''k''" 1 5 "setup_error demo_execution" 7]
  by (simp add: corrupt_execution_def demo_execution_def demo_args_def setup_error_def)

end
