(* ===== verification/Trino_Stream.thy ===== *)
theory Trino_Stream
  imports Query_Executor Agent_Prompts Script_Names
begin

text \<open>The driver of Trino (\<^verbatim>\<open>connection/trino/trino_channel.ts\<close>, \<^verbatim>\<open>trino_query_execution.ts\<close>): the stream that follows the
  \<^verbatim>\<open>nextUri\<close> of one result page after the other, and the executor over it. What the server answers, the clock, the abort
  signal and the translation of rows into Arrow batches are a record; the loop has fuel, the number of its rounds.\<close>

section \<open>Types\<close>

datatype arrow_type = Arrow_Float64 | Arrow_Decimal nat nat nat | Arrow_Utf8 | Arrow_Binary | Arrow_DateDay | Arrow_TimeMillisecond
  | Arrow_TimestampMillisecond bool

definition span_digits :: "string \<Rightarrow> string \<times> string" where
  "span_digits s = (takeWhile is_digit s, dropWhile is_digit s)"

text \<open>\<^verbatim>\<open>/^decimal\((\d+),\s*(\d+)\)$/\<close>\<close>

definition match_decimal :: "string \<Rightarrow> (nat \<times> nat) option" where
  "match_decimal type =
    (if \<not> prefix ''decimal('' type then None
     else case span_digits (drop 8 type) of (p, rest) \<Rightarrow>
       if p = [] \<or> \<not> prefix '','' rest then None
       else case span_digits (dropWhile js_space (drop 1 rest)) of (s, rest') \<Rightarrow>
         if s \<noteq> [] \<and> rest' = '')'' then Some (digits_value p, digits_value s) else None)"

fun includes_text :: "string \<Rightarrow> string \<Rightarrow> bool" where
  "includes_text w [] = (w = [])"
| "includes_text w (c # cs) = (prefix w (c # cs) \<or> includes_text w cs)"

definition parseTrinoType :: "string \<Rightarrow> arrow_type" where
  "parseTrinoType typeStr =
    (let type = js_trim (toLowerCase typeStr)
     in if type = ''boolean'' then Arrow_Float64
        else if type = ''tinyint'' then Arrow_Float64
        else if type = ''smallint'' then Arrow_Float64
        else if type = ''integer'' \<or> type = ''int'' then Arrow_Float64
        else if type = ''bigint'' then Arrow_Float64
        else if type = ''real'' then Arrow_Float64
        else if type = ''double'' then Arrow_Float64
        else (case match_decimal type of
          Some (precision, scale) \<Rightarrow> if precision > 18 then Arrow_Decimal scale precision 256 else Arrow_Decimal scale precision 128
        | None \<Rightarrow>
            if type = ''decimal'' then Arrow_Decimal 0 38 128
            else if type = ''varchar'' \<or> prefix ''varchar('' type \<or> type = ''char'' \<or> prefix ''char('' type then Arrow_Utf8
            else if type = ''varbinary'' then Arrow_Binary
            else if type = ''json'' then Arrow_Utf8
            else if type = ''date'' then Arrow_DateDay
            else if type = ''time'' \<or> prefix ''time('' type then Arrow_TimeMillisecond
            else if type = ''time with time zone'' \<or> prefix ''time('' type \<and> includes_text ''with time zone'' type then Arrow_TimeMillisecond
            else if type = ''timestamp'' \<or> prefix ''timestamp('' type then
              (if includes_text ''with time zone'' type then Arrow_TimestampMillisecond True else Arrow_TimestampMillisecond False)
            else if prefix ''interval'' type then Arrow_Utf8
            else if type = ''uuid'' then Arrow_Utf8
            else if type = ''ipaddress'' then Arrow_Utf8
            else if prefix ''array('' type \<or> prefix ''map('' type \<or> prefix ''row('' type then Arrow_Utf8
            else Arrow_Utf8))"

section \<open>Pages\<close>

record TrinoQueryError =
  te_message :: string
  te_errorCode :: int
  te_errorName :: string
  te_errorType :: string

record TrinoQueryStatistics =
  st_state :: string
  st_queued :: bool

text \<open>A page; the rows of its data are handles.\<close>

record TrinoQueryResult =
  tr_id :: string
  tr_nextUri :: "string option"
  tr_columns :: "(string \<times> string) list option"
  tr_data :: "handle list option"
  tr_stats :: "TrinoQueryStatistics option"
  tr_error :: "TrinoQueryError option"

text \<open>\<^verbatim>\<open>utils/async_value.ts\<close>\<close>

datatype 'a async_value = Async_Pending | Async_Resolved 'a | Async_Rejected qx_error

definition isResolved :: "'a async_value \<Rightarrow> bool" where
  "isResolved v = (case v of Async_Pending \<Rightarrow> False | _ \<Rightarrow> True)"

definition getResolvedValue :: "qx_error \<Rightarrow> 'a async_value \<Rightarrow> qx_error + 'a" where
  "getResolvedValue pending v = (case v of Async_Resolved x \<Rightarrow> Inr x | Async_Rejected err \<Rightarrow> Inl err | Async_Pending \<Rightarrow> Inl pending)"

definition async_resolve :: "'a \<Rightarrow> 'a async_value \<Rightarrow> 'a async_value" where
  "async_resolve x v = (if isResolved v then v else Async_Resolved x)"

definition async_reject :: "qx_error \<Rightarrow> 'a async_value \<Rightarrow> 'a async_value" where
  "async_reject err v = (if isResolved v then v else Async_Rejected err)"

text \<open>The answers of round \<open>n\<close> of the loop: the page under a URI, the clock before and after, whether the signal is aborted
  after the fetch and after the batch, the batch made of rows.\<close>

record trino_env =
  tv_channel :: bool
  tv_run :: "qx_error + TrinoQueryResult"
  tv_fetch :: "nat \<Rightarrow> string \<Rightarrow> qx_error + TrinoQueryResult"
  tv_runTime :: "int \<times> int"
  tv_fetchTime :: "nat \<Rightarrow> int \<times> int"
  tv_abortedFetch :: "nat \<Rightarrow> bool"
  tv_abortedBatch :: "nat \<Rightarrow> bool"
  tv_schema :: "(string \<times> arrow_type) list \<Rightarrow> handle"
  tv_batch :: "handle \<Rightarrow> handle list \<Rightarrow> qx_error + (RecordBatch \<times> nat)"
  tv_channelError :: "TrinoQueryError \<Rightarrow> handle"
  tv_noChannel :: qx_error
  tv_noSchema :: qx_error
  tv_notResolved :: qx_error
  tv_abortReason :: qx_error
  tv_stream :: handle

definition translateTrinoSchema :: "trino_env \<Rightarrow> (string \<times> string) list \<Rightarrow> handle" where
  "translateTrinoSchema e columns = tv_schema e (map (\<lambda>(n, t). (n, parseTrinoType t)) columns)"

section \<open>The stream\<close>

record TrinoQueryResultStream =
  ts_resultSchema :: "handle async_value"
  ts_latestQueryResult :: TrinoQueryResult
  ts_latestQueryStats :: "TrinoQueryStatistics option"
  ts_latestQueryState :: "string option"
  ts_latestQueryProgress :: "QueryExecutionProgress option"
  ts_queryMetrics :: QueryExecutionMetrics

definition openTrinoStream :: "trino_env \<Rightarrow> TrinoQueryResult \<Rightarrow> QueryExecutionMetrics \<Rightarrow> TrinoQueryResultStream" where
  "openTrinoStream e result metrics =
    \<lparr>ts_resultSchema = (case tr_columns result of Some cols \<Rightarrow> Async_Resolved (translateTrinoSchema e cols) | None \<Rightarrow> Async_Pending),
     ts_latestQueryResult = result, ts_latestQueryStats = tr_stats result, ts_latestQueryState = map_option st_state (tr_stats result),
     ts_latestQueryProgress = None, ts_queryMetrics = metrics\<rparr>"

text \<open>The request that is cancelled at the server.\<close>

definition cancelTrinoStream :: "TrinoQueryResultStream \<Rightarrow> string" where
  "cancelTrinoStream st = tr_id (ts_latestQueryResult st)"

definition deriveProgress :: "TrinoQueryStatistics option \<Rightarrow> QueryExecutionMetrics \<Rightarrow> QueryExecutionProgress" where
  "deriveProgress stats metrics = \<lparr>isQueued = map_option st_queued stats, progressMetrics = metrics\<rparr>"

definition trino_error :: "trino_env \<Rightarrow> TrinoQueryError \<Rightarrow> qx_error" where
  "trino_error e err = \<lparr>err_self = tv_channelError e err, err_abort_name = False, err_abort_message = False, err_loggable = True\<rparr>"

definition fetchNextQueryResult ::
  "trino_env \<Rightarrow> nat \<Rightarrow> TrinoQueryResultStream \<Rightarrow> TrinoQueryResultStream \<times> (qx_error + TrinoQueryResult option)" where
  "fetchNextQueryResult e n st =
    (case tr_nextUri (ts_latestQueryResult st) of
       None \<Rightarrow> (st, Inr None)
     | Some uri \<Rightarrow>
        if uri = [] then (st, Inr None)
        else (let m = ts_queryMetrics st; m = m\<lparr>totalQueryRequestsStarted := totalQueryRequestsStarted m + 1\<rparr>;
                  st = st\<lparr>ts_queryMetrics := m\<rparr>
          in case tv_fetch e n uri of
               Inl err \<Rightarrow> (st, Inl err)
             | Inr res \<Rightarrow>
                (let st = st\<lparr>ts_latestQueryResult := res, ts_latestQueryStats := tr_stats res,
                       ts_latestQueryState := map_option st_state (tr_stats res)\<rparr>
                 in case tr_error res of
                      Some err \<Rightarrow>
                        (st\<lparr>ts_resultSchema := async_reject (trino_error e err) (ts_resultSchema st),
                            ts_queryMetrics := m\<lparr>totalQueryRequestsFailed := totalQueryRequestsFailed m + 1\<rparr>\<rparr>, Inl (trino_error e err))
                    | None \<Rightarrow>
                        (st\<lparr>ts_queryMetrics := m\<lparr>totalQueryRequestsSucceeded := totalQueryRequestsSucceeded m + 1,
                              totalQueryRequestDurationMs := totalQueryRequestDurationMs m + (snd (tv_fetchTime e n) - fst (tv_fetchTime e n))\<rparr>,
                            ts_resultSchema := (case tr_columns res of Some cols \<Rightarrow> async_resolve (translateTrinoSchema e cols) (ts_resultSchema st)
                              | None \<Rightarrow> ts_resultSchema st)\<rparr>, Inr (Some res)))))"

definition still_running :: "string option \<Rightarrow> bool" where
  "still_running s \<longleftrightarrow> s = Some ''QUEUED'' \<or> s = Some ''RUNNING'' \<or> s = Some ''FINISHING''"

text \<open>One round after the fetch: the messages, and an error that ends the loop.\<close>

definition consume_page ::
  "trino_env \<Rightarrow> nat \<Rightarrow> TrinoQueryResult option \<Rightarrow> TrinoQueryResultStream \<Rightarrow> qx_message list \<times> (qx_error + unit) \<times> TrinoQueryResultStream" where
  "consume_page e n res st =
    (case Option.bind res tr_data of
       Some rows \<Rightarrow>
        if \<not> isResolved (ts_resultSchema st) then ([], Inl (tv_noSchema e), st)
        else (case getResolvedValue (tv_notResolved e) (ts_resultSchema st) of
            Inl err \<Rightarrow> ([], Inl err, st)
          | Inr schema \<Rightarrow> (case tv_batch e schema rows of
              Inl err \<Rightarrow> ([], Inl err, st)
            | Inr (b, numRows) \<Rightarrow>
               (let m = ts_queryMetrics st;
                    m = m\<lparr>totalBatchesReceived := totalBatchesReceived m + 1, totalRowsReceived := totalRowsReceived m + int numRows\<rparr>;
                    p = deriveProgress (ts_latestQueryStats st) m;
                    st = st\<lparr>ts_queryMetrics := m, ts_latestQueryProgress := Some p\<rparr>
                in ([Progress p, Batch b m], if tv_abortedBatch e n then Inl (tv_abortReason e) else Inr (), st))))
     | None \<Rightarrow>
        (let p = deriveProgress (ts_latestQueryStats st) (ts_queryMetrics st)
         in ([Progress p], Inr (), st\<lparr>ts_latestQueryProgress := Some p\<rparr>)))"

fun produce_pages ::
  "trino_env \<Rightarrow> nat \<Rightarrow> nat \<Rightarrow> TrinoQueryResultStream \<Rightarrow> (qx_message list \<times> (qx_error + unit) \<times> TrinoQueryResultStream) option" where
  "produce_pages e 0 n st = None"
| "produce_pages e (Suc fuel) n st =
    (if \<not> still_running (ts_latestQueryState st) then Some ([], Inr (), st)
     else case fetchNextQueryResult e n st of
         (st, Inl err) \<Rightarrow> Some ([], Inl err, st)
       | (st, Inr res) \<Rightarrow>
          if tv_abortedFetch e n then Some ([], Inl (tv_abortReason e), st)
          else (case consume_page e n res st of
              (msgs, Inl err, st) \<Rightarrow> Some (msgs, Inl err, st)
            | (msgs, Inr _, st) \<Rightarrow> (case produce_pages e fuel (Suc n) st of
                None \<Rightarrow> None
              | Some (msgs', r, st) \<Rightarrow> Some (msgs @ msgs', r, st))))"

section \<open>The channel\<close>

definition executeQueryTrino :: "trino_env \<Rightarrow> qx_error + TrinoQueryResultStream" where
  "executeQueryTrino e =
    (let m = createQueryResponseStreamMetrics; m = m\<lparr>totalQueryRequestsStarted := totalQueryRequestsStarted m + 1\<rparr>
     in case tv_run e of
          Inl err \<Rightarrow> Inl err
        | Inr result \<Rightarrow> Inr (openTrinoStream e result (m\<lparr>totalQueryRequestsSucceeded := totalQueryRequestsSucceeded m + 1,
            totalQueryRequestDurationMs := totalQueryRequestDurationMs m + (snd (tv_runTime e) - fst (tv_runTime e))\<rparr>)))"

definition executeTrinoQuery :: "trino_env \<Rightarrow> qx_error + TrinoQueryResultStream" where
  "executeTrinoQuery e = (if \<not> tv_channel e then Inl (tv_noChannel e) else executeQueryTrino e)"

text \<open>The executor over the stream; \<open>None\<close> when the promise is not settled within the rounds: the loop goes on, or the executor
  waits for a schema that nobody resolves.\<close>

definition with_stream :: "trino_env \<Rightarrow> qx_env \<Rightarrow> qx_message list \<Rightarrow> qx_error + unit \<Rightarrow> TrinoQueryResultStream \<Rightarrow> qx_env" where
  "with_stream e x msgs r st = x\<lparr>qe_start := Inr (Some (tv_stream e)), qe_messages := msgs, qe_produced := r,
     qe_schema := map_sum id Some (getResolvedValue (tv_notResolved e) (ts_resultSchema st)), qe_streamMetrics := ts_queryMetrics st\<rparr>"

definition trino_execution ::
  "trino_env \<Rightarrow> qx_env \<Rightarrow> nat \<Rightarrow> nat \<Rightarrow> QueryExecutionArgs \<Rightarrow> (qx_event list \<times> (qx_error + handle option)) option" where
  "trino_execution e x fuel qid args =
    (if \<not> qe_database x \<or> \<not> qe_connection x \<or> snd (serve_cached x qid (if qa_cacheable args then qe_cacheKey x else None)) \<noteq> Inr None
     then Some (executeImpl x qid args)
     else (case executeTrinoQuery e of
         Inl err \<Rightarrow> Some (executeImpl (x\<lparr>qe_start := Inl err\<rparr>) qid args)
       | Inr st \<Rightarrow> (case produce_pages e fuel 0 st of
           None \<Rightarrow> None
         | Some (msgs, r, st) \<Rightarrow>
             if r = Inr () \<and> message_batches msgs = [] \<and> \<not> isResolved (ts_resultSchema st) then None
             else Some (executeImpl (with_stream e x msgs r st) qid args))))"

end
