(* ===== verification/Trino_Properties.thy ===== *)
theory Trino_Properties
  imports Trino_Stream Query_Executor_Properties
begin

text \<open>The properties of the Trino driver: all pages are delivered when the server keeps its states to the three that the loop
  knows, and the promise is never settled when it does not.\<close>

section \<open>What the server answers\<close>

text \<open>The server serves the pages: as long as the state of a page counts as running, its URI leads to the next one.\<close>

fun serves_pages :: "trino_env \<Rightarrow> nat \<Rightarrow> TrinoQueryResult \<Rightarrow> TrinoQueryResult list \<Rightarrow> bool" where
  "serves_pages e n cur [] = (\<not> still_running (map_option st_state (tr_stats cur)))"
| "serves_pages e n cur (p # ps) = (still_running (map_option st_state (tr_stats cur)) \<and>
     (case tr_nextUri cur of Some uri \<Rightarrow> uri \<noteq> [] \<and> tv_fetch e n uri = Inr p | None \<Rightarrow> False) \<and> tr_error p = None \<and> serves_pages e (Suc n) p ps)"

text \<open>The pages that the loop follows so far: each one is running and its URI leads to the next one, which has no error.\<close>

fun leads_to :: "trino_env \<Rightarrow> nat \<Rightarrow> TrinoQueryResult \<Rightarrow> TrinoQueryResult list \<Rightarrow> bool" where
  "leads_to e n cur [] = True"
| "leads_to e n cur (p # ps) = (still_running (map_option st_state (tr_stats cur)) \<and>
     (case tr_nextUri cur of Some uri \<Rightarrow> uri \<noteq> [] \<and> tv_fetch e n uri = Inr p | None \<Rightarrow> False) \<and> tr_error p = None \<and> leads_to e (Suc n) p ps)"

lemma serves_leads: "serves_pages e n cur ps \<longleftrightarrow> leads_to e n cur ps \<and> \<not> still_running (map_option st_state (tr_stats (last (cur # ps))))"
  by (induction e n cur ps rule: serves_pages.induct) (auto split: option.split)

text \<open>The columns arrive no later than the first data.\<close>

fun columns_first :: "bool \<Rightarrow> TrinoQueryResult list \<Rightarrow> bool" where
  "columns_first known [] = True"
| "columns_first known (p # ps) = (let known = (known \<or> tr_columns p \<noteq> None)
     in (tr_data p \<noteq> None \<longrightarrow> known) \<and> columns_first known ps)"

fun first_columns :: "TrinoQueryResult list \<Rightarrow> (string \<times> string) list option" where
  "first_columns [] = None"
| "first_columns (p # ps) = (case tr_columns p of Some cols \<Rightarrow> Some cols | None \<Rightarrow> first_columns ps)"

definition page_data :: "TrinoQueryResult list \<Rightarrow> handle list list" where
  "page_data ps = List.map_filter tr_data ps"

lemma page_data_simps [simp]:
  "page_data [] = []" "page_data (p # ps) = (case tr_data p of Some rows \<Rightarrow> rows # page_data ps | None \<Rightarrow> page_data ps)"
  by (simp_all add: page_data_def List.map_filter_def split: option.splits)

lemma message_batches_simps [simp]:
  "message_batches [] = []" "message_batches (Progress p # ms) = message_batches ms" "message_batches (Batch b m # ms) = b # message_batches ms"
  "message_batches (ms @ ms') = message_batches ms @ message_batches ms'"
  by (simp_all add: message_batches_def List.map_filter_def)

text \<open>The schema that the stream ends with.\<close>

definition schema_after :: "trino_env \<Rightarrow> handle async_value \<Rightarrow> TrinoQueryResult list \<Rightarrow> handle async_value" where
  "schema_after e v ps = (if isResolved v then v
     else case first_columns ps of Some cols \<Rightarrow> Async_Resolved (translateTrinoSchema e cols) | None \<Rightarrow> v)"

lemma schema_after_step:
  "schema_after e (case tr_columns p of Some cols \<Rightarrow> async_resolve (translateTrinoSchema e cols) v | None \<Rightarrow> v) ps = schema_after e v (p # ps)"
  by (auto simp: schema_after_def async_resolve_def isResolved_def split: option.splits async_value.splits)

lemma schema_after_resolved [simp]: "schema_after e (Async_Resolved s) ps = Async_Resolved s"
  by (simp add: schema_after_def isResolved_def)

section \<open>One page\<close>

text \<open>What the counters gain.\<close>

definition metrics_gain :: "QueryExecutionMetrics \<Rightarrow> QueryExecutionMetrics \<Rightarrow> nat \<Rightarrow> nat \<Rightarrow> nat \<Rightarrow> bool" where
  "metrics_gain m m' requests batches rows \<longleftrightarrow>
     totalQueryRequestsStarted m' = totalQueryRequestsStarted m + int requests \<and>
     totalQueryRequestsSucceeded m' = totalQueryRequestsSucceeded m + int requests \<and>
     totalQueryRequestsFailed m' = totalQueryRequestsFailed m \<and>
     totalBatchesReceived m' = totalBatchesReceived m + int batches \<and> totalRowsReceived m' = totalRowsReceived m + int rows"

lemma fetch_page:
  assumes "tr_nextUri (ts_latestQueryResult st) = Some uri" "uri \<noteq> []" "tv_fetch e n uri = Inr p" "tr_error p = None"
  shows "\<exists>st'. fetchNextQueryResult e n st = (st', Inr (Some p)) \<and> ts_latestQueryResult st' = p \<and>
    ts_latestQueryState st' = map_option st_state (tr_stats p) \<and>
    ts_resultSchema st' = (case tr_columns p of Some cols \<Rightarrow> async_resolve (translateTrinoSchema e cols) (ts_resultSchema st) | None \<Rightarrow> ts_resultSchema st) \<and>
    metrics_gain (ts_queryMetrics st) (ts_queryMetrics st') 1 0 0"
  using assms by (simp add: fetchNextQueryResult_def metrics_gain_def Let_def split: option.splits)

lemma consume_one:
  assumes "case tr_data p of Some rows \<Rightarrow> \<exists>s. ts_resultSchema st = Async_Resolved s \<and> tv_batch e s rows = Inr (b s rows, k s rows) | None \<Rightarrow> True"
    "\<not> tv_abortedBatch e n"
  shows "\<exists>msgs st'. consume_page e n (Some p) st = (msgs, Inr (), st') \<and> ts_latestQueryResult st' = ts_latestQueryResult st \<and>
    ts_latestQueryState st' = ts_latestQueryState st \<and> ts_resultSchema st' = ts_resultSchema st \<and>
    (case tr_data p of None \<Rightarrow> message_batches msgs = [] \<and> metrics_gain (ts_queryMetrics st) (ts_queryMetrics st') 0 0 0
      | Some rows \<Rightarrow> \<exists>s. ts_resultSchema st = Async_Resolved s \<and> message_batches msgs = [b s rows] \<and>
          metrics_gain (ts_queryMetrics st) (ts_queryMetrics st') 0 1 (k s rows))"
  using assms by (auto simp: consume_page_def metrics_gain_def isResolved_def getResolvedValue_def Let_def split: option.splits)

lemma metrics_gain_trans:
  "metrics_gain m m' r b k \<Longrightarrow> metrics_gain m' m'' r' b' k' \<Longrightarrow> metrics_gain m m'' (r + r') (b + b') (k + k')"
  by (simp add: metrics_gain_def)

section \<open>All pages\<close>

lemma produce_reaches:
  assumes "leads_to e n (ts_latestQueryResult st) ps" "ts_latestQueryState st = map_option st_state (tr_stats (ts_latestQueryResult st))"
    "columns_first (isResolved (ts_resultSchema st)) ps" "\<And>err. ts_resultSchema st \<noteq> Async_Rejected err"
    "\<And>m. \<not> tv_abortedFetch e m" "\<And>m. \<not> tv_abortedBatch e m" "\<And>s rows. tv_batch e s rows = Inr (b s rows, k s rows)"
  shows "\<exists>msgs st'. (\<forall>f. produce_pages e (length ps + f) n st =
        map_option (\<lambda>(ms, r). (msgs @ ms, r)) (produce_pages e f (n + length ps) st')) \<and>
    ts_latestQueryResult st' = last (ts_latestQueryResult st # ps) \<and>
    ts_latestQueryState st' = map_option st_state (tr_stats (last (ts_latestQueryResult st # ps))) \<and>
    ts_resultSchema st' = schema_after e (ts_resultSchema st) ps \<and>
    (case schema_after e (ts_resultSchema st) ps of
       Async_Resolved s \<Rightarrow> message_batches msgs = map (b s) (page_data ps) \<and>
         metrics_gain (ts_queryMetrics st) (ts_queryMetrics st') (length ps) (length (page_data ps)) (sum_list (map (k s) (page_data ps)))
     | _ \<Rightarrow> page_data ps = [] \<and> message_batches msgs = [])"
  using assms
proof (induction ps arbitrary: n st)
  case Nil
  have id: "map_option (\<lambda>(ms, r). ([] @ ms, r)) (produce_pages e f n st) = produce_pages e f n st" for f
    by (cases "produce_pages e f n st") auto
  then show ?case using Nil
    by (intro exI [of _ "[]"] exI [of _ st]) (auto simp: option.map_ident schema_after_def isResolved_def metrics_gain_def split: async_value.splits)
next
  case (Cons p ps)
  from Cons.prems(1) obtain uri where uri: "tr_nextUri (ts_latestQueryResult st) = Some uri" "uri \<noteq> []" "tv_fetch e n uri = Inr p"
    "tr_error p = None" "leads_to e (Suc n) p ps" "still_running (ts_latestQueryState st)"
    using Cons.prems(2) by (auto split: option.splits)
  from fetch_page [OF uri(1-4)] obtain st1 where st1: "fetchNextQueryResult e n st = (st1, Inr (Some p))" "ts_latestQueryResult st1 = p"
    "ts_latestQueryState st1 = map_option st_state (tr_stats p)"
    "ts_resultSchema st1 = (case tr_columns p of Some cols \<Rightarrow> async_resolve (translateTrinoSchema e cols) (ts_resultSchema st) | None \<Rightarrow> ts_resultSchema st)"
    "metrics_gain (ts_queryMetrics st) (ts_queryMetrics st1) 1 0 0" by blast
  have known: "isResolved (ts_resultSchema st1) = (isResolved (ts_resultSchema st) \<or> tr_columns p \<noteq> None)"
    by (auto simp: st1(4) async_resolve_def isResolved_def split: option.splits async_value.splits)
  have ok: "ts_resultSchema st1 \<noteq> Async_Rejected err" for err
    using Cons.prems(4) by (auto simp: st1(4) async_resolve_def split: option.splits)
  have data: "case tr_data p of Some rows \<Rightarrow> \<exists>s. ts_resultSchema st1 = Async_Resolved s \<and> tv_batch e s rows = Inr (b s rows, k s rows) | None \<Rightarrow> True"
    using Cons.prems(3,7) ok known by (cases "ts_resultSchema st1") (auto simp: Let_def isResolved_def split: option.splits)
  from consume_one [where p = p and st = st1 and n = n, OF data Cons.prems(6), unfolded st1(2,3)] obtain msgs st2 where st2: "consume_page e n (Some p) st1 = (msgs, Inr (), st2)"
    "ts_latestQueryResult st2 = p" "ts_latestQueryState st2 = map_option st_state (tr_stats p)" "ts_resultSchema st2 = ts_resultSchema st1"
    "case tr_data p of None \<Rightarrow> message_batches msgs = [] \<and> metrics_gain (ts_queryMetrics st1) (ts_queryMetrics st2) 0 0 0
      | Some rows \<Rightarrow> \<exists>s. ts_resultSchema st1 = Async_Resolved s \<and> message_batches msgs = [b s rows] \<and>
          metrics_gain (ts_queryMetrics st1) (ts_queryMetrics st2) 0 1 (k s rows)" by blast
  have next_ok: "columns_first (isResolved (ts_resultSchema st2)) ps" "leads_to e (Suc n) (ts_latestQueryResult st2) ps"
    "ts_latestQueryState st2 = map_option st_state (tr_stats (ts_latestQueryResult st2))" "\<And>err. ts_resultSchema st2 \<noteq> Async_Rejected err"
    using Cons.prems(3) uri(5) ok by (simp_all add: st2(2-4) known Let_def)
  from Cons.IH [OF next_ok(2,3,1,4) Cons.prems(5-7), unfolded st2(2,4)]
  obtain msgs' st' where st': "\<And>f. produce_pages e (length ps + f) (Suc n) st2 =
        map_option (\<lambda>(ms, r). (msgs' @ ms, r)) (produce_pages e f (Suc n + length ps) st')"
    "ts_latestQueryResult st' = last (p # ps)" "ts_latestQueryState st' = map_option st_state (tr_stats (last (p # ps)))"
    "ts_resultSchema st' = schema_after e (ts_resultSchema st1) ps"
    "case schema_after e (ts_resultSchema st1) ps of
       Async_Resolved s \<Rightarrow> message_batches msgs' = map (b s) (page_data ps) \<and>
         metrics_gain (ts_queryMetrics st2) (ts_queryMetrics st') (length ps) (length (page_data ps)) (sum_list (map (k s) (page_data ps)))
     | _ \<Rightarrow> page_data ps = [] \<and> message_batches msgs' = []" by blast
  have after: "schema_after e (ts_resultSchema st) (p # ps) = schema_after e (ts_resultSchema st1) ps"
    by (simp only: st1(4) schema_after_step)
  have run: "produce_pages e (length (p # ps) + f) n st =
      map_option (\<lambda>(ms, r). ((msgs @ msgs') @ ms, r)) (produce_pages e f (n + length (p # ps)) st')" for f
    using uri(6) st1(1) st2(1) st'(1) [of f] Cons.prems(5) by (simp split: option.split)
  have gain: "metrics_gain (ts_queryMetrics st) (ts_queryMetrics st') (Suc (length ps)) (j + length (page_data ps)) (i + r)"
    if "metrics_gain (ts_queryMetrics st1) (ts_queryMetrics st2) 0 j i"
      "metrics_gain (ts_queryMetrics st2) (ts_queryMetrics st') (length ps) (length (page_data ps)) r" for i j r
    using metrics_gain_trans [OF st1(5) metrics_gain_trans [OF that]] by simp
  have "case schema_after e (ts_resultSchema st) (p # ps) of
       Async_Resolved s \<Rightarrow> message_batches (msgs @ msgs') = map (b s) (page_data (p # ps)) \<and>
         metrics_gain (ts_queryMetrics st) (ts_queryMetrics st') (length (p # ps)) (length (page_data (p # ps))) (sum_list (map (k s) (page_data (p # ps))))
     | _ \<Rightarrow> page_data (p # ps) = [] \<and> message_batches (msgs @ msgs') = []"
  proof (cases "schema_after e (ts_resultSchema st1) ps")
    case (Async_Resolved s)
    then have s: "ts_resultSchema st1 = Async_Resolved s'  \<Longrightarrow> s' = s" for s' by simp
    show ?thesis
    proof (cases "tr_data p")
      case None
      then show ?thesis using st'(5) st2(5) after Async_Resolved gain [of 0 0] by (simp only: option.case) simp
    next
      case (Some rows)
      with st2(5) s have "message_batches msgs = [b s rows]" "metrics_gain (ts_queryMetrics st1) (ts_queryMetrics st2) 0 1 (k s rows)" by auto
      then show ?thesis using st'(5) after Async_Resolved Some gain [of 1 "k s rows"] by simp
    qed
  next
    case Async_Pending
    then have "ts_resultSchema st1 = Async_Pending" by (auto simp: schema_after_def isResolved_def split: if_splits option.splits async_value.splits)
    then have "tr_data p = None" "message_batches msgs = []" using data st2(5) by (auto split: option.splits)
    then show ?thesis using st'(5) after Async_Pending by simp
  next
    case (Async_Rejected err)
    then have False using ok by (auto simp: schema_after_def split: if_splits option.splits)
    then show ?thesis ..
  qed
  then show ?case using run st'(2-4) after by (intro exI [of _ "msgs @ msgs'"] exI [of _ st']) simp
qed

lemma produce_more: "produce_pages e f n st = Some r \<Longrightarrow> produce_pages e (f + g) n st = Some r"
proof (induction e f n st arbitrary: r rule: produce_pages.induct)
  case (2 e f n st)
  then show ?case by (auto split: if_splits prod.splits sum.splits option.splits)
qed simp

lemma opened:
  assumes "tv_channel e" "tv_run e = Inr r0"
  shows "\<exists>st. executeTrinoQuery e = Inr st \<and> ts_latestQueryResult st = r0 \<and> ts_latestQueryState st = map_option st_state (tr_stats r0) \<and>
    (\<forall>err. ts_resultSchema st \<noteq> Async_Rejected err) \<and> isResolved (ts_resultSchema st) = (tr_columns r0 \<noteq> None) \<and>
    schema_after e (ts_resultSchema st) ps = (case first_columns (r0 # ps) of Some cols \<Rightarrow> Async_Resolved (translateTrinoSchema e cols) | None \<Rightarrow> Async_Pending) \<and>
    metrics_gain createQueryResponseStreamMetrics (ts_queryMetrics st) 1 0 0"
  using assms by (auto simp: executeTrinoQuery_def executeQueryTrino_def createQueryResponseStreamMetrics_def openTrinoStream_def isResolved_def
      schema_after_def metrics_gain_def Let_def split: option.split)

section \<open>A concrete server\<close>

text \<open>The first answer is queued, the second one names a column and has a row, the third one is finished and has two.\<close>

definition demo_page :: "string \<Rightarrow> string option \<Rightarrow> (string \<times> string) list option \<Rightarrow> handle list option \<Rightarrow> TrinoQueryResult" where
  "demo_page state uri cols rows = \<lparr>tr_id = ''q'', tr_nextUri = uri, tr_columns = cols, tr_data = rows,
     tr_stats = Some \<lparr>st_state = state, st_queued = False\<rparr>, tr_error = None\<rparr>"

definition demo_pages :: "TrinoQueryResult list" where
  "demo_pages = [demo_page ''RUNNING'' (Some ''u2'') (Some [(''c'', ''bigint'')]) (Some [1]), demo_page ''FINISHED'' None None (Some [2, 3])]"

definition demo_server :: trino_env where
  "demo_server = \<lparr>tv_channel = True, tv_run = Inr (demo_page ''QUEUED'' (Some ''u1'') None None),
     tv_fetch = (\<lambda>n uri. if n < 2 then Inr (demo_pages ! n) else Inl (setup_error demo_execution)), tv_runTime = (0, 1), tv_fetchTime = (\<lambda>n. (2, 3)),
     tv_abortedFetch = (\<lambda>n. False), tv_abortedBatch = (\<lambda>n. False), tv_schema = (\<lambda>cols. 20 + length cols),
     tv_batch = (\<lambda>s rows. Inr (\<lparr>batchSchema = s, batchData = sum_list rows\<rparr>, length rows)), tv_channelError = (\<lambda>err. 30),
     tv_noChannel = setup_error demo_execution, tv_noSchema = setup_error demo_execution, tv_notResolved = setup_error demo_execution,
     tv_abortReason = abort_reason demo_execution, tv_stream = 31\<rparr>"

section \<open>End to end\<close>

lemma served_with_stream: "serve_cached (with_stream e x msgs r st) qid key = serve_cached x qid key"
  by (cases key; cases "qe_cached x")
    (auto simp: serve_cached_def with_stream_def abort_error_def split: option.split sum.split)

lemma missed: "snd (serve_cached x qid key) = Inr None \<Longrightarrow> serve_cached x qid key = ([], Inr None)"
  by (auto simp: serve_cached_def split: option.splits if_splits sum.splits)

text \<open>The execution over a stream that was consumed without an error.\<close>

lemma streamed_execution:
  assumes "qe_database x" "qe_connection x" "snd (serve_cached x qid (if qa_cacheable args then qe_cacheKey x else None)) = Inr None"
    "ts_resultSchema st = Async_Resolved s"
  shows "\<exists>evs r. executeImpl (with_stream e x msgs (Inr ()) st) qid args = (evs, r) \<and>
    QUERY_RECEIVED_ALL_BATCHES qid (qe_newTable x (case message_batches msgs of [] \<Rightarrow> s | batch # _ \<Rightarrow> batchSchema batch) (message_batches msgs))
      (qe_streamMetadata x) (ts_queryMetrics st) \<in> set (dispatched evs) \<and>
    ((qa_analyzeResults args \<longrightarrow> qe_analysis x = Inr () \<and> \<not> qe_aborted x After_analysis) \<and> (qa_cacheable args \<longrightarrow> (\<forall>t err. qe_toIPC x t \<noteq> Inl err)) \<longrightarrow>
      r = Inr (Some (qe_newTable x (case message_batches msgs of [] \<Rightarrow> s | batch # _ \<Rightarrow> batchSchema batch) (message_batches msgs))))"
proof -
  let ?y = "with_stream e x msgs (Inr ()) st" and ?key = "if qa_cacheable args then qe_cacheKey x else None"
  let ?t = "qe_newTable x (case message_batches msgs of [] \<Rightarrow> s | batch # _ \<Rightarrow> batchSchema batch) (message_batches msgs)"
  have y: "qe_database ?y" "qe_connection ?y" "qe_cacheKey ?y = qe_cacheKey x" "qe_toIPC ?y = qe_toIPC x" "qe_analysis ?y = qe_analysis x"
    "qe_aborted ?y = qe_aborted x" "qe_saved ?y = qe_saved x" "qe_start ?y = Inr (Some (tv_stream e))" "qe_messages ?y = msgs"
    "qe_produced ?y = Inr ()" "qe_schema ?y = Inr (Some s)" "qe_newTable ?y = qe_newTable x" "qe_streamMetadata ?y = qe_streamMetadata x"
    "qe_streamMetrics ?y = ts_queryMetrics st"
    using assms(1,2,4) by (simp_all add: with_stream_def getResolvedValue_def)
  have q: "run_query ?y qid = (Dispatched (QUERY_SENDING qid) # Dispatched (QUERY_RUNNING qid (tv_stream e)) # map (message_event qid) msgs @
      [Dispatched (QUERY_RECEIVED_ALL_BATCHES qid ?t (qe_streamMetadata x) (ts_queryMetrics st))], Inr (Some ?t))"
    by (simp add: run_query_def consume_stream_def stream_schema_def y Let_def split: list.split)
  obtain evs1 where o: "obtain_result ?y qid ?key = (evs1, Inr (Some ?t, False), True)"
      "QUERY_RECEIVED_ALL_BATCHES qid ?t (qe_streamMetadata x) (ts_queryMetrics st) \<in> set (dispatched evs1)"
    by (rule that) (auto simp: obtain_result_def served_with_stream missed [OF assms(3)] q y)
  obtain evs2 r2 where p: "(if qa_analyzeResults args then process_result ?y qid args ?t True else ([], None)) = (evs2, r2)" by fastforce
  have r2: "r2 = None" if "qa_analyzeResults args \<longrightarrow> qe_analysis x = Inr () \<and> \<not> qe_aborted x After_analysis"
    using p that by (auto simp: process_result_def y Let_def split: if_splits)
  obtain evs3 r3 where v: "save_result ?y qid ?key (Some ?t) False = (evs3, r3)" by fastforce
  have r3: "r3 = Inr (Some ?t)" if "qa_cacheable args \<longrightarrow> (\<forall>t err. qe_toIPC x t \<noteq> Inl err)"
    using v that by (auto simp: save_result_def y split: option.splits sum.splits if_splits)
  show ?thesis
    using y(1,2) o p v r2 r3
    by (cases r2) (auto simp: executeImpl_def y(3))
qed

text \<open>C22. A Trino query that was not answered from the cache, in an execution that is not aborted: when the server names its
  columns no later than the first data, keeps its states to the three that the loop knows until the last page, reports no
  error, and every page of rows translates to a batch, the execution settles, a table of exactly the data of all pages after
  the first, in order, under the schema of the first page that has columns, is dispatched with the counts of requests, batches
  and rows, and the promise resolves to this table if the analysis of an analyzed query succeeds and a cacheable table can be
  encoded. The server is asked once per page.\<close>

theorem trino_delivers_all_pages:
  assumes "tv_channel e" "tv_run e = Inr r0" "serves_pages e 0 r0 ps" "first_columns (r0 # ps) = Some cols" "columns_first (tr_columns r0 \<noteq> None) ps"
    "\<And>m. \<not> tv_abortedFetch e m" "\<And>m. \<not> tv_abortedBatch e m" "\<And>s rows. tv_batch e s rows = Inr (b s rows, k s rows)"
    "qe_database x" "qe_connection x" "snd (serve_cached x qid (if qa_cacheable args then qe_cacheKey x else None)) = Inr None" "length ps < fuel"
  shows "\<exists>evs r m. trino_execution e x fuel qid args = Some (evs, r) \<and>
    QUERY_RECEIVED_ALL_BATCHES qid (let s = translateTrinoSchema e cols; bs = map (b s) (page_data ps)
      in qe_newTable x (case bs of [] \<Rightarrow> s | batch # _ \<Rightarrow> batchSchema batch) bs) (qe_streamMetadata x) m \<in> set (dispatched evs) \<and>
    totalQueryRequestsStarted m = int (Suc (length ps)) \<and> totalQueryRequestsFailed m = 0 \<and>
    totalBatchesReceived m = int (length (page_data ps)) \<and>
    totalRowsReceived m = int (sum_list (map (k (translateTrinoSchema e cols)) (page_data ps))) \<and>
    ((qa_analyzeResults args \<longrightarrow> qe_analysis x = Inr () \<and> \<not> qe_aborted x After_analysis) \<and> (qa_cacheable args \<longrightarrow> (\<forall>t err. qe_toIPC x t \<noteq> Inl err)) \<longrightarrow>
      r = Inr (Some (let s = translateTrinoSchema e cols; bs = map (b s) (page_data ps)
        in qe_newTable x (case bs of [] \<Rightarrow> s | batch # _ \<Rightarrow> batchSchema batch) bs)))"
proof -
  let ?s = "translateTrinoSchema e cols"
  from opened [OF assms(1,2), of ps] obtain st where st: "executeTrinoQuery e = Inr st" "ts_latestQueryResult st = r0"
    "ts_latestQueryState st = map_option st_state (tr_stats r0)" "\<And>err. ts_resultSchema st \<noteq> Async_Rejected err"
    "isResolved (ts_resultSchema st) = (tr_columns r0 \<noteq> None)" "schema_after e (ts_resultSchema st) ps = Async_Resolved ?s"
    "metrics_gain createQueryResponseStreamMetrics (ts_queryMetrics st) 1 0 0" using assms(4) by auto
  have l: "leads_to e 0 r0 ps" "\<not> still_running (map_option st_state (tr_stats (last (r0 # ps))))" using assms(3) serves_leads [of e 0 r0 ps] by blast+
  from produce_reaches [of e 0 st ps b k, unfolded st(2,3,5,6), OF l(1) refl assms(5) st(4) assms(6-8)]
  obtain msgs st' where r: "\<And>f. produce_pages e (length ps + f) 0 st = map_option (\<lambda>(ms, r). (msgs @ ms, r)) (produce_pages e f (length ps) st')"
    "ts_latestQueryState st' = map_option st_state (tr_stats (last (r0 # ps)))" "ts_resultSchema st' = Async_Resolved ?s"
    "message_batches msgs = map (b ?s) (page_data ps)"
    "metrics_gain (ts_queryMetrics st) (ts_queryMetrics st') (length ps) (length (page_data ps)) (sum_list (map (k ?s) (page_data ps)))" by auto
  obtain f where f: "fuel = length ps + Suc f" using assms(12) by (metis less_imp_Suc_add add_Suc_right)
  have "produce_pages e fuel 0 st = Some (msgs, Inr (), st')" using r(1) [of "Suc f"] l(2) by (simp add: f r(2))
  then have run: "trino_execution e x fuel qid args = Some (executeImpl (with_stream e x msgs (Inr ()) st') qid args)"
    using assms(9-11) by (simp add: trino_execution_def st(1) r(3) isResolved_def)
  show ?thesis unfolding run using streamed_execution [OF assms(9-11) r(3), of e msgs] metrics_gain_trans [OF st(7) r(5)]
    by (auto simp: r(4) Let_def metrics_gain_def createQueryResponseStreamMetrics_def)
qed

theorem trino_delivers_all_pages_witness:
  "\<exists>evs m. trino_execution demo_server demo_execution 3 7 demo_args = Some (evs, Inr (Some 8)) \<and>
     QUERY_RECEIVED_ALL_BATCHES 7 8 9 m \<in> set (dispatched evs) \<and> totalQueryRequestsStarted m = 3 \<and> totalQueryRequestsFailed m = 0 \<and>
     totalBatchesReceived m = 2 \<and> totalRowsReceived m = 3"
proof -
  have x: "qe_newTable demo_execution s bs = 8" "qe_streamMetadata demo_execution = 9" for s bs by (simp_all add: demo_execution_def)
  have run: "tv_run demo_server = Inr (demo_page ''QUEUED'' (Some ''u1'') None None)" by (simp add: demo_server_def)
  have miss: "snd (serve_cached demo_execution 7 (if qa_cacheable demo_args then qe_cacheKey demo_execution else None)) = Inr None" by code_simp
  have "qe_analysis demo_execution = Inr ()" "\<not> qe_aborted demo_execution After_analysis" "\<forall>t err. qe_toIPC demo_execution t \<noteq> Inl err"
    by (simp_all add: demo_execution_def)
  with trino_delivers_all_pages [OF _ run _ _ _ _ _ _ demo_execution_runs(2,3) miss, of demo_pages "[(''c'', ''bigint'')]"
      "\<lambda>s rows. \<lparr>batchSchema = s, batchData = sum_list rows\<rparr>" "\<lambda>s. length" 3, unfolded x]
  show ?thesis by (simp add: demo_server_def demo_pages_def demo_page_def still_running_def) blast
qed

text \<open>C31. A Trino query that was not answered from the cache, whose signal is never aborted, never settles, however many rounds
  its loop gets, in two cases, at its first answer or after any number of pages that follow each other without an error, whose
  columns come first and whose rows translate: when the last page is in a state that the loop does not know as running, such
  as \<open>PLANNING\<close> or \<open>FAILED\<close>, and no page named columns (an error of the first answer is not looked at): the executor waits for
  a schema; and when the last page is running but has no next URI: the loop goes round without a request.\<close>

theorem trino_never_settles:
  assumes "tv_channel e" "tv_run e = Inr r0" "leads_to e 0 r0 ps" "columns_first (tr_columns r0 \<noteq> None) ps"
    "\<And>m. \<not> tv_abortedFetch e m" "\<And>m. \<not> tv_abortedBatch e m" "\<And>s rows. tv_batch e s rows = Inr (b s rows, k s rows)"
    "qe_database x" "qe_connection x" "snd (serve_cached x qid (if qa_cacheable args then qe_cacheKey x else None)) = Inr None"
    "if still_running (map_option st_state (tr_stats (last (r0 # ps)))) then tr_nextUri (last (r0 # ps)) \<in> {None, Some []}
     else first_columns (r0 # ps) = None"
  shows "trino_execution e x fuel qid args = None"
proof -
  have spin: "produce_pages e f n st = None" if "still_running (ts_latestQueryState st)" "tr_nextUri (ts_latestQueryResult st) \<in> {None, Some []}" for f n st
    using that assms(5)
  proof (induction f arbitrary: n st)
    case (Suc f)
    then show ?case by (auto simp: fetchNextQueryResult_def consume_page_def Let_def)
  qed simp
  have stops: "produce_pages e f n st = Some r \<Longrightarrow> r = ([], Inr (), st)" if "\<not> still_running (ts_latestQueryState st)" for f n st r
    using that by (cases f) auto
  from opened [OF assms(1,2), of ps] obtain st where st: "executeTrinoQuery e = Inr st" "ts_latestQueryResult st = r0"
    "ts_latestQueryState st = map_option st_state (tr_stats r0)" "\<And>err. ts_resultSchema st \<noteq> Async_Rejected err"
    "isResolved (ts_resultSchema st) = (tr_columns r0 \<noteq> None)"
    "schema_after e (ts_resultSchema st) ps = (case first_columns (r0 # ps) of Some cols \<Rightarrow> Async_Resolved (translateTrinoSchema e cols) | None \<Rightarrow> Async_Pending)"
    by blast
  from produce_reaches [of e 0 st ps b k, unfolded st(2,3,5), OF assms(3) refl assms(4) st(4) assms(5-7)]
  obtain msgs st' where r: "\<And>f. produce_pages e (length ps + f) 0 st = map_option (\<lambda>(ms, r). (msgs @ ms, r)) (produce_pages e f (length ps) st')"
    "ts_latestQueryResult st' = last (r0 # ps)" "ts_latestQueryState st' = map_option st_state (tr_stats (last (r0 # ps)))"
    "ts_resultSchema st' = schema_after e (ts_resultSchema st) ps"
    "case schema_after e (ts_resultSchema st) ps of
       Async_Resolved s \<Rightarrow> message_batches msgs = map (b s) (page_data ps) \<and>
         metrics_gain (ts_queryMetrics st) (ts_queryMetrics st') (length ps) (length (page_data ps)) (sum_list (map (k s) (page_data ps)))
     | _ \<Rightarrow> page_data ps = [] \<and> message_batches msgs = []" unfolding add_0 by blast
  show ?thesis
  proof (cases "produce_pages e fuel 0 st")
    case None
    then show ?thesis using assms(8-10) by (simp add: trino_execution_def st(1))
  next
    case (Some out)
    have "produce_pages e (length ps + fuel) 0 st = Some out" using produce_more [OF Some, of "length ps"] by (simp add: add.commute)
    then obtain out' where o: "produce_pages e fuel (length ps) st' = Some out'" "out = (case out' of (ms, r) \<Rightarrow> (msgs @ ms, r))"
      using r(1) [of fuel] by auto
    have running: "\<not> still_running (ts_latestQueryState st')" using spin [of st' fuel "length ps"] o(1) assms(11) r(2,3) by (auto split: if_splits)
    then have "out' = ([], Inr (), st')" using stops o(1) by blast
    moreover have "first_columns (r0 # ps) = None" using assms(11) running r(3) by (auto split: if_splits)
    ultimately have "out = (msgs, Inr (), st')" "ts_resultSchema st' = Async_Pending" "message_batches msgs = []"
      using o(2) r(4,5) st(6) by auto
    then show ?thesis using assms(8-10) Some by (simp add: trino_execution_def st(1) isResolved_def)
  qed
qed

text \<open>The first answer has a state that the loop does not know; then the second one does, after a queued one.\<close>

theorem trino_never_settles_witness:
  "trino_execution (demo_server\<lparr>tv_run := Inr (demo_page ''PLANNING'' (Some ''u1'') None None)\<rparr>) demo_execution 1000 7 demo_args = None \<and>
   trino_execution (demo_server\<lparr>tv_fetch := \<lambda>n uri. Inr (demo_page ''RUNNING'' None None None)\<rparr>) demo_execution 1000 7 demo_args = None"
proof -
  let ?p = "demo_page ''PLANNING'' (Some ''u1'') None None" and ?q = "demo_page ''QUEUED'' (Some ''u1'') None None"
  let ?r = "demo_page ''RUNNING'' None None None"
  have miss: "snd (serve_cached demo_execution 7 (if qa_cacheable demo_args then qe_cacheKey demo_execution else None)) = Inr None" by code_simp
  note never = trino_never_settles [where b = "\<lambda>s rows. \<lparr>batchSchema = s, batchData = sum_list rows\<rparr>" and k = "\<lambda>s. length",
      OF _ _ _ _ _ _ _ demo_execution_runs(2,3) miss]
  have "trino_execution (demo_server\<lparr>tv_run := Inr ?p\<rparr>) demo_execution 1000 7 demo_args = None"
    by (rule never [where ?r0.0 = ?p and ps = "[]"]) (simp_all add: demo_server_def demo_page_def still_running_def)
  moreover have "trino_execution (demo_server\<lparr>tv_fetch := \<lambda>n uri. Inr ?r\<rparr>) demo_execution 1000 7 demo_args = None"
    by (rule never [where ?r0.0 = ?q and ps = "[?r]"]) (simp_all add: demo_server_def demo_page_def still_running_def)
  ultimately show ?thesis ..
qed

end
