(* ===== verification/App_Restore.thy ===== *)
theory App_Restore
  imports Connection_Registry Notebook_Properties Opfs_Reads
begin

text \<open>The restoration of the application at start (\<^verbatim>\<open>platform/storage/app_state_loader.ts\<close>): validation of the notebooks in the
  manifest, their connections, catalogs and scripts, and the counters of the progress. The answers of the storage backend and
  of the core module are a record. Each notebook has a registry and a part of the core's heap of its own: a world.\<close>

section \<open>Progress\<close>

record ProgressCounter =
  pc_started :: nat
  pc_succeeded :: nat
  pc_skipped :: nat
  pc_failed :: nat
  pc_total :: "nat option"

definition newProgressCounter :: ProgressCounter where
  "newProgressCounter = \<lparr>pc_started = 0, pc_succeeded = 0, pc_skipped = 0, pc_failed = 0, pc_total = None\<rparr>"

definition addStarted :: "nat \<Rightarrow> ProgressCounter \<Rightarrow> ProgressCounter" where
  "addStarted n c = c\<lparr>pc_started := pc_started c + n\<rparr>"

definition addSucceeded :: "nat \<Rightarrow> ProgressCounter \<Rightarrow> ProgressCounter" where
  "addSucceeded n c = c\<lparr>pc_succeeded := pc_succeeded c + n\<rparr>"

definition addSkipped :: "nat \<Rightarrow> ProgressCounter \<Rightarrow> ProgressCounter" where
  "addSkipped n c = c\<lparr>pc_skipped := pc_skipped c + n\<rparr>"

definition addFailed :: "nat \<Rightarrow> ProgressCounter \<Rightarrow> ProgressCounter" where
  "addFailed n c = c\<lparr>pc_failed := pc_failed c + n\<rparr>"

definition addTotal :: "nat \<Rightarrow> ProgressCounter \<Rightarrow> ProgressCounter" where
  "addTotal n c = c\<lparr>pc_total := Some ((case pc_total c of Some t \<Rightarrow> t | None \<Rightarrow> 0) + n)\<rparr>"

section \<open>Validation\<close>

datatype NotebookValidationError = MissingNotebookId | InvalidNotebookId | MissingConnectionParams | UnknownConnector | NotebookUnreadable

fun describeNotebookValidationError :: "NotebookValidationError \<Rightarrow> string" where
  "describeNotebookValidationError MissingNotebookId = ''Missing notebook id''"
| "describeNotebookValidationError InvalidNotebookId = ''Invalid notebook id''"
| "describeNotebookValidationError MissingConnectionParams = ''Missing connection parameters''"
| "describeNotebookValidationError UnknownConnector = ''Unknown connector''"
| "describeNotebookValidationError NotebookUnreadable = ''Notebook files missing''"

definition hex_char :: "char \<Rightarrow> bool" where
  "hex_char c = (let n = (of_char c :: nat) in 48 \<le> n \<and> n \<le> 57 \<or> 65 \<le> n \<and> n \<le> 70 \<or> 97 \<le> n \<and> n \<le> 102)"

text \<open>\<^verbatim>\<open>/^[0-9a-f]{8}-[0-9a-f]{4}-[0-9a-f]{4}-[0-9a-f]{4}-[0-9a-f]{12}$/i\<close>\<close>

definition isValidUuid :: "string \<Rightarrow> bool" where
  "isValidUuid s \<longleftrightarrow> length s = 36 \<and>
     list_all (\<lambda>(i, c). if i \<in> {8, 13, 18, 23} then c = CHR ''-'' else hex_char c) (zip [0..<36] s)"

text \<open>JSON values as conditions and their members; a member of what is not an object is undefined, and \<^verbatim>\<open>in\<close> throws for it.\<close>

fun js_truthy :: "jsv \<Rightarrow> bool" where
  "js_truthy JUndefined = False"
| "js_truthy JNull = False"
| "js_truthy (JBool b) = b"
| "js_truthy (JNum n) = (n \<noteq> 0)"
| "js_truthy (JStr s) = (s \<noteq> [])"
| "js_truthy (JArr xs) = True"
| "js_truthy (JObj ms) = True"

definition js_member :: "jsv \<Rightarrow> string \<Rightarrow> jsv" where
  "js_member v k = (case v of JObj ms \<Rightarrow> (case map_of ms k of Some w \<Rightarrow> w | None \<Rightarrow> JUndefined) | _ \<Rightarrow> JUndefined)"

definition js_nullish :: "jsv \<Rightarrow> bool" where
  "js_nullish v \<longleftrightarrow> v = JUndefined \<or> v = JNull"

definition js_in :: "string \<Rightarrow> jsv \<Rightarrow> bool option" where
  "js_in k v = (case v of JObj ms \<Rightarrow> Some (map_of ms k \<noteq> None) | JArr xs \<Rightarrow> Some False | _ \<Rightarrow> None)"

definition param_keys :: "jsv \<Rightarrow> ParamKeys option" where
  "param_keys v = (case (js_in ''dataless'' v, js_in ''hyper'' v, js_in ''salesforce'' v, js_in ''trino'' v) of
       (Some d, Some h, Some s, Some t) \<Rightarrow> Some \<lparr>pk_dataless = (if d then (let demo = js_member (js_member v ''dataless'') ''demoConnector''
           in if js_nullish demo then Some None else Some (Some (js_truthy demo))) else None), pk_hyper = h, pk_salesforce = s, pk_trino = t\<rparr>
     | _ \<Rightarrow> None)"

text \<open>\<^verbatim>\<open>Inl None\<close> is the error of \<^verbatim>\<open>in\<close>.\<close>

definition validateNotebookData :: "NotebookData \<Rightarrow> NotebookValidationError option + unit" where
  "validateNotebookData d =
    (if nb_notebookId d = [] then Inl (Some MissingNotebookId)
     else if \<not> isValidUuid (nb_notebookId d) then Inl (Some InvalidNotebookId)
     else if \<not> js_truthy (nb_connectionParams d) then Inl (Some MissingConnectionParams)
     else (case param_keys (nb_connectionParams d) of
         None \<Rightarrow> Inl None
       | Some keys \<Rightarrow> if getConnectorInfoForParams keys = None then Inl (Some UnknownConnector) else Inr ()))"

record InvalidNotebook =
  in_notebookId :: string
  in_title :: string
  in_connectorType :: "ConnectorType option"
  in_error :: NotebookValidationError

text \<open>\<open>None\<close> is again the error of \<^verbatim>\<open>in\<close>, for parameters that are not an object.\<close>

definition describeInvalidNotebook ::
  "string option \<Rightarrow> NotebookEntry \<Rightarrow> NotebookValidationError \<Rightarrow> NotebookData option \<Rightarrow> InvalidNotebook option" where
  "describeInvalidNotebook notebookPath item err notebookData =
    map_option (\<lambda>info.
      \<lparr>in_notebookId = ne_path item,
       in_title = (case notebookData of None \<Rightarrow> ne_path item
         | Some d \<Rightarrow> (case nb_name d of Some (c # cs) \<Rightarrow> c # cs
             | _ \<Rightarrow> (case notebookPath of Some (c # cs) \<Rightarrow> c # cs | _ \<Rightarrow> ne_path item))),
       in_connectorType = map_option connectorType info,
       in_error = err\<rparr>)
     (case notebookData of None \<Rightarrow> Some None
      | Some d \<Rightarrow> if js_truthy (nb_connectionParams d) then map_option getConnectorInfoForParams (param_keys (nb_connectionParams d)) else Some None)"

section \<open>Answers from outside\<close>

text \<open>Errors are only logged. \<open>re_details\<close> reads a JSON object as the details of a connector, which the code does by a cast.\<close>

record restore_env =
  re_nb :: nb_env
  re_localeCompare :: "string \<Rightarrow> string \<Rightarrow> int"
  re_list :: "unit + NotebookEntry list"
  re_loadNotebook :: "string \<Rightarrow> unit + NotebookData"
  re_notebookPath :: "string \<Rightarrow> string option"
  re_details :: "ConnectorType \<Rightarrow> jsv \<Rightarrow> ConnectionStateDetailsVariant"
  re_catalogHandles :: "string \<Rightarrow> core_handles option"
  re_schema :: "string \<Rightarrow> unit + string option"
  re_functions :: "string \<Rightarrow> unit + string option"
  re_replaceText :: "handle \<Rightarrow> string \<Rightarrow> bool"
  re_analyze :: "handle \<Rightarrow> string \<Rightarrow> bool"
  re_load :: "handle \<Rightarrow> string \<Rightarrow> bool"
  re_now :: timestamp
  re_folders :: "string \<Rightarrow> unit + OpfsScriptFolder list"
  re_draft :: "string \<Rightarrow> unit + string option"
  re_world :: "string \<Rightarrow> nb_world"

record app_state =
  as_connections :: "(string, ConnectionState) jsmap"
  as_connectionsByType :: "string list list"
  as_signatures :: ConnectionSignatureMap
  as_catalogs :: "(handle, (handle \<times> string) list) jsmap"
  as_notebooks :: "(string, NotebookState \<times> nb_world) jsmap"
  as_notebooksByConnection :: "(string, string) jsmap"
  as_notebooksByType :: "string list list"
  as_invalid :: "(string, InvalidNotebook) jsmap"
  as_progressConnections :: ProgressCounter
  as_progressCatalogs :: ProgressCounter
  as_progressScripts :: ProgressCounter
  as_progressAnalyze :: ProgressCounter

section \<open>Connections\<close>

definition decodeConnectionFromProto :: "restore_env \<Rightarrow> jsv \<Rightarrow> (ConnectorInfo \<times> ConnectionStateDetailsVariant) option" where
  "decodeConnectionFromProto e conn =
    (let wrapped = (\<lambda>v. if js_truthy (js_member v ''setupParams'') then v
           else JObj [(''setupTimings'', JObj []), (''setupParams'', if js_nullish v then JObj [] else v)])
     in if js_in ''dataless'' conn = Some True then
          (let dl = js_member conn ''dataless'';
               outer = js_member (js_member dl ''setupParams'') ''demoConnector'';
               demo = (if js_nullish outer then js_member dl ''demoConnector'' else outer);
               proto = (if js_truthy (js_member dl ''setupParams'') then dl
                 else JObj [(''setupParams'', if js_nullish dl then JObj [] else dl)])
           in Some (createDatalessConnectorInfo (js_truthy demo), re_details e DATALESS proto))
        else if js_in ''salesforce'' conn = Some True then
          Some (connectorInfoForType SALESFORCE_DATA_CLOUD, re_details e SALESFORCE_DATA_CLOUD (wrapped (js_member conn ''salesforce'')))
        else if js_in ''hyper'' conn = Some True then
          Some (connectorInfoForType HYPER, re_details e HYPER (wrapped (js_member conn ''hyper'')))
        else if js_in ''trino'' conn = Some True then
          Some (connectorInfoForType TRINO, re_details e TRINO (wrapped (js_member conn ''trino'')))
        else None)"

definition restoreConnectionState ::
  "restore_env \<Rightarrow> string \<Rightarrow> ConnectorInfo \<Rightarrow> ConnectionStateDetailsVariant \<Rightarrow> ConnectionSignatureMap \<Rightarrow> string option
    \<Rightarrow> ConnectionSignatureMap \<times> ConnectionState option" where
  "restoreConnectionState e nid info det connSigs label =
    (let (sigs, sig) = newConnectionSignature (computeNewConnectionSignatureFromDetails det) connSigs None
     in case re_catalogHandles e nid of
          None \<Rightarrow> (js_delete sigs (signatureString sig), None)
        | Some dql \<Rightarrow> (sigs, Some
            \<lparr>notebookId = nid, name = label, inst = ch_instance dql, active = True,
             connectionStatus = ConnectionStatus.NOT_STARTED, connectionHealth = ConnectionHealth.NOT_STARTED,
             connectorInfo = info, connectionSignature = sig, details = det, c_metrics = createConnectionMetrics,
             catalog = ch_catalog dql, catalogUpdates = no_catalogUpdates,
             catalogRelationScript = ch_relations dql, catalogFunctionScript = ch_functions dql,
             queriesActive = [], queriesActiveOrdered = [], queriesFinished = [], queriesFinishedOrdered = [],
             snapshotQueriesActiveFinished = 0\<rparr>))"

text \<open>\<^verbatim>\<open>name?.trim() || null\<close>\<close>

definition notebook_label :: "string option \<Rightarrow> string option" where
  "notebook_label n = (case n of None \<Rightarrow> None | Some t \<Rightarrow> if js_trim t = [] then None else Some (js_trim t))"

section \<open>Catalogs\<close>

definition blank :: "string option \<Rightarrow> bool" where
  "blank sql \<longleftrightarrow> (case sql of None \<Rightarrow> True | Some t \<Rightarrow> js_trim t = [])"

text \<open>Text, analysis, and the replacement of the script in the catalog; the result tells whether nothing threw.\<close>

definition load_catalog_script ::
  "restore_env \<Rightarrow> handle \<Rightarrow> string \<Rightarrow> (handle \<times> string) list \<Rightarrow> bool \<times> (handle \<times> string) list" where
  "load_catalog_script e h sql loaded =
    (if \<not> re_replaceText e h sql \<or> \<not> re_analyze e h sql then (False, loaded)
     else (let loaded = filter (\<lambda>x. fst x \<noteq> h) loaded in if re_load e h sql then (True, loaded @ [(h, sql)]) else (False, loaded)))"

definition restore_catalog :: "restore_env \<Rightarrow> string \<Rightarrow> ConnectionState \<Rightarrow> app_state \<Rightarrow> bool \<times> app_state" where
  "restore_catalog e nid conn s =
    (let loaded = (\<lambda>s. case js_get (as_catalogs s) (catalog conn) of Some l \<Rightarrow> l | None \<Rightarrow> []);
         functions = (\<lambda>s. case re_functions e nid of
             Inl err \<Rightarrow> (False, s)
           | Inr sql \<Rightarrow> if blank sql then (True, s)
               else (case load_catalog_script e (catalogFunctionScript conn) (the sql) (loaded s) of
                   (ok, l) \<Rightarrow> (ok, s\<lparr>as_catalogs := js_set (as_catalogs s) (catalog conn) l\<rparr>)))
     in case re_schema e nid of
          Inl err \<Rightarrow> (False, s)
        | Inr sql \<Rightarrow> if blank sql then functions s
            else (case load_catalog_script e (catalogRelationScript conn) (the sql) (loaded s) of
                (False, l) \<Rightarrow> (False, s\<lparr>as_catalogs := js_set (as_catalogs s) (catalog conn) l\<rparr>)
              | (True, l) \<Rightarrow> functions (s\<lparr>as_catalogs := js_set (as_catalogs s) (catalog conn) l,
                  as_connections := js_set (as_connections s) nid (conn\<lparr>catalogUpdates := (catalogUpdates conn)\<lparr>restoredAt := Some (re_now e)\<rparr>\<rparr>)\<rparr>)))"

section \<open>Scripts\<close>

text \<open>What is under way: the scripts and references so far, and whether a call threw.\<close>

type_synonym restore_scripts = "(nat, ScriptData) jsmap \<times> (string, ScriptRef) jsmap \<times> bool"

fun restore_files :: "string \<Rightarrow> OpfsScript list \<Rightarrow> (nat, ScriptData) jsmap \<Rightarrow> (string, ScriptRef) jsmap \<Rightarrow> nb_world
    \<Rightarrow> restore_scripts \<times> nb_world" where
  "restore_files k [] scripts refs w = ((scripts, refs, False), w)"
| "restore_files k (x # xs) scripts refs w =
    (let (key, w) = createScript w; scripts = js_set scripts key (empty_script_data key (os_name x) k)
     in case script_replaceText key (os_sql x) w of
          Raise w \<Rightarrow> ((scripts, refs, True), w)
        | Return _ w \<Rightarrow> restore_files k xs scripts (js_set refs (os_name x) \<lparr>rf_scriptId = key, rf_fileName = os_name x\<rparr>) w)"

fun restore_pages :: "OpfsScriptFolder list \<Rightarrow> (nat, ScriptData) jsmap \<Rightarrow> (string, ScriptFolder) jsmap \<Rightarrow> nb_world
    \<Rightarrow> ((nat, ScriptData) jsmap \<times> (string, ScriptFolder) jsmap \<times> bool) \<times> nb_world" where
  "restore_pages [] scripts folders w = ((scripts, folders, False), w)"
| "restore_pages (p # ps) scripts folders w =
    (case restore_files (of_name p) (of_scripts p) scripts [] w of
       ((scripts, refs, True), w) \<Rightarrow> ((scripts, folders, True), w)
     | ((scripts, refs, False), w) \<Rightarrow>
         restore_pages ps scripts (js_set folders (of_name p) \<lparr>pg_folderName = of_name p, pg_scripts = refs\<rparr>) w)"

definition restore_rollback :: "(nat, ScriptData) jsmap \<Rightarrow> nb_world \<Rightarrow> 'a nb" where
  "restore_rollback scripts w =
    Raise ((fold (\<lambda>d w. script_destroy (sd_script d) (destroyBuffers (sd_buffers d) w)) (map snd scripts) w)\<lparr>w_registry := []\<rparr>)"

definition first_by_locale :: "restore_env \<Rightarrow> (string, ScriptRef) jsmap \<Rightarrow> string" where
  "first_by_locale e refs = or_else (js_at (js_sort (re_localeCompare e) (object_keys refs)) 0) []"

definition restored_notebook ::
  "restore_env \<Rightarrow> string \<Rightarrow> (nat, ScriptData) jsmap \<Rightarrow> (string, ScriptFolder) jsmap \<Rightarrow> nat \<Rightarrow> NotebookState" where
  "restored_notebook e nid scripts folders uid =
    (let folder = or_else (js_at (getSortedScriptFolderNames (re_nb e) folders) 0) [];
         file = (if folder = [] then [] else (case js_get folders folder of Some p \<Rightarrow> first_by_locale e (pg_scripts p) | None \<Rightarrow> []))
     in \<lparr>nk_notebookId = nid, nk_scripts = scripts, nk_scriptFolders = folders, nk_uncommittedScriptId = uid,
         nk_scriptFocus = \<lparr>sf_folderName = folder, sf_fileName = file, sf_interactionCounter = 0\<rparr>, nk_semanticUserFocus = None\<rparr>)"

definition restoreNotebookScripts :: "restore_env \<Rightarrow> string \<Rightarrow> nb_world \<Rightarrow> NotebookState nb" where
  "restoreNotebookScripts e nid w =
    (case re_folders e nid of
       Inl err \<Rightarrow> restore_rollback [] w
     | Inr pages \<Rightarrow>
        (case restore_pages pages [] [] w of
           ((scripts, folders, True), w) \<Rightarrow> restore_rollback scripts w
         | ((scripts, folders, False), w) \<Rightarrow>
            (let folders = (if folders = [] then [(''Untitled'', \<lparr>pg_folderName = ''Untitled'', pg_scripts = []\<rparr>)] else folders);
                 ((uid, d), w) = createEmptyScriptData [] [] w; scripts = js_set scripts uid d
             in case re_draft e nid of
                  Inl err \<Rightarrow> restore_rollback scripts w
                | Inr draft \<Rightarrow>
                   (case (case draft of Some (c # cs) \<Rightarrow> script_replaceText (sd_script d) (c # cs) w | _ \<Rightarrow> Return () w) of
                      Raise w \<Rightarrow> restore_rollback scripts w
                    | Return _ w \<Rightarrow> Return (restored_notebook e nid scripts folders uid) w))))"

text \<open>What \<^verbatim>\<open>analyzeAllScripts\<close> reports to \<^verbatim>\<open>onScriptDone\<close>.\<close>

fun analysis_reports :: "nb_env \<Rightarrow> nat list \<Rightarrow> (nat, ScriptData) jsmap \<Rightarrow> nb_world \<Rightarrow> bool list" where
  "analysis_reports e [] scripts w = []"
| "analysis_reports e (k # ks) scripts w =
    (let ok = (case js_get scripts k of None \<Rightarrow> False
         | Some d \<Rightarrow> (case analyzeScriptData e scripts d w of Return _ _ \<Rightarrow> True | Raise _ \<Rightarrow> False))
     in case analyze_one e k scripts w of Return scripts w \<Rightarrow> ok # analysis_reports e ks scripts w | Raise w \<Rightarrow> [ok])"

section \<open>One notebook\<close>

datatype restore_error = Refused InvalidNotebook | RestoreFailed

text \<open>From the scripts on; \<open>p\<close> are the reports, of which those that never came count as failures.\<close>

definition restore_scripts_phase :: "restore_env \<Rightarrow> string \<Rightarrow> ConnectorInfo \<Rightarrow> app_state \<Rightarrow> app_state" where
  "restore_scripts_phase e nid info s =
    (let s = s\<lparr>as_progressScripts := addStarted 1 (as_progressScripts s)\<rparr>
     in case restoreNotebookScripts e nid (re_world e nid) of
          Raise w \<Rightarrow> s\<lparr>as_progressScripts := addFailed 1 (as_progressScripts s)\<rparr>
        | Return nb w \<Rightarrow>
           (let s = s\<lparr>as_progressScripts := addSucceeded 1 (as_progressScripts s)\<rparr>;
                keys = getScriptKeysInFeedOrder (re_nb e) nb; n = length keys;
                p = analysis_reports (re_nb e) keys (nk_scripts nb) w;
                ok = length (filter (\<lambda>b. b) p); bad = length (filter (\<lambda>b. \<not> b) p);
                c = addFailed bad (addSucceeded ok (addStarted n (addTotal n (as_progressAnalyze s))));
                (nb, w, c) = (case analyzeAllScripts (re_nb e) nb w of
                    Return nb' w' \<Rightarrow> (nb', w', c) | Raise w' \<Rightarrow> (nb, w', addFailed (n - length p) c))
            in s\<lparr>as_progressAnalyze := c, as_notebooks := js_set (as_notebooks s) nid (nb, w),
                 as_notebooksByConnection := js_set (as_notebooksByConnection s) nid nid,
                 as_notebooksByType := type_push (connectorType info) nid (as_notebooksByType s)\<rparr>))"

definition restore_connection_phase ::
  "restore_env \<Rightarrow> string \<Rightarrow> NotebookData \<Rightarrow> app_state \<Rightarrow> (ConnectorInfo \<times> ConnectionState) option \<times> app_state" where
  "restore_connection_phase e nid notebookData s =
    (case decodeConnectionFromProto e (nb_connectionParams notebookData) of
       None \<Rightarrow> (None, s)
     | Some (info, det) \<Rightarrow>
        (case restoreConnectionState e nid info det (as_signatures s) (notebook_label (nb_name notebookData)) of
           (sigs, None) \<Rightarrow> (None, s\<lparr>as_signatures := sigs\<rparr>)
         | (sigs, Some conn) \<Rightarrow> (Some (info, conn), s\<lparr>as_signatures := sigs, as_connections := js_set (as_connections s) nid conn,
             as_connectionsByType := type_push (connectorType info) nid (as_connectionsByType s),
             as_progressConnections := addSucceeded 1 (as_progressConnections s)\<rparr>)))"

definition restoreNotebookEntry :: "restore_env \<Rightarrow> NotebookEntry \<Rightarrow> app_state \<Rightarrow> restore_error option \<times> app_state" where
  "restoreNotebookEntry e item s =
    (let nid = ne_path item;
         invalid = (\<lambda>err d. case describeInvalidNotebook (re_notebookPath e nid) item err d of Some i \<Rightarrow> Refused i | None \<Rightarrow> RestoreFailed)
     in if \<not> isValidUuid nid then (Some (invalid InvalidNotebookId None), s)
        else (let s = s\<lparr>as_progressConnections := addStarted 1 (as_progressConnections s)\<rparr>
          in case re_loadNotebook e nid of
               Inl err \<Rightarrow> (Some (invalid NotebookUnreadable None), s)
             | Inr notebookData \<Rightarrow>
                (case validateNotebookData notebookData of
                   Inl (Some err) \<Rightarrow> (Some (invalid err (Some notebookData)), s)
                 | Inl None \<Rightarrow> (Some RestoreFailed, s)
                 | Inr _ \<Rightarrow>
                    (case restore_connection_phase e nid notebookData s of
                       (None, s) \<Rightarrow> (Some RestoreFailed, s)
                     | (Some (info, conn), s) \<Rightarrow>
                        (let s = s\<lparr>as_progressCatalogs := addStarted 1 (as_progressCatalogs s)\<rparr>;
                             (ok, s) = restore_catalog e nid conn s;
                             s = s\<lparr>as_progressCatalogs := (if ok then addSucceeded 1 else addFailed 1) (as_progressCatalogs s)\<rparr>
                         in (None, restore_scripts_phase e nid info s))))))"

section \<open>All notebooks\<close>

definition empty_app_state :: app_state where
  "empty_app_state = \<lparr>as_connections = [], as_connectionsByType = [[], [], [], []], as_signatures = [], as_catalogs = [],
     as_notebooks = [], as_notebooksByConnection = [], as_notebooksByType = [[], [], [], []], as_invalid = [],
     as_progressConnections = newProgressCounter, as_progressCatalogs = newProgressCounter, as_progressScripts = newProgressCounter,
     as_progressAnalyze = newProgressCounter\<rparr>"

definition count_all :: "(ProgressCounter \<Rightarrow> ProgressCounter) \<Rightarrow> app_state \<Rightarrow> app_state" where
  "count_all f s = s\<lparr>as_progressConnections := f (as_progressConnections s), as_progressCatalogs := f (as_progressCatalogs s),
     as_progressScripts := f (as_progressScripts s)\<rparr>"

definition restore_next :: "restore_env \<Rightarrow> NotebookEntry \<Rightarrow> app_state \<Rightarrow> app_state" where
  "restore_next e item s = (case restoreNotebookEntry e item s of
       (None, s) \<Rightarrow> s
     | (Some (Refused refused), s) \<Rightarrow> count_all (addSkipped 1) (s\<lparr>as_invalid := js_set (as_invalid s) (in_notebookId refused) refused\<rparr>)
     | (Some RestoreFailed, s) \<Rightarrow> count_all (addFailed 1) s)"

definition restoreAppState :: "restore_env \<Rightarrow> app_state" where
  "restoreAppState e =
    (let s = (case re_list e of
         Inl err \<Rightarrow> empty_app_state
       | Inr entries \<Rightarrow> fold (restore_next e) entries (count_all (addTotal (length entries)) empty_app_state))
     in if pc_total (as_progressAnalyze s) = None then s\<lparr>as_progressAnalyze := addTotal 0 (as_progressAnalyze s)\<rparr> else s)"

text \<open>A single notebook, into fresh maps but the shared signatures; its connection is destroyed when its scripts failed.\<close>

definition restoreSingleNotebook ::
  "restore_env \<Rightarrow> string \<Rightarrow> ConnectionSignatureMap \<Rightarrow> ConnectionSignatureMap \<times> (ConnectionState \<times> NotebookState \<times> nb_world) option" where
  "restoreSingleNotebook e nid sigs =
    (case restoreNotebookEntry e \<lparr>ne_path = nid, ne_storageType = Some opfs_type, ne_nativePath = None\<rparr> (empty_app_state\<lparr>as_signatures := sigs\<rparr>) of
       (Some err, s) \<Rightarrow> (as_signatures s, None)
     | (None, s) \<Rightarrow> (case (js_get (as_connections s) nid, js_get (as_notebooks s) nid) of
           (None, _) \<Rightarrow> (as_signatures s, None)
         | (Some conn, None) \<Rightarrow> (js_delete (as_signatures s) (signatureString (connectionSignature conn)), None)
         | (Some conn, Some nb) \<Rightarrow> (as_signatures s, Some (conn, nb))))"

end
