(* ===== verification/App_Restore_Scripts.thy ===== *)
theory App_Restore_Scripts
  imports App_Restore
begin

text \<open>The scripts that a restart reads: step by step they agree with the folders read so far, and in the end the notebook is well
  formed and agrees with the disk that the notebook before the restart agreed with.\<close>

section \<open>Under way\<close>

text \<open>\<open>F\<close> are the folders read so far, as a map, the one under way included; \<open>v\<close> is the part of the disk that was read.\<close>

definition heap_restored :: "(nat, ScriptData) jsmap \<Rightarrow> nb_world \<Rightarrow> bool" where
  "heap_restored S w \<longleftrightarrow> jsmap_ok S \<and> jsmap_ok (w_text w) \<and> live w = fst ` set S \<and> (\<forall>h \<in> live w. h < w_nextScript w) \<and> 0 < w_nextScript w \<and>
     w_catalog w = [] \<and> w_registry w = [] \<and> w_path w = []"

definition page_restored :: "(nat, ScriptData) jsmap \<Rightarrow> string \<Rightarrow> ScriptFolder \<Rightarrow> bool" where
  "page_restored S k p \<longleftrightarrow> k \<noteq> [] \<and> pg_folderName p = k \<and> jsmap_ok (pg_scripts p) \<and>
     (\<forall>f r. js_get (pg_scripts p) f = Some r \<longrightarrow> f \<noteq> [] \<and> rf_fileName r = f \<and>
        js_get S (rf_scriptId r) = Some (empty_script_data (rf_scriptId r) f k))"

definition scripts_owned :: "(nat, ScriptData) jsmap \<Rightarrow> (string \<rightharpoonup> ScriptFolder) \<Rightarrow> bool" where
  "scripts_owned S F \<longleftrightarrow> (\<forall>j d. js_get S j = Some d \<longrightarrow> (\<exists>k p f. d = empty_script_data j f k \<and> F k = Some p \<and>
        js_get (pg_scripts p) f = Some \<lparr>rf_scriptId = j, rf_fileName = f\<rparr>))"

definition restoring :: "(nat, ScriptData) jsmap \<Rightarrow> (string \<rightharpoonup> ScriptFolder) \<Rightarrow> nb_world \<Rightarrow> file_view \<Rightarrow> bool" where
  "restoring S F w v \<longleftrightarrow> heap_restored S w \<and> (\<forall>k p. F k = Some p \<longrightarrow> page_restored S k p) \<and> scripts_owned S F \<and> agrees {} (w_text w) F v"

lemma restoring_start: "fresh_world w \<Longrightarrow> restoring [] Map.empty w Map.empty"
  by (simp add: restoring_def heap_restored_def scripts_owned_def fresh_world_def live_def agrees_def)

lemma restoring_folder:
  assumes r: "restoring S F w v" and k: "F k = None" "k \<noteq> []"
  shows "restoring S (F(k \<mapsto> \<lparr>pg_folderName = k, pg_scripts = []\<rparr>)) w (v(k \<mapsto> Map.empty))"
  unfolding restoring_def
proof (intro conjI allI impI)
  let ?F = "F(k \<mapsto> \<lparr>pg_folderName = k, pg_scripts = []\<rparr>)"
  show "heap_restored S w" using r by (simp add: restoring_def)
  show "agrees {} (w_text w) ?F (v(k \<mapsto> Map.empty))"
    by (rule agrees_upd) (use r in \<open>simp_all add: restoring_def page_agrees_def\<close>)
  show "page_restored S k' p" if "?F k' = Some p" for k' p
    using that r k by (auto simp: restoring_def page_restored_def split: if_splits)
  show "scripts_owned S ?F" unfolding scripts_owned_def
  proof (intro allI impI)
    fix j d assume "js_get S j = Some d"
    with r obtain k' p f where "d = empty_script_data j f k'" "F k' = Some p" "js_get (pg_scripts p) f = Some \<lparr>rf_scriptId = j, rf_fileName = f\<rparr>"
      unfolding restoring_def scripts_owned_def by blast
    with k show "\<exists>k' p f. d = empty_script_data j f k' \<and> ?F k' = Some p \<and> js_get (pg_scripts p) f = Some \<lparr>rf_scriptId = j, rf_fileName = f\<rparr>"
      by (intro exI [of _ k'] exI [of _ p] exI [of _ f]) auto
  qed
qed

text \<open>The world after a script with a text was created.\<close>

definition with_script :: "string \<Rightarrow> nb_world \<Rightarrow> nb_world" where
  "with_script sql w = w\<lparr>w_nextScript := Suc (w_nextScript w), w_text := js_set (w_text w) (w_nextScript w) sql\<rparr>"

lemma restore_files_Cons:
  "restore_files k (x # xs) S refs w = restore_files k xs (js_set S (w_nextScript w) (empty_script_data (w_nextScript w) (os_name x) k))
     (js_set refs (os_name x) \<lparr>rf_scriptId = w_nextScript w, rf_fileName = os_name x\<rparr>) (with_script (os_sql x) w)"
  by (simp add: createScript_def script_replaceText_def with_script_def js_has_iff js_get_set Let_def)

lemma page_fresh:
  assumes "page_restored S k p" "js_get S n = None" "js_get (pg_scripts p) g = Some r"
  shows "rf_scriptId r \<noteq> n"
proof
  assume "rf_scriptId r = n"
  moreover have "js_get S (rf_scriptId r) = Some (empty_script_data (rf_scriptId r) g k)" using assms(1,3) unfolding page_restored_def by blast
  ultimately show False using assms(2) by simp
qed

lemma restoring_file:
  assumes r: "restoring S (F(k \<mapsto> \<lparr>pg_folderName = k, pg_scripts = refs\<rparr>)) w (v(k \<mapsto> m))" and f: "js_get refs f = None" "f \<noteq> []"
  shows "restoring (js_set S (w_nextScript w) (empty_script_data (w_nextScript w) f k))
      (F(k \<mapsto> \<lparr>pg_folderName = k, pg_scripts = js_set refs f \<lparr>rf_scriptId = w_nextScript w, rf_fileName = f\<rparr>\<rparr>)) (with_script sql w)
      (v(k \<mapsto> m(f \<mapsto> sql)))"
  unfolding restoring_def
proof (intro conjI allI impI)
  let ?n = "w_nextScript w" and ?F = "F(k \<mapsto> \<lparr>pg_folderName = k, pg_scripts = refs\<rparr>)" and ?w = "with_script sql w"
  let ?S = "js_set S ?n (empty_script_data ?n f k)" and ?r = "\<lparr>rf_scriptId = ?n, rf_fileName = f\<rparr>"
  let ?F' = "F(k \<mapsto> \<lparr>pg_folderName = k, pg_scripts = js_set refs f ?r\<rparr>)"
  from r have heap: "heap_restored S w" and pages: "\<And>k p. ?F k = Some p \<Longrightarrow> page_restored S k p"
    and owned: "scripts_owned S ?F" and agr: "agrees {} (w_text w) ?F (v(k \<mapsto> m))" by (simp_all add: restoring_def)
  have fresh: "?n \<notin> fst ` set S" "js_get S ?n = None" using heap keys_get_None [of S ?n] by (auto simp: heap_restored_def)
  have txts: "js_get (w_text ?w) h = (if h = ?n then Some sql else js_get (w_text w) h)" for h by (simp add: with_script_def js_get_set)
  have "live ?w = insert ?n (live w)" by (simp add: with_script_def live_def)
  then show "heap_restored ?S ?w"
    using heap by (auto simp: heap_restored_def with_script_def less_Suc_eq)
  have here: "page_restored S k \<lparr>pg_folderName = k, pg_scripts = refs\<rparr>" by (rule pages) simp
  have old: "page_restored ?S k' p" if "page_restored S k' p" for k' p
  proof -
    have "rf_scriptId r \<noteq> ?n" if "js_get (pg_scripts p) g = Some r" for g r by (rule page_fresh [OF \<open>page_restored S k' p\<close> fresh(2) that])
    with that show ?thesis by (auto simp: page_restored_def js_get_set)
  qed
  show "page_restored ?S k' p" if "?F' k' = Some p" for k' p
  proof (cases "k' = k")
    case True
    then have "p = \<lparr>pg_folderName = k, pg_scripts = js_set refs f ?r\<rparr>" using that by simp
    then show ?thesis using True old [OF here] f(2) by (simp add: page_restored_def js_get_set)
  next
    case False
    then show ?thesis using that pages old by simp
  qed
  show "scripts_owned ?S ?F'" unfolding scripts_owned_def
  proof (intro allI impI)
    fix j d assume d: "js_get ?S j = Some d"
    show "\<exists>k' p f'. d = empty_script_data j f' k' \<and> ?F' k' = Some p \<and> js_get (pg_scripts p) f' = Some \<lparr>rf_scriptId = j, rf_fileName = f'\<rparr>"
    proof (cases "j = ?n")
      case True
      then show ?thesis using d by (intro exI [of _ k] exI [of _ "\<lparr>pg_folderName = k, pg_scripts = js_set refs f ?r\<rparr>"] exI [of _ f]) (simp add: js_get_set)
    next
      case False
      then have "js_get S j = Some d" using d by (simp add: js_get_set)
      with owned obtain k' p f' where o: "d = empty_script_data j f' k'" "?F k' = Some p" "js_get (pg_scripts p) f' = Some \<lparr>rf_scriptId = j, rf_fileName = f'\<rparr>"
        unfolding scripts_owned_def by blast
      show ?thesis
      proof (cases "k' = k")
        case True
        then have "f' \<noteq> f" using o f(1) by auto
        then show ?thesis using o True
          by (intro exI [of _ k] exI [of _ "\<lparr>pg_folderName = k, pg_scripts = js_set refs f ?r\<rparr>"] exI [of _ f']) (auto simp: js_get_set)
      next
        case False
        then show ?thesis using o by (intro exI [of _ k'] exI [of _ p] exI [of _ f']) simp
      qed
    qed
  qed
  have agr': "agrees {} (w_text ?w) ?F (v(k \<mapsto> m))"
  proof (rule agrees_texts [OF agr])
    fix k' p g r assume "?F k' = Some p" "js_get (pg_scripts p) g = Some r"
    from page_fresh [OF pages [OF this(1)] fresh(2) this(2)] show "rf_scriptId r \<notin> {} \<and> js_get (w_text ?w) (rf_scriptId r) = js_get (w_text w) (rf_scriptId r)"
      by (simp add: txts)
  qed
  have "?F k = Some \<lparr>pg_folderName = k, pg_scripts = refs\<rparr>" by simp
  from agrees_page [OF agr' this] have "page_agrees {} (w_text ?w) (js_get refs) m" by auto
  then have page: "page_agrees {} (w_text ?w) (js_get (js_set refs f ?r)) (m(f \<mapsto> sql))"
    unfolding map_of_js_set by (rule page_agrees_upd) (simp add: txts)
  have "agrees {} (w_text ?w) (?F(k \<mapsto> \<lparr>pg_folderName = k, pg_scripts = js_set refs f ?r\<rparr>)) (v(k \<mapsto> m, k \<mapsto> m(f \<mapsto> sql)))"
    by (rule agrees_upd [OF agr']) (simp add: page)
  then show "agrees {} (w_text ?w) ?F' (v(k \<mapsto> m(f \<mapsto> sql)))" by simp
qed

text \<open>All files of a folder, then all folders.\<close>

lemma map_add_first: "g n = None \<Longrightarrow> m(n \<mapsto> t) ++ g = m ++ g(n \<mapsto> t)"
  by (auto simp: map_add_def fun_eq_iff split: option.splits)

lemma restoring_files:
  assumes "restoring S (F(k \<mapsto> \<lparr>pg_folderName = k, pg_scripts = refs\<rparr>)) w (v(k \<mapsto> m))" "distinct (map os_name xs)"
    "\<And>x. x \<in> set xs \<Longrightarrow> os_name x \<noteq> [] \<and> js_get refs (os_name x) = None"
  shows "\<exists>S' refs' w'. restore_files k xs S refs w = ((S', refs', False), w') \<and>
    restoring S' (F(k \<mapsto> \<lparr>pg_folderName = k, pg_scripts = refs'\<rparr>)) w' (v(k \<mapsto> m ++ scripts_map xs))"
  using assms
proof (induction xs arbitrary: S refs w m)
  case Nil
  then show ?case by (simp add: scripts_map_def)
next
  case (Cons x xs)
  have x: "js_get refs (os_name x) = None" "os_name x \<noteq> []" using Cons.prems(3) by simp_all
  note step = restoring_file [OF Cons.prems(1) x, of "os_sql x"]
  have map: "m(os_name x \<mapsto> os_sql x) ++ scripts_map xs = m ++ scripts_map (x # xs)"
  proof -
    have "scripts_map xs (os_name x) = None" using Cons.prems(2) by (force simp: scripts_map_def map_of_eq_None_iff)
    from map_add_first [of "scripts_map xs" "os_name x" m "os_sql x"] this show ?thesis by (simp add: scripts_map_def)
  qed
  have "os_name y \<noteq> [] \<and> js_get (js_set refs (os_name x) \<lparr>rf_scriptId = w_nextScript w, rf_fileName = os_name x\<rparr>) (os_name y) = None"
    if "y \<in> set xs" for y
  proof -
    have "os_name x \<notin> os_name ` set xs" using Cons.prems(2) by simp
    then have "os_name y \<noteq> os_name x" using that by (metis imageI)
    then show ?thesis using Cons.prems(3) that by (simp add: js_get_set)
  qed
  from Cons.IH [OF step _ this] Cons.prems(2) show ?case unfolding restore_files_Cons map by simp
qed

lemma restoring_pages:
  assumes "restoring S (js_get F) w v" "jsmap_ok F" "distinct_names ps"
    "\<And>p. p \<in> set ps \<Longrightarrow> of_name p \<noteq> [] \<and> js_get F (of_name p) = None"
    "\<And>p x. p \<in> set ps \<Longrightarrow> x \<in> set (of_scripts p) \<Longrightarrow> os_name x \<noteq> []"
  shows "\<exists>S' F' w'. restore_pages ps S F w = ((S', F', False), w') \<and> jsmap_ok F' \<and> restoring S' (js_get F') w' (v ++ folders_map ps)"
  using assms
proof (induction ps arbitrary: S F w v)
  case Nil
  then show ?case by (simp add: folders_map_def)
next
  case (Cons p ps)
  let ?k = "of_name p"
  have k: "js_get F ?k = None" "?k \<noteq> []" using Cons.prems(4) by simp_all
  have names: "distinct (map os_name (of_scripts p))" using Cons.prems(3) by (simp add: distinct_names_def)
  have "os_name x \<noteq> [] \<and> js_get ([] :: (string, ScriptRef) jsmap) (os_name x) = None" if "x \<in> set (of_scripts p)" for x
    using Cons.prems(5) [OF _ that] by simp
  from restoring_files [OF restoring_folder [OF Cons.prems(1) k] names this]
  obtain S1 refs w1 where files: "restore_files ?k (of_scripts p) S [] w = ((S1, refs, False), w1)"
    "restoring S1 ((js_get F)(?k \<mapsto> \<lparr>pg_folderName = ?k, pg_scripts = refs\<rparr>)) w1 (v(?k \<mapsto> Map.empty ++ scripts_map (of_scripts p)))"
    by blast
  let ?F = "js_set F ?k \<lparr>pg_folderName = ?k, pg_scripts = refs\<rparr>"
  have r: "restoring S1 (js_get ?F) w1 (v(?k \<mapsto> scripts_map (of_scripts p)))" using files(2) unfolding map_of_js_set empty_map_add .
  have map: "v(?k \<mapsto> scripts_map (of_scripts p)) ++ folders_map ps = v ++ folders_map (p # ps)"
  proof -
    have "folders_map ps ?k = None" using Cons.prems(3) by (force simp: folders_map_def distinct_names_def map_of_eq_None_iff)
    from map_add_first [of "folders_map ps" ?k v "scripts_map (of_scripts p)"] this show ?thesis by (simp add: folders_map_def)
  qed
  have rest: "distinct_names ps" using Cons.prems(3) by (simp add: distinct_names_def)
  have new: "of_name q \<noteq> [] \<and> js_get ?F (of_name q) = None" if "q \<in> set ps" for q
  proof -
    have "?k \<notin> of_name ` set ps" using Cons.prems(3) by (simp add: distinct_names_def)
    then have "of_name q \<noteq> ?k" using that by (metis imageI)
    then show ?thesis using Cons.prems(4) that by (simp add: js_get_set)
  qed
  have "os_name x \<noteq> []" if "q \<in> set ps" "x \<in> set (of_scripts q)" for q x
    using Cons.prems(5) [of q x] that by simp
  from Cons.IH [OF r jsmap_ok_set [OF Cons.prems(2)] rest new this, unfolded map] show ?case by (simp add: files(1))
qed

section \<open>The restored notebook\<close>

lemma or_else_first: "xs \<noteq> [] \<Longrightarrow> or_else (js_at xs 0) d \<in> set xs"
  by (cases xs) (simp_all add: js_at_def or_else_def)

lemma or_else_empty: "or_else (js_at [] 0) d = d"
  by (simp add: js_at_def or_else_def)

lemma restored_parts [simp]:
  "nk_notebookId (restored_notebook e nid S F uid) = nid" "nk_scripts (restored_notebook e nid S F uid) = S"
  "nk_scriptFolders (restored_notebook e nid S F uid) = F" "nk_uncommittedScriptId (restored_notebook e nid S F uid) = uid"
  by (simp_all add: restored_notebook_def Let_def)

lemma restored_focus:
  assumes "jsmap_ok F" "F \<noteq> []" "\<And>k p. js_get F k = Some p \<Longrightarrow> k \<noteq> [] \<and> jsmap_ok (pg_scripts p)"
  shows "focus_ok (restored_notebook e nid S F uid)"
proof -
  let ?k = "or_else (js_at (getSortedScriptFolderNames (re_nb e) F) 0) []"
  have "getSortedScriptFolderNames (re_nb e) F \<noteq> []" using assms(2) set_folder_names [of "re_nb e" F]
    by (metis image_is_empty list.set(1) set_empty)
  then have "?k \<in> fst ` set F" using or_else_first [of "getSortedScriptFolderNames (re_nb e) F" "[]"] by simp
  from has_key [OF this] obtain p where p: "js_get F ?k = Some p" by blast
  from assms(3) [OF p] have k: "?k \<noteq> []" "jsmap_ok (pg_scripts p)" by simp_all
  have "first_by_locale e (pg_scripts p) \<in> fst ` set (pg_scripts p)" if "pg_scripts p \<noteq> []"
  proof -
    let ?xs = "js_sort (re_localeCompare e) (object_keys (pg_scripts p))"
    have "?xs \<noteq> []" using that set_object_keys [of "pg_scripts p"] by (metis image_is_empty js_sort_Nil list.set(1) set_empty)
    then show ?thesis using or_else_first [of ?xs "[]"] by (simp add: first_by_locale_def)
  qed
  moreover have "first_by_locale e [] = []" by (simp add: first_by_locale_def or_else_empty js_sort_def object_keys_def)
  moreover have "sf_folderName (nk_scriptFocus (restored_notebook e nid S F uid)) = ?k"
    "sf_fileName (nk_scriptFocus (restored_notebook e nid S F uid)) = first_by_locale e (pg_scripts p)"
    using k(1) p by (simp_all add: restored_notebook_def Let_def)
  ultimately show ?thesis unfolding focus_ok_def by (cases "pg_scripts p = []") (simp_all add: p keys_get_None del: not_None_eq)
qed

text \<open>The world with the draft.\<close>

definition draft_text :: "string option \<Rightarrow> string" where
  "draft_text draft = (case draft of Some t \<Rightarrow> t | None \<Rightarrow> [])"

lemma skel_empty [simp]: "skel (empty_script_data j f k) = (j, j, k, f)"
  by (simp add: skel_def empty_script_data_def)

lemma script_handle: "sd_script (empty_script_data j f k) = j"
  by (simp add: empty_script_data_def)

lemma restored_paths:
  assumes r: "restoring S (js_get F) w v" and uid: "uid = w_nextScript w"
  shows "paths_ok F (js_set S uid (empty_script_data uid [] [])) uid"
proof -
  let ?S = "js_set S uid (empty_script_data uid [] [])"
  have heap: "heap_restored S w" and pages: "\<And>k p. js_get F k = Some p \<Longrightarrow> page_restored S k p" and owned: "scripts_owned S (js_get F)"
    using r by (simp_all add: restoring_def)
  have fresh: "js_get S uid = None" using heap keys_get_None [of S uid] by (auto simp: heap_restored_def uid)
  have skel: "skel_of ?S j = (if j = uid then Some (uid, uid, [], []) else map_option skel (js_get S j))" for j
    by (simp add: skel_of_def js_get_set)
  have entries: "f \<noteq> [] \<and> rf_fileName r = f \<and> (\<exists>a b. skel_of ?S (rf_scriptId r) = Some (a, b, k, f))" if e: "entry F k f r" for k f r
  proof -
    from e obtain p where p: "js_get F k = Some p" "js_get (pg_scripts p) f = Some r" by (auto simp: entry_def)
    note ok = pages [OF p(1)]
    from ok p(2) have "f \<noteq> []" "rf_fileName r = f" "js_get S (rf_scriptId r) = Some (empty_script_data (rf_scriptId r) f k)"
      unfolding page_restored_def by blast+
    moreover have "rf_scriptId r \<noteq> uid" by (rule page_fresh [OF ok fresh p(2)])
    ultimately show ?thesis by (simp add: skel)
  qed
  have scripts: "a = j \<and> b = j \<and> (j = uid \<longrightarrow> k = [] \<and> f = []) \<and> (j \<noteq> uid \<longrightarrow> (\<exists>r. entry F k f r \<and> rf_scriptId r = j))"
    if s: "skel_of ?S j = Some (a, b, k, f)" for j a b k f
  proof (cases "j = uid")
    case False
    with s obtain d where d: "js_get S j = Some d" "skel d = (a, b, k, f)" by (auto simp: skel)
    with owned obtain k' p f' where o: "d = empty_script_data j f' k'" "js_get F k' = Some p" "js_get (pg_scripts p) f' = Some \<lparr>rf_scriptId = j, rf_fileName = f'\<rparr>"
      unfolding scripts_owned_def by blast
    then have "a = j" "b = j" "k = k'" "f = f'" using d(2) by simp_all
    with o False show ?thesis by (auto simp: entry_def)
  qed (use s in \<open>simp add: skel\<close>)
  have "skel_of ?S uid \<noteq> None" by (simp add: skel)
  moreover have "uid \<noteq> 0" using heap by (simp add: heap_restored_def uid)
  ultimately show ?thesis using entries scripts unfolding paths_ok_def by blast
qed

lemma scripts_restored:
  assumes "fresh_world w" "re_folders e nid = Inr ps" "re_draft e nid = Inr draft" "distinct_names ps" "ps \<noteq> []"
    "\<forall>p \<in> set ps. of_name p \<noteq> [] \<and> (\<forall>x \<in> set (of_scripts p). os_name x \<noteq> [])"
  shows "\<exists>s w'. restoreNotebookScripts e nid w = Return s w' \<and> nk_notebookId s = nid \<and> jsmap_ok (nk_scripts s) \<and> folders_ok (nk_scriptFolders s) \<and>
    paths_ok (nk_scriptFolders s) (nk_scripts s) (nk_uncommittedScriptId s) \<and> focus_ok s \<and> heap_ok s w' \<and>
    agrees {} (w_text w') (js_get (nk_scriptFolders s)) (folders_map ps) \<and>
    js_get (w_text w') (nk_uncommittedScriptId s) = Some (draft_text draft)"
proof -
  have "of_name p \<noteq> [] \<and> js_get ([] :: (string, ScriptFolder) jsmap) (of_name p) = None" if "p \<in> set ps" for p using assms(6) that by simp
  moreover have "os_name x \<noteq> []" if "p \<in> set ps" "x \<in> set (of_scripts p)" for p x using assms(6) that by blast
  moreover have "restoring [] (js_get []) w Map.empty" using restoring_start [OF assms(1)] by simp
  ultimately have "\<exists>S' F' w'. restore_pages ps [] [] w = ((S', F', False), w') \<and> jsmap_ok F' \<and> restoring S' (js_get F') w' (Map.empty ++ folders_map ps)"
    by (intro restoring_pages [OF _ jsmap_ok_Nil assms(4)])
  then obtain S F w1 where run: "restore_pages ps [] [] w = ((S, F, False), w1)" and F: "jsmap_ok F" and r: "restoring S (js_get F) w1 (folders_map ps)"
    by auto
  let ?uid = "w_nextScript w1"
  let ?S = "js_set S ?uid (empty_script_data ?uid [] [])"
  have heap: "heap_restored S w1" and agr: "agrees {} (w_text w1) (js_get F) (folders_map ps)" and pages: "\<And>k p. js_get F k = Some p \<Longrightarrow> page_restored S k p"
    using r by (simp_all add: restoring_def)
  have page_ok: "k \<noteq> [] \<and> pg_folderName p = k \<and> jsmap_ok (pg_scripts p)" if "js_get F k = Some p" for k p
    using pages [OF that] by (simp add: page_restored_def)
  have "F \<noteq> []"
  proof
    assume "F = []"
    then have "folders_map ps (of_name (hd ps)) = None" using agrees_dom [OF agr, of "of_name (hd ps)"] by simp
    then show False using assms(5) by (cases ps) (simp_all add: folders_map_def)
  qed
  let ?w = "\<lambda>t. w1\<lparr>w_nextScript := Suc ?uid, w_text := js_set (w_text w1) ?uid t\<rparr>"
  let ?s = "restored_notebook e nid ?S F ?uid"
  have run': "restoreNotebookScripts e nid w = Return ?s (?w (draft_text draft))"
    using \<open>F \<noteq> []\<close>
    by (auto simp: restoreNotebookScripts_def assms(2,3) run createEmptyScriptData_def createScript_def script_replaceText_def draft_text_def
        js_get_set script_handle Let_def split: option.splits list.splits)
  have live': "live (?w t) = insert ?uid (live w1)" for t by (simp add: live_def)
  have heap': "heap_ok ?s (?w t)" for t
    using heap live' [of t] by (auto simp: heap_ok_def heap_restored_def less_Suc_eq)
  have fresh: "js_get S ?uid = None" using heap keys_get_None [of S ?uid] by (auto simp: heap_restored_def)
  have agr': "agrees {} (w_text (?w t)) (js_get F) (folders_map ps)" for t
  proof (rule agrees_texts [OF agr])
    fix k p f r assume "js_get F k = Some p" "js_get (pg_scripts p) f = Some r"
    from page_fresh [OF pages [OF this(1)] fresh this(2)]
    show "rf_scriptId r \<notin> {} \<and> js_get (w_text (?w t)) (rf_scriptId r) = js_get (w_text w1) (rf_scriptId r)" by (simp add: js_get_set)
  qed
  have focus: "focus_ok ?s" by (rule restored_focus [OF F \<open>F \<noteq> []\<close>]) (use page_ok in blast)
  have "folders_ok F" using F \<open>F \<noteq> []\<close> page_ok by (simp add: folders_ok_def)
  then show ?thesis
    using run' heap' agr' focus restored_paths [OF r refl] heap
    by (intro exI [of _ ?s] exI [of _ "?w (draft_text draft)"]) (simp add: heap_restored_def js_get_set)
qed

end
