(* ===== verification/App_Restore_Properties.thy ===== *)
theory App_Restore_Properties
  imports App_Restore_Scripts Opfs_Properties
begin

text \<open>The properties of the restoration at start: a restart reads a notebook back as it was left, each notebook is restored on its
  own merits, and the counters of the progress come out even.\<close>

section \<open>The analysis of all scripts\<close>

lemma analyze_one_kept:
  assumes "core_accepts (e_core e)" "jsmap_ok scripts" "scripts_live scripts w"
  shows "\<exists>scripts' w'. analyze_one e k scripts w = Return scripts' w' \<and> did [] w w' \<and> skel_of scripts' = skel_of scripts \<and>
    jsmap_ok scripts' \<and> scripts_live scripts' w'"
proof (cases "js_get scripts k")
  case (Some d)
  then have d: "sd_script d \<in> live w" using assms(3) by (auto simp: scripts_live_def)
  from analyzeScriptData_returns [OF assms(1) d assms(3)] obtain d' w' where run: "analyzeScriptData e scripts d w = Return d' w'" by blast
  note fr = analyzeScriptData_frame [OF run]
  have q: "did [] w w'" using fr quiet_did by blast
  have sk: "skel d' = skel d" using fr by simp
  then have script: "sd_script d' = sd_script d" by (simp add: skel_def)
  have "scripts_live (js_set scripts k d') w'"
    using assms(3) d script did_live [OF q] by (auto simp: scripts_live_def js_get_set)
  moreover have "skel_of (js_set scripts k d') = skel_of scripts" using sk Some by (auto simp: skel_of_def js_get_set fun_eq_iff)
  ultimately show ?thesis using q assms(2) by (simp add: analyze_one_def Some run)
qed (use assms in \<open>simp add: analyze_one_def\<close>)

lemma analyze_fold_kept:
  assumes "core_accepts (e_core e)" "jsmap_ok scripts" "scripts_live scripts w"
  shows "\<exists>scripts' w'. nb_fold (analyze_one e) ks scripts w = Return scripts' w' \<and> did [] w w' \<and> skel_of scripts' = skel_of scripts \<and>
    jsmap_ok scripts' \<and> scripts_live scripts' w'"
  using assms(2,3)
proof (induction ks arbitrary: scripts w)
  case (Cons k ks)
  from analyze_one_kept [OF assms(1) Cons.prems, of k] obtain s1 w1 where one: "analyze_one e k scripts w = Return s1 w1" "did [] w w1"
    "skel_of s1 = skel_of scripts" "jsmap_ok s1" "scripts_live s1 w1" by blast
  from Cons.IH [OF one(4,5)] obtain s2 w2 where rest: "nb_fold (analyze_one e) ks s1 w1 = Return s2 w2" "did [] w1 w2"
    "skel_of s2 = skel_of s1" "jsmap_ok s2" "scripts_live s2 w2" by blast
  have "did [] w w2" using did_trans [OF one(2) rest(2)] by simp
  then show ?case using one rest by simp
qed simp

lemma analyze_all_kept:
  assumes inv: "nb_inv s w" and acc: "core_accepts (e_core e)"
  shows "\<exists>s' w'. analyzeAllScripts e s w = Return s' w' \<and> did [] w w' \<and> nb_inv s' w' \<and> nk_scriptFolders s' = nk_scriptFolders s \<and>
    nk_uncommittedScriptId s' = nk_uncommittedScriptId s"
proof -
  have "jsmap_ok (nk_scripts s)" using inv by (simp add: nb_inv_iff)
  from analyze_fold_kept [OF acc this nb_inv_scripts_live [OF inv]] obtain S w' where
    run: "nb_fold (analyze_one e) (getScriptKeysInFeedOrder e s) (nk_scripts s) w = Return S w'" "did [] w w'" "skel_of S = skel_of (nk_scripts s)" "jsmap_ok S"
    by blast
  let ?s = "s\<lparr>nk_scripts := S\<rparr>"
  have "focus_ok ?s = focus_ok s" by (simp add: focus_ok_def split: option.split)
  then have "focus_ok ?s" using inv by (simp add: nb_inv_iff)
  then have "nb_inv ?s w'" using nb_inv_skel [OF inv did_heap [OF run(2)], of ?s] run(3,4) by simp
  then show ?thesis using run by (simp add: analyzeAllScripts_def)
qed

section \<open>Restart\<close>

text \<open>The texts of a notebook by folder and file.\<close>

definition texts_of :: "NotebookState \<Rightarrow> nb_world \<Rightarrow> file_view" where
  "texts_of s w k = map_option (\<lambda>p f. Option.bind (js_get (pg_scripts p) f) (\<lambda>r. js_get (w_text w) (rf_scriptId r))) (js_get (nk_scriptFolders s) k)"

definition draft_of :: "NotebookState \<Rightarrow> nb_world \<Rightarrow> string option" where
  "draft_of s w = js_get (w_text w) (nk_uncommittedScriptId s)"

lemma persisted_texts:
  assumes "persisted {} s w st"
  shows "texts_of s w = view st" "draft_of s w = Some (st_draft st)"
proof -
  have agr: "agrees {} (w_text w) (js_get (nk_scriptFolders s)) (view st)" using assms by (simp add: persisted_def)
  show "texts_of s w = view st"
  proof (rule ext)
    fix k
    have "rel_option (\<lambda>p m. page_agrees {} (w_text w) (js_get (pg_scripts p)) m) (js_get (nk_scriptFolders s) k) (view st k)"
      using agr by (simp add: agrees_def)
    then show "texts_of s w k = view st k"
    proof (cases rule: option.rel_cases)
      case (Some p m)
      have "Option.bind (js_get (pg_scripts p) f) (\<lambda>r. js_get (w_text w) (rf_scriptId r)) = m f" for f
      proof -
        have "rel_option (\<lambda>r t. js_get (w_text w) (rf_scriptId r) = Some t) (js_get (pg_scripts p) f) (m f)"
          using Some(3) by (simp add: page_agrees_def)
        then show ?thesis by (cases rule: option.rel_cases) simp_all
      qed
      then have "(\<lambda>f. Option.bind (js_get (pg_scripts p) f) (\<lambda>r. js_get (w_text w) (rf_scriptId r))) = m" by (rule ext)
      then show ?thesis by (simp only: texts_of_def Some(1,2) option.map)
    qed (simp add: texts_of_def)
  qed
  show "draft_of s w = Some (st_draft st)" using assms by (simp add: persisted_def draft_of_def)
qed

lemma same_keys:
  assumes "\<And>k. js_get m k = None \<longleftrightarrow> js_get m' k = None"
  shows "fst ` set m = fst ` set m'"
proof (rule set_eqI)
  fix k
  show "k \<in> fst ` set m \<longleftrightarrow> k \<in> fst ` set m'" using assms [of k] by (simp only: keys_get_None not_not simp_thms not_iff)
qed

lemma names_by_view:
  assumes "names_ok F" "agrees {} T (js_get F) v" "agrees {} T' (js_get F') v"
  shows "names_ok F'"
proof -
  have dom: "js_get F' k = None \<longleftrightarrow> js_get F k = None" for k using agrees_dom [OF assms(2), of k] agrees_dom [OF assms(3), of k] by simp
  have "page_names_ok (pg_scripts p')" if p': "js_get F' k = Some p'" for k p'
  proof -
    from dom [of k] p' obtain p where p: "js_get F k = Some p" by fastforce
    from agrees_page [OF assms(2) p] obtain m where m: "v k = Some m" "page_agrees {} T (js_get (pg_scripts p)) m" by blast
    from agrees_page [OF assms(3) p'] m(1) have m': "page_agrees {} T' (js_get (pg_scripts p')) m" by auto
    have "js_get (pg_scripts p') f = None \<longleftrightarrow> js_get (pg_scripts p) f = None" for f
      using page_agrees_dom [OF m(2), of f] page_agrees_dom [OF m', of f] by simp
    then have "fst ` set (pg_scripts p') = fst ` set (pg_scripts p)" by (rule same_keys)
    moreover have "page_names_ok (pg_scripts p)" using assms(1) p unfolding names_ok_def by blast
    ultimately show ?thesis by (simp add: page_names_ok_def)
  qed
  moreover have "fst ` set F' = fst ` set F" using dom by (rule same_keys)
  ultimately show ?thesis using assms(1) unfolding names_ok_def by simp
qed

lemma shown_folder:
  assumes "distinct_names ps" "p \<in> set ps"
  shows "folders_map ps (of_name p) = Some (scripts_map (of_scripts p))"
    "x \<in> set (of_scripts p) \<Longrightarrow> scripts_map (of_scripts p) (os_name x) = Some (os_sql x)"
proof -
  have "distinct (map fst (map (\<lambda>x. (of_name x, scripts_map (of_scripts x))) ps))" using assms(1) by (simp add: distinct_names_def comp_def)
  then show "folders_map ps (of_name p) = Some (scripts_map (of_scripts p))"
    unfolding folders_map_def by (rule map_of_is_SomeI) (use assms(2) in auto)
  assume x: "x \<in> set (of_scripts p)"
  have "distinct (map fst (map (\<lambda>x. (os_name x, os_sql x)) (of_scripts p)))" using assms by (simp add: distinct_names_def comp_def)
  then show "scripts_map (of_scripts p) (os_name x) = Some (os_sql x)"
    unfolding scripts_map_def by (rule map_of_is_SomeI) (use x in auto)
qed

lemma first_folder:
  assumes "folders_ok F"
  shows "\<exists>k p. js_get F k = Some p"
proof -
  from assms obtain k p G where "F = (k, p) # G" unfolding folders_ok_def by (metis list.exhaust surj_pair)
  then have "js_get F k = Some p" by simp
  then show ?thesis by blast
qed

lemma restart_scripts:
  assumes inv: "nb_inv s w" and disk: "persisted {} s w st"
    and files: "oe_ready b" "valid_name nid" "holds_scripts nid fs st" "(\<lambda>k. map_option readable (view st k)) = view st"
    and reads: "re_folders e nid = map_sum (\<lambda>_. ()) id (fst (loadScriptFolders b nid fs))" "re_draft e nid = map_sum (\<lambda>_. ()) id (fst (loadScriptDraft b nid fs))"
    and fresh: "fresh_world w0"
  shows "\<exists>s' w'. restoreNotebookScripts e nid w0 = Return s' w' \<and> nb_inv s' w' \<and> persisted {} s' w' st \<and> nk_notebookId s' = nid"
proof -
  have agr: "agrees {} (w_text w) (js_get (nk_scriptFolders s)) (view st)" using disk by (simp add: persisted_def)
  have ok: "folders_ok (nk_scriptFolders s)" "paths_ok (nk_scriptFolders s) (nk_scripts s) (nk_uncommittedScriptId s)" "names_ok (nk_scriptFolders s)"
    using inv by (simp_all add: nb_inv_iff)
  from ok(1) obtain k0 p0 where k0: "js_get (nk_scriptFolders s) k0 = Some p0"
    using first_folder by blast
  then have v0: "view st k0 \<noteq> None" using agrees_dom [OF agr, of k0] by simp
  from folders_read [OF files(1-3) v0] obtain ps where ps: "loadScriptFolders b nid fs = (Inr ps, fs)"
    "folders_map ps = (\<lambda>k. map_option readable (view st k))" "distinct_names ps" by blast
  from draft_read [OF files(1-3) v0] obtain d where d: "loadScriptDraft b nid fs = (Inr d, fs)" "draft_text d = st_draft st"
    by (auto simp: draft_text_def)
  have map: "folders_map ps = view st" by (simp only: ps(2) files(4))
  have folder: "\<exists>q m. js_get (nk_scriptFolders s) (of_name p) = Some q \<and> view st (of_name p) = Some m \<and> m = scripts_map (of_scripts p) \<and>
      page_agrees {} (w_text w) (js_get (pg_scripts q)) m" if p: "p \<in> set ps" for p
  proof -
    have m: "view st (of_name p) = Some (scripts_map (of_scripts p))" using shown_folder(1) [OF ps(3) p] by (simp add: map)
    then obtain q where q: "js_get (nk_scriptFolders s) (of_name p) = Some q" using agrees_dom [OF agr, of "of_name p"] by fastforce
    from agrees_page [OF agr q] m show ?thesis using q by auto
  qed
  have names: "\<And>p. p \<in> set ps \<Longrightarrow> of_name p \<noteq> []" using folder ok(1) by (auto simp: folders_ok_def)
  have file_names: "\<And>p x. p \<in> set ps \<Longrightarrow> x \<in> set (of_scripts p) \<Longrightarrow> os_name x \<noteq> []"
  proof -
    fix p x assume p: "p \<in> set ps" "x \<in> set (of_scripts p)"
    from folder [OF p(1)] obtain q where q: "js_get (nk_scriptFolders s) (of_name p) = Some q"
      "page_agrees {} (w_text w) (js_get (pg_scripts q)) (scripts_map (of_scripts p))" by blast
    from shown_folder(2) [OF ps(3) p] page_agrees_dom [OF q(2), of "os_name x"] obtain r where "js_get (pg_scripts q) (os_name x) = Some r" by fastforce
    with q(1) have "entry (nk_scriptFolders s) (of_name p) (os_name x) r" by (auto simp: entry_def)
    with ok(2) show "os_name x \<noteq> []" unfolding paths_ok_def by blast
  qed
  have "folders_map ps k0 \<noteq> None" using v0 by (simp add: map)
  then have some: "ps \<noteq> []" by (auto simp: folders_map_def)
  have e: "re_folders e nid = Inr ps" "re_draft e nid = Inr d" by (simp_all add: reads ps(1) d(1))
  have all: "\<forall>p \<in> set ps. of_name p \<noteq> [] \<and> (\<forall>x \<in> set (of_scripts p). os_name x \<noteq> [])" using names file_names by blast
  from scripts_restored [OF fresh e ps(3) some all] obtain s' w' where r: "restoreNotebookScripts e nid w0 = Return s' w'" "nk_notebookId s' = nid"
    "jsmap_ok (nk_scripts s')" "folders_ok (nk_scriptFolders s')" "paths_ok (nk_scriptFolders s') (nk_scripts s') (nk_uncommittedScriptId s')"
    "focus_ok s'" "heap_ok s' w'" "agrees {} (w_text w') (js_get (nk_scriptFolders s')) (folders_map ps)"
    "js_get (w_text w') (nk_uncommittedScriptId s') = Some (draft_text d)" by blast
  have agr': "agrees {} (w_text w') (js_get (nk_scriptFolders s')) (view st)" using r(8) by (simp add: map)
  have "nb_inv s' w'" using r names_by_view [OF ok(3) agr agr'] by (simp add: nb_inv_iff)
  moreover have "persisted {} s' w' st" using agr' r(9) d(2) by (simp add: persisted_def)
  ultimately show ?thesis using r(1,2) by blast
qed

section \<open>The counters\<close>

definition finished :: "ProgressCounter \<Rightarrow> nat" where
  "finished c = pc_succeeded c + pc_skipped c + pc_failed c"

definition analysis_even :: "ProgressCounter \<Rightarrow> bool" where
  "analysis_even c \<longleftrightarrow> (case pc_total c of None \<Rightarrow> 0 | Some t \<Rightarrow> t) = pc_started c \<and> finished c = pc_started c"

lemmas counter_defs = addStarted_def addSucceeded_def addSkipped_def addFailed_def addTotal_def newProgressCounter_def finished_def analysis_even_def

lemma filter_split: "length (filter P xs) + length (filter (\<lambda>x. \<not> P x) xs) = length xs"
  by (induction xs) simp_all

lemma analysis_reports_le: "length (analysis_reports e ks scripts w) \<le> length ks"
proof (induction ks arbitrary: scripts w)
  case (Cons k ks)
  then show ?case by (cases "analyze_one e k scripts w") (simp_all add: Let_def)
qed simp

lemma analysis_reports_all:
  "nb_fold (analyze_one e) ks scripts w = Return scripts' w' \<Longrightarrow> length (analysis_reports e ks scripts w) = length ks"
proof (induction ks arbitrary: scripts w)
  case (Cons k ks)
  then show ?case by (cases "analyze_one e k scripts w") (simp_all add: Let_def)
qed simp

lemma reports_complete:
  "analyzeAllScripts e s w = Return s' w' \<Longrightarrow> length (analysis_reports e (getScriptKeysInFeedOrder e s) (nk_scripts s) w) = length (getScriptKeysInFeedOrder e s)"
  by (cases "nb_fold (analyze_one e) (getScriptKeysInFeedOrder e s) (nk_scripts s) w") (auto simp: analyzeAllScripts_def dest: analysis_reports_all)

text \<open>The four counters as (finished, total) and the evenness of the analysis.\<close>

definition tallies :: "app_state \<Rightarrow> (nat \<times> nat option) list" where
  "tallies s = map (\<lambda>c. (finished c, pc_total c)) [as_progressConnections s, as_progressCatalogs s, as_progressScripts s]"

lemma scripts_phase_counts:
  "as_progressConnections (restore_scripts_phase e nid info s) = as_progressConnections s"
  "as_progressCatalogs (restore_scripts_phase e nid info s) = as_progressCatalogs s"
  "finished (as_progressScripts (restore_scripts_phase e nid info s)) = Suc (finished (as_progressScripts s))"
  "pc_total (as_progressScripts (restore_scripts_phase e nid info s)) = pc_total (as_progressScripts s)"
  by (cases "restoreNotebookScripts e nid (re_world e nid)"; simp add: restore_scripts_phase_def Let_def counter_defs split: prod.split)+

lemma scripts_phase_even:
  assumes "analysis_even (as_progressAnalyze s)"
  shows "analysis_even (as_progressAnalyze (restore_scripts_phase e nid info s))"
proof (cases "restoreNotebookScripts e nid (re_world e nid)")
  case (Return nb w)
  let ?ks = "getScriptKeysInFeedOrder (re_nb e) nb"
  let ?p = "analysis_reports (re_nb e) ?ks (nk_scripts nb) w"
  have split: "length (filter (\<lambda>b. b) ?p) + length (filter (\<lambda>b. \<not> b) ?p) = length ?p" by (rule filter_split)
  show ?thesis
  proof (cases "analyzeAllScripts (re_nb e) nb w")
    case (Return nb' w')
    with assms split reports_complete [OF Return] show ?thesis
      by (simp add: restore_scripts_phase_def \<open>restoreNotebookScripts e nid (re_world e nid) = Return nb w\<close> Let_def counter_defs split: option.splits)
  next
    case (Raise w')
    with assms split analysis_reports_le [of "re_nb e" ?ks "nk_scripts nb" w] show ?thesis
      by (auto simp: restore_scripts_phase_def Return Let_def counter_defs split: option.splits)
  qed
qed (use assms in \<open>simp add: restore_scripts_phase_def Let_def\<close>)

text \<open>Of each notebook exactly one end is counted, in each of the three counters.\<close>

lemma connection_phase_counts:
  assumes "restore_connection_phase e nid d s = (r, s')"
  shows "as_progressCatalogs s' = as_progressCatalogs s" "as_progressScripts s' = as_progressScripts s" "as_progressAnalyze s' = as_progressAnalyze s"
    "as_progressConnections s' = (if r = None then id else addSucceeded 1) (as_progressConnections s)"
  using assms by (auto simp: restore_connection_phase_def split: option.splits prod.splits)

lemma restore_catalog_counts:
  assumes "restore_catalog e nid conn s = (ok, s')"
  shows "as_progressConnections s' = as_progressConnections s" "as_progressCatalogs s' = as_progressCatalogs s"
    "as_progressScripts s' = as_progressScripts s" "as_progressAnalyze s' = as_progressAnalyze s"
  using assms by (auto simp: restore_catalog_def Let_def split: sum.splits prod.splits if_splits bool.splits)

definition counted :: "nat \<Rightarrow> app_state \<Rightarrow> app_state \<Rightarrow> bool" where
  "counted n s s' \<longleftrightarrow> tallies s' = map (\<lambda>(f, t). (f + n, t)) (tallies s) \<and>
     (analysis_even (as_progressAnalyze s) \<longrightarrow> analysis_even (as_progressAnalyze s'))"

lemma entry_counts:
  assumes "restoreNotebookEntry e item s = (r, s')"
  shows "counted (if r = None then 1 else 0) s s'"
proof (cases "isValidUuid (ne_path item)")
  case valid: True
  let ?nid = "ne_path item"
  let ?s = "s\<lparr>as_progressConnections := addStarted 1 (as_progressConnections s)\<rparr>"
  have started: "counted 0 s ?s" by (simp add: counted_def tallies_def counter_defs)
  show ?thesis
  proof (cases "r = None")
    case True
    with assms valid obtain d info conn s1 where d: "re_loadNotebook e ?nid = Inr d" "validateNotebookData d = Inr ()"
      "restore_connection_phase e ?nid d ?s = (Some (info, conn), s1)"
      by (auto simp: restoreNotebookEntry_def Let_def split: sum.splits option.splits prod.splits)
    let ?s1 = "s1\<lparr>as_progressCatalogs := addStarted 1 (as_progressCatalogs s1)\<rparr>"
    obtain ok s2 where c: "restore_catalog e ?nid conn ?s1 = (ok, s2)" by fastforce
    let ?s2 = "s2\<lparr>as_progressCatalogs := (if ok then addSucceeded 1 else addFailed 1) (as_progressCatalogs s2)\<rparr>"
    have s': "s' = restore_scripts_phase e ?nid info ?s2" using assms valid d c by (simp add: restoreNotebookEntry_def Let_def)
    note conn = connection_phase_counts [OF d(3)] and cat = restore_catalog_counts [OF c]
    have "analysis_even (as_progressAnalyze s')" if "analysis_even (as_progressAnalyze s)"
      unfolding s' by (rule scripts_phase_even) (use that conn cat in simp)
    then show ?thesis using True conn cat by (simp add: counted_def s' tallies_def scripts_phase_counts) (simp add: counter_defs)
  next
    case False
    with assms valid consider "s' = ?s" | d s1 where "restore_connection_phase e ?nid d ?s = (None, s1)" "s' = s1"
      by (auto simp: restoreNotebookEntry_def Let_def split: sum.splits option.splits prod.splits)
    then show ?thesis
    proof cases
      case (2 d s1)
      note conn = connection_phase_counts [OF 2(1)]
      show ?thesis using started False conn by (simp add: counted_def 2(2) tallies_def)
    qed (use started False in auto)
  qed
qed (use assms in \<open>auto simp: restoreNotebookEntry_def Let_def counted_def tallies_def\<close>)

lemma next_counts: "counted 1 s (restore_next e item s)"
proof -
  obtain r s' where run: "restoreNotebookEntry e item s = (r, s')" by fastforce
  note counts = entry_counts [OF run]
  show ?thesis
  proof (cases r)
    case (Some err)
    with counts show ?thesis by (cases err) (simp_all add: restore_next_def run counted_def tallies_def count_all_def counter_defs)
  qed (use counts in \<open>simp add: restore_next_def run\<close>)
qed

lemma all_counts: "counted (length items) s (fold (restore_next e) items s)"
proof (induction items arbitrary: s)
  case (Cons item items)
  from Cons.IH [of "restore_next e item s"] next_counts [of s e item] show ?case by (auto simp: counted_def comp_def case_prod_beta)
qed (simp add: counted_def)

section \<open>Each on its own\<close>

text \<open>What becomes of a notebook, from its own files and answers alone.\<close>

definition loaded_data :: "restore_env \<Rightarrow> string \<Rightarrow> NotebookData option" where
  "loaded_data e nid = (if \<not> isValidUuid nid then None else case re_loadNotebook e nid of
     Inl err \<Rightarrow> None | Inr d \<Rightarrow> if validateNotebookData d = Inr () then Some d else None)"

definition connects :: "restore_env \<Rightarrow> string \<Rightarrow> bool" where
  "connects e nid \<longleftrightarrow> loaded_data e nid \<noteq> None \<and> re_catalogHandles e nid \<noteq> None"

definition refusal :: "restore_env \<Rightarrow> NotebookEntry \<Rightarrow> InvalidNotebook option" where
  "refusal e item = (let invalid = describeInvalidNotebook (re_notebookPath e (ne_path item)) item
     in if \<not> isValidUuid (ne_path item) then invalid InvalidNotebookId None
        else case re_loadNotebook e (ne_path item) of
            Inl err \<Rightarrow> invalid NotebookUnreadable None
          | Inr d \<Rightarrow> (case validateNotebookData d of Inl (Some err) \<Rightarrow> invalid err (Some d) | _ \<Rightarrow> None))"

definition scripts_alone :: "restore_env \<Rightarrow> string \<Rightarrow> (NotebookState \<times> nb_world) option" where
  "scripts_alone e nid = (case restoreNotebookScripts e nid (re_world e nid) of
       Raise w \<Rightarrow> None
     | Return nb w \<Rightarrow> Some (case analyzeAllScripts (re_nb e) nb w of Return nb' w' \<Rightarrow> (nb', w') | Raise w' \<Rightarrow> (nb, w')))"

text \<open>The signature of a connection is picked from the map that all notebooks share, so that two equal set-ups differ in it; all
  other fields of the restored connection are compared.\<close>

definition unsigned :: "ConnectionState \<Rightarrow> ConnectionState" where
  "unsigned c = c\<lparr>connectionSignature := \<lparr>sig_hash = new_hasher 0 False, signatureString = []\<rparr>\<rparr>"

definition fresh_connection :: "restore_env \<Rightarrow> string \<Rightarrow> NotebookData \<Rightarrow> ConnectionState option" where
  "fresh_connection e nid d = (case decodeConnectionFromProto e (nb_connectionParams d) of
       None \<Rightarrow> None
     | Some (info, det) \<Rightarrow> map_option unsigned (snd (restoreConnectionState e nid info det [] (notebook_label (nb_name d)))))"

definition catalog_restored :: "restore_env \<Rightarrow> string \<Rightarrow> ConnectionState \<Rightarrow> bool" where
  "catalog_restored e nid c \<longleftrightarrow> (case re_schema e nid of Inl err \<Rightarrow> False
     | Inr sql \<Rightarrow> \<not> blank sql \<and> fst (load_catalog_script e (catalogRelationScript c) (the sql) []))"

definition stamped :: "restore_env \<Rightarrow> string \<Rightarrow> ConnectionState \<Rightarrow> ConnectionState" where
  "stamped e nid c = (if catalog_restored e nid c then c\<lparr>catalogUpdates := (catalogUpdates c)\<lparr>restoredAt := Some (re_now e)\<rparr>\<rparr> else c)"

definition connection_alone :: "restore_env \<Rightarrow> string \<Rightarrow> ConnectionState option" where
  "connection_alone e nid = (case loaded_data e nid of None \<Rightarrow> None | Some d \<Rightarrow> map_option (stamped e nid) (fresh_connection e nid d))"

type_synonym outcome = "ConnectionState option \<times> (NotebookState \<times> nb_world) option \<times> InvalidNotebook option"

definition outcome_alone :: "restore_env \<Rightarrow> NotebookEntry \<Rightarrow> outcome" where
  "outcome_alone e item = (connection_alone e (ne_path item),
     if connects e (ne_path item) then scripts_alone e (ne_path item) else None, refusal e item)"

definition outcome_in :: "app_state \<Rightarrow> string \<Rightarrow> outcome" where
  "outcome_in s nid = (map_option unsigned (js_get (as_connections s) nid), js_get (as_notebooks s) nid, js_get (as_invalid s) nid)"

lemma validated_decodes: "validateNotebookData d = Inr () \<Longrightarrow> decodeConnectionFromProto e (nb_connectionParams d) \<noteq> None"
  by (auto simp: validateNotebookData_def param_keys_def getConnectorInfoForParams_def decodeConnectionFromProto_def Let_def
      split: if_splits option.splits)

lemma scripts_phase_outcome:
  "outcome_in (restore_scripts_phase e nid info s) k = (map_option unsigned (js_get (as_connections s) k),
     if k = nid \<and> scripts_alone e nid \<noteq> None then scripts_alone e nid else js_get (as_notebooks s) k, js_get (as_invalid s) k)"
  by (auto simp: outcome_in_def restore_scripts_phase_def scripts_alone_def js_get_set Let_def split: nb.splits)

lemma signature_aside:
  "map_option unsigned (snd (restoreConnectionState e nid info det sigs l)) = map_option unsigned (snd (restoreConnectionState e nid info det [] l))"
  by (simp add: restoreConnectionState_def unsigned_def split: prod.split option.split)

lemma unsigned_restored: "catalog_restored e nid (unsigned c) = catalog_restored e nid c" "stamped e nid (unsigned c) = unsigned (stamped e nid c)"
proof -
  show same: "catalog_restored e nid (unsigned c) = catalog_restored e nid c"
    by (simp add: catalog_restored_def unsigned_def split: sum.split)
  show "stamped e nid (unsigned c) = unsigned (stamped e nid c)" using same by (simp add: stamped_def unsigned_def)
qed

lemma connection_phase_outcome:
  assumes "validateNotebookData d = Inr ()" "restore_connection_phase e nid d s = (r, s')"
  shows "(r \<noteq> None) = (re_catalogHandles e nid \<noteq> None)" "as_notebooks s' = as_notebooks s" "as_invalid s' = as_invalid s"
    "map_option (unsigned \<circ> snd) r = fresh_connection e nid d"
    "map_option unsigned (js_get (as_connections s') k) =
       (if k = nid \<and> r \<noteq> None then fresh_connection e nid d else map_option unsigned (js_get (as_connections s) k))"
    "r \<noteq> None \<Longrightarrow> js_get (as_connections s') nid = map_option snd r"
proof -
  from validated_decodes [OF assms(1), of e] obtain info det where dec: "decodeConnectionFromProto e (nb_connectionParams d) = Some (info, det)" by auto
  obtain sigs c where c: "restoreConnectionState e nid info det (as_signatures s) (notebook_label (nb_name d)) = (sigs, c)" by fastforce
  have some: "(c \<noteq> None) = (re_catalogHandles e nid \<noteq> None)"
    using c by (auto simp: restoreConnectionState_def Let_def split: prod.splits option.splits)
  have fresh: "fresh_connection e nid d = map_option unsigned c"
    using signature_aside [of e nid info det "as_signatures s" "notebook_label (nb_name d)"] by (simp add: fresh_connection_def dec c)
  show "(r \<noteq> None) = (re_catalogHandles e nid \<noteq> None)" "as_notebooks s' = as_notebooks s" "as_invalid s' = as_invalid s"
    "map_option (unsigned \<circ> snd) r = fresh_connection e nid d"
    "map_option unsigned (js_get (as_connections s') k) =
       (if k = nid \<and> r \<noteq> None then fresh_connection e nid d else map_option unsigned (js_get (as_connections s) k))"
    "r \<noteq> None \<Longrightarrow> js_get (as_connections s') nid = map_option snd r"
    using assms(2) some by (auto simp: restore_connection_phase_def dec c fresh js_get_set split: option.splits)
qed

lemma load_regardless: "fst (load_catalog_script e h sql loaded) = fst (load_catalog_script e h sql [])"
  by (simp add: load_catalog_script_def Let_def)

lemma restore_catalog_outcome:
  assumes "restore_catalog e nid conn s = (ok, s')" "js_get (as_connections s) nid = Some conn"
  shows "as_notebooks s' = as_notebooks s" "as_invalid s' = as_invalid s"
    "js_get (as_connections s') k = (if k = nid then Some (stamped e nid conn) else js_get (as_connections s) k)"
proof -
  show "as_notebooks s' = as_notebooks s" "as_invalid s' = as_invalid s"
    using assms by (auto simp: restore_catalog_def Let_def split: sum.splits prod.splits if_splits bool.splits)
  show "js_get (as_connections s') k = (if k = nid then Some (stamped e nid conn) else js_get (as_connections s) k)"
  proof (cases "re_schema e nid")
    case (Inl err)
    then show ?thesis using assms by (simp add: restore_catalog_def Let_def stamped_def catalog_restored_def)
  next
    case (Inr sql)
    obtain x l where x: "load_catalog_script e (catalogRelationScript conn) (the sql)
        (case js_get (as_catalogs s) (catalog conn) of Some l \<Rightarrow> l | None \<Rightarrow> []) = (x, l)" by fastforce
    have "catalog_restored e nid conn \<longleftrightarrow> \<not> blank sql \<and> x"
      using x load_regardless [of e "catalogRelationScript conn" "the sql"
        "case js_get (as_catalogs s) (catalog conn) of Some l \<Rightarrow> l | None \<Rightarrow> []"] by (simp add: catalog_restored_def Inr)
    then show ?thesis using assms x
      by (cases x) (auto simp: restore_catalog_def Inr Let_def stamped_def js_get_set split: sum.splits prod.splits if_splits)
  qed
qed

lemma outcome_progress [simp]:
  "outcome_in (s\<lparr>as_progressConnections := c\<rparr>) k = outcome_in s k" "outcome_in (s\<lparr>as_progressCatalogs := c\<rparr>) k = outcome_in s k"
  "outcome_in (s\<lparr>as_progressScripts := c\<rparr>) k = outcome_in s k" "outcome_in (count_all f s) k = outcome_in s k"
  by (simp_all add: outcome_in_def count_all_def)

lemma described_id: "describeInvalidNotebook path item err d = Some i \<Longrightarrow> in_notebookId i = ne_path item"
  by (auto simp: describeInvalidNotebook_def)

lemma refusal_id: "refusal e item = Some i \<Longrightarrow> in_notebookId i = ne_path item"
  by (auto simp: refusal_def Let_def dest: described_id split: if_splits sum.splits option.splits)

lemma entry_refused:
  assumes "loaded_data e (ne_path item) = None"
  shows "\<exists>c. restoreNotebookEntry e item s =
    (Some (case refusal e item of Some i \<Rightarrow> Refused i | None \<Rightarrow> RestoreFailed), s\<lparr>as_progressConnections := c\<rparr>)"
proof (cases "isValidUuid (ne_path item)")
  case True
  then show ?thesis using assms
    by (intro exI [of _ "addStarted 1 (as_progressConnections s)"])
      (auto simp: loaded_data_def restoreNotebookEntry_def refusal_def Let_def split: sum.split if_splits option.splits)
next
  case False
  then show ?thesis by (intro exI [of _ "as_progressConnections s"]) (simp add: restoreNotebookEntry_def refusal_def Let_def)
qed

lemma next_outcome:
  assumes new: "outcome_in s (ne_path item) = (None, None, None)"
  shows "outcome_in (restore_next e item s) k = (if k = ne_path item then outcome_alone e item else outcome_in s k)"
proof (cases "loaded_data e (ne_path item)")
  case None
  let ?nid = "ne_path item"
  have "\<not> connects e ?nid" using None by (simp add: connects_def)
  then have alone: "outcome_alone e item = (None, None, refusal e item)" using None by (simp add: outcome_alone_def connection_alone_def)
  from entry_refused [OF None, of s] obtain c where run: "restoreNotebookEntry e item s =
    (Some (case refusal e item of Some i \<Rightarrow> Refused i | None \<Rightarrow> RestoreFailed), s\<lparr>as_progressConnections := c\<rparr>)" by blast
  show ?thesis
  proof (cases "refusal e item")
    case None
    then show ?thesis using new by (simp add: restore_next_def run alone)
  next
    case (Some i)
    then show ?thesis using new refusal_id [OF Some] by (simp add: restore_next_def run alone) (simp add: outcome_in_def js_get_set)
  qed
next
  case (Some d)
  let ?nid = "ne_path item"
  from Some have d: "isValidUuid ?nid" "re_loadNotebook e ?nid = Inr d" "validateNotebookData d = Inr ()"
    by (auto simp: loaded_data_def split: if_splits sum.splits)
  have ref: "refusal e item = None" by (simp add: refusal_def d)
  let ?s = "s\<lparr>as_progressConnections := addStarted 1 (as_progressConnections s)\<rparr>"
  obtain r s1 where conn: "restore_connection_phase e ?nid d ?s = (r, s1)" by fastforce
  note c = connection_phase_outcome [OF d(3) conn]
  show ?thesis
  proof (cases r)
    case None
    then have "\<not> connects e ?nid" using c(1) by (simp add: connects_def)
    moreover have "connection_alone e ?nid = None" using None c(4) \<open>loaded_data e ?nid = Some d\<close> by (simp add: connection_alone_def)
    moreover have "restore_next e item s = count_all (addFailed 1) s1" using d conn None by (simp add: restore_next_def restoreNotebookEntry_def Let_def)
    ultimately show ?thesis using None new c(2,3) c(5) [of k] by (auto simp: outcome_in_def outcome_alone_def ref count_all_def)
  next
    case (Some x)
    obtain info cn where x: "x = (info, cn)" by fastforce
    let ?s1 = "s1\<lparr>as_progressCatalogs := addStarted 1 (as_progressCatalogs s1)\<rparr>"
    obtain ok s2 where cat: "restore_catalog e ?nid cn ?s1 = (ok, s2)" by fastforce
    have "js_get (as_connections ?s1) ?nid = Some cn" using c(6) Some x by simp
    note ct = restore_catalog_outcome [OF cat this]
    have yes: "connects e ?nid" using c(1) Some \<open>loaded_data e ?nid = Some d\<close> by (simp add: connects_def)
    have here: "connection_alone e ?nid = Some (unsigned (stamped e ?nid cn))"
      using c(4) Some x \<open>loaded_data e ?nid = Some d\<close> by (simp add: connection_alone_def unsigned_restored flip: c(4))
    have there: "map_option unsigned (js_get (as_connections s2) k) =
        (if k = ?nid then connection_alone e ?nid else map_option unsigned (js_get (as_connections s) k))"
      using ct(3) [of k] c(5) [of k] here by simp
    have "restore_next e item s = restore_scripts_phase e ?nid info
        (s2\<lparr>as_progressCatalogs := (if ok then addSucceeded 1 else addFailed 1) (as_progressCatalogs s2)\<rparr>)"
      using d conn Some x cat by (simp add: restore_next_def restoreNotebookEntry_def Let_def)
    then show ?thesis using new c(2,3) ct(1,2) there yes
      by (cases "scripts_alone e ?nid") (simp_all add: scripts_phase_outcome outcome_alone_def ref, auto simp: outcome_in_def)
  qed
qed

lemma all_outcomes:
  assumes "distinct (map ne_path items)" "\<forall>i \<in> set items. outcome_in s (ne_path i) = (None, None, None)"
  shows "outcome_in (fold (restore_next e) items s) k =
    (case find (\<lambda>i. ne_path i = k) items of Some i \<Rightarrow> outcome_alone e i | None \<Rightarrow> outcome_in s k)"
  using assms
proof (induction items arbitrary: s)
  case (Cons item items)
  have first: "outcome_in (restore_next e item s) j = (if j = ne_path item then outcome_alone e item else outcome_in s j)" for j
    by (rule next_outcome) (use Cons.prems(2) in simp)
  have other: "ne_path i \<noteq> ne_path item" if "i \<in> set items" for i using Cons.prems(1) imageI [OF that, of ne_path] by auto
  then have "\<forall>i \<in> set items. outcome_in (restore_next e item s) (ne_path i) = (None, None, None)" using Cons.prems(2) first by simp
  note rest = Cons.IH [OF _ this]
  have absent: "find (\<lambda>i. ne_path i = ne_path item) items = None" using other by (auto simp: find_None_iff)
  show ?case using rest Cons.prems(1) first [of k] absent by (auto split: option.split)
qed simp

section \<open>A concrete start\<close>

definition demo_id :: string where
  "demo_id = ''01234567-89ab-cdef-0123-456789abcdef''"

definition demo_entry :: "string \<Rightarrow> NotebookEntry" where
  "demo_entry nid = \<lparr>ne_path = nid, ne_storageType = None, ne_nativePath = None\<rparr>"

definition demo_restore :: restore_env where
  "demo_restore = \<lparr>re_nb = demo_env, re_localeCompare = text_compare, re_list = Inr [demo_entry ''old'', demo_entry demo_id],
     re_loadNotebook = (\<lambda>nid. Inr \<lparr>nb_notebookId = nid, nb_name = None, nb_connectionParams = JObj [(''dataless'', JObj [])], nb_metadata = None\<rparr>),
     re_notebookPath = (\<lambda>_. None), re_details = (\<lambda>_ _. DATALESS_CONNECTOR (createDatalessConnectionStateDetails None)),
     re_catalogHandles = (\<lambda>_. Some \<lparr>ch_instance = 0, ch_catalog = 1, ch_relations = 2, ch_functions = 3\<rparr>),
     re_schema = (\<lambda>_. Inr None), re_functions = (\<lambda>_. Inr None), re_replaceText = (\<lambda>_ _. True), re_analyze = (\<lambda>_ _. True), re_load = (\<lambda>_ _. True),
     re_now = 0, re_folders = (\<lambda>nid. map_sum (\<lambda>_. ()) id (fst (loadScriptFolders demo_opfs ''nb'' demo_files))),
     re_draft = (\<lambda>nid. map_sum (\<lambda>_. ()) id (fst (loadScriptDraft demo_opfs ''nb'' demo_files))), re_world = (\<lambda>_. empty_world)\<rparr>"

lemma demo_readable: "(\<lambda>k. map_option readable (view demo_store k)) = view demo_store"
proof -
  have "ends_with ''1_amber_badger.sql'' ''.sql''" "''1_amber_badger.sql'' \<noteq> STORAGE_SCRIPT_DRAFT" by code_simp+
  then have "readable [''1_amber_badger.sql'' \<mapsto> t] = [''1_amber_badger.sql'' \<mapsto> t]" for t by (auto simp: readable_def fun_eq_iff)
  then show ?thesis by (simp add: view_def demo_store_def fun_eq_iff)
qed

section \<open>The properties\<close>

text \<open>C2. A restart gives the notebook back: when the files of the origin hold what the writes of a run left and no edit is
  unreported, the scripts that the loader reads make a well-formed notebook with the folders, files, texts and draft of the
  run, and it agrees with the files, so that later writes find them.\<close>

theorem notebook_survives_restart:
  assumes "nb_run True s w {} st" "oe_ready b" "valid_name nid" "holds_scripts nid fs st" "(\<lambda>k. map_option readable (view st k)) = view st"
    "re_folders e nid = map_sum (\<lambda>_. ()) id (fst (loadScriptFolders b nid fs))" "re_draft e nid = map_sum (\<lambda>_. ()) id (fst (loadScriptDraft b nid fs))"
    "fresh_world (re_world e nid)" "core_accepts (e_core (re_nb e))"
  shows "\<exists>s' w'. js_get (as_notebooks (restore_scripts_phase e nid info a)) nid = Some (s', w') \<and>
    texts_of s' w' = texts_of s w \<and> draft_of s' w' = draft_of s w \<and> nb_inv s' w' \<and> persisted {} s' w' st"
proof -
  have run: "nb_inv s w" "persisted {} s w st" using run_ready [OF assms(1)] by simp_all
  from restart_scripts [OF run assms(2-8)] obtain s0 w0 where r: "restoreNotebookScripts e nid (re_world e nid) = Return s0 w0"
    "nb_inv s0 w0" "persisted {} s0 w0 st" by blast
  from analyze_all_kept [OF r(2) assms(9)] obtain s' w' where a: "analyzeAllScripts (re_nb e) s0 w0 = Return s' w'" "did [] w0 w'" "nb_inv s' w'"
    "nk_scriptFolders s' = nk_scriptFolders s0" "nk_uncommittedScriptId s' = nk_uncommittedScriptId s0" by blast
  have p: "persisted {} s' w' st" using r(3) did_text [OF a(2)] a(4,5) by (simp add: persisted_def)
  have "js_get (as_notebooks (restore_scripts_phase e nid info a)) nid = Some (s', w')"
    by (simp add: restore_scripts_phase_def r(1) a(1) js_get_set Let_def)
  then show ?thesis using a(3) p persisted_texts [OF p] persisted_texts [OF run(2)] by auto
qed

theorem notebook_survives_restart_witness:
  "\<exists>s' w'. js_get (as_notebooks (restore_scripts_phase demo_restore ''nb'' (connectorInfoForType DATALESS) empty_app_state)) ''nb'' = Some (s', w') \<and>
    texts_of s' w' = texts_of demo_state demo_world \<and> draft_of s' w' = draft_of demo_state demo_world \<and> nb_inv s' w' \<and> persisted {} s' w' demo_store"
  by (rule notebook_survives_restart [OF demo_start _ _ demo_holds demo_readable, of demo_opfs])
    (simp_all add: demo_restore_def fresh_world_def empty_world_def demo_accepts)

text \<open>C26. The progress comes out even: once the loading has ended, every notebook of the manifest was counted once, as a
  success, a failure or a skip, for connections, catalogs and scripts, and every analysis that was announced has started
  and ended; without a manifest nothing is counted, and the analysis still has a total.\<close>

theorem progress_comes_out_even:
  "tallies (restoreAppState e) = (case re_list e of
      Inl err \<Rightarrow> [(0, None), (0, None), (0, None)]
    | Inr entries \<Rightarrow> replicate 3 (length entries, Some (length entries))) \<and>
   pc_total (as_progressAnalyze (restoreAppState e)) = Some (pc_started (as_progressAnalyze (restoreAppState e))) \<and>
   finished (as_progressAnalyze (restoreAppState e)) = pc_started (as_progressAnalyze (restoreAppState e))"
proof -
  let ?start = "\<lambda>entries. count_all (addTotal (length entries)) empty_app_state"
  let ?s = "case re_list e of Inl err \<Rightarrow> empty_app_state | Inr entries \<Rightarrow> fold (restore_next e) entries (?start entries)"
  have even: "analysis_even (as_progressAnalyze ?s)"
  proof (cases "re_list e")
    case (Inr entries)
    have "analysis_even (as_progressAnalyze (?start entries))" by (simp add: count_all_def empty_app_state_def counter_defs)
    then show ?thesis using all_counts [of entries "?start entries" e] by (simp add: counted_def Inr)
  qed (simp add: empty_app_state_def counter_defs)
  have tally: "tallies ?s = (case re_list e of Inl err \<Rightarrow> [(0, None), (0, None), (0, None)]
      | Inr entries \<Rightarrow> replicate 3 (length entries, Some (length entries)))"
  proof (cases "re_list e")
    case (Inr entries)
    show ?thesis using all_counts [of entries "?start entries" e]
      by (simp add: counted_def Inr) (simp add: tallies_def count_all_def empty_app_state_def counter_defs numeral_3_eq_3)
  qed (simp add: tallies_def empty_app_state_def counter_defs)
  have "tallies (restoreAppState e) = tallies ?s" by (simp add: restoreAppState_def Let_def tallies_def)
  moreover have "pc_total (as_progressAnalyze (restoreAppState e)) = Some (pc_started (as_progressAnalyze ?s)) \<and>
      finished (as_progressAnalyze (restoreAppState e)) = pc_started (as_progressAnalyze ?s) \<and>
      pc_started (as_progressAnalyze (restoreAppState e)) = pc_started (as_progressAnalyze ?s)"
    using even by (simp add: restoreAppState_def Let_def counter_defs split: option.splits)
  ultimately show ?thesis using tally by simp
qed

text \<open>C12. Every notebook is restored on its own merits: in a manifest that lists no notebook twice, what becomes of each (its
  connection, with every field but the signature, its scripts and its refusal) is a function of its own entry, files and
  answers, so that it does not depend on the others and their order. The signature is left out: it is picked from a map that
  all share. It has a connection when it is valid and its catalog could be created, with a time of restoration when the
  relation script could be loaded, its scripts also when its catalog failed to load, and it is listed as invalid, with the
  reason, exactly when it was refused; a notebook that is not in the manifest appears nowhere.\<close>

theorem notebooks_restored_alone:
  assumes "re_list e = Inr entries" "distinct (map ne_path entries)"
  shows "outcome_in (restoreAppState e) nid = (case find (\<lambda>i. ne_path i = nid) entries of
      Some item \<Rightarrow> outcome_alone e item | None \<Rightarrow> (None, None, None))"
proof -
  let ?start = "count_all (addTotal (length entries)) empty_app_state"
  have start: "outcome_in ?start k = (None, None, None)" for k by (simp add: outcome_in_def empty_app_state_def count_all_def)
  have "\<forall>i \<in> set entries. outcome_in ?start (ne_path i) = (None, None, None)" using start by blast
  from all_outcomes [OF assms(2) this, of e nid] have "outcome_in (fold (restore_next e) entries ?start) nid = (case find (\<lambda>i. ne_path i = nid) entries of
      Some item \<Rightarrow> outcome_alone e item | None \<Rightarrow> (None, None, None))"
    by (simp only: start)
  then show ?thesis by (simp add: restoreAppState_def assms(1) Let_def outcome_in_def)
qed

lemma demo_connects: "connects demo_restore demo_id" "\<not> isValidUuid ''old''" "demo_id \<noteq> ''old''"
  by code_simp+

lemma same_notebook: "notebookId (stamped e nid c) = notebookId c" "notebookId (unsigned c) = notebookId c"
  by (simp_all add: stamped_def unsigned_def)

lemma connects_alone:
  assumes "connects e nid"
  shows "map_option notebookId (connection_alone e nid) = Some nid"
proof -
  from assms obtain d h where d: "loaded_data e nid = Some d" "re_catalogHandles e nid = Some h" by (auto simp: connects_def)
  then have "validateNotebookData d = Inr ()" by (auto simp: loaded_data_def split: if_splits sum.splits)
  from validated_decodes [OF this, of e] obtain info det where "decodeConnectionFromProto e (nb_connectionParams d) = Some (info, det)" by auto
  with d show ?thesis
    by (simp add: connection_alone_def fresh_connection_def restoreConnectionState_def same_notebook split: prod.split)
qed

theorem notebooks_restored_alone_witness:
  "map_option notebookId (fst (outcome_in (restoreAppState demo_restore) demo_id)) = Some demo_id \<and>
   outcome_in (restoreAppState demo_restore) ''old'' = (None, None, Some
     \<lparr>in_notebookId = ''old'', in_title = ''old'', in_connectorType = None, in_error = InvalidNotebookId\<rparr>)"
proof -
  have l: "re_list demo_restore = Inr [demo_entry ''old'', demo_entry demo_id]" "distinct (map ne_path [demo_entry ''old'', demo_entry demo_id])"
    using demo_connects(3) by (auto simp: demo_restore_def demo_entry_def)
  have "\<not> connects demo_restore ''old''" "connection_alone demo_restore ''old'' = None"
    using demo_connects(2) by (simp_all add: connects_def connection_alone_def loaded_data_def)
  with notebooks_restored_alone [OF l, of demo_id] notebooks_restored_alone [OF l, of "''old''"] demo_connects connects_alone [OF demo_connects(1)] show ?thesis
    by (simp add: outcome_alone_def demo_entry_def refusal_def describeInvalidNotebook_def)
qed

end
