(* ===== verification/Catalog_Sql.thy ===== *)
theory Catalog_Sql
  imports Sql_Lexing Connection_State Agent_Prompts "HOL-Library.List_Lexorder" "HOL-Library.Char_ord"
begin

text \<open>The SQL texts of catalogs: \<^verbatim>\<open>connection/catalog_sql_generator.ts\<close>, \<^verbatim>\<open>catalog_function_sql_generator.ts\<close>, and the rows of
  \<^verbatim>\<open>catalog_query_information_schema.ts\<close>, \<^verbatim>\<open>catalog_query_pg_attribute.ts\<close>, \<^verbatim>\<open>catalog_query_pg_proc.ts\<close> they are generated from.
  Texts are compared by code units; \<^verbatim>\<open>localeCompare\<close> is a parameter.\<close>

section \<open>Tables\<close>

record ColumnMetadata =
  cm_name :: string
  cm_ordinalPosition :: int
  cm_dataType :: "string option"

record SchemaMetadata =
  sm_databaseName :: "string option"
  sm_schemaName :: string
  sm_tables :: "(string \<times> ColumnMetadata list) list"

definition quoteIdentifier :: "string \<Rightarrow> string" where
  "quoteIdentifier identifier = [QUOTE] @ concat (map (\<lambda>c. if c = QUOTE then [QUOTE, QUOTE] else [c]) identifier) @ [QUOTE]"

fun begins_with :: "string \<Rightarrow> string \<Rightarrow> bool" where
  "begins_with s [] = True"
| "begins_with [] (p # ps) = False"
| "begins_with (c # cs) (p # ps) = (c = p \<and> begins_with cs ps)"

fun js_includes :: "string \<Rightarrow> string \<Rightarrow> bool" where
  "js_includes [] p = (p = [])"
| "js_includes (c # cs) p = (begins_with (c # cs) p \<or> js_includes cs p)"

definition mapDataType :: "string option \<Rightarrow> string" where
  "mapDataType sqlType =
    (case sqlType of
       None \<Rightarrow> ''VARCHAR''
     | Some t \<Rightarrow>
        if t = [] then ''VARCHAR''
        else (let n = js_trim (toLowerCase t); has = js_includes n in
          if has ''int'' \<or> has ''serial'' \<or> has ''bigserial'' then ''INTEGER''
          else if has ''float'' \<or> has ''double'' \<or> has ''real'' \<or> has ''numeric'' \<or> has ''decimal'' then ''FLOAT''
          else if has ''bool'' then ''BOOLEAN''
          else if has ''date'' \<and> \<not> has ''time'' then ''DATE''
          else if has ''timestamp'' \<or> has ''datetime'' then ''TIMESTAMP''
          else ''VARCHAR''))"

definition database_or_default :: "string option \<Rightarrow> string" where
  "database_or_default db = (case db of Some (c # cs) \<Rightarrow> c # cs | _ \<Rightarrow> ''default'')"

definition generateQualifiedTableName :: "string option \<Rightarrow> string \<Rightarrow> string \<Rightarrow> string" where
  "generateQualifiedTableName db schemaName tableName =
    quoteIdentifier (database_or_default db) @ ''.'' @ quoteIdentifier schemaName @ ''.'' @ quoteIdentifier tableName"

definition generateCreateTableSQL :: "string option \<Rightarrow> string option \<Rightarrow> string \<Rightarrow> ColumnMetadata list \<Rightarrow> string" where
  "generateCreateTableSQL db schemaName tableName columns =
    (let qualifiedName = (case schemaName of None \<Rightarrow> quoteIdentifier tableName | Some s \<Rightarrow> generateQualifiedTableName db s tableName);
         columnDefs = joined ('','' @ NL) (map (\<lambda>c. ''    '' @ quoteIdentifier (cm_name c) @ '' '' @ mapDataType (cm_dataType c))
           (sort_key cm_ordinalPosition columns))
     in ''CREATE TABLE '' @ qualifiedName @ '' ('' @ NL @ columnDefs @ NL @ '');'')"

definition columns_of :: "(string, ColumnMetadata list) jsmap \<Rightarrow> string \<Rightarrow> ColumnMetadata list" where
  "columns_of tables t = (case js_get tables t of Some cs \<Rightarrow> cs | None \<Rightarrow> [])"

definition generateSchemaSQL :: "string option \<Rightarrow> string \<Rightarrow> (string, ColumnMetadata list) jsmap \<Rightarrow> string" where
  "generateSchemaSQL db schemaName tables =
    joined (NL @ NL) (map (\<lambda>t. generateCreateTableSQL db (Some schemaName) t (columns_of tables t)) (sort (js_keys tables)))"

definition generateUnqualifiedSchemaSQL :: "(string, ColumnMetadata list) jsmap \<Rightarrow> string" where
  "generateUnqualifiedSchemaSQL tables =
    joined (NL @ NL) (map (\<lambda>t. generateCreateTableSQL None None t (columns_of tables t)) (sort (js_keys tables)))"

datatype CatalogSource = InformationSchema | PgClass | SalesforceMetadataApi | DemoScript | UnknownSource

definition catalog_header :: "string \<Rightarrow> string \<Rightarrow> timestamp \<Rightarrow> string" where
  "catalog_header what method updatedAt =
    ''-- DashQL Connection '' @ what @ ''.'' @ NL @
    ''-- This file is auto-generated and can only be updated through a catalog refresh.'' @ NL @
    ''--'' @ NL @
    ''-- Catalog Source: '' @ method @ NL @
    ''-- Last Refresh: '' @ toISOString updatedAt @ NL @ NL"

definition generateCatalogScriptHeader :: "CatalogSource \<Rightarrow> timestamp \<Rightarrow> string" where
  "generateCatalogScriptHeader method updatedAt = catalog_header ''Relations''
    (case method of InformationSchema \<Rightarrow> ''SQL information_schema'' | PgClass \<Rightarrow> ''SQL pg_class''
     | SalesforceMetadataApi \<Rightarrow> ''Salesforce Connect /ssot/metadata API'' | DemoScript \<Rightarrow> ''Demo script'' | UnknownSource \<Rightarrow> ''-'') updatedAt"

definition non_empty_joined :: "string list \<Rightarrow> string" where
  "non_empty_joined sqls = joined (NL @ NL) (filter (\<lambda>s. s \<noteq> []) sqls)"

definition generateCatalogSQL :: "SchemaMetadata list \<Rightarrow> string" where
  "generateCatalogSQL schemas = non_empty_joined (map (\<lambda>s. generateSchemaSQL (sm_databaseName s) (sm_schemaName s)
     (fold (\<lambda>(t, cs) m. js_set m t cs) (sm_tables s) [])) schemas)"

section \<open>Functions\<close>

record FunctionMetadata =
  fm_schemaName :: "string option"
  fm_functionName :: string
  fm_arguments :: "string option"
  fm_returnType :: "string option"
  fm_isAggregate :: bool

text \<open>A template prints \<^verbatim>\<open>null\<close> for missing arguments.\<close>

definition generateCreateFunctionSQL :: "string option \<Rightarrow> FunctionMetadata \<Rightarrow> string" where
  "generateCreateFunctionSQL db fn =
    (let qualifiedName = (case fm_schemaName fn of
         Some s \<Rightarrow> quoteIdentifier (database_or_default db) @ ''.'' @ quoteIdentifier s @ ''.'' @ quoteIdentifier (fm_functionName fn)
       | None \<Rightarrow> quoteIdentifier (database_or_default db) @ ''.'' @ quoteIdentifier (fm_functionName fn))
     in ''CREATE '' @ (if fm_isAggregate fn then ''AGGREGATE'' else ''FUNCTION'') @ '' '' @ qualifiedName @ ''('' @
       (case fm_arguments fn of Some a \<Rightarrow> a | None \<Rightarrow> ''null'') @ '') RETURNS '' @ (case fm_returnType fn of Some t \<Rightarrow> t | None \<Rightarrow> ''any''))"

definition function_compare :: "(string \<Rightarrow> string \<Rightarrow> int) \<Rightarrow> FunctionMetadata \<Rightarrow> FunctionMetadata \<Rightarrow> int" where
  "function_compare cmp a b =
    (let schema = (\<lambda>f. case fm_schemaName f of Some s \<Rightarrow> s | None \<Rightarrow> []); c = cmp (schema a) (schema b)
     in if c \<noteq> 0 then c else cmp (fm_functionName a) (fm_functionName b))"

fun insert_function :: "(string \<Rightarrow> string \<Rightarrow> int) \<Rightarrow> FunctionMetadata \<Rightarrow> FunctionMetadata list \<Rightarrow> FunctionMetadata list" where
  "insert_function cmp f [] = [f]"
| "insert_function cmp f (g # gs) = (if function_compare cmp f g \<le> 0 then f # g # gs else g # insert_function cmp f gs)"

definition generateFunctionsSQL :: "(string \<Rightarrow> string \<Rightarrow> int) \<Rightarrow> string option \<Rightarrow> FunctionMetadata list \<Rightarrow> string" where
  "generateFunctionsSQL cmp db functions =
    joined NL (map (\<lambda>f. generateCreateFunctionSQL db f @ '';'') (foldr (insert_function cmp) functions []))"

definition generateFunctionScriptHeader :: "CatalogSource \<Rightarrow> timestamp \<Rightarrow> string" where
  "generateFunctionScriptHeader method updatedAt = catalog_header ''Functions''
    (case method of InformationSchema \<Rightarrow> ''SQL information_schema'' | PgClass \<Rightarrow> ''SQL pg_proc''
     | SalesforceMetadataApi \<Rightarrow> ''Salesforce Connect /ssot/metadata API'' | DemoScript \<Rightarrow> ''Demo script'' | UnknownSource \<Rightarrow> ''-'') updatedAt"

section \<open>Rows\<close>

text \<open>The rows of all batches in order; a null is \<open>None\<close>.\<close>

record CatalogRow =
  cr_catalog :: "string option"
  cr_schema :: "string option"
  cr_table :: "string option"
  cr_column :: "string option"
  cr_ordinal :: "int option"
  cr_dataType :: "string option"

definition named :: "string option \<Rightarrow> bool" where
  "named s \<longleftrightarrow> s \<noteq> None \<and> s \<noteq> Some []"

text \<open>One level of the hierarchy: the group of a key, created when it is missing.\<close>

definition in_group :: "'v \<Rightarrow> ('v \<Rightarrow> 'v) \<Rightarrow> 'k \<Rightarrow> ('k, 'v) jsmap \<Rightarrow> ('k, 'v) jsmap" where
  "in_group new f k m = js_set m k (f (case js_get m k of Some v \<Rightarrow> v | None \<Rightarrow> new))"

definition push_column :: "CatalogRow \<Rightarrow> ColumnMetadata list \<Rightarrow> ColumnMetadata list" where
  "push_column r columns = columns @ [\<lparr>cm_name = the (cr_column r),
     cm_ordinalPosition = (case cr_ordinal r of Some p \<Rightarrow> p | None \<Rightarrow> int (length columns)), cm_dataType = cr_dataType r\<rparr>]"

definition generateCatalogSQLFromInformationSchema :: "CatalogRow list \<Rightarrow> string" where
  "generateCatalogSQLFromInformationSchema rows =
    (let catalogs = fold (\<lambda>r. if \<not> named (cr_catalog r) \<or> \<not> named (cr_schema r) \<or> \<not> named (cr_column r) \<or> \<not> named (cr_table r) then id
           else in_group [] (in_group [] (in_group [] (push_column r) (the (cr_table r))) (the (cr_schema r))) (the (cr_catalog r))) rows []
     in non_empty_joined (concat (map (\<lambda>(c, schemas). map (\<lambda>(s, tables). generateSchemaSQL (Some c) s tables) schemas) catalogs)))"

definition generateCatalogSQLFromPgAttribute :: "CatalogRow list \<Rightarrow> string \<Rightarrow> string" where
  "generateCatalogSQLFromPgAttribute rows db =
    (let schemas = fold (\<lambda>r. if \<not> named (cr_schema r) \<or> \<not> named (cr_column r) \<or> \<not> named (cr_table r) then id
           else in_group [] (in_group [] (push_column r) (the (cr_table r))) (the (cr_schema r))) rows []
     in non_empty_joined (map (\<lambda>(s, tables). generateSchemaSQL (Some db) s tables) schemas))"

record FunctionRow =
  fr_schema :: "string option"
  fr_name :: "string option"
  fr_arguments :: "string option"
  fr_returnType :: "string option"
  fr_kind :: "string option"

definition generateCatalogSQLFromPgProc :: "(string \<Rightarrow> string \<Rightarrow> int) \<Rightarrow> FunctionRow list \<Rightarrow> string option \<Rightarrow> string" where
  "generateCatalogSQLFromPgProc cmp rows db =
    generateFunctionsSQL cmp db (map (\<lambda>r. \<lparr>fm_schemaName = fr_schema r, fm_functionName = the (fr_name r),
        fm_arguments = Some (case fr_arguments r of Some a \<Rightarrow> a | None \<Rightarrow> []), fm_returnType = fr_returnType r,
        fm_isAggregate = (fr_kind r = Some ''a'')\<rparr>) (filter (\<lambda>r. named (fr_name r)) rows))"

section \<open>Reading the texts back\<close>

text \<open>\<open>reads s ns\<close>: the text has balanced quotes, and its quoted names are \<open>ns\<close>, in order.\<close>

definition names_in :: "sql_token list \<Rightarrow> string list" where
  "names_in ts = concat (map (\<lambda>t. case t of Ident n \<Rightarrow> [n] | Chr c \<Rightarrow> []) ts)"

definition reads :: "string \<Rightarrow> string list \<Rightarrow> bool" where
  "reads s ns \<longleftrightarrow> (\<exists>ts. lex_sql None s = Some ts \<and> names_in ts = ns)"

lemma quoteIdentifier_eq: "quoteIdentifier n = quoteIdent n"
  by (simp add: quoteIdentifier_def quoteIdent_def)

lemma names_in_append [simp]: "names_in (ts @ us) = names_in ts @ names_in us"
  by (simp add: names_in_def)

lemma names_in_plain [simp]: "names_in (map Chr s) = []"
  by (induction s) (simp_all add: names_in_def)

lemma reads_Nil [simp]: "reads [] []"
  by (simp add: reads_def names_in_def)

lemma reads_app: "reads s ns \<Longrightarrow> reads t ms \<Longrightarrow> joinable s t \<Longrightarrow> reads (s @ t) (ns @ ms)"
  using lex_append [of None s] by (cases "s = []") (fastforce simp: reads_def names_in_def)+

lemma reads_lit: "QUOTE \<notin> set s \<Longrightarrow> reads s []"
  by (simp add: reads_def lex_plain)

lemma reads_lit_app: "QUOTE \<notin> set s \<Longrightarrow> reads t ms \<Longrightarrow> reads (s @ t) ms"
  using reads_app [OF reads_lit, of s t ms] joinable_sep [of s "[]" t] by (cases "s = []") simp_all

lemma reads_quoted: "reads (quoteIdentifier n) [n]"
  by (simp add: reads_def quoteIdentifier_eq lex_quoteIdent names_in_def)

lemma reads_sep: "reads s ns \<Longrightarrow> reads t ms \<Longrightarrow> QUOTE \<notin> set sep \<Longrightarrow> sep \<noteq> [] \<Longrightarrow> reads (s @ sep @ t) (ns @ ms)"
  by (rule reads_app [OF _ reads_lit_app]) (simp_all add: joinable_sep)

lemma reads_end: "reads s ns \<Longrightarrow> QUOTE \<notin> set sep \<Longrightarrow> sep \<noteq> [] \<Longrightarrow> reads (s @ sep) ns"
  using reads_sep [OF _ reads_Nil, of s ns sep] by simp

lemma reads_joined:
  assumes "\<And>x. x \<in> set xs \<Longrightarrow> reads (f x) (g x)" "QUOTE \<notin> set sep" "sep \<noteq> []"
  shows "reads (joined sep (map f xs)) (concat (map g xs))"
  using assms(1)
proof (induction xs)
  case (Cons x xs)
  show ?case
  proof (cases xs)
    case Nil
    then show ?thesis using Cons.prems by simp
  next
    case (Cons y ys)
    then show ?thesis using reads_sep [OF Cons.prems [of x] Cons.IH assms(2,3)] Cons.prems by simp
  qed
qed simp

lemma type_plain: "QUOTE \<notin> set (mapDataType t)"
  by (auto simp: mapDataType_def Let_def split: option.split)

definition table_names :: "string option \<Rightarrow> string option \<Rightarrow> string \<Rightarrow> ColumnMetadata list \<Rightarrow> string list" where
  "table_names db s t columns =
    (case s of None \<Rightarrow> [t] | Some s \<Rightarrow> [database_or_default db, s, t]) @ map cm_name (sort_key cm_ordinalPosition columns)"

lemma reads_qualified: "reads (generateQualifiedTableName db s t) [database_or_default db, s, t]"
proof -
  have "reads (quoteIdentifier s @ ''.'' @ quoteIdentifier t) ([s] @ [t])" by (intro reads_sep reads_quoted) simp_all
  then have "reads (quoteIdentifier (database_or_default db) @ ''.'' @ quoteIdentifier s @ ''.'' @ quoteIdentifier t) ([database_or_default db] @ [s] @ [t])"
    by (intro reads_sep reads_quoted) simp_all
  then show ?thesis by (simp add: generateQualifiedTableName_def)
qed

lemma reads_create_table: "reads (generateCreateTableSQL db s t columns) (table_names db s t columns)"
proof -
  let ?cs = "sort_key cm_ordinalPosition columns"
  let ?q = "case s of None \<Rightarrow> quoteIdentifier t | Some s \<Rightarrow> generateQualifiedTableName db s t"
  have "reads (''    '' @ quoteIdentifier (cm_name c) @ '' '' @ mapDataType (cm_dataType c)) [cm_name c]" for c
    by (intro reads_lit_app reads_end reads_quoted) (simp_all add: type_plain)
  from reads_joined [of ?cs _ "\<lambda>c. [cm_name c]", OF this, of "'','' @ NL"]
  have columns: "reads (joined ('','' @ NL) (map (\<lambda>c. ''    '' @ quoteIdentifier (cm_name c) @ '' '' @ mapDataType (cm_dataType c)) ?cs)) (map cm_name ?cs)"
    by simp
  have q: "reads ?q (case s of None \<Rightarrow> [t] | Some s \<Rightarrow> [database_or_default db, s, t])" by (simp add: reads_quoted reads_qualified split: option.split)
  have "reads (?q @ ('' ('' @ NL) @ joined ('','' @ NL) (map (\<lambda>c. ''    '' @ quoteIdentifier (cm_name c) @ '' '' @ mapDataType (cm_dataType c)) ?cs) @ (NL @ '');''))
      (table_names db s t columns)"
    unfolding table_names_def by (rule reads_sep [OF q reads_end [OF columns]]) simp_all
  then have "reads (''CREATE TABLE '' @ ?q @ ('' ('' @ NL) @ joined ('','' @ NL)
      (map (\<lambda>c. ''    '' @ quoteIdentifier (cm_name c) @ '' '' @ mapDataType (cm_dataType c)) ?cs) @ (NL @ '');'')) (table_names db s t columns)"
    by (rule reads_lit_app [rotated]) simp
  then show ?thesis by (simp add: generateCreateTableSQL_def Let_def)
qed

lemma reads_schema:
  "reads (generateSchemaSQL db s tables) (concat (map (\<lambda>t. table_names db (Some s) t (columns_of tables t)) (sort (js_keys tables))))"
  unfolding generateSchemaSQL_def by (rule reads_joined) (simp_all add: reads_create_table)

lemma reads_non_empty:
  assumes "\<And>x. x \<in> set xs \<Longrightarrow> reads (f x) (g x)"
  shows "reads (non_empty_joined (map f xs)) (concat (map g xs))"
proof -
  have "concat (map g xs) = concat (map g (filter (\<lambda>x. f x \<noteq> []) xs))"
    using assms
  proof (induction xs)
    case (Cons x xs)
    have "f x = [] \<Longrightarrow> g x = []" using Cons.prems [of x] by (auto simp: reads_def names_in_def)
    then show ?case using Cons by simp
  qed simp
  moreover have "reads (joined (NL @ NL) (map f (filter (\<lambda>x. f x \<noteq> []) xs))) (concat (map g (filter (\<lambda>x. f x \<noteq> []) xs)))"
    by (rule reads_joined) (use assms in simp_all)
  moreover have "filter (\<lambda>s. s \<noteq> []) (map f xs) = map f (filter (\<lambda>x. f x \<noteq> []) xs)" by (simp add: filter_map comp_def)
  ultimately show ?thesis by (simp add: non_empty_joined_def)
qed

section \<open>Groups\<close>

definition firsts :: "'a list \<Rightarrow> 'a list" where
  "firsts xs = rev (remdups (rev xs))"

lemma firsts_snoc: "firsts (xs @ [x]) = (if x \<in> set xs then firsts xs else firsts xs @ [x])"
  by (simp add: firsts_def)

lemma set_firsts [simp]: "set (firsts xs) = set xs"
  by (simp add: firsts_def)

lemma js_set_map:
  "distinct ks \<Longrightarrow> js_set (map (\<lambda>x. (x, v x)) ks) k w =
    (if k \<in> set ks then map (\<lambda>x. (x, if x = k then w else v x)) ks else map (\<lambda>x. (x, v x)) ks @ [(k, w)])"
  by (induction ks) auto

lemma js_get_map: "js_get (map (\<lambda>x. (x, v x)) ks) k = (if k \<in> set ks then Some (v k) else None)"
  by (induction ks) auto

text \<open>Grouping row by row gives the keys in the order of their first rows, each with what its own rows make.\<close>

lemma in_group_fold:
  "fold (\<lambda>r. in_group new (f r) (k r)) rows [] = map (\<lambda>key. (key, fold f (filter (\<lambda>r. k r = key) rows) new)) (firsts (map k rows))"
proof (induction rows rule: rev_induct)
  case (snoc r rows)
  let ?v = "\<lambda>key. fold f (filter (\<lambda>r. k r = key) rows) new"
  have "distinct (firsts (map k rows))" by (simp add: firsts_def)
  then have "in_group new (f r) (k r) (map (\<lambda>key. (key, ?v key)) (firsts (map k rows))) =
      (if k r \<in> k ` set rows then map (\<lambda>key. (key, if key = k r then f r (?v (k r)) else ?v key)) (firsts (map k rows))
       else map (\<lambda>key. (key, ?v key)) (firsts (map k rows)) @ [(k r, f r new)])"
    by (simp add: in_group_def js_set_map js_get_map)
  moreover have "k r \<notin> k ` set rows \<Longrightarrow> filter (\<lambda>s. k s = k r) rows = []" by (metis (mono_tags, lifting) filter_False image_eqI)
  ultimately show ?case using snoc by (auto simp: firsts_snoc)
qed (simp add: firsts_def)

lemma fold_skip: "fold (\<lambda>x. if p x then id else g x) xs s = fold g (filter (\<lambda>x. \<not> p x) xs) s"
  by (induction xs arbitrary: s) simp_all

section \<open>Catalogs\<close>

text \<open>The columns of a table are those of its rows, in order; a missing position is the number of columns before.\<close>

definition table_columns :: "CatalogRow list \<Rightarrow> ColumnMetadata list" where
  "table_columns rows = fold push_column rows []"

definition rows_at :: "(CatalogRow \<Rightarrow> string option) \<Rightarrow> string \<Rightarrow> CatalogRow list \<Rightarrow> CatalogRow list" where
  "rows_at part n rows = filter (\<lambda>r. part r = Some n) rows"

definition parts :: "(CatalogRow \<Rightarrow> string option) \<Rightarrow> CatalogRow list \<Rightarrow> string list" where
  "parts part rows = firsts (map (\<lambda>r. the (part r)) rows)"

text \<open>What the text of a schema names: its tables by name, each with its columns by position.\<close>

definition schema_names :: "string \<Rightarrow> string \<Rightarrow> CatalogRow list \<Rightarrow> string list" where
  "schema_names db s rows =
    concat (map (\<lambda>t. [database_or_default (Some db), s, t] @ map cm_name (sort_key cm_ordinalPosition (table_columns (rows_at cr_table t rows))))
      (sort (parts cr_table rows)))"

definition usable :: "CatalogRow list \<Rightarrow> CatalogRow list" where
  "usable rows = filter (\<lambda>r. named (cr_schema r) \<and> named (cr_column r) \<and> named (cr_table r)) rows"

definition group_tables :: "CatalogRow list \<Rightarrow> (string, ColumnMetadata list) jsmap" where
  "group_tables rows = fold (\<lambda>r. in_group [] (push_column r) (the (cr_table r))) rows []"

lemma rows_at_the: "\<forall>r \<in> set rows. part r \<noteq> None \<Longrightarrow> filter (\<lambda>r. the (part r) = n) rows = rows_at part n rows"
  unfolding rows_at_def by (rule filter_cong) (auto dest: bspec)

lemma group_tables_eq:
  assumes "\<forall>r \<in> set rows. cr_table r \<noteq> None"
  shows "group_tables rows = map (\<lambda>t. (t, table_columns (rows_at cr_table t rows))) (parts cr_table rows)"
  unfolding group_tables_def in_group_fold parts_def table_columns_def rows_at_the [OF assms] ..

lemma reads_tables:
  assumes "\<forall>r \<in> set rows. cr_table r \<noteq> None"
  shows "reads (generateSchemaSQL (Some db) s (group_tables rows)) (schema_names db s rows)"
proof -
  have keys: "js_keys (group_tables rows) = parts cr_table rows" by (simp add: group_tables_eq [OF assms] comp_def)
  have "columns_of (group_tables rows) t = table_columns (rows_at cr_table t rows)" if "t \<in> set (parts cr_table rows)" for t
    using that by (simp add: columns_of_def group_tables_eq [OF assms] js_get_map)
  then have "map (\<lambda>t. table_names (Some db) (Some s) t (columns_of (group_tables rows) t)) (sort (parts cr_table rows)) =
      map (\<lambda>t. [database_or_default (Some db), s, t] @ map cm_name (sort_key cm_ordinalPosition (table_columns (rows_at cr_table t rows)))) (sort (parts cr_table rows))"
    by (simp add: table_names_def)
  then show ?thesis using reads_schema [of "Some db" s "group_tables rows"] by (simp only: keys schema_names_def)
qed

lemma usable_parts: "r \<in> set (usable rows) \<Longrightarrow> cr_schema r \<noteq> None \<and> cr_table r \<noteq> None"
  by (simp add: usable_def named_def)

lemma rows_at_subset: "set (rows_at part n rows) \<subseteq> set rows"
  by (simp add: rows_at_def)

text \<open>The schemas of some rows, all of one database.\<close>

definition database_names :: "string \<Rightarrow> CatalogRow list \<Rightarrow> string list" where
  "database_names db rows = concat (map (\<lambda>s. schema_names db s (rows_at cr_schema s rows)) (parts cr_schema rows))"

definition group_schemas :: "CatalogRow list \<Rightarrow> (string, (string, ColumnMetadata list) jsmap) jsmap" where
  "group_schemas rows = fold (\<lambda>r. in_group [] (in_group [] (push_column r) (the (cr_table r))) (the (cr_schema r))) rows []"

lemma group_schemas_eq:
  assumes "\<forall>r \<in> set rows. cr_schema r \<noteq> None"
  shows "group_schemas rows = map (\<lambda>s. (s, group_tables (rows_at cr_schema s rows))) (parts cr_schema rows)"
  unfolding group_schemas_def in_group_fold parts_def group_tables_def rows_at_the [OF assms] ..

lemma schema_texts:
  assumes "\<forall>r \<in> set rows. cr_schema r \<noteq> None"
  shows "map (\<lambda>(s, tables). generateSchemaSQL (Some db) s tables) (group_schemas rows) =
    map (\<lambda>s. generateSchemaSQL (Some db) s (group_tables (rows_at cr_schema s rows))) (parts cr_schema rows)"
  by (simp add: group_schemas_eq [OF assms])

lemma usable_rows_at:
  assumes "set rows \<subseteq> set (usable rs)"
  shows "\<forall>r \<in> set rows. cr_schema r \<noteq> None" "\<forall>r \<in> set rows. cr_table r \<noteq> None"
  using assms usable_parts [of _ rs] by blast+

lemma pg_attribute_text:
  "generateCatalogSQLFromPgAttribute rows db = non_empty_joined
    (map (\<lambda>s. generateSchemaSQL (Some db) s (group_tables (rows_at cr_schema s (usable rows)))) (parts cr_schema (usable rows)))"
proof -
  have "filter (\<lambda>r. \<not> (\<not> named (cr_schema r) \<or> \<not> named (cr_column r) \<or> \<not> named (cr_table r))) rows = usable rows"
    unfolding usable_def by (rule filter_cong) auto
  then show ?thesis
    unfolding generateCatalogSQLFromPgAttribute_def Let_def fold_skip group_schemas_def [symmetric]
    by (simp only: schema_texts [OF usable_rows_at(1) [OF subset_refl]])
qed

definition cataloged :: "CatalogRow list \<Rightarrow> CatalogRow list" where
  "cataloged rows = usable (filter (\<lambda>r. named (cr_catalog r)) rows)"

lemma information_schema_text:
  "generateCatalogSQLFromInformationSchema rows = non_empty_joined
    (map (\<lambda>(c, s). generateSchemaSQL (Some c) s (group_tables (rows_at cr_schema s (rows_at cr_catalog c (cataloged rows)))))
      (concat (map (\<lambda>c. map (Pair c) (parts cr_schema (rows_at cr_catalog c (cataloged rows)))) (parts cr_catalog (cataloged rows)))))"
proof -
  let ?u = "cataloged rows"
  have u: "filter (\<lambda>r. \<not> (\<not> named (cr_catalog r) \<or> \<not> named (cr_schema r) \<or> \<not> named (cr_column r) \<or> \<not> named (cr_table r))) rows = ?u"
    by (simp add: usable_def cataloged_def conj_ac)
  have c: "\<forall>r \<in> set ?u. cr_catalog r \<noteq> None" by (simp add: cataloged_def usable_def named_def)
  have "fold (\<lambda>r. in_group [] (in_group [] (in_group [] (push_column r) (the (cr_table r))) (the (cr_schema r))) (the (cr_catalog r))) ?u [] =
      map (\<lambda>c. (c, group_schemas (rows_at cr_catalog c ?u))) (parts cr_catalog ?u)"
    unfolding in_group_fold parts_def group_schemas_def rows_at_the [OF c] ..
  moreover have "map (\<lambda>(s, tables). generateSchemaSQL (Some c) s tables) (group_schemas (rows_at cr_catalog c ?u)) =
      map (\<lambda>s. generateSchemaSQL (Some c) s (group_tables (rows_at cr_schema s (rows_at cr_catalog c ?u)))) (parts cr_schema (rows_at cr_catalog c ?u))" for c
    by (rule schema_texts, rule usable_rows_at(1) [of _ "filter (\<lambda>r. named (cr_catalog r)) rows"])
      (use rows_at_subset in \<open>simp add: cataloged_def\<close>)
  ultimately show ?thesis
    unfolding generateCatalogSQLFromInformationSchema_def Let_def fold_skip u by (simp add: map_concat comp_def)
qed

lemma concat_map_pairs: "concat (map g (concat (map (\<lambda>c. map (Pair c) (p c)) cs))) = concat (map (\<lambda>c. concat (map (\<lambda>s. g (c, s)) (p c))) cs)"
  by (induction cs) (simp_all add: comp_def)

text \<open>The generated texts lex, whatever characters the names hold, and their quoted names are, in order, for each database and
  schema in the order of their first rows, the tables by name, each with the columns of its usable rows by position.\<close>

lemma catalog_scripts_read_back:
  "reads (generateCatalogSQLFromInformationSchema rows)
     (concat (map (\<lambda>c. database_names c (rows_at cr_catalog c (cataloged rows))) (parts cr_catalog (cataloged rows))))"
  "reads (generateCatalogSQLFromPgAttribute rows db) (database_names db (usable rows))"
proof -
  let ?u = "cataloged rows"
  have "reads (generateSchemaSQL (Some c) s (group_tables (rows_at cr_schema s (rows_at cr_catalog c ?u))))
      (schema_names c s (rows_at cr_schema s (rows_at cr_catalog c ?u)))" for c s
    by (rule reads_tables, rule usable_rows_at(2) [of _ "filter (\<lambda>r. named (cr_catalog r)) rows"])
      (auto simp: cataloged_def rows_at_def)
  then show "reads (generateCatalogSQLFromInformationSchema rows)
     (concat (map (\<lambda>c. database_names c (rows_at cr_catalog c ?u)) (parts cr_catalog ?u)))"
    using reads_non_empty [of "concat (map (\<lambda>c. map (Pair c) (parts cr_schema (rows_at cr_catalog c ?u))) (parts cr_catalog ?u))"
      "\<lambda>(c, s). generateSchemaSQL (Some c) s (group_tables (rows_at cr_schema s (rows_at cr_catalog c ?u)))"
      "\<lambda>(c, s). schema_names c s (rows_at cr_schema s (rows_at cr_catalog c ?u))"]
    unfolding information_schema_text by (simp add: database_names_def concat_map_pairs split: prod.splits)
next
  show "reads (generateCatalogSQLFromPgAttribute rows db) (database_names db (usable rows))"
    unfolding pg_attribute_text database_names_def
    by (rule reads_non_empty, rule reads_tables, rule usable_rows_at(2)) (rule rows_at_subset)
qed

end
