(* ===== verification/Catalog_Loader.thy ===== *)
theory Catalog_Loader
  imports Catalog_Sql Query_Executor Connection_Properties
begin

text \<open>The loading of catalogs: \<^verbatim>\<open>connection/catalog_loader.tsx\<close> with the updates it starts
  (\<^verbatim>\<open>catalog_query_information_schema.ts\<close>, \<^verbatim>\<open>catalog_query_pg_attribute.ts\<close>, \<^verbatim>\<open>catalog_query_pg_proc.ts\<close>,
  \<^verbatim>\<open>salesforce/salesforce_catalog_update.ts\<close>, \<^verbatim>\<open>dataless/dataless_demo_catalog.ts\<close>, \<^verbatim>\<open>prefetched_hyper_functions.ts\<close>). What the
  database, the servers and the core answer is a record. Logging and the heartbeat are left out.\<close>

section \<open>Answers from outside\<close>

datatype catalog_script = Relations | Functions

text \<open>Of two awaited answers \<open>ce_secondFirst\<close> says which one arrives first, and \<open>ce_together\<close> whether the other one still arrives
  before a rejection of the first is handled. An answer of the server of prefetched functions has its status;
  the answer with the demo schema is followed by its text.\<close>

record cl_env =
  ce_executor :: bool
  ce_startedAt :: timestamp
  ce_refreshedAt :: timestamp
  ce_cancellation :: handle
  ce_newError :: handle
  ce_firstQuery :: nat
  ce_secondQuery :: nat
  ce_relations :: "qx_error + CatalogRow list option"
  ce_functions :: "qx_error + FunctionRow list option"
  ce_secondFirst :: bool
  ce_together :: bool
  ce_metadata :: "qx_error + (string \<times> (string \<times> string option) list) list"
  ce_demoSchema :: "qx_error + (qx_error + string)"
  ce_prefetched :: "qx_error + bool \<times> string"
  ce_analyze :: "catalog_script \<Rightarrow> string \<Rightarrow> qx_error option"
  ce_load :: "catalog_script \<Rightarrow> nat \<Rightarrow> qx_error option"
  ce_localeCompare :: "string \<Rightarrow> string \<Rightarrow> int"

definition thrown_here :: "cl_env \<Rightarrow> qx_error" where
  "thrown_here e = \<lparr>err_self = ce_newError e, err_abort_name = False, err_abort_message = False, err_loggable = False\<rparr>"

text \<open>What happens outside, in order: actions for the connection, queries handed to the executor, new texts of the two catalog
  scripts, scripts leaving and entering the catalog, and the notice that the scripts of the notebook are outdated.\<close>

datatype cl_event = Catalog_Action CatalogAction | Asked string | Asked_Metadata | Text_Replaced catalog_script string
  | Script_Dropped catalog_script | Script_Loaded catalog_script nat | Scripts_Outdated

type_synonym cl_result = "cl_event list \<times> qx_error option"

definition cl_then :: "cl_event list \<Rightarrow> cl_result \<Rightarrow> cl_result" where
  "cl_then evs r = (evs @ fst r, snd r)"

definition throw_error :: "qx_error \<Rightarrow> cl_result" where
  "throw_error err = ([], Some err)"

text \<open>\<^verbatim>\<open>Promise.all\<close> over two requests.\<close>

definition both_answers :: "cl_env \<Rightarrow> qx_error + 'a \<Rightarrow> qx_error + 'b \<Rightarrow> qx_error + 'a \<times> 'b" where
  "both_answers e a b = (case (a, b) of
      (Inr x, Inr y) \<Rightarrow> Inr (x, y)
    | (Inl err, Inr y) \<Rightarrow> Inl err
    | (Inr x, Inl err) \<Rightarrow> Inl err
    | (Inl err, Inl err') \<Rightarrow> Inl (if ce_secondFirst e then err' else err))"

section \<open>Queries\<close>

definition in_quotes :: "string \<Rightarrow> string" where
  "in_quotes s = [CHR 0x27] @ s @ [CHR 0x27]"

definition schemas_condition :: "string \<Rightarrow> string list \<Rightarrow> string" where
  "schemas_condition column schemaNames =
    (if schemaNames = [] then [] else ''AND '' @ column @ '' IN ('' @ in_quotes (joined ([CHR 0x27] @ '','' @ [CHR 0x27]) schemaNames) @ '')'')"

definition information_schema_query :: "string \<Rightarrow> string list \<Rightarrow> string" where
  "information_schema_query catalogName schemaNames = joined NL [
      '''',
      ''        SELECT'',
      ''            table_catalog,'',
      ''            table_schema,'',
      ''            table_name,'',
      ''            column_name,'',
      ''            ordinal_position,'',
      ''            is_nullable,'',
      ''            data_type'',
      ''        FROM information_schema.columns'',
      ''        WHERE table_catalog = '' @ in_quotes catalogName,
      ''        '' @ schemas_condition ''table_schema'' schemaNames,
      ''    '']"

definition pg_attribute_query :: "string list \<Rightarrow> string" where
  "pg_attribute_query schemaNames = joined NL [
      '''',
      ''        SELECT'',
      ''            n.nspname AS table_schema,'',
      ''            c.relname AS table_name,'',
      ''            a.attname AS column_name,'',
      ''            a.attnum AS ordinal_position,'',
      ''            t.typname AS data_type,'',
      ''            CASE'',
      ''                WHEN a.attnotnull THEN '' @ in_quotes ''NO'',
      ''                ELSE '' @ in_quotes ''YES'',
      ''            END AS is_nullable,'',
      ''            CASE'',
      ''                WHEN a.atttypid = ANY (ARRAY[21, 23, 20]) THEN a.atttypmod - 4'',
      ''                WHEN a.atttypid = 1700 THEN ((a.atttypmod - 4) >> 16) & 65535'',
      ''                ELSE NULL'',
      ''            END AS numeric_precision,'',
      ''            CASE'',
      ''                WHEN a.atttypid = 1700 THEN (a.atttypmod - 4) & 65535'',
      ''                ELSE NULL'',
      ''            END AS numeric_scale'',
      ''        FROM pg_class c'',
      ''        JOIN pg_namespace n ON n.oid = c.relnamespace'',
      ''        JOIN pg_attribute a ON a.attrelid = c.oid'',
      ''        JOIN pg_type t ON t.oid = a.atttypid'',
      ''        LEFT JOIN pg_attrdef d ON d.adrelid = c.oid AND d.adnum = a.attnum'',
      ''        WHERE c.relkind IN ('r', 'v', 'm', 'f', 'p')'',
      ''          AND a.attnum > 0'',
      ''          AND NOT a.attisdropped'',
      ''        '' @ schemas_condition ''n.nspname'' schemaNames,
      ''        ORDER BY n.nspname, c.relname, a.attnum'',
      ''    '']"

definition pg_proc_query :: string where
  "pg_proc_query = joined NL [
      '''',
      ''        SELECT'',
      ''            n.nspname AS function_schema,'',
      ''            p.proname AS function_name,'',
      ''            pg_catalog.pg_get_function_arguments(p.oid) AS function_arguments,'',
      ''            pg_catalog.pg_get_function_result(p.oid) AS return_type,'',
      ''            p.prokind AS function_kind'',
      ''        FROM pg_proc p'',
      ''        JOIN pg_namespace n ON n.oid = p.pronamespace'',
      ''        WHERE p.prokind IN ('f', 'a', 'w', 'p')'',
      ''        ORDER BY n.nspname, p.proname'',
      ''    '']"

definition ask :: "nat \<Rightarrow> nat \<Rightarrow> string \<Rightarrow> cl_event list" where
  "ask updateId qid text = [Asked text, Catalog_Action (CATALOG_UPDATE_REGISTER_QUERY updateId qid)]"

section \<open>Updates\<close>

text \<open>A script gets its text, is analyzed, and enters the catalog anew.\<close>

definition install_script :: "cl_env \<Rightarrow> catalog_script \<Rightarrow> bool \<Rightarrow> nat \<Rightarrow> string \<Rightarrow> cl_result" where
  "install_script e script reload rank text = cl_then [Text_Replaced script text] (case ce_analyze e script text of
      Some err \<Rightarrow> throw_error err
    | None \<Rightarrow> cl_then (if reload then [Script_Dropped script] else []) (case ce_load e script rank of
        Some err \<Rightarrow> throw_error err
      | None \<Rightarrow> ([Script_Loaded script rank], None)))"

definition relations_text :: "cl_env \<Rightarrow> CatalogSource \<Rightarrow> string \<Rightarrow> string" where
  "relations_text e source sql = generateCatalogScriptHeader source (ce_refreshedAt e) @ sql"

text \<open>What follows the answer to a query for columns.\<close>

definition install_relations :: "cl_env \<Rightarrow> nat \<Rightarrow> CatalogSource \<Rightarrow> (CatalogRow list \<Rightarrow> string) \<Rightarrow> cl_result" where
  "install_relations e updateId source generate = (case ce_relations e of
      Inl err \<Rightarrow> throw_error err
    | Inr None \<Rightarrow> throw_error (thrown_here e)
    | Inr (Some rows) \<Rightarrow>
        if rows = [] \<or> generate rows = [] then throw_error (thrown_here e)
        else cl_then [Catalog_Action (CATALOG_UPDATE_SCHEMA_SCRIPT updateId)]
          (install_script e Relations True CATALOG_DEFAULT_DESCRIPTOR_POOL_RANK (relations_text e source (generate rows))))"

definition updateInformationSchemaCatalog :: "cl_env \<Rightarrow> nat \<Rightarrow> string \<Rightarrow> string list \<Rightarrow> cl_result" where
  "updateInformationSchemaCatalog e updateId catalogName schemaNames =
    cl_then (ask updateId (ce_firstQuery e) (information_schema_query catalogName schemaNames))
      (install_relations e updateId InformationSchema generateCatalogSQLFromInformationSchema)"

definition updatePgSchemaScript :: "cl_env \<Rightarrow> nat \<Rightarrow> string \<Rightarrow> cl_result" where
  "updatePgSchemaScript e updateId databaseName =
    install_relations e updateId PgClass (\<lambda>rows. generateCatalogSQLFromPgAttribute rows databaseName)"

definition updatePgFunctionScript :: "cl_env \<Rightarrow> string \<Rightarrow> cl_result" where
  "updatePgFunctionScript e databaseName = (case ce_functions e of
      Inl err \<Rightarrow> throw_error err
    | Inr None \<Rightarrow> ([], None)
    | Inr (Some rows) \<Rightarrow>
        if rows = [] then ([], None)
        else install_script e Functions True CATALOG_DEFAULT_DESCRIPTOR_POOL_RANK
          (generateFunctionScriptHeader PgClass (ce_refreshedAt e) @ generateCatalogSQLFromPgProc (ce_localeCompare e) rows (Some databaseName)))"

text \<open>Both queries run at once. When the first to end throws, the other one goes on although the update has failed: its events
  are the last component, unless it ends before the failure is handled.\<close>

definition updatePgCatalog :: "cl_env \<Rightarrow> nat \<Rightarrow> string \<Rightarrow> string list \<Rightarrow> cl_result \<times> cl_event list" where
  "updatePgCatalog e updateId databaseName schemaNames =
    (let schema = updatePgSchemaScript e updateId databaseName; functions = updatePgFunctionScript e databaseName;
         (a, b) = (if ce_secondFirst e then (functions, schema) else (schema, functions));
         asked = ask updateId (ce_firstQuery e) (pg_attribute_query schemaNames) @ ask updateId (ce_secondQuery e) pg_proc_query
     in case snd a of
          None \<Rightarrow> (cl_then (asked @ fst a) b, [])
        | Some err \<Rightarrow> if ce_together e then ((asked @ fst a @ fst b, Some err), []) else ((asked @ fst a, Some err), fst b))"

definition fetchPrefetchedHyperFunctions :: "cl_env \<Rightarrow> qx_error + string" where
  "fetchPrefetchedHyperFunctions e = (case ce_prefetched e of
      Inl err \<Rightarrow> Inl err
    | Inr (ok, sql) \<Rightarrow> if \<not> ok \<or> js_trim sql = [] then Inl (thrown_here e) else Inr sql)"

definition loadPrefetchedHyperFunctions :: "cl_env \<Rightarrow> nat \<Rightarrow> string \<Rightarrow> cl_result" where
  "loadPrefetchedHyperFunctions e rank sql = install_script e Functions True rank sql"

definition SALESFORCE_CATALOG_RANK :: nat where
  "SALESFORCE_CATALOG_RANK = 100"

definition metadata_tables :: "(string \<times> (string \<times> string option) list) list \<Rightarrow> (string, ColumnMetadata list) jsmap" where
  "metadata_tables entries = fold (\<lambda>(n, fs) m. js_set m n
     (map (\<lambda>(i, (f, t)). \<lparr>cm_name = f, cm_ordinalPosition = int i, cm_dataType = t\<rparr>) (enumerate 0 fs))) entries []"

definition has_text :: "string \<Rightarrow> json_object \<Rightarrow> bool" where
  "has_text k j \<longleftrightarrow> map_of j k \<noteq> None \<and> map_of j k \<noteq> Some []"

text \<open>Nothing happens before the tokens are there; the second answer is the one of the functions. The script that is returned is the
  relation script itself, so that \<^verbatim>\<open>SET_CATALOG_SCRIPT\<close> is never dispatched.\<close>

definition updateSalesforceCatalog :: "cl_env \<Rightarrow> SalesforceConnectionStateDetails \<Rightarrow> cl_result" where
  "updateSalesforceCatalog e conn = (case sf_oauthState (sf_proto conn) of
      None \<Rightarrow> throw_error (thrown_here e)
    | Some st \<Rightarrow>
        if \<not> has_text ''accessToken'' (sf_coreAccessToken st) \<or> \<not> has_text ''instanceUrl'' (sf_coreAccessToken st) then throw_error (thrown_here e)
        else cl_then [Asked_Metadata] (case both_answers e (ce_metadata e) (fetchPrefetchedHyperFunctions e) of
          Inl err \<Rightarrow> throw_error err
        | Inr (metadata, functionsSQL) \<Rightarrow>
            (case install_script e Relations True SALESFORCE_CATALOG_RANK
                 (relations_text e SalesforceMetadataApi (generateUnqualifiedSchemaSQL (metadata_tables metadata))) of
               (evs, Some err) \<Rightarrow> (evs, Some err)
             | (evs, None) \<Rightarrow> cl_then evs (loadPrefetchedHyperFunctions e SALESFORCE_CATALOG_RANK functionsSQL))))"

definition updateDemoSchemaCatalog :: "cl_env \<Rightarrow> nat \<Rightarrow> cl_result" where
  "updateDemoSchemaCatalog e updateId = (case both_answers e (ce_demoSchema e) (fetchPrefetchedHyperFunctions e) of
      Inl err \<Rightarrow> throw_error err
    | Inr (Inl err, functionsSQL) \<Rightarrow> throw_error err
    | Inr (Inr catalogSQL, functionsSQL) \<Rightarrow>
        cl_then [Catalog_Action (CATALOG_UPDATE_SCHEMA_SCRIPT updateId)]
          (case install_script e Relations False CATALOG_DEFAULT_DESCRIPTOR_POOL_RANK (relations_text e DemoScript catalogSQL) of
             (evs, Some err) \<Rightarrow> (evs, Some err)
           | (evs, None) \<Rightarrow> cl_then evs (loadPrefetchedHyperFunctions e CATALOG_DEFAULT_DESCRIPTOR_POOL_RANK functionsSQL)))"

definition initial_update :: "cl_env \<Rightarrow> nat \<Rightarrow> CatalogUpdateTaskState" where
  "initial_update e updateId =
    \<lparr>taskId = updateId, taskVariant = FULL_CATALOG_REFRESH, t_status = STARTED, t_cancellation = ce_cancellation e, t_queries = [],
     t_error = None, startedAt = Some (ce_startedAt e), finishedAt = None, lastUpdateAt = Some (ce_startedAt e)\<rparr>"

text \<open>The update by the resolver of the connector; a resolver that does not fit the details throws.\<close>

definition resolve_catalog :: "cl_env \<Rightarrow> nat \<Rightarrow> ConnectionState \<Rightarrow> cl_result \<times> cl_event list" where
  "resolve_catalog e updateId conn = (case (catalogResolver (connectorInfo conn), details conn) of
      (SQL_INFORMATION_SCHEMA, TRINO_CONNECTOR d) \<Rightarrow>
        (let p = tr_setupParams (tr_proto d) in
         (updateInformationSchemaCatalog e updateId (tr_catalogName p) (case tr_schemaNames p of Some s \<Rightarrow> s | None \<Rightarrow> []), []))
    | (SQL_INFORMATION_SCHEMA, DATALESS_CONNECTOR d) \<Rightarrow> (updateDemoSchemaCatalog e updateId, [])
    | (SQL_INFORMATION_SCHEMA, _) \<Rightarrow> (throw_error (thrown_here e), [])
    | (SQL_PG_ATTRIBUTE, HYPER_CONNECTOR d) \<Rightarrow> updatePgCatalog e updateId [] []
    | (SQL_PG_ATTRIBUTE, _) \<Rightarrow> (throw_error (thrown_here e), [])
    | (SALESFORCE_METDATA_API, SALESFORCE_DATA_CLOUD_CONNECTOR d) \<Rightarrow> (updateSalesforceCatalog e d, [])
    | (SALESFORCE_METDATA_API, _) \<Rightarrow> (throw_error (thrown_here e), [])
    | (SQL_SCRIPT, _) \<Rightarrow> (([], None), []))"

text \<open>\<^verbatim>\<open>updateImpl\<close>: the events, and the error the promise is rejected with.\<close>

definition update_catalog_impl :: "cl_env \<Rightarrow> ConnectionState option \<Rightarrow> nat \<Rightarrow> cl_result" where
  "update_catalog_impl e conn updateId = (case conn of
      None \<Rightarrow> throw_error (thrown_here e)
    | Some c \<Rightarrow>
        if \<not> ce_executor e then throw_error (thrown_here e)
        else (case resolve_catalog e updateId c of ((evs, err), late) \<Rightarrow>
          (Catalog_Action (UPDATE_CATALOG updateId (initial_update e updateId)) # evs @
            (case err of
               None \<Rightarrow> [Catalog_Action (CATALOG_UPDATE_SUCCEEDED updateId), Scripts_Outdated]
             | Some x \<Rightarrow> [Catalog_Action (if err_abort_name x then CATALOG_UPDATE_CANCELLED updateId (err_self x)
                 else CATALOG_UPDATE_FAILED updateId (err_self x))]) @ late, None)))"

section \<open>The queue\<close>

text \<open>What a request for a notebook comes to: it stays in the queue, leaves it, or starts an update after the running ones were
  told to abort.\<close>

datatype refresh_decision = Stays | Leaves | Starts "handle list"

definition CATALOG_REFRESH_AFTER :: int where
  "CATALOG_REFRESH_AFTER = 60 * 1000"

definition task_of :: "CatalogUpdates \<Rightarrow> nat \<Rightarrow> CatalogUpdateTaskState option" where
  "task_of u i = (case js_get (tasksRunning u) i of Some t \<Rightarrow> Some t | None \<Rightarrow> js_get (tasksFinished u) i)"

definition refreshed_recently :: "timestamp \<Rightarrow> CatalogUpdates \<Rightarrow> bool" where
  "refreshed_recently now u = (case Option.bind (lastFullRefresh u) (task_of u) of
      None \<Rightarrow> False
    | Some t \<Rightarrow> (case finishedAt t of Some f \<Rightarrow> f | None \<Rightarrow> now) - now < CATALOG_REFRESH_AFTER)"

definition decide_refresh :: "timestamp \<Rightarrow> string list \<Rightarrow> (string, ConnectionState) jsmap \<Rightarrow> string \<Rightarrow> bool \<Rightarrow> refresh_decision" where
  "decide_refresh now inProgress conns nid force =
    (if nid \<in> set inProgress then Stays
     else case js_get conns nid of
       None \<Rightarrow> Stays
     | Some c \<Rightarrow> (let u = catalogUpdates c in
         if tasksRunning u \<noteq> [] \<and> \<not> force then Stays
         else if \<not> force \<and> restoredAt u \<noteq> None then Leaves
         else if \<not> force \<and> refreshed_recently now u then Stays
         else Starts (map (t_cancellation \<circ> snd) (tasksRunning u))))"

datatype queue_event = Aborted handle | Update_Started string

text \<open>One entry of the queue: the notebooks in progress, the processed ones, and what happened.\<close>

definition visit_request :: "timestamp \<Rightarrow> (string, ConnectionState) jsmap \<Rightarrow> string \<times> bool \<Rightarrow>
    string list \<times> string list \<times> queue_event list \<Rightarrow> string list \<times> string list \<times> queue_event list" where
  "visit_request now conns = (\<lambda>(nid, force) (inProgress, processed, evs). case decide_refresh now inProgress conns nid force of
      Stays \<Rightarrow> (inProgress, processed, evs)
    | Leaves \<Rightarrow> (inProgress, processed @ [nid], evs)
    | Starts hs \<Rightarrow> (inProgress @ [nid], processed @ [nid], evs @ map Aborted hs @ [Update_Started nid]))"

text \<open>The effect starts with an empty set of notebooks in progress, because the reference that should hold it is never set.\<close>

definition queue_effect :: "timestamp \<Rightarrow> (string, ConnectionState) jsmap \<Rightarrow> (string, bool) jsmap \<Rightarrow> queue_event list \<times> (string, bool) jsmap" where
  "queue_effect now conns queue = (case fold (visit_request now conns) queue ([], [], []) of
      (inProgress, processed, evs) \<Rightarrow> (evs, fold (\<lambda>nid q. js_delete q nid) processed queue))"

definition enqueue_refresh :: "string \<Rightarrow> bool \<Rightarrow> (string, bool) jsmap \<Rightarrow> (string, bool) jsmap" where
  "enqueue_refresh nid force queue = js_set queue nid force"

section \<open>What the relation script says\<close>

definition catalog_names :: "CatalogRow list \<Rightarrow> string list" where
  "catalog_names rows = concat (map (\<lambda>c. database_names c (rows_at cr_catalog c (cataloged rows))) (parts cr_catalog (cataloged rows)))"

definition answered_names :: "ConnectionState \<Rightarrow> CatalogRow list \<Rightarrow> string list" where
  "answered_names c rows = (case details c of HYPER_CONNECTOR d \<Rightarrow> database_names [] (usable rows) | _ \<Rightarrow> catalog_names rows)"

lemma cl_then_simps [simp]: "fst (cl_then evs r) = evs @ fst r" "snd (cl_then evs r) = snd r"
  by (simp_all add: cl_then_def)

lemma throw_simps [simp]: "fst (throw_error err) = []" "snd (throw_error err) = Some err"
  by (simp_all add: throw_error_def)

lemma install_texts: "Text_Replaced k t \<in> set (fst (install_script e s reload rank text)) \<Longrightarrow> k = s \<and> t = text"
  by (auto simp: install_script_def split: option.splits if_splits)

lemma relations_texts:
  assumes "Text_Replaced Relations t \<in> set (fst (install_relations e i source generate))"
  shows "\<exists>rows. ce_relations e = Inr (Some rows) \<and> generate rows \<noteq> [] \<and> t = relations_text e source (generate rows)"
  using assms by (auto simp: install_relations_def split: sum.splits option.splits if_splits dest: install_texts)

lemma function_texts: "Text_Replaced Relations t \<notin> set (fst (updatePgFunctionScript e db))"
  by (auto simp: updatePgFunctionScript_def split: sum.splits option.splits if_splits dest: install_texts)

lemma ask_texts [simp]: "Text_Replaced k t \<notin> set (ask i qid text)"
  by (simp add: ask_def)

lemma pg_texts:
  assumes "Text_Replaced Relations t \<in> set (fst (fst (updatePgCatalog e i db schemas)) @ snd (updatePgCatalog e i db schemas))"
  shows "Text_Replaced Relations t \<in> set (fst (updatePgSchemaScript e i db))"
  using assms function_texts [of t e db]
  by (auto simp: updatePgCatalog_def Let_def split: option.splits if_splits)

lemma impl_events:
  assumes "ce_executor e" "resolve_catalog e i c = ((evs, err), late)" "Text_Replaced k t \<in> set (fst (update_catalog_impl e (Some c) i))"
  shows "Text_Replaced k t \<in> set evs \<union> set late"
  using assms by (auto simp: update_catalog_impl_def split: option.splits)

text \<open>C24. The relation script of a Trino or Hyper connection is never wiped: whatever text an update puts there, on whichever path,
  is the header followed by a text that is not empty and whose quoted names are those of the rows the database answered.\<close>

theorem catalog_script_names_the_rows:
  assumes "Text_Replaced Relations t \<in> set (fst (update_catalog_impl e (Some c) i))" "details_type (details c) \<in> {TRINO, HYPER}"
  shows "\<exists>rows source sql. ce_relations e = Inr (Some rows) \<and> t = relations_text e source sql \<and> sql \<noteq> [] \<and> reads sql (answered_names c rows)"
proof -
  obtain evs err late where r: "resolve_catalog e i c = ((evs, err), late)" by (metis prod.exhaust)
  have "ce_executor e" by (rule ccontr) (use assms(1) in \<open>simp add: update_catalog_impl_def\<close>)
  from impl_events [OF this r assms(1)] have t: "Text_Replaced Relations t \<in> set evs \<union> set late" .
  show ?thesis
  proof (cases "details c")
    case (TRINO_CONNECTOR d)
    then have "Text_Replaced Relations t \<in> set (fst (install_relations e i InformationSchema generateCatalogSQLFromInformationSchema))"
      using r t by (auto simp: resolve_catalog_def updateInformationSchemaCatalog_def cl_then_def Let_def throw_error_def split: CatalogResolver.splits)
    from relations_texts [OF this] show ?thesis
      using TRINO_CONNECTOR catalog_scripts_read_back(1) by (fastforce simp: answered_names_def catalog_names_def)
  next
    case (HYPER_CONNECTOR d)
    then have "Text_Replaced Relations t \<in> set (fst (updatePgSchemaScript e i []))"
      using r t by (intro pg_texts [of t e i "[]" "[]"]) (auto simp: resolve_catalog_def throw_error_def split: CatalogResolver.splits)
    from relations_texts [OF this [unfolded updatePgSchemaScript_def]] show ?thesis
      using HYPER_CONNECTOR catalog_scripts_read_back(2) by (fastforce simp: answered_names_def)
  qed (use assms(2) in simp_all)
qed

section \<open>Every update ends\<close>

definition catalog_actions :: "cl_event list \<Rightarrow> CatalogAction list" where
  "catalog_actions evs = List.map_filter (\<lambda>ev. case ev of Catalog_Action a \<Rightarrow> Some a | _ \<Rightarrow> None) evs"

fun run_catalog :: "(nat \<Rightarrow> timestamp) \<Rightarrow> CatalogAction list \<Rightarrow> conn_env \<times> ConnectionState \<Rightarrow> conn_env \<times> ConnectionState" where
  "run_catalog now [] x = x"
| "run_catalog now (a # as) x = run_catalog (\<lambda>n. now (Suc n)) as (reduceCatalogAction (now 0) (fst x) (snd x) a)"

lemma catalog_actions_append [simp]: "catalog_actions (evs @ evs') = catalog_actions evs @ catalog_actions evs'"
  by (simp add: catalog_actions_def List.map_filter_def)

lemma catalog_actions_simps [simp]:
  "catalog_actions [] = []" "catalog_actions (Catalog_Action a # evs) = a # catalog_actions evs" "catalog_actions (Asked q # evs) = catalog_actions evs"
  "catalog_actions (Asked_Metadata # evs) = catalog_actions evs" "catalog_actions (Text_Replaced k t # evs) = catalog_actions evs"
  "catalog_actions (Script_Dropped k # evs) = catalog_actions evs" "catalog_actions (Script_Loaded k n # evs) = catalog_actions evs"
  "catalog_actions (Scripts_Outdated # evs) = catalog_actions evs"
  by (simp_all add: catalog_actions_def List.map_filter_def)

lemma run_catalog_append: "run_catalog now (as @ bs) x = run_catalog (\<lambda>n. now (length as + n)) bs (run_catalog now as x)"
  by (induction as arbitrary: now x) simp_all

fun progress_action :: "nat \<Rightarrow> CatalogAction \<Rightarrow> bool" where
  "progress_action i (CATALOG_UPDATE_REGISTER_QUERY k qid) = (k = i)"
| "progress_action i (CATALOG_UPDATE_SCHEMA_SCRIPT k) = (k = i)"
| "progress_action i _ = False"

definition quiet_events :: "nat \<Rightarrow> cl_event list \<Rightarrow> bool" where
  "quiet_events i evs \<longleftrightarrow> list_all (progress_action i) (catalog_actions evs) \<and> Scripts_Outdated \<notin> set evs"

lemma quiet_simps [simp]:
  "quiet_events i []" "quiet_events i (evs @ evs') \<longleftrightarrow> quiet_events i evs \<and> quiet_events i evs'"
  by (auto simp: quiet_events_def)

lemma quiet_install [simp]: "quiet_events i (fst (install_script e s reload rank text))"
  by (auto simp: quiet_events_def install_script_def split: option.splits)

lemma quiet_single [simp]:
  "quiet_events i (Catalog_Action (CATALOG_UPDATE_SCHEMA_SCRIPT i) # evs) = quiet_events i evs" "quiet_events i (ask i qid text)"
  "quiet_events i (Asked_Metadata # evs) = quiet_events i evs"
  by (simp_all add: quiet_events_def ask_def)

lemma quiet_relations [simp]: "quiet_events i (fst (install_relations e i source generate))"
  unfolding install_relations_def by (cases "ce_relations e") (simp_all split: option.split)

lemma quiet_functions [simp]: "quiet_events i (fst (updatePgFunctionScript e db))"
  unfolding updatePgFunctionScript_def by (cases "ce_functions e") (simp_all split: option.split)

lemma quiet_pg: "quiet_events i (fst (fst (updatePgCatalog e i db schemas)))" "quiet_events i (snd (updatePgCatalog e i db schemas))"
  by (auto simp: updatePgCatalog_def updatePgSchemaScript_def Let_def split: option.splits)

lemma quiet_next: "quiet_events i (fst r) \<Longrightarrow> quiet_events i (fst r') \<Longrightarrow> quiet_events i (fst (case r of (evs, Some err) \<Rightarrow> (evs, Some err) | (evs, None) \<Rightarrow> cl_then evs r'))"
  by (auto split: prod.split option.split)

lemma quiet_demo: "quiet_events i (fst (updateDemoSchemaCatalog e i))"
proof (cases "both_answers e (ce_demoSchema e) (fetchPrefetchedHyperFunctions e)")
  case (Inr x)
  then show ?thesis
    by (cases "fst x"; cases x)
      (simp_all add: updateDemoSchemaCatalog_def loadPrefetchedHyperFunctions_def split_beta quiet_next [unfolded split_beta])
qed (simp add: updateDemoSchemaCatalog_def)

lemma quiet_salesforce: "quiet_events i (fst (updateSalesforceCatalog e d))"
  unfolding updateSalesforceCatalog_def
  by (cases "both_answers e (ce_metadata e) (fetchPrefetchedHyperFunctions e)"; cases "sf_oauthState (sf_proto d)")
    (simp_all add: loadPrefetchedHyperFunctions_def split_beta quiet_next [unfolded split_beta])

lemma quiet_resolved: "resolve_catalog e i c = ((evs, err), late) \<Longrightarrow> quiet_events i evs \<and> quiet_events i late"
proof -
  have "quiet_events i (fst (fst (resolve_catalog e i c))) \<and> quiet_events i (snd (resolve_catalog e i c))"
    by (simp add: resolve_catalog_def updateInformationSchemaCatalog_def Let_def quiet_demo quiet_salesforce quiet_pg
        split: CatalogResolver.split ConnectionStateDetailsVariant.split)
  then show "resolve_catalog e i c = ((evs, err), late) \<Longrightarrow> quiet_events i evs \<and> quiet_events i late" by simp
qed

definition other_tasks :: "nat \<Rightarrow> ConnectionState \<Rightarrow> ConnectionState \<Rightarrow> bool" where
  "other_tasks i s s' \<longleftrightarrow> (\<forall>k. k \<noteq> i \<longrightarrow> js_get (tasksRunning (catalogUpdates s')) k = js_get (tasksRunning (catalogUpdates s)) k \<and>
     js_get (tasksFinished (catalogUpdates s')) k = js_get (tasksFinished (catalogUpdates s)) k) \<and>
     restoredAt (catalogUpdates s') = restoredAt (catalogUpdates s)"

lemma other_tasks_refl: "other_tasks i s s"
  by (simp add: other_tasks_def)

lemma other_tasks_trans: "other_tasks i s s' \<Longrightarrow> other_tasks i s' s'' \<Longrightarrow> other_tasks i s s''"
  by (simp add: other_tasks_def)

lemma progress_step:
  assumes "progress_action i a" "js_get (tasksRunning (catalogUpdates s)) i \<noteq> None"
  shows "fst (reduceCatalogAction now env s a) = env" "js_get (tasksRunning (catalogUpdates (snd (reduceCatalogAction now env s a)))) i \<noteq> None"
    "other_tasks i s (snd (reduceCatalogAction now env s a))"
  using assms by (cases a; auto simp: store_running_def other_tasks_def js_get_set)+

lemma progress_run:
  assumes "list_all (progress_action i) as" "js_get (tasksRunning (catalogUpdates (snd x))) i \<noteq> None"
  shows "fst (run_catalog now as x) = fst x \<and> js_get (tasksRunning (catalogUpdates (snd (run_catalog now as x)))) i \<noteq> None \<and>
    other_tasks i (snd x) (snd (run_catalog now as x)) \<and> active (snd (run_catalog now as x)) = active (snd x)"
  using assms
proof (induction as arbitrary: now x)
  case (Cons a as)
  have a: "progress_action i a" "list_all (progress_action i) as" using Cons.prems(1) by simp_all
  let ?x = "reduceCatalogAction (now 0) (fst x) (snd x) a"
  note st = progress_step [OF a(1) Cons.prems(2), of "now 0" "fst x"]
  from Cons.IH [OF a(2) st(2), of "\<lambda>n. now (Suc n)"] show ?case using st(1) other_tasks_trans [OF st(3)] by simp
qed (simp add: other_tasks_refl)

lemma late_run: "list_all (progress_action i) as \<Longrightarrow> js_get (tasksRunning (catalogUpdates (snd x))) i = None \<Longrightarrow> run_catalog now as x = x"
proof (induction as arbitrary: now x)
  case (Cons a as)
  then have "reduceCatalogAction (now 0) (fst x) (snd x) a = x" by (cases a) (auto simp: prod_eq_iff)
  then show ?case using Cons by simp
qed simp

definition catalog_writes :: "ConnectionState \<Rightarrow> conn_effect list" where
  "catalog_writes s = [StorageWrite (groupNotebookSchemaWrites (notebookId s)) (WRITE_NOTEBOOK_CATALOG_SCRIPT (notebookId s) (catalogRelationScript s)) DEBOUNCE_DURATION_NOTEBOOK_WRITE,
     StorageWrite (groupNotebookFunctionWrites (notebookId s)) (WRITE_NOTEBOOK_FUNCTION_SCRIPT (notebookId s) (catalogFunctionScript s)) DEBOUNCE_DURATION_NOTEBOOK_WRITE]"

text \<open>What ends a running update.\<close>

fun end_of_update :: "nat \<Rightarrow> CatalogAction \<Rightarrow> bool" where
  "end_of_update i (CATALOG_UPDATE_SUCCEEDED k) = (k = i)"
| "end_of_update i (CATALOG_UPDATE_FAILED k err) = (k = i)"
| "end_of_update i (CATALOG_UPDATE_CANCELLED k err) = (k = i)"
| "end_of_update i _ = False"

definition update_settled :: "nat \<Rightarrow> timestamp \<Rightarrow> bool \<Rightarrow> conn_env \<times> ConnectionState \<Rightarrow> conn_env \<times> ConnectionState \<Rightarrow> bool" where
  "update_settled i t succeeded x x' \<longleftrightarrow> (let u = catalogUpdates (snd x') in
     js_get (tasksRunning u) i = None \<and> lastFullRefresh u = Some i \<and> other_tasks i (snd x) (snd x') \<and>
     (case js_get (tasksFinished u) i of None \<Rightarrow> False
      | Some task \<Rightarrow> finishedAt task = Some t \<and> t_status task \<noteq> STARTED \<and> (t_status task = CatalogUpdateTaskStatus.SUCCEEDED \<longleftrightarrow> succeeded)) \<and>
     effects (fst x') = effects (fst x) @ (if succeeded \<and> active (snd x) then catalog_writes (snd x') else []))"

lemma end_step:
  assumes "end_of_update i a" "js_get (tasksRunning (catalogUpdates s)) i \<noteq> None"
  shows "update_settled i now (a = CATALOG_UPDATE_SUCCEEDED i) (env, s) (reduceCatalogAction now env s a)"
  using assms
  by (cases a) (auto simp: update_settled_def other_tasks_def finish_update_def js_get_set js_get_delete succeed_update_def fail_update_def
      cancel_update_def persist_catalog_def catalog_writes_def emit_def Let_def)

lemma settled_after: 
  assumes "update_settled i t b y x'" "fst y = fst x" "other_tasks i (snd x) (snd y)" "active (snd y) = active (snd x)"
  shows "update_settled i t b x x'"
  using assms other_tasks_trans [OF assms(3)] by (auto simp: update_settled_def Let_def)

lemma update_run:
  assumes "ce_executor e"
  shows "\<exists>n. update_settled i (now n) (Scripts_Outdated \<in> set (fst (update_catalog_impl e (Some c) i))) x
    (run_catalog now (catalog_actions (fst (update_catalog_impl e (Some c) i))) x)"
proof -
  obtain evs err late where r: "resolve_catalog e i c = ((evs, err), late)" by (metis prod.exhaust)
  define fin where "fin = (case err of None \<Rightarrow> CATALOG_UPDATE_SUCCEEDED i
    | Some z \<Rightarrow> if err_abort_name z then CATALOG_UPDATE_CANCELLED i (err_self z) else CATALOG_UPDATE_FAILED i (err_self z))"
  let ?all = "fst (update_catalog_impl e (Some c) i)" and ?as = "catalog_actions evs" and ?n = "\<lambda>n. now (Suc n)"
  have q: "list_all (progress_action i) ?as" "list_all (progress_action i) (catalog_actions late)" "Scripts_Outdated \<notin> set evs \<union> set late"
    using quiet_resolved [OF r] by (auto simp: quiet_events_def)
  have all: "?all = Catalog_Action (UPDATE_CATALOG i (initial_update e i)) # evs @ Catalog_Action fin # (if err = None then [Scripts_Outdated] else []) @ late"
    using assms r by (simp add: update_catalog_impl_def fin_def split: option.split)
  have acts: "catalog_actions ?all = UPDATE_CATALOG i (initial_update e i) # ?as @ fin # catalog_actions late"
    by (simp add: all)
  have out: "Scripts_Outdated \<in> set ?all \<longleftrightarrow> fin = CATALOG_UPDATE_SUCCEEDED i"
    using q(3) by (auto simp: all fin_def split: option.split)
  have fin: "end_of_update i fin" by (simp add: fin_def split: option.split)
  let ?x0 = "(fst x, update_catalog i (initial_update e i) (snd x))"
  have x0: "js_get (tasksRunning (catalogUpdates (snd ?x0))) i \<noteq> None" "other_tasks i (snd x) (snd ?x0)" "active (snd ?x0) = active (snd x)"
    by (simp_all add: update_catalog_def other_tasks_def js_get_set)
  let ?x1 = "run_catalog ?n ?as ?x0"
  note x1 = progress_run [OF q(1) x0(1), of ?n]
  let ?t = "?n (length ?as)" and ?x2 = "reduceCatalogAction (?n (length ?as)) (fst ?x1) (snd ?x1) fin"
  have "update_settled i ?t (fin = CATALOG_UPDATE_SUCCEEDED i) ?x1 ?x2" 
    by (rule end_step [OF fin, of "snd ?x1" ?t "fst ?x1", unfolded prod.collapse]) (use x1 in blast)
  then have s: "update_settled i ?t (fin = CATALOG_UPDATE_SUCCEEDED i) x ?x2"
    by (rule settled_after) (use x1 x0 other_tasks_trans in auto)
  then have "js_get (tasksRunning (catalogUpdates (snd ?x2))) i = None" by (simp add: update_settled_def Let_def)
  then have "run_catalog now (catalog_actions ?all) x = ?x2"
    by (simp add: acts run_catalog_append late_run [OF q(2)])
  then show ?thesis using s out by (intro exI [of _ "Suc (length ?as)"]) simp
qed

lemma catalog_update_run:
  assumes "ce_executor e" "run_catalog now (catalog_actions (fst (update_catalog_impl e (Some c) i))) (env, s) = (env', s')"
  shows "\<exists>n. update_settled i (now n) (Scripts_Outdated \<in> set (fst (update_catalog_impl e (Some c) i))) (env, s) (env', s')"
  using update_run [OF assms(1), of i now c "(env, s)"] assms(2) by simp

section \<open>Among other actions\<close>

text \<open>The actions of a connection one after the other, the clock read anew for each; nothing when a reducer throws.\<close>

fun run_connection :: "bool \<Rightarrow> (nat \<Rightarrow> clock) \<Rightarrow> ConnectionStateAction list \<Rightarrow> conn_env \<times> ConnectionState \<Rightarrow>
    (conn_env \<times> ConnectionState) option" where
  "run_connection isNative clk [] x = Some x"
| "run_connection isNative clk (a # as) x = (case reduceConnectionState isNative (clk 0) (fst x) (snd x) a of
     Inl _ \<Rightarrow> None | Inr y \<Rightarrow> run_connection isNative (\<lambda>n. clk (Suc n)) as y)"

fun updated_task :: "CatalogAction \<Rightarrow> nat option" where
  "updated_task (SET_CATALOG_SCRIPT h) = None"
| "updated_task (UPDATE_CATALOG k u) = Some k"
| "updated_task (CATALOG_UPDATE_REGISTER_QUERY k q) = Some k"
| "updated_task (CATALOG_UPDATE_SCHEMA_SCRIPT k) = Some k"
| "updated_task (CATALOG_UPDATE_CANCELLED k err) = Some k"
| "updated_task (CATALOG_UPDATE_FAILED k err) = Some k"
| "updated_task (CATALOG_UPDATE_SUCCEEDED k) = Some k"

text \<open>Actions of anyone else: everything but a reset of the connection and actions on the update itself.\<close>

definition foreign_action :: "nat \<Rightarrow> ConnectionStateAction \<Rightarrow> bool" where
  "foreign_action i a \<longleftrightarrow> a \<noteq> Connector (Common RESET_CONNECTION) \<and>
     (case a of Catalog c \<Rightarrow> updated_task c \<noteq> Some i | _ \<Rightarrow> True)"

abbreviation running_task :: "nat \<Rightarrow> conn_env \<times> ConnectionState \<Rightarrow> CatalogUpdateTaskState option" where
  "running_task i x \<equiv> js_get (tasksRunning (catalogUpdates (snd x))) i"

abbreviation finished_task :: "nat \<Rightarrow> conn_env \<times> ConnectionState \<Rightarrow> CatalogUpdateTaskState option" where
  "finished_task i x \<equiv> js_get (tasksFinished (catalogUpdates (snd x))) i"

lemma run_connection_append: "run_connection isNative clk (as @ bs) x =
    Option.bind (run_connection isNative clk as x) (run_connection isNative (\<lambda>n. clk (length as + n)) bs)"
  by (induction as arbitrary: clk x) (simp_all split: sum.split)

lemma shuffle_split:
  "zs \<in> shuffles (xs @ a # ys) bs \<Longrightarrow>
    \<exists>zs1 zs2 bs1 bs2. zs = zs1 @ a # zs2 \<and> zs1 \<in> shuffles xs bs1 \<and> zs2 \<in> shuffles ys bs2 \<and> bs = bs1 @ bs2"
proof (induction zs arbitrary: xs bs)
  case (Cons z zs)
  from Cons.prems consider "zs \<in> shuffles (tl (xs @ a # ys)) bs" "z = hd (xs @ a # ys)"
    | b bs' where "bs = b # bs'" "z = b" "zs \<in> shuffles (xs @ a # ys) bs'"
    by (auto simp: Cons_in_shuffles_iff neq_Nil_conv)
  then show ?case
  proof cases
    case 1
    show ?thesis
    proof (cases xs)
      case Nil
      then show ?thesis using 1 by (intro exI [of _ "[]"] exI [of _ zs] exI [of _ bs]) simp
    next
      case (Cons y xs')
      from Cons.IH [of xs' bs] 1 Cons obtain zs1 zs2 bs1 bs2 where
        "zs = zs1 @ a # zs2" "zs1 \<in> shuffles xs' bs1" "zs2 \<in> shuffles ys bs2" "bs = bs1 @ bs2" by auto
      moreover have "z # zs1 \<in> shuffles xs bs1" using \<open>zs1 \<in> shuffles xs' bs1\<close> 1(2) Cons by (simp add: Cons_in_shuffles_leftI)
      ultimately show ?thesis by (intro exI [of _ "z # zs1"] exI [of _ zs2] exI [of _ bs1] exI [of _ bs2]) simp
    qed
  next
    case 2
    from Cons.IH [OF 2(3)] obtain zs1 zs2 bs1 bs2 where
      "zs = zs1 @ a # zs2" "zs1 \<in> shuffles xs bs1" "zs2 \<in> shuffles ys bs2" "bs' = bs1 @ bs2" by blast
    moreover have "z # zs1 \<in> shuffles xs (b # bs1)" using \<open>zs1 \<in> shuffles xs bs1\<close> 2(2) by (simp add: Cons_in_shuffles_rightI)
    ultimately show ?thesis using 2(1) by (intro exI [of _ "z # zs1"] exI [of _ zs2] exI [of _ "b # bs1"] exI [of _ bs2]) simp
  qed
qed simp

lemma connector_keeps_updates:
  assumes "reduce_connector_action clk env s a = Inr (env', s')"
  shows "catalogUpdates s' = catalogUpdates s"
proof -
  from assms obtain env1 s1 where step: "reduce_details clk env s (details s) a = Some (env1, s1)"
    and s': "catalogUpdates s' = catalogUpdates s1"
    by (auto simp: reduce_connector_action_def Let_def persist_def split: option.splits if_splits)
  from reduce_details_step [OF step] have "state_core s1 = state_core s" by (simp add: connector_step_def)
  then show ?thesis using s' state_core_fields(6) by simp
qed

lemma catalog_step_frame:
  assumes "updated_task a \<noteq> Some i"
  shows "running_task i (reduceCatalogAction now env s a) = running_task i (env, s) \<and>
    finished_task i (reduceCatalogAction now env s a) = finished_task i (env, s)"
  using assms by (cases a) (auto simp: store_running_def update_catalog_def finish_update_def js_get_set js_get_delete Let_def split: option.split)

lemma foreign_step:
  assumes "foreign_action i a" "reduceConnectionState isNative clk (fst x) (snd x) a = Inr y"
  shows "running_task i y = running_task i x \<and> finished_task i y = finished_task i x"
proof (cases a)
  case (Catalog c)
  then have "updated_task c \<noteq> Some i" using assms(1) by (simp add: foreign_action_def)
  then show ?thesis using assms(2) Catalog catalog_step_frame [of c i "clk 0" "fst x" "snd x"] by (cases c) auto
next
  case (Connector c)
  have d: "catalogUpdates (snd (delete_connection clk env s)) = catalogUpdates s" for env s
    using delete_connection_state [of clk env s] by (auto simp: set_details_def)
  have "catalogUpdates (snd y) = catalogUpdates (snd x)"
  proof (cases "c = Common DELETE_CONNECTION")
    case True
    then show ?thesis using assms(2) Connector d [of "fst x" "snd x"] by auto
  next
    case False
    then show ?thesis using assms Connector connector_keeps_updates [of clk "fst x" "snd x" c "fst y" "snd y"]
      by (simp add: foreign_action_def)
  qed
  then show ?thesis by simp
qed (use assms(2) in \<open>auto simp: switch_connector_type_def set_connection_active_def rename_notebook_def persist_def Let_def
    split: prod.splits if_splits\<close>)

text \<open>Before the end of an update nothing finishes it, and after its start it stays among the running ones.\<close>

definition before_end :: "nat \<Rightarrow> ConnectionStateAction \<Rightarrow> bool" where
  "before_end i a \<longleftrightarrow> foreign_action i a \<or> (\<exists>c. a = Catalog c \<and> (progress_action i c \<or> (\<exists>u. c = UPDATE_CATALOG i u)))"

lemma before_end_step:
  assumes "before_end i a" "reduceConnectionState isNative clk (fst x) (snd x) a = Inr y"
  shows "finished_task i y = finished_task i x \<and> (running_task i x \<noteq> None \<longrightarrow> running_task i y \<noteq> None) \<and>
    ((\<exists>c. a = Catalog c \<and> progress_action i c) \<and> running_task i x = None \<longrightarrow> running_task i y = None)"
proof (cases "foreign_action i a")
  case True
  then show ?thesis using foreign_step [OF True assms(2)] by (auto simp: foreign_action_def split: CatalogAction.splits elim: progress_action.elims)
next
  case False
  then obtain c where c: "a = Catalog c" "progress_action i c \<or> (\<exists>u. c = UPDATE_CATALOG i u)" using assms(1) by (auto simp: before_end_def)
  then show ?thesis using assms(2)
    by (cases c) (auto simp: store_running_def update_catalog_def js_get_set split: option.splits)
qed

lemma before_end_run:
  assumes "list_all (before_end i) as" "run_connection isNative clk as x = Some y"
  shows "finished_task i y = finished_task i x \<and> (running_task i x \<noteq> None \<longrightarrow> running_task i y \<noteq> None) \<and>
    (list_all (\<lambda>a. \<forall>u. a \<noteq> Catalog (UPDATE_CATALOG i u)) as \<and> running_task i x = None \<longrightarrow> running_task i y = None)"
  using assms
proof (induction as arbitrary: clk x)
  case (Cons a as)
  then obtain z where z: "reduceConnectionState isNative (clk 0) (fst x) (snd x) a = Inr z"
      "run_connection isNative (\<lambda>n. clk (Suc n)) as z = Some y" by (auto split: sum.splits)
  have a: "before_end i a" "list_all (before_end i) as" using Cons.prems(1) by simp_all
  have "running_task i z = None" if "\<forall>u. a \<noteq> Catalog (UPDATE_CATALOG i u)" "running_task i x = None"
    using before_end_step [OF a(1) z(1)] foreign_step [of i a, OF _ z(1)] a(1) that by (auto simp: before_end_def)
  then show ?case using before_end_step [OF a(1) z(1)] Cons.IH [OF a(2) z(2)] by auto
qed simp

lemma foreign_before_end: "foreign_action i a \<Longrightarrow> before_end i a \<and> (\<forall>u. a \<noteq> Catalog (UPDATE_CATALOG i u))"
  by (auto simp: before_end_def foreign_action_def)

lemma progress_before_end: "progress_action i c \<Longrightarrow> before_end i (Catalog c) \<and> (\<forall>u. c \<noteq> UPDATE_CATALOG i u)"
  by (cases c) (auto simp: before_end_def)

lemma update_in_a_run:
  assumes "ce_executor e" "list_all (foreign_action i) others" "run_connection isNative clk actions x = Some x'"
    "actions \<in> shuffles (map Catalog (catalog_actions (fst (update_catalog_impl e (Some c) i)))) others"
  shows "\<exists>before end after y z. actions = before @ end # after \<and> run_connection isNative clk before x = Some y \<and>
    reduceConnectionState isNative (clk (length before)) (fst y) (snd y) end = Inr z \<and> list_all (before_end i) before \<and>
    update_settled i (clk (length before) 0) (Scripts_Outdated \<in> set (fst (update_catalog_impl e (Some c) i))) y z \<and>
    running_task i x' = None \<and> finished_task i x' = finished_task i z"
proof -
  obtain evs err late where r: "resolve_catalog e i c = ((evs, err), late)" by (metis prod.exhaust)
  define fin where "fin = (case err of None \<Rightarrow> CATALOG_UPDATE_SUCCEEDED i
    | Some z \<Rightarrow> if err_abort_name z then CATALOG_UPDATE_CANCELLED i (err_self z) else CATALOG_UPDATE_FAILED i (err_self z))"
  let ?all = "fst (update_catalog_impl e (Some c) i)" and ?start = "UPDATE_CATALOG i (initial_update e i)"
  have q: "list_all (progress_action i) (catalog_actions evs)" "list_all (progress_action i) (catalog_actions late)" "Scripts_Outdated \<notin> set evs \<union> set late"
    using quiet_resolved [OF r] by (auto simp: quiet_events_def)
  have all: "?all = Catalog_Action ?start # evs @ Catalog_Action fin # (if err = None then [Scripts_Outdated] else []) @ late"
    using assms(1) r by (simp add: update_catalog_impl_def fin_def split: option.split)
  have out: "Scripts_Outdated \<in> set ?all \<longleftrightarrow> fin = CATALOG_UPDATE_SUCCEEDED i" using q(3) by (auto simp: all fin_def split: option.split)
  have fin: "end_of_update i fin" by (simp add: fin_def split: option.split)
  have acts: "map Catalog (catalog_actions ?all) =
      ([] @ Catalog ?start # map Catalog (catalog_actions evs)) @ Catalog fin # map Catalog (catalog_actions late)"
    by (simp add: all)
  from shuffle_split [OF assms(4) [unfolded acts]] obtain zs1 zs2 bs1 bs2 where
    1: "actions = zs1 @ Catalog fin # zs2" "zs1 \<in> shuffles ([] @ Catalog ?start # map Catalog (catalog_actions evs)) bs1"
      "zs2 \<in> shuffles (map Catalog (catalog_actions late)) bs2" "others = bs1 @ bs2" by blast
  from shuffle_split [OF 1(2)] obtain ws1 ws2 cs1 cs2 where
    2: "zs1 = ws1 @ Catalog ?start # ws2" "ws2 \<in> shuffles (map Catalog (catalog_actions evs)) cs2" "ws1 = cs1" "bs1 = cs1 @ cs2" by auto
  have late: "list_all (\<lambda>a. before_end i a \<and> (\<forall>u. a \<noteq> Catalog (UPDATE_CATALOG i u))) zs2"
    using q(2) assms(2) 1(3,4) foreign_before_end progress_before_end by (fastforce simp: list_all_iff set_shuffles)
  have ws: "list_all (before_end i) ws2" "list_all (before_end i) zs1"
    using q(1) assms(2) 1(4) 2 foreign_before_end progress_before_end
    by (fastforce simp: list_all_iff set_shuffles before_end_def)+
  from assms(3) obtain y where y: "run_connection isNative clk zs1 x = Some y"
      "run_connection isNative (\<lambda>n. clk (length zs1 + n)) (Catalog fin # zs2) y = Some x'"
    by (auto simp: 1(1) run_connection_append bind_eq_Some_conv)
  let ?z = "reduceCatalogAction (clk (length zs1) 0) (fst y) (snd y) fin"
  have z: "reduceConnectionState isNative (clk (length zs1)) (fst y) (snd y) (Catalog fin) = Inr ?z" using fin by (cases fin) simp_all
  have tail: "run_connection isNative (\<lambda>n. clk (length zs1 + Suc n)) zs2 ?z = Some x'" using y(2) z by simp
  from y(1) obtain w where w: "run_connection isNative (\<lambda>n. clk (length ws1 + n)) (Catalog ?start # ws2) w = Some y"
    by (auto simp: 2(1) run_connection_append bind_eq_Some_conv)
  then have "run_connection isNative (\<lambda>n. clk (length ws1 + Suc n)) ws2 (fst w, update_catalog i (initial_update e i) (snd w)) = Some y" by simp
  from before_end_run [OF ws(1) this] have "running_task i y \<noteq> None" by (simp add: update_catalog_def js_get_set)
  from end_step [OF fin this, of "clk (length zs1) 0" "fst y"]
  have st: "update_settled i (clk (length zs1) 0) (fin = CATALOG_UPDATE_SUCCEEDED i) y ?z" unfolding prod.collapse .
  then have "running_task i ?z = None" by (simp add: update_settled_def Let_def)
  moreover have "list_all (before_end i) zs2" "list_all (\<lambda>a. \<forall>u. a \<noteq> Catalog (UPDATE_CATALOG i u)) zs2"
    using late by (auto simp: list_all_iff)
  ultimately have "running_task i x' = None" "finished_task i x' = finished_task i ?z" using before_end_run [OF _ tail] by blast+
  then show ?thesis using 1(1) y(1) z ws(2) st out by (intro exI conjI) (assumption | simp)+
qed

text \<open>C23. A catalog update of a known connection whose awaited answers all arrive is finished, by exactly one of its actions,
  however its actions are interleaved with any other actions of the connection (queries, health checks, other updates) but a
  reset: until that action the task is not finished, the action itself takes it from the running tasks to the finished ones
  with the time and the outcome, changes no other task, and writes both catalog scripts exactly if the update succeeded and
  the connection is active then; afterwards no action removes or changes it.\<close>

theorem catalog_update_settles:
  assumes "ce_executor e" "list_all (foreign_action i) others" "run_connection isNative clk actions x = Some x'"
    "actions \<in> shuffles (map Catalog (catalog_actions (fst (update_catalog_impl e (Some c) i)))) others"
  shows "\<exists>n y z. n < length actions \<and> run_connection isNative clk (take n actions) x = Some y \<and>
    run_connection isNative clk (take (Suc n) actions) x = Some z \<and>
    (\<forall>m w. m \<le> n \<and> run_connection isNative clk (take m actions) x = Some w \<longrightarrow> finished_task i w = finished_task i x) \<and>
    update_settled i (clk n 0) (Scripts_Outdated \<in> set (fst (update_catalog_impl e (Some c) i))) y z \<and>
    running_task i x' = None \<and> finished_task i x' = finished_task i z"
proof -
  from update_in_a_run [OF assms] obtain before last after y z where
    r: "actions = before @ last # after" "run_connection isNative clk before x = Some y"
      "reduceConnectionState isNative (clk (length before)) (fst y) (snd y) last = Inr z" "list_all (before_end i) before"
      "update_settled i (clk (length before) 0) (Scripts_Outdated \<in> set (fst (update_catalog_impl e (Some c) i))) y z"
      "running_task i x' = None" "finished_task i x' = finished_task i z" by blast
  have "finished_task i w = finished_task i x" if "m \<le> length before" "run_connection isNative clk (take m actions) x = Some w" for m w
    using before_end_run [of i "take m before" isNative clk x w] r(1,4) that by (auto simp: list_all_iff dest: in_set_takeD)
  moreover have "run_connection isNative clk (take (Suc (length before)) actions) x = Some z" using r(1-3) by (simp add: run_connection_append)
  ultimately show ?thesis using r by (intro exI [of _ "length before"] exI [of _ y] exI [of _ z]) auto
qed

section \<open>Later requests\<close>

text \<open>Every request of the queue is decided on its own.\<close>

lemma visits_frame:
  assumes "nid \<notin> fst ` set q" "fold (visit_request now conns) q (inProgress, processed, evs) = (inProgress', processed', evs')"
  shows "(nid \<in> set inProgress' \<longleftrightarrow> nid \<in> set inProgress) \<and> (nid \<in> set processed' \<longleftrightarrow> nid \<in> set processed) \<and>
    (Update_Started nid \<in> set evs' \<longleftrightarrow> Update_Started nid \<in> set evs)"
  using assms
proof (induction q arbitrary: inProgress processed evs)
  case (Cons r q)
  obtain n force where r: "r = (n, force)" by fastforce
  obtain a b c where v: "visit_request now conns r (inProgress, processed, evs) = (a, b, c)" by (metis prod.exhaust)
  have "n \<noteq> nid" using Cons.prems(1) r by auto
  then have "nid \<in> set a \<longleftrightarrow> nid \<in> set inProgress" "nid \<in> set b \<longleftrightarrow> nid \<in> set processed" "Update_Started nid \<in> set c \<longleftrightarrow> Update_Started nid \<in> set evs"
    using v by (auto simp: r visit_request_def split: refresh_decision.splits)
  then show ?case using Cons.IH [of a b c] Cons.prems v by simp
qed simp

lemma visits_once:
  assumes "jsmap_ok q" "js_get q nid = Some force" "fold (visit_request now conns) q ([], [], []) = (inProgress', processed', evs')"
  shows "(nid \<in> set processed' \<longleftrightarrow> decide_refresh now [] conns nid force \<noteq> Stays) \<and>
    (Update_Started nid \<in> set evs' \<longleftrightarrow> (\<exists>hs. decide_refresh now [] conns nid force = Starts hs))"
proof -
  have "(nid, force) \<in> set q" using assms(2) by (rule map_of_SomeD)
  then obtain q1 q2 where q: "q = q1 @ (nid, force) # q2" by (meson split_list)
  then have out: "nid \<notin> fst ` set q1" "nid \<notin> fst ` set q2" using assms(1) by (auto simp: jsmap_ok_def)
  obtain a b c where 1: "fold (visit_request now conns) q1 ([], [], []) = (a, b, c)" by (metis prod.exhaust)
  obtain a' b' c' where 2: "visit_request now conns (nid, force) (a, b, c) = (a', b', c')" by (metis prod.exhaust)
  note n1 = visits_frame [OF out(1) 1]
  have 3: "fold (visit_request now conns) q2 (a', b', c') = (inProgress', processed', evs')" using assms(3) by (simp add: q 1 2)
  have "decide_refresh now a conns nid force = decide_refresh now [] conns nid force" using n1 by (simp add: decide_refresh_def)
  then show ?thesis using visits_frame [OF out(2) 3] n1 2 by (auto simp: visit_request_def split: refresh_decision.splits)
qed

lemma deletes_get: "js_get (fold (\<lambda>nid q. js_delete q nid) ns q) k = (if k \<in> set ns then None else js_get q k)"
  by (induction ns arbitrary: q) (simp_all add: js_get_delete)

lemma settled_decision:
  assumes "update_settled i t b x (env', s')" "t \<le> T" "js_get conns nid = Some later" "catalogUpdates later = catalogUpdates s'"
  shows "decide_refresh T [] conns nid False = (if restoredAt (catalogUpdates (snd x)) \<noteq> None \<and> tasksRunning (catalogUpdates s') = [] then Leaves else Stays)"
    "\<exists>hs. decide_refresh T [] conns nid True = Starts hs"
proof -
  from assms(1) obtain task where "js_get (tasksRunning (catalogUpdates s')) i = None" "js_get (tasksFinished (catalogUpdates s')) i = Some task"
      "finishedAt task = Some t" "lastFullRefresh (catalogUpdates s') = Some i" "restoredAt (catalogUpdates s') = restoredAt (catalogUpdates (snd x))"
    by (auto simp: update_settled_def other_tasks_def Let_def split: option.splits)
  then have "refreshed_recently T (catalogUpdates later) \<and> restoredAt (catalogUpdates later) = restoredAt (catalogUpdates (snd x))"
    using assms(2,4) by (simp add: refreshed_recently_def task_of_def CATALOG_REFRESH_AFTER_def)
  then show "decide_refresh T [] conns nid False = (if restoredAt (catalogUpdates (snd x)) \<noteq> None \<and> tasksRunning (catalogUpdates s') = [] then Leaves else Stays)"
    using assms(3,4) by (auto simp: decide_refresh_def Let_def)
  show "\<exists>hs. decide_refresh T [] conns nid True = Starts hs" using assms(3) by (simp add: decide_refresh_def Let_def)
qed

text \<open>C32. After an update of a connection, even a failed one, and as long as its catalog updates stay as they are (no reset, no
  other update), only a forced refresh starts another, at any later time and whatever else is queued. A request that is not
  forced starts nothing: it leaves the queue if the catalog was restored from disk and no other update is running, as
  intended, and otherwise stays in the queue, even when nothing is running, because the time since the refresh is computed with the wrong sign.\<close>

theorem catalog_refreshed_only_by_force:
  assumes "ce_executor e" "run_catalog now (catalog_actions (fst (update_catalog_impl e (Some c) i))) (env, s) = (env', s')"
    "\<forall>n. now n \<le> T" "js_get conns nid = Some later" "catalogUpdates later = catalogUpdates s'" "jsmap_ok queue" "js_get queue nid = Some force"
  shows "(Update_Started nid \<in> set (fst (queue_effect T conns queue)) \<longleftrightarrow> force) \<and>
    js_get (snd (queue_effect T conns queue)) nid = (if force \<or> restoredAt (catalogUpdates s) \<noteq> None \<and> tasksRunning (catalogUpdates s') = [] then None
      else Some False)"
proof -
  from catalog_update_run [OF assms(1,2)] obtain n where st: "update_settled i (now n) (Scripts_Outdated \<in> set (fst (update_catalog_impl e (Some c) i))) (env, s) (env', s')"
    by blast
  have "now n \<le> T" using assms(3) by simp
  note d = settled_decision [OF st this assms(4,5)]
  obtain a b v where v: "fold (visit_request T conns) queue ([], [], []) = (a, b, v)" by (metis prod.exhaust)
  from visits_once [OF assms(6,7) v] d show ?thesis
    by (cases force) (auto simp: queue_effect_def v deletes_get assms(7))
qed

section \<open>A concrete update\<close>

text \<open>A Trino connection whose database answers one row; names with quotes stay names.\<close>

definition demo_rows :: "CatalogRow list" where
  "demo_rows = [\<lparr>cr_catalog = Some ''c'', cr_schema = Some ''s'', cr_table = Some ''t'', cr_column = Some [QUOTE], cr_ordinal = Some 1,
     cr_dataType = Some ''bigint''\<rparr>]"

definition demo_update :: cl_env where
  "demo_update = \<lparr>ce_executor = True, ce_startedAt = 5, ce_refreshedAt = 6, ce_cancellation = 1, ce_newError = 2, ce_firstQuery = 7,
     ce_secondQuery = 8, ce_relations = Inr (Some demo_rows), ce_functions = Inr None, ce_secondFirst = False, ce_together = False,
     ce_metadata = Inr [], ce_demoSchema = Inr (Inr []), ce_prefetched = Inr (True, ''x''), ce_analyze = (\<lambda>k t. None), ce_load = (\<lambda>k r. None),
     ce_localeCompare = (\<lambda>a b. 0)\<rparr>"

lemma sample_resolver: "catalogResolver (connectorInfo sample_connection) = SQL_INFORMATION_SCHEMA"
  by (simp add: sample_connection_def createConnectionStateForType_def createConnectionState_def split_beta connectorInfoForType_def
      CONNECTOR_INFOS_def connector_info_defs)

lemma demo_resolved: "\<exists>evs late. resolve_catalog demo_update 3 sample_connection = ((evs, None), late) \<and>
    Text_Replaced Relations (relations_text demo_update InformationSchema (generateCatalogSQLFromInformationSchema demo_rows)) \<in> set evs"
proof -
  have ne: "generateCatalogSQLFromInformationSchema demo_rows \<noteq> []" by code_simp
  have "install_relations demo_update 3 InformationSchema generateCatalogSQLFromInformationSchema =
      ([Catalog_Action (CATALOG_UPDATE_SCHEMA_SCRIPT 3),
        Text_Replaced Relations (relations_text demo_update InformationSchema (generateCatalogSQLFromInformationSchema demo_rows)),
        Script_Dropped Relations, Script_Loaded Relations CATALOG_DEFAULT_DESCRIPTOR_POOL_RANK], None)"
    using ne by (simp add: install_relations_def demo_update_def install_script_def cl_then_def demo_rows_def)
  then show ?thesis
    by (simp add: resolve_catalog_def sample_resolver createTrinoConnectionStateDetails_def Let_def updateInformationSchemaCatalog_def cl_then_def)
qed

lemma demo_executor: "ce_executor demo_update"
  by (simp add: demo_update_def)

lemma demo_outdated: "Scripts_Outdated \<in> set (fst (update_catalog_impl demo_update (Some sample_connection) 3))"
  using demo_resolved by (auto simp: update_catalog_impl_def demo_executor)

theorem catalog_script_names_the_rows_witness:
  "\<exists>source sql. relations_text demo_update InformationSchema (generateCatalogSQLFromInformationSchema demo_rows) = relations_text demo_update source sql
    \<and> sql \<noteq> [] \<and> reads sql [''c'', ''s'', ''t'', [QUOTE]]"
proof -
  have "Text_Replaced Relations (relations_text demo_update InformationSchema (generateCatalogSQLFromInformationSchema demo_rows))
      \<in> set (fst (update_catalog_impl demo_update (Some sample_connection) 3))"
    using demo_resolved by (auto simp: update_catalog_impl_def demo_executor)
  moreover have "details_type (details sample_connection) \<in> {TRINO, HYPER}" by simp
  moreover have "answered_names sample_connection demo_rows = [''c'', ''s'', ''t'', [QUOTE]]"
  proof -
    have "catalog_names demo_rows = [''c'', ''s'', ''t'', [QUOTE]]" by code_simp
    then show ?thesis by (simp add: answered_names_def)
  qed
  moreover have "ce_relations demo_update = Inr (Some demo_rows)" by (simp add: demo_update_def)
  ultimately show ?thesis using catalog_script_names_the_rows [of "relations_text demo_update InformationSchema (generateCatalogSQLFromInformationSchema demo_rows)"
      demo_update sample_connection 3] by auto
qed

text \<open>A query of the connection starts between the start of the update and its end.\<close>

lemma demo_run:
  "\<exists>actions x'. actions \<in> shuffles (map Catalog (catalog_actions (fst (update_catalog_impl demo_update (Some sample_connection) 3))))
      [Query (QUERY_SENDING 5)] \<and> run_connection False (\<lambda>n k. 9) actions (sample_env, sample_connection) = Some x'"
proof -
  let ?as = "map Catalog (catalog_actions (fst (update_catalog_impl demo_update (Some sample_connection) 3)))"
  have total: "\<exists>x'. run_connection isNative clk (map Catalog as) x = Some x'" if "\<forall>h. SET_CATALOG_SCRIPT h \<notin> set as" for isNative clk as x
    using that
  proof (induction as arbitrary: clk x)
    case (Cons a as)
    have "\<exists>y. reduceConnectionState isNative (clk 0) (fst x) (snd x) (Catalog a) = Inr y" by (cases a) simp_all
    then show ?case using Cons by auto
  qed simp
  obtain evs err late where r: "resolve_catalog demo_update 3 sample_connection = ((evs, err), late)" by (metis prod.exhaust)
  then have "quiet_events 3 evs" "quiet_events 3 late" using quiet_resolved by blast+
  then have "\<forall>h. SET_CATALOG_SCRIPT h \<notin> set (catalog_actions (fst (update_catalog_impl demo_update (Some sample_connection) 3)))"
    using r by (auto simp: update_catalog_impl_def demo_executor quiet_events_def list_all_iff split: option.split)
  from total [OF this] obtain x' where "run_connection False (\<lambda>n k. 9) ?as
      (sample_env, reduceQueryAction 9 sample_connection (QUERY_SENDING 5)) = Some x'" by blast
  then have "run_connection False (\<lambda>n k. 9) (Query (QUERY_SENDING 5) # ?as) (sample_env, sample_connection) = Some x'" by simp
  moreover have "Query (QUERY_SENDING 5) # ?as \<in> shuffles ?as [Query (QUERY_SENDING 5)]"
    by (rule Cons_in_shuffles_rightI) simp
  ultimately show ?thesis by blast
qed

theorem catalog_update_settles_witness:
  "\<exists>actions x' task. run_connection False (\<lambda>n k. 9) actions (sample_env, sample_connection) = Some x' \<and> Query (QUERY_SENDING 5) \<in> set actions \<and>
    running_task 3 x' = None \<and> finished_task 3 x' = Some task \<and> finishedAt task = Some 9 \<and> t_status task = CatalogUpdateTaskStatus.SUCCEEDED"
proof -
  from demo_run obtain actions x' where r: "actions \<in> shuffles (map Catalog (catalog_actions (fst (update_catalog_impl demo_update (Some sample_connection) 3))))
      [Query (QUERY_SENDING 5)]" "run_connection False (\<lambda>n k. 9) actions (sample_env, sample_connection) = Some x'" by blast
  have "list_all (foreign_action 3) [Query (QUERY_SENDING 5)]" by (simp add: foreign_action_def)
  from catalog_update_settles [OF demo_executor this r(2,1)] obtain y z where
    "update_settled 3 9 (Scripts_Outdated \<in> set (fst (update_catalog_impl demo_update (Some sample_connection) 3))) y z"
    "running_task 3 x' = None" "finished_task 3 x' = finished_task 3 z" by blast
  then obtain task where "running_task 3 x' = None" "finished_task 3 x' = Some task" "finishedAt task = Some 9"
      "t_status task = CatalogUpdateTaskStatus.SUCCEEDED"
    using demo_outdated by (auto simp: update_settled_def Let_def split: option.splits)
  moreover have "Query (QUERY_SENDING 5) \<in> set actions" using r(1) by (simp add: set_shuffles)
  ultimately show ?thesis using r(2) by blast
qed

theorem catalog_refreshed_only_by_force_witness:
  "case run_catalog (\<lambda>n. 9) (catalog_actions (fst (update_catalog_impl demo_update (Some sample_connection) 3))) (sample_env, sample_connection) of
     (env', s') \<Rightarrow> Update_Started ''nb'' \<notin> set (fst (queue_effect 90000000 [(''nb'', s')] [(''nb'', False)]))"
proof -
  obtain env' s' where r: "run_catalog (\<lambda>n. 9) (catalog_actions (fst (update_catalog_impl demo_update (Some sample_connection) 3))) (sample_env, sample_connection) = (env', s')"
    by (metis prod.exhaust)
  from catalog_refreshed_only_by_force [OF demo_executor r, of 90000000 "[(''nb'', s')]" "''nb''" s' "[(''nb'', False)]" False]
  show ?thesis by (simp add: r jsmap_ok_def)
qed


end
