(* ===== verification/Notebook_Registry.thy ===== *)
theory Notebook_Registry
  imports Notebook_Properties Connection_Registry
begin

text \<open>The registry of notebooks, \<^verbatim>\<open>scripts/notebook_scripts_registry.tsx\<close>: the scripts of each notebook with the part of the
  core's heap they live in (notebooks share no objects), and two indices. Actions are queued and applied in one flush; an
  exception of the reducer leaves the updater with what was done before it.\<close>

section \<open>State and operations\<close>

record RegisteredNotebook =
  ne_scripts :: NotebookState
  ne_world :: nb_world
  ne_connectorInfo :: ConnectorInfo
  ne_originalFileName :: "string option"

record NotebookScriptsRegistry =
  notebookScriptsMap :: "(string, RegisteredNotebook) jsmap"
  notebookScriptsByConnection :: "(string, string) jsmap"
  notebookScriptsByConnectionType :: "string list list"

definition empty_notebooks :: NotebookScriptsRegistry where
  "empty_notebooks = \<lparr>notebookScriptsMap = [], notebookScriptsByConnection = [],
     notebookScriptsByConnectionType = map (\<lambda>_. []) CONNECTOR_TYPES\<rparr>"

text \<open>What the write of a whole notebook gets to see of it.\<close>

definition scripts_to_store :: "RegisteredNotebook \<Rightarrow> NotebookScripts" where
  "scripts_to_store en = (let s = ne_scripts en in
     \<lparr>ns_notebookId = nk_notebookId s, ns_originalFileName = ne_originalFileName en, ns_connectorInfo = ne_connectorInfo en,
      ns_scripts = map (\<lambda>(k, d). (k, sd_script d)) (nk_scripts s),
      ns_scriptFolders = map (\<lambda>(f, page). (f, map (\<lambda>(n, ref). (n, rf_scriptId ref)) (pg_scripts page))) (nk_scriptFolders s),
      ns_uncommittedScriptId = nk_uncommittedScriptId s\<rparr>)"

definition allocate_notebook :: "RegisteredNotebook \<Rightarrow> NotebookScriptsRegistry \<Rightarrow> NotebookScriptsRegistry" where
  "allocate_notebook scripts reg =
    (let nid = nk_notebookId (ne_scripts scripts);
         scripts = (if ne_originalFileName scripts = Some [] then scripts\<lparr>ne_originalFileName := Some (fileShort (names (ne_connectorInfo scripts)))\<rparr>
           else scripts);
         w = ne_world scripts;
         stored = scripts\<lparr>ne_world := w\<lparr>w_writes := w_writes w @
           [(groupNotebookWrites nid, REPLACE_NOTEBOOK_SCRIPTS (scripts_to_store scripts), DEBOUNCE_DURATION_NOTEBOOK_WRITE)]\<rparr>\<rparr>
     in \<lparr>notebookScriptsMap = js_set (notebookScriptsMap reg) nid stored,
         notebookScriptsByConnection = js_set (notebookScriptsByConnection reg) nid nid,
         notebookScriptsByConnectionType = type_push (connectorType (ne_connectorInfo scripts)) nid (notebookScriptsByConnectionType reg)\<rparr>)"

definition removeNotebookScriptsFromRegistry :: "string \<Rightarrow> NotebookScriptsRegistry \<Rightarrow> NotebookScriptsRegistry" where
  "removeNotebookScriptsFromRegistry nid reg = (case js_get (notebookScriptsMap reg) nid of
      None \<Rightarrow> reg
    | Some en \<Rightarrow> \<lparr>notebookScriptsMap = js_delete (notebookScriptsMap reg) nid,
        notebookScriptsByConnection = js_delete (notebookScriptsByConnection reg) nid,
        notebookScriptsByConnectionType = type_remove (connectorType (ne_connectorInfo en)) nid (notebookScriptsByConnectionType reg)\<rparr>)"

text \<open>The deletion frees the heap of the notebook before the registry forgets it; the result is the registry and what is left
  of the heap.\<close>

definition delete_notebook :: "string \<Rightarrow> NotebookScriptsRegistry \<Rightarrow> NotebookScriptsRegistry \<times> unit nb option" where
  "delete_notebook nid reg = (case js_get (notebookScriptsMap reg) nid of
      None \<Rightarrow> (removeNotebookScriptsFromRegistry nid reg, None)
    | Some en \<Rightarrow> (case destroyNotebookScripts (ne_scripts en) (ne_world en) of
        Raise w \<Rightarrow> (reg\<lparr>notebookScriptsMap := js_set (notebookScriptsMap reg) nid (en\<lparr>ne_world := w\<rparr>)\<rparr>, Some (Raise w))
      | Return u w \<Rightarrow> (removeNotebookScriptsFromRegistry nid reg, Some (Return u w))))"

text \<open>One action of a batch, and whether it threw. The connections say which notebooks are active.\<close>

definition reduce_entry :: "(string \<Rightarrow> bool) \<Rightarrow> string \<Rightarrow> nb_env \<times> NotebookScriptsAction \<Rightarrow> RegisteredNotebook \<Rightarrow> bool \<times> RegisteredNotebook" where
  "reduce_entry isActive nid = (\<lambda>(e, action) en. case reduceNotebookScripts (e\<lparr>e_active := isActive nid\<rparr>) action (ne_scripts en) (ne_world en) of
      Return s w \<Rightarrow> (False, en\<lparr>ne_scripts := s, ne_world := w\<rparr>)
    | Raise w \<Rightarrow> (True, en\<lparr>ne_world := w\<rparr>))"

fun flush_notebook_actions :: "(string \<Rightarrow> bool) \<Rightarrow> string \<Rightarrow> (nb_env \<times> NotebookScriptsAction) list \<Rightarrow> NotebookScriptsRegistry
    \<Rightarrow> bool \<times> NotebookScriptsRegistry" where
  "flush_notebook_actions isActive nid [] reg = (False, reg)"
| "flush_notebook_actions isActive nid (a # actions) reg = (case js_get (notebookScriptsMap reg) nid of
      None \<Rightarrow> flush_notebook_actions isActive nid actions reg
    | Some prev \<Rightarrow> (case reduce_entry isActive nid a prev of (raised, en) \<Rightarrow>
        let reg' = reg\<lparr>notebookScriptsMap := js_set (notebookScriptsMap reg) nid en\<rparr>
        in if raised then (True, reg') else flush_notebook_actions isActive nid actions reg'))"

fun flush_connection_actions :: "(string \<Rightarrow> bool) \<Rightarrow> (string \<times> nb_env \<times> NotebookScriptsAction) list \<Rightarrow> NotebookScriptsRegistry
    \<Rightarrow> bool \<times> NotebookScriptsRegistry" where
  "flush_connection_actions isActive [] reg = (False, reg)"
| "flush_connection_actions isActive ((conn, a) # actions) reg =
    (case js_get (notebookScriptsByConnection reg) conn of
       None \<Rightarrow> flush_connection_actions isActive actions reg
     | Some nid \<Rightarrow>
        if nid = [] then flush_connection_actions isActive actions reg
        else (case js_get (notebookScriptsMap reg) nid of
          None \<Rightarrow> flush_connection_actions isActive actions reg
        | Some prev \<Rightarrow> (case reduce_entry isActive conn a prev of (raised, en) \<Rightarrow>
            let reg' = reg\<lparr>notebookScriptsMap := js_set (notebookScriptsMap reg) nid en\<rparr>
            in if raised then (True, reg') else flush_connection_actions isActive actions reg')))"

section \<open>The indices\<close>

definition type_of_notebook :: "RegisteredNotebook \<Rightarrow> ConnectorType" where
  "type_of_notebook en = connectorType (ne_connectorInfo en)"

definition notebooks_ok :: "NotebookScriptsRegistry \<Rightarrow> bool" where
  "notebooks_ok reg \<longleftrightarrow> length (notebookScriptsByConnectionType reg) = 4 \<and>
     (\<forall>k. js_get (notebookScriptsByConnection reg) k = (if js_has (notebookScriptsMap reg) k then Some k else None)) \<and>
     (\<forall>t k. k \<in> set (notebookScriptsByConnectionType reg ! connectorType_number t) \<longleftrightarrow>
        (\<exists>en. js_get (notebookScriptsMap reg) k = Some en \<and> type_of_notebook en = t))"

text \<open>The life of the registry: notebooks are allocated under new ids, actions are flushed, notebooks are deleted.\<close>

inductive registry_run :: "NotebookScriptsRegistry \<Rightarrow> bool" where
  start: "registry_run empty_notebooks"
| allocated: "registry_run reg \<Longrightarrow> \<not> js_has (notebookScriptsMap reg) (nk_notebookId (ne_scripts en)) \<Longrightarrow> registry_run (allocate_notebook en reg)"
| flushed: "registry_run reg \<Longrightarrow> registry_run (snd (flush_notebook_actions isActive nid actions reg))"
| flushed_for_connections: "registry_run reg \<Longrightarrow> registry_run (snd (flush_connection_actions isActive calls reg))"
| deleted: "registry_run reg \<Longrightarrow> registry_run (fst (delete_notebook nid reg))"

lemma ok_replaced:
  assumes "notebooks_ok reg" "js_get (notebookScriptsMap reg) nid = Some en" "type_of_notebook en' = type_of_notebook en"
  shows "notebooks_ok (reg\<lparr>notebookScriptsMap := js_set (notebookScriptsMap reg) nid en'\<rparr>)"
  using assms by (auto simp: notebooks_ok_def js_get_set)

lemma ok_removed: "notebooks_ok reg \<Longrightarrow> notebooks_ok (removeNotebookScriptsFromRegistry nid reg)"
  by (auto simp: removeNotebookScriptsFromRegistry_def notebooks_ok_def js_get_delete type_remove_nth type_of_notebook_def split: option.split)

lemma ok_allocated:
  assumes "notebooks_ok reg" "\<not> js_has (notebookScriptsMap reg) (nk_notebookId (ne_scripts en))"
  shows "notebooks_ok (allocate_notebook en reg)"
  using assms by (auto simp: allocate_notebook_def notebooks_ok_def js_get_set type_push_nth type_of_notebook_def Let_def)

lemma reduce_entry_type [simp]: "type_of_notebook (snd (reduce_entry isActive nid a en)) = type_of_notebook en"
  by (cases a) (auto simp: reduce_entry_def type_of_notebook_def split: nb.split)

lemma ok_flushed: "notebooks_ok reg \<Longrightarrow> notebooks_ok (snd (flush_notebook_actions isActive nid actions reg))"
proof (induction isActive nid actions reg rule: flush_notebook_actions.induct)
  case (2 isActive nid a actions reg)
  show ?case
  proof (cases "js_get (notebookScriptsMap reg) nid")
    case (Some prev)
    obtain raised en where r: "reduce_entry isActive nid a prev = (raised, en)" by fastforce
    have "notebooks_ok (reg\<lparr>notebookScriptsMap := js_set (notebookScriptsMap reg) nid en\<rparr>)"
      using ok_replaced [OF 2(3) Some, of en] reduce_entry_type [of isActive nid a prev] r by simp
    then show ?thesis using 2(2) [OF Some r [symmetric] refl] Some r by (simp add: Let_def)
  qed (use 2 in simp)
qed simp

lemma ok_flushed_for_connections: "notebooks_ok reg \<Longrightarrow> notebooks_ok (snd (flush_connection_actions isActive calls reg))"
proof (induction isActive calls reg rule: flush_connection_actions.induct)
  case (2 isActive conn a actions reg)
  show ?case
  proof (cases "js_get (notebookScriptsByConnection reg) conn")
    case (Some nid)
    show ?thesis
    proof (cases "nid \<noteq> [] \<and> js_has (notebookScriptsMap reg) nid")
      case True
      then obtain prev where prev: "js_get (notebookScriptsMap reg) nid = Some prev" by auto
      obtain raised en where r: "reduce_entry isActive conn a prev = (raised, en)" by fastforce
      have ok: "notebooks_ok (reg\<lparr>notebookScriptsMap := js_set (notebookScriptsMap reg) nid en\<rparr>)"
        using ok_replaced [OF 2(5) prev, of en] reduce_entry_type [of isActive conn a prev] r by simp
      have "nid \<noteq> []" using True by simp
      from 2(4) [OF Some this prev r [symmetric] refl] ok show ?thesis using Some True prev r by (simp add: Let_def)
    qed (use 2 Some in auto)
  qed (use 2 in simp)
qed simp

lemma ok_deleted: "notebooks_ok reg \<Longrightarrow> notebooks_ok (fst (delete_notebook nid reg))"
  by (auto simp: delete_notebook_def type_of_notebook_def intro!: ok_removed ok_replaced split: option.split nb.split)

lemma registry_run_ok: "registry_run reg \<Longrightarrow> notebooks_ok reg"
proof (induction rule: registry_run.induct)
  case start
  have "notebookScriptsByConnectionType empty_notebooks ! connectorType_number t = []" for t
    by (cases t) (simp_all add: empty_notebooks_def CONNECTOR_TYPES_def)
  then show ?case by (simp add: notebooks_ok_def) (simp add: empty_notebooks_def CONNECTOR_TYPES_def)
qed (simp_all add: ok_allocated ok_flushed ok_flushed_for_connections ok_deleted)

section \<open>Deletion\<close>

lemma drops_all:
  assumes "\<forall>d \<in> set ds. sd_script d \<in> live w"
  shows "nb_fold (\<lambda>d _ w. catalog_dropScript (sd_script d) w) ds () w =
    Return () (w\<lparr>w_catalog := filter (\<lambda>h. h \<notin> sd_script ` set ds) (w_catalog w)\<rparr>)"
  using assms
proof (induction ds arbitrary: w)
  case (Cons d ds)
  let ?w = "w\<lparr>w_catalog := removeAll (sd_script d) (w_catalog w)\<rparr>"
  have "catalog_dropScript (sd_script d) w = Return () ?w" using Cons.prems by (simp add: catalog_dropScript_def live_iff)
  moreover have "\<forall>d \<in> set ds. sd_script d \<in> live ?w" using Cons.prems by (simp add: live_def)
  moreover have "filter (\<lambda>h. h \<notin> sd_script ` set ds) (removeAll (sd_script d) (w_catalog w)) = filter (\<lambda>h. h \<notin> sd_script ` set (d # ds)) (w_catalog w)"
    by (simp add: removeAll_filter_not_eq) (rule filter_cong; auto)
  ultimately show ?case using Cons.IH [of ?w] by simp
qed simp

lemma destroys_all:
  "(\<forall>h. js_get (w_text (fold destroyScriptData ds w)) h = (if h \<in> sd_script ` set ds then None else js_get (w_text w) h)) \<and>
   (\<forall>h. js_get (w_path (fold destroyScriptData ds w)) h = (if h \<in> sd_script ` set ds then None else js_get (w_path w) h)) \<and>
   w_catalog (fold destroyScriptData ds w) = w_catalog w \<and> w_registry (fold destroyScriptData ds w) = w_registry w \<and>
   w_writes (fold destroyScriptData ds w) = w_writes w"
proof (induction ds arbitrary: w)
  case (Cons d ds)
  obtain bs where "destroyScriptData d w = (script_destroy (sd_script d) w)\<lparr>w_buffers := bs\<rparr>" using destroyScriptData_eq by blast
  then show ?case using Cons.IH [of "destroyScriptData d w"] by (auto simp: script_destroy_def js_get_delete)
qed simp

lemma no_key: "(\<And>h. js_get m h = None) \<Longrightarrow> m = []"
  using map_of_eq_empty_iff [of m] by blast

lemma all_scripts:
  assumes "\<forall>j d. js_get m j = Some d \<longrightarrow> sd_script d = j"
  shows "sd_script ` set (List.map_filter (js_get m) (script_keys m)) = fst ` set m"
proof (rule set_eqI)
  fix j
  have "j \<in> sd_script ` set (List.map_filter (js_get m) (script_keys m)) \<longleftrightarrow> (\<exists>k d. k \<in> fst ` set m \<and> js_get m k = Some d \<and> sd_script d = j)"
    by (force simp: List.map_filter_def script_keys_def)
  also have "\<dots> \<longleftrightarrow> (\<exists>d. j \<in> fst ` set m \<and> js_get m j = Some d)" using assms by metis
  also have "\<dots> \<longleftrightarrow> j \<in> fst ` set m" using keys_get_None [of m j] by blast
  finally show "j \<in> sd_script ` set (List.map_filter (js_get m) (script_keys m)) \<longleftrightarrow> j \<in> fst ` set m" .
qed

lemma focus_destroyed: "\<exists>bs. destroySemanticUserFocus f w = w\<lparr>w_buffers := bs\<rparr>"
proof (cases f)
  case None
  then have "destroySemanticUserFocus f w = w\<lparr>w_buffers := w_buffers w\<rparr>" by (simp add: destroySemanticUserFocus_def)
  then show ?thesis by blast
qed (use destroy_buffers_only(2) in \<open>simp add: destroySemanticUserFocus_def\<close>)

lemma notebook_destroyed:
  assumes "nb_inv s w"
  shows "\<exists>w'. destroyNotebookScripts s w = Return () w' \<and> w_text w' = [] \<and> w_path w' = [] \<and> w_catalog w' = [] \<and> w_registry w' = [] \<and>
    w_writes w' = w_writes w"
proof -
  have heap: "heap_ok s w" using assms by (simp only: nb_inv_def)
  define ds where "ds = List.map_filter (js_get (nk_scripts s)) (script_keys (nk_scripts s))"
  have "\<forall>j d. js_get (nk_scripts s) j = Some d \<longrightarrow> sd_script d = j" using nb_inv_live [OF assms] by blast
  from all_scripts [OF this] heap have ds: "sd_script ` set ds = live w" by (simp only: ds_def heap_ok_def)
  obtain bs where w1: "destroySemanticUserFocus (nk_semanticUserFocus s) w = w\<lparr>w_buffers := bs\<rparr>" using focus_destroyed by blast
  define w3 where "w3 = w\<lparr>w_buffers := bs, w_catalog := filter (\<lambda>h. h \<notin> live w) (w_catalog w), w_registry := []\<rparr>"
  have "\<forall>d \<in> set ds. sd_script d \<in> live (w\<lparr>w_buffers := bs\<rparr>)" using ds by (auto simp: live_def)
  from drops_all [OF this] have d: "destroyNotebookScripts s w = Return () (fold destroyScriptData ds w3)"
    by (simp add: destroyNotebookScripts_def w1 Let_def ds w3_def flip: ds_def)
  have "set (w_catalog w) \<subseteq> live w" using heap unfolding heap_ok_def by (elim conjE)
  then have c: "w_catalog w3 = []" by (auto simp: w3_def filter_empty_conv)
  have p: "js_get (w_path w) h = None" if "h \<notin> live w" for h
  proof -
    have "fst ` set (w_path w) \<subseteq> live w" using heap unfolding heap_ok_def by (elim conjE)
    then show ?thesis using that by (simp only: keys_get_None) blast
  qed
  note e = destroys_all [of ds w3, unfolded ds]
  have "w_text (fold destroyScriptData ds w3) = []" using e by (intro no_key) (simp add: live_iff w3_def)
  moreover have "w_path (fold destroyScriptData ds w3) = []" using e p by (intro no_key) (simp add: w3_def)
  moreover have "w_registry w3 = []" "w_writes w3 = w_writes w" by (simp_all add: w3_def)
  ultimately show ?thesis using d e c by simp
qed

text \<open>C18. Deleting a notebook leaves nothing behind: whatever run led to its state, the deletion does not throw, afterwards no
  script, path, catalog or registry reference of it is left in the core, no write was scheduled, no index of the registry knows
  its id, and the other notebooks are as they were.\<close>

theorem notebook_deleted_whole:
  assumes "registry_run reg" "js_get (notebookScriptsMap reg) nid = Some en" "nb_run on (ne_scripts en) (ne_world en) X st"
  shows "\<exists>reg' w'. delete_notebook nid reg = (reg', Some (Return () w')) \<and>
    w_text w' = [] \<and> w_path w' = [] \<and> w_catalog w' = [] \<and> w_registry w' = [] \<and> w_writes w' = w_writes (ne_world en) \<and>
    js_get (notebookScriptsByConnection reg') nid = None \<and>
    (\<forall>t. nid \<notin> set (notebookScriptsByConnectionType reg' ! connectorType_number t)) \<and>
    (\<forall>k. js_get (notebookScriptsMap reg') k = (if k = nid then None else js_get (notebookScriptsMap reg) k))"
proof -
  let ?reg = "removeNotebookScriptsFromRegistry nid reg"
  have "nb_inv (ne_scripts en) (ne_world en)" using run_ready [OF assms(3)] by blast
  from notebook_destroyed [OF this] obtain w' where w': "destroyNotebookScripts (ne_scripts en) (ne_world en) = Return () w'"
    "w_text w' = []" "w_path w' = []" "w_catalog w' = []" "w_registry w' = []" "w_writes w' = w_writes (ne_world en)" by blast
  have m: "js_get (notebookScriptsMap ?reg) k = (if k = nid then None else js_get (notebookScriptsMap reg) k)" for k
    using assms(2) by (simp add: removeNotebookScriptsFromRegistry_def js_get_delete)
  have "notebooks_ok ?reg" by (rule ok_removed [OF registry_run_ok [OF assms(1)]])
  then have "js_get (notebookScriptsByConnection ?reg) nid = None" "\<forall>t. nid \<notin> set (notebookScriptsByConnectionType ?reg ! connectorType_number t)"
    using m by (simp_all add: notebooks_ok_def)
  moreover have "delete_notebook nid reg = (?reg, Some (Return () w'))" using assms(2) w'(1) by (simp add: delete_notebook_def)
  ultimately show ?thesis using w' m by blast
qed

definition demo_registered :: RegisteredNotebook where
  "demo_registered = \<lparr>ne_scripts = demo_state, ne_world = demo_world, ne_connectorInfo = CONNECTOR_INFO_HYPER, ne_originalFileName = None\<rparr>"

lemma demo_registered_run: "nb_run True demo_state (demo_world\<lparr>w_writes := ws\<rparr>) {} demo_store"
proof (rule nb_run.start)
  have "notebook_setup demo_env ''nb'' (empty_world\<lparr>w_writes := ws\<rparr>) = (fst (notebook_setup demo_env ''nb'' empty_world),
      (snd (notebook_setup demo_env ''nb'' empty_world))\<lparr>w_writes := ws\<rparr>)"
    by (simp add: notebook_setup_def createScript_def createEmptyScriptData_def Let_def split_beta)
  then show "notebook_setup demo_env ''nb'' (empty_world\<lparr>w_writes := ws\<rparr>) = (demo_state, demo_world\<lparr>w_writes := ws\<rparr>)"
    by (simp add: demo_setup)
  show "fresh_world (empty_world\<lparr>w_writes := ws\<rparr>)" by (simp add: fresh_world_def empty_world_def)
  show "persisted {} demo_state (demo_world\<lparr>w_writes := ws\<rparr>) demo_store"
    using demo_persisted by (simp add: persisted_def)
qed

lemma allocated_entry:
  assumes "ne_originalFileName en \<noteq> Some []"
  shows "\<exists>ws. js_get (notebookScriptsMap (allocate_notebook en reg)) (nk_notebookId (ne_scripts en)) =
    Some (en\<lparr>ne_world := (ne_world en)\<lparr>w_writes := ws\<rparr>\<rparr>)"
  using assms by (auto simp: allocate_notebook_def Let_def js_get_set)

theorem notebook_deleted_whole_witness:
  "\<exists>reg' w'. delete_notebook ''nb'' (allocate_notebook demo_registered empty_notebooks) = (reg', Some (Return () w')) \<and> w_text w' = [] \<and>
    js_get (notebookScriptsMap reg') ''nb'' = None"
proof -
  obtain ws where "js_get (notebookScriptsMap (allocate_notebook demo_registered empty_notebooks)) (nk_notebookId (ne_scripts demo_registered)) =
      Some (demo_registered\<lparr>ne_world := (ne_world demo_registered)\<lparr>w_writes := ws\<rparr>\<rparr>)"
    using allocated_entry [of demo_registered empty_notebooks] by (auto simp: demo_registered_def)
  then have en: "js_get (notebookScriptsMap (allocate_notebook demo_registered empty_notebooks)) ''nb'' =
      Some (demo_registered\<lparr>ne_world := demo_world\<lparr>w_writes := ws\<rparr>\<rparr>)" by (simp add: demo_registered_def demo_state_def)
  have run: "registry_run (allocate_notebook demo_registered empty_notebooks)"
    by (rule registry_run.allocated [OF registry_run.start]) (simp add: empty_notebooks_def)
  have "nb_run True (ne_scripts (demo_registered\<lparr>ne_world := demo_world\<lparr>w_writes := ws\<rparr>\<rparr>)) (ne_world (demo_registered\<lparr>ne_world := demo_world\<lparr>w_writes := ws\<rparr>\<rparr>)) {} demo_store"
    using demo_registered_run by (simp add: demo_registered_def)
  from notebook_deleted_whole [OF run en this] show ?thesis by fastforce
qed

end
