(* ===== verification/Base64.thy ===== *)
theory Base64
  imports Prelude "HOL-Library.Word"
begin

text \<open>The codecs of \<^verbatim>\<open>utils/base64.ts\<close>: the default alphabet with padding and the one for URLs without. Bytes are 8-bit words; the
  loops that read three bytes or four characters at a time are recursions on lists.\<close>

unbundle bit_operations_syntax

section \<open>Tables\<close>

definition BASE64_TABLE_DEFAULT :: string where
  "BASE64_TABLE_DEFAULT = ''ABCDEFGHIJKLMNOPQRSTUVWXYZabcdefghijklmnopqrstuvwxyz0123456789+/''"

definition BASE64_TABLE_URL :: string where
  "BASE64_TABLE_URL = ''ABCDEFGHIJKLMNOPQRSTUVWXYZabcdefghijklmnopqrstuvwxyz0123456789-_''"

definition lookup_table :: "string \<Rightarrow> 8 word list" where
  "lookup_table table = fold (\<lambda>i t. t[of_char (table ! i) := of_nat i]) [0..<length table] (replicate 256 0xFF)"

definition sextet :: "string \<Rightarrow> 8 word \<Rightarrow> char" where
  "sextet table w = table ! unat w"

definition lookup_sextet :: "string \<Rightarrow> char \<Rightarrow> 8 word" where
  "lookup_sextet table c = lookup_table table ! of_char c"

section \<open>Encoding\<close>

text \<open>The groups of three bytes and the remainder; \<open>pad\<close> is false for URLs.\<close>

fun encode_bytes :: "string \<Rightarrow> bool \<Rightarrow> 8 word list \<Rightarrow> string" where
  "encode_bytes table pad (a # b # c # bs) =
    [sextet table (drop_bit 2 a), sextet table (push_bit 4 (a AND 3) OR drop_bit 4 b),
     sextet table (push_bit 2 (b AND 15) OR drop_bit 6 c), sextet table (c AND 63)] @ encode_bytes table pad bs"
| "encode_bytes table pad [a, b] =
    [sextet table (drop_bit 2 a), sextet table (push_bit 4 (a AND 3) OR drop_bit 4 b), sextet table (push_bit 2 (b AND 15))] @
    (if pad then ''='' else [])"
| "encode_bytes table pad [a] =
    [sextet table (drop_bit 2 a), sextet table (push_bit 4 (a AND 3))] @ (if pad then ''=='' else [])"
| "encode_bytes table pad [] = []"

definition encodeBase64 :: "8 word list \<Rightarrow> string" where
  "encodeBase64 bs = encode_bytes BASE64_TABLE_DEFAULT True bs"

definition encodeBase64Url :: "8 word list \<Rightarrow> string" where
  "encodeBase64Url bs = encode_bytes BASE64_TABLE_URL False bs"

section \<open>Validity\<close>

text \<open>A character before the start of the text is undefined and so never \<^verbatim>\<open>"="\<close>.\<close>

definition ends_in_pad :: "string \<Rightarrow> nat \<Rightarrow> bool" where
  "ends_in_pad s k \<longleftrightarrow> k \<le> length s \<and> s ! (length s - k) = CHR ''=''"

definition paddings :: "string \<Rightarrow> nat" where
  "paddings s = (if ends_in_pad s 1 then if ends_in_pad s 2 then 2 else 1 else 0)"

definition isValidBase64 :: "string \<Rightarrow> bool" where
  "isValidBase64 s = list_all (\<lambda>c. lookup_sextet BASE64_TABLE_DEFAULT c \<noteq> 0xFF) (take (length s - paddings s) s)"

definition isValidBase64Url :: "string \<Rightarrow> bool" where
  "isValidBase64Url s = list_all (\<lambda>c. lookup_sextet BASE64_TABLE_URL c \<noteq> 0xFF) s"

section \<open>Decoding\<close>

text \<open>The bytes in the order they are written; storing into a byte array cuts off the upper bits.\<close>

fun decode_chars :: "string \<Rightarrow> string \<Rightarrow> 8 word list" where
  "decode_chars table (p # q # r # s # cs) =
    (let e1 = lookup_sextet table p; e2 = lookup_sextet table q; e3 = lookup_sextet table r; e4 = lookup_sextet table s
     in [push_bit 2 e1 OR drop_bit 4 e2, push_bit 4 (e2 AND 15) OR drop_bit 2 e3, push_bit 6 (e3 AND 3) OR (e4 AND 63)] @ decode_chars table cs)"
| "decode_chars table [p, q, r] =
    (let e1 = lookup_sextet table p; e2 = lookup_sextet table q; e3 = lookup_sextet table r
     in [push_bit 2 e1 OR drop_bit 4 e2, push_bit 4 (e2 AND 15) OR drop_bit 2 e3])"
| "decode_chars table [p, q] =
    (let e1 = lookup_sextet table p; e2 = lookup_sextet table q in [push_bit 2 e1 OR drop_bit 4 e2])"
| "decode_chars table [p] = []"
| "decode_chars table [] = []"

text \<open>A buffer of the given size: it starts with zeros, and writes beyond its end are ignored.\<close>

definition into_buffer :: "nat \<Rightarrow> 8 word list \<Rightarrow> 8 word list" where
  "into_buffer n ws = take n (ws @ replicate n 0)"

text \<open>A negative size is a \<^verbatim>\<open>RangeError\<close>.\<close>

definition decodeBase64 :: "string \<Rightarrow> 8 word list option" where
  "decodeBase64 s = (let n = length s * 3 div 4
     in if n < paddings s then None else Some (into_buffer (n - paddings s) (decode_chars BASE64_TABLE_DEFAULT s)))"

definition getDecodedSize :: "string \<Rightarrow> nat" where
  "getDecodedSize s = (let rem = length s mod 4 in length s div 4 * 3 + (if 3 \<le> rem then 2 else if 2 \<le> rem then 1 else 0))"

definition decodeBase64Url :: "string \<Rightarrow> 8 word list" where
  "decodeBase64Url s = into_buffer (getDecodedSize s) (decode_chars BASE64_TABLE_URL s)"

section \<open>The tables are inverse\<close>

text \<open>What a codec needs of its table.\<close>

definition table_ok :: "string \<Rightarrow> bool" where
  "table_ok table \<longleftrightarrow> length table = 64 \<and> distinct table \<and> CHR ''='' \<notin> set table"

lemma tables_ok: "table_ok BASE64_TABLE_DEFAULT" "table_ok BASE64_TABLE_URL"
  by code_simp+

lemma of_char_less: "(of_char c :: nat) < 256"
  by (simp add: of_char_def)

lemma lookup_fold:
  assumes "distinct table" "n \<le> length table"
  shows "length (fold (\<lambda>i t. t[of_char (table ! i) := of_nat i]) [0..<n] (replicate 256 (0xFF :: 8 word))) = 256 \<and>
    (\<forall>i<n. fold (\<lambda>i t. t[of_char (table ! i) := of_nat i]) [0..<n] (replicate 256 (0xFF :: 8 word)) ! of_char (table ! i) = of_nat i)"
  using assms(2)
proof (induction n)
  case (Suc n)
  let ?t = "fold (\<lambda>i t. t[of_char (table ! i) := of_nat i]) [0..<n] (replicate 256 (0xFF :: 8 word))"
  have "?t[of_char (table ! n) := of_nat n] ! of_char (table ! i) = of_nat i" if "i < Suc n" for i
  proof (cases "i = n")
    case True
    then show ?thesis using Suc by (simp add: of_char_less)
  next
    case False
    then have "table ! i \<noteq> table ! n" using assms(1) that Suc.prems by (simp add: nth_eq_iff_index_eq)
    then have "(of_char (table ! n) :: nat) \<noteq> of_char (table ! i)" by (metis of_char_eq_iff)
    then show ?thesis using Suc False that by simp
  qed
  then show ?case using Suc by simp
qed simp

lemma sextet_inverse:
  assumes "table_ok table" "unat w < 64"
  shows "lookup_sextet table (sextet table w) = w" "sextet table w \<noteq> CHR ''=''"
proof -
  have t: "length table = 64" "distinct table" "CHR ''='' \<notin> set table" using assms(1) by (simp_all add: table_ok_def)
  then have "table ! unat w \<in> set table" using assms(2) by simp
  with t(3) show "sextet table w \<noteq> CHR ''=''" by (auto simp: sextet_def)
  show "lookup_sextet table (sextet table w) = w" using lookup_fold [of table 64] t(1,2) assms(2)
    by (simp add: lookup_sextet_def lookup_table_def sextet_def)
qed

lemma below_8: "n < 8 \<Longrightarrow> n = 0 \<or> n = 1 \<or> n = 2 \<or> n = 3 \<or> n = 4 \<or> n = 5 \<or> n = 6 \<or> n = (7 :: nat)"
  by arith

lemma small_sextet:
  assumes "take_bit 6 (w :: 8 word) = w"
  shows "unat w < 64"
proof -
  have "unat (take_bit 6 w) = take_bit 6 (unat w)" by (rule unsigned_take_bit_eq)
  also have "\<dots> < 2 ^ 6" by (rule take_bit_nat_less_exp)
  finally show ?thesis using assms by simp
qed

lemma sextets:
  fixes a b c :: "8 word"
  shows "unat (drop_bit 2 a) < 64" "unat (push_bit 4 (a AND 3) OR drop_bit 4 b) < 64" "unat (push_bit 2 (b AND 15) OR drop_bit 6 c) < 64"
    "unat (c AND 63) < 64" "unat (push_bit 2 (b AND 15)) < 64" "unat (push_bit 4 (a AND 3)) < 64"
  by (rule small_sextet, rule bit_word_eqI, simp, drule below_8, elim disjE; auto simp: bit_simps dest!: bit_imp_le_length)+

lemma bytes_back:
  fixes a b c :: "8 word"
  shows "push_bit 2 (drop_bit 2 a) OR drop_bit 4 (push_bit 4 (a AND 3) OR drop_bit 4 b) = a"
    "push_bit 4 ((push_bit 4 (a AND 3) OR drop_bit 4 b) AND 15) OR drop_bit 2 (push_bit 2 (b AND 15) OR drop_bit 6 c) = b"
    "push_bit 6 ((push_bit 2 (b AND 15) OR drop_bit 6 c) AND 3) OR ((c AND 63) AND 63) = c"
    "push_bit 2 (drop_bit 2 a) OR drop_bit 4 (push_bit 4 (a AND 3)) = a"
    "push_bit 4 ((push_bit 4 (a AND 3) OR drop_bit 4 b) AND 15) OR drop_bit 2 (push_bit 2 (b AND 15)) = b"
  by (rule bit_word_eqI, simp, drule below_8, elim disjE; auto simp: bit_simps dest!: bit_imp_le_length)+

section \<open>Round trips\<close>

lemmas codec = sextet_inverse [OF _ sextets(1)] sextet_inverse [OF _ sextets(2)] sextet_inverse [OF _ sextets(3)]
  sextet_inverse [OF _ sextets(4)] sextet_inverse [OF _ sextets(5)] sextet_inverse [OF _ sextets(6)] bytes_back

text \<open>The length of what is decoded from an encoding, and what is written: the bytes, then for padded texts some garbage.\<close>

lemma decode_encode_chars:
  assumes "table_ok table"
  shows "\<exists>ws. decode_chars table (encode_bytes table pad bs) = bs @ ws"
  using assms
proof (induction table pad bs rule: encode_bytes.induct)
  case (1 table pad a b c bs)
  then obtain ws where "decode_chars table (encode_bytes table pad bs) = bs @ ws" by blast
  with 1 show ?case by (simp only: encode_bytes.simps append.simps decode_chars.simps Let_def codec list.inject simp_thms)
next
  case (2 table pad a b)
  then show ?case
    by (cases pad) (simp_all only: encode_bytes.simps append.simps decode_chars.simps Let_def codec list.inject simp_thms if_True if_False, (blast+)?)
next
  case (3 table pad a)
  then show ?case
    by (cases pad) (simp_all only: encode_bytes.simps append.simps decode_chars.simps Let_def codec list.inject simp_thms if_True if_False, (blast+)?)
qed simp

lemma three_more: "length (a # b # c # bs) = length bs + 3"
  by simp

lemma encoded_length_pad: "length (encode_bytes table True bs) = 4 * ((length bs + 2) div 3)"
proof (induction table True bs rule: encode_bytes.induct)
  case (1 table a b c bs)
  have "length (encode_bytes table True (a # b # c # bs)) = 4 + length (encode_bytes table True bs)" by simp
  moreover have "4 + 4 * ((n + 2) div 3) = 4 * ((n + 3 + 2) div 3)" for n :: nat by presburger
  ultimately show ?case using 1 by (metis three_more)
qed simp_all

lemma encoded_length: "length (encode_bytes table False bs) = (4 * length bs + 2) div 3"
proof (induction table False bs rule: encode_bytes.induct)
  case (1 table a b c bs)
  have "(4 * (n + 3) + 2) div 3 = 4 + (4 * n + 2) div 3" for n :: nat by presburger
  then have "(4 * length (a # b # c # bs) + 2) div 3 = 4 + (4 * length bs + 2) div 3" by (metis three_more)
  then show ?case using 1 by simp
qed simp_all

lemma padding_apart: "encode_bytes table True bs = encode_bytes table False bs @ replicate (2 * length bs mod 3) CHR ''=''"
proof (induction table True bs rule: encode_bytes.induct)
  case (1 table a b c bs)
  have "2 * (n + 3) mod 3 = 2 * n mod 3" for n :: nat by presburger
  then have "2 * length (a # b # c # bs) mod 3 = 2 * length bs mod 3" by (metis three_more)
  then show ?case using 1 by simp
qed (simp_all add: numeral_2_eq_2)

lemma valid_sextet: "table_ok table \<Longrightarrow> unat w < 64 \<Longrightarrow> lookup_sextet table (sextet table w) \<noteq> 0xFF"
  using sextet_inverse(1) [of table w] by auto

lemma valid_chars: "table_ok table \<Longrightarrow> list_all (\<lambda>c. lookup_sextet table c \<noteq> 0xFF) (encode_bytes table False bs)"
  by (induction table False bs rule: encode_bytes.induct)
    (simp_all only: encode_bytes.simps append.simps list.pred_inject valid_sextet sextets simp_thms if_False)

lemma padded_size: "4 * ((n + 2) div 3) * 3 div 4 = n + 2 * n mod (3 :: nat)"
proof -
  have "4 * ((n + 2) div 3) * 3 div 4 = (n + 2) div 3 * 3" using nonzero_mult_div_cancel_left [of 4 "(n + 2) div 3 * 3"] by (simp only: ac_simps)
  also have "\<dots> = n + 2 * n mod 3" by presburger
  finally show ?thesis .
qed

lemma decoded_size:
  fixes n :: nat
  assumes "m = (4 * n + 2) div 3"
  shows "m div 4 * 3 + (if 3 \<le> m mod 4 then 2 else if 2 \<le> m mod 4 then 1 else 0) = n"
proof -
  define q where "q = n div 3"
  consider "n = 3 * q" | "n = 3 * q + 1" | "n = 3 * q + 2" unfolding q_def by linarith
  then consider "n = 3 * q" "m = 4 * q" | "n = 3 * q + 1" "m = 4 * q + 2" | "n = 3 * q + 2" "m = 4 * q + 3"
  proof cases
    case 1
    moreover have "m = 4 * q" unfolding assms 1 by presburger
    ultimately show ?thesis by (rule that(1))
  next
    case 2
    moreover have "m = 4 * q + 2" unfolding assms 2 by presburger
    ultimately show ?thesis by (rule that(2))
  next
    case 3
    moreover have "m = 4 * q + 3" unfolding assms 3 by presburger
    ultimately show ?thesis by (rule that(3))
  qed
  then show ?thesis by cases (simp; presburger)+
qed

lemma ends_append:
  assumes "k \<le> length ys" "0 < k"
  shows "ends_in_pad (xs @ ys) k = ends_in_pad ys k"
proof -
  have "length (xs @ ys) - k = length xs + (length ys - k)" using assms by simp
  then have "(xs @ ys) ! (length (xs @ ys) - k) = ys ! (length ys - k)" by (simp only: nth_append_length_plus)
  then show ?thesis using assms by (simp add: ends_in_pad_def)
qed

lemma paddings_append: "2 \<le> length ys \<Longrightarrow> paddings (xs @ ys) = paddings ys"
  by (simp add: paddings_def ends_append)

lemma paddings_cases:
  "y \<noteq> CHR ''='' \<Longrightarrow> paddings (xs @ [y]) = 0"
  "y \<noteq> CHR ''='' \<Longrightarrow> paddings (xs @ [y, CHR ''='']) = 1"
  "paddings (xs @ [CHR ''='', CHR ''='']) = 2"
  by (simp_all add: paddings_def ends_in_pad_def nth_append)

lemma encoded_paddings:
  assumes "table_ok table"
  shows "paddings (encode_bytes table True bs) = (2 * length bs) mod 3"
  using assms
proof (induction table True bs rule: encode_bytes.induct)
  case (1 table a b c bs)
  let ?p = "[sextet table (drop_bit 2 a), sextet table (push_bit 4 (a AND 3) OR drop_bit 4 b), sextet table (push_bit 2 (b AND 15) OR drop_bit 6 c)]"
  have e: "encode_bytes table True (a # b # c # bs) = ?p @ sextet table (c AND 63) # encode_bytes table True bs"
    by (simp only: encode_bytes.simps append.simps)
  show ?case
  proof (cases bs)
    case Nil
    have "sextet table (c AND 63) \<noteq> CHR ''=''" using codec(8) 1(2) by blast
    then have "paddings (?p @ [sextet table (c AND 63)]) = 0" by (rule paddings_cases(1))
    then show ?thesis unfolding e by (simp only: Nil encode_bytes.simps) simp
  next
    case (Cons d ds)
    have "2 \<le> length (encode_bytes table True bs)" by (simp add: encoded_length_pad Cons)
    then have "paddings ((?p @ [sextet table (c AND 63)]) @ encode_bytes table True bs) = paddings (encode_bytes table True bs)" by (rule paddings_append)
    then have "paddings (encode_bytes table True (a # b # c # bs)) = (2 * length bs) mod 3" unfolding e using 1 by simp
    also have "\<dots> = 2 * length (a # b # c # bs) mod 3" unfolding list.size by presburger
    finally show ?thesis .
  qed
next
  case (2 table a b)
  have "sextet table (push_bit 2 (b AND 15)) \<noteq> CHR ''=''" using codec(10) 2 by blast
  then have "paddings ([sextet table (drop_bit 2 a), sextet table (push_bit 4 (a AND 3) OR drop_bit 4 b)] @ [sextet table (push_bit 2 (b AND 15)), CHR ''='']) = 1"
    by (rule paddings_cases(2))
  then show ?case by (simp only: encode_bytes.simps append.simps if_True) simp
next
  case (3 table a)
  have "paddings ([sextet table (drop_bit 2 a), sextet table (push_bit 4 (a AND 3))] @ [CHR ''='', CHR ''='']) = 2" by (rule paddings_cases(3))
  then show ?case by (simp only: encode_bytes.simps append.simps if_True) simp
qed (simp add: paddings_def ends_in_pad_def)

lemma into_buffer_prefix [simp]: "into_buffer (length ws) (ws @ rest) = ws"
  by (simp add: into_buffer_def)

text \<open>C35. Both codecs give every byte sequence back: encoding and then decoding returns the bytes, the encoded text counts as
  valid, and for the alphabet of URLs the announced size is the number of bytes.\<close>

theorem base64_roundtrip: "decodeBase64 (encodeBase64 bs) = Some bs \<and> decodeBase64Url (encodeBase64Url bs) = bs \<and>
    isValidBase64 (encodeBase64 bs) \<and> isValidBase64Url (encodeBase64Url bs) \<and> getDecodedSize (encodeBase64Url bs) = length bs"
proof -
  have n: "length (encodeBase64 bs) * 3 div 4 = length bs + paddings (encodeBase64 bs)"
    unfolding encodeBase64_def encoded_length_pad encoded_paddings [OF tables_ok(1)] by (rule padded_size)
  from decode_encode_chars [OF tables_ok(1), of True bs] obtain ws where "decode_chars BASE64_TABLE_DEFAULT (encodeBase64 bs) = bs @ ws"
    by (auto simp: encodeBase64_def)
  then have "decodeBase64 (encodeBase64 bs) = Some bs" by (simp add: decodeBase64_def n Let_def)
  moreover have size: "getDecodedSize (encodeBase64Url bs) = length bs"
    unfolding getDecodedSize_def encodeBase64Url_def Let_def by (rule decoded_size [OF encoded_length])
  moreover from decode_encode_chars [OF tables_ok(2), of False bs] obtain us where "decode_chars BASE64_TABLE_URL (encodeBase64Url bs) = bs @ us"
    by (auto simp: encodeBase64Url_def)
  then have "decodeBase64Url (encodeBase64Url bs) = bs" by (simp add: decodeBase64Url_def size)
  moreover have "take (length (encodeBase64 bs) - paddings (encodeBase64 bs)) (encodeBase64 bs) = encode_bytes BASE64_TABLE_DEFAULT False bs"
    unfolding encodeBase64_def encoded_paddings [OF tables_ok(1)] by (simp add: padding_apart)
  then have "isValidBase64 (encodeBase64 bs)" using valid_chars [OF tables_ok(1)] by (simp add: isValidBase64_def)
  moreover have "isValidBase64Url (encodeBase64Url bs)" using valid_chars [OF tables_ok(2)] by (simp add: isValidBase64Url_def encodeBase64Url_def)
  ultimately show ?thesis using size by blast
qed

end
