(* ===== verification/Log_Buffer.thy ===== *)
theory Log_Buffer
  imports Prelude
begin

text \<open>The buffer of log records (\<^verbatim>\<open>platform/logger/log_buffer.ts\<close>): records are collected in chunks that are frozen when they are
  full; readers ask for a position or for the records of a trace. Observers are handles.\<close>

section \<open>Records\<close>

datatype LogLevel = Trace | Debug | Info | Warn | Error

fun level_number :: "LogLevel \<Rightarrow> nat" where
  "level_number Trace = 1"
| "level_number Debug = 2"
| "level_number Info = 3"
| "level_number Warn = 4"
| "level_number Error = 5"

fun getLogLevelName :: "LogLevel \<Rightarrow> string" where
  "getLogLevelName Trace = ''trace''"
| "getLogLevelName Debug = ''debug''"
| "getLogLevelName Info = ''info''"
| "getLogLevelName Warn = ''warn''"
| "getLogLevelName Error = ''error''"

definition parseLogLevel :: "string \<Rightarrow> LogLevel option" where
  "parseLogLevel t =
    (if t = ''trace'' then Some Trace else if t = ''debug'' then Some Debug else if t = ''info'' then Some Info
     else if t = ''warn'' then Some Warn else if t = ''error'' then Some Error else None)"

lemma parse_level_name: "parseLogLevel (getLogLevelName l) = Some l"
  by (cases l) (simp_all add: parseLogLevel_def)

record TraceInfo =
  tr_traceId :: nat
  tr_spanId :: nat
  tr_parentSpanId :: "nat option"

record LogRecord =
  lr_timestamp :: timestamp
  lr_level :: LogLevel
  lr_target :: string
  lr_message :: string
  lr_context :: "string option"
  lr_tracing :: "TraceInfo option"
  lr_keyValues :: "(string, string option) jsmap"

definition trace_of :: "LogRecord \<Rightarrow> nat option" where
  "trace_of r = map_option tr_traceId (lr_tracing r)"

section \<open>Chunks\<close>

definition TARGET_CHUNK_SIZE :: nat where
  "TARGET_CHUNK_SIZE = 1024"

record FrozenLogChunk =
  fc_entries :: "LogRecord list"
  fc_minTraceId :: "nat option"
  fc_maxTraceId :: "nat option"

definition widen :: "LogRecord \<Rightarrow> nat option \<times> nat option \<Rightarrow> nat option \<times> nat option" where
  "widen r b = (case (trace_of r, b) of
       (None, _) \<Rightarrow> b
     | (Some t, (lo, hi)) \<Rightarrow> ((case lo of None \<Rightarrow> Some t | Some l \<Rightarrow> if t < l then Some t else lo),
         (case hi of None \<Rightarrow> Some t | Some h \<Rightarrow> if t > h then Some t else hi)))"

definition freezeLogChunk :: "LogRecord list \<Rightarrow> FrozenLogChunk" where
  "freezeLogChunk rs = (let (lo, hi) = fold widen rs (None, None) in \<lparr>fc_entries = rs, fc_minTraceId = lo, fc_maxTraceId = hi\<rparr>)"

section \<open>The buffer\<close>

record LogBuffer =
  lb_version :: nat
  lb_lastEntries :: "LogRecord list"
  lb_frozenChunks :: "FrozenLogChunk list"
  lb_logObservers :: "handle list"
  lb_traceObservers :: "(nat, handle list) jsmap"
  lb_minLogLevel :: LogLevel

definition newLogBuffer :: LogBuffer where
  "newLogBuffer = \<lparr>lb_version = 1, lb_lastEntries = [], lb_frozenChunks = [], lb_logObservers = [], lb_traceObservers = [],
     lb_minLogLevel = Info\<rparr>"

definition log_length :: "LogBuffer \<Rightarrow> nat" where
  "log_length b = length (lb_lastEntries b) + length (lb_frozenChunks b) * TARGET_CHUNK_SIZE"

definition setMinLogLevel :: "LogLevel \<Rightarrow> LogBuffer \<Rightarrow> LogBuffer" where
  "setMinLogLevel l b = b\<lparr>lb_minLogLevel := l\<rparr>"

definition set_add :: "'a \<Rightarrow> 'a list \<Rightarrow> 'a list" where
  "set_add x xs = (if x \<in> set xs then xs else xs @ [x])"

text \<open>What observers are called with: the buffer or one record.\<close>

datatype notice = About_Buffer handle LogBuffer | About_Record handle LogRecord

definition subscribe :: "handle \<Rightarrow> bool \<Rightarrow> LogBuffer \<Rightarrow> notice list \<times> LogBuffer" where
  "subscribe ob callNow b = (let b = b\<lparr>lb_logObservers := set_add ob (lb_logObservers b)\<rparr> in (if callNow then [About_Buffer ob b] else [], b))"

definition subscribeTrace :: "nat \<Rightarrow> handle \<Rightarrow> LogBuffer \<Rightarrow> LogBuffer" where
  "subscribeTrace tid ob b =
    b\<lparr>lb_traceObservers := js_set (lb_traceObservers b) tid (set_add ob (case js_get (lb_traceObservers b) tid of Some obs \<Rightarrow> obs | None \<Rightarrow> []))\<rparr>"

definition unsubscribeTrace :: "nat \<Rightarrow> handle \<Rightarrow> LogBuffer \<Rightarrow> LogBuffer" where
  "unsubscribeTrace tid ob b =
    (case js_get (lb_traceObservers b) tid of
       None \<Rightarrow> b
     | Some obs \<Rightarrow> (let obs = filter (\<lambda>x. x \<noteq> ob) obs in b\<lparr>lb_traceObservers :=
         if obs = [] then js_delete (lb_traceObservers b) tid else js_set (lb_traceObservers b) tid obs\<rparr>))"

definition log_push :: "LogRecord \<Rightarrow> LogBuffer \<Rightarrow> notice list \<times> LogBuffer" where
  "log_push r b =
    (if level_number (lr_level r) < level_number (lb_minLogLevel b) then ([], b)
     else (let b = b\<lparr>lb_lastEntries := lb_lastEntries b @ [r]\<rparr>;
               b = (if length (lb_lastEntries b) > TARGET_CHUNK_SIZE
                 then b\<lparr>lb_frozenChunks := lb_frozenChunks b @ [freezeLogChunk (lb_lastEntries b)], lb_lastEntries := []\<rparr> else b);
               b = b\<lparr>lb_version := lb_version b + 1\<rparr>
           in (map (\<lambda>ob. About_Buffer ob b) (lb_logObservers b) @
             (case lr_tracing r of None \<Rightarrow> []
              | Some t \<Rightarrow> (case js_get (lb_traceObservers b) (tr_traceId t) of None \<Rightarrow> [] | Some obs \<Rightarrow> map (\<lambda>ob. About_Record ob r) obs)), b)))"

definition log_at :: "nat \<Rightarrow> LogBuffer \<Rightarrow> LogRecord option" where
  "log_at i b =
    (let frozen = length (lb_frozenChunks b) * TARGET_CHUNK_SIZE
     in if i < frozen then
          (let c = i div TARGET_CHUNK_SIZE; k = i - c * TARGET_CHUNK_SIZE
           in if length (lb_frozenChunks b) \<le> c then None
              else (let es = fc_entries (lb_frozenChunks b ! c) in if length es \<le> k then None else Some (es ! k)))
        else (let p = i - frozen in if p < length (lb_lastEntries b) then Some (lb_lastEntries b ! p) else None))"

definition chunk_skipped :: "nat \<Rightarrow> FrozenLogChunk \<Rightarrow> bool" where
  "chunk_skipped tid c \<longleftrightarrow> (case (fc_minTraceId c, fc_maxTraceId c) of (Some lo, Some hi) \<Rightarrow> tid < lo \<or> hi < tid | _ \<Rightarrow> False)"

definition collectTraceLogs :: "nat \<Rightarrow> LogBuffer \<Rightarrow> LogRecord list" where
  "collectTraceLogs tid b =
    concat (map (\<lambda>c. if chunk_skipped tid c then [] else filter (\<lambda>r. trace_of r = Some tid) (fc_entries c)) (lb_frozenChunks b)) @
    filter (\<lambda>r. trace_of r = Some tid) (lb_lastEntries b)"

section \<open>Runs\<close>

text \<open>The calls on a buffer, and the records that passed the level in force when they were pushed.\<close>

datatype log_call = Push LogRecord | Set_Level LogLevel | Subscribe handle bool | Subscribe_Trace nat handle | Unsubscribe_Trace nat handle

fun log_apply :: "log_call \<Rightarrow> LogBuffer \<Rightarrow> LogBuffer" where
  "log_apply (Push r) b = snd (log_push r b)"
| "log_apply (Set_Level l) b = setMinLogLevel l b"
| "log_apply (Subscribe ob now) b = snd (subscribe ob now b)"
| "log_apply (Subscribe_Trace t ob) b = subscribeTrace t ob b"
| "log_apply (Unsubscribe_Trace t ob) b = unsubscribeTrace t ob b"

fun accepted :: "LogLevel \<Rightarrow> log_call list \<Rightarrow> LogRecord list" where
  "accepted l [] = []"
| "accepted l (Push r # cs) = (if level_number (lr_level r) < level_number l then accepted l cs else r # accepted l cs)"
| "accepted l (Set_Level l' # cs) = accepted l' cs"
| "accepted l (_ # cs) = accepted l cs"

definition log_holds :: "LogBuffer \<Rightarrow> LogRecord list \<Rightarrow> bool" where
  "log_holds b rs \<longleftrightarrow> (\<forall>c \<in> set (lb_frozenChunks b). c = freezeLogChunk (fc_entries c) \<and> length (fc_entries c) = Suc TARGET_CHUNK_SIZE) \<and>
     length (lb_lastEntries b) \<le> TARGET_CHUNK_SIZE \<and> concat (map fc_entries (lb_frozenChunks b)) @ lb_lastEntries b = rs"

lemma frozen_entries [simp]: "fc_entries (freezeLogChunk rs) = rs"
  by (simp add: freezeLogChunk_def split: prod.split)

lemma log_push_holds:
  assumes "log_holds b rs"
  shows "log_holds (snd (log_push r b)) (rs @ (if level_number (lr_level r) < level_number (lb_minLogLevel b) then [] else [r]))"
    "lb_minLogLevel (snd (log_push r b)) = lb_minLogLevel b"
  using assms by (auto simp: log_push_def log_holds_def Let_def)

lemma log_call_holds:
  assumes "log_holds b rs"
  shows "log_holds (fold log_apply cs b) (rs @ accepted (lb_minLogLevel b) cs)"
  using assms
proof (induction cs arbitrary: b rs)
  case (Cons c cs)
  show ?case
  proof (cases c)
    case (Push r)
    note step = log_push_holds [OF Cons.prems, of r]
    from Cons.IH [OF step(1)] show ?thesis by (auto simp: Push step(2) split: if_splits)
  next
    case (Set_Level l)
    have "log_holds (setMinLogLevel l b) rs" using Cons.prems by (simp add: log_holds_def setMinLogLevel_def)
    from Cons.IH [OF this] show ?thesis by (simp add: Set_Level) (simp add: setMinLogLevel_def)
  next
    case (Subscribe ob now)
    have "log_holds (snd (subscribe ob now b)) rs" using Cons.prems by (simp add: log_holds_def subscribe_def Let_def)
    from Cons.IH [OF this] show ?thesis by (simp add: Subscribe) (simp add: subscribe_def Let_def)
  next
    case (Subscribe_Trace t ob)
    have "log_holds (subscribeTrace t ob b) rs" using Cons.prems by (simp add: log_holds_def subscribeTrace_def)
    from Cons.IH [OF this] show ?thesis by (simp add: Subscribe_Trace) (simp add: subscribeTrace_def)
  next
    case (Unsubscribe_Trace t ob)
    have "log_holds (unsubscribeTrace t ob b) rs" using Cons.prems by (simp add: log_holds_def unsubscribeTrace_def Let_def split: option.split)
    moreover have "lb_minLogLevel (unsubscribeTrace t ob b) = lb_minLogLevel b" by (simp add: unsubscribeTrace_def Let_def split: option.split)
    ultimately show ?thesis using Cons.IH [of "unsubscribeTrace t ob b" rs] by (simp add: Unsubscribe_Trace)
  qed
qed simp

lemma log_run_holds: "log_holds (fold log_apply cs newLogBuffer) (accepted Info cs)"
  using log_call_holds [of newLogBuffer "[]" cs] by (simp add: newLogBuffer_def log_holds_def)

section \<open>Traces\<close>

definition covers_traces :: "LogRecord list \<Rightarrow> nat option \<times> nat option \<Rightarrow> bool" where
  "covers_traces rs b \<longleftrightarrow> (\<forall>r \<in> set rs. \<forall>t. trace_of r = Some t \<longrightarrow> (\<exists>lo hi. b = (Some lo, Some hi) \<and> lo \<le> t \<and> t \<le> hi)) \<and>
     (fst b = None \<longleftrightarrow> snd b = None)"

lemma widen_covers: "covers_traces rs b \<Longrightarrow> covers_traces (rs @ [r]) (widen r b)"
  by (cases b) (auto simp: covers_traces_def widen_def split: option.splits)

lemma fold_widen_covers: "covers_traces qs b \<Longrightarrow> covers_traces (qs @ rs) (fold widen rs b)"
proof (induction rs arbitrary: qs b)
  case (Cons r rs)
  from Cons.IH [OF widen_covers [OF Cons.prems]] show ?case by simp
qed simp

lemma skipped_has_none:
  assumes "chunk_skipped tid (freezeLogChunk rs)"
  shows "filter (\<lambda>r. trace_of r = Some tid) rs = []"
proof -
  have "covers_traces rs (fold widen rs (None, None))" using fold_widen_covers [of "[]" "(None, None)" rs] by (simp add: covers_traces_def)
  with assms show ?thesis
    by (cases "fold widen rs (None, None)") (auto simp: freezeLogChunk_def chunk_skipped_def covers_traces_def filter_empty_conv split: option.splits)
qed

text \<open>C36. No record of a trace is lost: whatever was called on the buffer, collecting a trace returns exactly the accepted
  records of that trace, in the order they were pushed, although whole chunks are skipped by their bounds.\<close>

theorem trace_logs_complete:
  "collectTraceLogs tid (fold log_apply cs newLogBuffer) = filter (\<lambda>r. trace_of r = Some tid) (accepted Info cs)"
proof -
  let ?b = "fold log_apply cs newLogBuffer"
  have h: "\<forall>c \<in> set (lb_frozenChunks ?b). c = freezeLogChunk (fc_entries c)" "concat (map fc_entries (lb_frozenChunks ?b)) @ lb_lastEntries ?b = accepted Info cs"
    using log_run_holds [of cs] by (simp_all add: log_holds_def)
  have "(if chunk_skipped tid c then [] else filter (\<lambda>r. trace_of r = Some tid) (fc_entries c)) = filter (\<lambda>r. trace_of r = Some tid) (fc_entries c)"
    if "c \<in> set (lb_frozenChunks ?b)" for c
    using skipped_has_none [of tid "fc_entries c"] h(1) that by (metis (full_types))
  then have "collectTraceLogs tid ?b = concat (map (\<lambda>c. filter (\<lambda>r. trace_of r = Some tid) (fc_entries c)) (lb_frozenChunks ?b)) @
      filter (\<lambda>r. trace_of r = Some tid) (lb_lastEntries ?b)"
    unfolding collectTraceLogs_def by (simp cong: map_cong)
  also have "\<dots> = filter (\<lambda>r. trace_of r = Some tid) (concat (map fc_entries (lb_frozenChunks ?b)) @ lb_lastEntries ?b)"
    by (simp add: filter_concat comp_def)
  finally show ?thesis by (simp only: h(2))
qed

section \<open>Positions\<close>

lemma nth_concat_blocks:
  assumes "\<forall>xs \<in> set xss. length xs = n" "c < length xss" "k < n"
  shows "concat xss ! (c * n + k) = xss ! c ! k"
  using assms
proof (induction xss arbitrary: c)
  case (Cons xs xss)
  then show ?case by (cases c) (auto simp: nth_append)
qed simp

lemma length_concat_blocks: "\<forall>xs \<in> set xss. length xs = n \<Longrightarrow> length (concat xss) = length xss * n"
  by (induction xss) auto

text \<open>Every chunk hides a record: chunks are frozen at 1025 records but addressed as if they had 1024. After any calls, with
  \<open>q\<close> frozen chunks, the length is short by \<open>q\<close>, and a position shows the record as many places further on as chunks lie
  before it; the last record of each chunk is at no position.\<close>

theorem log_positions_skip_records:
  "case (fold log_apply cs newLogBuffer, accepted Info cs) of (b, rs) \<Rightarrow> log_length b + length rs div 1025 = length rs \<and>
    log_at i b = (if i < log_length b then Some (rs ! (i + min (i div 1024) (length rs div 1025))) else None)"
proof -
  define b where "b = fold log_apply cs newLogBuffer"
  define rs where "rs = accepted Info cs"
  let ?C = "map fc_entries (lb_frozenChunks b)" and ?q = "length (lb_frozenChunks b)" and ?l = "lb_lastEntries b"
  have h: "\<forall>xs \<in> set ?C. length xs = 1025" "length ?l \<le> 1024" "concat ?C @ ?l = rs"
    using log_run_holds [of cs] by (auto simp: log_holds_def b_def rs_def TARGET_CHUNK_SIZE_def)
  have len: "length (concat ?C) = ?q * 1025" using length_concat_blocks [OF h(1)] by simp
  have rs: "length rs = ?q * 1025 + length ?l" using len h(3) by (metis length_append)
  then have q: "length rs div 1025 = ?q" using h(2) by simp
  have size: "log_length b = length ?l + ?q * 1024" by (simp add: log_length_def TARGET_CHUNK_SIZE_def)
  have "log_at i b = (if i < log_length b then Some (rs ! (i + min (i div 1024) ?q)) else None)"
  proof (cases "i < ?q * 1024")
    case True
    let ?c = "i div 1024" and ?k = "i - i div 1024 * 1024"
    have c: "?c < ?q" using True by (simp add: less_mult_imp_div_less)
    have k: "?k < 1025" "i + ?c = ?c * 1025 + ?k" by (simp_all add: minus_div_mult_eq_mod)
    have "fc_entries (lb_frozenChunks b ! ?c) = ?C ! ?c" using c by simp
    moreover have "concat ?C ! (?c * 1025 + ?k) = ?C ! ?c ! ?k" by (rule nth_concat_blocks [OF h(1) _ k(1)]) (use c in simp)
    moreover have "?c * 1025 + ?k < ?q * 1025" using c k(1) by linarith
    moreover have "length (?C ! ?c) = 1025" using h(1) c by simp
    ultimately have "rs ! (i + ?c) = fc_entries (lb_frozenChunks b ! ?c) ! ?k" "length (fc_entries (lb_frozenChunks b ! ?c)) = 1025"
      unfolding k(2) h(3) [symmetric] using len by (simp_all only: nth_append if_True)
    moreover have "\<not> ?q \<le> ?c" "\<not> 1025 \<le> ?k" using c k(1) by (simp_all only: not_le)
    ultimately have "log_at i b = Some (rs ! (i + ?c))" using True by (simp only: log_at_def TARGET_CHUNK_SIZE_def Let_def if_True if_False)
    then show ?thesis using True c size by simp
  next
    case False
    then have "?q \<le> i div 1024" by (simp add: less_eq_div_iff_mult_less_eq)
    moreover have "rs ! (i + ?q) = ?l ! (i - ?q * 1024)" if "i < log_length b"
      using False len by (simp add: nth_append mult.commute flip: h(3))
    ultimately show ?thesis using False size by (auto simp: log_at_def TARGET_CHUNK_SIZE_def Let_def)
  qed
  then have "log_length b + length rs div 1025 = length rs \<and>
    log_at i b = (if i < log_length b then Some (rs ! (i + min (i div 1024) (length rs div 1025))) else None)" using rs size q by simp
  then show ?thesis by (simp only: b_def rs_def prod.case)
qed

end
