(* ===== verification/Int128.thy ===== *)
theory Int128
  imports Json "HOL-Library.Word"
begin

text \<open>128-bit integers and decimals (\<^verbatim>\<open>utils/int128.ts\<close>). A \<^verbatim>\<open>bigint\<close> is an integer, a buffer is its bytes; an \<^verbatim>\<open>Error\<close> is \<open>None\<close>.\<close>

unbundle bit_operations_syntax

section \<open>Buffers\<close>

text \<open>\<^verbatim>\<open>setBigUint64\<close> and \<^verbatim>\<open>getBigUint64\<close>, little endian.\<close>

definition setBigUint64 :: "nat \<Rightarrow> int \<Rightarrow> 8 word list \<Rightarrow> 8 word list" where
  "setBigUint64 offset v buf = take offset buf @ map (\<lambda>i. word_of_int (drop_bit (8 * i) v)) [0..<8] @ drop (offset + 8) buf"

definition getBigUint64 :: "nat \<Rightarrow> 8 word list \<Rightarrow> int" where
  "getBigUint64 offset buf = (\<Sum>i<8. push_bit (8 * i) (uint (buf ! (offset + i))))"

definition Int128Min :: int where
  "Int128Min = - 170141183460469231731687303715884105728"

definition Int128Max :: int where
  "Int128Max = 170141183460469231731687303715884105727"

definition UInt128Max :: int where
  "UInt128Max = 340282366920938463463374607431768211455"

definition store128 :: "int \<Rightarrow> 8 word list" where
  "store128 v = setBigUint64 8 (drop_bit 64 v) (setBigUint64 0 (v AND 0xffffffffffffffff) (replicate 16 0))"

definition load128 :: "nat \<Rightarrow> 8 word list \<Rightarrow> int" where
  "load128 offset buf = getBigUint64 offset buf OR push_bit 64 (getBigUint64 (offset + 8) buf)"

definition encodeInt128 :: "int \<Rightarrow> 8 word list option" where
  "encodeInt128 v = (if v < Int128Min \<or> v > Int128Max then None else Some (store128 (take_bit 128 v)))"

definition decodeInt128 :: "nat \<Rightarrow> 8 word list \<Rightarrow> int option" where
  "decodeInt128 offset buf = (if length buf < offset + 16 then None else Some (signed_take_bit 127 (load128 offset buf)))"

definition encodeUInt128 :: "int \<Rightarrow> 8 word list option" where
  "encodeUInt128 v = (if v < 0 \<or> v > UInt128Max then None else Some (store128 v))"

definition decodeUInt128 :: "nat \<Rightarrow> 8 word list \<Rightarrow> int option" where
  "decodeUInt128 offset buf = (if length buf < offset + 16 then None else Some (load128 offset buf))"

section \<open>Decimals\<close>

text \<open>Division of \<^verbatim>\<open>bigint\<close> truncates; \<open>factor\<close> is \<^verbatim>\<open>BigInt(Math.pow(10, scale))\<close>, exact up to a scale of 22.\<close>

definition bigint_div :: "int \<Rightarrow> int \<Rightarrow> int" where
  "bigint_div a b = (let q = \<bar>a\<bar> div \<bar>b\<bar> in if (a < 0) = (b < 0) then q else - q)"

definition cut_zeros :: "string \<Rightarrow> string" where
  "cut_zeros s = rev (dropWhile (\<lambda>c. c = CHR ''0'') (rev s))"

definition formatDecimal128 :: "int \<Rightarrow> int \<Rightarrow> string" where
  "formatDecimal128 factor num =
    (let intPart = bigint_div num factor;
         fraction = num - intPart * factor;
         fraction = (if fraction < 0 then NOT fraction else fraction);
         digits = cut_zeros (int_text fraction)
     in if digits = [] then int_text intPart else int_text intPart @ ''.'' @ digits)"

section \<open>Round trips\<close>

definition bytes64 :: "int \<Rightarrow> 8 word list" where
  "bytes64 v = map (\<lambda>i. word_of_int (drop_bit (8 * i) v)) [0..<8]"

lemma length_bytes64 [simp]: "length (bytes64 v) = 8"
  by (simp add: bytes64_def)

lemma store128_bytes: "store128 v = bytes64 (v AND 0xffffffffffffffff) @ bytes64 (drop_bit 64 v)"
  unfolding store128_def setBigUint64_def bytes64_def [symmetric] by simp

lemma take_bit_split: "take_bit (m + n) (v :: int) = take_bit m v + push_bit m (take_bit n (drop_bit m v))"
  by (simp add: take_bit_eq_mod drop_bit_eq_div push_bit_eq_mult power_add zmod_zmult2_eq algebra_simps)

lemma byte_sum: "(\<Sum>i<k. push_bit (8 * i) (take_bit 8 (drop_bit (8 * i) v))) = take_bit (8 * k) (v :: int)"
proof (induction k)
  case (Suc k)
  have "8 * Suc k = 8 * k + 8" by simp
  then show ?case using Suc take_bit_split [of "8 * k" 8 v] by (simp add: add.commute)
qed simp

lemma getBig_bytes:
  assumes "length pre = offset"
  shows "getBigUint64 offset (pre @ bytes64 v @ post) = take_bit 64 v"
proof -
  have "(pre @ bytes64 v @ post) ! (offset + i) = word_of_int (drop_bit (8 * i) v)" if "i < 8" for i
    using assms that by (simp add: nth_append bytes64_def)
  then have "getBigUint64 offset (pre @ bytes64 v @ post) = (\<Sum>i<8. push_bit (8 * i) (take_bit 8 (drop_bit (8 * i) v)))"
    unfolding getBigUint64_def by (intro sum.cong) (simp_all add: uint_word_of_int take_bit_eq_mod)
  then show ?thesis using byte_sum [of v 8] by simp
qed

lemma load_store: "load128 0 (store128 v) = take_bit 128 v"
proof -
  have "getBigUint64 0 (store128 v) = take_bit 64 (v AND 0xffffffffffffffff)"
    using getBig_bytes [of "[]" 0 _ "bytes64 (drop_bit 64 v)"] by (simp add: store128_bytes)
  moreover have "getBigUint64 8 (store128 v) = take_bit 64 (drop_bit 64 v)"
    using getBig_bytes [of "bytes64 (v AND 0xffffffffffffffff)" 8 "drop_bit 64 v" "[]"] by (simp add: store128_bytes)
  moreover have "(0xffffffffffffffff :: int) = mask 64" by (simp add: mask_eq_exp_minus_1)
  ultimately have "load128 0 (store128 v) = take_bit 64 v OR push_bit 64 (take_bit 64 (drop_bit 64 v))"
    by (simp only: load128_def add_0 take_bit_eq_mask [symmetric] take_bit_take_bit min.idem)
  also have "\<dots> = take_bit 128 v" by (rule bit_eqI) (auto simp: bit_simps)
  finally show ?thesis .
qed

lemma length_store128: "length (store128 v) = 16"
  by (simp add: store128_bytes)

lemma int128_roundtrip:
  "Option.bind (encodeInt128 v) (decodeInt128 0) = (if Int128Min \<le> v \<and> v \<le> Int128Max then Some v else None)"
  "Option.bind (encodeUInt128 v) (decodeUInt128 0) = (if 0 \<le> v \<and> v \<le> UInt128Max then Some v else None)"
proof -
  have "signed_take_bit 127 v = v" if "Int128Min \<le> v" "v \<le> Int128Max"
    using that by (intro signed_take_bit_int_eq_self) (simp_all add: Int128Min_def Int128Max_def)
  then show "Option.bind (encodeInt128 v) (decodeInt128 0) = (if Int128Min \<le> v \<and> v \<le> Int128Max then Some v else None)"
    by (auto simp: encodeInt128_def decodeInt128_def length_store128 load_store signed_take_bit_take_bit)
  have "take_bit 128 v = v" if "0 \<le> v" "v \<le> UInt128Max"
    using that by (intro take_bit_int_eq_self) (simp_all add: UInt128Max_def)
  then show "Option.bind (encodeUInt128 v) (decodeUInt128 0) = (if 0 \<le> v \<and> v \<le> UInt128Max then Some v else None)"
    by (auto simp: encodeUInt128_def decodeUInt128_def length_store128 load_store)
qed

text \<open>The zeros between the decimal point and the first digit are lost, and so are a sign before a zero and the last place of a
  negative fraction.\<close>

lemma decimal_texts:
  "formatDecimal128 100 150 = ''1.5''" "formatDecimal128 100 105 = ''1.5''" "formatDecimal128 100 (-150) = ''-1.49''"
  "formatDecimal128 100 (-50) = ''0.49''"
  by code_simp+

end
