(* ===== verification/Spec2Isabelle.thy ===== *)
theory Spec2Isabelle
  imports Connection_Properties Connection_Params Storage_Properties Agent_Properties Notebook_Properties Notebook_Sync
    Sql_Lexing Compute_Properties Compute_Analysis Compute_Filters
    Opfs_Properties Query_Executor_Properties Trino_Properties App_Restore_Properties
    Catalog_Loader Notebook_Registry Base64 Log_Buffer Int128
begin

text \<open>
A verification development for DashQL, the SQL notebook application in \<^verbatim>\<open>src/packages/dashql-app\<close>
(TypeScript). Paths below are relative to \<^verbatim>\<open>src/packages/dashql-app/src\<close>.

\<^bold>\<open>The program.\<close> The application keeps notebooks. A notebook has a connection to a database, the
scripts of its pages, and files on disk. The state of each is a record that a reducer replaces: UI
components and asynchronous drivers dispatch actions, the reducers compute the next state, change the
objects of the Wasm core, and hand writes to the storage writer, which coalesces them and calls a
storage backend later. Agent runs ask a language model for a script or a chart, check the answer and
commit it to the notebook.

\<^bold>\<open>Theories and sources.\<close>

\<^item> \<open>Prelude\<close>: clocks, handles, JavaScript's ordered \<^verbatim>\<open>Map\<close> as an association list with its laws,
  outcomes that may throw. \<open>Js_Number\<close>: the bitwise operators on numbers. \<open>Json\<close>: plain values,
  \<^verbatim>\<open>JSON.stringify\<close>, dates as ISO texts, the order-independent comparison of \<^verbatim>\<open>storage_writer.ts\<close>.
\<^item> \<open>Murmur3\<close> (\<^verbatim>\<open>utils/hash_murmur3.ts\<close>), \<open>Connection_Signature\<close>
  (\<^verbatim>\<open>utils/prng.ts\<close>, \<^verbatim>\<open>connection/connection_signature.ts\<close>): the hasher and the generator on JavaScript numbers, their
  equivalence with definitions on 32-bit words, and the unique signature of a connection.
\<^item> \<open>Connector_Types\<close>, \<open>Connection_Types\<close>: the data of
  \<^verbatim>\<open>connection/connector_info.ts\<close>, \<^verbatim>\<open>connection_state.ts\<close> and the connectors' details.
\<^item> \<open>Query_Execution\<close> (\<^verbatim>\<open>connection/query_execution_state.ts\<close>), \<open>Catalog_Update\<close>
  (\<^verbatim>\<open>catalog_update_state.tsx\<close>), \<open>Connector_Contract\<close> with \<open>Hyper_Connector\<close>, \<open>Dataless_Connector\<close>,
  \<open>Trino_Connector\<close>, \<open>Salesforce_Connector\<close> (\<^verbatim>\<open>connection/*/*_connection_state.ts\<close>): the parts of the
  connection reducer; \<open>Connection_State\<close> composes them as \<^verbatim>\<open>reduceConnectionState\<close> does. The locale
  \<open>connector\<close> states what the reducer needs of a connector's reducer; the four connectors interpret it.
  \<open>Connection_Invariants\<close> and \<open>Connection_Registry\<close> (\<^verbatim>\<open>connection_registry.tsx\<close>) hold the invariant of a
  connection and the registry with its queue of actions, \<open>Connection_Params\<close> the conversions and the
  sanitizing of parameters (\<^verbatim>\<open>connection_params.ts\<close>, \<^verbatim>\<open>connector_setup_check.ts\<close>).
\<^item> \<open>Storage_Tasks\<close>, \<open>Storage_Programs\<close>, \<open>Storage_Writer\<close> (\<^verbatim>\<open>platform/storage/storage_writer.ts\<close>): the
  keys and payloads of write tasks, \<^verbatim>\<open>executeTask\<close> as a resumption that awaits backend calls, and the
  writer as a state machine whose events are calls of its methods, timers, replies and continuations.
  \<open>Storage_Invariants\<close> has its invariants.
\<^item> \<open>Agent_Run\<close>, \<open>Agent_Prompts\<close>, \<open>Agent_Driver\<close> (\<^verbatim>\<open>agent/*.ts\<close>): state and reducer of a run, the
  reading of the model's answers, and the loop of classify, generate, verify, repair and apply.
\<^item> \<open>Script_Names\<close> (\<^verbatim>\<open>scripts/script_types.ts\<close>, \<^verbatim>\<open>script_name.ts\<close>): numbered names of files and folders,
  fresh names, the plans that renumber a page. \<open>Notebook_World\<close>: the Wasm heap with scripts and buffers,
  the catalog, the script registry (the wrappers of \<^verbatim>\<open>core/api.ts\<close>) and the writes scheduled so far.
  \<open>Notebook_State\<close>, \<open>Notebook_Folders\<close>, \<open>Notebook_Scripts\<close>, \<open>Notebook_Reducer\<close>, \<open>Notebook_Sync\<close>
  (\<^verbatim>\<open>scripts/notebook_scripts.ts\<close>, \<^verbatim>\<open>notebook_scripts_setup.tsx\<close>, \<^verbatim>\<open>view/editor/dashql_processor.ts\<close>): the
  26 actions of \<^verbatim>\<open>reduceNotebookScripts\<close>, every call that changes the heap, the catalog or the schedule
  of writes included, and the replacement of the content after a change on disk.
\<^item> \<open>Notebook_Invariants\<close>, \<open>Notebook_Store\<close>, \<open>Notebook_Moves\<close>, \<open>Notebook_Logic\<close>,
  \<open>Notebook_Kept_Texts\<close>, \<open>Notebook_Changes\<close>, \<open>Notebook_Kept_Folders\<close>, \<open>Notebook_Kept_Scripts\<close>,
  \<open>Notebook_Kept_Files\<close>, \<open>Notebook_Kept_Insertions\<close>: the invariant of a notebook, the
  effect of write tasks on the files of a storage backend that keeps the contract, the agreement of
  memory and files, and the proof that every action keeps all of it.
\<^item> \<open>Sql_Frame\<close> (\<^verbatim>\<open>sql/sqlframe_builder.ts\<close>) and \<open>Sql_Lexing\<close>: the builder of SQL texts over a data frame, and the proof
  through a lexer that no name leaves its quotes.
\<^item> \<open>Compute_Types\<close>, \<open>Cross_Filters\<close>, \<open>Compute_State\<close>, \<open>Compute_Logic\<close>, \<open>Compute_Scheduler\<close> (\<^verbatim>\<open>compute/*.ts\<close>,
  \<^verbatim>\<open>compute/computation_scheduler.tsx\<close>, \<^verbatim>\<open>view/query_result/use_cross_filters.ts\<close>): the computations over a query result, their
  reducer with the reference-counted data frames, the queries each task sends, the analysis of a table, the scheduler and
  the effect that filters a table by selections. \<open>Compute_Memory\<close> and \<open>Compute_Runs\<close> have the accounting of data frames,
  \<open>Compute_Analysis\<close>, \<open>Compute_Filters\<close> and \<open>Compute_Properties\<close> the properties.
\<^item> \<open>File_System\<close>, \<open>Query_Cache\<close> (\<^verbatim>\<open>platform/storage/query_result_cache_eviction.ts\<close>), \<open>Opfs_Backend\<close>
  (\<^verbatim>\<open>platform/storage/opfs_storage_backend.ts\<close>): the file system of the origin with its errors and every method of the backend
  as a sequence of its calls. \<open>Opfs_Tree\<close>: every method keeps the files a tree. \<open>Backend_Contract\<close>: the locale
  \<open>script_backend\<close> with what the writer relies on, and the refinement of write tasks proved in it; \<open>Opfs_Scripts\<close> and
  \<open>Opfs_Reads\<close> interpret it on the backend and show what is read back. \<open>Opfs_Properties\<close>: the way from an
  action of the notebook through the writer to the files.
\<^item> \<open>Query_Executor\<close>, \<open>Query_Executor_Properties\<close> (\<^verbatim>\<open>connection/query_executor.tsx\<close>): what the executor dispatches, asks the
  cache and computes, in order, on every path; run together with the connection's reducer. \<open>Trino_Stream\<close>,
  \<open>Trino_Properties\<close> (\<^verbatim>\<open>connection/trino/trino_channel.ts\<close>): the stream of result pages, composed with the executor.
\<^item> \<open>App_Restore\<close> (\<^verbatim>\<open>platform/storage/app_state_loader.ts\<close>, \<^verbatim>\<open>notebook_validation.ts\<close>, \<^verbatim>\<open>connection/connection_import.ts\<close>,
  \<^verbatim>\<open>utils/progress.ts\<close>): the restoration of all notebooks at start. \<open>App_Restore_Scripts\<close>: the scripts under way.
  \<open>App_Restore_Properties\<close>: a restart, composed with the runs of a notebook and the files.
\<^item> \<open>Catalog_Sql\<close> (\<^verbatim>\<open>connection/catalog_sql_generator.ts\<close>, \<^verbatim>\<open>catalog_function_sql_generator.ts\<close>) and \<open>Catalog_Loader\<close>
  (\<^verbatim>\<open>connection/catalog_loader.tsx\<close>, \<^verbatim>\<open>catalog_query_*.ts\<close>): the scripts generated from the rows of a database, read back through the
  lexer of \<open>Sql_Lexing\<close>, the updates of each connector run through the connection's reducer, and the queue of requests.
\<^item> \<open>Notebook_Registry\<close> (\<^verbatim>\<open>scripts/notebook_scripts_registry.tsx\<close>): the notebooks by id with their indices, the flushes of queued
  actions, and deletion, which frees the part of the heap a run of the notebook left.
\<^item> \<open>Base64\<close> (\<^verbatim>\<open>utils/base64.ts\<close>), \<open>Int128\<close> (\<^verbatim>\<open>utils/int128.ts\<close>), \<open>Log_Buffer\<close> (\<^verbatim>\<open>platform/logger/log_buffer.ts\<close>): the
  codecs on 8-bit words with their round trips, and the chunked buffer of log records with what collecting and positions show.
\<^item> \<open>Connection_Properties\<close>, \<open>Storage_Properties\<close>, \<open>Agent_Properties\<close>, \<open>Notebook_Properties\<close>: the
  properties that span the theories before them, with concrete runs as witnesses.

\<^bold>\<open>Conventions.\<close> A record stands for an object; an absent property is \<open>None\<close>. A \<^verbatim>\<open>Map\<close> is a \<open>jsmap\<close>, an
association list in insertion order without repeated keys. Objects that the code only holds and
compares by identity (buffers, channels, schemas) are handles, natural numbers. A reducer that may throw
returns \<open>Return\<close> or \<open>Raise\<close> (notebook) or an option (connection), so every exception is a branch.
Clock readings, random numbers and the engine's answers are functions that the definitions take as
arguments, indexed by the number of the reading, so they may differ from call to call. Strings are
lists of characters below code point 256. Numbers that JavaScript keeps below \<open>2 ^ 53\<close> are \<open>int\<close> or
\<open>nat\<close>; where the code relies on 32-bit wrap-around the conversion is written out.

\<^bold>\<open>What is shown.\<close> The hasher is MurmurHash3 and the generator a bijection; signatures are unique. The
connection invariant (queries, metrics, catalog tasks, health, connector type) holds in every reachable
state without a reset, the registry invariant after every flush, and nothing of an inactive connection is stored. The
writer accounts for every promise, coalesces writes per key and, in states without a running flush, strands no task unless
a flush was paused or resumed in its loop. An agent run ends exactly once, commits only what it verified, and asks the model
boundedly often. In every state of a notebook's run its files, scripts, folders and focus fit together, the heap holds exactly
its scripts, actions return as long as the core accepts the scripts, and the writes they schedule,
executed in order, make the files on disk agree with the notebook. The file backend refines the storage
contract, so that an action whose names are valid reaches the files; what was written is read back, and the next start
restores the notebook as it was, each notebook on its own merits (up to the signature of its connection, which is picked from
a shared map), with the progress counted out. No name breaks out of its quotes in generated SQL, and the generated columns
have names of their own. As long as actions bring in no destroyed frame, data frames in use are never dropped. The analysis
of a result succeeds exactly if none of its queries is refused; the rounds of filtering end exactly if the filter is
answered; outdated filters are ignored. The promise of a query execution is settled exactly if the awaited answers arrive,
with the query among the finished ones; the Trino driver delivers all pages when the server keeps to the states that the
loop knows, and never settles in two cases where it does not. Deleting a notebook frees all it held. A catalog update whose
answers arrive ends, whatever other actions but a reset come between, and the script it writes names what the database
answered. The cache evicts the least recently used results, no more than needed. Where the code deviates
from what it means to do (reset and deletion of connections, flushes with a pause in between, coalesced
renames, names with a slash, frames of failed tasks, corrupt cache entries, other states of Trino, positions in the log,
refreshes that are not forced) the deviation is stated as a theorem of its own, some of them on a single run.

\<^bold>\<open>Limits of the definitions.\<close> \<open>executeImpl\<close> and \<open>update_catalog_impl\<close> take every awaited answer as given; for the executor,
\<open>executeAwaited\<close> adds the executions that stop at an answer that never arrives. \<open>trino_execution\<close> is \<open>None\<close> both when its
rounds are used up and when it waits for a schema that nobody resolves; the theorem on queries that never settle holds for any
number of rounds. \<open>run_analysis\<close> leaves out the projection of embeddings, and no other action comes between its steps. The
registration of an agent run, the reading of the analysis in \<open>updatePgSchemaScript\<close> and the restoration of a connection
from details of a wrong shape do not throw. Objects used as dictionaries are maps: members that JavaScript objects inherit
are not among their keys. In the storage contract the rename of a missing source fails, where the file backend ignores it;
the theorems on a run never rename a missing source.

\<^bold>\<open>Bounds and fuel.\<close> The fuel of \<open>attempt_loop\<close> is the number of attempts of an agent run, the bound of the loop in
the code. The fuel of \<open>produce_pages\<close> is the number of rounds of the loop over result pages, which the code does not
bound: more fuel than pages is shown to be enough when the server serves them, and that no fuel is enough when it
answers without a next page. The other loops are structural recursions, or come with a termination
proof (\<^verbatim>\<open>while (true)\<close> in the signature and in the choice of script names ends because every name tried
is new and the taken ones are finitely many).

\<^bold>\<open>Parameters.\<close> The C++ core (\<open>nb_core\<close>: parsing, analysis, formatting, completion), \<^verbatim>\<open>localeCompare\<close>
(\<open>nb_env\<close>), the language model and the host of agent runs, \<^verbatim>\<open>JSON.parse\<close>, the clock and random numbers.
The storage backend is a parameter of the writer; the contract of \<^verbatim>\<open>storage_backend.ts\<close> (folders with
their files, renames fail when the source is missing, saves create or replace) is stated in
\<open>Notebook_Store\<close> and \<open>Backend_Contract\<close>, and the file backend is shown to keep it. The database that computations ask
(a function from the frame to its answer), the reader of result tables, the texts of numbers; of the file system the clock,
numeric collation and \<^verbatim>\<open>JSON.parse\<close> on texts that the application did not print (\<open>OpfsEnv\<close>); what the connector, the cache
and the server answer to the executor and to the Trino driver (\<open>qe_*\<close>, \<open>tv_*\<close>); what the backend and the core answer at
start (\<open>re_*\<close>) and to catalog updates (\<open>ce_*\<close>).

\<^bold>\<open>Not modelled.\<close> React components and hooks, CodeMirror extensions and renderers (glue over the states
modelled here); HTTP, gRPC, Docker and worker clients (I/O); the C++ and Rust packages (other
languages); the projection of embeddings (UMAP); the native and the composite storage backend, migration, import and
export of notebooks; the clients of Hyper and Salesforce and the set-up of connections (I/O);
semantic focus, routing and the remaining utilities.
\<close>

end
